(* ===== verification/Prelude.thy ===== *)
theory Prelude
  imports Main "HOL-Library.Word" "HOL-Library.Finite_Map" "HOL-Library.Char_ord"
    "HOL-Library.List_Lexorder" "HOL-Library.Monad_Syntax"
begin

text \<open>
  Shared vocabulary of the development: the Go machine integers as words, the Go map type as
  finite maps, the two theorem collections the component proofs draw on, and the generic lemmas
  on words, finite maps and sorted key lists used by more than one component.

  Conventions. A Go \<open>uint64\<close> is a \<open>64 word\<close>: \<open>+\<close>, \<open>-\<close> and \<open>*\<close> wrap. A Go \<open>string\<close> or \<open>[]byte\<close>
  is a list of bytes: \<open>string\<close> is a list of 8-bit characters in HOL, and the order of
  List\_Lexorder over Char\_ord is the byte-wise order of Go's string comparison. A Go \<open>map\<close> is an
  \<open>fmap\<close>. Go leaves the iteration order of a map open, so an operation whose result depends on it
  takes the order as an argument, a list that enumerates the keys (\<open>map_order\<close>). A Go error return
  is the left injection of a sum type.
\<close>

type_synonym u8 = "8 word"
type_synonym u16 = "16 word"
type_synonym u32 = "32 word"
type_synonym u64 = "64 word"
type_synonym go_time = int
type_synonym clock = "nat \<Rightarrow> go_time"

named_theorems op_defs \<open>definitions of operations, unfolded in invariant proofs\<close>
named_theorems inv_intros \<open>preservation facts of component invariants\<close>

section \<open>Words\<close>

lemma unat_add_no_wrap:
  fixes a b :: "'a::len word"
  assumes "unat a + unat b < 2 ^ LENGTH('a)"
  shows "unat (a + b) = unat a + unat b"
  using assms by (simp add: unat_word_ariths)

lemma unat_mult_no_wrap:
  fixes a b :: "'a::len word"
  assumes "unat a * unat b < 2 ^ LENGTH('a)"
  shows "unat (a * b) = unat a * unat b"
  using assms by (simp add: unat_word_ariths)

lemma unat_diff_le:
  fixes a b :: "'a::len word"
  assumes "b \<le> a"
  shows "unat (a - b) = unat a - unat b"
  using assms by (simp add: unat_sub)

lemma word_sub_le_self:
  fixes a b :: "'a::len word"
  assumes "b \<le> a"
  shows "a - b \<le> a"
  using assms by (simp add: word_le_nat_alt unat_sub)

lemma unat_le_fits: "n \<le> unat (x :: u64) \<Longrightarrow> n < 2 ^ 64"
  using unsigned_less [of x, where 'a = nat] by simp

lemma unat_of_nat_fits: "n < 2 ^ 64 \<Longrightarrow> unat (of_nat n :: u64) = n"
  by (simp add: unat_of_nat take_bit_nat_eq_self)

lemma unat_lt_2p64 [simp]: "unat (x :: u64) < 18446744073709551616"
  using unsigned_less [of x, where 'a = nat] by simp

lemma unat_lt_2p32 [simp]: "unat (x :: u32) < 4294967296"
  using unsigned_less [of x, where 'a = nat] by simp

lemma ucast_of_nat_unat: "(ucast x :: 'b::len word) = of_nat (unat (x :: 'a::len word))"
  by simp

lemma unat_push_bit_one: "n < 64 \<Longrightarrow> unat (push_bit n 1 :: u64) = 2 ^ n"
proof -
  assume "n < 64"
  then have "(2::nat) ^ n < 2 ^ 64" by (intro power_strict_increasing) simp_all
  moreover have "(push_bit n 1 :: u64) = of_nat (2 ^ n)" by (simp add: push_bit_eq_mult)
  ultimately show ?thesis by (simp only: unat_of_nat) (simp add: take_bit_nat_eq_self)
qed

text \<open>Go's integer division panics on a zero divisor; a panic is the value \<open>None\<close>.\<close>

definition go_div :: "'a::len word \<Rightarrow> 'a word \<Rightarrow> 'a word option" where
  "go_div a b = (if b = 0 then None else Some (a div b))"

definition go_mod :: "'a::len word \<Rightarrow> 'a word \<Rightarrow> 'a word option" where
  "go_mod a b = (if b = 0 then None else Some (a mod b))"

lemma go_div_nonzero [simp]: "b \<noteq> 0 \<Longrightarrow> go_div a b = Some (a div b)"
  by (simp add: go_div_def)

lemma go_mod_nonzero [simp]: "b \<noteq> 0 \<Longrightarrow> go_mod a b = Some (a mod b)"
  by (simp add: go_mod_def)

lemma unat_pos_iff: "0 < unat (w :: 'a::len word) \<longleftrightarrow> w \<noteq> 0"
  by (simp add: unat_gt_0)

lemma div_eq_iff_between: "0 < m \<Longrightarrow> (x :: nat) div m = k \<longleftrightarrow> k * m \<le> x \<and> x < (k + 1) * m"
  using div_nat_eqI [of m k x] dividend_less_div_times [of m x] by (auto simp: mult.commute)

section \<open>Decimal rendering\<close>

text \<open>The verbs \<open>%d\<close> and \<open>%0*d\<close> of \<open>fmt\<close> on unsigned integers.\<close>

definition digit_char :: "nat \<Rightarrow> char" where
  "digit_char d = ''0123456789'' ! (d mod 10)"

fun show_nat :: "nat \<Rightarrow> string" where
  "show_nat n = (if n < 10 then [digit_char n] else show_nat (n div 10) @ [digit_char n])"

declare show_nat.simps [simp del]

definition show_padded :: "nat \<Rightarrow> nat \<Rightarrow> string" where
  "show_padded w n = (let s = show_nat n in replicate (w - length s) CHR ''0'' @ s)"

section \<open>Go maps\<close>

text \<open>The library's congruence rule keeps the simplifier out of the filtered map; it is not used here.\<close>

declare fmfilter_cong [cong del]

text \<open>The number of entries, \<open>len(m)\<close>, and the sorted key list (\<open>sort.Strings\<close> of the keys).\<close>

definition map_len :: "('k, 'v) fmap \<Rightarrow> nat" where
  "map_len m = fcard (fmdom m)"

definition sorted_keys :: "('k::linorder, 'v) fmap \<Rightarrow> 'k list" where
  "sorted_keys m = sorted_list_of_fset (fmdom m)"

definition map_order :: "('k, 'v) fmap \<Rightarrow> 'k list \<Rightarrow> bool" where
  "map_order m ks \<longleftrightarrow> distinct ks \<and> set ks = fmdom' m"

lemma sorted_keys_simps [simp]:
  "set (sorted_keys m) = fmdom' m"
  "sorted (sorted_keys m)"
  "distinct (sorted_keys m)"
  by (simp_all add: sorted_keys_def fmdom'_alt_def sorted_list_of_fset.rep_eq)

lemma map_order_sorted_keys [simp]: "map_order m (sorted_keys m)"
  by (simp add: map_order_def)

lemma fmdom'_iff: "k \<in> fmdom' m \<longleftrightarrow> (\<exists>v. fmlookup m k = Some v)"
  by (metis fmdom'I fmdom'_notI not_None_eq)

lemma map_order_mem: "map_order m ks \<Longrightarrow> k \<in> set ks \<longleftrightarrow> (\<exists>v. fmlookup m k = Some v)"
  by (simp add: map_order_def fmdom'_iff)

lemma map_len_upd_present [simp]:
  "fmlookup m k = Some v \<Longrightarrow> map_len (fmupd k w m) = map_len m"
  by (simp add: map_len_def fmdomI finsert_absorb)

lemma map_len_upd_fresh [simp]:
  "fmlookup m k = None \<Longrightarrow> map_len (fmupd k w m) = Suc (map_len m)"
  by (simp add: map_len_def fmdom_notI fcard_finsert_disjoint)

lemma map_len_empty [simp]: "map_len fmempty = 0"
  by (simp add: map_len_def)

text \<open>Sums over the values of a map, and how updates and deletions change them.\<close>

definition fmap_total :: "('v \<Rightarrow> nat) \<Rightarrow> ('k, 'v) fmap \<Rightarrow> nat" where
  "fmap_total f m = (\<Sum>k \<in> fmdom' m. f (the (fmlookup m k)))"

lemma finite_fmdom' [simp]: "finite (fmdom' m)"
  by (simp add: fmdom'_alt_def)

lemma fmap_total_empty [simp]: "fmap_total f fmempty = 0"
  by (simp add: fmap_total_def)

lemma fmap_total_fresh: "fmlookup m k = None \<Longrightarrow> fmap_total f (fmupd k v m) = f v + fmap_total f m"
proof -
  assume "fmlookup m k = None"
  then have k: "k \<notin> fmdom' m" by (simp add: fmdom'_iff)
  then have "(\<Sum>x \<in> fmdom' m. f (the (fmlookup (fmupd k v m) x))) = fmap_total f m"
    unfolding fmap_total_def by (intro sum.cong) auto
  then show ?thesis using k by (simp add: fmap_total_def)
qed

lemma fmap_total_drop: "fmlookup m k = Some v \<Longrightarrow> fmap_total f m = f v + fmap_total f (fmdrop k m)"
proof -
  assume l: "fmlookup m k = Some v"
  have "(\<Sum>x \<in> fmdom' m - {k}. f (the (fmlookup (fmdrop k m) x))) = (\<Sum>x \<in> fmdom' m - {k}. f (the (fmlookup m x)))"
    by (intro sum.cong) auto
  moreover have "k \<in> fmdom' m" using l by (simp add: fmdom'_iff)
  ultimately show ?thesis using l by (simp add: fmap_total_def sum.remove [of "fmdom' m" k])
qed

lemma fmap_total_upd: "fmlookup m k = Some v \<Longrightarrow> fmap_total f (fmupd k w m) + f v = fmap_total f m + f w"
proof -
  assume l: "fmlookup m k = Some v"
  have "fmdrop k (fmupd k w m) = fmdrop k m" by (intro fmap_ext) simp
  then show ?thesis
    using fmap_total_drop [OF l, of f] fmap_total_drop [of "fmupd k w m" k w f] by simp
qed

lemma fmap_total_member: "fmlookup m k = Some v \<Longrightarrow> f v \<le> fmap_total f m"
  by (simp add: fmap_total_drop)

end
