(* ===== verification/Float64.thy ===== *)
theory Float64
  imports Prelude "HOL-Library.Log_Nat"
begin

text \<open>
  Go's \<open>float64\<close>, the IEEE-754 binary64 format, as the ledger code uses it: balances, fees, stakes
  and vote weights are \<open>float64\<close> values.

  Every finite binary64 value is an integral multiple of \<open>2 ^ (-1074)\<close>, so a finite value is a sign
  and a magnitude counted in that unit (\<open>Fin\<close>); the largest finite value is below \<open>2 ^ 1024\<close>, that
  is below \<open>2 ^ 2098\<close> units. Arithmetic is the exact rational result rounded to 53 significant
  bits, ties to even (\<open>round_ratio\<close>); a rounded magnitude of \<open>2 ^ 2098\<close> units or more is an infinity.
  NaN payloads are not represented. Formatting with the verb \<open>%f\<close> is at the end.

  The locale \<open>monotone_rounding\<close> is what the arithmetic lemmas need of a rounding function; it is
  interpreted on \<open>round_mag\<close>.
\<close>

datatype f64 = NaN | Inf bool | Fin bool nat

definition bit_length :: "nat \<Rightarrow> nat" where
  "bit_length n = floorlog 2 n"

text \<open>
  Round the quotient \<open>a / b\<close> to 53 significant bits: \<open>k\<close> is the number of low bits that do not fit,
  \<open>q\<close> the truncated significand and \<open>r\<close> the remainder that decides the direction.
\<close>

definition round_half_even :: "nat \<Rightarrow> nat \<Rightarrow> nat" where
  "round_half_even a d =
     (let q = a div d; r = a mod d
      in if 2 * r > d \<or> (2 * r = d \<and> odd q) then q + 1 else q)"

definition round_ratio :: "nat \<Rightarrow> nat \<Rightarrow> nat" where
  "round_ratio a b =
     (let k = bit_length (a div b) - 53
      in round_half_even a (b * 2 ^ k) * 2 ^ k)"

definition round_mag :: "nat \<Rightarrow> nat" where
  "round_mag m = round_ratio m 1"

definition max_mag :: nat where
  "max_mag = 2 ^ 2098"

definition mk_fin :: "bool \<Rightarrow> nat \<Rightarrow> f64" where
  "mk_fin s m = (if m \<ge> max_mag then Inf s else Fin s m)"

definition unit_one :: nat where
  "unit_one = 2 ^ 1074"

fun fval :: "f64 \<Rightarrow> int" where
  "fval (Fin s m) = (if s then - int m else int m)"
| "fval _ = 0"

definition fadd :: "f64 \<Rightarrow> f64 \<Rightarrow> f64" where
  "fadd x y =
     (case (x, y) of
        (Fin s m, Fin t n) \<Rightarrow>
          (let z = fval x + fval y
           in if z = 0 then Fin (s \<and> t) 0 else mk_fin (z < 0) (round_mag (nat \<bar>z\<bar>)))
      | (NaN, _) \<Rightarrow> NaN
      | (_, NaN) \<Rightarrow> NaN
      | (Inf s, Inf t) \<Rightarrow> (if s = t then Inf s else NaN)
      | (Inf s, Fin _ _) \<Rightarrow> Inf s
      | (Fin _ _, Inf t) \<Rightarrow> Inf t)"

fun fneg :: "f64 \<Rightarrow> f64" where
  "fneg (Fin s m) = Fin (\<not> s) m"
| "fneg (Inf s) = Inf (\<not> s)"
| "fneg NaN = NaN"

definition fsub :: "f64 \<Rightarrow> f64 \<Rightarrow> f64" where
  "fsub x y = fadd x (fneg y)"

definition fmul :: "f64 \<Rightarrow> f64 \<Rightarrow> f64" where
  "fmul x y =
     (case (x, y) of
        (Fin s m, Fin t n) \<Rightarrow> mk_fin (s \<noteq> t) (round_ratio (m * n) unit_one)
      | (NaN, _) \<Rightarrow> NaN
      | (_, NaN) \<Rightarrow> NaN
      | (Inf s, Inf t) \<Rightarrow> Inf (s \<noteq> t)
      | (Inf s, Fin t n) \<Rightarrow> (if n = 0 then NaN else Inf (s \<noteq> t))
      | (Fin s m, Inf t) \<Rightarrow> (if m = 0 then NaN else Inf (s \<noteq> t)))"

definition fdiv :: "f64 \<Rightarrow> f64 \<Rightarrow> f64" where
  "fdiv x y =
     (case (x, y) of
        (Fin s m, Fin t n) \<Rightarrow>
          (if n = 0 then (if m = 0 then NaN else Inf (s \<noteq> t))
           else mk_fin (s \<noteq> t) (round_ratio (m * unit_one) n))
      | (NaN, _) \<Rightarrow> NaN
      | (_, NaN) \<Rightarrow> NaN
      | (Inf s, Inf t) \<Rightarrow> NaN
      | (Inf s, Fin t n) \<Rightarrow> Inf (s \<noteq> t)
      | (Fin s m, Inf t) \<Rightarrow> Fin (s \<noteq> t) 0)"

text \<open>Comparisons: every comparison with NaN is false, and the two zeros are equal.\<close>

fun fless :: "f64 \<Rightarrow> f64 \<Rightarrow> bool" where
  "fless NaN _ = False"
| "fless _ NaN = False"
| "fless (Inf s) (Inf t) = (s \<and> \<not> t)"
| "fless (Inf s) (Fin _ _) = s"
| "fless (Fin _ _) (Inf t) = (\<not> t)"
| "fless (Fin s m) (Fin t n) = (fval (Fin s m) < fval (Fin t n))"

fun feq :: "f64 \<Rightarrow> f64 \<Rightarrow> bool" where
  "feq NaN _ = False"
| "feq _ NaN = False"
| "feq (Inf s) (Inf t) = (s = t)"
| "feq (Inf s) (Fin _ _) = False"
| "feq (Fin _ _) (Inf t) = False"
| "feq (Fin s m) (Fin t n) = (fval (Fin s m) = fval (Fin t n))"

definition fle :: "f64 \<Rightarrow> f64 \<Rightarrow> bool" where
  "fle x y \<longleftrightarrow> fless x y \<or> feq x y"

definition fzero :: f64 where
  "fzero = Fin False 0"

text \<open>Conversions from and to \<open>uint64\<close>: the first rounds, the second truncates.\<close>

definition f64_of_nat :: "nat \<Rightarrow> f64" where
  "f64_of_nat n = mk_fin False (round_mag (n * unit_one))"

text \<open>A Go constant \<open>a / b\<close> is exact until it is converted to \<open>float64\<close>.\<close>

definition f64_ratio :: "nat \<Rightarrow> nat \<Rightarrow> f64" where
  "f64_ratio a b = mk_fin False (round_ratio (a * unit_one) b)"

definition f64_of_u64 :: "u64 \<Rightarrow> f64" where
  "f64_of_u64 w = f64_of_nat (unat w)"

fun trunc_nat :: "f64 \<Rightarrow> nat" where
  "trunc_nat (Fin s m) = (if s then 0 else m div unit_one)"
| "trunc_nat _ = 0"

text \<open>
  The verb \<open>%f\<close> of \<open>fmt\<close>: six decimals, the exact value rounded half to even.
\<close>

definition millionths :: "nat \<Rightarrow> nat" where
  "millionths m = round_half_even (m * 1000000) unit_one"

fun show_f6 :: "f64 \<Rightarrow> string" where
  "show_f6 NaN = ''NaN''"
| "show_f6 (Inf s) = (if s then ''-Inf'' else ''+Inf'')"
| "show_f6 (Fin s m) =
     (let n = millionths m
      in (if s then ''-'' else []) @ show_nat (n div 1000000) @ ''.'' @ show_padded 6 (n mod 1000000))"

section \<open>Rounding\<close>

definition representable :: "nat \<Rightarrow> bool" where
  "representable m \<longleftrightarrow> 2 ^ (bit_length m - 53) dvd m"

lemma bit_length_bounds:
  assumes "0 < n"
  shows "2 ^ (bit_length n - 1) \<le> n" "n < 2 ^ bit_length n" "0 < bit_length n"
  using assms floorlog_bounds [of n 2] floorlog_eq_zero_iff [of 2 n]
  by (auto simp: bit_length_def)

lemma bit_length_mono: "m \<le> n \<Longrightarrow> bit_length m \<le> bit_length n"
  by (simp add: bit_length_def floorlog_mono)

lemma bit_length_le: "n < 2 ^ w \<Longrightarrow> bit_length n \<le> w"
  by (simp add: bit_length_def floorlog_leI)

lemma bit_length_eqI:
  assumes "2 ^ w \<le> n" "n < 2 ^ Suc w"
  shows "bit_length n = Suc w"
  using assms bit_length_le [of n "Suc w"] floorlog_ge_SucI [of 2 w n]
  by (simp add: bit_length_def)

lemma round_half_even_bounds:
  "a div d \<le> round_half_even a d" "round_half_even a d \<le> a div d + 1"
  by (auto simp: round_half_even_def Let_def)

lemma round_half_even_dvd: "0 < d \<Longrightarrow> round_half_even (c * d) d = c"
  by (simp add: round_half_even_def)

lemma round_half_even_one [simp]: "round_half_even a 1 = a" "round_half_even a (Suc 0) = a"
  by (simp_all add: round_half_even_def)

lemma round_half_even_mono:
  assumes "a \<le> a'"
  shows "round_half_even a d \<le> round_half_even a' d"
proof (cases "a div d = a' div d")
  case True
  have "a mod d \<le> a' mod d"
    using assms True by (metis add_le_cancel_left mult_div_mod_eq)
  with True show ?thesis by (auto simp: round_half_even_def Let_def)
next
  case False
  with assms have "a div d < a' div d"
    by (simp add: div_le_mono order_less_le)
  then show ?thesis
    using round_half_even_bounds(2) [of a d] round_half_even_bounds(1) [of a' d] by linarith
qed

lemma representableI:
  assumes "m = c * 2 ^ k" "c \<le> 2 ^ 53"
  shows "representable m"
proof (cases "c < 2 ^ 53")
  case True
  then have "m < 2 ^ (53 + k)" by (simp add: assms(1) power_add)
  then have "bit_length m - 53 \<le> k" using bit_length_le by fastforce
  then have "(2::nat) ^ (bit_length m - 53) dvd 2 ^ k" by (rule le_imp_power_dvd)
  then show ?thesis by (simp add: representable_def assms(1) dvd_mult)
next
  case False
  with assms have m: "m = 2 ^ (53 + k)" by (simp add: power_add)
  then have "bit_length m = Suc (53 + k)" by (intro bit_length_eqI) simp_all
  then show ?thesis by (simp only: representable_def m) (rule le_imp_power_dvd, simp)
qed

lemma representable_small: "m \<le> 2 ^ 53 \<Longrightarrow> representable m"
  by (rule representableI [of m m 0]) simp_all

lemma round_mag_small: "m < 2 ^ 53 \<Longrightarrow> round_mag m = m"
  using bit_length_le [of m 53] by (simp add: round_mag_def round_ratio_def)

lemma round_mag_large:
  assumes "2 ^ 53 \<le> m" and k: "k = bit_length m - 53"
  shows "2 ^ (52 + k) \<le> round_mag m" "round_mag m \<le> 2 ^ (53 + k)"
    "\<exists>c \<le> 2 ^ 53. round_mag m = c * 2 ^ k"
proof -
  have pos: "0 < m" using assms(1) by (simp add: order_less_le_trans [of 0 "2 ^ 53"])
  have "53 < bit_length m"
    using assms(1) bit_length_bounds(2) [OF pos] power_less_imp_less_exp [of 2 53 "bit_length m"]
    by (meson le_less_trans one_less_numeral_iff semiring_norm(76))
  then have bl: "bit_length m = 53 + k" by (simp add: k)
  have lo: "2 ^ (52 + k) \<le> m" and hi: "m < 2 ^ (53 + k)"
    using bit_length_bounds [OF pos] by (simp_all add: bl)
  have q1: "2 ^ 52 \<le> m div 2 ^ k"
    using lo by (simp add: less_eq_div_iff_mult_less_eq power_add)
  have q2: "m div 2 ^ k < 2 ^ 53"
    using hi by (simp add: div_less_iff_less_mult power_add)
  have r: "round_mag m = round_half_even m (2 ^ k) * 2 ^ k"
    by (simp add: round_mag_def round_ratio_def k Let_def)
  have c: "2 ^ 52 \<le> round_half_even m (2 ^ k)" "round_half_even m (2 ^ k) \<le> 2 ^ 53"
    using q1 q2 round_half_even_bounds [of m "2 ^ k"] by linarith+
  show "2 ^ (52 + k) \<le> round_mag m"
    using mult_le_mono1 [OF c(1), of "2 ^ k"] by (simp add: r power_add)
  show "round_mag m \<le> 2 ^ (53 + k)"
    using mult_le_mono1 [OF c(2), of "2 ^ k"] by (simp add: r power_add)
  show "\<exists>c \<le> 2 ^ 53. round_mag m = c * 2 ^ k"
    using c(2) r by blast
qed

lemma representable_round_mag: "representable (round_mag m)"
proof (cases "m < 2 ^ 53")
  case True
  then show ?thesis by (simp add: round_mag_small representable_small)
next
  case False
  then show ?thesis using round_mag_large(3) [of m] by (auto intro: representableI)
qed

lemma representable_round_ratio: "representable (round_ratio a b)"
proof -
  define k where "k = bit_length (a div b) - 53"
  have "a div b < 2 ^ (53 + k)"
  proof (cases "a div b = 0")
    case False
    have "a div b < 2 ^ bit_length (a div b)" using False by (intro bit_length_bounds) simp
    also have "\<dots> \<le> 2 ^ (53 + k)" by (intro power_increasing) (simp_all add: k_def)
    finally show ?thesis .
  qed simp
  then have "a div b div 2 ^ k < 2 ^ 53" by (simp add: div_less_iff_less_mult power_add)
  then have "a div (b * 2 ^ k) < 2 ^ 53" by (simp add: div_mult2_eq)
  then have "round_half_even a (b * 2 ^ k) \<le> 2 ^ 53"
    using round_half_even_bounds(2) [of a "b * 2 ^ k"] by linarith
  then show ?thesis by (intro representableI) (auto simp: round_ratio_def Let_def k_def)
qed

lemma round_mag_representable:
  assumes "representable m"
  shows "round_mag m = m"
proof -
  define k where "k = bit_length m - 53"
  from assms obtain c where m: "m = c * 2 ^ k"
    by (auto simp: representable_def k_def mult.commute elim: dvdE)
  have "round_mag m = round_half_even m (2 ^ k) * 2 ^ k"
    by (simp add: round_mag_def round_ratio_def k_def Let_def)
  also have "\<dots> = m" using round_half_even_dvd [of "2 ^ k" c] by (simp add: m)
  finally show ?thesis .
qed

lemma round_mag_mono:
  assumes "m \<le> n"
  shows "round_mag m \<le> round_mag n"
proof (cases "bit_length m - 53 = bit_length n - 53")
  case True
  with assms show ?thesis
    by (simp add: round_mag_def round_ratio_def Let_def round_half_even_mono)
next
  case False
  define k where "k = bit_length n - 53"
  with False have k: "bit_length m - 53 < k" using bit_length_mono [OF assms] by linarith
  have n: "2 ^ 53 \<le> n"
  proof (rule ccontr)
    assume "\<not> 2 ^ 53 \<le> n"
    then have "bit_length n \<le> 53" by (intro bit_length_le) simp
    with k show False by (simp add: k_def)
  qed
  have "round_mag m \<le> 2 ^ (53 + (bit_length m - 53))"
  proof (cases "m < 2 ^ 53")
    case True
    then show ?thesis using bit_length_le [of m 53] by (simp add: round_mag_small)
  next
    case False
    then show ?thesis using round_mag_large(2) [of m] by simp
  qed
  also have "\<dots> \<le> 2 ^ (52 + k)" using k by (intro power_increasing) simp_all
  also have "\<dots> \<le> round_mag n" using round_mag_large(1) [OF n k_def] .
  finally show ?thesis .
qed

locale monotone_rounding =
  fixes rnd :: "nat \<Rightarrow> nat" and rep :: "nat \<Rightarrow> bool"
  assumes rnd_mono: "m \<le> n \<Longrightarrow> rnd m \<le> rnd n"
    and rep_rnd: "rep (rnd m)"
    and rnd_rep: "rep m \<Longrightarrow> rnd m = m"
begin

lemma rnd_idem: "rnd (rnd m) = rnd m"
  by (simp add: rep_rnd rnd_rep)

lemma rnd_le_rep: "rep n \<Longrightarrow> m \<le> n \<Longrightarrow> rnd m \<le> n"
  using rnd_mono [of m n] by (simp add: rnd_rep)

lemma rnd_ge_rep: "rep m \<Longrightarrow> m \<le> n \<Longrightarrow> m \<le> rnd n"
  using rnd_mono [of m n] by (simp add: rnd_rep)

end

interpretation f64_rounding: monotone_rounding round_mag representable
  by unfold_locales (simp_all add: round_mag_mono representable_round_mag round_mag_representable)

text \<open>
  A closed quotient rounds as soon as its significand \<open>q\<close>, its remainder \<open>r\<close> and the number of
  dropped bits \<open>k\<close> are known; this evaluates a concrete operation without dividing large numerals.
\<close>

lemma round_ratio_eqI:
  assumes "0 < b" and a: "a = q * (b * 2 ^ k) + r" and r: "r < b * 2 ^ k"
    and q: "q < 2 ^ 53" "k = 0 \<or> 2 ^ 52 \<le> q"
  shows "round_ratio a b =
    (if 2 * r > b * 2 ^ k \<or> (2 * r = b * 2 ^ k \<and> odd q) then q + 1 else q) * 2 ^ k"
proof -
  define d where "d = b * 2 ^ k"
  have "0 < d" using assms(1) by (simp add: d_def)
  then have "a div d = q" "a mod d = r"
    using a r by (simp_all flip: d_def)
  then have dq: "a div (b * 2 ^ k) = q" "a mod (b * 2 ^ k) = r"
    by (simp_all add: d_def)
  then have "a div b div 2 ^ k = q" by (simp add: div_mult2_eq)
  then have b1: "q * 2 ^ k \<le> a div b" and b2: "a div b < (q + 1) * 2 ^ k"
    by (auto simp: div_times_less_eq_dividend dividend_less_div_times
        intro: dividend_less_times_div [of "2 ^ k", simplified mult.commute])
  have "bit_length (a div b) - 53 = k"
  proof (cases "2 ^ 52 \<le> q")
    case True
    have "2 ^ 52 * 2 ^ k \<le> a div b"
      using mult_le_mono1 [OF True, of "2 ^ k"] b1 by (rule order_trans)
    then have "2 ^ (52 + k) \<le> a div b" by (simp only: power_add)
    moreover have "(q + 1) * 2 ^ k \<le> 2 ^ 53 * 2 ^ k"
      using q(1) by (intro mult_le_mono1) simp
    with b2 have "a div b < 2 ^ 53 * 2 ^ k" by (rule less_le_trans)
    then have "a div b < 2 ^ Suc (52 + k)" by (simp add: power_add)
    ultimately have "bit_length (a div b) = Suc (52 + k)" by (rule bit_length_eqI)
    then show ?thesis by simp
  next
    case False
    with q have k: "k = 0" by simp
    with b2 q(1) have "a div b < 2 ^ 53" by simp
    then show ?thesis using bit_length_le [of "a div b" 53] k by simp
  qed
  then show ?thesis by (simp add: round_ratio_def Let_def round_half_even_def dq)
qed

section \<open>Well-formed values and order facts\<close>

text \<open>
  \<open>wf64\<close> is the set of values a \<open>float64\<close> variable can hold; \<open>f_nonneg\<close> is \<open>x >= 0\<close> in Go.
\<close>

fun wf64 :: "f64 \<Rightarrow> bool" where
  "wf64 (Fin s m) = (representable m \<and> m < max_mag)"
| "wf64 _ = True"

fun is_fin :: "f64 \<Rightarrow> bool" where
  "is_fin (Fin s m) = True"
| "is_fin _ = False"

definition f_nonneg :: "f64 \<Rightarrow> bool" where
  "f_nonneg x = fle fzero x"

lemma f_nonneg_simps [simp]:
  "\<not> f_nonneg NaN" "f_nonneg (Inf s) = (\<not> s)" "f_nonneg (Fin s m) = (\<not> s \<or> m = 0)"
  by (auto simp: f_nonneg_def fle_def fzero_def)

lemma fle_Fin [simp]: "fle (Fin s m) (Fin t n) = (fval (Fin s m) \<le> fval (Fin t n))"
  by (auto simp: fle_def)

lemma not_fless_iff: "x \<noteq> NaN \<Longrightarrow> y \<noteq> NaN \<Longrightarrow> (\<not> fless x y) = fle y x"
  by (cases x; cases y) (auto simp: fle_def)

lemma fless_not_NaN: "fless x y \<Longrightarrow> x \<noteq> NaN \<and> y \<noteq> NaN"
  by (cases x; cases y) auto

lemma fless_asym: "fless x y \<Longrightarrow> \<not> fless y x"
  by (cases x; cases y) auto

lemma feq_not_fless: "feq x y \<Longrightarrow> \<not> fless y x"
  by (cases x; cases y) auto

lemma not_fless_trans: "y \<noteq> NaN \<Longrightarrow> \<not> fless x y \<Longrightarrow> \<not> fless y z \<Longrightarrow> \<not> fless x z"
  by (cases x; cases y; cases z) (auto split: if_splits)

lemma max_mag_pos [simp]: "0 < max_mag"
  by (simp add: max_mag_def)

lemma wf64_mk_fin [simp]: "representable m \<Longrightarrow> wf64 (mk_fin s m)"
  by (simp add: mk_fin_def)

lemma wf64_fadd [simp]: "wf64 x \<Longrightarrow> wf64 y \<Longrightarrow> wf64 (fadd x y)"
  by (cases x; cases y)
     (auto simp: fadd_def Let_def representable_round_mag representable_small)

lemma wf64_fneg [simp]: "wf64 (fneg x) = wf64 x"
  by (cases x) auto

lemma wf64_fsub [simp]: "wf64 x \<Longrightarrow> wf64 y \<Longrightarrow> wf64 (fsub x y)"
  by (simp add: fsub_def)

lemma wf64_fzero [simp]: "wf64 fzero"
  by (simp add: fzero_def representable_small)

lemma wf64_fmul [simp]: "wf64 (fmul x y)"
  by (cases x; cases y) (simp_all add: fmul_def representable_round_ratio)

lemma fmul_commute: "fmul x y = fmul y x"
  by (cases x; cases y) (auto simp: fmul_def mult.commute intro!: arg_cong2 [where f = mk_fin])

lemma fadd_nonneg: "f_nonneg x \<Longrightarrow> f_nonneg y \<Longrightarrow> f_nonneg (fadd x y)"
  by (cases x; cases y) (auto simp: fadd_def Let_def mk_fin_def)

text \<open>Taking away no more than there is: the result is non-negative and not larger.\<close>

lemma fsub_nonneg:
  assumes "fle y x" "is_fin x" "is_fin y"
  shows "f_nonneg (fsub x y)"
  using assms by (cases x; cases y) (auto simp: fsub_def fadd_def Let_def mk_fin_def)

lemma fsub_le:
  assumes "fle y x" "f_nonneg y" "wf64 x" "is_fin x" "is_fin y"
  shows "fle (fsub x y) x"
proof -
  obtain s m t n where x: "x = Fin s m" and y: "y = Fin t n"
    using assms(4,5) by (cases x; cases y) auto
  have rep: "representable m" "m < max_mag" using assms(3) x by simp_all
  have le: "fval y \<le> fval x" "0 \<le> fval y" using assms(1,2) x y by auto
  then have "nat \<bar>fval x + fval (fneg y)\<bar> \<le> m" using x y by (auto split: if_splits)
  then have "round_mag (nat \<bar>fval x + fval (fneg y)\<bar>) \<le> m"
    by (rule f64_rounding.rnd_le_rep [OF rep(1)])
  with le rep(2) show ?thesis
    by (auto simp: x y fsub_def fadd_def Let_def mk_fin_def split: if_splits)
qed

lemma fadd_ge:
  assumes "f_nonneg x" "f_nonneg y" "wf64 x"
  shows "fle x (fadd x y)"
proof (cases "is_fin x \<and> is_fin y")
  case True
  then obtain s m t n where x: "x = Fin s m" and y: "y = Fin t n"
    by (cases x; cases y) auto
  have "m \<le> round_mag (nat \<bar>fval x + fval y\<bar>)"
    using assms x y by (intro f64_rounding.rnd_ge_rep) (auto split: if_splits)
  with assms show ?thesis
    by (auto simp: x y fadd_def Let_def mk_fin_def fle_def split: if_splits)
next
  case False
  with assms show ?thesis by (cases x; cases y) (auto simp: fadd_def fle_def)
qed

lemma fadd_keeps_floor:
  assumes "\<not> fless x m" "fle fzero y" "wf64 x" "m = NaN \<or> fle fzero m"
  shows "\<not> fless (fadd x y) m"
proof (cases "x = NaN \<or> m = NaN")
  case True
  then show ?thesis using fless_not_NaN by (auto simp: fadd_def)
next
  case False
  then have m: "fle m x" using assms(1) by (simp add: not_fless_iff)
  then have "f_nonneg x" using assms(4) False
    by (cases m; cases x) (auto simp: f_nonneg_def fle_def fzero_def split: if_splits)
  then have "fle x (fadd x y)" using assms by (intro fadd_ge) (simp_all add: f_nonneg_def)
  with m show ?thesis
    by (cases m; cases x; cases "fadd x y") (auto simp: fle_def split: if_splits)
qed

section \<open>Exact arithmetic on whole numbers\<close>

text \<open>Whole numbers up to \<open>2 ^ 53\<close> add, subtract and compare exactly.\<close>

definition f_int :: "nat \<Rightarrow> f64" where
  "f_int n = Fin False (n * unit_one)"

lemma unit_one_pos [simp]: "0 < unit_one" "unit_one \<noteq> 0"
  by (simp_all add: unit_one_def)

lemma representable_int: "n \<le> 2 ^ 53 \<Longrightarrow> representable (n * unit_one)"
  unfolding unit_one_def by (rule representableI [of _ n 1074]) simp_all

lemma f_int_bound: "n \<le> 2 ^ 53 \<Longrightarrow> n * unit_one < max_mag"
proof -
  assume "n \<le> 2 ^ 53"
  then have "n * unit_one \<le> 2 ^ 53 * 2 ^ 1074" by (simp add: unit_one_def)
  also have "\<dots> = (2::nat) ^ 1127" by (simp only: power_add [symmetric]) simp
  also have "\<dots> < max_mag" unfolding max_mag_def by (rule power_strict_increasing) simp_all
  finally show ?thesis .
qed

lemma f_int_wf [simp]: "n \<le> 9007199254740992 \<Longrightarrow> wf64 (f_int n)"
  using representable_int [of n] f_int_bound [of n] by (simp add: f_int_def)

lemma is_fin_f_int [simp]: "is_fin (f_int n)" "f_nonneg (f_int n)" "f_int n \<noteq> NaN"
  by (simp_all add: f_int_def)

lemma trunc_f_int [simp]: "trunc_nat (f_int n) = n"
  by (simp add: f_int_def)

lemma fzero_f_int: "fzero = f_int 0"
  by (simp add: f_int_def fzero_def)

lemma f64_of_nat_small [simp]: "n \<le> 9007199254740992 \<Longrightarrow> f64_of_nat n = f_int n"
  using representable_int [of n] f_int_bound [of n]
  by (simp add: f64_of_nat_def f_int_def mk_fin_def round_mag_representable)

lemma fadd_f_int [simp]:
  "a + b \<le> 9007199254740992 \<Longrightarrow> fadd (f_int a) (f_int b) = f_int (a + b)"
  using representable_int [of "a + b"] f_int_bound [of "a + b"]
  by (auto simp: fadd_def f_int_def Let_def mk_fin_def nat_add_distrib round_mag_representable
      algebra_simps simp flip: of_nat_mult of_nat_add)

lemma fsub_f_int [simp]:
  assumes "b \<le> a" "a \<le> 9007199254740992"
  shows "fsub (f_int a) (f_int b) = f_int (a - b)"
proof -
  have le: "b * unit_one \<le> a * unit_one" using assms(1) by simp
  have "int (a * unit_one) - int (b * unit_one) = int ((a - b) * unit_one)"
    using le by (simp add: diff_mult_distrib of_nat_diff)
  moreover have "round_mag ((a - b) * unit_one) = (a - b) * unit_one"
    "(a - b) * unit_one < max_mag"
    using assms representable_int [of "a - b"] f_int_bound [of "a - b"]
    by (simp_all add: round_mag_representable)
  ultimately show ?thesis
    by (simp add: fsub_def fadd_def f_int_def Let_def mk_fin_def del: of_nat_mult)
qed

lemma fless_f_int [simp]: "fless (f_int a) (f_int b) = (a < b)"
  by (simp add: f_int_def flip: of_nat_mult)

lemma fle_f_int [simp]: "fle (f_int a) (f_int b) = (a \<le> b)"
  by (simp add: f_int_def flip: of_nat_mult)

lemma feq_f_int [simp]: "feq (f_int a) (f_int b) = (a = b)"
  by (simp add: f_int_def flip: of_nat_mult)

lemma f_int_inject [simp]: "(f_int a = f_int b) = (a = b)"
  by (simp add: f_int_def)

lemma fadd_zero [simp]: "wf64 x \<Longrightarrow> x \<noteq> Fin True 0 \<Longrightarrow> fadd x fzero = x"
  by (cases x) (auto simp: fadd_def fzero_def Let_def mk_fin_def round_mag_representable)

lemma fadd_fneg_f_int [simp]:
  "\<lbrakk>b \<le> a; a \<le> 9007199254740992\<rbrakk> \<Longrightarrow> fadd (f_int a) (fneg (f_int b)) = f_int (a - b)"
  using fsub_f_int [of b a] by (simp add: fsub_def)

lemma fsub_fneg_f_int [simp]:
  "a + b \<le> 9007199254740992 \<Longrightarrow> fsub (f_int a) (fneg (f_int b)) = f_int (a + b)"
  using fadd_f_int [of a b] by (simp add: fsub_def f_int_def)

text \<open>Less than half a millionth does not show in the rendering of a whole number.\<close>

lemma millionths_hides:
  assumes "2 * (m * 1000000) < unit_one"
  shows "millionths (n * unit_one + m) = n * 1000000"
proof -
  have "((n * unit_one + m) * 1000000) div unit_one = n * 1000000"
    "((n * unit_one + m) * 1000000) mod unit_one = m * 1000000"
    using assms by (simp_all add: algebra_simps div_nat_eqI)
  then show ?thesis using assms by (simp add: millionths_def round_half_even_def)
qed

section \<open>Quotients and products by whole numbers\<close>

lemma round_half_even_cancel: "0 < c \<Longrightarrow> round_half_even (a * c) (d * c) = round_half_even a d"
  by (simp add: round_half_even_def mult_mod_left [symmetric] Let_def)

lemma round_ratio_cancel: "0 < c \<Longrightarrow> round_ratio (a * c) (b * c) = round_ratio a b"
  using round_half_even_cancel [of c a "b * 2 ^ k" for k]
  by (simp add: round_ratio_def Let_def mult.assoc mult.commute [of c])

lemma fdiv_f_int: "0 < b \<Longrightarrow> fdiv (f_int a) (f_int b) = mk_fin False (round_ratio (a * unit_one) b)"
  using round_ratio_cancel [of unit_one "a * unit_one" b] by (simp add: fdiv_def f_int_def)

lemma fdiv_f_int_exact:
  assumes "0 < b" "k * b \<le> 9007199254740992"
  shows "fdiv (f_int (k * b)) (f_int b) = f_int k"
proof -
  have "k \<le> k * b" using assms(1) by simp
  then have k: "k \<le> 2 ^ 53" by (rule order_trans) (use assms(2) in simp)
  have "round_ratio (k * b * unit_one) b = round_mag (k * unit_one)"
    using round_ratio_cancel [OF assms(1), of "k * unit_one" 1] by (simp add: round_mag_def ac_simps)
  then show ?thesis
    using representable_int [OF k] f_int_bound [OF k] unfolding fdiv_f_int [OF assms(1)]
    by (simp add: mk_fin_def round_mag_representable f_int_def)
qed

lemma fmul_f_int: "fmul (Fin False m) (f_int n) = mk_fin False (round_mag (m * n))"
  using round_ratio_cancel [of unit_one "m * n" 1]
  by (simp add: fmul_def f_int_def round_mag_def mult.assoc)

text \<open>
  Evaluating a quotient of whole numbers and a rounded value by their significands: \<open>q\<close> is the
  53-bit significand, the power of two is not expanded.
\<close>

lemma round_ratio_unit:
  assumes "0 < b" "n * 2 ^ e = q * b + r" "r < b" "q < 2 ^ 53" "2 ^ 52 \<le> q" "e \<le> 1074"
  shows "round_ratio (n * unit_one) b = (if 2 * r > b \<or> (2 * r = b \<and> odd q) then q + 1 else q) * 2 ^ (1074 - e)"
proof -
  let ?k = "1074 - e"
  have "(2::nat) ^ 1074 = 2 ^ e * 2 ^ ?k" using assms(6) by (simp flip: power_add)
  then have a: "n * unit_one = q * (b * 2 ^ ?k) + r * 2 ^ ?k"
    unfolding unit_one_def using assms(2) by (metis (no_types, lifting) add_mult_distrib mult.assoc)
  show ?thesis
    using round_ratio_eqI [OF assms(1) a _ assms(4)] assms(3,5) by simp
qed

lemma round_mag_pow:
  assumes "m = q * 2 ^ k + r" "r < 2 ^ k" "q < 2 ^ 53" "2 ^ 52 \<le> q"
  shows "round_mag (m * 2 ^ j) = (if 2 * r > 2 ^ k \<or> (2 * r = 2 ^ k \<and> odd q) then q + 1 else q) * 2 ^ k * 2 ^ j"
proof -
  have a: "m * 2 ^ j = q * (1 * 2 ^ (k + j)) + r * 2 ^ j" using assms(1) by (simp add: power_add algebra_simps)
  have "r * 2 ^ j < 1 * 2 ^ (k + j)" using assms(2) by (simp add: power_add)
  from round_ratio_eqI [OF _ a this assms(3)] assms(4) show ?thesis
    by (simp add: round_mag_def power_add mult.assoc)
qed

end
