(* ===== verification/Emission.thy ===== *)
theory Emission
  imports Prelude Float64
begin

text \<open>
  \<open>pkg/chain/emission.go\<close>: the per-block reward of the Cell coin, in dust, as \<open>uint64\<close> arithmetic.
  A schedule is a cap, an epoch length and a block time; epoch \<open>k\<close> is allocated
  \<open>floor(cap / 2^(k+1))\<close> dust, paid in equal parts to the blocks of the epoch. Every operation that
  divides by \<open>BlocksPerEpoch\<close> is partial: \<open>None\<close> is the runtime panic of a division by zero, or the
  explicit \<open>panic\<close> of the code. \<open>schedule_ok\<close> is the invariant \<open>NewEmissionSchedule\<close> establishes.
\<close>

section \<open>Constants and the schedule\<close>

definition CellDecimals :: nat where "CellDecimals = 8"
definition DustPerCell :: u64 where "DustPerCell = 100000000"
definition CellMiningCapWhole :: u64 where "CellMiningCapWhole = 90000000"
definition CellMiningCapDust :: u64 where "CellMiningCapDust = 9000000000000000"
definition c_EpochLengthSeconds :: u64 where "c_EpochLengthSeconds = 126230400"
definition DefaultTargetBlockTimeSeconds :: u64 where "DefaultTargetBlockTimeSeconds = 10"
definition MaxHalvings :: u32 where "MaxHalvings = 64"

record EmissionSchedule =
  MiningCapDust :: u64
  EpochLengthSeconds :: u64
  TargetBlockTimeSeconds :: u64
  BlocksPerEpoch :: u64

datatype emission_error = ErrCapZero | ErrEpochLengthZero | ErrBlockTimeZero | ErrNotDivisible u64 u64

definition NewEmissionSchedule :: "u64 \<Rightarrow> u64 \<Rightarrow> u64 \<Rightarrow> emission_error + EmissionSchedule" where
  "NewEmissionSchedule miningCapDust epochLengthSec targetBlockTimeSec =
     (if miningCapDust = 0 then Inl ErrCapZero
      else if epochLengthSec = 0 then Inl ErrEpochLengthZero
      else if targetBlockTimeSec = 0 then Inl ErrBlockTimeZero
      else if epochLengthSec mod targetBlockTimeSec \<noteq> 0
        then Inl (ErrNotDivisible targetBlockTimeSec epochLengthSec)
      else Inr \<lparr>MiningCapDust = miningCapDust, EpochLengthSeconds = epochLengthSec,
                TargetBlockTimeSeconds = targetBlockTimeSec,
                BlocksPerEpoch = epochLengthSec div targetBlockTimeSec\<rparr>)"

definition DefaultEmissionSchedule :: "EmissionSchedule option" where
  "DefaultEmissionSchedule =
     (case NewEmissionSchedule CellMiningCapDust c_EpochLengthSeconds DefaultTargetBlockTimeSeconds of
        Inl _ \<Rightarrow> None | Inr s \<Rightarrow> Some s)"

section \<open>Rewards\<close>

definition EpochForHeight :: "EmissionSchedule \<Rightarrow> u64 \<Rightarrow> u32 option" where
  "EpochForHeight s height =
     (if height = 0 then Some 0
      else do {
        e \<leftarrow> go_div (height - 1) (BlocksPerEpoch s);
        Some (if e \<ge> ucast MaxHalvings then MaxHalvings else ucast e)
      })"

definition EpochAllocationDust :: "EmissionSchedule \<Rightarrow> u32 \<Rightarrow> u64" where
  "EpochAllocationDust s epoch =
     (if epoch \<ge> 63 then 0
      else let divisor = push_bit (unat epoch + 1) 1 in MiningCapDust s div divisor)"

definition BlockRewardDust :: "EmissionSchedule \<Rightarrow> u64 \<Rightarrow> u64 option" where
  "BlockRewardDust s height =
     (if height = 0 then Some 0
      else do {
        epoch \<leftarrow> EpochForHeight s height;
        if epoch \<ge> MaxHalvings then Some 0
        else go_div (EpochAllocationDust s epoch) (BlocksPerEpoch s)
      })"

text \<open>The loop over whole epochs, after \<open>n\<close> iterations (\<open>e\<close> runs from 0).\<close>

primrec epochs_total :: "EmissionSchedule \<Rightarrow> nat \<Rightarrow> u64 option" where
  "epochs_total s 0 = Some 0"
| "epochs_total s (Suc n) =
     do {
       total \<leftarrow> epochs_total s n;
       reward \<leftarrow> go_div (EpochAllocationDust s (of_nat n)) (BlocksPerEpoch s);
       Some (total + reward * BlocksPerEpoch s)
     }"

definition CumulativeEmittedDust :: "EmissionSchedule \<Rightarrow> u64 \<Rightarrow> u64 option" where
  "CumulativeEmittedDust s height =
     (if height = 0 then Some 0
      else do {
        currentEpoch \<leftarrow> EpochForHeight s height;
        total \<leftarrow> epochs_total s (min (unat currentEpoch) (unat MaxHalvings));
        if currentEpoch < MaxHalvings
        then do {
          let blocksIntoEpoch = height - ucast currentEpoch * BlocksPerEpoch s;
          reward \<leftarrow> go_div (EpochAllocationDust s currentEpoch) (BlocksPerEpoch s);
          Some (total + reward * blocksIntoEpoch)
        }
        else Some total
      })"

definition RemainingSupplyDust :: "EmissionSchedule \<Rightarrow> u64 \<Rightarrow> u64 option" where
  "RemainingSupplyDust s height =
     do {
       emitted \<leftarrow> CumulativeEmittedDust s height;
       Some (if emitted \<ge> MiningCapDust s then 0 else MiningCapDust s - emitted)
     }"

definition NextHalvingHeight :: "EmissionSchedule \<Rightarrow> u64 \<Rightarrow> u64 option" where
  "NextHalvingHeight s height =
     do {
       currentEpoch \<leftarrow> EpochForHeight s height;
       Some (if currentEpoch \<ge> MaxHalvings then 0 else ucast (currentEpoch + 1) * BlocksPerEpoch s)
     }"

definition NextHalvingETA :: "EmissionSchedule \<Rightarrow> u64 \<Rightarrow> u64 option" where
  "NextHalvingETA s height =
     do {
       nxt \<leftarrow> NextHalvingHeight s height;
       Some (if nxt = 0 \<or> nxt \<le> height then 0 else (nxt - height) * TargetBlockTimeSeconds s)
     }"

definition UltimateCumulativeEmissionDust :: "EmissionSchedule \<Rightarrow> u64 option" where
  "UltimateCumulativeEmissionDust s = epochs_total s (unat MaxHalvings)"

text \<open>The code panics when the total passes the cap.\<close>

definition ConvergenceCheck :: "EmissionSchedule \<Rightarrow> u64 option" where
  "ConvergenceCheck s =
     do {
       ultimate \<leftarrow> UltimateCumulativeEmissionDust s;
       if ultimate > MiningCapDust s then None else Some (MiningCapDust s - ultimate)
     }"

definition BlockRewardCell :: "EmissionSchedule \<Rightarrow> u64 \<Rightarrow> string option" where
  "BlockRewardCell s height =
     do {
       dust \<leftarrow> BlockRewardDust s height;
       let whole = dust div DustPerCell;
       let frac = dust mod DustPerCell;
       Some (show_nat (unat whole) @ ''.'' @ show_padded CellDecimals (unat frac))
     }"

definition ApproxAnnualInflationRate :: "EmissionSchedule \<Rightarrow> u64 \<Rightarrow> f64 option" where
  "ApproxAnnualInflationRate s height =
     do {
       reward \<leftarrow> BlockRewardDust s height;
       if reward = 0 then Some fzero
       else do {
         let blocksPerYear = fdiv (f64_of_nat 31557600) (f64_of_u64 (TargetBlockTimeSeconds s));
         let annualEmission = fmul (f64_of_u64 reward) blocksPerYear;
         emitted \<leftarrow> CumulativeEmittedDust s height;
         let emittedSoFar = f64_of_u64 emitted;
         let treasuryDust = f64_of_nat 1000000000000000;
         Some (if fle emittedSoFar fzero then fdiv annualEmission treasuryDust
               else fdiv annualEmission emittedSoFar)
       }
     }"

section \<open>Reference definitions on natural numbers\<close>

definition schedule_ok :: "EmissionSchedule \<Rightarrow> bool" where
  "schedule_ok s \<longleftrightarrow> MiningCapDust s \<noteq> 0 \<and> TargetBlockTimeSeconds s \<noteq> 0 \<and>
     EpochLengthSeconds s \<noteq> 0 \<and> EpochLengthSeconds s mod TargetBlockTimeSeconds s = 0 \<and>
     BlocksPerEpoch s = EpochLengthSeconds s div TargetBlockTimeSeconds s"

definition alloc_spec :: "nat \<Rightarrow> nat \<Rightarrow> nat" where
  "alloc_spec c e = (if e \<ge> 63 then 0 else c div 2 ^ (e + 1))"

definition reward_spec :: "nat \<Rightarrow> nat \<Rightarrow> nat \<Rightarrow> nat" where
  "reward_spec c b h = (if h = 0 then 0 else alloc_spec c ((h - 1) div b) div b)"

definition emitted_spec :: "nat \<Rightarrow> nat \<Rightarrow> nat \<Rightarrow> nat" where
  "emitted_spec c b h = (\<Sum>i = 1..h. reward_spec c b i)"

abbreviation cap_of :: "EmissionSchedule \<Rightarrow> nat" where
  "cap_of s \<equiv> unat (MiningCapDust s)"

abbreviation bpe_of :: "EmissionSchedule \<Rightarrow> nat" where
  "bpe_of s \<equiv> unat (BlocksPerEpoch s)"

lemma schedule_ok_blocks: "schedule_ok s \<Longrightarrow> BlocksPerEpoch s \<noteq> 0"
  unfolding schedule_ok_def by (metis add.right_neutral mult_zero_left word_mod_div_equality)

lemma schedule_ok_bpe: "schedule_ok s \<Longrightarrow> 0 < bpe_of s"
  by (simp add: schedule_ok_blocks unat_gt_0)

lemma alloc_sum_le: "(\<Sum>e < n. c div 2 ^ (e + 1)) + c div 2 ^ n \<le> (c::nat)"
proof (induction n)
  case (Suc n)
  have "c div 2 ^ Suc n = c div 2 ^ n div 2"
    by (simp only: power_Suc2 div_mult2_eq)
  then have "2 * (c div 2 ^ Suc n) \<le> c div 2 ^ n" by simp
  with Suc show ?case by simp
qed simp

lemma alloc_spec_sum_le: "(\<Sum>e < n. alloc_spec c e) \<le> c"
proof -
  have "(\<Sum>e < n. alloc_spec c e) \<le> (\<Sum>e < n. c div 2 ^ (e + 1))"
    by (rule sum_mono) (simp add: alloc_spec_def)
  also have "\<dots> \<le> c" using alloc_sum_le [where n = n and c = c] by simp
  finally show ?thesis .
qed

lemma alloc_spec_antimono: "e \<le> e' \<Longrightarrow> alloc_spec c e' \<le> alloc_spec c e"
  by (auto simp: alloc_spec_def intro!: div_le_mono2 power_increasing)

lemma epoch_rewards_le: "(\<Sum>e < n. alloc_spec c e div b * b) \<le> c"
proof -
  have "(\<Sum>e < n. alloc_spec c e div b * b) \<le> (\<Sum>e < n. alloc_spec c e)"
    by (rule sum_mono) (simp add: div_times_less_eq_dividend)
  also have "\<dots> \<le> c" by (rule alloc_spec_sum_le)
  finally show ?thesis .
qed

text \<open>The block-by-block sum, regrouped by epoch: the closed form the code evaluates.\<close>

lemma emitted_spec_by_epoch:
  assumes "0 < b" "0 < h"
  defines "E \<equiv> (h - 1) div b"
  shows "emitted_spec c b h =
    (\<Sum>e < E. alloc_spec c e div b * b) + alloc_spec c E div b * (h - E * b)"
  using assms(2) unfolding E_def
proof (induction h rule: nat_induct_non_zero)
  case 1
  show ?case by (simp add: emitted_spec_def reward_spec_def)
next
  case (Suc h)
  define E where "E = (h - 1) div b"
  have EB: "E * b \<le> h - 1" "h - 1 < E * b + b"
    using assms(1) dividend_less_div_times [of b "h - 1"]
    by (simp_all add: E_def div_times_less_eq_dividend)
  have step: "emitted_spec c b (Suc h) = emitted_spec c b h + alloc_spec c (h div b) div b"
    by (simp add: emitted_spec_def reward_spec_def)
  have IH: "emitted_spec c b h =
      (\<Sum>e < E. alloc_spec c e div b * b) + alloc_spec c E div b * (h - E * b)"
    using Suc.IH by (simp add: E_def)
  show ?case
  proof (cases "h = E * b + b")
    case True
    then have E': "h div b = Suc E" using assms(1) by simp
    have "h - E * b = b" "Suc h - Suc E * b = 1" using True by simp_all
    with IH step E' show ?thesis by (simp del: mult_Suc)
  next
    case False
    with EB Suc.hyps have "h < E * b + b" by simp
    with EB have E': "h div b = E" by (intro div_nat_eqI) (simp_all add: mult.commute)
    have "Suc h - E * b = Suc (h - E * b)" using EB Suc.hyps by simp
    with IH step E' show ?thesis by simp
  qed
qed

lemma emitted_spec_le:
  assumes "0 < b"
  shows "emitted_spec c b h \<le> c"
proof (cases "h = 0")
  case True
  then show ?thesis by (simp add: emitted_spec_def)
next
  case False
  define E where "E = (h - 1) div b"
  have "h - 1 < b * E + b"
    using assms dividend_less_div_times [of b "h - 1"] by (simp add: E_def mult.commute)
  then have "h - E * b \<le> b" by (simp add: mult.commute)
  then have "alloc_spec c E div b * (h - E * b) \<le> alloc_spec c E div b * b" by simp
  then have "emitted_spec c b h \<le> (\<Sum>e < Suc E. alloc_spec c e div b * b)"
    using False assms by (simp add: emitted_spec_by_epoch E_def)
  then show ?thesis using epoch_rewards_le order_trans by blast
qed

section \<open>The code computes the reference definitions\<close>

lemma EpochForHeight_eq:
  assumes "schedule_ok s" "h \<noteq> 0"
  shows "EpochForHeight s h = Some (of_nat (min 64 ((unat h - 1) div bpe_of s)))"
proof -
  have u: "unat ((h - 1) div BlocksPerEpoch s) = (unat h - 1) div bpe_of s"
    using assms(2) by (simp add: unat_div unat_minus_one)
  have "(ucast MaxHalvings :: u64) = 64" by (simp add: MaxHalvings_def)
  then have "(ucast MaxHalvings \<le> (h - 1) div BlocksPerEpoch s) = (64 \<le> (unat h - 1) div bpe_of s)"
    by (simp add: word_le_nat_alt u)
  moreover have "(ucast ((h - 1) div BlocksPerEpoch s) :: u32) = of_nat ((unat h - 1) div bpe_of s)"
    by (simp only: ucast_of_nat_unat u)
  ultimately show ?thesis
    using assms schedule_ok_blocks [OF assms(1)]
    by (auto simp: EpochForHeight_def min_def MaxHalvings_def)
qed

lemma unat_epoch_word: "n \<le> 64 \<Longrightarrow> unat (of_nat n :: u32) = n"
  by (simp add: unat_of_nat)

lemma EpochAllocationDust_eq:
  assumes "e \<le> 64"
  shows "unat (EpochAllocationDust s (of_nat e)) = alloc_spec (cap_of s) e"
proof (cases "63 \<le> e")
  case True
  then have "(63 :: u32) \<le> of_nat e" using assms by (simp add: word_le_nat_alt unat_epoch_word)
  with True show ?thesis by (simp add: EpochAllocationDust_def alloc_spec_def)
next
  case False
  then have "\<not> (63 :: u32) \<le> of_nat e" using assms by (simp add: word_le_nat_alt unat_epoch_word)
  moreover have "unat (push_bit (e + 1) 1 :: u64) = 2 ^ (e + 1)"
    using False by (intro unat_push_bit_one) simp
  ultimately show ?thesis using assms
    by (simp add: EpochAllocationDust_def alloc_spec_def unat_div unat_epoch_word False)
qed

lemma BlockRewardDust_eq:
  assumes "schedule_ok s"
  shows "BlockRewardDust s h = Some (of_nat (reward_spec (cap_of s) (bpe_of s) (unat h)))"
proof (cases "h = 0")
  case True
  then show ?thesis by (simp add: BlockRewardDust_def reward_spec_def)
next
  case False
  define e where "e = min 64 ((unat h - 1) div bpe_of s)"
  have e: "EpochForHeight s h = Some (of_nat e)"
    using EpochForHeight_eq [OF assms False] by (simp add: e_def)
  have le: "e \<le> 64" by (simp add: e_def)
  have h: "unat h \<noteq> 0" using False by (simp add: unat_eq_zero)
  show ?thesis
  proof (cases "e = 64")
    case True
    then have "63 \<le> (unat h - 1) div bpe_of s" by (simp add: e_def)
    with True e False h show ?thesis
      by (simp add: BlockRewardDust_def MaxHalvings_def reward_spec_def alloc_spec_def)
  next
    case ne: False
    with le have lt: "\<not> MaxHalvings \<le> (of_nat e :: u32)"
      by (simp add: MaxHalvings_def word_le_nat_alt unat_epoch_word)
    have ee: "e = (unat h - 1) div bpe_of s" using ne by (auto simp: e_def min_def split: if_splits)
    have "EpochAllocationDust s (of_nat e) div BlocksPerEpoch s =
        of_nat (unat (EpochAllocationDust s (of_nat e)) div bpe_of s)"
      by (simp add: word_arith_nat_div)
    then show ?thesis
      using e False lt h schedule_ok_blocks [OF assms] EpochAllocationDust_eq [OF le, of s]
      by (simp add: BlockRewardDust_def reward_spec_def ee [simplified, symmetric])
  qed
qed

lemma epochs_total_eq:
  assumes "schedule_ok s" "n \<le> 64"
  shows "epochs_total s n =
    Some (of_nat (\<Sum>e < n. alloc_spec (cap_of s) e div bpe_of s * bpe_of s))"
  using assms(2)
proof (induction n)
  case (Suc n)
  have "EpochAllocationDust s (of_nat n) div BlocksPerEpoch s * BlocksPerEpoch s =
      of_nat (alloc_spec (cap_of s) n div bpe_of s * bpe_of s)"
    using Suc.prems by (simp add: word_arith_nat_div EpochAllocationDust_eq)
  with Suc schedule_ok_blocks [OF assms(1)] show ?case
    by (simp add: add.commute)
qed simp

lemma CumulativeEmittedDust_eq:
  assumes "schedule_ok s"
  shows "CumulativeEmittedDust s h = Some (of_nat (emitted_spec (cap_of s) (bpe_of s) (unat h)))"
proof (cases "h = 0")
  case True
  then show ?thesis by (simp add: CumulativeEmittedDust_def emitted_spec_def)
next
  case False
  define c b where "c = cap_of s" and "b = bpe_of s"
  define E e where "E = (unat h - 1) div b" and "e = min 64 E"
  have b: "0 < b" using schedule_ok_bpe [OF assms] by (simp add: b_def)
  have h: "0 < unat h" using False by (simp add: unat_gt_0)
  have ef: "EpochForHeight s h = Some (of_nat e)"
    using EpochForHeight_eq [OF assms False] by (simp add: e_def E_def b_def)
  have le: "e \<le> 64" and ue: "unat (of_nat e :: u32) = e"
    by (simp_all add: e_def unat_epoch_word)
  have tot: "epochs_total s (min e (unat MaxHalvings)) =
      Some (of_nat (\<Sum>e < e. alloc_spec c e div b * b))"
    using epochs_total_eq [OF assms le] le by (simp add: MaxHalvings_def c_def b_def)
  have closed: "emitted_spec c b (unat h) =
      (\<Sum>e < E. alloc_spec c e div b * b) + alloc_spec c E div b * (unat h - E * b)"
    using emitted_spec_by_epoch [OF b h] by (simp add: E_def)
  show ?thesis
  proof (cases "E < 64")
    case True
    then have eE: "e = E" by (simp add: e_def)
    then have lt: "(of_nat e :: u32) < MaxHalvings"
      using True by (simp add: MaxHalvings_def word_less_nat_alt unat_epoch_word)
    have "E * b \<le> unat h - 1" by (simp only: E_def div_times_less_eq_dividend)
    then have "E * b \<le> unat h" by linarith
    then have "h - of_nat E * BlocksPerEpoch s = of_nat (unat h - E * b)"
      by (simp add: of_nat_diff b_def)
    moreover have "(ucast (of_nat e :: u32) :: u64) = of_nat E"
      using ue by (simp only: ucast_of_nat_unat eE)
    ultimately have "EpochAllocationDust s (of_nat e) div BlocksPerEpoch s *
        (h - ucast (of_nat e :: u32) * BlocksPerEpoch s) =
        of_nat (alloc_spec c E div b * (unat h - E * b))"
      using EpochAllocationDust_eq [OF le, of s] eE
      by (simp add: word_arith_nat_div c_def b_def)
    then show ?thesis
      using False ef tot lt ue closed schedule_ok_blocks [OF assms] eE
      by (simp add: CumulativeEmittedDust_def c_def b_def)
  next
    case False
    then have e64: "e = 64" by (simp add: e_def)
    have "(\<Sum>e < E. alloc_spec c e div b * b) = (\<Sum>e < 64. alloc_spec c e div b * b)"
      using False by (intro sum.mono_neutral_right) (auto simp: alloc_spec_def)
    moreover have "alloc_spec c E = 0" using False by (simp add: alloc_spec_def)
    ultimately show ?thesis
      using \<open>h \<noteq> 0\<close> ef tot closed
      by (simp add: CumulativeEmittedDust_def c_def b_def e64 MaxHalvings_def)
  qed
qed

lemma emitted_spec_fits: "schedule_ok s \<Longrightarrow> emitted_spec (cap_of s) (bpe_of s) n < 2 ^ 64"
  by (rule unat_le_fits, rule emitted_spec_le, rule schedule_ok_bpe)

lemma reward_spec_fits: "reward_spec (cap_of s) b n < 2 ^ 64"
proof (rule unat_le_fits)
  show "reward_spec (cap_of s) b n \<le> cap_of s"
    by (auto simp: reward_spec_def alloc_spec_def intro!: order_trans [OF div_le_dividend])
qed

lemma NewEmissionSchedule_ok:
  assumes "NewEmissionSchedule c l t = Inr s"
  shows "schedule_ok s" "MiningCapDust s = c"
proof -
  have m: "l mod t = 0"
    by (rule ccontr) (use assms in \<open>simp add: NewEmissionSchedule_def split: if_splits\<close>)
  from assms have nz: "c \<noteq> 0" "l \<noteq> 0" "t \<noteq> 0"
    and s: "s = \<lparr>MiningCapDust = c, EpochLengthSeconds = l, TargetBlockTimeSeconds = t,
        BlocksPerEpoch = l div t\<rparr>"
    by (auto simp: NewEmissionSchedule_def split: if_splits)
  show "schedule_ok s" using m nz by (simp only: schedule_ok_def s EmissionSchedule.simps) simp
  show "MiningCapDust s = c" by (simp add: s)
qed

lemma NewEmissionSchedule_default:
  "NewEmissionSchedule CellMiningCapDust c_EpochLengthSeconds DefaultTargetBlockTimeSeconds =
     Inr \<lparr>MiningCapDust = 9000000000000000, EpochLengthSeconds = 126230400,
          TargetBlockTimeSeconds = 10, BlocksPerEpoch = 12623040\<rparr>"
  by (simp add: NewEmissionSchedule_def CellMiningCapDust_def c_EpochLengthSeconds_def
      DefaultTargetBlockTimeSeconds_def)

lemma unat_reward_sum:
  fixes h :: u64
  assumes "schedule_ok s"
  shows "(\<Sum>i = 1..unat h. unat (the (BlockRewardDust s (of_nat i)))) =
    emitted_spec (cap_of s) (bpe_of s) (unat h)"
  unfolding emitted_spec_def
proof (rule sum.cong)
  fix i assume "i \<in> {1..unat h}"
  then have "unat (of_nat i :: u64) = i"
    by (intro unat_of_nat_fits unat_le_fits [of i h]) simp
  moreover have "reward_spec (cap_of s) (bpe_of s) i < 2 ^ 64" by (rule reward_spec_fits)
  ultimately show "unat (the (BlockRewardDust s (of_nat i))) = reward_spec (cap_of s) (bpe_of s) i"
    by (simp add: BlockRewardDust_eq [OF assms] unat_of_nat_fits del: of_nat_id)
qed simp

lemma unat_emitted:
  assumes "schedule_ok s"
  shows "unat (of_nat (emitted_spec (cap_of s) (bpe_of s) n) :: u64) = emitted_spec (cap_of s) (bpe_of s) n"
  by (rule unat_of_nat_fits, rule emitted_spec_fits, rule assms)

lemma reward_spec_antimono:
  assumes "0 < h" "h \<le> h'"
  shows "reward_spec c b h' \<le> reward_spec c b h"
proof -
  have "(h - 1) div b \<le> (h' - 1) div b" using assms by (intro div_le_mono) simp
  then have "alloc_spec c ((h' - 1) div b) \<le> alloc_spec c ((h - 1) div b)"
    by (rule alloc_spec_antimono)
  then show ?thesis using assms by (auto simp: reward_spec_def intro: div_le_mono)
qed

text \<open>The dust lost to truncation: one per epoch in the halving, less than one block count per epoch
  in the division into blocks.\<close>

lemma alloc_sum_ge: "c \<le> (\<Sum>e < n. c div 2 ^ (e + 1)) + n + c div 2 ^ n" for c :: nat
proof (induction n)
  case (Suc n)
  have "c div 2 ^ Suc n = c div 2 ^ n div 2"
    by (simp only: power_Suc2 div_mult2_eq)
  then have "c div 2 ^ n \<le> 2 * (c div 2 ^ Suc n) + 1" by simp
  with Suc show ?case by simp
qed simp

lemma ultimate_ge:
  assumes "0 < b" "c < 2 ^ 64"
  shows "c \<le> (\<Sum>e < 64. alloc_spec c e div b * b) + 64 * b"
proof -
  have a: "alloc_spec c e \<le> alloc_spec c e div b * b + (b - 1)" for e
  proof -
    have "alloc_spec c e mod b < b" using assms(1) by (rule mod_less_divisor)
    then show ?thesis using div_mult_mod_eq [of "alloc_spec c e" b] by linarith
  qed
  have "(\<Sum>e < 63. c div 2 ^ (e + 1)) = (\<Sum>e < 63. alloc_spec c e)"
    by (rule sum.cong) (simp_all add: alloc_spec_def)
  also have "\<dots> \<le> (\<Sum>e < 63. alloc_spec c e div b * b + (b - 1))"
    by (rule sum_mono) (rule a)
  also have "\<dots> = (\<Sum>e < 63. alloc_spec c e div b * b) + 63 * (b - 1)"
    by (simp add: sum.distrib)
  finally have 1: "(\<Sum>e < 63. c div 2 ^ (e + 1)) \<le> (\<Sum>e < 63. alloc_spec c e div b * b) + 63 * (b - 1)" .
  have 2: "(\<Sum>e < 64. alloc_spec c e div b * b) = (\<Sum>e < 63. alloc_spec c e div b * b)"
    by (rule sum.mono_neutral_right) (auto simp: alloc_spec_def)
  have "c div 2 ^ 63 < 2" using assms(2) by (simp add: div_less_iff_less_mult)
  then have "c \<le> (\<Sum>e < 63. c div 2 ^ (e + 1)) + 63 + 1"
    using alloc_sum_ge [where n = 63 and c = c] by linarith
  with 1 2 have "c \<le> (\<Sum>e < 64. alloc_spec c e div b * b) + 63 * (b - 1) + 64" by linarith
  moreover have "63 * (b - 1) + 64 \<le> 64 * b" using assms(1) by simp
  ultimately show ?thesis by linarith
qed

section \<open>Properties\<close>

text \<open>
  C38: for every schedule the constructor accepts and every height, \<open>CumulativeEmittedDust\<close> returns,
  its result is exactly the sum of the rewards of blocks 1 to the height (no wrap-around anywhere),
  it never exceeds the mining cap, and \<open>RemainingSupplyDust\<close> is the rest of the cap.
\<close>

theorem cumulative_emission_exact:
  assumes "NewEmissionSchedule c l t = Inr s"
  shows "\<exists>total. CumulativeEmittedDust s h = Some total \<and>
    unat total = (\<Sum>i = 1..unat h. unat (the (BlockRewardDust s (of_nat i)))) \<and>
    total \<le> c \<and> RemainingSupplyDust s h = Some (c - total)"
proof -
  note ok = NewEmissionSchedule_ok [OF assms]
  define total :: u64 where "total = of_nat (emitted_spec (cap_of s) (bpe_of s) (unat h))"
  have t: "CumulativeEmittedDust s h = Some total"
    by (simp add: CumulativeEmittedDust_eq [OF ok(1)] total_def)
  have u: "unat total = emitted_spec (cap_of s) (bpe_of s) (unat h)"
    by (simp add: total_def unat_emitted [OF ok(1)])
  have le: "total \<le> c"
    using emitted_spec_le [OF schedule_ok_bpe [OF ok(1)], of "cap_of s" "unat h"] ok(2)
    by (simp add: word_le_nat_alt u)
  then have "RemainingSupplyDust s h = Some (c - total)"
    using ok(2) by (auto simp: RemainingSupplyDust_def t)
  with t u le show ?thesis unfolding unat_reward_sum [OF ok(1)] by blast
qed

theorem cumulative_emission_exact_witness:
  "NewEmissionSchedule CellMiningCapDust c_EpochLengthSeconds DefaultTargetBlockTimeSeconds =
     Inr \<lparr>MiningCapDust = 9000000000000000, EpochLengthSeconds = 126230400,
          TargetBlockTimeSeconds = 10, BlocksPerEpoch = 12623040\<rparr> \<and>
   (\<exists>total. CumulativeEmittedDust \<lparr>MiningCapDust = 9000000000000000, EpochLengthSeconds = 126230400,
          TargetBlockTimeSeconds = 10, BlocksPerEpoch = 12623040\<rparr> 100 = Some total \<and>
      total \<le> CellMiningCapDust)"
  using NewEmissionSchedule_default cumulative_emission_exact [OF NewEmissionSchedule_default, of 100]
  by blast

text \<open>
  block rewards never increase with height after the genesis block, on every accepted schedule.
\<close>

theorem block_reward_never_increases:
  assumes "NewEmissionSchedule c l t = Inr s" "0 < h" "h \<le> h'"
  shows "\<exists>r r'. BlockRewardDust s h = Some r \<and> BlockRewardDust s h' = Some r' \<and> r' \<le> r"
proof -
  note ok = NewEmissionSchedule_ok [OF assms(1)]
  have fits: "unat (of_nat (reward_spec (cap_of s) (bpe_of s) n) :: u64) = reward_spec (cap_of s) (bpe_of s) n" for n
    by (rule unat_of_nat_fits, rule reward_spec_fits)
  have "reward_spec (cap_of s) (bpe_of s) (unat h') \<le> reward_spec (cap_of s) (bpe_of s) (unat h)"
    using assms(2,3) by (intro reward_spec_antimono) (simp_all add: word_le_nat_alt unat_gt_0 word_neq_0_conv)
  then show ?thesis by (simp add: BlockRewardDust_eq [OF ok(1)] word_le_nat_alt fits)
qed

theorem block_reward_never_increases_witness:
  "\<exists>s r r'. NewEmissionSchedule CellMiningCapDust c_EpochLengthSeconds DefaultTargetBlockTimeSeconds = Inr s \<and>
     BlockRewardDust s 1 = Some r \<and> BlockRewardDust s 12623041 = Some r' \<and> r' \<le> r"
  using NewEmissionSchedule_default
    block_reward_never_increases [OF NewEmissionSchedule_default, of 1 12623041] by auto

text \<open>
  the convergence check never panics: the total emission of all halvings stays within the cap,
  and what is left unmined is at most \<open>MaxHalvings * BlocksPerEpoch\<close> dust.
\<close>

theorem convergence_check_bounded:
  assumes "NewEmissionSchedule c l t = Inr s"
  shows "\<exists>rest. ConvergenceCheck s = Some rest \<and>
    unat rest \<le> unat MaxHalvings * unat (BlocksPerEpoch s)"
proof -
  note ok = NewEmissionSchedule_ok [OF assms]
  define u where "u = (\<Sum>e < 64. alloc_spec (cap_of s) e div bpe_of s * bpe_of s)"
  have le: "u \<le> cap_of s" by (simp add: u_def epoch_rewards_le)
  have ge: "cap_of s \<le> u + 64 * bpe_of s"
    using ultimate_ge [OF schedule_ok_bpe [OF ok(1)], of "cap_of s"] unsigned_less [of "MiningCapDust s"]
    by (simp add: u_def)
  have uw: "unat (of_nat u :: u64) = u"
    by (rule unat_of_nat_fits, rule unat_le_fits, rule le)
  have "UltimateCumulativeEmissionDust s = Some (of_nat u)"
    using epochs_total_eq [OF ok(1), of 64]
    by (simp add: UltimateCumulativeEmissionDust_def MaxHalvings_def u_def)
  moreover have le_w: "of_nat u \<le> MiningCapDust s" using le by (simp add: word_le_nat_alt uw)
  moreover have "unat (MiningCapDust s - of_nat u) \<le> 64 * bpe_of s"
    using ge by (simp add: unat_diff_le [OF le_w] uw)
  ultimately show ?thesis by (auto simp: ConvergenceCheck_def MaxHalvings_def)
qed

theorem convergence_check_bounded_witness:
  "\<exists>s rest. NewEmissionSchedule CellMiningCapDust c_EpochLengthSeconds DefaultTargetBlockTimeSeconds = Inr s \<and>
     ConvergenceCheck s = Some rest \<and> unat rest \<le> unat MaxHalvings * unat (BlocksPerEpoch s)"
  using NewEmissionSchedule_default convergence_check_bounded [OF NewEmissionSchedule_default] by blast

text \<open>
  \<open>NextHalvingHeight\<close> is the last block of the epoch of \<open>height\<close>: that block is still in the
  same epoch and the block after it is the first of the next one, wherever the height fits in 64
  bits. (The comment of the function calls it the first block of the following epoch.)
\<close>

theorem next_halving_is_last_block_of_epoch:
  assumes "NewEmissionSchedule c l t = Inr s" "EpochForHeight s h = Some e" "e < MaxHalvings"
    "(unat e + 1) * unat (BlocksPerEpoch s) + 1 < 2 ^ 64"
  shows "\<exists>n. NextHalvingHeight s h = Some n \<and> EpochForHeight s n = Some e \<and>
    EpochForHeight s (n + 1) = Some (e + 1)"
proof -
  note ok = NewEmissionSchedule_ok [OF assms(1)]
  define b k where "b = bpe_of s" and "k = unat e"
  have b: "0 < b" using schedule_ok_bpe [OF ok(1)] by (simp add: b_def)
  have k: "k < 64" using assms(3) by (simp add: k_def MaxHalvings_def word_less_nat_alt)
  have fits: "(k + 1) * b + 1 < 2 ^ 64" using assms(4) by (simp add: b_def k_def)
  define n :: u64 where "n = of_nat ((k + 1) * b)"
  have un: "unat n = (k + 1) * b"
    unfolding n_def using fits by (intro unat_of_nat_fits) linarith
  have n1: "n + 1 = of_nat ((k + 1) * b + 1)" by (simp only: n_def of_nat_add of_nat_1)
  have un1: "unat (n + 1) = (k + 1) * b + 1"
    unfolding n1 by (rule unat_of_nat_fits) (rule fits)
  have "unat (e + 1) = k + 1"
    using k by (subst unat_add_no_wrap) (simp_all add: k_def)
  then have "(ucast (e + 1) :: u64) = of_nat (k + 1)" by (simp only: ucast_of_nat_unat)
  then have "ucast (e + 1) * BlocksPerEpoch s = n" by (simp add: n_def b_def algebra_simps)
  then have nh: "NextHalvingHeight s h = Some n"
    using assms(2,3) by (simp add: NextHalvingHeight_def not_le [symmetric])
  have pos: "0 < unat n" using b un by simp
  have d1: "(unat n - 1) div b = k"
    using b by (intro div_nat_eqI) (simp_all add: un mult.commute)
  have d2: "(unat (n + 1) - 1) div b = k + 1" using b by (simp add: un1)
  have "n \<noteq> 0" "n + 1 \<noteq> 0" using pos un1 by auto
  then have "EpochForHeight s n = Some (of_nat k)" "EpochForHeight s (n + 1) = Some (of_nat (k + 1))"
    using EpochForHeight_eq [OF ok(1), of n] EpochForHeight_eq [OF ok(1), of "n + 1"] k
    by (simp_all add: d1 [unfolded b_def, simplified] d2 [unfolded b_def, simplified])
  with nh show ?thesis by (simp add: k_def add.commute)
qed

theorem next_halving_is_last_block_of_epoch_witness:
  "\<exists>s n. NewEmissionSchedule CellMiningCapDust c_EpochLengthSeconds DefaultTargetBlockTimeSeconds = Inr s \<and>
     NextHalvingHeight s 5 = Some n \<and> EpochForHeight s n = Some 0 \<and> EpochForHeight s (n + 1) = Some 1"
proof -
  let ?s = "\<lparr>MiningCapDust = 9000000000000000, EpochLengthSeconds = 126230400,
     TargetBlockTimeSeconds = 10, BlocksPerEpoch = 12623040\<rparr>"
  have e: "EpochForHeight ?s 5 = Some 0" by (simp add: EpochForHeight_def MaxHalvings_def)
  have m: "(0 :: u32) < MaxHalvings" by (simp add: MaxHalvings_def)
  have f: "(unat (0 :: u32) + 1) * unat (BlocksPerEpoch ?s) + 1 < 2 ^ 64" by simp
  have "(0 :: u32) + 1 = 1" by simp
  then show ?thesis
    using NewEmissionSchedule_default
      next_halving_is_last_block_of_epoch [OF NewEmissionSchedule_default e m f] by metis
qed

end
