(* ===== verification/GoSort.thy ===== *)
theory GoSort
  imports Prelude "HOL-Library.Multiset"
begin

text \<open>
  Go's \<open>sort.Slice\<close> and \<open>sort.SliceStable\<close> with a \<open>less\<close> function. Up to twelve elements \<open>sort.Slice\<close>
  sorts by insertion, which is stable; \<open>sort.SliceStable\<close> is stable by contract. Where a longer slice
  may reach \<open>sort.Slice\<close>, the components either sort by a total order, for which the result is unique
  (locale \<open>total_less\<close>), or take the input order as an argument, which covers every arrangement of
  ties.
\<close>

fun go_insert :: "('a \<Rightarrow> 'a \<Rightarrow> bool) \<Rightarrow> 'a \<Rightarrow> 'a list \<Rightarrow> 'a list" where
  "go_insert lt x [] = [x]"
| "go_insert lt x (y # ys) = (if lt y x then y # go_insert lt x ys else x # y # ys)"

definition go_sort :: "('a \<Rightarrow> 'a \<Rightarrow> bool) \<Rightarrow> 'a list \<Rightarrow> 'a list" where
  "go_sort lt xs = foldr (go_insert lt) xs []"

lemma go_sort_simps [simp]:
  "go_sort lt [] = []" "go_sort lt (x # xs) = go_insert lt x (go_sort lt xs)"
  by (simp_all add: go_sort_def)

lemma mset_go_insert [simp]: "mset (go_insert lt x xs) = add_mset x (mset xs)"
  by (induction xs) auto

lemma mset_go_sort [simp]: "mset (go_sort lt xs) = mset xs"
  by (induction xs) simp_all

lemma set_go_sort [simp]: "set (go_sort lt xs) = set xs"
  by (metis mset_go_sort set_mset_mset)

lemma length_go_sort [simp]: "length (go_sort lt xs) = length xs"
  by (metis mset_go_sort size_mset)

text \<open>With a key and the linear order on keys, Go's stable sort is the library's stable sort.\<close>

lemma go_insert_insort: "go_insert (\<lambda>x y. f x < (f y :: 'k::linorder)) x xs = insort_key f x xs"
  by (induction xs) auto

lemma go_sort_sort_key: "go_sort (\<lambda>x y. f x < (f y :: 'k::linorder)) xs = sort_key f xs"
  by (induction xs) (simp_all add: go_insert_insort)

text \<open>
  A comparison that is a strict weak order on a carrier: sorting produces a list without inversions.
\<close>

locale weak_less =
  fixes lt :: "'a \<Rightarrow> 'a \<Rightarrow> bool" and C :: "'a set"
  assumes lt_asym: "\<lbrakk>a \<in> C; b \<in> C; lt a b\<rbrakk> \<Longrightarrow> \<not> lt b a"
    and lt_neg_trans: "\<lbrakk>a \<in> C; b \<in> C; c \<in> C; \<not> lt b a; \<not> lt c b\<rbrakk> \<Longrightarrow> \<not> lt c a"
begin

lemma sorted_go_insert:
  assumes "sorted_wrt (\<lambda>a b. \<not> lt b a) xs" "set xs \<subseteq> C" "x \<in> C"
  shows "sorted_wrt (\<lambda>a b. \<not> lt b a) (go_insert lt x xs)"
  using assms
proof (induction xs)
  case (Cons y ys)
  have set: "set (go_insert lt x ys) = insert x (set ys)"
    by (metis mset_go_insert set_mset_add_mset_insert set_mset_mset)
  show ?case
  proof (cases "lt y x")
    case True
    have "\<not> lt x y" using lt_asym [of y x] True Cons.prems by simp
    moreover have "sorted_wrt (\<lambda>a b. \<not> lt b a) (go_insert lt x ys)" using Cons by simp
    ultimately show ?thesis using True Cons.prems(1) by (simp add: set)
  next
    case False
    have "\<not> lt z x" if "z \<in> set ys" for z
      using lt_neg_trans [of x y z] False Cons.prems that by auto
    then show ?thesis using False Cons.prems(1) by simp
  qed
qed simp

lemma sorted_go_sort: "set xs \<subseteq> C \<Longrightarrow> sorted_wrt (\<lambda>a b. \<not> lt b a) (go_sort lt xs)"
  by (induction xs) (simp_all add: sorted_go_insert)

end

locale total_less = weak_less +
  assumes lt_total: "\<lbrakk>a \<in> C; b \<in> C; \<not> lt a b; \<not> lt b a\<rbrakk> \<Longrightarrow> a = b"
begin

lemma sorted_unique:
  assumes "mset xs = mset ys" "set xs \<subseteq> C"
    and "sorted_wrt (\<lambda>a b. \<not> lt b a) xs" "sorted_wrt (\<lambda>a b. \<not> lt b a) ys"
  shows "xs = ys"
  using assms
proof (induction xs arbitrary: ys)
  case (Cons x xs)
  obtain y ys' where ys: "ys = y # ys'" using Cons.prems(1) by (cases ys) auto
  have in_x: "y \<in> set (x # xs)" and in_y: "x \<in> set (y # ys')"
    using mset_eq_setD [OF Cons.prems(1)] ys by auto
  have "x = y"
  proof (rule ccontr)
    assume "x \<noteq> y"
    then have "\<not> lt y x" "\<not> lt x y" using in_x in_y Cons.prems(3,4) ys by auto
    then show False using \<open>x \<noteq> y\<close> lt_total Cons.prems(2) in_x by auto
  qed
  then show ?case using Cons ys by auto
qed simp

lemma go_sort_perm:
  assumes "mset xs = mset ys" "set xs \<subseteq> C"
  shows "go_sort lt xs = go_sort lt ys"
proof (rule sorted_unique)
  show "sorted_wrt (\<lambda>a b. \<not> lt b a) (go_sort lt ys)"
    using assms mset_eq_setD by (intro sorted_go_sort) blast
qed (use assms sorted_go_sort in auto)

end

end
