(* ===== verification/ValidatorSet.thy ===== *)
theory ValidatorSet
  imports Float64 GoSort
begin

text \<open>
  \<open>pkg/chain/validator.go\<close>: the set of bonded block producers. The set is a record of the map from
  addresses to validators, the slash log, the configuration and the epoch counters; the mutex makes
  every operation atomic. Every operation checks before it writes, so an error return leaves the set
  as it was and the result is a sum.

  \<open>time.Now()\<close> is an argument: \<open>clk i\<close> is the reading of the \<open>i\<close>-th call in an operation. Instants
  are counted from Go's zero time, so \<open>time.Time{}\<close> is \<open>0\<close>. The iteration order of the map is an
  argument (\<open>order\<close>) of the operations that range over it. \<open>int\<close> fields are integers.
\<close>

datatype ValidatorStatus = ValidatorActive | ValidatorJailed | ValidatorExited

type_synonym SlashReason = string

definition SlashDoubleSign :: SlashReason where "SlashDoubleSign = ''double_sign''"
definition SlashDowntime :: SlashReason where "SlashDowntime = ''downtime''"
definition SlashInvalidBlock :: SlashReason where "SlashInvalidBlock = ''invalid_block''"

record Validator =
  VAddress :: string
  Stake :: f64
  VStatus :: ValidatorStatus
  RegisteredAt :: go_time
  JailedUntil :: go_time
  SlashCount :: int
  TotalSlashed :: f64
  BlocksProduced :: u64
  LastBlockAt :: go_time

record SlashEvent =
  SEValidator :: string
  SEReason :: SlashReason
  SEAmount :: f64
  SEEpoch :: u64
  SETimestamp :: go_time

record ValidatorSetConfig =
  MinStake :: f64
  MaxValidators :: int
  EpochBlocks :: u64
  JailDuration :: int
  SlashFraction :: f64
  DowntimeSlash :: f64

record ValidatorSet =
  validators :: "(string, Validator) fmap"
  slashLog :: "SlashEvent list"
  vs_config :: ValidatorSetConfig
  currentEpoch :: u64
  blockCount :: u64

datatype validator_error =
  ErrAlreadyRegistered | ErrNotRegistered | ErrInsufficientStake f64 f64 | ErrSetFull nat int
| ErrExitedValidator | ErrNotJailed | ErrJailNotElapsed go_time | ErrNoActiveValidators

definition second :: int where
  "second = 1000000000"

definition DefaultValidatorSetConfig :: ValidatorSetConfig where
  "DefaultValidatorSetConfig =
     \<lparr>MinStake = f64_of_nat 100, MaxValidators = 100, EpochBlocks = 100,
      JailDuration = 3600 * second, SlashFraction = f64_ratio 5 100, DowntimeSlash = f64_ratio 1 100\<rparr>"

definition NewValidatorSet :: "ValidatorSetConfig \<Rightarrow> ValidatorSet" where
  "NewValidatorSet cfg =
     (let cfg = (if fle (MinStake cfg) fzero then cfg\<lparr>MinStake := f64_of_nat 100\<rparr> else cfg);
          cfg = (if MaxValidators cfg \<le> 0 then cfg\<lparr>MaxValidators := 100\<rparr> else cfg);
          cfg = (if EpochBlocks cfg \<le> 0 then cfg\<lparr>EpochBlocks := 100\<rparr> else cfg)
      in \<lparr>validators = fmempty, slashLog = [], vs_config = cfg, currentEpoch = 0, blockCount = 0\<rparr>)"

definition put_validator :: "string \<Rightarrow> Validator \<Rightarrow> ValidatorSet \<Rightarrow> ValidatorSet" where
  "put_validator a v vs = vs\<lparr>validators := fmupd a v (validators vs)\<rparr>"

definition Register :: "clock \<Rightarrow> string \<Rightarrow> f64 \<Rightarrow> ValidatorSet \<Rightarrow> validator_error + ValidatorSet" where
  "Register clk address stake vs =
     (if fmlookup (validators vs) address \<noteq> None then Inl ErrAlreadyRegistered
      else if fless stake (MinStake (vs_config vs))
        then Inl (ErrInsufficientStake (MinStake (vs_config vs)) stake)
      else if int (map_len (validators vs)) \<ge> MaxValidators (vs_config vs)
        then Inl (ErrSetFull (map_len (validators vs)) (MaxValidators (vs_config vs)))
      else Inr (put_validator address
        \<lparr>VAddress = address, Stake = stake, VStatus = ValidatorActive, RegisteredAt = clk 0,
         JailedUntil = 0, SlashCount = 0, TotalSlashed = fzero, BlocksProduced = 0, LastBlockAt = 0\<rparr> vs))"

definition AddStake :: "string \<Rightarrow> f64 \<Rightarrow> ValidatorSet \<Rightarrow> validator_error + ValidatorSet" where
  "AddStake address amount vs =
     (case fmlookup (validators vs) address of
        None \<Rightarrow> Inl ErrNotRegistered
      | Some v \<Rightarrow>
          if VStatus v = ValidatorExited then Inl ErrExitedValidator
          else Inr (put_validator address (v\<lparr>Stake := fadd (Stake v) amount\<rparr>) vs))"

definition Exit :: "string \<Rightarrow> ValidatorSet \<Rightarrow> validator_error + Validator \<times> ValidatorSet" where
  "Exit address vs =
     (case fmlookup (validators vs) address of
        None \<Rightarrow> Inl ErrNotRegistered
      | Some v \<Rightarrow>
          let v = v\<lparr>VStatus := ValidatorExited\<rparr> in Inr (v, put_validator address v vs))"

definition Slash ::
    "clock \<Rightarrow> string \<Rightarrow> SlashReason \<Rightarrow> ValidatorSet \<Rightarrow> validator_error + SlashEvent \<times> ValidatorSet" where
  "Slash clk address reason vs =
     (case fmlookup (validators vs) address of
        None \<Rightarrow> Inl ErrNotRegistered
      | Some v \<Rightarrow>
          if VStatus v = ValidatorExited then Inl ErrExitedValidator
          else
            let fraction = (if reason = SlashDowntime then DowntimeSlash (vs_config vs)
                            else SlashFraction (vs_config vs));
                amount = fmul (Stake v) fraction;
                v = v\<lparr>Stake := fsub (Stake v) amount, TotalSlashed := fadd (TotalSlashed v) amount,
                      SlashCount := SlashCount v + 1, VStatus := ValidatorJailed,
                      JailedUntil := clk 0 + JailDuration (vs_config vs)\<rparr>;
                event = \<lparr>SEValidator = address, SEReason = reason, SEAmount = amount,
                         SEEpoch = currentEpoch vs, SETimestamp = clk 1\<rparr>
            in Inr (event, (put_validator address v vs)\<lparr>slashLog := slashLog vs @ [event]\<rparr>))"

definition Unjail :: "clock \<Rightarrow> string \<Rightarrow> ValidatorSet \<Rightarrow> validator_error + ValidatorSet" where
  "Unjail clk address vs =
     (case fmlookup (validators vs) address of
        None \<Rightarrow> Inl ErrNotRegistered
      | Some v \<Rightarrow>
          if VStatus v \<noteq> ValidatorJailed then Inl ErrNotJailed
          else if clk 0 < JailedUntil v then Inl (ErrJailNotElapsed (JailedUntil v))
          else if fless (Stake v) (MinStake (vs_config vs))
            then Inl (ErrInsufficientStake (MinStake (vs_config vs)) (Stake v))
          else Inr (put_validator address (v\<lparr>VStatus := ValidatorActive, JailedUntil := 0\<rparr>) vs))"

definition RecordBlock :: "clock \<Rightarrow> string \<Rightarrow> ValidatorSet \<Rightarrow> bool \<times> ValidatorSet" where
  "RecordBlock clk address vs =
     (let vs = (case fmlookup (validators vs) address of
                  None \<Rightarrow> vs
                | Some v \<Rightarrow> put_validator address
                    (v\<lparr>BlocksProduced := BlocksProduced v + 1, LastBlockAt := clk 0\<rparr>) vs);
          vs = vs\<lparr>blockCount := blockCount vs + 1\<rparr>
      in if blockCount vs \<ge> EpochBlocks (vs_config vs)
         then (True, vs\<lparr>currentEpoch := currentEpoch vs + 1, blockCount := 0\<rparr>)
         else (False, vs))"

definition is_electable :: "go_time \<Rightarrow> Validator \<Rightarrow> bool" where
  "is_electable now v \<longleftrightarrow>
     VStatus v = ValidatorActive \<or> (VStatus v = ValidatorJailed \<and> JailedUntil v < now)"

definition ActiveValidators :: "string list \<Rightarrow> go_time \<Rightarrow> ValidatorSet \<Rightarrow> Validator list" where
  "ActiveValidators order now vs =
     go_sort (\<lambda>v w. fless (Stake w) (Stake v))
       (filter (is_electable now) (List.map_filter (fmlookup (validators vs)) order))"

definition GetValidator :: "string \<Rightarrow> ValidatorSet \<Rightarrow> Validator option" where
  "GetValidator address vs = fmlookup (validators vs) address"

definition CurrentEpoch :: "ValidatorSet \<Rightarrow> u64" where
  "CurrentEpoch vs = currentEpoch vs"

definition SlashLog :: "ValidatorSet \<Rightarrow> SlashEvent list" where
  "SlashLog vs = slashLog vs"

definition Size :: "ValidatorSet \<Rightarrow> nat" where
  "Size vs = map_len (validators vs)"

definition RegisteredAddresses :: "string list \<Rightarrow> ValidatorSet \<Rightarrow> string list" where
  "RegisteredAddresses order vs = filter (\<lambda>a. fmlookup (validators vs) a \<noteq> None) order"

definition SetStake :: "string \<Rightarrow> f64 \<Rightarrow> ValidatorSet \<Rightarrow> validator_error + ValidatorSet" where
  "SetStake address stake vs =
     (case fmlookup (validators vs) address of
        None \<Rightarrow> Inl ErrNotRegistered
      | Some v \<Rightarrow>
          if VStatus v = ValidatorExited then Inl ErrExitedValidator
          else let stake = (if fless stake (MinStake (vs_config vs)) then MinStake (vs_config vs) else stake)
               in Inr (put_validator address (v\<lparr>Stake := stake\<rparr>) vs))"

definition ProposerForEpoch :: "string list \<Rightarrow> go_time \<Rightarrow> ValidatorSet \<Rightarrow> validator_error + string" where
  "ProposerForEpoch order now vs =
     (case ActiveValidators order now vs of
        [] \<Rightarrow> Inl ErrNoActiveValidators
      | v # _ \<Rightarrow> Inr (VAddress v))"

lemmas validator_defs =
  Register_def AddStake_def Exit_def Slash_def Unjail_def RecordBlock_def SetStake_def put_validator_def

section \<open>The lifecycle as a step relation\<close>

text \<open>
  Every operation that changes the set. \<open>AddStake\<close> does not check the sign of its amount; the parameter
  \<open>ok\<close> says which amounts a run adds, and \<open>vs_step\<close> allows all of them. Stakes are representable as
  \<open>float64\<close> values (\<open>wf64\<close>); NaN and infinities are among them.
\<close>

inductive vs_step_by :: "(f64 \<Rightarrow> bool) \<Rightarrow> ValidatorSet \<Rightarrow> ValidatorSet \<Rightarrow> bool" for ok where
  register: "Register clk a s vs = Inr vs' \<Longrightarrow> wf64 s \<Longrightarrow> vs_step_by ok vs vs'"
| add_stake: "AddStake a x vs = Inr vs' \<Longrightarrow> wf64 x \<Longrightarrow> ok x \<Longrightarrow> vs_step_by ok vs vs'"
| exits: "Exit a vs = Inr (v, vs') \<Longrightarrow> vs_step_by ok vs vs'"
| slash: "Slash clk a r vs = Inr (e, vs') \<Longrightarrow> vs_step_by ok vs vs'"
| unjail: "Unjail clk a vs = Inr vs' \<Longrightarrow> vs_step_by ok vs vs'"
| record_block: "RecordBlock clk a vs = (b, vs') \<Longrightarrow> vs_step_by ok vs vs'"
| set_stake: "SetStake a s vs = Inr vs' \<Longrightarrow> wf64 s \<Longrightarrow> vs_step_by ok vs vs'"

abbreviation vs_step :: "ValidatorSet \<Rightarrow> ValidatorSet \<Rightarrow> bool" where
  "vs_step \<equiv> vs_step_by (\<lambda>_. True)"

definition slashes_of :: "string \<Rightarrow> ValidatorSet \<Rightarrow> SlashEvent list" where
  "slashes_of a vs = filter (\<lambda>e. SEValidator e = a) (slashLog vs)"

definition validator_ok :: "ValidatorSet \<Rightarrow> string \<Rightarrow> Validator \<Rightarrow> bool" where
  "validator_ok vs a v \<longleftrightarrow>
     VAddress v = a \<and> wf64 (Stake v) \<and>
     SlashCount v = int (length (slashes_of a vs)) \<and>
     TotalSlashed v = foldl fadd fzero (map SEAmount (slashes_of a vs))"

definition vs_inv :: "ValidatorSet \<Rightarrow> bool" where
  "vs_inv vs \<longleftrightarrow>
     (\<forall>a v. fmlookup (validators vs) a = Some v \<longrightarrow> validator_ok vs a v) \<and>
     (\<forall>e \<in> set (slashLog vs). fmlookup (validators vs) (SEValidator e) \<noteq> None) \<and>
     int (map_len (validators vs)) \<le> MaxValidators (vs_config vs) \<and>
     blockCount vs < EpochBlocks (vs_config vs)"

text \<open>The stake floor of active validators, which needs deposits that are not negative.\<close>

definition floored_stakes :: "ValidatorSet \<Rightarrow> bool" where
  "floored_stakes vs \<longleftrightarrow>
     (\<forall>a v. fmlookup (validators vs) a = Some v \<longrightarrow> VStatus v = ValidatorActive \<longrightarrow>
        \<not> fless (Stake v) (MinStake (vs_config vs)))"

definition config_ok :: "ValidatorSetConfig \<Rightarrow> bool" where
  "config_ok cfg \<longleftrightarrow> wf64 (MinStake cfg) \<and> (MinStake cfg = NaN \<or> fle fzero (MinStake cfg))"

lemma vs_step_config: "vs_step_by ok vs vs' \<Longrightarrow> vs_config vs' = vs_config vs"
  by (erule vs_step_by.cases) (auto simp: validator_defs Let_def split: option.splits if_splits)

lemma vs_invD:
  assumes "vs_inv vs"
  shows "fmlookup (validators vs) a = Some v \<Longrightarrow> validator_ok vs a v"
    and "e \<in> set (slashLog vs) \<Longrightarrow> fmlookup (validators vs) (SEValidator e) \<noteq> None"
  using assms by (auto simp: vs_inv_def)

text \<open>Replacing one entry: the invariant asks only for the new entry.\<close>

lemma vs_inv_put:
  assumes "vs_inv vs" "validator_ok vs a v" "fmlookup (validators vs) a = Some w"
  shows "vs_inv (put_validator a v vs)"
  using assms
  by (auto simp: vs_inv_def put_validator_def validator_ok_def slashes_of_def)

lemma vs_inv_fresh:
  assumes inv: "vs_inv vs" and ok: "validator_ok vs a v" and fresh: "fmlookup (validators vs) a = None"
    and room: "int (map_len (validators vs)) < MaxValidators (vs_config vs)"
  shows "vs_inv (put_validator a v vs)"
  using assms by (auto simp: vs_inv_def put_validator_def validator_ok_def slashes_of_def)

lemma no_slashes_unregistered:
  "vs_inv vs \<Longrightarrow> fmlookup (validators vs) a = None \<Longrightarrow> slashes_of a vs = []"
  by (auto simp: slashes_of_def filter_empty_conv dest: vs_invD(2))

lemma vs_inv_register:
  assumes "vs_inv vs" "Register clk a s vs = Inr vs'" "wf64 s"
  shows "vs_inv vs'"
proof -
  from assms(2) have new: "fmlookup (validators vs) a = None" by (simp add: Register_def split: if_splits)
  with assms show ?thesis
    by (auto simp: Register_def validator_ok_def no_slashes_unregistered split: if_splits intro!: vs_inv_fresh)
qed

lemma vs_inv_slash:
  assumes "vs_inv vs" "Slash clk a r vs = Inr (e, vs')"
  shows "vs_inv vs'"
proof -
  obtain v where v: "fmlookup (validators vs) a = Some v" "VStatus v \<noteq> ValidatorExited"
    using assms(2) by (auto simp: Slash_def split: option.splits if_splits)
  note ok = vs_invD(1) [OF assms(1) v(1)]
  have others: "validator_ok vs' b w"
    if "b \<noteq> a" "fmlookup (validators vs) b = Some w" for b w
    using vs_invD(1) [OF assms(1) that(2)] assms(2) v that(1)
    by (auto simp: Slash_def Let_def validator_ok_def slashes_of_def put_validator_def)
  obtain v' where v': "fmlookup (validators vs') a = Some v'" "validator_ok vs' a v'"
    using assms(2) v ok by (auto simp: Slash_def Let_def put_validator_def validator_ok_def slashes_of_def)
  have keep: "fmlookup (validators vs') b = fmlookup (validators vs) b" if "b \<noteq> a" for b
    using assms(2) v that by (auto simp: Slash_def Let_def put_validator_def)
  have "validator_ok vs' b w" if "fmlookup (validators vs') b = Some w" for b w
    using others [of b w] keep [of b] v' that by (cases "b = a") auto
  then show ?thesis
    using assms v by (auto simp: Slash_def Let_def vs_inv_def put_validator_def)
qed

lemma vs_inv_record:
  assumes "vs_inv vs" "RecordBlock clk a vs = (b, vs')"
  shows "vs_inv vs'"
proof -
  define vs1 where "vs1 = (case fmlookup (validators vs) a of None \<Rightarrow> vs
    | Some v \<Rightarrow> put_validator a (v\<lparr>BlocksProduced := BlocksProduced v + 1, LastBlockAt := clk 0\<rparr>) vs)"
  have inv1: "vs_inv vs1"
    using assms(1) vs_invD(1) [OF assms(1)]
    by (auto simp: vs1_def validator_ok_def split: option.splits intro!: vs_inv_put)
  have "vs' = (if blockCount vs1 + 1 \<ge> EpochBlocks (vs_config vs1)
      then vs1\<lparr>blockCount := 0, currentEpoch := currentEpoch vs1 + 1\<rparr>
      else vs1\<lparr>blockCount := blockCount vs1 + 1\<rparr>)"
    using assms(2) by (auto simp: RecordBlock_def vs1_def Let_def split: if_splits option.splits)
  moreover have "0 < EpochBlocks (vs_config vs1)"
    using inv1 unfolding vs_inv_def by (metis word_not_simps(1) word_gt_0)
  ultimately show ?thesis
    using inv1 by (auto simp: vs_inv_def validator_ok_def slashes_of_def)
qed

lemma vs_step_inv:
  assumes "vs_step_by ok vs vs'" "vs_inv vs" "config_ok (vs_config vs)"
  shows "vs_inv vs'"
  using assms
proof (cases rule: vs_step_by.cases)
  case (add_stake a x)
  then show ?thesis
    using vs_invD(1) [OF assms(2)] assms
    by (auto simp: AddStake_def validator_ok_def config_ok_def
        split: option.splits if_splits intro!: vs_inv_put)
next
  case (exits a v)
  then show ?thesis
    using vs_invD(1) [OF assms(2)] assms
    by (auto simp: Exit_def validator_ok_def Let_def split: option.splits intro!: vs_inv_put)
next
  case (unjail clk a)
  then show ?thesis
    using vs_invD(1) [OF assms(2)] assms
    by (auto simp: Unjail_def validator_ok_def split: option.splits if_splits intro!: vs_inv_put)
next
  case (set_stake a s)
  then show ?thesis
    using vs_invD(1) [OF assms(2)] assms
    by (auto simp: SetStake_def validator_ok_def config_ok_def Let_def
        split: option.splits if_splits intro!: vs_inv_put)
qed (auto intro: vs_inv_register vs_inv_slash vs_inv_record)

lemma floored_put:
  assumes "floored_stakes vs" "VStatus v = ValidatorActive \<Longrightarrow> \<not> fless (Stake v) (MinStake (vs_config vs))"
  shows "floored_stakes (put_validator a v vs)"
  using assms by (auto simp: floored_stakes_def put_validator_def)

lemma vs_step_floored:
  assumes "vs_step_by ok vs vs'" "\<And>x. ok x \<Longrightarrow> fle fzero x" "vs_inv vs" "config_ok (vs_config vs)" "floored_stakes vs"
  shows "floored_stakes vs'"
  using assms(1)
proof cases
  case (register clk a s)
  then show ?thesis using assms(5) by (auto simp: Register_def split: if_splits intro!: floored_put)
next
  case (add_stake a x)
  then obtain v where v: "fmlookup (validators vs) a = Some v" "vs' = put_validator a (v\<lparr>Stake := fadd (Stake v) x\<rparr>) vs"
    by (auto simp: AddStake_def split: option.splits if_splits)
  have "wf64 (Stake v)" using vs_invD(1) [OF assms(3) v(1)] by (simp add: validator_ok_def)
  then show ?thesis
    unfolding v(2) using v(1) add_stake assms(2) [of x] assms(4,5)
    by (intro floored_put) (auto simp: floored_stakes_def config_ok_def fadd_keeps_floor)
next
  case (exits a v)
  then show ?thesis using assms(5) by (auto simp: Exit_def Let_def split: option.splits intro!: floored_put)
next
  case (slash clk a r e)
  then show ?thesis
    using assms(5) by (auto simp: Slash_def Let_def floored_stakes_def put_validator_def split: option.splits if_splits)
next
  case (unjail clk a)
  then show ?thesis using assms(5) by (auto simp: Unjail_def split: option.splits if_splits intro!: floored_put)
next
  case (record_block clk a b)
  then show ?thesis
    using assms(5) by (auto simp: RecordBlock_def Let_def floored_stakes_def put_validator_def split: option.splits if_splits)
next
  case (set_stake a s)
  have "\<not> fless (MinStake (vs_config vs)) (MinStake (vs_config vs))"
    by (cases "MinStake (vs_config vs)") auto
  then show ?thesis
    using set_stake assms(5) by (auto simp: SetStake_def Let_def split: option.splits if_splits intro!: floored_put)
qed

lemma fle_total: "x \<noteq> NaN \<Longrightarrow> y \<noteq> NaN \<Longrightarrow> fle x y \<or> fless y x"
  by (metis not_fless_iff)

lemma config_ok_new: "wf64 (MinStake cfg) \<Longrightarrow> config_ok (vs_config (NewValidatorSet cfg))"
  using fle_total [of "MinStake cfg" fzero]
  by (auto simp: NewValidatorSet_def config_ok_def Let_def fzero_f_int fle_def)

lemma vs_inv_new: "vs_inv (NewValidatorSet cfg)"
  by (auto simp: NewValidatorSet_def vs_inv_def Let_def word_gt_0)

lemma vs_steps_config: "(vs_step_by ok)\<^sup>*\<^sup>* vs vs' \<Longrightarrow> vs_config vs' = vs_config vs"
  by (induction rule: rtranclp_induct) (auto dest: vs_step_config)

lemma vs_steps_inv: "(vs_step_by ok)\<^sup>*\<^sup>* vs vs' \<Longrightarrow> vs_inv vs \<Longrightarrow> config_ok (vs_config vs) \<Longrightarrow> vs_inv vs'"
  by (induction rule: rtranclp_induct) (auto intro: vs_step_inv simp: vs_steps_config)

lemma vs_steps_floored:
  assumes "(vs_step_by ok)\<^sup>*\<^sup>* vs vs'" "\<And>x. ok x \<Longrightarrow> fle fzero x" "vs_inv vs" "config_ok (vs_config vs)" "floored_stakes vs"
  shows "floored_stakes vs'"
  using assms(1)
proof (induction rule: rtranclp_induct)
  case (step y z)
  then show ?case
    using vs_step_floored [OF step(2) assms(2)] vs_steps_inv [OF step(1) assms(3,4)] vs_steps_config [OF step(1)] assms(4) by simp
qed (rule assms(5))

section \<open>The elected validators\<close>

interpretation by_stake: weak_less "\<lambda>v w. fless (Stake w) (Stake v)" "{v. Stake v \<noteq> NaN}"
  by unfold_locales (auto dest: fless_asym not_fless_trans)

definition electable :: "go_time \<Rightarrow> ValidatorSet \<Rightarrow> Validator set" where
  "electable now vs = {v. is_electable now v \<and> (\<exists>a. fmlookup (validators vs) a = Some v)}"

lemma set_map_filter: "set (List.map_filter f xs) = {y. \<exists>x \<in> set xs. f x = Some y}"
  by (auto simp: List.map_filter_def image_iff) (metis option.collapse option.distinct(1) option.sel)

lemma set_active:
  assumes "map_order (validators vs) order"
  shows "set (ActiveValidators order now vs) = electable now vs"
  using map_order_mem [OF assms] by (auto simp: ActiveValidators_def electable_def set_map_filter)

lemma distinct_option_filter:
  assumes "distinct xs" "\<And>x y v. f x = Some v \<Longrightarrow> f y = Some v \<Longrightarrow> x = y"
  shows "distinct (List.map_filter f xs)"
  using assms(1)
  by (induction xs) (auto simp: map_filter_simps set_map_filter dest: assms(2) split: option.split)

lemma distinct_active:
  assumes "vs_inv vs" "map_order (validators vs) order"
  shows "distinct (map VAddress (ActiveValidators order now vs))"
proof -
  have addr: "VAddress v = a" if "fmlookup (validators vs) a = Some v" for a v
    using vs_invD(1) [OF assms(1) that] by (simp add: validator_ok_def)
  then have "distinct (List.map_filter (fmlookup (validators vs)) order)"
    using assms(2) by (intro distinct_option_filter) (auto simp: map_order_def dest: addr)
  then have "distinct (ActiveValidators order now vs)"
    unfolding ActiveValidators_def by (metis distinct_filter mset_eq_imp_distinct_iff mset_go_sort)
  moreover have "inj_on VAddress (set (ActiveValidators order now vs))"
  proof (rule inj_onI)
    fix v w
    assume "v \<in> set (ActiveValidators order now vs)" "w \<in> set (ActiveValidators order now vs)"
      and eq: "VAddress v = VAddress w"
    then obtain a b where "fmlookup (validators vs) a = Some v" "fmlookup (validators vs) b = Some w"
      unfolding set_active [OF assms(2)] electable_def by blast
    then show "v = w" using addr eq by fastforce
  qed
  ultimately show ?thesis by (simp add: distinct_map)
qed

lemma mset_active:
  assumes "vs_inv vs" "map_order (validators vs) o1" "map_order (validators vs) o2"
  shows "mset (ActiveValidators o1 now vs) = mset (ActiveValidators o2 now vs)"
proof -
  have "set (ActiveValidators o1 now vs) = set (ActiveValidators o2 now vs)"
    using assms by (simp add: set_active)
  moreover have "distinct (ActiveValidators o1 now vs)" "distinct (ActiveValidators o2 now vs)"
    using distinct_active [OF assms(1)] assms(2,3) distinct_map by blast+
  ultimately show ?thesis using set_eq_iff_mset_eq_distinct by blast
qed

definition real_stakes :: "ValidatorSet \<Rightarrow> bool" where
  "real_stakes vs \<longleftrightarrow> (\<forall>a v. fmlookup (validators vs) a = Some v \<longrightarrow> Stake v \<noteq> NaN)"

lemma active_sorted:
  assumes "real_stakes vs"
  shows "sorted_wrt (\<lambda>v w. \<not> fless (Stake v) (Stake w)) (ActiveValidators order now vs)"
  unfolding ActiveValidators_def using assms
  by (intro by_stake.sorted_go_sort) (auto simp: set_map_filter real_stakes_def)

section \<open>Properties\<close>

lemma exited_step:
  assumes "vs_step vs vs'" "fmlookup (validators vs) a = Some v" "VStatus v = ValidatorExited"
  shows "\<exists>v'. fmlookup (validators vs') a = Some v' \<and> VStatus v' = ValidatorExited \<and> Stake v' = Stake v"
  using assms
  by (cases rule: vs_step_by.cases) (auto simp: validator_defs Let_def split: option.splits if_splits)

lemma exited_steps:
  assumes "vs_step\<^sup>*\<^sup>* vs vs'" "fmlookup (validators vs) a = Some v" "VStatus v = ValidatorExited"
  shows "\<exists>v'. fmlookup (validators vs') a = Some v' \<and> VStatus v' = ValidatorExited \<and> Stake v' = Stake v"
  using assms(1)
proof (induction rule: rtranclp_induct)
  case (step y z)
  then show ?case using exited_step [OF step.hyps(2)] by metis
qed (use assms in simp)

text \<open>
  C33: In every validator set reached from a new one by any sequence of operations with any amounts,
  the set holds at most \<open>MaxValidators\<close> entries, every slash event names a registered validator, and the
  slash count and the total slashed of a validator are exactly the number and the sum of its events in
  the slash log. When no run adds a negative or NaN amount of stake, an active validator also has at least
  the minimum stake.
\<close>

theorem reachable_validator_set_ok:
  assumes "(vs_step_by ok)\<^sup>*\<^sup>* (NewValidatorSet cfg) vs" "wf64 (MinStake cfg)"
  shows "vs_inv vs \<and> ((\<forall>x. ok x \<longrightarrow> fle fzero x) \<longrightarrow> floored_stakes vs)"
proof -
  have "floored_stakes (NewValidatorSet cfg)" by (simp add: floored_stakes_def NewValidatorSet_def Let_def)
  then show ?thesis
    using vs_steps_inv [OF assms(1) vs_inv_new config_ok_new [OF assms(2)]]
      vs_steps_floored [OF assms(1) _ vs_inv_new config_ok_new [OF assms(2)]] by blast
qed

definition example_validator :: "string \<Rightarrow> go_time \<Rightarrow> Validator" where
  "example_validator a t =
     \<lparr>VAddress = a, Stake = f_int 200, VStatus = ValidatorActive, RegisteredAt = t, JailedUntil = 0,
      SlashCount = 0, TotalSlashed = fzero, BlocksProduced = 0, LastBlockAt = 0\<rparr>"

definition example_set :: ValidatorSet where
  "example_set =
     \<lparr>validators = fmupd ''b'' (example_validator ''b'' 6) (fmupd ''a'' (example_validator ''a'' 5) fmempty),
      slashLog = [], vs_config = DefaultValidatorSetConfig, currentEpoch = 0, blockCount = 0\<rparr>"

lemma example_config [simp]:
  "MinStake DefaultValidatorSetConfig = f_int 100" "MaxValidators DefaultValidatorSetConfig = 100"
  "EpochBlocks DefaultValidatorSetConfig = 100"
  by (simp_all add: DefaultValidatorSetConfig_def)

lemma example_new:
  "NewValidatorSet DefaultValidatorSetConfig =
     \<lparr>validators = fmempty, slashLog = [], vs_config = DefaultValidatorSetConfig,
      currentEpoch = 0, blockCount = 0\<rparr>"
  by (simp add: NewValidatorSet_def Let_def fzero_f_int)

lemma example_register:
  "Register (\<lambda>_. 5) ''a'' (f_int 200) (NewValidatorSet DefaultValidatorSetConfig) =
     Inr (put_validator ''a'' (example_validator ''a'' 5) (NewValidatorSet DefaultValidatorSetConfig))"
  "Register (\<lambda>_. 6) ''b'' (f_int 200)
     (put_validator ''a'' (example_validator ''a'' 5) (NewValidatorSet DefaultValidatorSetConfig)) =
     Inr example_set"
  by (simp_all add: example_new Register_def put_validator_def example_validator_def example_set_def)

lemma example_run: "(vs_step_by ok)\<^sup>*\<^sup>* (NewValidatorSet DefaultValidatorSetConfig) example_set"
  using vs_step_by.register [OF example_register(1), of ok] vs_step_by.register [OF example_register(2), of ok]
  by (simp add: converse_rtranclp_into_rtranclp)

lemmas example_reachable = example_run [of "\<lambda>_. True"]

theorem reachable_validator_set_ok_witness:
  "map_len (validators example_set) = 2 \<and> vs_inv example_set \<and> floored_stakes example_set"
  using reachable_validator_set_ok [OF example_run [of "\<lambda>x. fle fzero x"]]
  by (simp add: example_set_def)

text \<open>
  \<open>AddStake\<close> takes a negative amount and leaves the validator active, below the minimum stake and
  among the elected ones.
\<close>

theorem negative_stake_goes_below_floor:
  "\<exists>vs. AddStake ''a'' (fneg (f_int 150)) example_set = Inr vs \<and> vs_step\<^sup>*\<^sup>* (NewValidatorSet DefaultValidatorSetConfig) vs \<and>
     \<not> floored_stakes vs \<and> ''a'' \<in> VAddress ` electable 7 vs"
proof -
  let ?v = "(example_validator ''a'' 5)\<lparr>Stake := fadd (f_int 200) (fneg (f_int 150))\<rparr>"
  let ?vs = "put_validator ''a'' ?v example_set"
  have add: "AddStake ''a'' (fneg (f_int 150)) example_set = Inr ?vs"
    by (simp add: AddStake_def example_set_def example_validator_def)
  have v: "fmlookup (validators ?vs) ''a'' = Some ?v" "VStatus ?v = ValidatorActive" "VAddress ?v = ''a''"
    by (simp_all add: put_validator_def example_validator_def)
  have "vs_step example_set ?vs" by (rule vs_step_by.add_stake [OF add]) simp_all
  then have run: "vs_step\<^sup>*\<^sup>* (NewValidatorSet DefaultValidatorSetConfig) ?vs"
    using example_reachable by (meson rtranclp.rtrancl_into_rtrancl)
  have low: "fless (Stake ?v) (MinStake (vs_config ?vs))"
    by (simp add: put_validator_def example_set_def)
  have "\<not> floored_stakes ?vs" unfolding floored_stakes_def using v(1,2) low by blast
  moreover have "?v \<in> electable 7 ?vs" using v(1,2) by (auto simp: electable_def is_electable_def)
  ultimately show ?thesis using add run v(3) by (metis imageI)
qed

text \<open>
  Exit is final: whatever operations follow, an exited validator stays exited, keeps its stake
  and is never among the active validators again.
\<close>

theorem exited_validator_never_returns:
  assumes "vs_step\<^sup>*\<^sup>* (NewValidatorSet cfg) vs" "vs_step\<^sup>*\<^sup>* vs vs'" "wf64 (MinStake cfg)"
    and "fmlookup (validators vs) a = Some v" "VStatus v = ValidatorExited"
    and "map_order (validators vs') order"
  shows "a \<notin> VAddress ` set (ActiveValidators order now vs') \<and>
    (\<exists>v'. GetValidator a vs' = Some v' \<and> VStatus v' = ValidatorExited \<and> Stake v' = Stake v)"
proof -
  have "vs_step\<^sup>*\<^sup>* (NewValidatorSet cfg) vs'" using assms(1,2) by (rule rtranclp_trans)
  then have inv: "vs_inv vs'" using vs_steps_inv vs_inv_new config_ok_new [OF assms(3)] by blast
  obtain v' where v': "fmlookup (validators vs') a = Some v'" "VStatus v' = ValidatorExited"
      "Stake v' = Stake v"
    using exited_steps [OF assms(2,4,5)] by blast
  have "VAddress w \<noteq> a" if "w \<in> electable now vs'" for w
    using that v' vs_invD(1) [OF inv] by (auto simp: electable_def is_electable_def validator_ok_def)
  then show ?thesis using v' by (auto simp: set_active [OF assms(6)] GetValidator_def)
qed

definition example_exited :: ValidatorSet where
  "example_exited = put_validator ''a'' ((example_validator ''a'' 5)\<lparr>VStatus := ValidatorExited\<rparr>) example_set"

theorem exited_validator_never_returns_witness:
  "''a'' \<notin> VAddress ` set (ActiveValidators [''a'', ''b''] 7 example_exited)"
proof -
  have "Exit ''a'' example_set = Inr ((example_validator ''a'' 5)\<lparr>VStatus := ValidatorExited\<rparr>, example_exited)"
    by (simp add: Exit_def example_set_def example_exited_def Let_def)
  then have "vs_step\<^sup>*\<^sup>* (NewValidatorSet DefaultValidatorSetConfig) example_exited"
    using example_reachable vs_step_by.exits by (meson rtranclp.rtrancl_into_rtrancl)
  then show ?thesis
    using exited_validator_never_returns [of DefaultValidatorSetConfig example_exited example_exited "''a''"
        "(example_validator ''a'' 5)\<lparr>VStatus := ValidatorExited\<rparr>" "[''a'', ''b'']" 7]
    by (auto simp: example_exited_def put_validator_def example_set_def map_order_def)
qed

text \<open>
  The epoch proposer is not a function of the validator set: with two validators of equal stake
  the map iteration order decides who \<open>ProposerForEpoch\<close> names.
\<close>

theorem epoch_proposer_depends_on_map_order:
  "vs_step\<^sup>*\<^sup>* (NewValidatorSet DefaultValidatorSetConfig) example_set \<and>
   map_order (validators example_set) [''a'', ''b''] \<and> map_order (validators example_set) [''b'', ''a''] \<and>
   ProposerForEpoch [''a'', ''b''] 7 example_set = Inr ''a'' \<and>
   ProposerForEpoch [''b'', ''a''] 7 example_set = Inr ''b''"
  using example_reachable
  by (intro conjI) (auto simp: map_order_def example_set_def ProposerForEpoch_def
      ActiveValidators_def map_filter_simps is_electable_def example_validator_def)

end
