(* ===== verification/Sha256.thy ===== *)
theory Sha256
  imports Prelude
begin

text \<open>
  Go's \<open>crypto/sha256\<close> and \<open>encoding/hex\<close>: SHA-256 of FIPS 180-4 on byte lists, and the lower-case
  hexadecimal rendering of a byte list. The ledger's state root, transaction root and work-set root
  are built from them. The proofs use only that the digest has 32 bytes; no collision freedom is
  assumed anywhere.
\<close>

unbundle bit_operations_syntax

type_synonym bytes = "u8 list"

text \<open>The round constants, in decimal.\<close>

definition K256 :: "u32 list" where
  "K256 =
    [1116352408, 1899447441, 3049323471, 3921009573, 961987163, 1508970993, 2453635748, 2870763221,
     3624381080, 310598401, 607225278, 1426881987, 1925078388, 2162078206, 2614888103, 3248222580,
     3835390401, 4022224774, 264347078, 604807628, 770255983, 1249150122, 1555081692, 1996064986,
     2554220882, 2821834349, 2952996808, 3210313671, 3336571891, 3584528711, 113926993, 338241895,
     666307205, 773529912, 1294757372, 1396182291, 1695183700, 1986661051, 2177026350, 2456956037,
     2730485921, 2820302411, 3259730800, 3345764771, 3516065817, 3600352804, 4094571909, 275423344,
     430227734, 506948616, 659060556, 883997877, 958139571, 1322822218, 1537002063, 1747873779,
     1955562222, 2024104815, 2227730452, 2361852424, 2428436474, 2756734187, 3204031479, 3329325298]"

datatype sha_state = Sha (sa: u32) (sb: u32) (sc: u32) (sd: u32) (se: u32) (sf: u32) (sg: u32) (sh: u32)

definition sha_init :: sha_state where
  "sha_init = Sha 1779033703 3144134277 1013904242 2773480762 1359893119 2600822924 528734635 1541459225"

definition rotr :: "nat \<Rightarrow> u32 \<Rightarrow> u32" where
  "rotr n x = drop_bit n x OR push_bit (32 - n) x"

fun sha_round :: "sha_state \<Rightarrow> u32 \<times> u32 \<Rightarrow> sha_state" where
  "sha_round (Sha a b c d e f g h) (k, w) =
     (let s1 = rotr 6 e XOR rotr 11 e XOR rotr 25 e;
          ch = (e AND f) XOR (NOT e AND g);
          t1 = h + s1 + ch + k + w;
          s0 = rotr 2 a XOR rotr 13 a XOR rotr 22 a;
          maj = (a AND b) XOR (a AND c) XOR (b AND c);
          t2 = s0 + maj
      in Sha (t1 + t2) a b c (d + t1) e f g)"

text \<open>The message schedule grows from the most recent word: the list is kept reversed.\<close>

fun extend_schedule :: "nat \<Rightarrow> u32 list \<Rightarrow> u32 list" where
  "extend_schedule 0 ws = ws"
| "extend_schedule (Suc n) ws =
     (let w15 = ws ! 14; w2 = ws ! 1;
          s0 = rotr 7 w15 XOR rotr 18 w15 XOR drop_bit 3 w15;
          s1 = rotr 17 w2 XOR rotr 19 w2 XOR drop_bit 10 w2
      in extend_schedule n ((ws ! 15 + s0 + ws ! 6 + s1) # ws))"

fun be_words :: "bytes \<Rightarrow> u32 list" where
  "be_words (a # b # c # d # rest) =
     (push_bit 24 (ucast a) OR push_bit 16 (ucast b) OR push_bit 8 (ucast c) OR ucast d) # be_words rest"
| "be_words _ = []"

fun sha_add :: "sha_state \<Rightarrow> sha_state \<Rightarrow> sha_state" where
  "sha_add (Sha a b c d e f g h) (Sha a' b' c' d' e' f' g' h') =
     Sha (a + a') (b + b') (c + c') (d + d') (e + e') (f + f') (g + g') (h + h')"

definition sha_block :: "sha_state \<Rightarrow> bytes \<Rightarrow> sha_state" where
  "sha_block s blk =
     (let ws = rev (extend_schedule 48 (rev (be_words blk)))
      in sha_add s (foldl sha_round s (zip K256 ws)))"

text \<open>
  Padding: \<open>0x80\<close>, zeros to 56 modulo 64, and the bit length as a 64-bit big-endian number.
\<close>

definition be64 :: "u64 \<Rightarrow> bytes" where
  "be64 x = map (\<lambda>i. ucast (drop_bit (8 * i) x)) [7, 6, 5, 4, 3, 2, 1, 0]"

definition sha_pad :: "bytes \<Rightarrow> bytes" where
  "sha_pad msg =
     msg @ [0x80] @ replicate ((119 - length msg mod 64) mod 64) 0 @ be64 (of_nat (8 * length msg))"

function sha_blocks :: "sha_state \<Rightarrow> bytes \<Rightarrow> sha_state" where
  "sha_blocks s msg = (if length msg < 64 then s
     else sha_blocks (sha_block s (take 64 msg)) (drop 64 msg))"
  by pat_completeness auto
termination
  by (relation "measure (\<lambda>(s, msg). length msg)") auto

declare sha_blocks.simps [simp del]

fun be32 :: "u32 \<Rightarrow> bytes" where
  "be32 x = [ucast (drop_bit 24 x), ucast (drop_bit 16 x), ucast (drop_bit 8 x), ucast x]"

definition sha256 :: "bytes \<Rightarrow> bytes" where
  "sha256 msg =
     (case sha_blocks sha_init (sha_pad msg) of
        Sha a b c d e f g h \<Rightarrow>
          be32 a @ be32 b @ be32 c @ be32 d @ be32 e @ be32 f @ be32 g @ be32 h)"

definition bytes_of_string :: "string \<Rightarrow> bytes" where
  "bytes_of_string s = map (\<lambda>c. of_nat (of_char c)) s"

definition hex_digit :: "nat \<Rightarrow> char" where
  "hex_digit n = ''0123456789abcdef'' ! (n mod 16)"

definition hex_encode :: "bytes \<Rightarrow> string" where
  "hex_encode bs = concat (map (\<lambda>b. [hex_digit (unat b div 16), hex_digit (unat b mod 16)]) bs)"

definition sha256_hex :: "string \<Rightarrow> string" where
  "sha256_hex s = hex_encode (sha256 (bytes_of_string s))"

lemma length_sha256 [simp]: "length (sha256 msg) = 32"
  by (simp add: sha256_def split: sha_state.split)

lemma length_sha256_hex [simp]: "length (sha256_hex s) = 64"
proof -
  have "length (hex_encode bs) = 2 * length bs" for bs
    by (induction bs) (simp_all add: hex_encode_def)
  then show ?thesis by (simp add: sha256_hex_def)
qed

text \<open>The padded message is a whole number of blocks, so no tail is ever dropped.\<close>

lemma sha_pad_blocks: "length (sha_pad msg) mod 64 = 0"
proof -
  define r where "r = length msg mod 64"
  have "length (sha_pad msg) = length msg + 1 + (119 - r) mod 64 + 8"
    by (simp add: sha_pad_def be64_def r_def)
  moreover have "(r + 1 + (119 - r) mod 64 + 8) mod 64 = 0"
  proof -
    have "r < 64" by (simp add: r_def)
    then consider "r \<le> 55" | "55 < r" "r < 64" by linarith
    then show ?thesis
    proof cases
      case 1
      then have "(119 - r) mod 64 = 55 - r" by (simp add: le_mod_geq)
      then show ?thesis using 1 by simp
    next
      case 2
      then have "(119 - r) mod 64 = 119 - r" by simp
      then show ?thesis using 2 by simp
    qed
  qed
  moreover have "length msg = 64 * (length msg div 64) + r" by (simp add: r_def)
  ultimately have "length (sha_pad msg) = 64 * (length msg div 64) + (r + 1 + (119 - r) mod 64 + 8)"
    by linarith
  then have "length (sha_pad msg) mod 64 = (r + 1 + (119 - r) mod 64 + 8) mod 64"
    by (simp only: mod_mult_self4)
  then show ?thesis using \<open>(r + 1 + (119 - r) mod 64 + 8) mod 64 = 0\<close> by (rule trans)
qed

end
