(* ===== verification/Json.thy ===== *)
theory Json
  imports Sha256
begin

text \<open>
  The part of Go's \<open>encoding/json\<close> the enrollment codec uses to produce canonical bytes: strings with
  HTML escaping switched off (and \<open>html_escape\<close> for \<open>json.Marshal\<close>), unsigned numbers, byte slices in standard base64, objects in field
  order. Strings are byte strings; ill-formed UTF-8 is replaced by the escape of U+FFFD, one byte at
  a time, as the Go encoder does.
\<close>

section \<open>UTF-8\<close>

definition cont_byte :: "nat \<Rightarrow> nat \<Rightarrow> nat \<Rightarrow> bool" where
  "cont_byte lo hi b = (lo \<le> b \<and> b \<le> hi)"

text \<open>Length of the well-formed UTF-8 sequence at the head of a byte list, 0 when there is none.\<close>

fun rune_len :: "nat list \<Rightarrow> nat" where
  "rune_len [] = 0"
| "rune_len (b # bs) =
    (let c1 = (\<lambda>lo hi. 1 \<le> length bs \<and> cont_byte lo hi (bs ! 0));
         c2 = (2 \<le> length bs \<and> cont_byte 0x80 0xBF (bs ! 1));
         c3 = (3 \<le> length bs \<and> cont_byte 0x80 0xBF (bs ! 2))
     in if b < 0x80 then 1
        else if 0xC2 \<le> b \<and> b \<le> 0xDF then (if c1 0x80 0xBF then 2 else 0)
        else if b = 0xE0 then (if c1 0xA0 0xBF \<and> c2 then 3 else 0)
        else if b = 0xED then (if c1 0x80 0x9F \<and> c2 then 3 else 0)
        else if 0xE1 \<le> b \<and> b \<le> 0xEF then (if c1 0x80 0xBF \<and> c2 then 3 else 0)
        else if b = 0xF0 then (if c1 0x90 0xBF \<and> c2 \<and> c3 then 4 else 0)
        else if 0xF1 \<le> b \<and> b \<le> 0xF3 then (if c1 0x80 0xBF \<and> c2 \<and> c3 then 4 else 0)
        else if b = 0xF4 then (if c1 0x80 0x8F \<and> c2 \<and> c3 then 4 else 0)
        else 0)"

section \<open>Strings\<close>

definition json_ascii :: "char \<Rightarrow> string" where
  "json_ascii c =
    (let n = (of_char c :: nat)
     in if c = CHR 0x22 \<or> c = CHR 0x5C then [CHR 0x5C, c]
        else if n = 8 then [CHR 0x5C, CHR ''b'']
        else if n = 12 then [CHR 0x5C, CHR ''f'']
        else if n = 10 then [CHR 0x5C, CHR ''n'']
        else if n = 13 then [CHR 0x5C, CHR ''r'']
        else if n = 9 then [CHR 0x5C, CHR ''t'']
        else if n < 32 then CHR 0x5C # ''u00'' @ [hex_digit (n div 16), hex_digit (n mod 16)]
        else [c])"

function json_body :: "string \<Rightarrow> string" where
  "json_body [] = []"
| "json_body (c # s) =
    (let n = rune_len (map of_char (c # s))
     in if n = 0 then CHR 0x5C # ''ufffd'' @ json_body s
        else if n = 1 then json_ascii c @ json_body s
        else if take 3 (c # s) = [CHR 0xE2, CHR 0x80, CHR 0xA8]
          then CHR 0x5C # ''u2028'' @ json_body (drop (n - 1) s)
        else if take 3 (c # s) = [CHR 0xE2, CHR 0x80, CHR 0xA9]
          then CHR 0x5C # ''u2029'' @ json_body (drop (n - 1) s)
        else take n (c # s) @ json_body (drop (n - 1) s))"
  by pat_completeness auto
termination
  by (relation "measure length") auto

definition json_string :: "string \<Rightarrow> string" where
  "json_string s = CHR 0x22 # json_body s @ [CHR 0x22]"

section \<open>Byte slices and objects\<close>

definition b64_char :: "nat \<Rightarrow> char" where
  "b64_char n = (''ABCDEFGHIJKLMNOPQRSTUVWXYZabcdefghijklmnopqrstuvwxyz0123456789'' @ [CHR 0x2B, CHR 0x2F]) ! (n mod 64)"

fun base64 :: "bytes \<Rightarrow> string" where
  "base64 [] = []"
| "base64 [a] =
    (let n = unat a * 16 in [b64_char (n div 64), b64_char n, CHR 0x3D, CHR 0x3D])"
| "base64 [a, b] =
    (let n = (unat a * 256 + unat b) * 4
     in [b64_char (n div 4096), b64_char (n div 64), b64_char n, CHR 0x3D])"
| "base64 (a # b # c # rest) =
    (let n = unat a * 65536 + unat b * 256 + unat c
     in [b64_char (n div 262144), b64_char (n div 4096), b64_char (n div 64), b64_char n] @ base64 rest)"

definition json_field :: "string \<Rightarrow> string \<Rightarrow> string" where
  "json_field name v = json_string name @ CHR 0x3A # v"

fun commas :: "string list \<Rightarrow> string" where
  "commas [] = []"
| "commas [x] = x"
| "commas (x # xs) = x @ CHR 0x2C # commas xs"

definition json_object :: "string list \<Rightarrow> string" where
  "json_object fields = CHR 0x7B # commas fields @ [CHR 0x7D]"

definition json_array :: "string list \<Rightarrow> string" where
  "json_array xs = CHR 0x5B # commas xs @ [CHR 0x5D]"

text \<open>
  \<open>json.Marshal\<close> also escapes the three HTML characters; outside of strings they do not occur, so
  escaping the whole output is the same as escaping the strings.
\<close>

definition html_escape :: "string \<Rightarrow> string" where
  "html_escape s =
    concat (map (\<lambda>c. if c = CHR 0x3C then CHR 0x5C # ''u003c''
                     else if c = CHR 0x3E then CHR 0x5C # ''u003e''
                     else if c = CHR 0x26 then CHR 0x5C # ''u0026'' else [c]) s)"

text \<open>Strings of printable ASCII without quote and backslash are their own JSON body.\<close>

definition plain_char :: "char \<Rightarrow> bool" where
  "plain_char c = (32 \<le> (of_char c :: nat) \<and> (of_char c :: nat) < 128 \<and> c \<noteq> CHR 0x22 \<and> c \<noteq> CHR 0x5C)"

lemma json_body_plain: "list_all plain_char s \<Longrightarrow> json_body s = s"
proof (induction s)
  case (Cons c s)
  then have "(of_char c :: nat) < 128" "32 \<le> (of_char c :: nat)" "c \<noteq> CHR 0x22" "c \<noteq> CHR 0x5C"
    by (simp_all add: plain_char_def)
  then show ?case using Cons by (auto simp: Let_def json_ascii_def)
qed simp

end
