(* ===== verification/Consensus.thy ===== *)
theory Consensus
  imports ValidatorSet Json
begin

text \<open>
  \<open>pkg/chain/consensus.go\<close> and \<open>consensus_certificate.go\<close>: the Tendermint-style voting engine. The
  engine holds a pointer to the validator set; the model keeps the set in the engine's record, and
  the step relation lets the set change between any two calls. Per height there is at most one
  active round; a committed round is moved to \<open>committed\<close>.

  Arguments that stand for what Go leaves open: \<open>clk i\<close> is the \<open>i\<close>-th clock reading of the call,
  \<open>vo\<close> the iteration order of the validator map and \<open>ho\<close> the iteration order of a map local to the
  call. A round returned to the caller is returned by value, so the final status a failed round is
  given after it left the map is not represented.
\<close>

text \<open>A vote type is a string; votes decoded from the wire may carry any.\<close>

type_synonym VoteType = string

definition VotePreVote :: VoteType where "VotePreVote = ''prevote''"
definition VotePreCommit :: VoteType where "VotePreCommit = ''precommit''"

record BlockVote =
  BVValidator :: string
  BVBlockHash :: string
  BVHeight :: u64
  BVRound :: u32
  BVType :: VoteType
  BVTimestamp :: go_time

datatype ConsensusStatus = StatusProposed | StatusPreVoted | StatusCommitted | StatusFailed

record ConsensusRound =
  CRHeight :: u64
  CRRound :: u32
  CRProposer :: string
  CRBlockHash :: string
  LockedBlockHash :: string
  CRStatus :: ConsensusStatus
  PreVotes :: "BlockVote list"
  Commits :: "BlockVote list"
  StartTime :: go_time
  EndTime :: go_time
  Deadline :: go_time

record ConsensusConfig =
  QuorumFraction :: f64
  RoundTimeout :: int
  MaxRounds :: u32

record BFTConsensus =
  bc_validators :: ValidatorSet
  bc_cfg :: ConsensusConfig
  rounds :: "(u64, ConsensusRound) fmap"
  committed :: "(u64, ConsensusRound) fmap"
  nextRound :: "(u64, u32) fmap"
  carryPrevoteLock :: "(u64, string) fmap"

datatype consensus_error =
  ErrHeightCommitted u64 | ErrRoundBehind u32 u32 u64
| ProposerEquivocationError u64 u32 string string string
| ErrDuplicatePropose u64 u32 | ErrRoundStillActive u32 u64 u32
| ErrNoActive | ErrProposerMismatch u32 string string | ErrProposerNotActive string
| ErrNoActiveRound u64 | ErrRoundStatus u64 ConsensusStatus | ErrVoterNotActive string
| ErrAlreadyVoted string u64 | ErrLatePrecommit u64 string string | ErrLockMismatch string string
| ErrNoCommittedRound u64 | ErrNoRound u64 | ErrNoPrevoteLock u64

definition NilVoteHash :: string where
  "NilVoteHash = ''<nil>''"

definition DefaultConsensusConfig :: ConsensusConfig where
  "DefaultConsensusConfig =
     \<lparr>QuorumFraction = f64_ratio 2 3, RoundTimeout = 30 * second, MaxRounds = 5\<rparr>"

definition NewBFTConsensus :: "ValidatorSet \<Rightarrow> ConsensusConfig \<Rightarrow> BFTConsensus" where
  "NewBFTConsensus vs cfg =
     (let q = QuorumFraction cfg;
          cfg = (if fle q fzero \<or> fless (f64_of_nat 1) q then cfg\<lparr>QuorumFraction := f64_ratio 2 3\<rparr> else cfg)
      in \<lparr>bc_validators = vs, bc_cfg = cfg, rounds = fmempty, committed = fmempty,
          nextRound = fmempty, carryPrevoteLock = fmempty\<rparr>)"

section \<open>Proposers\<close>

definition proposer_before :: "Validator \<Rightarrow> Validator \<Rightarrow> bool" where
  "proposer_before v w =
     (if \<not> feq (Stake v) (Stake w) then fless (Stake w) (Stake v) else VAddress v < VAddress w)"

definition proposerForRoundLocked ::
    "string list \<Rightarrow> go_time \<Rightarrow> u32 \<Rightarrow> BFTConsensus \<Rightarrow> consensus_error + string" where
  "proposerForRoundLocked vo now rnd bc =
     (let active = ActiveValidators vo now (bc_validators bc)
      in if active = [] then Inl ErrNoActive
         else let active = go_sort proposer_before active
              in Inr (VAddress (active ! (unat rnd mod length active))))"

definition ProposerForRound ::
    "string list \<Rightarrow> clock \<Rightarrow> u32 \<Rightarrow> BFTConsensus \<Rightarrow> consensus_error + string" where
  "ProposerForRound vo clk rnd bc = proposerForRoundLocked vo (clk 0) rnd bc"

definition is_active_validator :: "string \<Rightarrow> BFTConsensus \<Rightarrow> bool" where
  "is_active_validator a bc =
     (case GetValidator a (bc_validators bc) of
        None \<Rightarrow> False | Some v \<Rightarrow> VStatus v = ValidatorActive)"

definition Propose ::
    "string list \<Rightarrow> clock \<Rightarrow> u64 \<Rightarrow> u32 \<Rightarrow> string \<Rightarrow> string \<Rightarrow> BFTConsensus
      \<Rightarrow> consensus_error + ConsensusRound \<times> BFTConsensus" where
  "Propose vo clk height rnd proposer blockHash bc =
     (if fmlookup (committed bc) height \<noteq> None then Inl (ErrHeightCommitted height)
      else case fmlookup (rounds bc) height of
        Some existing \<Rightarrow>
          if rnd < CRRound existing then Inl (ErrRoundBehind rnd (CRRound existing) height)
          else if rnd = CRRound existing then
            (if proposer = CRProposer existing \<and> blockHash = CRBlockHash existing then Inr (existing, bc)
             else if proposer = CRProposer existing \<and> blockHash \<noteq> CRBlockHash existing
               then Inl (ProposerEquivocationError height rnd proposer (CRBlockHash existing) blockHash)
             else Inl (ErrDuplicatePropose height rnd))
          else Inl (ErrRoundStillActive (CRRound existing) height rnd)
      | None \<Rightarrow>
          (case proposerForRoundLocked vo (clk 0) rnd bc of
             Inl e \<Rightarrow> Inl e
           | Inr expected \<Rightarrow>
               if proposer \<noteq> expected then Inl (ErrProposerMismatch rnd expected proposer)
               else if \<not> is_active_validator proposer bc then Inl (ErrProposerNotActive proposer)
               else
                 let now = clk 1;
                     deadline = (if RoundTimeout (bc_cfg bc) \<le> 0 then now + 30 * second
                                 else now + RoundTimeout (bc_cfg bc));
                     lock = (if rnd > 0
                             then (case fmlookup (carryPrevoteLock bc) height of None \<Rightarrow> [] | Some l \<Rightarrow> l)
                             else []);
                     cr = \<lparr>CRHeight = height, CRRound = rnd, CRProposer = proposer,
                           CRBlockHash = blockHash, LockedBlockHash = lock, CRStatus = StatusProposed,
                           PreVotes = [], Commits = [], StartTime = now, EndTime = 0, Deadline = deadline\<rparr>
                 in Inr (cr, bc\<lparr>rounds := fmupd height cr (rounds bc)\<rparr>)))"

section \<open>Ending a round\<close>

text \<open>Common to \<open>TickRoundTimeouts\<close> and \<open>FailRound\<close>: keep the lock, drop the round, bump the counter.\<close>

definition end_round :: "u64 \<Rightarrow> ConsensusRound \<Rightarrow> BFTConsensus \<Rightarrow> BFTConsensus" where
  "end_round height cr bc =
     (let bc = (if LockedBlockHash cr \<noteq> []
                then bc\<lparr>carryPrevoteLock := fmupd height (LockedBlockHash cr) (carryPrevoteLock bc)\<rparr> else bc)
      in bc\<lparr>rounds := fmdrop height (rounds bc),
            nextRound := fmupd height (CRRound cr + 1) (nextRound bc)\<rparr>)"

definition timed_out :: "go_time \<Rightarrow> ConsensusRound \<Rightarrow> bool" where
  "timed_out now cr \<longleftrightarrow> \<not> (Deadline cr = 0 \<or> now < Deadline cr)"

text \<open>\<open>order\<close> is the iteration order of the map of active rounds.\<close>

fun tick_loop :: "go_time \<Rightarrow> u64 list \<Rightarrow> u64 list \<times> BFTConsensus \<Rightarrow> u64 list \<times> BFTConsensus" where
  "tick_loop now [] (timedOut, bc) = (timedOut, bc)"
| "tick_loop now (height # order) (timedOut, bc) =
     (case fmlookup (rounds bc) height of
        None \<Rightarrow> tick_loop now order (timedOut, bc)
      | Some cr \<Rightarrow>
          if \<not> timed_out now cr then tick_loop now order (timedOut, bc)
          else tick_loop now order (timedOut @ [height], end_round height cr bc))"

definition TickRoundTimeouts :: "u64 list \<Rightarrow> go_time \<Rightarrow> BFTConsensus \<Rightarrow> u64 list \<times> BFTConsensus" where
  "TickRoundTimeouts order now bc = tick_loop now order ([], bc)"

definition NextRoundAfterTimeout :: "u64 \<Rightarrow> BFTConsensus \<Rightarrow> u32" where
  "NextRoundAfterTimeout height bc =
     (case fmlookup (nextRound bc) height of None \<Rightarrow> 0 | Some r \<Rightarrow> r)"

definition ClearNextRound :: "u64 \<Rightarrow> BFTConsensus \<Rightarrow> BFTConsensus" where
  "ClearNextRound height bc = bc\<lparr>nextRound := fmdrop height (nextRound bc)\<rparr>"

definition FailRound :: "u64 \<Rightarrow> BFTConsensus \<Rightarrow> consensus_error + BFTConsensus" where
  "FailRound height bc =
     (case fmlookup (rounds bc) height of
        None \<Rightarrow> Inl (ErrNoActiveRound height)
      | Some cr \<Rightarrow> Inr (end_round height cr bc))"

section \<open>Quorums\<close>

definition active_stake_sum :: "Validator list \<Rightarrow> f64" where
  "active_stake_sum active = foldl (\<lambda>s v. fadd s (Stake v)) fzero active"

definition stake_map :: "Validator list \<Rightarrow> (string, f64) fmap" where
  "stake_map active = foldl (\<lambda>m v. fmupd (VAddress v) (Stake v) m) fmempty active"

definition map_f64 :: "(string, f64) fmap \<Rightarrow> string \<Rightarrow> f64" where
  "map_f64 m k = (case fmlookup m k of None \<Rightarrow> fzero | Some x \<Rightarrow> x)"

definition hasQuorum :: "string list \<Rightarrow> go_time \<Rightarrow> BlockVote list \<Rightarrow> string \<Rightarrow> BFTConsensus \<Rightarrow> bool" where
  "hasQuorum vo now votes blockHash bc =
     (let active = ActiveValidators vo now (bc_validators bc)
      in if active = [] then False
         else let stakes = stake_map active;
                  voted = foldl (\<lambda>s v. if BVBlockHash v = blockHash then fadd s (map_f64 stakes (BVValidator v))
                                       else s) fzero votes
              in fle (fmul (active_stake_sum active) (QuorumFraction (bc_cfg bc))) voted)"

definition per_hash :: "(string, f64) fmap \<Rightarrow> BlockVote list \<Rightarrow> (string, f64) fmap" where
  "per_hash stakes votes =
     foldl (\<lambda>m v. fmupd (BVBlockHash v) (fadd (map_f64 m (BVBlockHash v)) (map_f64 stakes (BVValidator v))) m)
       fmempty votes"

fun best_hash :: "(string, f64) fmap \<Rightarrow> string \<Rightarrow> string list \<Rightarrow> string" where
  "best_hash m best [] = best"
| "best_hash m best (h # hs) =
     (let s = map_f64 m h; bestStake = map_f64 m best
      in if fless bestStake s \<or> (feq s bestStake \<and> h < best) then best_hash m h hs
         else best_hash m best hs)"

text \<open>\<open>ho\<close> is the iteration order of the local map \<open>perHash\<close>.\<close>

definition pickLockedPrevoteHash ::
    "string list \<Rightarrow> string list \<Rightarrow> go_time \<Rightarrow> ConsensusRound \<Rightarrow> BFTConsensus \<Rightarrow> string option" where
  "pickLockedPrevoteHash vo ho now cr bc =
     (let active = ActiveValidators vo now (bc_validators bc)
      in if active = [] then None
         else let totalStake = active_stake_sum active; stakes = stake_map active
         in if fle totalStake fzero then None
         else let perHash = per_hash stakes (PreVotes cr);
                  threshold = fmul totalStake (QuorumFraction (bc_cfg bc));
                  nilStake = map_f64 perHash NilVoteHash;
                  propStake = map_f64 perHash (CRBlockHash cr)
         in if fle threshold nilStake \<and> fless propStake nilStake then Some NilVoteHash
         else case filter (\<lambda>h. fmlookup perHash h \<noteq> None \<and> fle threshold (map_f64 perHash h)) ho of
                [] \<Rightarrow> None
              | c # cs \<Rightarrow>
                  if CRBlockHash cr \<in> set (c # cs) then Some (CRBlockHash cr)
                  else Some (best_hash perHash c cs))"

definition validatePreCommitAgainstLock :: "ConsensusRound \<Rightarrow> string \<Rightarrow> consensus_error option" where
  "validatePreCommitAgainstLock cr blockHash =
     (if LockedBlockHash cr = [] then None
      else if blockHash = NilVoteHash then None
      else if blockHash \<noteq> LockedBlockHash cr then Some (ErrLockMismatch blockHash (LockedBlockHash cr))
      else None)"

section \<open>Votes\<close>

definition PreVote ::
    "string list \<Rightarrow> string list \<Rightarrow> clock \<Rightarrow> u64 \<Rightarrow> string \<Rightarrow> string \<Rightarrow> BFTConsensus
      \<Rightarrow> consensus_error + BFTConsensus" where
  "PreVote vo ho clk height validator blockHash bc =
     (case fmlookup (rounds bc) height of
        None \<Rightarrow> Inl (ErrNoActiveRound height)
      | Some cr \<Rightarrow>
          if CRStatus cr \<noteq> StatusProposed \<and> CRStatus cr \<noteq> StatusPreVoted
            then Inl (ErrRoundStatus height (CRStatus cr))
          else if \<not> is_active_validator validator bc then Inl (ErrVoterNotActive validator)
          else if validator \<in> BVValidator ` set (PreVotes cr) then Inl (ErrAlreadyVoted validator height)
          else
            let cr = cr\<lparr>PreVotes := PreVotes cr @
                  [\<lparr>BVValidator = validator, BVBlockHash = blockHash, BVHeight = height,
                    BVRound = CRRound cr, BVType = VotePreVote, BVTimestamp = clk 0\<rparr>]\<rparr>
            in case pickLockedPrevoteHash vo ho (clk 1) cr bc of
                 None \<Rightarrow> Inr (bc\<lparr>rounds := fmupd height cr (rounds bc)\<rparr>)
               | Some locked \<Rightarrow>
                   let cr = cr\<lparr>LockedBlockHash := locked\<rparr>;
                       bc = (if locked = NilVoteHash
                             then bc\<lparr>carryPrevoteLock := fmdrop height (carryPrevoteLock bc)\<rparr> else bc);
                       cr = (if CRStatus cr = StatusProposed then cr\<lparr>CRStatus := StatusPreVoted\<rparr> else cr)
                   in Inr (bc\<lparr>rounds := fmupd height cr (rounds bc)\<rparr>))"

definition PreCommit ::
    "string list \<Rightarrow> clock \<Rightarrow> u64 \<Rightarrow> string \<Rightarrow> string \<Rightarrow> BFTConsensus \<Rightarrow> consensus_error + BFTConsensus" where
  "PreCommit vo clk height validator blockHash bc =
     (case fmlookup (rounds bc) height of
        None \<Rightarrow>
          (case fmlookup (committed bc) height of
             Some done_round \<Rightarrow>
               if blockHash \<noteq> CRBlockHash done_round
               then Inl (ErrLatePrecommit height blockHash (CRBlockHash done_round)) else Inr bc
           | None \<Rightarrow> Inl (ErrNoActiveRound height))
      | Some cr \<Rightarrow>
          if CRStatus cr \<noteq> StatusPreVoted then Inl (ErrRoundStatus height (CRStatus cr))
          else case validatePreCommitAgainstLock cr blockHash of
            Some e \<Rightarrow> Inl e
          | None \<Rightarrow>
              if \<not> is_active_validator validator bc then Inl (ErrVoterNotActive validator)
              else if validator \<in> BVValidator ` set (Commits cr) then Inl (ErrAlreadyVoted validator height)
              else
                let cr = cr\<lparr>Commits := Commits cr @
                      [\<lparr>BVValidator = validator, BVBlockHash = blockHash, BVHeight = height,
                        BVRound = CRRound cr, BVType = VotePreCommit, BVTimestamp = clk 0\<rparr>]\<rparr>
                in if hasQuorum vo (clk 1) (Commits cr) (CRBlockHash cr) bc
                   then let cr = cr\<lparr>CRStatus := StatusCommitted, EndTime := clk 2\<rparr>
                        in Inr (bc\<lparr>committed := fmupd height cr (committed bc),
                                   rounds := fmdrop height (rounds bc),
                                   nextRound := fmdrop height (nextRound bc),
                                   carryPrevoteLock := fmdrop height (carryPrevoteLock bc)\<rparr>)
                   else Inr (bc\<lparr>rounds := fmupd height cr (rounds bc)\<rparr>))"

definition PreVoteNil ::
    "string list \<Rightarrow> string list \<Rightarrow> clock \<Rightarrow> u64 \<Rightarrow> string \<Rightarrow> BFTConsensus \<Rightarrow> consensus_error + BFTConsensus" where
  "PreVoteNil vo ho clk height validator bc = PreVote vo ho clk height validator NilVoteHash bc"

definition PreCommitNil ::
    "string list \<Rightarrow> clock \<Rightarrow> u64 \<Rightarrow> string \<Rightarrow> BFTConsensus \<Rightarrow> consensus_error + BFTConsensus" where
  "PreCommitNil vo clk height validator bc = PreCommit vo clk height validator NilVoteHash bc"

section \<open>Queries\<close>

definition IsCommitted :: "u64 \<Rightarrow> BFTConsensus \<Rightarrow> bool" where
  "IsCommitted height bc = (fmlookup (committed bc) height \<noteq> None)"

definition GetCommitted :: "u64 \<Rightarrow> BFTConsensus \<Rightarrow> ConsensusRound option" where
  "GetCommitted height bc = fmlookup (committed bc) height"

definition GetRound :: "u64 \<Rightarrow> BFTConsensus \<Rightarrow> ConsensusRound option" where
  "GetRound height bc = fmlookup (rounds bc) height"

definition CommittedHeights :: "BFTConsensus \<Rightarrow> u64 list" where
  "CommittedHeights bc = sorted_keys (committed bc)"

definition CommittedCount :: "BFTConsensus \<Rightarrow> nat" where
  "CommittedCount bc = map_len (committed bc)"

section \<open>Certificates and lock proofs\<close>

record RoundCertificate =
  RCHeight :: u64
  RCRound :: u32
  RCProposer :: string
  RCBlockHash :: string
  CommitDigest :: string
  RCValidatorSet :: "string list"
  CommitCount :: int
  NilCommitCount :: int

record PrevoteLockProof =
  PLHeight :: u64
  PLRound :: u32
  PLLockedBlockHash :: string
  CarriedFromLock :: string
  Prevotes :: "BlockVote list"

type_synonym commitWire = "string \<times> string"

definition wire_before :: "commitWire \<Rightarrow> commitWire \<Rightarrow> bool" where
  "wire_before w1 w2 = (if fst w1 \<noteq> fst w2 then fst w1 < fst w2 else snd w1 < snd w2)"

definition wire_json :: "commitWire \<Rightarrow> string" where
  "wire_json w = json_object [json_field ''v'' (json_string (fst w)), json_field ''h'' (json_string (snd w))]"

definition commit_wires :: "ConsensusRound \<Rightarrow> commitWire list" where
  "commit_wires cr = go_sort wire_before (map (\<lambda>c. (BVValidator c, BVBlockHash c)) (Commits cr))"

definition commit_digest :: "ConsensusRound \<Rightarrow> string" where
  "commit_digest cr = sha256_hex (html_escape (json_array (map wire_json (commit_wires cr))))"

definition BuildRoundCertificate ::
    "string list \<Rightarrow> clock \<Rightarrow> u64 \<Rightarrow> BFTConsensus \<Rightarrow> consensus_error + RoundCertificate" where
  "BuildRoundCertificate vo clk height bc =
     (case fmlookup (committed bc) height of
        None \<Rightarrow> Inl (ErrNoCommittedRound height)
      | Some cr \<Rightarrow>
          Inr \<lparr>RCHeight = CRHeight cr, RCRound = CRRound cr, RCProposer = CRProposer cr,
               RCBlockHash = CRBlockHash cr, CommitDigest = commit_digest cr,
               RCValidatorSet = go_sort (<) (map VAddress (ActiveValidators vo (clk 0) (bc_validators bc))),
               CommitCount = int (length (Commits cr)),
               NilCommitCount = int (length (filter (\<lambda>c. BVBlockHash c = NilVoteHash) (Commits cr)))\<rparr>)"

definition BuildPrevoteLockProof :: "u64 \<Rightarrow> BFTConsensus \<Rightarrow> consensus_error + PrevoteLockProof" where
  "BuildPrevoteLockProof height bc =
     (case (case fmlookup (rounds bc) height of None \<Rightarrow> fmlookup (committed bc) height | Some cr \<Rightarrow> Some cr) of
        None \<Rightarrow> Inl (ErrNoRound height)
      | Some cr \<Rightarrow>
          if LockedBlockHash cr = [] then Inl (ErrNoPrevoteLock height)
          else Inr \<lparr>PLHeight = height, PLRound = CRRound cr, PLLockedBlockHash = LockedBlockHash cr,
                    CarriedFromLock = (case fmlookup (carryPrevoteLock bc) height of None \<Rightarrow> [] | Some l \<Rightarrow> l),
                    Prevotes = PreVotes cr\<rparr>)"

end
