(* ===== verification/Quorum.thy ===== *)
theory Quorum
  imports Consensus
begin

text \<open>
  The quorum test of \<open>pkg/chain/consensus.go\<close>. Stakes are \<open>float64\<close> values and the test multiplies
  their sum by the constant \<open>2.0 / 3.0\<close>. For whole stakes that add up to at most \<open>2 ^ 50\<close> the test is
  the exact inequality \<open>2 * total \<le> 3 * voted\<close> (\<open>threshold_exact\<close>), in spite of two roundings; from
  it follow the intersection of quorums and that a prevote polka names at most one hash.
\<close>

section \<open>The threshold\<close>

lemma two_thirds_mag: "round_ratio (2 * unit_one) 3 = 6004799503160661 * 2 ^ 1021"
  using round_ratio_unit [of 3 2 53 6004799503160661 1] by simp

lemma fle_mk_fin: "n < max_mag \<Longrightarrow> fle (mk_fin False m) (Fin False n) \<longleftrightarrow> m \<le> n"
  by (auto simp: mk_fin_def fle_def)

lemma two_thirds_fin: "f64_ratio 2 3 = Fin False (6004799503160661 * 2 ^ 1021)"
proof -
  have "6004799503160661 * 2 ^ 1021 \<le> (2 ^ 53 * 2 ^ 1021 :: nat)" by (intro mult_right_mono) simp_all
  also have "\<dots> < max_mag" unfolding max_mag_def power_add [symmetric] by (rule power_strict_increasing) simp_all
  finally show ?thesis unfolding f64_ratio_def two_thirds_mag mk_fin_def by simp
qed

lemma threshold_exact:
  assumes "t \<le> 2 ^ 50" "v < 2 ^ 51"
  shows "fle (fmul (f_int t) (f64_ratio 2 3)) (f_int v) \<longleftrightarrow> 2 * t \<le> 3 * v"
proof -
  let ?m = "6004799503160661 * 2 ^ 1021 * t"
  have v: "v * unit_one < max_mag" using assms(2) by (intro f_int_bound) simp
  have "fmul (f_int t) (f64_ratio 2 3) = mk_fin False (round_mag ?m)"
    unfolding two_thirds_fin fmul_commute [of "f_int t"] by (rule fmul_f_int)
  then have test: "fle (fmul (f_int t) (f64_ratio 2 3)) (f_int v) \<longleftrightarrow> round_mag ?m \<le> v * unit_one"
    using v by (simp only: f_int_def fle_mk_fin)
  have unit: "unit_one = 2 ^ 53 * 2 ^ 1021" unfolding unit_one_def by (simp only: power_add [symmetric]) simp
  show ?thesis
  proof (cases "2 * t \<le> 3 * v")
    case True
    have "6004799503160661 * t \<le> 2 ^ 53 * v" using True by simp
    then have "?m \<le> v * unit_one"
      using mult_le_mono1 [of "6004799503160661 * t" "2 ^ 53 * v" "2 ^ 1021"] by (simp only: unit ac_simps)
    moreover have "representable (v * unit_one)" using assms(2) by (intro representable_int) simp
    ultimately have "round_mag ?m \<le> v * unit_one" by (intro f64_rounding.rnd_le_rep)
    then show ?thesis using True test by simp
  next
    case False
    let ?r = "(4 * v + 1) * 2 ^ 51 * 2 ^ 1021"
    have "(4 * v + 1) * 2 ^ 51 \<le> 6004799503160661 * t" using False assms(1) by simp
    then have "?r \<le> ?m"
      using mult_le_mono1 [of "(4 * v + 1) * 2 ^ 51" "6004799503160661 * t" "2 ^ 1021"]
      by (simp only: ac_simps)
    moreover have "representable ?r"
      using assms(2) by (intro representableI [of _ "4 * v + 1" "51 + 1021"]) (simp_all only: power_add mult.assoc, simp)
    ultimately have "?r \<le> round_mag ?m" by (intro f64_rounding.rnd_ge_rep)
    moreover have "v * unit_one < ?r"
      using mult_less_mono1 [of "v * 2 ^ 53" "(4 * v + 1) * 2 ^ 51" "2 ^ 1021"] by (simp only: unit mult.assoc) simp
    ultimately show ?thesis using False test by simp
  qed
qed

section \<open>Weights\<close>

text \<open>
  The voting weight of an address at an instant, the total weight and the weight of the votes for a
  hash, as natural numbers.
\<close>

definition weight :: "go_time \<Rightarrow> ValidatorSet \<Rightarrow> string \<Rightarrow> nat" where
  "weight now vs a =
     (case fmlookup (validators vs) a of
        None \<Rightarrow> 0 | Some v \<Rightarrow> if is_electable now v then trunc_nat (Stake v) else 0)"

definition total_weight :: "go_time \<Rightarrow> ValidatorSet \<Rightarrow> nat" where
  "total_weight now vs = sum (weight now vs) (fmdom' (validators vs))"

definition voters :: "string \<Rightarrow> BlockVote list \<Rightarrow> string set" where
  "voters h votes = {BVValidator v | v. v \<in> set votes \<and> BVBlockHash v = h}"

definition voted_weight :: "go_time \<Rightarrow> ValidatorSet \<Rightarrow> string \<Rightarrow> BlockVote list \<Rightarrow> nat" where
  "voted_weight now vs h votes = sum (weight now vs) (voters h votes)"

definition whole_stakes :: "ValidatorSet \<Rightarrow> bool" where
  "whole_stakes vs \<longleftrightarrow>
     (\<forall>a v. fmlookup (validators vs) a = Some v \<longrightarrow> (\<exists>n. Stake v = f_int n)) \<and>
     (\<Sum>a \<in> fmdom' (validators vs). trunc_nat (Stake (the (fmlookup (validators vs) a)))) \<le> 2 ^ 50"

lemma voters_Nil [simp]: "voters h [] = {}"
  by (simp add: voters_def)

lemma voters_append [simp]:
  "voters h (votes @ [v]) = (if BVBlockHash v = h then insert (BVValidator v) (voters h votes) else voters h votes)"
  by (auto simp: voters_def)

lemma finite_voters [simp]: "finite (voters h votes)"
  by (induction votes rule: rev_induct) auto

lemma voters_subset: "voters h votes \<subseteq> BVValidator ` set votes"
  by (auto simp: voters_def)

lemma weight_outside: "a \<notin> fmdom' (validators vs) \<Longrightarrow> weight now vs a = 0"
  by (simp add: weight_def fmdom'_iff split: option.split)

lemma sum_weight_le_total: "finite A \<Longrightarrow> sum (weight now vs) A \<le> total_weight now vs"
proof -
  assume "finite A"
  then have "sum (weight now vs) A = sum (weight now vs) (A \<inter> fmdom' (validators vs))"
    by (intro sum.mono_neutral_right) (auto simp: weight_outside)
  also have "\<dots> \<le> total_weight now vs" unfolding total_weight_def by (intro sum_mono2) auto
  finally show ?thesis .
qed

lemma total_weight_bound: "whole_stakes vs \<Longrightarrow> total_weight now vs \<le> 2 ^ 50"
proof -
  assume "whole_stakes vs"
  then have "(\<Sum>a \<in> fmdom' (validators vs). trunc_nat (Stake (the (fmlookup (validators vs) a)))) \<le> 2 ^ 50"
    by (simp add: whole_stakes_def)
  moreover have "total_weight now vs \<le> (\<Sum>a \<in> fmdom' (validators vs). trunc_nat (Stake (the (fmlookup (validators vs) a))))"
    unfolding total_weight_def by (intro sum_mono) (simp add: weight_def split: option.split)
  ultimately show ?thesis by simp
qed

text \<open>Sums of whole stakes are exact.\<close>

lemma foldl_fadd_f_int:
  assumes "a + sum_list (map w xs) \<le> 2 ^ 53" "\<And>x. x \<in> set xs \<Longrightarrow> f x = f_int (w x)"
  shows "foldl (\<lambda>s x. fadd s (f x)) (f_int a) xs = f_int (a + sum_list (map w xs))"
  using assms
proof (induction xs arbitrary: a)
  case (Cons x xs)
  have "foldl (\<lambda>s x. fadd s (f x)) (f_int (a + w x)) xs = f_int (a + w x + sum_list (map w xs))"
    using Cons.prems by (intro Cons.IH) simp_all
  moreover have "fadd (f_int a) (f x) = f_int (a + w x)" using Cons.prems by simp
  ultimately show ?case by (simp add: add.assoc)
qed simp

lemma foldl_filter_fadd:
  "foldl (\<lambda>s x. if P x then fadd s (f x) else s) a xs = foldl (\<lambda>s x. fadd s (f x)) a (filter P xs)"
  by (induction xs arbitrary: a) simp_all

lemma lookup_stake_map:
  assumes "distinct (map VAddress vs)"
  shows "fmlookup (stake_map vs) a = map_option Stake (find (\<lambda>v. VAddress v = a) vs)"
  using assms
proof (induction vs rule: rev_induct)
  case (snoc v vs)
  have "find (\<lambda>v. VAddress v = a) (vs @ [v]) =
    (case find (\<lambda>v. VAddress v = a) vs of None \<Rightarrow> if VAddress v = a then Some v else None | Some w \<Rightarrow> Some w)"
    by (induction vs) auto
  moreover have "find (\<lambda>v. VAddress v = a) vs = None" if "VAddress v = a"
    using snoc.prems that by (auto simp: find_None_iff) (metis imageI)
  ultimately show ?case using snoc by (auto simp: stake_map_def split: option.split)
qed (simp add: stake_map_def)

definition voting_ok :: "go_time \<Rightarrow> string list \<Rightarrow> ValidatorSet \<Rightarrow> bool" where
  "voting_ok now vo vs \<longleftrightarrow> vs_inv vs \<and> map_order (validators vs) vo \<and> whole_stakes vs"

lemma voting_okD:
  assumes "voting_ok now vo vs"
  shows "vs_inv vs" "map_order (validators vs) vo" "whole_stakes vs"
    and "fmlookup (validators vs) a = Some v \<Longrightarrow> VAddress v = a"
    and "distinct (map VAddress (ActiveValidators vo now vs))"
    and "total_weight now vs \<le> 2 ^ 50"
  using assms vs_invD(1) [of vs] distinct_active total_weight_bound
  by (auto simp: voting_ok_def validator_ok_def)

lemma active_iff:
  assumes "voting_ok now vo vs"
  shows "v \<in> set (ActiveValidators vo now vs) \<longleftrightarrow>
     is_electable now v \<and> fmlookup (validators vs) (VAddress v) = Some v"
  unfolding set_active [OF voting_okD(2) [OF assms]] electable_def
  using voting_okD(4) [OF assms] by blast

lemma active_stake:
  assumes "voting_ok now vo vs" "v \<in> set (ActiveValidators vo now vs)"
  shows "Stake v = f_int (weight now vs (VAddress v))"
  using voting_okD(3) [OF assms(1)] assms(2)
  by (fastforce simp: active_iff [OF assms(1)] weight_def whole_stakes_def)

lemma active_weight_sum:
  assumes "voting_ok now vo vs"
  shows "sum_list (map (weight now vs \<circ> VAddress) (ActiveValidators vo now vs)) = total_weight now vs"
proof -
  let ?A = "VAddress ` set (ActiveValidators vo now vs)"
  note active = active_iff [OF assms]
  have "sum_list (map (weight now vs) (map VAddress (ActiveValidators vo now vs))) = sum (weight now vs) ?A"
    using sum_list_distinct_conv_sum_set [OF voting_okD(5) [OF assms]] by simp
  also have "\<dots> = total_weight now vs"
    unfolding total_weight_def
  proof (rule sum.mono_neutral_left)
    show "?A \<subseteq> fmdom' (validators vs)" by (auto simp: active fmdom'_iff)
    show "\<forall>a \<in> fmdom' (validators vs) - ?A. weight now vs a = 0"
    proof
      fix a assume "a \<in> fmdom' (validators vs) - ?A"
      then obtain v where "fmlookup (validators vs) a = Some v" "a \<notin> ?A" by (auto simp: fmdom'_iff)
      then show "weight now vs a = 0"
        using voting_okD(4) [OF assms, of a v] active [of v] by (auto simp: weight_def)
    qed
  qed simp
  finally show ?thesis by simp
qed

lemma total_stake_exact:
  assumes "voting_ok now vo vs"
  shows "active_stake_sum (ActiveValidators vo now vs) = f_int (total_weight now vs)"
proof -
  have "foldl (\<lambda>s v. fadd s (Stake v)) (f_int 0) (ActiveValidators vo now vs) =
      f_int (0 + sum_list (map (weight now vs \<circ> VAddress) (ActiveValidators vo now vs)))"
    using voting_okD(6) [OF assms] active_stake [OF assms]
    by (intro foldl_fadd_f_int) (simp_all add: active_weight_sum [OF assms])
  then show ?thesis by (simp add: active_stake_sum_def fzero_f_int active_weight_sum [OF assms])
qed

lemma stake_map_exact:
  assumes "voting_ok now vo vs"
  shows "map_f64 (stake_map (ActiveValidators vo now vs)) a = f_int (weight now vs a)"
proof (cases "find (\<lambda>v. VAddress v = a) (ActiveValidators vo now vs)")
  case None
  have "weight now vs a = 0"
  proof (cases "fmlookup (validators vs) a")
    case (Some v)
    then show ?thesis
      using None voting_okD(4) [OF assms Some] active_iff [OF assms, of v]
      by (auto simp: find_None_iff weight_def)
  qed (simp add: weight_def)
  then show ?thesis
    using None by (simp add: map_f64_def lookup_stake_map [OF voting_okD(5) [OF assms]] fzero_f_int)
next
  case (Some v)
  then have "v \<in> set (ActiveValidators vo now vs)" "VAddress v = a"
    by (auto simp: find_Some_iff)
  then show ?thesis
    using Some active_stake [OF assms, of v]
    by (simp add: map_f64_def lookup_stake_map [OF voting_okD(5) [OF assms]])
qed

lemma voted_sum:
  assumes "distinct (map BVValidator votes)"
  shows "sum_list (map (weight now vs \<circ> BVValidator) (filter (\<lambda>v. BVBlockHash v = h) votes)) =
    voted_weight now vs h votes"
proof -
  have "distinct (map BVValidator (filter (\<lambda>v. BVBlockHash v = h) votes))"
    using assms by (rule distinct_map_filter)
  then have "sum_list (map (weight now vs) (map BVValidator (filter (\<lambda>v. BVBlockHash v = h) votes))) =
    sum (weight now vs) (set (map BVValidator (filter (\<lambda>v. BVBlockHash v = h) votes)))"
    by (rule sum_list_distinct_conv_sum_set)
  moreover have "set (map BVValidator (filter (\<lambda>v. BVBlockHash v = h) votes)) = voters h votes"
    by (auto simp: voters_def)
  ultimately show ?thesis by (simp add: voted_weight_def)
qed

lemma voted_weight_le: "voted_weight now vs h votes \<le> total_weight now vs"
  unfolding voted_weight_def by (rule sum_weight_le_total) simp

lemma has_quorum_iff:
  assumes "voting_ok now vo (bc_validators bc)" "QuorumFraction (bc_cfg bc) = f64_ratio 2 3"
    and "distinct (map BVValidator votes)"
  shows "hasQuorum vo now votes h bc \<longleftrightarrow>
    ActiveValidators vo now (bc_validators bc) \<noteq> [] \<and>
    2 * total_weight now (bc_validators bc) \<le> 3 * voted_weight now (bc_validators bc) h votes"
proof -
  define vs where "vs = bc_validators bc"
  note ok = assms(1) [folded vs_def]
  have bounds: "total_weight now vs \<le> 2 ^ 50" "voted_weight now vs h votes < 2 ^ 51"
    using voting_okD(6) [OF ok] voted_weight_le [of now vs h votes] by simp_all
  have "foldl (\<lambda>s v. fadd s (map_f64 (stake_map (ActiveValidators vo now vs)) (BVValidator v))) (f_int 0)
      (filter (\<lambda>v. BVBlockHash v = h) votes) =
      f_int (0 + sum_list (map (weight now vs \<circ> BVValidator) (filter (\<lambda>v. BVBlockHash v = h) votes)))"
    using bounds by (intro foldl_fadd_f_int) (simp_all add: stake_map_exact [OF ok] voted_sum [OF assms(3)])
  then show ?thesis
    using assms(2) threshold_exact [OF bounds]
    by (simp add: hasQuorum_def Let_def foldl_filter_fadd fzero_f_int total_stake_exact [OF ok]
        voted_sum [OF assms(3)] flip: vs_def)
qed

section \<open>Quorum systems\<close>

text \<open>
  What agreement needs of a quorum test: in an admissible context, a test that succeeds on the votes
  for a hash means that two thirds of the total weight voted for it. \<open>hasQuorum\<close> and the prevote
  polka both provide it.
\<close>

locale quorum_system =
  fixes admissible :: "'c \<Rightarrow> bool" and wt :: "'c \<Rightarrow> string \<Rightarrow> nat" and tot :: "'c \<Rightarrow> nat"
    and quorum :: "'c \<Rightarrow> BlockVote list \<Rightarrow> string \<Rightarrow> bool"
  assumes weight_le: "\<lbrakk>admissible c; finite A\<rbrakk> \<Longrightarrow> sum (wt c) A \<le> tot c"
    and two_thirds: "\<lbrakk>admissible c; distinct (map BVValidator votes); quorum c votes h\<rbrakk>
      \<Longrightarrow> 2 * tot c \<le> 3 * sum (wt c) (voters h votes)"
begin

lemma intersection:
  assumes "admissible c" "distinct (map BVValidator votes1)" "distinct (map BVValidator votes2)"
    and "quorum c votes1 h1" "quorum c votes2 h2"
  shows "tot c \<le> 3 * sum (wt c) (voters h1 votes1 \<inter> voters h2 votes2)"
proof -
  let ?A = "voters h1 votes1" and ?B = "voters h2 votes2"
  have "sum (wt c) (?A \<union> ?B) + sum (wt c) (?A \<inter> ?B) = sum (wt c) ?A + sum (wt c) ?B"
    by (intro sum.union_inter) simp_all
  moreover have "sum (wt c) (?A \<union> ?B) \<le> tot c" by (rule weight_le [OF assms(1)]) simp
  ultimately show ?thesis
    using two_thirds [OF assms(1,2,4)] two_thirds [OF assms(1,3,5)] by linarith
qed

lemma common_voter:
  assumes "admissible c" "0 < tot c" "distinct (map BVValidator votes1)" "distinct (map BVValidator votes2)"
    and "quorum c votes1 h1" "quorum c votes2 h2"
  shows "voters h1 votes1 \<inter> voters h2 votes2 \<noteq> {}"
proof
  assume "voters h1 votes1 \<inter> voters h2 votes2 = {}"
  with intersection [OF assms(1,3-6)] assms(2) show False by simp
qed

lemma one_hash_per_vote_set:
  assumes "admissible c" "0 < tot c" "distinct (map BVValidator votes)"
    and "quorum c votes h1" "quorum c votes h2"
  shows "h1 = h2"
proof -
  obtain a where a: "a \<in> voters h1 votes" "a \<in> voters h2 votes"
    using common_voter [OF assms(1,2,3,3,4,5)] by blast
  then obtain v w where "v \<in> set votes" "BVValidator v = a" "BVBlockHash v = h1"
      "w \<in> set votes" "BVValidator w = a" "BVBlockHash w = h2"
    by (auto simp: voters_def)
  then show ?thesis using assms(3) by (metis distinct_map inj_on_def)
qed

end

section \<open>The prevote polka\<close>

lemma per_hash_append:
  "per_hash st (votes @ [v]) =
     fmupd (BVBlockHash v) (fadd (map_f64 (per_hash st votes) (BVBlockHash v)) (map_f64 st (BVValidator v)))
       (per_hash st votes)"
  by (simp add: per_hash_def)

lemma per_hash_Nil [simp]: "per_hash st [] = fmempty"
  by (simp add: per_hash_def)

lemma per_hash_dom: "fmlookup (per_hash st votes) h = None \<longleftrightarrow> voters h votes = {}"
  by (induction votes rule: rev_induct) (simp_all add: per_hash_append)

lemma voted_weight_append:
  assumes "distinct (map BVValidator (votes @ [v]))"
  shows "voted_weight now vs h (votes @ [v]) =
    (if BVBlockHash v = h then voted_weight now vs h votes + weight now vs (BVValidator v)
     else voted_weight now vs h votes)"
proof -
  have "BVValidator v \<notin> voters h votes" using assms voters_subset [of h votes] by auto
  then show ?thesis by (simp add: voted_weight_def)
qed

lemma per_hash_exact:
  assumes ok: "voting_ok now vo vs" and "distinct (map BVValidator votes)"
  shows "map_f64 (per_hash (stake_map (ActiveValidators vo now vs)) votes) h = f_int (voted_weight now vs h votes)"
  using assms(2)
proof (induction votes rule: rev_induct)
  case (snoc v votes)
  have "voted_weight now vs (BVBlockHash v) votes + weight now vs (BVValidator v) \<le> 2 ^ 50"
    using voted_weight_append [OF snoc.prems, of now vs "BVBlockHash v"]
      voted_weight_le [of now vs "BVBlockHash v" "votes @ [v]"] voting_okD(6) [OF ok] by simp
  moreover have "map_f64 (per_hash (stake_map (ActiveValidators vo now vs)) votes) h = f_int (voted_weight now vs h votes)"
    using snoc by simp
  ultimately show ?case
    using voted_weight_append [OF snoc.prems, of now vs h]
    by (auto simp: per_hash_append map_f64_def stake_map_exact [OF ok, unfolded map_f64_def])
qed (simp add: map_f64_def voted_weight_def fzero_f_int)

definition polka :: "string list \<Rightarrow> go_time \<Rightarrow> BlockVote list \<Rightarrow> string \<Rightarrow> BFTConsensus \<Rightarrow> bool" where
  "polka vo now votes h bc \<longleftrightarrow>
     (let active = ActiveValidators vo now (bc_validators bc)
      in fle (fmul (active_stake_sum active) (QuorumFraction (bc_cfg bc)))
           (map_f64 (per_hash (stake_map active) votes) h))"

definition admissible_vote :: "go_time \<times> string list \<times> BFTConsensus \<Rightarrow> bool" where
  "admissible_vote = (\<lambda>(now, vo, bc).
     voting_ok now vo (bc_validators bc) \<and> QuorumFraction (bc_cfg bc) = f64_ratio 2 3)"

lemma polka_iff:
  assumes "voting_ok now vo (bc_validators bc)" "QuorumFraction (bc_cfg bc) = f64_ratio 2 3"
    and "distinct (map BVValidator votes)"
  shows "polka vo now votes h bc \<longleftrightarrow>
    2 * total_weight now (bc_validators bc) \<le> 3 * voted_weight now (bc_validators bc) h votes"
proof -
  have "total_weight now (bc_validators bc) \<le> 2 ^ 50" "voted_weight now (bc_validators bc) h votes < 2 ^ 51"
    using voting_okD(6) [OF assms(1)] voted_weight_le [of now "bc_validators bc" h votes] by simp_all
  from threshold_exact [OF this] show ?thesis
    by (simp add: polka_def Let_def assms(2) total_stake_exact [OF assms(1)] per_hash_exact [OF assms(1,3)])
qed

interpretation commit_quorum: quorum_system admissible_vote
  "\<lambda>(now, vo, bc). weight now (bc_validators bc)" "\<lambda>(now, vo, bc). total_weight now (bc_validators bc)"
  "\<lambda>(now, vo, bc) votes h. hasQuorum vo now votes h bc"
  by unfold_locales
    (auto simp: admissible_vote_def sum_weight_le_total has_quorum_iff simp flip: voted_weight_def)

interpretation prevote_quorum: quorum_system admissible_vote
  "\<lambda>(now, vo, bc). weight now (bc_validators bc)" "\<lambda>(now, vo, bc). total_weight now (bc_validators bc)"
  "\<lambda>(now, vo, bc) votes h. polka vo now votes h bc"
  by unfold_locales
    (auto simp: admissible_vote_def sum_weight_le_total polka_iff simp flip: voted_weight_def)

lemma best_hash_mem: "best_hash m b hs \<in> set (b # hs)"
  by (induction m b hs rule: best_hash.induct) (auto simp: Let_def)

lemma active_nonempty:
  assumes "voting_ok now vo vs" "0 < total_weight now vs"
  shows "ActiveValidators vo now vs \<noteq> []"
  using active_weight_sum [OF assms(1)] assms(2) by (auto simp: ActiveValidators_def)

lemma pick_iff:
  assumes ok: "voting_ok now vo (bc_validators bc)" and q: "QuorumFraction (bc_cfg bc) = f64_ratio 2 3"
    and d: "distinct (map BVValidator (PreVotes cr))"
    and ho: "BVBlockHash ` set (PreVotes cr) \<subseteq> set ho"
  shows "pickLockedPrevoteHash vo ho now cr bc = Some h \<longleftrightarrow>
    0 < total_weight now (bc_validators bc) \<and> polka vo now (PreVotes cr) h bc"
proof (cases "0 < total_weight now (bc_validators bc)")
  case True
  define m where "m = per_hash (stake_map (ActiveValidators vo now (bc_validators bc))) (PreVotes cr)"
  define thr where "thr = fmul (active_stake_sum (ActiveValidators vo now (bc_validators bc))) (QuorumFraction (bc_cfg bc))"
  define cand where "cand = filter (\<lambda>h. fmlookup m h \<noteq> None \<and> fle thr (map_f64 m h)) ho"
  have polka: "polka vo now (PreVotes cr) h bc \<longleftrightarrow> fle thr (map_f64 m h)" for h
    by (simp add: polka_def Let_def thr_def m_def)
  have unique: "h1 = h2" if "fle thr (map_f64 m h1)" "fle thr (map_f64 m h2)" for h1 h2
    using prevote_quorum.one_hash_per_vote_set [of "(now, vo, bc)" "PreVotes cr" h1 h2] True that ok q d
    by (simp add: admissible_vote_def polka)
  have cand_iff: "h \<in> set cand \<longleftrightarrow> fle thr (map_f64 m h)" for h
  proof -
    have "fmlookup m h \<noteq> None" if "fle thr (map_f64 m h)"
    proof
      assume "fmlookup m h = None"
      then have "voters h (PreVotes cr) = {}" by (simp add: m_def per_hash_dom)
      then have "voted_weight now (bc_validators bc) h (PreVotes cr) = 0" by (simp add: voted_weight_def)
      with that True polka_iff [OF ok q d, of h] show False by (simp add: polka)
    qed
    moreover have "fmlookup m h \<noteq> None \<longrightarrow> h \<in> set ho"
      using ho by (auto simp: m_def per_hash_dom voters_def)
    ultimately show ?thesis by (auto simp: cand_def)
  qed
  have pick: "pickLockedPrevoteHash vo ho now cr bc =
    (if fle thr (map_f64 m NilVoteHash) \<and> fless (map_f64 m (CRBlockHash cr)) (map_f64 m NilVoteHash)
     then Some NilVoteHash
     else case cand of [] \<Rightarrow> None
       | c # cs \<Rightarrow> if CRBlockHash cr \<in> set (c # cs) then Some (CRBlockHash cr) else Some (best_hash m c cs))"
    unfolding m_def thr_def cand_def pickLockedPrevoteHash_def Let_def
    using active_nonempty [OF ok True] True by (simp add: total_stake_exact [OF ok] fzero_f_int)
  have res: "\<exists>x. pickLockedPrevoteHash vo ho now cr bc = Some x \<and> fle thr (map_f64 m x)" if "fle thr (map_f64 m h)" for h
  proof (cases cand)
    case Nil
    then show ?thesis using cand_iff [of h] that by simp
  next
    case (Cons c cs)
    then show ?thesis using cand_iff best_hash_mem [of m c cs] by (auto simp: pick)
  qed
  have "fle thr (map_f64 m x)" if "pickLockedPrevoteHash vo ho now cr bc = Some x" for x
    using that cand_iff best_hash_mem by (fastforce simp: pick split: if_splits list.splits)
  then show ?thesis using res unique True polka by (metis option.inject)
next
  case False
  then show ?thesis
    by (simp add: pickLockedPrevoteHash_def Let_def total_stake_exact [OF ok] fzero_f_int)
qed

end
