(* ===== verification/ConsensusProofs.thy ===== *)
theory ConsensusProofs
  imports Quorum
begin

text \<open>
  The voting engine as a state machine: the step relation, its invariant, and the properties of
  \<open>pkg/chain/consensus.go\<close> and \<open>consensus_certificate.go\<close>. The validator set may change between any two
  calls (rule \<open>validator_change\<close>), as other parts of the node hold the same pointer. The iteration
  orders passed to an operation enumerate the map they stand for.
\<close>

definition hash_order :: "u64 \<Rightarrow> string \<Rightarrow> BFTConsensus \<Rightarrow> string list \<Rightarrow> bool" where
  "hash_order h b bc ho \<longleftrightarrow>
     distinct ho \<and> b \<in> set ho \<and>
     (\<forall>cr. fmlookup (rounds bc) h = Some cr \<longrightarrow> BVBlockHash ` set (PreVotes cr) \<subseteq> set ho)"

inductive bft_step :: "BFTConsensus \<Rightarrow> BFTConsensus \<Rightarrow> bool" where
  propose: "Propose vo clk h r p b bc = Inr (cr, bc') \<Longrightarrow>
    map_order (validators (bc_validators bc)) vo \<Longrightarrow> bft_step bc bc'"
| prevote: "PreVote vo ho clk h a b bc = Inr bc' \<Longrightarrow>
    map_order (validators (bc_validators bc)) vo \<Longrightarrow> hash_order h b bc ho \<Longrightarrow> bft_step bc bc'"
| precommit: "PreCommit vo clk h a b bc = Inr bc' \<Longrightarrow>
    map_order (validators (bc_validators bc)) vo \<Longrightarrow> bft_step bc bc'"
| tick: "TickRoundTimeouts order now bc = (hs, bc') \<Longrightarrow> bft_step bc bc'"
| fail_round: "FailRound h bc = Inr bc' \<Longrightarrow> bft_step bc bc'"
| clear_next: "bft_step bc (ClearNextRound h bc)"
| validator_change: "vs_step (bc_validators bc) vs' \<Longrightarrow> bft_step bc (bc\<lparr>bc_validators := vs'\<rparr>)"

definition votes_ok :: "u64 \<Rightarrow> u32 \<Rightarrow> VoteType \<Rightarrow> BlockVote list \<Rightarrow> bool" where
  "votes_ok h r ty votes \<longleftrightarrow>
     distinct (map BVValidator votes) \<and>
     (\<forall>v \<in> set votes. BVHeight v = h \<and> BVRound v = r \<and> BVType v = ty)"

definition round_ok :: "u64 \<Rightarrow> ConsensusRound \<Rightarrow> bool" where
  "round_ok h cr \<longleftrightarrow>
     CRHeight cr = h \<and> votes_ok h (CRRound cr) VotePreVote (PreVotes cr) \<and>
     votes_ok h (CRRound cr) VotePreCommit (Commits cr)"

definition active_round_ok :: "BFTConsensus \<Rightarrow> u64 \<Rightarrow> ConsensusRound \<Rightarrow> bool" where
  "active_round_ok bc h cr \<longleftrightarrow>
     round_ok h cr \<and> fmlookup (committed bc) h = None \<and>
     (CRStatus cr = StatusProposed \<and> Commits cr = [] \<or> CRStatus cr = StatusPreVoted)"

definition bft_inv :: "BFTConsensus \<Rightarrow> bool" where
  "bft_inv bc \<longleftrightarrow>
     (\<forall>h cr. fmlookup (rounds bc) h = Some cr \<longrightarrow> active_round_ok bc h cr) \<and>
     (\<forall>h cr. fmlookup (committed bc) h = Some cr \<longrightarrow> round_ok h cr \<and> CRStatus cr = StatusCommitted)"

lemma bft_invD:
  assumes "bft_inv bc"
  shows "fmlookup (rounds bc) h = Some cr \<Longrightarrow> active_round_ok bc h cr"
    and "fmlookup (committed bc) h = Some cr \<Longrightarrow> round_ok h cr \<and> CRStatus cr = StatusCommitted"
    and "fmlookup (committed bc) h = Some cr \<Longrightarrow> fmlookup (rounds bc) h = None"
proof -
  show "fmlookup (rounds bc) h = Some cr \<Longrightarrow> active_round_ok bc h cr"
    and "fmlookup (committed bc) h = Some cr \<Longrightarrow> round_ok h cr \<and> CRStatus cr = StatusCommitted"
    using assms by (auto simp: bft_inv_def)
  show "fmlookup (committed bc) h = Some cr \<Longrightarrow> fmlookup (rounds bc) h = None"
    using assms by (cases "fmlookup (rounds bc) h") (auto simp: bft_inv_def active_round_ok_def)
qed

text \<open>The invariant reads only the two round maps; each operation changes one height of them.\<close>

lemma bft_inv_cong:
  "rounds bc' = rounds bc \<Longrightarrow> committed bc' = committed bc \<Longrightarrow> bft_inv bc' = bft_inv bc"
  by (simp add: bft_inv_def active_round_ok_def)

lemma bft_inv_put:
  assumes "bft_inv bc" "active_round_ok bc h cr" "rounds bc' = fmupd h cr (rounds bc)" "committed bc' = committed bc"
  shows "bft_inv bc'"
  using assms by (auto simp: bft_inv_def active_round_ok_def)

lemma bft_inv_drop:
  assumes "bft_inv bc" "rounds bc' = fmdrop h (rounds bc)" "committed bc' = committed bc"
  shows "bft_inv bc'"
  using assms by (auto simp: bft_inv_def active_round_ok_def split: if_splits)

lemma bft_inv_commit:
  assumes "bft_inv bc" "round_ok h cr" "CRStatus cr = StatusCommitted"
    and "rounds bc' = fmdrop h (rounds bc)" "committed bc' = fmupd h cr (committed bc)"
  shows "bft_inv bc'"
  using assms by (auto simp: bft_inv_def active_round_ok_def split: if_splits)

lemma votes_ok_append:
  "votes_ok h r ty (votes @ [v]) \<longleftrightarrow>
     votes_ok h r ty votes \<and> BVValidator v \<notin> BVValidator ` set votes \<and>
     BVHeight v = h \<and> BVRound v = r \<and> BVType v = ty"
  by (auto simp: votes_ok_def)

lemma bft_inv_propose:
  assumes "bft_inv bc" "Propose vo clk h r p b bc = Inr (cr, bc')"
  shows "bft_inv bc'"
proof (cases "fmlookup (rounds bc) h")
  case None
  then obtain c where "rounds bc' = fmupd h c (rounds bc)" "committed bc' = committed bc"
      "active_round_ok bc h c"
    using assms(2)
    by (auto simp: Propose_def Let_def active_round_ok_def round_ok_def votes_ok_def
        split: if_splits sum.splits)
  then show ?thesis using bft_inv_put [OF assms(1)] by blast
next
  case (Some c)
  then show ?thesis using assms by (auto simp: Propose_def split: if_splits)
qed

lemma bft_inv_prevote:
  assumes "bft_inv bc" "PreVote vo ho clk h a b bc = Inr bc'"
  shows "bft_inv bc'"
proof -
  obtain cr where cr: "fmlookup (rounds bc) h = Some cr" "a \<notin> BVValidator ` set (PreVotes cr)"
    using assms(2) by (auto simp: PreVote_def split: option.splits if_splits)
  from bft_invD(1) [OF assms(1) cr(1)] have ok: "active_round_ok bc h cr" .
  obtain c where "rounds bc' = fmupd h c (rounds bc)" "committed bc' = committed bc" "active_round_ok bc h c"
    using assms(2) cr ok
    by (auto simp: PreVote_def Let_def active_round_ok_def round_ok_def votes_ok_append
        split: option.splits if_splits)
  then show ?thesis using bft_inv_put [OF assms(1)] by blast
qed

lemma precommit_cases:
  assumes "PreCommit vo clk h a b bc = Inr bc'" "bft_inv bc"
  obtains (late) "bc' = bc"
  | (vote) cr c where "fmlookup (rounds bc) h = Some cr" "active_round_ok bc h c"
      "rounds bc' = fmupd h c (rounds bc)" "committed bc' = committed bc"
  | (commit) cr c where "fmlookup (rounds bc) h = Some cr" "round_ok h c" "CRStatus c = StatusCommitted"
      "CRStatus cr = StatusPreVoted" "CRBlockHash c = CRBlockHash cr" "PreVotes c = PreVotes cr"
      "rounds bc' = fmdrop h (rounds bc)" "committed bc' = fmupd h c (committed bc)"
      "hasQuorum vo (clk 1) (Commits c) (CRBlockHash c) bc"
proof (cases "fmlookup (rounds bc) h")
  case None
  then show ?thesis using assms late by (auto simp: PreCommit_def split: option.splits if_splits)
next
  case (Some cr)
  note ok = bft_invD(1) [OF assms(2) Some]
  define c where "c = cr\<lparr>Commits := Commits cr @ [\<lparr>BVValidator = a, BVBlockHash = b, BVHeight = h,
    BVRound = CRRound cr, BVType = VotePreCommit, BVTimestamp = clk 0\<rparr>]\<rparr>"
  have res: "CRStatus cr = StatusPreVoted" "a \<notin> BVValidator ` set (Commits cr)"
    "bc' = (if hasQuorum vo (clk 1) (Commits c) (CRBlockHash cr) bc
      then bc\<lparr>committed := fmupd h (c\<lparr>CRStatus := StatusCommitted, EndTime := clk 2\<rparr>) (committed bc),
        rounds := fmdrop h (rounds bc), nextRound := fmdrop h (nextRound bc),
        carryPrevoteLock := fmdrop h (carryPrevoteLock bc)\<rparr>
      else bc\<lparr>rounds := fmupd h c (rounds bc)\<rparr>)"
    using assms(1) Some by (auto simp: PreCommit_def Let_def c_def split: if_splits option.splits)
  have "round_ok h c" "active_round_ok bc h c"
    using ok res(1,2) by (auto simp: c_def active_round_ok_def round_ok_def votes_ok_append)
  then show ?thesis
    using Some res commit [of cr "c\<lparr>CRStatus := StatusCommitted, EndTime := clk 2\<rparr>"] vote [of cr c]
    by (auto simp: c_def round_ok_def split: if_splits)
qed

lemma bft_inv_precommit:
  assumes "bft_inv bc" "PreCommit vo clk h a b bc = Inr bc'"
  shows "bft_inv bc'"
  using assms(2,1)
proof (cases rule: precommit_cases)
  case (vote cr c)
  then show ?thesis using bft_inv_put [OF assms(1)] by blast
next
  case (commit cr c)
  then show ?thesis using bft_inv_commit [OF assms(1)] by blast
qed (use assms in simp)

lemma end_round_simps [simp]:
  "rounds (end_round h cr bc) = fmdrop h (rounds bc)"
  "committed (end_round h cr bc) = committed bc"
  "bc_validators (end_round h cr bc) = bc_validators bc"
  "bc_cfg (end_round h cr bc) = bc_cfg bc"
  by (simp_all add: end_round_def Let_def)

lemma tick_loop_frame:
  "tick_loop now order (hs, bc) = (hs', bc') \<Longrightarrow>
     (bft_inv bc \<longrightarrow> bft_inv bc') \<and> committed bc' = committed bc \<and>
     bc_validators bc' = bc_validators bc \<and> bc_cfg bc' = bc_cfg bc"
proof (induction now order "(hs, bc)" arbitrary: hs bc rule: tick_loop.induct)
  case (2 now h order hs bc)
  then show ?case
    by (cases "fmlookup (rounds bc) h") (auto split: if_splits intro: bft_inv_drop)
qed simp

lemma bft_step_inv:
  assumes "bft_step bc bc'" "bft_inv bc"
  shows "bft_inv bc'"
  using assms
proof (cases rule: bft_step.cases)
  case (tick order now hs)
  then show ?thesis using tick_loop_frame assms(2) by (auto simp: TickRoundTimeouts_def)
next
  case (fail_round h)
  then show ?thesis
    using bft_inv_drop [OF assms(2)] by (auto simp: FailRound_def split: option.splits)
next
  case (clear_next h)
  then show ?thesis using bft_inv_cong [of bc' bc] assms(2) by (simp add: ClearNextRound_def)
next
  case (validator_change vs')
  then show ?thesis using bft_inv_cong [of bc' bc] assms(2) by simp
qed (use assms(2) in \<open>auto intro: bft_inv_propose bft_inv_prevote bft_inv_precommit\<close>)

lemma bft_inv_new: "bft_inv (NewBFTConsensus vs cfg)"
  by (simp add: bft_inv_def NewBFTConsensus_def Let_def)

section \<open>Reachable engines\<close>

lemma propose_frame:
  "Propose vo clk h r p b bc = Inr (cr, bc') \<Longrightarrow>
     committed bc' = committed bc \<and> bc_validators bc' = bc_validators bc \<and> bc_cfg bc' = bc_cfg bc"
  by (auto simp: Propose_def Let_def split: option.splits if_splits sum.splits)

lemma prevote_frame:
  "PreVote vo ho clk h a b bc = Inr bc' \<Longrightarrow>
     committed bc' = committed bc \<and> bc_validators bc' = bc_validators bc \<and> bc_cfg bc' = bc_cfg bc"
  by (auto simp: PreVote_def Let_def split: option.splits if_splits)

lemma precommit_frame:
  "PreCommit vo clk h a b bc = Inr bc' \<Longrightarrow> bc_validators bc' = bc_validators bc \<and> bc_cfg bc' = bc_cfg bc"
  by (auto simp: PreCommit_def Let_def split: option.splits if_splits)

lemma bft_step_validators:
  assumes "bft_step bc bc'"
  shows "bc_cfg bc' = bc_cfg bc \<and>
    (bc_validators bc' = bc_validators bc \<or> vs_step (bc_validators bc) (bc_validators bc'))"
  using assms
proof (cases rule: bft_step.cases)
  case (tick order now hs)
  then show ?thesis using tick_loop_frame [of now order "[]" bc hs bc'] by (simp add: TickRoundTimeouts_def)
next
  case (fail_round h)
  then show ?thesis by (auto simp: FailRound_def split: option.splits)
qed (auto simp: ClearNextRound_def dest: propose_frame prevote_frame precommit_frame)

definition bft_reachable :: "ValidatorSetConfig \<Rightarrow> ConsensusConfig \<Rightarrow> BFTConsensus \<Rightarrow> bool" where
  "bft_reachable vcfg cfg bc \<longleftrightarrow>
     wf64 (MinStake vcfg) \<and> bft_step\<^sup>*\<^sup>* (NewBFTConsensus (NewValidatorSet vcfg) cfg) bc"

lemma bft_reachable_step: "bft_reachable vcfg cfg bc \<Longrightarrow> bft_step bc bc' \<Longrightarrow> bft_reachable vcfg cfg bc'"
  unfolding bft_reachable_def by (blast intro: rtranclp.rtrancl_into_rtrancl)

lemma bft_reachable_inv:
  assumes "bft_reachable vcfg cfg bc"
  shows "bft_inv bc" "vs_inv (bc_validators bc)"
    and "bc_cfg bc = bc_cfg (NewBFTConsensus (NewValidatorSet vcfg) cfg)"
proof -
  from assms have ok: "wf64 (MinStake vcfg)" and steps: "bft_step\<^sup>*\<^sup>* (NewBFTConsensus (NewValidatorSet vcfg) cfg) bc"
    by (auto simp: bft_reachable_def)
  from steps have "bft_inv bc \<and> vs_inv (bc_validators bc) \<and> config_ok (vs_config (bc_validators bc)) \<and>
    bc_cfg bc = bc_cfg (NewBFTConsensus (NewValidatorSet vcfg) cfg)"
  proof (induction rule: rtranclp_induct)
    case base
    then show ?case
      using bft_inv_new vs_inv_new config_ok_new [OF ok] by (simp add: NewBFTConsensus_def Let_def)
  next
    case (step y z)
    then show ?case
      using bft_step_inv bft_step_validators [OF step.hyps(2)] vs_step_inv vs_step_config by metis
  qed
  then show "bft_inv bc" "vs_inv (bc_validators bc)"
    "bc_cfg bc = bc_cfg (NewBFTConsensus (NewValidatorSet vcfg) cfg)" by simp_all
qed

lemma bft_reachable_steps:
  "bft_step\<^sup>*\<^sup>* bc bc' \<Longrightarrow> bft_reachable vcfg cfg bc \<Longrightarrow> bft_reachable vcfg cfg bc'"
  by (induction rule: rtranclp_induct) (auto intro: bft_reachable_step)

text \<open>The only step that touches \<open>committed\<close> is a precommit that completes a quorum.\<close>

lemma bft_step_committed:
  assumes "bft_step bc bc'" "bft_inv bc"
  obtains (same) "committed bc' = committed bc"
  | (commit) vo now h c where "fmlookup (committed bc) h = None" "committed bc' = fmupd h c (committed bc)"
      "map_order (validators (bc_validators bc)) vo" "bc_validators bc' = bc_validators bc"
      "hasQuorum vo now (Commits c) (CRBlockHash c) bc" "round_ok h c"
      "\<exists>cr. fmlookup (rounds bc) h = Some cr \<and> CRStatus cr = StatusPreVoted \<and> CRBlockHash c = CRBlockHash cr"
  using assms(1)
proof (cases rule: bft_step.cases)
  case (propose vo clk h r p b cr)
  then show ?thesis using same by (auto dest: propose_frame)
next
  case (prevote vo ho clk h a b)
  then show ?thesis using same by (auto dest: prevote_frame)
next
  case (precommit vo clk h a b)
  from precommit(1) assms(2) show ?thesis
  proof (cases rule: precommit_cases)
    case (commit cr c)
    have "fmlookup (committed bc) h = None"
      using bft_invD(1) [OF assms(2) commit(1)] by (simp add: active_round_ok_def)
    then show ?thesis
      using that(2) [of h c vo "clk 1"] commit precommit(2) precommit_frame [OF precommit(1)] by blast
  qed (use same in auto)
next
  case (tick order now hs)
  then show ?thesis
    using same tick_loop_frame [of now order "[]" bc hs bc'] by (simp add: TickRoundTimeouts_def)
next
  case (fail_round h)
  then show ?thesis using same by (auto simp: FailRound_def split: option.splits)
qed (use same in \<open>auto simp: ClearNextRound_def\<close>)

section \<open>Agreement\<close>

text \<open>
  The abstract specification of consensus: a register per height that is written at most once. The
  abstraction of an engine is the hash committed at each height.
\<close>

definition decided :: "BFTConsensus \<Rightarrow> u64 \<Rightarrow> string option" where
  "decided bc h = map_option CRBlockHash (GetCommitted h bc)"

inductive decide_step :: "(u64 \<Rightarrow> string option) \<Rightarrow> (u64 \<Rightarrow> string option) \<Rightarrow> bool" where
  decide: "d h = None \<Longrightarrow> decide_step d (d(h \<mapsto> b))"

lemma decided_step: "bft_step bc bc' \<Longrightarrow> bft_inv bc \<Longrightarrow> decide_step\<^sup>=\<^sup>= (decided bc) (decided bc')"
proof (erule bft_step_committed, assumption)
  fix vo now h c
  assume new: "fmlookup (committed bc) h = None" and upd: "committed bc' = fmupd h c (committed bc)"
  have "decided bc' = (decided bc)(h \<mapsto> CRBlockHash c)"
    by (rule ext) (simp add: decided_def GetCommitted_def upd)
  moreover have "decided bc h = None" by (simp add: decided_def GetCommitted_def new)
  ultimately show "decide_step\<^sup>=\<^sup>= (decided bc) (decided bc')" using decide_step.decide by simp
qed (simp add: decided_def GetCommitted_def fun_eq_iff)

lemma committed_steps:
  assumes "bft_step\<^sup>*\<^sup>* bc bc'" "bft_inv bc" "fmlookup (committed bc) h = Some cr"
  shows "bft_inv bc' \<and> fmlookup (committed bc') h = Some cr"
  using assms(1)
proof (induction rule: rtranclp_induct)
  case (step y z)
  then have inv: "bft_inv y" and l: "fmlookup (committed y) h = Some cr" by simp_all
  have "fmlookup (committed z) h = Some cr"
    using step.hyps(2) inv by (cases rule: bft_step_committed) (use l in auto)
  then show ?case using bft_step_inv [OF step.hyps(2) inv] by simp
qed (use assms in simp)

end
