(* ===== verification/ConsensusLive.thy ===== *)
theory ConsensusLive
  imports ConsensusProofs
begin

text \<open>
  Progress of the voting engine: once a block is proposed and validators with two thirds of the
  weight vote for it, in any order and at any times, the block is committed.
\<close>

fun run_all :: "('a \<Rightarrow> 's \<Rightarrow> 'e + 's) \<Rightarrow> 'a list \<Rightarrow> 's \<Rightarrow> 'e + 's" where
  "run_all f [] s = Inr s"
| "run_all f (x # xs) s = (case f x s of Inl e \<Rightarrow> Inl e | Inr s \<Rightarrow> run_all f xs s)"

lemma run_all_append:
  "run_all f (xs @ ys) s = (case run_all f xs s of Inl e \<Rightarrow> Inl e | Inr s \<Rightarrow> run_all f ys s)"
  by (induction f xs s rule: run_all.induct) (auto split: sum.split)

text \<open>A predicate indexed by the processed prefix that every call preserves holds at the end.\<close>

lemma run_all_invariant:
  assumes "S [] s" and "\<And>ys x zs t. xs = ys @ x # zs \<Longrightarrow> S ys t \<Longrightarrow> \<exists>t'. f x t = Inr t' \<and> S (ys @ [x]) t'"
  shows "\<exists>t. run_all f xs s = Inr t \<and> S xs t"
  using assms(2)
proof (induction xs rule: rev_induct)
  case (snoc x xs)
  have "\<exists>t. run_all f xs s = Inr t \<and> S xs t" by (rule snoc.IH) (use snoc.prems in simp)
  then obtain t where t: "run_all f xs s = Inr t" "S xs t" by blast
  then show ?case using snoc.prems [of xs x "[]" t] by (auto simp: run_all_append)
qed (use assms(1) in simp)

definition none_jailed :: "ValidatorSet \<Rightarrow> bool" where
  "none_jailed vs \<longleftrightarrow> (\<forall>a v. fmlookup (validators vs) a = Some v \<longrightarrow> VStatus v \<noteq> ValidatorJailed)"

lemma electable_timeless:
  "none_jailed vs \<Longrightarrow> fmlookup (validators vs) a = Some v \<Longrightarrow> is_electable now v \<longleftrightarrow> VStatus v = ValidatorActive"
  by (auto simp: none_jailed_def is_electable_def)

lemma weight_timeless: "none_jailed vs \<Longrightarrow> weight now vs = weight 0 vs"
  by (rule ext) (auto simp: weight_def electable_timeless split: option.split)

lemma total_weight_timeless: "none_jailed vs \<Longrightarrow> total_weight now vs = total_weight 0 vs"
  by (simp add: total_weight_def weight_timeless [of vs now])

lemma voting_ok_timeless: "voting_ok now vo vs = voting_ok 0 vo vs"
  by (simp add: voting_ok_def)

text \<open>The setting of a round that collects votes for its own block.\<close>

definition live_setting :: "string list \<Rightarrow> BFTConsensus \<Rightarrow> bool" where
  "live_setting vo bc \<longleftrightarrow>
     voting_ok 0 vo (bc_validators bc) \<and> QuorumFraction (bc_cfg bc) = f64_ratio 2 3 \<and>
     none_jailed (bc_validators bc) \<and> 0 < total_weight 0 (bc_validators bc)"

definition unanimous :: "string \<Rightarrow> string list \<Rightarrow> BlockVote list \<Rightarrow> bool" where
  "unanimous b as votes \<longleftrightarrow> map BVValidator votes = as \<and> (\<forall>v \<in> set votes. BVBlockHash v = b)"

lemma unanimous_voters: "unanimous b as votes \<Longrightarrow> voters h votes = (if h = b then set as else {})"
  unfolding unanimous_def voters_def by auto blast+

lemma unanimous_append:
  "unanimous b as votes \<Longrightarrow> BVValidator v = a \<Longrightarrow> BVBlockHash v = b \<Longrightarrow> unanimous b (as @ [a]) (votes @ [v])"
  by (auto simp: unanimous_def)

definition heavy :: "ValidatorSet \<Rightarrow> string list \<Rightarrow> bool" where
  "heavy vs as \<longleftrightarrow> 2 * total_weight 0 vs \<le> 3 * sum (weight 0 vs) (set as)"

lemma heavy_mono: "heavy vs as \<Longrightarrow> set as \<subseteq> set bs \<Longrightarrow> heavy vs bs"
  unfolding heavy_def using sum_mono2 [of "set bs" "set as" "weight 0 vs"] by fastforce

lemma live_quorum:
  assumes "live_setting vo bc" "unanimous b as votes" "distinct as"
  shows "hasQuorum vo now votes b bc \<longleftrightarrow> heavy (bc_validators bc) as"
    and "BVBlockHash ` set votes \<subseteq> set ho \<Longrightarrow> PreVotes cr = votes \<Longrightarrow>
      pickLockedPrevoteHash vo ho now cr bc = (if heavy (bc_validators bc) as then Some b else None)"
proof -
  have ok: "voting_ok now vo (bc_validators bc)" and q: "QuorumFraction (bc_cfg bc) = f64_ratio 2 3"
    and nj: "none_jailed (bc_validators bc)" and pos: "0 < total_weight now (bc_validators bc)"
    using assms(1) voting_ok_timeless [of now] total_weight_timeless [of "bc_validators bc" now]
    by (auto simp: live_setting_def)
  have d: "distinct (map BVValidator votes)" using assms(2,3) by (simp add: unanimous_def)
  have heavy: "2 * total_weight now (bc_validators bc) \<le> 3 * voted_weight now (bc_validators bc) h votes \<longleftrightarrow>
      h = b \<and> heavy (bc_validators bc) as" for h
    using pos total_weight_timeless [OF nj, of now] weight_timeless [OF nj, of now]
    by (simp add: heavy_def voted_weight_def unanimous_voters [OF assms(2)])
  show "hasQuorum vo now votes b bc \<longleftrightarrow> heavy (bc_validators bc) as"
    using has_quorum_iff [OF ok q d] heavy [of b] active_nonempty [OF ok pos] by simp
  assume "BVBlockHash ` set votes \<subseteq> set ho" and cr: "PreVotes cr = votes"
  then have "pickLockedPrevoteHash vo ho now cr bc = Some h \<longleftrightarrow> h = b \<and> heavy (bc_validators bc) as" for h
    using pick_iff [OF ok q, of cr ho h] polka_iff [OF ok q d, of h] heavy [of h] pos d by simp
  then show "pickLockedPrevoteHash vo ho now cr bc = (if heavy (bc_validators bc) as then Some b else None)"
    by (metis (full_types) not_None_eq option.inject)
qed

definition same_setting :: "BFTConsensus \<Rightarrow> BFTConsensus \<Rightarrow> bool" where
  "same_setting bc bc' \<longleftrightarrow> bc_validators bc' = bc_validators bc \<and> bc_cfg bc' = bc_cfg bc"

definition collecting :: "u64 \<Rightarrow> string \<Rightarrow> BFTConsensus \<Rightarrow> string list \<Rightarrow> BFTConsensus \<Rightarrow> bool" where
  "collecting h b bc0 as bc \<longleftrightarrow>
     same_setting bc0 bc \<and>
     (\<exists>cr. fmlookup (rounds bc) h = Some cr \<and> CRBlockHash cr = b \<and> unanimous b as (PreVotes cr) \<and>
        Commits cr = [] \<and>
        (if heavy (bc_validators bc0) as then CRStatus cr = StatusPreVoted \<and> LockedBlockHash cr = b
         else CRStatus cr = StatusProposed))"

lemma collecting_prevote:
  assumes live: "live_setting vo bc0" and "collecting h b bc0 as bc" "distinct (as @ [a])"
    and "is_active_validator a bc0" "b \<in> set ho"
  shows "\<exists>bc'. PreVote vo ho clk h a b bc = Inr bc' \<and> collecting h b bc0 (as @ [a]) bc'"
proof -
  obtain cr where cr: "fmlookup (rounds bc) h = Some cr" "CRBlockHash cr = b" "unanimous b as (PreVotes cr)"
      "Commits cr = []" "CRStatus cr = StatusProposed \<or> CRStatus cr = StatusPreVoted"
      "heavy (bc_validators bc0) as \<Longrightarrow> CRStatus cr = StatusPreVoted"
      "\<not> heavy (bc_validators bc0) as \<Longrightarrow> CRStatus cr = StatusProposed"
    using assms(2) by (auto simp: collecting_def split: if_splits)
  have same: "bc_validators bc = bc_validators bc0" "bc_cfg bc = bc_cfg bc0"
    using assms(2) by (auto simp: collecting_def same_setting_def)
  define v where "v = \<lparr>BVValidator = a, BVBlockHash = b, BVHeight = h, BVRound = CRRound cr,
    BVType = VotePreVote, BVTimestamp = clk 0\<rparr>"
  define c where "c = cr\<lparr>PreVotes := PreVotes cr @ [v]\<rparr>"
  have un: "unanimous b (as @ [a]) (PreVotes c)" using cr(3) by (auto simp: c_def v_def intro: unanimous_append)
  have live': "live_setting vo bc" using live same by (simp add: live_setting_def)
  have "BVBlockHash ` set (PreVotes c) \<subseteq> set ho" using un assms(5) by (auto simp: unanimous_def)
  then have pick: "pickLockedPrevoteHash vo ho (clk 1) c bc = (if heavy (bc_validators bc0) (as @ [a]) then Some b else None)"
    using live_quorum(2) [OF live' un assms(3)] by (simp add: same)
  have active: "is_active_validator a bc" using assms(4) same by (simp add: is_active_validator_def)
  have fresh: "a \<notin> BVValidator ` set (PreVotes cr)" using cr(3) assms(3) by (auto simp: unanimous_def)
  have "heavy (bc_validators bc0) as \<Longrightarrow> heavy (bc_validators bc0) (as @ [a])" by (erule heavy_mono) auto
  then show ?thesis
    using cr active fresh pick un same
    by (auto simp: PreVote_def Let_def collecting_def same_setting_def c_def v_def)
qed

definition committing :: "u64 \<Rightarrow> string \<Rightarrow> BFTConsensus \<Rightarrow> string list \<Rightarrow> BFTConsensus \<Rightarrow> bool" where
  "committing h b bc0 as bc \<longleftrightarrow>
     same_setting bc0 bc \<and>
     (if heavy (bc_validators bc0) as
      then \<exists>cr. fmlookup (committed bc) h = Some cr \<and> CRBlockHash cr = b \<and> fmlookup (rounds bc) h = None
      else \<exists>cr. fmlookup (rounds bc) h = Some cr \<and> CRBlockHash cr = b \<and> unanimous b as (Commits cr) \<and>
             CRStatus cr = StatusPreVoted \<and> LockedBlockHash cr = b)"

lemma committing_precommit:
  assumes live: "live_setting vo bc0" and com: "committing h b bc0 as bc" and d: "distinct (as @ [a])"
    and act: "is_active_validator a bc0"
  shows "\<exists>bc'. PreCommit vo clk h a b bc = Inr bc' \<and> committing h b bc0 (as @ [a]) bc'"
proof (cases "heavy (bc_validators bc0) as")
  case True
  then have "heavy (bc_validators bc0) (as @ [a])" by (rule heavy_mono) auto
  then show ?thesis using com True by (auto simp: committing_def PreCommit_def)
next
  case False
  then obtain cr where cr: "fmlookup (rounds bc) h = Some cr" "CRBlockHash cr = b" "unanimous b as (Commits cr)"
      "CRStatus cr = StatusPreVoted" "LockedBlockHash cr = b"
    using com by (auto simp: committing_def)
  have same: "bc_validators bc = bc_validators bc0" "bc_cfg bc = bc_cfg bc0"
    using com by (auto simp: committing_def same_setting_def)
  have live': "live_setting vo bc" using live same by (simp add: live_setting_def)
  define v where "v = \<lparr>BVValidator = a, BVBlockHash = b, BVHeight = h, BVRound = CRRound cr,
    BVType = VotePreCommit, BVTimestamp = clk 0\<rparr>"
  have un: "unanimous b (as @ [a]) (Commits cr @ [v])" using cr(3) by (auto simp: v_def intro: unanimous_append)
  have quorum: "hasQuorum vo (clk 1) (Commits cr @ [v]) b bc \<longleftrightarrow> heavy (bc_validators bc0) (as @ [a])"
    using live_quorum(1) [OF live' un d] by (simp add: same)
  have active: "is_active_validator a bc" using act same by (simp add: is_active_validator_def)
  have fresh: "a \<notin> BVValidator ` set (Commits cr)" using cr(3) d by (auto simp: unanimous_def)
  show ?thesis
    using cr active fresh quorum un same
    by (auto simp: PreCommit_def validatePreCommitAgainstLock_def Let_def committing_def same_setting_def v_def)
qed

lemma prevotes_collect:
  assumes live: "live_setting vo bc0" and proposed: "Propose vo clk h r p b bc0 = Inr (cr, bc)"
    and new: "fmlookup (rounds bc0) h = None" and "distinct as" "heavy (bc_validators bc0) as"
    and act: "\<And>a. a \<in> set as \<Longrightarrow> is_active_validator a bc0" and "b \<in> set ho"
  shows "\<exists>bc1. run_all (\<lambda>a. PreVote vo ho (clks a) h a b) as bc = Inr bc1 \<and> committing h b bc0 [] bc1"
proof -
  have light: "\<not> heavy (bc_validators bc0) []" using live by (auto simp: heavy_def live_setting_def)
  have "collecting h b bc0 [] bc"
    using proposed new light
    by (auto simp: Propose_def Let_def collecting_def same_setting_def unanimous_def
        split: if_splits sum.splits option.splits)
  then obtain bc1 where bc1: "run_all (\<lambda>a. PreVote vo ho (clks a) h a b) as bc = Inr bc1" "collecting h b bc0 as bc1"
    using run_all_invariant [of "collecting h b bc0" bc as "\<lambda>a. PreVote vo ho (clks a) h a b"]
      collecting_prevote [OF live] assms(4,7) act by fastforce
  then show ?thesis
    using light assms(5) by (auto simp: collecting_def committing_def unanimous_def)
qed

lemma precommits_commit:
  assumes "live_setting vo bc0" "committing h b bc0 [] bc1" "distinct as"
    and "\<And>a. a \<in> set as \<Longrightarrow> is_active_validator a bc0"
  shows "\<exists>bc2. run_all (\<lambda>a. PreCommit vo (clks a) h a b) as bc1 = Inr bc2 \<and> committing h b bc0 as bc2"
  using run_all_invariant [of "committing h b bc0" bc1 as "\<lambda>a. PreCommit vo (clks a) h a b"]
    committing_precommit [OF assms(1)] assms(2-4) by fastforce

section \<open>An engine that commits\<close>

text \<open>Two validators of equal stake; both vote for the block of the first.\<close>

definition example_engine :: BFTConsensus where
  "example_engine = (NewBFTConsensus (NewValidatorSet DefaultValidatorSetConfig) DefaultConsensusConfig)
     \<lparr>bc_validators := example_set\<rparr>"

definition example_round :: ConsensusRound where
  "example_round =
     \<lparr>CRHeight = 1, CRRound = 0, CRProposer = ''a'', CRBlockHash = ''x'', LockedBlockHash = [],
      CRStatus = StatusProposed, PreVotes = [], Commits = [], StartTime = 8, EndTime = 0,
      Deadline = 8 + 30 * second\<rparr>"

definition example_proposed :: BFTConsensus where
  "example_proposed = example_engine\<lparr>rounds := fmupd 1 example_round fmempty\<rparr>"

lemma default_fraction_ok: "\<not> fle (f64_ratio 2 3) fzero" "\<not> fless (f_int 1) (f64_ratio 2 3)"
proof -
  have "(6004799503160661 * 2 ^ 1021 :: nat) \<le> 2 ^ 53 * 2 ^ 1021" by (intro mult_right_mono) simp_all
  also have "\<dots> = unit_one" unfolding unit_one_def by (simp only: power_add [symmetric]) simp
  finally have le: "(6004799503160661 * 2 ^ 1021 :: nat) \<le> 1 * unit_one" by simp
  show "\<not> fle (f64_ratio 2 3) fzero" unfolding two_thirds_fin fzero_def by simp
  show "\<not> fless (f_int 1) (f64_ratio 2 3)"
    unfolding two_thirds_fin f_int_def fless.simps fval.simps not_less if_False of_nat_le_iff by (rule le)
qed

lemma default_engine:
  "bc_cfg (NewBFTConsensus vs DefaultConsensusConfig) = DefaultConsensusConfig"
  "rounds (NewBFTConsensus vs cfg) = fmempty" "committed (NewBFTConsensus vs cfg) = fmempty"
  "carryPrevoteLock (NewBFTConsensus vs cfg) = fmempty" "bc_validators (NewBFTConsensus vs cfg) = vs"
  "(NewBFTConsensus vs cfg)\<lparr>bc_validators := vs\<rparr> = NewBFTConsensus vs cfg"
  "QuorumFraction DefaultConsensusConfig = f64_ratio 2 3" "RoundTimeout DefaultConsensusConfig = 30 * second"
  using default_fraction_ok by (simp_all add: NewBFTConsensus_def DefaultConsensusConfig_def Let_def)

lemma example_vs_steps:
  "vs_step\<^sup>*\<^sup>* vs vs' \<Longrightarrow> bft_step\<^sup>*\<^sup>* bc (bc\<lparr>bc_validators := vs\<rparr>) \<Longrightarrow> bft_step\<^sup>*\<^sup>* bc (bc\<lparr>bc_validators := vs'\<rparr>)"
proof (induction rule: rtranclp_induct)
  case (step y z)
  then have "bft_step\<^sup>*\<^sup>* bc (bc\<lparr>bc_validators := y\<rparr>)" by simp
  moreover have "bft_step (bc\<lparr>bc_validators := y\<rparr>) (bc\<lparr>bc_validators := z\<rparr>)"
    using bft_step.validator_change [of "bc\<lparr>bc_validators := y\<rparr>" z] step.hyps(2) by simp
  ultimately show ?case by (rule rtranclp.rtrancl_into_rtrancl)
qed

lemma example_engine_reachable:
  "bft_reachable DefaultValidatorSetConfig DefaultConsensusConfig example_engine"
  using example_vs_steps [OF example_reachable,
      of "NewBFTConsensus (NewValidatorSet DefaultValidatorSetConfig) DefaultConsensusConfig"]
  by (simp add: bft_reachable_def example_engine_def default_engine(6))

lemma example_weights:
  "weight t example_set ''a'' = 200" "weight t example_set ''b'' = 200" "total_weight t example_set = 400"
  by (simp_all add: weight_def total_weight_def example_set_def example_validator_def is_electable_def)

lemma example_voting_ok: "voting_ok t [''a'', ''b''] example_set"
proof -
  have "vs_inv example_set"
    using vs_steps_inv [OF example_reachable vs_inv_new config_ok_new] by simp
  then show ?thesis
    by (auto simp: voting_ok_def map_order_def whole_stakes_def example_set_def example_validator_def)
qed

lemma example_live: "live_setting [''a'', ''b''] example_engine"
proof -
  have "none_jailed example_set" by (simp add: none_jailed_def example_set_def example_validator_def)
  then show ?thesis
    using example_voting_ok by (simp add: live_setting_def example_engine_def default_engine example_weights)
qed

lemma example_propose:
  "Propose [''a'', ''b''] (\<lambda>_. 8) 1 0 ''a'' ''x'' example_engine = Inr (example_round, example_proposed)"
  by (simp add: Propose_def example_engine_def default_engine proposerForRoundLocked_def Let_def
      ActiveValidators_def example_set_def map_filter_simps is_electable_def example_validator_def
      proposer_before_def is_active_validator_def GetValidator_def second_def
      example_round_def example_proposed_def)

text \<open>
  C12: Progress: after a successful proposal on a height with no active round, when validators that
  hold two thirds of the stake prevote and then precommit the proposed hash, each call succeeds,
  whatever the order of the voters and the clock readings, and the height is committed with the
  proposed hash. Precommits that arrive after the commit are accepted.
\<close>

theorem votes_commit_the_proposal:
  assumes "live_setting vo bc0" "Propose vo clk h r p b bc0 = Inr (cr, bc)" "GetRound h bc0 = None"
    and "distinct as" "2 * total_weight 0 (bc_validators bc0) \<le> 3 * sum (weight 0 (bc_validators bc0)) (set as)"
    and "\<forall>a \<in> set as. is_active_validator a bc0" "b \<in> set ho"
  shows "\<exists>bc1 bc2 c. run_all (\<lambda>a. PreVote vo ho (clks1 a) h a b) as bc = Inr bc1 \<and>
    run_all (\<lambda>a. PreCommit vo (clks2 a) h a b) as bc1 = Inr bc2 \<and>
    GetCommitted h bc2 = Some c \<and> CRBlockHash c = b"
proof -
  have heavy: "heavy (bc_validators bc0) as" using assms(5) by (simp add: heavy_def)
  then obtain bc1 where bc1: "run_all (\<lambda>a. PreVote vo ho (clks1 a) h a b) as bc = Inr bc1" "committing h b bc0 [] bc1"
    using prevotes_collect [OF assms(1,2) _ assms(4), of ho clks1] assms(3,6,7) by (auto simp: GetRound_def)
  then obtain bc2 where "run_all (\<lambda>a. PreCommit vo (clks2 a) h a b) as bc1 = Inr bc2" "committing h b bc0 as bc2"
    using precommits_commit [OF assms(1) bc1(2) assms(4), of clks2] assms(6) by blast
  with bc1(1) heavy show ?thesis by (auto simp: GetCommitted_def committing_def)
qed

theorem votes_commit_the_proposal_witness:
  "\<exists>bc1 bc2 c.
     run_all (\<lambda>a. PreVote [''a'', ''b''] [''x''] (\<lambda>_. 9) 1 a ''x'') [''b'', ''a''] example_proposed = Inr bc1 \<and>
     run_all (\<lambda>a. PreCommit [''a'', ''b''] (\<lambda>_. 10) 1 a ''x'') [''b'', ''a''] bc1 = Inr bc2 \<and>
     GetCommitted 1 bc2 = Some c \<and> CRBlockHash c = ''x''"
proof (rule votes_commit_the_proposal [OF example_live example_propose])
  show "\<forall>a \<in> set [''b'', ''a'']. is_active_validator a example_engine"
    by (simp add: is_active_validator_def GetValidator_def example_engine_def example_set_def example_validator_def)
  show "GetRound 1 example_engine = None" by (simp add: GetRound_def example_engine_def default_engine)
  show "2 * total_weight 0 (bc_validators example_engine)
      \<le> 3 * sum (weight 0 (bc_validators example_engine)) (set [''b'', ''a''])"
    by (simp add: example_engine_def example_weights)
qed simp_all

end
