(* ===== verification/Agreement.thy ===== *)
theory Agreement
  imports ConsensusLive
begin

text \<open>
  Agreement of the voting engine: refinement of a write-once register per height, finality of a
  commit, the quorum behind every commit, accountability for conflicting quorums, the prevote lock,
  the rotation of proposers and the certificate of a committed round.
\<close>

section \<open>Runs are step sequences\<close>

lemma prevote_hash_order:
  "PreVote vo ho clk h a b bc = Inr bc' \<Longrightarrow> hash_order h b bc ho \<Longrightarrow> hash_order h b bc' ho"
  by (auto simp: PreVote_def hash_order_def Let_def image_subset_iff split: option.splits if_splits)

lemma prevotes_steps:
  assumes "run_all (\<lambda>a. PreVote vo ho (clks a) h a b) as bc = Inr bc'"
    and "map_order (validators (bc_validators bc)) vo" "hash_order h b bc ho"
  shows "bft_step\<^sup>*\<^sup>* bc bc' \<and> bc_validators bc' = bc_validators bc"
  using assms
proof (induction as arbitrary: bc)
  case (Cons a as)
  then obtain bc1 where one: "PreVote vo ho (clks a) h a b bc = Inr bc1"
    and rest: "run_all (\<lambda>a. PreVote vo ho (clks a) h a b) as bc1 = Inr bc'"
    by (auto split: sum.splits)
  have "bft_step bc bc1" using one Cons.prems by (blast intro: bft_step.prevote)
  moreover have "bft_step\<^sup>*\<^sup>* bc1 bc' \<and> bc_validators bc' = bc_validators bc1"
    using Cons.IH [OF rest] prevote_frame [OF one] Cons.prems(2) prevote_hash_order [OF one Cons.prems(3)] by simp
  ultimately show ?case using prevote_frame [OF one] by (auto intro: converse_rtranclp_into_rtranclp)
qed simp

lemma precommits_steps:
  assumes "run_all (\<lambda>a. PreCommit vo (clks a) h a b) as bc = Inr bc'"
    and "map_order (validators (bc_validators bc)) vo"
  shows "bft_step\<^sup>*\<^sup>* bc bc'"
  using assms
proof (induction as arbitrary: bc)
  case (Cons a as)
  then obtain bc1 where one: "PreCommit vo (clks a) h a b bc = Inr bc1"
    and rest: "run_all (\<lambda>a. PreCommit vo (clks a) h a b) as bc1 = Inr bc'"
    by (auto split: sum.splits)
  have "bft_step bc bc1" using one Cons.prems by (blast intro: bft_step.precommit)
  moreover have "bft_step\<^sup>*\<^sup>* bc1 bc'"
    using Cons.IH [OF rest] precommit_frame [OF one] Cons.prems(2) by simp
  ultimately show ?case by (rule converse_rtranclp_into_rtranclp)
qed simp

text \<open>The example engine reaches a commit of the block it proposed.\<close>

lemma example_proposed_reachable:
  "bft_reachable DefaultValidatorSetConfig DefaultConsensusConfig example_proposed"
proof -
  have "map_order (validators (bc_validators example_engine)) [''a'', ''b'']"
    using example_voting_ok by (simp add: voting_ok_def example_engine_def)
  then have "bft_step example_engine example_proposed" using example_propose by (blast intro: bft_step.propose)
  then show ?thesis using example_engine_reachable bft_reachable_step by blast
qed

lemma example_commits:
  obtains bc bc' cr where "bft_reachable DefaultValidatorSetConfig DefaultConsensusConfig bc" "bft_step bc bc'"
    "bc_validators bc = example_set" "fmlookup (committed bc) 1 = None"
    "fmlookup (committed bc') 1 = Some cr" "CRBlockHash cr = ''x''"
proof -
  let ?vo = "[''a'', ''b'']"
  have active: "is_active_validator a example_engine" if "a \<in> set [''a'', ''b'']" for a
    using that by (auto simp: is_active_validator_def GetValidator_def example_engine_def example_set_def
        example_validator_def)
  have heavy: "heavy (bc_validators example_engine) [''a'', ''b'']" "\<not> heavy (bc_validators example_engine) [''a'']"
    by (simp_all add: heavy_def example_engine_def example_weights)
  obtain bc1 where bc1: "run_all (\<lambda>a. PreVote ?vo [''x''] (\<lambda>_. 9) 1 a ''x'') [''a'', ''b''] example_proposed = Inr bc1"
      "committing 1 ''x'' example_engine [] bc1"
    using prevotes_collect [OF example_live example_propose, of "[''a'', ''b'']" "[''x'']" "\<lambda>_ _. 9"] active heavy(1)
    by (auto simp: example_engine_def default_engine)
  obtain bc2 where bc2: "PreCommit ?vo (\<lambda>_. 9) 1 ''a'' ''x'' bc1 = Inr bc2" "committing 1 ''x'' example_engine [''a''] bc2"
    using committing_precommit [OF example_live bc1(2), of "''a''"] active by auto
  obtain bc3 where bc3: "PreCommit ?vo (\<lambda>_. 9) 1 ''b'' ''x'' bc2 = Inr bc3"
      "committing 1 ''x'' example_engine [''a'', ''b''] bc3"
    using committing_precommit [OF example_live bc2(2), of "''b''"] active by auto
  have vals: "bc_validators bc1 = example_set" "bc_validators bc2 = example_set"
    using bc1(2) bc2(2) by (auto simp: committing_def same_setting_def example_engine_def)
  have vo: "map_order (validators example_set) ?vo" using example_voting_ok by (simp add: voting_ok_def)
  have "hash_order 1 ''x'' example_proposed [''x'']"
    by (simp add: hash_order_def example_proposed_def example_round_def)
  then have "bft_step\<^sup>*\<^sup>* example_proposed bc1"
    using prevotes_steps [OF bc1(1)] vo by (simp add: example_proposed_def example_engine_def)
  moreover have "bft_step bc1 bc2" "bft_step bc2 bc3"
    using bc2(1) bc3(1) vals vo by (auto intro: bft_step.precommit)
  ultimately have reach: "bft_reachable DefaultValidatorSetConfig DefaultConsensusConfig bc2"
    using bft_reachable_steps example_proposed_reachable by (meson rtranclp.rtrancl_into_rtrancl)
  obtain cr where "fmlookup (rounds bc2) 1 = Some cr" using bc2(2) heavy(2) by (auto simp: committing_def)
  from bft_invD(1) [OF bft_reachable_inv(1) [OF reach] this] have "fmlookup (committed bc2) 1 = None"
    by (simp add: active_round_ok_def)
  then show ?thesis
    using that [OF reach \<open>bft_step bc2 bc3\<close> vals(2)] bc3(2) heavy(1) by (auto simp: committing_def)
qed

section \<open>Refinement and finality\<close>

text \<open>
  C10: Refinement: whatever an engine does, seen through the hash committed at each height it either
  stutters or writes a height that was not written before.
\<close>

theorem bft_refines_write_once:
  assumes "bft_reachable vcfg cfg bc" "bft_step bc bc'"
  shows "decide_step\<^sup>=\<^sup>= (decided bc) (decided bc')"
  using decided_step [OF assms(2) bft_reachable_inv(1) [OF assms(1)]] .

theorem bft_refines_write_once_witness:
  "bft_step example_engine example_proposed \<and> decide_step\<^sup>=\<^sup>= (decided example_engine) (decided example_proposed)"
proof -
  have "map_order (validators (bc_validators example_engine)) [''a'', ''b'']"
    using example_voting_ok by (simp add: voting_ok_def example_engine_def)
  then have "bft_step example_engine example_proposed" using example_propose by (blast intro: bft_step.propose)
  then show ?thesis using bft_refines_write_once [OF example_engine_reachable] by blast
qed

text \<open>
  Finality: a committed round is never replaced or dropped, there is no active round at its
  height, every later proposal at that height is refused, and a late precommit for another hash is
  refused, whatever happens to rounds and validators in between.
\<close>

theorem commit_is_final:
  assumes "bft_reachable vcfg cfg bc" "GetCommitted h bc = Some cr" "bft_step\<^sup>*\<^sup>* bc bc'"
  shows "GetCommitted h bc' = Some cr \<and> GetRound h bc' = None \<and>
    Propose vo clk h r p b bc' = Inl (ErrHeightCommitted h) \<and>
    (b \<noteq> CRBlockHash cr \<longrightarrow> PreCommit vo clk h a b bc' = Inl (ErrLatePrecommit h b (CRBlockHash cr)))"
proof -
  have "bft_inv bc'" "fmlookup (committed bc') h = Some cr"
    using committed_steps [OF assms(3) bft_reachable_inv(1) [OF assms(1)], of h cr] assms(2)
    by (simp_all add: GetCommitted_def)
  moreover from bft_invD(3) [OF this] have "fmlookup (rounds bc') h = None" .
  ultimately show ?thesis by (simp add: GetCommitted_def GetRound_def Propose_def PreCommit_def)
qed

theorem commit_is_final_witness:
  "\<exists>bc. Propose [] (\<lambda>_. 20) 1 3 ''b'' ''y'' bc = Inl (ErrHeightCommitted 1) \<and>
     PreCommit [] (\<lambda>_. 20) 1 ''b'' ''y'' bc = Inl (ErrLatePrecommit 1 ''y'' ''x'')"
proof -
  obtain bc0 bc cr where "bft_reachable DefaultValidatorSetConfig DefaultConsensusConfig bc0" "bft_step bc0 bc"
    and c2: "fmlookup (committed bc) 1 = Some cr" and c3: "CRBlockHash cr = ''x''" by (rule example_commits)
  then have c1: "bft_reachable DefaultValidatorSetConfig DefaultConsensusConfig bc" by (blast intro: bft_reachable_step)
  have "GetCommitted 1 bc = Some cr" using c2 by (simp add: GetCommitted_def)
  from commit_is_final [OF c1 this rtranclp.rtrancl_refl, of "[]" "\<lambda>_. 20" 3 "''b''" "''y''" "''b''"]
  show ?thesis using c3 by auto
qed

text \<open>
  C11: A step that commits a height finds an active round in the prevoted state, and with whole stakes
  of at most \<open>2 ^ 50\<close> in total the validators whose precommits are for the committed hash hold two
  thirds of the weight; no validator is counted twice, and every vote in the round is for its height
  and round.
\<close>

theorem commit_needs_two_thirds:
  assumes "bft_reachable vcfg DefaultConsensusConfig bc" "bft_step bc bc'" "whole_stakes (bc_validators bc)"
    and "GetCommitted h bc = None" "GetCommitted h bc' = Some cr"
  shows "(\<exists>now. 2 * total_weight now (bc_validators bc)
        \<le> 3 * sum (weight now (bc_validators bc)) (voters (CRBlockHash cr) (Commits cr))) \<and>
    round_ok h cr \<and> (\<exists>r. GetRound h bc = Some r \<and> CRStatus r = StatusPreVoted \<and> CRBlockHash r = CRBlockHash cr)"
  using assms(2) bft_reachable_inv(1) [OF assms(1)]
proof (cases rule: bft_step_committed)
  case same
  then show ?thesis using assms(4,5) by (simp add: GetCommitted_def)
next
  case (commit vo now h' c)
  then have h: "h' = h" "c = cr" using assms(4,5) by (auto simp: GetCommitted_def split: if_splits)
  have ok: "voting_ok now vo (bc_validators bc)"
    using bft_reachable_inv(2) [OF assms(1)] commit(3) assms(3) by (simp add: voting_ok_def)
  have q: "QuorumFraction (bc_cfg bc) = f64_ratio 2 3"
    using bft_reachable_inv(3) [OF assms(1)] by (simp add: default_engine)
  have "distinct (map BVValidator (Commits cr))" using commit(6) h by (simp add: round_ok_def votes_ok_def)
  from has_quorum_iff [OF ok q this] commit h show ?thesis
    by (auto simp: voted_weight_def GetRound_def)
qed

theorem commit_needs_two_thirds_witness:
  "\<exists>bc bc' cr. bft_step bc bc' \<and> GetCommitted 1 bc = None \<and> GetCommitted 1 bc' = Some cr \<and> round_ok 1 cr"
proof -
  obtain bc bc' cr where c: "bft_reachable DefaultValidatorSetConfig DefaultConsensusConfig bc" "bft_step bc bc'"
    "bc_validators bc = example_set" "fmlookup (committed bc) 1 = None" "fmlookup (committed bc') 1 = Some cr"
    by (rule example_commits)
  have "whole_stakes (bc_validators bc)" using example_voting_ok c(3) by (simp add: voting_ok_def)
  from commit_needs_two_thirds [OF c(1,2) this, of 1 cr] c show ?thesis by (auto simp: GetCommitted_def)
qed

section \<open>Accountability and locks\<close>

text \<open>
  Accountability: when two vote lists of the same validator set, each with one vote per validator,
  both reach the quorum test, for the same or for different hashes, the validators in both quorums
  hold at least a third of the weight. For different hashes these validators signed both.
\<close>

theorem conflicting_quorums_double_sign:
  assumes "voting_ok now vo (bc_validators bc)" "QuorumFraction (bc_cfg bc) = f64_ratio 2 3"
    and "distinct (map BVValidator votes1)" "distinct (map BVValidator votes2)"
    and "hasQuorum vo now votes1 h1 bc" "hasQuorum vo now votes2 h2 bc"
  shows "total_weight now (bc_validators bc)
    \<le> 3 * sum (weight now (bc_validators bc)) (voters h1 votes1 \<inter> voters h2 votes2)"
  using commit_quorum.intersection [of "(now, vo, bc)" votes1 votes2 h1 h2] assms
  by (simp add: admissible_vote_def)

definition example_votes :: "string \<Rightarrow> BlockVote list" where
  "example_votes b =
     map (\<lambda>a. \<lparr>BVValidator = a, BVBlockHash = b, BVHeight = 1, BVRound = 0, BVType = VotePreVote, BVTimestamp = 9\<rparr>)
       [''a'', ''b'']"

lemma example_votes_simps:
  "voters h (example_votes b) = (if h = b then {''a'', ''b''} else {})"
  "distinct (map BVValidator (example_votes b))"
  using unanimous_voters [of b "[''a'', ''b'']" "example_votes b" h]
  by (simp_all add: example_votes_def unanimous_def)

lemma example_engine_simps:
  "voting_ok now [''a'', ''b''] (bc_validators example_engine)"
  "QuorumFraction (bc_cfg example_engine) = f64_ratio 2 3" "bc_validators example_engine = example_set"
  using example_voting_ok by (simp_all add: example_engine_def default_engine)

lemma example_quorum: "hasQuorum [''a'', ''b''] 9 (example_votes b) b example_engine"
  using has_quorum_iff [OF example_engine_simps(1,2) example_votes_simps(2), of 9 b b]
    active_nonempty [OF example_voting_ok [of 9]]
  by (simp add: example_engine_simps(3) example_weights voted_weight_def example_votes_simps)

theorem conflicting_quorums_double_sign_witness:
  "total_weight 9 example_set \<le> 3 * sum (weight 9 example_set)
     (voters ''x'' (example_votes ''x'') \<inter> voters ''y'' (example_votes ''y''))"
  using conflicting_quorums_double_sign [OF example_engine_simps(1,2) example_votes_simps(2,2)
      example_quorum [of "''x''"] example_quorum [of "''y''"]]
  by (simp add: example_engine_simps(3))

text \<open>
  The prevote lock is the polka: with whole stakes and one prevote per validator
  \<open>pickLockedPrevoteHash\<close> returns a hash exactly when two thirds of the weight prevoted it, and then it
  is the only such hash; the result depends neither on the iteration order of the validator map nor
  on that of the tally map, so the tie-breaking code never decides.
\<close>

theorem prevote_lock_is_the_polka:
  assumes "voting_ok now vo (bc_validators bc)" "QuorumFraction (bc_cfg bc) = f64_ratio 2 3"
    and "distinct (map BVValidator (PreVotes cr))" "0 < total_weight now (bc_validators bc)"
    and "BVBlockHash ` set (PreVotes cr) \<subseteq> set ho"
  shows "(pickLockedPrevoteHash vo ho now cr bc = Some h) =
      (2 * total_weight now (bc_validators bc) \<le> 3 * voted_weight now (bc_validators bc) h (PreVotes cr)) \<and>
    (voting_ok now vo' (bc_validators bc) \<and> set ho \<subseteq> set ho' \<longrightarrow>
      pickLockedPrevoteHash vo' ho' now cr bc = pickLockedPrevoteHash vo ho now cr bc)"
proof -
  have iff: "(pickLockedPrevoteHash v g now cr bc = Some x) =
      (2 * total_weight now (bc_validators bc) \<le> 3 * voted_weight now (bc_validators bc) x (PreVotes cr))"
    if "voting_ok now v (bc_validators bc)" "set ho \<subseteq> set g" for v g x
    using pick_iff [OF that(1) assms(2,3), of g x] polka_iff [OF that(1) assms(2,3), of x] assms(4,5) that(2) by auto
  show ?thesis
    using iff [OF assms(1), of ho] iff [of vo' ho'] by (metis option.exhaust order_refl)
qed

theorem prevote_lock_is_the_polka_witness:
  "pickLockedPrevoteHash [''a'', ''b''] [''x''] 9 (example_round\<lparr>PreVotes := example_votes ''x''\<rparr>) example_engine = Some ''x''"
  using prevote_lock_is_the_polka [OF example_engine_simps(1,2), of "example_round\<lparr>PreVotes := example_votes ''x''\<rparr>"
      9 "[''x'']" "''x''"] example_votes_simps
  by (simp add: example_engine_simps(3) example_weights voted_weight_def) (simp add: example_votes_def)

section \<open>Proposers\<close>

lemma proposer_before_weak:
  assumes "\<forall>v \<in> C. Stake v \<noteq> NaN"
  shows "weak_less proposer_before C"
proof
  fix a b assume "a \<in> C" "b \<in> C" "proposer_before a b"
  then show "\<not> proposer_before b a"
    using assms by (cases "Stake a"; cases "Stake b") (auto simp: proposer_before_def split: if_splits)
next
  fix a b c assume "a \<in> C" "b \<in> C" "c \<in> C" "\<not> proposer_before b a" "\<not> proposer_before c b"
  then show "\<not> proposer_before c a"
    using assms
    by (cases "Stake a"; cases "Stake b"; cases "Stake c") (auto simp: proposer_before_def split: if_splits)
qed

lemma proposer_before_total:
  assumes "vs_inv vs" "real_stakes vs"
  shows "total_less proposer_before (electable now vs)"
proof -
  have nan: "\<forall>v \<in> electable now vs. Stake v \<noteq> NaN" using assms(2) by (auto simp: electable_def real_stakes_def)
  have addr: "v = w" if "v \<in> electable now vs" "w \<in> electable now vs" "VAddress v = VAddress w" for v w
    using that vs_invD(1) [OF assms(1)] by (fastforce simp: electable_def validator_ok_def)
  have "v = w" if vw: "v \<in> electable now vs" "w \<in> electable now vs" "\<not> proposer_before v w" "\<not> proposer_before w v" for v w
  proof (rule addr [OF vw(1,2)])
    show "VAddress v = VAddress w"
      using vw(3,4) nan [rule_format, OF vw(1)] nan [rule_format, OF vw(2)]
      by (cases "Stake v"; cases "Stake w") (auto simp: proposer_before_def split: if_splits)
  qed
  then show ?thesis
    by (intro total_less.intro total_less_axioms.intro proposer_before_weak [OF nan])
qed

lemma proposer_order_free:
  assumes "vs_inv vs" "real_stakes vs" "map_order (validators vs) vo" "map_order (validators vs) vo'"
  shows "go_sort proposer_before (ActiveValidators vo now vs) = go_sort proposer_before (ActiveValidators vo' now vs)"
  using total_less.go_sort_perm [OF proposer_before_total [OF assms(1,2), of now] mset_active [OF assms(1,3,4), of now]]
    set_active [OF assms(3)] by simp

text \<open>
  Proposer rotation: when no stake is NaN the proposer of a round does not depend on the map
  iteration order, so every node with the same validator set and clock expects the same proposer, and
  within as many rounds as there are active validators every one of them is the proposer of a round.
\<close>

theorem proposer_rotation_is_fair:
  assumes "vs_inv (bc_validators bc)" "real_stakes (bc_validators bc)"
    and "map_order (validators (bc_validators bc)) vo" "map_order (validators (bc_validators bc)) vo'"
    and "length (ActiveValidators vo (clk 0) (bc_validators bc)) = n" "n < 2 ^ 32"
  shows "ProposerForRound vo clk r bc = ProposerForRound vo' clk r bc \<and>
    (\<forall>v \<in> set (ActiveValidators vo (clk 0) (bc_validators bc)).
       \<exists>r. unat r < n \<and> ProposerForRound vo clk r bc = Inr (VAddress v))"
proof (intro conjI ballI)
  let ?L = "go_sort proposer_before (ActiveValidators vo (clk 0) (bc_validators bc))"
  have same: "mset (ActiveValidators vo (clk 0) (bc_validators bc)) = mset (ActiveValidators vo' (clk 0) (bc_validators bc))"
    by (rule mset_active [OF assms(1,3,4)])
  then show "ProposerForRound vo clk r bc = ProposerForRound vo' clk r bc"
    using proposer_order_free [OF assms(1-4), of "clk 0"] mset_eq_length [OF same]
    by (auto simp: ProposerForRound_def proposerForRoundLocked_def Let_def)
  fix v assume "v \<in> set (ActiveValidators vo (clk 0) (bc_validators bc))"
  then obtain i where i: "i < n" "?L ! i = v" using assms(5) by (metis in_set_conv_nth length_go_sort set_go_sort)
  then have "unat (of_nat i :: u32) = i" using assms(6) by (simp add: unat_of_nat take_bit_nat_eq_self)
  then show "\<exists>r. unat r < n \<and> ProposerForRound vo clk r bc = Inr (VAddress v)"
    using i assms(5) by (intro exI [of _ "of_nat i"]) (auto simp: ProposerForRound_def proposerForRoundLocked_def Let_def)
qed

theorem proposer_rotation_is_fair_witness:
  "ProposerForRound [''a'', ''b''] (\<lambda>_. 9) 1 example_engine = ProposerForRound [''b'', ''a''] (\<lambda>_. 9) 1 example_engine"
proof -
  have "vs_inv example_set" "map_order (validators example_set) [''a'', ''b'']"
    using example_voting_ok by (simp_all add: voting_ok_def)
  then show ?thesis
    using proposer_rotation_is_fair [of example_engine "[''a'', ''b'']" "[''b'', ''a'']" "\<lambda>_. 9" 2 1]
    by (auto simp: example_engine_simps(3) real_stakes_def map_order_def example_set_def example_validator_def
        ActiveValidators_def map_filter_simps is_electable_def)
qed

text \<open>
  A jailed validator whose jail time has elapsed, but who has not called \<open>Unjail\<close>, still takes its
  turn as the expected proposer and is refused when it proposes: at a height without an active round,
  when the expected proposer of a round is jailed, every proposal for that round fails, whoever makes
  it, and since no round exists no timeout advances the height to the next round.
\<close>

theorem jailed_proposer_blocks_its_round:
  assumes "ProposerForRound vo clk r bc = Inr p" "GetValidator p (bc_validators bc) = Some v"
    and "VStatus v = ValidatorJailed" "GetRound h bc = None"
  shows "(\<exists>e. Propose vo clk h r q b bc = Inl e) \<and>
    NextRoundAfterTimeout h (snd (TickRoundTimeouts order now bc)) = NextRoundAfterTimeout h bc"
proof
  show "\<exists>e. Propose vo clk h r q b bc = Inl e"
    using assms
    by (auto simp: Propose_def ProposerForRound_def GetRound_def is_active_validator_def split: option.split)
  have "fmlookup (nextRound bc') h = fmlookup (nextRound bc0) h"
    if "tick_loop now order (hs, bc0) = (hs', bc')" "fmlookup (rounds bc0) h = None" for hs bc0 hs' bc'
    using that
  proof (induction now order "(hs, bc0)" arbitrary: hs bc0 rule: tick_loop.induct)
    case (2 now k order hs bc0)
    then show ?case
      by (cases "fmlookup (rounds bc0) k") (auto simp: end_round_def Let_def split: if_splits)
  qed simp
  from this [of "[]" bc] show "NextRoundAfterTimeout h (snd (TickRoundTimeouts order now bc)) = NextRoundAfterTimeout h bc"
    using assms(4)
    by (cases "tick_loop now order ([], bc)") (auto simp: TickRoundTimeouts_def NextRoundAfterTimeout_def GetRound_def)
qed

definition jailed_engine :: BFTConsensus where
  "jailed_engine = example_engine\<lparr>bc_validators := put_validator ''b''
     ((example_validator ''b'' 6)\<lparr>Stake := f_int 300, VStatus := ValidatorJailed, JailedUntil := 7\<rparr>) example_set\<rparr>"

theorem jailed_proposer_blocks_its_round_witness:
  "ProposerForRound [''a'', ''b''] (\<lambda>_. 9) 0 jailed_engine = Inr ''b'' \<and>
   (\<exists>e. Propose [''a'', ''b''] (\<lambda>_. 9) 1 0 ''a'' ''x'' jailed_engine = Inl e)"
proof -
  have "ProposerForRound [''a'', ''b''] (\<lambda>_. 9) 0 jailed_engine = Inr ''b''"
    by (simp add: ProposerForRound_def proposerForRoundLocked_def jailed_engine_def Let_def ActiveValidators_def
        put_validator_def example_set_def map_filter_simps is_electable_def example_validator_def proposer_before_def)
  then show ?thesis
    using jailed_proposer_blocks_its_round [of "[''a'', ''b'']" "\<lambda>_. 9" 0 jailed_engine "''b''" _ 1 "''a''" "''x''"]
    by (simp add: GetValidator_def GetRound_def jailed_engine_def put_validator_def example_engine_def default_engine)
qed

section \<open>Certificates\<close>

interpretation wires: total_less wire_before UNIV
  by unfold_locales (auto simp: wire_before_def prod_eq_iff split: if_splits)

text \<open>
  Nodes that received the same precommits in different orders, at different times, build the same
  commit digest and the same counts in the certificate of a height.
\<close>

theorem certificate_ignores_arrival_order:
  assumes "GetCommitted h bc1 = Some cr1" "GetCommitted h bc2 = Some cr2"
    and "mset (map (\<lambda>c. (BVValidator c, BVBlockHash c)) (Commits cr1)) =
         mset (map (\<lambda>c. (BVValidator c, BVBlockHash c)) (Commits cr2))"
  shows "\<exists>c1 c2. BuildRoundCertificate vo clk h bc1 = Inr c1 \<and> BuildRoundCertificate vo clk h bc2 = Inr c2 \<and>
    CommitDigest c1 = CommitDigest c2 \<and> CommitCount c1 = CommitCount c2 \<and> NilCommitCount c1 = NilCommitCount c2"
proof -
  have nils: "length (filter (\<lambda>c. BVBlockHash c = NilVoteHash) (Commits cr)) =
      size (filter_mset (\<lambda>w. snd w = NilVoteHash) (mset (map (\<lambda>c. (BVValidator c, BVBlockHash c)) (Commits cr))))" for cr
    by (simp only: mset_filter [symmetric] size_mset filter_map length_map comp_def snd_conv)
  have "commit_wires cr1 = commit_wires cr2"
    unfolding commit_wires_def using wires.go_sort_perm [OF assms(3)] by simp
  moreover have "length (Commits cr1) = length (Commits cr2)" using mset_eq_length [OF assms(3)] by simp
  moreover have "length (filter (\<lambda>c. BVBlockHash c = NilVoteHash) (Commits cr1)) =
      length (filter (\<lambda>c. BVBlockHash c = NilVoteHash) (Commits cr2))"
    unfolding nils assms(3) ..
  ultimately show ?thesis
    using assms(1,2) by (simp add: BuildRoundCertificate_def GetCommitted_def commit_digest_def)
qed

definition example_final :: "BlockVote list \<Rightarrow> BFTConsensus" where
  "example_final votes =
     example_engine\<lparr>committed := fmupd 1 (example_round\<lparr>Commits := votes, CRStatus := StatusCommitted\<rparr>) fmempty\<rparr>"

theorem certificate_ignores_arrival_order_witness:
  "\<exists>c1 c2. BuildRoundCertificate [''a'', ''b''] (\<lambda>_. 9) 1 (example_final (example_votes ''x'')) = Inr c1 \<and>
     BuildRoundCertificate [''a'', ''b''] (\<lambda>_. 9) 1 (example_final (rev (example_votes ''x''))) = Inr c2 \<and>
     CommitDigest c1 = CommitDigest c2"
  using certificate_ignores_arrival_order [of 1 "example_final (example_votes ''x'')"
      "example_round\<lparr>Commits := example_votes ''x'', CRStatus := StatusCommitted\<rparr>"
      "example_final (rev (example_votes ''x''))"
      "example_round\<lparr>Commits := rev (example_votes ''x''), CRStatus := StatusCommitted\<rparr>" "[''a'', ''b'']" "\<lambda>_. 9"]
  by (auto simp: example_final_def GetCommitted_def)

end
