(* ===== verification/PolFollower.thy ===== *)
theory PolFollower
  imports ConsensusLive
begin

text \<open>
  \<open>pkg/chain/pol_follower.go\<close>: the follower view of proof-of-lock gossip, which gates block production
  and finality. It keeps prevote-lock proofs and round certificates per height, the state roots this
  node sealed, which of its certificates were published, and the heights with conflicts. A nil
  follower answers every query with the permissive default; callers hold an option. Wire input may be
  nil (\<open>None\<close>). The statistics map (\<open>Summary\<close>) is left out.
\<close>

record PolFollower =
  pf_vs :: ValidatorSet
  quorumFrac :: f64
  lockByHeight :: "(u64, PrevoteLockProof) fmap"
  certByHeight :: "(u64, RoundCertificate) fmap"
  maxObserved :: u64
  retention :: u64
  anchorFinality :: bool
  localStateRoot :: "(u64, string) fmap"
  localPolPublished :: "(u64, bool) fmap"
  polConflicts :: "(u64, bool) fmap"

datatype pol_error =
  ErrPolNilInput | ErrPolInvalidFields | ErrPolEmptyPrevotes | ErrPolVoteMismatch | ErrPolNotPrevote
| ErrPolNoStake | ErrPolInsufficientStake f64 f64 f64 | ErrPolStaleRound u32 u32
| ErrPolMissingCommits | ErrPolUnknownValidator string | ErrPolExitedValidator string
| ErrPolForksLocal | ErrPolConflictingCertificates u64

definition defaultPolFollowerRetention :: u64 where
  "defaultPolFollowerRetention = 4096"

definition NewPolFollower :: "ValidatorSet option \<Rightarrow> f64 \<Rightarrow> PolFollower option" where
  "NewPolFollower vso q =
     (case vso of None \<Rightarrow> None
      | Some vs \<Rightarrow>
          let q = (if fle q fzero \<or> fless (f64_of_nat 1) q then f64_ratio 2 3 else q)
          in Some \<lparr>pf_vs = vs, quorumFrac = q, lockByHeight = fmempty, certByHeight = fmempty,
                   maxObserved = 0, retention = defaultPolFollowerRetention, anchorFinality = False,
                   localStateRoot = fmempty, localPolPublished = fmempty, polConflicts = fmempty\<rparr>)"

definition map_flag :: "(u64, bool) fmap \<Rightarrow> u64 \<Rightarrow> bool" where
  "map_flag m h = (fmlookup m h = Some True)"

definition SetAnchorFinality :: "bool \<Rightarrow> PolFollower \<Rightarrow> PolFollower" where
  "SetAnchorFinality enabled f = f\<lparr>anchorFinality := enabled\<rparr>"

definition RecordLocalSealedBlock :: "u64 \<Rightarrow> string \<Rightarrow> PolFollower \<Rightarrow> PolFollower" where
  "RecordLocalSealedBlock height stateRoot f =
     (if stateRoot = [] then f else f\<lparr>localStateRoot := fmupd height stateRoot (localStateRoot f)\<rparr>)"

definition MarkLocalRoundCertificatePublished :: "u64 \<Rightarrow> PolFollower \<Rightarrow> PolFollower" where
  "MarkLocalRoundCertificatePublished height f =
     f\<lparr>localPolPublished := fmupd height True (localPolPublished f)\<rparr>"

definition allowFinalizeCoreLocked :: "u64 \<Rightarrow> string \<Rightarrow> PolFollower \<Rightarrow> bool" where
  "allowFinalizeCoreLocked height blockStateRoot f =
     (if map_flag (polConflicts f) height then False
      else case fmlookup (localStateRoot f) height of
        None \<Rightarrow> True
      | Some localSR \<Rightarrow>
          if localSR = [] then True
          else if blockStateRoot \<noteq> [] \<and> blockStateRoot \<noteq> localSR then False
          else (case fmlookup (certByHeight f) height of
                  Some cert \<Rightarrow> if RCBlockHash cert = localSR then True else map_flag (localPolPublished f) height
                | None \<Rightarrow> map_flag (localPolPublished f) height))"

definition AllowFinalize :: "u64 \<Rightarrow> string \<Rightarrow> PolFollower \<Rightarrow> bool" where
  "AllowFinalize height blockStateRoot f =
     (if \<not> anchorFinality f then True else allowFinalizeCoreLocked height blockStateRoot f)"

definition CanExtendFromTip :: "u64 \<Rightarrow> string \<Rightarrow> PolFollower \<Rightarrow> bool" where
  "CanExtendFromTip tipHeight tipStateRoot f =
     (if \<not> anchorFinality f then True else allowFinalizeCoreLocked tipHeight tipStateRoot f)"

definition AnchorFinalityEnabled :: "PolFollower \<Rightarrow> bool" where
  "AnchorFinalityEnabled f = anchorFinality f"

definition HasConflict :: "u64 \<Rightarrow> PolFollower \<Rightarrow> bool" where
  "HasConflict height f = map_flag (polConflicts f) height"

definition totalActiveStake :: "string list \<Rightarrow> go_time \<Rightarrow> PolFollower \<Rightarrow> f64" where
  "totalActiveStake vo now f =
     foldl (\<lambda>t v. if VStatus v = ValidatorActive then fadd t (Stake v) else t) fzero
       (ActiveValidators vo now (pf_vs f))"

definition counted_prevote :: "PrevoteLockProof \<Rightarrow> PolFollower \<Rightarrow> BlockVote \<Rightarrow> bool" where
  "counted_prevote p f vote \<longleftrightarrow>
     BVHeight vote = PLHeight p \<and> BVRound vote = PLRound p \<and>
     (BVType vote = VotePreVote \<or> BVType vote = []) \<and> BVBlockHash vote = PLLockedBlockHash p \<and>
     (case GetValidator (BVValidator vote) (pf_vs f) of None \<Rightarrow> False | Some v \<Rightarrow> VStatus v = ValidatorActive)"

definition prevoteStakeForLocked :: "PrevoteLockProof \<Rightarrow> PolFollower \<Rightarrow> f64" where
  "prevoteStakeForLocked p f =
     foldl (\<lambda>s vote. if counted_prevote p f vote
                     then (case GetValidator (BVValidator vote) (pf_vs f) of None \<Rightarrow> s | Some v \<Rightarrow> fadd s (Stake v))
                     else s) fzero (Prevotes p)"

definition pruneLocked :: "PolFollower \<Rightarrow> PolFollower" where
  "pruneLocked f =
     (if retention f = 0 \<or> maxObserved f \<le> retention f then f
      else
        let cutoff = maxObserved f - retention f;
            sealed = localStateRoot f;
            old = (\<lambda>h. h < cutoff \<and> fmlookup sealed h \<noteq> None)
        in f\<lparr>lockByHeight := fmfilter (\<lambda>h. \<not> h < cutoff) (lockByHeight f),
             certByHeight := fmfilter (\<lambda>h. \<not> h < cutoff) (certByHeight f),
             localStateRoot := fmfilter (\<lambda>h. \<not> h < cutoff) sealed,
             localPolPublished := fmfilter (\<lambda>h. \<not> old h) (localPolPublished f),
             polConflicts := fmfilter (\<lambda>h. \<not> old h) (polConflicts f)\<rparr>)"

definition observe :: "u64 \<Rightarrow> PolFollower \<Rightarrow> PolFollower" where
  "observe height f = pruneLocked (if height > maxObserved f then f\<lparr>maxObserved := height\<rparr> else f)"

fun vote_shape_error :: "PrevoteLockProof \<Rightarrow> BlockVote list \<Rightarrow> pol_error option" where
  "vote_shape_error p [] = None"
| "vote_shape_error p (v # vs) =
     (if BVHeight v \<noteq> PLHeight p \<or> BVRound v \<noteq> PLRound p then Some ErrPolVoteMismatch
      else if BVType v \<noteq> VotePreVote \<and> BVType v \<noteq> [] then Some ErrPolNotPrevote
      else vote_shape_error p vs)"

definition IngestPrevoteLockProof ::
    "string list \<Rightarrow> clock \<Rightarrow> PrevoteLockProof option \<Rightarrow> PolFollower \<Rightarrow> pol_error option \<times> PolFollower" where
  "IngestPrevoteLockProof vo clk po f =
     (case po of None \<Rightarrow> (Some ErrPolNilInput, f)
      | Some p \<Rightarrow>
          if PLHeight p = 0 \<or> PLLockedBlockHash p = [] then (Some ErrPolInvalidFields, f)
          else if Prevotes p = [] then (Some ErrPolEmptyPrevotes, f)
          else case vote_shape_error p (Prevotes p) of
            Some e \<Rightarrow> (Some e, f)
          | None \<Rightarrow>
              let all_stake = totalActiveStake vo (clk 0) f
              in if fle all_stake fzero then (Some ErrPolNoStake, f)
                 else let stake = prevoteStakeForLocked p f; need = fmul all_stake (quorumFrac f)
                 in if fless stake need then (Some (ErrPolInsufficientStake stake need all_stake), f)
                 else case fmlookup (lockByHeight f) (PLHeight p) of
                   Some prev \<Rightarrow>
                     if PLRound prev > PLRound p then (Some (ErrPolStaleRound (PLRound p) (PLRound prev)), f)
                     else (None, observe (PLHeight p) (f\<lparr>lockByHeight := fmupd (PLHeight p) p (lockByHeight f)\<rparr>))
                 | None \<Rightarrow>
                     (None, observe (PLHeight p) (f\<lparr>lockByHeight := fmupd (PLHeight p) p (lockByHeight f)\<rparr>)))"

fun membership_error :: "ValidatorSet \<Rightarrow> string list \<Rightarrow> pol_error option" where
  "membership_error vs [] = None"
| "membership_error vs (a # as) =
     (case GetValidator a vs of
        None \<Rightarrow> Some (ErrPolUnknownValidator a)
      | Some v \<Rightarrow> if VStatus v = ValidatorExited then Some (ErrPolExitedValidator a) else membership_error vs as)"

definition IngestRoundCertificate ::
    "RoundCertificate option \<Rightarrow> PolFollower \<Rightarrow> pol_error option \<times> PolFollower" where
  "IngestRoundCertificate co f =
     (case co of None \<Rightarrow> (Some ErrPolNilInput, f)
      | Some c \<Rightarrow>
          if RCHeight c = 0 \<or> CommitDigest c = [] then (Some ErrPolInvalidFields, f)
          else if CommitCount c < 1 \<or> RCValidatorSet c = [] then (Some ErrPolMissingCommits, f)
          else case membership_error (pf_vs f) (RCValidatorSet c) of
            Some e \<Rightarrow> (Some e, f)
          | None \<Rightarrow>
              let conflict = f\<lparr>polConflicts := fmupd (RCHeight c) True (polConflicts f)\<rparr>;
                  lr = (case fmlookup (localStateRoot f) (RCHeight c) of None \<Rightarrow> [] | Some r \<Rightarrow> r)
              in if lr \<noteq> [] \<and> RCBlockHash c \<noteq> lr then (Some ErrPolForksLocal, conflict)
                 else if (case fmlookup (certByHeight f) (RCHeight c) of
                            None \<Rightarrow> False | Some ex \<Rightarrow> RCBlockHash ex \<noteq> RCBlockHash c)
                   then (Some (ErrPolConflictingCertificates (RCHeight c)), conflict)
                 else let cp = c\<lparr>RCValidatorSet := go_sort (<) (RCValidatorSet c)\<rparr>
                      in (None, observe (RCHeight c) (f\<lparr>certByHeight := fmupd (RCHeight c) cp (certByHeight f)\<rparr>)))"

definition GetPrevoteLockProof :: "u64 \<Rightarrow> PolFollower \<Rightarrow> PrevoteLockProof option" where
  "GetPrevoteLockProof height f = fmlookup (lockByHeight f) height"

definition GetRoundCertificate :: "u64 \<Rightarrow> PolFollower \<Rightarrow> RoundCertificate option" where
  "GetRoundCertificate height f = fmlookup (certByHeight f) height"

definition capped_heights :: "int \<Rightarrow> u64 list \<Rightarrow> u64 list" where
  "capped_heights max_n hs =
     (let m = (if max_n \<le> 0 then 256 else nat max_n)
      in if length hs > m then drop (length hs - m) hs else hs)"

definition LockHeights :: "int \<Rightarrow> PolFollower \<Rightarrow> u64 list" where
  "LockHeights max_n f = capped_heights max_n (sorted_keys (lockByHeight f))"

definition CertHeights :: "int \<Rightarrow> PolFollower \<Rightarrow> u64 list" where
  "CertHeights max_n f = capped_heights max_n (sorted_keys (certByHeight f))"

section \<open>What the follower does not check\<close>

lemma total_active_exact:
  assumes ok: "voting_ok now vo (pf_vs f)"
  obtains t where "totalActiveStake vo now f = f_int t" "t \<le> 2 ^ 50"
    and "\<And>a v. GetValidator a (pf_vs f) = Some v \<Longrightarrow> VStatus v = ValidatorActive \<Longrightarrow> weight now (pf_vs f) a \<le> t"
proof -
  let ?A = "filter (\<lambda>v. VStatus v = ValidatorActive) (ActiveValidators vo now (pf_vs f))"
  let ?w = "weight now (pf_vs f) \<circ> VAddress"
  have "sum_list (map ?w ?A) \<le> sum_list (map ?w (ActiveValidators vo now (pf_vs f)))"
    by (rule sum_list_filter_le_nat)
  then have bound: "sum_list (map ?w ?A) \<le> 2 ^ 50"
    using active_weight_sum [OF ok] voting_okD(6) [OF ok] by simp
  have "foldl (\<lambda>t v. fadd t (Stake v)) (f_int 0) ?A = f_int (0 + sum_list (map ?w ?A))"
    using bound active_stake [OF ok] by (intro foldl_fadd_f_int) auto
  then have "totalActiveStake vo now f = f_int (sum_list (map ?w ?A))"
    by (simp add: totalActiveStake_def foldl_filter_fadd fzero_f_int)
  moreover have "weight now (pf_vs f) a \<le> sum_list (map ?w ?A)"
    if "GetValidator a (pf_vs f) = Some v" "VStatus v = ValidatorActive" for a v
  proof -
    have "VAddress v = a" using voting_okD(4) [OF ok] that(1) by (simp add: GetValidator_def)
    then have "v \<in> set ?A"
      using active_iff [OF ok, of v] that by (simp add: GetValidator_def is_electable_def)
    then show ?thesis using member_le_sum_list [of "?w v" "map ?w ?A"] \<open>VAddress v = a\<close> by force
  qed
  ultimately show ?thesis using bound that by blast
qed

definition repeated_proof :: "u64 \<Rightarrow> u32 \<Rightarrow> string \<Rightarrow> string \<Rightarrow> nat \<Rightarrow> PrevoteLockProof" where
  "repeated_proof h r b a n =
     \<lparr>PLHeight = h, PLRound = r, PLLockedBlockHash = b, CarriedFromLock = [],
      Prevotes = replicate n \<lparr>BVValidator = a, BVBlockHash = b, BVHeight = h, BVRound = r,
                              BVType = VotePreVote, BVTimestamp = 0\<rparr>\<rparr>"

lemma repeated_proof_shape: "vote_shape_error (repeated_proof h r b a n) (Prevotes (repeated_proof h r b a n)) = None"
proof -
  have "vote_shape_error (repeated_proof h r b a n) (replicate k \<lparr>BVValidator = a, BVBlockHash = b, BVHeight = h,
      BVRound = r, BVType = VotePreVote, BVTimestamp = 0\<rparr>) = None" for k
    by (induction k) (simp_all add: repeated_proof_def)
  then show ?thesis by (simp add: repeated_proof_def)
qed

lemma repeated_proof_stake:
  assumes "GetValidator a (pf_vs f) = Some v" "VStatus v = ValidatorActive" "Stake v = f_int w" "n * w \<le> 2 ^ 53"
  shows "prevoteStakeForLocked (repeated_proof h r b a n) f = f_int (n * w)"
proof -
  let ?vote = "\<lparr>BVValidator = a, BVBlockHash = b, BVHeight = h, BVRound = r, BVType = VotePreVote, BVTimestamp = 0\<rparr>"
  have "foldl (\<lambda>s x. fadd s (f_int w)) (f_int 0) (replicate n ?vote) = f_int (0 + sum_list (map (\<lambda>_. w) (replicate n ?vote)))"
    using assms(4) by (intro foldl_fadd_f_int) (simp_all add: sum_list_replicate)
  moreover have "prevoteStakeForLocked (repeated_proof h r b a n) f =
      foldl (\<lambda>s x. fadd s (f_int w)) (f_int 0) (replicate n ?vote)"
    unfolding prevoteStakeForLocked_def
    by (rule foldl_cong) (use assms(1-3) in \<open>auto simp: repeated_proof_def counted_prevote_def fzero_f_int\<close>)
  ultimately show ?thesis by (simp add: sum_list_replicate)
qed

text \<open>
  A lock proof is not bound to distinct voters: the follower sums the stake of every prevote in the
  list without checking that a validator appears once, so one active validator with any stake gets a
  lock proof accepted for a hash and round of its choice by repeating its own prevote.
\<close>

theorem one_validator_forges_a_lock:
  assumes "voting_ok (clk 0) vo (pf_vs f)" "quorumFrac f = f64_ratio 2 3"
    and "GetValidator a (pf_vs f) = Some v" "VStatus v = ValidatorActive" "Stake v = f_int w" "0 < w"
    and "h \<noteq> 0" "b \<noteq> []" "GetPrevoteLockProof h f = None"
  shows "\<exists>n. fst (IngestPrevoteLockProof vo clk (Some (repeated_proof h r b a n)) f) = None"
proof -
  obtain t where t: "totalActiveStake vo (clk 0) f = f_int t" "t \<le> 2 ^ 50"
      "weight (clk 0) (pf_vs f) a \<le> t"
    using total_active_exact [OF assms(1)] assms(3,4) by metis
  have w: "w \<le> t"
    using t(3) assms(3-5) by (simp add: weight_def GetValidator_def is_electable_def)
  define n where "n = 2 * t div (3 * w) + 1"
  have "2 * t < n * (3 * w)"
    using assms(6) dividend_less_div_times [of "3 * w" "2 * t"] by (simp add: n_def algebra_simps)
  moreover have "n * (3 * w) \<le> 2 * t + 3 * w"
    using div_times_less_eq_dividend [of "2 * t" "3 * w"] by (simp add: n_def algebra_simps)
  ultimately have "2 * t < 3 * (n * w)" "3 * (n * w) \<le> 2 * t + 3 * w" by (simp_all only: ac_simps)
  then have n: "2 * t \<le> 3 * (n * w)" "n * w < 2 ^ 51" using w t(2) by (linarith, simp)
  have "0 < n" by (simp add: n_def)
  have stake: "prevoteStakeForLocked (repeated_proof h r b a n) f = f_int (n * w)"
    using n(2) by (intro repeated_proof_stake [OF assms(3-5)]) simp
  have "fle (fmul (f_int t) (f64_ratio 2 3)) (f_int (n * w))" using threshold_exact [OF t(2) n(2)] n(1) by simp
  then have enough: "\<not> fless (f_int (n * w)) (fmul (f_int t) (quorumFrac f))"
    unfolding assms(2) by (metis fless_asym fle_def feq_not_fless)
  have "Prevotes (repeated_proof h r b a n) \<noteq> []" using \<open>0 < n\<close> by (simp add: repeated_proof_def)
  then show ?thesis
    using assms(6-9) w t(1) stake enough repeated_proof_shape [of h r b a n]
    by (intro exI [of _ n])
      (simp add: IngestPrevoteLockProof_def repeated_proof_def GetPrevoteLockProof_def fzero_f_int Let_def)
qed

definition example_follower :: PolFollower where
  "example_follower =
     \<lparr>pf_vs = example_set, quorumFrac = f64_ratio 2 3, lockByHeight = fmempty, certByHeight = fmempty,
      maxObserved = 0, retention = defaultPolFollowerRetention, anchorFinality = True,
      localStateRoot = fmupd 1 ''root'' fmempty, localPolPublished = fmempty, polConflicts = fmempty\<rparr>"

lemma example_follower_simps [simp]:
  "pf_vs example_follower = example_set" "anchorFinality example_follower"
  "fmlookup (localStateRoot example_follower) 1 = Some ''root''"
  "GetValidator ''a'' example_set = Some (example_validator ''a'' 5)"
  "VStatus (example_validator x y) = ValidatorActive" "Stake (example_validator x y) = f_int 200"
  by (simp_all add: example_follower_def GetValidator_def example_set_def example_validator_def)

theorem one_validator_forges_a_lock_witness:
  "\<exists>n. fst (IngestPrevoteLockProof [''a'', ''b''] (\<lambda>_. 9)
     (Some (repeated_proof 5 0 ''forged'' ''a'' n)) example_follower) = None"
proof (rule one_validator_forges_a_lock)
  show "voting_ok ((\<lambda>_. 9) 0) [''a'', ''b''] (pf_vs example_follower)" by (simp add: example_voting_ok)
  show "quorumFrac example_follower = f64_ratio 2 3" by (simp add: example_follower_def)
  show "GetValidator ''a'' (pf_vs example_follower) = Some (example_validator ''a'' 5)" by simp
  show "Stake (example_validator ''a'' 5) = f_int 200" "0 < (200 :: nat)" by simp_all
  show "GetPrevoteLockProof 5 example_follower = None" by (simp add: GetPrevoteLockProof_def example_follower_def)
qed simp_all

section \<open>Conflicts\<close>

inductive pf_step :: "PolFollower \<Rightarrow> PolFollower \<Rightarrow> bool" where
  anchor: "pf_step f (SetAnchorFinality b f)"
| sealed: "pf_step f (RecordLocalSealedBlock h r f)"
| published: "pf_step f (MarkLocalRoundCertificatePublished h f)"
| ingest_lock: "pf_step f (snd (IngestPrevoteLockProof vo clk p f))"
| ingest_cert: "pf_step f (snd (IngestRoundCertificate c f))"

definition kept_height :: "u64 \<Rightarrow> PolFollower \<Rightarrow> bool" where
  "kept_height h f \<longleftrightarrow> retention f = 0 \<or> maxObserved f \<le> retention f \<or> maxObserved f - retention f \<le> h"

lemma observe_conflict:
  "map_flag (polConflicts f) h \<Longrightarrow> kept_height h (observe k f) \<Longrightarrow> map_flag (polConflicts (observe k f)) h"
  by (auto simp: observe_def pruneLocked_def kept_height_def map_flag_def Let_def split: if_splits)

lemma observe_grows:
  "retention (observe k f) = retention f \<and> maxObserved f \<le> maxObserved (observe k f)"
  by (auto simp: observe_def pruneLocked_def Let_def)

lemma kept_mono:
  assumes "kept_height h f'" "retention f' = retention f" "maxObserved f \<le> maxObserved f'"
  shows "kept_height h f"
proof (cases "retention f = 0 \<or> maxObserved f \<le> retention f")
  case False
  then have "maxObserved f - retention f \<le> maxObserved f' - retention f"
    using assms(3) by (simp add: word_le_nat_alt unat_sub_if' not_le word_less_nat_alt)
  moreover have "maxObserved f' - retention f \<le> h" using assms False by (auto simp: kept_height_def)
  ultimately have "maxObserved f - retention f \<le> h" by (rule order_trans)
  then show ?thesis by (simp add: kept_height_def)
qed (auto simp: kept_height_def)

lemma pf_step_conflict:
  assumes "pf_step f f'"
  shows "retention f' = retention f \<and> maxObserved f \<le> maxObserved f' \<and>
    (map_flag (polConflicts f) h \<and> kept_height h f' \<longrightarrow> map_flag (polConflicts f') h)"
  using assms
proof (cases rule: pf_step.cases)
  case (ingest_lock vo clk p)
  let ?p = "the p"
  have "f' = f \<or> f' = observe (PLHeight ?p) (f\<lparr>lockByHeight := fmupd (PLHeight ?p) ?p (lockByHeight f)\<rparr>)"
    using ingest_lock by (cases p) (simp_all add: IngestPrevoteLockProof_def Let_def split: option.splits if_splits)
  then consider (same) "f' = f" | (stored) k m where "f' = observe k (f\<lparr>lockByHeight := m\<rparr>)" by blast
  then show ?thesis
  proof cases
    case (stored k m)
    then show ?thesis
      using observe_grows [of k "f\<lparr>lockByHeight := m\<rparr>"] observe_conflict [of "f\<lparr>lockByHeight := m\<rparr>" h k] by simp
  qed simp
next
  case (ingest_cert c)
  let ?c = "the c"
  have "f' = f \<or> f' = f\<lparr>polConflicts := fmupd (RCHeight ?c) True (polConflicts f)\<rparr> \<or>
    f' = observe (RCHeight ?c) (f\<lparr>certByHeight := fmupd (RCHeight ?c)
      (?c\<lparr>RCValidatorSet := go_sort (<) (RCValidatorSet ?c)\<rparr>) (certByHeight f)\<rparr>)"
    using ingest_cert by (cases c) (simp_all add: IngestRoundCertificate_def Let_def split: option.splits if_splits)
  then consider (same) "f' = f" | (conflict) k where "f' = f\<lparr>polConflicts := fmupd k True (polConflicts f)\<rparr>"
    | (stored) k m where "f' = observe k (f\<lparr>certByHeight := m\<rparr>)" by blast
  then show ?thesis
  proof cases
    case (stored k m)
    then show ?thesis
      using observe_grows [of k "f\<lparr>certByHeight := m\<rparr>"] observe_conflict [of "f\<lparr>certByHeight := m\<rparr>" h k] by simp
  qed (auto simp: map_flag_def)
qed (auto simp: SetAnchorFinality_def RecordLocalSealedBlock_def MarkLocalRoundCertificatePublished_def)

lemma conflict_persists:
  assumes "pf_step\<^sup>*\<^sup>* f f'" "map_flag (polConflicts f) h" "kept_height h f'"
  shows "map_flag (polConflicts f') h"
  using assms
proof (induction rule: rtranclp_induct)
  case (step y z)
  then have "kept_height h y" using kept_mono pf_step_conflict by blast
  then show ?case using step pf_step_conflict by blast
qed simp

text \<open>
  A round certificate is believed without its votes: the follower checks that the named validators
  are registered, not that they signed. For a height this node sealed, any certificate that names
  registered validators and another hash is refused as a fork and still marks the height as
  conflicting; with anchoring on, no block can then be sealed on top of that height and the height
  cannot be finalised, whatever is ingested later, until the height is pruned.
\<close>

theorem foreign_certificate_blocks_extension:
  assumes "fmlookup (localStateRoot f) (RCHeight c) = Some sr" "sr \<noteq> []" "RCBlockHash c \<noteq> sr"
    and "RCHeight c \<noteq> 0" "CommitDigest c \<noteq> []" "1 \<le> CommitCount c" "RCValidatorSet c \<noteq> []"
    and "membership_error (pf_vs f) (RCValidatorSet c) = None"
    and "pf_step\<^sup>*\<^sup>* (snd (IngestRoundCertificate (Some c) f)) f'" "kept_height (RCHeight c) f'" "anchorFinality f'"
  shows "fst (IngestRoundCertificate (Some c) f) = Some ErrPolForksLocal \<and>
    \<not> CanExtendFromTip (RCHeight c) tipRoot f' \<and> \<not> AllowFinalize (RCHeight c) tipRoot f'"
proof -
  have res: "IngestRoundCertificate (Some c) f =
      (Some ErrPolForksLocal, f\<lparr>polConflicts := fmupd (RCHeight c) True (polConflicts f)\<rparr>)"
    using assms(1-8) by (simp add: IngestRoundCertificate_def Let_def)
  have "map_flag (polConflicts f') (RCHeight c)"
    using conflict_persists [OF assms(9) _ assms(10)] by (simp add: res map_flag_def)
  then show ?thesis
    using assms(11) res by (simp add: CanExtendFromTip_def AllowFinalize_def allowFinalizeCoreLocked_def)
qed

definition foreign_certificate :: RoundCertificate where
  "foreign_certificate =
     \<lparr>RCHeight = 1, RCRound = 0, RCProposer = ''a'', RCBlockHash = ''other'', CommitDigest = ''00'',
      RCValidatorSet = [''a''], CommitCount = 1, NilCommitCount = 0\<rparr>"

theorem foreign_certificate_blocks_extension_witness:
  "\<not> CanExtendFromTip 1 ''root'' (snd (IngestRoundCertificate (Some foreign_certificate) example_follower))"
  using foreign_certificate_blocks_extension [of example_follower foreign_certificate "''root''"
      "snd (IngestRoundCertificate (Some foreign_certificate) example_follower)" "''root''"]
  by (simp add: foreign_certificate_def IngestRoundCertificate_def Let_def kept_height_def)
    (simp add: example_follower_def)

end
