(* ===== verification/Transactions.thy ===== *)
theory Transactions
  imports Float64 Sha256
begin

text \<open>
  The transaction type of \<open>pkg/mempool\<close>, shared by the pool and the state appliers. \<open>AddedAt\<close> is the
  admission time in nanoseconds, 0 for Go's zero time.
\<close>

record Tx =
  TxID :: string
  Sender :: string
  Recipient :: string
  Amount :: f64
  Fee :: f64
  GasLimit :: u64
  TxNonce :: u64
  Payload :: bytes
  TxContractID :: string
  Signature :: string
  PublicKey :: string
  AddedAt :: go_time

definition transfer :: "string \<Rightarrow> string \<Rightarrow> f64 \<Rightarrow> f64 \<Rightarrow> u64 \<Rightarrow> Tx" where
  "transfer src dst amount fee nonce =
     \<lparr>TxID = [], Sender = src, Recipient = dst, Amount = amount, Fee = fee, GasLimit = 0, TxNonce = nonce,
      Payload = [], TxContractID = [], Signature = [], PublicKey = [], AddedAt = 0\<rparr>"

lemma transfer_simps [simp]:
  "Sender (transfer src dst amount fee nonce) = src" "Recipient (transfer src dst amount fee nonce) = dst"
  "Amount (transfer src dst amount fee nonce) = amount" "Fee (transfer src dst amount fee nonce) = fee"
  "TxNonce (transfer src dst amount fee nonce) = nonce"
  by (simp_all add: transfer_def)

end
