(* ===== verification/Accounts.thy ===== *)
theory Accounts
  imports Transactions
begin

text \<open>
  \<open>pkg/chain/account.go\<close>: balances and nonces. The store is a finite map from addresses to accounts;
  the mutex makes every operation atomic. An operation that can fail returns the error, if any,
  together with the store it leaves behind, so that "unchanged on error" is a statement about the
  code's order of checks and writes. Balances are \<open>float64\<close> values. Persistence (\<open>Save\<close>, \<open>Load\<close>) is
  file I/O and is not modelled.
\<close>

record Account =
  Address :: string
  Balance :: f64
  Nonce :: u64

type_synonym AccountStore = "(string, Account) fmap"

datatype account_error =
  ErrAmountNotPositive | ErrAmountNegative | ErrSenderNotFound | ErrNonceMismatch u64 u64
| ErrInsufficient | ErrAccountNotFound | ErrNilTx | ErrLiquidReward | ErrReplaySnapshot

type_synonym account_result = "account_error option \<times> AccountStore"

definition new_account :: "string \<Rightarrow> Account" where
  "new_account a = \<lparr>Address = a, Balance = fzero, Nonce = 0\<rparr>"

definition NewAccountStore :: AccountStore where
  "NewAccountStore = fmempty"

definition GetOrCreate :: "string \<Rightarrow> AccountStore \<Rightarrow> Account \<times> AccountStore" where
  "GetOrCreate a as =
     (case fmlookup as a of
        Some acc \<Rightarrow> (acc, as)
      | None \<Rightarrow> (new_account a, fmupd a (new_account a) as))"

definition Get :: "string \<Rightarrow> AccountStore \<Rightarrow> Account option" where
  "Get a as = fmlookup as a"

definition ChargeAndBumpNonce :: "string \<Rightarrow> f64 \<Rightarrow> u64 \<Rightarrow> AccountStore \<Rightarrow> account_result" where
  "ChargeAndBumpNonce sender amount expectedNonce as =
     (if fless amount fzero then (Some ErrAmountNegative, as)
      else case fmlookup as sender of
        None \<Rightarrow> (Some ErrSenderNotFound, as)
      | Some acc \<Rightarrow>
          if Nonce acc \<noteq> expectedNonce then (Some (ErrNonceMismatch (Nonce acc) expectedNonce), as)
          else if fless (Balance acc) amount then (Some ErrInsufficient, as)
          else (None, fmupd sender (acc\<lparr>Balance := fsub (Balance acc) amount, Nonce := Nonce acc + 1\<rparr>) as))"

definition DebitAndBumpNonce :: "string \<Rightarrow> f64 \<Rightarrow> u64 \<Rightarrow> AccountStore \<Rightarrow> account_result" where
  "DebitAndBumpNonce sender amount expectedNonce as =
     (if fle amount fzero then (Some ErrAmountNotPositive, as)
      else ChargeAndBumpNonce sender amount expectedNonce as)"

definition ChargeAndBumpNonceAllowCreate :: "string \<Rightarrow> f64 \<Rightarrow> u64 \<Rightarrow> AccountStore \<Rightarrow> account_result" where
  "ChargeAndBumpNonceAllowCreate sender amount expectedNonce as =
     (if fless amount fzero then (Some ErrAmountNegative, as)
      else if fmlookup as sender = None \<and> (\<not> feq amount fzero \<or> expectedNonce \<noteq> 0)
        then (Some ErrSenderNotFound, as)
      else
        let as = (case fmlookup as sender of None \<Rightarrow> fmupd sender (new_account sender) as | Some _ \<Rightarrow> as);
            acc = the (fmlookup as sender)
        in if Nonce acc \<noteq> expectedNonce then (Some (ErrNonceMismatch (Nonce acc) expectedNonce), as)
           else if fless (Balance acc) amount then (Some ErrInsufficient, as)
           else (None, fmupd sender (acc\<lparr>Balance := fsub (Balance acc) amount, Nonce := Nonce acc + 1\<rparr>) as))"

definition Credit :: "string \<Rightarrow> f64 \<Rightarrow> AccountStore \<Rightarrow> AccountStore" where
  "Credit a amount as =
     (let acc = (case fmlookup as a of None \<Rightarrow> new_account a | Some acc \<Rightarrow> acc)
      in fmupd a (acc\<lparr>Balance := fadd (Balance acc) amount\<rparr>) as)"

text \<open>The common part of a transfer: the checks on the sender and the debit.\<close>

definition debit_sender :: "Tx \<Rightarrow> AccountStore \<Rightarrow> account_result" where
  "debit_sender tx as =
     (case fmlookup as (Sender tx) of
        None \<Rightarrow> (Some ErrSenderNotFound, as)
      | Some acc \<Rightarrow>
          if TxNonce tx \<noteq> Nonce acc then (Some (ErrNonceMismatch (Nonce acc) (TxNonce tx)), as)
          else let total = fadd (Amount tx) (Fee tx)
               in if fless (Balance acc) total then (Some ErrInsufficient, as)
                  else (None, fmupd (Sender tx)
                          (acc\<lparr>Balance := fsub (Balance acc) total, Nonce := Nonce acc + 1\<rparr>) as))"

definition ApplyProtocolReward :: "Tx option \<Rightarrow> f64 \<Rightarrow> AccountStore \<Rightarrow> account_result" where
  "ApplyProtocolReward txo liquidAmount as =
     (case txo of None \<Rightarrow> (Some ErrNilTx, as)
      | Some tx \<Rightarrow>
          if fless liquidAmount fzero \<or> fless (Amount tx) liquidAmount then (Some ErrLiquidReward, as)
          else case debit_sender tx as of
            (Some e, as) \<Rightarrow> (Some e, as)
          | (None, as) \<Rightarrow>
              if fless fzero liquidAmount then (None, Credit (Recipient tx) liquidAmount as) else (None, as))"

definition Debit :: "string \<Rightarrow> f64 \<Rightarrow> AccountStore \<Rightarrow> account_result" where
  "Debit a amount as =
     (if fle amount fzero then (Some ErrAmountNotPositive, as)
      else case fmlookup as a of
        None \<Rightarrow> (Some ErrAccountNotFound, as)
      | Some acc \<Rightarrow>
          if fless (Balance acc) amount then (Some ErrInsufficient, as)
          else (None, fmupd a (acc\<lparr>Balance := fsub (Balance acc) amount\<rparr>) as))"

definition ApplyTx :: "Tx \<Rightarrow> AccountStore \<Rightarrow> account_result" where
  "ApplyTx tx as =
     (case debit_sender tx as of
        (Some e, as) \<Rightarrow> (Some e, as)
      | (None, as) \<Rightarrow> (None, Credit (Recipient tx) (Amount tx) as))"

definition Accounts_Clone :: "AccountStore \<Rightarrow> AccountStore" where
  "Accounts_Clone as = as"

definition Accounts_RestoreFrom :: "AccountStore \<Rightarrow> AccountStore \<Rightarrow> AccountStore" where
  "Accounts_RestoreFrom snap as = Accounts_Clone snap"

text \<open>Replay snapshots: a snapshot that is not an account store, or nil, is \<open>None\<close>.\<close>

definition Accounts_RestoreFromChainReplay :: "AccountStore option \<Rightarrow> AccountStore \<Rightarrow> account_result" where
  "Accounts_RestoreFromChainReplay from as =
     (case from of None \<Rightarrow> (Some ErrReplaySnapshot, as)
      | Some other \<Rightarrow> (None, Accounts_RestoreFrom other as))"

definition account_line :: "Account \<Rightarrow> string" where
  "account_line acc = Address acc @ '':'' @ show_f6 (Balance acc) @ '':'' @ show_nat (unat (Nonce acc)) @ '';''"

definition root_text :: "AccountStore \<Rightarrow> string" where
  "root_text as = concat (map (\<lambda>a. account_line (the (fmlookup as a))) (sorted_keys as))"

definition StateRoot :: "AccountStore \<Rightarrow> string" where
  "StateRoot as = sha256_hex (root_text as)"

text \<open>
  \<open>AllAccounts\<close> sorts the accounts by their address field. In a store whose keys are the address
  fields (\<open>keyed\<close> below) that is the order of the keys.
\<close>

definition AllAccounts :: "AccountStore \<Rightarrow> Account list" where
  "AllAccounts as = sort_key Address (map (\<lambda>a. the (fmlookup as a)) (sorted_keys as))"

definition Count :: "AccountStore \<Rightarrow> nat" where
  "Count as = map_len as"

section \<open>Lemmas\<close>

lemmas account_ops = ChargeAndBumpNonce_def DebitAndBumpNonce_def ChargeAndBumpNonceAllowCreate_def
  ApplyProtocolReward_def Debit_def ApplyTx_def debit_sender_def

lemma debit_sender_error: "fst (debit_sender tx as) \<noteq> None \<Longrightarrow> snd (debit_sender tx as) = as"
  by (auto simp: debit_sender_def Let_def split: option.splits if_splits)

lemma ApplyTx_error: "fst (ApplyTx tx as) \<noteq> None \<Longrightarrow> snd (ApplyTx tx as) = as"
  using debit_sender_error [of tx as] by (auto simp: ApplyTx_def split: prod.splits option.splits)

lemma ApplyProtocolReward_error:
  "fst (ApplyProtocolReward (Some tx) x as) \<noteq> None \<Longrightarrow> snd (ApplyProtocolReward (Some tx) x as) = as"
  using debit_sender_error [of tx as]
  by (auto simp: ApplyProtocolReward_def split: prod.splits option.splits if_splits)

lemma charge_error:
  "fst (ChargeAndBumpNonce a x n as) \<noteq> None \<Longrightarrow> snd (ChargeAndBumpNonce a x n as) = as"
  "fst (DebitAndBumpNonce a x n as) \<noteq> None \<Longrightarrow> snd (DebitAndBumpNonce a x n as) = as"
  "fst (Debit a x as) \<noteq> None \<Longrightarrow> snd (Debit a x as) = as"
  by (auto simp: ChargeAndBumpNonce_def DebitAndBumpNonce_def Debit_def split: option.splits if_splits)

text \<open>A created account can always pay the zero charge it was created for.\<close>

lemma charge_create_error:
  "fst (ChargeAndBumpNonceAllowCreate a x n as) \<noteq> None \<Longrightarrow> snd (ChargeAndBumpNonceAllowCreate a x n as) = as"
proof (cases "fmlookup as a")
  case None
  have "\<not> fless fzero x" if "feq x fzero" using that by (cases x) (auto simp: fzero_def)
  moreover assume "fst (ChargeAndBumpNonceAllowCreate a x n as) \<noteq> None"
  ultimately show ?thesis
    using None by (auto simp: ChargeAndBumpNonceAllowCreate_def Let_def new_account_def split: if_splits)
qed (auto simp: ChargeAndBumpNonceAllowCreate_def Let_def split: if_splits)

lemma debit_sender_ok:
  assumes "debit_sender tx as = (None, as')"
  obtains acc where "fmlookup as (Sender tx) = Some acc" "TxNonce tx = Nonce acc"
    "\<not> fless (Balance acc) (fadd (Amount tx) (Fee tx))"
    "as' = fmupd (Sender tx)
       (acc\<lparr>Balance := fsub (Balance acc) (fadd (Amount tx) (Fee tx)), Nonce := Nonce acc + 1\<rparr>) as"
  using assms by (auto simp: debit_sender_def Let_def split: option.splits if_splits)

lemma fmlookup_Credit:
  "fmlookup (Credit a x as) b =
     (if a = b then Some ((case fmlookup as a of None \<Rightarrow> new_account a | Some acc \<Rightarrow> acc)
        \<lparr>Balance := fadd (Balance (case fmlookup as a of None \<Rightarrow> new_account a | Some acc \<Rightarrow> acc)) x\<rparr>)
      else fmlookup as b)"
  by (simp add: Credit_def Let_def)

section \<open>Invariants\<close>

text \<open>Every key is the address field of its account, and no balance is negative or NaN.\<close>

definition keyed :: "AccountStore \<Rightarrow> bool" where
  "keyed as \<longleftrightarrow> (\<forall>a acc. fmlookup as a = Some acc \<longrightarrow> Address acc = a)"

definition solvent :: "AccountStore \<Rightarrow> bool" where
  "solvent as \<longleftrightarrow> (\<forall>a acc. fmlookup as a = Some acc \<longrightarrow> f_nonneg (Balance acc))"

lemma solvent_upd: "solvent as \<Longrightarrow> f_nonneg (Balance acc) \<Longrightarrow> solvent (fmupd a acc as)"
  by (simp add: solvent_def)

lemma new_account_simps [simp]:
  "Address (new_account a) = a" "Balance (new_account a) = fzero" "Nonce (new_account a) = 0"
  "f_nonneg fzero"
  by (simp_all add: new_account_def fzero_def)

lemma Credit_solvent [inv_intros]: "solvent as \<Longrightarrow> f_nonneg x \<Longrightarrow> solvent (Credit a x as)"
  unfolding Credit_def Let_def
  by (intro solvent_upd) (auto simp: solvent_def intro!: fadd_nonneg split: option.splits)

text \<open>
  Amounts a caller may pass: finite and not negative. The sum of amount and fee has to be finite
  too, since an infinite total against an infinite balance would leave NaN.
\<close>

definition f_amount :: "f64 \<Rightarrow> bool" where
  "f_amount x \<longleftrightarrow> is_fin x \<and> f_nonneg x"

definition tx_amounts :: "Tx \<Rightarrow> bool" where
  "tx_amounts tx \<longleftrightarrow> f_amount (Amount tx) \<and> f_amount (Fee tx) \<and> is_fin (fadd (Amount tx) (Fee tx))"

lemma fsub_amount_nonneg:
  assumes "f_nonneg b" "\<not> fless b x" "f_amount x"
  shows "f_nonneg (fsub b x)"
proof (cases "is_fin b")
  case True
  moreover have "fle x b" using assms not_fless_iff [of b x] by (cases b; cases x) (auto simp: f_amount_def)
  ultimately show ?thesis using assms(3) by (intro fsub_nonneg) (auto simp: f_amount_def)
next
  case False
  then show ?thesis using assms by (cases b; cases x) (auto simp: f_amount_def fsub_def fadd_def)
qed

lemma charge_solvent:
  assumes "solvent as" "fmlookup as a = Some acc" "\<not> fless (Balance acc) x" "f_amount x"
  shows "solvent (fmupd a (acc\<lparr>Balance := fsub (Balance acc) x, Nonce := n\<rparr>) as)"
    and "solvent (fmupd a (acc\<lparr>Balance := fsub (Balance acc) x\<rparr>) as)"
  using assms by (auto intro!: solvent_upd fsub_amount_nonneg simp: solvent_def)

lemma ChargeAndBumpNonce_solvent [inv_intros]:
  "solvent as \<Longrightarrow> f_amount x \<Longrightarrow> solvent (snd (ChargeAndBumpNonce a x n as))"
  by (auto simp: ChargeAndBumpNonce_def charge_solvent split: option.splits)

lemma DebitAndBumpNonce_solvent [inv_intros]:
  "solvent as \<Longrightarrow> f_amount x \<Longrightarrow> solvent (snd (DebitAndBumpNonce a x n as))"
  by (simp add: DebitAndBumpNonce_def ChargeAndBumpNonce_solvent)

lemma ChargeAllowCreate_solvent [inv_intros]:
  assumes "solvent as" "f_amount x"
  shows "solvent (snd (ChargeAndBumpNonceAllowCreate a x n as))"
proof -
  define as' where "as' = (case fmlookup as a of None \<Rightarrow> fmupd a (new_account a) as | Some _ \<Rightarrow> as)"
  have s: "solvent as'" using assms(1) by (auto simp: as'_def intro!: solvent_upd split: option.splits)
  have "fmlookup as' a \<noteq> None" by (simp add: as'_def split: option.splits)
  then obtain acc where "fmlookup as' a = Some acc" by blast
  then show ?thesis
    using s assms charge_solvent(1) [OF s]
    by (simp add: ChargeAndBumpNonceAllowCreate_def as'_def [symmetric] Let_def)
qed

lemma Debit_solvent [inv_intros]: "solvent as \<Longrightarrow> f_amount x \<Longrightarrow> solvent (snd (Debit a x as))"
  by (auto simp: Debit_def charge_solvent split: option.splits)

lemma debit_sender_solvent:
  assumes "solvent as" "tx_amounts tx"
  shows "solvent (snd (debit_sender tx as))"
proof -
  have "f_amount (fadd (Amount tx) (Fee tx))"
    using assms(2) by (auto simp: tx_amounts_def f_amount_def fadd_nonneg)
  then show ?thesis using assms(1) by (auto simp: debit_sender_def Let_def charge_solvent split: option.splits)
qed

lemma ApplyTx_solvent [inv_intros]: "solvent as \<Longrightarrow> tx_amounts tx \<Longrightarrow> solvent (snd (ApplyTx tx as))"
  using debit_sender_solvent [of as tx]
  by (auto simp: ApplyTx_def tx_amounts_def f_amount_def intro!: Credit_solvent split: prod.splits option.splits)

lemma ApplyProtocolReward_solvent [inv_intros]:
  assumes "solvent as" "tx_amounts tx"
  shows "solvent (snd (ApplyProtocolReward (Some tx) x as))"
proof -
  have "f_nonneg x" if "fless fzero x" using that by (simp add: f_nonneg_def fle_def)
  then show ?thesis
    using debit_sender_solvent [OF assms] assms
    by (auto simp: ApplyProtocolReward_def intro!: Credit_solvent split: prod.splits option.splits)
qed

text \<open>
  The mutating operations of the account store as data, with any amount the code takes; \<open>op_amounts\<close>
  says that the amounts of an operation are finite and not negative (for a transaction their sum is
  finite too) and that a restored snapshot is solvent.
\<close>

datatype account_op =
  GetOrCreateOp string
| ChargeOp string f64 u64
| DebitBumpOp string f64 u64
| ChargeCreateOp string f64 u64
| DebitOp string f64
| CreditOp string f64
| RewardOp "Tx option" f64
| ApplyOp Tx
| RestoreOp "AccountStore option"

fun account_step :: "account_op \<Rightarrow> AccountStore \<Rightarrow> AccountStore" where
  "account_step (GetOrCreateOp a) as = snd (GetOrCreate a as)"
| "account_step (ChargeOp a x n) as = snd (ChargeAndBumpNonce a x n as)"
| "account_step (DebitBumpOp a x n) as = snd (DebitAndBumpNonce a x n as)"
| "account_step (ChargeCreateOp a x n) as = snd (ChargeAndBumpNonceAllowCreate a x n as)"
| "account_step (DebitOp a x) as = snd (Debit a x as)"
| "account_step (CreditOp a x) as = Credit a x as"
| "account_step (RewardOp tx x) as = snd (ApplyProtocolReward tx x as)"
| "account_step (ApplyOp tx) as = snd (ApplyTx tx as)"
| "account_step (RestoreOp snap) as = snd (Accounts_RestoreFromChainReplay snap as)"

definition run_account_ops :: "account_op list \<Rightarrow> AccountStore \<Rightarrow> AccountStore" where
  "run_account_ops ops as = fold account_step ops as"

fun op_amounts :: "account_op \<Rightarrow> bool" where
  "op_amounts (GetOrCreateOp a) = True"
| "op_amounts (ChargeOp a x n) = f_amount x"
| "op_amounts (DebitBumpOp a x n) = f_amount x"
| "op_amounts (ChargeCreateOp a x n) = f_amount x"
| "op_amounts (DebitOp a x) = f_amount x"
| "op_amounts (CreditOp a x) = f_amount x"
| "op_amounts (RewardOp tx x) = (case tx of None \<Rightarrow> True | Some tx \<Rightarrow> tx_amounts tx)"
| "op_amounts (ApplyOp tx) = tx_amounts tx"
| "op_amounts (RestoreOp snap) = (case snap of None \<Rightarrow> True | Some s \<Rightarrow> solvent s)"

lemma account_step_solvent: "op_amounts op \<Longrightarrow> solvent as \<Longrightarrow> solvent (account_step op as)"
proof (cases op)
  case (GetOrCreateOp a)
  assume "solvent as"
  then show ?thesis by (auto simp: GetOrCreateOp GetOrCreate_def intro: solvent_upd split: option.splits)
next
  case (RewardOp tx x)
  assume "op_amounts op" "solvent as"
  then show ?thesis by (cases tx) (auto simp: RewardOp ApplyProtocolReward_def [of None] intro: inv_intros)
next
  case (RestoreOp snap)
  assume "op_amounts op" "solvent as"
  then show ?thesis
    by (cases snap) (auto simp: RestoreOp Accounts_RestoreFromChainReplay_def Accounts_RestoreFrom_def Accounts_Clone_def)
qed (auto intro: inv_intros Credit_solvent simp: f_amount_def [of "_ :: f64"])

lemma run_account_ops_solvent: "list_all op_amounts ops \<Longrightarrow> solvent as \<Longrightarrow> solvent (run_account_ops ops as)"
  unfolding run_account_ops_def by (induction ops arbitrary: as) (auto intro: account_step_solvent)

section \<open>Nonces\<close>

definition nonce_of :: "string \<Rightarrow> AccountStore \<Rightarrow> u64" where
  "nonce_of a as = (case fmlookup as a of None \<Rightarrow> 0 | Some acc \<Rightarrow> Nonce acc)"

lemma nonce_of_Credit [simp]: "nonce_of b (Credit a x as) = nonce_of b as"
  by (auto simp: nonce_of_def fmlookup_Credit split: option.splits)

lemma nonce_of_debit_sender:
  "nonce_of b (snd (debit_sender tx as)) =
     (if fst (debit_sender tx as) = None \<and> b = Sender tx then nonce_of b as + 1 else nonce_of b as)"
  by (auto simp: nonce_of_def debit_sender_def Let_def split: option.splits if_splits)

lemma nonce_of_ApplyTx:
  "nonce_of b (snd (ApplyTx tx as)) =
     (if fst (ApplyTx tx as) = None \<and> b = Sender tx then nonce_of b as + 1 else nonce_of b as)"
  using nonce_of_debit_sender [of b tx as]
  by (auto simp: ApplyTx_def split: prod.splits option.splits)

lemma ApplyTx_ok_nonce: "fst (ApplyTx tx as) = None \<Longrightarrow> nonce_of (Sender tx) as = TxNonce tx"
  by (auto simp: ApplyTx_def debit_sender_def Let_def nonce_of_def split: option.splits if_splits)

definition run_txs :: "Tx list \<Rightarrow> AccountStore \<Rightarrow> AccountStore" where
  "run_txs txs as = fold (\<lambda>tx as. snd (ApplyTx tx as)) txs as"

lemma run_txs_nonce: "\<exists>k \<le> length txs. nonce_of b (run_txs txs as) = nonce_of b as + of_nat k"
proof (induction txs arbitrary: as)
  case (Cons tx txs)
  obtain k where k: "k \<le> length txs"
    "nonce_of b (run_txs txs (snd (ApplyTx tx as))) = nonce_of b (snd (ApplyTx tx as)) + of_nat k"
    using Cons by blast
  show ?case
  proof (cases "fst (ApplyTx tx as) = None \<and> b = Sender tx")
    case True
    then show ?thesis using k by (intro exI [of _ "Suc k"]) (simp add: run_txs_def nonce_of_ApplyTx)
  next
    case False
    then have "nonce_of b (snd (ApplyTx tx as)) = nonce_of b as" by (auto simp: nonce_of_ApplyTx)
    then show ?thesis using k by (intro exI [of _ k]) (simp add: run_txs_def)
  qed
qed (simp add: run_txs_def)

section \<open>Whole-number ledgers\<close>

text \<open>
  A ledger in which every balance is a whole number and the total fits 53 bits: there \<open>float64\<close>
  arithmetic is exact, and the total can be compared before and after.
\<close>

definition money_supply :: "AccountStore \<Rightarrow> nat" where
  "money_supply as = fmap_total (\<lambda>acc. trunc_nat (Balance acc)) as"

definition whole_ledger :: "AccountStore \<Rightarrow> bool" where
  "whole_ledger as \<longleftrightarrow> money_supply as \<le> 2 ^ 53 \<and>
     (\<forall>a acc. fmlookup as a = Some acc \<longrightarrow> Balance acc = f_int (trunc_nat (Balance acc)))"

lemma whole_balance:
  assumes "whole_ledger as" "fmlookup as a = Some acc"
  obtains n where "Balance acc = f_int n" "n \<le> money_supply as" "money_supply as \<le> 9007199254740992"
proof (rule that)
  show "Balance acc = f_int (trunc_nat (Balance acc))" using assms by (simp add: whole_ledger_def)
  show "trunc_nat (Balance acc) \<le> money_supply as"
    unfolding money_supply_def using assms(2) by (rule fmap_total_member)
  show "money_supply as \<le> 9007199254740992" using assms(1) by (simp add: whole_ledger_def)
qed

lemma whole_upd:
  assumes "whole_ledger as" "fmlookup as a = Some acc" "Balance acc' = f_int n'"
    and "money_supply as + n' \<le> 9007199254740992 + trunc_nat (Balance acc)"
  shows "whole_ledger (fmupd a acc' as) \<and> money_supply (fmupd a acc' as) + trunc_nat (Balance acc) = money_supply as + n'"
  using assms fmap_total_upd [OF assms(2), of "\<lambda>acc. trunc_nat (Balance acc)" acc']
  by (auto simp: whole_ledger_def money_supply_def)

lemma Credit_whole:
  assumes "whole_ledger as" "money_supply as + n \<le> 9007199254740992"
  shows "whole_ledger (Credit a (f_int n) as) \<and> money_supply (Credit a (f_int n) as) = money_supply as + n"
proof (cases "fmlookup as a")
  case None
  have "fadd fzero (f_int n) = f_int n" using assms(2) by (simp add: fzero_f_int)
  then show ?thesis
    using None assms by (auto simp: Credit_def whole_ledger_def money_supply_def fmap_total_fresh)
next
  case (Some acc)
  then obtain b where b: "Balance acc = f_int b" "b \<le> money_supply as" using whole_balance [OF assms(1)] by blast
  then have "Balance (acc\<lparr>Balance := fadd (Balance acc) (f_int n)\<rparr>) = f_int (b + n)" using assms(2) by simp
  from whole_upd [OF assms(1) Some this] show ?thesis using assms(2) b Some by (simp add: Credit_def)
qed

lemma debit_whole:
  assumes "whole_ledger as" "fmlookup as a = Some acc" "\<not> fless (Balance acc) (f_int n)"
    and "Balance acc' = fsub (Balance acc) (f_int n)"
  shows "whole_ledger (fmupd a acc' as) \<and> money_supply (fmupd a acc' as) + n = money_supply as"
proof -
  obtain b where b: "Balance acc = f_int b" "b \<le> money_supply as" "money_supply as \<le> 9007199254740992"
    using whole_balance [OF assms(1,2)] by blast
  then have "n \<le> b" "Balance acc' = f_int (b - n)" using assms(3,4) by simp_all
  moreover from this(2) have "money_supply (fmupd a acc' as) + b = money_supply as + (b - n) \<and> whole_ledger (fmupd a acc' as)"
    using whole_upd [OF assms(1,2), of acc' "b - n"] b by simp
  ultimately show ?thesis by linarith
qed

lemma ChargeAndBumpNonce_whole:
  assumes "whole_ledger as" "ChargeAndBumpNonce a (f_int n) k as = (None, as')"
  shows "whole_ledger as' \<and> money_supply as' + n = money_supply as"
  using assms debit_whole [OF assms(1)]
  by (auto simp: ChargeAndBumpNonce_def split: option.splits if_splits)

lemma DebitAndBumpNonce_whole:
  assumes "whole_ledger as" "DebitAndBumpNonce a (f_int n) k as = (None, as')"
  shows "whole_ledger as' \<and> money_supply as' + n = money_supply as"
  using assms ChargeAndBumpNonce_whole by (auto simp: DebitAndBumpNonce_def split: if_splits)

lemma ChargeAllowCreate_whole:
  assumes "whole_ledger as" "ChargeAndBumpNonceAllowCreate a (f_int n) k as = (None, as')"
  shows "whole_ledger as' \<and> money_supply as' + n = money_supply as"
proof -
  define as1 where "as1 = (case fmlookup as a of None \<Rightarrow> fmupd a (new_account a) as | Some _ \<Rightarrow> as)"
  have w: "whole_ledger as1" "money_supply as1 = money_supply as"
    using assms(1)
    by (auto simp: as1_def whole_ledger_def money_supply_def fmap_total_fresh fzero_f_int split: option.splits)
  have "fmlookup as1 a \<noteq> None" by (simp add: as1_def split: option.splits)
  then obtain acc where acc: "fmlookup as1 a = Some acc" by blast
  have "\<not> fless (Balance acc) (f_int n) \<and>
      as' = fmupd a (acc\<lparr>Balance := fsub (Balance acc) (f_int n), Nonce := Nonce acc + 1\<rparr>) as1"
    using assms(2) acc by (auto simp: ChargeAndBumpNonceAllowCreate_def as1_def [symmetric] Let_def split: if_splits)
  then show ?thesis
    using debit_whole [OF w(1) acc, of n "acc\<lparr>Balance := fsub (Balance acc) (f_int n), Nonce := Nonce acc + 1\<rparr>"] w(2)
    by simp
qed

section \<open>Properties\<close>

definition sample_store :: AccountStore where
  "sample_store = fmupd ''alice'' \<lparr>Address = ''alice'', Balance = f_int 10, Nonce = 3\<rparr> fmempty"

text \<open>
  a rejected operation leaves the store as it was, and each transfer-like operation that
  succeeds advances the nonce of its sender by one and no other nonce.
\<close>

theorem rejected_account_op_changes_nothing:
  shows "(fst (ApplyTx tx as) \<noteq> None \<longrightarrow> snd (ApplyTx tx as) = as) \<and>
    (fst (ApplyProtocolReward (Some tx) x as) \<noteq> None \<longrightarrow> snd (ApplyProtocolReward (Some tx) x as) = as) \<and>
    (fst (ChargeAndBumpNonce a x n as) \<noteq> None \<longrightarrow> snd (ChargeAndBumpNonce a x n as) = as) \<and>
    (fst (ChargeAndBumpNonceAllowCreate a x n as) \<noteq> None \<longrightarrow>
       snd (ChargeAndBumpNonceAllowCreate a x n as) = as) \<and>
    (fst (DebitAndBumpNonce a x n as) \<noteq> None \<longrightarrow> snd (DebitAndBumpNonce a x n as) = as) \<and>
    (fst (Debit a x as) \<noteq> None \<longrightarrow> snd (Debit a x as) = as) \<and>
    (\<forall>b. nonce_of b (snd (ApplyTx tx as)) =
       (if fst (ApplyTx tx as) = None \<and> b = Sender tx then nonce_of b as + 1 else nonce_of b as))"
  by (intro conjI impI allI ApplyTx_error ApplyProtocolReward_error charge_error charge_create_error
      nonce_of_ApplyTx)

theorem rejected_account_op_changes_nothing_witness:
  "ApplyTx (transfer ''bob'' ''alice'' (f_int 1) fzero 0) sample_store = (Some ErrSenderNotFound, sample_store)"
proof -
  have e: "fst (ApplyTx (transfer ''bob'' ''alice'' (f_int 1) fzero 0) sample_store) = Some ErrSenderNotFound"
    by (simp add: ApplyTx_def debit_sender_def sample_store_def)
  then show ?thesis
    using rejected_account_op_changes_nothing [of "transfer ''bob'' ''alice'' (f_int 1) fzero 0" sample_store fzero "[]" 0]
    by (metis option.discI prod.collapse)
qed

text \<open>
  C35: balances never become negative or NaN as long as amounts are finite and not negative. From a
  store in which no balance is, every sequence of account operations with such amounts (the sum of a
  transaction's amount and fee finite, a restored snapshot free of bad balances too) keeps it so,
  infinite balances included. The store itself checks no sign: \<open>negative_amount_drains_recipient\<close> below.
\<close>

theorem balances_stay_nonnegative:
  assumes "list_all op_amounts ops" "solvent as" "Get a (run_account_ops ops as) = Some acc"
  shows "f_nonneg (Balance acc)"
  using run_account_ops_solvent [OF assms(1,2)] assms(3) by (simp add: solvent_def Get_def)

theorem balances_stay_nonnegative_witness:
  "\<exists>acc. Get ''alice'' (run_account_ops [CreditOp ''alice'' (f_int 5), DebitOp ''alice'' (f_int 15)] sample_store) = Some acc \<and>
     f_nonneg (Balance acc)"
proof -
  let ?ops = "[CreditOp ''alice'' (f_int 5), DebitOp ''alice'' (f_int 15)]"
  have g: "Get ''alice'' (run_account_ops ?ops sample_store) = Some \<lparr>Address = ''alice'', Balance = f_int 0, Nonce = 3\<rparr>"
    by (simp add: run_account_ops_def Get_def Credit_def Debit_def sample_store_def fzero_f_int)
  have "solvent sample_store" by (simp add: solvent_def sample_store_def)
  moreover have "list_all op_amounts ?ops" by (simp add: f_amount_def)
  ultimately show ?thesis using balances_stay_nonnegative [OF _ _ g] g by blast
qed

text \<open>
  C34: no replay. A transaction that was applied is rejected ever after, whatever further
  transactions run, accepted or not, as long as there are fewer than \<open>2 ^ 64 - 1\<close> of them.
\<close>

theorem applied_tx_cannot_replay:
  assumes "ApplyTx tx as = (None, as')" "length txs < 2 ^ 64 - 1"
  shows "fst (ApplyTx tx (run_txs txs as')) \<noteq> None"
proof
  assume "fst (ApplyTx tx (run_txs txs as')) = None"
  then have n: "nonce_of (Sender tx) (run_txs txs as') = TxNonce tx" by (rule ApplyTx_ok_nonce)
  obtain k where k: "k \<le> length txs"
    "nonce_of (Sender tx) (run_txs txs as') = nonce_of (Sender tx) as' + of_nat k"
    using run_txs_nonce by blast
  have "nonce_of (Sender tx) as' = TxNonce tx + 1"
    using nonce_of_ApplyTx [of "Sender tx" tx as] ApplyTx_ok_nonce [of tx as] assms(1) by simp
  then have "(of_nat (Suc k) :: u64) = 0" using n k(2) by (simp add: algebra_simps)
  moreover have "unat (of_nat (Suc k) :: u64) = Suc k"
    using k(1) assms(2) by (intro unat_of_nat_fits) simp
  ultimately show False by simp
qed

theorem applied_tx_cannot_replay_witness:
  "\<exists>as'. ApplyTx (transfer ''alice'' ''bob'' (f_int 4) (f_int 1) 3) sample_store = (None, as') \<and>
     fst (ApplyTx (transfer ''alice'' ''bob'' (f_int 4) (f_int 1) 3) (run_txs [] as')) \<noteq> None"
proof -
  obtain as' where a: "ApplyTx (transfer ''alice'' ''bob'' (f_int 4) (f_int 1) 3) sample_store = (None, as')"
    by (simp add: ApplyTx_def debit_sender_def sample_store_def)
  show ?thesis using applied_tx_cannot_replay [OF a, of "[]"] a by auto
qed

text \<open>
  transfers conserve money, up to the burnt fee. In a ledger of whole-number balances whose total
  fits 53 bits, an accepted transfer of whole amounts keeps the ledger whole and lowers the total by
  exactly the fee, self-transfers and transfers to new accounts included.
\<close>

theorem transfer_conserves_supply:
  assumes "whole_ledger as" "Amount tx = f_int a" "Fee tx = f_int f" "a + f \<le> 2 ^ 53"
    and "ApplyTx tx as = (None, as')"
  shows "whole_ledger as' \<and> money_supply as' + f = money_supply as"
proof -
  have total: "fadd (Amount tx) (Fee tx) = f_int (a + f)" using assms(2-4) by simp
  obtain as1 where d: "debit_sender tx as = (None, as1)" and as': "as' = Credit (Recipient tx) (f_int a) as1"
    using assms(2,5) by (auto simp: ApplyTx_def split: prod.splits option.splits)
  from d obtain acc where "fmlookup as (Sender tx) = Some acc" "\<not> fless (Balance acc) (f_int (a + f))"
    "as1 = fmupd (Sender tx) (acc\<lparr>Balance := fsub (Balance acc) (f_int (a + f)), Nonce := Nonce acc + 1\<rparr>) as"
    by (rule debit_sender_ok) (simp add: total)
  then have w: "whole_ledger as1" "money_supply as1 + (a + f) = money_supply as"
    using debit_whole [OF assms(1)] by simp_all
  moreover have "money_supply as \<le> 9007199254740992" using assms(1) by (simp add: whole_ledger_def)
  ultimately show ?thesis using Credit_whole [OF w(1), of a "Recipient tx"] by (simp add: as')
qed

theorem transfer_conserves_supply_witness:
  "\<exists>as'. ApplyTx (transfer ''alice'' ''bob'' (f_int 4) (f_int 1) 3) sample_store = (None, as') \<and>
     money_supply as' + 1 = money_supply sample_store"
proof -
  obtain as' where a: "ApplyTx (transfer ''alice'' ''bob'' (f_int 4) (f_int 1) 3) sample_store = (None, as')"
    by (simp add: ApplyTx_def debit_sender_def sample_store_def)
  have "whole_ledger sample_store"
    by (simp add: whole_ledger_def money_supply_def sample_store_def fmap_total_fresh)
  from transfer_conserves_supply [OF this _ _ _ a, of 4 1] a show ?thesis by simp
qed

text \<open>
  \<open>ApplyTx\<close> itself does not look at the sign of the amount. A transfer of a negative whole amount
  with fee 0 is accepted from any existing account with the right nonce, whatever its balance, and
  moves that amount from the recipient to the sender.
\<close>

theorem negative_amount_drains_recipient:
  assumes "fmlookup as m = Some am" "Balance am = f_int b" "fmlookup as v = Some av" "Balance av = f_int c"
    and "m \<noteq> v" "0 < a" "a \<le> c" "b + a \<le> 2 ^ 53" "c \<le> 2 ^ 53"
  shows "\<exists>as'. ApplyTx (transfer m v (fneg (f_int a)) fzero (Nonce am)) as = (None, as') \<and>
    fmlookup as' m = Some (am\<lparr>Balance := f_int (b + a), Nonce := Nonce am + 1\<rparr>) \<and>
    fmlookup as' v = Some (av\<lparr>Balance := f_int (c - a)\<rparr>)"
proof -
  have w: "wf64 (fneg (f_int a))" using assms(7,9) by simp
  have "fneg (f_int a) \<noteq> Fin True 0" using assms(6) by (simp add: f_int_def)
  with w have t: "fadd (fneg (f_int a)) fzero = fneg (f_int a)" by simp
  have "\<not> fless (f_int b) (fneg (f_int a))" 
    using order_trans [of "- (int a * int unit_one)" 0 "int b * int unit_one"] by (simp add: f_int_def not_less)
  then show ?thesis
    using assms t by (simp add: ApplyTx_def debit_sender_def Credit_def Let_def)
qed

theorem negative_amount_drains_recipient_witness:
  "\<exists>as'. ApplyTx (transfer ''mallory'' ''alice'' (fneg (f_int 7)) fzero 0)
      (fmupd ''mallory'' (new_account ''mallory'') sample_store) = (None, as') \<and>
    fmlookup as' ''mallory'' = Some \<lparr>Address = ''mallory'', Balance = f_int 7, Nonce = 1\<rparr>"
  using negative_amount_drains_recipient [of "fmupd ''mallory'' (new_account ''mallory'') sample_store" "''mallory''"
      "new_account ''mallory''" 0 "''alice''" "\<lparr>Address = ''alice'', Balance = f_int 10, Nonce = 3\<rparr>" 10 7]
  by (auto simp: sample_store_def new_account_def fzero_f_int)

text \<open>
  the state root does not see amounts below half a millionth. Two stores that differ only in that
  one whole balance has up to fifty dust more in one of them have the same root.
\<close>

theorem state_root_ignores_small_amounts:
  assumes "2 * (m * 1000000) < unit_one"
  shows "StateRoot (fmupd a \<lparr>Address = a, Balance = Fin False (n * unit_one + m), Nonce = k\<rparr> as) =
    StateRoot (fmupd a \<lparr>Address = a, Balance = f_int n, Nonce = k\<rparr> as)"
proof -
  have line: "account_line \<lparr>Address = a, Balance = Fin False (n * unit_one + m), Nonce = k\<rparr> =
      account_line \<lparr>Address = a, Balance = f_int n, Nonce = k\<rparr>"
    using millionths_hides [OF assms, of n] millionths_hides [of 0 n]
    by (simp add: account_line_def f_int_def)
  have "sorted_keys (fmupd a v as) = sorted_keys (fmupd a w as)" for v w :: Account
    by (simp add: sorted_keys_def)
  then have "root_text (fmupd a \<lparr>Address = a, Balance = Fin False (n * unit_one + m), Nonce = k\<rparr> as) =
      root_text (fmupd a \<lparr>Address = a, Balance = f_int n, Nonce = k\<rparr> as)"
    unfolding root_text_def using line by (auto intro!: arg_cong [where f = concat] map_cong)
  then show ?thesis by (simp add: StateRoot_def)
qed

theorem state_root_ignores_small_amounts_witness:
  "StateRoot (fmupd ''alice'' \<lparr>Address = ''alice'', Balance = Fin False (1 * unit_one + 1), Nonce = 0\<rparr> fmempty) =
   StateRoot (fmupd ''alice'' \<lparr>Address = ''alice'', Balance = f_int 1, Nonce = 0\<rparr> fmempty)"
proof (rule state_root_ignores_small_amounts)
  have "2000000 < (2::nat) ^ 21" by simp
  also have "\<dots> \<le> unit_one" unfolding unit_one_def by (rule power_increasing) simp_all
  finally show "2 * (1 * 1000000) < unit_one" by simp
qed

end
