(* ===== verification/GoHeap.thy ===== *)
theory GoHeap
  imports GoSort
begin

text \<open>
  Go's \<open>container/heap\<close> on a slice, with a \<open>less\<close> function: \<open>up\<close>, \<open>down\<close>, \<open>Push\<close>, \<open>Pop\<close> and \<open>Remove\<close>
  as the standard library implements them. \<open>down\<close> also returns the final position, from which
  \<open>Remove\<close> reads whether the element moved. The correctness lemmas are in the locale \<open>weak_less\<close>: for a
  strict weak order the operations keep the heap property and the multiset of the elements.
\<close>

definition swap_at :: "'a list \<Rightarrow> nat \<Rightarrow> nat \<Rightarrow> 'a list" where
  "swap_at xs i j = xs[i := xs ! j, j := xs ! i]"

function heap_up :: "('a \<Rightarrow> 'a \<Rightarrow> bool) \<Rightarrow> 'a list \<Rightarrow> nat \<Rightarrow> 'a list" where
  "heap_up lt xs j =
     (let i = (j - 1) div 2
      in if i = j \<or> \<not> lt (xs ! j) (xs ! i) then xs else heap_up lt (swap_at xs i j) i)"
  by pat_completeness auto
termination
  by (relation "measure (\<lambda>(lt, xs, j). j)") auto

function heap_down :: "('a \<Rightarrow> 'a \<Rightarrow> bool) \<Rightarrow> 'a list \<Rightarrow> nat \<Rightarrow> nat \<Rightarrow> 'a list \<times> nat" where
  "heap_down lt xs i n =
     (let j1 = 2 * i + 1
      in if j1 \<ge> n then (xs, i)
         else let j = (if j1 + 1 < n \<and> lt (xs ! (j1 + 1)) (xs ! j1) then j1 + 1 else j1)
              in if \<not> lt (xs ! j) (xs ! i) then (xs, i) else heap_down lt (swap_at xs i j) j n)"
  by pat_completeness auto
termination
  by (relation "measure (\<lambda>(lt, xs, i, n). n - i)") (auto split: if_splits)

declare heap_up.simps [simp del] heap_down.simps [simp del]

definition heap_push :: "('a \<Rightarrow> 'a \<Rightarrow> bool) \<Rightarrow> 'a \<Rightarrow> 'a list \<Rightarrow> 'a list" where
  "heap_push lt x xs = heap_up lt (xs @ [x]) (length xs)"

text \<open>\<open>Pop\<close> and \<open>Remove\<close> return the removed element, which ends up last, and the shortened slice.\<close>

definition heap_pop :: "('a \<Rightarrow> 'a \<Rightarrow> bool) \<Rightarrow> 'a list \<Rightarrow> 'a \<times> 'a list" where
  "heap_pop lt xs =
     (let n = length xs - 1; ys = fst (heap_down lt (swap_at xs 0 n) 0 n)
      in (last ys, butlast ys))"

definition heap_remove :: "('a \<Rightarrow> 'a \<Rightarrow> bool) \<Rightarrow> nat \<Rightarrow> 'a list \<Rightarrow> 'a \<times> 'a list" where
  "heap_remove lt i xs =
     (let n = length xs - 1;
          ys = (if n = i then xs
                else let (zs, i') = heap_down lt (swap_at xs i n) i n
                     in if i' > i then zs else heap_up lt zs i)
      in (last ys, butlast ys))"

section \<open>Frame\<close>

lemma length_swap_at [simp]: "length (swap_at xs i j) = length xs"
  by (simp add: swap_at_def)

lemma swap_at_nth:
  "\<lbrakk>i < length xs; j < length xs\<rbrakk> \<Longrightarrow>
     swap_at xs i j ! k = (if k = i then xs ! j else if k = j then xs ! i else xs ! k)"
  by (cases "k < length xs") (auto simp: swap_at_def nth_list_update)

lemma mset_swap_at [simp]: "\<lbrakk>i < length xs; j < length xs\<rbrakk> \<Longrightarrow> mset (swap_at xs i j) = mset xs"
  unfolding swap_at_def by (rule mset_swap)

lemma heap_up_frame:
  "j < length xs \<Longrightarrow> mset (heap_up lt xs j) = mset xs \<and> length (heap_up lt xs j) = length xs \<and>
     (\<forall>k > j. heap_up lt xs j ! k = xs ! k)"
proof (induction lt xs j rule: heap_up.induct)
  case (1 lt xs j)
  show ?case
  proof (cases "(j - 1) div 2 = j \<or> \<not> lt (xs ! j) (xs ! ((j - 1) div 2))")
    case True
    then show ?thesis by (simp add: heap_up.simps [of lt xs j] Let_def)
  next
    case False
    let ?i = "(j - 1) div 2"
    have i: "?i < j" using False by auto
    have "mset (heap_up lt (swap_at xs ?i j) ?i) = mset (swap_at xs ?i j) \<and>
      length (heap_up lt (swap_at xs ?i j) ?i) = length (swap_at xs ?i j) \<and>
      (\<forall>k > ?i. heap_up lt (swap_at xs ?i j) ?i ! k = swap_at xs ?i j ! k)"
      using 1 False i by (intro "1.IH") auto
    moreover have "heap_up lt xs j = heap_up lt (swap_at xs ?i j) ?i"
      using False by (simp add: heap_up.simps [of lt xs j] Let_def)
    ultimately show ?thesis using i "1.prems" by (auto simp: swap_at_nth)
  qed
qed

text \<open>The child that \<open>down\<close> compares with.\<close>

definition best_child :: "('a \<Rightarrow> 'a \<Rightarrow> bool) \<Rightarrow> 'a list \<Rightarrow> nat \<Rightarrow> nat \<Rightarrow> nat" where
  "best_child lt xs i n =
     (if 2 * i + 2 < n \<and> lt (xs ! (2 * i + 2)) (xs ! (2 * i + 1)) then 2 * i + 2 else 2 * i + 1)"

lemma heap_down_unfold:
  "heap_down lt xs i n =
     (if 2 * i + 1 \<ge> n \<or> \<not> lt (xs ! best_child lt xs i n) (xs ! i) then (xs, i)
      else heap_down lt (swap_at xs i (best_child lt xs i n)) (best_child lt xs i n) n)"
  by (simp add: heap_down.simps [of lt xs i n] best_child_def Let_def)

lemma best_child_less: "2 * i + 1 < n \<Longrightarrow> best_child lt xs i n < n \<and> i < best_child lt xs i n"
  by (auto simp: best_child_def)

lemma best_child_parent: "(best_child lt xs i n - 1) div 2 = i"
  by (simp add: best_child_def)

text \<open>Induction over the moves of \<open>down\<close>.\<close>

lemma heap_down_induct [consumes 1, case_names stop move]:
  assumes "n \<le> length xs"
    and "\<And>xs i. \<lbrakk>n \<le> length xs; 2 * i + 1 \<ge> n \<or> \<not> lt (xs ! best_child lt xs i n) (xs ! i);
      heap_down lt xs i n = (xs, i)\<rbrakk> \<Longrightarrow> P xs i"
    and "\<And>xs i j. \<lbrakk>n \<le> length xs; 2 * i + 1 < n; j = best_child lt xs i n; lt (xs ! j) (xs ! i); i < j; j < n;
      heap_down lt xs i n = heap_down lt (swap_at xs i j) j n; P (swap_at xs i j) j\<rbrakk> \<Longrightarrow> P xs i"
  shows "P xs i"
  using assms(1)
proof (induction "n - i" arbitrary: xs i rule: less_induct)
  case less
  show ?case
  proof (cases "2 * i + 1 \<ge> n \<or> \<not> lt (xs ! best_child lt xs i n) (xs ! i)")
    case True
    then have "heap_down lt xs i n = (xs, i)" by (subst heap_down_unfold) simp
    then show ?thesis by (rule assms(2) [OF less.prems True])
  next
    case False
    define j where "j = best_child lt xs i n"
    have j: "i < j" "j < n" using best_child_less [of i n lt xs] False by (auto simp: j_def)
    have eq: "heap_down lt xs i n = heap_down lt (swap_at xs i j) j n"
      using False by (subst heap_down_unfold) (simp add: j_def)
    have "P (swap_at xs i j) j" using j less.prems by (intro less.hyps) auto
    then show ?thesis using assms(3) [OF less.prems _ j_def _ j eq] False by (simp add: j_def)
  qed
qed

lemma heap_down_frame:
  assumes "n \<le> length xs" "i < n"
  shows "mset (fst (heap_down lt xs i n)) = mset xs \<and> length (fst (heap_down lt xs i n)) = length xs \<and>
    (\<forall>k \<ge> n. fst (heap_down lt xs i n) ! k = xs ! k) \<and> i \<le> snd (heap_down lt xs i n)"
  using assms
proof (induction xs i rule: heap_down_induct [where lt = lt])
  case (move xs i j)
  then have "mset (swap_at xs i j) = mset xs" by simp
  moreover have "swap_at xs i j ! k = xs ! k" if "k \<ge> n" for k using move that by (simp add: swap_at_nth)
  ultimately show ?case using move by auto
qed simp

lemma heap_down_stays:
  assumes "n \<le> length xs" "i < n" "snd (heap_down lt xs i n) = i"
  shows "fst (heap_down lt xs i n) = xs \<and> (2 * i + 1 \<ge> n \<or> \<not> lt (xs ! best_child lt xs i n) (xs ! i))"
proof (cases "2 * i + 1 \<ge> n \<or> \<not> lt (xs ! best_child lt xs i n) (xs ! i)")
  case True
  then show ?thesis by (subst heap_down_unfold) simp
next
  case False
  let ?j = "best_child lt xs i n"
  have "?j < n" "i < ?j" using best_child_less [of i n lt xs] False by auto
  moreover have "heap_down lt xs i n = heap_down lt (swap_at xs i ?j) ?j n"
    using False by (subst heap_down_unfold) simp
  ultimately show ?thesis using heap_down_frame [of n "swap_at xs i ?j" ?j lt] assms by auto
qed

section \<open>The heap property\<close>

definition edge_ok :: "('a \<Rightarrow> 'a \<Rightarrow> bool) \<Rightarrow> 'a list \<Rightarrow> nat \<Rightarrow> bool" where
  "edge_ok lt xs k \<longleftrightarrow> \<not> lt (xs ! k) (xs ! ((k - 1) div 2))"

definition is_heap :: "('a \<Rightarrow> 'a \<Rightarrow> bool) \<Rightarrow> nat \<Rightarrow> 'a list \<Rightarrow> bool" where
  "is_heap lt n xs \<longleftrightarrow> (\<forall>k. 0 < k \<and> k < n \<longrightarrow> edge_ok lt xs k)"

text \<open>The children of a position are not before its parent.\<close>

definition bypass_ok :: "('a \<Rightarrow> 'a \<Rightarrow> bool) \<Rightarrow> nat \<Rightarrow> 'a list \<Rightarrow> nat \<Rightarrow> bool" where
  "bypass_ok lt n xs i \<longleftrightarrow>
     (0 < i \<longrightarrow> (\<forall>c. 0 < c \<and> c < n \<and> (c - 1) div 2 = i \<longrightarrow> \<not> lt (xs ! c) (xs ! ((i - 1) div 2))))"

context weak_less
begin

lemma heap_up_heap:
  assumes "set xs \<subseteq> C" "j < n" "n \<le> length xs"
    and "\<forall>k. 0 < k \<and> k < n \<and> k \<noteq> j \<longrightarrow> edge_ok lt xs k" "bypass_ok lt n xs j"
  shows "is_heap lt n (heap_up lt xs j)"
  using assms
proof (induction j arbitrary: xs rule: less_induct)
  case (less j)
  let ?i = "(j - 1) div 2"
  have C: "xs ! k \<in> C" if "k < n" for k using less.prems(1,3) that by (meson nth_mem order_less_le_trans subsetD)
  show ?case
  proof (cases "?i = j \<or> \<not> lt (xs ! j) (xs ! ?i)")
    case True
    then have "edge_ok lt xs j \<or> j = 0" by (auto simp: edge_ok_def)
    then have "is_heap lt n xs" using less.prems(4) by (auto simp: is_heap_def)
    then show ?thesis using True by (simp add: heap_up.simps [of lt xs j] Let_def)
  next
    case False
    define ys where "ys = swap_at xs ?i j"
    have i: "?i < j" "0 < j" using False by auto
    have nth: "ys ! k = (if k = ?i then xs ! j else if k = j then xs ! ?i else xs ! k)" for k
      using i less.prems by (simp add: ys_def swap_at_nth)
    have asym: "\<not> lt (xs ! ?i) (xs ! j)" using lt_asym [of "xs ! j" "xs ! ?i"] C i less.prems(2) False by auto
    have "\<forall>k. 0 < k \<and> k < n \<and> k \<noteq> ?i \<longrightarrow> edge_ok lt ys k"
    proof (intro allI impI)
      fix k assume k: "0 < k \<and> k < n \<and> k \<noteq> ?i"
      consider "k = j" | "k \<noteq> j" "(k - 1) div 2 = j" | "k \<noteq> j" "(k - 1) div 2 = ?i"
        | "k \<noteq> j" "(k - 1) div 2 \<noteq> j" "(k - 1) div 2 \<noteq> ?i" by blast
      then show "edge_ok lt ys k"
      proof cases
        case 1
        then show ?thesis using asym i by (simp add: edge_ok_def nth)
      next
        case 2
        then show ?thesis using less.prems(5) i k by (auto simp: edge_ok_def nth bypass_ok_def)
      next
        case 3
        then have "\<not> lt (xs ! k) (xs ! ?i)" using less.prems(4) k by (metis edge_ok_def)
        then have "\<not> lt (xs ! k) (xs ! j)"
          using lt_neg_trans [of "xs ! j" "xs ! ?i" "xs ! k"] asym C k i less.prems(2) by auto
        then show ?thesis using 3 k by (simp add: edge_ok_def nth)
      next
        case 4
        then show ?thesis using less.prems(4) k by (auto simp: edge_ok_def nth)
      qed
    qed
    moreover have "bypass_ok lt n ys ?i"
      unfolding bypass_ok_def
    proof (intro allI impI)
      fix c assume ii: "0 < ?i" and c: "0 < c \<and> c < n \<and> (c - 1) div 2 = ?i"
      let ?g = "(?i - 1) div 2"
      have g: "?g \<noteq> ?i" "?g \<noteq> j" using ii i by auto
      have top: "\<not> lt (xs ! ?i) (xs ! ?g)" using less.prems(2,4) ii i by (auto simp: edge_ok_def)
      have "\<not> lt (xs ! c) (xs ! ?g)" if "c \<noteq> j"
      proof -
        have "\<not> lt (xs ! c) (xs ! ?i)" using less.prems(4) c that by (metis edge_ok_def)
        then show ?thesis
          using lt_neg_trans [of "xs ! ?g" "xs ! ?i" "xs ! c"] top C c i less.prems(2) by auto
      qed
      then show "\<not> lt (ys ! c) (ys ! ?g)" using top g c ii by (auto simp: nth)
    qed
    moreover have "set ys \<subseteq> C" using less.prems(1-3) i mset_eq_setD [of ys xs] by (simp add: ys_def)
    ultimately have "is_heap lt n (heap_up lt ys ?i)"
      using i less.prems by (intro less.IH) (auto simp: ys_def)
    then show ?thesis using False by (simp add: heap_up.simps [of lt xs j] Let_def ys_def)
  qed
qed

text \<open>One move of \<open>down\<close>, from a position whose own edge may be broken.\<close>

lemma heap_down_move:
  assumes "set xs \<subseteq> C" "n \<le> length xs" "2 * i + 1 < n" and j: "j = best_child lt xs i n" "lt (xs ! j) (xs ! i)"
    and edges: "\<forall>k. 0 < k \<and> k < n \<and> k \<noteq> i \<and> (k - 1) div 2 \<noteq> i \<longrightarrow> edge_ok lt xs k" and bypass: "bypass_ok lt n xs i"
  shows "(\<forall>k. 0 < k \<and> k < n \<and> (k - 1) div 2 \<noteq> j \<longrightarrow> edge_ok lt (swap_at xs i j) k) \<and>
    bypass_ok lt n (swap_at xs i j) j"
proof -
  have jn: "i < j" "j < n" "(j - 1) div 2 = i"
    using best_child_less [of i n lt xs] best_child_parent [of lt xs i n] assms(3) j(1) by auto
  have C: "xs ! k \<in> C" if "k < n" for k using assms(1,2) that by (meson nth_mem order_less_le_trans subsetD)
  have nth: "swap_at xs i j ! k = (if k = i then xs ! j else if k = j then xs ! i else xs ! k)" for k
    using jn assms(2) by (simp add: swap_at_nth)
  have asym: "\<not> lt (xs ! i) (xs ! j)" using lt_asym [of "xs ! j" "xs ! i"] C jn j(2) by auto
  have sibling: "\<not> lt (xs ! k) (xs ! j)" if "0 < k" "k < n" "(k - 1) div 2 = i" for k
  proof -
    have "k = 2 * i + 1 \<or> k = 2 * i + 2" using that by linarith
    then show ?thesis
      using j(1) that lt_asym [of "xs ! (2 * i + 2)" "xs ! (2 * i + 1)"] lt_asym [of "xs ! k" "xs ! k"] C
      by (auto simp: best_child_def split: if_splits)
  qed
  have "edge_ok lt (swap_at xs i j) k" if k: "0 < k" "k < n" "(k - 1) div 2 \<noteq> j" for k
  proof -
    consider "k = j" | "k \<noteq> j" "(k - 1) div 2 = i" | "k = i" | "k \<noteq> j" "k \<noteq> i" "(k - 1) div 2 \<noteq> i" by blast
    then show ?thesis
    proof cases
      case 1
      then show ?thesis using asym jn by (simp add: edge_ok_def nth)
    next
      case 2
      then show ?thesis using sibling [of k] k by (auto simp: edge_ok_def nth)
    next
      case 3
      have "\<not> lt (xs ! j) (xs ! ((i - 1) div 2))"
        using bypass jn k 3 unfolding bypass_ok_def by (metis less_nat_zero_code neq0_conv)
      moreover have "(i - 1) div 2 < i" using 3 k by linarith
      ultimately show ?thesis using 3 jn by (simp add: edge_ok_def nth)
    next
      case 4
      then show ?thesis using edges k by (auto simp: edge_ok_def nth)
    qed
  qed
  moreover have "\<not> lt (swap_at xs i j ! c) (swap_at xs i j ! ((j - 1) div 2))"
    if c: "0 < c" "c < n" "(c - 1) div 2 = j" for c
  proof -
    have "c \<noteq> i" "c \<noteq> j" using c jn by auto
    moreover have "edge_ok lt xs c" using edges c jn \<open>c \<noteq> i\<close> by auto
    ultimately show ?thesis using c jn by (simp add: edge_ok_def nth)
  qed
  ultimately show ?thesis by (auto simp: bypass_ok_def)
qed

lemma stop_children:
  assumes "set xs \<subseteq> C" "n \<le> length xs" "i < n" "2 * i + 1 \<ge> n \<or> \<not> lt (xs ! best_child lt xs i n) (xs ! i)"
    and k: "0 < k" "k < n" "(k - 1) div 2 = i"
  shows "edge_ok lt xs k"
proof -
  have C: "xs ! k \<in> C" if "k < n" for k using assms(1,2) that by (meson nth_mem order_less_le_trans subsetD)
  have kk: "k = 2 * i + 1 \<or> k = 2 * i + 2" using k by linarith
  let ?j = "best_child lt xs i n"
  have j: "\<not> lt (xs ! ?j) (xs ! i)" using assms(4) k kk by auto
  have "\<not> lt (xs ! k) (xs ! ?j)"
    using kk k lt_asym [of "xs ! (2 * i + 2)" "xs ! (2 * i + 1)"] lt_asym [of "xs ! k" "xs ! k"] C
    by (auto simp: best_child_def split: if_splits)
  then have "\<not> lt (xs ! k) (xs ! i)"
    using lt_neg_trans [of "xs ! i" "xs ! ?j" "xs ! k"] j C k kk assms(3) best_child_less [of i n lt xs] by auto
  then show ?thesis using k by (simp add: edge_ok_def)
qed

lemma heap_down_heap:
  assumes "n \<le> length xs" "set xs \<subseteq> C" "i < n"
    and "\<forall>k. 0 < k \<and> k < n \<and> (k - 1) div 2 \<noteq> i \<longrightarrow> edge_ok lt xs k" "bypass_ok lt n xs i"
  shows "is_heap lt n (fst (heap_down lt xs i n))"
  using assms
proof (induction xs i rule: heap_down_induct [where lt = lt])
  case (stop xs i)
  then show ?case using stop_children [of xs n i] by (auto simp: is_heap_def)
next
  case (move xs i j)
  have "set (swap_at xs i j) \<subseteq> C" using move mset_eq_setD [of "swap_at xs i j" xs] by auto
  moreover have "\<forall>k. 0 < k \<and> k < n \<and> k \<noteq> i \<and> (k - 1) div 2 \<noteq> i \<longrightarrow> edge_ok lt xs k" using move by auto
  ultimately show ?case
    using heap_down_move [of xs n i j] move by auto
qed

section \<open>Push, pop and remove\<close>

lemma root_first:
  assumes "is_heap lt (length xs) xs" "set xs \<subseteq> C" "k < length xs"
  shows "\<not> lt (xs ! k) (xs ! 0)"
  using assms(3)
proof (induction k rule: less_induct)
  case (less k)
  have C: "xs ! i \<in> C" if "i < length xs" for i using assms(2) that by (meson nth_mem subsetD)
  show ?case
  proof (cases "k = 0")
    case True
    then show ?thesis using lt_asym [of "xs ! 0" "xs ! 0"] C [of 0] less.prems by auto
  next
    case False
    let ?p = "(k - 1) div 2"
    have p: "?p < k" using False by linarith
    then have "\<not> lt (xs ! ?p) (xs ! 0)" using less by auto
    moreover have "\<not> lt (xs ! k) (xs ! ?p)" using assms(1) less.prems False by (auto simp: is_heap_def edge_ok_def)
    moreover have "0 < length xs" using less.prems by linarith
    ultimately show ?thesis
      using lt_neg_trans [of "xs ! 0" "xs ! ?p" "xs ! k"] C [of 0] C [of ?p] C [of k] less.prems p by auto
  qed
qed

lemma leaf_below:
  assumes "is_heap lt (length xs) xs" "set xs \<subseteq> C" "k < length xs"
  shows "\<exists>l. length xs div 2 \<le> l \<and> l < length xs \<and> \<not> lt (xs ! l) (xs ! k)"
  using assms(3)
proof (induction "length xs - k" arbitrary: k rule: less_induct)
  case less
  have C: "xs ! i \<in> C" if "i < length xs" for i using assms(2) that by (meson nth_mem subsetD)
  show ?case
  proof (cases "length xs div 2 \<le> k")
    case True
    then show ?thesis using lt_asym [of "xs ! k" "xs ! k"] C less.prems by auto
  next
    case False
    let ?c = "2 * k + 1"
    have c: "?c < length xs" using False by linarith
    have "length xs - ?c < length xs - k" using c by linarith
    from less.hyps [OF this c] obtain l where l: "length xs div 2 \<le> l" "l < length xs" "\<not> lt (xs ! l) (xs ! ?c)"
      by blast
    have "edge_ok lt xs ?c" using assms(1) c by (simp add: is_heap_def)
    then have "\<not> lt (xs ! ?c) (xs ! k)" by (simp add: edge_ok_def)
    then show ?thesis using lt_neg_trans [of "xs ! k" "xs ! ?c" "xs ! l"] l c C less.prems by auto
  qed
qed

lemma heap_push_correct:
  assumes "is_heap lt (length xs) xs" "set xs \<subseteq> C" "x \<in> C"
  shows "is_heap lt (Suc (length xs)) (heap_push lt x xs) \<and> mset (heap_push lt x xs) = add_mset x (mset xs) \<and>
    length (heap_push lt x xs) = Suc (length xs)"
proof -
  have "\<forall>k. 0 < k \<and> k < Suc (length xs) \<and> k \<noteq> length xs \<longrightarrow> edge_ok lt (xs @ [x]) k"
  proof (intro allI impI)
    fix k assume k: "0 < k \<and> k < Suc (length xs) \<and> k \<noteq> length xs"
    then have "(k - 1) div 2 < length xs" by linarith
    then show "edge_ok lt (xs @ [x]) k" using assms(1) k by (auto simp: is_heap_def edge_ok_def nth_append)
  qed
  moreover have "bypass_ok lt (Suc (length xs)) (xs @ [x]) (length xs)" by (auto simp: bypass_ok_def)
  ultimately have "is_heap lt (Suc (length xs)) (heap_up lt (xs @ [x]) (length xs))"
    using assms by (intro heap_up_heap) auto
  then show ?thesis using heap_up_frame [of "length xs" "xs @ [x]" lt] by (simp add: heap_push_def)
qed

lemma cut_last:
  assumes "length ys = Suc n" "is_heap lt n ys"
  shows "is_heap lt n (butlast ys)" "last ys = ys ! n" "mset ys = add_mset (ys ! n) (mset (butlast ys))"
proof -
  have nth: "butlast ys ! k = ys ! k" if "k < n" for k using assms(1) that by (simp add: nth_butlast)
  show "is_heap lt n (butlast ys)"
    unfolding is_heap_def
  proof (intro allI impI)
    fix k assume k: "0 < k \<and> k < n"
    then have "(k - 1) div 2 < n" by linarith
    then show "edge_ok lt (butlast ys) k" using assms(2) k nth by (auto simp: is_heap_def edge_ok_def)
  qed
  show l: "last ys = ys ! n" using assms(1) by (subst last_conv_nth) auto
  have "ys = butlast ys @ [last ys]" using assms(1) by (metis append_butlast_last_id list.size(3) nat.distinct(1))
  then show "mset ys = add_mset (ys ! n) (mset (butlast ys))" by (metis l mset.simps mset_append add_mset_add_single)
qed

lemma heap_pop_correct:
  assumes "is_heap lt (length xs) xs" "set xs \<subseteq> C" "xs \<noteq> []" "heap_pop lt xs = (x, ys)"
  shows "x = xs ! 0 \<and> mset xs = add_mset x (mset ys) \<and> length xs = Suc (length ys) \<and> is_heap lt (length ys) ys"
proof -
  define n where "n = length xs - 1"
  have len: "length xs = Suc n" using assms(3) by (cases xs) (simp_all add: n_def)
  define zs where "zs = fst (heap_down lt (swap_at xs 0 n) 0 n)"
  have res: "x = last zs" "ys = butlast zs" using assms(4) by (auto simp: heap_pop_def Let_def n_def zs_def)
  have nth: "swap_at xs 0 n ! k = (if k = 0 then xs ! n else if k = n then xs ! 0 else xs ! k)" for k
    using len by (simp add: swap_at_nth)
  have zs: "mset zs = mset xs \<and> length zs = Suc n \<and> zs ! n = xs ! 0 \<and> is_heap lt n zs"
  proof (cases "n = 0")
    case True
    have "heap_down lt (swap_at xs 0 n) 0 n = (swap_at xs 0 n, 0)" by (subst heap_down_unfold) (simp add: True)
    then show ?thesis using len True nth by (simp add: zs_def is_heap_def)
  next
    case False
    have "set (swap_at xs 0 n) \<subseteq> C" using assms(2) len mset_eq_setD [of "swap_at xs 0 n" xs] by simp
    moreover have "\<forall>k. 0 < k \<and> k < n \<and> (k - 1) div 2 \<noteq> 0 \<longrightarrow> edge_ok lt (swap_at xs 0 n) k"
      using assms(1) len by (auto simp: is_heap_def edge_ok_def nth)
    ultimately have "is_heap lt n zs"
      unfolding zs_def using False len by (intro heap_down_heap) (auto simp: bypass_ok_def)
    then show ?thesis
      using heap_down_frame [of n "swap_at xs 0 n" 0 lt] False len nth [of n] by (auto simp: zs_def)
  qed
  then show ?thesis using cut_last [of zs n] res len by auto
qed

lemma heap_remove_correct:
  assumes "is_heap lt (length xs) xs" "set xs \<subseteq> C" "i < length xs" "heap_remove lt i xs = (x, ys)"
  shows "x = xs ! i \<and> mset xs = add_mset x (mset ys) \<and> length xs = Suc (length ys) \<and> is_heap lt (length ys) ys"
proof -
  define n where "n = length xs - 1"
  have len: "length xs = Suc n" using assms(3) by (cases xs) (simp_all add: n_def)
  define us where "us = swap_at xs i n"
  define zs where "zs = (if n = i then xs else
    if snd (heap_down lt us i n) > i then fst (heap_down lt us i n) else heap_up lt (fst (heap_down lt us i n)) i)"
  have res: "x = last zs" "ys = butlast zs"
    using assms(4) by (auto simp: heap_remove_def Let_def n_def zs_def us_def case_prod_beta split: if_splits)
  have "mset zs = mset xs \<and> length zs = Suc n \<and> zs ! n = xs ! i \<and> is_heap lt n zs"
  proof (cases "n = i")
    case True
    then show ?thesis using len assms(1) by (auto simp: zs_def is_heap_def)
  next
    case False
    then have i: "i < n" using assms(3) len by simp
    have nth: "us ! k = (if k = i then xs ! n else if k = n then xs ! i else xs ! k)" for k
      using len i by (simp add: swap_at_nth us_def)
    have us: "mset us = mset xs" "length us = Suc n" using len i by (simp_all add: us_def)
    have C: "set us \<subseteq> C" using assms(2) mset_eq_setD [OF us(1)] by simp
    have inC: "xs ! k \<in> C" if "k < Suc n" for k using assms(2) len that by (metis nth_mem subsetD)
    have edges: "\<forall>k. 0 < k \<and> k < n \<and> k \<noteq> i \<and> (k - 1) div 2 \<noteq> i \<longrightarrow> edge_ok lt us k"
      using assms(1) len by (auto simp: is_heap_def edge_ok_def nth)
    have bypass: "bypass_ok lt n us i"
      unfolding bypass_ok_def
    proof (intro allI impI)
      fix c assume "0 < i" and c: "0 < c \<and> c < n \<and> (c - 1) div 2 = i"
      let ?g = "(i - 1) div 2"
      have g: "?g < i" "c \<noteq> i" using \<open>0 < i\<close> c by linarith+
      have "\<not> lt (xs ! i) (xs ! ?g)" "\<not> lt (xs ! c) (xs ! i)"
        using assms(1) len i c \<open>0 < i\<close> by (auto simp: is_heap_def edge_ok_def)
      then have "\<not> lt (xs ! c) (xs ! ?g)"
        using lt_neg_trans [of "xs ! ?g" "xs ! i" "xs ! c"] inC g c i by auto
      then show "\<not> lt (us ! c) (us ! ?g)" using g c i by (simp add: nth)
    qed
    have down: "mset (fst (heap_down lt us i n)) = mset us" "length (fst (heap_down lt us i n)) = Suc n"
      "fst (heap_down lt us i n) ! n = us ! n"
      using heap_down_frame [of n us i lt] us(2) i by auto
    show ?thesis
    proof (cases "snd (heap_down lt us i n) > i")
      case True
      have moved: "2 * i + 1 < n" "lt (us ! best_child lt us i n) (us ! i)"
      proof -
        have "heap_down lt us i n \<noteq> (us, i)" using True by auto
        then show "2 * i + 1 < n" "lt (us ! best_child lt us i n) (us ! i)"
          using heap_down_unfold [of lt us i n] by (auto split: if_splits)
      qed
      let ?j = "best_child lt us i n"
      have j: "i < ?j" "?j < n" using best_child_less [OF moved(1)] by auto
      have eq: "heap_down lt us i n = heap_down lt (swap_at us i ?j) ?j n"
        using moved by (subst heap_down_unfold) auto
      have "set (swap_at us i ?j) \<subseteq> C" using C us(2) i j mset_eq_setD [of "swap_at us i ?j" us] by simp
      then have "is_heap lt n (fst (heap_down lt us i n))"
        unfolding eq
        using heap_down_move [OF C _ moved(1) refl moved(2) edges bypass] j us(2)
        by (intro heap_down_heap) auto
      then show ?thesis using True False down us nth [of n] i by (simp add: zs_def)
    next
      case stay: False
      then have "snd (heap_down lt us i n) = i" using heap_down_frame [of n us i lt] us(2) i by auto
      then have same: "fst (heap_down lt us i n) = us" "2 * i + 1 \<ge> n \<or> \<not> lt (us ! best_child lt us i n) (us ! i)"
        using heap_down_stays [of n us i lt] us(2) i by auto
      have "edge_ok lt us k" if "0 < k" "k < n" "k \<noteq> i" for k
        using stop_children [OF C _ i same(2), of k] edges us(2) that by auto
      then have "is_heap lt n (heap_up lt us i)"
        using C i us(2) bypass by (intro heap_up_heap) auto
      then show ?thesis
        using stay False same(1) us heap_up_frame [of i us lt] i nth [of n] by (auto simp: zs_def)
    qed
  qed
  then show ?thesis using cut_last [of zs n] res len by auto
qed

end

end
