(* ===== verification/Mempool.thy ===== *)
theory Mempool
  imports Transactions GoHeap
begin

text \<open>
  \<open>pkg/mempool/mempool.go\<close>: the fee-ordered pool of pending transactions, a binary max-heap with two
  index maps: transactions by id and pending ids by sender and nonce. Transactions are values: the
  pool and its maps hold the same pointer in Go, which nothing writes after admission. The heap
  positions that \<open>txEntry.index\<close> stores are written and never read, and the map \<open>index\<close> is never used;
  they are left out, as are the eviction goroutine (\<open>Start\<close>, \<open>Stop\<close>), which calls \<open>EvictStale\<close>, and the
  mutex. The admission checker is a function held in the state; \<open>clk\<close> is the clock and \<open>order\<close> an
  iteration order.
\<close>

datatype mempool_error =
  ErrMempoolFull f64 | ErrDuplicateTx | ErrNonceAlreadyPending string u64 string | ErrNotAdmitted string

record MempoolConfig =
  MaxSize :: int
  MaxTxAge :: int
  EvictInterval :: int

record Mempool =
  pq :: "Tx list"
  lookup :: "(string, Tx) fmap"
  senderNonces :: "(string, (u64, string) fmap) fmap"
  mp_cfg :: MempoolConfig
  admitErr :: "(Tx \<Rightarrow> string option) option"

definition minute :: int where
  "minute = 60000000000"

definition mempool_DefaultConfig :: MempoolConfig where
  "mempool_DefaultConfig = \<lparr>MaxSize = 10000, MaxTxAge = 30 * minute, EvictInterval = 15000000000\<rparr>"

definition NewMempool :: "MempoolConfig \<Rightarrow> Mempool" where
  "NewMempool cfg =
     (let cfg = (if MaxSize cfg \<le> 0 then cfg\<lparr>MaxSize := 10000\<rparr> else cfg);
          cfg = (if MaxTxAge cfg \<le> 0 then cfg\<lparr>MaxTxAge := 30 * minute\<rparr> else cfg);
          cfg = (if EvictInterval cfg \<le> 0 then cfg\<lparr>EvictInterval := 15000000000\<rparr> else cfg)
      in \<lparr>pq = [], lookup = fmempty, senderNonces = fmempty, mp_cfg = cfg, admitErr = None\<rparr>)"

definition SetAdmissionChecker :: "(Tx \<Rightarrow> string option) option \<Rightarrow> Mempool \<Rightarrow> Mempool" where
  "SetAdmissionChecker fn m = m\<lparr>admitErr := fn\<rparr>"

definition priority :: "Tx \<Rightarrow> f64" where
  "priority tx = Fee tx"

definition pq_less :: "Tx \<Rightarrow> Tx \<Rightarrow> bool" where
  "pq_less t u = fless (priority u) (priority t)"

definition tracksConsensusNonce :: "Tx \<Rightarrow> bool" where
  "tracksConsensusNonce tx \<longleftrightarrow> Sender tx \<noteq> [] \<and> TxContractID tx \<noteq> []"

definition pendingNonceLocked :: "Tx \<Rightarrow> Mempool \<Rightarrow> string option" where
  "pendingNonceLocked tx m =
     (if \<not> tracksConsensusNonce tx then None
      else case fmlookup (senderNonces m) (Sender tx) of
             None \<Rightarrow> None | Some byNonce \<Rightarrow> fmlookup byNonce (TxNonce tx))"

definition trackNonceLocked :: "Tx \<Rightarrow> Mempool \<Rightarrow> Mempool" where
  "trackNonceLocked tx m =
     (if \<not> tracksConsensusNonce tx then m
      else let byNonce = (case fmlookup (senderNonces m) (Sender tx) of None \<Rightarrow> fmempty | Some b \<Rightarrow> b)
           in m\<lparr>senderNonces := fmupd (Sender tx) (fmupd (TxNonce tx) (TxID tx) byNonce) (senderNonces m)\<rparr>)"

definition untrackNonceLocked :: "Tx \<Rightarrow> Mempool \<Rightarrow> Mempool" where
  "untrackNonceLocked tx m =
     (if \<not> tracksConsensusNonce tx then m
      else case fmlookup (senderNonces m) (Sender tx) of
             None \<Rightarrow> m
           | Some byNonce \<Rightarrow>
               if (case fmlookup byNonce (TxNonce tx) of None \<Rightarrow> [] | Some tid \<Rightarrow> tid) \<noteq> TxID tx then m
               else let byNonce = fmdrop (TxNonce tx) byNonce
                    in if map_len byNonce = 0
                       then m\<lparr>senderNonces := fmdrop (Sender tx) (senderNonces m)\<rparr>
                       else m\<lparr>senderNonces := fmupd (Sender tx) byNonce (senderNonces m)\<rparr>)"

text \<open>The position of the first entry with an id, the search loop of \<open>removeLocked\<close>.\<close>

fun find_id :: "string \<Rightarrow> Tx list \<Rightarrow> nat option" where
  "find_id tid [] = None"
| "find_id tid (t # ts) = (if TxID t = tid then Some 0 else map_option Suc (find_id tid ts))"

definition removeLocked :: "string \<Rightarrow> Mempool \<Rightarrow> bool \<times> Mempool" where
  "removeLocked tid m =
     (case fmlookup (lookup m) tid of
        None \<Rightarrow> (False, m)
      | Some tx \<Rightarrow>
          (case find_id tid (pq m) of
             Some i \<Rightarrow>
               let (e, rest) = heap_remove pq_less i (pq m);
                   m = m\<lparr>pq := rest, lookup := fmdrop tid (lookup m)\<rparr>
               in (True, untrackNonceLocked e m)
           | None \<Rightarrow>
               let m = untrackNonceLocked tx m in (False, m\<lparr>lookup := fmdrop tid (lookup m)\<rparr>)))"

text \<open>The scan over the second half of the slice for the lowest priority.\<close>

fun min_scan :: "Tx list \<Rightarrow> nat \<Rightarrow> nat list \<Rightarrow> nat" where
  "min_scan ts minIdx [] = minIdx"
| "min_scan ts minIdx (i # is) =
     min_scan ts (if fless (priority (ts ! i)) (priority (ts ! minIdx)) then i else minIdx) is"

definition lowest_index :: "Tx list \<Rightarrow> nat" where
  "lowest_index ts = (let h = length ts div 2 in min_scan ts h [h + 1..<length ts])"

definition insert_tx :: "Tx \<Rightarrow> Mempool \<Rightarrow> Mempool" where
  "insert_tx tx m =
     trackNonceLocked tx
       (m\<lparr>pq := heap_push pq_less tx (pq m), lookup := fmupd (TxID tx) tx (lookup m)\<rparr>)"

text \<open>
  The common end of \<open>Add\<close> and \<open>RestoreTransactions\<close>: stamp the admission time, make room when the
  pool is full, insert. \<open>Inl\<close> is the fee that was not exceeded.
\<close>

definition admit_tx :: "go_time \<Rightarrow> Tx \<Rightarrow> Mempool \<Rightarrow> f64 + Mempool" where
  "admit_tx now tx m =
     (let tx = (if AddedAt tx = 0 then tx\<lparr>AddedAt := now\<rparr> else tx)
      in if int (length (pq m)) \<ge> MaxSize (mp_cfg m)
         then let lowest = pq m ! lowest_index (pq m)
              in if fle (priority tx) (priority lowest) then Inl (priority lowest)
                 else Inr (insert_tx tx (snd (removeLocked (TxID lowest) m)))
         else Inr (insert_tx tx m))"

definition Add :: "clock \<Rightarrow> Tx \<Rightarrow> Mempool \<Rightarrow> mempool_error + Mempool" where
  "Add clk tx m =
     (if fmlookup (lookup m) (TxID tx) \<noteq> None then Inl ErrDuplicateTx
      else case pendingNonceLocked tx m of
        Some existingID \<Rightarrow> Inl (ErrNonceAlreadyPending (Sender tx) (TxNonce tx) existingID)
      | None \<Rightarrow>
          (case (case admitErr m of None \<Rightarrow> None | Some fn \<Rightarrow> fn tx) of
             Some e \<Rightarrow> Inl (ErrNotAdmitted e)
           | None \<Rightarrow>
               (case admit_tx (clk 0) tx m of
                  Inl fee \<Rightarrow> Inl (ErrMempoolFull fee) | Inr m \<Rightarrow> Inr m)))"

text \<open>A nil transaction in the slice is \<open>None\<close>; \<open>clk i\<close> is the reading for the \<open>i\<close>-th element.\<close>

fun RestoreTransactions :: "clock \<Rightarrow> Tx option list \<Rightarrow> Mempool \<Rightarrow> Mempool" where
  "RestoreTransactions clk [] m = m"
| "RestoreTransactions clk (None # txs) m = RestoreTransactions (clk \<circ> Suc) txs m"
| "RestoreTransactions clk (Some tx # txs) m =
     RestoreTransactions (clk \<circ> Suc) txs
       (if fmlookup (lookup m) (TxID tx) \<noteq> None \<or> pendingNonceLocked tx m \<noteq> None then m
        else case admit_tx (clk 0) tx m of Inl _ \<Rightarrow> m | Inr m' \<Rightarrow> m')"

definition take_top :: "Mempool \<Rightarrow> Tx \<times> Mempool" where
  "take_top m =
     (let (tx, rest) = heap_pop pq_less (pq m)
      in (tx, untrackNonceLocked tx (m\<lparr>pq := rest, lookup := fmdrop (TxID tx) (lookup m)\<rparr>)))"

definition Pop :: "Mempool \<Rightarrow> Tx option \<times> Mempool" where
  "Pop m = (if pq m = [] then (None, m) else let (tx, m) = take_top m in (Some tx, m))"

definition Peek :: "Mempool \<Rightarrow> Tx option" where
  "Peek m = (if pq m = [] then None else Some (pq m ! 0))"

definition Mempool_Get :: "string \<Rightarrow> Mempool \<Rightarrow> Tx option" where
  "Mempool_Get tid m = fmlookup (lookup m) tid"

definition Remove :: "string \<Rightarrow> Mempool \<Rightarrow> bool \<times> Mempool" where
  "Remove tid m = removeLocked tid m"

definition Mempool_Size :: "Mempool \<Rightarrow> nat" where
  "Mempool_Size m = length (pq m)"

definition EvictStale :: "string list \<Rightarrow> clock \<Rightarrow> Mempool \<Rightarrow> nat \<times> Mempool" where
  "EvictStale order clk m =
     (let cutoff = clk 0 - MaxTxAge (mp_cfg m);
          stale = filter (\<lambda>tid. case fmlookup (lookup m) tid of None \<Rightarrow> False | Some tx \<Rightarrow> AddedAt tx < cutoff) order
      in (length stale, fold (\<lambda>tid m. snd (removeLocked tid m)) stale m))"

fun drain_loop :: "nat \<Rightarrow> Mempool \<Rightarrow> Tx list \<times> Mempool" where
  "drain_loop 0 m = ([], m)"
| "drain_loop (Suc n) m = (let (tx, m) = take_top m; (txs, m) = drain_loop n m in (tx # txs, m))"

definition Drain :: "int \<Rightarrow> Mempool \<Rightarrow> Tx list \<times> Mempool" where
  "Drain max_txs m =
     (if max_txs \<le> 0 \<or> pq m = [] then ([], m)
      else drain_loop (min (nat max_txs) (length (pq m))) m)"

definition Mempool_Stats :: "Mempool \<Rightarrow> nat \<times> int \<times> f64" where
  "Mempool_Stats m = (length (pq m), MaxSize (mp_cfg m), if pq m = [] then fzero else Fee (pq m ! 0))"

end
