(* ===== verification/MempoolProofs.thy ===== *)
theory MempoolProofs
  imports Mempool
begin

text \<open>
  The pool of pending transactions: the heap, the id index and the nonce index stay consistent under
  every operation; draining takes the best fees in order; a full pool gives up its cheapest
  transaction and only for a better one. Fees are not NaN: a comparison with NaN is false both ways
  and no order is left to prove.
\<close>

interpretation by_fee: weak_less pq_less "{t. Fee t \<noteq> NaN}"
proof
  fix a b c :: Tx
  show "pq_less a b \<Longrightarrow> \<not> pq_less b a"
    by (cases "Fee a"; cases "Fee b") (auto simp: pq_less_def priority_def)
  assume "b \<in> {t. Fee t \<noteq> NaN}" "\<not> pq_less b a" "\<not> pq_less c b"
  then show "\<not> pq_less c a"
    by (cases "Fee a"; cases "Fee b"; cases "Fee c") (auto simp: pq_less_def priority_def split: if_splits)
qed

section \<open>The nonce index\<close>

definition pending :: "Mempool \<Rightarrow> string \<Rightarrow> u64 \<Rightarrow> string option" where
  "pending m s n = (case fmlookup (senderNonces m) s of None \<Rightarrow> None | Some b \<Rightarrow> fmlookup b n)"

lemma map_len_zero: "map_len m = 0 \<longleftrightarrow> m = fmempty"
  by (metis fcard_0_eq fmdom_empty fmrestrict_fset_dom fmrestrict_fset_null map_len_def)

lemma pendingNonceLocked_pending:
  "pendingNonceLocked tx m = (if tracksConsensusNonce tx then pending m (Sender tx) (TxNonce tx) else None)"
  by (simp add: pendingNonceLocked_def pending_def)

lemma track_frame [simp]:
  "pq (trackNonceLocked tx m) = pq m" "lookup (trackNonceLocked tx m) = lookup m"
  "mp_cfg (trackNonceLocked tx m) = mp_cfg m" "admitErr (trackNonceLocked tx m) = admitErr m"
  by (simp_all add: trackNonceLocked_def Let_def)

lemma untrack_frame [simp]:
  "pq (untrackNonceLocked tx m) = pq m" "lookup (untrackNonceLocked tx m) = lookup m"
  "mp_cfg (untrackNonceLocked tx m) = mp_cfg m" "admitErr (untrackNonceLocked tx m) = admitErr m"
  by (simp_all add: untrackNonceLocked_def Let_def split: option.split)

lemma pending_track:
  "pending (trackNonceLocked tx m) s n =
     (if tracksConsensusNonce tx \<and> s = Sender tx \<and> n = TxNonce tx then Some (TxID tx) else pending m s n)"
  by (auto simp: trackNonceLocked_def pending_def Let_def split: option.split)

lemma pending_untrack:
  assumes "tracksConsensusNonce tx \<Longrightarrow> pending m (Sender tx) (TxNonce tx) = Some (TxID tx)"
  shows "pending (untrackNonceLocked tx m) s n =
    (if tracksConsensusNonce tx \<and> s = Sender tx \<and> n = TxNonce tx then None else pending m s n)"
proof (cases "tracksConsensusNonce tx")
  case True
  then obtain b where b: "fmlookup (senderNonces m) (Sender tx) = Some b" "fmlookup b (TxNonce tx) = Some (TxID tx)"
    using assms by (auto simp: pending_def split: option.splits)
  have "fmlookup (fmdrop (TxNonce tx) b) n = None" if "map_len (fmdrop (TxNonce tx) b) = 0"
    using that by (simp add: map_len_zero)
  then show ?thesis
    using True b by (auto simp: untrackNonceLocked_def pending_def Let_def split: option.split)
qed (simp add: untrackNonceLocked_def)

section \<open>The invariant\<close>

definition index_ok :: "Mempool \<Rightarrow> bool" where
  "index_ok m \<longleftrightarrow>
     distinct (map TxID (pq m)) \<and>
     (\<forall>tid tx. fmlookup (lookup m) tid = Some tx \<longleftrightarrow> tx \<in> set (pq m) \<and> TxID tx = tid) \<and>
     (\<forall>s n tid. pending m s n = Some tid \<longleftrightarrow>
        (\<exists>t \<in> set (pq m). tracksConsensusNonce t \<and> Sender t = s \<and> TxNonce t = n \<and> TxID t = tid))"

definition heap_ok :: "Mempool \<Rightarrow> bool" where
  "heap_ok m \<longleftrightarrow> is_heap pq_less (length (pq m)) (pq m) \<and> set (pq m) \<subseteq> {t. Fee t \<noteq> NaN}"

definition pool_inv :: "Mempool \<Rightarrow> bool" where
  "pool_inv m \<longleftrightarrow> heap_ok m \<and> index_ok m \<and> int (length (pq m)) \<le> MaxSize (mp_cfg m) \<and> 0 < MaxSize (mp_cfg m)"

lemma index_okD:
  assumes "index_ok m"
  shows "distinct (map TxID (pq m))"
    and "fmlookup (lookup m) tid = Some tx \<longleftrightarrow> tx \<in> set (pq m) \<and> TxID tx = tid"
    and "pending m s n = Some tid \<longleftrightarrow>
        (\<exists>t \<in> set (pq m). tracksConsensusNonce t \<and> Sender t = s \<and> TxNonce t = n \<and> TxID t = tid)"
  using assms by (auto simp: index_ok_def)

text \<open>Adding and removing one transaction, whatever the heap does with the order.\<close>

lemma index_ok_add:
  assumes ok: "index_ok m" and "fmlookup (lookup m) (TxID tx) = None" and free: "pendingNonceLocked tx m = None"
    and ts: "mset ts = add_mset tx (mset (pq m))"
  shows "index_ok (trackNonceLocked tx (m\<lparr>pq := ts, lookup := fmupd (TxID tx) tx (lookup m)\<rparr>))"
proof -
  have new: "TxID tx \<notin> TxID ` set (pq m)"
    using assms(2) index_okD(2) [OF ok, of "TxID tx"] by force
  have "mset (map TxID ts) = mset (map TxID (tx # pq m))" using ts by simp
  then have "distinct (map TxID ts)"
    using new index_okD(1) [OF ok] mset_eq_imp_distinct_iff [of "map TxID ts" "map TxID (tx # pq m)"] by simp
  moreover have set: "set ts = insert tx (set (pq m))" using ts by (metis set_mset_add_mset_insert set_mset_mset)
  moreover have "pending (m\<lparr>pq := ts, lookup := l\<rparr>) = pending m" for l by (simp add: pending_def fun_eq_iff)
  moreover have "TxID t \<noteq> TxID tx" if "t \<in> set (pq m)" for t using new that by (metis imageI)
  moreover have "TxNonce t \<noteq> TxNonce tx"
    if "tracksConsensusNonce tx" "t \<in> set (pq m)" "tracksConsensusNonce t" "Sender t = Sender tx" for t
    using free that index_okD(3) [OF ok, of "Sender tx" "TxNonce tx" "TxID t"]
    by (auto simp: pendingNonceLocked_pending)
  ultimately show ?thesis
    using index_okD(2,3) [OF ok] by (auto simp: index_ok_def pending_track split: if_splits)
qed

lemma index_ok_del:
  assumes ok: "index_ok m" and ts: "mset (pq m) = add_mset tx (mset ts)"
  shows "index_ok (untrackNonceLocked tx (m\<lparr>pq := ts, lookup := fmdrop (TxID tx) (lookup m)\<rparr>))"
proof -
  have set: "set (pq m) = insert tx (set ts)" using ts by (metis set_mset_add_mset_insert set_mset_mset)
  have "mset (map TxID (pq m)) = mset (map TxID (tx # ts))" using ts by simp
  then have d: "distinct (map TxID (tx # ts))" using index_okD(1) [OF ok] mset_eq_imp_distinct_iff by blast
  have other: "TxID t \<noteq> TxID tx" if "t \<in> set ts" for t
    using d that by (metis distinct.simps(2) imageI list.simps(9) set_map)
  have pend: "pending (m\<lparr>pq := ts, lookup := l\<rparr>) = pending m" for l by (simp add: pending_def fun_eq_iff)
  have mine: "pending m (Sender tx) (TxNonce tx) = Some (TxID tx)" if "tracksConsensusNonce tx"
    using index_okD(3) [OF ok] set that by auto
  have unique: "tid = TxID tx" if "tracksConsensusNonce tx" "t \<in> set ts" "tracksConsensusNonce t"
    "Sender t = Sender tx" "TxNonce t = TxNonce tx" "TxID t = tid" for t tid
    using index_okD(3) [OF ok, of "Sender tx" "TxNonce tx" tid] mine [OF that(1)] set that by auto
  have un: "pending (untrackNonceLocked tx (m\<lparr>pq := ts, lookup := fmdrop (TxID tx) (lookup m)\<rparr>)) s n =
    (if tracksConsensusNonce tx \<and> s = Sender tx \<and> n = TxNonce tx then None else pending m s n)" for s n
    using pending_untrack [of tx "m\<lparr>pq := ts, lookup := fmdrop (TxID tx) (lookup m)\<rparr>"] mine by (simp add: pend)
  have "pending (untrackNonceLocked tx (m\<lparr>pq := ts, lookup := fmdrop (TxID tx) (lookup m)\<rparr>)) s n = Some tid \<longleftrightarrow>
      (\<exists>t \<in> set ts. tracksConsensusNonce t \<and> Sender t = s \<and> TxNonce t = n \<and> TxID t = tid)" for s n tid
  proof (cases "tracksConsensusNonce tx \<and> s = Sender tx \<and> n = TxNonce tx")
    case True
    then show ?thesis using unique other by (auto simp: un)
  next
    case False
    then show ?thesis using index_okD(3) [OF ok, of s n tid] set by (auto simp: un)
  qed
  moreover have "fmlookup (fmdrop (TxID tx) (lookup m)) tid = Some t \<longleftrightarrow> t \<in> set ts \<and> TxID t = tid" for tid t
    using index_okD(2) [OF ok, of tid t] set other by auto
  ultimately show ?thesis using d by (simp add: index_ok_def)
qed

section \<open>Operations\<close>

lemma heap_ok_len: "heap_ok m \<Longrightarrow> is_heap pq_less (length (pq m)) (pq m)" "heap_ok m \<Longrightarrow> set (pq m) \<subseteq> {t. Fee t \<noteq> NaN}"
  by (simp_all add: heap_ok_def)

lemma insert_tx_inv:
  assumes "heap_ok m" "index_ok m" "fmlookup (lookup m) (TxID tx) = None" "pendingNonceLocked tx m = None"
    and "Fee tx \<noteq> NaN"
  shows "heap_ok (insert_tx tx m) \<and> index_ok (insert_tx tx m) \<and>
    mset (pq (insert_tx tx m)) = add_mset tx (mset (pq m)) \<and> mp_cfg (insert_tx tx m) = mp_cfg m"
proof -
  have push: "is_heap pq_less (Suc (length (pq m))) (heap_push pq_less tx (pq m))"
    "mset (heap_push pq_less tx (pq m)) = add_mset tx (mset (pq m))"
    "length (heap_push pq_less tx (pq m)) = Suc (length (pq m))"
    using by_fee.heap_push_correct [OF heap_ok_len [OF assms(1)], of tx] assms(5) by auto
  have "set (heap_push pq_less tx (pq m)) = insert tx (set (pq m))"
    using push(2) by (metis set_mset_add_mset_insert set_mset_mset)
  then show ?thesis
    using push index_ok_add [OF assms(2-4) push(2)] heap_ok_len(2) [OF assms(1)] assms(5)
    by (auto simp: insert_tx_def heap_ok_def)
qed

lemma find_id_Some: "find_id tid ts = Some i \<Longrightarrow> i < length ts \<and> TxID (ts ! i) = tid"
  by (induction ts arbitrary: i) (auto split: if_splits)

lemma find_id_None: "find_id tid ts = None \<longleftrightarrow> tid \<notin> TxID ` set ts"
  by (induction ts) auto

lemma removeLocked_spec:
  assumes "heap_ok m" "index_ok m" "fmlookup (lookup m) tid = Some tx"
  shows "\<exists>m'. removeLocked tid m = (True, m') \<and> heap_ok m' \<and> index_ok m' \<and>
    mset (pq m) = add_mset tx (mset (pq m')) \<and> mp_cfg m' = mp_cfg m \<and> lookup m' = fmdrop tid (lookup m) \<and>
    admitErr m' = admitErr m"
proof -
  have tx: "tx \<in> set (pq m)" "TxID tx = tid" using assms(3) index_okD(2) [OF assms(2)] by auto
  then obtain i where i: "find_id tid (pq m) = Some i" using find_id_None [of tid "pq m"] by (cases "find_id tid (pq m)") auto
  have at: "i < length (pq m)" "TxID (pq m ! i) = tid" using find_id_Some [OF i] by auto
  then have e: "pq m ! i = tx"
    using tx index_okD(1) [OF assms(2)] by (metis distinct_map inj_on_def nth_mem)
  obtain x rest where r: "heap_remove pq_less i (pq m) = (x, rest)" by fastforce
  have rem: "x = tx" "mset (pq m) = add_mset tx (mset rest)" "is_heap pq_less (length rest) rest"
    using by_fee.heap_remove_correct [OF heap_ok_len [OF assms(1)] at(1) r] e by auto
  have "set rest \<subseteq> {t. Fee t \<noteq> NaN}"
    using rem(2) heap_ok_len(2) [OF assms(1)] by (metis insert_subset set_mset_add_mset_insert set_mset_mset)
  then show ?thesis
    using assms(3) i r rem index_ok_del [OF assms(2) rem(2)] tx(2)
    by (simp add: removeLocked_def heap_ok_def)
qed

lemma removeLocked_absent: "fmlookup (lookup m) tid = None \<Longrightarrow> removeLocked tid m = (False, m)"
  by (simp add: removeLocked_def)

lemma take_top_spec:
  assumes "heap_ok m" "index_ok m" "pq m \<noteq> []" "take_top m = (tx, m')"
  shows "tx = pq m ! 0 \<and> heap_ok m' \<and> index_ok m' \<and> mset (pq m) = add_mset tx (mset (pq m')) \<and>
    mp_cfg m' = mp_cfg m \<and> admitErr m' = admitErr m"
proof -
  obtain x rest where r: "heap_pop pq_less (pq m) = (x, rest)" by fastforce
  have pop: "x = pq m ! 0" "mset (pq m) = add_mset x (mset rest)" "is_heap pq_less (length rest) rest"
    using by_fee.heap_pop_correct [OF heap_ok_len [OF assms(1)] assms(3) r] by auto
  have "set rest \<subseteq> {t. Fee t \<noteq> NaN}"
    using pop(2) heap_ok_len(2) [OF assms(1)] by (metis insert_subset set_mset_add_mset_insert set_mset_mset)
  then show ?thesis
    using assms(4) r pop index_ok_del [OF assms(2) pop(2)] by (auto simp: take_top_def heap_ok_def)
qed

lemma top_is_best:
  assumes "heap_ok m" "t \<in> set (pq m)"
  shows "\<not> fless (Fee (pq m ! 0)) (Fee t)"
proof -
  obtain k where "k < length (pq m)" "t = pq m ! k" using assms(2) by (metis in_set_conv_nth)
  then show ?thesis
    using by_fee.root_first [OF heap_ok_len [OF assms(1)], of k] by (simp add: pq_less_def priority_def)
qed

text \<open>The scan over the leaves finds the cheapest transaction of the whole pool.\<close>

lemma min_scan_spec:
  assumes "\<forall>i \<in> insert b (set is). Fee (ts ! i) \<noteq> NaN"
  shows "min_scan ts b is \<in> insert b (set is) \<and>
    (\<forall>i \<in> insert b (set is). \<not> fless (Fee (ts ! i)) (Fee (ts ! min_scan ts b is)))"
  using assms
proof (induction ts b "is" rule: min_scan.induct)
  case (1 ts b)
  then show ?case by (cases "Fee (ts ! b)") auto
next
  case (2 ts b i "is")
  let ?b = "if fless (Fee (ts ! i)) (Fee (ts ! b)) then i else b"
  have IH: "min_scan ts ?b is \<in> insert ?b (set is)"
    "\<And>k. k \<in> insert ?b (set is) \<Longrightarrow> \<not> fless (Fee (ts ! k)) (Fee (ts ! min_scan ts ?b is))"
    using 2 by (auto simp: priority_def split: if_splits)
  have "\<not> fless (Fee (ts ! i)) (Fee (ts ! ?b))" "\<not> fless (Fee (ts ! b)) (Fee (ts ! ?b))"
    using fless_asym [of "Fee (ts ! i)" "Fee (ts ! b)"] fless_asym [of "Fee (ts ! b)" "Fee (ts ! b)"]
      fless_asym [of "Fee (ts ! i)" "Fee (ts ! i)"] by (auto split: if_splits)
  then have "\<not> fless (Fee (ts ! i)) (Fee (ts ! min_scan ts ?b is))" "\<not> fless (Fee (ts ! b)) (Fee (ts ! min_scan ts ?b is))"
    using IH(2) [of ?b] not_fless_trans [of "Fee (ts ! ?b)" "Fee (ts ! i)" "Fee (ts ! min_scan ts ?b is)"]
      not_fless_trans [of "Fee (ts ! ?b)" "Fee (ts ! b)" "Fee (ts ! min_scan ts ?b is)"] "2.prems" by auto
  then show ?case using IH by (auto simp: priority_def split: if_splits)
qed

lemma lowest_is_cheapest:
  assumes "heap_ok m" "pq m \<noteq> []"
  shows "lowest_index (pq m) < length (pq m) \<and>
    (\<forall>t \<in> set (pq m). \<not> fless (Fee t) (Fee (pq m ! lowest_index (pq m))))"
proof
  let ?h = "length (pq m) div 2" and ?l = "lowest_index (pq m)"
  have h: "?h < length (pq m)" using assms(2) by (cases "pq m") auto
  have range: "insert ?h (set [?h + 1..<length (pq m)]) = {?h..<length (pq m)}" using h by auto
  have nan: "Fee (pq m ! i) \<noteq> NaN" if "i < length (pq m)" for i
    using heap_ok_len(2) [OF assms(1)] nth_mem [OF that] by auto
  have min: "?l \<in> {?h..<length (pq m)}" "\<forall>i \<in> {?h..<length (pq m)}. \<not> fless (Fee (pq m ! i)) (Fee (pq m ! ?l))"
    using min_scan_spec [of ?h "[?h + 1..<length (pq m)]" "pq m"] nan
    unfolding range lowest_index_def Let_def by auto
  then show "?l < length (pq m)" by simp
  show "\<forall>t \<in> set (pq m). \<not> fless (Fee t) (Fee (pq m ! ?l))"
  proof
    fix t assume "t \<in> set (pq m)"
    then obtain k where k: "k < length (pq m)" "t = pq m ! k" by (metis in_set_conv_nth)
    obtain l where l: "?h \<le> l" "l < length (pq m)" "\<not> pq_less (pq m ! l) (pq m ! k)"
      using by_fee.leaf_below [OF heap_ok_len [OF assms(1)] k(1)] by blast
    have "\<not> fless (Fee (pq m ! l)) (Fee (pq m ! ?l))" using min(2) l(1,2) by auto
    then show "\<not> fless (Fee t) (Fee (pq m ! ?l))"
      using l not_fless_trans [OF nan [OF l(2)], of "Fee t"] k(2) by (auto simp: pq_less_def priority_def)
  qed
qed

lemma admit_tx_spec:
  assumes "pool_inv m" "fmlookup (lookup m) (TxID tx) = None" "pendingNonceLocked tx m = None" "Fee tx \<noteq> NaN"
    and "admit_tx now tx m = Inr m'"
  shows "pool_inv m' \<and> (\<exists>tx'. TxID tx' = TxID tx \<and> Fee tx' = Fee tx \<and> tx' \<in> set (pq m') \<and>
    (mset (pq m') = add_mset tx' (mset (pq m)) \<or>
     (\<exists>low. low \<in> set (pq m) \<and> mset (pq m) + {#tx'#} = add_mset low (mset (pq m')) \<and>
        fless (Fee low) (Fee tx) \<and> (\<forall>t \<in> set (pq m). \<not> fless (Fee t) (Fee low)) \<and>
        int (length (pq m)) = MaxSize (mp_cfg m))))"
proof -
  define tx' where "tx' = (if AddedAt tx = 0 then tx\<lparr>AddedAt := now\<rparr> else tx)"
  have tx': "TxID tx' = TxID tx" "Fee tx' = Fee tx" "pendingNonceLocked tx' n = pendingNonceLocked tx n" for n
    by (simp_all add: tx'_def pendingNonceLocked_def tracksConsensusNonce_def split: option.split)
  have inv: "heap_ok m" "index_ok m" "int (length (pq m)) \<le> MaxSize (mp_cfg m)" "0 < MaxSize (mp_cfg m)"
    using assms(1) by (simp_all add: pool_inv_def)
  show ?thesis
  proof (cases "int (length (pq m)) \<ge> MaxSize (mp_cfg m)")
    case False
    then have m': "m' = insert_tx tx' m" using assms(5) by (simp add: admit_tx_def Let_def tx'_def)
    have ins: "heap_ok m'" "index_ok m'" "mset (pq m') = add_mset tx' (mset (pq m))" "mp_cfg m' = mp_cfg m"
      using insert_tx_inv [OF inv(1,2), of tx'] assms(2-4) tx' by (simp_all add: m')
    have len: "length (pq m') = Suc (length (pq m))" using arg_cong [OF ins(3), of size] by simp
    have "tx' \<in> set (pq m')" using ins(3) by (metis set_mset_mset union_single_eq_member)
    then show ?thesis using ins len False inv tx' by (auto simp: pool_inv_def)
  next
    case True
    define low where "low = pq m ! lowest_index (pq m)"
    have ne: "pq m \<noteq> []" using True inv(4) by auto
    have low: "low \<in> set (pq m)" "\<forall>t \<in> set (pq m). \<not> fless (Fee t) (Fee low)"
      using lowest_is_cheapest [OF inv(1) ne] by (auto simp: low_def)
    have less: "\<not> fle (priority tx') (priority low)" and m': "m' = insert_tx tx' (snd (removeLocked (TxID low) m))"
      using assms(5) True by (auto simp: admit_tx_def Let_def tx'_def low_def split: if_splits)
    have nan: "Fee low \<noteq> NaN" using heap_ok_len(2) [OF inv(1)] low(1) by auto
    have better: "fless (Fee low) (Fee tx)"
      using less nan assms(4) tx'(2) not_fless_iff [of "Fee low" "Fee tx"] by (auto simp: priority_def)
    have "fmlookup (lookup m) (TxID low) = Some low" using index_okD(2) [OF inv(2)] low(1) by auto
    from removeLocked_spec [OF inv(1,2) this] obtain m1 where m1: "removeLocked (TxID low) m = (True, m1)" "heap_ok m1"
      "index_ok m1" "mset (pq m) = add_mset low (mset (pq m1))" "mp_cfg m1 = mp_cfg m"
      "lookup m1 = fmdrop (TxID low) (lookup m)" by blast
    have "fmlookup (lookup m1) (TxID tx') = None" using m1(6) assms(2) tx'(1) by simp
    moreover have "pendingNonceLocked tx' m1 = None"
    proof (rule ccontr)
      assume "pendingNonceLocked tx' m1 \<noteq> None"
      then obtain tid where t: "tracksConsensusNonce tx'" "pending m1 (Sender tx') (TxNonce tx') = Some tid"
        by (auto simp: pendingNonceLocked_pending split: if_splits)
      have "set (pq m1) \<subseteq> set (pq m)" using m1(4) by (metis set_mset_add_mset_insert set_mset_mset subset_insertI)
      then have "pending m (Sender tx') (TxNonce tx') = Some tid"
        using index_okD(3) [OF m1(3), of "Sender tx'" "TxNonce tx'" tid]
          index_okD(3) [OF inv(2), of "Sender tx'" "TxNonce tx'" tid] t(2) by auto
      then show False using assms(3) tx'(3) [of m] t(1) by (simp add: pendingNonceLocked_pending)
    qed
    ultimately have ins: "heap_ok m'" "index_ok m'" "mset (pq m') = add_mset tx' (mset (pq m1))" "mp_cfg m' = mp_cfg m"
      using insert_tx_inv [OF m1(2,3), of tx'] assms(4) tx'(2) m1(1,5) by (simp_all add: m')
    have len: "length (pq m') = length (pq m)"
      using arg_cong [OF ins(3), of size] arg_cong [OF m1(4), of size] by simp
    have "tx' \<in> set (pq m')" using ins(3) by (metis set_mset_mset union_single_eq_member)
    moreover have "mset (pq m) + {#tx'#} = add_mset low (mset (pq m'))" using ins(3) m1(4) by simp
    ultimately show ?thesis
      using ins len inv tx' low better True by (auto simp: pool_inv_def)
  qed
qed

inductive pool_step :: "Mempool \<Rightarrow> Mempool \<Rightarrow> bool" where
  add: "Add clk tx m = Inr m' \<Longrightarrow> Fee tx \<noteq> NaN \<Longrightarrow> pool_step m m'"
| restore: "(\<forall>tx. Some tx \<in> set txs \<longrightarrow> Fee tx \<noteq> NaN) \<Longrightarrow> pool_step m (RestoreTransactions clk txs m)"
| pop: "pool_step m (snd (Pop m))"
| remove: "pool_step m (snd (Remove tid m))"
| evict: "pool_step m (snd (EvictStale order clk m))"
| drain: "pool_step m (snd (Drain k m))"
| set_checker: "pool_step m (SetAdmissionChecker fn m)"

lemma size_del: "mset xs = add_mset x (mset ys) \<Longrightarrow> length xs = Suc (length ys)"
  by (metis size_add_mset size_mset)

lemma pool_inv_remove: "pool_inv m \<Longrightarrow> pool_inv (snd (removeLocked tid m))"
proof (cases "fmlookup (lookup m) tid")
  case (Some tx)
  assume "pool_inv m"
  with removeLocked_spec [OF _ _ Some] size_del show ?thesis by (fastforce simp: pool_inv_def)
qed (simp add: removeLocked_absent)

lemma pool_inv_evict: "pool_inv m \<Longrightarrow> pool_inv (fold (\<lambda>tid m. snd (removeLocked tid m)) ids m)"
  by (induction ids arbitrary: m) (auto intro: pool_inv_remove)

lemma pool_inv_top:
  assumes "pool_inv m" "pq m \<noteq> []" "take_top m = (tx, m')"
  shows "pool_inv m'" "length (pq m) = Suc (length (pq m'))"
proof -
  have "heap_ok m" "index_ok m" using assms(1) by (simp_all add: pool_inv_def)
  from take_top_spec [OF this assms(2,3)] have t: "heap_ok m'" "index_ok m'"
    "mset (pq m) = add_mset tx (mset (pq m'))" "mp_cfg m' = mp_cfg m" by auto
  show "length (pq m) = Suc (length (pq m'))" by (rule size_del [OF t(3)])
  with t assms(1) show "pool_inv m'" by (simp add: pool_inv_def)
qed

lemma drain_loop_spec:
  assumes "pool_inv m" "n \<le> length (pq m)" "drain_loop n m = (txs, m')"
  shows "pool_inv m' \<and> length txs = n \<and> mset (pq m) = mset txs + mset (pq m') \<and>
    sorted_wrt (\<lambda>t u. \<not> fless (Fee t) (Fee u)) txs \<and>
    (\<forall>t \<in> set txs. \<forall>u \<in> set (pq m'). \<not> fless (Fee t) (Fee u))"
  using assms
proof (induction n arbitrary: m txs)
  case (Suc n)
  obtain t m1 ts where t: "take_top m = (t, m1)" "drain_loop n m1 = (ts, m')" "txs = t # ts"
    using Suc.prems(3) by (auto split: prod.splits)
  have ne: "pq m \<noteq> []" using Suc.prems(2) by auto
  have inv: "heap_ok m" "index_ok m" using Suc.prems(1) by (simp_all add: pool_inv_def)
  have top: "t = pq m ! 0" "mset (pq m) = add_mset t (mset (pq m1))" using take_top_spec [OF inv ne t(1)] by auto
  have IH: "pool_inv m'" "length ts = n" "mset (pq m1) = mset ts + mset (pq m')"
    "sorted_wrt (\<lambda>t u. \<not> fless (Fee t) (Fee u)) ts" "\<forall>t \<in> set ts. \<forall>u \<in> set (pq m'). \<not> fless (Fee t) (Fee u)"
    using Suc.IH [OF pool_inv_top(1) [OF Suc.prems(1) ne t(1)] _ t(2)] pool_inv_top(2) [OF Suc.prems(1) ne t(1)]
      Suc.prems(2) by auto
  have sub: "set ts \<union> set (pq m') \<subseteq> set (pq m)"
    using top(2) IH(3) by (metis set_mset_add_mset_insert set_mset_mset set_mset_union subset_insertI)
  have "\<not> fless (Fee t) (Fee u)" if "u \<in> set ts \<union> set (pq m')" for u
    using top_is_best [OF inv(1)] sub that top(1) by auto
  then show ?case using IH top t(3) by auto
qed simp

lemma pool_inv_restore:
  "pool_inv m \<Longrightarrow> \<forall>tx. Some tx \<in> set txs \<longrightarrow> Fee tx \<noteq> NaN \<Longrightarrow> pool_inv (RestoreTransactions clk txs m)"
proof (induction clk txs m rule: RestoreTransactions.induct)
  case (3 clk tx txs m)
  let ?m = "if fmlookup (lookup m) (TxID tx) \<noteq> None \<or> pendingNonceLocked tx m \<noteq> None then m
    else case admit_tx (clk 0) tx m of Inl _ \<Rightarrow> m | Inr m' \<Rightarrow> m'"
  have "pool_inv ?m"
    using "3.prems" admit_tx_spec [of m tx "clk 0"] by (auto split: sum.split)
  moreover have "\<forall>tx. Some tx \<in> set txs \<longrightarrow> Fee tx \<noteq> NaN" using "3.prems" by simp
  ultimately show ?case unfolding RestoreTransactions.simps by (rule "3.IH")
qed simp_all

lemma pool_step_inv: "pool_step m m' \<Longrightarrow> pool_inv m \<Longrightarrow> pool_inv m'"
proof (induction rule: pool_step.induct)
  case (add clk tx m m')
  then show ?case
    using admit_tx_spec [of m tx "clk 0" m'] by (auto simp: Add_def split: if_splits option.splits sum.splits)
next
  case (pop m)
  then show ?case using pool_inv_top(1) by (auto simp: Pop_def split: prod.splits)
next
  case (drain m k)
  then show ?case
    using drain_loop_spec [of m "min (nat k) (length (pq m))"]
    by (cases "drain_loop (min (nat k) (length (pq m))) m") (auto simp: Drain_def)
next
  case (set_checker m fn)
  then show ?case
    by (simp add: SetAdmissionChecker_def pool_inv_def heap_ok_def index_ok_def pending_def)
qed (auto simp: Remove_def EvictStale_def Let_def intro: pool_inv_remove pool_inv_evict pool_inv_restore)

lemma pool_inv_new: "pool_inv (NewMempool cfg)"
  by (simp add: NewMempool_def Let_def pool_inv_def heap_ok_def index_ok_def is_heap_def pending_def)

lemma pool_steps_inv: "pool_step\<^sup>*\<^sup>* m m' \<Longrightarrow> pool_inv m \<Longrightarrow> pool_inv m'"
  by (induction rule: rtranclp_induct) (auto intro: pool_step_inv)

section \<open>Properties\<close>

definition fee_tx :: "string \<Rightarrow> nat \<Rightarrow> Tx" where
  "fee_tx i fee = (transfer ''s'' ''r'' (f_int 1) (f_int fee) 0)\<lparr>TxID := i, AddedAt := 1\<rparr>"

definition small_pool :: Mempool where
  "small_pool = \<lparr>pq = [fee_tx ''b'' 7, fee_tx ''a'' 3],
     lookup = fmupd ''b'' (fee_tx ''b'' 7) (fmupd ''a'' (fee_tx ''a'' 3) fmempty), senderNonces = fmempty,
     mp_cfg = \<lparr>MaxSize = 2, MaxTxAge = 10, EvictInterval = 1\<rparr>, admitErr = None\<rparr>"

lemma fee_tx_simps [simp]:
  "TxID (fee_tx i fee) = i" "Fee (fee_tx i fee) = f_int fee" "AddedAt (fee_tx i fee) = 1"
  "TxContractID (fee_tx i fee) = []" "fee_tx i x = fee_tx j y \<longleftrightarrow> i = j \<and> x = y"
  by (auto simp: fee_tx_def transfer_def)

lemma small_pool_steps:
  "Add (\<lambda>_. 1) (fee_tx ''a'' 3) (NewMempool (mp_cfg small_pool)) =
     Inr (small_pool\<lparr>pq := [fee_tx ''a'' 3], lookup := fmupd ''a'' (fee_tx ''a'' 3) fmempty\<rparr>)"
  "Add (\<lambda>_. 1) (fee_tx ''b'' 7) (small_pool\<lparr>pq := [fee_tx ''a'' 3], lookup := fmupd ''a'' (fee_tx ''a'' 3) fmempty\<rparr>) =
     Inr small_pool"
  by (simp_all add: Add_def NewMempool_def small_pool_def pendingNonceLocked_def tracksConsensusNonce_def
      admit_tx_def insert_tx_def trackNonceLocked_def heap_push_def heap_up.simps [of pq_less] pq_less_def
      priority_def swap_at_def Let_def)

lemma small_pool_reachable: "pool_step\<^sup>*\<^sup>* (NewMempool (mp_cfg small_pool)) small_pool"
proof -
  have "pool_step (NewMempool (mp_cfg small_pool))
      (small_pool\<lparr>pq := [fee_tx ''a'' 3], lookup := fmupd ''a'' (fee_tx ''a'' 3) fmempty\<rparr>)"
    "pool_step (small_pool\<lparr>pq := [fee_tx ''a'' 3], lookup := fmupd ''a'' (fee_tx ''a'' 3) fmempty\<rparr>) small_pool"
    by (rule pool_step.add [OF small_pool_steps(1)], simp) (rule pool_step.add [OF small_pool_steps(2)], simp)
  then show ?thesis by (meson converse_rtranclp_into_rtranclp rtranclp.rtrancl_refl)
qed

text \<open>
  In every pool reached from a new one, the id index holds exactly the queued transactions, no id
  is queued twice, the pool respects its size limit, and two different queued transactions that carry
  a contract tag never have the same sender and nonce.
\<close>

theorem pool_index_consistent:
  assumes "pool_step\<^sup>*\<^sup>* (NewMempool cfg) m"
  shows "int (Mempool_Size m) \<le> MaxSize (mp_cfg m) \<and> distinct (map TxID (pq m)) \<and>
    (\<forall>tid tx. Mempool_Get tid m = Some tx \<longleftrightarrow> tx \<in> set (pq m) \<and> TxID tx = tid) \<and>
    (\<forall>t \<in> set (pq m). \<forall>u \<in> set (pq m). tracksConsensusNonce t \<and> tracksConsensusNonce u \<and>
       Sender t = Sender u \<and> TxNonce t = TxNonce u \<longrightarrow> t = u)"
proof -
  have inv: "index_ok m" "int (length (pq m)) \<le> MaxSize (mp_cfg m)"
    using pool_steps_inv [OF assms pool_inv_new] by (simp_all add: pool_inv_def)
  have "t = u" if "t \<in> set (pq m)" "u \<in> set (pq m)" "tracksConsensusNonce t" "tracksConsensusNonce u"
    "Sender t = Sender u" "TxNonce t = TxNonce u" for t u
  proof -
    have "pending m (Sender u) (TxNonce u) = Some (TxID t)" "pending m (Sender u) (TxNonce u) = Some (TxID u)"
      using index_okD(3) [OF inv(1)] that by blast+
    then have "TxID t = TxID u" by simp
    then show ?thesis using index_okD(1) [OF inv(1)] that by (metis distinct_map inj_on_def)
  qed
  then show ?thesis
    using inv index_okD(1,2) [OF inv(1)] by (simp add: Mempool_Size_def Mempool_Get_def)
qed

theorem pool_index_consistent_witness:
  "Mempool_Get ''a'' small_pool = Some (fee_tx ''a'' 3) \<and> Mempool_Size small_pool = 2"
  using pool_index_consistent [OF small_pool_reachable] by (auto simp: small_pool_def Mempool_Size_def)

text \<open>
  Draining takes the best-paying transactions: \<open>Drain\<close> returns as many as asked for or as there are,
  in order of falling fee, none of the transactions left pays more than any of the returned ones, and
  together they are exactly the pool.
\<close>

theorem drain_takes_best_fees:
  assumes "pool_step\<^sup>*\<^sup>* (NewMempool cfg) m" "0 < k" "Drain k m = (txs, m')"
  shows "length txs = min (nat k) (Mempool_Size m) \<and> mset (pq m) = mset txs + mset (pq m') \<and>
    sorted_wrt (\<lambda>t u. \<not> fless (Fee t) (Fee u)) txs \<and>
    (\<forall>t \<in> set txs. \<forall>u \<in> set (pq m'). \<not> fless (Fee t) (Fee u))"
proof (cases "pq m = []")
  case True
  then show ?thesis using assms(3) by (auto simp: Drain_def Mempool_Size_def)
next
  case False
  then have "drain_loop (min (nat k) (length (pq m))) m = (txs, m')" using assms(2,3) by (simp add: Drain_def)
  from drain_loop_spec [OF pool_steps_inv [OF assms(1) pool_inv_new] _ this] show ?thesis
    by (simp add: Mempool_Size_def)
qed

theorem drain_takes_best_fees_witness:
  "fst (Drain 1 small_pool) = [fee_tx ''b'' 7]"
proof -
  obtain txs m' where d: "Drain 1 small_pool = (txs, m')" by fastforce
  have s: "length txs = 1" "mset (pq small_pool) = mset txs + mset (pq m')"
    "\<forall>t \<in> set txs. \<forall>u \<in> set (pq m'). \<not> fless (Fee t) (Fee u)"
    using drain_takes_best_fees [OF small_pool_reachable _ d] by (auto simp: small_pool_def Mempool_Size_def)
  obtain t where t: "txs = [t]" using s(1) by (cases txs) auto
  have "add_mset t (mset (pq m')) = {#fee_tx ''b'' 7, fee_tx ''a'' 3#}" using s(2) t by (simp add: small_pool_def)
  then have "t = fee_tx ''b'' 7 \<or> t = fee_tx ''a'' 3 \<and> mset (pq m') = {#fee_tx ''b'' 7#}"
    by (auto simp: add_eq_conv_ex)
  then show ?thesis using s(3) t d by (auto dest: mset_single_iff_right [THEN iffD1])
qed

text \<open>
  A full pool is defended by price: \<open>Add\<close> to a full pool fails unless the new transaction pays more
  than the cheapest queued one, and then exactly one transaction with the lowest fee of the whole
  pool is given up; below the limit nothing is given up.
\<close>

theorem full_pool_evicts_the_cheapest:
  assumes "pool_step\<^sup>*\<^sup>* (NewMempool cfg) m" "Fee tx \<noteq> NaN" "Add clk tx m = Inr m'"
  shows "\<exists>tx'. TxID tx' = TxID tx \<and> Fee tx' = Fee tx \<and> tx' \<in> set (pq m') \<and>
    (mset (pq m') = add_mset tx' (mset (pq m)) \<or>
     (\<exists>low. low \<in> set (pq m) \<and> mset (pq m) + {#tx'#} = add_mset low (mset (pq m')) \<and>
        fless (Fee low) (Fee tx) \<and> (\<forall>t \<in> set (pq m). \<not> fless (Fee t) (Fee low)) \<and>
        int (Mempool_Size m) = MaxSize (mp_cfg m)))"
proof -
  have "fmlookup (lookup m) (TxID tx) = None" "pendingNonceLocked tx m = None" "admit_tx (clk 0) tx m = Inr m'"
    using assms(3) by (auto simp: Add_def split: if_splits option.splits sum.splits)
  from admit_tx_spec [OF pool_steps_inv [OF assms(1) pool_inv_new] this(1,2) assms(2) this(3)]
  show ?thesis by (simp add: Mempool_Size_def)
qed

theorem full_pool_evicts_the_cheapest_witness:
  "\<exists>m' tx'. Add (\<lambda>_. 1) (fee_tx ''c'' 5) small_pool = Inr m' \<and> TxID tx' = ''c'' \<and> tx' \<in> set (pq m')"
proof -
  have "lowest_index (pq small_pool) = 1" by (simp add: lowest_index_def small_pool_def)
  then obtain m' where m': "Add (\<lambda>_. 1) (fee_tx ''c'' 5) small_pool = Inr m'"
    by (auto simp: Add_def pendingNonceLocked_def tracksConsensusNonce_def admit_tx_def small_pool_def priority_def Let_def)
  then show ?thesis using full_pool_evicts_the_cheapest [OF small_pool_reachable _ m'] by auto
qed

end
