(* ===== verification/TxValidator.thy ===== *)
theory TxValidator
  imports Accounts MempoolProofs
begin

text \<open>
  \<open>pkg/chain/poolvalidator.go\<close>: pre-validation of transactions against the accounts and against what is
  already pending. The account store is shared and passed as an argument. The main result is
  admission soundness: whatever set of transactions the validator accepted, a block that executes
  them with every sender's transactions in the order of acceptance applies all of them.
\<close>

record TxValidator =
  tv_pending :: "(string, u64) fmap"
  tv_reserved :: "(string, f64) fmap"

datatype validate_error =
  ErrEmptySender | ErrEmptyRecipient | ErrNegativeAmount | ErrNegativeFee | ErrUnknownSender string
| ErrPendingNonce u64 u64 | ErrInsufficientAvailable f64 f64 f64 | ErrPoolRejected mempool_error

definition NewTxValidator :: TxValidator where
  "NewTxValidator = \<lparr>tv_pending = fmempty, tv_reserved = fmempty\<rparr>"

definition ReservedBalance :: "string \<Rightarrow> TxValidator \<Rightarrow> f64" where
  "ReservedBalance a tv = (case fmlookup (tv_reserved tv) a of None \<Rightarrow> fzero | Some x \<Rightarrow> x)"

definition expected_nonce :: "string \<Rightarrow> Account \<Rightarrow> TxValidator \<Rightarrow> u64" where
  "expected_nonce a acc tv =
     (case fmlookup (tv_pending tv) a of
        Some p \<Rightarrow> if p > Nonce acc then p else Nonce acc
      | None \<Rightarrow> Nonce acc)"

definition TxValidator_Validate :: "Tx \<Rightarrow> AccountStore \<Rightarrow> TxValidator \<Rightarrow> validate_error option" where
  "TxValidator_Validate tx as tv =
     (if Sender tx = [] then Some ErrEmptySender
      else if Recipient tx = [] then Some ErrEmptyRecipient
      else if fless (Amount tx) fzero then Some ErrNegativeAmount
      else if fless (Fee tx) fzero then Some ErrNegativeFee
      else case fmlookup as (Sender tx) of
        None \<Rightarrow> Some (ErrUnknownSender (Sender tx))
      | Some acc \<Rightarrow>
          let expectedNonce = expected_nonce (Sender tx) acc tv;
              reserved = ReservedBalance (Sender tx) tv
          in if TxNonce tx \<noteq> expectedNonce then Some (ErrPendingNonce expectedNonce (TxNonce tx))
             else let needed = fadd (Amount tx) (Fee tx); available = fsub (Balance acc) reserved
                  in if fless available needed then Some (ErrInsufficientAvailable (Balance acc) reserved needed)
                     else None)"

definition Accept :: "Tx \<Rightarrow> TxValidator \<Rightarrow> TxValidator" where
  "Accept tx tv =
     (let nextNonce = TxNonce tx + 1;
          tv = (case fmlookup (tv_pending tv) (Sender tx) of
                  None \<Rightarrow> tv\<lparr>tv_pending := fmupd (Sender tx) nextNonce (tv_pending tv)\<rparr>
                | Some current \<Rightarrow>
                    if nextNonce > current then tv\<lparr>tv_pending := fmupd (Sender tx) nextNonce (tv_pending tv)\<rparr> else tv)
      in tv\<lparr>tv_reserved := fmupd (Sender tx)
             (fadd (ReservedBalance (Sender tx) tv) (fadd (Amount tx) (Fee tx))) (tv_reserved tv)\<rparr>)"

definition TxValidator_Remove :: "Tx \<Rightarrow> TxValidator \<Rightarrow> TxValidator" where
  "TxValidator_Remove tx tv =
     (let r = fsub (ReservedBalance (Sender tx) tv) (fadd (Amount tx) (Fee tx))
      in if fle r fzero then tv\<lparr>tv_reserved := fmdrop (Sender tx) (tv_reserved tv)\<rparr>
         else tv\<lparr>tv_reserved := fmupd (Sender tx) r (tv_reserved tv)\<rparr>)"

definition TxValidator_Reset :: "TxValidator \<Rightarrow> TxValidator" where
  "TxValidator_Reset tv = NewTxValidator"

definition ValidateAndAdd ::
    "clock \<Rightarrow> Tx \<Rightarrow> AccountStore \<Rightarrow> Mempool \<times> TxValidator \<Rightarrow> validate_error + Mempool \<times> TxValidator" where
  "ValidateAndAdd clk tx as s =
     (case TxValidator_Validate tx as (snd s) of
        Some e \<Rightarrow> Inl e
      | None \<Rightarrow>
          (case Add clk tx (fst s) of
             Inl e \<Rightarrow> Inl (ErrPoolRejected e)
           | Inr pool \<Rightarrow> Inr (pool, Accept tx (snd s))))"

definition PendingNonce :: "string \<Rightarrow> AccountStore \<Rightarrow> TxValidator \<Rightarrow> u64" where
  "PendingNonce a as tv =
     (case fmlookup (tv_pending tv) a of
        Some n \<Rightarrow> n
      | None \<Rightarrow> (case fmlookup as a of None \<Rightarrow> 0 | Some acc \<Rightarrow> Nonce acc))"

section \<open>Executable batches\<close>

text \<open>
  A batch is executable on a store when each sender exists, its transactions carry consecutive
  nonces from its account nonce, and it can pay for all of them.
\<close>

definition tx_total :: "Tx \<Rightarrow> nat" where
  "tx_total tx = trunc_nat (Amount tx) + trunc_nat (Fee tx)"

definition whole_tx :: "Tx \<Rightarrow> bool" where
  "whole_tx tx \<longleftrightarrow>
     Amount tx = f_int (trunc_nat (Amount tx)) \<and> Fee tx = f_int (trunc_nat (Fee tx)) \<and> tx_total tx \<le> 2 ^ 53"

fun nonces_from :: "u64 \<Rightarrow> Tx list \<Rightarrow> bool" where
  "nonces_from n [] = True"
| "nonces_from n (t # ts) = (TxNonce t = n \<and> nonces_from (n + 1) ts)"

definition sent_by :: "string \<Rightarrow> Tx list \<Rightarrow> Tx list" where
  "sent_by a txs = filter (\<lambda>t. Sender t = a) txs"

fun affordable :: "Account option \<Rightarrow> Tx list \<Rightarrow> bool" where
  "affordable None ts = (ts = [])"
| "affordable (Some acc) ts = (nonces_from (Nonce acc) ts \<and> sum_list (map tx_total ts) \<le> trunc_nat (Balance acc))"

definition executable :: "AccountStore \<Rightarrow> Tx list \<Rightarrow> bool" where
  "executable as txs \<longleftrightarrow> (\<forall>t \<in> set txs. whole_tx t) \<and> (\<forall>a. affordable (fmlookup as a) (sent_by a txs))"

lemma sent_by_Cons [simp]:
  "sent_by a (t # ts) = (if Sender t = a then t # sent_by a ts else sent_by a ts)"
  by (simp add: sent_by_def)

lemma executable_sender:
  assumes "executable as txs" "fmlookup as a = Some acc"
  shows "nonces_from (Nonce acc) (sent_by a txs) \<and> sum_list (map tx_total (sent_by a txs)) \<le> trunc_nat (Balance acc)"
  using assms unfolding executable_def by (metis affordable.simps(2))

lemma executable_head:
  assumes "executable as (t # ts)"
  obtains acc where "fmlookup as (Sender t) = Some acc" "TxNonce t = Nonce acc"
    "nonces_from (Nonce acc + 1) (sent_by (Sender t) ts)"
    "tx_total t + sum_list (map tx_total (sent_by (Sender t) ts)) \<le> trunc_nat (Balance acc)"
proof -
  have "affordable (fmlookup as (Sender t)) (t # sent_by (Sender t) ts)"
    using assms unfolding executable_def by (metis sent_by_Cons)
  then show ?thesis using that by (cases "fmlookup as (Sender t)") auto
qed

lemma executable_step:
  assumes w: "whole_ledger as" and ex: "executable as (t # ts)"
  obtains as' where "ApplyTx t as = (None, as')" "whole_ledger as'" "executable as' ts"
proof -
  obtain acc where acc: "fmlookup as (Sender t) = Some acc" "TxNonce t = Nonce acc"
    "nonces_from (Nonce acc + 1) (sent_by (Sender t) ts)"
    "tx_total t + sum_list (map tx_total (sent_by (Sender t) ts)) \<le> trunc_nat (Balance acc)"
    using executable_head [OF ex] by blast
  define x where "x = trunc_nat (Amount t)"
  define y where "y = trunc_nat (Fee t)"
  have am: "Amount t = f_int x" "Fee t = f_int y" "x + y \<le> 9007199254740992" "tx_total t = x + y"
    using ex by (auto simp: executable_def whole_tx_def x_def y_def tx_total_def)
  obtain b where b: "Balance acc = f_int b" "b \<le> money_supply as" "money_supply as \<le> 9007199254740992"
    using whole_balance [OF w acc(1)] by blast
  have le: "x + y \<le> b" using acc(4) am(4) b(1) by simp
  define acc1 where "acc1 = acc\<lparr>Balance := f_int (b - (x + y)), Nonce := Nonce acc + 1\<rparr>"
  define as1 where "as1 = fmupd (Sender t) acc1 as"
  have debit: "debit_sender t as = (None, as1)"
    using acc(1,2) am b le by (simp add: debit_sender_def Let_def as1_def acc1_def)
  have w1: "whole_ledger as1" "money_supply as1 + (x + y) = money_supply as"
    using debit_whole [OF w acc(1), of "x + y" acc1] b le by (simp_all add: as1_def acc1_def)
  define as2 where "as2 = Credit (Recipient t) (f_int x) as1"
  have apply_ok: "ApplyTx t as = (None, as2)" by (simp add: ApplyTx_def debit as2_def am)
  have w2: "whole_ledger as2" unfolding as2_def using Credit_whole [OF w1(1), of x] w1(2) b(3) by simp
  have "affordable (fmlookup as2 a) (sent_by a ts)" for a
  proof -
    have grow: "\<exists>acc2. fmlookup as2 a = Some acc2 \<and> Nonce acc2 = Nonce acc' \<and> trunc_nat (Balance acc') \<le> trunc_nat (Balance acc2)"
      if l: "fmlookup as1 a = Some acc'" for acc'
    proof -
      obtain n where n: "Balance acc' = f_int n" "n \<le> money_supply as1" using whole_balance [OF w1(1) l] by blast
      have "n + x \<le> 9007199254740992" using n(2) w1(2) b(3) by linarith
      then show ?thesis using l n(1) by (auto simp: as2_def Credit_def Let_def split: option.split)
    qed
    show ?thesis
    proof (cases "a = Sender t")
      case True
      have "fmlookup as1 a = Some acc1" using True by (simp add: as1_def)
      from grow [OF this] obtain acc2 where "fmlookup as2 a = Some acc2" "Nonce acc2 = Nonce acc + 1" "b - (x + y) \<le> trunc_nat (Balance acc2)"
        by (auto simp: acc1_def)
      then show ?thesis using True acc(3,4) am(4) b(1) by simp
    next
      case False
      have old: "affordable (fmlookup as a) (sent_by a ts)"
        using ex False unfolding executable_def by (metis sent_by_Cons)
      show ?thesis
      proof (cases "fmlookup as a")
        case None
        then have "sent_by a ts = []" using old by simp
        then show ?thesis by (cases "fmlookup as2 a") simp_all
      next
        case (Some acc')
        then have "fmlookup as1 a = Some acc'" using False by (simp add: as1_def)
        from grow [OF this] show ?thesis using old Some by auto
      qed
    qed
  qed
  then have "executable as2 ts" using ex by (simp add: executable_def)
  then show ?thesis using that apply_ok w2 by blast
qed

fun apply_in_order :: "Tx list \<Rightarrow> AccountStore \<Rightarrow> account_error + AccountStore" where
  "apply_in_order [] as = Inr as"
| "apply_in_order (t # ts) as = (case ApplyTx t as of (Some e, _) \<Rightarrow> Inl e | (None, as') \<Rightarrow> apply_in_order ts as')"

lemma executable_runs:
  assumes "whole_ledger as" "executable as txs"
  shows "\<exists>as'. apply_in_order txs as = Inr as'"
  using assms
proof (induction txs arbitrary: as)
  case (Cons t ts)
  obtain as' where "ApplyTx t as = (None, as')" "whole_ledger as'" "executable as' ts"
    using executable_step [OF Cons.prems] by blast
  then show ?case using Cons.IH by simp
qed simp

lemma executable_reorder:
  assumes "executable as txs" "\<And>a. sent_by a txs' = sent_by a txs"
  shows "executable as txs'"
proof -
  have "t \<in> set txs" if "t \<in> set txs'" for t
  proof -
    have "t \<in> set (sent_by (Sender t) txs)" using that unfolding assms(2) [symmetric] by (simp add: sent_by_def)
    then show ?thesis by (simp add: sent_by_def)
  qed
  then show ?thesis using assms by (simp add: executable_def)
qed

section \<open>Admission\<close>

fun validate_all :: "Tx list \<Rightarrow> AccountStore \<Rightarrow> TxValidator \<Rightarrow> validate_error + TxValidator" where
  "validate_all [] as tv = Inr tv"
| "validate_all (t # ts) as tv =
     (case TxValidator_Validate t as tv of Some e \<Rightarrow> Inl e | None \<Rightarrow> validate_all ts as (Accept t tv))"

definition admitted :: "AccountStore \<Rightarrow> Tx list \<Rightarrow> TxValidator \<Rightarrow> bool" where
  "admitted as ps tv \<longleftrightarrow> executable as ps \<and>
     (\<forall>a acc. fmlookup as a = Some acc \<longrightarrow>
        expected_nonce a acc tv = Nonce acc + of_nat (length (sent_by a ps)) \<and>
        ReservedBalance a tv = f_int (sum_list (map tx_total (sent_by a ps))))"

lemma nonces_from_append: "nonces_from n (xs @ [t]) \<longleftrightarrow> nonces_from n xs \<and> TxNonce t = n + of_nat (length xs)"
  by (induction xs arbitrary: n) (auto simp: algebra_simps)

lemma sent_by_append: "sent_by a (ps @ [t]) = (if Sender t = a then sent_by a ps @ [t] else sent_by a ps)"
  by (simp add: sent_by_def)

lemma no_wrap:
  fixes n :: u64
  assumes "unat n + k < 2 ^ 64"
  shows "unat (n + of_nat k) = unat n + k"
  using assms by (simp add: unat_add_no_wrap unat_of_nat_fits)

lemma Accept_expected:
  assumes "expected_nonce (Sender t) acc tv = TxNonce t" "TxNonce t < TxNonce t + 1" "Nonce acc \<le> TxNonce t"
  shows "expected_nonce (Sender t) acc (Accept t tv) = TxNonce t + 1"
  using assms by (auto simp: expected_nonce_def Accept_def Let_def split: option.splits if_splits)

lemma Accept_frame:
  "Sender t \<noteq> a \<Longrightarrow> expected_nonce a acc (Accept t tv) = expected_nonce a acc tv"
  "ReservedBalance a (Accept t tv) =
     (if a = Sender t then fadd (ReservedBalance a tv) (fadd (Amount t) (Fee t)) else ReservedBalance a tv)"
  by (auto simp: expected_nonce_def Accept_def ReservedBalance_def Let_def split: option.split)

lemma admitted_step:
  assumes w: "whole_ledger as" and ad: "admitted as ps tv" and t: "whole_tx t" "TxValidator_Validate t as tv = None"
    and nw: "\<And>acc. fmlookup as (Sender t) = Some acc \<Longrightarrow> unat (Nonce acc) + length ps + 1 < 2 ^ 64"
  shows "admitted as (ps @ [t]) (Accept t tv)"
proof -
  let ?s = "Sender t"
  obtain acc where acc: "fmlookup as ?s = Some acc" "TxNonce t = expected_nonce ?s acc tv"
      "\<not> fless (fsub (Balance acc) (ReservedBalance ?s tv)) (fadd (Amount t) (Fee t))"
    using t(2) by (auto simp: TxValidator_Validate_def Let_def split: option.splits if_splits)
  let ?k = "length (sent_by ?s ps)" and ?r = "sum_list (map tx_total (sent_by ?s ps))"
  have ex: "executable as ps" "expected_nonce ?s acc tv = Nonce acc + of_nat ?k" "ReservedBalance ?s tv = f_int ?r"
    using ad acc(1) by (auto simp: admitted_def)
  have sender: "nonces_from (Nonce acc) (sent_by ?s ps)" "?r \<le> trunc_nat (Balance acc)"
    using executable_sender [OF ex(1) acc(1)] by simp_all
  obtain b where b: "Balance acc = f_int b" "b \<le> money_supply as" "money_supply as \<le> 9007199254740992"
    using whole_balance [OF w acc(1)] by blast
  have am: "Amount t = f_int (trunc_nat (Amount t))" "Fee t = f_int (trunc_nat (Fee t))" "tx_total t \<le> 9007199254740992"
    using t(1) by (simp_all add: whole_tx_def)
  have pay: "fadd (Amount t) (Fee t) = f_int (tx_total t)"
    using am fadd_f_int [of "trunc_nat (Amount t)" "trunc_nat (Fee t)"] by (simp add: tx_total_def)
  have fits: "?r + tx_total t \<le> b"
    using acc(3) sender(2) b fsub_f_int [of ?r b] by (simp add: ex(3) pay)
  have "?k \<le> length ps" by (simp add: sent_by_def)
  then have k: "unat (Nonce acc + of_nat ?k) = unat (Nonce acc) + ?k" "unat (Nonce acc) + ?k + 1 < 2 ^ 64"
    using nw [OF acc(1)] by (auto intro!: no_wrap)
  have nonce: "TxNonce t = Nonce acc + of_nat ?k" using acc(2) ex(2) by simp
  have next_nonce: "unat (Nonce acc + of_nat ?k + 1) = unat (Nonce acc) + ?k + 1"
    using no_wrap [of "Nonce acc" "?k + 1"] k(2) by (simp add: algebra_simps)
  have "expected_nonce ?s acc (Accept t tv) = TxNonce t + 1"
    using Accept_expected [of t acc tv] acc(2) nonce k next_nonce by (simp add: word_less_nat_alt word_le_nat_alt)
  moreover have "ReservedBalance ?s (Accept t tv) = f_int (?r + tx_total t)"
    using fits b by (simp add: Accept_frame ex(3) pay)
  moreover have "executable as (ps @ [t])"
    unfolding executable_def
  proof (intro conjI allI)
    show "\<forall>u \<in> set (ps @ [t]). whole_tx u" using ex(1) t(1) by (auto simp: executable_def)
    fix a
    have old: "affordable (fmlookup as a) (sent_by a ps)" using ex(1) by (simp add: executable_def)
    show "affordable (fmlookup as a) (sent_by a (ps @ [t]))"
      using old acc(1) sender nonce fits b(1) by (cases "a = ?s") (simp_all add: sent_by_append nonces_from_append)
  qed
  ultimately show ?thesis
    using ad acc(1) nonce
    by (auto simp: admitted_def Accept_frame sent_by_append algebra_simps)
qed

lemma admitted_all:
  assumes "whole_ledger as" "admitted as ps tv" "\<forall>t \<in> set ts. whole_tx t" "validate_all ts as tv = Inr tv'"
    and "\<forall>a acc. fmlookup as a = Some acc \<longrightarrow> unat (Nonce acc) + length ps + length ts < 2 ^ 64"
  shows "admitted as (ps @ ts) tv'"
  using assms(2-5)
proof (induction ts arbitrary: ps tv)
  case (Cons t ts)
  have v: "TxValidator_Validate t as tv = None" "validate_all ts as (Accept t tv) = Inr tv'"
    using Cons.prems(3) by (auto split: option.splits)
  have "admitted as (ps @ [t]) (Accept t tv)"
    using Cons.prems by (intro admitted_step [OF assms(1) _ _ v(1)]) fastforce+
  then have "admitted as ((ps @ [t]) @ ts) tv'" using Cons.prems v(2) by (intro Cons.IH) auto
  then show ?case by simp
qed simp

lemma affordable_nothing [simp]: "affordable x []"
  by (cases x) simp_all

lemma admitted_new: "admitted as [] NewTxValidator"
  by (simp add: admitted_def executable_def expected_nonce_def ReservedBalance_def NewTxValidator_def
      fzero_f_int sent_by_def split: option.split)

definition two_accounts :: AccountStore where
  "two_accounts = fmupd ''bob'' \<lparr>Address = ''bob'', Balance = f_int 1, Nonce = 0\<rparr> sample_store"

text \<open>
  Admission soundness. Take any transactions that a fresh validator accepted one after the other
  against a ledger of whole amounts, and any order of them that keeps each sender's transactions in
  the order of acceptance. Executing them in that order on the ledger applies every one of them: no
  nonce mismatch, no missing sender, no insufficient balance.
\<close>

theorem accepted_batch_executes:
  assumes "whole_ledger as" "validate_all txs as NewTxValidator = Inr tv" "\<forall>t \<in> set txs. whole_tx t"
    and "\<forall>a acc. fmlookup as a = Some acc \<longrightarrow> unat (Nonce acc) + length txs < 2 ^ 64"
    and "\<forall>a. sent_by a txs' = sent_by a txs"
  shows "\<exists>as'. apply_in_order txs' as = Inr as'"
proof -
  have "admitted as ([] @ txs) tv" using admitted_all [OF assms(1) admitted_new assms(3,2)] assms(4) by simp
  then have "executable as txs" by (simp add: admitted_def)
  then have "executable as txs'" using executable_reorder [of as txs txs'] assms(5) by blast
  then show ?thesis using executable_runs [OF assms(1)] by blast
qed

theorem accepted_batch_executes_witness:
  "\<exists>as'. apply_in_order
     [transfer ''bob'' ''alice'' (f_int 1) fzero 0, transfer ''alice'' ''bob'' (f_int 4) (f_int 1) 3,
      transfer ''alice'' ''carol'' (f_int 2) fzero 4] two_accounts = Inr as'"
proof -
  let ?a = "transfer ''alice'' ''bob'' (f_int 4) (f_int 1) 3" and ?b = "transfer ''alice'' ''carol'' (f_int 2) fzero 4"
    and ?c = "transfer ''bob'' ''alice'' (f_int 1) fzero 0"
  have w: "whole_ledger two_accounts"
    by (simp add: whole_ledger_def money_supply_def two_accounts_def sample_store_def fmap_total_fresh)
  obtain tv where v: "validate_all [?a, ?b, ?c] two_accounts NewTxValidator = Inr tv"
    by (simp add: TxValidator_Validate_def Accept_def expected_nonce_def ReservedBalance_def NewTxValidator_def
        two_accounts_def sample_store_def Let_def fzero_f_int)
  show ?thesis
    by (rule accepted_batch_executes [OF w v])
      (auto simp: whole_tx_def tx_total_def fzero_f_int two_accounts_def sample_store_def sent_by_def)
qed

end
