(* ===== verification/Receipts.thy ===== *)
theory Receipts
  imports Transactions
begin

text \<open>
  \<open>pkg/chain/receipt.go\<close>: transaction receipts and the store that indexes them. The receipts a Go
  store shares by pointer are immutable once stored and are values here. An error text is represented
  by the error value it renders, the type parameter, together with the text it is prefixed with.
  \<open>Save\<close>, \<open>Load\<close> and the NDJSON files are I/O around \<open>Store\<close>; the loop of \<open>LoadNDJSON\<close> over the decoded
  lines is modelled.
\<close>

datatype 'e log_value = LStr string | LNum f64 | LErr string 'e

record 'e LogEntry =
  Topic :: string
  LogData :: "(string, 'e log_value) fmap"
  LogIndex :: int

datatype ReceiptStatus = ReceiptFailed | ReceiptSuccess

record 'e TxReceipt =
  RTxID :: string
  RBlockHeight :: u64
  RBlockHash :: string
  RStatus :: ReceiptStatus
  RGasUsed :: u64
  RFee :: f64
  RLogs :: "'e LogEntry list"
  RError :: "'e option"
  RTimestamp :: go_time
  RContractID :: string
  RIndexInBlock :: int

record 'e ReceiptStore =
  byTxID :: "(string, 'e TxReceipt) fmap"
  byBlock :: "(u64, 'e TxReceipt list) fmap"
  byContract :: "(string, 'e TxReceipt list) fmap"
  rs_order :: "string list"

definition NewReceiptStore :: "'e ReceiptStore" where
  "NewReceiptStore = \<lparr>byTxID = fmempty, byBlock = fmempty, byContract = fmempty, rs_order = []\<rparr>"

text \<open>Reading a missing key of a Go map of slices gives the nil slice.\<close>

definition map_slice :: "('k, 'v list) fmap \<Rightarrow> 'k \<Rightarrow> 'v list" where
  "map_slice m k = (case fmlookup m k of None \<Rightarrow> [] | Some xs \<Rightarrow> xs)"

definition applyReceiptContractFromTx ::
    "Tx \<Rightarrow> 'e TxReceipt \<times> (string, 'e log_value) fmap \<Rightarrow> 'e TxReceipt \<times> (string, 'e log_value) fmap" where
  "applyReceiptContractFromTx tx p =
     (if TxContractID tx = [] then p
      else ((fst p)\<lparr>RContractID := TxContractID tx\<rparr>, fmupd ''contract_id'' (LStr (TxContractID tx)) (snd p)))"

definition Store :: "'e TxReceipt \<Rightarrow> 'e ReceiptStore \<Rightarrow> 'e ReceiptStore" where
  "Store r rs =
     (let rs = rs\<lparr>byTxID := fmupd (RTxID r) r (byTxID rs)\<rparr>;
          rs = rs\<lparr>byBlock := fmupd (RBlockHeight r) (map_slice (byBlock rs) (RBlockHeight r) @ [r]) (byBlock rs)\<rparr>;
          rs = (if RContractID r \<noteq> []
                then rs\<lparr>byContract := fmupd (RContractID r) (map_slice (byContract rs) (RContractID r) @ [r]) (byContract rs)\<rparr>
                else rs)
      in rs\<lparr>rs_order := rs_order rs @ [RTxID r]\<rparr>)"

definition Receipt_Get :: "string \<Rightarrow> 'e ReceiptStore \<Rightarrow> 'e TxReceipt option" where
  "Receipt_Get txID rs = fmlookup (byTxID rs) txID"

definition GetByBlock :: "u64 \<Rightarrow> 'e ReceiptStore \<Rightarrow> 'e TxReceipt list" where
  "GetByBlock height rs = map_slice (byBlock rs) height"

definition GetByContract :: "string \<Rightarrow> 'e ReceiptStore \<Rightarrow> 'e TxReceipt list" where
  "GetByContract contractID rs = map_slice (byContract rs) contractID"

text \<open>The inner loop of \<open>ListByHeightRange\<close>: append until the limit is reached.\<close>

fun collect_receipts :: "int \<Rightarrow> 'r list \<Rightarrow> 'r list \<Rightarrow> 'r list \<times> bool" where
  "collect_receipts limit [] out = (out, False)"
| "collect_receipts limit (r # recs) out =
     (let out = out @ [r]
      in if int (length out) \<ge> limit then (out, True) else collect_receipts limit recs out)"

function walk_heights :: "(u64, 'r list) fmap \<Rightarrow> int \<Rightarrow> u64 \<Rightarrow> u64 \<Rightarrow> 'r list \<Rightarrow> 'r list" where
  "walk_heights m limit from h out =
     (case collect_receipts limit (map_slice m h) out of
        (out, True) \<Rightarrow> out
      | (out, False) \<Rightarrow> if h = from \<or> h = 0 then out else walk_heights m limit from (h - 1) out)"
  by pat_completeness auto
termination
  by (relation "measure (\<lambda>(_, _, _, h, _). unat h)") (auto simp: measure_unat)

definition ListByHeightRange :: "u64 \<Rightarrow> u64 \<Rightarrow> int \<Rightarrow> 'e ReceiptStore \<Rightarrow> 'e TxReceipt list" where
  "ListByHeightRange from to limit rs =
     (if limit \<le> 0 \<or> from > to then [] else walk_heights (byBlock rs) limit from to [])"

definition Recent :: "int \<Rightarrow> 'e ReceiptStore \<Rightarrow> 'e TxReceipt list" where
  "Recent n rs =
     (if n \<le> 0 \<or> rs_order rs = [] then []
      else let start = nat (int (length (rs_order rs)) - n)
           in List.map_filter (\<lambda>i. fmlookup (byTxID rs) (rs_order rs ! i)) (rev [start..<length (rs_order rs)]))"

text \<open>A missing receipt is a nil pointer, on which the loop panics: \<open>None\<close>.\<close>

fun search_logs :: "string \<Rightarrow> 'e ReceiptStore \<Rightarrow> string list \<Rightarrow> 'e TxReceipt list option" where
  "search_logs topic rs [] = Some []"
| "search_logs topic rs (txID # ids) =
     (case fmlookup (byTxID rs) txID of
        None \<Rightarrow> None
      | Some r \<Rightarrow>
          (case search_logs topic rs ids of
             None \<Rightarrow> None
           | Some out \<Rightarrow> Some (if topic \<in> Topic ` set (RLogs r) then r # out else out)))"

definition SearchLogs :: "string \<Rightarrow> 'e ReceiptStore \<Rightarrow> 'e TxReceipt list option" where
  "SearchLogs topic rs = search_logs topic rs (rs_order rs)"

definition Receipt_Count :: "'e ReceiptStore \<Rightarrow> nat" where
  "Receipt_Count rs = map_len (byTxID rs)"

definition Receipt_Stats :: "string list \<Rightarrow> 'e ReceiptStore \<Rightarrow> nat \<times> nat \<times> u64 \<times> nat" where
  "Receipt_Stats order rs =
     (let recs = List.map_filter (fmlookup (byTxID rs)) order
      in (map_len (byTxID rs), length (filter (\<lambda>r. RStatus r = ReceiptFailed) recs),
          sum_list (map RGasUsed recs), map_len (byBlock rs)))"

text \<open>\<open>LoadNDJSON\<close> over the decoded lines: the number loaded and the store.\<close>

fun LoadNDJSON :: "'e TxReceipt list \<Rightarrow> 'e ReceiptStore \<Rightarrow> nat \<times> 'e ReceiptStore" where
  "LoadNDJSON [] rs = (0, rs)"
| "LoadNDJSON (r # lines) rs =
     (if RTxID r = [] then LoadNDJSON lines rs
      else let (n, rs') = LoadNDJSON lines (Store r rs) in (Suc n, rs'))"

section \<open>The log of stored receipts\<close>

text \<open>
  The abstract store is the list of all receipts stored, in order. \<open>refines_log rs hist\<close> says that every
  index is a view of the log.
\<close>

definition latest :: "string \<Rightarrow> 'e TxReceipt list \<Rightarrow> 'e TxReceipt option" where
  "latest txID hist = find (\<lambda>r. RTxID r = txID) (rev hist)"

definition refines_log :: "'e ReceiptStore \<Rightarrow> 'e TxReceipt list \<Rightarrow> bool" where
  "refines_log rs hist \<longleftrightarrow>
     (\<forall>t. fmlookup (byTxID rs) t = latest t hist) \<and>
     (\<forall>h. map_slice (byBlock rs) h = filter (\<lambda>r. RBlockHeight r = h) hist) \<and>
     (\<forall>c. c \<noteq> [] \<longrightarrow> map_slice (byContract rs) c = filter (\<lambda>r. RContractID r = c) hist) \<and>
     rs_order rs = map RTxID hist"

lemma map_slice_upd [simp]: "map_slice (fmupd k v m) k' = (if k' = k then v else map_slice m k')"
  by (simp add: map_slice_def)

lemma map_slice_empty [simp]: "map_slice fmempty k = []"
  by (simp add: map_slice_def)

lemma refines_log_new: "refines_log NewReceiptStore []"
  by (simp add: refines_log_def NewReceiptStore_def latest_def)

lemma refines_log_Store: "refines_log rs hist \<Longrightarrow> refines_log (Store r rs) (hist @ [r])"
  by (auto simp: refines_log_def Store_def Let_def latest_def)

lemma refines_log_fold: "refines_log rs hist \<Longrightarrow> refines_log (fold Store rc rs) (hist @ rc)"
proof (induction rc arbitrary: rs hist)
  case (Cons r rc)
  show ?case using Cons.IH [OF refines_log_Store [OF Cons.prems, of r]] by simp
qed simp

lemma LoadNDJSON_fold:
  "LoadNDJSON ls rs = (length (filter (\<lambda>r. RTxID r \<noteq> []) ls), fold Store (filter (\<lambda>r. RTxID r \<noteq> []) ls) rs)"
  by (induction ls arbitrary: rs) auto

lemma collect_receipts_spec:
  "int (length out) < limit \<Longrightarrow>
   collect_receipts limit recs out =
     (take (nat limit) (out @ recs), int (length out + length recs) \<ge> limit)"
proof (induction recs arbitrary: out)
  case (Cons r recs)
  then have "nat limit - length out = Suc (nat limit - length (out @ [r]))" by simp
  then show ?case using Cons by (auto simp: Let_def)
qed simp

text \<open>The heights of a range, newest first.\<close>

definition heights_down :: "nat \<Rightarrow> nat \<Rightarrow> u64 list" where
  "heights_down lo hi = map of_nat (rev [lo..<Suc hi])"

lemma heights_down_step:
  assumes "lo < hi"
  shows "heights_down lo hi = of_nat hi # heights_down lo (hi - 1)"
  using assms by (cases hi) (simp_all add: heights_down_def)

lemma walk_heights_spec:
  assumes "unat from \<le> unat h" "int (length out) < limit"
  shows "walk_heights m limit from h out =
           take (nat limit) (out @ concat (map (map_slice m) (heights_down (unat from) (unat h))))"
  using assms
proof (induction m limit "from" h out rule: walk_heights.induct)
  case (1 m limit "from" h out)
  let ?recs = "map_slice m h"
  have c: "collect_receipts limit ?recs out = (take (nat limit) (out @ ?recs), int (length out + length ?recs) \<ge> limit)"
    using collect_receipts_spec 1(3) by blast
  show ?case
  proof (cases "int (length out + length ?recs) \<ge> limit")
    case True
    have "heights_down (unat from) (unat h) = h # (if unat from = unat h then [] else heights_down (unat from) (unat h - 1))"
    proof (cases "unat from = unat h")
      case False
      then show ?thesis using heights_down_step [of "unat from" "unat h"] 1(2) by simp
    qed (simp add: heights_down_def)
    then show ?thesis using True c by (subst walk_heights.simps) simp
  next
    case room: False
    then have out: "take (nat limit) (out @ ?recs) = out @ ?recs" by simp
    show ?thesis
    proof (cases "h = from")
      case True
      then show ?thesis using room c by (subst walk_heights.simps) (simp add: heights_down_def)
    next
      case False
      then have less: "unat from < unat h" using 1(2) by (metis le_neq_implies_less word_unat_eq_iff)
      then have nz: "h \<noteq> 0" by auto
      have dec: "unat (h - 1) = unat h - 1" using nz by (simp add: unat_minus_one)
      have "walk_heights m limit from (h - 1) (out @ ?recs) =
        take (nat limit) ((out @ ?recs) @ concat (map (map_slice m) (heights_down (unat from) (unat (h - 1)))))"
        using 1(1) c room False nz dec less by auto
      then show ?thesis
        using room c False nz out less heights_down_step [OF less] by (subst walk_heights.simps) (simp add: dec)
    qed
  qed
qed

lemma latest_None: "latest t rc = None \<longleftrightarrow> t \<notin> RTxID ` set rc"
  by (auto simp: latest_def find_None_iff)

lemma latest_Some: "(\<exists>r. latest t rc = Some r) \<longleftrightarrow> t \<in> RTxID ` set rc"
  using latest_None [of t rc] by (cases "latest t rc") auto

lemma search_logs_total:
  assumes "\<And>t. t \<in> set ids \<Longrightarrow> \<exists>r. fmlookup (byTxID rs) t = Some r"
  shows "\<exists>out. search_logs topic rs ids = Some out \<and>
           set out = {r. topic \<in> Topic ` set (RLogs r) \<and> Some r \<in> fmlookup (byTxID rs) ` set ids}"
  using assms
proof (induction ids)
  case (Cons t ids)
  obtain r where r: "fmlookup (byTxID rs) t = Some r" using Cons.prems [of t] by auto
  obtain out where "search_logs topic rs ids = Some out"
    "set out = {r. topic \<in> Topic ` set (RLogs r) \<and> Some r \<in> fmlookup (byTxID rs) ` set ids}"
    using Cons by auto
  then show ?case using r by (auto simp: image_iff)
qed simp

lemma stored_refines: "refines_log (fold Store rc NewReceiptStore) rc"
  using refines_log_fold [OF refines_log_new, of rc] by simp

lemmas stored_views = stored_refines [unfolded refines_log_def]

lemma stored_by_id: "fmlookup (byTxID (fold Store rc NewReceiptStore)) t = latest t rc"
  using stored_views by blast

lemma stored_by_block: "map_slice (byBlock (fold Store rc NewReceiptStore)) = (\<lambda>h. filter (\<lambda>r. RBlockHeight r = h) rc)"
  using stored_views by blast

lemma stored_count: "Receipt_Count (fold Store rc NewReceiptStore) = card (RTxID ` set rc)"
proof -
  have "fmdom' (byTxID (fold Store rc NewReceiptStore)) = RTxID ` set rc"
    by (auto simp: fmdom'_iff stored_by_id latest_Some)
  then show ?thesis by (metis Receipt_Count_def map_len_def fcard.rep_eq fmdom'_alt_def)
qed

lemma stored_search:
  "\<exists>out. SearchLogs topic (fold Store rc NewReceiptStore) = Some out \<and>
     set out = {r. topic \<in> Topic ` set (RLogs r) \<and> (\<exists>t. latest t rc = Some r)}"
proof -
  let ?rs = "fold Store rc NewReceiptStore"
  have "set (rs_order ?rs) = RTxID ` set rc" using stored_views [of rc] by simp
  moreover have "Some r \<in> fmlookup (byTxID ?rs) ` RTxID ` set rc \<longleftrightarrow> (\<exists>t. latest t rc = Some r)" for r
    using latest_Some [of _ rc] by (auto simp: stored_by_id image_iff) metis
  ultimately show ?thesis
    using search_logs_total [of "rs_order ?rs" ?rs topic] by (simp add: SearchLogs_def stored_by_id latest_Some)
qed

lemma stored_range:
  "ListByHeightRange lo hi limit (fold Store rc NewReceiptStore) =
     (if lo \<le> hi
      then take (nat limit) (concat (map (\<lambda>h. filter (\<lambda>r. RBlockHeight r = h) rc) (heights_down (unat lo) (unat hi))))
      else [])"
  using walk_heights_spec [of lo hi "[]" limit "byBlock (fold Store rc NewReceiptStore)"]
  by (cases "limit \<le> 0") (auto simp: ListByHeightRange_def stored_by_block word_le_nat_alt word_less_nat_alt simp del: walk_heights.simps)

text \<open>
  The receipt store refines the list of all receipts ever stored. Whatever was stored, in
  whatever order: looking up a transaction gives its latest receipt, the receipts of a block or of a
  contract are exactly those of the list in storage order, the number of receipts is the number of
  distinct transactions, the log search never hits a missing receipt, and a range query, for
  every pair of heights up to the largest uint64, ends and returns the first receipts of the blocks
  of the range, newest block first.
\<close>

theorem receipt_store_refines_log:
  "let rs = fold Store rc NewReceiptStore
   in Receipt_Get t rs = latest t rc \<and>
      GetByBlock h rs = filter (\<lambda>r. RBlockHeight r = h) rc \<and>
      GetByContract (ch # cs) rs = filter (\<lambda>r. RContractID r = ch # cs) rc \<and>
      Receipt_Count rs = card (RTxID ` set rc) \<and>
      (\<exists>out. SearchLogs topic rs = Some out \<and>
         set out = {r. topic \<in> Topic ` set (RLogs r) \<and> (\<exists>t. latest t rc = Some r)}) \<and>
      ListByHeightRange lo hi limit rs =
        (if lo \<le> hi
         then take (nat limit) (concat (map (\<lambda>h. filter (\<lambda>r. RBlockHeight r = h) rc) (heights_down (unat lo) (unat hi))))
         else [])"
  using stored_views [of rc] stored_search [of topic rc] stored_range [of lo hi limit rc]
  by (simp add: Let_def Receipt_Get_def GetByBlock_def GetByContract_def stored_by_id stored_by_block stored_count)

text \<open>
  Loading the same receipt file twice is not the same as loading it once: the number of distinct
  receipts stays, but every block lists each of its receipts twice and the insertion order repeats.
\<close>

theorem reload_duplicates_receipts:
  "let once = snd (LoadNDJSON ls NewReceiptStore); twice = snd (LoadNDJSON ls once)
   in Receipt_Count twice = Receipt_Count once \<and> GetByBlock h twice = GetByBlock h once @ GetByBlock h once \<and>
      rs_order twice = rs_order once @ rs_order once"
proof -
  let ?f = "filter (\<lambda>r. RTxID r \<noteq> []) ls"
  have two: "snd (LoadNDJSON ls (snd (LoadNDJSON ls NewReceiptStore))) = fold Store (?f @ ?f) NewReceiptStore"
    by (simp add: LoadNDJSON_fold)
  show ?thesis
    using stored_views [of ?f] stored_views [of "?f @ ?f"] stored_count [of ?f] stored_count [of "?f @ ?f"]
    unfolding Let_def two by (simp add: LoadNDJSON_fold GetByBlock_def stored_by_block)
qed

end
