(* ===== verification/GoTime.thy ===== *)
theory GoTime
  imports Prelude
begin

text \<open>
  Go's \<open>time.Time\<close> as far as the ledger renders it: an instant in nanoseconds since the Unix epoch and
  the offset of its location from UTC in seconds. \<open>marshal_time\<close> is \<open>Time.MarshalJSON\<close>: the strict
  RFC 3339 text with nanoseconds, an error outside the years 0 to 9999 and for offsets of a day or
  more. The calendar is the proleptic Gregorian one, computed from the day number.
\<close>

record Time =
  Instant :: int
  OffsetSeconds :: int

definition utc :: "int \<Rightarrow> Time" where
  "utc n = \<lparr>Instant = n, OffsetSeconds = 0\<rparr>"

text \<open>Year, month and day of a day number counted from 1970-01-01.\<close>

definition civil_date :: "int \<Rightarrow> int \<times> int \<times> int" where
  "civil_date days =
     (let z = days + 719468; era = z div 146097; doe = z mod 146097;
          yoe = (doe - doe div 1460 + doe div 36524 - doe div 146096) div 365;
          doy = doe - (365 * yoe + yoe div 4 - yoe div 100);
          mp = (5 * doy + 2) div 153;
          day = doy - (153 * mp + 2) div 5 + 1;
          month = (if mp < 10 then mp + 3 else mp - 9);
          year = yoe + era * 400 + (if month \<le> 2 then 1 else 0)
      in (year, month, day))"

definition pad_int :: "nat \<Rightarrow> int \<Rightarrow> string" where
  "pad_int w n = show_padded w (nat n)"

definition show_fraction :: "int \<Rightarrow> string" where
  "show_fraction ns =
     (if ns = 0 then []
      else CHR ''.'' # rev (dropWhile (\<lambda>c. c = CHR ''0'') (rev (pad_int 9 ns))))"

text \<open>The zone as \<open>Z07:00\<close>; the division by 60 truncates towards zero.\<close>

definition show_zone :: "int \<Rightarrow> string" where
  "show_zone off =
     (if off = 0 then ''Z''
      else let zone = \<bar>off\<bar> div 60
           in (if off < 0 \<and> zone \<noteq> 0 then ''-'' else ''+'') @ pad_int 2 (zone div 60) @ '':'' @ pad_int 2 (zone mod 60))"

definition local_seconds :: "Time \<Rightarrow> int" where
  "local_seconds t = Instant t div 1000000000 + OffsetSeconds t"

definition time_text :: "Time \<Rightarrow> string" where
  "time_text t =
     (let (year, month, day) = civil_date (local_seconds t div 86400); sec = local_seconds t mod 86400
      in pad_int 4 year @ ''-'' @ pad_int 2 month @ ''-'' @ pad_int 2 day @ ''T'' @
         pad_int 2 (sec div 3600) @ '':'' @ pad_int 2 (sec div 60 mod 60) @ '':'' @ pad_int 2 (sec mod 60) @
         show_fraction (Instant t mod 1000000000) @ show_zone (OffsetSeconds t))"

definition marshal_time :: "Time \<Rightarrow> string option" where
  "marshal_time t =
     (let year = fst (civil_date (local_seconds t div 86400))
      in if year < 0 \<or> 9999 < year \<or> 24 * 3600 \<le> \<bar>OffsetSeconds t\<bar> then None
         else Some (CHR 0x22 # time_text t @ [CHR 0x22]))"

lemma civil_date_epoch: "civil_date 0 = (1970, 1, 1)"
  by code_simp

end
