(* ===== verification/Merkle.thy ===== *)
theory Merkle
  imports Sha256 GoTime
begin

text \<open>
  Merkle trees. The first part is the level loop shared by \<open>pkg/chain/merkle.go\<close> and the work-set
  roots of \<open>pkg/mining/epoch.go\<close>: pad an odd level with a copy of its last node, hash the pairs, repeat
  until one node is left. The rest is \<open>pkg/chain/merkle.go\<close>: building a tree over transaction ids,
  inclusion proofs, their verification. Digests are SHA-256 rendered in hexadecimal, computed by
  the definitions of theory Sha256.
\<close>

section \<open>The level loop\<close>

definition pad_level :: "'a list \<Rightarrow> 'a list" where
  "pad_level xs = (if odd (length xs) then xs @ [last xs] else xs)"

fun pair_level :: "('a \<Rightarrow> 'a \<Rightarrow> 'a) \<Rightarrow> 'a list \<Rightarrow> 'a list" where
  "pair_level f (a # b # rest) = f a b # pair_level f rest"
| "pair_level f _ = []"

definition next_level :: "('a \<Rightarrow> 'a \<Rightarrow> 'a) \<Rightarrow> 'a list \<Rightarrow> 'a list" where
  "next_level f xs = pair_level f (pad_level xs)"

lemma length_pair_level [simp]: "length (pair_level f xs) = length xs div 2"
  by (induction f xs rule: pair_level.induct) simp_all

lemma length_pad_level: "length (pad_level xs) = 2 * ((length xs + 1) div 2)"
  by (simp add: pad_level_def)

lemma length_next_level [simp]: "length (next_level f xs) = (length xs + 1) div 2"
  by (simp add: next_level_def length_pad_level)

lemma nth_pair_level:
  assumes "2 * i + 1 < length xs"
  shows "pair_level f xs ! i = f (xs ! (2 * i)) (xs ! (2 * i + 1))"
  using assms
proof (induction f xs arbitrary: i rule: pair_level.induct)
  case (1 f a b rest)
  then show ?case by (cases i) simp_all
qed simp_all

lemma nth_pad_level [simp]: "i < length xs \<Longrightarrow> pad_level xs ! i = xs ! i"
  by (simp add: pad_level_def nth_append)

lemma pad_level_ne: "2 * i < length xs \<Longrightarrow> 2 * i + 1 < length (pad_level xs)"
  by (simp add: length_pad_level) presburger

function merkle_levels :: "('a \<Rightarrow> 'a \<Rightarrow> 'a) \<Rightarrow> 'a list \<Rightarrow> 'a list list" where
  "merkle_levels f xs = (if length xs > 1 then xs # merkle_levels f (next_level f xs) else [xs])"
  by pat_completeness auto
termination
  by (relation "measure (\<lambda>(f, xs). length xs)") auto

declare merkle_levels.simps [simp del]

definition levels_root :: "'a list list \<Rightarrow> 'a" where
  "levels_root ls = hd (last ls)"

lemma merkle_levels_ne [simp]: "merkle_levels f xs \<noteq> []"
  by (subst merkle_levels.simps) simp

lemma levels_root_step:
  "1 < length xs \<Longrightarrow> levels_root (merkle_levels f xs) = levels_root (merkle_levels f (next_level f xs))"
  by (subst merkle_levels.simps) (simp add: levels_root_def)

lemma levels_root_single [simp]: "levels_root (merkle_levels f [x]) = x"
  by (subst merkle_levels.simps) (simp add: levels_root_def)

text \<open>Padding by hand changes nothing above one node: an odd level and its padded copy agree.\<close>

lemma levels_root_pad:
  "1 < length xs \<Longrightarrow> levels_root (merkle_levels f (pad_level xs)) = levels_root (merkle_levels f xs)"
proof -
  assume "1 < length xs"
  moreover have "pad_level (pad_level xs) = pad_level xs"
    by (simp add: pad_level_def [of "pad_level xs"] length_pad_level)
  ultimately show ?thesis
    by (simp add: levels_root_step length_pad_level next_level_def)
qed

text \<open>The preimages hashed to build one level, and all levels.\<close>

fun pair_preimages :: "('a \<Rightarrow> 'a \<Rightarrow> 'p) \<Rightarrow> 'a list \<Rightarrow> 'p set" where
  "pair_preimages pre (a # b # rest) = insert (pre a b) (pair_preimages pre rest)"
| "pair_preimages pre _ = {}"

definition levels_preimages :: "('a \<Rightarrow> 'a \<Rightarrow> 'a) \<Rightarrow> ('a \<Rightarrow> 'a \<Rightarrow> 'p) \<Rightarrow> 'a list \<Rightarrow> 'p set" where
  "levels_preimages f pre xs = (\<Union>row \<in> set (merkle_levels f xs). pair_preimages pre (pad_level row))"

definition collision_in :: "('p \<Rightarrow> 'a) \<Rightarrow> 'p set \<Rightarrow> bool" where
  "collision_in H S = (\<exists>x\<in>S. \<exists>y\<in>S. x \<noteq> y \<and> H x = H y)"

lemma collision_in_mono: "collision_in H S \<Longrightarrow> S \<subseteq> T \<Longrightarrow> collision_in H T"
  by (auto simp: collision_in_def)

lemma levels_preimages_step:
  "1 < length xs \<Longrightarrow>
     levels_preimages f pre xs = pair_preimages pre (pad_level xs) \<union> levels_preimages f pre (next_level f xs)"
  by (simp add: levels_preimages_def merkle_levels.simps [of f xs])

lemma set_pad_level: "xs \<noteq> [] \<Longrightarrow> set (pad_level xs) = set xs"
  by (auto simp: pad_level_def)

text \<open>
  What a hash has to provide for the tree to commit to its leaves: inner nodes are digests of a
  preimage that determines both children, for children in digest format. No injectivity of the
  digest is assumed; the conclusions name the finite set of strings in which a collision would lie.
\<close>

locale digest_tree =
  fixes H :: "'p \<Rightarrow> 'a" and pre :: "'a \<Rightarrow> 'a \<Rightarrow> 'p" and node :: "'a \<Rightarrow> 'a \<Rightarrow> 'a" and wf :: "'a \<Rightarrow> bool"
  assumes node_digest: "node a b = H (pre a b)"
    and wf_digest: "wf (H p)"
    and pre_inject: "\<lbrakk>wf a; wf b; wf c; wf d; pre a b = pre c d\<rbrakk> \<Longrightarrow> a = c \<and> b = d"
begin

lemma pair_preimages_nth:
  "z \<in> set (pair_level node xs) \<Longrightarrow>
     \<exists>a b. a \<in> set xs \<and> b \<in> set xs \<and> z = node a b \<and> pre a b \<in> pair_preimages pre xs"
proof (induction xs rule: induct_list012)
  case (3 a b rest)
  then show ?case by auto
qed simp_all

lemma wf_next_level: "x \<in> set (next_level node xs) \<Longrightarrow> wf x"
  unfolding next_level_def using pair_preimages_nth node_digest wf_digest by metis

lemma same_pairs:
  assumes "length xs = length ys" "even (length xs)" "pair_level node xs = pair_level node ys"
    and "\<forall>x \<in> set xs. wf x" "\<forall>y \<in> set ys. wf y"
  shows "xs = ys \<or> collision_in H (pair_preimages pre xs \<union> pair_preimages pre ys)"
  using assms
proof (induction xs arbitrary: ys rule: induct_list012)
  case (3 a b rest)
  then obtain c d rest' where ys: "ys = c # d # rest'"
    by (cases ys; cases "tl ys") auto
  have ih: "rest = rest' \<or> collision_in H (pair_preimages pre rest \<union> pair_preimages pre rest')"
    using 3 by (intro "3.IH"(1)) (simp_all add: ys)
  have h: "H (pre a b) = H (pre c d)" using "3.prems"(3) by (simp add: ys node_digest)
  show ?case
  proof (cases "pre a b = pre c d")
    case True
    then have "a = c" "b = d" using pre_inject [of a b c d] "3.prems"(4-5) by (auto simp: ys)
    then show ?thesis using ih
      by (elim disjE) (simp add: ys, intro disjI2, erule collision_in_mono, auto simp: ys)
  next
    case False
    then show ?thesis using h unfolding collision_in_def ys by (intro disjI2) auto
  qed
qed auto

lemma same_level:
  assumes "length xs = length ys" "next_level node xs = next_level node ys" "xs \<noteq> []"
    and "\<forall>x \<in> set xs. wf x" "\<forall>y \<in> set ys. wf y"
  shows "xs = ys \<or> collision_in H (pair_preimages pre (pad_level xs) \<union> pair_preimages pre (pad_level ys))"
proof -
  have "ys \<noteq> []" using assms(1,3) by auto
  moreover have "pad_level xs = pad_level ys \<Longrightarrow> xs = ys"
    using assms(1) by (auto simp: pad_level_def split: if_splits)
  ultimately show ?thesis
    using same_pairs [of "pad_level xs" "pad_level ys"] assms
    by (auto simp: length_pad_level set_pad_level next_level_def)
qed

theorem same_root_same_leaves:
  assumes "length xs = length ys" "xs \<noteq> []"
    and "levels_root (merkle_levels node xs) = levels_root (merkle_levels node ys)"
    and "\<forall>x \<in> set xs. wf x" "\<forall>y \<in> set ys. wf y"
  shows "xs = ys \<or> collision_in H (levels_preimages node pre xs \<union> levels_preimages node pre ys)"
  using assms
proof (induction "length xs" arbitrary: xs ys rule: less_induct)
  case less
  show ?case
  proof (cases "1 < length xs")
    case True
    let ?xs = "next_level node xs" and ?ys = "next_level node ys"
    have long: "1 < length ys" using True less.prems by simp
    have "?xs = ?ys \<or> collision_in H (levels_preimages node pre ?xs \<union> levels_preimages node pre ?ys)"
      using less.prems True long
      by (intro less.hyps) (auto simp: levels_root_step wf_next_level simp flip: length_0_conv)
    then show ?thesis
    proof
      assume "?xs = ?ys"
      from same_level [OF less.prems(1) this less.prems(2,4,5)] show ?thesis
        by (elim disjE) (simp, intro disjI2, erule collision_in_mono,
            auto simp: levels_preimages_step [OF True] levels_preimages_step [OF long])
    next
      assume "collision_in H (levels_preimages node pre ?xs \<union> levels_preimages node pre ?ys)"
      then show ?thesis
        by (intro disjI2) (erule collision_in_mono,
            auto simp: levels_preimages_step [OF True] levels_preimages_step [OF long])
    qed
  next
    case False
    with less.prems obtain x y where "xs = [x]" "ys = [y]" by (cases xs; cases ys) auto
    then show ?thesis using less.prems by simp
  qed
qed

end

section \<open>pkg/chain/merkle.go\<close>

definition hashLeaf :: "string \<Rightarrow> string" where
  "hashLeaf d = sha256_hex d"

definition hashPair :: "string \<Rightarrow> string \<Rightarrow> string" where
  "hashPair left right = sha256_hex (left @ right)"

definition emptyHash :: string where
  "emptyHash = sha256_hex []"

record MerkleTree =
  Root :: string
  Leaves :: "string list"
  nodes :: "string list list"

definition BuildMerkleTree :: "string list \<Rightarrow> MerkleTree" where
  "BuildMerkleTree items =
     (if items = [] then \<lparr>Root = emptyHash, Leaves = [], nodes = []\<rparr>
      else let leaves = map hashLeaf items;
               levels = merkle_levels hashPair leaves
           in \<lparr>Root = levels_root levels, Leaves = leaves, nodes = levels\<rparr>)"

record ProofNode =
  PN_Hash :: string
  IsRight :: bool

record MerkleProof =
  LeafHash :: string
  Index :: int
  Siblings :: "ProofNode list"
  MP_Root :: string

datatype merkle_error = ErrIndexOutOfRange int nat

fun proof_path :: "string list list \<Rightarrow> nat \<Rightarrow> ProofNode list" where
  "proof_path (row # row' # rest) idx =
     (let row = pad_level row
      in (if even idx then \<lparr>PN_Hash = row ! (idx + 1), IsRight = True\<rparr>
          else \<lparr>PN_Hash = row ! (idx - 1), IsRight = False\<rparr>) # proof_path (row' # rest) (idx div 2))"
| "proof_path _ _ = []"

definition GenerateProof :: "MerkleTree \<Rightarrow> int \<Rightarrow> merkle_error + MerkleProof" where
  "GenerateProof mt index =
     (if index < 0 \<or> int (length (Leaves mt)) \<le> index
      then Inl (ErrIndexOutOfRange index (length (Leaves mt)))
      else Inr \<lparr>LeafHash = Leaves mt ! nat index, Index = index,
                Siblings = proof_path (nodes mt) (nat index), MP_Root = Root mt\<rparr>)"

definition climb :: "string \<Rightarrow> ProofNode \<Rightarrow> string" where
  "climb current sibling =
     (if IsRight sibling then hashPair current (PN_Hash sibling) else hashPair (PN_Hash sibling) current)"

definition VerifyProof :: "MerkleProof \<Rightarrow> string \<Rightarrow> bool" where
  "VerifyProof proof expectedRoot = (foldl climb (LeafHash proof) (Siblings proof) = expectedRoot)"

record BlockHeader =
  BH_Height :: u64
  BH_PrevHash :: string
  BH_Hash :: string
  BH_StateRoot :: string
  TxRoot :: string
  BH_Timestamp :: Time
  TxCount :: int

definition VerifyTxInBlock :: "string \<Rightarrow> MerkleProof \<Rightarrow> BlockHeader \<Rightarrow> bool" where
  "VerifyTxInBlock txID proof header =
     (if LeafHash proof \<noteq> hashLeaf txID then False else VerifyProof proof (TxRoot header))"

section \<open>Lemmas\<close>

lemma length_hashPair [simp]: "length (hashPair a b) = 64"
  by (simp add: hashPair_def)

lemma length_climb [simp]: "length (climb cur s) = 64"
  by (simp add: climb_def)

lemma Root_BuildMerkleTree:
  "items \<noteq> [] \<Longrightarrow> Root (BuildMerkleTree items) = levels_root (merkle_levels hashPair (map hashLeaf items))"
  by (simp add: BuildMerkleTree_def Let_def)

text \<open>One step of a proof path climbs from a node to its parent.\<close>

lemma climb_parent:
  assumes "idx < length xs" "1 < length xs"
  shows "climb (xs ! idx)
      (if even idx then \<lparr>PN_Hash = pad_level xs ! (idx + 1), IsRight = True\<rparr>
       else \<lparr>PN_Hash = pad_level xs ! (idx - 1), IsRight = False\<rparr>) = next_level hashPair xs ! (idx div 2)"
proof -
  define i where "i = idx div 2"
  have b: "2 * i < length xs" using assms by (simp add: i_def)
  then have n: "next_level hashPair xs ! i = hashPair (pad_level xs ! (2 * i)) (pad_level xs ! (2 * i + 1))"
    using nth_pair_level [OF pad_level_ne [OF b], of hashPair] by (simp add: next_level_def)
  show ?thesis
  proof (cases "even idx")
    case True
    then have "idx = 2 * i" by (simp add: i_def)
    then show ?thesis using n assms by (simp add: climb_def)
  next
    case False
    then have "idx = 2 * i + 1" by (simp add: i_def)
    then show ?thesis using n assms by (simp add: climb_def)
  qed
qed

lemma proof_path_correct:
  assumes "idx < length xs"
  shows "foldl climb (xs ! idx) (proof_path (merkle_levels hashPair xs) idx)
       = levels_root (merkle_levels hashPair xs)"
  using assms
proof (induction "length xs" arbitrary: xs idx rule: less_induct)
  case less
  show ?case
  proof (cases "1 < length xs")
    case True
    obtain l ls where m: "merkle_levels hashPair (next_level hashPair xs) = l # ls"
      by (meson list.exhaust merkle_levels_ne)
    have ih: "foldl climb (next_level hashPair xs ! (idx div 2)) (proof_path (l # ls) (idx div 2))
        = levels_root (l # ls)"
      using less.hyps [of "next_level hashPair xs" "idx div 2"] less.prems True by (simp add: m)
    have "merkle_levels hashPair xs = xs # l # ls" using True m by (subst merkle_levels.simps) simp
    then show ?thesis
      using ih climb_parent [OF less.prems True] by (simp add: Let_def levels_root_def)
  next
    case False
    with less.prems obtain x where "xs = [x]" by (cases xs) simp_all
    then show ?thesis using less.prems by (simp add: merkle_levels.simps levels_root_def)
  qed
qed

interpretation chain_tree: digest_tree sha256_hex "(@)" hashPair "\<lambda>s. length s = 64"
  by unfold_locales (auto simp: hashPair_def)

text \<open>The preimages hashed while building a tree over transaction ids, and while climbing a proof.\<close>

definition tree_preimages :: "string list \<Rightarrow> string set" where
  "tree_preimages items = set items \<union> levels_preimages hashPair (@) (map hashLeaf items)"

fun climb_preimages :: "string \<Rightarrow> ProofNode list \<Rightarrow> string set" where
  "climb_preimages cur [] = {}"
| "climb_preimages cur (s # ss) =
     insert (if IsRight s then cur @ PN_Hash s else PN_Hash s @ cur) (climb_preimages (climb cur s) ss)"

text \<open>
  A node of the level above that is reached by climbing from \<open>cur\<close> either has \<open>cur\<close> among its
  children, or exhibits two different preimages of one digest.
\<close>

lemma climb_into_level:
  assumes "climb cur s \<in> set (next_level hashPair xs)" and "xs \<noteq> []"
    and "\<forall>x \<in> set xs. length x = 64" and "length cur = 64"
  shows "cur \<in> set xs \<or> collision_in sha256_hex (insert (if IsRight s then cur @ PN_Hash s else PN_Hash s @ cur)
           (pair_preimages (@) (pad_level xs)))"
proof -
  let ?p = "if IsRight s then cur @ PN_Hash s else PN_Hash s @ cur"
  obtain a b where ab: "a \<in> set xs" "b \<in> set xs" "climb cur s = hashPair a b"
      "a @ b \<in> pair_preimages (@) (pad_level xs)"
    using assms(1) chain_tree.pair_preimages_nth unfolding next_level_def set_pad_level [OF assms(2), symmetric]
    by blast
  have len: "length a = 64" "length b = 64" using ab assms(3) by simp_all
  have h: "sha256_hex ?p = sha256_hex (a @ b)" using ab(3) by (simp add: climb_def hashPair_def split: if_splits)
  show ?thesis
  proof (cases "?p = a @ b")
    case True
    then have "cur = a \<or> cur = b" using len assms(4)
      by (cases "IsRight s") (auto simp: append_eq_append_conv)
    then show ?thesis using ab by auto
  next
    case False
    then show ?thesis using h ab(4) unfolding collision_in_def by blast
  qed
qed

lemma climb_sound:
  assumes "foldl climb cur ss = levels_root (merkle_levels hashPair xs)"
    and "length ss + 1 = length (merkle_levels hashPair xs)"
    and "xs \<noteq> []" and "\<forall>x \<in> set xs. length x = 64" and "length cur = 64"
  shows "cur \<in> set xs \<or> collision_in sha256_hex (climb_preimages cur ss \<union> levels_preimages hashPair (@) xs)"
  using assms
proof (induction ss arbitrary: cur xs)
  case Nil
  have "length xs = 1"
  proof (rule ccontr)
    assume "length xs \<noteq> 1"
    with Nil have "1 < length xs" by (cases xs) auto
    then show False using Nil(2) by (subst (asm) merkle_levels.simps) simp
  qed
  then obtain x where "xs = [x]" by (cases xs) simp_all
  then show ?case using Nil by simp
next
  case (Cons s ss)
  have long: "1 < length xs"
    using Cons.prems(2) by (subst (asm) merkle_levels.simps) (simp split: if_splits)
  let ?up = "next_level hashPair xs" and ?c = "climb cur s"
  have len: "length ss + 1 = length (merkle_levels hashPair ?up)"
    using Cons.prems(2) long by (subst (asm) merkle_levels.simps) simp
  have ne: "?up \<noteq> []" using long by (simp flip: length_0_conv)
  have "?c \<in> set ?up \<or> collision_in sha256_hex (climb_preimages ?c ss \<union> levels_preimages hashPair (@) ?up)"
    using Cons.prems long len ne by (intro Cons.IH)
      (simp_all add: levels_root_step chain_tree.wf_next_level)
  then show ?case
  proof
    assume "?c \<in> set ?up"
    from climb_into_level [OF this Cons.prems(3-5)] show ?thesis
      by (rule disj_forward) (simp, erule collision_in_mono, auto simp: levels_preimages_step [OF long])
  next
    assume "collision_in sha256_hex (climb_preimages ?c ss \<union> levels_preimages hashPair (@) ?up)"
    then show ?thesis
      by (intro disjI2) (erule collision_in_mono, auto simp: levels_preimages_step [OF long])
  qed
qed

section \<open>Properties\<close>

text \<open>
  C40: completeness of inclusion proofs. For every non-empty list of transaction ids and every index
  in range, proof generation succeeds and the proof verifies against any header whose transaction
  root is the root of the tree; every other index is refused with an error.
\<close>

theorem generated_proof_verifies:
  assumes "0 \<le> i" "i < int (length items)" "TxRoot header = Root (BuildMerkleTree items)"
  shows "\<exists>p. GenerateProof (BuildMerkleTree items) i = Inr p \<and>
    VerifyTxInBlock (items ! nat i) p header"
proof -
  have ne: "items \<noteq> []" using assms by auto
  have i: "nat i < length items" using assms by simp
  then show ?thesis
    using assms ne proof_path_correct [of "nat i" "map hashLeaf items"]
    by (simp add: GenerateProof_def VerifyTxInBlock_def VerifyProof_def BuildMerkleTree_def Let_def)
qed

theorem generated_proof_verifies_witness:
  "\<exists>p. GenerateProof (BuildMerkleTree [''a'', ''b'', ''c'']) 2 = Inr p \<and>
     VerifyTxInBlock ''c'' p
       \<lparr>BH_Height = 1, BH_PrevHash = [], BH_Hash = [], BH_StateRoot = [],
        TxRoot = Root (BuildMerkleTree [''a'', ''b'', ''c'']), BH_Timestamp = utc 0, TxCount = 3\<rparr>"
  using generated_proof_verifies [of 2 "[''a'', ''b'', ''c'']"
    "\<lparr>BH_Height = 1, BH_PrevHash = [], BH_Hash = [], BH_StateRoot = [],
      TxRoot = Root (BuildMerkleTree [''a'', ''b'', ''c'']), BH_Timestamp = utc 0, TxCount = 3\<rparr>"]
  by simp

text \<open>
  soundness of inclusion proofs up to SHA-256 collisions. If a proof with as many siblings as
  the tree has levels above the leaves verifies, the transaction id is in the block, or the finitely
  many strings hashed by the builder and by the verifier contain two different ones with the same
  digest.
\<close>

theorem verified_tx_is_in_block:
  assumes "items \<noteq> []" "TxRoot header = Root (BuildMerkleTree items)"
    and "VerifyTxInBlock txID p header"
    and "length (Siblings p) + 1 = length (nodes (BuildMerkleTree items))"
  shows "txID \<in> set items \<or>
    collision_in sha256_hex (insert txID (climb_preimages (LeafHash p) (Siblings p)) \<union> tree_preimages items)"
proof -
  have leaf: "LeafHash p = hashLeaf txID" and v: "foldl climb (LeafHash p) (Siblings p) = TxRoot header"
    using assms(3) by (simp_all add: VerifyTxInBlock_def VerifyProof_def split: if_splits)
  have "LeafHash p \<in> set (map hashLeaf items) \<or>
      collision_in sha256_hex (climb_preimages (LeafHash p) (Siblings p) \<union> levels_preimages hashPair (@) (map hashLeaf items))"
    using assms leaf v by (intro climb_sound) (auto simp: BuildMerkleTree_def Let_def hashLeaf_def)
  then show ?thesis
  proof
    assume "LeafHash p \<in> set (map hashLeaf items)"
    then obtain t where t: "t \<in> set items" "hashLeaf txID = hashLeaf t" using leaf by auto
    show ?thesis
    proof (cases "txID = t")
      case False
      then show ?thesis using t by (auto simp: collision_in_def tree_preimages_def hashLeaf_def)
    qed (use t in simp)
  next
    assume "collision_in sha256_hex (climb_preimages (LeafHash p) (Siblings p) \<union> levels_preimages hashPair (@) (map hashLeaf items))"
    then show ?thesis
      by (intro disjI2) (auto elim!: collision_in_mono simp: tree_preimages_def)
  qed
qed

theorem verified_tx_is_in_block_witness:
  "''a'' \<in> set [''a''] \<or> collision_in sha256_hex (insert ''a'' (climb_preimages (hashLeaf ''a'') []) \<union> tree_preimages [''a''])"
  using verified_tx_is_in_block [of "[''a'']"
    "\<lparr>BH_Height = 1, BH_PrevHash = [], BH_Hash = [], BH_StateRoot = [],
      TxRoot = Root (BuildMerkleTree [''a'']), BH_Timestamp = utc 0, TxCount = 1\<rparr>" "''a''"
    "\<lparr>LeafHash = hashLeaf ''a'', Index = 0, Siblings = [], MP_Root = []\<rparr>"]
  by (simp add: BuildMerkleTree_def VerifyTxInBlock_def VerifyProof_def merkle_levels.simps)

text \<open>
  the number of siblings is not checked, and leaves and inner nodes are hashed alike. For every
  block with exactly two transactions, the concatenation of their leaf digests, a 128-character
  string, passes inclusion verification with an empty proof.
\<close>

theorem inner_node_passes_as_leaf:
  assumes "TxRoot header = Root (BuildMerkleTree [a, b])"
  shows "VerifyTxInBlock (hashLeaf a @ hashLeaf b)
    \<lparr>LeafHash = hashPair (hashLeaf a) (hashLeaf b), Index = 0, Siblings = [], MP_Root = TxRoot header\<rparr>
    header"
  using assms
  by (simp add: VerifyTxInBlock_def VerifyProof_def BuildMerkleTree_def hashLeaf_def hashPair_def
      merkle_levels.simps next_level_def pad_level_def levels_root_def Let_def)

theorem inner_node_passes_as_leaf_witness:
  "VerifyTxInBlock (hashLeaf ''tx1'' @ hashLeaf ''tx2'')
    \<lparr>LeafHash = hashPair (hashLeaf ''tx1'') (hashLeaf ''tx2''), Index = 0, Siblings = [],
     MP_Root = Root (BuildMerkleTree [''tx1'', ''tx2''])\<rparr>
    \<lparr>BH_Height = 1, BH_PrevHash = [], BH_Hash = [], BH_StateRoot = [],
     TxRoot = Root (BuildMerkleTree [''tx1'', ''tx2'']), BH_Timestamp = utc 0, TxCount = 2\<rparr>"
  using inner_node_passes_as_leaf [of "\<lparr>BH_Height = 1, BH_PrevHash = [], BH_Hash = [], BH_StateRoot = [],
     TxRoot = Root (BuildMerkleTree [''tx1'', ''tx2'']), BH_Timestamp = utc 0, TxCount = 2\<rparr>" "''tx1''" "''tx2''"]
  by simp

end
