(* ===== verification/BlockProducer.thy ===== *)
theory BlockProducer
  imports PolFollower TxValidator Receipts Merkle Json
begin

text \<open>
  \<open>pkg/chain/block.go\<close> and \<open>blockreceipts.go\<close>: blocks and their hash, the block producer with its gates,
  external append, chain restoration and queries, and the producer that also writes receipts.

  The producer is a record with the state of the applier in the field \<open>live\<close>; an applier is the record
  of its methods over a state type, as a Go interface value is a method table over a pointer. What an
  applier can read of the producer while it applies a transaction, the lock-free \<open>TipHeight\<close>, is the first
  argument of its \<open>ApplyTx\<close>. Errors of an applier are values of a type parameter. The hooks \<open>OnSealed\<close> and
  \<open>OnSealedBlock\<close> are functions that may change the applier's state; the first also sees the chain. The
  pre-seal hook may change the voting engine. \<open>clk\<close> is the clock. A nil entry in a block's transactions
  makes \<open>computeTxRoot\<close> panic before anything else looks at the block, so blocks here hold transactions.
\<close>

record Block =
  Height :: u64
  PrevHash :: string
  Hash :: string
  Timestamp :: Time
  Transactions :: "Tx list"
  BStateRoot :: string
  TotalFees :: f64
  GasUsed :: u64
  ProducerID :: string

definition computeTxRoot :: "Tx list \<Rightarrow> string" where
  "computeTxRoot txs = (if txs = [] then emptyHash else Root (BuildMerkleTree (map TxID txs)))"

definition Header :: "Block \<Rightarrow> BlockHeader" where
  "Header b =
     \<lparr>BH_Height = Height b, BH_PrevHash = PrevHash b, BH_Hash = Hash b, BH_StateRoot = BStateRoot b,
      TxRoot = computeTxRoot (Transactions b), BH_Timestamp = Timestamp b, TxCount = int (length (Transactions b))\<rparr>"

text \<open>\<open>json.Marshal\<close> of the hashed fields; the only error is a timestamp that cannot be rendered, for which \<open>data\<close> is nil.\<close>

definition block_json :: "Block \<Rightarrow> string option" where
  "block_json b =
     map_option (\<lambda>ts. html_escape (json_object
       [json_field ''h'' (show_nat (unat (Height b))),
        json_field ''p'' (json_string (PrevHash b)),
        json_field ''s'' (json_string (BStateRoot b)),
        json_field ''t'' (json_string (computeTxRoot (Transactions b))),
        json_field ''ts'' ts,
        json_field ''pr'' (json_string (ProducerID b))])) (marshal_time (Timestamp b))"

definition computeBlockHash :: "Block \<Rightarrow> string" where
  "computeBlockHash b = sha256_hex (case block_json b of None \<Rightarrow> [] | Some d \<Rightarrow> d)"

section \<open>State\<close>

record ('s, 'e) StateApplier =
  ap_ApplyTx :: "u64 \<Rightarrow> Tx \<Rightarrow> 's \<Rightarrow> 'e option \<times> 's"
  ap_StateRoot :: "'s \<Rightarrow> string"
  ap_Clone :: "('s \<Rightarrow> 's) option" \<comment> \<open>\<open>AccountStore.Clone\<close> when the dynamic type is \<open>*AccountStore\<close>\<close>
  ap_Replay :: "(('s \<Rightarrow> 's) \<times> ('s \<Rightarrow> 's \<Rightarrow> 'e option \<times> 's)) option" \<comment> \<open>the two methods of \<open>ChainReplayApplier\<close>\<close>

record ProducerConfig =
  MaxTxPerBlock :: int
  PC_ProducerID :: string

record ('s, 'e) BlockProducer =
  pool :: Mempool
  applier :: "('s, 'e) StateApplier"
  live :: 's
  chain :: "Block list"
  maxTxBlock :: int
  producerID :: string
  polFollower :: "PolFollower option"
  bftSealGate :: "BFTConsensus option"
  preSealBFTRound :: "(Block \<Rightarrow> BFTConsensus option \<Rightarrow> string option \<times> BFTConsensus option) option"
  sealGuard :: "(unit \<Rightarrow> string option) option"
  OnSealed :: "(Block list \<Rightarrow> 's \<Rightarrow> 's) option"
  OnSealedBlock :: "(Block \<Rightarrow> 's \<Rightarrow> 's) option"
  appendReceipts :: "'e ReceiptStore option"
  tipHeight :: u64
  tipHeightSet :: bool

datatype 'e block_error =
  ErrSealGuardBlocked string | ErrPolExtensionBlocked | ErrBFTExtensionBlocked | ErrPreSealRequiresAccountStore
| ErrNoTransactions | ErrAllFailed | ErrPreSealRound string | ErrLiveApply 'e | ErrPreSealRoot
| ErrInvalidHash | ErrExternalAppendNeedsAccountStore | ErrExternalAppendConflict u64 string string
| ErrNotExtendTip | ErrExternalGenesis | ErrReplaySpec 'e | ErrReplayRoot | ErrTipChanged | ErrExternalLive 'e | ErrLiveRoot
| ErrRestoreNonEmpty | ErrRestoreNil nat | ErrRestoreHash nat | ErrRestoreHeights nat | ErrRestoreLink nat

definition DefaultProducerConfig :: ProducerConfig where
  "DefaultProducerConfig = \<lparr>MaxTxPerBlock = 500, PC_ProducerID = ''node-0''\<rparr>"

definition NewBlockProducer :: "Mempool \<Rightarrow> ('s, 'e) StateApplier \<Rightarrow> 's \<Rightarrow> ProducerConfig \<Rightarrow> ('s, 'e) BlockProducer" where
  "NewBlockProducer p ap s cfg =
     \<lparr>pool = p, applier = ap, live = s, chain = [],
      maxTxBlock = (if MaxTxPerBlock cfg \<le> 0 then 500 else MaxTxPerBlock cfg), producerID = PC_ProducerID cfg,
      polFollower = None, bftSealGate = None, preSealBFTRound = None, sealGuard = None, OnSealed = None,
      OnSealedBlock = None, appendReceipts = None, tipHeight = 0, tipHeightSet = False\<rparr>"

definition BP_SetPolFollower :: "PolFollower option \<Rightarrow> ('s, 'e) BlockProducer \<Rightarrow> ('s, 'e) BlockProducer" where
  "BP_SetPolFollower p bp = bp\<lparr>polFollower := p\<rparr>"

definition SetBFTSealGate :: "BFTConsensus option \<Rightarrow> ('s, 'e) BlockProducer \<Rightarrow> ('s, 'e) BlockProducer" where
  "SetBFTSealGate bc bp = bp\<lparr>bftSealGate := bc\<rparr>"

definition SetAppendReceiptStore :: "'e ReceiptStore option \<Rightarrow> ('s, 'e) BlockProducer \<Rightarrow> ('s, 'e) BlockProducer" where
  "SetAppendReceiptStore rs bp = bp\<lparr>appendReceipts := rs\<rparr>"

definition SetPreSealBFTRound ::
    "(Block \<Rightarrow> BFTConsensus option \<Rightarrow> string option \<times> BFTConsensus option) option \<Rightarrow> ('s, 'e) BlockProducer \<Rightarrow> ('s, 'e) BlockProducer" where
  "SetPreSealBFTRound fn bp = bp\<lparr>preSealBFTRound := fn\<rparr>"

definition SetSealGuard :: "(unit \<Rightarrow> string option) option \<Rightarrow> ('s, 'e) BlockProducer \<Rightarrow> ('s, 'e) BlockProducer" where
  "SetSealGuard fn bp = bp\<lparr>sealGuard := fn\<rparr>"

section \<open>Ordering by nonce\<close>

definition nonce_before :: "Tx \<Rightarrow> Tx \<Rightarrow> bool" where
  "nonce_before t u = (if TxNonce t \<noteq> TxNonce u then TxNonce t < TxNonce u else TxID t < TxID u)"

fun group_by_sender :: "Tx list \<Rightarrow> (string, Tx list) fmap \<Rightarrow> (string, Tx list) fmap" where
  "group_by_sender [] g = g"
| "group_by_sender (t # ts) g =
     group_by_sender ts (if Sender t = [] then g else fmupd (Sender t) (map_slice g (Sender t) @ [t]) g)"

fun refill :: "(string, Tx list) fmap \<Rightarrow> (string, nat) fmap \<Rightarrow> Tx list \<Rightarrow> Tx list" where
  "refill g nxt [] = []"
| "refill g nxt (t # ts) =
     (if Sender t = [] then t # refill g nxt ts
      else let idx = (case fmlookup nxt (Sender t) of None \<Rightarrow> 0 | Some i \<Rightarrow> i)
           in map_slice g (Sender t) ! idx # refill g (fmupd (Sender t) (idx + 1) nxt) ts)"

definition orderSenderNonces :: "Tx list \<Rightarrow> Tx list" where
  "orderSenderNonces txs =
     (if length txs < 2 then txs
      else let g = fmmap (\<lambda>grp. if length grp < 2 then grp else go_sort nonce_before grp) (group_by_sender txs fmempty)
           in refill g fmempty txs)"

section \<open>Applying transactions\<close>

text \<open>The loop of \<open>ProduceBlock\<close>: a transaction that fails is recorded and skipped.\<close>

fun apply_txs :: "(Tx \<Rightarrow> 's \<Rightarrow> 'e option \<times> 's) \<Rightarrow> Tx list \<Rightarrow> 's \<Rightarrow> (Tx \<times> 'e option) list \<times> 's" where
  "apply_txs f [] s = ([], s)"
| "apply_txs f (tx # txs) s =
     (let (err, s) = f tx s; (ocs, s) = apply_txs f txs s in ((tx, err) # ocs, s))"

definition included :: "(Tx \<times> 'e option) list \<Rightarrow> Tx list" where
  "included ocs = map fst (filter (\<lambda>oc. snd oc = None) ocs)"

text \<open>The replay loops: the first error stops.\<close>

fun replay_txs :: "(Tx \<Rightarrow> 's \<Rightarrow> 'e option \<times> 's) \<Rightarrow> Tx list \<Rightarrow> 's \<Rightarrow> 'e option \<times> 's" where
  "replay_txs f [] s = (None, s)"
| "replay_txs f (tx # txs) s =
     (case f tx s of (Some e, s) \<Rightarrow> (Some e, s) | (None, s) \<Rightarrow> replay_txs f txs s)"

definition next_position :: "Block list \<Rightarrow> string \<times> u64" where
  "next_position bs = (if bs = [] then ([], 0) else (Hash (last bs), Height (last bs) + 1))"

definition make_block :: "Time \<Rightarrow> string \<Rightarrow> Block list \<Rightarrow> Tx list \<Rightarrow> string \<Rightarrow> Block" where
  "make_block now pid bs inc stateRoot =
     (let b = \<lparr>Height = snd (next_position bs), PrevHash = fst (next_position bs), Hash = [], Timestamp = now,
               Transactions = inc, BStateRoot = stateRoot, TotalFees = foldl (\<lambda>x tx. fadd x (Fee tx)) fzero inc,
               GasUsed = foldl (\<lambda>x tx. x + GasLimit tx) 0 inc, ProducerID = pid\<rparr>
      in b\<lparr>Hash := computeBlockHash b\<rparr>)"

section \<open>Receipts of a block\<close>

definition tx_receipt :: "Tx \<Rightarrow> u64 \<Rightarrow> string \<Rightarrow> go_time \<Rightarrow> int \<Rightarrow> 'e option \<Rightarrow> 'e option \<Rightarrow> string \<Rightarrow> 'e TxReceipt" where
  "tx_receipt tx height bhash now idx err logged prefix =
     (let r = \<lparr>RTxID = TxID tx, RBlockHeight = height, RBlockHash = bhash,
               RStatus = (if err = None then ReceiptSuccess else ReceiptFailed), RGasUsed = GasLimit tx, RFee = Fee tx,
               RLogs = [], RError = err, RTimestamp = now, RContractID = [], RIndexInBlock = idx\<rparr>;
          logData = (case logged of
              None \<Rightarrow> fmupd ''amount'' (LNum (Amount tx))
                       (fmupd ''recipient'' (LStr (Recipient tx)) (fmupd ''sender'' (LStr (Sender tx)) fmempty))
            | Some e \<Rightarrow> fmupd ''error'' (LErr prefix e) fmempty);
          (r, logData) = applyReceiptContractFromTx tx (r, logData)
      in r\<lparr>RLogs := [\<lparr>Topic = (if err = None then ''TxApplied'' else ''TxFailed''), LogData = logData, LogIndex = 0\<rparr>]\<rparr>)"

fun produce_receipts :: "Block \<Rightarrow> go_time \<Rightarrow> nat \<Rightarrow> nat \<Rightarrow> (Tx \<times> 'e option) list \<Rightarrow> 'e TxReceipt list" where
  "produce_receipts blk now includedIdx failureRank [] = []"
| "produce_receipts blk now includedIdx failureRank ((tx, err) # ocs) =
     (case err of
        Some e \<Rightarrow>
          tx_receipt tx (Height blk) (Hash blk) now (int (length (Transactions blk) + failureRank)) err err [] #
            produce_receipts blk now includedIdx (failureRank + 1) ocs
      | None \<Rightarrow>
          tx_receipt tx (Height blk) (Hash blk) now (int includedIdx) None None [] #
            produce_receipts blk now (includedIdx + 1) failureRank ocs)"

definition storeProduceBlockReceipts ::
    "Block \<Rightarrow> (Tx \<times> 'e option) list \<Rightarrow> go_time \<Rightarrow> 'e ReceiptStore \<Rightarrow> 'e ReceiptStore" where
  "storeProduceBlockReceipts blk ocs now rs = fold Store (produce_receipts blk now 0 0 ocs) rs"

text \<open>
  Receipts of an external block: each transaction is tried on a clone and then applied to the
  sequential state; the second application cannot disagree unless \<open>ApplyTx\<close> does.
\<close>

fun append_receipts ::
    "(Tx \<Rightarrow> 's \<Rightarrow> 'e option \<times> 's) \<Rightarrow> ('s \<Rightarrow> 's) \<Rightarrow> Block \<Rightarrow> go_time \<Rightarrow> nat \<Rightarrow> Tx list \<Rightarrow> 's \<Rightarrow> 'e TxReceipt list" where
  "append_receipts f clone blk now i [] s = []"
| "append_receipts f clone blk now i (tx # txs) s =
     (case fst (f tx (clone s)) of
        Some e \<Rightarrow> tx_receipt tx (Height blk) (Hash blk) now (int i) (Some e) (Some e) [] #
                    append_receipts f clone blk now (i + 1) txs s
      | None \<Rightarrow>
          (case f tx s of
             (Some e, s) \<Rightarrow> [tx_receipt tx (Height blk) (Hash blk) now (int i) (Some e) (Some e)
                               ''sequential apply after successful trial: '']
           | (None, s) \<Rightarrow> tx_receipt tx (Height blk) (Hash blk) now (int i) None None [] #
                            append_receipts f clone blk now (i + 1) txs s))"

definition storeExternalAppendReceipts ::
    "(Tx \<Rightarrow> 's \<Rightarrow> 'e option \<times> 's) \<Rightarrow> ('s \<Rightarrow> 's) \<Rightarrow> Block \<Rightarrow> 's \<Rightarrow> go_time \<Rightarrow> 'e ReceiptStore \<Rightarrow> 'e ReceiptStore" where
  "storeExternalAppendReceipts f clone blk pre now rs =
     fold Store (append_receipts f clone blk now 0 (Transactions blk) (clone pre)) rs"

section \<open>Producing a block\<close>

text \<open>The gates of \<open>ProduceBlock\<close>, in order.\<close>

definition seal_gates :: "('s, 'e) BlockProducer \<Rightarrow> 'e block_error option" where
  "seal_gates bp =
     (case (case sealGuard bp of None \<Rightarrow> None | Some g \<Rightarrow> g ()) of
        Some e \<Rightarrow> Some (ErrSealGuardBlocked e)
      | None \<Rightarrow>
          if chain bp \<noteq> [] \<and> (case polFollower bp of None \<Rightarrow> False
               | Some p \<Rightarrow> \<not> CanExtendFromTip (Height (last (chain bp))) (BStateRoot (last (chain bp))) p)
          then Some ErrPolExtensionBlocked
          else if chain bp \<noteq> [] \<and> (case bftSealGate bp of None \<Rightarrow> False
               | Some bc \<Rightarrow> \<not> IsCommitted (Height (last (chain bp))) bc)
          then Some ErrBFTExtensionBlocked
          else if preSealBFTRound bp \<noteq> None \<and> ap_Clone (applier bp) = None
          then Some ErrPreSealRequiresAccountStore
          else None)"

text \<open>
  The callbacks run after the lock is released: other operations may come before them, between them and
  before the next ones. \<open>run_hooks\<close> is the sequence when nothing does.
\<close>

definition run_OnSealed :: "('s, 'e) BlockProducer \<Rightarrow> ('s, 'e) BlockProducer" where
  "run_OnSealed bp = (case OnSealed bp of None \<Rightarrow> bp | Some f \<Rightarrow> bp\<lparr>live := f (chain bp) (live bp)\<rparr>)"

definition run_OnSealedBlock :: "Block \<Rightarrow> ('s, 'e) BlockProducer \<Rightarrow> ('s, 'e) BlockProducer" where
  "run_OnSealedBlock blk bp = (case OnSealedBlock bp of None \<Rightarrow> bp | Some f \<Rightarrow> bp\<lparr>live := f blk (live bp)\<rparr>)"

definition run_hooks :: "Block \<Rightarrow> ('s, 'e) BlockProducer \<Rightarrow> ('s, 'e) BlockProducer" where
  "run_hooks blk bp = run_OnSealedBlock blk (run_OnSealed bp)"

definition append_block :: "Block \<Rightarrow> ('s, 'e) BlockProducer \<Rightarrow> ('s, 'e) BlockProducer" where
  "append_block blk bp = bp\<lparr>chain := chain bp @ [blk], tipHeight := Height blk, tipHeightSet := True\<rparr>"

text \<open>What \<open>ProduceBlock\<close> does after the lock is released: receipts, then the callbacks.\<close>

definition seal_finish ::
    "go_time \<Rightarrow> Block \<Rightarrow> (Tx \<times> 'e option) list \<Rightarrow> ('s, 'e) BlockProducer \<Rightarrow> ('s, 'e) BlockProducer" where
  "seal_finish now blk ocs bp =
     run_hooks blk (case appendReceipts bp of None \<Rightarrow> bp
       | Some rs \<Rightarrow> bp\<lparr>appendReceipts := Some (storeProduceBlockReceipts blk ocs now rs)\<rparr>)"

definition restore_pool :: "clock \<Rightarrow> Tx list \<Rightarrow> ('s, 'e) BlockProducer \<Rightarrow> ('s, 'e) BlockProducer" where
  "restore_pool clk txs bp = bp\<lparr>pool := RestoreTransactions clk (map Some txs) (pool bp)\<rparr>"

text \<open>
  \<open>now\<close> is the timestamp of the block, \<open>clk\<close> the clock of the pool and of the receipts. The state that
  the speculative and the live application start from is the same. \<open>produce_locked\<close> is the part under the
  lock; it returns the block with the outcome of every drained transaction.
\<close>

definition produce_locked ::
    "Time \<Rightarrow> clock \<Rightarrow> ('s, 'e) BlockProducer \<Rightarrow>
       ('e block_error + Block \<times> (Tx \<times> 'e option) list) \<times> ('s, 'e) BlockProducer" where
  "produce_locked now clk bp =
     (case seal_gates bp of Some e \<Rightarrow> (Inl e, bp) | None \<Rightarrow>
        let (txs, rest) = Drain (maxTxBlock bp) (pool bp); bp = bp\<lparr>pool := rest\<rparr>
        in if txs = [] then (Inl ErrNoTransactions, bp)
           else
             let txs = orderSenderNonces txs; f = ap_ApplyTx (applier bp) (tipHeight bp)
             in case preSealBFTRound bp of
                  Some hook \<Rightarrow>
                    (case ap_Clone (applier bp) of
                       None \<Rightarrow> (Inl ErrPreSealRequiresAccountStore, bp)
                     | Some clone \<Rightarrow>
                         let (ocs, spec) = apply_txs f txs (clone (live bp)); inc = included ocs
                         in if inc = [] then (Inl ErrAllFailed, restore_pool clk txs bp)
                            else
                              let stateRoot = ap_StateRoot (applier bp) spec;
                                  tentative = make_block now (producerID bp) (chain bp) inc stateRoot;
                                  (herr, bft) = hook tentative (bftSealGate bp);
                                  bp = bp\<lparr>bftSealGate := bft\<rparr>
                              in case herr of
                                   Some e \<Rightarrow> (Inl (ErrPreSealRound e), restore_pool clk txs bp)
                                 | None \<Rightarrow>
                                     (case replay_txs f inc (live bp) of
                                        (Some e, s) \<Rightarrow> (Inl (ErrLiveApply e), restore_pool clk txs (bp\<lparr>live := s\<rparr>))
                                      | (None, s) \<Rightarrow>
                                          let bp = bp\<lparr>live := s\<rparr>
                                          in if ap_StateRoot (applier bp) s \<noteq> stateRoot
                                             then (Inl ErrPreSealRoot, restore_pool clk txs bp)
                                             else (Inr (tentative, ocs), append_block tentative bp)))
                | None \<Rightarrow>
                    let (ocs, s) = apply_txs f txs (live bp); inc = included ocs; bp = bp\<lparr>live := s\<rparr>
                    in if inc = [] then (Inl ErrAllFailed, restore_pool clk txs bp)
                       else
                         let blk = make_block now (producerID bp) (chain bp) inc (ap_StateRoot (applier bp) s)
                         in (Inr (blk, ocs), append_block blk bp))"

text \<open>The whole call, when nothing runs between the critical section and the callbacks.\<close>

definition ProduceBlock ::
    "Time \<Rightarrow> clock \<Rightarrow> ('s, 'e) BlockProducer \<Rightarrow> ('e block_error + Block) \<times> ('s, 'e) BlockProducer" where
  "ProduceBlock now clk bp =
     (case produce_locked now clk bp of
        (Inl e, bp) \<Rightarrow> (Inl e, bp)
      | (Inr (blk, ocs), bp) \<Rightarrow> (Inr blk, seal_finish (clk 0) blk ocs bp))"

section \<open>Appending an external block\<close>

fun find_height :: "u64 \<Rightarrow> Block list \<Rightarrow> Block option" where
  "find_height h [] = None"
| "find_height h (b # bs) = (if Height b = h then Some b else find_height h bs)"

text \<open>
  The first critical section: \<open>Inl None\<close> is the early return without an error (the block is already
  there), \<open>Inr ()\<close> goes on.
\<close>

definition append_check :: "Block \<Rightarrow> ('s, 'e) BlockProducer \<Rightarrow> 'e block_error option + unit" where
  "append_check blk bp =
     (case (case sealGuard bp of None \<Rightarrow> None | Some g \<Rightarrow> g ()) of
        Some e \<Rightarrow> Inl (Some (ErrSealGuardBlocked e))
      | None \<Rightarrow>
          (case find_height (Height blk) (chain bp) of
             Some b \<Rightarrow> Inl (if Hash b = Hash blk then None
                            else Some (ErrExternalAppendConflict (Height blk) (Hash b) (Hash blk)))
           | None \<Rightarrow>
               if chain bp \<noteq> [] then
                 let tip = last (chain bp)
                 in if PrevHash blk \<noteq> Hash tip \<or> Height blk \<noteq> Height tip + 1 then Inl (Some ErrNotExtendTip)
                    else if (case polFollower bp of None \<Rightarrow> False
                        | Some p \<Rightarrow> \<not> CanExtendFromTip (Height tip) (BStateRoot tip) p)
                    then Inl (Some ErrPolExtensionBlocked) else Inr ()
               else if Height blk \<noteq> 0 \<or> PrevHash blk \<noteq> [] then Inl (Some ErrExternalGenesis)
               else Inr ()))"

text \<open>Between the critical sections the block is replayed on a clone.\<close>

definition append_replay :: "Block \<Rightarrow> ('s \<Rightarrow> 's) \<Rightarrow> ('s, 'e) BlockProducer \<Rightarrow> 'e block_error option" where
  "append_replay blk clone bp =
     (case replay_txs (ap_ApplyTx (applier bp) (tipHeight bp)) (Transactions blk) (clone (live bp)) of
        (Some e, _) \<Rightarrow> Some (ErrReplaySpec e)
      | (None, spec) \<Rightarrow> if ap_StateRoot (applier bp) spec \<noteq> BStateRoot blk then Some ErrReplayRoot else None)"

definition remove_all :: "string list \<Rightarrow> Mempool \<Rightarrow> Mempool" where
  "remove_all ids m = fold (\<lambda>tid m. snd (Remove tid m)) ids m"

text \<open>
  The second critical section; it checks height and link again, not the other gates. \<open>Inl\<close> is the
  return value of an early return, \<open>Inr\<close> the backup from which the receipts are replayed.
\<close>

definition append_locked ::
    "Block \<Rightarrow> ('s \<Rightarrow> 's) \<times> ('s \<Rightarrow> 's \<Rightarrow> 'e option \<times> 's) \<Rightarrow> ('s, 'e) BlockProducer \<Rightarrow>
       ('e block_error option + 's) \<times> ('s, 'e) BlockProducer" where
  "append_locked blk ra bp =
     (case find_height (Height blk) (chain bp) of
        Some b \<Rightarrow> (Inl (if Hash b = Hash blk then None
                        else Some (ErrExternalAppendConflict (Height blk) (Hash b) (Hash blk))), bp)
      | None \<Rightarrow>
          if chain bp \<noteq> [] \<and> (PrevHash blk \<noteq> Hash (last (chain bp)) \<or> Height blk \<noteq> Height (last (chain bp)) + 1)
          then (Inl (Some ErrTipChanged), bp)
          else
            let (clone, restore) = ra; backup = clone (live bp)
            in case replay_txs (ap_ApplyTx (applier bp) (tipHeight bp)) (Transactions blk) (live bp) of
                 (Some e, s) \<Rightarrow> (Inl (Some (ErrExternalLive e)), bp\<lparr>live := snd (restore backup s)\<rparr>)
               | (None, s) \<Rightarrow>
                   if ap_StateRoot (applier bp) s \<noteq> BStateRoot blk
                   then (Inl (Some ErrLiveRoot), bp\<lparr>live := snd (restore backup s)\<rparr>)
                   else
                     let bp = append_block blk (bp\<lparr>live := s\<rparr>)
                     in (Inr backup, bp\<lparr>pool := remove_all (map TxID (Transactions blk)) (pool bp)\<rparr>))"

text \<open>What follows the second critical section, outside the lock.\<close>

definition append_finish ::
    "go_time \<Rightarrow> ('s \<Rightarrow> 's) \<Rightarrow> Block \<Rightarrow> 's \<Rightarrow> ('s, 'e) BlockProducer \<Rightarrow> ('s, 'e) BlockProducer" where
  "append_finish now clone blk backup bp =
     run_hooks blk (case appendReceipts bp of None \<Rightarrow> bp
       | Some rs \<Rightarrow> bp\<lparr>appendReceipts := Some (storeExternalAppendReceipts
           (ap_ApplyTx (applier bp) (tipHeight bp)) clone blk backup now rs)\<rparr>)"

definition append_commit ::
    "go_time \<Rightarrow> Block \<Rightarrow> ('s \<Rightarrow> 's) \<times> ('s \<Rightarrow> 's \<Rightarrow> 'e option \<times> 's) \<Rightarrow> ('s, 'e) BlockProducer \<Rightarrow>
       'e block_error option \<times> ('s, 'e) BlockProducer" where
  "append_commit now blk ra bp =
     (case append_locked blk ra bp of
        (Inl e, bp) \<Rightarrow> (e, bp)
      | (Inr backup, bp) \<Rightarrow> (None, append_finish now (fst ra) blk backup bp))"

text \<open>The whole call, when nothing runs between the critical sections and the callbacks.\<close>

definition TryAppendExternalBlock ::
    "go_time \<Rightarrow> Block \<Rightarrow> ('s, 'e) BlockProducer \<Rightarrow> 'e block_error option \<times> ('s, 'e) BlockProducer" where
  "TryAppendExternalBlock now blk bp =
     (if Hash blk \<noteq> computeBlockHash blk then (Some ErrInvalidHash, bp)
      else case ap_Replay (applier bp) of
        None \<Rightarrow> (Some ErrExternalAppendNeedsAccountStore, bp)
      | Some ra \<Rightarrow>
          (case append_check blk bp of
             Inl e \<Rightarrow> (e, bp)
           | Inr _ \<Rightarrow>
               (case append_replay blk (fst ra) bp of
                  Some e \<Rightarrow> (Some e, bp)
                | None \<Rightarrow> append_commit now blk ra bp)))"

section \<open>Queries and restoration\<close>

definition BP_GetBlock :: "u64 \<Rightarrow> ('s, 'e) BlockProducer \<Rightarrow> Block option" where
  "BP_GetBlock h bp = find_height h (chain bp)"

definition LatestBlock :: "('s, 'e) BlockProducer \<Rightarrow> Block option" where
  "LatestBlock bp = (if chain bp = [] then None else Some (last (chain bp)))"

definition ChainHeight :: "('s, 'e) BlockProducer \<Rightarrow> u64" where
  "ChainHeight bp = (if chain bp = [] then 0 else Height (last (chain bp)))"

definition TipHeight :: "('s, 'e) BlockProducer \<Rightarrow> u64" where
  "TipHeight bp = tipHeight bp"

definition HasTip :: "('s, 'e) BlockProducer \<Rightarrow> bool" where
  "HasTip bp = tipHeightSet bp"

definition AllBlocks :: "('s, 'e) BlockProducer \<Rightarrow> Block list" where
  "AllBlocks bp = chain bp"

definition Headers :: "u64 \<Rightarrow> u64 \<Rightarrow> ('s, 'e) BlockProducer \<Rightarrow> BlockHeader list" where
  "Headers from to bp = map Header (filter (\<lambda>b. Height b \<ge> from \<and> Height b \<le> to) (chain bp))"

text \<open>The validation loop of \<open>RestoreChain\<close>; \<open>prev\<close> is the block before, a nil block is \<open>None\<close>.\<close>

fun restore_error :: "nat \<Rightarrow> Block option \<Rightarrow> Block option list \<Rightarrow> 'e block_error option" where
  "restore_error i prev [] = None"
| "restore_error i prev (None # bs) = Some (ErrRestoreNil i)"
| "restore_error i prev (Some b # bs) =
     (if Hash b \<noteq> computeBlockHash b then Some (ErrRestoreHash i)
      else case prev of
        None \<Rightarrow> restore_error (i + 1) (Some b) bs
      | Some p \<Rightarrow>
          if Height b \<noteq> Height p + 1 then Some (ErrRestoreHeights i)
          else if PrevHash b \<noteq> Hash p then Some (ErrRestoreLink i)
          else restore_error (i + 1) (Some b) bs)"

definition RestoreChain :: "Block option list \<Rightarrow> ('s, 'e) BlockProducer \<Rightarrow> 'e block_error option \<times> ('s, 'e) BlockProducer" where
  "RestoreChain blocks bp =
     (if chain bp \<noteq> [] then (Some ErrRestoreNonEmpty, bp)
      else if blocks = [] then (None, bp)
      else case restore_error 0 None blocks of
        Some e \<Rightarrow> (Some e, bp)
      | None \<Rightarrow>
          let bs = map the blocks
          in (None, bp\<lparr>chain := bs, tipHeight := Height (last bs), tipHeightSet := True\<rparr>))"

section \<open>The producer with receipts\<close>

fun receipt_loop :: "u64 \<Rightarrow> go_time \<Rightarrow> nat \<Rightarrow> (Tx \<times> 'e option) list \<Rightarrow> 'e TxReceipt list" where
  "receipt_loop height now i [] = []"
| "receipt_loop height now i ((tx, err) # ocs) =
     tx_receipt tx height [] now (int i) err err [] # receipt_loop height now (i + 1) ocs"

definition ProduceBlockWithReceipts ::
    "Time \<Rightarrow> ('s, 'e) BlockProducer \<Rightarrow> 'e ReceiptStore \<Rightarrow>
       ('e block_error + Block) \<times> 'e TxReceipt list \<times> ('s, 'e) BlockProducer \<times> 'e ReceiptStore" where
  "ProduceBlockWithReceipts now bp rs =
     (let (txs, rest) = Drain (maxTxBlock bp) (pool bp); bp = bp\<lparr>pool := rest\<rparr>
      in if txs = [] then (Inl ErrNoTransactions, [], bp, rs)
         else
           let txs = orderSenderNonces txs;
               (ocs, s) = apply_txs (ap_ApplyTx (applier bp) (tipHeight bp)) txs (live bp);
               bp = bp\<lparr>live := s\<rparr>;
               recs = receipt_loop (snd (next_position (chain bp))) (Instant now) 0 ocs
           in if included ocs = [] then (Inl ErrAllFailed, recs, bp, fold Store recs rs)
              else
                let blk = make_block now (producerID bp) (chain bp) (included ocs) (ap_StateRoot (applier bp) s);
                    recs = map (\<lambda>r. r\<lparr>RBlockHash := Hash blk\<rparr>) recs
                in (Inr blk, recs, bp\<lparr>chain := chain bp @ [blk]\<rparr>, fold Store recs rs))"

end
