(* ===== verification/StakingProofs.thy ===== *)
theory StakingProofs
  imports Staking
begin

text \<open>
  Conservation of coins by the staking ledger, and the weights the validators get from it.
\<close>

section \<open>Sums with a default\<close>

text \<open>Updates of a map whose missing entries count as zero.\<close>

definition fm_get :: "'v \<Rightarrow> ('k, 'v) fmap \<Rightarrow> 'k \<Rightarrow> 'v" where
  "fm_get d m k = (case fmlookup m k of None \<Rightarrow> d | Some v \<Rightarrow> v)"

lemma fm_get_simps [simp]:
  "fm_get d (fmupd k v m) j = (if j = k then v else fm_get d m j)"
  "fm_get d (fmdrop k m) j = (if j = k then d else fm_get d m j)" "fm_get d fmempty j = d"
  by (simp_all add: fm_get_def)

lemma fmap_total_default:
  "f d = 0 \<Longrightarrow> fmap_total f (fmupd k v m) + f (fm_get d m k) = fmap_total f m + f v"
  by (cases "fmlookup m k") (simp_all add: fm_get_def fmap_total_fresh fmap_total_upd)

lemma fmap_total_remove:
  "f d = 0 \<Longrightarrow> fmap_total f (fmdrop k m) + f (fm_get d m k) = fmap_total f m"
proof (cases "fmlookup m k")
  case None
  then have "fmdrop k m = m" by (intro fmap_ext) auto
  then show "f d = 0 \<Longrightarrow> ?thesis" using None by (simp add: fm_get_def)
qed (simp add: fm_get_def fmap_total_drop)

lemma map_f64_get: "map_f64 m k = fm_get fzero m k"
  by (simp add: map_f64_def fm_get_def)

lemma trunc_nat_fzero [simp]: "trunc_nat fzero = 0"
  by (simp add: fzero_f_int)

section \<open>Dust\<close>

lemma bond_dust_fin: "bond_dust = Fin False (4951760157141521 * 2 ^ 982)"
proof -
  have "round_ratio (1 * unit_one) 1000000000000 = 4951760157141521 * 2 ^ 982"
    using round_ratio_unit [of 1000000000000 1 92 4951760157141521 99596496896] by simp
  moreover have "4951760157141521 * 2 ^ 982 < max_mag"
  proof -
    have "4951760157141521 * 2 ^ 982 \<le> (2 ^ 53 * 2 ^ 982 :: nat)" by (intro mult_right_mono) simp_all
    also have "\<dots> < max_mag" unfolding max_mag_def power_add [symmetric] by (rule power_strict_increasing) simp_all
    finally show ?thesis .
  qed
  ultimately show ?thesis unfolding bond_dust_def f64_ratio_def mk_fin_def by simp
qed

lemma bond_dust_le: "(4951760157141521 * 2 ^ 982 :: nat) \<le> unit_one"
proof -
  have "(4951760157141521 * 2 ^ 982 :: nat) \<le> 2 ^ 92 * 2 ^ 982" by (intro mult_right_mono) simp_all
  also have "\<dots> = unit_one" unfolding unit_one_def by (simp only: power_add [symmetric]) simp
  finally show ?thesis .
qed

lemma fless_bond_dust [simp]: "fless (f_int n) bond_dust \<longleftrightarrow> n = 0"
proof (cases n)
  case 0
  then show ?thesis unfolding bond_dust_fin by (simp add: f_int_def)
next
  case (Suc k)
  have "4951760157141521 * 2 ^ 982 \<le> n * unit_one" using bond_dust_le Suc by (simp add: trans_le_add1)
  then have "int (4951760157141521 * 2 ^ 982) \<le> int (n * unit_one)" unfolding of_nat_le_iff .
  then show ?thesis unfolding bond_dust_fin f_int_def fless.simps fval.simps if_False not_less [symmetric] using Suc by simp
qed

section \<open>Whole bonds\<close>

abbreviation bonds_total :: "(string, f64) fmap \<Rightarrow> nat" where
  "bonds_total m \<equiv> fmap_total trunc_nat m"

definition bonded_total :: "(string, (string, f64) fmap) fmap \<Rightarrow> nat" where
  "bonded_total ix = fmap_total bonds_total ix"

definition power_sum :: "string \<Rightarrow> (string, (string, f64) fmap) fmap \<Rightarrow> nat" where
  "power_sum v ix = fmap_total (\<lambda>m. trunc_nat (fm_get fzero m v)) ix"

definition unbonding :: "StakingLedger \<Rightarrow> nat" where
  "unbonding s = sum_list (map (trunc_nat \<circ> UE_Amount) (unbond s))"

definition coins :: "AccountStore \<Rightarrow> StakingLedger \<Rightarrow> nat" where
  "coins as s = money_supply as + bonded_total (delegatorIndex s) + unbonding s"

definition whole_bonds :: "(string, f64) fmap \<Rightarrow> bool" where
  "whole_bonds m \<longleftrightarrow> (\<forall>v. fm_get fzero m v = f_int (trunc_nat (fm_get fzero m v)))"

text \<open>
  The invariant of a ledger of whole amounts: accounts, bonds and unbonding amounts are whole numbers that together fit 53 bits, and
  the power of every validator is the sum of the bonds to it.
\<close>

definition staking_ok :: "AccountStore \<Rightarrow> StakingLedger \<Rightarrow> bool" where
  "staking_ok as s \<longleftrightarrow>
     whole_ledger as \<and> (\<forall>d. whole_bonds (fm_get fmempty (delegatorIndex s) d)) \<and>
     (\<forall>v. fm_get fzero (delegated s) v = f_int (power_sum v (delegatorIndex s))) \<and>
     (\<forall>e\<in>set (unbond s). UE_Amount e = f_int (trunc_nat (UE_Amount e))) \<and>
     coins as s \<le> 9007199254740992"

lemma map_len_0 [simp]: "map_len m = 0 \<longleftrightarrow> m = fmempty"
proof
  assume "map_len m = 0"
  then have "fmdom m = {||}" by (simp add: map_len_def)
  then show "m = fmempty" by (intro fmap_ext) (metis fempty_iff fmdom_notD fmempty_lookup)
qed simp

lemma put_bonds_get [simp]: "fm_get fmempty (put_bonds d m ix) j = (if j = d then m else fm_get fmempty ix j)"
  by (simp add: put_bonds_def)

lemma put_bonds_total:
  assumes "f fmempty = 0"
  shows "fmap_total f (put_bonds d m ix) + f (fm_get fmempty ix d) = fmap_total f ix + f m"
  using fmap_total_default [of f fmempty d m ix] fmap_total_remove [of f fmempty d ix] assms by (auto simp: put_bonds_def)

lemma put_bond_get: "x = f_int n \<Longrightarrow> fm_get fzero (put_bond v x m) j = (if j = v then x else fm_get fzero m j)"
  by (auto simp: put_bond_def fzero_f_int)

lemma put_bond_total:
  assumes "x = f_int n"
  shows "bonds_total (put_bond v x m) + trunc_nat (fm_get fzero m v) = bonds_total m + n"
  using fmap_total_default [of trunc_nat fzero v x m] fmap_total_remove [of trunc_nat fzero v m] assms by (auto simp: put_bond_def)

lemma bond_le_total: "trunc_nat (fm_get fzero m v) \<le> bonds_total m"
  using fmap_total_remove [of trunc_nat fzero v m] by simp

lemma power_le_bonded: "power_sum v ix \<le> bonded_total ix"
  unfolding power_sum_def bonded_total_def fmap_total_def [of _ ix] by (intro sum_mono bond_le_total)

lemma bond_le_power: "trunc_nat (fm_get fzero (fm_get fmempty ix d) v) \<le> power_sum v ix"
  using fmap_total_remove [of "\<lambda>m. trunc_nat (fm_get fzero m v)" fmempty d ix] by (simp add: power_sum_def)

lemma bonds_get_index: "(case fmlookup ix d of None \<Rightarrow> fmempty | Some m \<Rightarrow> m) = fm_get fmempty ix d"
  by (simp add: fm_get_def)

lemma Debit_whole:
  assumes "whole_ledger as" "Debit a (f_int n) as = (None, as')"
  shows "whole_ledger as' \<and> money_supply as' + n = money_supply as"
  using assms debit_whole [OF assms(1)] by (auto simp: Debit_def split: option.splits if_splits)

lemma Delegate_ok:
  assumes ok: "staking_ok as s" and D: "Delegate d v (f_int n) as s = (None, as', s')"
  shows "staking_ok as' s' \<and> coins as' s' = coins as s"
proof -
  let ?ix = "delegatorIndex s" and ?m = "fm_get fmempty (delegatorIndex s) d"
  let ?b = "trunc_nat (fm_get fzero ?m v)"
  define m' where "m' = fmupd v (fadd (fm_get fzero ?m v) (f_int n)) ?m"
  have w: "whole_ledger as" "fm_get fzero ?m v = f_int ?b" "fm_get fzero (delegated s) v = f_int (power_sum v ?ix)"
    "coins as s \<le> 9007199254740992"
    using ok by (auto simp: staking_ok_def whole_bonds_def)
  obtain Dd: "Debit d (f_int n) as = (None, as')"
    and s': "s' = s\<lparr>delegatorIndex := fmupd d m' ?ix, delegated := fmupd v (fadd (fm_get fzero (delegated s) v) (f_int n)) (delegated s)\<rparr>"
    using D unfolding Delegate_def bonds_get_index m'_def by (auto simp: Let_def map_f64_get split: if_splits option.splits prod.splits)
  have mw: "whole_ledger as'" "money_supply as' + n = money_supply as" using Debit_whole [OF w(1) Dd] by simp_all
  have le: "?b \<le> power_sum v ?ix" "power_sum v ?ix \<le> bonded_total ?ix" by (rule bond_le_power, rule power_le_bonded)
  have b1: "fadd (fm_get fzero ?m v) (f_int n) = f_int (?b + n)"
    using le w(4) mw(2) by (subst w(2), intro fadd_f_int) (simp add: coins_def)
  have b2: "fadd (fm_get fzero (delegated s) v) (f_int n) = f_int (power_sum v ?ix + n)"
    using le w(4) mw(2) by (subst w(3), intro fadd_f_int) (simp add: coins_def)
  have "bonds_total m' + ?b = bonds_total ?m + (?b + n)"
    unfolding m'_def b1 using fmap_total_default [of trunc_nat fzero v "f_int (?b + n)" ?m] by simp
  then have tot: "bonded_total (fmupd d m' ?ix) = bonded_total ?ix + n"
    using fmap_total_default [of bonds_total fmempty d m' ?ix] by (simp add: bonded_total_def)
  have pw: "power_sum u (fmupd d m' ?ix) = power_sum u ?ix + (if u = v then n else 0)" for u
    using fmap_total_default [of "\<lambda>m. trunc_nat (fm_get fzero m u)" fmempty d m' ?ix] b1 by (auto simp: power_sum_def m'_def)
  have "coins as' s' = coins as s" using mw(2) tot by (simp add: coins_def s' unbonding_def)
  then show ?thesis using ok mw(1) b1 b2 pw by (auto simp: staking_ok_def s' m'_def whole_bonds_def)
qed

lemma BeginUnbond_ok:
  assumes ok: "staking_ok as s" and U: "BeginUnbond d v (f_int n) h k s = (None, s')"
  shows "staking_ok as s' \<and> coins as s' = coins as s"
proof -
  let ?ix = "delegatorIndex s" and ?m = "fm_get fmempty (delegatorIndex s) d"
  let ?b = "trunc_nat (fm_get fzero ?m v)"
  have w: "fm_get fzero ?m v = f_int ?b" "fm_get fzero (delegated s) v = f_int (power_sum v ?ix)" "coins as s \<le> 9007199254740992"
    using ok by (auto simp: staking_ok_def whole_bonds_def)
  define m' where "m' = put_bond v (fsub (fm_get fzero ?m v) (f_int n)) ?m"
  obtain m where "fmlookup ?ix d = Some m" "\<not> fless (fm_get fzero m v) (f_int n)"
    and s0: "s' = s\<lparr>delegatorIndex := put_bonds d (put_bond v (fsub (map_f64 m v) (f_int n)) m) ?ix,
        delegated := put_bond v (fsub (map_f64 (delegated s) v) (f_int n)) (delegated s),
        unbond := unbond s @ [\<lparr>UE_Delegator = d, UE_Amount = f_int n, UE_MatureAt = h + k\<rparr>]\<rparr>"
    using U by (auto simp: BeginUnbond_def Let_def map_f64_get split: if_splits option.splits)
  then have m: "?m = m" and nb: "\<not> fless (f_int ?b) (f_int n)" using w(1) by (auto simp: fm_get_def)
  from nb have n: "n \<le> ?b" by simp
  have s': "s' = s\<lparr>delegatorIndex := put_bonds d m' ?ix, delegated := put_bond v (fsub (fm_get fzero (delegated s) v) (f_int n)) (delegated s),
      unbond := unbond s @ [\<lparr>UE_Delegator = d, UE_Amount = f_int n, UE_MatureAt = h + k\<rparr>]\<rparr>"
    using s0 m by (simp add: m'_def map_f64_get)
  have le: "?b \<le> power_sum v ?ix" "power_sum v ?ix \<le> bonded_total ?ix" by (rule bond_le_power, rule power_le_bonded)
  have b1: "fsub (fm_get fzero ?m v) (f_int n) = f_int (?b - n)"
    using le w(3) n by (subst w(1), intro fsub_f_int) (simp_all add: coins_def)
  have b2: "fsub (fm_get fzero (delegated s) v) (f_int n) = f_int (power_sum v ?ix - n)"
    using le w(3) n by (subst w(2), intro fsub_f_int) (simp_all add: coins_def)
  have "bonds_total m' + ?b = bonds_total ?m + (?b - n)"
    unfolding m'_def b1 using put_bond_total [of "f_int (?b - n)" "?b - n" v ?m] by simp
  then have tot: "bonded_total (put_bonds d m' ?ix) + n = bonded_total ?ix"
    using put_bonds_total [of bonds_total d m' ?ix] n by (simp add: bonded_total_def)
  have pw: "power_sum u (put_bonds d m' ?ix) = power_sum u ?ix - (if u = v then n else 0)" for u
    using put_bonds_total [of "\<lambda>m. trunc_nat (fm_get fzero m u)" d m' ?ix] n
    by (auto simp: power_sum_def m'_def b1 put_bond_get [OF refl])
  have "coins as s' = coins as s" using tot by (simp add: coins_def s' unbonding_def)
  then show ?thesis using ok b1 b2 pw by (auto simp: staking_ok_def s' m'_def whole_bonds_def put_bond_get [OF refl])
qed

lemma credits_ok:
  assumes "whole_ledger as" "\<forall>e\<in>set es. UE_Amount e = f_int (trunc_nat (UE_Amount e))"
    and "money_supply as + sum_list (map (trunc_nat \<circ> UE_Amount) (filter P es)) \<le> 9007199254740992"
  shows "whole_ledger (foldl (\<lambda>as e. if P e then Credit (UE_Delegator e) (UE_Amount e) as else as) as es) \<and>
    money_supply (foldl (\<lambda>as e. if P e then Credit (UE_Delegator e) (UE_Amount e) as else as) as es) =
      money_supply as + sum_list (map (trunc_nat \<circ> UE_Amount) (filter P es))"
  using assms
proof (induction es arbitrary: as)
  case (Cons e es)
  let ?n = "trunc_nat (UE_Amount e)"
  have "P e \<Longrightarrow> whole_ledger (Credit (UE_Delegator e) (UE_Amount e) as) \<and> money_supply (Credit (UE_Delegator e) (UE_Amount e) as) = money_supply as + ?n"
    using Credit_whole [OF Cons.prems(1), of ?n "UE_Delegator e"] Cons.prems(2,3) by simp
  then show ?case using Cons.IH [of "if P e then Credit (UE_Delegator e) (UE_Amount e) as else as"] Cons.prems by auto
qed simp

lemma ProcessCommittedHeight_ok:
  assumes ok: "staking_ok as s" and "ProcessCommittedHeight h as s = (as', s')"
  shows "staking_ok as' s' \<and> coins as' s' = coins as s"
proof -
  let ?P = "\<lambda>e. UE_MatureAt e \<le> h"
  have split: "sum_list (map (trunc_nat \<circ> UE_Amount) (filter ?P es)) + sum_list (map (trunc_nat \<circ> UE_Amount) (filter (\<lambda>e. \<not> ?P e) es))
      = sum_list (map (trunc_nat \<circ> UE_Amount) es)" for es
    by (induction es) auto
  have s': "s' = s\<lparr>unbond := filter (\<lambda>e. \<not> ?P e) (unbond s)\<rparr>"
    and as': "as' = foldl (\<lambda>as e. if ?P e then Credit (UE_Delegator e) (UE_Amount e) as else as) as (unbond s)"
    using assms(2) by (auto simp: ProcessCommittedHeight_def)
  have "whole_ledger as' \<and> money_supply as' = money_supply as + sum_list (map (trunc_nat \<circ> UE_Amount) (filter ?P (unbond s)))"
    unfolding as' using ok split [of "unbond s"] by (intro credits_ok) (auto simp: staking_ok_def coins_def unbonding_def)
  moreover from this have "coins as' s' = coins as s"
    using split [of "unbond s"] by (simp add: coins_def s' unbonding_def)
  ultimately show ?thesis using ok by (auto simp: staking_ok_def s')
qed

text \<open>
  Every call, successful or not, one after the other; the heights are free. The code takes any \<open>float64\<close>
  amount; the parameter \<open>ok\<close> says which amounts the calls of a run carry.
\<close>

inductive staking_step ::
    "(f64 \<Rightarrow> bool) \<Rightarrow> AccountStore \<times> StakingLedger \<Rightarrow> AccountStore \<times> StakingLedger \<Rightarrow> bool" for ok where
  delegate: "ok x \<Longrightarrow> Delegate d v x as s = (e, as', s') \<Longrightarrow> staking_step ok (as, s) (as', s')"
| unbond: "ok x \<Longrightarrow> BeginUnbond d v x h k s = (e, s') \<Longrightarrow> staking_step ok (as, s) (as, s')"
| mature: "ProcessCommittedHeight h as s = (as', s') \<Longrightarrow> staking_step ok (as, s) (as', s')"

definition whole_amount :: "f64 \<Rightarrow> bool" where
  "whole_amount x \<longleftrightarrow> (\<exists>n. x = f_int n)"

lemma rejected_delegation: "Delegate d v x as s = (Some e, as', s') \<Longrightarrow> as' = as \<and> s' = s"
  by (auto simp: Delegate_def Let_def Debit_def split: if_splits option.splits)

lemma rejected_unbonding: "BeginUnbond d v x h k s = (Some e, s') \<Longrightarrow> s' = s"
  by (auto simp: BeginUnbond_def Let_def split: if_splits option.splits)

lemma staking_step_ok:
  assumes "staking_step whole_amount (as, s) (as', s')" "staking_ok as s"
  shows "staking_ok as' s' \<and> coins as' s' = coins as s"
  using assms(1)
proof (cases rule: staking_step.cases)
  case (delegate x d v e)
  then show ?thesis using Delegate_ok [OF assms(2)] assms(2) by (cases e) (auto simp: whole_amount_def dest!: rejected_delegation)
next
  case (unbond x d v h k e)
  then show ?thesis using BeginUnbond_ok [OF assms(2)] assms(2) by (cases e) (auto simp: whole_amount_def dest!: rejected_unbonding)
next
  case mature
  then show ?thesis using ProcessCommittedHeight_ok [OF assms(2)] by blast
qed

lemma staking_steps_ok:
  assumes "(staking_step whole_amount)\<^sup>*\<^sup>* x y" "staking_ok (fst x) (snd x)"
  shows "staking_ok (fst y) (snd y) \<and> coins (fst y) (snd y) = coins (fst x) (snd x)"
  using assms
proof (induction rule: rtranclp_induct)
  case (step y z)
  then show ?case using staking_step_ok [of "fst y" "snd y" "fst z" "snd z"] by simp
qed simp

lemma staking_ok_new: "whole_ledger as \<Longrightarrow> staking_ok as NewStakingLedger"
  by (simp add: staking_ok_def NewStakingLedger_def coins_def bonded_total_def unbonding_def power_sum_def whole_bonds_def
      whole_ledger_def fzero_f_int)

section \<open>Slashing\<close>

definition slashed_amount :: "f64 \<Rightarrow> f64 \<Rightarrow> f64" where
  "slashed_amount f x = (if fless fzero x then if fless (fmul x f) bond_dust then fzero else fmul x f else x)"

lemma not_fless_fzero [simp]: "\<not> fless fzero fzero"
  by (simp add: fzero_f_int)

lemma slash_bond_get:
  "fm_get fzero (fm_get fmempty (slash_bond v f ix d) j) u =
     (if j = d \<and> u = v then slashed_amount f (fm_get fzero (fm_get fmempty ix j) u) else fm_get fzero (fm_get fmempty ix j) u)"
proof (cases "fmlookup ix d")
  case None
  then show ?thesis by (auto simp: slash_bond_def slashed_amount_def fm_get_def)
next
  case (Some m)
  then have m: "fm_get fmempty ix d = m" by (simp add: fm_get_def)
  show ?thesis
  proof (cases "fmlookup m v")
    case None
    then have "fm_get fzero m v = fzero" by (simp add: fm_get_def)
    then show ?thesis using Some None m by (auto simp: slash_bond_def slashed_amount_def)
  next
    case (Some amt)
    then have "fm_get fzero m v = amt" by (simp add: fm_get_def)
    then show ?thesis using \<open>fmlookup ix d = Some m\<close> Some m by (auto simp: slash_bond_def slashed_amount_def put_bond_def)
  qed
qed

lemma slash_bonds_get:
  assumes "distinct order"
  shows "fm_get fzero (fm_get fmempty (foldl (slash_bond v f) ix order) j) u =
     (if j \<in> set order \<and> u = v then slashed_amount f (fm_get fzero (fm_get fmempty ix j) u) else fm_get fzero (fm_get fmempty ix j) u)"
  using assms by (induction order arbitrary: ix) (auto simp: slash_bond_get)

lemma Bonded_get: "Bonded d v s = fm_get fzero (fm_get fmempty (delegatorIndex s) d) v"
  by (simp add: Bonded_def fm_get_def map_f64_get split: option.splits)

text \<open>
  A slash scales every bond to the validator, whatever the map order, and nothing else; amounts that are already unbonding are
  spared, so a delegator who unbonds before the evidence arrives gets everything back.
\<close>

lemma slash_scales_bonds:
  assumes "map_order (delegatorIndex s) order" "\<not> fle x fzero" "\<not> fless (f64_of_nat 1) x"
  shows "Bonded d u (SlashDelegated order v x s) =
      (if u = v then slashed_amount (fsub (f64_of_nat 1) x) (Bonded d u s) else Bonded d u s) \<and>
    unbond (SlashDelegated order v x s) = unbond s"
proof -
  have "fm_get fmempty (delegatorIndex s) d = fmempty" if "d \<notin> set order"
    using that map_order_mem [OF assms(1), of d] by (auto simp: fm_get_def)
  then show ?thesis
    using assms slash_bonds_get [of order v _ "delegatorIndex s" d u]
    by (auto simp: SlashDelegated_def Let_def Bonded_get slashed_amount_def map_order_def)
qed

section \<open>Synchronised weights\<close>

text \<open>A pass over some validators that sets each stake once, from the stake it finds.\<close>

definition restake :: "(string \<Rightarrow> f64 \<Rightarrow> f64 option) \<Rightarrow> ValidatorSet \<Rightarrow> string \<Rightarrow> ValidatorSet" where
  "restake g vs a =
     (case fmlookup (validators vs) a of None \<Rightarrow> vs
      | Some v \<Rightarrow> (case g a (Stake v) of None \<Rightarrow> vs | Some x \<Rightarrow> try_SetStake a x vs))"

definition floored :: "ValidatorSet \<Rightarrow> f64 \<Rightarrow> f64" where
  "floored vs x = (if fless x (MinStake (vs_config vs)) then MinStake (vs_config vs) else x)"

definition restaked :: "(string \<Rightarrow> f64 \<Rightarrow> f64 option) \<Rightarrow> ValidatorSet \<Rightarrow> string \<Rightarrow> Validator \<Rightarrow> Validator" where
  "restaked g vs a v =
     (if VStatus v = ValidatorExited then v else case g a (Stake v) of None \<Rightarrow> v | Some x \<Rightarrow> v\<lparr>Stake := floored vs x\<rparr>)"

lemma restake_lookup:
  "fmlookup (validators (restake g vs a)) b = (if b = a then map_option (restaked g vs a) (fmlookup (validators vs) a) else fmlookup (validators vs) b)"
  "vs_config (restake g vs a) = vs_config vs"
  by (auto simp: restake_def restaked_def try_SetStake_def SetStake_def put_validator_def floored_def Let_def split: option.splits)

lemma restake_pass:
  assumes "distinct order"
  shows "fmlookup (validators (foldl (restake g) vs order)) b =
      (if b \<in> set order then map_option (restaked g vs b) (fmlookup (validators vs) b) else fmlookup (validators vs) b) \<and>
    vs_config (foldl (restake g) vs order) = vs_config vs"
  using assms
proof (induction order arbitrary: vs)
  case (Cons a order)
  have "restaked g (restake g vs a) b = restaked g vs b" by (rule ext) (simp add: restaked_def floored_def restake_lookup split: option.splits)
  then show ?case using Cons by (auto simp: restake_lookup)
qed simp

definition balance_weight :: "AccountStore \<Rightarrow> string \<Rightarrow> f64" where
  "balance_weight as a = (case Get a as of Some acc \<Rightarrow> Balance acc | None \<Rightarrow> fzero)"

definition block_weight :: "Block list \<Rightarrow> string \<Rightarrow> f64" where
  "block_weight bs a = fmul (f64_of_nat (length (filter (\<lambda>b. ProducerID b = a) bs))) DefaultProducerBlockStakeBonus"

definition add_positive :: "f64 \<Rightarrow> f64 \<Rightarrow> f64 option" where
  "add_positive extra x = (if fle extra fzero then None else Some (fadd x extra))"

text \<open>The weight after a synchronisation: every addend that is not positive is skipped, and every sum is raised to the minimum stake.\<close>

definition plus_floor :: "ValidatorSet \<Rightarrow> f64 \<Rightarrow> f64 \<Rightarrow> f64" where
  "plus_floor vs x extra = (if fle extra fzero then x else floored vs (fadd x extra))"

definition synced_weight :: "ValidatorSet \<Rightarrow> AccountStore \<Rightarrow> Block list \<Rightarrow> StakingLedger \<Rightarrow> string \<Rightarrow> f64" where
  "synced_weight vs as bs sl a =
     plus_floor vs (plus_floor vs (floored vs (balance_weight as a)) (block_weight bs a)) (DelegatedPower a sl)"

lemma countProducerBlocks_count:
  "a \<noteq> [] \<Longrightarrow> fm_get 0 (countProducerBlocks bs out) a = fm_get 0 out a + length (filter (\<lambda>b. ProducerID b = a) bs)"
  by (induction bs arbitrary: out) (auto simp: fm_get_def split: option.splits)

lemma countProducerBlocks_Nil: "fmlookup (countProducerBlocks bs out) [] = fmlookup out []"
  by (induction bs arbitrary: out) auto

lemma sync_accounts_pass: "SyncValidatorStakesFromAccounts vo as vs = foldl (restake (\<lambda>a x. Some (balance_weight as a))) vs (RegisteredAddresses vo vs)"
proof -
  have "foldl (\<lambda>vs addr. try_SetStake addr (balance_weight as addr) vs) vs order = foldl (restake (\<lambda>a x. Some (balance_weight as a))) vs order" for order
    by (rule foldl_cong) (auto simp: restake_def try_SetStake_def SetStake_def split: option.splits)
  then show ?thesis by (simp add: SyncValidatorStakesFromAccounts_def balance_weight_def)
qed

lemma add_bonus_pass: "add_bonus counts w = restake (\<lambda>a. add_positive (fmul (f64_of_nat (fm_get 0 counts a)) w))"
  by (intro ext) (auto simp: add_bonus_def restake_def add_positive_def GetValidator_def fm_get_def split: option.splits)

lemma add_delegation_pass: "add_delegation sl = restake (\<lambda>a. add_positive (DelegatedPower a sl))"
proof (intro ext)
  fix vs a
  have "fle fzero fzero" by (simp add: fzero_f_int)
  then show "add_delegation sl vs a = restake (\<lambda>a. add_positive (DelegatedPower a sl)) vs a"
    by (auto simp: add_delegation_def restake_def add_positive_def GetValidator_def DelegatedPower_def map_f64_def split: option.splits)
qed

lemma bonus_positive: "\<not> fle DefaultProducerBlockStakeBonus fzero"
proof -
  have r: "round_ratio (1 * unit_one) 4 = 4503599627370496 * 2 ^ 1020" using round_ratio_unit [of 4 1 54 4503599627370496 0] by simp
  show ?thesis unfolding DefaultProducerBlockStakeBonus_def f64_ratio_def r mk_fin_def by (auto simp: fle_def fzero_def)
qed

lemma fle_fzero_fzero [simp]: "fle fzero fzero"
  by (simp add: fzero_f_int)

text \<open>
  After a synchronisation the weight of every registered validator that did not exit is the floored sum of its balance, its block
  bonus and its delegations, whatever the iteration orders and whatever the weight was before.
\<close>

lemma synced_stakes:
  assumes "map_order (validators vs) vo" "map_order (validators vs) vo2" "map_order (delegated sl) order"
    and "fmlookup (validators vs) a = Some v" "VStatus v \<noteq> ValidatorExited" "a \<noteq> []"
  shows "fmlookup (validators (SyncValidatorStakesFromCommittedTip vo vo2 order as (Some bs) (Some sl) vs)) a =
    Some (v\<lparr>Stake := synced_weight vs as bs sl a\<rparr>)"
proof -
  let ?g1 = "\<lambda>a x. Some (balance_weight as a)" and ?g2 = "\<lambda>a. add_positive (fmul (f64_of_nat (fm_get 0 (countProducerBlocks bs fmempty) a)) DefaultProducerBlockStakeBonus)"
    and ?g3 = "\<lambda>a. add_positive (DelegatedPower a sl)"
  have reg: "distinct (RegisteredAddresses vo vs)" "set (RegisteredAddresses vo vs) = fmdom' (validators vs)"
    using assms(1) by (auto simp: RegisteredAddresses_def map_order_def fmdom'_iff)
  define vs1 where "vs1 = foldl (restake ?g1) vs (RegisteredAddresses vo vs)"
  have v1: "fmlookup (validators vs1) b = map_option (restaked ?g1 vs b) (fmlookup (validators vs) b)" "vs_config vs1 = vs_config vs" for b
    using restake_pass [OF reg(1), of ?g1 vs b] reg(2) by (auto simp: vs1_def fmdom'_iff)
  have reg2: "distinct (RegisteredAddresses vo2 vs1)" "set (RegisteredAddresses vo2 vs1) = fmdom' (validators vs)"
    using assms(2) v1(1) by (auto simp: RegisteredAddresses_def map_order_def fmdom'_iff)
  define vs2 where "vs2 = foldl (restake ?g2) vs1 (RegisteredAddresses vo2 vs1)"
  have v2: "fmlookup (validators vs2) b = map_option (restaked ?g2 vs1 b) (fmlookup (validators vs1) b)" "vs_config vs2 = vs_config vs1" for b
    using restake_pass [OF reg2(1), of ?g2 vs1 b] reg2(2) v1(1) [of b] by (auto simp: vs2_def fmdom'_iff)
  have v3: "fmlookup (validators (foldl (restake ?g3) vs2 order)) a = map_option (restaked ?g3 vs2 a) (fmlookup (validators vs2) a)"
  proof (cases "a \<in> set order")
    case False
    then have "DelegatedPower a sl = fzero" using map_order_mem [OF assms(3), of a] by (auto simp: DelegatedPower_def map_f64_def)
    then have "restaked ?g3 vs2 a w = w" for w by (simp add: restaked_def add_positive_def)
    then have "restaked ?g3 vs2 a = id" by (intro ext) simp
    then show ?thesis using False restake_pass [of order ?g3 vs2 a] assms(3) by (simp add: map_order_def option.map_id)
  qed (use restake_pass [of order ?g3 vs2 a] assms(3) in \<open>simp add: map_order_def\<close>)
  have "SyncValidatorStakesFromCommittedTip vo vo2 order as (Some bs) (Some sl) vs = foldl (restake ?g3) vs2 order"
    by (simp add: SyncValidatorStakesFromCommittedTip_def applyStakingDelegationWeights_def SyncValidatorStakesFromCommittedChain_def
        sync_accounts_pass add_bonus_pass add_delegation_pass vs1_def vs2_def Let_def bonus_positive)
  moreover have "fm_get 0 (countProducerBlocks bs fmempty) a = length (filter (\<lambda>b. ProducerID b = a) bs)"
    using countProducerBlocks_count [OF assms(6), of bs fmempty] by simp
  ultimately show ?thesis
    using v3 assms(4,5) v1(1) v2(1) v1(2) v2(2)
    by (auto simp: restaked_def synced_weight_def plus_floor_def floored_def add_positive_def block_weight_def)
qed

end
