(* ===== verification/Runs.thy ===== *)
theory Runs
  imports Main
begin

text \<open>
  Sequences of operations on a state, and the contract of a resource that an operation may settle: once closed it stays closed and
  refuses (\<open>absorbing\<close>), and settling closes it (\<open>one_shot\<close>). A resource with this contract is settled at most once in every run. The
  contract is interpreted where it is implemented: locks and swaps of the bridge, evidence against validators, and the commit
  notifications of the voting executor.
\<close>

fun op_run :: "('op \<Rightarrow> 's \<Rightarrow> 'r \<times> 's) \<Rightarrow> 'op list \<Rightarrow> 's \<Rightarrow> ('op \<times> 'r) list \<times> 's" where
  "op_run exec [] s = ([], s)"
| "op_run exec (op # ops) s =
     (case exec op s of (r, s') \<Rightarrow> case op_run exec ops s' of (rs, s'') \<Rightarrow> ((op, r) # rs, s''))"

fun all_admissible :: "('op \<Rightarrow> 's \<Rightarrow> 'r \<times> 's) \<Rightarrow> ('op \<Rightarrow> 's \<Rightarrow> bool) \<Rightarrow> 'op list \<Rightarrow> 's \<Rightarrow> bool" where
  "all_admissible exec ok [] s = True"
| "all_admissible exec ok (op # ops) s = (ok op s \<and> all_admissible exec ok ops (snd (exec op s)))"

lemma op_run_Cons [simp]:
  "fst (op_run exec (op # ops) s) = (op, fst (exec op s)) # fst (op_run exec ops (snd (exec op s)))"
  "snd (op_run exec (op # ops) s) = snd (op_run exec ops (snd (exec op s)))"
  by (simp_all split: prod.splits)

declare op_run.simps(2) [simp del]

locale absorbing =
  fixes exec :: "'op \<Rightarrow> 's \<Rightarrow> 'r \<times> 's"
    and ok :: "'op \<Rightarrow> 's \<Rightarrow> bool"
    and settles :: "'op \<times> 'r \<Rightarrow> bool"
    and closed :: "'s \<Rightarrow> bool"
  assumes closed_stays: "closed s \<Longrightarrow> ok op s \<Longrightarrow> closed (snd (exec op s))"
    and closed_refuses: "closed s \<Longrightarrow> ok op s \<Longrightarrow> \<not> settles (op, fst (exec op s))"
begin

lemma closed_run:
  "closed s \<Longrightarrow> all_admissible exec ok ops s \<Longrightarrow> filter settles (fst (op_run exec ops s)) = [] \<and> closed (snd (op_run exec ops s))"
proof (induction ops arbitrary: s)
  case (Cons op ops)
  then show ?case using Cons.IH [of "snd (exec op s)"] closed_stays [of s op] closed_refuses [of s op] by simp
qed simp

end

locale one_shot = absorbing +
  assumes settling_closes: "ok op s \<Longrightarrow> settles (op, fst (exec op s)) \<Longrightarrow> closed (snd (exec op s))"
begin

lemma at_most_once: "all_admissible exec ok ops s \<Longrightarrow> length (filter settles (fst (op_run exec ops s))) \<le> 1"
proof (induction ops arbitrary: s)
  case (Cons op ops)
  have a: "all_admissible exec ok ops (snd (exec op s))" "ok op s" using Cons.prems by simp_all
  show ?case using Cons.IH [OF a(1)] closed_run [OF settling_closes [OF a(2)] a(1)] by simp
qed simp

end

end
