(* ===== verification/Evidence.thy ===== *)
theory Evidence
  imports StakingProofs Runs
begin

text \<open>
  \<open>pkg/chain/evidence.go\<close>: evidence of consensus faults, its deduplication and the slashing of the accused. The manager holds a pointer
  to the validator set of the voting engine and optionally one to the staking ledger; both are arguments and results here. \<open>order\<close> is
  the iteration order of the delegators, \<open>clk i\<close> the \<open>i\<close>-th clock reading of the call.
\<close>

type_synonym EvidenceType = string

definition EvidenceEquivocation :: EvidenceType where "EvidenceEquivocation = ''equivocation''"
definition EvidenceInvalidVote :: EvidenceType where "EvidenceInvalidVote = ''invalid_vote''"
definition EvidenceForkWitness :: EvidenceType where "EvidenceForkWitness = ''fork_witness''"

record ConsensusEvidence =
  CE_Type :: EvidenceType
  CE_Validator :: string
  CE_Height :: u64
  CE_Round :: u32
  CE_BlockHashes :: "string list"
  CE_Details :: string
  CE_Timestamp :: go_time

datatype process_error =
  EvDuplicate string | EvNoValidator | EvTooFewHashes | EvNoConflict | EvNoDetails | EvUnsupported EvidenceType | EvSlash validator_error

record EvidenceRecord =
  ER_ID :: string
  ER_Evidence :: ConsensusEvidence
  ER_Processed :: bool
  ER_SlashEvent :: "SlashEvent option"
  ER_Error :: "process_error option"
  ER_ProcessedAt :: go_time

record EvidenceManager =
  em_staking :: "StakingLedger option"
  em_records :: "(string, EvidenceRecord) fmap"
  em_order :: "string list"

definition NewEvidenceManager :: EvidenceManager where
  "NewEvidenceManager = \<lparr>em_staking = None, em_records = fmempty, em_order = []\<rparr>"

definition SetStakingLedger :: "StakingLedger option \<Rightarrow> EvidenceManager \<Rightarrow> EvidenceManager" where
  "SetStakingLedger sl em = em\<lparr>em_staking := sl\<rparr>"

text \<open>The rendering \<open>%v\<close> of a list of strings.\<close>

fun joined :: "string list \<Rightarrow> string" where
  "joined [] = []"
| "joined [s] = s"
| "joined (s # ss) = s @ '' '' @ joined ss"

definition evidence_text :: "ConsensusEvidence \<Rightarrow> string" where
  "evidence_text ev =
     CE_Type ev @ ''|'' @ CE_Validator ev @ ''|'' @ show_nat (unat (CE_Height ev)) @ ''|'' @ show_nat (unat (CE_Round ev)) @ ''|'' @
     ''['' @ joined (go_sort (<) (CE_BlockHashes ev)) @ '']'' @ ''|'' @ CE_Details ev"

definition evidenceID :: "ConsensusEvidence \<Rightarrow> string" where
  "evidenceID ev = sha256_hex (evidence_text ev)"

definition StableEvidenceID :: "ConsensusEvidence \<Rightarrow> string" where
  "StableEvidenceID ev = evidenceID ev"

definition validateEvidence :: "ConsensusEvidence \<Rightarrow> process_error option" where
  "validateEvidence ev =
     (if CE_Type ev \<noteq> EvidenceForkWitness \<and> CE_Validator ev = [] then Some EvNoValidator
      else if CE_Type ev = EvidenceEquivocation then
        (if length (CE_BlockHashes ev) < 2 then Some EvTooFewHashes
         else if card (set (CE_BlockHashes ev)) < 2 then Some EvNoConflict else None)
      else if CE_Type ev = EvidenceInvalidVote then
        (if CE_Details ev = [] then Some EvNoDetails else None)
      else if CE_Type ev = EvidenceForkWitness then
        (if CE_Details ev = [] then Some EvNoDetails
         else if length (CE_BlockHashes ev) < 2 then Some EvTooFewHashes
         else if card (set (CE_BlockHashes ev)) < 2 then Some EvNoConflict else None)
      else Some (EvUnsupported (CE_Type ev)))"

definition put_evidence :: "EvidenceRecord \<Rightarrow> EvidenceManager \<Rightarrow> EvidenceManager" where
  "put_evidence r em = em\<lparr>em_records := fmupd (ER_ID r) r (em_records em)\<rparr>"

text \<open>What follows the deduplication: the validation and the slash.\<close>

definition apply_evidence ::
    "string list \<Rightarrow> clock \<Rightarrow> ConsensusEvidence \<Rightarrow> EvidenceRecord \<Rightarrow> ValidatorSet \<Rightarrow> EvidenceManager \<Rightarrow>
     (EvidenceRecord \<times> process_error option) \<times> ValidatorSet \<times> EvidenceManager" where
  "apply_evidence order clk ev rec vs em =
     (case validateEvidence ev of
        Some e \<Rightarrow> let rec = rec\<lparr>ER_Error := Some e, ER_ProcessedAt := clk 1\<rparr> in ((rec, Some e), vs, put_evidence rec em)
      | None \<Rightarrow>
          if CE_Type ev = EvidenceForkWitness then
            let rec = rec\<lparr>ER_Processed := True, ER_ProcessedAt := clk 1\<rparr> in ((rec, None), vs, put_evidence rec em)
          else
            let reason = (if CE_Type ev = EvidenceEquivocation then SlashDoubleSign else SlashInvalidBlock)
            in case Slash (\<lambda>k. clk (Suc k)) (CE_Validator ev) reason vs of
                 Inl e \<Rightarrow>
                   let rec = rec\<lparr>ER_Error := Some (EvSlash e), ER_ProcessedAt := clk 3\<rparr>
                   in ((rec, Some (EvSlash e)), vs, put_evidence rec em)
               | Inr (event, vs) \<Rightarrow>
                   let em = em\<lparr>em_staking := map_option (SlashDelegated order (CE_Validator ev)
                              (if reason = SlashDowntime then DowntimeSlash DefaultValidatorSetConfig
                               else SlashFraction DefaultValidatorSetConfig)) (em_staking em)\<rparr>;
                       rec = rec\<lparr>ER_Processed := True, ER_ProcessedAt := clk 3, ER_SlashEvent := Some event\<rparr>
                   in ((rec, None), vs, put_evidence rec em))"

definition stamped :: "clock \<Rightarrow> ConsensusEvidence \<Rightarrow> ConsensusEvidence" where
  "stamped clk ev = (if CE_Timestamp ev = 0 then ev\<lparr>CE_Timestamp := clk 0\<rparr> else ev)"

definition new_record :: "string \<Rightarrow> ConsensusEvidence \<Rightarrow> EvidenceRecord" where
  "new_record i ev = \<lparr>ER_ID = i, ER_Evidence = ev, ER_Processed = False, ER_SlashEvent = None, ER_Error = None, ER_ProcessedAt = 0\<rparr>"

definition Process ::
    "string list \<Rightarrow> clock \<Rightarrow> ConsensusEvidence \<Rightarrow> ValidatorSet \<times> EvidenceManager \<Rightarrow>
     (EvidenceRecord \<times> process_error option) \<times> ValidatorSet \<times> EvidenceManager" where
  "Process order clk ev0 st =
     (let ev = stamped clk ev0; i = evidenceID ev; vs = fst st; em = snd st
      in case fmlookup (em_records em) i of
           Some existing \<Rightarrow> ((existing, Some (EvDuplicate i)), vs, em)
         | None \<Rightarrow>
             let rec = new_record i ev
             in apply_evidence order clk ev rec vs ((put_evidence rec em)\<lparr>em_order := em_order em @ [i]\<rparr>))"

definition SubmitEvidenceBestEffort ::
    "string list \<Rightarrow> clock \<Rightarrow> ConsensusEvidence \<Rightarrow> ValidatorSet \<times> EvidenceManager \<Rightarrow> ValidatorSet \<times> EvidenceManager" where
  "SubmitEvidenceBestEffort order clk ev st = snd (Process order clk ev st)"

definition Evidence_Get :: "string \<Rightarrow> EvidenceManager \<Rightarrow> EvidenceRecord option" where
  "Evidence_Get i em = fmlookup (em_records em) i"

definition Evidence_List :: "EvidenceManager \<Rightarrow> EvidenceRecord list" where
  "Evidence_List em = List.map_filter (fmlookup (em_records em)) (em_order em)"

text \<open>The counters of \<open>Stats\<close>: total, processed and failed records.\<close>

definition Evidence_Stats :: "EvidenceManager \<Rightarrow> nat \<times> nat \<times> nat" where
  "Evidence_Stats em =
     (map_len (em_records em),
      fmap_total (\<lambda>r. if ER_Processed r then 1 else 0) (em_records em),
      fmap_total (\<lambda>r. if \<not> ER_Processed r \<and> ER_Error r \<noteq> None then 1 else 0) (em_records em))"

section \<open>Evidence counts once\<close>

lemma stamped_simps [simp]:
  "evidenceID (stamped clk ev) = evidenceID ev" "CE_Type (stamped clk ev) = CE_Type ev" "CE_Validator (stamped clk ev) = CE_Validator ev"
  "validateEvidence (stamped clk ev) = validateEvidence ev"
  by (simp_all add: stamped_def evidenceID_def evidence_text_def validateEvidence_def)

lemma apply_evidence_records:
  "ER_ID rec = i \<Longrightarrow> fmlookup (em_records (snd (snd (apply_evidence order clk ev rec vs em)))) j =
     (if j = i then Some (fst (fst (apply_evidence order clk ev rec vs em))) else fmlookup (em_records em) j)"
  by (auto simp: apply_evidence_def Let_def put_evidence_def split: option.splits sum.splits)

lemma Process_duplicate:
  "fmlookup (em_records em) (evidenceID ev) = Some r \<Longrightarrow>
   Process order clk ev (vs, em) = ((r, Some (EvDuplicate (evidenceID ev))), vs, em)"
  by (simp add: Process_def Let_def)

lemma Process_records:
  "fmlookup (em_records (snd (snd (Process order clk ev (vs, em))))) i =
     (if i = evidenceID ev then Some (fst (fst (Process order clk ev (vs, em)))) else fmlookup (em_records em) i)"
proof (cases "fmlookup (em_records em) (evidenceID ev)")
  case None
  then show ?thesis
    using apply_evidence_records [of "new_record (evidenceID ev) (stamped clk ev)" "evidenceID ev"]
    by (simp add: Process_def Let_def new_record_def put_evidence_def)
qed (simp add: Process_duplicate)

text \<open>A run of submissions; each submission carries its iteration order and its clock.\<close>

type_synonym submission = "string list \<times> clock \<times> ConsensusEvidence"

fun evidence_exec :: "submission \<Rightarrow> ValidatorSet \<times> EvidenceManager \<Rightarrow> (EvidenceRecord \<times> process_error option) \<times> (ValidatorSet \<times> EvidenceManager)" where
  "evidence_exec (order, clk, ev) st = Process order clk ev st"

definition accepts_evidence :: "string \<Rightarrow> submission \<times> (EvidenceRecord \<times> process_error option) \<Rightarrow> bool" where
  "accepts_evidence i x \<longleftrightarrow> evidenceID (snd (snd (fst x))) = i \<and> snd (snd x) = None"

definition evidence_known :: "string \<Rightarrow> ValidatorSet \<times> EvidenceManager \<Rightarrow> bool" where
  "evidence_known i st \<longleftrightarrow> fmlookup (em_records (snd st)) i \<noteq> None"

lemma evidence_recorded: "evidence_known (evidenceID ev) (snd (Process order clk ev st))"
  using Process_records [of order clk ev "fst st" "snd st"] by (simp add: evidence_known_def)

lemma evidence_stays: "evidence_known i st \<Longrightarrow> evidence_known i (snd (Process order clk ev st))"
  using Process_records [of order clk ev "fst st" "snd st"] by (auto simp: evidence_known_def)

interpretation ev_once: one_shot evidence_exec "\<lambda>_ _. True" "accepts_evidence i" "evidence_known i" for i
proof
  fix st and op :: submission
  assume c: "evidence_known i st"
  obtain order clk ev where op: "op = (order, clk, ev)" by (cases op) auto
  show "evidence_known i (snd (evidence_exec op st))" using evidence_stays [OF c] op by simp
  show "\<not> accepts_evidence i (op, fst (evidence_exec op st))"
    using c op by (cases st) (auto simp: evidence_known_def accepts_evidence_def Process_duplicate)
next
  fix op :: submission and st
  assume "accepts_evidence i (op, fst (evidence_exec op st))"
  then show "evidence_known i (snd (evidence_exec op st))"
    using evidence_recorded by (cases op; cases st) (auto simp: accepts_evidence_def)
qed

definition slash_of :: "submission \<times> (EvidenceRecord \<times> process_error option) \<Rightarrow> SlashEvent option" where
  "slash_of x = (if snd (snd x) = None then ER_SlashEvent (fst (snd x)) else None)"

lemma slash_log_entry: "Slash clk a reason vs = Inr (event, vs') \<Longrightarrow> slashLog vs' = slashLog vs @ [event]"
  by (auto simp: Slash_def Let_def put_validator_def split: option.splits if_splits)

lemma apply_evidence_log:
  "ER_SlashEvent rec = None \<Longrightarrow> slashLog (fst (snd (apply_evidence order clk ev rec vs em))) =
     slashLog vs @ (case slash_of (op, fst (apply_evidence order clk ev rec vs em)) of None \<Rightarrow> [] | Some e \<Rightarrow> [e])"
  by (auto simp: apply_evidence_def Let_def slash_of_def slash_log_entry split: option.splits sum.splits)

lemma process_slash_log:
  "slashLog (fst (snd (evidence_exec op st))) =
     slashLog (fst st) @ (case slash_of (op, fst (evidence_exec op st)) of None \<Rightarrow> [] | Some e \<Rightarrow> [e])"
proof -
  obtain order clk ev where op: "op = (order, clk, ev)" by (cases op) auto
  obtain vs em where st: "st = (vs, em)" by (cases st)
  show ?thesis
  proof (cases "fmlookup (em_records em) (evidenceID ev)")
    case None
    then show ?thesis
      using apply_evidence_log [of "new_record (evidenceID ev) (stamped clk ev)"] by (simp add: op st Process_def Let_def new_record_def)
  qed (simp add: op st Process_duplicate slash_of_def)
qed

lemma run_slash_log:
  "slashLog (fst (snd (op_run evidence_exec ops st))) =
     slashLog (fst st) @ List.map_filter slash_of (fst (op_run evidence_exec ops st))"
proof (induction ops arbitrary: st)
  case (Cons op ops)
  then show ?case using process_slash_log [of op st] by (simp add: map_filter_simps split: option.splits)
qed (simp add: map_filter_simps)

lemma all_admissible_True [simp]: "all_admissible exec (\<lambda>_ _. True) ops s"
  by (induction ops arbitrary: s) simp_all

text \<open>
  C17: In every sequence of submissions each piece of evidence is accepted at most once, and the slash log grows by exactly the slashes
  of the accepted submissions, in order: no validator is slashed without an accepted submission.
\<close>

theorem evidence_slashes_once:
  "length (filter (accepts_evidence i) (fst (op_run evidence_exec ops st))) \<le> 1 \<and>
   slashLog (fst (snd (op_run evidence_exec ops st))) =
     slashLog (fst st) @ List.map_filter slash_of (fst (op_run evidence_exec ops st))"
  using ev_once.at_most_once run_slash_log by simp

section \<open>What evidence does not have to show\<close>

text \<open>
  Evidence of equivocation is two different strings: nothing ties them to votes or to a signature, so anybody who can submit
  evidence has any validator slashed and jailed.
\<close>

lemma fabricated_evidence_slashes:
  assumes "fmlookup (validators vs) a = Some v" "VStatus v \<noteq> ValidatorExited" "a \<noteq> []" "x \<noteq> y"
    and "fmlookup (em_records em) (evidenceID \<lparr>CE_Type = EvidenceEquivocation, CE_Validator = a, CE_Height = h, CE_Round = r,
           CE_BlockHashes = [x, y], CE_Details = d, CE_Timestamp = t\<rparr>) = None"
  shows "\<exists>rec vs' em' v'. Process order clk \<lparr>CE_Type = EvidenceEquivocation, CE_Validator = a, CE_Height = h, CE_Round = r,
           CE_BlockHashes = [x, y], CE_Details = d, CE_Timestamp = t\<rparr> (vs, em) = ((rec, None), vs', em') \<and>
         fmlookup (validators vs') a = Some v' \<and> VStatus v' = ValidatorJailed \<and> SlashCount v' = SlashCount v + 1"
proof -
  let ?ev = "\<lparr>CE_Type = EvidenceEquivocation, CE_Validator = a, CE_Height = h, CE_Round = r,
           CE_BlockHashes = [x, y], CE_Details = d, CE_Timestamp = t\<rparr>"
  have "validateEvidence ?ev = None"
    using assms(3,4) by (simp add: validateEvidence_def EvidenceEquivocation_def EvidenceForkWitness_def)
  then show ?thesis
    using assms(1,2,5)
    by (simp add: Process_def apply_evidence_def Let_def Slash_def put_validator_def EvidenceEquivocation_def EvidenceForkWitness_def)
qed

text \<open>The identifier covers the free text, so the same accusation with other words is new evidence.\<close>

lemma reworded_evidence_is_new:
  assumes "CE_Details ev \<noteq> d" "evidenceID (ev\<lparr>CE_Details := d\<rparr>) = evidenceID ev"
  shows "\<exists>m m'. m \<noteq> m' \<and> sha256_hex m = sha256_hex m'"
  using assms by (intro exI [of _ "evidence_text (ev\<lparr>CE_Details := d\<rparr>)"] exI [of _ "evidence_text ev"])
    (auto simp: evidenceID_def evidence_text_def)

end
