(* ===== verification/MiningProof.thy ===== *)
theory MiningProof
  imports Json
begin

text \<open>
  \<open>pkg/mining/proof.go\<close>: the proof a miner submits, its canonical encoding, its identifier and its parser from the
  wire structure. \<open>json.Unmarshal\<close> into that structure is an argument (\<open>unmarshal\<close>). Fixed-size byte arrays are byte
  lists; \<open>proof_shape\<close> states their lengths. \<open>int64\<close> is \<open>64 word\<close> read with \<open>sint\<close>.
\<close>

type_synonym s64 = "64 word"

definition show_sint :: "s64 \<Rightarrow> string" where
  "show_sint x = (if sint x < 0 then CHR ''-'' # show_nat (nat (- sint x)) else show_nat (nat (sint x)))"

section \<open>encoding/hex and strconv\<close>

definition hex_value :: "char \<Rightarrow> nat option" where
  "hex_value c =
     (let n = (of_char c :: nat)
      in if 48 \<le> n \<and> n \<le> 57 then Some (n - 48)
         else if 97 \<le> n \<and> n \<le> 102 then Some (n - 87)
         else if 65 \<le> n \<and> n \<le> 70 then Some (n - 55)
         else None)"

fun hex_decode :: "string \<Rightarrow> bytes option" where
  "hex_decode [] = Some []"
| "hex_decode [_] = None"
| "hex_decode (a # b # s) =
     (case (hex_value a, hex_value b) of
        (Some x, Some y) \<Rightarrow> map_option ((#) (of_nat (16 * x + y))) (hex_decode s)
      | _ \<Rightarrow> None)"

definition digit_val :: "char \<Rightarrow> nat option" where
  "digit_val c = (let n = (of_char c :: nat) in if 48 \<le> n \<and> n \<le> 57 then Some (n - 48) else None)"

fun parse_digits :: "nat \<Rightarrow> string \<Rightarrow> nat option" where
  "parse_digits acc [] = Some acc"
| "parse_digits acc (c # s) = (case digit_val c of None \<Rightarrow> None | Some d \<Rightarrow> parse_digits (10 * acc + d) s)"

definition ParseUint64 :: "string \<Rightarrow> u64 option" where
  "ParseUint64 s =
     (if s = [] then None
      else case parse_digits 0 s of None \<Rightarrow> None | Some n \<Rightarrow> if n < 2 ^ 64 then Some (of_nat n) else None)"

section \<open>Proofs\<close>

definition ProtocolVersion :: u32 where "ProtocolVersion = 1"
definition ProtocolVersionV2 :: u32 where "ProtocolVersionV2 = 2"

record Attestation =
  AType :: string
  BundleBase64 :: string
  GPUArch :: string
  ClaimedHashrateHPS :: u64
  ANonce :: bytes
  AIssuedAt :: s64

record Proof =
  PVersion :: u32
  PEpoch :: u64
  PHeight :: u64
  HeaderHash :: bytes
  MinerAddr :: string
  BatchRoot :: bytes
  BatchCount :: u32
  PNonce :: bytes
  MixDigest :: bytes
  PAttestation :: Attestation

definition Attestation_Empty :: "Attestation \<Rightarrow> bool" where
  "Attestation_Empty a \<longleftrightarrow>
     AType a = [] \<and> BundleBase64 a = [] \<and> GPUArch a = [] \<and> ClaimedHashrateHPS a = 0 \<and> ANonce a = replicate 32 0 \<and> AIssuedAt a = 0"

datatype proof_error =
  PErrVersion | PErrMinerAddr | PErrBatchCount | PErrJson | PErrEpoch | PErrHeight | PErrHex string | PErrLength string

definition validateShape :: "Proof \<Rightarrow> proof_error option" where
  "validateShape p =
     (if PVersion p = 0 then Some PErrVersion
      else if MinerAddr p = [] then Some PErrMinerAddr
      else if BatchCount p = 0 then Some PErrBatchCount
      else None)"

definition appendJSONField :: "string \<Rightarrow> string \<Rightarrow> bool \<Rightarrow> string" where
  "appendJSONField name v quoteValue =
     CHR 0x22 # name @ [CHR 0x22, CHR 0x3A] @ (if quoteValue then CHR 0x22 # v @ [CHR 0x22] else v)"

definition marshal_attestation :: "Proof \<Rightarrow> string" where
  "marshal_attestation p =
     (let a = PAttestation p
      in html_escape (json_object (
        [json_field ''type'' (json_string (AType a)),
         json_field ''bundle'' (json_string (BundleBase64 a)),
         json_field ''gpu_arch'' (json_string (GPUArch a)),
         json_field ''claimed_hashrate_hps'' (show_nat (unat (ClaimedHashrateHPS a)))] @
        (if PVersion p \<ge> ProtocolVersionV2 then
           [json_field ''nonce'' (json_string (hex_encode (ANonce a))),
            json_field ''issued_at'' (show_sint (AIssuedAt a))]
         else []))))"

definition proof_fields :: "Proof \<Rightarrow> string list" where
  "proof_fields p =
     [appendJSONField ''version'' (show_nat (unat (PVersion p))) False,
      appendJSONField ''epoch'' (show_nat (unat (PEpoch p))) True,
      appendJSONField ''height'' (show_nat (unat (PHeight p))) True,
      appendJSONField ''header_hash'' (hex_encode (HeaderHash p)) True,
      appendJSONField ''miner_addr'' (MinerAddr p) True,
      appendJSONField ''batch_root'' (hex_encode (BatchRoot p)) True,
      appendJSONField ''batch_count'' (show_nat (unat (BatchCount p))) False,
      appendJSONField ''nonce'' (hex_encode (PNonce p)) True,
      appendJSONField ''mix_digest'' (hex_encode (MixDigest p)) True]"

definition canonicalBytes :: "bool \<Rightarrow> Proof \<Rightarrow> proof_error + string" where
  "canonicalBytes includeAttestation p =
     (case validateShape p of Some e \<Rightarrow> Inl e
      | None \<Rightarrow> Inr (json_object (proof_fields p @
          (if includeAttestation then [CHR 0x22 # ''attestation'' @ [CHR 0x22, CHR 0x3A] @ marshal_attestation p] else []))))"

definition CanonicalJSON :: "Proof \<Rightarrow> proof_error + string" where
  "CanonicalJSON p = canonicalBytes True p"

definition Proof_ID :: "Proof \<Rightarrow> proof_error + bytes" where
  "Proof_ID p = (case canonicalBytes False p of Inl e \<Rightarrow> Inl e | Inr b \<Rightarrow> Inr (sha256 (bytes_of_string b)))"

section \<open>Parsing\<close>

record attestationWire =
  aw_Type :: string
  aw_Bundle :: string
  aw_GPUArch :: string
  aw_ClaimedHashrateHPS :: u64
  aw_Nonce :: string
  aw_IssuedAt :: s64

record proofWire =
  pw_Version :: u32
  pw_Epoch :: string
  pw_Height :: string
  pw_HeaderHash :: string
  pw_MinerAddr :: string
  pw_BatchRoot :: string
  pw_BatchCount :: u32
  pw_Nonce :: string
  pw_MixDigest :: string
  pw_Attestation :: attestationWire

definition decodeHexInto :: "nat \<Rightarrow> string \<Rightarrow> string \<Rightarrow> proof_error + bytes" where
  "decodeHexInto n s field =
     (case hex_decode s of None \<Rightarrow> Inl (PErrHex field)
      | Some b \<Rightarrow> if length b \<noteq> n then Inl (PErrLength field) else Inr b)"

definition toAttestation :: "attestationWire \<Rightarrow> proof_error + Attestation" where
  "toAttestation aw =
     (let a = \<lparr>AType = aw_Type aw, BundleBase64 = aw_Bundle aw, GPUArch = aw_GPUArch aw,
               ClaimedHashrateHPS = aw_ClaimedHashrateHPS aw, ANonce = replicate 32 0, AIssuedAt = aw_IssuedAt aw\<rparr>
      in if aw_Nonce aw \<noteq> [] then
           (case decodeHexInto 32 (aw_Nonce aw) ''attestation.nonce'' of Inl e \<Rightarrow> Inl e | Inr b \<Rightarrow> Inr (a\<lparr>ANonce := b\<rparr>))
         else Inr a)"

definition toProof :: "proofWire \<Rightarrow> proof_error + Proof" where
  "toProof w =
     (case toAttestation (pw_Attestation w) of Inl e \<Rightarrow> Inl e | Inr att \<Rightarrow>
      case ParseUint64 (pw_Epoch w) of None \<Rightarrow> Inl PErrEpoch | Some epoch \<Rightarrow>
      case ParseUint64 (pw_Height w) of None \<Rightarrow> Inl PErrHeight | Some height \<Rightarrow>
      case decodeHexInto 32 (pw_HeaderHash w) ''header_hash'' of Inl e \<Rightarrow> Inl e | Inr hh \<Rightarrow>
      case decodeHexInto 32 (pw_BatchRoot w) ''batch_root'' of Inl e \<Rightarrow> Inl e | Inr br \<Rightarrow>
      case decodeHexInto 16 (pw_Nonce w) ''nonce'' of Inl e \<Rightarrow> Inl e | Inr nonce \<Rightarrow>
      case decodeHexInto 32 (pw_MixDigest w) ''mix_digest'' of Inl e \<Rightarrow> Inl e | Inr mix \<Rightarrow>
      Inr \<lparr>PVersion = pw_Version w, PEpoch = epoch, PHeight = height, HeaderHash = hh, MinerAddr = pw_MinerAddr w,
           BatchRoot = br, BatchCount = pw_BatchCount w, PNonce = nonce, MixDigest = mix, PAttestation = att\<rparr>)"

definition ParseProof :: "(bytes \<Rightarrow> proofWire option) \<Rightarrow> bytes \<Rightarrow> proof_error + Proof" where
  "ParseProof unmarshal raw = (case unmarshal raw of None \<Rightarrow> Inl PErrJson | Some w \<Rightarrow> toProof w)"

section \<open>Round trip\<close>

text \<open>The wire structure that the canonical encoding of a proof denotes.\<close>

definition toWire :: "Proof \<Rightarrow> proofWire" where
  "toWire p =
     (let a = PAttestation p
      in \<lparr>pw_Version = PVersion p, pw_Epoch = show_nat (unat (PEpoch p)), pw_Height = show_nat (unat (PHeight p)),
          pw_HeaderHash = hex_encode (HeaderHash p), pw_MinerAddr = MinerAddr p, pw_BatchRoot = hex_encode (BatchRoot p),
          pw_BatchCount = BatchCount p, pw_Nonce = hex_encode (PNonce p), pw_MixDigest = hex_encode (MixDigest p),
          pw_Attestation = \<lparr>aw_Type = AType a, aw_Bundle = BundleBase64 a, aw_GPUArch = GPUArch a,
            aw_ClaimedHashrateHPS = ClaimedHashrateHPS a,
            aw_Nonce = (if PVersion p \<ge> ProtocolVersionV2 then hex_encode (ANonce a) else []),
            aw_IssuedAt = (if PVersion p \<ge> ProtocolVersionV2 then AIssuedAt a else 0)\<rparr>\<rparr>)"

definition proof_shape :: "Proof \<Rightarrow> bool" where
  "proof_shape p \<longleftrightarrow> length (HeaderHash p) = 32 \<and> length (BatchRoot p) = 32 \<and> length (PNonce p) = 16 \<and>
     length (MixDigest p) = 32 \<and> length (ANonce (PAttestation p)) = 32"

lemma hex_value_digit: "n < 16 \<Longrightarrow> hex_value (hex_digit n) = Some n"
proof -
  have "list_all (\<lambda>k. hex_value (hex_digit k) = Some k) [0..<16]" by code_simp
  then show "n < 16 \<Longrightarrow> hex_value (hex_digit n) = Some n" by (simp add: list_all_iff)
qed

lemma hex_decode_encode [simp]: "hex_decode (hex_encode bs) = Some bs"
proof (induction bs)
  case (Cons b bs)
  have b: "unat b < 256" using unsigned_less [of b, where 'a = nat] by simp
  then have "hex_value (hex_digit (unat b div 16)) = Some (unat b div 16)" "hex_value (hex_digit (unat b mod 16)) = Some (unat b mod 16)"
    by (simp_all add: hex_value_digit less_mult_imp_div_less)
  moreover have "(of_nat (16 * (unat b div 16) + unat b mod 16) :: u8) = b"
    by (simp only: mult_div_mod_eq) simp
  ultimately show ?case using Cons by (simp add: hex_encode_def del: of_nat_add of_nat_mult)
qed (simp add: hex_encode_def)

lemma digit_val_char: "d < 10 \<Longrightarrow> digit_val (digit_char d) = Some d"
proof -
  have "list_all (\<lambda>k. digit_val (digit_char k) = Some k) [0..<10]" by code_simp
  then show "d < 10 \<Longrightarrow> digit_val (digit_char d) = Some d" by (simp add: list_all_iff)
qed

lemma digit_char_mod: "digit_char n = digit_char (n mod 10)"
  by (simp add: digit_char_def)

lemma parse_digits_append:
  "parse_digits acc (s @ t) = (case parse_digits acc s of None \<Rightarrow> None | Some n \<Rightarrow> parse_digits n t)"
  by (induction s arbitrary: acc) (auto split: option.splits)

lemma parse_show_nat: "parse_digits 0 (show_nat n) = Some n"
proof (induction n rule: show_nat.induct)
  case (1 n)
  have "digit_val (digit_char n) = Some (n mod 10)" using digit_val_char [of "n mod 10"] digit_char_mod [of n] by simp
  then show ?case using 1 by (subst show_nat.simps) (simp add: parse_digits_append)
qed

lemma show_nat_nonempty [simp]: "show_nat n \<noteq> []"
  by (subst show_nat.simps) simp

lemma ParseUint64_show [simp]: "ParseUint64 (show_nat (unat x)) = Some x"
  by (simp add: ParseUint64_def parse_show_nat)

lemma decodeHexInto_encode: "decodeHexInto n (hex_encode b) f = (if length b = n then Inr b else Inl (PErrLength f))"
  by (simp add: decodeHexInto_def)

lemma hex_encode_nonempty: "bs \<noteq> [] \<Longrightarrow> hex_encode bs \<noteq> []"
  by (cases bs) (simp_all add: hex_encode_def)

lemma toProof_toWire:
  assumes "proof_shape p" "PVersion p \<ge> ProtocolVersionV2"
  shows "toProof (toWire p) = Inr p"
proof -
  have "hex_encode (ANonce (PAttestation p)) \<noteq> []"
    using assms(1) by (intro hex_encode_nonempty) (auto simp: proof_shape_def)
  then show ?thesis using assms by (simp add: toProof_def toWire_def toAttestation_def proof_shape_def decodeHexInto_encode Let_def)
qed

end
