(* ===== verification/EnrollmentTypes.thy ===== *)
theory EnrollmentTypes
  imports Json
begin

text \<open>
  \<open>pkg/mining/enrollment\<close>: payloads and records (\<open>types.go\<close>), stateless validation (\<open>validate.go\<close>), the
  canonical encoding of payloads (\<open>codec.go\<close>, encoding direction) and the hashcash postage of
  deferred-bond enrollments (\<open>deferred_bond.go\<close>). Errors are the sentinels the code wraps. The key
  \<open>HMACKey\<close> is a byte list; the nil slice is not told apart from the empty one.
\<close>

section \<open>types.go\<close>

definition ContractID :: string where "ContractID = ''QSD/enroll/v1''"
definition SignedContractID :: string where "SignedContractID = ''QSD/enroll/v2''"
definition SignedContractActivationHeight :: u64 where "SignedContractActivationHeight = 200000"
definition DeferredBondActivationHeight :: u64 where "DeferredBondActivationHeight = 0"
definition LegacyOwnerSunsetHeight :: u64 where "LegacyOwnerSunsetHeight = 171500"
definition DeferredBondWorkDifficulty :: u8 where "DeferredBondWorkDifficulty = 22"

definition IsContractID :: "string \<Rightarrow> bool" where
  "IsContractID cid = (cid = ContractID \<or> cid = SignedContractID)"

type_synonym PayloadKind = string
type_synonym BondMode = string

definition BondModeUpfront :: BondMode where "BondModeUpfront = ''upfront''"
definition BondModeMiningRewards :: BondMode where "BondModeMiningRewards = ''mining_rewards''"
definition PayloadKindEnroll :: PayloadKind where "PayloadKindEnroll = ''enroll''"
definition PayloadKindUnenroll :: PayloadKind where "PayloadKindUnenroll = ''unenroll''"
definition UnbondWindow :: u64 where "UnbondWindow = 201600"
definition MinHMACKeyLen :: nat where "MinHMACKeyLen = 32"
definition MaxHMACKeyLen :: nat where "MaxHMACKeyLen = 128"
definition MaxNodeIDLen :: nat where "MaxNodeIDLen = 64"
definition MaxGPUUUIDLen :: nat where "MaxGPUUUIDLen = 96"
definition MaxMemoLen :: nat where "MaxMemoLen = 256"
definition MinEnrollStakeDust :: u64 where "MinEnrollStakeDust = 1000000000"

record EnrollPayload =
  P_Kind :: PayloadKind
  P_NodeID :: string
  P_GPUUUID :: string
  P_HMACKey :: bytes
  P_StakeDust :: u64
  P_BondMode :: BondMode
  P_WorkNonce :: u64
  P_Memo :: string

record UnenrollPayload =
  U_Kind :: PayloadKind
  U_NodeID :: string
  U_Reason :: string

record EnrollmentRecord =
  NodeID :: string
  Owner :: string
  GPUUUID :: string
  HMACKey :: bytes
  StakeDust :: u64
  BondMode :: BondMode
  RequiredStakeDust :: u64
  EnrolledAtHeight :: u64
  RevokedAtHeight :: u64
  UnbondMaturesAtHeight :: u64
  Memo :: string

datatype enroll_error =
  ErrPayloadDecode | ErrPayloadInvalid | ErrStakeMismatch | ErrInsufficientBalance
| ErrDeferredBondNotActive | ErrNodeIDTaken | ErrGPUUUIDTaken | ErrNodeNotOwned
| ErrNodeAlreadyUnenrolled | ErrLegacyContractDisabled | ErrStateNodePresent | ErrStateGPUBound
| ErrStateNodeAbsent | ErrStateAlreadyUnenrolled | ErrNodeNotRegistered | ErrNodeRevoked
| ErrRestoreNil

definition Active :: "EnrollmentRecord \<Rightarrow> bool" where
  "Active r = (RevokedAtHeight r = 0)"

definition NormalizedBondMode :: "EnrollmentRecord \<Rightarrow> BondMode" where
  "NormalizedBondMode r = (if BondMode r = [] then BondModeUpfront else BondMode r)"

definition RequiredBondDust :: "EnrollmentRecord \<Rightarrow> u64" where
  "RequiredBondDust r = (if RequiredStakeDust r \<noteq> 0 then RequiredStakeDust r else MinEnrollStakeDust)"

definition BondRemainingDust :: "EnrollmentRecord \<Rightarrow> u64" where
  "BondRemainingDust r =
     (let required = RequiredBondDust r in if required \<le> StakeDust r then 0 else required - StakeDust r)"

definition FullyBonded :: "EnrollmentRecord \<Rightarrow> bool" where
  "FullyBonded r = (BondRemainingDust r = 0)"

definition MatureForUnbond :: "EnrollmentRecord \<Rightarrow> u64 \<Rightarrow> bool" where
  "MatureForUnbond r currentHeight = (if Active r then False else UnbondMaturesAtHeight r \<le> currentHeight)"

text \<open>A \<open>time.Duration\<close> is a signed 64-bit number of nanoseconds.\<close>

definition Age :: "EnrollmentRecord \<Rightarrow> u64 \<Rightarrow> u64" where
  "Age r currentHeight =
     (if currentHeight \<le> EnrolledAtHeight r then 0
      else (currentHeight - EnrolledAtHeight r) * 3 * 1000000000)"

section \<open>codec.go, encoding\<close>

definition opt_field :: "bool \<Rightarrow> string \<Rightarrow> string list" where
  "opt_field present f = (if present then [f] else [])"

definition marshal_enroll :: "EnrollPayload \<Rightarrow> string" where
  "marshal_enroll p = json_object (
     [json_field ''kind'' (json_string (P_Kind p)),
      json_field ''node_id'' (json_string (P_NodeID p)),
      json_field ''gpu_uuid'' (json_string (P_GPUUUID p)),
      json_field ''hmac_key'' (CHR 0x22 # base64 (P_HMACKey p) @ [CHR 0x22]),
      json_field ''stake_dust'' (show_nat (unat (P_StakeDust p)))] @
     opt_field (P_BondMode p \<noteq> []) (json_field ''bond_mode'' (json_string (P_BondMode p))) @
     opt_field (P_WorkNonce p \<noteq> 0) (json_field ''work_nonce'' (show_nat (unat (P_WorkNonce p)))) @
     opt_field (P_Memo p \<noteq> []) (json_field ''memo'' (json_string (P_Memo p))))"

definition marshal_unenroll :: "UnenrollPayload \<Rightarrow> string" where
  "marshal_unenroll p = json_object (
     [json_field ''kind'' (json_string (U_Kind p)),
      json_field ''node_id'' (json_string (U_NodeID p))] @
     opt_field (U_Reason p \<noteq> []) (json_field ''reason'' (json_string (U_Reason p))))"

definition EncodeEnrollPayload :: "EnrollPayload \<Rightarrow> enroll_error + string" where
  "EncodeEnrollPayload p =
     (let p = (if P_Kind p = [] then p\<lparr>P_Kind := PayloadKindEnroll\<rparr> else p)
      in if P_Kind p \<noteq> PayloadKindEnroll then Inl ErrPayloadInvalid else Inr (marshal_enroll p))"

definition EncodeUnenrollPayload :: "UnenrollPayload \<Rightarrow> enroll_error + string" where
  "EncodeUnenrollPayload p =
     (let p = (if U_Kind p = [] then p\<lparr>U_Kind := PayloadKindUnenroll\<rparr> else p)
      in if U_Kind p \<noteq> PayloadKindUnenroll then Inl ErrPayloadInvalid else Inr (marshal_unenroll p))"

section \<open>deferred\_bond.go\<close>

definition work_domain :: string where
  "work_domain = ''QSD-deferred-bond-work-v1'' @ [CHR 0x0A]"

definition DeferredBondWorkDigest :: "EnrollPayload \<Rightarrow> u64 \<Rightarrow> bytes" where
  "DeferredBondWorkDigest p nonce =
     sha256 (bytes_of_string (work_domain @ marshal_enroll (p\<lparr>P_WorkNonce := 0\<rparr>)) @ be64 nonce)"

definition hasLeadingZeroBits :: "bytes \<Rightarrow> u8 \<Rightarrow> bool" where
  "hasLeadingZeroBits digest bits =
     (let whole = unat bits div 8; partial = unat bits mod 8
      in if \<not> list_all (\<lambda>i. digest ! i = 0) [0..<whole] then False
         else if partial = 0 then True
         else digest ! whole AND push_bit (8 - partial) 0xff = 0)"

definition ValidateDeferredBondWork :: "EnrollPayload \<Rightarrow> enroll_error + unit" where
  "ValidateDeferredBondWork p =
     (if \<not> hasLeadingZeroBits (DeferredBondWorkDigest p (P_WorkNonce p)) DeferredBondWorkDifficulty
      then Inl ErrPayloadInvalid else Inr ())"

text \<open>
  The search loop of the operator tool, from \<open>nonce\<close> on, for as many steps as the bound allows; the
  code's bound is \<open>2 ^ 64 - 1\<close> steps from 0. The result is the nonce and the number of attempts.
\<close>

fun find_work :: "nat \<Rightarrow> EnrollPayload \<Rightarrow> u64 \<Rightarrow> u64 \<Rightarrow> enroll_error + (u64 \<times> u64)" where
  "find_work 0 p nonce attempts = Inl ErrPayloadInvalid"
| "find_work (Suc n) p nonce attempts =
     (if hasLeadingZeroBits (DeferredBondWorkDigest p nonce) DeferredBondWorkDifficulty
      then Inr (nonce, attempts + 1) else find_work n p (nonce + 1) (attempts + 1))"

definition FindDeferredBondWork :: "EnrollPayload \<Rightarrow> enroll_error + (u64 \<times> u64)" where
  "FindDeferredBondWork p = find_work (2 ^ 64 - 1) p 0 0"

section \<open>validate.go, stateless part\<close>

definition node_id_char :: "char \<Rightarrow> bool" where
  "node_id_char c =
     ((CHR ''a'' \<le> c \<and> c \<le> CHR ''z'') \<or> (CHR ''0'' \<le> c \<and> c \<le> CHR ''9'') \<or> c = CHR ''-'' \<or> c = CHR ''_'')"

definition validateNodeID :: "string \<Rightarrow> enroll_error + unit" where
  "validateNodeID nodeID =
     (if nodeID = [] then Inl ErrPayloadInvalid
      else if MaxNodeIDLen < length nodeID then Inl ErrPayloadInvalid
      else if \<not> list_all node_id_char nodeID then Inl ErrPayloadInvalid
      else Inr ())"

definition validateGPUUUID :: "string \<Rightarrow> enroll_error + unit" where
  "validateGPUUUID uuid =
     (if uuid = [] then Inl ErrPayloadInvalid
      else if MaxGPUUUIDLen < length uuid then Inl ErrPayloadInvalid
      else if \<not> list_all (\<lambda>c. CHR 0x21 \<le> c \<and> c \<le> CHR 0x7E) uuid then Inl ErrPayloadInvalid
      else if take 4 uuid = ''gpu-'' then Inl ErrPayloadInvalid
      else Inr ())"

definition ValidateEnrollFields :: "EnrollPayload \<Rightarrow> string \<Rightarrow> enroll_error + unit" where
  "ValidateEnrollFields p sender =
     (if P_Kind p \<noteq> PayloadKindEnroll then Inl ErrPayloadInvalid
      else case validateNodeID (P_NodeID p) of Inl e \<Rightarrow> Inl e | Inr _ \<Rightarrow>
      case validateGPUUUID (P_GPUUUID p) of Inl e \<Rightarrow> Inl e | Inr _ \<Rightarrow>
      if length (P_HMACKey p) < MinHMACKeyLen then Inl ErrPayloadInvalid
      else if MaxHMACKeyLen < length (P_HMACKey p) then Inl ErrPayloadInvalid
      else case
        (if P_BondMode p = [] \<or> P_BondMode p = BondModeUpfront then
           (if P_StakeDust p \<noteq> MinEnrollStakeDust then Inl ErrStakeMismatch
            else if P_WorkNonce p \<noteq> 0 then Inl ErrPayloadInvalid else Inr ())
         else if P_BondMode p = BondModeMiningRewards then
           (if P_StakeDust p \<noteq> 0 then Inl ErrStakeMismatch else ValidateDeferredBondWork p)
         else Inl ErrPayloadInvalid)
      of Inl e \<Rightarrow> Inl e | Inr _ \<Rightarrow>
      if MaxMemoLen < length (P_Memo p) then Inl ErrPayloadInvalid
      else if sender = [] then Inl ErrPayloadInvalid
      else Inr ())"

definition ValidateUnenrollFields :: "UnenrollPayload \<Rightarrow> string \<Rightarrow> enroll_error + unit" where
  "ValidateUnenrollFields p sender =
     (if U_Kind p \<noteq> PayloadKindUnenroll then Inl ErrPayloadInvalid
      else case validateNodeID (U_NodeID p) of Inl e \<Rightarrow> Inl e | Inr _ \<Rightarrow>
      if MaxMemoLen < length (U_Reason p) then Inl ErrPayloadInvalid
      else if sender = [] then Inl ErrPayloadInvalid
      else Inr ())"

section \<open>Lemmas\<close>

lemma MinEnrollStakeDust_pos [simp]: "MinEnrollStakeDust \<noteq> 0"
  by (simp add: MinEnrollStakeDust_def)

lemma BondMode_distinct [simp]:
  "BondModeUpfront \<noteq> BondModeMiningRewards" "BondModeMiningRewards \<noteq> []" "BondModeUpfront \<noteq> []"
  by (simp_all add: BondModeUpfront_def BondModeMiningRewards_def)

lemma validateNodeID_ok [dest]: "validateNodeID n = Inr u \<Longrightarrow> n \<noteq> []"
  by (auto simp: validateNodeID_def split: if_splits)

lemma validateGPUUUID_ok [dest]: "validateGPUUUID g = Inr u \<Longrightarrow> g \<noteq> []"
  by (auto simp: validateGPUUUID_def split: if_splits)

text \<open>What a payload that passes the stateless checks looks like.\<close>

lemma ValidateEnrollFields_ok:
  assumes "ValidateEnrollFields p sender = Inr u"
  shows "P_NodeID p \<noteq> []" "P_GPUUUID p \<noteq> []" "sender \<noteq> []"
    "32 \<le> length (P_HMACKey p)" "length (P_HMACKey p) \<le> 128"
    "(P_BondMode p = BondModeMiningRewards \<and> P_StakeDust p = 0 \<and> ValidateDeferredBondWork p = Inr ())
     \<or> ((P_BondMode p = [] \<or> P_BondMode p = BondModeUpfront) \<and> P_StakeDust p = MinEnrollStakeDust
        \<and> P_WorkNonce p = 0)"
  using assms unfolding ValidateEnrollFields_def
  by (auto simp: MinHMACKeyLen_def MaxHMACKeyLen_def split: if_splits sum.splits)

lemma BondRemainingDust_unat:
  "unat (BondRemainingDust r) = unat (RequiredBondDust r) - unat (StakeDust r)"
  by (simp add: BondRemainingDust_def Let_def word_le_nat_alt unat_diff_le not_le)

lemma FullyBonded_iff: "FullyBonded r \<longleftrightarrow> unat (RequiredBondDust r) \<le> unat (StakeDust r)"
  using BondRemainingDust_unat [of r] unat_eq_zero [of "BondRemainingDust r"]
  by (simp add: FullyBonded_def)

text \<open>The search returns the first nonce from its start that meets the postage.\<close>

definition work_ok :: "EnrollPayload \<Rightarrow> u64 \<Rightarrow> bool" where
  "work_ok p n = hasLeadingZeroBits (DeferredBondWorkDigest p n) DeferredBondWorkDifficulty"

lemma find_work_iff:
  "find_work k p x att = Inr (n, a) \<longleftrightarrow>
     (\<exists>i<k. n = x + of_nat i \<and> a = att + of_nat i + 1 \<and> work_ok p n \<and> (\<forall>j<i. \<not> work_ok p (x + of_nat j)))"
proof (induction k arbitrary: x att)
  case (Suc k)
  show ?case
  proof (cases "work_ok p x")
    case True
    then have "find_work (Suc k) p x att = Inr (x, att + 1)" by (simp add: work_ok_def)
    moreover have "(\<forall>j<i. \<not> work_ok p (x + of_nat j)) \<longleftrightarrow> i = 0" for i
      using True by (cases i) (auto dest!: spec [where x = 0])
    ultimately show ?thesis using True by auto
  next
    case False
    then have "find_work (Suc k) p x att = find_work k p (x + 1) (att + 1)" by (simp add: work_ok_def)
    then have "find_work (Suc k) p x att = Inr (n, a) \<longleftrightarrow>
        (\<exists>i<k. n = x + of_nat (Suc i) \<and> a = att + of_nat (Suc i) + 1 \<and> work_ok p n \<and>
          (\<forall>j<i. \<not> work_ok p (x + of_nat (Suc j))))"
      by (simp add: Suc.IH [of "x + 1" "att + 1"] add.assoc del: find_work.simps)
    then show ?thesis
      using False by (simp only: Ex_less_Suc2 All_less_Suc2) auto
  qed
qed simp

section \<open>Properties\<close>

text \<open>
  the hashcash search of a deferred-bond enrollment returns a nonce exactly when that nonce makes
  the payload pass the validator's postage check and no smaller nonce does; it then has made one
  attempt more than the nonce. The last nonce, \<open>2 ^ 64 - 1\<close>, is never tried.
\<close>

theorem find_work_first_valid_nonce:
  "FindDeferredBondWork p = Inr (n, a) \<longleftrightarrow>
     ValidateDeferredBondWork (p\<lparr>P_WorkNonce := n\<rparr>) = Inr () \<and> a = n + 1 \<and> n \<noteq> - 1 \<and>
     {m. m < n \<and> ValidateDeferredBondWork (p\<lparr>P_WorkNonce := m\<rparr>) = Inr ()} = {}"
proof -
  have v: "ValidateDeferredBondWork (p\<lparr>P_WorkNonce := m\<rparr>) = Inr () \<longleftrightarrow> work_ok p m" for m
    by (simp add: ValidateDeferredBondWork_def DeferredBondWorkDigest_def work_ok_def)
  have low: "(\<forall>j<unat n. \<not> work_ok p (of_nat j)) \<longleftrightarrow> {m. m < n \<and> work_ok p m} = {}"
  proof safe
    fix m assume "\<forall>j<unat n. \<not> work_ok p (of_nat j)" "m < n" "work_ok p m"
    then show "m \<in> {}" by (auto simp: word_less_nat_alt dest: spec [where x = "unat m"])
  next
    fix j assume "{m. m < n \<and> work_ok p m} = {}" "j < unat n" "work_ok p (of_nat j)"
    moreover have "unat (of_nat j :: u64) = j"
      by (intro unat_of_nat_fits unat_le_fits [of j n] less_imp_le \<open>j < unat n\<close>)
    ultimately show False by (auto simp: word_less_nat_alt)
  qed
  have last: "unat n < 2 ^ 64 - 1 \<longleftrightarrow> n \<noteq> - 1"
    using unat_lt_2p64 [of n]
    by (auto simp: word_unat_eq_iff unsigned_minus_1_eq_mask mask_eq_exp_minus_1 simp del: unat_lt_2p64)
  have "(\<exists>i<2 ^ 64 - 1. n = of_nat i \<and> Q i) \<longleftrightarrow> unat n < 2 ^ 64 - 1 \<and> Q (unat n)" for Q
    by (auto simp: unat_of_nat_fits intro!: exI [of _ "unat n"])
  from this [of "\<lambda>i. a = of_nat i + 1 \<and> work_ok p n \<and> (\<forall>j<i. \<not> work_ok p (of_nat j))"]
  have "FindDeferredBondWork p = Inr (n, a) \<longleftrightarrow>
      unat n < 2 ^ 64 - 1 \<and> a = n + 1 \<and> work_ok p n \<and> (\<forall>j<unat n. \<not> work_ok p (of_nat j))"
    unfolding FindDeferredBondWork_def find_work_iff by simp
  then show ?thesis unfolding v low last by blast
qed

end
