(* ===== verification/EnrollmentState.thy ===== *)
theory EnrollmentState
  imports EnrollmentTypes
begin

text \<open>
  \<open>pkg/mining/enrollment/registry.go\<close>: the enrollment registry \<open>InMemoryState\<close> with all its operations,
  the adapter to the attestation registry, and the stateful checks of \<open>validate.go\<close>. The mutex makes
  every operation atomic, so an operation is a function on the state. Records are held by value: the
  code hands out copies. \<open>SweepMaturedUnbonds\<close> ranges over a Go map and returns the releases in
  iteration order, so it takes that order as an argument; the other loops sort the keys first.
\<close>

section \<open>State\<close>

record InMemoryState =
  byNodeID :: "(string, EnrollmentRecord) fmap"
  byGPUActive :: "(string, string) fmap"
  seenEvidence :: "bytes fset"

definition NewInMemoryState :: InMemoryState where
  "NewInMemoryState = \<lparr>byNodeID = fmempty, byGPUActive = fmempty, seenEvidence = {||}\<rparr>"

record Stats =
  ActiveCount :: u64
  BondedDust :: u64
  PendingUnbondCount :: u64
  PendingUnbondDust :: u64

definition count_record :: "InMemoryState \<Rightarrow> string \<Rightarrow> Stats \<Rightarrow> Stats" where
  "count_record s k out =
     (case fmlookup (byNodeID s) k of None \<Rightarrow> out
      | Some rec \<Rightarrow>
          if Active rec then
            out\<lparr>ActiveCount := ActiveCount out + 1, BondedDust := BondedDust out + StakeDust rec\<rparr>
          else if RevokedAtHeight rec \<noteq> 0 then
            out\<lparr>PendingUnbondCount := PendingUnbondCount out + 1,
                PendingUnbondDust := PendingUnbondDust out + StakeDust rec\<rparr>
          else out)"

definition State_Stats :: "InMemoryState \<Rightarrow> Stats" where
  "State_Stats s = fold (count_record s) (sorted_keys (byNodeID s))
     \<lparr>ActiveCount = 0, BondedDust = 0, PendingUnbondCount = 0, PendingUnbondDust = 0\<rparr>"

definition Lookup :: "InMemoryState \<Rightarrow> string \<Rightarrow> EnrollmentRecord option" where
  "Lookup s nodeID = fmlookup (byNodeID s) nodeID"

section \<open>Listing\<close>

type_synonym ListPhase = string

definition PhaseAny :: ListPhase where "PhaseAny = []"
definition PhaseActive :: ListPhase where "PhaseActive = ''active''"
definition PhasePendingUnbond :: ListPhase where "PhasePendingUnbond = ''pending_unbond''"
definition PhaseRevoked :: ListPhase where "PhaseRevoked = ''revoked''"
definition DefaultListLimit :: int where "DefaultListLimit = 50"
definition MaxListLimit :: int where "MaxListLimit = 500"

record ListOptions =
  Cursor :: string
  Limit :: int
  Phase :: ListPhase

record ListPage =
  Records :: "EnrollmentRecord list"
  NextCursor :: string
  HasMore :: bool
  TotalMatches :: u64

definition matchesPhase :: "EnrollmentRecord \<Rightarrow> ListPhase \<Rightarrow> bool" where
  "matchesPhase rec phase =
     (if phase = PhaseAny then True
      else if phase = PhaseActive then Active rec
      else if phase = PhasePendingUnbond then \<not> Active rec \<and> 0 < StakeDust rec
      else if phase = PhaseRevoked then \<not> Active rec \<and> StakeDust rec = 0
      else False)"

definition matched_ids :: "InMemoryState \<Rightarrow> ListPhase \<Rightarrow> string list" where
  "matched_ids s phase =
     filter (\<lambda>k. matchesPhase (the (fmlookup (byNodeID s) k)) phase) (sorted_keys (byNodeID s))"

text \<open>\<open>sort.SearchStrings\<close>: the first index whose entry is not below the key.\<close>

definition SearchStrings :: "string list \<Rightarrow> string \<Rightarrow> nat" where
  "SearchStrings xs x = length (takeWhile (\<lambda>y. y < x) xs)"

definition page_limit :: "int \<Rightarrow> nat" where
  "page_limit limit =
     (let limit = (if limit \<le> 0 then DefaultListLimit else limit)
      in nat (if limit > MaxListLimit then MaxListLimit else limit))"

definition State_List :: "InMemoryState \<Rightarrow> ListOptions \<Rightarrow> ListPage" where
  "State_List s opts =
     (let matched = matched_ids s (Phase opts);
          startIdx = (if Cursor opts = [] then 0
            else let i = SearchStrings matched (Cursor opts)
                 in if i < length matched \<and> matched ! i = Cursor opts then i + 1 else i);
          en = min (startIdx + page_limit (Limit opts)) (length matched);
          page = drop startIdx (take en matched)
      in \<lparr>Records = map (\<lambda>k. the (fmlookup (byNodeID s) k)) page,
          NextCursor = (if en < length matched then last page else []),
          HasMore = (en < length matched),
          TotalMatches = of_nat (length matched)\<rparr>)"

section \<open>Mutations\<close>

definition GPUUUIDBound :: "InMemoryState \<Rightarrow> string \<Rightarrow> string" where
  "GPUUUIDBound s gpu = (case fmlookup (byGPUActive s) gpu of None \<Rightarrow> [] | Some n \<Rightarrow> n)"

definition ApplyEnroll :: "EnrollmentRecord \<Rightarrow> InMemoryState \<Rightarrow> enroll_error + InMemoryState" where
  "ApplyEnroll rec s =
     (if NodeID rec |\<in>| fmdom (byNodeID s) then Inl ErrStateNodePresent
      else if GPUUUID rec |\<in>| fmdom (byGPUActive s) then Inl ErrStateGPUBound
      else Inr (s\<lparr>byNodeID := fmupd (NodeID rec) rec (byNodeID s),
                  byGPUActive := fmupd (GPUUUID rec) (NodeID rec) (byGPUActive s)\<rparr>))"

definition accrues :: "string \<Rightarrow> EnrollmentRecord \<Rightarrow> bool" where
  "accrues owner rec \<longleftrightarrow> Active rec \<and> Owner rec = owner \<and>
     NormalizedBondMode rec = BondModeMiningRewards \<and> \<not> FullyBonded rec"

fun accrue_loop ::
  "string list \<Rightarrow> u64 \<Rightarrow> (string, EnrollmentRecord) fmap \<Rightarrow> (string, EnrollmentRecord) fmap \<times> u64" where
  "accrue_loop [] remaining m = (m, remaining)"
| "accrue_loop (nodeID # ids) remaining m =
     (let rec = the (fmlookup m nodeID);
          need = BondRemainingDust rec;
          locked = (if need > remaining then remaining else need);
          m = fmupd nodeID (rec\<lparr>StakeDust := StakeDust rec + locked\<rparr>) m;
          remaining = remaining - locked
      in if remaining = 0 then (m, remaining) else accrue_loop ids remaining m)"

definition AccrueBondFromReward :: "string \<Rightarrow> u64 \<Rightarrow> InMemoryState \<Rightarrow> InMemoryState \<times> u64" where
  "AccrueBondFromReward owner rewardDust s =
     (if owner = [] \<or> rewardDust = 0 then (s, 0)
      else let ids = filter (\<lambda>k. accrues owner (the (fmlookup (byNodeID s) k))) (sorted_keys (byNodeID s));
               (m, remaining) = accrue_loop ids rewardDust (byNodeID s)
           in (s\<lparr>byNodeID := m\<rparr>, rewardDust - remaining))"

record LegacyOwnerRevocation =
  LR_NodeID :: string
  LR_Owner :: string
  LR_GPUUUID :: string
  LR_StakeDust :: u64

definition ascii_lower :: "char \<Rightarrow> char" where
  "ascii_lower c = (if CHR ''A'' \<le> c \<and> c \<le> CHR ''Z'' then char_of (of_char c + (32 :: nat)) else c)"

definition canonicalWalletOwner :: "string \<Rightarrow> bool" where
  "canonicalWalletOwner owner =
     (if length owner \<noteq> 64 \<or> owner \<noteq> map ascii_lower owner then False
      else list_all (\<lambda>c. (CHR ''0'' \<le> c \<and> c \<le> CHR ''9'') \<or> (CHR ''a'' \<le> c \<and> c \<le> CHR ''f'')) owner)"

text \<open>Revocation of one record, shared by unenrollment, the legacy sunset and auto-revocation.\<close>

definition revoke_at :: "u64 \<Rightarrow> string \<Rightarrow> EnrollmentRecord \<Rightarrow> InMemoryState \<Rightarrow> InMemoryState" where
  "revoke_at h nodeID rec s =
     s\<lparr>byNodeID := fmupd nodeID (rec\<lparr>RevokedAtHeight := h, UnbondMaturesAtHeight := h + UnbondWindow\<rparr>) (byNodeID s),
       byGPUActive := fmdrop (GPUUUID rec) (byGPUActive s)\<rparr>"

definition legacy_step ::
  "string \<Rightarrow> InMemoryState \<times> LegacyOwnerRevocation list \<Rightarrow> InMemoryState \<times> LegacyOwnerRevocation list" where
  "legacy_step nodeID = (\<lambda>(s, revoked).
     case fmlookup (byNodeID s) nodeID of None \<Rightarrow> (s, revoked)
     | Some rec \<Rightarrow>
         if \<not> Active rec \<or> canonicalWalletOwner (Owner rec) then (s, revoked)
         else (revoke_at LegacyOwnerSunsetHeight nodeID rec s,
               revoked @ [\<lparr>LR_NodeID = NodeID rec, LR_Owner = Owner rec, LR_GPUUUID = GPUUUID rec,
                           LR_StakeDust = StakeDust rec\<rparr>]))"

definition RevokeLegacyOwners :: "u64 \<Rightarrow> InMemoryState \<Rightarrow> InMemoryState \<times> LegacyOwnerRevocation list" where
  "RevokeLegacyOwners currentHeight s =
     (if currentHeight < LegacyOwnerSunsetHeight then (s, [])
      else fold legacy_step (sorted_keys (byNodeID s)) (s, []))"

definition ApplyUnenroll :: "string \<Rightarrow> u64 \<Rightarrow> InMemoryState \<Rightarrow> enroll_error + InMemoryState" where
  "ApplyUnenroll nodeID currentHeight s =
     (case fmlookup (byNodeID s) nodeID of
        None \<Rightarrow> Inl ErrStateNodeAbsent
      | Some rec \<Rightarrow>
          if \<not> Active rec then Inl ErrStateAlreadyUnenrolled
          else Inr (revoke_at currentHeight nodeID rec s))"

record UnbondRelease =
  UR_NodeID :: string
  UR_Owner :: string
  UR_StakeDust :: u64

definition sweep_step ::
  "u64 \<Rightarrow> string \<Rightarrow> InMemoryState \<times> UnbondRelease list \<Rightarrow> InMemoryState \<times> UnbondRelease list" where
  "sweep_step currentHeight nodeID = (\<lambda>(s, released).
     case fmlookup (byNodeID s) nodeID of None \<Rightarrow> (s, released)
     | Some rec \<Rightarrow>
         if MatureForUnbond rec currentHeight
         then (s\<lparr>byNodeID := fmdrop nodeID (byNodeID s)\<rparr>,
               released @ [\<lparr>UR_NodeID = nodeID, UR_Owner = Owner rec, UR_StakeDust = StakeDust rec\<rparr>])
         else (s, released))"

definition SweepMaturedUnbonds :: "string list \<Rightarrow> u64 \<Rightarrow> InMemoryState \<Rightarrow> InMemoryState \<times> UnbondRelease list" where
  "SweepMaturedUnbonds order currentHeight s = fold (sweep_step currentHeight) order (s, [])"

definition SlashStake :: "string \<Rightarrow> u64 \<Rightarrow> InMemoryState \<Rightarrow> enroll_error + (InMemoryState \<times> u64)" where
  "SlashStake nodeID amount s =
     (case fmlookup (byNodeID s) nodeID of
        None \<Rightarrow> Inl ErrStateNodeAbsent
      | Some rec \<Rightarrow>
          let slashed = (if amount > StakeDust rec then StakeDust rec else amount)
          in Inr (s\<lparr>byNodeID := fmupd nodeID (rec\<lparr>StakeDust := StakeDust rec - slashed\<rparr>) (byNodeID s)\<rparr>, slashed))"

definition RevokeIfUnderBonded ::
  "string \<Rightarrow> u64 \<Rightarrow> u64 \<Rightarrow> InMemoryState \<Rightarrow> enroll_error + (InMemoryState \<times> bool \<times> u64)" where
  "RevokeIfUnderBonded nodeID currentHeight minStakeDust s =
     (case fmlookup (byNodeID s) nodeID of
        None \<Rightarrow> Inl ErrStateNodeAbsent
      | Some rec \<Rightarrow>
          if \<not> Active rec then Inr (s, False, StakeDust rec)
          else if minStakeDust = 0 then Inr (s, False, StakeDust rec)
          else if minStakeDust \<le> StakeDust rec then Inr (s, False, StakeDust rec)
          else Inr (revoke_at currentHeight nodeID rec s, True, StakeDust rec))"

definition MarkEvidenceSeen :: "bytes \<Rightarrow> InMemoryState \<Rightarrow> InMemoryState \<times> bool" where
  "MarkEvidenceSeen hash s =
     (if hash |\<in>| seenEvidence s then (s, False)
      else (s\<lparr>seenEvidence := finsert hash (seenEvidence s)\<rparr>, True))"

definition EvidenceSeen :: "bytes \<Rightarrow> InMemoryState \<Rightarrow> bool" where
  "EvidenceSeen hash s = (hash |\<in>| seenEvidence s)"

text \<open>
  Snapshots. The clone shares nothing with the live state, so a snapshot is the state itself, and
  restoring replaces the receiver's contents. A nil receiver clones to the empty state.
\<close>

definition State_Clone :: "InMemoryState option \<Rightarrow> InMemoryState" where
  "State_Clone s = (case s of None \<Rightarrow> NewInMemoryState
     | Some s \<Rightarrow> \<lparr>byNodeID = byNodeID s, byGPUActive = byGPUActive s, seenEvidence = seenEvidence s\<rparr>)"

definition State_Restore :: "InMemoryState option \<Rightarrow> InMemoryState \<Rightarrow> enroll_error + InMemoryState" where
  "State_Restore from s = (case from of None \<Rightarrow> Inl ErrRestoreNil
     | Some src \<Rightarrow> Inr (s\<lparr>byNodeID := byNodeID src, byGPUActive := byGPUActive src, seenEvidence := seenEvidence src\<rparr>))"

section \<open>Stateful validation and the attestation registry\<close>

definition ValidateEnrollAgainstState :: "EnrollPayload \<Rightarrow> u64 \<Rightarrow> InMemoryState \<Rightarrow> enroll_error + unit" where
  "ValidateEnrollAgainstState p senderBalanceDust s =
     (if P_BondMode p \<noteq> BondModeMiningRewards \<and> senderBalanceDust < P_StakeDust p then Inl ErrInsufficientBalance
      else if Lookup s (P_NodeID p) \<noteq> None then Inl ErrNodeIDTaken
      else if GPUUUIDBound s (P_GPUUUID p) \<noteq> [] then Inl ErrGPUUUIDTaken
      else Inr ())"

definition ValidateUnenrollAgainstState :: "UnenrollPayload \<Rightarrow> string \<Rightarrow> InMemoryState \<Rightarrow> enroll_error + unit" where
  "ValidateUnenrollAgainstState p sender s =
     (case Lookup s (U_NodeID p) of
        None \<Rightarrow> Inl ErrNodeNotOwned
      | Some rec \<Rightarrow>
          if Owner rec \<noteq> sender then Inl ErrNodeNotOwned
          else if \<not> Active rec then Inl ErrNodeAlreadyUnenrolled
          else Inr ())"

record Entry =
  E_NodeID :: string
  E_GPUUUID :: string
  E_HMACKey :: bytes

definition Registry_Lookup :: "InMemoryState \<Rightarrow> string \<Rightarrow> enroll_error + Entry" where
  "Registry_Lookup s nodeID =
     (case Lookup s nodeID of
        None \<Rightarrow> Inl ErrNodeNotRegistered
      | Some rec \<Rightarrow>
          if \<not> Active rec then Inl ErrNodeRevoked
          else Inr \<lparr>E_NodeID = NodeID rec, E_GPUUUID = GPUUUID rec, E_HMACKey = HMACKey rec\<rparr>)"

end
