(* ===== verification/HmacAttest.thy ===== *)
theory HmacAttest
  imports MiningProof EnrollmentState
begin

text \<open>
  \<open>pkg/mining/attest/hmac\<close> (bundles, registries, nonce store, deny list, the attestation verifier) and
  \<open>pkg/mining/attest/archcheck\<close> (the architecture allow-list). HMAC-SHA-256 is computed. Parsing a bundle (base64 and strict
  JSON) is an argument. Unicode case folding and white space apply to bytes above 0x7F; the functions below compute them on
  ASCII and take the result on other strings from the argument \<open>uni\<close>.

  Times are instants in nanoseconds; \<open>Time.Sub\<close> saturates at the range of \<open>time.Duration\<close>.
\<close>

section \<open>Strings\<close>

record UnicodeFns =
  u_ToLower :: "string \<Rightarrow> string"
  u_TrimSpace :: "string \<Rightarrow> string"
  u_Fields :: "string \<Rightarrow> string list"
  u_EqualFold :: "string \<Rightarrow> string \<Rightarrow> bool"

definition is_ascii :: "string \<Rightarrow> bool" where
  "is_ascii s = list_all (\<lambda>c. (of_char c :: nat) < 128) s"

definition ascii_space :: "char \<Rightarrow> bool" where
  "ascii_space c = ((of_char c :: nat) \<in> {9, 10, 11, 12, 13, 32})"

definition ToLower :: "UnicodeFns \<Rightarrow> string \<Rightarrow> string" where
  "ToLower uni s = (if is_ascii s then map ascii_lower s else u_ToLower uni s)"

definition TrimSpace :: "UnicodeFns \<Rightarrow> string \<Rightarrow> string" where
  "TrimSpace uni s =
     (if is_ascii s then rev (dropWhile ascii_space (rev (dropWhile ascii_space s))) else u_TrimSpace uni s)"

function ascii_fields :: "string \<Rightarrow> string list" where
  "ascii_fields s =
     (let t = dropWhile ascii_space s
      in if t = [] then []
         else takeWhile (\<lambda>c. \<not> ascii_space c) t # ascii_fields (dropWhile (\<lambda>c. \<not> ascii_space c) t))"
  by pat_completeness auto
termination
proof (relation "measure length", simp)
  fix s t :: string assume t: "t = dropWhile ascii_space s" "t \<noteq> []"
  then have "\<not> ascii_space (hd t)" using hd_dropWhile by blast
  then have "length (dropWhile (\<lambda>c. \<not> ascii_space c) t) < length t"
    using t(2) by (cases t) (auto intro: le_less_trans [OF length_dropWhile_le])
  then show "(dropWhile (\<lambda>c. \<not> ascii_space c) t, s) \<in> measure length"
    using t(1) length_dropWhile_le [of ascii_space s] by simp
qed

declare ascii_fields.simps [simp del]

definition Fields :: "UnicodeFns \<Rightarrow> string \<Rightarrow> string list" where
  "Fields uni s = (if is_ascii s then ascii_fields s else u_Fields uni s)"

definition EqualFold :: "UnicodeFns \<Rightarrow> string \<Rightarrow> string \<Rightarrow> bool" where
  "EqualFold uni s t =
     (if is_ascii s \<and> is_ascii t then map ascii_lower s = map ascii_lower t else u_EqualFold uni s t)"

fun str_contains :: "string \<Rightarrow> string \<Rightarrow> bool" where
  "str_contains [] p = (p = [])"
| "str_contains (c # s) p = (take (length p) (c # s) = p \<or> str_contains s p)"

fun join_spaces :: "string list \<Rightarrow> string" where
  "join_spaces [] = []"
| "join_spaces [s] = s"
| "join_spaces (s # ss) = s @ CHR 0x20 # join_spaces ss"

section \<open>archcheck\<close>

definition ArchHopper :: string where "ArchHopper = ''hopper''"
definition ArchBlackwell :: string where "ArchBlackwell = ''blackwell''"
definition ArchAdaLovelace :: string where "ArchAdaLovelace = ''ada-lovelace''"
definition ArchAmpere :: string where "ArchAmpere = ''ampere''"
definition ArchTuring :: string where "ArchTuring = ''turing''"

definition arch_canonical :: "string list" where
  "arch_canonical = [ArchHopper, ArchBlackwell, ArchAdaLovelace, ArchAmpere, ArchTuring]"

definition arch_aliases :: "string \<Rightarrow> string option" where
  "arch_aliases s = (if s = ''ada'' then Some ArchAdaLovelace else None)"

definition hashrateBands :: "string \<Rightarrow> (u64 \<times> u64) option" where
  "hashrateBands a =
     (if a = ArchTuring then Some (10000, 5000000)
      else if a = ArchAmpere then Some (50000, 50000000)
      else if a = ArchAdaLovelace then Some (100000, 50000000)
      else if a = ArchHopper then Some (1000000, 200000000)
      else if a = ArchBlackwell then Some (5000000, 500000000)
      else None)"

definition gpuNamePatterns :: "string \<Rightarrow> string list" where
  "gpuNamePatterns a =
     (if a = ArchHopper then [''h100'', ''h200'', ''h800'']
      else if a = ArchBlackwell then [''b100'', ''b200'', ''gb200'', ''rtx 50'']
      else if a = ArchAdaLovelace then
        [''rtx 40'', ''l4'', ''l40'', ''rtx 6000 ada'', ''rtx 5000 ada'', ''rtx 4500 ada'', ''rtx 4000 ada'', ''rtx 2000 ada'']
      else if a = ArchAmpere then [''a100'', ''a40'', ''a30'', ''a16'', ''a10'', ''a2'', ''rtx 30'', ''rtx a'']
      else if a = ArchTuring then [''rtx 20'', ''gtx 16'', ''t4'', ''quadro rtx'', ''rtx 8000'', ''rtx 6000'']
      else [])"

datatype arch_error = ErrArchUnknown | ErrArchGPUNameMismatch | ErrHashrateOutOfBand | ErrArchCertSubjectMismatch

definition arch_init :: bool where
  "arch_init \<longleftrightarrow>
     list_all (\<lambda>a. gpuNamePatterns a \<noteq> [] \<and> (case hashrateBands a of None \<Rightarrow> False | Some (lo, hi) \<Rightarrow> lo \<le> hi \<and> lo \<noteq> 0)) arch_canonical \<and>
     (\<forall>t \<in> set_option (arch_aliases ''ada''). t \<in> set arch_canonical)"

definition Canonicalise :: "UnicodeFns \<Rightarrow> string \<Rightarrow> string option" where
  "Canonicalise uni s =
     (let s = ToLower uni (TrimSpace uni s)
      in if s = [] then None
         else if s \<in> set arch_canonical then Some s
         else arch_aliases s)"

definition ValidateOuterArch :: "UnicodeFns \<Rightarrow> string \<Rightarrow> arch_error + string" where
  "ValidateOuterArch uni gpuArch = (case Canonicalise uni gpuArch of None \<Rightarrow> Inl ErrArchUnknown | Some a \<Rightarrow> Inr a)"

definition normaliseGPUName :: "UnicodeFns \<Rightarrow> string \<Rightarrow> string" where
  "normaliseGPUName uni s =
     (let s = ToLower uni (TrimSpace uni s) in if s = [] then [] else join_spaces (Fields uni s))"

definition ValidateBundleArchConsistencyHMAC :: "UnicodeFns \<Rightarrow> string \<Rightarrow> string \<Rightarrow> arch_error option" where
  "ValidateBundleArchConsistencyHMAC uni arch gpuName =
     (if gpuNamePatterns arch = [] then Some ErrArchUnknown
      else let name = normaliseGPUName uni gpuName
           in if name = [] then Some ErrArchGPUNameMismatch
              else if list_ex (str_contains name) (gpuNamePatterns arch) then None
              else Some ErrArchGPUNameMismatch)"

definition HashrateBandFor :: "string \<Rightarrow> (u64 \<times> u64) option" where
  "HashrateBandFor arch = hashrateBands arch"

definition ValidateClaimedHashrate :: "string \<Rightarrow> u64 \<Rightarrow> arch_error option" where
  "ValidateClaimedHashrate arch claimedHPS =
     (case hashrateBands arch of None \<Rightarrow> Some ErrArchUnknown
      | Some (lo, hi) \<Rightarrow>
          if claimedHPS = 0 then None
          else if claimedHPS < lo \<or> claimedHPS > hi then Some ErrHashrateOutOfBand
          else None)"

definition ValidateBundleArchConsistencyCC :: "UnicodeFns \<Rightarrow> string \<Rightarrow> string \<Rightarrow> arch_error option" where
  "ValidateBundleArchConsistencyCC uni arch certSubject =
     (if gpuNamePatterns arch = [] then Some ErrArchUnknown
      else
        let subject = normaliseGPUName uni certSubject;
            matches = concat (map (\<lambda>a. map (\<lambda>p. (a, p)) (filter (str_contains subject) (gpuNamePatterns a))) arch_canonical);
            maxLen = foldl (\<lambda>m (a, p). if length p > m then length p else m) 0 matches
        in if subject = [] then None
           else if matches = [] then None
           else if (\<exists>m \<in> set matches. length (snd m) = maxLen \<and> fst m = arch) then None
           else Some ErrArchCertSubjectMismatch)"

section \<open>HMAC-SHA-256\<close>

unbundle bit_operations_syntax

definition hmac_key_block :: "bytes \<Rightarrow> bytes" where
  "hmac_key_block key =
     (let k = (if length key > 64 then sha256 key else key) in k @ replicate (64 - length k) 0)"

definition hmac_sha256 :: "bytes \<Rightarrow> bytes \<Rightarrow> bytes" where
  "hmac_sha256 key msg =
     (let k = hmac_key_block key
      in sha256 (map (\<lambda>b. b XOR 0x5C) k @ sha256 (map (\<lambda>b. b XOR 0x36) k @ msg)))"

section \<open>bundle.go\<close>

record Bundle =
  B_ChallengeBind :: string
  B_ChallengeSig :: string
  B_ChallengeSignerID :: string
  B_ComputeCap :: string
  B_CUDAVersion :: string
  B_DriverVer :: string
  B_GPUName :: string
  B_GPUUUID :: string
  B_HMAC :: string
  B_IssuedAt :: s64
  B_NodeID :: string
  B_Nonce :: string

type_synonym bundle_parser = "string \<Rightarrow> Bundle option"

definition CanonicalForMAC :: "Bundle \<Rightarrow> string" where
  "CanonicalForMAC b = html_escape (json_object
     [json_field ''challenge_bind'' (json_string (B_ChallengeBind b)),
      json_field ''challenge_sig'' (json_string (B_ChallengeSig b)),
      json_field ''challenge_signer_id'' (json_string (B_ChallengeSignerID b)),
      json_field ''compute_cap'' (json_string (B_ComputeCap b)),
      json_field ''cuda_version'' (json_string (B_CUDAVersion b)),
      json_field ''driver_ver'' (json_string (B_DriverVer b)),
      json_field ''gpu_name'' (json_string (B_GPUName b)),
      json_field ''gpu_uuid'' (json_string (B_GPUUUID b)),
      json_field ''issued_at'' (show_sint (B_IssuedAt b)),
      json_field ''node_id'' (json_string (B_NodeID b)),
      json_field ''nonce'' (json_string (B_Nonce b))])"

definition ComputeMAC :: "bytes \<Rightarrow> string \<Rightarrow> bytes" where
  "ComputeMAC key canonical = hmac_sha256 key (bytes_of_string canonical)"

definition ComputeChallengeBind :: "string \<Rightarrow> bytes \<Rightarrow> bytes \<Rightarrow> bytes" where
  "ComputeChallengeBind minerAddr batchRoot mixDigest = sha256 (bytes_of_string minerAddr @ batchRoot @ mixDigest)"

definition HexChallengeBind :: "string \<Rightarrow> bytes \<Rightarrow> bytes \<Rightarrow> string" where
  "HexChallengeBind minerAddr batchRoot mixDigest = hex_encode (ComputeChallengeBind minerAddr batchRoot mixDigest)"

definition Bundle_Sign :: "bytes \<Rightarrow> Bundle \<Rightarrow> Bundle" where
  "Bundle_Sign key b = b\<lparr>B_HMAC := hex_encode (ComputeMAC key (CanonicalForMAC (b\<lparr>B_HMAC := []\<rparr>)))\<rparr>"

section \<open>registry.go\<close>

record InMemoryRegistry =
  reg_entries :: "(string, Entry) fmap"
  reg_revoked :: "string fset"

datatype registry_error =
  RErrNodeID | RErrGPU | RErrKeyLength | RErrEnrolled | RErrPriorRevocation | RErrNodeNotRegistered | RErrNodeRevoked

definition NewInMemoryRegistry :: InMemoryRegistry where
  "NewInMemoryRegistry = \<lparr>reg_entries = fmempty, reg_revoked = {||}\<rparr>"

definition Registry_Enroll :: "string \<Rightarrow> string \<Rightarrow> bytes \<Rightarrow> InMemoryRegistry \<Rightarrow> registry_error + InMemoryRegistry" where
  "Registry_Enroll nodeID gpuUUID hmacKey r =
     (if nodeID = [] then Inl RErrNodeID
      else if gpuUUID = [] then Inl RErrGPU
      else if length hmacKey < 32 then Inl RErrKeyLength
      else if fmlookup (reg_entries r) nodeID \<noteq> None then Inl RErrEnrolled
      else if nodeID |\<in>| reg_revoked r then Inl RErrPriorRevocation
      else Inr (r\<lparr>reg_entries := fmupd nodeID \<lparr>E_NodeID = nodeID, E_GPUUUID = gpuUUID, E_HMACKey = hmacKey\<rparr> (reg_entries r)\<rparr>))"

definition Registry_Revoke :: "string \<Rightarrow> InMemoryRegistry \<Rightarrow> InMemoryRegistry" where
  "Registry_Revoke nodeID r = r\<lparr>reg_entries := fmdrop nodeID (reg_entries r), reg_revoked := finsert nodeID (reg_revoked r)\<rparr>"

definition MemRegistry_Lookup :: "string \<Rightarrow> InMemoryRegistry \<Rightarrow> registry_error + Entry" where
  "MemRegistry_Lookup nodeID r =
     (if nodeID |\<in>| reg_revoked r then Inl RErrNodeRevoked
      else case fmlookup (reg_entries r) nodeID of None \<Rightarrow> Inl RErrNodeNotRegistered | Some e \<Rightarrow> Inr e)"

record InMemoryNonceStore =
  ns_retention :: int
  ns_seen :: "(string \<times> bytes, go_time) fmap"

definition NewInMemoryNonceStore :: "int \<Rightarrow> InMemoryNonceStore" where
  "NewInMemoryNonceStore retention = \<lparr>ns_retention = retention, ns_seen = fmempty\<rparr>"

definition Nonce_Seen :: "string \<Rightarrow> bytes \<Rightarrow> InMemoryNonceStore \<Rightarrow> bool" where
  "Nonce_Seen nodeID nonce s \<longleftrightarrow> fmlookup (ns_seen s) (nodeID, nonce) \<noteq> None"

definition evictLocked :: "go_time \<Rightarrow> InMemoryNonceStore \<Rightarrow> InMemoryNonceStore" where
  "evictLocked now s =
     s\<lparr>ns_seen := fmfilter (\<lambda>k. \<not> (the (fmlookup (ns_seen s) k) < now - ns_retention s)) (ns_seen s)\<rparr>"

definition Nonce_Record :: "string \<Rightarrow> bytes \<Rightarrow> go_time \<Rightarrow> InMemoryNonceStore \<Rightarrow> InMemoryNonceStore" where
  "Nonce_Record nodeID nonce at s =
     (let s = evictLocked at s in s\<lparr>ns_seen := fmupd (nodeID, nonce) at (ns_seen s)\<rparr>)"

definition SubstringDenied :: "UnicodeFns \<Rightarrow> string list \<Rightarrow> string \<Rightarrow> bool" where
  "SubstringDenied uni subs gpuName =
     (let hay = ToLower uni gpuName in list_ex (\<lambda>s. s \<noteq> [] \<and> str_contains hay (ToLower uni s)) subs)"

section \<open>verifier.go\<close>

text \<open>A deny list is a predicate, \<open>None\<close> for nil; a challenge verifier decides a signature for a signer and the signed fields.\<close>

record HmacVerifier =
  hv_FreshnessWindow :: int
  hv_AllowedFutureSkew :: int
  hv_DenyList :: "(string \<Rightarrow> bool) option"
  hv_Challenge :: "(string \<Rightarrow> bytes \<Rightarrow> s64 \<Rightarrow> bytes \<Rightarrow> bool) option"

datatype attest_error =
  ErrAttestationRequired | ErrAttestationTypeUnknown | ErrAttestationStale | ErrAttestationNonceMismatch
| ErrAttestationSignatureInvalid | ErrAttestationBundleMalformed

definition AttestationTypeHMAC :: string where "AttestationTypeHMAC = ''nvidia-hmac-v1''"
definition AttestationTypeCC :: string where "AttestationTypeCC = ''nvidia-cc-v1''"
definition FreshnessWindow :: int where "FreshnessWindow = 60 * 1000000000"

definition duration :: "int \<Rightarrow> int" where
  "duration d = max (- (2 ^ 63)) (min (2 ^ 63 - 1) d)"

definition unix_time :: "s64 \<Rightarrow> go_time" where
  "unix_time s = sint s * 1000000000"

text \<open>The checks up to the freshness window do not touch the nonce store.\<close>

definition attest_checks ::
    "UnicodeFns \<Rightarrow> bundle_parser \<Rightarrow> (string \<Rightarrow> Entry option) \<Rightarrow> HmacVerifier \<Rightarrow> Proof \<Rightarrow> go_time \<Rightarrow> attest_error + Bundle" where
  "attest_checks uni parse lookup v p now =
     (if AType (PAttestation p) \<noteq> AttestationTypeHMAC then Inl ErrAttestationTypeUnknown
      else case parse (BundleBase64 (PAttestation p)) of None \<Rightarrow> Inl ErrAttestationBundleMalformed | Some bundle \<Rightarrow>
      case hex_decode (B_ChallengeBind bundle) of None \<Rightarrow> Inl ErrAttestationBundleMalformed | Some gotBind \<Rightarrow>
      if length gotBind \<noteq> 32 then Inl ErrAttestationBundleMalformed
      else if gotBind \<noteq> ComputeChallengeBind (MinerAddr p) (BatchRoot p) (MixDigest p) then Inl ErrAttestationSignatureInvalid
      else case lookup (B_NodeID bundle) of None \<Rightarrow> Inl ErrAttestationSignatureInvalid | Some entry \<Rightarrow>
      case hex_decode (B_HMAC bundle) of None \<Rightarrow> Inl ErrAttestationBundleMalformed | Some gotMAC \<Rightarrow>
      if length gotMAC \<noteq> 32 then Inl ErrAttestationBundleMalformed
      else if gotMAC \<noteq> ComputeMAC (E_HMACKey entry) (CanonicalForMAC bundle) then Inl ErrAttestationSignatureInvalid
      else if \<not> EqualFold uni (B_GPUUUID bundle) (E_GPUUUID entry) then Inl ErrAttestationSignatureInvalid
      else case hex_decode (B_Nonce bundle) of None \<Rightarrow> Inl ErrAttestationBundleMalformed | Some bundleNonce \<Rightarrow>
      if length bundleNonce \<noteq> 32 then Inl ErrAttestationBundleMalformed
      else if bundleNonce \<noteq> ANonce (PAttestation p) then Inl ErrAttestationNonceMismatch
      else if B_IssuedAt bundle \<noteq> AIssuedAt (PAttestation p) then Inl ErrAttestationNonceMismatch
      else case (case hv_Challenge v of None \<Rightarrow> None
                 | Some verify \<Rightarrow>
                     if B_ChallengeSignerID bundle = [] then Some ErrAttestationBundleMalformed
                     else case hex_decode (B_ChallengeSig bundle) of
                       None \<Rightarrow> Some ErrAttestationBundleMalformed
                     | Some sig \<Rightarrow>
                         if sig = [] then Some ErrAttestationBundleMalformed
                         else if verify (B_ChallengeSignerID bundle) bundleNonce (B_IssuedAt bundle) sig then None
                         else Some ErrAttestationSignatureInvalid) of
        Some e \<Rightarrow> Inl e
      | None \<Rightarrow>
          let window = (if hv_FreshnessWindow v = 0 then FreshnessWindow else hv_FreshnessWindow v);
              age = duration (now - unix_time (B_IssuedAt bundle))
          in if age > window then Inl ErrAttestationStale
             else if age < - hv_AllowedFutureSkew v then Inl ErrAttestationStale
             else Inr bundle)"

definition arch_checks :: "UnicodeFns \<Rightarrow> HmacVerifier \<Rightarrow> Proof \<Rightarrow> Bundle \<Rightarrow> attest_error option" where
  "arch_checks uni v p bundle =
     (if (case hv_DenyList v of None \<Rightarrow> False | Some denied \<Rightarrow> denied (B_GPUName bundle)) then Some ErrAttestationSignatureInvalid
      else case Canonicalise uni (GPUArch (PAttestation p)) of
        None \<Rightarrow> Some ErrAttestationSignatureInvalid
      | Some arch \<Rightarrow>
          (case ValidateBundleArchConsistencyHMAC uni arch (B_GPUName bundle) of
             Some _ \<Rightarrow> Some ErrAttestationSignatureInvalid | None \<Rightarrow> None))"

text \<open>The nonce is recorded before the deny list and the architecture are looked at; the nonce store is \<open>None\<close> for nil.\<close>

definition VerifyAttestation ::
    "UnicodeFns \<Rightarrow> bundle_parser \<Rightarrow> (string \<Rightarrow> Entry option) \<Rightarrow> HmacVerifier \<Rightarrow> Proof \<Rightarrow> go_time \<Rightarrow> InMemoryNonceStore option \<Rightarrow>
       attest_error option \<times> InMemoryNonceStore option" where
  "VerifyAttestation uni parse lookup v p now ns =
     (case attest_checks uni parse lookup v p now of
        Inl e \<Rightarrow> (Some e, ns)
      | Inr bundle \<Rightarrow>
          (case ns of
             None \<Rightarrow> (arch_checks uni v p bundle, None)
           | Some s \<Rightarrow>
               if Nonce_Seen (B_NodeID bundle) (ANonce (PAttestation p)) s then (Some ErrAttestationNonceMismatch, ns)
               else (arch_checks uni v p bundle, Some (Nonce_Record (B_NodeID bundle) (ANonce (PAttestation p)) now s))))"

section \<open>Lemmas\<close>

lemma arch_initializes: "arch_init"
  by (simp add: arch_init_def arch_canonical_def gpuNamePatterns_def hashrateBands_def arch_aliases_def ArchHopper_def
      ArchBlackwell_def ArchAdaLovelace_def ArchAmpere_def ArchTuring_def)

lemma Bundle_Sign_mac: "hex_decode (B_HMAC (Bundle_Sign key b)) = Some (ComputeMAC key (CanonicalForMAC (Bundle_Sign key b)))"
  by (simp add: Bundle_Sign_def CanonicalForMAC_def)

lemma length_ComputeMAC [simp]: "length (ComputeMAC key c) = 32"
  by (simp add: ComputeMAC_def hmac_sha256_def Let_def)

text \<open>An accepted attestation is bound to miner, batch root and mix digest, and carries a MAC under the registered key.\<close>

lemma attest_checks_ok:
  assumes "attest_checks uni parse lookup v p now = Inr b"
  shows "\<exists>entry. lookup (B_NodeID b) = Some entry \<and> parse (BundleBase64 (PAttestation p)) = Some b \<and>
     hex_decode (B_HMAC b) = Some (ComputeMAC (E_HMACKey entry) (CanonicalForMAC b)) \<and>
     hex_decode (B_ChallengeBind b) = Some (ComputeChallengeBind (MinerAddr p) (BatchRoot p) (MixDigest p)) \<and>
     hex_decode (B_Nonce b) = Some (ANonce (PAttestation p)) \<and> B_IssuedAt b = AIssuedAt (PAttestation p)"
  using assms
  by (auto simp: attest_checks_def Let_def split: if_splits option.splits)

end
