(* ===== verification/BftExecutor.thy ===== *)
theory BftExecutor
  imports Agreement Evidence HmacAttest
begin

text \<open>
  \<open>pkg/chain/bft_executor.go\<close>, \<open>bft_pending.go\<close>, \<open>bft_wire.go\<close>, \<open>bft_presynthetic.go\<close>: the voting engine driven by gossip. The executor owns
  the engine, a cache of proposed blocks with the peer each came from, the set of heights whose commit was announced, and the
  evidence manager for equivocating proposers, which shares the validator set of the engine. The commit callback is represented by the
  log of its invocations and the publisher by the log of published messages; both may be unset. JSON codecs and \<open>strconv.Quote\<close> are
  arguments (\<open>WireEnv\<close>), and so are map orders and clocks (\<open>CallEnv\<close>).
\<close>

section \<open>Messages\<close>

definition BFTWirePropose :: string where "BFTWirePropose = ''bft_propose''"
definition BFTWirePrevote :: string where "BFTWirePrevote = ''bft_prevote''"
definition BFTWirePrecommit :: string where "BFTWirePrecommit = ''bft_precommit''"

record BFTWireProposeMsg =
  WP_Height :: u64
  WP_Round :: u32
  WP_Proposer :: string
  WP_BlockHash :: string
  WP_Block :: "Block option"

record BFTWireVoteMsg =
  WV_Height :: u64
  WV_Round :: u32
  WV_Validator :: string
  WV_BlockHash :: string

datatype wire_msg = MsgPropose BFTWireProposeMsg | MsgPrevote BFTWireVoteMsg | MsgPrecommit BFTWireVoteMsg

record WireEnv =
  we_Quote :: "string \<Rightarrow> string"
  we_Marshal :: "wire_msg \<Rightarrow> bytes option"
  we_Envelope :: "bytes \<Rightarrow> (string \<times> bytes) option"
  we_Propose :: "bytes \<Rightarrow> BFTWireProposeMsg option"
  we_Prevote :: "bytes \<Rightarrow> BFTWireVoteMsg option"
  we_Precommit :: "bytes \<Rightarrow> BFTWireVoteMsg option"

datatype wire_error =
  WErrEnvelope | WErrEmpty | WErrPayload | WErrBlockHeight u64 u64 | WErrBlockRoot | WErrBlockHash | WErrKind string
| WErrConsensus consensus_error | WErrPublish | WErrMarshal | WErrNotCommitted u64

definition UnmarshalBFTWire :: "WireEnv \<Rightarrow> bytes \<Rightarrow> wire_error + string \<times> bytes" where
  "UnmarshalBFTWire env b =
     (case we_Envelope env b of None \<Rightarrow> Inl WErrEnvelope
      | Some (kind, payload) \<Rightarrow> if kind = [] \<or> length payload = 0 then Inl WErrEmpty else Inr (kind, payload))"

text \<open>The text of an error, with which the executor decides whether it is benign; \<open>prevote\<close> is the call it came from.\<close>

fun status_text :: "ConsensusStatus \<Rightarrow> string" where
  "status_text StatusProposed = ''proposed''"
| "status_text StatusPreVoted = ''prevoted''"
| "status_text StatusCommitted = ''committed''"
| "status_text StatusFailed = ''failed''"

abbreviation show_w :: "'a::len word \<Rightarrow> string" where
  "show_w x \<equiv> show_nat (unat x)"

fun error_text :: "(string \<Rightarrow> string) \<Rightarrow> bool \<Rightarrow> consensus_error \<Rightarrow> string" where
  "error_text q pv (ErrHeightCommitted h) = ''height '' @ show_w h @ '' already committed''"
| "error_text q pv (ErrRoundBehind r a h) = ''round '' @ show_w r @ '' is behind active round '' @ show_w a @ '' at height '' @ show_w h"
| "error_text q pv (ProposerEquivocationError h r p x y) =
     ''chain: BFT proposer equivocation (conflicting block_hash at same height and round) at height '' @ show_w h @ '' round '' @ show_w r @
     '' (existing '' @ q x @ '' new '' @ q y @ '')''"
| "error_text q pv (ErrDuplicatePropose h r) = ''duplicate propose at height '' @ show_w h @ '' round '' @ show_w r"
| "error_text q pv (ErrRoundStillActive a h r) =
     ''round '' @ show_w a @ '' still active at height '' @ show_w h @ ''; timeout or fail before proposing round '' @ show_w r"
| "error_text q pv ErrNoActive = ''no active validators''"
| "error_text q pv (ErrProposerMismatch r e g) = ''proposer mismatch for round '' @ show_w r @ '': expected '' @ e @ '', got '' @ g"
| "error_text q pv (ErrProposerNotActive p) = ''proposer '' @ p @ '' is not an active validator''"
| "error_text q pv (ErrNoActiveRound h) = ''no active round for height '' @ show_w h"
| "error_text q pv (ErrRoundStatus h s) =
     (if pv then ''round at height '' @ show_w h @ '' is in status '' @ status_text s @ '', cannot prevote''
      else ''round at height '' @ show_w h @ '' needs prevote quorum before commits (status: '' @ status_text s @ '')'')"
| "error_text q pv (ErrVoterNotActive v) = ''validator '' @ v @ '' is not active''"
| "error_text q pv (ErrAlreadyVoted v h) =
     ''validator '' @ v @ (if pv then '' already pre-voted at height '' else '' already pre-committed at height '') @ show_w h"
| "error_text q pv (ErrLatePrecommit h b d) = ''late precommit at height '' @ show_w h @ '' for '' @ q b @ '', committed '' @ q d"
| "error_text q pv (ErrLockMismatch b l) = ''precommit for '' @ q b @ '' does not match locked value '' @ q l"
| "error_text q pv (ErrNoCommittedRound h) = ''no committed round at height '' @ show_w h"
| "error_text q pv (ErrNoRound h) = ''no round for height '' @ show_w h"
| "error_text q pv (ErrNoPrevoteLock h) = ''no prevote lock at height '' @ show_w h"

definition benign_phrases :: "string list" where
  "benign_phrases =
     [''already committed'', ''already pre-voted'', ''already pre-committed'', ''no active round'', ''cannot prevote'',
      ''needs prevote quorum'', ''does not match locked value'', ''still active at height'', ''is behind active round'',
      ''proposer mismatch'', ''not an active validator'', ''is not active'']"

definition isBenignBFTErr :: "(string \<Rightarrow> string) \<Rightarrow> bool \<Rightarrow> consensus_error \<Rightarrow> bool" where
  "isBenignBFTErr q pv e = list_ex (\<lambda>s. str_contains (error_text q pv e) s) benign_phrases"

section \<open>Proposed blocks\<close>

type_synonym PendingProposalStore = "(u64, (string, Block) fmap) fmap"

definition NewPendingProposalStore :: PendingProposalStore where
  "NewPendingProposalStore = fmempty"

definition Pending_Put :: "u64 \<Rightarrow> string \<Rightarrow> Block \<Rightarrow> PendingProposalStore \<Rightarrow> PendingProposalStore" where
  "Pending_Put height voteValue b s =
     (if voteValue = [] then s
      else fmupd height (fmupd voteValue b (case fmlookup s height of None \<Rightarrow> fmempty | Some inner \<Rightarrow> inner)) s)"

definition Pending_Get :: "u64 \<Rightarrow> string \<Rightarrow> PendingProposalStore \<Rightarrow> Block option" where
  "Pending_Get height voteValue s = (case fmlookup s height of None \<Rightarrow> None | Some inner \<Rightarrow> fmlookup inner voteValue)"

definition RemoveHeight :: "u64 \<Rightarrow> PendingProposalStore \<Rightarrow> PendingProposalStore" where
  "RemoveHeight height s = fmdrop height s"

definition PruneHeightsBelow :: "u64 \<Rightarrow> PendingProposalStore \<Rightarrow> PendingProposalStore" where
  "PruneHeightsBelow keepMinHeight s = (if keepMinHeight = 0 then s else fmfilter (\<lambda>h. \<not> h < keepMinHeight) s)"

section \<open>The executor\<close>

record BFTExecutor =
  ex_bc :: BFTConsensus
  ex_publish :: bool
  ex_outbox :: "bytes list"
  ex_onCommit :: bool
  ex_calls :: "(u64 \<times> u32 \<times> string) list"
  commitNotified :: "u64 list"
  ex_pending :: PendingProposalStore
  ex_evidence :: "EvidenceManager option"
  lastInboundBFTGossipPeer :: string
  pendingPeers :: "(u64, (string, string) fmap) fmap"
  appendOK :: u64
  appendSkip :: u64
  appendConflict :: u64
  ex_lastAppend :: "(go_time \<times> string option) option"

definition NewBFTExecutor :: "BFTConsensus \<Rightarrow> BFTExecutor" where
  "NewBFTExecutor bc =
     \<lparr>ex_bc = bc, ex_publish = False, ex_outbox = [], ex_onCommit = False, ex_calls = [], commitNotified = [],
      ex_pending = NewPendingProposalStore, ex_evidence = None, lastInboundBFTGossipPeer = [], pendingPeers = fmempty,
      appendOK = 0, appendSkip = 0, appendConflict = 0, ex_lastAppend = None\<rparr>"

definition SetLastInboundBFTGossipPeer :: "string \<Rightarrow> BFTExecutor \<Rightarrow> BFTExecutor" where
  "SetLastInboundBFTGossipPeer peerID e = e\<lparr>lastInboundBFTGossipPeer := peerID\<rparr>"

definition ClearLastInboundBFTGossipPeer :: "BFTExecutor \<Rightarrow> BFTExecutor" where
  "ClearLastInboundBFTGossipPeer e = e\<lparr>lastInboundBFTGossipPeer := []\<rparr>"

definition recordPendingProposeSource :: "u64 \<Rightarrow> string \<Rightarrow> string \<Rightarrow> BFTExecutor \<Rightarrow> BFTExecutor" where
  "recordPendingProposeSource height voteValue peerID e =
     (if peerID = [] \<or> voteValue = [] then e
      else let inner = (case fmlookup (pendingPeers e) height of None \<Rightarrow> fmempty | Some m \<Rightarrow> m)
           in e\<lparr>pendingPeers := fmupd height (fmupd voteValue peerID inner) (pendingPeers e)\<rparr>)"

definition PendingProposeSource :: "u64 \<Rightarrow> string \<Rightarrow> BFTExecutor \<Rightarrow> string \<times> bool" where
  "PendingProposeSource height voteValue e =
     (if voteValue = [] then ([], False)
      else case fmlookup (pendingPeers e) height of None \<Rightarrow> ([], False)
        | Some inner \<Rightarrow> (case fmlookup inner voteValue of None \<Rightarrow> ([], False) | Some p \<Rightarrow> (p, p \<noteq> [])))"

definition ClearPendingProposeSource :: "u64 \<Rightarrow> string \<Rightarrow> BFTExecutor \<Rightarrow> BFTExecutor" where
  "ClearPendingProposeSource height voteValue e =
     (if voteValue = [] then e
      else case fmlookup (pendingPeers e) height of None \<Rightarrow> e
        | Some inner \<Rightarrow>
            let inner = fmdrop voteValue inner
            in e\<lparr>pendingPeers := (if map_len inner = 0 then fmdrop height (pendingPeers e) else fmupd height inner (pendingPeers e))\<rparr>)"

definition SetEvidenceManager :: "EvidenceManager option \<Rightarrow> BFTExecutor \<Rightarrow> BFTExecutor" where
  "SetEvidenceManager em e = e\<lparr>ex_evidence := em\<rparr>"

definition SetPublisher :: "bool \<Rightarrow> BFTExecutor \<Rightarrow> BFTExecutor" where
  "SetPublisher present e = e\<lparr>ex_publish := present\<rparr>"

definition SetOnCommitted :: "bool \<Rightarrow> BFTExecutor \<Rightarrow> BFTExecutor" where
  "SetOnCommitted present e = e\<lparr>ex_onCommit := present\<rparr>"

definition PendingBlock :: "u64 \<Rightarrow> string \<Rightarrow> BFTExecutor \<Rightarrow> Block option" where
  "PendingBlock height voteValue e = Pending_Get height voteValue (ex_pending e)"

definition PrunePendingHeight :: "u64 \<Rightarrow> BFTExecutor \<Rightarrow> BFTExecutor" where
  "PrunePendingHeight height e =
     e\<lparr>ex_pending := RemoveHeight height (ex_pending e), pendingPeers := fmdrop height (pendingPeers e)\<rparr>"

definition PrunePendingBelow :: "u64 \<Rightarrow> BFTExecutor \<Rightarrow> BFTExecutor" where
  "PrunePendingBelow keepMinHeight e =
     e\<lparr>ex_pending := PruneHeightsBelow keepMinHeight (ex_pending e),
       pendingPeers := (if keepMinHeight = 0 then pendingPeers e else fmfilter (\<lambda>h. \<not> h < keepMinHeight) (pendingPeers e))\<rparr>"

text \<open>\<open>None\<close> is success; the flag of a failure tells whether it is \<open>ErrExternalAppendConflict\<close>.\<close>

definition NoteFollowerAppend :: "go_time \<Rightarrow> (bool \<times> string) option \<Rightarrow> BFTExecutor \<Rightarrow> BFTExecutor" where
  "NoteFollowerAppend now err e =
     (let e = e\<lparr>ex_lastAppend := Some (now, map_option snd err)\<rparr>
      in case err of None \<Rightarrow> e\<lparr>appendOK := appendOK e + 1\<rparr>
         | Some (conflict, _) \<Rightarrow>
             if conflict then e\<lparr>appendConflict := appendConflict e + 1\<rparr> else e\<lparr>appendSkip := appendSkip e + 1\<rparr>)"

definition FollowerAppendStats :: "BFTExecutor \<Rightarrow> u64 \<times> u64 \<times> u64" where
  "FollowerAppendStats e = (appendOK e, appendSkip e, appendConflict e)"

text \<open>Publishing: the error of the publisher itself is ignored by every caller here and not represented.\<close>

definition emit :: "bytes \<Rightarrow> BFTExecutor \<Rightarrow> BFTExecutor" where
  "emit b e = (if \<not> ex_publish e \<or> length b = 0 then e else e\<lparr>ex_outbox := ex_outbox e @ [b]\<rparr>)"

definition broadcast :: "WireEnv \<Rightarrow> wire_msg \<Rightarrow> BFTExecutor \<Rightarrow> wire_error option \<times> BFTExecutor" where
  "broadcast env m e = (case we_Marshal env m of None \<Rightarrow> (Some WErrMarshal, e) | Some b \<Rightarrow> (None, emit b e))"

definition BroadcastPropose :: "WireEnv \<Rightarrow> u64 \<Rightarrow> u32 \<Rightarrow> string \<Rightarrow> string \<Rightarrow> Block option \<Rightarrow> BFTExecutor \<Rightarrow> wire_error option \<times> BFTExecutor" where
  "BroadcastPropose env height rnd proposer blockHash body e =
     broadcast env (MsgPropose \<lparr>WP_Height = height, WP_Round = rnd, WP_Proposer = proposer, WP_BlockHash = blockHash, WP_Block = body\<rparr>) e"

definition BroadcastPrevote :: "WireEnv \<Rightarrow> u64 \<Rightarrow> u32 \<Rightarrow> string \<Rightarrow> string \<Rightarrow> BFTExecutor \<Rightarrow> wire_error option \<times> BFTExecutor" where
  "BroadcastPrevote env height rnd validator blockHash e =
     broadcast env (MsgPrevote \<lparr>WV_Height = height, WV_Round = rnd, WV_Validator = validator, WV_BlockHash = blockHash\<rparr>) e"

definition BroadcastPrecommit :: "WireEnv \<Rightarrow> u64 \<Rightarrow> u32 \<Rightarrow> string \<Rightarrow> string \<Rightarrow> BFTExecutor \<Rightarrow> wire_error option \<times> BFTExecutor" where
  "BroadcastPrecommit env height rnd validator blockHash e =
     broadcast env (MsgPrecommit \<lparr>WV_Height = height, WV_Round = rnd, WV_Validator = validator, WV_BlockHash = blockHash\<rparr>) e"

definition maybeNotifyCommit :: "u64 \<Rightarrow> u32 \<Rightarrow> string \<Rightarrow> BFTExecutor \<Rightarrow> BFTExecutor" where
  "maybeNotifyCommit height rnd blockHash e =
     (if height \<in> set (commitNotified e) then e
      else let e = e\<lparr>commitNotified := height # commitNotified e\<rparr>
           in if ex_onCommit e then e\<lparr>ex_calls := ex_calls e @ [(height, rnd, blockHash)]\<rparr> else e)"

definition checkCommitted :: "u64 \<Rightarrow> BFTExecutor \<Rightarrow> BFTExecutor" where
  "checkCommitted height e =
     (case GetCommitted height (ex_bc e) of None \<Rightarrow> e
      | Some cr \<Rightarrow> maybeNotifyCommit (CRHeight cr) (CRRound cr) (CRBlockHash cr) e)"

definition NotifyFromConsensus :: "u64 \<Rightarrow> BFTExecutor \<Rightarrow> BFTExecutor" where
  "NotifyFromConsensus height e = checkCommitted height e"

text \<open>The orders and clocks of a call; \<open>ce_prevotes a\<close> and \<open>ce_precommits a\<close> are the clocks of the votes of \<open>a\<close> in a local round.\<close>

record CallEnv =
  ce_vo :: "string list"
  ce_ho :: "string list"
  ce_clk :: clock
  ce_order :: "string list"
  ce_evclk :: clock
  ce_prevotes :: "string \<Rightarrow> clock"
  ce_precommits :: "string \<Rightarrow> clock"

definition maybeRecordProposerEquivocation :: "CallEnv \<Rightarrow> consensus_error \<Rightarrow> BFTExecutor \<Rightarrow> BFTExecutor" where
  "maybeRecordProposerEquivocation c err e =
     (case err of
        ProposerEquivocationError h r p x y \<Rightarrow>
          (case ex_evidence e of None \<Rightarrow> e
           | Some em \<Rightarrow>
               let ev = \<lparr>CE_Type = EvidenceEquivocation, CE_Validator = p, CE_Height = h, CE_Round = r, CE_BlockHashes = [x, y],
                         CE_Details = ''conflicting BFT propose at same height/round'', CE_Timestamp = ce_evclk c 0\<rparr>
               in case SubmitEvidenceBestEffort (ce_order c) (\<lambda>k. ce_evclk c (Suc k)) ev (bc_validators (ex_bc e), em) of
                    (vs, em) \<Rightarrow> e\<lparr>ex_bc := (ex_bc e)\<lparr>bc_validators := vs\<rparr>, ex_evidence := Some em\<rparr>)
      | _ \<Rightarrow> e)"

definition validateInboundProposeBlock :: "BFTWireProposeMsg \<Rightarrow> wire_error option" where
  "validateInboundProposeBlock m =
     (case WP_Block m of None \<Rightarrow> None
      | Some b \<Rightarrow>
          if Height b \<noteq> WP_Height m then Some (WErrBlockHeight (Height b) (WP_Height m))
          else if BStateRoot b \<noteq> WP_BlockHash m then Some WErrBlockRoot
          else if Hash b \<noteq> computeBlockHash b then Some WErrBlockHash
          else None)"

text \<open>The cases of \<open>ApplyInbound\<close>, one per kind of message.\<close>

definition inbound_propose :: "WireEnv \<Rightarrow> CallEnv \<Rightarrow> BFTWireProposeMsg \<Rightarrow> BFTExecutor \<Rightarrow> wire_error option \<times> BFTExecutor" where
  "inbound_propose env c m e =
     (case validateInboundProposeBlock m of Some er \<Rightarrow> (Some er, e)
      | None \<Rightarrow>
        (case Propose (ce_vo c) (ce_clk c) (WP_Height m) (WP_Round m) (WP_Proposer m) (WP_BlockHash m) (ex_bc e) of
           Inl err \<Rightarrow>
             let e = maybeRecordProposerEquivocation c err e
             in (if isBenignBFTErr (we_Quote env) True err then None else Some (WErrConsensus err), e)
         | Inr (_, bc) \<Rightarrow>
             let e = e\<lparr>ex_bc := bc\<rparr>
             in (None, case WP_Block m of None \<Rightarrow> e
                   | Some b \<Rightarrow>
                       let e = e\<lparr>ex_pending := Pending_Put (WP_Height m) (WP_BlockHash m) b (ex_pending e)\<rparr>
                       in if lastInboundBFTGossipPeer e \<noteq> []
                          then recordPendingProposeSource (WP_Height m) (WP_BlockHash m) (lastInboundBFTGossipPeer e) e else e)))"

definition inbound_prevote :: "WireEnv \<Rightarrow> CallEnv \<Rightarrow> BFTWireVoteMsg \<Rightarrow> BFTExecutor \<Rightarrow> wire_error option \<times> BFTExecutor" where
  "inbound_prevote env c m e =
     (case PreVote (ce_vo c) (ce_ho c) (ce_clk c) (WV_Height m) (WV_Validator m) (WV_BlockHash m) (ex_bc e) of
        Inl err \<Rightarrow> (if isBenignBFTErr (we_Quote env) True err then None else Some (WErrConsensus err), e)
      | Inr bc \<Rightarrow> (None, e\<lparr>ex_bc := bc\<rparr>))"

definition inbound_precommit :: "WireEnv \<Rightarrow> CallEnv \<Rightarrow> BFTWireVoteMsg \<Rightarrow> BFTExecutor \<Rightarrow> wire_error option \<times> BFTExecutor" where
  "inbound_precommit env c m e =
     (case PreCommit (ce_vo c) (ce_clk c) (WV_Height m) (WV_Validator m) (WV_BlockHash m) (ex_bc e) of
        Inl err \<Rightarrow> (if isBenignBFTErr (we_Quote env) False err then None else Some (WErrConsensus err), e)
      | Inr bc \<Rightarrow> (None, checkCommitted (WV_Height m) (e\<lparr>ex_bc := bc\<rparr>)))"

definition ApplyInbound :: "WireEnv \<Rightarrow> CallEnv \<Rightarrow> bytes \<Rightarrow> BFTExecutor \<Rightarrow> wire_error option \<times> BFTExecutor" where
  "ApplyInbound env c payload e =
     (case UnmarshalBFTWire env payload of Inl er \<Rightarrow> (Some er, e)
      | Inr (kind, raw) \<Rightarrow>
          if kind = BFTWirePropose then
            (case we_Propose env raw of None \<Rightarrow> (Some WErrPayload, e) | Some m \<Rightarrow> inbound_propose env c m e)
          else if kind = BFTWirePrevote then
            (case we_Prevote env raw of None \<Rightarrow> (Some WErrPayload, e) | Some m \<Rightarrow> inbound_prevote env c m e)
          else if kind = BFTWirePrecommit then
            (case we_Precommit env raw of None \<Rightarrow> (Some WErrPayload, e) | Some m \<Rightarrow> inbound_precommit env c m e)
          else (Some (WErrKind kind), e))"

section \<open>A round driven locally\<close>

text \<open>The voters of a pass over the active validators.\<close>

definition local_voters :: "string list \<Rightarrow> go_time \<Rightarrow> BFTConsensus \<Rightarrow> string list" where
  "local_voters vo now bc =
     map VAddress (filter (\<lambda>v. VStatus v = ValidatorActive) (ActiveValidators vo now (bc_validators bc)))"

definition fail_quietly :: "u64 \<Rightarrow> BFTExecutor \<Rightarrow> BFTExecutor" where
  "fail_quietly height e = (case FailRound height (ex_bc e) of Inl _ \<Rightarrow> e | Inr bc \<Rightarrow> e\<lparr>ex_bc := bc\<rparr>)"

fun prevote_pass :: "WireEnv \<Rightarrow> CallEnv \<Rightarrow> u64 \<Rightarrow> u32 \<Rightarrow> string \<Rightarrow> string list \<Rightarrow> BFTExecutor \<Rightarrow> wire_error option \<times> BFTExecutor" where
  "prevote_pass env c height rnd sroot [] e = (None, e)"
| "prevote_pass env c height rnd sroot (a # as) e =
     (case PreVote (ce_vo c) (ce_ho c) (ce_prevotes c a) height a sroot (ex_bc e) of
        Inl err \<Rightarrow> (Some (WErrConsensus err), fail_quietly height e)
      | Inr bc \<Rightarrow> prevote_pass env c height rnd sroot as (snd (BroadcastPrevote env height rnd a sroot (e\<lparr>ex_bc := bc\<rparr>))))"

fun precommit_pass :: "WireEnv \<Rightarrow> CallEnv \<Rightarrow> u64 \<Rightarrow> u32 \<Rightarrow> string \<Rightarrow> string list \<Rightarrow> BFTExecutor \<Rightarrow> wire_error option \<times> BFTExecutor" where
  "precommit_pass env c height rnd sroot [] e = (None, e)"
| "precommit_pass env c height rnd sroot (a # as) e =
     (case PreCommit (ce_vo c) (ce_precommits c a) height a sroot (ex_bc e) of
        Inl err \<Rightarrow> (Some (WErrConsensus err), fail_quietly height e)
      | Inr bc \<Rightarrow> precommit_pass env c height rnd sroot as (snd (BroadcastPrecommit env height rnd a sroot (e\<lparr>ex_bc := bc\<rparr>))))"

definition RunSyntheticBFTRoundWithExecutor :: "WireEnv \<Rightarrow> CallEnv \<Rightarrow> Block \<Rightarrow> BFTExecutor \<Rightarrow> wire_error option \<times> BFTExecutor" where
  "RunSyntheticBFTRoundWithExecutor env c tentative e =
     (let height = Height tentative; sroot = BStateRoot tentative
      in if IsCommitted height (ex_bc e) then (None, e)
         else let rnd = NextRoundAfterTimeout height (ex_bc e)
         in case ProposerForRound (ce_vo c) (ce_clk c) rnd (ex_bc e) of Inl err \<Rightarrow> (Some (WErrConsensus err), e)
         | Inr prop \<Rightarrow>
         case Propose (ce_vo c) (\<lambda>k. ce_clk c (Suc k)) height rnd prop sroot (ex_bc e) of Inl err \<Rightarrow> (Some (WErrConsensus err), e)
         | Inr (_, bc) \<Rightarrow>
         case prevote_pass env c height rnd sroot (local_voters (ce_vo c) (ce_clk c 3) bc)
                (snd (BroadcastPropose env height rnd prop sroot (Some tentative) (e\<lparr>ex_bc := bc\<rparr>))) of
           (Some er, e) \<Rightarrow> (Some er, e)
         | (None, e) \<Rightarrow>
         case BuildPrevoteLockProof height (ex_bc e) of Inl err \<Rightarrow> (Some (WErrConsensus err), fail_quietly height e)
         | Inr _ \<Rightarrow>
         case precommit_pass env c height rnd sroot (local_voters (ce_vo c) (ce_clk c 4) (ex_bc e)) e of
           (Some er, e) \<Rightarrow> (Some er, e)
         | (None, e) \<Rightarrow>
             if \<not> IsCommitted height (ex_bc e) then (Some (WErrNotCommitted height), fail_quietly height e)
             else (None, NotifyFromConsensus height e))"

end
