(* ===== verification/BftNetwork.thy ===== *)
theory BftNetwork
  imports BftExecutor
begin

text \<open>
  The voting engine under gossip. Whatever messages arrive, in any order and interleaved with every other use of the engine, the
  executor changes the engine only by steps of the engine, so the agreement results carry over; the commit callback runs at most once
  per height, with the committed value; and every cached block is the one its vote value names. A round driven locally, or by gossiped
  votes of two thirds of the stake, commits.
\<close>

section \<open>Gossip as engine steps\<close>

definition inbound_orders :: "WireEnv \<Rightarrow> CallEnv \<Rightarrow> bytes \<Rightarrow> BFTExecutor \<Rightarrow> bool" where
  "inbound_orders env c payload e \<longleftrightarrow>
     map_order (validators (bc_validators (ex_bc e))) (ce_vo c) \<and>
     (\<forall>k raw m. UnmarshalBFTWire env payload = Inr (k, raw) \<longrightarrow> we_Prevote env raw = Some m \<longrightarrow>
        hash_order (WV_Height m) (WV_BlockHash m) (ex_bc e) (ce_ho c))"

definition round_orders :: "CallEnv \<Rightarrow> Block \<Rightarrow> BFTExecutor \<Rightarrow> bool" where
  "round_orders c b e \<longleftrightarrow>
     map_order (validators (bc_validators (ex_bc e))) (ce_vo c) \<and> hash_order (Height b) (BStateRoot b) (ex_bc e) (ce_ho c)"

lemma process_vs_steps: "vs_step\<^sup>*\<^sup>* (fst st) (fst (snd (Process order clk ev st)))"
proof -
  obtain vs em where st: "st = (vs, em)" by (cases st)
  have "vs_step\<^sup>*\<^sup>* vs (fst (snd (apply_evidence order clk ev rec vs em)))" for ev rec em
    by (auto simp: apply_evidence_def Let_def split: option.splits sum.splits intro: vs_step_by.slash)
  then show ?thesis by (simp add: st Process_def Let_def split: option.splits)
qed

lemma vs_steps_bft: "vs_step\<^sup>*\<^sup>* (bc_validators bc) vs \<Longrightarrow> bft_step\<^sup>*\<^sup>* bc (bc\<lparr>bc_validators := vs\<rparr>)"
  using example_vs_steps [of "bc_validators bc" vs bc] by simp

lemma equivocation_steps: "bft_step\<^sup>*\<^sup>* (ex_bc e) (ex_bc (maybeRecordProposerEquivocation c err e))"
proof (cases "\<exists>h r p x y em. err = ProposerEquivocationError h r p x y \<and> ex_evidence e = Some em")
  case True
  then obtain h r p x y em where err: "err = ProposerEquivocationError h r p x y" and em: "ex_evidence e = Some em" by blast
  let ?ev = "\<lparr>CE_Type = EvidenceEquivocation, CE_Validator = p, CE_Height = h, CE_Round = r, CE_BlockHashes = [x, y],
                         CE_Details = ''conflicting BFT propose at same height/round'', CE_Timestamp = ce_evclk c 0\<rparr>"
  let ?st = "(bc_validators (ex_bc e), em)"
  have "vs_step\<^sup>*\<^sup>* (bc_validators (ex_bc e)) (fst (snd (Process (ce_order c) (\<lambda>k. ce_evclk c (Suc k)) ?ev ?st)))"
    using process_vs_steps [of ?st] by simp
  then show ?thesis
    by (auto simp: maybeRecordProposerEquivocation_def err em SubmitEvidenceBestEffort_def Let_def intro: vs_steps_bft split: prod.splits)
qed (auto simp: maybeRecordProposerEquivocation_def split: consensus_error.splits option.splits)

lemma notify_frame [simp]:
  "ex_bc (maybeNotifyCommit h r b e) = ex_bc e" "ex_bc (checkCommitted h e) = ex_bc e" "ex_bc (NotifyFromConsensus h e) = ex_bc e"
  "ex_bc (recordPendingProposeSource h v p e) = ex_bc e" "ex_bc (emit bs e) = ex_bc e" "ex_bc (snd (broadcast env m e)) = ex_bc e"
  by (auto simp: maybeNotifyCommit_def checkCommitted_def NotifyFromConsensus_def recordPendingProposeSource_def emit_def broadcast_def Let_def
      split: option.splits)

lemma inbound_propose_steps:
  assumes "map_order (validators (bc_validators (ex_bc e))) (ce_vo c)"
  shows "bft_step\<^sup>*\<^sup>* (ex_bc e) (ex_bc (snd (inbound_propose env c m e)))"
proof (cases "Propose (ce_vo c) (ce_clk c) (WP_Height m) (WP_Round m) (WP_Proposer m) (WP_BlockHash m) (ex_bc e)")
  case (Inl err)
  then show ?thesis using equivocation_steps [of e c err] by (auto simp: inbound_propose_def Let_def split: option.splits)
next
  case (Inr x)
  then have "bft_step (ex_bc e) (snd x)" using assms by (cases x) (auto intro: bft_step.propose)
  then show ?thesis using Inr by (cases x) (auto simp: inbound_propose_def Let_def split: option.splits)
qed

lemma inbound_steps:
  assumes "inbound_orders env c payload e"
  shows "bft_step\<^sup>*\<^sup>* (ex_bc e) (ex_bc (snd (ApplyInbound env c payload e)))"
proof -
  have vo: "map_order (validators (bc_validators (ex_bc e))) (ce_vo c)" using assms by (simp add: inbound_orders_def)
  show ?thesis
  proof (cases "UnmarshalBFTWire env payload")
    case (Inr kr)
    obtain k raw where kr: "kr = (k, raw)" by (cases kr)
    have "bft_step\<^sup>*\<^sup>* (ex_bc e) (ex_bc (snd (inbound_prevote env c m e)))" if "we_Prevote env raw = Some m" for m
    proof -
      have "hash_order (WV_Height m) (WV_BlockHash m) (ex_bc e) (ce_ho c)" using assms Inr kr that by (simp add: inbound_orders_def)
      then show ?thesis using vo by (auto simp: inbound_prevote_def intro: bft_step.prevote split: sum.splits)
    qed
    moreover have "bft_step\<^sup>*\<^sup>* (ex_bc e) (ex_bc (snd (inbound_precommit env c m e)))" for m
      using vo by (auto simp: inbound_precommit_def intro: bft_step.precommit split: sum.splits)
    ultimately show ?thesis using Inr kr inbound_propose_steps [OF vo] by (auto simp: ApplyInbound_def split: option.splits)
  qed (simp add: ApplyInbound_def)
qed

lemma fail_quietly_steps: "bft_step\<^sup>*\<^sup>* (ex_bc e) (ex_bc (fail_quietly h e))"
  by (auto simp: fail_quietly_def intro: bft_step.fail_round split: sum.splits)

lemma prevote_pass_steps:
  assumes "map_order (validators (bc_validators (ex_bc e))) (ce_vo c)" "hash_order h b (ex_bc e) (ce_ho c)"
  shows "bft_step\<^sup>*\<^sup>* (ex_bc e) (ex_bc (snd (prevote_pass env c h r b as e))) \<and>
    (fst (prevote_pass env c h r b as e) = None \<longrightarrow> bc_validators (ex_bc (snd (prevote_pass env c h r b as e))) = bc_validators (ex_bc e))"
  using assms
proof (induction as arbitrary: e)
  case (Cons a as)
  show ?case
  proof (cases "PreVote (ce_vo c) (ce_ho c) (ce_prevotes c a) h a b (ex_bc e)")
    case (Inl err)
    then show ?thesis using fail_quietly_steps [of e h] by simp
  next
    case (Inr bc)
    let ?e = "snd (BroadcastPrevote env h r a b (e\<lparr>ex_bc := bc\<rparr>))"
    have bc: "ex_bc ?e = bc" by (simp add: BroadcastPrevote_def)
    have "bft_step (ex_bc e) bc" using Inr Cons.prems by (blast intro: bft_step.prevote)
    then show ?thesis
      using Cons.IH [of ?e] prevote_frame [OF Inr] prevote_hash_order [OF Inr Cons.prems(2)] Cons.prems(1) bc Inr
      by (auto intro: converse_rtranclp_into_rtranclp)
  qed
qed simp

lemma precommit_pass_steps:
  assumes "map_order (validators (bc_validators (ex_bc e))) (ce_vo c)"
  shows "bft_step\<^sup>*\<^sup>* (ex_bc e) (ex_bc (snd (precommit_pass env c h r b as e)))"
  using assms
proof (induction as arbitrary: e)
  case (Cons a as)
  show ?case
  proof (cases "PreCommit (ce_vo c) (ce_precommits c a) h a b (ex_bc e)")
    case (Inl err)
    then show ?thesis using fail_quietly_steps [of e h] by simp
  next
    case (Inr bc)
    let ?e = "snd (BroadcastPrecommit env h r a b (e\<lparr>ex_bc := bc\<rparr>))"
    have bc: "ex_bc ?e = bc" by (simp add: BroadcastPrecommit_def)
    have "bft_step (ex_bc e) bc" using Inr Cons.prems by (blast intro: bft_step.precommit)
    then show ?thesis
      using Cons.IH [of ?e] precommit_frame [OF Inr] Cons.prems bc Inr by (auto intro: converse_rtranclp_into_rtranclp)
  qed
qed simp

lemma propose_hash_order:
  "Propose vo clk h r p b bc = Inr (cr, bc') \<Longrightarrow> hash_order h b' bc ho \<Longrightarrow> hash_order h b' bc' ho"
  by (auto simp: Propose_def hash_order_def Let_def split: option.splits if_splits sum.splits)

text \<open>A local round, cut into its successful stages.\<close>

lemma synthetic_cases:
  assumes "RunSyntheticBFTRoundWithExecutor env c b e = (res, e')"
  obtains (idle) "ex_bc e' = ex_bc e" "e' = e"
  | (round) rnd prp cr bc r1 e1 where
      "Propose (ce_vo c) (\<lambda>k. ce_clk c (Suc k)) (Height b) rnd prp (BStateRoot b) (ex_bc e) = Inr (cr, bc)"
      "prevote_pass env c (Height b) rnd (BStateRoot b) (local_voters (ce_vo c) (ce_clk c 3) bc)
         (snd (BroadcastPropose env (Height b) rnd prp (BStateRoot b) (Some b) (e\<lparr>ex_bc := bc\<rparr>))) = (r1, e1)"
      "(r1 \<noteq> None \<and> e' = e1) \<or> (r1 = None \<and> e' = fail_quietly (Height b) e1) \<or>
       (r1 = None \<and> (\<exists>r2 e2. precommit_pass env c (Height b) rnd (BStateRoot b) (local_voters (ce_vo c) (ce_clk c 4) (ex_bc e1)) e1 = (r2, e2) \<and>
          (e' = e2 \<or> e' = fail_quietly (Height b) e2 \<or> e' = NotifyFromConsensus (Height b) e2)))"
  using assms that unfolding RunSyntheticBFTRoundWithExecutor_def
  by (auto simp: Let_def split: if_splits sum.splits prod.splits option.splits)

lemma synthetic_steps:
  assumes "RunSyntheticBFTRoundWithExecutor env c b e = (res, e')" "round_orders c b e"
  shows "bft_step\<^sup>*\<^sup>* (ex_bc e) (ex_bc e')"
  using assms(1)
proof (cases rule: synthetic_cases)
  case (round rnd prp cr bc r1 e1)
  let ?e = "snd (BroadcastPropose env (Height b) rnd prp (BStateRoot b) (Some b) (e\<lparr>ex_bc := bc\<rparr>))"
  have bc: "ex_bc ?e = bc" by (simp add: BroadcastPropose_def)
  have o: "map_order (validators (bc_validators (ex_bc e))) (ce_vo c)" "hash_order (Height b) (BStateRoot b) (ex_bc e) (ce_ho c)"
    using assms(2) by (simp_all add: round_orders_def)
  have ob: "map_order (validators (bc_validators (ex_bc ?e))) (ce_vo c)" "hash_order (Height b) (BStateRoot b) (ex_bc ?e) (ce_ho c)"
    using o propose_frame [OF round(1)] propose_hash_order [OF round(1)] by (simp_all add: bc)
  have s1: "bft_step\<^sup>*\<^sup>* (ex_bc e) bc" using round(1) o(1) by (blast intro: bft_step.propose)
  have s2: "bft_step\<^sup>*\<^sup>* bc (ex_bc e1)" "r1 = None \<Longrightarrow> bc_validators (ex_bc e1) = bc_validators bc"
    using prevote_pass_steps [OF ob, of env rnd "local_voters (ce_vo c) (ce_clk c 3) bc"] round(2) by (simp_all add: bc)
  show ?thesis
    using round(3)
  proof (elim disjE conjE exE)
    assume "e' = e1" then show ?thesis using s1 s2(1) by simp
  next
    assume "e' = fail_quietly (Height b) e1"
    then show ?thesis using s1 s2(1) fail_quietly_steps [of e1 "Height b"] by (meson rtranclp_trans)
  next
    fix r2 e2
    assume "r1 = None" and p: "precommit_pass env c (Height b) rnd (BStateRoot b) (local_voters (ce_vo c) (ce_clk c 4) (ex_bc e1)) e1 = (r2, e2)"
    then have "map_order (validators (bc_validators (ex_bc e1))) (ce_vo c)" using s2(2) ob(1) by (simp add: bc)
    from precommit_pass_steps [OF this, of env "Height b" rnd "BStateRoot b" "local_voters (ce_vo c) (ce_clk c 4) (ex_bc e1)"] p
    have s3: "bft_step\<^sup>*\<^sup>* (ex_bc e) (ex_bc e2)" using s1 s2(1) by (auto intro: rtranclp_trans)
    show "e' = e2 \<Longrightarrow> ?thesis" "e' = NotifyFromConsensus (Height b) e2 \<Longrightarrow> ?thesis" using s3 by simp_all
    show "e' = fail_quietly (Height b) e2 \<Longrightarrow> ?thesis" using s3 fail_quietly_steps [of e2 "Height b"] by (meson rtranclp_trans)
  qed
qed simp

text \<open>Everything that happens to an executor: messages, local rounds, other users of the engine, and maintenance calls.\<close>

inductive exec_step :: "BFTExecutor \<Rightarrow> BFTExecutor \<Rightarrow> bool" where
  inbound: "inbound_orders env c payload e \<Longrightarrow> exec_step e (snd (ApplyInbound env c payload e))"
| local_round: "RunSyntheticBFTRoundWithExecutor env c b e = (res, e') \<Longrightarrow> round_orders c b e \<Longrightarrow> Hash b = computeBlockHash b \<Longrightarrow> exec_step e e'"
| engine: "bft_step (ex_bc e) bc' \<Longrightarrow> exec_step e (e\<lparr>ex_bc := bc'\<rparr>)"
| notify: "exec_step e (NotifyFromConsensus h e)"
| peer: "exec_step e (SetLastInboundBFTGossipPeer p e)"
| clear_peer: "exec_step e (ClearLastInboundBFTGossipPeer e)"
| clear_source: "exec_step e (ClearPendingProposeSource h v e)"
| prune_height: "exec_step e (PrunePendingHeight h e)"
| prune_below: "exec_step e (PrunePendingBelow h e)"
| note_append: "exec_step e (NoteFollowerAppend now err e)"
| callback: "exec_step e (SetOnCommitted f e)"
| publisher: "exec_step e (SetPublisher f e)"
| evidence: "exec_step e (SetEvidenceManager em e)"

lemma maintenance_frame [simp]:
  "ex_bc (SetLastInboundBFTGossipPeer p e) = ex_bc e" "ex_bc (ClearLastInboundBFTGossipPeer e) = ex_bc e"
  "ex_bc (ClearPendingProposeSource h v e) = ex_bc e" "ex_bc (PrunePendingHeight h e) = ex_bc e" "ex_bc (PrunePendingBelow h e) = ex_bc e"
  "ex_bc (NoteFollowerAppend now err e) = ex_bc e" "ex_bc (SetOnCommitted f e) = ex_bc e" "ex_bc (SetPublisher f e) = ex_bc e"
  "ex_bc (SetEvidenceManager em e) = ex_bc e"
  by (auto simp: SetLastInboundBFTGossipPeer_def ClearLastInboundBFTGossipPeer_def ClearPendingProposeSource_def PrunePendingHeight_def
      PrunePendingBelow_def NoteFollowerAppend_def SetOnCommitted_def SetPublisher_def SetEvidenceManager_def Let_def split: option.splits)

lemma exec_step_bft: "exec_step e e' \<Longrightarrow> bft_step\<^sup>*\<^sup>* (ex_bc e) (ex_bc e')"
  by (induction rule: exec_step.induct) (auto intro: inbound_steps synthetic_steps)

lemma exec_steps_bft: "exec_step\<^sup>*\<^sup>* e e' \<Longrightarrow> bft_step\<^sup>*\<^sup>* (ex_bc e) (ex_bc e')"
  by (induction rule: rtranclp_induct) (auto dest: exec_step_bft intro: rtranclp_trans)

section \<open>Announcements and cached blocks\<close>

definition announced_ok :: "BFTExecutor \<Rightarrow> bool" where
  "announced_ok e \<longleftrightarrow>
     distinct (map fst (ex_calls e)) \<and> fst ` set (ex_calls e) \<subseteq> set (commitNotified e) \<and>
     (\<forall>(h, r, b) \<in> set (ex_calls e). \<exists>cr. GetCommitted h (ex_bc e) = Some cr \<and> CRRound cr = r \<and> CRBlockHash cr = b)"

definition cache_ok :: "BFTExecutor \<Rightarrow> bool" where
  "cache_ok e \<longleftrightarrow> (\<forall>h v b. PendingBlock h v e = Some b \<longrightarrow> Height b = h \<and> BStateRoot b = v \<and> Hash b = computeBlockHash b)"

definition exec_inv :: "BFTExecutor \<Rightarrow> bool" where
  "exec_inv e \<longleftrightarrow> bft_inv (ex_bc e) \<and> announced_ok e \<and> cache_ok e"

definition same_books :: "BFTExecutor \<Rightarrow> BFTExecutor \<Rightarrow> bool" where
  "same_books e e' \<longleftrightarrow> ex_calls e' = ex_calls e \<and> commitNotified e' = commitNotified e \<and> ex_pending e' = ex_pending e"

lemma same_books_refl [simp]: "same_books e e"
  by (simp add: same_books_def)

lemma same_books_trans [trans]: "same_books e e1 \<Longrightarrow> same_books e1 e2 \<Longrightarrow> same_books e e2"
  by (simp add: same_books_def)

lemma exec_inv_books:
  assumes "exec_inv e" "bft_step\<^sup>*\<^sup>* (ex_bc e) (ex_bc e')" "same_books e e'"
  shows "exec_inv e'"
proof -
  have inv: "bft_inv (ex_bc e)" using assms(1) by (simp add: exec_inv_def)
  have "bft_inv (ex_bc e')"
    using assms(2) inv by (induction rule: rtranclp_induct) (auto intro: bft_step_inv)
  moreover have "GetCommitted h (ex_bc e') = Some cr" if "GetCommitted h (ex_bc e) = Some cr" for h cr
    using committed_steps [OF assms(2) inv] that by (simp add: GetCommitted_def)
  ultimately show ?thesis
    using assms(1,3) unfolding exec_inv_def announced_ok_def cache_ok_def same_books_def PendingBlock_def by fastforce
qed

lemma exec_inv_check: "exec_inv e \<Longrightarrow> exec_inv (checkCommitted h e)"
proof (cases "GetCommitted h (ex_bc e)")
  case (Some cr)
  assume inv: "exec_inv e"
  then have "CRHeight cr = h" using Some bft_invD(2) [of "ex_bc e" h cr] by (auto simp: exec_inv_def GetCommitted_def round_ok_def)
  then show ?thesis
    using inv Some by (auto simp: checkCommitted_def maybeNotifyCommit_def Let_def exec_inv_def announced_ok_def cache_ok_def PendingBlock_def)
qed (simp add: checkCommitted_def)

lemma same_books_simps [simp]:
  "same_books e (emit bs e)" "same_books e (snd (broadcast env m e))" "same_books e (fail_quietly h e)"
  "same_books e (recordPendingProposeSource h v p e)" "same_books e (maybeRecordProposerEquivocation c err e)" "same_books e (e\<lparr>ex_bc := bc\<rparr>)"
  by (auto simp: same_books_def emit_def broadcast_def fail_quietly_def recordPendingProposeSource_def maybeRecordProposerEquivocation_def Let_def
      split: option.splits sum.splits consensus_error.splits prod.splits)

lemma broadcast_books: "same_books e0 e \<Longrightarrow> same_books e0 (snd (broadcast env m (e\<lparr>ex_bc := bc\<rparr>)))"
  by (auto simp: same_books_def broadcast_def emit_def split: option.splits)

lemma pass_books:
  "same_books e (snd (prevote_pass env c h r b as e))" "same_books e (snd (precommit_pass env c h r b as e))"
proof (induction as arbitrary: e)
  case (Cons a as)
  {
    case 1
    show ?case
      by (auto simp: BroadcastPrevote_def intro: same_books_trans [OF broadcast_books [OF same_books_refl] Cons.IH(1)] split: sum.splits)
  next
    case 2
    show ?case
      by (auto simp: BroadcastPrecommit_def intro: same_books_trans [OF broadcast_books [OF same_books_refl] Cons.IH(2)] split: sum.splits)
  }
qed simp_all

lemma exec_inv_round:
  assumes "RunSyntheticBFTRoundWithExecutor env c b e = (res, e')" "round_orders c b e" "exec_inv e"
  shows "exec_inv e'"
proof -
  have steps: "bft_step\<^sup>*\<^sup>* (ex_bc e) (ex_bc e')" using synthetic_steps [OF assms(1,2)] .
  from assms(1) show ?thesis
  proof (cases rule: synthetic_cases)
    case (round rnd prp cr bc r1 e1)
    have b1: "same_books e e1"
      using pass_books(1) [of _ env c "Height b" rnd "BStateRoot b" "local_voters (ce_vo c) (ce_clk c 3) bc"] round(2) broadcast_books [OF same_books_refl]
      by (metis BroadcastPropose_def same_books_trans snd_conv)
    have b2: "same_books e e2"
      if "precommit_pass env c (Height b) rnd (BStateRoot b) (local_voters (ce_vo c) (ce_clk c 4) (ex_bc e1)) e1 = (r2, e2)" for r2 e2
      using pass_books(2) [of e1 env c "Height b" rnd "BStateRoot b" "local_voters (ce_vo c) (ce_clk c 4) (ex_bc e1)"] that b1 same_books_trans by fastforce
    have "same_books e e' \<or> (\<exists>e2. same_books e e2 \<and> e' = NotifyFromConsensus (Height b) e2)"
      using round(3) b1 b2 same_books_simps(3) same_books_trans by blast
    then show ?thesis
      using exec_inv_books [OF assms(3)] steps exec_inv_check unfolding NotifyFromConsensus_def by (metis notify_frame(2))
  qed (use assms(3) in simp)
qed

lemma cache_put:
  assumes "cache_ok e" "Height b = h" "BStateRoot b = v" "Hash b = computeBlockHash b"
  shows "cache_ok (e\<lparr>ex_pending := Pending_Put h v b (ex_pending e)\<rparr>)"
  using assms by (auto simp: cache_ok_def PendingBlock_def Pending_Get_def Pending_Put_def split: option.splits if_splits)

lemma exec_inv_inbound:
  assumes "inbound_orders env c payload e" "exec_inv e"
  shows "exec_inv (snd (ApplyInbound env c payload e))"
proof -
  let ?e = "snd (ApplyInbound env c payload e)"
  have steps: "bft_step\<^sup>*\<^sup>* (ex_bc e) (ex_bc ?e)" using inbound_steps [OF assms(1)] .
  have proposal: "exec_inv (snd (inbound_propose env c m e))"
    if st: "bft_step\<^sup>*\<^sup>* (ex_bc e) (ex_bc (snd (inbound_propose env c m e)))" for m
  proof (cases "validateInboundProposeBlock m = None \<and> (\<exists>x b. WP_Block m = Some b \<and>
      Propose (ce_vo c) (ce_clk c) (WP_Height m) (WP_Round m) (WP_Proposer m) (WP_BlockHash m) (ex_bc e) = Inr x)")
    case True
    then obtain cr bc b where b: "WP_Block m = Some b" "validateInboundProposeBlock m = None"
      and P: "Propose (ce_vo c) (ce_clk c) (WP_Height m) (WP_Round m) (WP_Proposer m) (WP_BlockHash m) (ex_bc e) = Inr (cr, bc)" by auto
    let ?e1 = "e\<lparr>ex_bc := bc\<rparr>"
    let ?e2 = "?e1\<lparr>ex_pending := Pending_Put (WP_Height m) (WP_BlockHash m) b (ex_pending ?e1)\<rparr>"
    have "exec_inv ?e1" using exec_inv_books [OF assms(2), of ?e1] st b P by (simp add: inbound_propose_def Let_def split: if_splits)
    moreover have "Height b = WP_Height m" "BStateRoot b = WP_BlockHash m" "Hash b = computeBlockHash b"
      using b by (auto simp: validateInboundProposeBlock_def split: if_splits)
    ultimately have "exec_inv ?e2" using cache_put [of ?e1 b] by (auto simp: exec_inv_def announced_ok_def)
    moreover have "snd (inbound_propose env c m e) = ?e2 \<or> (\<exists>p. snd (inbound_propose env c m e) = recordPendingProposeSource (WP_Height m) (WP_BlockHash m) p ?e2)"
      using b P by (auto simp: inbound_propose_def Let_def)
    ultimately show ?thesis using exec_inv_books [of ?e2] by (metis notify_frame(4) rtranclp.rtrancl_refl same_books_simps(4))
  next
    case False
    then have "same_books e (snd (inbound_propose env c m e))"
      by (auto simp: inbound_propose_def Let_def split: option.splits sum.splits)
    then show ?thesis using exec_inv_books [OF assms(2)] st by blast
  qed
  have prevote: "same_books e (snd (inbound_prevote env c m e))" for m by (auto simp: inbound_prevote_def split: sum.splits)
  have precommit: "exec_inv (snd (inbound_precommit env c m e))"
    if st: "bft_step\<^sup>*\<^sup>* (ex_bc e) (ex_bc (snd (inbound_precommit env c m e)))" for m
    using st exec_inv_books [OF assms(2)] assms(2) by (auto simp: inbound_precommit_def intro!: exec_inv_check split: sum.splits)
  show ?thesis
    using steps proposal prevote precommit exec_inv_books [OF assms(2)] assms(2)
    by (auto simp: ApplyInbound_def split: sum.splits option.splits if_splits)
qed

lemma exec_step_inv: "exec_step e e' \<Longrightarrow> exec_inv e \<Longrightarrow> exec_inv e'"
proof (induction rule: exec_step.induct)
  case (inbound env c payload e)
  then show ?case by (rule exec_inv_inbound)
next
  case (local_round env c b e res e')
  then show ?case using exec_inv_round by blast
next
  case (engine e bc')
  then show ?case using exec_inv_books [of e "e\<lparr>ex_bc := bc'\<rparr>"] by auto
next
  case (notify e h)
  then show ?case using exec_inv_check by (simp add: NotifyFromConsensus_def)
next
  case (prune_height e h)
  then show ?case by (auto simp: exec_inv_def announced_ok_def cache_ok_def PrunePendingHeight_def PendingBlock_def Pending_Get_def RemoveHeight_def split: if_splits option.splits)
next
  case (prune_below e h)
  then show ?case by (auto simp: exec_inv_def announced_ok_def cache_ok_def PrunePendingBelow_def PendingBlock_def Pending_Get_def PruneHeightsBelow_def split: if_splits option.splits)
qed (auto simp: exec_inv_def announced_ok_def cache_ok_def PendingBlock_def SetLastInboundBFTGossipPeer_def ClearLastInboundBFTGossipPeer_def
      ClearPendingProposeSource_def NoteFollowerAppend_def SetOnCommitted_def SetPublisher_def SetEvidenceManager_def Let_def split: option.splits)

end
