(* ===== verification/BftTheorems.thy ===== *)
theory BftTheorems
  imports BftNetwork
begin

text \<open>
  Properties of the voting engine as a node runs it: agreement and single announcement under arbitrary gossip, and progress of local
  rounds and of gossiped votes.
\<close>

section \<open>Safety\<close>

lemma exec_reach_inv:
  assumes "bft_reachable vcfg cfg bc" "exec_step\<^sup>*\<^sup>* (NewBFTExecutor bc) e"
  shows "exec_inv e"
  using assms(2)
proof (induction rule: rtranclp_induct)
  case base
  show ?case
    using bft_reachable_inv(1) [OF assms(1)]
    by (simp add: exec_inv_def announced_ok_def cache_ok_def NewBFTExecutor_def PendingBlock_def Pending_Get_def NewPendingProposalStore_def)
qed (rule exec_step_inv)

lemma decided_steps: "bft_step\<^sup>*\<^sup>* bc bc' \<Longrightarrow> bft_inv bc \<Longrightarrow> decide_step\<^sup>*\<^sup>* (decided bc) (decided bc')"
proof (induction rule: rtranclp_induct)
  case (step y z)
  have "bft_inv y" using step.hyps(1) step.prems by (induction rule: rtranclp_induct) (auto intro: bft_step_inv)
  then have "decide_step\<^sup>*\<^sup>* (decided y) (decided z)" using decided_step [OF step.hyps(2)] by auto
  then show ?case using step.IH step.prems by (meson rtranclp_trans)
qed simp

text \<open>
  C13: Whatever messages a node receives, whoever sends them, in any order and interleaved with local rounds, timeouts and changes of the
  validator set: seen through the value committed at each height, the node only ever writes heights that were not written, and a
  committed height keeps its round.
\<close>

theorem gossip_refines_write_once:
  assumes "bft_reachable vcfg cfg bc" "exec_step\<^sup>*\<^sup>* (NewBFTExecutor bc) e" "exec_step\<^sup>*\<^sup>* e e'"
  shows "decide_step\<^sup>*\<^sup>* (decided (ex_bc e)) (decided (ex_bc e')) \<and>
    (GetCommitted h (ex_bc e) = Some cr \<longrightarrow> GetCommitted h (ex_bc e') = Some cr)"
proof -
  have inv: "bft_inv (ex_bc e)" using exec_reach_inv [OF assms(1,2)] by (simp add: exec_inv_def)
  note steps = exec_steps_bft [OF assms(3)]
  show ?thesis using decided_steps [OF steps inv] committed_steps [OF steps inv] by (simp add: GetCommitted_def)
qed

text \<open>
  C14: The commit callback runs at most once per height, with the round and the value that the engine committed, and a block cached for a
  vote value has that height, that state root and a matching hash.
\<close>

theorem commit_announced_once:
  assumes "bft_reachable vcfg cfg bc" "exec_step\<^sup>*\<^sup>* (NewBFTExecutor bc) e"
  shows "distinct (map fst (ex_calls e)) \<and>
    ((h, r, b) \<in> set (ex_calls e) \<longrightarrow> (\<exists>cr. GetCommitted h (ex_bc e) = Some cr \<and> CRRound cr = r \<and> CRBlockHash cr = b)) \<and>
    (PendingBlock h v e = Some blk \<longrightarrow> Height blk = h \<and> BStateRoot blk = v \<and> Hash blk = computeBlockHash blk)"
  using exec_reach_inv [OF assms] by (auto simp: exec_inv_def announced_ok_def cache_ok_def)

section \<open>Progress of a local round\<close>

lemma prevote_pass_run:
  assumes "run_all (\<lambda>a. PreVote (ce_vo c) (ce_ho c) (ce_prevotes c a) h a b) as (ex_bc e) = Inr bc"
  shows "\<exists>e'. prevote_pass env c h r b as e = (None, e') \<and> ex_bc e' = bc"
  using assms
proof (induction as arbitrary: e)
  case (Cons a as)
  then obtain bc1 where 1: "PreVote (ce_vo c) (ce_ho c) (ce_prevotes c a) h a b (ex_bc e) = Inr bc1"
      "run_all (\<lambda>a. PreVote (ce_vo c) (ce_ho c) (ce_prevotes c a) h a b) as bc1 = Inr bc"
    by (auto split: sum.splits)
  then show ?case using Cons.IH [of "snd (BroadcastPrevote env h r a b (e\<lparr>ex_bc := bc1\<rparr>))"] by (simp add: BroadcastPrevote_def)
qed simp

lemma precommit_pass_run:
  assumes "run_all (\<lambda>a. PreCommit (ce_vo c) (ce_precommits c a) h a b) as (ex_bc e) = Inr bc"
  shows "\<exists>e'. precommit_pass env c h r b as e = (None, e') \<and> ex_bc e' = bc"
  using assms
proof (induction as arbitrary: e)
  case (Cons a as)
  then obtain bc1 where 1: "PreCommit (ce_vo c) (ce_precommits c a) h a b (ex_bc e) = Inr bc1"
      "run_all (\<lambda>a. PreCommit (ce_vo c) (ce_precommits c a) h a b) as bc1 = Inr bc"
    by (auto split: sum.splits)
  then show ?case using Cons.IH [of "snd (BroadcastPrecommit env h r a b (e\<lparr>ex_bc := bc1\<rparr>))"] by (simp add: BroadcastPrecommit_def)
qed simp

lemma active_timeless: "none_jailed vs \<Longrightarrow> ActiveValidators vo t vs = ActiveValidators vo 0 vs"
proof -
  assume nj: "none_jailed vs"
  have "filter (is_electable t) (List.map_filter (fmlookup (validators vs)) vo) = filter (is_electable 0) (List.map_filter (fmlookup (validators vs)) vo)"
    using electable_timeless [OF nj] by (intro filter_cong refl) (auto simp: List.map_filter_def)
  then show ?thesis by (simp add: ActiveValidators_def)
qed

lemma voters_are_active:
  assumes "live_setting vo bc"
  shows "local_voters vo t bc = map VAddress (ActiveValidators vo 0 (bc_validators bc))"
    and "a \<in> set (local_voters vo t bc) \<Longrightarrow> is_active_validator a bc" and "distinct (local_voters vo t bc)"
    and "heavy (bc_validators bc) (local_voters vo t bc)"
proof -
  have ok: "voting_ok 0 vo (bc_validators bc)" and nj: "none_jailed (bc_validators bc)" using assms by (auto simp: live_setting_def)
  have act: "VStatus v = ValidatorActive" if "v \<in> set (ActiveValidators vo 0 (bc_validators bc))" for v
    using that active_iff [OF ok] electable_timeless [OF nj] by blast
  show lv: "local_voters vo t bc = map VAddress (ActiveValidators vo 0 (bc_validators bc))"
    using act by (simp add: local_voters_def active_timeless [OF nj, of vo t] filter_id_conv)
  show "distinct (local_voters vo t bc)" using voting_okD(5) [OF ok] lv by simp
  show "is_active_validator a bc" if "a \<in> set (local_voters vo t bc)"
    using that act active_iff [OF ok] by (auto simp: lv is_active_validator_def GetValidator_def)
  have "sum (weight 0 (bc_validators bc)) (set (local_voters vo t bc)) = total_weight 0 (bc_validators bc)"
    using active_weight_sum [OF ok] sum_list_distinct_conv_sum_set [OF voting_okD(5) [OF ok], of "weight 0 (bc_validators bc)"] lv by simp
  then show "heavy (bc_validators bc) (local_voters vo t bc)" by (simp add: heavy_def)
qed

lemma proposal_succeeds:
  assumes "live_setting vo bc" "ProposerForRound vo clk r bc = Inr p" "fmlookup (committed bc) h = None" "fmlookup (rounds bc) h = None"
  shows "\<exists>cr bc'. Propose vo clk' h r p b bc = Inr (cr, bc')"
proof -
  have ok: "voting_ok 0 vo (bc_validators bc)" and nj: "none_jailed (bc_validators bc)" using assms(1) by (auto simp: live_setting_def)
  let ?A = "go_sort proposer_before (ActiveValidators vo 0 (bc_validators bc))"
  have e0: "proposerForRoundLocked vo 0 r bc = Inr p"
    using assms(2) by (simp add: ProposerForRound_def proposerForRoundLocked_def active_timeless [OF nj, of vo "clk 0"])
  then have p: "p = VAddress (?A ! (unat r mod length ?A))" "?A \<noteq> []"
    by (auto simp: proposerForRoundLocked_def Let_def split: if_splits dest: arg_cong [of _ _ length])
  have exp: "proposerForRoundLocked vo t r bc = Inr p" for t
    using e0 by (simp add: proposerForRoundLocked_def active_timeless [OF nj, of vo t])
  from p have "?A ! (unat r mod length ?A) \<in> set ?A" by (intro nth_mem mod_less_divisor length_greater_0_conv [THEN iffD2])
  then have "p \<in> set (local_voters vo 0 bc)" using p(1) voters_are_active(1) [OF assms(1)] by simp
  then have "is_active_validator p bc" using voters_are_active(2) [OF assms(1)] by blast
  then show ?thesis using assms(3,4) exp by (simp add: Propose_def Let_def)
qed

lemma run_all_keeps:
  assumes "run_all f as s = Inr s'" "I s" "\<And>a s s'. f a s = Inr s' \<Longrightarrow> I s \<Longrightarrow> I s'"
  shows "I s'"
  using assms(1,2) by (induction as arbitrary: s) (auto split: sum.splits dest: assms(3))

text \<open>
  A local round on a height without an active round commits the tentative block's state root, whatever the clocks, and announces it:
  the prevotes of all active validators reach the lock, the precommits the quorum.
\<close>

theorem local_round_commits:
  assumes "live_setting (ce_vo c) (ex_bc e)" "exec_inv e" "GetCommitted (Height b) (ex_bc e) = None" "GetRound (Height b) (ex_bc e) = None"
    and "ProposerForRound (ce_vo c) (ce_clk c) (NextRoundAfterTimeout (Height b) (ex_bc e)) (ex_bc e) = Inr p"
    and "BStateRoot b \<in> set (ce_ho c)" "BStateRoot b \<noteq> []"
  shows "\<exists>e' cr. RunSyntheticBFTRoundWithExecutor env c b e = (None, e') \<and>
    GetCommitted (Height b) (ex_bc e') = Some cr \<and> CRBlockHash cr = BStateRoot b \<and> Height b \<in> set (commitNotified e')"
proof -
  let ?h = "Height b" and ?v = "BStateRoot b" and ?r = "NextRoundAfterTimeout (Height b) (ex_bc e)" and ?vo = "ce_vo c"
  have nc: "fmlookup (committed (ex_bc e)) ?h = None" "fmlookup (rounds (ex_bc e)) ?h = None"
    using assms(3,4) by (simp_all add: GetCommitted_def GetRound_def)
  obtain cr bc where P: "Propose ?vo (\<lambda>k. ce_clk c (Suc k)) ?h ?r p ?v (ex_bc e) = Inr (cr, bc)"
    using proposal_succeeds [OF assms(1,5) nc] by blast
  have same: "bc_validators bc = bc_validators (ex_bc e)" using propose_frame [OF P] by simp
  let ?as = "local_voters ?vo (ce_clk c 3) (ex_bc e)"
  note v = voters_are_active [OF assms(1), where t = "ce_clk c 3"]
  have lv: "local_voters ?vo t bc' = ?as" if "bc_validators bc' = bc_validators (ex_bc e)" for t bc'
    using voters_are_active(1) [OF assms(1), of t] v(1) that by (simp add: local_voters_def)
  obtain bc1 where bc1: "run_all (\<lambda>a. PreVote ?vo (ce_ho c) (ce_prevotes c a) ?h a ?v) ?as bc = Inr bc1" "committing ?h ?v (ex_bc e) [] bc1"
    using prevotes_collect [OF assms(1) P nc(2) v(3,4) v(2) assms(6)] by blast
  obtain bc2 where bc2: "run_all (\<lambda>a. PreCommit ?vo (ce_precommits c a) ?h a ?v) ?as bc1 = Inr bc2" "committing ?h ?v (ex_bc e) ?as bc2"
    using precommits_commit [OF assms(1) bc1(2) v(3) v(2)] by blast
  let ?e0 = "snd (BroadcastPropose env ?h ?r p ?v (Some b) (e\<lparr>ex_bc := bc\<rparr>))"
  have "ex_bc ?e0 = bc" by (simp add: BroadcastPropose_def)
  then obtain e1 where e1: "prevote_pass env c ?h ?r ?v ?as ?e0 = (None, e1)" "ex_bc e1 = bc1"
    using prevote_pass_run [of c ?h ?v ?as ?e0 bc1 env ?r] bc1(1) by auto
  obtain e2 where e2: "precommit_pass env c ?h ?r ?v ?as e1 = (None, e2)" "ex_bc e2 = bc2"
    using precommit_pass_run [of c ?h ?v ?as e1 bc2 env ?r] bc2(1) e1(2) by auto
  have "\<not> heavy (bc_validators (ex_bc e)) []" using assms(1) by (auto simp: heavy_def live_setting_def)
  then obtain cr1 where "fmlookup (rounds bc1) ?h = Some cr1" "LockedBlockHash cr1 = ?v" using bc1(2) by (auto simp: committing_def)
  then have lock: "\<exists>x. BuildPrevoteLockProof ?h bc1 = Inr x" using assms(7) by (simp add: BuildPrevoteLockProof_def)
  obtain cr2 where cr2: "fmlookup (committed bc2) ?h = Some cr2" "CRBlockHash cr2 = ?v" using bc2(2) v(4) by (auto simp: committing_def)
  have vs1: "bc_validators bc1 = bc_validators (ex_bc e)" using bc1(2) by (simp add: committing_def same_setting_def)
  have "RunSyntheticBFTRoundWithExecutor env c b e = (None, NotifyFromConsensus ?h e2)"
    using nc(1) assms(5) P e1 e2 lock cr2 lv [OF same] lv [OF vs1]
    by (auto simp: RunSyntheticBFTRoundWithExecutor_def Let_def IsCommitted_def)
  moreover have "bft_inv bc2"
  proof -
    have "bft_inv bc" using bft_inv_propose [OF _ P] assms(2) by (simp add: exec_inv_def)
    then have "bft_inv bc1" by (rule run_all_keeps [OF bc1(1)]) (rule bft_inv_prevote)
    then show ?thesis by (rule run_all_keeps [OF bc2(1)]) (rule bft_inv_precommit)
  qed
  then have "CRHeight cr2 = ?h" using bft_invD(2) cr2(1) by (auto simp: round_ok_def)
  then have "?h \<in> set (commitNotified (NotifyFromConsensus ?h e2))"
    using cr2(1) e2(2) by (simp add: NotifyFromConsensus_def checkCommitted_def GetCommitted_def maybeNotifyCommit_def Let_def)
  ultimately show ?thesis using cr2 e2(2) by (auto simp: GetCommitted_def)
qed

section \<open>Progress by gossip\<close>

text \<open>A payload that decodes to a message, and the delivery of a list of payloads, each with the orders and clocks of its call.\<close>

fun carries :: "WireEnv \<Rightarrow> bytes \<Rightarrow> wire_msg \<Rightarrow> bool" where
  "carries env bs (MsgPropose m) = (\<exists>raw. UnmarshalBFTWire env bs = Inr (BFTWirePropose, raw) \<and> we_Propose env raw = Some m)"
| "carries env bs (MsgPrevote m) = (\<exists>raw. UnmarshalBFTWire env bs = Inr (BFTWirePrevote, raw) \<and> we_Prevote env raw = Some m)"
| "carries env bs (MsgPrecommit m) = (\<exists>raw. UnmarshalBFTWire env bs = Inr (BFTWirePrecommit, raw) \<and> we_Precommit env raw = Some m)"

definition deliver :: "WireEnv \<Rightarrow> (CallEnv \<times> bytes) list \<Rightarrow> BFTExecutor \<Rightarrow> BFTExecutor" where
  "deliver env xs e = foldl (\<lambda>e (c, bs). snd (ApplyInbound env c bs e)) e xs"

definition vote_msg :: "u64 \<Rightarrow> u32 \<Rightarrow> string \<Rightarrow> string \<Rightarrow> BFTWireVoteMsg" where
  "vote_msg h r b a = \<lparr>WV_Height = h, WV_Round = r, WV_Validator = a, WV_BlockHash = b\<rparr>"

lemma kinds_distinct [simp]: "BFTWirePrevote \<noteq> BFTWirePropose" "BFTWirePrecommit \<noteq> BFTWirePropose" "BFTWirePrecommit \<noteq> BFTWirePrevote"
  by (simp_all add: BFTWirePropose_def BFTWirePrevote_def BFTWirePrecommit_def)

lemma carried_message:
  "carries env bs (MsgPropose m) \<Longrightarrow> ApplyInbound env c bs e = inbound_propose env c m e"
  "carries env bs (MsgPrevote v) \<Longrightarrow> ApplyInbound env c bs e = inbound_prevote env c v e"
  "carries env bs (MsgPrecommit v) \<Longrightarrow> ApplyInbound env c bs e = inbound_precommit env c v e"
  by (auto simp: ApplyInbound_def)

lemma deliver_prevotes:
  assumes "run_all (\<lambda>a. PreVote vo ho (ce_clk (cv a)) h a b) as (ex_bc e) = Inr bc"
    and "\<And>a. a \<in> set as \<Longrightarrow> carries env (pv a) (MsgPrevote (vote_msg h r b a)) \<and> ce_vo (cv a) = vo \<and> ce_ho (cv a) = ho"
  shows "ex_bc (deliver env (map (\<lambda>a. (cv a, pv a)) as) e) = bc"
  using assms
proof (induction as arbitrary: e)
  case (Cons a as)
  then obtain bc1 where 1: "PreVote vo ho (ce_clk (cv a)) h a b (ex_bc e) = Inr bc1"
      "run_all (\<lambda>a. PreVote vo ho (ce_clk (cv a)) h a b) as bc1 = Inr bc"
    by (auto split: sum.splits)
  have "snd (ApplyInbound env (cv a) (pv a) e) = e\<lparr>ex_bc := bc1\<rparr>"
    using carried_message(2) [of env "pv a" "vote_msg h r b a" "cv a" e] Cons.prems(2) [of a] 1(1) by (simp add: inbound_prevote_def vote_msg_def)
  then show ?case using Cons.IH [of "e\<lparr>ex_bc := bc1\<rparr>"] 1(2) Cons.prems(2) by (simp add: deliver_def)
qed (simp add: deliver_def)

lemma deliver_precommits:
  assumes "run_all (\<lambda>a. PreCommit vo (ce_clk (cc a)) h a b) as (ex_bc e) = Inr bc"
    and "\<And>a. a \<in> set as \<Longrightarrow> carries env (pc a) (MsgPrecommit (vote_msg h r b a)) \<and> ce_vo (cc a) = vo"
  shows "ex_bc (deliver env (map (\<lambda>a. (cc a, pc a)) as) e) = bc \<and>
    (as \<noteq> [] \<longrightarrow> (\<exists>e1. deliver env (map (\<lambda>a. (cc a, pc a)) as) e = checkCommitted h e1))"
  using assms
proof (induction as arbitrary: e)
  case (Cons a as)
  then obtain bc1 where 1: "PreCommit vo (ce_clk (cc a)) h a b (ex_bc e) = Inr bc1"
      "run_all (\<lambda>a. PreCommit vo (ce_clk (cc a)) h a b) as bc1 = Inr bc"
    by (auto split: sum.splits)
  have "snd (ApplyInbound env (cc a) (pc a) e) = checkCommitted h (e\<lparr>ex_bc := bc1\<rparr>)"
    using carried_message(3) [of env "pc a" "vote_msg h r b a" "cc a" e] Cons.prems(2) [of a] 1(1) by (simp add: inbound_precommit_def vote_msg_def)
  then show ?case
    using Cons.IH [of "checkCommitted h (e\<lparr>ex_bc := bc1\<rparr>)"] 1(2) Cons.prems(2) by (cases as) (auto simp: deliver_def)
qed (simp add: deliver_def)

text \<open>
  C15: A proposal and the prevotes and precommits of validators with two thirds of the stake, received as gossip in any order of the voters
  and at any times, commit and announce the proposed value. No message is authenticated, so the same holds when one peer sends all of
  them.
\<close>

theorem gossiped_votes_commit:
  assumes "live_setting vo (ex_bc e)" "exec_inv e" "GetRound h (ex_bc e) = None"
    and "Propose vo (ce_clk cp) h r p b (ex_bc e) = Inr (cr, bc)" "ce_vo cp = vo"
    and "carries env p0 (MsgPropose m)" "WP_Height m = h" "WP_Round m = r" "WP_Proposer m = p" "WP_BlockHash m = b" "validateInboundProposeBlock m = None"
    and "distinct as" "2 * total_weight 0 (bc_validators (ex_bc e)) \<le> 3 * sum (weight 0 (bc_validators (ex_bc e))) (set as)" "b \<in> set ho"
    and votes: "\<forall>a\<in>set as. is_active_validator a (ex_bc e) \<and> carries env (pv a) (MsgPrevote (vote_msg h r b a)) \<and> ce_vo (cv a) = vo \<and> ce_ho (cv a) = ho \<and>
      carries env (pc a) (MsgPrecommit (vote_msg h r b a)) \<and> ce_vo (cc a) = vo"
  shows "\<exists>c. GetCommitted h (ex_bc (deliver env ((cp, p0) # map (\<lambda>a. (cv a, pv a)) as @ map (\<lambda>a. (cc a, pc a)) as) e)) = Some c \<and> CRBlockHash c = b \<and>
    h \<in> set (commitNotified (deliver env ((cp, p0) # map (\<lambda>a. (cv a, pv a)) as @ map (\<lambda>a. (cc a, pc a)) as) e))"
proof -
  have new: "fmlookup (rounds (ex_bc e)) h = None" using assms(3) by (simp add: GetRound_def)
  have heavy: "heavy (bc_validators (ex_bc e)) as" using assms(13) by (simp add: heavy_def)
  have act: "is_active_validator a (ex_bc e)" if "a \<in> set as" for a using votes that by blast
  have ne: "as \<noteq> []" using heavy assms(1) by (auto simp: heavy_def live_setting_def)
  let ?e0 = "snd (ApplyInbound env cp p0 e)"
  have e0: "ex_bc ?e0 = bc"
    using carried_message(1) [OF assms(6), of cp e] assms(4,5,7-11) by (auto simp: inbound_propose_def Let_def split: option.splits)
  obtain bc1 where bc1: "run_all (\<lambda>a. PreVote vo ho (ce_clk (cv a)) h a b) as bc = Inr bc1" "committing h b (ex_bc e) [] bc1"
    using prevotes_collect [OF assms(1,4) new assms(12) heavy _ assms(14), of "\<lambda>a. ce_clk (cv a)"] act by blast
  obtain bc2 where bc2: "run_all (\<lambda>a. PreCommit vo (ce_clk (cc a)) h a b) as bc1 = Inr bc2" "committing h b (ex_bc e) as bc2"
    using precommits_commit [OF assms(1) bc1(2) assms(12), of "\<lambda>a. ce_clk (cc a)"] act by blast
  let ?e1 = "deliver env (map (\<lambda>a. (cv a, pv a)) as) ?e0"
  have e1: "ex_bc ?e1 = bc1" using deliver_prevotes [of vo ho cv h b as ?e0 bc1 env pv r] bc1(1) e0 votes by simp
  let ?e2 = "deliver env (map (\<lambda>a. (cc a, pc a)) as) ?e1"
  have "ex_bc ?e2 = bc2 \<and> (\<exists>e3. ?e2 = checkCommitted h e3)" using deliver_precommits [of vo cc h b as ?e1 bc2 env pc r] bc2(1) e1 votes ne by simp
  then obtain e3 where e2: "ex_bc ?e2 = bc2" "?e2 = checkCommitted h e3" "ex_bc e3 = bc2" by (metis notify_frame(2))
  obtain c where c: "fmlookup (committed bc2) h = Some c" "CRBlockHash c = b" using bc2(2) heavy by (auto simp: committing_def)
  have "bft_inv bc" using bft_inv_propose [OF _ assms(4)] assms(2) by (simp add: exec_inv_def)
  then have "bft_inv bc1" by (rule run_all_keeps [OF bc1(1)]) (rule bft_inv_prevote)
  then have "bft_inv bc2" by (rule run_all_keeps [OF bc2(1)]) (rule bft_inv_precommit)
  then have "CRHeight c = h" using bft_invD(2) c(1) by (auto simp: round_ok_def)
  then have "h \<in> set (commitNotified ?e2)"
    using c(1) e2 by (simp add: checkCommitted_def GetCommitted_def maybeNotifyCommit_def Let_def)
  moreover have "deliver env ((cp, p0) # map (\<lambda>a. (cv a, pv a)) as @ map (\<lambda>a. (cc a, pc a)) as) e = ?e2" by (simp add: deliver_def)
  ultimately show ?thesis using c e2(1) by (simp add: GetCommitted_def)
qed

section \<open>Examples\<close>

definition calm :: CallEnv where
  "calm = \<lparr>ce_vo = [''a'', ''b''], ce_ho = [''x''], ce_clk = (\<lambda>_. 8), ce_order = [], ce_evclk = (\<lambda>_. 8), ce_prevotes = (\<lambda>_ _. 9), ce_precommits = (\<lambda>_ _. 10)\<rparr>"

text \<open>A codec with two-byte payloads: the kind and the voter.\<close>

definition tiny_wire :: WireEnv where
  "tiny_wire =
     \<lparr>we_Quote = (\<lambda>s. s), we_Marshal = (\<lambda>_. None),
      we_Envelope = (\<lambda>bs. if length bs \<noteq> 2 then None
        else Some (if hd bs = 0 then BFTWirePropose else if hd bs = 1 then BFTWirePrevote else BFTWirePrecommit, tl bs)),
      we_Propose = (\<lambda>_. Some \<lparr>WP_Height = 1, WP_Round = 0, WP_Proposer = ''a'', WP_BlockHash = ''x'', WP_Block = None\<rparr>),
      we_Prevote = (\<lambda>bs. Some (vote_msg 1 0 ''x'' (if hd bs = 0 then ''a'' else ''b''))),
      we_Precommit = (\<lambda>bs. Some (vote_msg 1 0 ''x'' (if hd bs = 0 then ''a'' else ''b'')))\<rparr>"

definition voter_byte :: "string \<Rightarrow> u8" where
  "voter_byte a = (if a = ''a'' then 0 else 1)"

lemma example_exec_inv: "exec_inv (NewBFTExecutor example_engine)"
  using exec_reach_inv [OF example_engine_reachable rtranclp.rtrancl_refl] .

lemma example_active: "a \<in> {''a'', ''b''} \<Longrightarrow> is_active_validator a example_engine"
  by (auto simp: is_active_validator_def GetValidator_def example_engine_def example_set_def example_validator_def)

lemma example_idle [simp]:
  "GetCommitted 1 example_engine = None" "GetRound 1 example_engine = None" "NextRoundAfterTimeout 1 example_engine = 0"
  "ce_vo calm = [''a'', ''b'']" "ce_ho calm = [''x'']" "ce_clk calm = (\<lambda>_. 8)"
  by (simp_all add: GetCommitted_def GetRound_def NextRoundAfterTimeout_def example_engine_def NewBFTConsensus_def Let_def calm_def)

theorem gossip_refines_write_once_witness:
  "\<exists>e'. exec_step\<^sup>*\<^sup>* (NewBFTExecutor example_engine) e' \<and> ex_bc e' = example_proposed \<and> decide_step\<^sup>*\<^sup>* (decided example_engine) (decided (ex_bc e'))"
proof -
  let ?e = "NewBFTExecutor example_engine"
  have "map_order (validators (bc_validators example_engine)) [''a'', ''b'']"
    using example_voting_ok by (simp add: voting_ok_def example_engine_def)
  then have "bft_step (ex_bc ?e) example_proposed" using example_propose by (auto simp: NewBFTExecutor_def intro: bft_step.propose)
  then have "exec_step\<^sup>*\<^sup>* ?e (?e\<lparr>ex_bc := example_proposed\<rparr>)" by (blast intro: exec_step.engine)
  then show ?thesis
    using gossip_refines_write_once [OF example_engine_reachable rtranclp.rtrancl_refl, of "?e\<lparr>ex_bc := example_proposed\<rparr>"]
    by (auto simp: NewBFTExecutor_def)
qed

theorem commit_announced_once_witness:
  "\<exists>(e :: BFTExecutor) r. (1, r, ''x'') \<in> set (ex_calls e) \<and> distinct (map fst (ex_calls e)) \<and> (\<exists>cr. GetCommitted 1 (ex_bc e) = Some cr \<and> CRBlockHash cr = ''x'')"
proof -
  obtain bc0 bc cr where b: "bft_reachable DefaultValidatorSetConfig DefaultConsensusConfig bc0" "bft_step bc0 bc"
    and c: "fmlookup (committed bc) 1 = Some cr" "CRBlockHash cr = ''x''" by (rule example_commits)
  have reach: "bft_reachable DefaultValidatorSetConfig DefaultConsensusConfig bc" using b by (blast intro: bft_reachable_step)
  have "CRHeight cr = 1" using bft_invD(2) [OF bft_reachable_inv(1) [OF reach] c(1)] by (simp add: round_ok_def)
  define e where "e = NotifyFromConsensus 1 (SetOnCommitted True (NewBFTExecutor bc))"
  have "(1, CRRound cr, ''x'') \<in> set (ex_calls e)"
    using c \<open>CRHeight cr = 1\<close> by (simp add: e_def NotifyFromConsensus_def checkCommitted_def GetCommitted_def SetOnCommitted_def NewBFTExecutor_def
        maybeNotifyCommit_def)
  moreover have "exec_step\<^sup>*\<^sup>* (NewBFTExecutor bc) e"
    unfolding e_def by (meson exec_step.callback exec_step.notify r_into_rtranclp rtranclp.rtrancl_into_rtrancl)
  ultimately have ok: "(1, CRRound cr, ''x'') \<in> set (ex_calls e) \<and> distinct (map fst (ex_calls e)) \<and> (\<exists>cr. GetCommitted 1 (ex_bc e) = Some cr \<and> CRBlockHash cr = ''x'')"
    using commit_announced_once [OF reach, of e 1 "CRRound cr" "''x''" "[]" undefined] by auto
  show ?thesis by (intro exI [of _ e] exI [of _ "CRRound cr"]) (rule ok)
qed

theorem local_round_commits_witness:
  "\<exists>e' cr. RunSyntheticBFTRoundWithExecutor tiny_wire calm
     \<lparr>Height = 1, PrevHash = [], Hash = [], Timestamp = utc 0, Transactions = [], BStateRoot = ''x'', TotalFees = fzero, GasUsed = 0, ProducerID = []\<rparr>
     (NewBFTExecutor example_engine) = (None, e') \<and> GetCommitted 1 (ex_bc e') = Some cr \<and> CRBlockHash cr = ''x''"
proof -
  let ?b = "\<lparr>Height = 1, PrevHash = [], Hash = [], Timestamp = utc 0, Transactions = [], BStateRoot = ''x'', TotalFees = fzero, GasUsed = 0, ProducerID = []\<rparr>"
  have bc: "ex_bc (NewBFTExecutor example_engine) = example_engine" by (simp add: NewBFTExecutor_def)
  have "ProposerForRound [''a'', ''b''] (\<lambda>_. 8) 0 example_engine = Inr ''a''"
    by (simp add: ProposerForRound_def proposerForRoundLocked_def example_engine_def Let_def ActiveValidators_def example_set_def map_filter_simps
        is_electable_def example_validator_def proposer_before_def)
  then show ?thesis
    using local_round_commits [of calm "NewBFTExecutor example_engine" ?b "''a''" tiny_wire] example_live example_exec_inv by (auto simp: bc)
qed

theorem gossiped_votes_commit_witness:
  "\<exists>c. GetCommitted 1 (ex_bc (deliver tiny_wire
       ((calm, [0, 0]) # map (\<lambda>a. (calm, [1, voter_byte a])) [''b'', ''a''] @ map (\<lambda>a. (calm, [2, voter_byte a])) [''b'', ''a''])
       (NewBFTExecutor example_engine))) = Some c \<and> CRBlockHash c = ''x''"
proof -
  let ?m = "\<lparr>WP_Height = 1, WP_Round = 0, WP_Proposer = ''a'', WP_BlockHash = ''x'', WP_Block = None\<rparr>"
  have bc: "ex_bc (NewBFTExecutor example_engine) = example_engine" by (simp add: NewBFTExecutor_def)
  have votes: "\<forall>a\<in>set [''b'', ''a'']. is_active_validator a (ex_bc (NewBFTExecutor example_engine)) \<and>
      carries tiny_wire [1, voter_byte a] (MsgPrevote (vote_msg 1 0 ''x'' a)) \<and> ce_vo calm = [''a'', ''b''] \<and> ce_ho calm = [''x''] \<and>
      carries tiny_wire [2, voter_byte a] (MsgPrecommit (vote_msg 1 0 ''x'' a)) \<and> ce_vo calm = [''a'', ''b'']"
    using example_active by (auto simp: bc tiny_wire_def UnmarshalBFTWire_def voter_byte_def calm_def BFTWirePrevote_def BFTWirePrecommit_def)
  have "Propose [''a'', ''b''] (ce_clk calm) 1 0 ''a'' ''x'' (ex_bc (NewBFTExecutor example_engine)) = Inr (example_round, example_proposed)"
    using example_propose by (simp add: bc calm_def)
  moreover have "carries tiny_wire [0, 0] (MsgPropose ?m)" by (simp add: tiny_wire_def UnmarshalBFTWire_def BFTWirePropose_def)
  moreover have "2 * total_weight 0 (bc_validators (ex_bc (NewBFTExecutor example_engine)))
      \<le> 3 * sum (weight 0 (bc_validators (ex_bc (NewBFTExecutor example_engine)))) (set [''b'', ''a''])"
    unfolding bc by (simp add: example_engine_simps(3) example_weights)
  ultimately show ?thesis
    using gossiped_votes_commit [of "[''a'', ''b'']" "NewBFTExecutor example_engine" 1 calm 0 "''a''" "''x''" example_round example_proposed
        tiny_wire "[0, 0]" ?m "[''b'', ''a'']" "[''x'']" "\<lambda>a. [1, voter_byte a]" "\<lambda>_. calm" "\<lambda>a. [2, voter_byte a]" "\<lambda>_. calm"]
      example_live example_exec_inv votes by (auto simp: bc validateInboundProposeBlock_def)
qed

end
