(* ===== verification/StakingTheorems.thy ===== *)
theory StakingTheorems
  imports StakingProofs
begin

text \<open>
  Properties of delegation and of the weights of the validators: coins are conserved from an empty ledger on, and a synchronisation
  restores the stake that a slash took.
\<close>

text \<open>
  C18: From an empty staking ledger over accounts with whole balances (in total at most \<open>2 ^ 53\<close>), through any sequence of
  delegations, unbondings and matured heights, whether accepted or not, whose amounts are whole numbers: the coins on the accounts, in
  bonds and in the unbonding queue are together the initial supply, and the power of every validator is exactly the sum of the bonds
  to it. The calls run one after the other.
\<close>

theorem staking_conserves_coins:
  assumes "whole_ledger as" "(staking_step whole_amount)\<^sup>*\<^sup>* (as, NewStakingLedger) (as', s)"
  shows "money_supply as' + bonded_total (delegatorIndex s) + unbonding s = money_supply as \<and> whole_ledger as' \<and>
    DelegatedPower v s = f_int (power_sum v (delegatorIndex s))"
proof -
  have "coins as NewStakingLedger = money_supply as" by (simp add: coins_def NewStakingLedger_def bonded_total_def unbonding_def)
  then show ?thesis
    using staking_steps_ok [OF assms(2)] staking_ok_new [OF assms(1)] by (simp add: staking_ok_def coins_def DelegatedPower_def map_f64_get)
qed

lemma slash_keeps_validators:
  assumes "Slash clk a reason vs = Inr (event, vs')"
  shows "fmdom' (validators vs') = fmdom' (validators vs)" "vs_config vs' = vs_config vs"
    "fmlookup (validators vs) b = Some v \<Longrightarrow> VStatus v \<noteq> ValidatorExited \<Longrightarrow> \<exists>v'. fmlookup (validators vs') b = Some v' \<and> VStatus v' \<noteq> ValidatorExited"
  using assms by (auto simp: Slash_def Let_def put_validator_def fmdom'_iff split: option.splits if_splits)

text \<open>
  The stake that a slash takes comes back with the next synchronisation: it recomputes every weight from balances, blocks and
  delegations, none of which the slash changed.
\<close>

theorem sync_restores_slashed_stake:
  assumes "Slash clk a reason vs = Inr (event, vs')"
    and "map_order (validators vs) vo" "map_order (validators vs) vo2" "map_order (delegated sl) order"
    and "fmlookup (validators vs) b = Some v" "VStatus v \<noteq> ValidatorExited" "b \<noteq> []"
  shows "map_option Stake (fmlookup (validators (SyncValidatorStakesFromCommittedTip vo vo2 order as (Some bs) (Some sl) vs')) b) =
    map_option Stake (fmlookup (validators (SyncValidatorStakesFromCommittedTip vo vo2 order as (Some bs) (Some sl) vs)) b)"
proof -
  note k = slash_keeps_validators [OF assms(1)]
  obtain v' where v': "fmlookup (validators vs') b = Some v'" "VStatus v' \<noteq> ValidatorExited" using k(3) [OF assms(5,6)] by blast
  have o: "map_order (validators vs') vo" "map_order (validators vs') vo2" using assms(2,3) k(1) by (auto simp: map_order_def)
  have "synced_weight vs' as bs sl b = synced_weight vs as bs sl b" using k(2) by (simp add: synced_weight_def plus_floor_def floored_def)
  then show ?thesis using synced_stakes [OF o assms(4) v' assms(7)] synced_stakes [OF assms(2-7)] by simp
qed

definition example_accounts :: AccountStore where
  "example_accounts = Credit ''d'' (f_int 100) NewAccountStore"

definition example_delegation :: "staking_error option \<times> AccountStore \<times> StakingLedger" where
  "example_delegation = Delegate ''d'' ''v'' (f_int 40) example_accounts NewStakingLedger"

lemma example_accounts_whole: "whole_ledger example_accounts" "money_supply example_accounts = 100"
  using Credit_whole [of NewAccountStore 100 "''d''"] by (simp_all add: example_accounts_def NewAccountStore_def whole_ledger_def money_supply_def)

theorem staking_conserves_coins_witness:
  "fst example_delegation = None \<and>
   money_supply (fst (snd example_delegation)) + bonded_total (delegatorIndex (snd (snd example_delegation))) + unbonding (snd (snd example_delegation)) = 100 \<and>
   DelegatedPower ''v'' (snd (snd example_delegation)) = f_int 40"
proof -
  obtain e as s where d: "example_delegation = (e, as, s)" by (cases example_delegation) auto
  then have "staking_step whole_amount (example_accounts, NewStakingLedger) (as, s)"
    by (auto simp: example_delegation_def whole_amount_def intro!: staking_step.delegate [of _ "f_int 40"])
  then have "(staking_step whole_amount)\<^sup>*\<^sup>* (example_accounts, NewStakingLedger) (as, s)" by (rule r_into_rtranclp)
  then have "money_supply as + bonded_total (delegatorIndex s) + unbonding s = money_supply example_accounts \<and> whole_ledger as \<and>
      DelegatedPower ''v'' s = f_int (power_sum ''v'' (delegatorIndex s))"
    by (rule staking_conserves_coins [OF example_accounts_whole(1)])
  moreover have "e = None" "fm_get fzero (delegated s) ''v'' = f_int 40"
    using d by (auto simp: example_delegation_def Delegate_def example_accounts_def Credit_def NewAccountStore_def Debit_def NewStakingLedger_def map_f64_get fzero_f_int)
  ultimately show ?thesis unfolding d using example_accounts_whole(2) by (simp add: DelegatedPower_def map_f64_get)
qed

theorem sync_restores_slashed_stake_witness:
  "\<exists>event vs'. Slash (\<lambda>_. 5) ''a'' SlashDoubleSign example_set = Inr (event, vs') \<and>
     map_option Stake (fmlookup (validators (SyncValidatorStakesFromCommittedTip [''a'', ''b''] [''b'', ''a''] [] example_accounts (Some []) (Some NewStakingLedger) vs')) ''a'') =
     map_option Stake (fmlookup (validators (SyncValidatorStakesFromCommittedTip [''a'', ''b''] [''b'', ''a''] [] example_accounts (Some []) (Some NewStakingLedger) example_set)) ''a'')"
proof -
  obtain event vs' where s: "Slash (\<lambda>_. 5) ''a'' SlashDoubleSign example_set = Inr (event, vs')"
    by (auto simp: Slash_def example_set_def example_validator_def Let_def)
  have "map_order (validators example_set) [''a'', ''b'']" using example_voting_ok by (simp add: voting_ok_def)
  moreover from this have "map_order (validators example_set) [''b'', ''a'']" by (auto simp: map_order_def)
  moreover have "map_order (delegated NewStakingLedger) []" by (simp add: map_order_def NewStakingLedger_def)
  moreover have "\<exists>v. fmlookup (validators example_set) ''a'' = Some v \<and> VStatus v \<noteq> ValidatorExited"
    by (simp add: example_set_def example_validator_def)
  ultimately show ?thesis using sync_restores_slashed_stake [OF s] s by (metis list.distinct(1))
qed

end
