(* ===== verification/Finality.thy ===== *)
theory Finality
  imports PolFollower
begin

text \<open>
  \<open>pkg/chain/finality.go\<close>: confirmation depth and finality of blocks. The proof-of-lock follower is shared with the producer and is an
  argument of the sweep, \<open>order\<close> is the iteration order of the records and \<open>clk h\<close> the clock reading when the record at height \<open>h\<close>
  is finalized. \<open>int\<close> of a \<open>uint64\<close> is its signed reading. The background sweep only calls \<open>UpdateTip\<close> on a timer.
\<close>

datatype FinalityStatus = FinalityPending | FinalityConfirmed | FinalityFinalized

record FinalityConfig =
  ConfirmationDepth :: int
  FinalityDepth :: int
  ReorgLimit :: int

definition DefaultFinalityConfig :: FinalityConfig where
  "DefaultFinalityConfig = \<lparr>ConfirmationDepth = 6, FinalityDepth = 20, ReorgLimit = 50\<rparr>"

record FinalityRecord =
  FR_Height :: u64
  FR_Hash :: string
  FR_StateRoot :: string
  FR_Status :: FinalityStatus
  Confirmations :: int
  FinalizedAt :: go_time

record FinalityGadget =
  fg_records :: "(u64, FinalityRecord) fmap"
  fg_config :: FinalityConfig
  chainTip :: u64
  lastFinalized :: u64

datatype finality_error = ErrReorgDepth u64 int | ErrReorgFinalized u64

definition NewFinalityGadget :: "FinalityConfig \<Rightarrow> FinalityGadget" where
  "NewFinalityGadget cfg =
     (let cfg = (if ConfirmationDepth cfg \<le> 0 then cfg\<lparr>ConfirmationDepth := 6\<rparr> else cfg);
          cfg = (if FinalityDepth cfg \<le> 0 then cfg\<lparr>FinalityDepth := 20\<rparr> else cfg);
          cfg = (if ReorgLimit cfg \<le> 0 then cfg\<lparr>ReorgLimit := 50\<rparr> else cfg)
      in \<lparr>fg_records = fmempty, fg_config = cfg, chainTip = 0, lastFinalized = 0\<rparr>)"

definition TrackBlockWithMeta :: "u64 \<Rightarrow> string \<Rightarrow> string \<Rightarrow> FinalityGadget \<Rightarrow> FinalityGadget" where
  "TrackBlockWithMeta height blockHash stateRoot fg =
     fg\<lparr>fg_records := fmupd height \<lparr>FR_Height = height, FR_Hash = blockHash, FR_StateRoot = stateRoot, FR_Status = FinalityPending,
            Confirmations = 0, FinalizedAt = 0\<rparr> (fg_records fg),
        chainTip := (if height > chainTip fg then height else chainTip fg)\<rparr>"

definition TrackBlock :: "u64 \<Rightarrow> string \<Rightarrow> FinalityGadget \<Rightarrow> FinalityGadget" where
  "TrackBlock height hash fg = TrackBlockWithMeta height hash [] fg"

text \<open>The first two tests of the sweep: count the confirmations, and confirm.\<close>

definition confirm_record :: "FinalityConfig \<Rightarrow> u64 \<Rightarrow> u64 \<Rightarrow> FinalityRecord \<Rightarrow> FinalityRecord" where
  "confirm_record cfg tipHeight height rec =
     (let rec = (if tipHeight \<ge> height then rec\<lparr>Confirmations := sint (tipHeight - height)\<rparr> else rec)
      in if FR_Status rec = FinalityPending \<and> Confirmations rec \<ge> ConfirmationDepth cfg then rec\<lparr>FR_Status := FinalityConfirmed\<rparr> else rec)"

text \<open>The third test: a confirmed record that is deep enough, unless the follower forbids it.\<close>

definition may_finalize :: "PolFollower option \<Rightarrow> FinalityConfig \<Rightarrow> u64 \<Rightarrow> FinalityRecord \<Rightarrow> bool" where
  "may_finalize pol cfg height rec \<longleftrightarrow>
     FR_Status rec = FinalityConfirmed \<and> Confirmations rec \<ge> FinalityDepth cfg \<and>
     (case pol of None \<Rightarrow> True | Some p \<Rightarrow> AllowFinalize height (FR_StateRoot rec) p)"

fun sweep :: "PolFollower option \<Rightarrow> (u64 \<Rightarrow> go_time) \<Rightarrow> u64 \<Rightarrow> u64 list \<Rightarrow> nat \<times> nat \<Rightarrow> FinalityGadget \<Rightarrow> (nat \<times> nat) \<times> FinalityGadget" where
  "sweep pol clk tipHeight [] n fg = (n, fg)"
| "sweep pol clk tipHeight (height # order) (newlyConfirmed, newlyFinalized) fg =
     (case fmlookup (fg_records fg) height of
        None \<Rightarrow> sweep pol clk tipHeight order (newlyConfirmed, newlyFinalized) fg
      | Some rec0 \<Rightarrow>
          let rec = confirm_record (fg_config fg) tipHeight height rec0;
              newlyConfirmed = (if FR_Status rec = FR_Status rec0 then newlyConfirmed else newlyConfirmed + 1)
          in if may_finalize pol (fg_config fg) height rec
             then sweep pol clk tipHeight order (newlyConfirmed, newlyFinalized + 1)
                    (fg\<lparr>fg_records := fmupd height (rec\<lparr>FR_Status := FinalityFinalized, FinalizedAt := clk height\<rparr>) (fg_records fg),
                        lastFinalized := (if height > lastFinalized fg then height else lastFinalized fg)\<rparr>)
             else sweep pol clk tipHeight order (newlyConfirmed, newlyFinalized) (fg\<lparr>fg_records := fmupd height rec (fg_records fg)\<rparr>))"

definition UpdateTip ::
    "PolFollower option \<Rightarrow> u64 list \<Rightarrow> (u64 \<Rightarrow> go_time) \<Rightarrow> u64 \<Rightarrow> FinalityGadget \<Rightarrow> (nat \<times> nat) \<times> FinalityGadget" where
  "UpdateTip pol order clk tipHeight fg = sweep pol clk tipHeight order (0, 0) (fg\<lparr>chainTip := tipHeight\<rparr>)"

definition GetStatus :: "u64 \<Rightarrow> FinalityGadget \<Rightarrow> FinalityRecord option" where
  "GetStatus height fg = fmlookup (fg_records fg) height"

definition IsFinalized :: "u64 \<Rightarrow> FinalityGadget \<Rightarrow> bool" where
  "IsFinalized height fg = (case fmlookup (fg_records fg) height of None \<Rightarrow> False | Some rec \<Rightarrow> FR_Status rec = FinalityFinalized)"

definition CheckReorg :: "u64 \<Rightarrow> FinalityGadget \<Rightarrow> finality_error option" where
  "CheckReorg forkHeight fg =
     (if chainTip fg = 0 \<or> forkHeight \<ge> chainTip fg then None
      else let depth = chainTip fg - forkHeight
           in if sint depth > ReorgLimit (fg_config fg) then Some (ErrReorgDepth depth (ReorgLimit (fg_config fg)))
              else if forkHeight \<le> lastFinalized fg then Some (ErrReorgFinalized (lastFinalized fg))
              else None)"

definition LastFinalized :: "FinalityGadget \<Rightarrow> u64" where
  "LastFinalized fg = lastFinalized fg"

definition Finality_PendingCount :: "FinalityGadget \<Rightarrow> nat" where
  "Finality_PendingCount fg = fmap_total (\<lambda>r. if FR_Status r = FinalityPending then 1 else 0) (fg_records fg)"

definition FinalizedCount :: "FinalityGadget \<Rightarrow> nat" where
  "FinalizedCount fg = fmap_total (\<lambda>r. if FR_Status r = FinalityFinalized then 1 else 0) (fg_records fg)"

section \<open>One sweep\<close>

definition swept :: "PolFollower option \<Rightarrow> (u64 \<Rightarrow> go_time) \<Rightarrow> FinalityConfig \<Rightarrow> u64 \<Rightarrow> u64 \<Rightarrow> FinalityRecord \<Rightarrow> FinalityRecord" where
  "swept pol clk cfg tipHeight height rec =
     (let rec = confirm_record cfg tipHeight height rec
      in if may_finalize pol cfg height rec then rec\<lparr>FR_Status := FinalityFinalized, FinalizedAt := clk height\<rparr> else rec)"

abbreviation finalizes :: "PolFollower option \<Rightarrow> FinalityConfig \<Rightarrow> u64 \<Rightarrow> u64 \<Rightarrow> FinalityRecord \<Rightarrow> bool" where
  "finalizes pol cfg tipHeight height rec \<equiv> may_finalize pol cfg height (confirm_record cfg tipHeight height rec)"

text \<open>What a sweep does to every record, in any iteration order, and where it leaves the last finalized height.\<close>

definition sweep_post :: "PolFollower option \<Rightarrow> (u64 \<Rightarrow> go_time) \<Rightarrow> u64 \<Rightarrow> u64 set \<Rightarrow> FinalityGadget \<Rightarrow> FinalityGadget \<Rightarrow> bool" where
  "sweep_post pol clk tip H fg fg' \<longleftrightarrow>
     (\<forall>h. fmlookup (fg_records fg') h =
        (if h \<in> H then map_option (swept pol clk (fg_config fg) tip h) (fmlookup (fg_records fg) h) else fmlookup (fg_records fg) h)) \<and>
     fg_config fg' = fg_config fg \<and> chainTip fg' = chainTip fg \<and> lastFinalized fg \<le> lastFinalized fg' \<and>
     (\<forall>h\<in>H. \<forall>r. fmlookup (fg_records fg) h = Some r \<longrightarrow> finalizes pol (fg_config fg) tip h r \<longrightarrow> h \<le> lastFinalized fg') \<and>
     (lastFinalized fg' = lastFinalized fg \<or>
      (\<exists>h\<in>H. \<exists>r. fmlookup (fg_records fg) h = Some r \<and> finalizes pol (fg_config fg) tip h r \<and> lastFinalized fg' = h))"

lemma sweep_result:
  assumes "sweep pol clk tip order n fg = (n', fg')" "distinct order"
  shows "sweep_post pol clk tip (set order) fg fg'"
  using assms
proof (induction pol clk tip order n fg arbitrary: n' fg' rule: sweep.induct)
  case (1 pol clk tip n fg)
  then show ?case by (simp add: sweep_post_def)
next
  case (2 pol clk tip k order c f fg)
  have d: "k \<notin> set order" "distinct order" using 2(5) by simp_all
  show ?case
  proof (cases "fmlookup (fg_records fg) k")
    case None
    have "sweep_post pol clk tip (set order) fg fg'" using 2(1) [OF None] 2(4) d(2) None by simp
    then show ?thesis using None by (auto simp: sweep_post_def)
  next
    case (Some r)
    let ?r = "confirm_record (fg_config fg) tip k r"
    let ?c = "if FR_Status ?r = FR_Status r then c else c + 1"
    show ?thesis
    proof (cases "may_finalize pol (fg_config fg) k ?r")
      case True
      define fg1 where "fg1 = fg\<lparr>fg_records := fmupd k (?r\<lparr>FR_Status := FinalityFinalized, FinalizedAt := clk k\<rparr>) (fg_records fg),
                        lastFinalized := (if k > lastFinalized fg then k else lastFinalized fg)\<rparr>"
      have "sweep pol clk tip order (?c, f + 1) fg1 = (n', fg')" using 2(4) Some True by (simp add: Let_def fg1_def)
      from 2(2) [OF Some refl refl True this [unfolded fg1_def] d(2)] have "sweep_post pol clk tip (set order) fg1 fg'" by (simp add: fg1_def)
      moreover have "fmlookup (fg_records fg1) h = (if h = k then Some (swept pol clk (fg_config fg) tip k r) else fmlookup (fg_records fg) h)" for h
        using True by (simp add: fg1_def swept_def Let_def)
      moreover have "fg_config fg1 = fg_config fg" "chainTip fg1 = chainTip fg" "lastFinalized fg \<le> lastFinalized fg1" "k \<le> lastFinalized fg1"
          "lastFinalized fg1 = lastFinalized fg \<or> lastFinalized fg1 = k"
        by (auto simp: fg1_def)
      ultimately show ?thesis using Some True d(1) unfolding sweep_post_def by (auto intro: order_trans split: if_splits)
    next
      case False
      define fg1 where "fg1 = fg\<lparr>fg_records := fmupd k ?r (fg_records fg)\<rparr>"
      have "sweep pol clk tip order (?c, f) fg1 = (n', fg')" using 2(4) Some False by (simp add: Let_def fg1_def)
      from 2(3) [OF Some refl refl False this [unfolded fg1_def] d(2)] have "sweep_post pol clk tip (set order) fg1 fg'" by (simp add: fg1_def)
      moreover have "fmlookup (fg_records fg1) h = (if h = k then Some (swept pol clk (fg_config fg) tip k r) else fmlookup (fg_records fg) h)" for h
        using False by (simp add: fg1_def swept_def Let_def)
      moreover have "fg_config fg1 = fg_config fg" "chainTip fg1 = chainTip fg" "lastFinalized fg1 = lastFinalized fg" by (auto simp: fg1_def)
      ultimately show ?thesis using Some False d(1) unfolding sweep_post_def by (auto split: if_splits)
    qed
  qed
qed

section \<open>Finalized blocks\<close>

definition buried :: "FinalityConfig \<Rightarrow> u64 \<Rightarrow> u64 \<Rightarrow> bool" where
  "buried cfg tip h \<longleftrightarrow> uint h + FinalityDepth cfg \<le> uint tip"

definition finality_ok :: "FinalityGadget \<Rightarrow> bool" where
  "finality_ok fg \<longleftrightarrow>
     0 < FinalityDepth (fg_config fg) \<and>
     (\<forall>h r. fmlookup (fg_records fg) h = Some r \<longrightarrow>
        h \<le> chainTip fg \<and> (FR_Status r = FinalityFinalized \<longrightarrow> h \<le> lastFinalized fg \<and> buried (fg_config fg) (chainTip fg) h)) \<and>
     (lastFinalized fg \<noteq> 0 \<longrightarrow> buried (fg_config fg) (chainTip fg) (lastFinalized fg))"

text \<open>The gadget in use: blocks are tracked, also again at a height that is already tracked, and the tip does not move back.\<close>

inductive finality_step :: "FinalityGadget \<Rightarrow> FinalityGadget \<Rightarrow> bool" where
  track: "finality_step fg (TrackBlockWithMeta height hash stateRoot fg)"
| tip: "chainTip fg \<le> tipHeight \<Longrightarrow> map_order (fg_records fg) order \<Longrightarrow>
    finality_step fg (snd (UpdateTip pol order clk tipHeight fg))"

lemma buried_mono: "buried cfg tip h \<Longrightarrow> tip \<le> tip' \<Longrightarrow> buried cfg tip' h"
  by (auto simp: buried_def word_le_def)

lemma sint_le_uint: "sint (x :: u64) \<le> uint x"
proof -
  have "- 9223372036854775808 \<le> uint x" by (rule order_trans [OF _ uint_ge_0]) simp
  then show ?thesis by (simp add: sint_uint signed_take_bit_int_less_eq_self_iff)
qed

lemma finalizes_buried:
  assumes "finalizes pol cfg tip h r" "h \<le> tip"
  shows "buried cfg tip h"
proof -
  have "FinalityDepth cfg \<le> sint (tip - h)" using assms by (auto simp: may_finalize_def confirm_record_def Let_def split: if_splits)
  also have "\<dots> \<le> uint (tip - h)" by (rule sint_le_uint)
  also have "\<dots> = uint tip - uint h" using assms(2) by (simp add: uint_minus_simple_alt [THEN iffD1])
  finally show ?thesis by (simp add: buried_def)
qed

lemma swept_status:
  "FR_Status (swept pol clk cfg tip h r) = FinalityFinalized \<longleftrightarrow> FR_Status r = FinalityFinalized \<or> finalizes pol cfg tip h r"
  by (auto simp: swept_def Let_def confirm_record_def may_finalize_def)

lemma update_post:
  assumes "map_order (fg_records fg) order"
  shows "sweep_post pol clk tip (fmdom' (fg_records fg)) (fg\<lparr>chainTip := tip\<rparr>) (snd (UpdateTip pol order clk tip fg))"
  using sweep_result [of pol clk tip order "(0, 0)" "fg\<lparr>chainTip := tip\<rparr>"] assms
  by (cases "UpdateTip pol order clk tip fg") (simp add: UpdateTip_def map_order_def)

lemma finality_step_ok:
  assumes "finality_step fg fg'" "finality_ok fg"
  shows "finality_ok fg'"
  using assms(1)
proof cases
  case (track height hash root)
  have t: "chainTip fg \<le> chainTip fg'" "height \<le> chainTip fg'" by (auto simp: track TrackBlockWithMeta_def)
  have c: "fg_config fg' = fg_config fg" "lastFinalized fg' = lastFinalized fg" by (simp_all add: track TrackBlockWithMeta_def)
  have "h \<le> chainTip fg' \<and> (FR_Status r = FinalityFinalized \<longrightarrow> h \<le> lastFinalized fg \<and> buried (fg_config fg) (chainTip fg') h)"
    if "fmlookup (fg_records fg') h = Some r" for h r
  proof (cases "h = height")
    case False
    then have "fmlookup (fg_records fg) h = Some r" using that by (simp add: track TrackBlockWithMeta_def)
    then show ?thesis using assms(2) t(1) buried_mono [OF _ t(1)] unfolding finality_ok_def by (meson order_trans)
  qed (use that t in \<open>auto simp: track TrackBlockWithMeta_def\<close>)
  then show ?thesis using assms(2) c buried_mono [OF _ t(1)] unfolding finality_ok_def by auto
next
  case (tip t order pol clk)
  have post: "sweep_post pol clk t (fmdom' (fg_records fg)) (fg\<lparr>chainTip := t\<rparr>) fg'"
    using update_post [OF tip(3), of pol clk t] tip(1) by simp
  have c: "fg_config fg' = fg_config fg" "chainTip fg' = t" "lastFinalized fg \<le> lastFinalized fg'" using post by (simp_all add: sweep_post_def)
  have rec: "h \<le> t \<and> (FR_Status r = FinalityFinalized \<longrightarrow> h \<le> lastFinalized fg' \<and> buried (fg_config fg) t h)"
    if l: "fmlookup (fg_records fg') h = Some r" for h r
  proof -
    obtain r0 where r0: "fmlookup (fg_records fg) h = Some r0" "r = swept pol clk (fg_config fg) t h r0"
    proof (cases "fmlookup (fg_records fg) h")
      case None
      then have "fmlookup (fg_records fg') h = None" using post by (simp add: sweep_post_def)
      then show ?thesis using l by simp
    next
      case (Some r0)
      then have "fmlookup (fg_records fg') h = Some (swept pol clk (fg_config fg) t h r0)" using post by (simp add: sweep_post_def fmdom'_iff)
      then show ?thesis using that Some l by simp
    qed
    then have "h \<le> chainTip fg" using assms(2) by (simp add: finality_ok_def)
    then have h: "h \<le> t" using tip(2) by (rule order_trans)
    have fin: "finalizes pol (fg_config fg) t h r0 \<Longrightarrow> h \<le> lastFinalized fg'"
      using post r0(1) by (auto simp: sweep_post_def fmdom'_iff)
    have old: "FR_Status r0 = FinalityFinalized \<Longrightarrow> h \<le> lastFinalized fg' \<and> buried (fg_config fg) t h"
      using assms(2) r0(1) c(3) buried_mono [OF _ tip(2)] unfolding finality_ok_def by (meson order_trans)
    show ?thesis unfolding r0(2) swept_status using h fin old finalizes_buried by blast
  qed
  have "lastFinalized fg' = lastFinalized fg \<or> (\<exists>h r. fmlookup (fg_records fg) h = Some r \<and> finalizes pol (fg_config fg) t h r \<and> lastFinalized fg' = h)"
    using post by (auto simp: sweep_post_def)
  then have "lastFinalized fg' \<noteq> 0 \<longrightarrow> buried (fg_config fg) t (lastFinalized fg')"
    using assms(2) tip(2) buried_mono [OF _ tip(2)] finalizes_buried unfolding finality_ok_def by (metis order_trans)
  then show ?thesis using rec c assms(2) unfolding finality_ok_def by simp
qed

lemma finality_ok_new: "finality_ok (NewFinalityGadget cfg)"
  by (simp add: NewFinalityGadget_def finality_ok_def Let_def)

lemma finality_reach_ok: "finality_step\<^sup>*\<^sup>* (NewFinalityGadget cfg) fg \<Longrightarrow> finality_ok fg"
  by (induction rule: rtranclp_induct) (auto intro: finality_ok_new finality_step_ok)

text \<open>
  C16: A reorganisation that \<open>CheckReorg\<close> admits never reaches a finalized block, finalized blocks lie the configured depth below the tip, and
  a later sweep keeps them finalized with the hash they have.
\<close>

theorem admitted_reorg_spares_finalized:
  assumes "finality_step\<^sup>*\<^sup>* (NewFinalityGadget cfg) fg" "IsFinalized h fg"
  shows "(CheckReorg forkHeight fg = None \<longrightarrow> h < forkHeight) \<and> buried (fg_config fg) (chainTip fg) h \<and>
    (map_order (fg_records fg) order \<longrightarrow>
      IsFinalized h (snd (UpdateTip pol order clk tipHeight fg)) \<and>
      map_option FR_Hash (GetStatus h (snd (UpdateTip pol order clk tipHeight fg))) = map_option FR_Hash (GetStatus h fg))"
proof (intro conjI impI)
  have ok: "finality_ok fg" using assms(1) by (rule finality_reach_ok)
  obtain r where r: "fmlookup (fg_records fg) h = Some r" "FR_Status r = FinalityFinalized"
    using assms(2) by (auto simp: IsFinalized_def split: option.splits)
  have b: "h \<le> lastFinalized fg" "buried (fg_config fg) (chainTip fg) h" "0 < FinalityDepth (fg_config fg)"
    using ok r by (auto simp: finality_ok_def)
  then show "buried (fg_config fg) (chainTip fg) h" by simp
  have "h < chainTip fg" using b(2,3) by (simp add: buried_def word_less_def)
  then show "h < forkHeight" if "CheckReorg forkHeight fg = None"
    using that b(1) by (auto simp: CheckReorg_def Let_def split: if_splits)
  assume o: "map_order (fg_records fg) order"
  have "fmlookup (fg_records (snd (UpdateTip pol order clk tipHeight fg))) h = Some (swept pol clk (fg_config fg) tipHeight h r)"
    using update_post [OF o, of pol clk tipHeight] r(1) by (auto simp: sweep_post_def fmdom'_iff)
  moreover have "FR_Hash (swept pol clk (fg_config fg) tipHeight h r) = FR_Hash r" by (simp add: swept_def confirm_record_def Let_def)
  ultimately show "IsFinalized h (snd (UpdateTip pol order clk tipHeight fg))"
      "map_option FR_Hash (GetStatus h (snd (UpdateTip pol order clk tipHeight fg))) = map_option FR_Hash (GetStatus h fg)"
    using r by (simp_all add: IsFinalized_def GetStatus_def swept_status)
qed

text \<open>Without a follower a sweep finalizes every tracked block that is deep enough.\<close>

lemma deep_block_is_finalized:
  assumes "map_order (fg_records fg) order" "fmlookup (fg_records fg) h = Some r" "h \<le> tipHeight"
    and "uint (tipHeight - h) < 2 ^ 63" "uint (tipHeight - h) \<ge> FinalityDepth (fg_config fg)" "uint (tipHeight - h) \<ge> ConfirmationDepth (fg_config fg)"
  shows "IsFinalized h (snd (UpdateTip None order clk tipHeight fg))"
proof -
  have "- 9223372036854775808 \<le> uint (tipHeight - h)" by (rule order_trans [OF _ uint_ge_0]) simp
  then have "sint (tipHeight - h) = uint (tipHeight - h)"
    using assms(4) signed_take_bit_int_eq_self [of 63 "uint (tipHeight - h)"] by (simp add: sint_uint)
  then have "FR_Status r = FinalityFinalized \<or> finalizes None (fg_config fg) tipHeight h r"
    using assms(3,5,6) by (cases "FR_Status r") (auto simp: may_finalize_def confirm_record_def Let_def)
  moreover have "fmlookup (fg_records (snd (UpdateTip None order clk tipHeight fg))) h = Some (swept None clk (fg_config fg) tipHeight h r)"
    using update_post [OF assms(1), of None clk tipHeight] assms(2) by (auto simp: sweep_post_def fmdom'_iff)
  ultimately show ?thesis by (simp add: IsFinalized_def swept_status)
qed

text \<open>Tracking another block at a finalized height replaces the record, and the height counts as pending again.\<close>

lemma tracking_drops_finality:
  "\<not> IsFinalized height (TrackBlockWithMeta height hash stateRoot fg) \<and> lastFinalized (TrackBlockWithMeta height hash stateRoot fg) = lastFinalized fg"
  by (simp add: IsFinalized_def TrackBlockWithMeta_def)

text \<open>The sweep takes the tip it is given: after a sweep with a lower tip a reorganisation to a finalized height is admitted.\<close>

lemma lower_tip_admits_reorg:
  assumes "map_order (fg_records fg) order" "tipHeight \<le> forkHeight"
  shows "CheckReorg forkHeight (snd (UpdateTip pol order clk tipHeight fg)) = None"
  using update_post [OF assms(1), of pol clk tipHeight] assms(2) by (simp add: CheckReorg_def sweep_post_def)

definition example_gadget :: FinalityGadget where
  "example_gadget = snd (UpdateTip None [1] (\<lambda>_. 5) 30 (TrackBlock 1 ''b1'' (NewFinalityGadget DefaultFinalityConfig)))"

theorem admitted_reorg_spares_finalized_witness:
  "IsFinalized 1 example_gadget \<and> CheckReorg 1 example_gadget \<noteq> None \<and> buried DefaultFinalityConfig 30 1"
proof -
  let ?fg = "TrackBlock 1 ''b1'' (NewFinalityGadget DefaultFinalityConfig)"
  have cfg: "fg_config ?fg = DefaultFinalityConfig" "chainTip ?fg = 1" "map_order (fg_records ?fg) [1]"
    "fmlookup (fg_records ?fg) 1 = Some \<lparr>FR_Height = 1, FR_Hash = ''b1'', FR_StateRoot = [], FR_Status = FinalityPending, Confirmations = 0, FinalizedAt = 0\<rparr>"
    by (simp_all add: TrackBlock_def TrackBlockWithMeta_def NewFinalityGadget_def DefaultFinalityConfig_def Let_def map_order_def)
  have "finality_step\<^sup>*\<^sup>* (NewFinalityGadget DefaultFinalityConfig) example_gadget"
    using finality_step.track [of "NewFinalityGadget DefaultFinalityConfig" 1 "''b1''" "[]"] finality_step.tip [of ?fg 30 "[1]" None "\<lambda>_. 5"] cfg(2,3)
    by (simp add: example_gadget_def TrackBlock_def)
  moreover have "IsFinalized 1 example_gadget"
    unfolding example_gadget_def by (rule deep_block_is_finalized [OF cfg(3,4)]) (unfold cfg(1), simp_all add: DefaultFinalityConfig_def)
  moreover have "fg_config example_gadget = DefaultFinalityConfig" "chainTip example_gadget = 30"
    using update_post [OF cfg(3), of None "\<lambda>_. 5" 30] cfg(1) by (simp_all add: sweep_post_def example_gadget_def)
  ultimately show ?thesis using admitted_reorg_spares_finalized [of DefaultFinalityConfig example_gadget 1 1] by auto
qed

end
