(* ===== verification/ChainProofs.thy ===== *)
theory ChainProofs
  imports BlockProducer
begin

text \<open>
  Correctness of the block producer: replicas agree, the chain stays linked and append-only, the state
  is the replay of the chain, errors change nothing, ordering by nonce. The interface to the state is
  the locale \<open>replay_applier\<close>, interpreted on the account store.
\<close>

section \<open>The applier contract\<close>

definition block_state :: "('s, 'e) StateApplier \<Rightarrow> u64 \<Rightarrow> Tx list \<Rightarrow> 's \<Rightarrow> 'e option \<times> 's" where
  "block_state ap tip txs s = replay_txs (ap_ApplyTx ap tip) txs s"

locale replay_applier =
  fixes ap :: "('s, 'e) StateApplier"
  assumes failed_tx_keeps_state: "ap_ApplyTx ap h tx s = (Some e, s') \<Longrightarrow> s' = s"
    and clone_copies: "ap_Clone ap = Some c \<Longrightarrow> c s = s"
    and replay_copies: "ap_Replay ap = Some (c, r) \<Longrightarrow> c s = s \<and> snd (r b s) = b"
begin

lemma replay_of_included:
  "apply_txs (ap_ApplyTx ap h) txs s = (ocs, s') \<Longrightarrow> replay_txs (ap_ApplyTx ap h) (included ocs) s = (None, s')"
proof (induction txs arbitrary: s ocs)
  case (Cons tx txs)
  obtain err s1 where f: "ap_ApplyTx ap h tx s = (err, s1)" by fastforce
  obtain ocs1 where rest: "apply_txs (ap_ApplyTx ap h) txs s1 = (ocs1, s')" "ocs = (tx, err) # ocs1"
    using Cons.prems f by (auto split: prod.splits)
  have "replay_txs (ap_ApplyTx ap h) (included ocs1) s1 = (None, s')" using Cons.IH rest(1) by blast
  then show ?case
    using failed_tx_keeps_state [of h tx s _ s1] f rest(2) by (cases err) (auto simp: included_def)
qed (simp add: included_def)

lemma none_included: "apply_txs (ap_ApplyTx ap h) txs s = (ocs, s') \<Longrightarrow> included ocs = [] \<Longrightarrow> s' = s"
  using replay_of_included by fastforce

end

lemma map_fst_apply_txs: "apply_txs f txs s = (ocs, s') \<Longrightarrow> map fst ocs = txs"
  by (induction txs arbitrary: s ocs) (auto split: prod.splits)

section \<open>Frames\<close>

text \<open>The state after both callbacks, when they run one after the other on a chain.\<close>

definition after_hooks ::
    "(Block list \<Rightarrow> 's \<Rightarrow> 's) option \<Rightarrow> (Block \<Rightarrow> 's \<Rightarrow> 's) option \<Rightarrow> Block list \<Rightarrow> Block \<Rightarrow> 's \<Rightarrow> 's" where
  "after_hooks os ob bs b s =
     (let s = (case os of None \<Rightarrow> s | Some f \<Rightarrow> f bs s) in case ob of None \<Rightarrow> s | Some f \<Rightarrow> f b s)"

definition hooked :: "('s, 'e) BlockProducer \<Rightarrow> Block \<Rightarrow> 's \<Rightarrow> 's" where
  "hooked bp blk s = after_hooks (OnSealed bp) (OnSealedBlock bp) (chain bp @ [blk]) blk s"

lemma append_block_frame [simp]:
  "chain (append_block blk bp) = chain bp @ [blk]" "live (append_block blk bp) = live bp"
  "applier (append_block blk bp) = applier bp" "tipHeight (append_block blk bp) = Height blk"
  "tipHeightSet (append_block blk bp)" "OnSealed (append_block blk bp) = OnSealed bp"
  "OnSealedBlock (append_block blk bp) = OnSealedBlock bp" "pool (append_block blk bp) = pool bp"
  "appendReceipts (append_block blk bp) = appendReceipts bp"
  by (simp_all add: append_block_def)

lemma run_OnSealed_frame [simp]:
  "chain (run_OnSealed bp) = chain bp" "applier (run_OnSealed bp) = applier bp"
  "tipHeight (run_OnSealed bp) = tipHeight bp" "tipHeightSet (run_OnSealed bp) = tipHeightSet bp"
  "OnSealed (run_OnSealed bp) = OnSealed bp" "OnSealedBlock (run_OnSealed bp) = OnSealedBlock bp"
  "pool (run_OnSealed bp) = pool bp" "appendReceipts (run_OnSealed bp) = appendReceipts bp"
  "live (run_OnSealed bp) = (case OnSealed bp of None \<Rightarrow> live bp | Some f \<Rightarrow> f (chain bp) (live bp))"
  by (auto simp: run_OnSealed_def split: option.split)

lemma run_OnSealedBlock_frame [simp]:
  "chain (run_OnSealedBlock blk bp) = chain bp" "applier (run_OnSealedBlock blk bp) = applier bp"
  "tipHeight (run_OnSealedBlock blk bp) = tipHeight bp" "tipHeightSet (run_OnSealedBlock blk bp) = tipHeightSet bp"
  "OnSealed (run_OnSealedBlock blk bp) = OnSealed bp" "OnSealedBlock (run_OnSealedBlock blk bp) = OnSealedBlock bp"
  "pool (run_OnSealedBlock blk bp) = pool bp" "appendReceipts (run_OnSealedBlock blk bp) = appendReceipts bp"
  "live (run_OnSealedBlock blk bp) = (case OnSealedBlock bp of None \<Rightarrow> live bp | Some f \<Rightarrow> f blk (live bp))"
  by (auto simp: run_OnSealedBlock_def split: option.split)

lemma run_hooks_frame [simp]:
  "chain (run_hooks blk bp) = chain bp" "applier (run_hooks blk bp) = applier bp"
  "tipHeight (run_hooks blk bp) = tipHeight bp" "tipHeightSet (run_hooks blk bp) = tipHeightSet bp"
  "OnSealed (run_hooks blk bp) = OnSealed bp" "OnSealedBlock (run_hooks blk bp) = OnSealedBlock bp"
  "pool (run_hooks blk bp) = pool bp" "appendReceipts (run_hooks blk bp) = appendReceipts bp"
  "live (run_hooks blk bp) = after_hooks (OnSealed bp) (OnSealedBlock bp) (chain bp) blk (live bp)"
  by (simp_all add: run_hooks_def after_hooks_def Let_def split: option.split)

lemma hooked_cong: "OnSealed a = OnSealed b \<Longrightarrow> OnSealedBlock a = OnSealedBlock b \<Longrightarrow> chain a = chain b \<Longrightarrow> hooked a = hooked b"
  by (simp add: hooked_def fun_eq_iff)

lemma seal_finish_frame [simp]:
  "chain (seal_finish now blk ocs bp) = chain bp" "applier (seal_finish now blk ocs bp) = applier bp"
  "tipHeight (seal_finish now blk ocs bp) = tipHeight bp" "tipHeightSet (seal_finish now blk ocs bp) = tipHeightSet bp"
  "OnSealed (seal_finish now blk ocs bp) = OnSealed bp" "OnSealedBlock (seal_finish now blk ocs bp) = OnSealedBlock bp"
  "pool (seal_finish now blk ocs bp) = pool bp"
  "live (seal_finish now blk ocs bp) = after_hooks (OnSealed bp) (OnSealedBlock bp) (chain bp) blk (live bp)"
  by (cases "appendReceipts bp"; simp add: seal_finish_def)+

lemma append_finish_frame [simp]:
  "chain (append_finish now c blk bk bp) = chain bp" "applier (append_finish now c blk bk bp) = applier bp"
  "tipHeight (append_finish now c blk bk bp) = tipHeight bp" "tipHeightSet (append_finish now c blk bk bp) = tipHeightSet bp"
  "OnSealed (append_finish now c blk bk bp) = OnSealed bp" "OnSealedBlock (append_finish now c blk bk bp) = OnSealedBlock bp"
  "pool (append_finish now c blk bk bp) = pool bp"
  "live (append_finish now c blk bk bp) = after_hooks (OnSealed bp) (OnSealedBlock bp) (chain bp) blk (live bp)"
  by (cases "appendReceipts bp"; simp add: append_finish_def)+

lemma restore_pool_frame [simp]:
  "chain (restore_pool clk txs bp) = chain bp" "live (restore_pool clk txs bp) = live bp"
  "applier (restore_pool clk txs bp) = applier bp" "tipHeight (restore_pool clk txs bp) = tipHeight bp"
  "tipHeightSet (restore_pool clk txs bp) = tipHeightSet bp" "OnSealed (restore_pool clk txs bp) = OnSealed bp"
  "OnSealedBlock (restore_pool clk txs bp) = OnSealedBlock bp"
  by (simp_all add: restore_pool_def)

lemma make_block_simps [simp]:
  "Height (make_block now p bs inc r) = snd (next_position bs)" "PrevHash (make_block now p bs inc r) = fst (next_position bs)"
  "Transactions (make_block now p bs inc r) = inc" "BStateRoot (make_block now p bs inc r) = r"
  by (simp_all add: make_block_def Let_def)

lemma make_block_hash [simp]: "Hash (make_block now p bs inc r) = computeBlockHash (make_block now p bs inc r)"
proof -
  have "computeBlockHash (b\<lparr>Hash := x\<rparr>) = computeBlockHash b" for b x
    by (simp add: computeBlockHash_def block_json_def)
  then show ?thesis unfolding make_block_def Let_def by (simp del: Block.update_convs)
qed

section \<open>Producing and appending\<close>

text \<open>
  What a critical section that appends a block does to the chain, whatever the applier; what one that
  appends nothing leaves alone; what it does to the state of an applier with the contract above; and the
  whole uninterrupted call, callbacks included.
\<close>

definition extended_by :: "Block \<Rightarrow> ('s, 'e) BlockProducer \<Rightarrow> ('s, 'e) BlockProducer \<Rightarrow> bool" where
  "extended_by blk bp bp' \<longleftrightarrow>
     Hash blk = computeBlockHash blk \<and> (chain bp \<noteq> [] \<longrightarrow> PrevHash blk = Hash (last (chain bp)) \<and> Height blk = Height (last (chain bp)) + 1) \<and>
     chain bp' = chain bp @ [blk] \<and> applier bp' = applier bp \<and> OnSealed bp' = OnSealed bp \<and> OnSealedBlock bp' = OnSealedBlock bp"

definition chain_kept :: "('s, 'e) BlockProducer \<Rightarrow> ('s, 'e) BlockProducer \<Rightarrow> bool" where
  "chain_kept bp bp' \<longleftrightarrow>
     chain bp' = chain bp \<and> tipHeight bp' = tipHeight bp \<and> tipHeightSet bp' = tipHeightSet bp \<and>
     applier bp' = applier bp \<and> OnSealed bp' = OnSealed bp \<and> OnSealedBlock bp' = OnSealedBlock bp"

definition at_tip :: "Block \<Rightarrow> ('s, 'e) BlockProducer \<Rightarrow> bool" where
  "at_tip blk bp \<longleftrightarrow> tipHeight bp = Height blk \<and> tipHeightSet bp"

definition replayed_by :: "Block \<Rightarrow> ('s, 'e) BlockProducer \<Rightarrow> ('s, 'e) BlockProducer \<Rightarrow> bool" where
  "replayed_by blk bp bp' \<longleftrightarrow>
     block_state (applier bp) (tipHeight bp) (Transactions blk) (live bp) = (None, live bp') \<and>
     BStateRoot blk = ap_StateRoot (applier bp) (live bp')"

definition sealed_as :: "Block \<Rightarrow> ('s, 'e) BlockProducer \<Rightarrow> ('s, 'e) BlockProducer \<Rightarrow> bool" where
  "sealed_as blk bp bp' \<longleftrightarrow>
     extended_by blk bp bp' \<and> at_tip blk bp' \<and>
     (\<exists>s. block_state (applier bp) (tipHeight bp) (Transactions blk) (live bp) = (None, s) \<and>
          BStateRoot blk = ap_StateRoot (applier bp) s \<and> live bp' = hooked bp blk s)"

definition ledger_unchanged :: "('s, 'e) BlockProducer \<Rightarrow> ('s, 'e) BlockProducer \<Rightarrow> bool" where
  "ledger_unchanged bp bp' \<longleftrightarrow> chain_kept bp bp' \<and> live bp' = live bp"

lemmas ledger_defs = ledger_unchanged_def chain_kept_def extended_by_def at_tip_def

lemmas sealed_defs = sealed_as_def extended_by_def at_tip_def

lemma chain_kept_refl [simp]: "chain_kept bp bp"
  by (simp add: chain_kept_def)

lemma ledger_unchanged_refl [simp]: "ledger_unchanged bp bp"
  by (simp add: ledger_unchanged_def)

lemma sealed_after_hooks:
  assumes "extended_by blk bp m" "at_tip blk m" "replayed_by blk bp m" "chain_kept m bp'"
    and "live bp' = after_hooks (OnSealed m) (OnSealedBlock m) (chain m) blk (live m)"
  shows "sealed_as blk bp bp'"
  using assms by (auto simp: sealed_as_def extended_by_def at_tip_def chain_kept_def replayed_by_def hooked_def)

text \<open>The two errors that only a disagreement between speculative and live application can raise.\<close>

fun internal_error :: "'e block_error \<Rightarrow> bool" where
  "internal_error (ErrLiveApply e) = True"
| "internal_error ErrPreSealRoot = True"
| "internal_error _ = False"

lemma seal_gates_error: "seal_gates bp = Some e \<Longrightarrow> \<not> internal_error e"
  by (auto simp: seal_gates_def split: option.splits if_splits)

lemma append_made_block:
  assumes "blk = make_block now pid (chain bp) inc r" "chain b = chain bp" "applier b = applier bp"
    "OnSealed b = OnSealed bp" "OnSealedBlock b = OnSealedBlock bp"
  shows "extended_by blk bp (append_block blk b) \<and> at_tip blk (append_block blk b)"
  using assms by (auto simp: extended_by_def at_tip_def next_position_def)

text \<open>The critical sections and the chain, for every applier.\<close>

lemma produce_locked_chain:
  assumes "produce_locked now clk bp = (res, bp')"
  shows "case res of Inr (blk, ocs) \<Rightarrow> extended_by blk bp bp' \<and> at_tip blk bp' | Inl e \<Rightarrow> chain_kept bp bp'"
  using assms append_made_block [where bp = bp]
  by (auto simp: produce_locked_def Let_def chain_kept_def split: option.splits prod.splits if_splits)

lemma append_locked_chain:
  assumes "append_locked blk ra bp = (res, bp')" "Hash blk = computeBlockHash blk"
  shows "case res of Inr backup \<Rightarrow> extended_by blk bp bp' \<and> at_tip blk bp' | Inl e \<Rightarrow> chain_kept bp bp'"
  using assms
  by (auto simp: append_locked_def Let_def ledger_defs split: option.splits prod.splits if_splits)

lemma ProduceBlockWithReceipts_chain:
  assumes "ProduceBlockWithReceipts now bp rs = (res, recs, bp', rs')"
  shows "case res of
      Inr blk \<Rightarrow> extended_by blk bp bp' \<and> tipHeight bp' = tipHeight bp \<and> tipHeightSet bp' = tipHeightSet bp
    | Inl e \<Rightarrow> chain_kept bp bp'"
  using assms
  by (auto simp: ProduceBlockWithReceipts_def Let_def ledger_defs next_position_def split: prod.splits if_splits)

text \<open>The critical sections and the state, for appliers with the contract.\<close>

context replay_applier
begin

lemma produce_locked_state:
  assumes "applier bp = ap" "produce_locked now clk bp = (res, bp')"
  shows "case res of
      Inr (blk, ocs) \<Rightarrow> replayed_by blk bp bp' \<and> Transactions blk \<noteq> [] \<and> (chain bp = [] \<longrightarrow> Height blk = 0 \<and> PrevHash blk = [])
    | Inl e \<Rightarrow> \<not> internal_error e \<and> live bp' = live bp"
proof -
  obtain txs rest where d: "Drain (maxTxBlock bp) (pool bp) = (txs, rest)" by fastforce
  show ?thesis
  proof (cases "seal_gates bp = None \<and> txs \<noteq> []")
    case False
    then show ?thesis using assms(2) d seal_gates_error [of bp] by (auto simp: produce_locked_def split: option.splits)
  next
    case open_gates: True
    let ?f = "ap_ApplyTx ap (tipHeight bp)" and ?txs = "orderSenderNonces txs"
    obtain ocs s where a: "apply_txs ?f ?txs (live bp) = (ocs, s)" by fastforce
    have r: "replay_txs ?f (included ocs) (live bp) = (None, s)" using replay_of_included [OF a] .
    let ?blk = "make_block now (producerID bp) (chain bp) (included ocs) (ap_StateRoot ap s)"
    have made: "replayed_by ?blk bp (append_block ?blk b)" if "live b = s" for b
      using r assms(1) that by (simp add: replayed_by_def block_state_def)
    show ?thesis
    proof (cases "preSealBFTRound bp")
      case None
      have res: "(res, bp') = (if included ocs = [] then (Inl ErrAllFailed, restore_pool clk ?txs (bp\<lparr>pool := rest, live := s\<rparr>))
          else (Inr (?blk, ocs), append_block ?blk (bp\<lparr>pool := rest, live := s\<rparr>)))"
        using assms d open_gates None a by (cases "included ocs = []") (auto simp: produce_locked_def Let_def)
      then show ?thesis
        using made none_included [OF a] by (cases "included ocs = []") (simp_all add: next_position_def)
    next
      case (Some hook)
      then obtain clone where c: "ap_Clone ap = Some clone"
        using open_gates assms(1) by (auto simp: seal_gates_def split: option.splits if_splits)
      obtain herr bft where h: "hook ?blk (bftSealGate bp) = (herr, bft)" by fastforce
      let ?b = "bp\<lparr>pool := rest, bftSealGate := bft\<rparr>"
      have res: "(res, bp') = (if included ocs = [] then (Inl ErrAllFailed, restore_pool clk ?txs (bp\<lparr>pool := rest\<rparr>))
          else case herr of Some e \<Rightarrow> (Inl (ErrPreSealRound e), restore_pool clk ?txs ?b)
             | None \<Rightarrow> (Inr (?blk, ocs), append_block ?blk (?b\<lparr>live := s\<rparr>)))"
        using assms d open_gates Some a c h r clone_copies [OF c]
        by (cases "included ocs = []"; cases herr) (auto simp: produce_locked_def Let_def)
      then show ?thesis
        using made by (cases "included ocs = []"; cases herr) (simp_all add: next_position_def)
    qed
  qed
qed

lemma append_locked_state:
  assumes "applier bp = ap" "ap_Replay ap = Some ra" "append_locked blk ra bp = (res, bp')"
  shows "case res of Inr backup \<Rightarrow> replayed_by blk bp bp' | Inl e \<Rightarrow> live bp' = live bp"
proof -
  obtain clone restore where ra: "ra = (clone, restore)" by fastforce
  have copy: "clone s = s" "snd (restore b s) = b" for s b using replay_copies assms(2) ra by auto
  then show ?thesis
    using assms(1,3) ra
    by (auto simp: append_locked_def Let_def replayed_by_def block_state_def split: option.splits prod.splits if_splits)
qed

lemma ProduceBlockWithReceipts_state:
  assumes "applier bp = ap" "ProduceBlockWithReceipts now bp rs = (res, recs, bp', rs')"
  shows "case res of Inr blk \<Rightarrow> replayed_by blk bp bp' | Inl e \<Rightarrow> live bp' = live bp"
proof -
  obtain txs rest where d: "Drain (maxTxBlock bp) (pool bp) = (txs, rest)" by fastforce
  obtain ocs s where a: "apply_txs (ap_ApplyTx ap (tipHeight bp)) (orderSenderNonces txs) (live bp) = (ocs, s)" by fastforce
  show ?thesis
    using assms d a replay_of_included [OF a] none_included [OF a]
    by (auto simp: ProduceBlockWithReceipts_def Let_def replayed_by_def block_state_def split: if_splits)
qed

text \<open>The whole calls, uninterrupted.\<close>

lemma ProduceBlock_cases:
  assumes "applier bp = ap" "ProduceBlock now clk bp = (res, bp')"
  shows "(\<exists>blk. res = Inr blk \<and> sealed_as blk bp bp' \<and> Transactions blk \<noteq> [] \<and>
            (chain bp = [] \<longrightarrow> Height blk = 0 \<and> PrevHash blk = [])) \<or>
         (\<exists>e. res = Inl e \<and> \<not> internal_error e \<and> ledger_unchanged bp bp')"
proof -
  obtain r m where p: "produce_locked now clk bp = (r, m)" by fastforce
  note cs = produce_locked_chain [OF p] produce_locked_state [OF assms(1) p]
  show ?thesis
  proof (cases r)
    case (Inl e)
    then show ?thesis using assms(2) p cs by (auto simp: ProduceBlock_def ledger_unchanged_def)
  next
    case (Inr x)
    obtain blk ocs where x: "x = (blk, ocs)" by fastforce
    have "sealed_as blk bp (seal_finish (clk 0) blk ocs m)"
      using cs Inr x by (intro sealed_after_hooks [of blk bp m]) (simp_all add: chain_kept_def)
    then show ?thesis using assms(2) p cs Inr x by (auto simp: ProduceBlock_def)
  qed
qed

lemma append_commit_cases:
  assumes "applier bp = ap" "ap_Replay ap = Some ra" "Hash blk = computeBlockHash blk"
    and "append_commit now blk ra bp = (err, bp')"
  shows "(err = None \<and> sealed_as blk bp bp') \<or> ledger_unchanged bp bp'"
proof -
  obtain r m where p: "append_locked blk ra bp = (r, m)" by fastforce
  note cs = append_locked_chain [OF p assms(3)] append_locked_state [OF assms(1,2) p]
  show ?thesis
  proof (cases r)
    case (Inl e)
    then show ?thesis using assms(4) p cs by (simp add: append_commit_def ledger_unchanged_def)
  next
    case (Inr backup)
    have "sealed_as blk bp (append_finish now (fst ra) blk backup m)"
      using cs Inr by (intro sealed_after_hooks [of blk bp m]) (simp_all add: chain_kept_def)
    then show ?thesis using assms(4) p Inr by (simp add: append_commit_def)
  qed
qed

lemma TryAppendExternalBlock_cases:
  assumes "applier bp = ap" "TryAppendExternalBlock now blk bp = (err, bp')"
  shows "(err = None \<and> sealed_as blk bp bp') \<or> ledger_unchanged bp bp'"
  using assms append_commit_cases [OF assms(1)]
  by (auto simp: TryAppendExternalBlock_def split: if_splits option.splits sum.splits)

end

end
