(* ===== verification/ChainInvariants.thy ===== *)
theory ChainInvariants
  imports ChainProofs "HOL-Library.Sublist"
begin

text \<open>
  Runs of the block producer: what every run preserves (a linked chain that only grows), the state as the
  replay of the run's history, and agreement between producer and replica.
\<close>

section \<open>Steps\<close>

text \<open>
  The operations that change a producer, one step per critical section, so that the parts of different
  calls may interleave: the locked part of \<open>ProduceBlock\<close>; the second critical section of
  \<open>TryAppendExternalBlock\<close> (what comes before it only reads); each callback on its own, for any block;
  \<open>ProduceBlockWithReceipts\<close>; \<open>RestoreChain\<close>. \<open>configure\<close> covers the setters, the receipts stored after the
  lock is released, and everything other components do to the pool, the follower and the engine. A step
  carries the events that a history records.
\<close>

datatype seal_event =
  Sealed Block
| SealedWithReceipts Block
| RanOnSealed "Block list"
| RanOnSealedBlock Block
| Restored "Block list"

inductive bp_step :: "seal_event list \<Rightarrow> ('s, 'e) BlockProducer \<Rightarrow> ('s, 'e) BlockProducer \<Rightarrow> bool" where
  produce: "produce_locked now clk bp = (Inr (blk, ocs), bp') \<Longrightarrow> bp_step [Sealed blk] bp bp'"
| produce_fails: "produce_locked now clk bp = (Inl e, bp') \<Longrightarrow> bp_step [] bp bp'"
| commit: "Hash blk = computeBlockHash blk \<Longrightarrow> ap_Replay (applier bp) = Some ra \<Longrightarrow>
    append_locked blk ra bp = (Inr backup, bp') \<Longrightarrow> bp_step [Sealed blk] bp bp'"
| commit_fails: "Hash blk = computeBlockHash blk \<Longrightarrow> ap_Replay (applier bp) = Some ra \<Longrightarrow>
    append_locked blk ra bp = (Inl e, bp') \<Longrightarrow> bp_step [] bp bp'"
| on_sealed: "bp_step [RanOnSealed (chain bp)] bp (run_OnSealed bp)"
| on_sealed_block: "bp_step [RanOnSealedBlock blk] bp (run_OnSealedBlock blk bp)"
| with_receipts: "ProduceBlockWithReceipts now bp rs = (Inr blk, recs, bp', rs') \<Longrightarrow> bp_step [SealedWithReceipts blk] bp bp'"
| with_receipts_fails: "ProduceBlockWithReceipts now bp rs = (Inl e, recs, bp', rs') \<Longrightarrow> bp_step [] bp bp'"
| restore: "RestoreChain bs bp = (None, bp') \<Longrightarrow> bs \<noteq> [] \<Longrightarrow> bp_step [Restored (map the bs)] bp bp'"
| configure: "bp_step [] bp (bp\<lparr>pool := p, polFollower := pf, bftSealGate := g, preSealBFTRound := h, sealGuard := guard,
    appendReceipts := rs\<rparr>)"

inductive bp_run :: "seal_event list \<Rightarrow> ('s, 'e) BlockProducer \<Rightarrow> ('s, 'e) BlockProducer \<Rightarrow> bool" where
  start: "bp_run [] bp bp"
| step: "bp_run es bp bp1 \<Longrightarrow> bp_step es' bp1 bp2 \<Longrightarrow> bp_run (es @ es') bp bp2"

lemma bp_run_single: "bp_step es bp bp' \<Longrightarrow> bp_run es bp bp'"
  using bp_run.step [OF bp_run.start, of es bp bp'] by simp

lemma bp_run_trans: "bp_run es' b c \<Longrightarrow> bp_run es a b \<Longrightarrow> bp_run (es @ es') a c"
  by (induction rule: bp_run.induct) (auto simp flip: append_assoc intro: bp_run.step)

text \<open>The whole calls are runs: the locked part, a change of the receipt store, then the callbacks.\<close>

lemma hooks_run: "bp_run [RanOnSealed (chain bp), RanOnSealedBlock blk] bp (run_hooks blk bp)"
  using bp_run_trans [OF bp_run_single [OF bp_step.on_sealed_block [of blk]] bp_run_single [OF bp_step.on_sealed [of bp]]]
  by (simp add: run_hooks_def)

lemma receipts_step: "bp_step [] bp (bp\<lparr>appendReceipts := rs\<rparr>)"
  using bp_step.configure [where bp = bp and p = "pool bp" and pf = "polFollower bp" and g = "bftSealGate bp"
      and h = "preSealBFTRound bp" and guard = "sealGuard bp" and rs = rs] by simp

lemma receipts_then_hooks:
  "bp_run [RanOnSealed (chain bp), RanOnSealedBlock blk] bp
     (run_hooks blk (case appendReceipts bp of None \<Rightarrow> bp | Some rs \<Rightarrow> bp\<lparr>appendReceipts := Some (f rs)\<rparr>))"
proof (cases "appendReceipts bp")
  case (Some rs)
  show ?thesis
    using bp_run_trans [OF hooks_run [of "bp\<lparr>appendReceipts := Some (f rs)\<rparr>" blk] bp_run_single [OF receipts_step]] Some by simp
qed (simp add: hooks_run)

lemma ProduceBlock_run:
  assumes "ProduceBlock now clk bp = (Inr blk, bp')"
  shows "bp_run [Sealed blk, RanOnSealed (chain bp @ [blk]), RanOnSealedBlock blk] bp bp'"
proof -
  obtain ocs m where p: "produce_locked now clk bp = (Inr (blk, ocs), m)" "bp' = seal_finish (clk 0) blk ocs m"
    using assms by (auto simp: ProduceBlock_def split: prod.splits sum.splits)
  have "chain m = chain bp @ [blk]" using produce_locked_chain [OF p(1)] by (simp add: extended_by_def)
  then show ?thesis
    using bp_run_trans [OF receipts_then_hooks bp_run_single [OF bp_step.produce [OF p(1)]], of blk] by (simp add: p(2) seal_finish_def)
qed

section \<open>The chain\<close>

fun linked :: "Block list \<Rightarrow> bool" where
  "linked [] = True"
| "linked [b] = True"
| "linked (b # c # bs) = (PrevHash c = Hash b \<and> Height c = Height b + 1 \<and> linked (c # bs))"

definition hash_linked :: "('s, 'e) BlockProducer \<Rightarrow> bool" where
  "hash_linked bp \<longleftrightarrow> linked (chain bp) \<and> (\<forall>b \<in> set (chain bp). Hash b = computeBlockHash b)"

definition tip_mirrored :: "('s, 'e) BlockProducer \<Rightarrow> bool" where
  "tip_mirrored bp \<longleftrightarrow>
     tipHeightSet bp = (chain bp \<noteq> []) \<and> tipHeight bp = (if chain bp = [] then 0 else Height (last (chain bp)))"

definition chain_inv :: "('s, 'e) BlockProducer \<Rightarrow> bool" where
  "chain_inv bp \<longleftrightarrow> hash_linked bp \<and> tip_mirrored bp"

text \<open>Histories without \<open>ProduceBlockWithReceipts\<close>, which does not move the tip height.\<close>

fun moves_tip :: "seal_event \<Rightarrow> bool" where
  "moves_tip (SealedWithReceipts b) = False"
| "moves_tip _ = True"

lemma linked_snoc:
  "linked (bs @ [b]) \<longleftrightarrow> linked bs \<and> (bs \<noteq> [] \<longrightarrow> PrevHash b = Hash (last bs) \<and> Height b = Height (last bs) + 1)"
  by (induction bs rule: linked.induct) auto

lemma linked_heights: "linked bs \<Longrightarrow> i < length bs \<Longrightarrow> Height (bs ! i) = Height (hd bs) + of_nat i"
proof (induction bs arbitrary: i rule: linked.induct)
  case (3 b c bs)
  then show ?case by (cases i) (auto simp: algebra_simps)
qed simp_all

lemma find_height_nth:
  assumes "linked bs" "i < length bs" "length bs < 2 ^ 64"
  shows "find_height (Height (bs ! i)) bs = Some (bs ! i)"
proof -
  have first: "find_height h xs = Some (xs ! i)"
    if "i < length xs" "Height (xs ! i) = h" "\<forall>j<i. Height (xs ! j) \<noteq> h" for h :: u64 and xs :: "Block list" and i
    using that
  proof (induction xs arbitrary: i)
    case (Cons x xs)
    show ?case
    proof (cases i)
      case (Suc k)
      have "Height x \<noteq> h" using Cons.prems(3) Suc by force
      moreover have "find_height h xs = Some (xs ! k)" using Cons Suc by (intro Cons.IH) auto
      ultimately show ?thesis using Suc by simp
    qed (use Cons.prems in simp)
  qed simp
  have "Height (bs ! j) \<noteq> Height (bs ! i)" if "j < i" for j
  proof
    assume "Height (bs ! j) = Height (bs ! i)"
    then have "(of_nat j :: u64) = of_nat i" using linked_heights [OF assms(1)] that assms(2) by simp
    then have "unat (of_nat j :: u64) = unat (of_nat i :: u64)" by simp
    then show False using that assms(2,3) unat_of_nat_fits [of j] unat_of_nat_fits [of i] by simp
  qed
  then show ?thesis using first [of i bs] assms(2) by simp
qed

lemma find_height_next:
  assumes "linked bs" "bs \<noteq> []" "length bs < 2 ^ 64"
  shows "find_height (Height (last bs) + 1) bs = None"
proof -
  have none: "find_height h xs = None" if "\<forall>j<length xs. Height (xs ! j) \<noteq> h" for h :: u64 and xs :: "Block list"
    using that
  proof (induction xs)
    case (Cons x xs)
    have "Height x \<noteq> h" using Cons.prems by force
    moreover have "find_height h xs = None" using Cons by (intro Cons.IH) auto
    ultimately show ?case by simp
  qed simp
  have tip: "Height (last bs) + 1 = Height (hd bs) + of_nat (length bs)"
    using linked_heights [OF assms(1), of "length bs - 1"] assms(2)
    by (cases "length bs") (simp_all add: last_conv_nth)
  have "Height (bs ! j) \<noteq> Height (last bs) + 1" if "j < length bs" for j
  proof
    assume "Height (bs ! j) = Height (last bs) + 1"
    then have "(of_nat j :: u64) = of_nat (length bs)" using linked_heights [OF assms(1) that] tip by simp
    then have "unat (of_nat j :: u64) = unat (of_nat (length bs) :: u64)" by simp
    then show False using that assms(3) unat_of_nat_fits [of j] unat_of_nat_fits [of "length bs"] by simp
  qed
  then show ?thesis by (rule none [rule_format])
qed

lemma restore_error_None:
  "restore_error i prev bs = None \<Longrightarrow>
     None \<notin> set bs \<and> (\<forall>b \<in> set (map the bs). Hash b = computeBlockHash b) \<and>
     linked (case prev of None \<Rightarrow> map the bs | Some p \<Rightarrow> p # map the bs)"
  by (induction i prev bs rule: restore_error.induct) (auto split: if_splits option.splits)

lemma RestoreChain_effect:
  fixes bp bp' :: "('s, 'e) BlockProducer"
  assumes "RestoreChain bs bp = (None, bp')" "bs \<noteq> []"
  shows "chain bp = [] \<and> bp' = bp\<lparr>chain := map the bs, tipHeight := Height (last (map the bs)), tipHeightSet := True\<rparr> \<and>
    restore_error 0 None bs = (None :: 'e block_error option)"
  using assms by (auto simp: RestoreChain_def Let_def split: if_splits option.splits)

fun event_blocks :: "seal_event \<Rightarrow> Block list" where
  "event_blocks (Sealed b) = [b]"
| "event_blocks (SealedWithReceipts b) = [b]"
| "event_blocks (Restored bs) = bs"
| "event_blocks _ = []"

definition history_blocks :: "seal_event list \<Rightarrow> Block list" where
  "history_blocks es = concat (map event_blocks es)"

lemma history_blocks_simps [simp]:
  "history_blocks [] = []" "history_blocks (e # es) = event_blocks e @ history_blocks es"
  "history_blocks (es @ es') = history_blocks es @ history_blocks es'"
  by (simp_all add: history_blocks_def)

text \<open>One step: the chain grows by the blocks of its events and stays linked; hooks and applier stay.\<close>

lemma bp_step_chain:
  assumes "bp_step es bp bp'" "hash_linked bp"
  shows "hash_linked bp' \<and> chain bp' = chain bp @ history_blocks es \<and> applier bp' = applier bp \<and>
    OnSealed bp' = OnSealed bp \<and> OnSealedBlock bp' = OnSealedBlock bp"
  using assms(1)
proof cases
  case (restore bs)
  then show ?thesis
    using RestoreChain_effect [OF restore(2,3)] restore_error_None [of 0 None bs] by (auto simp: hash_linked_def)
qed (use assms(2) in \<open>auto simp: hash_linked_def ledger_defs linked_snoc
      dest!: produce_locked_chain append_locked_chain ProduceBlockWithReceipts_chain\<close>)

lemma bp_step_tip:
  assumes "bp_step es bp bp'" "tip_mirrored bp" "list_all moves_tip es"
  shows "tip_mirrored bp'"
  using assms(1)
proof cases
  case (restore bs)
  then show ?thesis using RestoreChain_effect [OF restore(2,3)] by (auto simp: tip_mirrored_def)
qed (use assms(2,3) in \<open>auto simp: tip_mirrored_def ledger_defs
      dest!: produce_locked_chain append_locked_chain ProduceBlockWithReceipts_chain\<close>)

lemma bp_run_chain:
  assumes "bp_run es bp bp'" "hash_linked bp"
  shows "hash_linked bp' \<and> chain bp' = chain bp @ history_blocks es \<and> applier bp' = applier bp \<and>
    OnSealed bp' = OnSealed bp \<and> OnSealedBlock bp' = OnSealedBlock bp"
  using assms by (induction rule: bp_run.induct) (auto dest: bp_step_chain)

lemma bp_run_tip: "bp_run es bp bp' \<Longrightarrow> tip_mirrored bp \<Longrightarrow> list_all moves_tip es \<Longrightarrow> tip_mirrored bp'"
  by (induction rule: bp_run.induct) (auto dest: bp_step_tip)

definition installed ::
    "(Block list \<Rightarrow> 's \<Rightarrow> 's) option \<Rightarrow> (Block \<Rightarrow> 's \<Rightarrow> 's) option \<Rightarrow> ('s, 'e) BlockProducer \<Rightarrow> ('s, 'e) BlockProducer" where
  "installed os ob bp = bp\<lparr>OnSealed := os, OnSealedBlock := ob\<rparr>"

lemma installed_new_frame [simp]:
  "hash_linked (installed os ob (NewBlockProducer p ap s cfg))" "tip_mirrored (installed os ob (NewBlockProducer p ap s cfg))"
  "chain (installed os ob (NewBlockProducer p ap s cfg)) = []" "tipHeight (installed os ob (NewBlockProducer p ap s cfg)) = 0"
  "applier (installed os ob (NewBlockProducer p ap s cfg)) = ap" "live (installed os ob (NewBlockProducer p ap s cfg)) = s"
  "OnSealed (installed os ob (NewBlockProducer p ap s cfg)) = os"
  "OnSealedBlock (installed os ob (NewBlockProducer p ap s cfg)) = ob"
  by (simp_all add: hash_linked_def tip_mirrored_def NewBlockProducer_def installed_def)

section \<open>The account store as applier\<close>

definition account_applier :: "(AccountStore, account_error) StateApplier" where
  "account_applier =
     \<lparr>ap_ApplyTx = (\<lambda>_. ApplyTx), ap_StateRoot = StateRoot, ap_Clone = Some Accounts_Clone,
      ap_Replay = Some (Accounts_Clone, \<lambda>snap. Accounts_RestoreFromChainReplay (Some snap))\<rparr>"

interpretation account_replay: replay_applier account_applier
proof unfold_locales
  fix h :: u64 and tx :: Tx and s s' :: AccountStore and e :: account_error
  assume "ap_ApplyTx account_applier h tx s = (Some e, s')"
  then show "s' = s"
    by (auto simp: account_applier_def ApplyTx_def debit_sender_def Let_def split: option.splits if_splits)
qed (auto simp: account_applier_def Accounts_Clone_def Accounts_RestoreFromChainReplay_def Accounts_RestoreFrom_def)

section \<open>Replaying the chain\<close>

text \<open>
  An auditor: replay a history event by event from a tip height and a state, checking that every
  transaction of a sealed block applies and that every state root matches, and running the callbacks
  where the history says they ran; \<open>None\<close> when a check fails.
\<close>

definition replay_block :: "('s, 'e) StateApplier \<Rightarrow> Block \<Rightarrow> u64 \<Rightarrow> 's \<Rightarrow> 's option" where
  "replay_block ap b tip s =
     (case block_state ap tip (Transactions b) s of
        (Some _, _) \<Rightarrow> None
      | (None, s') \<Rightarrow> if BStateRoot b = ap_StateRoot ap s' then Some s' else None)"

fun replay_event ::
    "('s, 'e) StateApplier \<Rightarrow> (Block list \<Rightarrow> 's \<Rightarrow> 's) option \<Rightarrow> (Block \<Rightarrow> 's \<Rightarrow> 's) option \<Rightarrow>
       seal_event \<Rightarrow> u64 \<times> 's \<Rightarrow> (u64 \<times> 's) option" where
  "replay_event ap os ob (Sealed b) (tip, s) = map_option (Pair (Height b)) (replay_block ap b tip s)"
| "replay_event ap os ob (SealedWithReceipts b) (tip, s) = map_option (Pair tip) (replay_block ap b tip s)"
| "replay_event ap os ob (RanOnSealed bs) (tip, s) = Some (tip, case os of None \<Rightarrow> s | Some f \<Rightarrow> f bs s)"
| "replay_event ap os ob (RanOnSealedBlock b) (tip, s) = Some (tip, case ob of None \<Rightarrow> s | Some f \<Rightarrow> f b s)"
| "replay_event ap os ob (Restored bs) (tip, s) = Some (Height (last bs), s)"

fun replay_history ::
    "('s, 'e) StateApplier \<Rightarrow> (Block list \<Rightarrow> 's \<Rightarrow> 's) option \<Rightarrow> (Block \<Rightarrow> 's \<Rightarrow> 's) option \<Rightarrow>
       seal_event list \<Rightarrow> u64 \<times> 's \<Rightarrow> (u64 \<times> 's) option" where
  "replay_history ap os ob [] x = Some x"
| "replay_history ap os ob (e # es) x = Option.bind (replay_event ap os ob e x) (replay_history ap os ob es)"

lemma replay_history_append:
  "replay_history ap os ob (es @ es') x = Option.bind (replay_history ap os ob es x) (replay_history ap os ob es')"
  by (induction es arbitrary: x) (auto split: bind_split)

lemma replay_block_sealed: "replayed_by b bp bp' \<Longrightarrow> replay_block (applier bp) b (tipHeight bp) (live bp) = Some (live bp')"
  by (simp add: replayed_by_def replay_block_def)

lemma bp_step_replay:
  assumes "bp_step es bp bp'" "replay_applier (applier bp)"
  shows "replay_history (applier bp) (OnSealed bp) (OnSealedBlock bp) es (tipHeight bp, live bp) = Some (tipHeight bp', live bp')"
  using assms(1)
proof cases
  case (produce now clk blk ocs)
  then show ?thesis
    using produce_locked_chain [OF produce(2)] replay_applier.produce_locked_state [OF assms(2) refl produce(2)]
    by (auto simp: replay_block_sealed at_tip_def)
next
  case (produce_fails now clk e)
  then show ?thesis
    using produce_locked_chain [OF produce_fails(2)] replay_applier.produce_locked_state [OF assms(2) refl produce_fails(2)]
    by (simp add: chain_kept_def)
next
  case (commit blk ra backup)
  then show ?thesis
    using append_locked_chain [OF commit(4,2)] replay_applier.append_locked_state [OF assms(2) refl commit(3,4)]
    by (auto simp: replay_block_sealed at_tip_def)
next
  case (commit_fails blk ra e)
  then show ?thesis
    using append_locked_chain [OF commit_fails(4,2)] replay_applier.append_locked_state [OF assms(2) refl commit_fails(3,4)]
    by (simp add: chain_kept_def)
next
  case (with_receipts now rs blk recs rs')
  then show ?thesis
    using ProduceBlockWithReceipts_chain [OF with_receipts(2)]
      replay_applier.ProduceBlockWithReceipts_state [OF assms(2) refl with_receipts(2)]
    by (auto simp: replay_block_sealed)
next
  case (with_receipts_fails now rs e recs rs')
  then show ?thesis
    using ProduceBlockWithReceipts_chain [OF with_receipts_fails(2)]
      replay_applier.ProduceBlockWithReceipts_state [OF assms(2) refl with_receipts_fails(2)]
    by (simp add: chain_kept_def)
next
  case (restore bs)
  then show ?thesis using RestoreChain_effect [OF restore(2,3)] by simp
qed simp_all

lemma bp_run_replay:
  assumes "bp_run es bp bp'" "replay_applier (applier bp)" "hash_linked bp"
  shows "replay_history (applier bp) (OnSealed bp) (OnSealedBlock bp) es (tipHeight bp, live bp) = Some (tipHeight bp', live bp')"
  using assms
proof (induction rule: bp_run.induct)
  case (step es bp bp1 es' bp2)
  then show ?case
    using bp_run_chain [OF step(1)] bp_step_replay [OF step(2)] by (simp add: replay_history_append)
qed simp

text \<open>Histories in which callbacks do not matter: the blocks alone determine the replay.\<close>

definition inert_hooks :: "(Block list \<Rightarrow> 's \<Rightarrow> 's) option \<Rightarrow> (Block \<Rightarrow> 's \<Rightarrow> 's) option \<Rightarrow> bool" where
  "inert_hooks os ob \<longleftrightarrow> (\<forall>f bs s. os = Some f \<longrightarrow> f bs s = s) \<and> (\<forall>f b s. ob = Some f \<longrightarrow> f b s = s)"

fun seals_only :: "seal_event \<Rightarrow> bool" where
  "seals_only (SealedWithReceipts b) = False"
| "seals_only (Restored bs) = False"
| "seals_only _ = True"

lemma replay_inert:
  assumes "inert_hooks os ob" "list_all seals_only es"
  shows "replay_history ap os ob es x = replay_history ap os ob (map Sealed (history_blocks es)) x"
  using assms(2)
proof (induction es arbitrary: x)
  case (Cons e es)
  then show ?case
    using assms(1) by (cases e; cases x) (auto simp: inert_hooks_def split: option.splits intro!: arg_cong2 [where f = Option.bind])
qed simp

section \<open>A replica accepts what a producer seals\<close>

definition same_ledger :: "('s, 'e) BlockProducer \<Rightarrow> ('s, 'e) BlockProducer \<Rightarrow> bool" where
  "same_ledger a b \<longleftrightarrow>
     applier a = applier b \<and> chain a = chain b \<and> live a = live b \<and> tipHeight a = tipHeight b \<and>
     OnSealed a = OnSealed b \<and> OnSealedBlock a = OnSealedBlock b"

definition append_open :: "('s, 'e) BlockProducer \<Rightarrow> bool" where
  "append_open bp \<longleftrightarrow>
     (case sealGuard bp of None \<Rightarrow> True | Some g \<Rightarrow> g () = None) \<and>
     (case polFollower bp of None \<Rightarrow> True
      | Some p \<Rightarrow> chain bp = [] \<or> CanExtendFromTip (Height (last (chain bp))) (BStateRoot (last (chain bp))) p)"

lemma append_check_open:
  assumes "append_open rp" "find_height (Height blk) (chain rp) = None"
    and "chain rp \<noteq> [] \<longrightarrow> PrevHash blk = Hash (last (chain rp)) \<and> Height blk = Height (last (chain rp)) + 1"
    and "chain rp = [] \<longrightarrow> Height blk = 0 \<and> PrevHash blk = []"
  shows "append_check blk rp = Inr ()"
  using assms by (cases "sealGuard rp"; cases "polFollower rp") (auto simp: append_check_def append_open_def Let_def)

context replay_applier
begin

lemma replica_accepts:
  assumes ap: "applier rp = ap" "ap_Replay ap = Some ra" and seal: "sealed_as blk bp bp'"
    and same: "same_ledger rp bp" and "append_open rp"
    and fresh: "find_height (Height blk) (chain rp) = None"
    and gen: "chain bp = [] \<longrightarrow> Height blk = 0 \<and> PrevHash blk = []"
  shows "\<exists>rp'. TryAppendExternalBlock t blk rp = (None, rp') \<and> same_ledger rp' bp'"
proof -
  obtain clone restore where ra: "ra = (clone, restore)" by fastforce
  have copy: "clone s = s" for s using replay_copies ap(2) ra by blast
  obtain s where s: "replay_txs (ap_ApplyTx ap (tipHeight rp)) (Transactions blk) (live rp) = (None, s)"
    "BStateRoot blk = ap_StateRoot ap s" "live bp' = hooked bp blk s"
    using seal same ap(1) by (auto simp: sealed_defs block_state_def same_ledger_def)
  have link: "chain rp \<noteq> [] \<longrightarrow> PrevHash blk = Hash (last (chain rp)) \<and> Height blk = Height (last (chain rp)) + 1"
    using seal same by (simp add: sealed_defs same_ledger_def)
  have hash: "Hash blk = computeBlockHash blk" using seal by (simp add: sealed_defs)
  have check: "append_check blk rp = Inr ()"
    using append_check_open [OF \<open>append_open rp\<close> fresh link] gen same by (simp add: same_ledger_def)
  have replay: "append_replay blk clone rp = None" using s copy ap(1) by (simp add: append_replay_def)
  obtain err rp' where c: "append_commit t blk ra rp = (err, rp')" by fastforce
  have ok: "err = None \<and> sealed_as blk rp rp'"
  proof -
    have "fst (append_commit t blk ra rp) = None \<and> chain (snd (append_commit t blk ra rp)) \<noteq> chain rp"
      using fresh link s ra ap(1) by (auto simp: append_commit_def append_locked_def Let_def split: option.split)
    then show ?thesis
      using append_commit_cases [OF ap(1,2) hash c] c by (auto simp: ledger_defs)
  qed
  have "live rp' = hooked rp blk s"
    using ok s(1) ap(1) by (auto simp: sealed_defs block_state_def)
  moreover have "hooked rp = hooked bp" using same by (intro hooked_cong) (simp_all add: same_ledger_def)
  ultimately have "same_ledger rp' bp'"
    using ok seal same s(3) by (simp add: same_ledger_def sealed_defs)
  moreover have "TryAppendExternalBlock t blk rp = (None, rp')"
    using hash ap check replay c ok ra by (simp add: TryAppendExternalBlock_def)
  ultimately show ?thesis by blast
qed

end

end
