(* ===== verification/ChainTheorems.thy ===== *)
theory ChainTheorems
  imports ChainInvariants
begin

text \<open>The properties of the block producer, with a two-node example that seals and replicates a block.\<close>

section \<open>An example\<close>

definition example_tx :: Tx where
  "example_tx = (transfer ''alice'' ''bob'' (f_int 4) (f_int 1) 3)\<lparr>TxID := ''tx1''\<rparr>"

definition example_pool :: Mempool where
  "example_pool = insert_tx example_tx (NewMempool mempool_DefaultConfig)"

definition example_producer :: "(AccountStore, account_error) BlockProducer" where
  "example_producer = NewBlockProducer example_pool account_applier sample_store DefaultProducerConfig"

definition example_replica :: "(AccountStore, account_error) BlockProducer" where
  "example_replica = NewBlockProducer (NewMempool mempool_DefaultConfig) account_applier sample_store DefaultProducerConfig"

lemma example_tx_simps [simp]:
  "Sender example_tx = ''alice''" "Recipient example_tx = ''bob''" "Amount example_tx = f_int 4" "Fee example_tx = f_int 1"
  "TxNonce example_tx = 3" "TxID example_tx = ''tx1''" "TxContractID example_tx = []"
  by (simp_all add: example_tx_def transfer_def)

lemma heap_single [simp]: "heap_up lt [x] 0 = [x]" "heap_down lt [x] 0 0 = ([x], 0)"
  by (subst heap_up.simps, simp) (subst heap_down.simps, simp)

lemma example_drain: "fst (Drain 500 example_pool) = [example_tx]"
  by (simp add: example_pool_def insert_tx_def NewMempool_def mempool_DefaultConfig_def Drain_def take_top_def
      trackNonceLocked_def tracksConsensusNonce_def heap_push_def heap_pop_def Let_def swap_at_def)

lemma example_applies: "\<exists>s. ApplyTx example_tx sample_store = (None, s)"
  by (simp add: ApplyTx_def debit_sender_def sample_store_def)

lemma example_seals:
  obtains blk bp' where "ProduceBlock (utc 0) clk example_producer = (Inr blk, bp')" "Transactions blk = [example_tx]"
proof -
  obtain rest where d: "Drain (maxTxBlock example_producer) (pool example_producer) = ([example_tx], rest)"
    using example_drain by (cases "Drain 500 example_pool") (simp add: example_producer_def NewBlockProducer_def DefaultProducerConfig_def)
  obtain s where s: "ApplyTx example_tx sample_store = (None, s)" using example_applies by blast
  have g: "seal_gates example_producer = None" "preSealBFTRound example_producer = None" "live example_producer = sample_store"
    "ap_ApplyTx (applier example_producer) h = ApplyTx" for h
    by (simp_all add: seal_gates_def example_producer_def NewBlockProducer_def account_applier_def)
  obtain bp' where "ProduceBlock (utc 0) clk example_producer =
      (Inr (make_block (utc 0) (producerID example_producer) (chain example_producer) [example_tx]
              (ap_StateRoot (applier example_producer) s)), bp')"
    using d s g by (simp add: ProduceBlock_def produce_locked_def Let_def orderSenderNonces_def included_def)
  then show ?thesis by (rule that) simp
qed

section \<open>Properties\<close>

text \<open>
  C7: In every run of a block producer, for every applier, whatever it produces with or without receipts,
  appends, restores or is configured with, and however the critical sections of different calls and their
  callbacks interleave, the chain is linked: consecutive heights, each block naming the hash of the one
  before, each hash that of the block's contents. It is append-only: the chain at any moment of the run is a
  prefix of the chain at any later moment, so a sealed block is never replaced. For fewer than \<open>2 ^ 64\<close>
  blocks, looking up a height finds exactly the block at that height. In runs without
  \<open>ProduceBlockWithReceipts\<close> the lock-free tip height mirrors the tip.
\<close>

theorem chain_linked_and_append_only:
  assumes "bp_run es (installed os ob (NewBlockProducer p ap s cfg)) bp" "bp_run es' bp bp'"
  shows "linked (chain bp') \<and> (\<forall>b \<in> set (chain bp'). Hash b = computeBlockHash b) \<and> prefix (chain bp) (chain bp') \<and>
    (length (chain bp') < 2 ^ 64 \<longrightarrow>
      (\<forall>i < length (chain bp'). BP_GetBlock (Height (chain bp' ! i)) bp' = Some (chain bp' ! i))) \<and>
    (list_all moves_tip (es @ es') \<longrightarrow> TipHeight bp' = ChainHeight bp' \<and> HasTip bp' = (LatestBlock bp' \<noteq> None))"
proof -
  have bp: "hash_linked bp" using bp_run_chain [OF assms(1)] by simp
  have bp': "hash_linked bp'" "prefix (chain bp) (chain bp')" using bp_run_chain [OF assms(2) bp] by simp_all
  have "tip_mirrored bp'" if "list_all moves_tip (es @ es')"
    using bp_run_tip [OF bp_run_trans [OF assms(2,1)] _ that] by simp
  then show ?thesis
    using bp' find_height_nth [of "chain bp'"]
    by (auto simp: hash_linked_def tip_mirrored_def TipHeight_def ChainHeight_def HasTip_def LatestBlock_def BP_GetBlock_def)
qed

lemma example_producer_installed: "example_producer = installed None None (NewBlockProducer example_pool account_applier sample_store DefaultProducerConfig)"
  by (simp add: example_producer_def installed_def NewBlockProducer_def)

theorem chain_linked_and_append_only_witness:
  "\<exists>blk bp. ProduceBlock (utc 0) (\<lambda>_. 1) example_producer = (Inr blk, bp) \<and> chain bp = [blk] \<and>
     linked (chain bp) \<and> BP_GetBlock (Height blk) bp = Some blk \<and> TipHeight bp = ChainHeight bp"
proof -
  obtain blk bp where p: "ProduceBlock (utc 0) (\<lambda>_. 1) example_producer = (Inr blk, bp)" by (rule example_seals)
  note run = ProduceBlock_run [OF p]
  have c: "chain bp = [blk]"
    using bp_run_chain [OF run [unfolded example_producer_installed]] by simp
  from chain_linked_and_append_only [OF run [unfolded example_producer_installed] bp_run.start] c
  show ?thesis by (intro exI [of _ blk] exI [of _ bp]) (simp add: p)
qed



text \<open>
  C1: Producer and validator agree, for appliers with the replay contract (a failed transaction changes
  nothing, clones and restores copy), which the account store fulfils. A block that a node seals is accepted
  by every node that has the same ledger (applier, chain, state, tip, callbacks), that supports replay and
  whose guard and lock follower let it extend the tip, and both end with the same ledger, callbacks
  included, when neither call is interrupted: the transactions that failed at the producer and were
  left out do not matter.
\<close>

theorem replica_accepts_sealed_block:
  assumes "replay_applier (applier bp)" "ProduceBlock now clk bp = (Inr blk, bp')"
    and "ap_Replay (applier rp) \<noteq> None" "same_ledger rp bp" "append_open rp" "chain_inv rp" "length (chain rp) < 2 ^ 64"
  shows "\<exists>rp'. TryAppendExternalBlock t blk rp = (None, rp') \<and> same_ledger rp' bp'"
proof -
  have ap: "applier rp = applier bp" and ch: "chain rp = chain bp" using assms(4) by (simp_all add: same_ledger_def)
  obtain ra where ra: "ap_Replay (applier bp) = Some ra" using assms(3) ap by auto
  have seal: "sealed_as blk bp bp'" "chain bp = [] \<longrightarrow> Height blk = 0 \<and> PrevHash blk = []"
    using replay_applier.ProduceBlock_cases [OF assms(1) refl assms(2)] by auto
  have "find_height (Height blk) (chain rp) = None"
  proof (cases "chain rp = []")
    case False
    then show ?thesis using find_height_next [of "chain rp"] assms(6,7) seal(1) ch by (simp add: chain_inv_def hash_linked_def sealed_defs)
  qed simp
  then show ?thesis
    using replay_applier.replica_accepts [OF assms(1) ap ra seal(1) assms(4,5) _ seal(2)] by blast
qed

theorem replica_accepts_sealed_block_witness:
  "\<exists>blk bp rp. ProduceBlock (utc 0) (\<lambda>_. 1) example_producer = (Inr blk, bp) \<and> Transactions blk = [example_tx] \<and>
     TryAppendExternalBlock 2 blk example_replica = (None, rp) \<and> same_ledger rp bp"
proof -
  obtain blk bp where p: "ProduceBlock (utc 0) (\<lambda>_. 1) example_producer = (Inr blk, bp)" "Transactions blk = [example_tx]"
    by (rule example_seals)
  have r: "applier example_producer = account_applier" "applier example_replica = account_applier"
    "same_ledger example_replica example_producer" "append_open example_replica" "chain_inv example_replica"
    "chain example_replica = []"
    by (simp_all add: example_producer_def example_replica_def same_ledger_def append_open_def NewBlockProducer_def chain_inv_def hash_linked_def tip_mirrored_def)
  have "\<exists>rp. TryAppendExternalBlock 2 blk example_replica = (None, rp) \<and> same_ledger rp bp"
    by (rule replica_accepts_sealed_block [OF _ p(1)])
      (use r account_replay.replay_applier_axioms in \<open>simp_all add: account_applier_def\<close>)
  then show ?thesis using p by blast
qed



end
