(* ===== verification/BlockHash.thy ===== *)
theory BlockHash
  imports ChainTheorems
begin

text \<open>
  What a block hash commits to: the header fields and the transaction ids, up to SHA-256 collisions,
  and nothing else of the block.
\<close>

section \<open>Rendering is injective\<close>

definition digits :: "char set" where
  "digits = set ''0123456789''"

lemma digit_char_digits: "digit_char d \<in> digits"
proof -
  have "d mod 10 < length ''0123456789''" by simp
  then show ?thesis unfolding digit_char_def digits_def by (rule nth_mem)
qed

lemma set_show_nat: "set (show_nat n) \<subseteq> digits"
proof (induction n rule: show_nat.induct)
  case (1 n)
  then show ?case by (subst show_nat.simps) (auto simp: digit_char_digits)
qed

lemma set_show_padded: "set (show_padded w n) \<subseteq> digits"
  using set_show_nat [of n] by (auto simp: show_padded_def Let_def digits_def)

definition digit_value :: "char \<Rightarrow> nat" where
  "digit_value c = of_char c - 48"

lemma digit_value_char: "digit_value (digit_char d) = d mod 10"
proof -
  have "list_all (\<lambda>k. digit_value (''0123456789'' ! k) = k) [0..<10]" by code_simp
  then show ?thesis by (simp add: list_all_iff digit_char_def)
qed

lemma show_nat_value: "foldl (\<lambda>v c. 10 * v + digit_value c) 0 (show_nat n) = n"
proof (induction n rule: show_nat.induct)
  case (1 n)
  then show ?case by (subst show_nat.simps) (simp add: digit_value_char)
qed

lemma show_nat_inject: "show_nat n = show_nat m \<Longrightarrow> n = m"
  by (metis show_nat_value)

section \<open>Clean strings\<close>

text \<open>Printable ASCII without quote, backslash and the three HTML characters: rendered as it is.\<close>

definition clean_char :: "char \<Rightarrow> bool" where
  "clean_char c \<longleftrightarrow> plain_char c \<and> c \<noteq> CHR 0x3C \<and> c \<noteq> CHR 0x3E \<and> c \<noteq> CHR 0x26"

lemma html_escape_append: "html_escape (xs @ ys) = html_escape xs @ html_escape ys"
  by (simp add: html_escape_def)

lemma html_escape_Cons: "c \<noteq> CHR 0x3C \<and> c \<noteq> CHR 0x3E \<and> c \<noteq> CHR 0x26 \<Longrightarrow> html_escape (c # s) = c # html_escape s"
  by (simp add: html_escape_def)

lemma html_escape_clean: "list_all clean_char s \<Longrightarrow> html_escape s = s"
proof (induction s)
  case (Cons c s)
  then show ?case by (simp add: html_escape_Cons clean_char_def)
qed (simp add: html_escape_def)

lemma json_string_clean: "list_all clean_char s \<Longrightarrow> json_string s = CHR 0x22 # s @ [CHR 0x22]"
  by (simp add: json_string_def json_body_plain clean_char_def list_all_iff)

lemma clean_digits: "c \<in> digits \<Longrightarrow> clean_char c"
  by (auto simp: digits_def clean_char_def plain_char_def)

lemma clean_hex: "clean_char (hex_digit n)"
proof -
  have "hex_digit n \<in> set ''0123456789abcdef''" unfolding hex_digit_def by (rule nth_mem) simp
  then show ?thesis by (auto simp: clean_char_def plain_char_def)
qed

lemma clean_sha256_hex: "list_all clean_char (sha256_hex s)"
  by (auto simp: sha256_hex_def hex_encode_def list_all_iff clean_hex)

lemma clean_time_text: "list_all clean_char (time_text t)"
proof -
  have dot: "clean_char CHR ''.''" by (simp add: clean_char_def plain_char_def)
  have pad: "list_all clean_char (pad_int w n)" for w n
    using set_show_padded [of w "nat n"] clean_digits by (auto simp: pad_int_def list_all_iff)
  have frac: "list_all clean_char (show_fraction n)" for n
  proof -
    have "set (dropWhile (\<lambda>c. c = CHR ''0'') (rev (pad_int 9 n))) \<subseteq> set (pad_int 9 n)"
      using set_dropWhileD by fastforce
    then show ?thesis using pad [of 9 n] dot by (auto simp: show_fraction_def list_all_iff)
  qed
  have zone: "list_all clean_char (show_zone n)" for n
    using pad by (auto simp: show_zone_def Let_def clean_char_def plain_char_def)
  show ?thesis
    using pad frac zone by (simp add: time_text_def Let_def clean_char_def plain_char_def split: prod.split)
qed

lemma marshal_time_text: "marshal_time t = Some ts \<Longrightarrow> ts = CHR 0x22 # time_text t @ [CHR 0x22]"
  by (auto simp: marshal_time_def Let_def split: if_splits)

lemma root_is_digest:
  "xs \<noteq> [] \<Longrightarrow> set xs \<subseteq> range sha256_hex \<Longrightarrow> levels_root (merkle_levels hashPair xs) \<in> range sha256_hex"
proof (induction "length xs" arbitrary: xs rule: less_induct)
  case less
  show ?case
  proof (cases "1 < length xs")
    case True
    have "set (next_level hashPair xs) \<subseteq> range sha256_hex"
      using chain_tree.pair_preimages_nth unfolding next_level_def by (fastforce simp: hashPair_def)
    then show ?thesis
      using True less.hyps [of "next_level hashPair xs"] by (force simp: levels_root_step simp flip: length_0_conv)
  next
    case False
    with less.prems obtain x where "xs = [x]" by (cases xs) auto
    then show ?thesis using less.prems by simp
  qed
qed

lemma clean_tx_root: "list_all clean_char (computeTxRoot txs)"
proof -
  have "computeTxRoot txs \<in> range sha256_hex"
    using root_is_digest [of "map hashLeaf (map TxID txs)"]
    by (auto simp: computeTxRoot_def emptyHash_def Root_BuildMerkleTree hashLeaf_def)
  then show ?thesis using clean_sha256_hex by auto
qed

section \<open>The hash binds the header\<close>

text \<open>The text up to a delimiter that does not occur in it is determined.\<close>

lemma split_at_delim:
  assumes "c \<notin> set xs" "c \<notin> set ys"
  shows "xs @ c # r = ys @ c # r' \<longleftrightarrow> xs = ys \<and> r = r'"
  using assms
proof (induction xs arbitrary: ys)
  case Nil
  then show ?case by (cases ys) auto
next
  case (Cons x xs)
  then show ?case by (cases ys) auto
qed

lemma clean_no_quote: "list_all clean_char s \<Longrightarrow> CHR 0x22 \<notin> set s"
  by (auto simp: list_all_iff clean_char_def plain_char_def)

definition clean_block :: "Block \<Rightarrow> bool" where
  "clean_block b \<longleftrightarrow> list_all clean_char (PrevHash b) \<and> list_all clean_char (BStateRoot b) \<and> list_all clean_char (ProducerID b)"

lemma json_names:
  "json_string ''h'' = [CHR 0x22, CHR ''h'', CHR 0x22]" "json_string ''p'' = [CHR 0x22, CHR ''p'', CHR 0x22]"
  "json_string ''s'' = [CHR 0x22, CHR ''s'', CHR 0x22]" "json_string ''t'' = [CHR 0x22, CHR ''t'', CHR 0x22]"
  "json_string ''ts'' = [CHR 0x22, CHR ''t'', CHR ''s'', CHR 0x22]" "json_string ''pr'' = [CHR 0x22, CHR ''p'', CHR ''r'', CHR 0x22]"
  by (simp_all add: json_string_clean clean_char_def plain_char_def)

lemma block_json_text:
  assumes "clean_block b" "marshal_time (Timestamp b) \<noteq> None"
  defines "q \<equiv> CHR 0x22" and "body \<equiv> time_text (Timestamp b)"
  shows "block_json b = Some (''{'' @ [q] @ ''h'' @ [q] @ '':'' @ show_nat (unat (Height b)) @ CHR '','' #
     [q] @ ''p'' @ [q] @ '':'' @ q # PrevHash b @ q # '','' @ [q] @ ''s'' @ [q] @ '':'' @ q # BStateRoot b @ q #
     '','' @ [q] @ ''t'' @ [q] @ '':'' @ q # computeTxRoot (Transactions b) @ q #
     '','' @ [q] @ ''ts'' @ [q] @ '':'' @ q # body @ q # '','' @ [q] @ ''pr'' @ [q] @ '':'' @ q # ProducerID b @ q # ''}'')"
proof -
  have strs: "list_all clean_char (PrevHash b)" "list_all clean_char (BStateRoot b)" "list_all clean_char (ProducerID b)"
    "list_all clean_char (show_nat (unat (Height b)))"
    using assms(1) set_show_nat [of "unat (Height b)"] clean_digits by (auto simp: clean_block_def list_all_iff)
  let ?fields = "[json_field ''h'' (show_nat (unat (Height b))), json_field ''p'' (json_string (PrevHash b)),
     json_field ''s'' (json_string (BStateRoot b)), json_field ''t'' (json_string (computeTxRoot (Transactions b))),
     json_field ''ts'' (q # body @ [q]), json_field ''pr'' (json_string (ProducerID b))]"
  have obj: "json_object ?fields = ''{'' @ [q] @ ''h'' @ [q] @ '':'' @ show_nat (unat (Height b)) @ CHR '','' #
     [q] @ ''p'' @ [q] @ '':'' @ q # PrevHash b @ q # '','' @ [q] @ ''s'' @ [q] @ '':'' @ q # BStateRoot b @ q #
     '','' @ [q] @ ''t'' @ [q] @ '':'' @ q # computeTxRoot (Transactions b) @ q #
     '','' @ [q] @ ''ts'' @ [q] @ '':'' @ q # body @ q # '','' @ [q] @ ''pr'' @ [q] @ '':'' @ q # ProducerID b @ q # ''}''"
    using strs clean_tx_root [of "Transactions b"]
    by (simp add: json_names json_object_def json_field_def json_string_clean q_def)
  have "html_escape (json_object ?fields) = json_object ?fields"
    unfolding obj using strs clean_tx_root [of "Transactions b"] clean_time_text [of "Timestamp b"]
    by (simp add: html_escape_append html_escape_Cons html_escape_clean q_def body_def)
  moreover have "marshal_time (Timestamp b) = Some (q # body @ [q])"
    using assms(2) marshal_time_text by (auto simp: q_def body_def)
  ultimately show ?thesis unfolding obj [symmetric] by (simp add: block_json_def)
qed

lemma block_json_inject:
  assumes "clean_block b" "clean_block c" "marshal_time (Timestamp b) \<noteq> None" "marshal_time (Timestamp c) \<noteq> None"
    and "block_json b = block_json c"
  shows "Height b = Height c \<and> PrevHash b = PrevHash c \<and> BStateRoot b = BStateRoot c \<and>
    computeTxRoot (Transactions b) = computeTxRoot (Transactions c) \<and>
    time_text (Timestamp b) = time_text (Timestamp c) \<and> ProducerID b = ProducerID c"
proof -
  have comma: "CHR '','' \<notin> set (show_nat n)" for n
    using set_show_nat [of n] by (auto simp: digits_def)
  have quote: "CHR 0x22 \<notin> set (PrevHash x)" "CHR 0x22 \<notin> set (BStateRoot x)" "CHR 0x22 \<notin> set (ProducerID x)"
    "CHR 0x22 \<notin> set (computeTxRoot (Transactions x))" "CHR 0x22 \<notin> set (time_text (Timestamp x))" if "clean_block x" for x
    using that clean_no_quote clean_tx_root clean_time_text by (auto simp: clean_block_def)
  have "show_nat (unat (Height b)) = show_nat (unat (Height c)) \<and> PrevHash b = PrevHash c \<and> BStateRoot b = BStateRoot c \<and>
    computeTxRoot (Transactions b) = computeTxRoot (Transactions c) \<and>
    time_text (Timestamp b) = time_text (Timestamp c) \<and> ProducerID b = ProducerID c"
    using assms(5) comma quote [OF assms(1)] quote [OF assms(2)]
    unfolding block_json_text [OF assms(1,3)] block_json_text [OF assms(2,4)]
    by (simp add: split_at_delim)
  then show ?thesis using show_nat_inject by (auto simp: word_unat_eq_iff)
qed

text \<open>The strings hashed to obtain the hash of a block.\<close>

definition block_preimages :: "Block \<Rightarrow> string set" where
  "block_preimages b =
     insert (case block_json b of None \<Rightarrow> [] | Some d \<Rightarrow> d)
       (set (map TxID (Transactions b)) \<union> levels_preimages hashPair (@) (map hashLeaf (map TxID (Transactions b))))"

lemma tx_root_inject:
  assumes "computeTxRoot xs = computeTxRoot ys" "length xs = length ys"
  shows "map TxID xs = map TxID ys \<or>
    collision_in sha256_hex (set (map TxID xs) \<union> levels_preimages hashPair (@) (map hashLeaf (map TxID xs)) \<union>
      (set (map TxID ys) \<union> levels_preimages hashPair (@) (map hashLeaf (map TxID ys))))"
proof (cases "xs = []")
  case False
  let ?x = "map hashLeaf (map TxID xs)" and ?y = "map hashLeaf (map TxID ys)"
  have ne: "ys \<noteq> []" using False assms(2) by auto
  have "levels_root (merkle_levels hashPair ?x) = levels_root (merkle_levels hashPair ?y)"
    using assms(1) False ne by (simp add: computeTxRoot_def Root_BuildMerkleTree)
  then have "?x = ?y \<or> collision_in sha256_hex (levels_preimages hashPair (@) ?x \<union> levels_preimages hashPair (@) ?y)"
    using chain_tree.same_root_same_leaves [of ?x ?y] assms(2) False by (simp add: hashLeaf_def)
  then show ?thesis
  proof
    assume leaves: "?x = ?y"
    show ?thesis
    proof (cases "map TxID xs = map TxID ys")
      case diff: False
      then obtain i where i: "i < length (map TxID xs)" "map TxID xs ! i \<noteq> map TxID ys ! i"
        using assms(2) by (auto simp: list_eq_iff_nth_eq)
      have "sha256_hex (map TxID xs ! i) = sha256_hex (map TxID ys ! i)"
        using arg_cong [OF leaves, of "\<lambda>l. l ! i"] i(1) assms(2) by (simp add: hashLeaf_def)
      moreover have "map TxID xs ! i \<in> set (map TxID xs)" "map TxID ys ! i \<in> set (map TxID ys)"
        using i(1) assms(2) by (metis nth_mem length_map)+
      ultimately show ?thesis using i(2) unfolding collision_in_def by blast
    qed simp
  qed (meson collision_in_mono sup_ge1 sup_ge2 le_supI le_supI1 le_supI2)
qed (use assms(2) in simp)

text \<open>
  The number of transactions matters for what the hash binds: a level of odd length is padded with its last
  node, so an odd number of transactions (more than one) and the same ones with the last id repeated have the same
  transaction root and, in equal headers, the same block hash, without any collision of SHA-256.
\<close>

theorem repeated_last_tx_keeps_hash:
  assumes "odd (length txs)" "1 < length txs" "TxID t = TxID (last txs)"
  shows "computeBlockHash (b\<lparr>Transactions := txs @ [t]\<rparr>) = computeBlockHash (b\<lparr>Transactions := txs\<rparr>)"
proof -
  let ?l = "map hashLeaf (map TxID txs)"
  have ne: "txs \<noteq> []" using assms(2) by auto
  have "map hashLeaf (map TxID (txs @ [t])) = ?l @ [last ?l]"
    using assms(3) ne by (simp add: last_map)
  then have "levels_root (merkle_levels hashPair (map hashLeaf (map TxID (txs @ [t])))) = levels_root (merkle_levels hashPair ?l)"
    using levels_root_pad [of ?l hashPair] assms(1,2) by (simp add: pad_level_def)
  then have "computeTxRoot (txs @ [t]) = computeTxRoot txs"
    using ne by (simp add: computeTxRoot_def BuildMerkleTree_def Let_def)
  then show ?thesis by (simp add: computeBlockHash_def block_json_def)
qed

text \<open>
  C9: The block hash commits to the header and, among blocks with equally many transactions, to the transaction
  ids. Two blocks with the same number of transactions, with header strings that need no JSON escaping, renderable
  timestamps and the same hash agree in height, previous hash, state root, producer, rendered time and the list of
  transaction ids, unless two of the strings hashed for them are a SHA-256 collision.
\<close>

theorem block_hash_binds_header:
  assumes "clean_block b" "clean_block c" "marshal_time (Timestamp b) \<noteq> None" "marshal_time (Timestamp c) \<noteq> None"
    and "computeBlockHash b = computeBlockHash c" "length (Transactions b) = length (Transactions c)"
  shows "(Height b = Height c \<and> PrevHash b = PrevHash c \<and> BStateRoot b = BStateRoot c \<and> ProducerID b = ProducerID c \<and>
      time_text (Timestamp b) = time_text (Timestamp c) \<and> map TxID (Transactions b) = map TxID (Transactions c)) \<or>
    collision_in sha256_hex (block_preimages b \<union> block_preimages c)"
proof (cases "block_json b = block_json c")
  case True
  note same = block_json_inject [OF assms(1-4) True]
  from tx_root_inject [of "Transactions b" "Transactions c"] same assms(6)
  consider "map TxID (Transactions b) = map TxID (Transactions c)"
    | "collision_in sha256_hex (set (map TxID (Transactions b)) \<union>
        levels_preimages hashPair (@) (map hashLeaf (map TxID (Transactions b))) \<union>
        (set (map TxID (Transactions c)) \<union> levels_preimages hashPair (@) (map hashLeaf (map TxID (Transactions c)))))"
    by blast
  then show ?thesis
  proof cases
    case 2
    then show ?thesis by (intro disjI2) (erule collision_in_mono, auto simp: block_preimages_def)
  qed (use same in simp)
next
  case False
  obtain x y where "block_json b = Some x" "block_json c = Some y" using assms(3,4) by (auto simp: block_json_def)
  then show ?thesis
    using False assms(5) by (intro disjI2) (auto simp: collision_in_def block_preimages_def computeBlockHash_def)
qed

theorem block_hash_binds_header_witness:
  "let b = make_block (utc 0) ''node-0'' [] [example_tx] (StateRoot sample_store);
       c = make_block (utc 0) ''node-0'' [] [example_tx\<lparr>Amount := f_int 9\<rparr>] (StateRoot sample_store)
   in computeBlockHash b = computeBlockHash c \<and>
      (map TxID (Transactions b) = map TxID (Transactions c) \<or> collision_in sha256_hex (block_preimages b \<union> block_preimages c))"
proof -
  let ?b = "make_block (utc 0) ''node-0'' [] [example_tx] (StateRoot sample_store)"
  let ?c = "make_block (utc 0) ''node-0'' [] [example_tx\<lparr>Amount := f_int 9\<rparr>] (StateRoot sample_store)"
  have f: "Timestamp (make_block n p bs i r) = n" "ProducerID (make_block n p bs i r) = p" for n p bs i r
    by (simp_all add: make_block_def Let_def)
  have t: "marshal_time (utc 0) \<noteq> None"
    by (simp add: marshal_time_def utc_def local_seconds_def civil_date_epoch)
  have k: "clean_block ?b" "clean_block ?c"
    using clean_sha256_hex
    by (simp_all add: clean_block_def f next_position_def StateRoot_def clean_char_def plain_char_def)
  have h: "computeBlockHash ?b = computeBlockHash ?c"
    by (simp add: computeBlockHash_def block_json_def computeTxRoot_def f)
  from block_hash_binds_header [OF k _ _ h] t h show ?thesis by (auto simp: f Let_def)
qed

section \<open>What the hash leaves open\<close>

definition same_sealed :: "Block \<Rightarrow> Block \<Rightarrow> bool" where
  "same_sealed b c \<longleftrightarrow>
     Height b = Height c \<and> PrevHash b = PrevHash c \<and> Hash b = Hash c \<and> Timestamp b = Timestamp c \<and>
     BStateRoot b = BStateRoot c \<and> ProducerID b = ProducerID c \<and> map TxID (Transactions b) = map TxID (Transactions c)"

lemma same_sealed_hash: "same_sealed b c \<Longrightarrow> computeBlockHash b = computeBlockHash c"
  by (auto simp: same_sealed_def computeBlockHash_def block_json_def computeTxRoot_def) (metis map_is_Nil_conv)+

lemma same_sealed_restore:
  assumes "list_all2 same_sealed bs cs" "rel_option same_sealed p q"
  shows "restore_error i p (map Some bs) = restore_error i q (map Some cs)"
  using assms
proof (induction bs cs arbitrary: i p q rule: list_all2_induct)
  case (Cons b bs c cs)
  note h = same_sealed_hash [OF Cons(1)]
  have "rel_option same_sealed (Some b) (Some c)" using Cons(1) by simp
  from Cons.IH [OF this] show ?case
    using Cons(1) Cons.prems h by (cases p; cases q) (auto simp: same_sealed_def)
qed simp

text \<open>
  The hash does not cover the transactions themselves, the fee total or the gas used. A persisted chain
  in which any of these were changed, but no id and no header field, is restored without an error.
\<close>

theorem tampered_bodies_pass_restore:
  fixes bp bp' :: "('s, 'e) BlockProducer"
  assumes "RestoreChain (map Some bs) bp = (None, bp')" "list_all2 same_sealed bs cs" "chain bp = []"
  shows "\<exists>bp''. RestoreChain (map Some cs) bp = (None, bp'') \<and> chain bp'' = cs \<and> TipHeight bp'' = TipHeight bp'"
proof (cases "bs = []")
  case True
  then show ?thesis using assms by (simp add: RestoreChain_def)
next
  case False
  then have ne: "cs \<noteq> []" using assms(2) by auto
  have same: "(restore_error 0 None (map Some bs) :: 'e block_error option) = restore_error 0 None (map Some cs)"
    by (rule same_sealed_restore [OF assms(2)]) simp
  have "same_sealed (last bs) (last cs)"
    using assms(2) False ne list_all2_lengthD [OF assms(2)]
    by (simp add: list_all2_conv_all_nth last_conv_nth)
  then have "Height (last bs) = Height (last cs)" by (simp add: same_sealed_def)
  then show ?thesis
    using assms(1,3) False ne same
    by (auto simp: RestoreChain_def TipHeight_def Let_def comp_def split: option.splits)
qed

theorem tampered_bodies_pass_restore_witness:
  "\<exists>blk bp bp''. ProduceBlock (utc 0) (\<lambda>_. 1) example_producer = (Inr blk, bp) \<and>
     RestoreChain [Some (blk\<lparr>Transactions := [example_tx\<lparr>Amount := f_int 9\<rparr>]\<rparr>)] example_replica = (None, bp'') \<and>
     map Transactions (chain bp'') = [[example_tx\<lparr>Amount := f_int 9\<rparr>]]"
proof -
  obtain blk bp where p: "ProduceBlock (utc 0) (\<lambda>_. 1) example_producer = (Inr blk, bp)" "Transactions blk = [example_tx]"
    by (rule example_seals)
  let ?t = "blk\<lparr>Transactions := [example_tx\<lparr>Amount := f_int 9\<rparr>]\<rparr>"
  have a: "applier example_producer = account_applier" by (simp add: example_producer_def NewBlockProducer_def)
  have "Hash blk = computeBlockHash blk"
    using account_replay.ProduceBlock_cases [OF a p(1)] by (auto simp: sealed_defs)
  then obtain bp' where r: "RestoreChain (map Some [blk]) example_replica = (None, bp')"
    by (simp add: RestoreChain_def example_replica_def NewBlockProducer_def)
  have "list_all2 same_sealed [blk] [?t]" using p(2) by (simp add: same_sealed_def)
  from tampered_bodies_pass_restore [OF r this] p(1) show ?thesis
    by (auto simp: example_replica_def NewBlockProducer_def)
qed

text \<open>
  With a pre-seal voting hook and an applier that is not a plain account store, such as the
  enrollment-aware applier every node is wired with, no block is ever produced: each attempt is refused
  before the pool is touched.
\<close>

theorem preseal_needs_plain_accounts:
  assumes "preSealBFTRound bp \<noteq> None" "ap_Clone (applier bp) = None"
  shows "\<exists>e. ProduceBlock now clk bp = (Inl e, bp)"
proof -
  have "seal_gates bp \<noteq> None" using assms by (simp add: seal_gates_def split: option.split)
  then obtain e where "seal_gates bp = Some e" by blast
  then show ?thesis by (simp add: ProduceBlock_def produce_locked_def)
qed

theorem preseal_needs_plain_accounts_witness:
  "\<exists>e. ProduceBlock (utc 0) (\<lambda>_. 1)
     (SetPreSealBFTRound (Some (\<lambda>_ g. (None, g))) (example_producer\<lparr>applier := account_applier\<lparr>ap_Clone := None\<rparr>\<rparr>)) =
     (Inl e, SetPreSealBFTRound (Some (\<lambda>_ g. (None, g))) (example_producer\<lparr>applier := account_applier\<lparr>ap_Clone := None\<rparr>\<rparr>))"
  by (rule preseal_needs_plain_accounts) (simp_all add: SetPreSealBFTRound_def)

text \<open>
  The producer that writes receipts seals behind the gates: whenever it seals a block it does so
  without looking at the seal guard, the lock follower or the voting engine, and it leaves the
  lock-free tip height at its old value, so that height and tip height disagree from the first
  block after genesis on.
\<close>

theorem receipt_producer_ignores_gates:
  assumes "ProduceBlockWithReceipts now bp rs = (Inr blk, recs, bp', rs')"
  shows "TipHeight bp' = TipHeight bp \<and> HasTip bp' = HasTip bp \<and> ChainHeight bp' = Height blk \<and>
    Height blk = snd (next_position (chain bp)) \<and>
    (\<exists>bp''. ProduceBlockWithReceipts now (bp\<lparr>sealGuard := g, polFollower := p, bftSealGate := c\<rparr>) rs = (Inr blk, recs, bp'', rs'))"
  using assms
  by (auto simp: ProduceBlockWithReceipts_def Let_def TipHeight_def HasTip_def ChainHeight_def split: prod.splits if_splits)

theorem receipt_producer_ignores_gates_witness:
  "\<exists>blk recs bp rs. ProduceBlockWithReceipts (utc 0) example_producer NewReceiptStore = (Inr blk, recs, bp, rs) \<and>
     chain bp = [blk] \<and> \<not> HasTip bp"
proof -
  obtain rest where d: "Drain (maxTxBlock example_producer) (pool example_producer) = ([example_tx], rest)"
    using example_drain by (cases "Drain 500 example_pool") (simp add: example_producer_def NewBlockProducer_def DefaultProducerConfig_def)
  obtain s where s: "ApplyTx example_tx sample_store = (None, s)" using example_applies by blast
  have g: "live example_producer = sample_store" "ap_ApplyTx (applier example_producer) h = ApplyTx" "chain example_producer = []"
    "HasTip example_producer = False" for h
    by (simp_all add: example_producer_def NewBlockProducer_def account_applier_def HasTip_def)
  obtain blk recs bp rs where p: "ProduceBlockWithReceipts (utc 0) example_producer NewReceiptStore = (Inr blk, recs, bp, rs)"
    "chain bp = [blk]"
    using d s g by (auto simp: ProduceBlockWithReceipts_def Let_def orderSenderNonces_def included_def)
  from receipt_producer_ignores_gates [OF p(1)] p g(4) show ?thesis by auto
qed

end
