(* ===== verification/EnrollmentProofs.thy ===== *)
theory EnrollmentProofs
  imports EnrollmentState "HOL-Library.Multiset"
begin

text \<open>
  Correctness of the enrollment registry. The invariant ties the GPU index to the active records; it
  is kept by every operation, shown by a step relation over all of them. The interface the chain
  relies on is the locale \<open>enrollment_registry\<close>, interpreted on \<open>InMemoryState\<close>. Then conservation of
  stake, the paginated walk, and the behaviour at height 0.
\<close>

lemma record_upd_simps [simp]:
  "RequiredBondDust (r\<lparr>StakeDust := x\<rparr>) = RequiredBondDust r"
  "RequiredBondDust (r\<lparr>RevokedAtHeight := h, UnbondMaturesAtHeight := h'\<rparr>) = RequiredBondDust r"
  "Active (r\<lparr>StakeDust := x\<rparr>) = Active r"
  "Active (r\<lparr>RevokedAtHeight := h, UnbondMaturesAtHeight := h'\<rparr>) \<longleftrightarrow> h = 0"
  by (simp_all add: RequiredBondDust_def Active_def)

section \<open>The invariant\<close>

definition enroll_inv :: "InMemoryState \<Rightarrow> bool" where
  "enroll_inv s \<longleftrightarrow>
     (\<forall>n r. fmlookup (byNodeID s) n = Some r \<longrightarrow>
        NodeID r = n \<and> n \<noteq> [] \<and> unat (StakeDust r) \<le> unat (RequiredBondDust r)) \<and>
     (\<forall>g n. fmlookup (byGPUActive s) g = Some n \<longleftrightarrow>
        (\<exists>r. fmlookup (byNodeID s) n = Some r \<and> Active r \<and> GPUUUID r = g))"

definition fresh_record :: "EnrollmentRecord \<Rightarrow> bool" where
  "fresh_record r \<longleftrightarrow> Active r \<and> NodeID r \<noteq> [] \<and> unat (StakeDust r) \<le> unat (RequiredBondDust r)"

lemma enroll_inv_record:
  "\<lbrakk>enroll_inv s; fmlookup (byNodeID s) n = Some r\<rbrakk> \<Longrightarrow>
     NodeID r = n \<and> n \<noteq> [] \<and> unat (StakeDust r) \<le> unat (RequiredBondDust r)"
  by (simp add: enroll_inv_def)

lemma enroll_inv_gpu:
  "enroll_inv s \<Longrightarrow> fmlookup (byGPUActive s) g = Some n \<longleftrightarrow>
     (\<exists>r. fmlookup (byNodeID s) n = Some r \<and> Active r \<and> GPUUUID r = g)"
  by (simp add: enroll_inv_def)

lemma fmdom_lookup: "k |\<in>| fmdom m \<longleftrightarrow> fmlookup m k \<noteq> None"
  by (simp add: fmlookup_dom_iff)

lemma NewInMemoryState_inv [inv_intros]: "enroll_inv NewInMemoryState"
  by (simp add: enroll_inv_def NewInMemoryState_def)

lemma ApplyEnroll_inv [inv_intros]:
  assumes "enroll_inv s" "ApplyEnroll rec s = Inr s'" "fresh_record rec"
  shows "enroll_inv s'"
proof -
  have n: "fmlookup (byNodeID s) (NodeID rec) = None" and g: "fmlookup (byGPUActive s) (GPUUUID rec) = None"
    and s': "s' = s\<lparr>byNodeID := fmupd (NodeID rec) rec (byNodeID s),
                  byGPUActive := fmupd (GPUUUID rec) (NodeID rec) (byGPUActive s)\<rparr>"
    using assms(2) by (auto simp: ApplyEnroll_def fmdom_lookup split: if_splits)
  have free: "GPUUUID r \<noteq> GPUUUID rec" if "fmlookup (byNodeID s) m = Some r" "Active r" for m r
    using that g enroll_inv_gpu [OF assms(1), of "GPUUUID rec" m] by auto
  show ?thesis
    using assms(1,3) n free unfolding enroll_inv_def s' fresh_record_def by auto
qed

text \<open>Changing fields other than the binding, the activity and the bond target.\<close>

lemma neutral_upd_inv:
  assumes "enroll_inv s" "fmlookup (byNodeID s) n = Some r"
    and "NodeID r' = NodeID r" "Active r' = Active r" "GPUUUID r' = GPUUUID r"
    and "unat (StakeDust r') \<le> unat (RequiredBondDust r')"
  shows "enroll_inv (s\<lparr>byNodeID := fmupd n r' (byNodeID s)\<rparr>)"
  using assms unfolding enroll_inv_def by (simp; metis option.inject)

lemma revoke_at_inv:
  assumes "enroll_inv s" "fmlookup (byNodeID s) n = Some r" "Active r" "h \<noteq> 0"
  shows "enroll_inv (revoke_at h n r s)"
proof -
  have own: "fmlookup (byGPUActive s) (GPUUUID r) = Some n"
    using assms enroll_inv_gpu [OF assms(1)] by blast
  have other: "GPUUUID r' \<noteq> GPUUUID r" if "fmlookup (byNodeID s) m = Some r'" "Active r'" "m \<noteq> n" for m r'
    using that own enroll_inv_gpu [OF assms(1), of "GPUUUID r" m] by auto
  have only: "m \<noteq> n" if "fmlookup (byGPUActive s) g = Some m" "g \<noteq> GPUUUID r" for g m
    using that assms(2) enroll_inv_gpu [OF assms(1), of g m] by auto
  show ?thesis
    using assms other only enroll_inv_gpu [OF assms(1)] unfolding enroll_inv_def revoke_at_def
    by auto
qed

lemma drop_inactive_inv:
  assumes "enroll_inv s" "fmlookup (byNodeID s) n = Some r" "\<not> Active r"
  shows "enroll_inv (s\<lparr>byNodeID := fmdrop n (byNodeID s)\<rparr>)"
  using assms unfolding enroll_inv_def by auto

lemma ApplyUnenroll_inv [inv_intros]:
  "\<lbrakk>enroll_inv s; ApplyUnenroll n h s = Inr s'; h \<noteq> 0\<rbrakk> \<Longrightarrow> enroll_inv s'"
  by (auto simp: ApplyUnenroll_def revoke_at_inv split: option.splits if_splits)

lemma RevokeIfUnderBonded_inv [inv_intros]:
  "\<lbrakk>enroll_inv s; RevokeIfUnderBonded n h m s = Inr (s', b, x); h \<noteq> 0\<rbrakk> \<Longrightarrow> enroll_inv s'"
  by (auto simp: RevokeIfUnderBonded_def revoke_at_inv split: option.splits if_splits)

lemma SlashStake_inv [inv_intros]:
  assumes "enroll_inv s" "SlashStake n a s = Inr (s', x)"
  shows "enroll_inv s'"
proof -
  obtain r where r: "fmlookup (byNodeID s) n = Some r"
    using assms(2) by (auto simp: SlashStake_def split: option.splits)
  define d where "d = (if a > StakeDust r then StakeDust r else a)"
  have "d \<le> StakeDust r" by (auto simp: d_def)
  then have "unat (StakeDust r - d) \<le> unat (RequiredBondDust r)"
    using enroll_inv_record [OF assms(1) r] by (simp add: unat_diff_le le_trans [OF diff_le_self])
  then have "enroll_inv (s\<lparr>byNodeID := fmupd n (r\<lparr>StakeDust := StakeDust r - d\<rparr>) (byNodeID s)\<rparr>)"
    using assms(1) r by (intro neutral_upd_inv) simp_all
  then show ?thesis using assms(2) r by (auto simp: SlashStake_def Let_def d_def)
qed

lemma MarkEvidenceSeen_inv [inv_intros]: "enroll_inv s \<Longrightarrow> enroll_inv (fst (MarkEvidenceSeen h s))"
  by (simp add: MarkEvidenceSeen_def enroll_inv_def)

lemma legacy_fold_inv:
  "enroll_inv (fst st) \<Longrightarrow> enroll_inv (fst (fold legacy_step ks st))"
proof (induction ks arbitrary: st)
  case (Cons k ks)
  have "enroll_inv (fst (legacy_step k st))"
    using Cons.prems
    by (auto simp: legacy_step_def revoke_at_inv LegacyOwnerSunsetHeight_def split: prod.splits option.splits)
  then show ?case using Cons.IH by simp
qed simp

lemma RevokeLegacyOwners_inv [inv_intros]: "enroll_inv s \<Longrightarrow> enroll_inv (fst (RevokeLegacyOwners h s))"
  by (simp add: RevokeLegacyOwners_def legacy_fold_inv)

lemma sweep_fold_inv: "enroll_inv (fst st) \<Longrightarrow> enroll_inv (fst (fold (sweep_step h) ks st))"
proof (induction ks arbitrary: st)
  case (Cons k ks)
  have "enroll_inv (fst (sweep_step h k st))"
    using Cons.prems
    by (auto simp: sweep_step_def MatureForUnbond_def drop_inactive_inv split: prod.splits option.splits if_splits)
  then show ?case using Cons.IH by simp
qed simp

lemma SweepMaturedUnbonds_inv [inv_intros]:
  "enroll_inv s \<Longrightarrow> enroll_inv (fst (SweepMaturedUnbonds order h s))"
  by (simp add: SweepMaturedUnbonds_def sweep_fold_inv)

section \<open>Accruing a deferred bond\<close>

text \<open>One step of the accrual loop: what is locked fits the need and the reward.\<close>

definition locked_for :: "EnrollmentRecord \<Rightarrow> u64 \<Rightarrow> u64" where
  "locked_for rec remaining = (if BondRemainingDust rec > remaining then remaining else BondRemainingDust rec)"

lemma locked_for_unat:
  "unat (locked_for rec remaining) = min (unat (BondRemainingDust rec)) (unat remaining)"
  by (auto simp: locked_for_def word_less_nat_alt min_def)

lemma accrued_stake:
  assumes "unat (StakeDust rec) \<le> unat (RequiredBondDust rec)"
  shows "unat (StakeDust rec + locked_for rec remaining)
    = unat (StakeDust rec) + unat (locked_for rec remaining)"
    and "unat (StakeDust rec + locked_for rec remaining) \<le> unat (RequiredBondDust rec)"
proof -
  have le: "unat (StakeDust rec) + unat (locked_for rec remaining) \<le> unat (RequiredBondDust rec)"
    using assms by (simp add: locked_for_unat BondRemainingDust_unat)
  then show e: "unat (StakeDust rec + locked_for rec remaining)
      = unat (StakeDust rec) + unat (locked_for rec remaining)"
    using unat_le_fits [of _ "RequiredBondDust rec"] by (intro unat_add_no_wrap) simp
  show "unat (StakeDust rec + locked_for rec remaining) \<le> unat (RequiredBondDust rec)"
    using le e by simp
qed

lemma accrue_loop_Cons:
  "accrue_loop (n # ids) remaining m =
    (let rec = the (fmlookup m n); l = locked_for rec remaining;
         m' = fmupd n (rec\<lparr>StakeDust := StakeDust rec + l\<rparr>) m
     in if remaining - l = 0 then (m', 0) else accrue_loop ids (remaining - l) m')"
  by (simp add: Let_def locked_for_def)

declare accrue_loop.simps(2) [simp del]

definition total_stake :: "(string, EnrollmentRecord) fmap \<Rightarrow> nat" where
  "total_stake m = fmap_total (\<lambda>r. unat (StakeDust r)) m"

text \<open>
  The loop keeps the invariant, never locks more than it was given, and what the stakes gain is
  what the reward loses; when reward is left, every listed record is fully bonded.
\<close>

lemma accrue_loop_spec:
  assumes "enroll_inv s" "set ids \<subseteq> fmdom' (byNodeID s)" "distinct ids"
    and "accrue_loop ids remaining (byNodeID s) = (m', rest)"
  shows "enroll_inv (s\<lparr>byNodeID := m'\<rparr>) \<and> rest \<le> remaining \<and>
    total_stake m' + unat rest = total_stake (byNodeID s) + unat remaining \<and>
    (rest \<noteq> 0 \<longrightarrow> (\<forall>n \<in> set ids. \<exists>r. fmlookup m' n = Some r \<and> FullyBonded r)) \<and>
    (\<forall>n. n \<notin> set ids \<longrightarrow> fmlookup m' n = fmlookup (byNodeID s) n)"
  using assms
proof (induction ids arbitrary: s remaining)
  case Nil
  then show ?case by auto
next
  case (Cons n ids)
  obtain r where r: "fmlookup (byNodeID s) n = Some r" using Cons.prems(2) by (auto simp: fmdom'_iff)
  define l where "l = locked_for r remaining"
  define r' where "r' = r\<lparr>StakeDust := StakeDust r + l\<rparr>"
  define s1 where "s1 = s\<lparr>byNodeID := fmupd n r' (byNodeID s)\<rparr>"
  have stake: "unat (StakeDust r) \<le> unat (RequiredBondDust r)" using enroll_inv_record [OF Cons.prems(1) r] by simp
  have inv1: "enroll_inv s1"
    unfolding s1_def using Cons.prems(1) r accrued_stake(2) [OF stake]
    by (intro neutral_upd_inv) (simp_all add: r'_def l_def)
  have lr: "l \<le> remaining" by (auto simp: l_def locked_for_def)
  have tot: "total_stake (byNodeID s1) + unat (remaining - l) = total_stake (byNodeID s) + unat remaining"
    using fmap_total_upd [OF r, of "\<lambda>r. unat (StakeDust r)" r'] accrued_stake(1) [OF stake, of remaining] lr
    by (simp add: s1_def total_stake_def r'_def l_def unat_diff_le word_le_nat_alt)
  have full: "FullyBonded r'" if "remaining - l \<noteq> 0"
  proof -
    have "unat l < unat remaining"
      using that lr by (metis eq_iff_diff_eq_0 word_le_nat_alt word_unat_eq_iff le_neq_implies_less)
    then have "unat l = unat (BondRemainingDust r)" by (simp add: l_def locked_for_unat)
    then show ?thesis
      using accrued_stake(1) [OF stake, of remaining] stake
      by (simp add: FullyBonded_iff r'_def l_def BondRemainingDust_unat)
  qed
  show ?case
  proof (cases "remaining - l = 0")
    case True
    then have "m' = byNodeID s1" "rest = 0"
      using Cons.prems(4) r by (simp_all add: accrue_loop_Cons l_def r'_def s1_def)
    then show ?thesis using inv1 tot True by (simp add: s1_def)
  next
    case False
    then have loop: "accrue_loop ids (remaining - l) (byNodeID s1) = (m', rest)"
      using Cons.prems(4) r by (simp add: accrue_loop_Cons l_def r'_def s1_def Let_def)
    have ih: "enroll_inv (s1\<lparr>byNodeID := m'\<rparr>) \<and> rest \<le> remaining - l \<and>
      total_stake m' + unat rest = total_stake (byNodeID s1) + unat (remaining - l) \<and>
      (rest \<noteq> 0 \<longrightarrow> (\<forall>n \<in> set ids. \<exists>r. fmlookup m' n = Some r \<and> FullyBonded r)) \<and>
      (\<forall>n. n \<notin> set ids \<longrightarrow> fmlookup m' n = fmlookup (byNodeID s1) n)"
      using Cons.prems(2,3) by (intro Cons.IH [OF inv1 _ _ loop]) (auto simp: s1_def)
    have "rest \<le> remaining" using ih word_sub_le_self [OF lr] by (blast intro: order_trans)
    moreover have "fmlookup m' n = Some r'" using ih Cons.prems(3) by (simp add: s1_def)
    ultimately show ?thesis using ih tot full [OF False] by (auto simp: s1_def)
  qed
qed

lemma AccrueBondFromReward_spec:
  assumes "enroll_inv s" "AccrueBondFromReward owner reward s = (s', w)"
  shows "enroll_inv s' \<and> w \<le> reward \<and> byGPUActive s' = byGPUActive s \<and>
    total_stake (byNodeID s') = total_stake (byNodeID s) + unat w \<and>
    (w < reward \<and> owner \<noteq> [] \<longrightarrow> (\<forall>n r. fmlookup (byNodeID s') n = Some r \<longrightarrow> \<not> accrues owner r))"
proof (cases "owner = [] \<or> reward = 0")
  case True
  then show ?thesis using assms by (auto simp: AccrueBondFromReward_def)
next
  case False
  define ids where
    "ids = filter (\<lambda>k. accrues owner (the (fmlookup (byNodeID s) k))) (sorted_keys (byNodeID s))"
  obtain m' rest where loop: "accrue_loop ids reward (byNodeID s) = (m', rest)" by fastforce
  have s': "s' = s\<lparr>byNodeID := m'\<rparr>" and w: "w = reward - rest"
    using assms(2) False loop by (auto simp: AccrueBondFromReward_def ids_def)
  have sub: "set ids \<subseteq> fmdom' (byNodeID s)" "distinct ids" by (auto simp: ids_def)
  note spec = accrue_loop_spec [OF assms(1) sub loop]
  have le: "w \<le> reward" using spec w word_sub_le_self by blast
  have uw: "unat w = unat reward - unat rest" "unat rest \<le> unat reward"
    using spec w by (simp_all add: unat_diff_le word_le_nat_alt)
  have "\<not> accrues owner r" if "w < reward" "fmlookup m' n = Some r" for n r
  proof (cases "n \<in> set ids")
    case True
    have "rest \<noteq> 0" using that(1) w by auto
    then show ?thesis using spec True that(2) by (auto simp: accrues_def)
  next
    case False
    then have "fmlookup (byNodeID s) n = Some r" using spec that(2) by simp
    then show ?thesis using False by (auto simp: ids_def fmdom'_iff)
  qed
  then show ?thesis using spec le uw s' by auto
qed

section \<open>Sweeping matured unbonds\<close>

definition mature_at :: "(string, EnrollmentRecord) fmap \<Rightarrow> u64 \<Rightarrow> string \<Rightarrow> bool" where
  "mature_at m h k = (case fmlookup m k of None \<Rightarrow> False | Some r \<Rightarrow> MatureForUnbond r h)"

definition release_of :: "(string, EnrollmentRecord) fmap \<Rightarrow> string \<Rightarrow> UnbondRelease" where
  "release_of m k = (let r = the (fmlookup m k)
     in \<lparr>UR_NodeID = k, UR_Owner = Owner r, UR_StakeDust = StakeDust r\<rparr>)"

lemma sweep_fold:
  assumes "distinct ks"
  shows "fold (sweep_step h) ks (s, rel) =
    (s\<lparr>byNodeID := fmfilter (\<lambda>k. \<not> (k \<in> set ks \<and> mature_at (byNodeID s) h k)) (byNodeID s)\<rparr>,
     rel @ map (release_of (byNodeID s)) (filter (mature_at (byNodeID s) h) ks))"
  using assms
proof (induction ks arbitrary: s rel)
  case Nil
  have "fmfilter (\<lambda>k. True) (byNodeID s) = byNodeID s" by (intro fmap_ext) simp
  then show ?case by simp
next
  case (Cons k ks)
  show ?case
  proof (cases "mature_at (byNodeID s) h k")
    case True
    then obtain r where r: "fmlookup (byNodeID s) k = Some r" "MatureForUnbond r h"
      by (auto simp: mature_at_def split: option.splits)
    let ?m = "fmdrop k (byNodeID s)"
    have same: "x \<in> set ks \<Longrightarrow> mature_at ?m h x = mature_at (byNodeID s) h x \<and> release_of ?m x = release_of (byNodeID s) x" for x
      using Cons.prems by (auto simp: mature_at_def release_of_def)
    have step: "sweep_step h k (s, rel) = (s\<lparr>byNodeID := ?m\<rparr>, rel @ [release_of (byNodeID s) k])"
      using r by (simp add: sweep_step_def release_of_def)
    have flt: "fmfilter (\<lambda>x. \<not> (x \<in> set ks \<and> mature_at ?m h x)) ?m =
        fmfilter (\<lambda>x. \<not> (x \<in> set (k # ks) \<and> mature_at (byNodeID s) h x)) (byNodeID s)"
      using True same by (intro fmap_ext) auto
    have rels: "map (release_of ?m) (filter (mature_at ?m h) ks) =
        map (release_of (byNodeID s)) (filter (mature_at (byNodeID s) h) ks)"
      using same by (auto intro!: map_cong filter_cong)
    have "fold (sweep_step h) (k # ks) (s, rel) =
        (s\<lparr>byNodeID := fmfilter (\<lambda>x. \<not> (x \<in> set ks \<and> mature_at ?m h x)) ?m\<rparr>,
         (rel @ [release_of (byNodeID s) k]) @ map (release_of ?m) (filter (mature_at ?m h) ks))"
      using step Cons.IH [of "s\<lparr>byNodeID := ?m\<rparr>"] Cons.prems by simp
    then show ?thesis unfolding flt rels using True by simp
  next
    case False
    then have step: "sweep_step h k (s, rel) = (s, rel)"
      by (auto simp: sweep_step_def mature_at_def split: option.splits)
    have flt: "(\<lambda>x. \<not> (x \<in> set (k # ks) \<and> mature_at (byNodeID s) h x)) =
        (\<lambda>x. \<not> (x \<in> set ks \<and> mature_at (byNodeID s) h x))" using False by auto
    show ?thesis unfolding flt using step False Cons by simp
  qed
qed

lemma sweep_total:
  assumes "distinct ks" "set ks \<subseteq> fmdom' m"
  shows "total_stake m = total_stake (fmfilter (\<lambda>k. \<not> (k \<in> set ks \<and> P k)) m) +
    (\<Sum>r \<leftarrow> map (release_of m) (filter P ks). unat (UR_StakeDust r))"
  using assms
proof (induction ks)
  case Nil
  have "fmfilter (\<lambda>k. True) m = m" by (intro fmap_ext) simp
  then show ?case by simp
next
  case (Cons k ks)
  let ?f = "fmfilter (\<lambda>x. \<not> (x \<in> set ks \<and> P x)) m"
  obtain r where r: "fmlookup m k = Some r" using Cons.prems by (auto simp: fmdom'_iff)
  have ih: "total_stake m = total_stake ?f + (\<Sum>r \<leftarrow> map (release_of m) (filter P ks). unat (UR_StakeDust r))"
    using Cons by simp
  show ?case
  proof (cases "P k")
    case True
    have "fmfilter (\<lambda>x. \<not> (x \<in> set (k # ks) \<and> P x)) m = fmdrop k ?f" using True by (intro fmap_ext) auto
    moreover have "fmlookup ?f k = Some r" using r Cons.prems by simp
    moreover have "UR_StakeDust (release_of m k) = StakeDust r" using r by (simp add: release_of_def)
    ultimately show ?thesis
      using ih True r fmap_total_drop [of ?f k r "\<lambda>r. unat (StakeDust r)"]
      by (simp add: total_stake_def)
  next
    case False
    then have "(\<lambda>x. \<not> (x \<in> set (k # ks) \<and> P x)) = (\<lambda>x. \<not> (x \<in> set ks \<and> P x))" by auto
    then show ?thesis using ih False by simp
  qed
qed

lemma SweepMaturedUnbonds_spec:
  assumes "map_order (byNodeID s) order"
  shows "SweepMaturedUnbonds order h s =
    (s\<lparr>byNodeID := fmfilter (\<lambda>k. \<not> mature_at (byNodeID s) h k) (byNodeID s)\<rparr>,
     map (release_of (byNodeID s)) (filter (mature_at (byNodeID s) h) order))"
proof -
  have "fmfilter (\<lambda>k. \<not> (k \<in> set order \<and> mature_at (byNodeID s) h k)) (byNodeID s) =
      fmfilter (\<lambda>k. \<not> mature_at (byNodeID s) h k) (byNodeID s)"
    using assms by (intro fmap_ext) (auto simp: map_order_def fmdom'_iff)
  then show ?thesis
    using assms by (simp add: SweepMaturedUnbonds_def sweep_fold map_order_def)
qed

section \<open>The step relation\<close>

inductive enroll_step :: "InMemoryState \<Rightarrow> InMemoryState \<Rightarrow> bool" where
  enroll: "\<lbrakk>ApplyEnroll rec s = Inr s'; fresh_record rec\<rbrakk> \<Longrightarrow> enroll_step s s'"
| unenroll: "\<lbrakk>ApplyUnenroll n h s = Inr s'; h \<noteq> 0\<rbrakk> \<Longrightarrow> enroll_step s s'"
| accrue: "AccrueBondFromReward owner reward s = (s', w) \<Longrightarrow> enroll_step s s'"
| legacy: "RevokeLegacyOwners h s = (s', rs) \<Longrightarrow> enroll_step s s'"
| sweep: "\<lbrakk>SweepMaturedUnbonds order h s = (s', rel); map_order (byNodeID s) order\<rbrakk> \<Longrightarrow> enroll_step s s'"
| slash: "SlashStake n amount s = Inr (s', x) \<Longrightarrow> enroll_step s s'"
| auto_revoke: "\<lbrakk>RevokeIfUnderBonded n h m s = Inr (s', b, x); h \<noteq> 0\<rbrakk> \<Longrightarrow> enroll_step s s'"
| mark: "MarkEvidenceSeen hash s = (s', b) \<Longrightarrow> enroll_step s s'"

inductive_cases enroll_stepE: "enroll_step s s'"

lemma enroll_step_inv: "enroll_step s s' \<Longrightarrow> enroll_inv s \<Longrightarrow> enroll_inv s'"
proof (induction rule: enroll_step.induct)
  case (accrue owner reward s s' w)
  then show ?case using AccrueBondFromReward_spec by blast
next
  case (legacy h s s' rs)
  then show ?case using RevokeLegacyOwners_inv [of s h] by simp
next
  case (sweep order h s s' rel)
  then show ?case using SweepMaturedUnbonds_inv [of s order h] by simp
next
  case (mark hash s s' b)
  then show ?case using MarkEvidenceSeen_inv [of s hash] by simp
qed (blast intro: inv_intros)+

lemma enroll_reachable_inv: "enroll_step\<^sup>*\<^sup>* NewInMemoryState s \<Longrightarrow> enroll_inv s"
  by (induction rule: rtranclp_induct) (auto intro: NewInMemoryState_inv enroll_step_inv)

section \<open>The interface the chain relies on\<close>

text \<open>
  What \<open>EnrollmentStateMutator\<close> promises its callers: the result of a look-up after an enrollment and
  after an unenrollment, and that the GPU index names exactly the active holder.
\<close>

locale enrollment_registry =
  fixes lookup :: "'s \<Rightarrow> string \<Rightarrow> EnrollmentRecord option"
    and bound :: "'s \<Rightarrow> string \<Rightarrow> string"
    and enroll :: "EnrollmentRecord \<Rightarrow> 's \<Rightarrow> 'e + 's"
    and unenroll :: "string \<Rightarrow> u64 \<Rightarrow> 's \<Rightarrow> 'e + 's"
    and inv :: "'s \<Rightarrow> bool"
  assumes bound_iff: "\<lbrakk>inv s; n \<noteq> []\<rbrakk> \<Longrightarrow>
      bound s g = n \<longleftrightarrow> (\<exists>r. lookup s n = Some r \<and> Active r \<and> GPUUUID r = g)"
    and enroll_ok_iff: "inv s \<Longrightarrow>
      (\<exists>s'. enroll rec s = Inr s') \<longleftrightarrow> lookup s (NodeID rec) = None \<and> bound s (GPUUUID rec) = []"
    and lookup_enroll: "\<lbrakk>inv s; enroll rec s = Inr s'\<rbrakk> \<Longrightarrow>
      lookup s' n = (if n = NodeID rec then Some rec else lookup s n)"
    and lookup_unenroll: "\<lbrakk>inv s; unenroll n h s = Inr s'\<rbrakk> \<Longrightarrow>
      (\<exists>r. lookup s n = Some r \<and> Active r \<and>
        lookup s' m = (if m = n then Some (r\<lparr>RevokedAtHeight := h, UnbondMaturesAtHeight := h + UnbondWindow\<rparr>)
                       else lookup s m))"
    and inv_enroll: "\<lbrakk>inv s; enroll rec s = Inr s'; fresh_record rec\<rbrakk> \<Longrightarrow> inv s'"
    and inv_unenroll: "\<lbrakk>inv s; unenroll n h s = Inr s'; h \<noteq> 0\<rbrakk> \<Longrightarrow> inv s'"
    and inv_node: "\<lbrakk>inv s; lookup s n = Some r\<rbrakk> \<Longrightarrow> n \<noteq> [] \<and> NodeID r = n"
begin

lemma one_node_per_gpu:
  assumes "inv s" "lookup s m = Some r" "lookup s n = Some q" "Active r" "Active q" "GPUUUID r = GPUUUID q"
  shows "m = n"
proof -
  have "bound s (GPUUUID r) = m" using assms inv_node bound_iff [of s m] by blast
  moreover have "bound s (GPUUUID r) = n" using assms inv_node bound_iff [of s n] by metis
  ultimately show ?thesis by simp
qed

lemma no_second_enroll:
  assumes "inv s" "enroll rec s = Inr s'" "fresh_record rec"
    and "NodeID rec' = NodeID rec \<or> GPUUUID rec' = GPUUUID rec"
  shows "\<exists>e. enroll rec' s' = Inl e"
proof -
  have s': "inv s'" "lookup s' (NodeID rec) = Some rec"
    using assms inv_enroll lookup_enroll [OF assms(1,2)] by auto
  then have "bound s' (GPUUUID rec) = NodeID rec"
    using assms(3) bound_iff [OF s'(1), of "NodeID rec"] by (simp add: fresh_record_def)
  then have "\<not> (\<exists>t. enroll rec' s' = Inr t)"
    using enroll_ok_iff [OF s'(1), of rec'] assms(3,4) s'(2) by (auto simp: fresh_record_def)
  then show ?thesis by (metis obj_sumE)
qed

text \<open>After the owner unenrolls, the GPU is free at once, and the node id stays taken.\<close>

lemma unenroll_frees_gpu:
  assumes "inv s" "lookup s n = Some r" "unenroll n h s = Inr s'" "h \<noteq> 0"
    and "lookup s (NodeID rec) = None" "GPUUUID rec = GPUUUID r"
  shows "\<exists>t. enroll rec s' = Inr t"
proof -
  have inv': "inv s'" using assms inv_unenroll by blast
  have l: "lookup s' m = (if m = n then Some (r\<lparr>RevokedAtHeight := h, UnbondMaturesAtHeight := h + UnbondWindow\<rparr>)
      else lookup s m)" and act: "Active r" for m
    using lookup_unenroll [OF assms(1,3)] assms(2) by auto
  have "bound s' (GPUUUID r) = []"
  proof (rule ccontr)
    assume b: "bound s' (GPUUUID r) \<noteq> []"
    then obtain q where q: "lookup s' (bound s' (GPUUUID r)) = Some q" "Active q" "GPUUUID q = GPUUUID r"
      using bound_iff [OF inv' b] by blast
    then have "bound s' (GPUUUID r) \<noteq> n" using assms(4) by (auto simp: l)
    then show False using q one_node_per_gpu [OF assms(1) _ assms(2) _ act] by (auto simp: l)
  qed
  then show ?thesis using enroll_ok_iff [OF inv', of rec] assms(2,5,6) by (auto simp: l)
qed

end

lemma GPUUUIDBound_iff:
  assumes "enroll_inv s" "n \<noteq> []"
  shows "GPUUUIDBound s g = n \<longleftrightarrow> (\<exists>r. Lookup s n = Some r \<and> Active r \<and> GPUUUID r = g)"
  using enroll_inv_gpu [OF assms(1), of g n] assms(2)
  by (auto simp: GPUUUIDBound_def Lookup_def split: option.splits)

lemma GPUUUIDBound_empty_iff:
  assumes "enroll_inv s"
  shows "GPUUUIDBound s g = [] \<longleftrightarrow> fmlookup (byGPUActive s) g = None"
proof (cases "fmlookup (byGPUActive s) g")
  case (Some n)
  then obtain r where "fmlookup (byNodeID s) n = Some r" using enroll_inv_gpu [OF assms] by blast
  then have "n \<noteq> []" using enroll_inv_record [OF assms] by blast
  then show ?thesis using Some by (simp add: GPUUUIDBound_def)
qed (simp add: GPUUUIDBound_def)

interpretation mem: enrollment_registry Lookup GPUUUIDBound ApplyEnroll ApplyUnenroll enroll_inv
proof (unfold_locales, goal_cases)
  case (1 s n g)
  then show ?case by (rule GPUUUIDBound_iff)
next
  case (2 s rec)
  then show ?case by (auto simp: ApplyEnroll_def Lookup_def GPUUUIDBound_empty_iff fmdom_lookup)
next
  case (3 s rec s' n)
  then show ?case by (auto simp: ApplyEnroll_def Lookup_def split: if_splits)
next
  case (4 s n h s' m)
  then show ?case
    by (auto simp: ApplyUnenroll_def Lookup_def revoke_at_def split: option.splits if_splits)
next
  case (5 s rec s')
  then show ?case by (rule ApplyEnroll_inv)
next
  case (6 s n h s')
  then show ?case by (rule ApplyUnenroll_inv)
next
  case (7 s n r)
  then show ?case using enroll_inv_record [of s n r] by (simp add: Lookup_def)
qed

section \<open>Walking the pages\<close>

text \<open>A client that follows \<open>NextCursor\<close> while \<open>HasMore\<close> holds, for at most \<open>fuel\<close> pages.\<close>

fun walk_pages :: "nat \<Rightarrow> InMemoryState \<Rightarrow> ListOptions \<Rightarrow> EnrollmentRecord list option" where
  "walk_pages 0 s opts = None"
| "walk_pages (Suc fuel) s opts =
     (let page = State_List s opts
      in if HasMore page
         then do { rest \<leftarrow> walk_pages fuel s (opts\<lparr>Cursor := NextCursor page\<rparr>); Some (Records page @ rest) }
         else Some (Records page))"

lemma page_limit_pos: "0 < page_limit l"
  by (simp add: page_limit_def DefaultListLimit_def MaxListLimit_def)

lemma SearchStrings_nth:
  assumes "sorted xs" "distinct xs" "i < length xs"
  shows "SearchStrings xs (xs ! i) = i"
proof -
  have "takeWhile (\<lambda>y. y < xs ! i) xs = take i xs"
    using assms by (intro takeWhile_eq_take_P_nth)
      (auto simp: order.strict_iff_order sorted_iff_nth_mono nth_eq_iff_index_eq)
  then show ?thesis using assms by (simp add: SearchStrings_def)
qed

lemma matched_ids_props:
  "sorted (matched_ids s ph)" "distinct (matched_ids s ph)" "set (matched_ids s ph) \<subseteq> fmdom' (byNodeID s)"
  by (auto simp: matched_ids_def sorted_wrt_filter)

lemma State_List_from:
  assumes "i \<le> length (matched_ids s (Phase opts))"
    and "Cursor opts = (if i = 0 then [] else matched_ids s (Phase opts) ! (i - 1))"
    and "[] \<notin> fmdom' (byNodeID s)"
  defines "xs \<equiv> matched_ids s (Phase opts)" and "l \<equiv> page_limit (Limit opts)"
  shows "Records (State_List s opts) = map (\<lambda>k. the (fmlookup (byNodeID s) k)) (take l (drop i xs))"
    and "HasMore (State_List s opts) \<longleftrightarrow> i + l < length xs"
    and "i + l < length xs \<Longrightarrow> NextCursor (State_List s opts) = xs ! (i + l - 1)"
proof -
  have start: "(if Cursor opts = [] then 0 else let j = SearchStrings xs (Cursor opts)
      in if j < length xs \<and> xs ! j = Cursor opts then j + 1 else j) = i"
  proof (cases "i = 0")
    case False
    then have b: "i - 1 < length xs" using assms(1) by (simp add: xs_def)
    then have "xs ! (i - 1) \<noteq> []"
      using assms(3) matched_ids_props(3) [of s "Phase opts"] nth_mem [OF b] unfolding xs_def
      by (metis subsetD)
    then show ?thesis
      using False b assms(2) matched_ids_props(1,2) [of s "Phase opts"]
      by (simp add: xs_def [symmetric] SearchStrings_nth)
  qed (use assms(2) in simp)
  have l: "0 < l" by (simp add: l_def page_limit_pos)
  have eq: "State_List s opts =
     (let en = min (i + l) (length xs); page = drop i (take en xs)
      in \<lparr>Records = map (\<lambda>k. the (fmlookup (byNodeID s) k)) page,
          NextCursor = (if en < length xs then last page else []),
          HasMore = (en < length xs), TotalMatches = of_nat (length xs)\<rparr>)"
    unfolding State_List_def xs_def [symmetric] l_def [symmetric] Let_def start [unfolded Let_def] ..
  have page: "drop i (take (min (i + l) (length xs)) xs) = take l (drop i xs)"
    by (simp add: drop_take min_def)
  show "Records (State_List s opts) = map (\<lambda>k. the (fmlookup (byNodeID s) k)) (take l (drop i xs))"
    unfolding eq Let_def page by simp
  show "HasMore (State_List s opts) \<longleftrightarrow> i + l < length xs"
    unfolding eq Let_def by (simp add: min_def)
  assume more: "i + l < length xs"
  then have "last (take l (drop i xs)) = xs ! (i + l - 1)"
    using l by (subst last_conv_nth) (auto simp: min_def)
  then show "NextCursor (State_List s opts) = xs ! (i + l - 1)"
    using more unfolding eq Let_def page by simp
qed

lemma walk_pages_from:
  assumes "[] \<notin> fmdom' (byNodeID s)"
    and "i \<le> length (matched_ids s (Phase opts))" "length (matched_ids s (Phase opts)) - i < fuel"
    and "Cursor opts = (if i = 0 then [] else matched_ids s (Phase opts) ! (i - 1))"
  shows "walk_pages fuel s opts =
    Some (map (\<lambda>k. the (fmlookup (byNodeID s) k)) (drop i (matched_ids s (Phase opts))))"
  using assms(2-)
proof (induction fuel arbitrary: i opts)
  case (Suc fuel)
  let ?xs = "matched_ids s (Phase opts)" and ?l = "page_limit (Limit opts)"
  note page = State_List_from [OF Suc.prems(1,3) assms(1)]
  show ?case
  proof (cases "i + ?l < length ?xs")
    case True
    have "walk_pages fuel s (opts\<lparr>Cursor := ?xs ! (i + ?l - 1)\<rparr>) =
        Some (map (\<lambda>k. the (fmlookup (byNodeID s) k)) (drop (i + ?l) ?xs))"
      using Suc.IH [of "i + ?l" "opts\<lparr>Cursor := ?xs ! (i + ?l - 1)\<rparr>"] True Suc.prems(2)
        page_limit_pos [of "Limit opts"] by simp
    moreover have "take ?l (drop i ?xs) @ drop (i + ?l) ?xs = drop i ?xs"
      by (metis add.commute append_take_drop_id drop_drop)
    ultimately show ?thesis
      using page True by (simp add: Let_def flip: map_append)
  next
    case False
    then show ?thesis using page by (simp add: Let_def)
  qed
qed simp

section \<open>Properties\<close>

text \<open>A record and a registry with one entry, for the concrete instances below.\<close>

definition sample_record :: "string \<Rightarrow> string \<Rightarrow> BondMode \<Rightarrow> u64 \<Rightarrow> EnrollmentRecord" where
  "sample_record n g mode stake =
     \<lparr>NodeID = n, Owner = ''alice'', GPUUUID = g, HMACKey = replicate 32 7, StakeDust = stake, BondMode = mode,
      RequiredStakeDust = MinEnrollStakeDust, EnrolledAtHeight = 5, RevokedAtHeight = 0,
      UnbondMaturesAtHeight = 0, Memo = []\<rparr>"

definition sample_state :: InMemoryState where
  "sample_state = \<lparr>byNodeID = fmupd ''rig-1'' (sample_record ''rig-1'' ''GPU-1'' BondModeMiningRewards 0) fmempty,
     byGPUActive = fmupd ''GPU-1'' ''rig-1'' fmempty, seenEvidence = {||}\<rparr>"

lemma sample_fresh: "n \<noteq> [] \<Longrightarrow> stake \<le> MinEnrollStakeDust \<Longrightarrow> fresh_record (sample_record n g mode stake)"
  by (simp add: fresh_record_def sample_record_def Active_def RequiredBondDust_def word_le_nat_alt)

lemma sample_reached:
  "ApplyEnroll (sample_record ''rig-1'' ''GPU-1'' BondModeMiningRewards 0) NewInMemoryState = Inr sample_state"
  by (simp add: ApplyEnroll_def NewInMemoryState_def sample_state_def sample_record_def)

lemma sample_reachable: "enroll_step\<^sup>*\<^sup>* NewInMemoryState sample_state"
  using enroll_step.enroll [OF sample_reached sample_fresh] by simp

lemma sample_lookup:
  "Lookup sample_state ''rig-1'' = Some (sample_record ''rig-1'' ''GPU-1'' BondModeMiningRewards 0)"
  "Active (sample_record n g mode stake)" "GPUUUID (sample_record n g mode stake) = g"
  "NodeID (sample_record n g mode stake) = n"
  by (simp_all add: Lookup_def sample_state_def sample_record_def Active_def)

lemmas sample_inv = enroll_reachable_inv [OF sample_reachable]

text \<open>
  C36: one GPU mines for one node. In every state reached from the empty registry by enrollments,
  unenrollments and revocations at non-zero heights, accruals, the legacy sunset, sweeps in any map
  order, slashes and evidence marks, two active records with the same GPU are the same node, and the
  GPU index names that node.
\<close>

theorem one_active_node_per_gpu:
  assumes "enroll_step\<^sup>*\<^sup>* NewInMemoryState s"
    and "Lookup s m = Some r" "Active r" "Lookup s n = Some q" "Active q" "GPUUUID r = GPUUUID q"
  shows "m = n \<and> GPUUUIDBound s (GPUUUID r) = m"
proof -
  have inv: "enroll_inv s" by (rule enroll_reachable_inv [OF assms(1)])
  then have "m \<noteq> []" using mem.inv_node assms(2) by blast
  then show ?thesis
    using mem.one_node_per_gpu [OF inv assms(2,4,3,5,6)] GPUUUIDBound_iff [OF inv] assms(2,3) by blast
qed

theorem one_active_node_per_gpu_witness:
  "GPUUUIDBound sample_state ''GPU-1'' = ''rig-1''"
  using one_active_node_per_gpu [OF sample_reachable sample_lookup(1) sample_lookup(2)
      sample_lookup(1) sample_lookup(2)] by (simp add: sample_lookup)

text \<open>
  an accepted enrollment excludes a second one. After \<open>ApplyEnroll\<close> succeeds, the record can be
  looked up, and enrolling the same node id or the same GPU again fails.
\<close>

theorem enroll_excludes_duplicates:
  assumes "enroll_inv s" "ApplyEnroll rec s = Inr s'" "fresh_record rec"
    and "NodeID rec' = NodeID rec \<or> GPUUUID rec' = GPUUUID rec"
  shows "Lookup s' (NodeID rec) = Some rec \<and> (\<exists>e. ApplyEnroll rec' s' = Inl e)"
  using mem.lookup_enroll [OF assms(1,2)] mem.no_second_enroll [OF assms] by simp

theorem enroll_excludes_duplicates_witness:
  "\<exists>e. ApplyEnroll (sample_record ''rig-2'' ''GPU-1'' BondModeUpfront MinEnrollStakeDust) sample_state = Inl e"
  using enroll_excludes_duplicates [OF NewInMemoryState_inv sample_reached sample_fresh,
      of "sample_record ''rig-2'' ''GPU-1'' BondModeUpfront MinEnrollStakeDust"]
  by (simp add: sample_lookup)

text \<open>
  unenrolling frees the GPU but not the node id. After a successful unenrollment at a non-zero
  height, a new node can enroll the same GPU at once, while the old node id stays refused and its
  holder is told it was revoked, until the sweep.
\<close>

theorem unenroll_frees_gpu_keeps_node_id:
  assumes "enroll_inv s" "Lookup s n = Some r" "ApplyUnenroll n h s = Inr s'" "h \<noteq> 0"
    and "Lookup s (NodeID rec) = None" "GPUUUID rec = GPUUUID r"
  shows "(\<exists>t. ApplyEnroll rec s' = Inr t) \<and> Registry_Lookup s' n = Inl ErrNodeRevoked \<and>
    ApplyEnroll (rec\<lparr>NodeID := n\<rparr>) s' = Inl ErrStateNodePresent"
proof -
  have "Lookup s' n = Some (r\<lparr>RevokedAtHeight := h, UnbondMaturesAtHeight := h + UnbondWindow\<rparr>)"
    using mem.lookup_unenroll [OF assms(1,3), of n] assms(2) by auto
  then show ?thesis
    using mem.unenroll_frees_gpu [OF assms] assms(4)
    by (auto simp: Registry_Lookup_def ApplyEnroll_def Lookup_def fmdom_lookup)
qed

theorem unenroll_frees_gpu_keeps_node_id_witness:
  "\<exists>s'. ApplyUnenroll ''rig-1'' 7 sample_state = Inr s' \<and> Registry_Lookup s' ''rig-1'' = Inl ErrNodeRevoked"
proof -
  obtain s' where s': "ApplyUnenroll ''rig-1'' 7 sample_state = Inr s'"
    using sample_lookup(1) by (auto simp: ApplyUnenroll_def Lookup_def sample_lookup(2))
  have "Lookup sample_state ''rig-2'' = None" by (simp add: Lookup_def sample_state_def)
  then show ?thesis
    using unenroll_frees_gpu_keeps_node_id [OF sample_inv sample_lookup(1) s', of "sample_record ''rig-2'' ''GPU-1'' [] 0"] s'
    by (simp add: sample_lookup)
qed

text \<open>
  locking a mining reward into deferred bonds conserves dust. The amount withheld never exceeds
  the reward, the total stake of the registry grows by exactly that amount, with no wrap-around, no
  record rises above its bond target, and the wallet is paid something only when none of the owner's
  active deferred records still lacks bond.
\<close>

theorem accrue_conserves_dust:
  assumes "enroll_inv s" "AccrueBondFromReward owner reward s = (s', w)"
  shows "w \<le> reward \<and> total_stake (byNodeID s') = total_stake (byNodeID s) + unat w \<and>
    (\<forall>n r. Lookup s' n = Some r \<longrightarrow> StakeDust r \<le> RequiredBondDust r) \<and>
    (w < reward \<and> owner \<noteq> [] \<longrightarrow> (\<forall>n r. Lookup s' n = Some r \<longrightarrow> \<not> accrues owner r))"
  using AccrueBondFromReward_spec [OF assms] enroll_inv_record
  unfolding Lookup_def word_le_nat_alt by blast

theorem accrue_conserves_dust_witness:
  "\<exists>s' w. AccrueBondFromReward ''alice'' 500 sample_state = (s', w) \<and> w \<le> 500 \<and>
     total_stake (byNodeID s') = total_stake (byNodeID sample_state) + unat w"
proof -
  obtain s' w where e: "AccrueBondFromReward ''alice'' 500 sample_state = (s', w)" by fastforce
  show ?thesis using accrue_conserves_dust [OF sample_inv e] e by blast
qed

text \<open>
  the sweep conserves stake and removes only matured records. Whatever order the map is ranged
  in, the resulting registry is the same, the releases are the same up to their order, released plus
  remaining stake is the stake before, and a record is gone exactly when it was revoked and its
  unbond height reached.
\<close>

theorem sweep_conserves_stake:
  assumes "map_order (byNodeID s) o1" "map_order (byNodeID s) o2"
    and "SweepMaturedUnbonds o1 h s = (s1, rel1)" "SweepMaturedUnbonds o2 h s = (s2, rel2)"
  shows "s1 = s2 \<and> mset rel1 = mset rel2 \<and>
    total_stake (byNodeID s) = total_stake (byNodeID s1) + (\<Sum>r \<leftarrow> rel1. unat (UR_StakeDust r)) \<and>
    (\<forall>n. Lookup s1 n = (case Lookup s n of None \<Rightarrow> None
       | Some r \<Rightarrow> if \<not> Active r \<and> UnbondMaturesAtHeight r \<le> h then None else Some r))"
proof -
  let ?P = "mature_at (byNodeID s) h"
  have e: "s1 = s\<lparr>byNodeID := fmfilter (\<lambda>k. \<not> ?P k) (byNodeID s)\<rparr>" "s2 = s1"
    "rel1 = map (release_of (byNodeID s)) (filter ?P o1)" "rel2 = map (release_of (byNodeID s)) (filter ?P o2)"
    using assms SweepMaturedUnbonds_spec by auto
  have o: "distinct o1" "set o1 = fmdom' (byNodeID s)" "distinct o2" "set o2 = fmdom' (byNodeID s)"
    using assms by (simp_all add: map_order_def)
  then have "mset o1 = mset o2" by (simp add: set_eq_iff_mset_eq_distinct [symmetric])
  then have "mset rel1 = mset rel2" by (simp add: e mset_filter)
  moreover have "fmfilter (\<lambda>k. \<not> (k \<in> set o1 \<and> ?P k)) (byNodeID s) = fmfilter (\<lambda>k. \<not> ?P k) (byNodeID s)"
    using o by (intro fmap_ext) (auto simp: fmdom'_iff)
  then have "total_stake (byNodeID s) = total_stake (byNodeID s1) + (\<Sum>r \<leftarrow> rel1. unat (UR_StakeDust r))"
    using sweep_total [of o1 "byNodeID s" ?P] o e by simp
  moreover have "Lookup s1 n = (case Lookup s n of None \<Rightarrow> None
      | Some r \<Rightarrow> if \<not> Active r \<and> UnbondMaturesAtHeight r \<le> h then None else Some r)" for n
    by (auto simp: e Lookup_def mature_at_def MatureForUnbond_def split: option.splits)
  ultimately show ?thesis using e(2) by blast
qed

theorem sweep_conserves_stake_witness:
  "total_stake (byNodeID sample_state) =
     total_stake (byNodeID (fst (SweepMaturedUnbonds (sorted_keys (byNodeID sample_state)) 9 sample_state))) +
     (\<Sum>r \<leftarrow> snd (SweepMaturedUnbonds (sorted_keys (byNodeID sample_state)) 9 sample_state). unat (UR_StakeDust r))"
  using sweep_conserves_stake [OF map_order_sorted_keys map_order_sorted_keys prod.collapse [symmetric]
      prod.collapse [symmetric], of sample_state 9] by blast

text \<open>
  following the cursor lists every matching record exactly once, in node-id order, and ends. For
  any page limit and phase, a walk of at most one page per matching record, plus one, returns the
  records of all matching node ids in sorted order.
\<close>

theorem page_walk_complete:
  assumes "enroll_inv s"
  shows "walk_pages (Suc (length (matched_ids s phase))) s \<lparr>Cursor = [], Limit = limit, Phase = phase\<rparr> =
    Some (map (\<lambda>n. the (Lookup s n)) (matched_ids s phase))"
proof -
  have "[] \<notin> fmdom' (byNodeID s)" using enroll_inv_record [OF assms] unfolding fmdom'_iff by blast
  then show ?thesis
    using walk_pages_from [of s 0 "\<lparr>Cursor = [], Limit = limit, Phase = phase\<rparr>"
        "Suc (length (matched_ids s phase))"] by (simp add: Lookup_def)
qed

theorem page_walk_complete_witness:
  "walk_pages (Suc (length (matched_ids sample_state PhaseActive))) sample_state
     \<lparr>Cursor = [], Limit = 1, Phase = PhaseActive\<rparr> =
   Some (map (\<lambda>n. the (Lookup sample_state n)) (matched_ids sample_state PhaseActive))"
  by (rule page_walk_complete [OF sample_inv])

text \<open>
  height 0 breaks the binding. An unenrollment at height 0 succeeds and frees the GPU, but the
  record stays active, since 0 is the mark of an active record; a second node can then enroll the
  same GPU, and two active records share it.
\<close>

theorem unenroll_at_height_zero_shares_gpu:
  assumes "enroll_inv s" "Lookup s n = Some r" "Active r"
    and "fresh_record rec" "GPUUUID rec = GPUUUID r" "Lookup s (NodeID rec) = None"
  shows "\<exists>s' s'' r'. ApplyUnenroll n 0 s = Inr s' \<and> ApplyEnroll rec s' = Inr s'' \<and>
    Lookup s'' n = Some r' \<and> Active r' \<and> Lookup s'' (NodeID rec) = Some rec \<and> Active rec \<and>
    NodeID rec \<noteq> n \<and> GPUUUID r' = GPUUUID rec"
proof -
  have "NodeID rec \<noteq> n" using assms(2,6) by auto
  then show ?thesis
    using assms by (auto simp: ApplyUnenroll_def ApplyEnroll_def Lookup_def revoke_at_def fmdom_lookup fresh_record_def)
qed

theorem unenroll_at_height_zero_shares_gpu_witness:
  "\<exists>s' s'' r'. ApplyUnenroll ''rig-1'' 0 sample_state = Inr s' \<and>
     ApplyEnroll (sample_record ''rig-2'' ''GPU-1'' [] 0) s' = Inr s'' \<and>
     Lookup s'' ''rig-1'' = Some r' \<and> Active r' \<and> GPUUUID r' = ''GPU-1''"
  using unenroll_at_height_zero_shares_gpu [OF sample_inv sample_lookup(1) sample_lookup(2) sample_fresh,
      of "''rig-2''" 0 "''GPU-1''" "[]"]
  by (auto simp: sample_lookup Lookup_def sample_state_def)

end
