(* ===== verification/EnrollmentApply.thy ===== *)
theory EnrollmentApply
  imports EnrollmentProofs Accounts
begin

text \<open>
  \<open>pkg/chain/enrollment_apply.go\<close> and \<open>mining_reward.go\<close>: the chain-side adapter that moves dust
  between the account store and the enrollment registry. The state is the pair of both stores. Events
  and metrics are output only and are left out.

  Decoding a payload (\<open>encoding/json\<close> with the struct tags of \<open>types.go\<close>) and verifying an ML-DSA
  signature are arguments, the fields of \<open>EnrollCodec\<close>: the handlers branch on their results, and
  the theorems hold for every choice.
\<close>

record Ledger =
  Accounts :: AccountStore
  Enrollments :: InMemoryState

record EnrollCodec =
  VerifySignedTransaction :: "Tx \<Rightarrow> bool"
  PeekKind :: "bytes \<Rightarrow> PayloadKind option"
  DecodeEnrollPayload :: "bytes \<Rightarrow> enroll_error + EnrollPayload"
  DecodeUnenrollPayload :: "bytes \<Rightarrow> enroll_error + UnenrollPayload"

datatype apply_error =
  ErrNotEnrollmentTx | ErrSignature | ErrUnknownKind | ErrNoAccount | ErrFeeNegative
| ErrEnroll enroll_error | ErrAccount account_error | ErrRewardShape | ErrRewardContract
| ErrLockedTooMuch

definition dustPerCELL :: u64 where "dustPerCELL = 100000000"

definition dustToBalance :: "u64 \<Rightarrow> f64" where
  "dustToBalance dust = fdiv (f64_of_u64 dust) (f64_of_u64 dustPerCELL)"

definition balanceToDust :: "f64 \<Rightarrow> u64" where
  "balanceToDust bal =
     (if fle bal fzero \<or> bal = NaN then 0
      else let scaled = fmul bal (f64_of_u64 dustPerCELL)
           in if fle (f64_of_nat (2 ^ 64 - 1)) scaled then - 1 else of_nat (trunc_nat scaled))"

text \<open>
  \<open>applyEnroll\<close> in its three parts: the checks, in order, and the mutation sequence (charge the
  sender, commit the record, refund the stake if the commit fails).
\<close>

definition enroll_checks :: "EnrollPayload \<Rightarrow> Tx \<Rightarrow> u64 \<Rightarrow> Ledger \<Rightarrow> apply_error + unit" where
  "enroll_checks payload tx height L =
    (case ValidateEnrollFields payload (Sender tx) of Inl e \<Rightarrow> Inl (ErrEnroll e) | Inr _ \<Rightarrow>
     if P_BondMode payload = BondModeMiningRewards \<and> TxContractID tx \<noteq> SignedContractID
       then Inl (ErrEnroll ErrLegacyContractDisabled)
     else if P_BondMode payload = BondModeMiningRewards \<and> height < DeferredBondActivationHeight
       then Inl (ErrEnroll ErrDeferredBondNotActive)
     else
       let senderAcc = Get (Sender tx) (Accounts L);
           deferredBond = (P_BondMode payload = BondModeMiningRewards)
       in if senderAcc = None \<and> \<not> deferredBond then Inl ErrNoAccount
          else
            let senderBalanceDust = (case senderAcc of None \<Rightarrow> 0 | Some acc \<Rightarrow> balanceToDust (Balance acc))
            in case ValidateEnrollAgainstState payload senderBalanceDust (Enrollments L) of
                 Inl e \<Rightarrow> Inl (ErrEnroll e) | Inr _ \<Rightarrow> Inr ())"

definition charge_of :: "bool \<Rightarrow> f64 \<Rightarrow> string \<Rightarrow> f64 \<Rightarrow> u64 \<Rightarrow> AccountStore \<Rightarrow> account_result" where
  "charge_of deferred totalDebit =
     (if feq totalDebit fzero then (if deferred then ChargeAndBumpNonceAllowCreate else ChargeAndBumpNonce)
      else DebitAndBumpNonce)"

definition enrolled_record :: "EnrollPayload \<Rightarrow> string \<Rightarrow> u64 \<Rightarrow> EnrollmentRecord" where
  "enrolled_record p sender height =
     \<lparr>NodeID = P_NodeID p, Owner = sender, GPUUUID = P_GPUUUID p, HMACKey = P_HMACKey p,
      StakeDust = P_StakeDust p, BondMode = P_BondMode p, RequiredStakeDust = MinEnrollStakeDust,
      EnrolledAtHeight = height, RevokedAtHeight = 0, UnbondMaturesAtHeight = 0, Memo = []\<rparr>"

definition enroll_commit :: "EnrollPayload \<Rightarrow> Tx \<Rightarrow> u64 \<Rightarrow> Ledger \<Rightarrow> apply_error option \<times> Ledger" where
  "enroll_commit payload tx height L =
    (let stakeCELL = dustToBalance (P_StakeDust payload);
         totalDebit = fadd stakeCELL (Fee tx);
         charge = charge_of (P_BondMode payload = BondModeMiningRewards) totalDebit
     in case charge (Sender tx) totalDebit (TxNonce tx) (Accounts L) of
          (Some e, as) \<Rightarrow> (Some (ErrAccount e), L\<lparr>Accounts := as\<rparr>)
        | (None, as) \<Rightarrow>
            (case ApplyEnroll (enrolled_record payload (Sender tx) height) (Enrollments L) of
               Inl e \<Rightarrow> (Some (ErrEnroll e), L\<lparr>Accounts := Credit (Sender tx) stakeCELL as\<rparr>)
             | Inr es \<Rightarrow> (None, L\<lparr>Accounts := as, Enrollments := es\<rparr>)))"

definition applyEnroll :: "EnrollCodec \<Rightarrow> Tx \<Rightarrow> u64 \<Rightarrow> Ledger \<Rightarrow> apply_error option \<times> Ledger" where
  "applyEnroll codec tx height L =
    (case DecodeEnrollPayload codec (Payload tx) of Inl e \<Rightarrow> (Some (ErrEnroll e), L) | Inr payload \<Rightarrow>
     case enroll_checks payload tx height L of Inl e \<Rightarrow> (Some e, L) | Inr _ \<Rightarrow> enroll_commit payload tx height L)"

definition applyUnenroll :: "EnrollCodec \<Rightarrow> Tx \<Rightarrow> u64 \<Rightarrow> Ledger \<Rightarrow> apply_error option \<times> Ledger" where
  "applyUnenroll codec tx height L =
    (case DecodeUnenrollPayload codec (Payload tx) of Inl e \<Rightarrow> (Some (ErrEnroll e), L) | Inr payload \<Rightarrow>
     case ValidateUnenrollFields payload (Sender tx) of Inl e \<Rightarrow> (Some (ErrEnroll e), L) | Inr _ \<Rightarrow>
     case ValidateUnenrollAgainstState payload (Sender tx) (Enrollments L) of Inl e \<Rightarrow> (Some (ErrEnroll e), L)
     | Inr _ \<Rightarrow>
       if fless (Fee tx) fzero then (Some ErrFeeNegative, L)
       else case ChargeAndBumpNonce (Sender tx) (Fee tx) (TxNonce tx) (Accounts L) of
         (Some e, as) \<Rightarrow> (Some (ErrAccount e), L\<lparr>Accounts := as\<rparr>)
       | (None, as) \<Rightarrow>
           (case ApplyUnenroll (U_NodeID payload) height (Enrollments L) of
              Inl e \<Rightarrow> (Some (ErrEnroll e), L\<lparr>Accounts := Credit (Sender tx) (Fee tx) as\<rparr>)
            | Inr es \<Rightarrow> (None, L\<lparr>Accounts := as, Enrollments := es\<rparr>)))"

definition ApplyEnrollmentTx :: "EnrollCodec \<Rightarrow> Tx \<Rightarrow> u64 \<Rightarrow> Ledger \<Rightarrow> apply_error option \<times> Ledger" where
  "ApplyEnrollmentTx codec tx height L =
    (if \<not> IsContractID (TxContractID tx) then (Some ErrNotEnrollmentTx, L)
     else if TxContractID tx = ContractID \<and> SignedContractActivationHeight \<le> height
       then (Some (ErrEnroll ErrLegacyContractDisabled), L)
     else if TxContractID tx \<noteq> ContractID \<and> \<not> VerifySignedTransaction codec tx then (Some ErrSignature, L)
     else case PeekKind codec (Payload tx) of None \<Rightarrow> (Some (ErrEnroll ErrPayloadDecode), L) | Some kind \<Rightarrow>
       if kind = PayloadKindEnroll then applyEnroll codec tx height L
       else if kind = PayloadKindUnenroll then applyUnenroll codec tx height L
       else (Some ErrUnknownKind, L))"

definition credit_release :: "UnbondRelease \<Rightarrow> AccountStore \<Rightarrow> AccountStore" where
  "credit_release r as = (if UR_Owner r = [] then as else Credit (UR_Owner r) (dustToBalance (UR_StakeDust r)) as)"

text \<open>The order argument ranges the registry map after the legacy sunset, inside the sweep.\<close>

definition SweepMaturedEnrollments :: "string list \<Rightarrow> u64 \<Rightarrow> Ledger \<Rightarrow> Ledger \<times> UnbondRelease list" where
  "SweepMaturedEnrollments order height L =
    (let (es, _) = RevokeLegacyOwners height (Enrollments L);
         (es, released) = SweepMaturedUnbonds order height es
     in (L\<lparr>Accounts := fold credit_release released (Accounts L), Enrollments := es\<rparr>, released))"

definition MiningRewardContractID :: string where "MiningRewardContractID = ''QSD/mining-reward/v1''"
definition MiningRewardFunderAddress :: string where "MiningRewardFunderAddress = ''QSD-system-funder''"

definition ApplyMiningRewardTx :: "Tx \<Rightarrow> Ledger \<Rightarrow> apply_error option \<times> Ledger" where
  "ApplyMiningRewardTx tx L =
    (if TxContractID tx \<noteq> MiningRewardContractID \<or> Sender tx \<noteq> MiningRewardFunderAddress
       then (Some ErrRewardContract, L)
     else if \<not> feq (Fee tx) fzero \<or> fle (Amount tx) fzero \<or> Recipient tx = [] then (Some ErrRewardShape, L)
     else
       let before = State_Clone (Some (Enrollments L));
           rewardDust = balanceToDust (Amount tx);
           (es, lockedDust) = AccrueBondFromReward (Recipient tx) rewardDust (Enrollments L)
       in if rewardDust < lockedDust
          then (Some ErrLockedTooMuch, L\<lparr>Enrollments := before\<rparr>)
          else
            let liquidAmount = fsub (Amount tx) (dustToBalance lockedDust);
                liquidAmount = (if fless liquidAmount fzero then fzero else liquidAmount)
            in case ApplyProtocolReward (Some tx) liquidAmount (Accounts L) of
                 (Some e, as) \<Rightarrow> (Some (ErrAccount e), L\<lparr>Accounts := as, Enrollments := before\<rparr>)
               | (None, as) \<Rightarrow> (None, L\<lparr>Accounts := as, Enrollments := es\<rparr>))"

section \<open>Lemmas\<close>

lemma validated_enroll_commits:
  assumes "enroll_inv s" "ValidateEnrollAgainstState p b s = Inr u"
    and "NodeID rec = P_NodeID p" "GPUUUID rec = P_GPUUUID p"
  shows "\<exists>s'. ApplyEnroll rec s = Inr s'"
  using assms mem.enroll_ok_iff [OF assms(1), of rec]
  by (auto simp: ValidateEnrollAgainstState_def split: if_splits)

lemma validated_unenroll_commits:
  assumes "ValidateUnenrollAgainstState p sender s = Inr u"
  shows "\<exists>s'. ApplyUnenroll (U_NodeID p) h s = Inr s'"
  using assms
  by (auto simp: ValidateUnenrollAgainstState_def ApplyUnenroll_def Lookup_def split: option.splits if_splits)

lemma enrolled_record_fresh:
  "ValidateEnrollFields p sender = Inr u \<Longrightarrow> fresh_record (enrolled_record p sender h)"
  using ValidateEnrollFields_ok [of p sender u]
  by (auto simp: fresh_record_def enrolled_record_def Active_def RequiredBondDust_def)

lemma charge_of_error: "charge_of d t a x n as = (Some e, as') \<Longrightarrow> as' = as"
  using charge_error(1,2) [of a x n as] charge_create_error [of a x n as]
  by (auto simp: charge_of_def split: if_splits)

lemma charge_of_whole:
  assumes "whole_ledger as" "charge_of d t a (f_int n) k as = (None, as')"
  shows "whole_ledger as' \<and> money_supply as' + n = money_supply as"
  using assms(2) ChargeAndBumpNonce_whole [OF assms(1)] DebitAndBumpNonce_whole [OF assms(1)]
    ChargeAllowCreate_whole [OF assms(1)]
  unfolding charge_of_def by (auto split: if_splits)

lemma enroll_checks_ok:
  assumes "enroll_checks p tx h L = Inr u"
  shows "ValidateEnrollFields p (Sender tx) = Inr ()" "\<exists>b. ValidateEnrollAgainstState p b (Enrollments L) = Inr ()"
    "P_BondMode p = BondModeMiningRewards \<Longrightarrow> TxContractID tx = SignedContractID"
  using assms unfolding enroll_checks_def by (auto simp: Let_def split: if_splits sum.splits)

text \<open>
  A handler that succeeds went through every check; one that fails left the ledger alone, since
  after validation the registry cannot refuse the record.
\<close>

lemma enroll_commit_cases:
  assumes "enroll_inv (Enrollments L)" "enroll_checks p tx h L = Inr u" "enroll_commit p tx h L = (res, L')"
  defines "t \<equiv> fadd (dustToBalance (P_StakeDust p)) (Fee tx)"
  shows "(\<exists>e. res = Some e \<and> L' = L) \<or>
    (\<exists>as es. res = None \<and> L' = L\<lparr>Accounts := as, Enrollments := es\<rparr> \<and>
       charge_of (P_BondMode p = BondModeMiningRewards) t (Sender tx) t (TxNonce tx) (Accounts L) = (None, as) \<and>
       ApplyEnroll (enrolled_record p (Sender tx) h) (Enrollments L) = Inr es)"
proof -
  obtain es where es: "ApplyEnroll (enrolled_record p (Sender tx) h) (Enrollments L) = Inr es"
    using validated_enroll_commits [OF assms(1)] enroll_checks_ok(2) [OF assms(2)]
    by (fastforce simp: enrolled_record_def)
  obtain r as where ch: "charge_of (P_BondMode p = BondModeMiningRewards) t (Sender tx) t (TxNonce tx) (Accounts L) = (r, as)"
    by fastforce
  show ?thesis
  proof (cases r)
    case None
    then show ?thesis using assms(3) ch es by (simp add: enroll_commit_def t_def)
  next
    case (Some e)
    then have "as = Accounts L" using ch charge_of_error by blast
    then show ?thesis using assms(3) ch Some by (auto simp: enroll_commit_def t_def)
  qed
qed

lemma applyUnenroll_cases:
  assumes "applyUnenroll codec tx h L = (res, L')"
  shows "(\<exists>e. res = Some e \<and> L' = L) \<or>
    (\<exists>p as es. res = None \<and> L' = L\<lparr>Accounts := as, Enrollments := es\<rparr> \<and>
       DecodeUnenrollPayload codec (Payload tx) = Inr p \<and>
       ValidateUnenrollAgainstState p (Sender tx) (Enrollments L) = Inr () \<and>
       ChargeAndBumpNonce (Sender tx) (Fee tx) (TxNonce tx) (Accounts L) = (None, as) \<and>
       ApplyUnenroll (U_NodeID p) h (Enrollments L) = Inr es)"
proof (cases "DecodeUnenrollPayload codec (Payload tx)")
  case (Inr p)
  obtain r as where ch: "ChargeAndBumpNonce (Sender tx) (Fee tx) (TxNonce tx) (Accounts L) = (r, as)" by fastforce
  show ?thesis
  proof (cases "ValidateUnenrollAgainstState p (Sender tx) (Enrollments L)")
    case (Inr u)
    obtain es where "ApplyUnenroll (U_NodeID p) h (Enrollments L) = Inr es"
      using validated_unenroll_commits [OF Inr] by blast
    then show ?thesis
      using assms \<open>DecodeUnenrollPayload codec (Payload tx) = Inr p\<close> Inr ch charge_error(1) [of "Sender tx" "Fee tx" "TxNonce tx" "Accounts L"]
      by (cases r) (auto simp: applyUnenroll_def split: if_splits sum.splits)
  qed (use assms Inr in \<open>auto simp: applyUnenroll_def split: sum.splits\<close>)
qed (use assms in \<open>auto simp: applyUnenroll_def\<close>)

lemma ApplyEnrollmentTx_cases:
  assumes "ApplyEnrollmentTx codec tx h L = (res, L')"
  shows "(\<exists>e. res = Some e \<and> L' = L) \<or> applyEnroll codec tx h L = (res, L') \<or> applyUnenroll codec tx h L = (res, L')"
  using assms by (auto simp: ApplyEnrollmentTx_def split: if_splits option.splits)

lemma applyEnroll_cases:
  assumes "applyEnroll codec tx h L = (res, L')"
  shows "(\<exists>e. res = Some e \<and> L' = L) \<or>
    (\<exists>p. DecodeEnrollPayload codec (Payload tx) = Inr p \<and> enroll_checks p tx h L = Inr () \<and>
         enroll_commit p tx h L = (res, L'))"
  using assms by (auto simp: applyEnroll_def split: sum.splits)

lemma ApplyEnroll_total:
  "ApplyEnroll rec s = Inr s' \<Longrightarrow> total_stake (byNodeID s') = total_stake (byNodeID s) + unat (StakeDust rec)"
  by (auto simp: ApplyEnroll_def total_stake_def fmap_total_fresh fmdom_lookup split: if_splits)

lemma revoke_at_total:
  "fmlookup (byNodeID s) n = Some r \<Longrightarrow> total_stake (byNodeID (revoke_at h n r s)) = total_stake (byNodeID s)"
  using fmap_total_upd [of "byNodeID s" n r "\<lambda>r. unat (StakeDust r)"
      "r\<lparr>RevokedAtHeight := h, UnbondMaturesAtHeight := h + UnbondWindow\<rparr>"]
  by (simp add: revoke_at_def total_stake_def)

lemma ApplyUnenroll_total:
  "ApplyUnenroll n h s = Inr s' \<Longrightarrow> total_stake (byNodeID s') = total_stake (byNodeID s)"
  by (auto simp: ApplyUnenroll_def revoke_at_total split: option.splits if_splits)

lemma dustToBalance_whole:
  assumes "unat d = k * 100000000" "unat d \<le> 9007199254740992"
  shows "dustToBalance d = f_int k"
  using assms fdiv_f_int_exact [of 100000000 k]
  by (simp add: dustToBalance_def f64_of_u64_def dustPerCELL_def)

lemma maxu64_float_large: "z \<le> 2 ^ 53 * unit_one \<Longrightarrow> \<not> fle (f64_of_nat (2 ^ 64 - 1)) (Fin False z)"
proof -
  assume z: "z \<le> 2 ^ 53 * unit_one"
  let ?w = "2 ^ 54 :: nat"
  have rep: "representable (?w * unit_one)"
    unfolding unit_one_def by (rule representableI [of _ 1 "54 + 1074"]) (simp_all add: power_add)
  have "?w * unit_one \<le> (2 ^ 64 - 1) * unit_one" by (intro mult_le_mono1) simp
  then have m: "?w * unit_one \<le> round_mag ((2 ^ 64 - 1) * unit_one)"
    using f64_rounding.rnd_ge_rep [OF rep] by simp
  have "2 ^ 53 * unit_one < ?w * unit_one" by simp
  with z have "z < ?w * unit_one" by (rule le_less_trans)
  then have "z < round_mag ((2 ^ 64 - 1) * unit_one)" using m by (rule less_le_trans)
  then show ?thesis
    by (auto simp: f64_of_nat_def mk_fin_def fle_def not_le simp del: of_nat_mult)
qed

lemma balanceToDust_whole:
  assumes "k * 100000000 \<le> 9007199254740992"
  shows "balanceToDust (f_int k) = of_nat (k * 100000000)"
proof (cases "k = 0")
  case False
  have k: "k * 100000000 \<le> 2 ^ 53" using assms by simp
  have "fmul (f_int k) (f_int 100000000) = f_int (k * 100000000)"
    using representable_int [OF k] f_int_bound [OF k]
    by (simp add: f_int_def [of k] f_int_def [of "k * 100000000"] fmul_f_int mk_fin_def round_mag_representable ac_simps)
  then show ?thesis
    using False maxu64_float_large [of "k * 100000000 * unit_one"] k
    by (simp add: balanceToDust_def fzero_f_int f64_of_u64_def dustPerCELL_def f_int_def [symmetric])
qed (simp add: balanceToDust_def fzero_f_int)

text \<open>All dust of the node: balances of a whole-number ledger and stakes.\<close>

definition total_dust :: "Ledger \<Rightarrow> nat" where
  "total_dust L = money_supply (Accounts L) * 100000000 + total_stake (byNodeID (Enrollments L))"

lemma payload_stake:
  assumes "ValidateEnrollFields p sender = Inr u"
  obtains c where "unat (P_StakeDust p) = c * 100000000" "c \<le> 10" "dustToBalance (P_StakeDust p) = f_int c"
proof (cases "P_StakeDust p = 0")
  case True
  then show ?thesis using that [of 0] dustToBalance_whole [of "P_StakeDust p" 0] by simp
next
  case False
  then have "unat (P_StakeDust p) = 10 * 100000000"
    using ValidateEnrollFields_ok(6) [OF assms] by (auto simp: MinEnrollStakeDust_def)
  then show ?thesis using that [of 10] dustToBalance_whole [of "P_StakeDust p" 10] by simp
qed

lemma enroll_commit_conserves:
  assumes "whole_ledger (Accounts L)" "Fee tx = f_int f" "f \<le> 2 ^ 52"
    and "ValidateEnrollFields p (Sender tx) = Inr u"
  defines "t \<equiv> fadd (dustToBalance (P_StakeDust p)) (Fee tx)"
  assumes "charge_of d t (Sender tx) t (TxNonce tx) (Accounts L) = (None, as)"
    and "ApplyEnroll (enrolled_record p (Sender tx) h) (Enrollments L) = Inr es"
  shows "whole_ledger as \<and> total_dust (L\<lparr>Accounts := as, Enrollments := es\<rparr>) + f * 100000000 = total_dust L"
proof -
  obtain c where c: "unat (P_StakeDust p) = c * 100000000" "c \<le> 10" "dustToBalance (P_StakeDust p) = f_int c"
    using payload_stake [OF assms(4)] by blast
  have "t = f_int (c + f)" using c assms(2,3) by (simp add: t_def)
  then have w: "whole_ledger as" "money_supply as + (c + f) = money_supply (Accounts L)"
    using charge_of_whole [OF assms(1)] assms(6) by simp_all
  have "total_stake (byNodeID es) = total_stake (byNodeID (Enrollments L)) + c * 100000000"
    using ApplyEnroll_total [OF assms(7)] c by (simp add: enrolled_record_def)
  then show ?thesis using w(1) by (simp add: total_dust_def w(2) [symmetric] algebra_simps)
qed

section \<open>Properties\<close>

definition sample_payload :: EnrollPayload where
  "sample_payload = \<lparr>P_Kind = PayloadKindEnroll, P_NodeID = ''rig-1'', P_GPUUUID = ''GPU-1'', P_HMACKey = replicate 32 7,
     P_StakeDust = MinEnrollStakeDust, P_BondMode = [], P_WorkNonce = 0, P_Memo = []\<rparr>"

definition sample_codec :: EnrollCodec where
  "sample_codec = \<lparr>VerifySignedTransaction = (\<lambda>tx. True), PeekKind = (\<lambda>b. Some PayloadKindEnroll),
     DecodeEnrollPayload = (\<lambda>b. Inr sample_payload), DecodeUnenrollPayload = (\<lambda>b. Inl ErrPayloadDecode)\<rparr>"

definition sample_ledger :: Ledger where
  "sample_ledger = \<lparr>Accounts = fmupd ''alice'' \<lparr>Address = ''alice'', Balance = f_int 100, Nonce = 0\<rparr> fmempty,
     Enrollments = NewInMemoryState\<rparr>"

definition sample_tx :: Tx where
  "sample_tx = (transfer ''alice'' [] fzero (f_int 1) 0)\<lparr>TxContractID := SignedContractID\<rparr>"

text \<open>
  enrollment transactions are atomic. Whatever the payload decoder and the signature check
  answer, a rejected transaction leaves both the accounts and the registry as they were (the refund
  branch of the code is never taken), and an accepted one keeps the registry invariant.
\<close>

theorem enrollment_tx_atomic:
  assumes "enroll_inv (Enrollments L)" "h \<noteq> 0" "ApplyEnrollmentTx codec tx h L = (res, L')"
  shows "(res \<noteq> None \<longrightarrow> L' = L) \<and> enroll_inv (Enrollments L')"
proof -
  consider (err) "res \<noteq> None" "L' = L" | (en) "applyEnroll codec tx h L = (res, L')"
    | (un) "applyUnenroll codec tx h L = (res, L')"
    using ApplyEnrollmentTx_cases [OF assms(3)] by blast
  then show ?thesis
  proof cases
    case en
    from applyEnroll_cases [OF this] show ?thesis
    proof (elim disjE exE conjE)
      fix p assume "enroll_checks p tx h L = Inr ()" "enroll_commit p tx h L = (res, L')"
      from enroll_commit_cases [OF assms(1) this] show ?thesis
        using assms(1) ApplyEnroll_inv [OF assms(1) _ enrolled_record_fresh]
          enroll_checks_ok(1) [OF \<open>enroll_checks p tx h L = Inr ()\<close>] by fastforce
    qed (use assms(1) in simp)
  next
    case un
    from applyUnenroll_cases [OF this] show ?thesis
      using assms(1,2) ApplyUnenroll_inv by fastforce
  qed (use assms(1) in simp)
qed

theorem enrollment_tx_atomic_witness:
  "enroll_inv (Enrollments (snd (ApplyEnrollmentTx sample_codec sample_tx 7 sample_ledger)))"
  using enrollment_tx_atomic [of sample_ledger 7 sample_codec sample_tx
      "fst (ApplyEnrollmentTx sample_codec sample_tx 7 sample_ledger)"
      "snd (ApplyEnrollmentTx sample_codec sample_tx 7 sample_ledger)"] NewInMemoryState_inv
  by (simp add: sample_ledger_def)

text \<open>
  C37: enrolling conserves dust. In a whole-number ledger with a whole fee, an accepted enrollment or
  unenrollment moves the stake from the sender's balance into the registry: balances plus stakes
  drop by exactly the burnt fee.
\<close>

theorem enrollment_conserves_dust:
  assumes "enroll_inv (Enrollments L)" "whole_ledger (Accounts L)" "Fee tx = f_int f" "f \<le> 2 ^ 52"
    and "ApplyEnrollmentTx codec tx h L = (None, L')"
  shows "whole_ledger (Accounts L') \<and> total_dust L' + f * 100000000 = total_dust L"
proof -
  consider (en) "applyEnroll codec tx h L = (None, L')" | (un) "applyUnenroll codec tx h L = (None, L')"
    using ApplyEnrollmentTx_cases [OF assms(5)] by auto
  then show ?thesis
  proof cases
    case en
    from applyEnroll_cases [OF this] obtain p where
      p: "enroll_checks p tx h L = Inr ()" "enroll_commit p tx h L = (None, L')" by auto
    from enroll_commit_cases [OF assms(1) p] show ?thesis
      using enroll_commit_conserves [OF assms(2-4) enroll_checks_ok(1) [OF p(1)]] by fastforce
  next
    case un
    from applyUnenroll_cases [OF this, simplified] obtain q :: UnenrollPayload and as es where
      q: "L' = L\<lparr>Accounts := as, Enrollments := es\<rparr>"
        "ChargeAndBumpNonce (Sender tx) (Fee tx) (TxNonce tx) (Accounts L) = (None, as)"
        "ApplyUnenroll (U_NodeID q) h (Enrollments L) = Inr es" by blast
    then have "whole_ledger as \<and> money_supply as + f = money_supply (Accounts L)"
      using ChargeAndBumpNonce_whole [OF assms(2)] assms(3) by simp
    then show ?thesis using q(1) ApplyUnenroll_total [OF q(3)] by (auto simp: total_dust_def algebra_simps)
  qed
qed

text \<open>The sample enrollment is accepted.\<close>

lemma sample_enroll_fields: "ValidateEnrollFields sample_payload ''alice'' = Inr ()"
  by (simp add: ValidateEnrollFields_def sample_payload_def validateNodeID_def validateGPUUUID_def
      node_id_char_def MaxNodeIDLen_def MaxGPUUUIDLen_def MinHMACKeyLen_def MaxHMACKeyLen_def MaxMemoLen_def
      less_eq_char_def)

lemma sample_enroll_ok: "fst (ApplyEnrollmentTx sample_codec sample_tx 7 sample_ledger) = None"
proof -
  have b: "balanceToDust (f_int 100) = 10000000000" using balanceToDust_whole [of 100] by simp
  have c: "enroll_checks sample_payload sample_tx 7 sample_ledger = Inr ()"
    using sample_enroll_fields b
    by (simp add: enroll_checks_def sample_tx_def sample_ledger_def Get_def ValidateEnrollAgainstState_def
        sample_payload_def Lookup_def GPUUUIDBound_def NewInMemoryState_def MinEnrollStakeDust_def DeferredBondActivationHeight_def)
  have d: "dustToBalance MinEnrollStakeDust = f_int 10"
    using dustToBalance_whole [of MinEnrollStakeDust 10] by (simp add: MinEnrollStakeDust_def)
  have "fst (enroll_commit sample_payload sample_tx 7 sample_ledger) = None"
    by (simp add: enroll_commit_def sample_payload_def sample_tx_def d charge_of_def fzero_f_int
        DebitAndBumpNonce_def ChargeAndBumpNonce_def sample_ledger_def ApplyEnroll_def enrolled_record_def
        NewInMemoryState_def)
  then show ?thesis using c
    by (simp add: ApplyEnrollmentTx_def applyEnroll_def sample_codec_def sample_tx_def IsContractID_def
        ContractID_def SignedContractID_def)
qed

theorem enrollment_conserves_dust_witness:
  "total_dust (snd (ApplyEnrollmentTx sample_codec sample_tx 7 sample_ledger)) + 1 * 100000000 = total_dust sample_ledger"
proof -
  have "whole_ledger (Accounts sample_ledger)"
    by (simp add: whole_ledger_def money_supply_def sample_ledger_def fmap_total_fresh)
  from enrollment_conserves_dust [OF _ this, of sample_tx 1 sample_codec 7
      "snd (ApplyEnrollmentTx sample_codec sample_tx 7 sample_ledger)"] sample_enroll_ok NewInMemoryState_inv
  show ?thesis by (simp add: sample_ledger_def sample_tx_def prod_eq_iff)
qed

end
