(* ===== verification/EnrollmentFlow.thy ===== *)
theory EnrollmentFlow
  imports EnrollmentApply
begin

text \<open>
  Flows of dust across the enrollment applier: the block-time sweep, mining rewards, and the rounding
  between dust and \<open>float64\<close> balances.
\<close>

section \<open>Sweeping and rewards\<close>

text \<open>Registries in which every stake is a whole number of CELL and every record has an owner.\<close>

definition whole_stakes :: "(string, EnrollmentRecord) fmap \<Rightarrow> bool" where
  "whole_stakes m \<longleftrightarrow> (\<forall>n r. fmlookup m n = Some r \<longrightarrow> 100000000 dvd unat (StakeDust r) \<and> Owner r \<noteq> [])"

lemma legacy_fold_stakes:
  "total_stake (byNodeID (fst (fold legacy_step ks st))) = total_stake (byNodeID (fst st)) \<and>
   (whole_stakes (byNodeID (fst st)) \<longrightarrow> whole_stakes (byNodeID (fst (fold legacy_step ks st))))"
proof (induction ks arbitrary: st)
  case (Cons k ks)
  have "total_stake (byNodeID (fst (legacy_step k st))) = total_stake (byNodeID (fst st)) \<and>
      (whole_stakes (byNodeID (fst st)) \<longrightarrow> whole_stakes (byNodeID (fst (legacy_step k st))))"
    by (auto simp: legacy_step_def revoke_at_total split: prod.splits option.splits)
      (auto simp: whole_stakes_def revoke_at_def split: if_splits)
  then show ?case using Cons.IH [of "legacy_step k st"] by simp
qed simp

lemma RevokeLegacyOwners_stakes:
  assumes "RevokeLegacyOwners h s = (s', rs)"
  shows "total_stake (byNodeID s') = total_stake (byNodeID s)"
    and "whole_stakes (byNodeID s) \<Longrightarrow> whole_stakes (byNodeID s')"
  using assms legacy_fold_stakes [of "sorted_keys (byNodeID s)" "(s, [])"]
  by (auto simp: RevokeLegacyOwners_def split: if_splits)

lemma credit_releases_whole:
  assumes "whole_ledger as"
    and "\<forall>r \<in> set rel. 100000000 dvd unat (UR_StakeDust r) \<and> UR_Owner r \<noteq> []"
    and "money_supply as * 100000000 + (\<Sum>r \<leftarrow> rel. unat (UR_StakeDust r)) \<le> 9007199254740992"
  shows "whole_ledger (fold credit_release rel as) \<and>
    money_supply (fold credit_release rel as) * 100000000 =
      money_supply as * 100000000 + (\<Sum>r \<leftarrow> rel. unat (UR_StakeDust r))"
  using assms
proof (induction rel arbitrary: as)
  case (Cons r rel)
  obtain k where k: "unat (UR_StakeDust r) = k * 100000000"
    using Cons.prems(2) by (metis dvd_div_mult_self list.set_intros(1))
  have e: "credit_release r as = Credit (UR_Owner r) (f_int k) as"
    using Cons.prems(2,3) dustToBalance_whole [OF k] by (simp add: credit_release_def k)
  have "whole_ledger (credit_release r as) \<and> money_supply (credit_release r as) = money_supply as + k"
    unfolding e using Cons.prems(1,3) k by (intro Credit_whole) simp_all
  then show ?case using Cons.IH [of "credit_release r as"] Cons.prems(2,3) k by (simp add: algebra_simps)
qed simp

text \<open>
  the sweep pays out what it releases. With whole-CELL stakes and balances below \<open>2 ^ 53\<close> dust in
  all, the block-time sweep, legacy sunset included, moves released stakes to their owners'
  balances: balances plus stakes are the same before and after, in every iteration order.
\<close>

theorem sweep_conserves_dust:
  assumes "whole_ledger (Accounts L)" "whole_stakes (byNodeID (Enrollments L))" "total_dust L \<le> 2 ^ 53"
    and "map_order (byNodeID (fst (RevokeLegacyOwners h (Enrollments L)))) order"
    and "SweepMaturedEnrollments order h L = (L', rel)"
  shows "whole_ledger (Accounts L') \<and> total_dust L' = total_dust L"
proof -
  obtain es1 rs where leg: "RevokeLegacyOwners h (Enrollments L) = (es1, rs)" by fastforce
  let ?m = "byNodeID es1" and ?P = "mature_at (byNodeID es1) h"
  have ord: "map_order ?m order" using assms(4) leg by simp
  have L': "L' = L\<lparr>Accounts := fold credit_release rel (Accounts L), Enrollments := es1\<lparr>byNodeID := fmfilter (\<lambda>k. \<not> ?P k) ?m\<rparr>\<rparr>"
    and rel: "rel = map (release_of ?m) (filter ?P order)"
    using assms(5) leg SweepMaturedUnbonds_spec [OF ord, of h] by (auto simp: SweepMaturedEnrollments_def)
  have "fmfilter (\<lambda>k. \<not> (k \<in> set order \<and> ?P k)) ?m = fmfilter (\<lambda>k. \<not> ?P k) ?m"
    using ord by (intro fmap_ext) (auto simp: map_order_def fmdom'_iff)
  then have split: "total_stake ?m = total_stake (fmfilter (\<lambda>k. \<not> ?P k) ?m) + (\<Sum>r \<leftarrow> rel. unat (UR_StakeDust r))"
    using sweep_total [of order ?m ?P] ord rel by (simp add: map_order_def)
  note stakes = RevokeLegacyOwners_stakes [OF leg]
  have whole: "\<forall>r \<in> set rel. 100000000 dvd unat (UR_StakeDust r) \<and> UR_Owner r \<noteq> []"
    using stakes(2) [OF assms(2)] ord
    by (auto simp: rel whole_stakes_def release_of_def map_order_def fmdom'_iff)
  have "money_supply (Accounts L) * 100000000 + (\<Sum>r \<leftarrow> rel. unat (UR_StakeDust r)) \<le> 9007199254740992"
    using assms(3) split stakes(1) by (simp add: total_dust_def)
  from credit_releases_whole [OF assms(1) whole this] show ?thesis
    using split stakes(1) by (simp add: L' total_dust_def)
qed

theorem sweep_conserves_dust_witness:
  "total_dust (fst (SweepMaturedEnrollments [] 9 sample_ledger)) = total_dust sample_ledger"
proof -
  have w: "whole_ledger (Accounts sample_ledger)"
    by (simp add: whole_ledger_def money_supply_def sample_ledger_def fmap_total_fresh)
  have "fst (RevokeLegacyOwners 9 (Enrollments sample_ledger)) = NewInMemoryState"
    by (simp add: RevokeLegacyOwners_def LegacyOwnerSunsetHeight_def sample_ledger_def)
  then show ?thesis
    using sweep_conserves_dust [OF w, of 9 "[]" "fst (SweepMaturedEnrollments [] 9 sample_ledger)"
        "snd (SweepMaturedEnrollments [] 9 sample_ledger)"]
    by (simp add: whole_stakes_def sample_ledger_def NewInMemoryState_def total_dust_def money_supply_def
        total_stake_def fmap_total_fresh map_order_def)
qed

text \<open>
  mining rewards are all-or-nothing. A rejected reward leaves accounts and registry untouched,
  the accrual included; an accepted one keeps the registry invariant, advances the nonce of the
  funder and no other, and raises the total stake by at most the reward in dust.
\<close>

theorem mining_reward_atomic:
  assumes "enroll_inv (Enrollments L)" "ApplyMiningRewardTx tx L = (res, L')"
  shows "(res \<noteq> None \<longrightarrow> L' = L) \<and> enroll_inv (Enrollments L') \<and>
    (\<exists>w \<le> unat (balanceToDust (Amount tx)).
      total_stake (byNodeID (Enrollments L')) = total_stake (byNodeID (Enrollments L)) + w) \<and>
    (\<forall>a. nonce_of a (Accounts L') =
      (if res = None \<and> a = MiningRewardFunderAddress then nonce_of a (Accounts L) + 1 else nonce_of a (Accounts L)))"
proof -
  obtain es w where acc: "AccrueBondFromReward (Recipient tx) (balanceToDust (Amount tx)) (Enrollments L) = (es, w)"
    by fastforce
  note spec = AccrueBondFromReward_spec [OF assms(1) acc]
  have clone: "State_Clone (Some (Enrollments L)) = Enrollments L" by (simp add: State_Clone_def)
  define liq where "liq = (let l = fsub (Amount tx) (dustToBalance w) in if fless l fzero then fzero else l)"
  obtain r as where pr: "ApplyProtocolReward (Some tx) liq (Accounts L) = (r, as)" by fastforce
  have err: "r \<noteq> None \<Longrightarrow> as = Accounts L"
    using ApplyProtocolReward_error [of tx liq "Accounts L"] pr by simp
  have nonce: "nonce_of a as = (if r = None \<and> a = Sender tx then nonce_of a (Accounts L) + 1 else nonce_of a (Accounts L))" for a
    using pr nonce_of_debit_sender [of a tx "Accounts L"] debit_sender_error [of tx "Accounts L"]
    by (auto simp: ApplyProtocolReward_def split: if_splits prod.splits option.splits)
  consider (shape) "res \<noteq> None" "L' = L"
    | (fail) e where "r = Some e" "res \<noteq> None" "L' = L\<lparr>Accounts := as, Enrollments := Enrollments L\<rparr>"
    | (ok) "r = None" "res = None" "Sender tx = MiningRewardFunderAddress" "L' = L\<lparr>Accounts := as, Enrollments := es\<rparr>"
    using assms(2) acc pr spec unfolding ApplyMiningRewardTx_def clone liq_def
    by (cases r) (auto simp: Let_def not_less split: if_splits)
  then show ?thesis
  proof cases
    case ok
    then show ?thesis using spec nonce by (auto simp: word_le_nat_alt)
  qed (use assms(1) err in auto)
qed

theorem mining_reward_atomic_witness:
  "snd (ApplyMiningRewardTx sample_tx sample_ledger) = sample_ledger"
proof -
  have "fst (ApplyMiningRewardTx sample_tx sample_ledger) \<noteq> None"
    by (simp add: ApplyMiningRewardTx_def sample_tx_def SignedContractID_def MiningRewardContractID_def)
  then show ?thesis
    using mining_reward_atomic [of sample_ledger sample_tx "fst (ApplyMiningRewardTx sample_tx sample_ledger)"
        "snd (ApplyMiningRewardTx sample_tx sample_ledger)"] NewInMemoryState_inv
    by (simp add: sample_ledger_def)
qed

section \<open>Rounding between dust and CELL\<close>

lemma fin_below_max: "m < 2 ^ 64 \<Longrightarrow> j \<le> 1074 \<Longrightarrow> m * 2 ^ j < max_mag"
proof -
  assume "m < 2 ^ 64" "j \<le> 1074"
  then have "m * 2 ^ j < 2 ^ 64 * 2 ^ j" by simp
  also have "\<dots> = 2 ^ (64 + j)" by (simp only: power_add)
  also have "\<dots> \<le> max_mag" unfolding max_mag_def using \<open>j \<le> 1074\<close> by (intro power_increasing) simp_all
  finally show ?thesis .
qed

text \<open>Dust amounts by their 53-bit significand: \<open>d / 10 ^ 8\<close> is \<open>q' * 2 ^ (-e)\<close> after rounding.\<close>

lemma dustToBalance_eval:
  assumes "unat d \<le> 9007199254740992" "unat d * 2 ^ e = q * 100000000 + r" "r < 100000000"
    and "q < 2 ^ 53" "2 ^ 52 \<le> q" "e \<le> 1074"
    and "q' = (if 2 * r > 100000000 \<or> (2 * r = 100000000 \<and> odd q) then q + 1 else q)"
  shows "dustToBalance d = Fin False (q' * 2 ^ (1074 - e))"
proof -
  have "round_ratio (unat d * unit_one) 100000000 = q' * 2 ^ (1074 - e)"
    using round_ratio_unit [OF _ assms(2-6)] assms(7) by simp
  moreover have "q' * 2 ^ (1074 - e) < max_mag" using assms(4,7) by (intro fin_below_max) auto
  ultimately show ?thesis
    using assms(1) by (simp add: dustToBalance_def f64_of_u64_def dustPerCELL_def fdiv_f_int mk_fin_def)
qed

text \<open>
  converting dust to a balance and back is exact for whole numbers of CELL up to \<open>2 ^ 53\<close> dust, but
  not for all dust amounts: 3 dust come back as 2.
\<close>

theorem dust_round_trip:
  "(\<forall>k \<le> 90071992. balanceToDust (dustToBalance (of_nat (k * 100000000))) = of_nat (k * 100000000)) \<and>
   balanceToDust (dustToBalance 3) = 2"
proof
  show "\<forall>k \<le> 90071992. balanceToDust (dustToBalance (of_nat (k * 100000000))) = of_nat (k * 100000000)"
  proof (intro allI impI)
    fix k :: nat assume k: "k \<le> 90071992"
    have "unat (of_nat (k * 100000000) :: u64) = k * 100000000" using k by (intro unat_of_nat_fits) simp
    then have "dustToBalance (of_nat (k * 100000000)) = f_int k" using k by (intro dustToBalance_whole) simp_all
    then show "balanceToDust (dustToBalance (of_nat (k * 100000000))) = of_nat (k * 100000000)"
      using k by (simp add: balanceToDust_whole)
  qed
  let ?j = "1074 - 77 :: nat"
  define m where "m = 4533471823554859 * (2::nat) ^ ?j"
  define z where "z = 453347182355485873405952 * (2::nat) ^ ?j"
  have d: "dustToBalance 3 = Fin False m"
    unfolding m_def by (rule dustToBalance_eval [of _ _ 4533471823554859 40514816]) simp_all
  have "round_mag (m * 100000000) = z"
    using round_mag_pow [of 453347182355485900000000 6755399441055743 26 26594048 ?j]
    by (simp add: m_def z_def mult.assoc mult.commute [of "2 ^ _"])
  moreover have "z < max_mag" unfolding z_def
  proof -
    have "453347182355485873405952 * (2::nat) ^ ?j < 2 ^ 79 * 2 ^ ?j" by simp
    also have "\<dots> = 2 ^ (79 + ?j)" by (simp only: power_add)
    also have "\<dots> \<le> max_mag" unfolding max_mag_def by (intro power_increasing) simp_all
    finally show "453347182355485873405952 * (2::nat) ^ ?j < max_mag" .
  qed
  ultimately have f: "fmul (Fin False m) (f_int 100000000) = Fin False z" by (simp add: fmul_f_int mk_fin_def)
  have u: "unit_one = 2 ^ 77 * 2 ^ ?j" unfolding unit_one_def by (simp only: power_add [symmetric]) simp
  have "z div unit_one = 2" unfolding z_def u by simp
  moreover have "z < 2 ^ 53 * unit_one" unfolding z_def u by simp
  moreover from this have "\<not> fle (f64_of_nat (2 ^ 64 - 1)) (Fin False z)"
    by (intro maxu64_float_large) simp
  moreover have "0 < m" by (simp add: m_def)
  ultimately show "balanceToDust (dustToBalance 3) = 2"
    unfolding d using f by (simp add: balanceToDust_def fzero_def f64_of_u64_def dustPerCELL_def)
qed

theorem dust_round_trip_witness:
  "balanceToDust (dustToBalance (of_nat (10 * 100000000))) = of_nat (10 * 100000000)"
  using dust_round_trip [THEN conjunct1, THEN spec, THEN mp, of 10] by simp

text \<open>Adding two dust amounts held at the same binary exponent.\<close>

lemma fadd_scaled:
  assumes "a + b = q * 2 ^ k + r" "r < 2 ^ k" "q < 2 ^ 53" "2 ^ 52 \<le> q" "j \<le> 1074"
    and "c = (if 2 * r > 2 ^ k \<or> (2 * r = 2 ^ k \<and> odd q) then q + 1 else q) * 2 ^ k" "c < 2 ^ 64"
  shows "fadd (Fin False (a * 2 ^ j)) (Fin False (b * 2 ^ j)) = Fin False (c * 2 ^ j)"
proof -
  have nz: "a + b \<noteq> 0" using assms(1,4) by auto
  have s: "int (a * 2 ^ j) + int (b * 2 ^ j) = int ((a + b) * 2 ^ j)" by (simp add: algebra_simps)
  have "round_mag ((a + b) * 2 ^ j) = c * 2 ^ j" using round_mag_pow [OF assms(1-4), of j] assms(6) by simp
  moreover have "c * 2 ^ j < max_mag" using assms(5,7) by (intro fin_below_max)
  moreover have "(a + b) * 2 ^ j \<noteq> 0" using nz by simp
  ultimately show ?thesis
    using nz by (auto simp: fadd_def s mk_fin_def Let_def simp del: of_nat_add of_nat_mult of_nat_power)
qed

text \<open>A ledger in which one owner has two partly bonded, revoked and matured records.\<close>

definition two_unbonds :: Ledger where
  "two_unbonds = \<lparr>Accounts = fmupd ''alice'' \<lparr>Address = ''alice'', Balance = f_int 29, Nonce = 0\<rparr> fmempty,
     Enrollments = \<lparr>byNodeID =
        fmupd ''rig-1'' ((sample_record ''rig-1'' ''GPU-1'' BondModeMiningRewards 507069465)\<lparr>RevokedAtHeight := 1\<rparr>)
       (fmupd ''rig-2'' ((sample_record ''rig-2'' ''GPU-2'' BondModeMiningRewards 699642631)\<lparr>RevokedAtHeight := 1\<rparr>) fmempty),
       byGPUActive = fmempty, seenEvidence = {||}\<rparr>\<rparr>"

text \<open>
  the balance after a sweep depends on the map's iteration order. An owner with 29 CELL and two
  matured bonds of 507069465 and 699642631 dust ends with different \<open>float64\<close> balances for the two
  orders Go may range over the registry, since float addition is not associative.
\<close>

theorem sweep_balance_depends_on_order:
  "map_order (byNodeID (Enrollments two_unbonds)) [''rig-1'', ''rig-2''] \<and>
   map_order (byNodeID (Enrollments two_unbonds)) [''rig-2'', ''rig-1''] \<and>
   Accounts (fst (SweepMaturedEnrollments [''rig-1'', ''rig-2''] 5 two_unbonds)) \<noteq>
   Accounts (fst (SweepMaturedEnrollments [''rig-2'', ''rig-1''] 5 two_unbonds))"
proof -
  let ?j = "1074 - 50 :: nat"
  have x: "dustToBalance 507069465 = Fin False (5709094634062392 * 2 ^ ?j)"
    by (rule dustToBalance_eval [of _ _ 5709094634062391 90876160]) simp_all
  have y: "dustToBalance 699642631 = Fin False (7877275730660284 * 2 ^ ?j)"
    by (rule dustToBalance_eval [of _ _ 7877275730660283 58303744]) simp_all
  have b: "f_int 29 = Fin False ((29 * 2 ^ 50) * 2 ^ ?j)"
    unfolding f_int_def unit_one_def by (simp only: mult.assoc power_add [symmetric]) simp
  have x1: "fadd (Fin False ((29 * 2 ^ 50) * 2 ^ ?j)) (Fin False (5709094634062392 * 2 ^ ?j)) = Fin False (38360191932498488 * 2 ^ ?j)"
    by (rule fadd_scaled [of _ _ 4795023991562311 3 0]) simp_all
  have y1: "fadd (Fin False ((29 * 2 ^ 50) * 2 ^ ?j)) (Fin False (7877275730660284 * 2 ^ ?j)) = Fin False (40528373029096384 * 2 ^ ?j)"
    by (rule fadd_scaled [of _ _ 5066046628637047 3 4]) simp_all
  have xy: "fadd (fadd (f_int 29) (dustToBalance 507069465)) (dustToBalance 699642631) = Fin False (46237467663158768 * 2 ^ ?j)"
    unfolding x y b x1 by (rule fadd_scaled [of _ _ 5779683457894846 3 4]) simp_all
  have yx: "fadd (fadd (f_int 29) (dustToBalance 699642631)) (dustToBalance 507069465) = Fin False (46237467663158776 * 2 ^ ?j)"
    unfolding x y b y1 by (rule fadd_scaled [of _ _ 5779683457894847 3 0]) simp_all
  have m: "UnbondMaturesAtHeight (sample_record n g mode stake) = 0" "Owner (sample_record n g mode stake) = ''alice''"
    "StakeDust (sample_record n g mode stake) = stake" for n g mode stake by (simp_all add: sample_record_def)
  have "Balance (the (fmlookup (Accounts (fst (SweepMaturedEnrollments [''rig-1'', ''rig-2''] 5 two_unbonds))) ''alice'')) =
      Fin False (46237467663158768 * 2 ^ ?j)"
    unfolding xy [symmetric]
    by (simp add: SweepMaturedEnrollments_def RevokeLegacyOwners_def LegacyOwnerSunsetHeight_def two_unbonds_def
        SweepMaturedUnbonds_def sweep_step_def MatureForUnbond_def Active_def credit_release_def Credit_def m)
  moreover have "Balance (the (fmlookup (Accounts (fst (SweepMaturedEnrollments [''rig-2'', ''rig-1''] 5 two_unbonds))) ''alice'')) =
      Fin False (46237467663158776 * 2 ^ ?j)"
    unfolding yx [symmetric]
    by (simp add: SweepMaturedEnrollments_def RevokeLegacyOwners_def LegacyOwnerSunsetHeight_def two_unbonds_def
        SweepMaturedUnbonds_def sweep_step_def MatureForUnbond_def Active_def credit_release_def Credit_def m)
  moreover have "(46237467663158768 :: nat) * 2 ^ ?j \<noteq> 46237467663158776 * 2 ^ ?j" by simp
  ultimately have "Accounts (fst (SweepMaturedEnrollments [''rig-1'', ''rig-2''] 5 two_unbonds)) \<noteq>
      Accounts (fst (SweepMaturedEnrollments [''rig-2'', ''rig-1''] 5 two_unbonds))" by (metis f64.inject(2))
  then show ?thesis by (simp add: map_order_def two_unbonds_def insert_commute)
qed

end
