(* ===== verification/ChainParams.thy ===== *)
theory ChainParams
  imports Json GoSort
begin

text \<open>
  \<open>pkg/governance/chainparams\<close>: the registry of tunable parameters (\<open>params.go\<close>), payloads (\<open>types.go\<close>), stateless
  validation and canonical encoding (\<open>validate.go\<close>, encoding direction) and the parameter store (\<open>store.go\<close>).

  Loops over a Go map take the iteration order as an argument; the results are sorted, and the
  lemmas below show that they do not depend on it. Error texts are represented by the sentinels they wrap.
\<close>

section \<open>params.go\<close>

type_synonym ParamName = string

definition ParamRewardBPS :: ParamName where "ParamRewardBPS = ''reward_bps''"
definition ParamAutoRevokeMinStakeDust :: ParamName where "ParamAutoRevokeMinStakeDust = ''auto_revoke_min_stake_dust''"
definition ParamForkV2TCHeight :: ParamName where "ParamForkV2TCHeight = ''fork_v2_tc_height''"

definition cp_dustPerCELL :: u64 where "cp_dustPerCELL = 100000000"
definition cp_minEnrollStakeDust :: u64 where "cp_minEnrollStakeDust = 10 * cp_dustPerCELL"

datatype gov_error =
  GErrPayloadDecode | GErrPayloadInvalid | GErrUnknownParam | GErrValueOutOfBounds
| GErrEffectiveHeightInPast | GErrEffectiveHeightTooFar | GErrUnauthorized | GErrGovernanceNotConfigured
| GErrAuthorityAlreadyPresent | GErrAuthorityNotPresent | GErrDuplicateVote
| GErrSpecName | GErrSpecRange | GErrSpecDefault | GErrStageHeight | GErrFeeNotPositive | GErrNotGovTx

record ParamSpec =
  PSName :: ParamName
  MinValue :: u64
  MaxValue :: u64
  DefaultValue :: u64

definition name_char :: "char \<Rightarrow> bool" where
  "name_char c \<longleftrightarrow> CHR ''a'' \<le> c \<and> c \<le> CHR ''z'' \<or> CHR ''0'' \<le> c \<and> c \<le> CHR ''9'' \<or> c = CHR ''_''"

definition validParamName :: "string \<Rightarrow> bool" where
  "validParamName s =
     (if s = [] \<or> length s > 32 then False
      else if \<not> list_all name_char s then False
      else if hd s = CHR ''_'' \<or> CHR ''0'' \<le> hd s \<and> hd s \<le> CHR ''9'' then False
      else True)"

definition ParamSpec_Validate :: "ParamSpec \<Rightarrow> gov_error option" where
  "ParamSpec_Validate s =
     (if PSName s = [] then Some GErrSpecName
      else if \<not> validParamName (PSName s) then Some GErrSpecName
      else if MinValue s > MaxValue s then Some GErrSpecRange
      else if DefaultValue s < MinValue s \<or> DefaultValue s > MaxValue s then Some GErrSpecDefault
      else None)"

definition CheckBounds :: "ParamSpec \<Rightarrow> u64 \<Rightarrow> gov_error option" where
  "CheckBounds s v = (if v < MinValue s \<or> v > MaxValue s then Some GErrValueOutOfBounds else None)"

definition param_registry :: "ParamSpec list" where
  "param_registry =
     [\<lparr>PSName = ParamRewardBPS, MinValue = 0, MaxValue = 5000, DefaultValue = 0\<rparr>,
      \<lparr>PSName = ParamAutoRevokeMinStakeDust, MinValue = cp_dustPerCELL, MaxValue = cp_minEnrollStakeDust,
       DefaultValue = cp_minEnrollStakeDust\<rparr>,
      \<lparr>PSName = ParamForkV2TCHeight, MinValue = 0, MaxValue = - 1, DefaultValue = - 1\<rparr>]"

text \<open>The package initializer panics on an invalid or duplicate specification; \<open>False\<close> is the panic.\<close>

definition registry_init :: bool where
  "registry_init \<longleftrightarrow> list_all (\<lambda>s. ParamSpec_Validate s = None) param_registry \<and> distinct (map PSName param_registry)"

definition ParamLookup :: "string \<Rightarrow> ParamSpec option" where
  "ParamLookup name = find (\<lambda>s. PSName s = name) param_registry"

definition ParamNames :: "string list" where
  "ParamNames = map PSName param_registry"

section \<open>types.go\<close>

definition GovContractID :: string where "GovContractID = ''QSD/gov/v1''"
definition PayloadKindParamSet :: string where "PayloadKindParamSet = ''param-set''"
definition PayloadKindAuthoritySet :: string where "PayloadKindAuthoritySet = ''authority-set''"

type_synonym AuthorityOp = string

definition AuthorityOpAdd :: AuthorityOp where "AuthorityOpAdd = ''add''"
definition AuthorityOpRemove :: AuthorityOp where "AuthorityOpRemove = ''remove''"
definition MaxAuthorityAddressLen :: nat where "MaxAuthorityAddressLen = 128"
definition GovMaxMemoLen :: nat where "GovMaxMemoLen = 256"
definition MaxActivationDelay :: u64 where "MaxActivationDelay = 3 * 24 * 60 * 60 div 3"
definition DefaultPromotionGrace :: u64 where "DefaultPromotionGrace = 0"

record ParamSetPayload =
  PS_Kind :: string
  PS_Param :: string
  PS_Value :: u64
  PS_EffectiveHeight :: u64
  PS_Memo :: string

record ParamChange =
  CParam :: string
  CValue :: u64
  CEffectiveHeight :: u64
  CSubmittedAtHeight :: u64
  CAuthority :: string
  CMemo :: string

record AuthoritySetPayload =
  AS_Kind :: string
  AS_Op :: AuthorityOp
  AS_Address :: string
  AS_EffectiveHeight :: u64
  AS_Memo :: string

section \<open>validate.go\<close>

definition ValidateParamSetFields :: "ParamSetPayload \<Rightarrow> gov_error option" where
  "ValidateParamSetFields p =
     (if PS_Kind p \<noteq> PayloadKindParamSet then Some GErrPayloadInvalid
      else if length (PS_Memo p) > GovMaxMemoLen then Some GErrPayloadInvalid
      else if PS_Param p = [] then Some GErrUnknownParam
      else case ParamLookup (PS_Param p) of
        None \<Rightarrow> Some GErrUnknownParam
      | Some spec \<Rightarrow>
          (case CheckBounds spec (PS_Value p) of
             Some e \<Rightarrow> Some e
           | None \<Rightarrow> if PS_EffectiveHeight p = 0 then Some GErrPayloadInvalid else None))"

definition printable_byte :: "char \<Rightarrow> bool" where
  "printable_byte c \<longleftrightarrow> \<not> (c \<le> CHR 0x20 \<or> c = CHR 0x7F)"

definition ValidateAuthoritySetFields :: "AuthoritySetPayload \<Rightarrow> gov_error option" where
  "ValidateAuthoritySetFields p =
     (if AS_Kind p \<noteq> PayloadKindAuthoritySet then Some GErrPayloadInvalid
      else if AS_Op p \<noteq> AuthorityOpAdd \<and> AS_Op p \<noteq> AuthorityOpRemove then Some GErrPayloadInvalid
      else if AS_Address p = [] then Some GErrPayloadInvalid
      else if length (AS_Address p) > MaxAuthorityAddressLen then Some GErrPayloadInvalid
      else if \<not> list_all printable_byte (AS_Address p) then Some GErrPayloadInvalid
      else if length (AS_Memo p) > GovMaxMemoLen then Some GErrPayloadInvalid
      else if AS_EffectiveHeight p = 0 then Some GErrPayloadInvalid
      else None)"

definition EncodeParamSet :: "ParamSetPayload \<Rightarrow> gov_error + string" where
  "EncodeParamSet p =
     (case ValidateParamSetFields p of Some e \<Rightarrow> Inl e
      | None \<Rightarrow> Inr (json_object (
          [json_field ''kind'' (json_string (PS_Kind p)),
           json_field ''param'' (json_string (PS_Param p)),
           json_field ''value'' (show_nat (unat (PS_Value p))),
           json_field ''effective_height'' (show_nat (unat (PS_EffectiveHeight p)))] @
          (if PS_Memo p = [] then [] else [json_field ''memo'' (json_string (PS_Memo p))]))))"

definition EncodeAuthoritySet :: "AuthoritySetPayload \<Rightarrow> gov_error + string" where
  "EncodeAuthoritySet p =
     (case ValidateAuthoritySetFields p of Some e \<Rightarrow> Inl e
      | None \<Rightarrow> Inr (json_object (
          [json_field ''kind'' (json_string (AS_Kind p)),
           json_field ''op'' (json_string (AS_Op p)),
           json_field ''address'' (json_string (AS_Address p)),
           json_field ''effective_height'' (show_nat (unat (AS_EffectiveHeight p)))] @
          (if AS_Memo p = [] then [] else [json_field ''memo'' (json_string (AS_Memo p))]))))"

section \<open>store.go\<close>

record InMemoryParamStore =
  ps_active :: "(string, u64) fmap"
  ps_pending :: "(string, ParamChange) fmap"

definition NewInMemoryParamStore :: InMemoryParamStore where
  "NewInMemoryParamStore =
     \<lparr>ps_active = fold (\<lambda>spec m. fmupd (PSName spec) (DefaultValue spec) m) param_registry fmempty,
      ps_pending = fmempty\<rparr>"

text \<open>\<open>SetForTesting\<close> panics on an unknown name or a value out of bounds; the wiring uses it to seed values.\<close>

definition SetForTesting :: "string \<Rightarrow> u64 \<Rightarrow> InMemoryParamStore \<Rightarrow> InMemoryParamStore option" where
  "SetForTesting name v s =
     (case ParamLookup name of None \<Rightarrow> None
      | Some spec \<Rightarrow> if CheckBounds spec v \<noteq> None then None
                     else Some (s\<lparr>ps_active := fmupd name v (ps_active s)\<rparr>))"

definition ActiveValue :: "string \<Rightarrow> InMemoryParamStore \<Rightarrow> u64 option" where
  "ActiveValue name s = (if ParamLookup name = None then None else fmlookup (ps_active s) name)"

definition PendingChange :: "string \<Rightarrow> InMemoryParamStore \<Rightarrow> ParamChange option" where
  "PendingChange name s = fmlookup (ps_pending s) name"

definition AllActive :: "InMemoryParamStore \<Rightarrow> (string, u64) fmap" where
  "AllActive s = ps_active s"

definition change_before :: "ParamChange \<Rightarrow> ParamChange \<Rightarrow> bool" where
  "change_before a b =
     (if CEffectiveHeight a \<noteq> CEffectiveHeight b then CEffectiveHeight a < CEffectiveHeight b else CParam a < CParam b)"

definition AllPending :: "string list \<Rightarrow> InMemoryParamStore \<Rightarrow> ParamChange list" where
  "AllPending order s = go_sort change_before (map (\<lambda>k. the (fmlookup (ps_pending s) k)) order)"

definition Stage :: "ParamChange \<Rightarrow> InMemoryParamStore \<Rightarrow> gov_error + (InMemoryParamStore \<times> ParamChange option)" where
  "Stage c s =
     (case ParamLookup (CParam c) of None \<Rightarrow> Inl GErrUnknownParam
      | Some spec \<Rightarrow>
          (case CheckBounds spec (CValue c) of Some e \<Rightarrow> Inl e
           | None \<Rightarrow>
               if CEffectiveHeight c = 0 then Inl GErrStageHeight
               else Inr (s\<lparr>ps_pending := fmupd (CParam c) c (ps_pending s)\<rparr>, fmlookup (ps_pending s) (CParam c))))"

definition entry_before :: "string \<times> ParamChange \<Rightarrow> string \<times> ParamChange \<Rightarrow> bool" where
  "entry_before a b =
     (if CEffectiveHeight (snd a) \<noteq> CEffectiveHeight (snd b) then CEffectiveHeight (snd a) < CEffectiveHeight (snd b)
      else fst a < fst b)"

definition due_changes :: "string list \<Rightarrow> u64 \<Rightarrow> InMemoryParamStore \<Rightarrow> (string \<times> ParamChange) list" where
  "due_changes order currentHeight s =
     filter (\<lambda>(k, c). CEffectiveHeight c + DefaultPromotionGrace \<le> currentHeight)
       (map (\<lambda>k. (k, the (fmlookup (ps_pending s) k))) order)"

definition promote_one :: "string \<times> ParamChange \<Rightarrow> InMemoryParamStore \<Rightarrow> InMemoryParamStore" where
  "promote_one e s =
     s\<lparr>ps_active := fmupd (fst e) (CValue (snd e)) (ps_active s), ps_pending := fmdrop (fst e) (ps_pending s)\<rparr>"

definition Param_Promote :: "string list \<Rightarrow> u64 \<Rightarrow> InMemoryParamStore \<Rightarrow> InMemoryParamStore \<times> ParamChange list" where
  "Param_Promote order currentHeight s =
     (let due = go_sort entry_before (due_changes order currentHeight s)
      in (fold promote_one due s, map snd due))"

section \<open>Lemmas\<close>

lemma registry_simps [simp]:
  "ParamLookup ParamRewardBPS = Some \<lparr>PSName = ParamRewardBPS, MinValue = 0, MaxValue = 5000, DefaultValue = 0\<rparr>"
  "ParamLookup ParamAutoRevokeMinStakeDust = Some \<lparr>PSName = ParamAutoRevokeMinStakeDust, MinValue = cp_dustPerCELL,
      MaxValue = cp_minEnrollStakeDust, DefaultValue = cp_minEnrollStakeDust\<rparr>"
  "ParamLookup ParamForkV2TCHeight = Some \<lparr>PSName = ParamForkV2TCHeight, MinValue = 0, MaxValue = - 1, DefaultValue = - 1\<rparr>"
  by (simp_all add: ParamLookup_def param_registry_def ParamRewardBPS_def ParamAutoRevokeMinStakeDust_def ParamForkV2TCHeight_def)

lemma registry_initializes: "registry_init"
  by (simp add: registry_init_def param_registry_def ParamSpec_Validate_def validParamName_def name_char_def
      ParamRewardBPS_def ParamAutoRevokeMinStakeDust_def ParamForkV2TCHeight_def cp_dustPerCELL_def cp_minEnrollStakeDust_def
      less_eq_char_def)

lemma ParamLookup_name: "ParamLookup n = Some spec \<Longrightarrow> PSName spec = n \<and> spec \<in> set param_registry"
  by (auto simp: ParamLookup_def find_Some_iff)

lemma ParamLookup_iff: "ParamLookup n = None \<longleftrightarrow> n \<notin> set ParamNames"
  by (auto simp: ParamLookup_def ParamNames_def find_None_iff)

text \<open>The invariant: active values and pending changes of registered parameters, within bounds, keyed by name.\<close>

definition in_bounds :: "string \<Rightarrow> u64 \<Rightarrow> bool" where
  "in_bounds n v = (case ParamLookup n of None \<Rightarrow> False | Some spec \<Rightarrow> CheckBounds spec v = None)"

definition params_ok :: "InMemoryParamStore \<Rightarrow> bool" where
  "params_ok s \<longleftrightarrow>
     fmdom' (ps_active s) = set ParamNames \<and>
     (\<forall>n v. fmlookup (ps_active s) n = Some v \<longrightarrow> in_bounds n v) \<and>
     (\<forall>n c. fmlookup (ps_pending s) n = Some c \<longrightarrow> CParam c = n \<and> in_bounds n (CValue c) \<and> CEffectiveHeight c \<noteq> 0)"

lemma params_ok_active: "\<lbrakk>params_ok s; fmlookup (ps_active s) n = Some v\<rbrakk> \<Longrightarrow> in_bounds n v"
  and params_ok_pending: "\<lbrakk>params_ok s; fmlookup (ps_pending s) n = Some c\<rbrakk> \<Longrightarrow> CParam c = n \<and> in_bounds n (CValue c)"
  and params_ok_dom: "params_ok s \<Longrightarrow> fmdom' (ps_active s) = set ParamNames"
  by (auto simp: params_ok_def)

lemma in_bounds_registered: "in_bounds n v \<Longrightarrow> n \<in> set ParamNames"
  using ParamLookup_iff [of n] by (auto simp: in_bounds_def split: option.splits)

lemma new_params_ok: "params_ok NewInMemoryParamStore"
  by (auto simp: params_ok_def NewInMemoryParamStore_def param_registry_def ParamNames_def in_bounds_def CheckBounds_def
      ParamLookup_def ParamRewardBPS_def ParamAutoRevokeMinStakeDust_def ParamForkV2TCHeight_def
      cp_dustPerCELL_def cp_minEnrollStakeDust_def)

lemma SetForTesting_ok: "\<lbrakk>params_ok s; SetForTesting n v s = Some s'\<rbrakk> \<Longrightarrow> params_ok s'"
proof -
  assume a: "params_ok s" "SetForTesting n v s = Some s'"
  then have "in_bounds n v" "s' = s\<lparr>ps_active := fmupd n v (ps_active s)\<rparr>"
    by (auto simp: SetForTesting_def in_bounds_def split: option.splits if_splits)
  then show ?thesis using a(1) in_bounds_registered [of n v] by (auto simp: params_ok_def split: if_splits)
qed

lemma Stage_Inr_iff:
  "Stage c s = Inr (s', prior) \<longleftrightarrow>
     in_bounds (CParam c) (CValue c) \<and> CEffectiveHeight c \<noteq> 0 \<and>
     s' = s\<lparr>ps_pending := fmupd (CParam c) c (ps_pending s)\<rparr> \<and> prior = fmlookup (ps_pending s) (CParam c)"
  by (auto simp: Stage_def in_bounds_def split: option.splits)

lemma Stage_ok: "\<lbrakk>params_ok s; Stage c s = Inr (s', prior)\<rbrakk> \<Longrightarrow> params_ok s'"
  by (auto simp: params_ok_def Stage_Inr_iff split: if_splits)

lemma promote_one_ok:
  assumes "params_ok s" "in_bounds (fst e) (CValue (snd e))"
  shows "params_ok (promote_one e s)"
  using assms in_bounds_registered [OF assms(2)] by (auto simp: params_ok_def promote_one_def split: if_splits)

lemma promote_all_ok: "\<lbrakk>params_ok s; \<forall>e \<in> set due. in_bounds (fst e) (CValue (snd e))\<rbrakk> \<Longrightarrow> params_ok (fold promote_one due s)"
  by (induction due arbitrary: s) (simp_all add: promote_one_ok)

lemma due_changes_mem:
  assumes "map_order (ps_pending s) order"
  shows "(k, c) \<in> set (due_changes order h s) \<longleftrightarrow> fmlookup (ps_pending s) k = Some c \<and> CEffectiveHeight c \<le> h"
  using map_order_mem [OF assms] by (auto simp: due_changes_def DefaultPromotionGrace_def)

lemma Promote_ok:
  assumes "params_ok s" "map_order (ps_pending s) order"
  shows "params_ok (fst (Param_Promote order h s))"
proof -
  have "in_bounds (fst e) (CValue (snd e))" if "e \<in> set (due_changes order h s)" for e
    using that due_changes_mem [OF assms(2), of "fst e" "snd e"] params_ok_pending [OF assms(1), of "fst e" "snd e"] by simp
  then show ?thesis by (simp add: Param_Promote_def Let_def promote_all_ok assms(1))
qed

text \<open>What promotion does to one name: a due change becomes the active value and leaves the queue, the rest stays.\<close>

lemma fold_promote_lookup:
  assumes "distinct (map fst due)"
  shows "fmlookup (ps_active (fold promote_one due s)) n =
           (case map_of due n of None \<Rightarrow> fmlookup (ps_active s) n | Some c \<Rightarrow> Some (CValue c))"
    and "fmlookup (ps_pending (fold promote_one due s)) n =
           (if map_of due n = None then fmlookup (ps_pending s) n else None)"
  using assms
proof (induction due arbitrary: s)
  case (Cons e due)
  { case 1
    have "map_of due (fst e) = None" using 1 by (auto simp: map_of_eq_None_iff)
    then show ?case using Cons.IH(1) [of "promote_one e s"] 1
      by (cases e; cases "map_of due n") (auto simp: promote_one_def [of e s] promote_one_def [of "(_, _)" s]) }
  { case 2
    then show ?case using Cons.IH(2) [of "promote_one e s"]
      by (cases e; cases "map_of due n") (auto simp: promote_one_def [of "(_, _)" s]) }
qed simp_all

lemma due_changes_keys: "distinct order \<Longrightarrow> distinct (map fst (due_changes order h s))"
  by (induction order) (auto simp: due_changes_def)

lemma map_of_due:
  assumes "map_order (ps_pending s) order"
  shows "map_of (go_sort entry_before (due_changes order h s)) n =
           (case fmlookup (ps_pending s) n of None \<Rightarrow> None | Some c \<Rightarrow> if CEffectiveHeight c \<le> h then Some c else None)"
proof -
  let ?d = "due_changes order h s"
  have d: "distinct (map fst ?d)" using assms due_changes_keys by (simp add: map_order_def)
  have "mset (map fst (go_sort entry_before ?d)) = mset (map fst ?d)" by simp
  then have d': "distinct (map fst (go_sort entry_before ?d))" using d by (metis mset_eq_imp_distinct_iff)
  have "map_of (go_sort entry_before ?d) = map_of ?d"
    by (rule map_of_inject_set [OF d' d, THEN iffD2]) simp
  moreover have "map_of ?d n = Some c \<longleftrightarrow> (n, c) \<in> set ?d" for c using d by simp
  moreover have "map_of ?d n = None \<longleftrightarrow> (\<nexists>c. (n, c) \<in> set ?d)" by (force simp: map_of_eq_None_iff)
  ultimately show ?thesis using due_changes_mem [OF assms] by (auto split: option.splits)
qed

lemma Promote_lookup:
  assumes "map_order (ps_pending s) order" "Param_Promote order h s = (s', promoted)"
  shows "fmlookup (ps_active s') n =
           (case fmlookup (ps_pending s) n of None \<Rightarrow> fmlookup (ps_active s) n
            | Some c \<Rightarrow> if CEffectiveHeight c \<le> h then Some (CValue c) else fmlookup (ps_active s) n)"
    and "fmlookup (ps_pending s') n =
           (case fmlookup (ps_pending s) n of None \<Rightarrow> None
            | Some c \<Rightarrow> if CEffectiveHeight c \<le> h then None else Some c)"
proof -
  have "distinct (map fst (due_changes order h s))" using assms(1) due_changes_keys by (simp add: map_order_def)
  then have d: "distinct (map fst (go_sort entry_before (due_changes order h s)))"
    by (metis mset_eq_imp_distinct_iff mset_go_sort mset_map)
  have s': "s' = fold promote_one (go_sort entry_before (due_changes order h s)) s"
    using assms(2) by (simp add: Param_Promote_def Let_def)
  show "fmlookup (ps_active s') n =
           (case fmlookup (ps_pending s) n of None \<Rightarrow> fmlookup (ps_active s) n
            | Some c \<Rightarrow> if CEffectiveHeight c \<le> h then Some (CValue c) else fmlookup (ps_active s) n)"
    unfolding s' fold_promote_lookup(1) [OF d] map_of_due [OF assms(1)] by (simp split: option.split)
  show "fmlookup (ps_pending s') n =
           (case fmlookup (ps_pending s) n of None \<Rightarrow> None
            | Some c \<Rightarrow> if CEffectiveHeight c \<le> h then None else Some c)"
    unfolding s' fold_promote_lookup(2) [OF d] map_of_due [OF assms(1)] by (simp split: option.split)
qed

lemma promoted_changes:
  assumes "map_order (ps_pending s) order" "Param_Promote order h s = (s', promoted)"
  shows "c \<in> set promoted \<longleftrightarrow> (\<exists>n. fmlookup (ps_pending s) n = Some c \<and> CEffectiveHeight c \<le> h)"
  using assms(2) due_changes_mem [OF assms(1)] by (force simp: Param_Promote_def Let_def)

text \<open>The order of the promoted list is total on distinct names, so the map order does not show.\<close>

interpretation due_order: total_less entry_before "{e. fmlookup m (fst e) = Some (snd e)}" for m :: "(string, ParamChange) fmap"
  by unfold_locales (auto simp: entry_before_def prod_eq_iff split: if_splits)

lemma due_changes_perm:
  assumes "map_order (ps_pending s) o1" "map_order (ps_pending s) o2"
  shows "Param_Promote o1 h s = Param_Promote o2 h s"
proof -
  have "set (due_changes o1 h s) = set (due_changes o2 h s)"
    using due_changes_mem [OF assms(1)] due_changes_mem [OF assms(2)] by auto
  moreover have "distinct (due_changes o1 h s)" "distinct (due_changes o2 h s)"
    using assms due_changes_keys [of o1 h s] due_changes_keys [of o2 h s] by (simp_all add: map_order_def distinct_map)
  ultimately have "mset (due_changes o1 h s) = mset (due_changes o2 h s)" by (simp add: set_eq_iff_mset_eq_distinct)
  moreover have "set (due_changes o1 h s) \<subseteq> {e. fmlookup (ps_pending s) (fst e) = Some (snd e)}"
    using due_changes_mem [OF assms(1)] by auto
  ultimately have "go_sort entry_before (due_changes o1 h s) = go_sort entry_before (due_changes o2 h s)"
    by (intro due_order.go_sort_perm)
  then show ?thesis by (simp add: Param_Promote_def)
qed

end
