(* ===== verification/Authority.thy ===== *)
theory Authority
  imports ChainParams "HOL-Library.Product_Lexorder"
begin

text \<open>
  \<open>pkg/governance/chainparams/authority.go\<close>: the tally of authority-rotation votes. The loops range over the map of
  proposals; the iteration order is an argument of the operations that return a list, which is then sorted.
  Slices are values here: the code clones a proposal before it hands it out, except in \<open>RecordVote\<close>, whose caller
  only reads the result.
\<close>

record AuthorityVoteKey =
  VKOp :: AuthorityOp
  VKAddress :: string
  VKEffectiveHeight :: u64

text \<open>The key type is comparable in Go; here it is also ordered, so that a map over it has a canonical key list.\<close>

instantiation AuthorityVoteKey_ext :: (linorder) linorder
begin

definition less_eq_AuthorityVoteKey_ext :: "'a AuthorityVoteKey_scheme \<Rightarrow> 'a AuthorityVoteKey_scheme \<Rightarrow> bool" where
  "less_eq_AuthorityVoteKey_ext a b \<longleftrightarrow>
     (VKOp a, VKAddress a, VKEffectiveHeight a, AuthorityVoteKey.more a) \<le>
     (VKOp b, VKAddress b, VKEffectiveHeight b, AuthorityVoteKey.more b)"

definition less_AuthorityVoteKey_ext :: "'a AuthorityVoteKey_scheme \<Rightarrow> 'a AuthorityVoteKey_scheme \<Rightarrow> bool" where
  "less_AuthorityVoteKey_ext a b \<longleftrightarrow> a \<le> b \<and> \<not> b \<le> a"

instance
  by standard (auto simp: less_eq_AuthorityVoteKey_ext_def less_AuthorityVoteKey_ext_def)

end

record AuthorityVote =
  Voter :: string
  VSubmittedAtHeight :: u64
  VMemo :: string

record AuthorityProposal =
  APOp :: AuthorityOp
  APAddress :: string
  APEffectiveHeight :: u64
  Voters :: "AuthorityVote list"
  Crossed :: bool
  CrossedAtHeight :: u64

type_synonym InMemoryAuthorityVoteStore = "(AuthorityVoteKey, AuthorityProposal) fmap"

definition AuthorityThreshold :: "nat \<Rightarrow> nat" where
  "AuthorityThreshold n = (if n = 0 then 0 else if n = 1 then 1 else n div 2 + 1)"

definition NewInMemoryAuthorityVoteStore :: InMemoryAuthorityVoteStore where
  "NewInMemoryAuthorityVoteStore = fmempty"

definition vote_before :: "AuthorityVote \<Rightarrow> AuthorityVote \<Rightarrow> bool" where
  "vote_before a b =
     (if VSubmittedAtHeight a \<noteq> VSubmittedAtHeight b then VSubmittedAtHeight a < VSubmittedAtHeight b else Voter a < Voter b)"

definition sortVoters :: "AuthorityVote list \<Rightarrow> AuthorityVote list" where
  "sortVoters vs = go_sort vote_before vs"

definition proposal_before :: "AuthorityProposal \<Rightarrow> AuthorityProposal \<Rightarrow> bool" where
  "proposal_before a b =
     (if APEffectiveHeight a \<noteq> APEffectiveHeight b then APEffectiveHeight a < APEffectiveHeight b
      else if APOp a \<noteq> APOp b then APOp a < APOp b
      else APAddress a < APAddress b)"

definition sortProposals :: "AuthorityProposal list \<Rightarrow> AuthorityProposal list" where
  "sortProposals ps = go_sort proposal_before ps"

definition cloneProposal :: "AuthorityProposal \<Rightarrow> AuthorityProposal" where
  "cloneProposal p = p"

definition new_proposal :: "AuthorityVoteKey \<Rightarrow> AuthorityProposal" where
  "new_proposal key = \<lparr>APOp = VKOp key, APAddress = VKAddress key, APEffectiveHeight = VKEffectiveHeight key,
                       Voters = [], Crossed = False, CrossedAtHeight = 0\<rparr>"

definition proposal_at :: "AuthorityVoteKey \<Rightarrow> InMemoryAuthorityVoteStore \<Rightarrow> AuthorityProposal" where
  "proposal_at key s = (case fmlookup s key of None \<Rightarrow> new_proposal key | Some p \<Rightarrow> p)"

definition RecordVote ::
    "AuthorityVoteKey \<Rightarrow> AuthorityVote \<Rightarrow> nat \<Rightarrow> InMemoryAuthorityVoteStore \<Rightarrow>
       gov_error + (InMemoryAuthorityVoteStore \<times> AuthorityProposal \<times> bool)" where
  "RecordVote key vote currentAuthorityCount s =
     (if Voter vote = [] then Inl GErrPayloadInvalid
      else
        let p = proposal_at key s
        in if \<exists>v \<in> set (Voters p). Voter v = Voter vote then Inl GErrDuplicateVote
           else
             let p = p\<lparr>Voters := sortVoters (Voters p @ [vote])\<rparr>;
                 threshold = AuthorityThreshold currentAuthorityCount;
                 crossedNow = (\<not> Crossed p \<and> threshold > 0 \<and> length (Voters p) \<ge> threshold);
                 p = (if crossedNow then p\<lparr>Crossed := True, CrossedAtHeight := VSubmittedAtHeight vote\<rparr> else p)
             in Inr (fmupd key p s, p, crossedNow))"

definition AllProposals :: "AuthorityVoteKey list \<Rightarrow> InMemoryAuthorityVoteStore \<Rightarrow> AuthorityProposal list" where
  "AllProposals order s = sortProposals (map (\<lambda>k. cloneProposal (the (fmlookup s k))) order)"

definition LookupProposal :: "AuthorityVoteKey \<Rightarrow> InMemoryAuthorityVoteStore \<Rightarrow> AuthorityProposal option" where
  "LookupProposal key s = map_option cloneProposal (fmlookup s key)"

text \<open>Go allows deleting the current entry while ranging: every entry present at the start is visited once.\<close>

definition votes_due :: "u64 \<Rightarrow> AuthorityProposal \<Rightarrow> bool" where
  "votes_due currentHeight p \<longleftrightarrow> Crossed p \<and> \<not> APEffectiveHeight p > currentHeight"

fun vote_promote_loop ::
    "u64 \<Rightarrow> AuthorityVoteKey list \<Rightarrow> InMemoryAuthorityVoteStore \<Rightarrow> InMemoryAuthorityVoteStore \<times> AuthorityProposal list" where
  "vote_promote_loop h [] s = (s, [])"
| "vote_promote_loop h (k # ks) s =
     (let p = the (fmlookup s k)
      in if votes_due h p then let (s', due) = vote_promote_loop h ks (fmdrop k s) in (s', cloneProposal p # due)
         else vote_promote_loop h ks s)"

definition Votes_Promote ::
    "AuthorityVoteKey list \<Rightarrow> u64 \<Rightarrow> InMemoryAuthorityVoteStore \<Rightarrow> InMemoryAuthorityVoteStore \<times> AuthorityProposal list" where
  "Votes_Promote order currentHeight s =
     (let (s', due) = vote_promote_loop currentHeight order s in (s', sortProposals due))"

fun drop_loop ::
    "string \<Rightarrow> AuthorityVoteKey list \<Rightarrow> InMemoryAuthorityVoteStore \<Rightarrow> InMemoryAuthorityVoteStore \<times> AuthorityProposal list" where
  "drop_loop a [] s = (s, [])"
| "drop_loop a (k # ks) s =
     (let p = the (fmlookup s k); out = filter (\<lambda>v. Voter v \<noteq> a) (Voters p)
      in if Crossed p then drop_loop a ks s
         else if length out = length (Voters p) then drop_loop a ks s
         else if out = [] then
           let (s', changed) = drop_loop a ks (fmdrop k s) in (s', (cloneProposal p)\<lparr>Voters := []\<rparr> # changed)
         else
           let p = p\<lparr>Voters := out\<rparr>; (s', changed) = drop_loop a ks (fmupd k p s)
           in (s', cloneProposal p # changed))"

definition DropVotesByAuthority ::
    "AuthorityVoteKey list \<Rightarrow> string \<Rightarrow> InMemoryAuthorityVoteStore \<Rightarrow> InMemoryAuthorityVoteStore \<times> AuthorityProposal list" where
  "DropVotesByAuthority order a s =
     (if a = [] then (s, []) else let (s', changed) = drop_loop a order s in (s', sortProposals changed))"

fun recompute_loop ::
    "nat \<Rightarrow> u64 \<Rightarrow> AuthorityVoteKey list \<Rightarrow> InMemoryAuthorityVoteStore \<Rightarrow> InMemoryAuthorityVoteStore \<times> AuthorityProposal list" where
  "recompute_loop threshold h [] s = (s, [])"
| "recompute_loop threshold h (k # ks) s =
     (let p = the (fmlookup s k)
      in if Crossed p \<or> length (Voters p) < threshold then recompute_loop threshold h ks s
         else
           let p = p\<lparr>Crossed := True, CrossedAtHeight := h\<rparr>; (s', crossed) = recompute_loop threshold h ks (fmupd k p s)
           in (s', cloneProposal p # crossed))"

definition RecomputeCrossed ::
    "AuthorityVoteKey list \<Rightarrow> nat \<Rightarrow> u64 \<Rightarrow> InMemoryAuthorityVoteStore \<Rightarrow> InMemoryAuthorityVoteStore \<times> AuthorityProposal list" where
  "RecomputeCrossed order authorityCount currentHeight s =
     (let threshold = AuthorityThreshold authorityCount
      in if threshold = 0 then (s, [])
         else let (s', crossed) = recompute_loop threshold currentHeight order s in (s', sortProposals crossed))"

definition markCrossedForTesting :: "AuthorityVoteKey \<Rightarrow> u64 \<Rightarrow> InMemoryAuthorityVoteStore \<Rightarrow> InMemoryAuthorityVoteStore" where
  "markCrossedForTesting key h s =
     (case fmlookup s key of None \<Rightarrow> s | Some p \<Rightarrow> fmupd key (p\<lparr>Crossed := True, CrossedAtHeight := h\<rparr>) s)"

section \<open>Pointwise view of the loops\<close>

text \<open>
  Each loop treats the entries independently: it is described by what happens to one entry, which also shows
  that the map order does not matter.
\<close>

definition drop_entry :: "string \<Rightarrow> AuthorityProposal \<Rightarrow> AuthorityProposal option" where
  "drop_entry a p =
     (if Crossed p then Some p
      else let out = filter (\<lambda>v. Voter v \<noteq> a) (Voters p)
           in if length out = length (Voters p) then Some p else if out = [] then None else Some (p\<lparr>Voters := out\<rparr>))"

definition recompute_entry :: "nat \<Rightarrow> u64 \<Rightarrow> AuthorityProposal \<Rightarrow> AuthorityProposal" where
  "recompute_entry threshold h p =
     (if Crossed p \<or> length (Voters p) < threshold then p else p\<lparr>Crossed := True, CrossedAtHeight := h\<rparr>)"

lemma vote_promote_state:
  assumes "distinct ks" "set ks \<subseteq> fmdom' s"
  shows "fmlookup (fst (vote_promote_loop h ks s)) k =
           (if k \<in> set ks \<and> (\<exists>p. fmlookup s k = Some p \<and> votes_due h p) then None else fmlookup s k)"
  using assms
proof (induction ks arbitrary: s)
  case (Cons x ks)
  obtain q where q: "fmlookup s x = Some q" using Cons.prems(2) by (auto simp: fmdom'_iff)
  have sub: "set ks \<subseteq> fmdom' s" "set ks \<subseteq> fmdom' (fmdrop x s)" "x \<notin> set ks" using Cons.prems by auto
  show ?case using Cons.IH [of s] Cons.IH [of "fmdrop x s"] sub Cons.prems(1) q
    by (auto simp: Let_def split: prod.splits)
qed simp

lemma vote_promote_due:
  assumes "distinct ks" "set ks \<subseteq> fmdom' s"
  shows "p \<in> set (snd (vote_promote_loop h ks s)) \<longleftrightarrow> (\<exists>k \<in> set ks. fmlookup s k = Some p \<and> votes_due h p)"
  using assms
proof (induction ks arbitrary: s)
  case (Cons x ks)
  obtain q where q: "fmlookup s x = Some q" using Cons.prems(2) by (auto simp: fmdom'_iff)
  have sub: "set ks \<subseteq> fmdom' s" "set ks \<subseteq> fmdom' (fmdrop x s)" "x \<notin> set ks" using Cons.prems by auto
  have "p \<in> set (snd (vote_promote_loop h ks (fmdrop x s))) \<longleftrightarrow> (\<exists>k \<in> set ks. fmlookup s k = Some p \<and> votes_due h p)"
    using Cons.IH [of "fmdrop x s"] sub Cons.prems(1) by auto
  then show ?case using Cons.IH [of s] sub Cons.prems(1) q by (auto simp: Let_def cloneProposal_def split: prod.splits)
qed simp

lemma drop_loop_lookup:
  assumes "distinct ks" "set ks \<subseteq> fmdom' s"
  shows "fmlookup (fst (drop_loop a ks s)) k =
           (if k \<in> set ks then Option.bind (fmlookup s k) (drop_entry a) else fmlookup s k)"
  using assms
proof (induction ks arbitrary: s)
  case (Cons x ks)
  obtain q where q: "fmlookup s x = Some q" using Cons.prems(2) by (auto simp: fmdom'_iff)
  have sub: "set ks \<subseteq> fmdom' s" "set ks \<subseteq> fmdom' (fmdrop x s)" "\<And>v. set ks \<subseteq> fmdom' (fmupd x v s)" "x \<notin> set ks"
    using Cons.prems by auto
  show ?case
    using Cons.IH [of s] Cons.IH [of "fmdrop x s"] Cons.IH [of "fmupd x (q\<lparr>Voters := filter (\<lambda>v. Voter v \<noteq> a) (Voters q)\<rparr>) s"]
      sub Cons.prems(1) q
    by (auto simp: Let_def drop_entry_def [of a q] split: prod.splits)
qed simp

lemma recompute_loop_lookup:
  assumes "distinct ks" "set ks \<subseteq> fmdom' s"
  shows "fmlookup (fst (recompute_loop t h ks s)) k =
           (if k \<in> set ks then map_option (recompute_entry t h) (fmlookup s k) else fmlookup s k)"
  using assms
proof (induction ks arbitrary: s)
  case (Cons x ks)
  obtain q where q: "fmlookup s x = Some q" using Cons.prems(2) by (auto simp: fmdom'_iff)
  have sub: "set ks \<subseteq> fmdom' s" "\<And>v. set ks \<subseteq> fmdom' (fmupd x v s)" "x \<notin> set ks" using Cons.prems by auto
  show ?case
    using Cons.IH [of s] Cons.IH [of "fmupd x (q\<lparr>Crossed := True, CrossedAtHeight := h\<rparr>) s"] sub Cons.prems(1) q
    by (auto simp: Let_def recompute_entry_def [of t h q] split: prod.splits)
qed simp

lemma Votes_Promote_lookup:
  assumes "map_order s order"
  shows "fmlookup (fst (Votes_Promote order h s)) k =
           (case fmlookup s k of None \<Rightarrow> None | Some p \<Rightarrow> if votes_due h p then None else Some p)"
    and "p \<in> set (snd (Votes_Promote order h s)) \<longleftrightarrow> (\<exists>k. fmlookup s k = Some p \<and> votes_due h p)"
  using assms vote_promote_state [of order s h k] vote_promote_due [of order s p h] map_order_mem [OF assms]
  by (auto simp: Votes_Promote_def sortProposals_def map_order_def split: prod.splits option.splits)

lemma Drop_lookup:
  assumes "map_order s order"
  shows "fmlookup (fst (DropVotesByAuthority order a s)) k = (if a = [] then fmlookup s k else Option.bind (fmlookup s k) (drop_entry a))"
  using assms drop_loop_lookup [of order s a k]
  by (cases "fmlookup s k") (auto simp: DropVotesByAuthority_def map_order_def fmdom'_iff split: prod.splits)

lemma Recompute_lookup:
  assumes "map_order s order"
  shows "fmlookup (fst (RecomputeCrossed order n h s)) k =
           (if AuthorityThreshold n = 0 then fmlookup s k else map_option (recompute_entry (AuthorityThreshold n) h) (fmlookup s k))"
  using assms recompute_loop_lookup [of order s "AuthorityThreshold n" h k]
  by (cases "fmlookup s k") (auto simp: RecomputeCrossed_def map_order_def fmdom'_iff Let_def split: prod.splits)

section \<open>Thresholds and the invariant of the tally\<close>

lemma threshold_majority: "0 < n \<Longrightarrow> n < 2 * AuthorityThreshold n \<and> AuthorityThreshold n \<le> n"
  by (auto simp: AuthorityThreshold_def)

lemma threshold_pos: "0 < n \<Longrightarrow> 0 < AuthorityThreshold n"
  by (auto simp: AuthorityThreshold_def)

definition prop_key :: "AuthorityProposal \<Rightarrow> AuthorityVoteKey" where
  "prop_key p = \<lparr>VKOp = APOp p, VKAddress = APAddress p, VKEffectiveHeight = APEffectiveHeight p\<rparr>"

text \<open>Entries sit under their own key, nobody voted twice, and an open proposal has votes of current authorities only.\<close>

definition gov_votes_ok :: "string fset \<Rightarrow> InMemoryAuthorityVoteStore \<Rightarrow> bool" where
  "gov_votes_ok auths s \<longleftrightarrow>
     (\<forall>k p. fmlookup s k = Some p \<longrightarrow>
        prop_key p = k \<and> VKAddress k \<noteq> [] \<and> distinct (map Voter (Voters p)) \<and> Voters p \<noteq> [] \<and>
        (\<not> Crossed p \<longrightarrow> Voter ` set (Voters p) \<subseteq> fset auths))"

lemma votes_okD:
  assumes "gov_votes_ok A s" "fmlookup s k = Some p"
  shows "prop_key p = k" "distinct (map Voter (Voters p))" "Voters p \<noteq> []" "\<not> Crossed p \<Longrightarrow> Voter ` set (Voters p) \<subseteq> fset A"
    "VKAddress k \<noteq> []" "APAddress p \<noteq> []"
proof -
  have v: "prop_key p = k \<and> VKAddress k \<noteq> [] \<and> distinct (map Voter (Voters p)) \<and> Voters p \<noteq> [] \<and>
        (\<not> Crossed p \<longrightarrow> Voter ` set (Voters p) \<subseteq> fset A)"
    using assms unfolding gov_votes_ok_def by blast
  then show "prop_key p = k" "distinct (map Voter (Voters p))" "Voters p \<noteq> []" "VKAddress k \<noteq> []"
    "\<not> Crossed p \<Longrightarrow> Voter ` set (Voters p) \<subseteq> fset A" by simp_all
  have "APAddress p = VKAddress k" using v by (auto simp: prop_key_def)
  then show "APAddress p \<noteq> []" using v by simp
qed

lemma prop_key_simps [simp]:
  "prop_key (p\<lparr>Voters := vs\<rparr>) = prop_key p" "prop_key (p\<lparr>Crossed := c, CrossedAtHeight := h\<rparr>) = prop_key p"
  "prop_key (new_proposal k) = k"
  by (simp_all add: prop_key_def new_proposal_def)

lemma votes_distinct_sorted [simp]: "distinct (map Voter (sortVoters vs)) = distinct (map Voter vs)"
  by (metis mset_eq_imp_distinct_iff mset_go_sort mset_map sortVoters_def)

lemma sortVoters_simps [simp]: "set (sortVoters vs) = set vs" "length (sortVoters vs) = length vs" "sortVoters vs = [] \<longleftrightarrow> vs = []"
  by (simp_all add: sortVoters_def) (metis length_0_conv length_go_sort)

lemma new_votes_ok: "gov_votes_ok A NewInMemoryAuthorityVoteStore"
  by (simp add: gov_votes_ok_def NewInMemoryAuthorityVoteStore_def)

lemma proposal_at_ok:
  assumes "gov_votes_ok A s"
  shows "prop_key (proposal_at k s) = k" "distinct (map Voter (Voters (proposal_at k s)))"
    "\<not> Crossed (proposal_at k s) \<Longrightarrow> Voter ` set (Voters (proposal_at k s)) \<subseteq> fset A"
  using votes_okD [OF assms] by (auto simp: proposal_at_def new_proposal_def prop_key_def split: option.splits)

text \<open>The vote that crosses a proposal is cast by an authority, and then a strict majority of the authorities has voted.\<close>

lemma RecordVote_cases:
  assumes "RecordVote k v n s = Inr (s', p, c)"
  shows "Voter v \<noteq> [] \<and> Voter v \<notin> Voter ` set (Voters (proposal_at k s)) \<and> s' = fmupd k p s \<and>
     Voters p = sortVoters (Voters (proposal_at k s) @ [v]) \<and>
     (c \<longleftrightarrow> \<not> Crossed (proposal_at k s) \<and> 0 < AuthorityThreshold n \<and> AuthorityThreshold n \<le> length (Voters p)) \<and>
     Crossed p = (Crossed (proposal_at k s) \<or> c) \<and> prop_key p = prop_key (proposal_at k s) \<and>
     CrossedAtHeight p = (if c then VSubmittedAtHeight v else CrossedAtHeight (proposal_at k s))"
  using assms by (auto simp: RecordVote_def Let_def prop_key_def split: if_splits)

lemma RecordVote_error_iff:
  "(\<exists>e. RecordVote k v n s = Inl e) \<longleftrightarrow> Voter v = [] \<or> Voter v \<in> Voter ` set (Voters (proposal_at k s))"
  by (auto simp: RecordVote_def Let_def image_iff eq_commute)

lemma RecordVote_ok:
  assumes "gov_votes_ok A s" "Voter v |\<in>| A" "RecordVote k v n s = Inr (s', p, c)" "VKAddress k \<noteq> []"
  shows "gov_votes_ok A s'"
proof -
  note r = RecordVote_cases [OF assms(3)] and o = proposal_at_ok [OF assms(1), of k]
  have "distinct (map Voter (Voters p))" using r o(2) by auto
  moreover have "\<not> Crossed p \<Longrightarrow> Voter ` set (Voters p) \<subseteq> fset A" using r o(3) assms(2) by auto
  moreover have "prop_key p = k" "Voters p \<noteq> []" using r o(1) by auto
  ultimately show ?thesis using r assms(1,4) by (auto simp: gov_votes_ok_def)
qed

lemma majority_card:
  assumes "distinct (map Voter vs)" "Voter ` set vs \<subseteq> fset A" "0 < fcard A" "AuthorityThreshold (fcard A) \<le> length vs"
  shows "fcard A < 2 * card (Voter ` set vs)"
proof -
  have "card (Voter ` set vs) = length vs" using assms(1) by (metis distinct_card length_map list.set_map)
  then show ?thesis using threshold_majority [OF assms(3)] assms(4) by linarith
qed

lemma RecordVote_majority:
  assumes "gov_votes_ok A s" "Voter v |\<in>| A" "RecordVote k v (fcard A) s = Inr (s', p, True)"
  shows "Voter ` set (Voters p) \<subseteq> fset A \<and> fcard A < 2 * card (Voter ` set (Voters p))"
proof -
  note r = RecordVote_cases [OF assms(3)] and o = proposal_at_ok [OF assms(1), of k]
  have sub: "Voter ` set (Voters p) \<subseteq> fset A" using r o(3) assms(2) by auto
  have d: "distinct (map Voter (Voters p))" using r o(2) by auto
  have "0 < fcard A" using assms(2) by (metis fcard_0_eq fempty_iff gr0I)
  then have "fcard A < 2 * card (Voter ` set (Voters p))" using majority_card [OF d sub] r by blast
  then show ?thesis using sub by blast
qed

lemma votes_ok_shrink:
  assumes "\<And>k p. fmlookup s' k = Some p \<Longrightarrow> fmlookup s k = Some p" "gov_votes_ok A s"
  shows "gov_votes_ok A s'"
  unfolding gov_votes_ok_def using assms(1) votes_okD [OF assms(2)] by blast

lemma Votes_Promote_ok: "\<lbrakk>gov_votes_ok A s; map_order s order\<rbrakk> \<Longrightarrow> gov_votes_ok A (fst (Votes_Promote order h s))"
  by (rule votes_ok_shrink) (auto simp: Votes_Promote_lookup(1) split: option.splits if_splits)

lemma votes_ok_grow: "\<lbrakk>gov_votes_ok A s; A |\<subseteq>| B\<rbrakk> \<Longrightarrow> gov_votes_ok B s"
  by (fastforce simp: gov_votes_ok_def less_eq_fset.rep_eq)

lemma Recompute_ok: "\<lbrakk>gov_votes_ok A s; map_order s order\<rbrakk> \<Longrightarrow> gov_votes_ok A (fst (RecomputeCrossed order n h s))"
  by (fastforce simp: gov_votes_ok_def Recompute_lookup recompute_entry_def split: if_splits)

text \<open>After dropping the votes of an authority the tally is consistent with the list without it.\<close>

lemma drop_entry_cases:
  assumes "drop_entry a p = Some q" "\<not> Crossed p"
  shows "Voters q = filter (\<lambda>v. Voter v \<noteq> a) (Voters p) \<and> prop_key q = prop_key p \<and> Crossed q = Crossed p"
proof (cases "length (filter (\<lambda>v. Voter v \<noteq> a) (Voters p)) = length (Voters p)")
  case True
  then have "filter (\<lambda>v. Voter v \<noteq> a) (Voters p) = Voters p"
    by (metis (no_types, lifting) filter_id_conv length_filter_less nat_neq_iff)
  then show ?thesis using assms by (auto simp: drop_entry_def)
next
  case False
  then show ?thesis using assms by (auto simp: drop_entry_def Let_def split: if_splits)
qed

lemma drop_entry_nonempty: "\<lbrakk>drop_entry a p = Some q; Voters p \<noteq> []\<rbrakk> \<Longrightarrow> Voters q \<noteq> []"
  by (auto simp: drop_entry_def Let_def split: if_splits)

lemma Drop_ok:
  assumes "gov_votes_ok A s" "map_order s order" "a \<noteq> []"
  shows "gov_votes_ok (A |-| {|a|}) (fst (DropVotesByAuthority order a s))"
  unfolding gov_votes_ok_def
proof (intro allI impI)
  fix k q assume q: "fmlookup (fst (DropVotesByAuthority order a s)) k = Some q"
  then obtain p where p: "fmlookup s k = Some p" "drop_entry a p = Some q"
    using Drop_lookup [OF assms(2), of a k] assms(3) by (auto split: Option.bind_splits)
  note o = votes_okD [OF assms(1) p(1)]
  show "prop_key q = k \<and> VKAddress k \<noteq> [] \<and> distinct (map Voter (Voters q)) \<and> Voters q \<noteq> [] \<and>
        (\<not> Crossed q \<longrightarrow> Voter ` set (Voters q) \<subseteq> fset (A |-| {|a|}))"
  proof (cases "Crossed p")
    case True
    then show ?thesis using p o by (simp add: drop_entry_def)
  next
    case False
    then show ?thesis using drop_entry_cases [OF p(2) False] drop_entry_nonempty [OF p(2) o(3)] o
      by (auto simp: distinct_map_filter)
  qed
qed

end
