(* ===== verification/GovApply.thy ===== *)
theory GovApply
  imports Authority Accounts
begin

text \<open>
  \<open>pkg/chain/gov_apply.go\<close>: governance transactions. Parameter changes are staged by a single authority, rotations of
  the authority list by a majority of votes; both are activated at the post-seal hook \<open>PromotePending\<close>. Events and
  metrics are output only and are left out.

  JSON decoding is an argument (\<open>GovCodec\<close>): the kind header as \<open>json.Unmarshal\<close> fills it, and the two strict decoders.
  \<open>ord\<close> enumerates the vote map each time the code ranges over it.
\<close>

record GovCodec =
  unmarshal_kind :: "bytes \<Rightarrow> string option"
  decode_param_set :: "bytes \<Rightarrow> ParamSetPayload option"
  decode_authority_set :: "bytes \<Rightarrow> AuthoritySetPayload option"

definition GovPeekKind :: "GovCodec \<Rightarrow> bytes \<Rightarrow> gov_error + string" where
  "GovPeekKind codec raw =
     (if raw = [] then Inl GErrPayloadDecode
      else case unmarshal_kind codec raw of
        None \<Rightarrow> Inl GErrPayloadDecode
      | Some k \<Rightarrow> if k = PayloadKindParamSet \<or> k = PayloadKindAuthoritySet then Inr k else Inl GErrPayloadInvalid)"

definition ParseParamSet :: "GovCodec \<Rightarrow> bytes \<Rightarrow> gov_error + ParamSetPayload" where
  "ParseParamSet codec raw =
     (if raw = [] then Inl GErrPayloadDecode
      else case decode_param_set codec raw of
        None \<Rightarrow> Inl GErrPayloadDecode
      | Some p \<Rightarrow> if PS_Kind p \<noteq> PayloadKindParamSet then Inl GErrPayloadInvalid else Inr p)"

definition ParseAuthoritySet :: "GovCodec \<Rightarrow> bytes \<Rightarrow> gov_error + AuthoritySetPayload" where
  "ParseAuthoritySet codec raw =
     (if raw = [] then Inl GErrPayloadDecode
      else case decode_authority_set codec raw of
        None \<Rightarrow> Inl GErrPayloadDecode
      | Some p \<Rightarrow> if AS_Kind p \<noteq> PayloadKindAuthoritySet then Inl GErrPayloadInvalid else Inr p)"

text \<open>The admission gate of \<open>chainparams/admit.go\<close>; \<open>prev\<close> is the gate it wraps.\<close>

definition Gov_AdmissionChecker :: "GovCodec \<Rightarrow> (Tx \<Rightarrow> 'e option) option \<Rightarrow> Tx \<Rightarrow> (gov_error + 'e) option" where
  "Gov_AdmissionChecker codec prev tx =
     (if TxContractID tx \<noteq> GovContractID then
        (case prev of None \<Rightarrow> None | Some f \<Rightarrow> map_option Inr (f tx))
      else if Payload tx = [] then Some (Inl GErrPayloadInvalid)
      else case GovPeekKind codec (Payload tx) of
        Inl e \<Rightarrow> Some (Inl e)
      | Inr kind \<Rightarrow>
          (case (if kind = PayloadKindParamSet then
                   (case ParseParamSet codec (Payload tx) of Inl e \<Rightarrow> Some e | Inr p \<Rightarrow> ValidateParamSetFields p)
                 else if kind = PayloadKindAuthoritySet then
                   (case ParseAuthoritySet codec (Payload tx) of Inl e \<Rightarrow> Some e | Inr p \<Rightarrow> ValidateAuthoritySetFields p)
                 else Some GErrPayloadInvalid) of
             Some e \<Rightarrow> Some (Inl e)
           | None \<Rightarrow> if fle (Fee tx) fzero then Some (Inl GErrPayloadInvalid) else None))"

section \<open>The applier\<close>

record GovApplier =
  ga_Store :: InMemoryParamStore
  ga_AuthorityVotes :: "InMemoryAuthorityVoteStore option"
  authoritySet :: "string fset"

datatype gov_apply_error = GovErr gov_error | GovAccount account_error

definition NewGovApplier :: "InMemoryParamStore \<Rightarrow> string list \<Rightarrow> GovApplier" where
  "NewGovApplier store authorityList =
     \<lparr>ga_Store = store, ga_AuthorityVotes = None, authoritySet = fset_of_list (filter (\<lambda>a. a \<noteq> []) authorityList)\<rparr>"

definition SetAuthorityVoteStore :: "InMemoryAuthorityVoteStore option \<Rightarrow> GovApplier \<Rightarrow> GovApplier" where
  "SetAuthorityVoteStore s a = a\<lparr>ga_AuthorityVotes := s\<rparr>"

definition AuthorityList :: "GovApplier \<Rightarrow> string list" where
  "AuthorityList a = sorted_list_of_fset (authoritySet a)"

definition IsAuthority :: "string \<Rightarrow> GovApplier \<Rightarrow> bool" where
  "IsAuthority addr a \<longleftrightarrow> addr |\<in>| authoritySet a"

text \<open>The checks of the two handlers before the fee is taken.\<close>

definition height_window :: "u64 \<Rightarrow> u64 \<Rightarrow> gov_error option" where
  "height_window effective currentHeight =
     (if effective < currentHeight then Some GErrEffectiveHeightInPast
      else if effective > currentHeight + MaxActivationDelay then Some GErrEffectiveHeightTooFar
      else None)"

definition param_checks :: "ParamSetPayload \<Rightarrow> Tx \<Rightarrow> u64 \<Rightarrow> GovApplier \<Rightarrow> gov_error option" where
  "param_checks payload tx currentHeight a =
     (case ValidateParamSetFields payload of Some e \<Rightarrow> Some e | None \<Rightarrow>
      if fcard (authoritySet a) = 0 then Some GErrGovernanceNotConfigured
      else if Sender tx |\<notin>| authoritySet a then Some GErrUnauthorized
      else case height_window (PS_EffectiveHeight payload) currentHeight of Some e \<Rightarrow> Some e | None \<Rightarrow>
      if fle (Fee tx) fzero then Some GErrFeeNotPositive else None)"

definition applyParamSet ::
    "GovCodec \<Rightarrow> Tx \<Rightarrow> u64 \<Rightarrow> AccountStore \<times> GovApplier \<Rightarrow> gov_apply_error option \<times> AccountStore \<times> GovApplier" where
  "applyParamSet codec tx currentHeight = (\<lambda>(as, a).
     case ParseParamSet codec (Payload tx) of Inl e \<Rightarrow> (Some (GovErr e), as, a) | Inr payload \<Rightarrow>
     case param_checks payload tx currentHeight a of Some e \<Rightarrow> (Some (GovErr e), as, a) | None \<Rightarrow>
     case DebitAndBumpNonce (Sender tx) (Fee tx) (TxNonce tx) as of
       (Some e, as) \<Rightarrow> (Some (GovAccount e), as, a)
     | (None, as) \<Rightarrow>
         let change = \<lparr>CParam = PS_Param payload, CValue = PS_Value payload, CEffectiveHeight = PS_EffectiveHeight payload,
                       CSubmittedAtHeight = currentHeight, CAuthority = Sender tx, CMemo = PS_Memo payload\<rparr>
         in case Stage change (ga_Store a) of
              Inl e \<Rightarrow> (Some (GovErr e), as, a)
            | Inr (store, prior) \<Rightarrow> (None, as, a\<lparr>ga_Store := store\<rparr>))"

definition authority_checks :: "AuthoritySetPayload \<Rightarrow> Tx \<Rightarrow> u64 \<Rightarrow> GovApplier \<Rightarrow> gov_error option" where
  "authority_checks payload tx currentHeight a =
     (case ValidateAuthoritySetFields payload of Some e \<Rightarrow> Some e | None \<Rightarrow>
      if fcard (authoritySet a) = 0 \<or> ga_AuthorityVotes a = None then Some GErrGovernanceNotConfigured
      else if Sender tx |\<notin>| authoritySet a then Some GErrUnauthorized
      else if AS_Op payload = AuthorityOpAdd \<and> AS_Address payload |\<in>| authoritySet a then Some GErrAuthorityAlreadyPresent
      else if AS_Op payload = AuthorityOpRemove \<and> AS_Address payload |\<notin>| authoritySet a then Some GErrAuthorityNotPresent
      else case height_window (AS_EffectiveHeight payload) currentHeight of Some e \<Rightarrow> Some e | None \<Rightarrow>
      if fle (Fee tx) fzero then Some GErrFeeNotPositive else None)"

definition vote_key :: "AuthoritySetPayload \<Rightarrow> AuthorityVoteKey" where
  "vote_key payload = \<lparr>VKOp = AS_Op payload, VKAddress = AS_Address payload, VKEffectiveHeight = AS_EffectiveHeight payload\<rparr>"

definition applyAuthoritySet ::
    "GovCodec \<Rightarrow> Tx \<Rightarrow> u64 \<Rightarrow> AccountStore \<times> GovApplier \<Rightarrow> gov_apply_error option \<times> AccountStore \<times> GovApplier" where
  "applyAuthoritySet codec tx currentHeight = (\<lambda>(as, a).
     case ParseAuthoritySet codec (Payload tx) of Inl e \<Rightarrow> (Some (GovErr e), as, a) | Inr payload \<Rightarrow>
     case authority_checks payload tx currentHeight a of Some e \<Rightarrow> (Some (GovErr e), as, a) | None \<Rightarrow>
     case DebitAndBumpNonce (Sender tx) (Fee tx) (TxNonce tx) as of
       (Some e, as) \<Rightarrow> (Some (GovAccount e), as, a)
     | (None, as) \<Rightarrow>
         let vote = \<lparr>Voter = Sender tx, VSubmittedAtHeight = currentHeight, VMemo = AS_Memo payload\<rparr>
         in case RecordVote (vote_key payload) vote (fcard (authoritySet a)) (the (ga_AuthorityVotes a)) of
              Inl e \<Rightarrow> (Some (GovErr e), as, a)
            | Inr (votes, p, crossedNow) \<Rightarrow> (None, as, a\<lparr>ga_AuthorityVotes := Some votes\<rparr>))"

definition ApplyGovTx ::
    "GovCodec \<Rightarrow> Tx \<Rightarrow> u64 \<Rightarrow> AccountStore \<times> GovApplier \<Rightarrow> gov_apply_error option \<times> AccountStore \<times> GovApplier" where
  "ApplyGovTx codec tx currentHeight S =
     (if TxContractID tx \<noteq> GovContractID then (Some (GovErr GErrNotGovTx), S)
      else case GovPeekKind codec (Payload tx) of
        Inl e \<Rightarrow> (Some (GovErr e), S)
      | Inr kind \<Rightarrow>
          if kind = PayloadKindParamSet then applyParamSet codec tx currentHeight S
          else if kind = PayloadKindAuthoritySet then applyAuthoritySet codec tx currentHeight S
          else (Some (GovErr GErrPayloadInvalid), S))"

text \<open>
  Activation. The first loop runs under the lock and changes the list; a refused removal is marked by clearing its
  voters. The second loop drops the votes of each removed authority and tallies again, one removal at a time.
\<close>

fun activate_loop :: "AuthorityProposal list \<Rightarrow> string fset \<Rightarrow> string fset \<times> AuthorityProposal list" where
  "activate_loop [] A = (A, [])"
| "activate_loop (p # ps) A =
     (if APOp p = AuthorityOpAdd then
        let (B, out) = activate_loop ps (finsert (APAddress p) A) in (B, p # out)
      else if APOp p = AuthorityOpRemove then
        if fcard A \<le> 1 then let (B, out) = activate_loop ps A in (B, p\<lparr>Voters := []\<rparr> # out)
        else let (B, out) = activate_loop ps (A |-| {|APAddress p|}) in (B, p # out)
      else let (B, out) = activate_loop ps A in (B, p # out))"

type_synonym vote_orders = "InMemoryAuthorityVoteStore \<Rightarrow> AuthorityVoteKey list"

fun settle_loop ::
    "vote_orders \<Rightarrow> u64 \<Rightarrow> nat \<Rightarrow> AuthorityProposal list \<Rightarrow> InMemoryAuthorityVoteStore \<Rightarrow> InMemoryAuthorityVoteStore" where
  "settle_loop ord h postCount [] s = s"
| "settle_loop ord h postCount (p # ps) s =
     (if APOp p = AuthorityOpRemove \<and> Voters p \<noteq> [] then
        let s = fst (DropVotesByAuthority (ord s) (APAddress p) s);
            s = fst (RecomputeCrossed (ord s) postCount h s)
        in settle_loop ord h postCount ps s
      else settle_loop ord h postCount ps s)"

definition promoteAuthorityPending :: "vote_orders \<Rightarrow> u64 \<Rightarrow> GovApplier \<Rightarrow> GovApplier" where
  "promoteAuthorityPending ord currentHeight a =
     (case ga_AuthorityVotes a of
        None \<Rightarrow> a
      | Some votes \<Rightarrow>
          let (votes, due) = Votes_Promote (ord votes) currentHeight votes
          in if due = [] then a\<lparr>ga_AuthorityVotes := Some votes\<rparr>
             else
               let (A, due) = activate_loop due (authoritySet a);
                   votes = settle_loop ord currentHeight (fcard A) due votes
               in a\<lparr>ga_AuthorityVotes := Some votes, authoritySet := A\<rparr>)"

definition PromotePending :: "string list \<Rightarrow> vote_orders \<Rightarrow> u64 \<Rightarrow> GovApplier \<Rightarrow> GovApplier \<times> ParamChange list" where
  "PromotePending order ord currentHeight a =
     (let (store, promoted) = Param_Promote order currentHeight (ga_Store a)
      in (promoteAuthorityPending ord currentHeight (a\<lparr>ga_Store := store\<rparr>), promoted))"

definition voterAddrs :: "AuthorityVote list \<Rightarrow> string list" where
  "voterAddrs votes = map Voter votes"

fun firstNonEmptyMemo :: "AuthorityVote list \<Rightarrow> string" where
  "firstNonEmptyMemo [] = []"
| "firstNonEmptyMemo (v # vs) = (if VMemo v \<noteq> [] then VMemo v else firstNonEmptyMemo vs)"

section \<open>Case analysis of the handlers\<close>

lemma validated_param_stages:
  assumes "ValidateParamSetFields p = None" "CParam c = PS_Param p" "CValue c = PS_Value p" "CEffectiveHeight c = PS_EffectiveHeight p"
  shows "\<exists>s' prior. Stage c s = Inr (s', prior)"
  using assms by (auto simp: ValidateParamSetFields_def Stage_def split: if_splits option.splits)

lemma DebitAndBumpNonce_error: "DebitAndBumpNonce a x n as = (Some e, as') \<Longrightarrow> as' = as"
  by (auto simp: DebitAndBumpNonce_def ChargeAndBumpNonce_def split: if_splits option.splits)

lemma applyParamSet_cases:
  assumes "applyParamSet codec tx h (as, a) = (res, as', a')"
  shows "(\<exists>e. res = Some e \<and> as' = as \<and> a' = a) \<or>
    (\<exists>p s'. res = None \<and> ParseParamSet codec (Payload tx) = Inr p \<and> param_checks p tx h a = None \<and>
       DebitAndBumpNonce (Sender tx) (Fee tx) (TxNonce tx) as = (None, as') \<and>
       Stage \<lparr>CParam = PS_Param p, CValue = PS_Value p, CEffectiveHeight = PS_EffectiveHeight p,
              CSubmittedAtHeight = h, CAuthority = Sender tx, CMemo = PS_Memo p\<rparr> (ga_Store a) =
         Inr (s', fmlookup (ps_pending (ga_Store a)) (PS_Param p)) \<and> a' = a\<lparr>ga_Store := s'\<rparr>)"
proof (cases "\<exists>p. ParseParamSet codec (Payload tx) = Inr p \<and> param_checks p tx h a = None")
  case True
  then obtain p where p: "ParseParamSet codec (Payload tx) = Inr p" "param_checks p tx h a = None" by blast
  let ?c = "\<lparr>CParam = PS_Param p, CValue = PS_Value p, CEffectiveHeight = PS_EffectiveHeight p,
              CSubmittedAtHeight = h, CAuthority = Sender tx, CMemo = PS_Memo p\<rparr>"
  have "ValidateParamSetFields p = None" using p(2) by (auto simp: param_checks_def split: option.splits)
  then obtain s' prior where st: "Stage ?c (ga_Store a) = Inr (s', prior)" using validated_param_stages by fastforce
  then have prior: "prior = fmlookup (ps_pending (ga_Store a)) (PS_Param p)" by (simp add: Stage_Inr_iff)
  obtain r as1 where d: "DebitAndBumpNonce (Sender tx) (Fee tx) (TxNonce tx) as = (r, as1)" by fastforce
  show ?thesis using assms p st prior d DebitAndBumpNonce_error
    by (cases r) (fastforce simp: applyParamSet_def Let_def)+
next
  case False
  then show ?thesis using assms by (auto simp: applyParamSet_def split: sum.splits option.splits)
qed

lemma applyAuthoritySet_cases:
  assumes "applyAuthoritySet codec tx h (as, a) = (res, as', a')"
  shows "(\<exists>e. res = Some e \<and> as' = as \<and> a' = a) \<or>
    (\<exists>p votes. ParseAuthoritySet codec (Payload tx) = Inr p \<and> authority_checks p tx h a = None \<and>
       DebitAndBumpNonce (Sender tx) (Fee tx) (TxNonce tx) as = (None, as') \<and> ga_AuthorityVotes a = Some votes \<and>
       (let v = \<lparr>Voter = Sender tx, VSubmittedAtHeight = h, VMemo = AS_Memo p\<rparr> in
        (\<exists>e. RecordVote (vote_key p) v (fcard (authoritySet a)) votes = Inl e \<and> res = Some (GovErr e) \<and> a' = a) \<or>
        (\<exists>votes' q c. RecordVote (vote_key p) v (fcard (authoritySet a)) votes = Inr (votes', q, c) \<and> res = None \<and>
           a' = a\<lparr>ga_AuthorityVotes := Some votes'\<rparr>)))"
proof (cases "\<exists>p. ParseAuthoritySet codec (Payload tx) = Inr p \<and> authority_checks p tx h a = None")
  case True
  then obtain p where p: "ParseAuthoritySet codec (Payload tx) = Inr p" "authority_checks p tx h a = None" by blast
  obtain votes where v: "ga_AuthorityVotes a = Some votes"
    using p(2) by (auto simp: authority_checks_def split: option.splits if_splits)
  obtain r as1 where d: "DebitAndBumpNonce (Sender tx) (Fee tx) (TxNonce tx) as = (r, as1)" by fastforce
  show ?thesis
  proof (cases r)
    case None
    then show ?thesis using assms p v d by (auto simp: applyAuthoritySet_def Let_def split: sum.splits)
  next
    case (Some e)
    then show ?thesis using assms p d DebitAndBumpNonce_error by (fastforce simp: applyAuthoritySet_def)
  qed
next
  case False
  then show ?thesis using assms by (auto simp: applyAuthoritySet_def split: sum.splits option.splits)
qed

lemma ApplyGovTx_dispatch:
  assumes "ApplyGovTx codec tx h S = (res, S')"
  shows "(\<exists>e. res = Some e \<and> S' = S) \<or> applyParamSet codec tx h S = (res, S') \<or> applyAuthoritySet codec tx h S = (res, S')"
  using assms by (auto simp: ApplyGovTx_def split: if_splits sum.splits)

lemma authority_checks_ok:
  assumes "authority_checks p tx h a = None"
  shows "Sender tx |\<in>| authoritySet a" "AS_Address p \<noteq> []" "AS_EffectiveHeight p \<noteq> 0"
    "\<not> fle (Fee tx) fzero" "AS_Op p = AuthorityOpAdd \<or> AS_Op p = AuthorityOpRemove"
  using assms by (auto simp: authority_checks_def ValidateAuthoritySetFields_def split: option.splits if_splits)

end
