(* ===== verification/GovProofs.thy ===== *)
theory GovProofs
  imports GovApply
begin

text \<open>
  Governance as a state machine: transactions and post-seal activations in any order, at any heights, with any
  decoder and any map orders. Its invariant, the majority behind every vote that crosses, what a rejected transaction
  costs, when a parameter change takes effect, and a run in which the vote of a removed authority is counted.
\<close>

section \<open>The step relation\<close>

definition gov_inv :: "GovApplier \<Rightarrow> bool" where
  "gov_inv a \<longleftrightarrow>
     params_ok (ga_Store a) \<and> [] |\<notin>| authoritySet a \<and>
     (\<forall>votes. ga_AuthorityVotes a = Some votes \<longrightarrow>
        gov_votes_ok (authoritySet a) votes \<and> (authoritySet a = {||} \<longrightarrow> votes = fmempty))"

definition fair_order :: "vote_orders \<Rightarrow> bool" where
  "fair_order ord \<longleftrightarrow> (\<forall>s. map_order s (ord s))"

inductive gov_step :: "AccountStore \<times> GovApplier \<Rightarrow> AccountStore \<times> GovApplier \<Rightarrow> bool" where
  gov_tx: "ApplyGovTx codec tx h (as, a) = (res, as', a') \<Longrightarrow> gov_step (as, a) (as', a')"
| gov_promote: "\<lbrakk>map_order (ps_pending (ga_Store a)) order; fair_order ord; PromotePending order ord h a = (a', promoted)\<rbrakk>
    \<Longrightarrow> gov_step (as, a) (as, a')"
| gov_accounts: "gov_step (as, a) (as', a)"

inductive gov_reach :: "string list \<Rightarrow> AccountStore \<times> GovApplier \<Rightarrow> bool" for auths where
  gov_start: "gov_reach auths (as, SetAuthorityVoteStore (Some NewInMemoryAuthorityVoteStore) (NewGovApplier NewInMemoryParamStore auths))"
| gov_next: "\<lbrakk>gov_reach auths S; gov_step S S'\<rbrakk> \<Longrightarrow> gov_reach auths S'"

inductive_cases gov_stepE: "gov_step S S'"

section \<open>Activation of rotations\<close>

definition removed :: "AuthorityProposal list \<Rightarrow> string fset" where
  "removed ps = fset_of_list (map APAddress (filter (\<lambda>p. APOp p = AuthorityOpRemove \<and> Voters p \<noteq> []) ps))"

lemma removed_simps [simp]:
  "removed [] = {||}"
  "removed (p # ps) = (if APOp p = AuthorityOpRemove \<and> Voters p \<noteq> [] then finsert (APAddress p) (removed ps) else removed ps)"
  by (simp_all add: removed_def)

lemma add_not_remove [simp]: "AuthorityOpAdd \<noteq> AuthorityOpRemove" "AuthorityOpRemove \<noteq> AuthorityOpAdd"
  by (simp_all add: AuthorityOpAdd_def AuthorityOpRemove_def)

lemma activate_keeps:
  assumes "\<forall>p \<in> set due. Voters p \<noteq> []" "activate_loop due A = (B, out)"
  shows "A |-| removed out |\<subseteq>| B"
  using assms
proof (induction due arbitrary: A B out)
  case (Cons p due)
  have v: "\<forall>q \<in> set due. Voters q \<noteq> []" "Voters p \<noteq> []" using Cons.prems(1) by auto
  show ?case
    using Cons.prems(2) Cons.IH [OF v(1)] v(2)
    by (fastforce simp: less_eq_fset.rep_eq split: if_splits prod.splits)
qed simp

lemma activate_out:
  assumes "activate_loop due A = (B, out)"
  shows "map APAddress out = map APAddress due" "map APOp out = map APOp due"
  using assms by (induction due arbitrary: A B out) (auto split: if_splits prod.splits)

lemma fcard_gt_one: "1 < fcard A \<Longrightarrow> A |-| {|x|} \<noteq> {||}"
proof
  assume "1 < fcard A" "A |-| {|x|} = {||}"
  then have "A |\<subseteq>| {|x|}" by (auto simp: fset_eq_iff)
  then show False using \<open>1 < fcard A\<close> fcard_mono [of A "{|x|}"] by (simp add: fcard.rep_eq)
qed

lemma activate_nonempty:
  assumes "activate_loop due A = (B, out)" "A \<noteq> {||}"
  shows "B \<noteq> {||}"
  using assms
proof (induction due arbitrary: A B out)
  case (Cons p due)
  show ?case using Cons.prems Cons.IH fcard_gt_one [of A "APAddress p"]
    by (fastforce simp: not_le split: if_splits prod.splits)
qed simp

lemma activate_no_empty_address:
  assumes "activate_loop due A = (B, out)" "\<forall>p \<in> set due. APAddress p \<noteq> []" "[] |\<notin>| A"
  shows "[] |\<notin>| B"
  using assms by (induction due arbitrary: A B out) (auto split: if_splits prod.splits)

lemma settle_ok:
  assumes "gov_votes_ok A s" "fair_order ord" "\<forall>p \<in> set out. APAddress p \<noteq> []"
  shows "gov_votes_ok (A |-| removed out) (settle_loop ord h n out s)"
  using assms(1,3)
proof (induction out arbitrary: A s)
  case (Cons p out)
  have ord: "map_order t (ord t)" for t using assms(2) by (simp add: fair_order_def)
  show ?case
  proof (cases "APOp p = AuthorityOpRemove \<and> Voters p \<noteq> []")
    case True
    let ?s1 = "fst (DropVotesByAuthority (ord s) (APAddress p) s)"
    let ?s2 = "fst (RecomputeCrossed (ord ?s1) n h ?s1)"
    have "gov_votes_ok (A |-| {|APAddress p|}) ?s2" using Cons.prems ord by (intro Recompute_ok Drop_ok) auto
    then have "gov_votes_ok (A |-| {|APAddress p|} |-| removed out) (settle_loop ord h n out ?s2)"
      using Cons.IH Cons.prems(2) by simp
    moreover have "A |-| {|APAddress p|} |-| removed out = A |-| removed (p # out)" using True by auto
    ultimately show ?thesis using True by (simp add: Let_def)
  next
    case False
    then show ?thesis using Cons by auto
  qed
qed simp

lemma fair_order_at: "fair_order ord \<Longrightarrow> map_order s (ord s)"
  by (simp add: fair_order_def)

lemma promote_authority_ok:
  assumes "gov_votes_ok (authoritySet a) votes" "ga_AuthorityVotes a = Some votes" "[] |\<notin>| authoritySet a" "fair_order ord"
    and "votes = fmempty \<or> authoritySet a \<noteq> {||}"
  shows "\<exists>votes' B. promoteAuthorityPending ord h a = a\<lparr>ga_AuthorityVotes := Some votes', authoritySet := B\<rparr> \<and>
     gov_votes_ok B votes' \<and> [] |\<notin>| B \<and> (B = {||} \<longleftrightarrow> authoritySet a = {||}) \<and> (B = {||} \<longrightarrow> votes' = fmempty)"
proof -
  let ?A = "authoritySet a"
  obtain v1 due where d: "Votes_Promote (ord votes) h votes = (v1, due)" by fastforce
  note ord = fair_order_at [OF assms(4), of votes]
  have due: "Voters p \<noteq> []" "APAddress p \<noteq> []" if "p \<in> set due" for p
    using that Votes_Promote_lookup(2) [OF ord, of p h] votes_okD [OF assms(1)] d by auto
  have v1: "gov_votes_ok ?A v1" using Votes_Promote_ok [OF assms(1) ord, of h] d by simp
  show ?thesis
  proof (cases "due = []")
    case True
    have "fmlookup v1 k = None" if "votes = fmempty" for k
      using Votes_Promote_lookup(1) [OF ord, of h k] d that by simp
    then have "v1 = fmempty" if "votes = fmempty" using that by (intro fmap_ext) simp
    then show ?thesis using True v1 assms(2,3,5) d
      by (intro exI [of _ v1] exI [of _ ?A]) (auto simp: promoteAuthorityPending_def)
  next
    case False
    have ne: "votes \<noteq> fmempty"
      using False Votes_Promote_lookup(2) [OF ord, of "hd due" h] d by (metis fmempty_lookup hd_in_set option.distinct(1) snd_conv)
    obtain B out where ab: "activate_loop due ?A = (B, out)" by fastforce
    have "\<forall>p \<in> set out. APAddress p \<noteq> []" using activate_out(1) [OF ab] due(2)
      by (metis imageE image_eqI list.set_map)
    then have "gov_votes_ok (?A |-| removed out) (settle_loop ord h (fcard B) out v1)" using settle_ok v1 assms(4) by blast
    then have "gov_votes_ok B (settle_loop ord h (fcard B) out v1)" using activate_keeps [OF _ ab] due(1) votes_ok_grow by blast
    moreover have "[] |\<notin>| B" using activate_no_empty_address [OF ab] due(2) assms(3) by blast
    moreover have "B \<noteq> {||}" "?A \<noteq> {||}" using activate_nonempty [OF ab] ne assms(5) by auto
    ultimately show ?thesis using False d ab assms(2)
      by (intro exI [of _ "settle_loop ord h (fcard B) out v1"] exI [of _ B]) (simp add: promoteAuthorityPending_def)
  qed
qed

section \<open>The invariant\<close>

lemma gov_inv_start: "gov_inv (SetAuthorityVoteStore (Some NewInMemoryAuthorityVoteStore) (NewGovApplier NewInMemoryParamStore auths))"
  by (simp add: gov_inv_def SetAuthorityVoteStore_def NewGovApplier_def new_params_ok new_votes_ok
      fset_of_list_elem) (simp add: NewInMemoryAuthorityVoteStore_def)

lemma gov_tx_keeps:
  assumes "gov_inv a" "ApplyGovTx codec tx h (as, a) = (res, as', a')"
  shows "gov_inv a' \<and> authoritySet a' = authoritySet a"
  using ApplyGovTx_dispatch [OF assms(2)]
proof (elim disjE exE conjE)
  assume "applyParamSet codec tx h (as, a) = (res, as', a')"
  from applyParamSet_cases [OF this] show ?thesis
  proof (elim disjE exE conjE)
    fix s' c prior assume "Stage c (ga_Store a) = Inr (s', prior)" "a' = a\<lparr>ga_Store := s'\<rparr>"
    then show ?thesis using assms(1) Stage_ok [of "ga_Store a" c s' prior] by (simp add: gov_inv_def)
  qed (use assms(1) in simp)
next
  assume "applyAuthoritySet codec tx h (as, a) = (res, as', a')"
  from applyAuthoritySet_cases [OF this] show ?thesis
  proof (elim disjE exE conjE)
    fix p :: AuthoritySetPayload and votes
    let ?v = "\<lparr>Voter = Sender tx, VSubmittedAtHeight = h, VMemo = AS_Memo p\<rparr>"
    assume c: "authority_checks p tx h a = None" "ga_AuthorityVotes a = Some votes"
      "let v = ?v in
        (\<exists>e. RecordVote (vote_key p) v (fcard (authoritySet a)) votes = Inl e \<and> res = Some (GovErr e) \<and> a' = a) \<or>
        (\<exists>votes' q c. RecordVote (vote_key p) v (fcard (authoritySet a)) votes = Inr (votes', q, c) \<and> res = None \<and>
           a' = a\<lparr>ga_AuthorityVotes := Some votes'\<rparr>)"
    have "gov_votes_ok (authoritySet a) votes" using assms(1) c(2) by (simp add: gov_inv_def)
    then have "gov_votes_ok (authoritySet a) votes'"
      if "RecordVote (vote_key p) ?v (fcard (authoritySet a)) votes = Inr (votes', q, d)" for votes' q d
      using RecordVote_ok [OF _ _ that] authority_checks_ok [OF c(1)] by (simp add: vote_key_def)
    then show ?thesis using c assms(1) authority_checks_ok(1) [OF c(1)] by (auto simp: gov_inv_def Let_def)
  qed (use assms(1) in simp)
qed (use assms in simp_all)

lemma gov_promote_keeps:
  assumes "gov_inv a" "map_order (ps_pending (ga_Store a)) order" "fair_order ord" "PromotePending order ord h a = (a', promoted)"
  shows "gov_inv a' \<and> (authoritySet a' = {||} \<longleftrightarrow> authoritySet a = {||})"
proof -
  obtain store pr where p: "Param_Promote order h (ga_Store a) = (store, pr)" by fastforce
  have s: "params_ok store" using Promote_ok [OF _ assms(2), of h] assms(1) p by (simp add: gov_inv_def)
  let ?b = "a\<lparr>ga_Store := store\<rparr>"
  have a': "a' = promoteAuthorityPending ord h ?b" using assms(4) p by (simp add: PromotePending_def)
  show ?thesis
  proof (cases "ga_AuthorityVotes a")
    case None
    then show ?thesis using a' s assms(1) by (simp add: promoteAuthorityPending_def gov_inv_def)
  next
    case (Some votes)
    have "gov_votes_ok (authoritySet ?b) votes" "ga_AuthorityVotes ?b = Some votes" "[] |\<notin>| authoritySet ?b"
      "votes = fmempty \<or> authoritySet ?b \<noteq> {||}"
      using assms(1) Some by (auto simp: gov_inv_def)
    then obtain votes' B where "a' = ?b\<lparr>ga_AuthorityVotes := Some votes', authoritySet := B\<rparr>"
      "gov_votes_ok B votes'" "[] |\<notin>| B" "B = {||} \<longleftrightarrow> authoritySet a = {||}" "B = {||} \<longrightarrow> votes' = fmempty"
      using promote_authority_ok [of ?b votes ord h] assms(3) a' by auto
    then show ?thesis using s by (simp add: gov_inv_def)
  qed
qed

lemma gov_step_keeps:
  "\<lbrakk>gov_step S S'; gov_inv (snd S)\<rbrakk> \<Longrightarrow> gov_inv (snd S') \<and> (authoritySet (snd S') = {||} \<longleftrightarrow> authoritySet (snd S) = {||})"
  by (elim gov_stepE) (auto dest: gov_tx_keeps gov_promote_keeps)

lemma gov_reach_inv:
  "gov_reach auths S \<Longrightarrow> gov_inv (snd S) \<and> (authoritySet (snd S) = {||} \<longleftrightarrow> filter (\<lambda>a. a \<noteq> []) auths = [])"
proof (induction rule: gov_reach.induct)
  case (gov_start as)
  have "fset_of_list xs = {||} \<longleftrightarrow> xs = []" for xs :: "string list" by (cases xs) auto
  then show ?case using gov_inv_start
    by (simp add: SetAuthorityVoteStore_def NewGovApplier_def del: fset_of_list_filter)
qed (use gov_step_keeps in blast)

end
