(* ===== verification/GovTheorems.thy ===== *)
theory GovTheorems
  imports GovProofs
begin

text \<open>The properties of governance, and a run of five authorities in which a removed authority still counts.\<close>

section \<open>Casting votes in a run\<close>

definition const_codec :: "ParamSetPayload \<Rightarrow> AuthoritySetPayload \<Rightarrow> string \<Rightarrow> GovCodec" where
  "const_codec p q kind = \<lparr>unmarshal_kind = (\<lambda>_. Some kind), decode_param_set = (\<lambda>_. Some p), decode_authority_set = (\<lambda>_. Some q)\<rparr>"

definition gov_tx_of :: "string \<Rightarrow> u64 \<Rightarrow> Tx" where
  "gov_tx_of who nonce = (transfer who [] fzero (f_int 1) nonce)\<lparr>Payload := [0], TxContractID := GovContractID\<rparr>"

definition funded :: "string \<Rightarrow> AccountStore" where
  "funded who = Credit who (f_int 100) NewAccountStore"

definition sample_param :: ParamSetPayload where
  "sample_param = \<lparr>PS_Kind = PayloadKindParamSet, PS_Param = ParamRewardBPS, PS_Value = 2500, PS_EffectiveHeight = 10, PS_Memo = []\<rparr>"

definition rotation :: "AuthorityOp \<Rightarrow> string \<Rightarrow> u64 \<Rightarrow> AuthoritySetPayload" where
  "rotation op target height =
     \<lparr>AS_Kind = PayloadKindAuthoritySet, AS_Op = op, AS_Address = target, AS_EffectiveHeight = height, AS_Memo = []\<rparr>"

lemma fzero_le_one [simp]: "\<not> fle (f_int (Suc 0)) fzero" "\<not> fless (f_int (Suc 0)) fzero"
  by (simp_all add: fzero_f_int)

lemma funded_debit: "\<exists>as'. DebitAndBumpNonce who (f_int 1) 0 (funded who) = (None, as')"
  by (simp add: DebitAndBumpNonce_def ChargeAndBumpNonce_def funded_def Credit_def NewAccountStore_def new_account_def fzero_f_int)

lemma gov_tx_of_simps [simp]:
  "Sender (gov_tx_of w n) = w" "Fee (gov_tx_of w n) = f_int 1" "TxNonce (gov_tx_of w n) = n" "Payload (gov_tx_of w n) = [0]"
  "TxContractID (gov_tx_of w n) = GovContractID"
  by (simp_all add: gov_tx_of_def)

lemma kinds_differ [simp]: "PayloadKindAuthoritySet \<noteq> PayloadKindParamSet" "PayloadKindParamSet \<noteq> PayloadKindAuthoritySet"
  by (simp_all add: PayloadKindAuthoritySet_def PayloadKindParamSet_def)

lemma vote_applies:
  assumes "ga_AuthorityVotes a = Some votes" "authority_checks q (gov_tx_of w 0) h a = None"
    and "AS_Kind q = PayloadKindAuthoritySet"
    and "RecordVote (vote_key q) \<lparr>Voter = w, VSubmittedAtHeight = h, VMemo = AS_Memo q\<rparr> (fcard (authoritySet a)) votes = Inr (votes', r, c)"
  shows "\<exists>as'. ApplyGovTx (const_codec p q PayloadKindAuthoritySet) (gov_tx_of w 0) h (funded w, a) =
           (None, as', a\<lparr>ga_AuthorityVotes := Some votes'\<rparr>)"
  using assms funded_debit [of w]
  by (auto simp: ApplyGovTx_def GovPeekKind_def const_codec_def applyAuthoritySet_def ParseAuthoritySet_def)

lemma vote_reach:
  assumes "gov_reach auths (as, a)" "ga_AuthorityVotes a = Some votes" "authority_checks q (gov_tx_of w 0) h a = None"
    and "AS_Kind q = PayloadKindAuthoritySet"
    and "RecordVote (vote_key q) \<lparr>Voter = w, VSubmittedAtHeight = h, VMemo = AS_Memo q\<rparr> (fcard (authoritySet a)) votes = Inr (votes', r, c)"
  shows "gov_reach auths (as, a\<lparr>ga_AuthorityVotes := Some votes'\<rparr>)"
proof -
  obtain as' where "ApplyGovTx (const_codec undefined q PayloadKindAuthoritySet) (gov_tx_of w 0) h (funded w, a) =
      (None, as', a\<lparr>ga_AuthorityVotes := Some votes'\<rparr>)"
    using vote_applies [OF assms(2-5)] by blast
  then have "gov_step (funded w, a) (as', a\<lparr>ga_AuthorityVotes := Some votes'\<rparr>)" by (rule gov_tx)
  then show ?thesis using assms(1) gov_accounts gov_next by meson
qed

section \<open>Five authorities\<close>

definition five :: "string fset" where "five = {|''a'', ''b'', ''c'', ''d'', ''e''|}"

definition five_start :: GovApplier where
  "five_start = \<lparr>ga_Store = NewInMemoryParamStore, ga_AuthorityVotes = Some fmempty, authoritySet = five\<rparr>"

definition ballot :: "string \<Rightarrow> AuthorityVote" where
  "ballot who = \<lparr>Voter = who, VSubmittedAtHeight = 5, VMemo = []\<rparr>"

fun cast :: "(string \<times> AuthoritySetPayload) list \<Rightarrow> InMemoryAuthorityVoteStore \<Rightarrow> InMemoryAuthorityVoteStore option" where
  "cast [] s = Some s"
| "cast ((w, q) # vs) s = (case RecordVote (vote_key q) (ballot w) 5 s of Inl e \<Rightarrow> None | Inr (s', r, c) \<Rightarrow> cast vs s')"

lemma fcard_five [simp]: "fcard five = 5"
  by (simp add: five_def fcard.rep_eq)

lemma five_reach: "gov_reach [''a'', ''b'', ''c'', ''d'', ''e''] (as, five_start)"
proof -
  have "five_start = SetAuthorityVoteStore (Some NewInMemoryAuthorityVoteStore) (NewGovApplier NewInMemoryParamStore [''a'', ''b'', ''c'', ''d'', ''e''])"
    by (simp add: five_start_def five_def SetAuthorityVoteStore_def NewGovApplier_def NewInMemoryAuthorityVoteStore_def)
  then show ?thesis using gov_start by metis
qed

definition removal_ok :: "string \<times> AuthoritySetPayload \<Rightarrow> bool" where
  "removal_ok = (\<lambda>(w, q). w |\<in>| five \<and> AS_Address q |\<in>| five \<and> q = rotation AuthorityOpRemove (AS_Address q) 10)"

lemma removal_checks:
  assumes "removal_ok (w, q)" "authoritySet a = five" "ga_AuthorityVotes a \<noteq> None"
  shows "authority_checks q (gov_tx_of w 0) 5 a = None" "AS_Kind q = PayloadKindAuthoritySet" "AS_Memo q = []"
proof -
  define t where "t = AS_Address q"
  have q: "q = rotation AuthorityOpRemove t 10" "t |\<in>| five" "w |\<in>| five" using assms(1) by (auto simp: removal_ok_def t_def)
  have "t = ''a'' \<or> t = ''b'' \<or> t = ''c'' \<or> t = ''d'' \<or> t = ''e''" using q(2) by (simp add: five_def)
  then have "ValidateAuthoritySetFields q = None"
    by (auto simp: q(1) rotation_def ValidateAuthoritySetFields_def MaxAuthorityAddressLen_def GovMaxMemoLen_def
        printable_byte_def less_eq_char_def)
  then show "authority_checks q (gov_tx_of w 0) 5 a = None"
    using assms(2,3) q(2,3) unfolding authority_checks_def
    by (simp add: q(1) rotation_def height_window_def MaxActivationDelay_def)
  show "AS_Kind q = PayloadKindAuthoritySet" "AS_Memo q = []" unfolding q(1) by (simp_all add: rotation_def)
qed

lemma cast_reach:
  assumes "gov_reach auths (as, five_start\<lparr>ga_AuthorityVotes := Some s\<rparr>)" "list_all removal_ok vs" "cast vs s = Some s'"
  shows "gov_reach auths (as, five_start\<lparr>ga_AuthorityVotes := Some s'\<rparr>)"
  using assms
proof (induction vs arbitrary: s)
  case (Cons v vs)
  obtain w q where v: "v = (w, q)" by fastforce
  let ?a = "five_start\<lparr>ga_AuthorityVotes := Some s\<rparr>"
  obtain s1 r c where r: "RecordVote (vote_key q) (ballot w) 5 s = Inr (s1, r, c)" "cast vs s1 = Some s'"
    using Cons.prems(3) v by (auto split: sum.splits prod.splits)
  have ok: "removal_ok (w, q)" "authoritySet ?a = five" "ga_AuthorityVotes ?a \<noteq> None"
    using Cons.prems(2) v by (simp_all add: five_start_def)
  note ck = removal_checks [OF ok]
  have "gov_reach auths (as, ?a\<lparr>ga_AuthorityVotes := Some s1\<rparr>)"
    using vote_reach [OF Cons.prems(1) _ ck(1,2), of s s1 r c] r(1) ck(3) ok(2) by (simp add: ballot_def)
  then show ?case using Cons.IH [of s1] Cons.prems(2) r(2) by simp
qed simp

definition five_votes :: "(string \<times> AuthoritySetPayload) list" where
  "five_votes = map (\<lambda>(w, t). (w, rotation AuthorityOpRemove t 10))
     [(''a'', ''d''), (''b'', ''d''), (''c'', ''d''), (''a'', ''e''), (''b'', ''e''), (''c'', ''e''), (''a'', ''b''), (''e'', ''b'')]"

definition removal_of :: "string \<Rightarrow> string list \<Rightarrow> bool \<Rightarrow> AuthorityProposal" where
  "removal_of t ws crossed = \<lparr>APOp = AuthorityOpRemove, APAddress = t, APEffectiveHeight = 10, Voters = map ballot ws,
     Crossed = crossed, CrossedAtHeight = (if crossed then 5 else 0)\<rparr>"

definition five_tally :: InMemoryAuthorityVoteStore where
  "five_tally = fmap_of_list (map (\<lambda>p. (prop_key p, p))
     [removal_of ''b'' [''a'', ''e''] False, removal_of ''e'' [''a'', ''b'', ''c''] True, removal_of ''d'' [''a'', ''b'', ''c''] True])"

lemma five_cast: "cast five_votes fmempty = Some five_tally"
  unfolding five_votes_def list.map prod.case
  by (simp add: RecordVote_def proposal_at_def new_proposal_def vote_key_def rotation_def Let_def
      ballot_def sortVoters_def vote_before_def AuthorityThreshold_def five_tally_def removal_of_def prop_key_def)

text \<open>The map order of the run lists the three proposals; any other order gives the same result.\<close>

definition five_order :: vote_orders where
  "five_order s = (if s = five_tally then map (\<lambda>t. prop_key (removal_of t [] False)) [''b'', ''e'', ''d''] else sorted_keys s)"

lemma removal_key [simp]:
  "prop_key (removal_of t ws c) = \<lparr>VKOp = AuthorityOpRemove, VKAddress = t, VKEffectiveHeight = 10\<rparr>"
  by (simp add: prop_key_def removal_of_def)

lemma removal_fields [simp]:
  "Voters (removal_of t ws c) = map ballot ws" "Crossed (removal_of t ws c) = c" "APOp (removal_of t ws c) = AuthorityOpRemove"
  "APAddress (removal_of t ws c) = t" "APEffectiveHeight (removal_of t ws c) = 10" "Voter (ballot w) = w"
  by (simp_all add: removal_of_def ballot_def)

lemma five_order_fair: "fair_order five_order"
proof -
  have "map_order five_tally (five_order five_tally)"
    by (auto simp: map_order_def five_order_def five_tally_def fmdom'_alt_def)
  then show ?thesis by (auto simp: fair_order_def five_order_def)
qed

definition removal_key_of :: "string \<Rightarrow> AuthorityVoteKey" where
  "removal_key_of t = \<lparr>VKOp = AuthorityOpRemove, VKAddress = t, VKEffectiveHeight = 10\<rparr>"

lemma removal_key_eq [simp]: "removal_key_of t = removal_key_of u \<longleftrightarrow> t = u"
  by (simp add: removal_key_of_def)

lemma five_lookup:
  "fmlookup five_tally (removal_key_of ''b'') = Some (removal_of ''b'' [''a'', ''e''] False)"
  "fmlookup five_tally (removal_key_of ''e'') = Some (removal_of ''e'' [''a'', ''b'', ''c''] True)"
  "fmlookup five_tally (removal_key_of ''d'') = Some (removal_of ''d'' [''a'', ''b'', ''c''] True)"
  by (simp_all add: five_tally_def removal_key_of_def fmlookup_of_list)

lemma five_order_tally: "five_order five_tally = map removal_key_of [''b'', ''e'', ''d'']"
  by (simp add: five_order_def removal_key_of_def)

lemma five_due:
  "snd (Votes_Promote (five_order five_tally) 10 five_tally) =
     [removal_of ''d'' [''a'', ''b'', ''c''] True, removal_of ''e'' [''a'', ''b'', ''c''] True]"
  unfolding Votes_Promote_def five_order_tally list.map vote_promote_loop.simps Let_def
  by (simp add: five_lookup votes_due_def cloneProposal_def sortProposals_def proposal_before_def)

lemma five_activate:
  "activate_loop [removal_of ''d'' [''a'', ''b'', ''c''] True, removal_of ''e'' [''a'', ''b'', ''c''] True] five =
     ({|''a'', ''b'', ''c''|}, [removal_of ''d'' [''a'', ''b'', ''c''] True, removal_of ''e'' [''a'', ''b'', ''c''] True])"
proof -
  have "five |-| {|''d''|} = {|''a'', ''b'', ''c'', ''e''|}" "{|''a'', ''b'', ''c'', ''e''|} |-| {|''e''|} = {|''a'', ''b'', ''c''|}"
    by (auto simp: five_def)
  moreover have "fcard {|''a'', ''b'', ''c'', ''e''|} = 4" by (simp add: fcard.rep_eq)
  ultimately show ?thesis by (simp add: Let_def)
qed

lemma recompute_open: "fmlookup s k = Some p \<Longrightarrow> \<not> Crossed p \<Longrightarrow> AuthorityThreshold n \<le> length (Voters p) \<Longrightarrow> 0 < AuthorityThreshold n \<Longrightarrow>
    fmlookup (fst (RecomputeCrossed (five_order s) n h s)) k = Some (p\<lparr>Crossed := True, CrossedAtHeight := h\<rparr>)"
  using Recompute_lookup [OF fair_order_at [OF five_order_fair], of s n h k] by (simp add: recompute_entry_def)

lemma crossed_stays:
  assumes "fmlookup s k = Some p" "Crossed p"
  shows "fmlookup (settle_loop five_order h n out s) k = Some p"
  using assms(1)
proof (induction out arbitrary: s)
  case (Cons q out)
  note ord = fair_order_at [OF five_order_fair]
  have "fmlookup (fst (DropVotesByAuthority (five_order s) (APAddress q) s)) k = Some p"
    using Drop_lookup [OF ord, of s "APAddress q" k] Cons.prems assms(2) by (simp add: drop_entry_def)
  then have "fmlookup (fst (RecomputeCrossed (five_order t) n h t)) k = Some p"
    if "t = fst (DropVotesByAuthority (five_order s) (APAddress q) s)" for t
    using Recompute_lookup [OF ord, of t n h k] that assms(2) by (simp add: recompute_entry_def)
  then show ?case using Cons by (simp add: Let_def)
qed simp

text \<open>
  The vote of a removed authority can carry a rotation. In a reachable state of five authorities the removals of d and
  e are decided, and the removal of b is open with two votes of five, those of a and e. The hook that activates the two
  removals tallies the open proposals after each removal, with the final list size, before the votes of the other removed
  authority are dropped: the removal of b becomes decided with the votes of a and of e, who is no longer an
  authority. One of the three remaining authorities has decided alone, although the code says that votes of a revoked
  authority should not count toward future crossings.
\<close>

theorem revoked_vote_counts:
  "\<exists>as a a' promoted votes votes' p q.
     gov_reach [''a'', ''b'', ''c'', ''d'', ''e''] (as, a) \<and> fair_order five_order \<and>
     PromotePending [] five_order 10 a = (a', promoted) \<and>
     ga_AuthorityVotes a = Some votes \<and> fmlookup votes (removal_key_of ''b'') = Some p \<and> \<not> Crossed p \<and>
     authoritySet a' = {|''a'', ''b'', ''c''|} \<and>
     ga_AuthorityVotes a' = Some votes' \<and> fmlookup votes' (removal_key_of ''b'') = Some q \<and> Crossed q \<and>
     map Voter (Voters q) = [''a'', ''e'']"
proof -
  let ?a = "five_start\<lparr>ga_AuthorityVotes := Some five_tally\<rparr>"
  let ?p = "removal_of ''b'' [''a'', ''e''] False"
  let ?ds = "[removal_of ''d'' [''a'', ''b'', ''c''] True, removal_of ''e'' [''a'', ''b'', ''c''] True]"
  have "list_all removal_ok five_votes" by (simp add: five_votes_def removal_ok_def rotation_def five_def)
  then have r: "gov_reach [''a'', ''b'', ''c'', ''d'', ''e''] (funded [], ?a)"
    using cast_reach [OF _ _ five_cast] five_reach by (simp add: five_start_def)
  note ord = fair_order_at [OF five_order_fair]
  obtain v1 where v1: "Votes_Promote (five_order five_tally) 10 five_tally = (v1, ?ds)"
    using five_due by (metis prod.collapse)
  have b1: "fmlookup v1 (removal_key_of ''b'') = Some ?p"
    using Votes_Promote_lookup(1) [OF ord, of five_tally 10 "removal_key_of ''b''"] v1 five_lookup(1) by (simp add: votes_due_def)
  let ?v2 = "fst (DropVotesByAuthority (five_order v1) ''d'' v1)"
  have "fmlookup ?v2 (removal_key_of ''b'') = Some ?p"
    using Drop_lookup [OF ord, of v1 "''d''" "removal_key_of ''b''"] b1 by (simp add: drop_entry_def)
  then have "fmlookup (fst (RecomputeCrossed (five_order ?v2) 3 10 ?v2)) (removal_key_of ''b'') =
      Some (?p\<lparr>Crossed := True, CrossedAtHeight := 10\<rparr>)"
    by (rule recompute_open) (simp_all add: AuthorityThreshold_def)
  then have c: "fmlookup (settle_loop five_order 10 3 ?ds v1) (removal_key_of ''b'') = Some (?p\<lparr>Crossed := True, CrossedAtHeight := 10\<rparr>)"
    using crossed_stays [of _ _ "?p\<lparr>Crossed := True, CrossedAtHeight := 10\<rparr>" 10 3 "tl ?ds"] by (simp add: Let_def)
  have "fcard {|''a'', ''b'', ''c''|} = 3" by (simp add: fcard.rep_eq)
  then have "PromotePending [] five_order 10 ?a =
      (?a\<lparr>ga_AuthorityVotes := Some (settle_loop five_order 10 3 ?ds v1), authoritySet := {|''a'', ''b'', ''c''|}\<rparr>, [])"
    using v1 five_activate by (simp add: PromotePending_def promoteAuthorityPending_def Param_Promote_def due_changes_def five_start_def)
  then show ?thesis using r five_order_fair five_lookup(1) c
    by (intro exI [of _ "funded []"] exI [of _ ?a] exI conjI) (assumption | simp)+
qed

text \<open>
  C23: In every run of governance, with any transactions, decoders, heights and map orders, every registered parameter has
  an active value within its registered bounds, no authority voted twice for a proposal, open proposals carry
  votes of current authorities only, and the authority list is empty exactly when it was configured empty: rotations
  never disable governance.
\<close>

theorem governance_stays_consistent:
  assumes "gov_reach auths (as, a)"
  shows "(\<forall>n \<in> set ParamNames. \<exists>v spec. ActiveValue n (ga_Store a) = Some v \<and> ParamLookup n = Some spec \<and> MinValue spec \<le> v \<and> v \<le> MaxValue spec) \<and>
    (\<forall>votes k p. ga_AuthorityVotes a = Some votes \<longrightarrow> fmlookup votes k = Some p \<longrightarrow>
       distinct (map Voter (Voters p)) \<and> (\<not> Crossed p \<longrightarrow> (\<forall>v \<in> set (Voters p). IsAuthority (Voter v) a))) \<and>
    (AuthorityList a = [] \<longleftrightarrow> filter (\<lambda>x. x \<noteq> []) auths = [])"
proof (intro conjI ballI allI impI)
  have inv: "gov_inv a" "authoritySet a = {||} \<longleftrightarrow> filter (\<lambda>x. x \<noteq> []) auths = []" using gov_reach_inv [OF assms] by simp_all
  then have p: "params_ok (ga_Store a)" by (simp add: gov_inv_def)
  fix n assume "n \<in> set ParamNames"
  then obtain v where "fmlookup (ps_active (ga_Store a)) n = Some v" using params_ok_dom [OF p] by (metis fmdom'_iff)
  then show "\<exists>v spec. ActiveValue n (ga_Store a) = Some v \<and> ParamLookup n = Some spec \<and> MinValue spec \<le> v \<and> v \<le> MaxValue spec"
    using params_ok_active [OF p, of n v] by (auto simp: ActiveValue_def in_bounds_def CheckBounds_def split: option.splits if_splits)
next
  fix votes k p assume "ga_AuthorityVotes a = Some votes" "fmlookup votes k = Some p"
  then have "gov_votes_ok (authoritySet a) votes" using gov_reach_inv [OF assms] by (simp add: gov_inv_def)
  note v = votes_okD [OF this \<open>fmlookup votes k = Some p\<close>]
  show "distinct (map Voter (Voters p))" by (rule v(2))
  fix w assume "\<not> Crossed p" "w \<in> set (Voters p)"
  then show "IsAuthority (Voter w) a" using v(4) by (auto simp: IsAuthority_def)
next
  have "sorted_list_of_fset A = [] \<longleftrightarrow> A = {||}" for A :: "string fset"
    using fset_inject [of A "{||}"] by (simp add: sorted_list_of_fset.rep_eq)
  then show "AuthorityList a = [] \<longleftrightarrow> filter (\<lambda>x. x \<noteq> []) auths = []"
    using gov_reach_inv [OF assms] by (simp add: AuthorityList_def)
qed

theorem governance_stays_consistent_witness:
  "AuthorityList (five_start\<lparr>ga_AuthorityVotes := Some five_tally\<rparr>) \<noteq> []"
proof -
  have "list_all removal_ok five_votes" by (simp add: five_votes_def removal_ok_def rotation_def five_def)
  then have "gov_reach [''a'', ''b'', ''c'', ''d'', ''e''] (funded [], five_start\<lparr>ga_AuthorityVotes := Some five_tally\<rparr>)"
    using cast_reach [OF _ _ five_cast] five_reach by (simp add: five_start_def)
  from governance_stays_consistent [OF this] show ?thesis by simp
qed

text \<open>
  C24: A rotation is decided by a vote only when a strict majority of the current authorities has voted for
  it. If a transaction turns an undecided proposal into a decided one, then all its voters are on the authority list and
  they are more than half of it. The transaction itself never changes the list.
\<close>

theorem deciding_vote_is_majority:
  assumes "gov_reach auths (as, a)" "ApplyGovTx codec tx h (as, a) = (None, as', a')"
    and "ga_AuthorityVotes a = Some votes" "ga_AuthorityVotes a' = Some votes'"
    and "fmlookup votes' k = Some p" "Crossed p" "\<forall>q. fmlookup votes k = Some q \<longrightarrow> \<not> Crossed q"
  shows "authoritySet a' = authoritySet a \<and> Voter ` set (Voters p) \<subseteq> fset (authoritySet a) \<and>
     fcard (authoritySet a) < 2 * card (Voter ` set (Voters p)) \<and> CrossedAtHeight p = h"
proof -
  have inv: "gov_inv a" using gov_reach_inv [OF assms(1)] by simp
  have A: "authoritySet a' = authoritySet a" using gov_tx_keeps [OF inv assms(2)] by simp
  have "applyParamSet codec tx h (as, a) = (None, as', a') \<Longrightarrow> ga_AuthorityVotes a' = ga_AuthorityVotes a"
    using applyParamSet_cases by fastforce
  then have "applyAuthoritySet codec tx h (as, a) = (None, as', a')"
    using ApplyGovTx_dispatch [OF assms(2)] assms(3-7) by auto
  then obtain q e votes1 c where q: "authority_checks q tx h a = None" "ga_AuthorityVotes a' = Some votes1"
      "RecordVote (vote_key q) \<lparr>Voter = Sender tx, VSubmittedAtHeight = h, VMemo = AS_Memo q\<rparr> (fcard (authoritySet a)) votes =
         Inr (votes1, e, c)"
    using applyAuthoritySet_cases [of codec tx h as a None as' a'] assms(3) by (auto simp: Let_def)
  note r = RecordVote_cases [OF q(3)]
  have k: "k = vote_key q" "e = p"
    using r q(2) assms(4-7) by (auto split: if_splits)
  have ok: "gov_votes_ok (authoritySet a) votes" using inv assms(3) by (simp add: gov_inv_def)
  have "\<not> Crossed (proposal_at k votes)" using assms(7) by (auto simp: proposal_at_def new_proposal_def split: option.splits)
  then have c: "c" using r k assms(6) by blast
  then have q3: "RecordVote (vote_key q) \<lparr>Voter = Sender tx, VSubmittedAtHeight = h, VMemo = AS_Memo q\<rparr> (fcard (authoritySet a)) votes =
         Inr (votes1, p, True)" using q(3) k by simp
  have "Voter \<lparr>Voter = Sender tx, VSubmittedAtHeight = h, VMemo = AS_Memo q\<rparr> |\<in>| authoritySet a"
    using authority_checks_ok(1) [OF q(1)] by simp
  from RecordVote_majority [OF ok this q3] have "Voter ` set (Voters p) \<subseteq> fset (authoritySet a) \<and>
     fcard (authoritySet a) < 2 * card (Voter ` set (Voters p))" .
  moreover have "CrossedAtHeight p = h" using r c k by simp
  ultimately show ?thesis using A by blast
qed

definition two_votes :: InMemoryAuthorityVoteStore where
  "two_votes = fmupd (removal_key_of ''d'') (removal_of ''d'' [''a'', ''b''] False) fmempty"

lemma two_cast:
  "cast [(''a'', rotation AuthorityOpRemove ''d'' 10), (''b'', rotation AuthorityOpRemove ''d'' 10)] fmempty = Some two_votes"
  by (simp add: RecordVote_def proposal_at_def new_proposal_def vote_key_def rotation_def Let_def
      ballot_def sortVoters_def vote_before_def AuthorityThreshold_def two_votes_def removal_of_def removal_key_of_def)

lemma two_reach: "gov_reach [''a'', ''b'', ''c'', ''d'', ''e''] (as, five_start\<lparr>ga_AuthorityVotes := Some two_votes\<rparr>)"
  using cast_reach [OF _ _ two_cast] five_reach by (simp add: five_start_def removal_ok_def rotation_def five_def)

theorem deciding_vote_is_majority_witness:
  "\<exists>as' votes' p. ApplyGovTx (const_codec sample_param (rotation AuthorityOpRemove ''d'' 10) PayloadKindAuthoritySet)
       (gov_tx_of ''c'' 0) 5 (funded ''c'', five_start\<lparr>ga_AuthorityVotes := Some two_votes\<rparr>) =
       (None, as', five_start\<lparr>ga_AuthorityVotes := Some votes'\<rparr>) \<and>
     fmlookup votes' (removal_key_of ''d'') = Some p \<and> 5 < 2 * card (Voter ` set (Voters p))"
proof -
  let ?a = "five_start\<lparr>ga_AuthorityVotes := Some two_votes\<rparr>" and ?q = "rotation AuthorityOpRemove ''d'' 10"
  let ?p = "removal_of ''d'' [''a'', ''b'', ''c''] True"
  have ck: "authority_checks ?q (gov_tx_of ''c'' 0) 5 ?a = None"
    by (rule removal_checks(1)) (simp_all add: removal_ok_def rotation_def five_def five_start_def)
  have rv: "RecordVote (vote_key ?q) \<lparr>Voter = ''c'', VSubmittedAtHeight = 5, VMemo = AS_Memo ?q\<rparr> (fcard (authoritySet ?a)) two_votes =
      Inr (fmupd (removal_key_of ''d'') ?p two_votes, ?p, True)"
    by (simp add: RecordVote_def proposal_at_def vote_key_def rotation_def Let_def ballot_def sortVoters_def
        vote_before_def AuthorityThreshold_def two_votes_def removal_of_def removal_key_of_def five_start_def)
  obtain as' where ap: "ApplyGovTx (const_codec sample_param ?q PayloadKindAuthoritySet) (gov_tx_of ''c'' 0) 5 (funded ''c'', ?a) =
       (None, as', ?a\<lparr>ga_AuthorityVotes := Some (fmupd (removal_key_of ''d'') ?p two_votes)\<rparr>)"
    using vote_applies [OF _ ck _ rv] by (auto simp: rotation_def)
  have "fcard (authoritySet ?a) < 2 * card (Voter ` set (Voters ?p))"
    using deciding_vote_is_majority [OF two_reach ap, of two_votes _ "removal_key_of ''d''" ?p]
    by (simp add: two_votes_def)
  then show ?thesis using ap by (simp add: five_start_def)
qed

lemma charge_changes: "DebitAndBumpNonce x y z as = (None, as') \<Longrightarrow> as' \<noteq> as"
proof
  assume d: "DebitAndBumpNonce x y z as = (None, as')" "as' = as"
  then obtain acc where acc: "fmlookup as x = Some acc" "as = fmupd x (acc\<lparr>Balance := fsub (Balance acc) y, Nonce := Nonce acc + 1\<rparr>) as"
    by (auto simp: DebitAndBumpNonce_def ChargeAndBumpNonce_def split: if_splits option.splits)
  have "fmlookup as x = Some (acc\<lparr>Balance := fsub (Balance acc) y, Nonce := Nonce acc + 1\<rparr>)"
    using arg_cong [OF acc(2), of "\<lambda>m. fmlookup m x"] by simp
  then have "Nonce acc = Nonce (acc\<lparr>Balance := fsub (Balance acc) y, Nonce := Nonce acc + 1\<rparr>)" using acc(1) by simp
  then show False by simp
qed

lemma early_not_duplicate:
  "GovPeekKind codec raw \<noteq> Inl GErrDuplicateVote" "ParseParamSet codec raw \<noteq> Inl GErrDuplicateVote"
  "ParseAuthoritySet codec raw \<noteq> Inl GErrDuplicateVote" "param_checks p tx h a \<noteq> Some GErrDuplicateVote"
  "authority_checks q tx h a \<noteq> Some GErrDuplicateVote" "Stage c s \<noteq> Inl GErrDuplicateVote"
  by (auto simp: GovPeekKind_def ParseParamSet_def ParseAuthoritySet_def param_checks_def authority_checks_def Stage_def
      ValidateParamSetFields_def ValidateAuthoritySetFields_def CheckBounds_def height_window_def split: option.splits)

lemma duplicate_only_after_charge:
  assumes "ApplyGovTx codec tx h (as, a) = (Some (GovErr GErrDuplicateVote), as', a')"
  shows "DebitAndBumpNonce (Sender tx) (Fee tx) (TxNonce tx) as = (None, as')"
  using assms early_not_duplicate DebitAndBumpNonce_error
  by (fastforce simp: ApplyGovTx_def applyParamSet_def applyAuthoritySet_def Let_def split: if_splits sum.splits option.splits prod.splits)

lemma RecordVote_error: "\<lbrakk>RecordVote k v n s = Inl e; Voter v \<noteq> []\<rbrakk> \<Longrightarrow> e = GErrDuplicateVote"
  by (auto simp: RecordVote_def Let_def split: if_splits)

lemma gov_rejection:
  assumes "gov_inv a" "ApplyGovTx codec tx h (as, a) = (Some e, as', a')"
  shows "a' = a \<and> (as' = as \<or> e = GovErr GErrDuplicateVote)"
  using ApplyGovTx_dispatch [OF assms(2)]
proof (elim disjE exE conjE)
  assume "applyAuthoritySet codec tx h (as, a) = (Some e, as', a')"
  from applyAuthoritySet_cases [OF this] show ?thesis
  proof (elim disjE exE conjE)
    fix p votes assume c: "authority_checks p tx h a = None" "let v = \<lparr>Voter = Sender tx, VSubmittedAtHeight = h, VMemo = AS_Memo p\<rparr> in
        (\<exists>ea. RecordVote (vote_key p) v (fcard (authoritySet a)) votes = Inl ea \<and> Some e = Some (GovErr ea) \<and> a' = a) \<or>
        (\<exists>votes' q c. RecordVote (vote_key p) v (fcard (authoritySet a)) votes = Inr (votes', q, c) \<and> Some e = None \<and>
           a' = a\<lparr>ga_AuthorityVotes := Some votes'\<rparr>)"
    have "Sender tx \<noteq> []" using authority_checks_ok(1) [OF c(1)] assms(1) by (auto simp: gov_inv_def)
    then show ?thesis using c(2) by (auto simp: Let_def dest: RecordVote_error)
  qed simp
qed (use applyParamSet_cases [of codec tx h as a "Some e" as' a'] in auto)

text \<open>
  What a rejected governance transaction costs. The parameter store, the tally and the authority list are unchanged, and so
  are the accounts, with one exception: an authority that votes twice for the same proposal is charged the fee
  and its nonce advances although the transaction is rejected. Every duplicate vote that passes the other
  checks is such a case. The block producer leaves a rejected transaction out of the block, so nodes that replay
  the block do not charge it.
\<close>

theorem duplicate_vote_charges_the_rejected:
  assumes "gov_reach auths (as, a)" "ApplyGovTx codec tx h (as, a) = (Some e, as', a')"
  shows "a' = a \<and> (as' = as \<longleftrightarrow> e \<noteq> GovErr GErrDuplicateVote) \<and>
         (as' \<noteq> as \<longrightarrow> DebitAndBumpNonce (Sender tx) (Fee tx) (TxNonce tx) as = (None, as'))"
proof -
  have "a' = a \<and> (as' = as \<or> e = GovErr GErrDuplicateVote)"
    using gov_rejection [OF _ assms(2)] gov_reach_inv [OF assms(1)] by simp
  then show ?thesis using duplicate_only_after_charge charge_changes assms(2) by blast
qed

theorem duplicate_vote_charges_the_rejected_witness:
  "\<exists>as'. ApplyGovTx (const_codec sample_param (rotation AuthorityOpRemove ''d'' 10) PayloadKindAuthoritySet)
       (gov_tx_of ''a'' 0) 5 (funded ''a'', five_start\<lparr>ga_AuthorityVotes := Some two_votes\<rparr>) =
       (Some (GovErr GErrDuplicateVote), as', five_start\<lparr>ga_AuthorityVotes := Some two_votes\<rparr>) \<and> as' \<noteq> funded ''a''"
proof -
  let ?a = "five_start\<lparr>ga_AuthorityVotes := Some two_votes\<rparr>" and ?q = "rotation AuthorityOpRemove ''d'' 10"
  have ck: "authority_checks ?q (gov_tx_of ''a'' 0) 5 ?a = None"
    by (rule removal_checks(1)) (simp_all add: removal_ok_def rotation_def five_def five_start_def)
  have rv: "RecordVote (vote_key ?q) \<lparr>Voter = ''a'', VSubmittedAtHeight = 5, VMemo = AS_Memo ?q\<rparr> (fcard (authoritySet ?a)) two_votes =
      Inl GErrDuplicateVote"
    by (simp add: RecordVote_def proposal_at_def vote_key_def rotation_def Let_def two_votes_def removal_key_of_def)
  obtain as' where ap: "ApplyGovTx (const_codec sample_param ?q PayloadKindAuthoritySet) (gov_tx_of ''a'' 0) 5 (funded ''a'', ?a) =
       (Some (GovErr GErrDuplicateVote), as', ?a)"
    using ck rv funded_debit [of "''a''"]
    by (auto simp: ApplyGovTx_def GovPeekKind_def const_codec_def applyAuthoritySet_def ParseAuthoritySet_def rotation_def)
  then show ?thesis using duplicate_vote_charges_the_rejected [OF two_reach ap] by auto
qed

text \<open>
  Governance steps that leave one parameter alone: every transaction except an accepted change of it, whichever its outcome,
  activations at the heights that \<open>P\<close> allows, and everything other components do to the accounts.
\<close>

definition changes_param :: "GovCodec \<Rightarrow> Tx \<Rightarrow> string \<Rightarrow> bool" where
  "changes_param codec tx n \<longleftrightarrow>
     GovPeekKind codec (Payload tx) = Inr PayloadKindParamSet \<and> (\<exists>p. ParseParamSet codec (Payload tx) = Inr p \<and> PS_Param p = n)"

inductive quiet_step :: "string \<Rightarrow> (u64 \<Rightarrow> bool) \<Rightarrow> AccountStore \<times> GovApplier \<Rightarrow> AccountStore \<times> GovApplier \<Rightarrow> bool" for n P where
  quiet_tx: "\<lbrakk>ApplyGovTx codec tx h (as, a) = (res, as', a'); res \<noteq> None \<or> \<not> changes_param codec tx n\<rbrakk> \<Longrightarrow> quiet_step n P (as, a) (as', a')"
| quiet_promote: "\<lbrakk>map_order (ps_pending (ga_Store a)) order; PromotePending order ord h a = (a', promoted); P h\<rbrakk>
    \<Longrightarrow> quiet_step n P (as, a) (as, a')"
| quiet_accounts: "quiet_step n P (as, a) (as', a)"

lemma promotion_lookup:
  assumes "map_order (ps_pending (ga_Store a)) order" "PromotePending order ord h a = (a', promoted)"
  shows "ActiveValue n (ga_Store a') =
      (case PendingChange n (ga_Store a) of None \<Rightarrow> ActiveValue n (ga_Store a)
       | Some c \<Rightarrow> if CEffectiveHeight c \<le> h \<and> ParamLookup n \<noteq> None then Some (CValue c) else ActiveValue n (ga_Store a))"
    and "PendingChange n (ga_Store a') =
      (case PendingChange n (ga_Store a) of None \<Rightarrow> None | Some c \<Rightarrow> if CEffectiveHeight c \<le> h then None else Some c)"
proof -
  obtain store where pr: "Param_Promote order h (ga_Store a) = (store, promoted)" and a': "ga_Store a' = store"
    using assms(2) by (auto simp: PromotePending_def promoteAuthorityPending_def Let_def split: prod.splits option.splits if_splits)
  note look = Promote_lookup [OF assms(1) pr, of n]
  show "ActiveValue n (ga_Store a') =
      (case PendingChange n (ga_Store a) of None \<Rightarrow> ActiveValue n (ga_Store a)
       | Some c \<Rightarrow> if CEffectiveHeight c \<le> h \<and> ParamLookup n \<noteq> None then Some (CValue c) else ActiveValue n (ga_Store a))"
    using look(1) by (auto simp: a' ActiveValue_def PendingChange_def split: option.split)
  show "PendingChange n (ga_Store a') =
      (case PendingChange n (ga_Store a) of None \<Rightarrow> None | Some c \<Rightarrow> if CEffectiveHeight c \<le> h then None else Some c)"
    using look(2) by (simp add: a' PendingChange_def)
qed

lemma other_tx_keeps_param:
  assumes "ApplyGovTx codec tx h (as, a) = (res, as', a')" "res \<noteq> None \<or> \<not> changes_param codec tx n"
  shows "ActiveValue n (ga_Store a') = ActiveValue n (ga_Store a) \<and> PendingChange n (ga_Store a') = PendingChange n (ga_Store a)"
  using ApplyGovTx_dispatch [OF assms(1)]
proof (elim disjE exE conjE)
  assume ps: "applyParamSet codec tx h (as, a) = (res, as', a')"
  show ?thesis
  proof (cases "GovPeekKind codec (Payload tx) = Inr PayloadKindParamSet")
    case True
    from applyParamSet_cases [OF ps] show ?thesis
      using assms(2) True by (auto simp: changes_param_def ActiveValue_def PendingChange_def Stage_Inr_iff)
  next
    case False
    then have "applyAuthoritySet codec tx h (as, a) = (res, as', a') \<or> a' = a"
      using assms(1) by (auto simp: ApplyGovTx_def split: if_splits sum.splits)
    then show ?thesis by (auto dest!: applyAuthoritySet_cases simp: Let_def)
  qed
qed (auto dest!: applyAuthoritySet_cases simp: Let_def)

lemma quiet_keeps_param:
  assumes "(quiet_step n P)\<^sup>*\<^sup>* S S'" "\<forall>c h. PendingChange n (ga_Store (snd S)) = Some c \<longrightarrow> P h \<longrightarrow> h < CEffectiveHeight c"
  shows "ActiveValue n (ga_Store (snd S')) = ActiveValue n (ga_Store (snd S)) \<and>
    PendingChange n (ga_Store (snd S')) = PendingChange n (ga_Store (snd S))"
  using assms(1)
proof (induction rule: rtranclp_induct)
  case (step T U)
  from step(2) show ?case
  proof cases
    case (quiet_tx codec tx h as a res as' a')
    then show ?thesis using other_tx_keeps_param [OF quiet_tx(3,4)] step.IH by simp
  next
    case (quiet_promote a order ord h a' promoted as)
    then show ?thesis
      using promotion_lookup [OF quiet_promote(3,4), of n] step.IH assms(2)
      by (cases "PendingChange n (ga_Store (snd S))") (auto simp: not_le [symmetric])
  qed (use step.IH in simp)
qed simp

text \<open>
  C25: A parameter change takes effect at its height. A proposal accepted at height \<open>h\<close> comes from an authority, lies within the
  registered bounds and names a height from \<open>h\<close> to \<open>h + 86400\<close> (as \<open>uint64\<close>). Through any run of transactions and activations below the
  effective height that holds no further accepted change of the same parameter, the proposal stays pending with its value, height and author
  and the old value stays active. The first activation at or after the effective height makes exactly its value active and leaves
  nothing pending; every other registered parameter changes there only if its own pending change is due, and then to that value. From then on
  the value stays until another change of the parameter is accepted. The map orders are free.
\<close>

theorem parameter_change_takes_effect:
  assumes "GovPeekKind codec (Payload tx) = Inr PayloadKindParamSet" "ApplyGovTx codec tx h (as, a) = (None, as', a')"
    and "ParseParamSet codec (Payload tx) = Inr p"
    and "(quiet_step (PS_Param p) (\<lambda>k. k < PS_EffectiveHeight p))\<^sup>*\<^sup>* (as', a') (as2, a2)"
    and "map_order (ps_pending (ga_Store a2)) order" "PromotePending order ord h' a2 = (a3, promoted)" "PS_EffectiveHeight p \<le> h'"
    and "(quiet_step (PS_Param p) (\<lambda>_. True))\<^sup>*\<^sup>* (as3, a3) (as4, a4)"
  shows "IsAuthority (Sender tx) a \<and> in_bounds (PS_Param p) (PS_Value p) \<and>
     h \<le> PS_EffectiveHeight p \<and> PS_EffectiveHeight p \<le> h + MaxActivationDelay \<and>
     ActiveValue (PS_Param p) (ga_Store a2) = ActiveValue (PS_Param p) (ga_Store a) \<and>
     PendingChange (PS_Param p) (ga_Store a2) =
       Some \<lparr>CParam = PS_Param p, CValue = PS_Value p, CEffectiveHeight = PS_EffectiveHeight p,
             CSubmittedAtHeight = h, CAuthority = Sender tx, CMemo = PS_Memo p\<rparr> \<and>
     ActiveValue (PS_Param p) (ga_Store a3) = Some (PS_Value p) \<and> PendingChange (PS_Param p) (ga_Store a3) = None \<and>
     (\<forall>n. ParamLookup n \<noteq> None \<longrightarrow> ActiveValue n (ga_Store a3) =
        (case PendingChange n (ga_Store a2) of None \<Rightarrow> ActiveValue n (ga_Store a2)
         | Some c \<Rightarrow> if CEffectiveHeight c \<le> h' then Some (CValue c) else ActiveValue n (ga_Store a2))) \<and>
     ActiveValue (PS_Param p) (ga_Store a4) = Some (PS_Value p) \<and> PendingChange (PS_Param p) (ga_Store a4) = None"
proof -
  let ?n = "PS_Param p"
  let ?c = "\<lparr>CParam = ?n, CValue = PS_Value p, CEffectiveHeight = PS_EffectiveHeight p,
            CSubmittedAtHeight = h, CAuthority = Sender tx, CMemo = PS_Memo p\<rparr>"
  have "applyParamSet codec tx h (as, a) = (None, as', a')" using assms(1,2) by (auto simp: ApplyGovTx_def split: if_splits)
  from applyParamSet_cases [OF this] assms(3) obtain s' where c: "param_checks p tx h a = None" "a' = a\<lparr>ga_Store := s'\<rparr>"
    "Stage ?c (ga_Store a) = Inr (s', fmlookup (ps_pending (ga_Store a)) ?n)" by auto
  have b: "IsAuthority (Sender tx) a" "h \<le> PS_EffectiveHeight p" "PS_EffectiveHeight p \<le> h + MaxActivationDelay"
    using c(1) by (auto simp: param_checks_def height_window_def IsAuthority_def not_less split: option.splits if_splits)
  note st = c(3) [unfolded Stage_Inr_iff, simplified]
  have reg: "ParamLookup ?n \<noteq> None" using st by (auto simp: in_bounds_def split: option.splits)
  have a': "PendingChange ?n (ga_Store a') = Some ?c" "ActiveValue ?n (ga_Store a') = ActiveValue ?n (ga_Store a)"
    using st c(2) by (simp_all add: PendingChange_def ActiveValue_def)
  have a2: "PendingChange ?n (ga_Store a2) = Some ?c" "ActiveValue ?n (ga_Store a2) = ActiveValue ?n (ga_Store a)"
    using quiet_keeps_param [OF assms(4)] a' by simp_all
  note look = promotion_lookup [OF assms(5,6)]
  have a3: "ActiveValue ?n (ga_Store a3) = Some (PS_Value p)" "PendingChange ?n (ga_Store a3) = None"
    using look [of ?n] a2 reg assms(7) by simp_all
  have "ActiveValue ?n (ga_Store a4) = Some (PS_Value p)" "PendingChange ?n (ga_Store a4) = None"
    using quiet_keeps_param [OF assms(8)] a3 by simp_all
  moreover have "ActiveValue n (ga_Store a3) =
        (case PendingChange n (ga_Store a2) of None \<Rightarrow> ActiveValue n (ga_Store a2)
         | Some c \<Rightarrow> if CEffectiveHeight c \<le> h' then Some (CValue c) else ActiveValue n (ga_Store a2))" if "ParamLookup n \<noteq> None" for n
    using look(1) [of n] that by (simp split: option.split)
  ultimately show ?thesis using b st a2 a3 by simp
qed

theorem parameter_change_takes_effect_witness:
  "\<exists>as' a' a2 promoted.
     ApplyGovTx (const_codec sample_param (rotation AuthorityOpRemove ''d'' 10) PayloadKindParamSet) (gov_tx_of ''a'' 0) 5 (funded ''a'', five_start) =
       (None, as', a') \<and>
     PromotePending [ParamRewardBPS] five_order 10 a' = (a2, promoted) \<and> ActiveValue ParamRewardBPS (ga_Store a') = ActiveValue ParamRewardBPS (ga_Store five_start) \<and>
     ActiveValue ParamRewardBPS (ga_Store a2) = Some 2500"
proof -
  let ?c = "const_codec sample_param (rotation AuthorityOpRemove ''d'' 10) PayloadKindParamSet"
  have v: "ValidateParamSetFields sample_param = None"
    by (simp add: ValidateParamSetFields_def sample_param_def CheckBounds_def GovMaxMemoLen_def) (simp add: ParamRewardBPS_def)
  have ck: "param_checks sample_param (gov_tx_of ''a'' 0) 5 five_start = None"
    using v by (simp add: param_checks_def five_start_def height_window_def sample_param_def MaxActivationDelay_def five_def [symmetric])
      (simp add: five_def)
  have pk: "GovPeekKind ?c [0] = Inr PayloadKindParamSet" "ParseParamSet ?c [0] = Inr sample_param"
    by (simp_all add: GovPeekKind_def ParseParamSet_def const_codec_def sample_param_def)
  obtain as' where d: "DebitAndBumpNonce ''a'' (f_int 1) 0 (funded ''a'') = (None, as')" using funded_debit by blast
  define ch where "ch = \<lparr>CParam = ParamRewardBPS, CValue = 2500, CEffectiveHeight = 10, CSubmittedAtHeight = 5, CAuthority = ''a'', CMemo = []\<rparr>"
  let ?s = "NewInMemoryParamStore\<lparr>ps_pending := fmupd ParamRewardBPS ch fmempty\<rparr>"
  let ?a1 = "five_start\<lparr>ga_Store := ?s\<rparr>"
  have st: "Stage ch NewInMemoryParamStore = Inr (?s, None)"
    by (simp add: Stage_def ch_def CheckBounds_def NewInMemoryParamStore_def)
  have ap: "ApplyGovTx ?c (gov_tx_of ''a'' 0) 5 (funded ''a'', five_start) = (None, as', ?a1)"
    using pk ck d st by (simp add: ApplyGovTx_def applyParamSet_def Let_def sample_param_def ch_def five_start_def)
  obtain a2 promoted where p2: "PromotePending [ParamRewardBPS] five_order 10 ?a1 = (a2, promoted)" by fastforce
  have o: "map_order (ps_pending (ga_Store ?a1)) [ParamRewardBPS]" by (simp add: map_order_def fmdom'_alt_def)
  show ?thesis
    using parameter_change_takes_effect [OF _ ap _ rtranclp.rtrancl_refl o p2 _ rtranclp.rtrancl_refl, of sample_param] pk ap p2
    by (auto simp: sample_param_def)
qed

end
