(* ===== verification/Slashing.thy ===== *)
theory Slashing
  imports EnrollmentApply ChainParams
begin

text \<open>
  \<open>pkg/mining/slashing\<close> (payload, validation, verifier dispatch, admission gate, canonical encoding) and
  \<open>pkg/chain/slash_apply.go\<close>: the slash applier over accounts and enrollment registry. Events and metrics are output only.

  An evidence verifier is a value with a kind and a function. The production verifiers read the enrollment registry,
  so the registry is an argument of that function; \<open>reg\<close> is the registry the dispatcher was wired with, which is the
  applier's own registry on the live node. Decoding is an argument.
\<close>

section \<open>types.go and validate.go\<close>

definition SlashContractID :: string where "SlashContractID = ''QSD/slash/v1''"
definition EvidenceKindForgedAttestation :: string where "EvidenceKindForgedAttestation = ''forged-attestation''"
definition EvidenceKindDoubleMining :: string where "EvidenceKindDoubleMining = ''double-mining''"
definition EvidenceKindFreshnessCheat :: string where "EvidenceKindFreshnessCheat = ''freshness-cheat''"

definition AllEvidenceKinds :: "string list" where
  "AllEvidenceKinds = [EvidenceKindForgedAttestation, EvidenceKindDoubleMining, EvidenceKindFreshnessCheat]"

record SlashPayload =
  SP_NodeID :: string
  EvidenceKind :: string
  EvidenceBlob :: bytes
  SlashAmountDust :: u64
  SP_Memo :: string

definition MaxEvidenceLen :: nat where "MaxEvidenceLen = 2 ^ 20"
definition SlashMaxMemoLen :: nat where "SlashMaxMemoLen = 256"
definition SlashMaxNodeIDLen :: nat where "SlashMaxNodeIDLen = 64"

datatype slash_error =
  SErrPayloadDecode | SErrPayloadInvalid | SErrUnknownEvidenceKind | SErrEvidenceVerification | SErrNodeNotEnrolled
| SErrNotSlashTx | SErrEvidenceReplay | SErrFee | SErrEvidenceRaced | SErrAccount account_error | SErrState enroll_error
| SErrMissingVerifier | SErrVerifierKind | SErrStateLookup

definition validKind :: "string \<Rightarrow> bool" where
  "validKind kind = list_ex (\<lambda>k. k = kind) AllEvidenceKinds"

definition ValidateSlashFields :: "SlashPayload \<Rightarrow> string \<Rightarrow> slash_error option" where
  "ValidateSlashFields p sender =
     (if sender = [] then Some SErrPayloadInvalid
      else if SP_NodeID p = [] then Some SErrPayloadInvalid
      else if length (SP_NodeID p) > SlashMaxNodeIDLen then Some SErrPayloadInvalid
      else if \<not> validKind (EvidenceKind p) then Some SErrUnknownEvidenceKind
      else if length (EvidenceBlob p) = 0 then Some SErrPayloadInvalid
      else if length (EvidenceBlob p) > MaxEvidenceLen then Some SErrPayloadInvalid
      else if SlashAmountDust p = 0 then Some SErrPayloadInvalid
      else if length (SP_Memo p) > SlashMaxMemoLen then Some SErrPayloadInvalid
      else None)"

section \<open>codec.go, encoding\<close>

definition EncodeSlashPayload :: "SlashPayload \<Rightarrow> string" where
  "EncodeSlashPayload p = json_object (
     [json_field ''node_id'' (json_string (SP_NodeID p)),
      json_field ''evidence_kind'' (json_string (EvidenceKind p)),
      json_field ''evidence_blob'' (CHR 0x22 # base64 (EvidenceBlob p) @ [CHR 0x22]),
      json_field ''slash_amount_dust'' (show_nat (unat (SlashAmountDust p)))] @
     opt_field (SP_Memo p \<noteq> []) (json_field ''memo'' (json_string (SP_Memo p))))"

section \<open>verifier.go and production.go\<close>

record EvidenceVerifier =
  ev_Kind :: string
  ev_Verify :: "InMemoryState \<Rightarrow> SlashPayload \<Rightarrow> u64 \<Rightarrow> slash_error + u64"

type_synonym Dispatcher = "(string, EvidenceVerifier) fmap"

definition NewDispatcher :: Dispatcher where "NewDispatcher = fmempty"

text \<open>Registering an empty kind or a kind twice panics: \<open>None\<close>.\<close>

definition Dispatcher_Register :: "EvidenceVerifier \<Rightarrow> Dispatcher \<Rightarrow> Dispatcher option" where
  "Dispatcher_Register v d =
     (if ev_Kind v = [] then None
      else if fmlookup d (ev_Kind v) \<noteq> None then None
      else Some (fmupd (ev_Kind v) v d))"

definition Dispatcher_Verify :: "Dispatcher \<Rightarrow> InMemoryState \<Rightarrow> SlashPayload \<Rightarrow> u64 \<Rightarrow> slash_error + u64" where
  "Dispatcher_Verify d reg p currentHeight =
     (case fmlookup d (EvidenceKind p) of None \<Rightarrow> Inl SErrUnknownEvidenceKind | Some v \<Rightarrow> ev_Verify v reg p currentHeight)"

definition Dispatcher_Kinds :: "Dispatcher \<Rightarrow> string list" where
  "Dispatcher_Kinds d = filter (\<lambda>k. fmlookup d k \<noteq> None) AllEvidenceKinds"

definition StubVerifier :: "string \<Rightarrow> EvidenceVerifier" where
  "StubVerifier k = \<lparr>ev_Kind = k, ev_Verify = (\<lambda>_ _ _. Inl SErrEvidenceVerification)\<rparr>"

record ProductionConfig =
  ForgedAttestation :: "EvidenceVerifier option"
  DoubleMining :: "EvidenceVerifier option"
  FreshnessCheat :: "EvidenceVerifier option"

definition ProductionConfig_Validate :: "ProductionConfig \<Rightarrow> slash_error option" where
  "ProductionConfig_Validate cfg =
     (case ForgedAttestation cfg of
        None \<Rightarrow> Some SErrMissingVerifier
      | Some fa \<Rightarrow>
          if ev_Kind fa \<noteq> EvidenceKindForgedAttestation then Some SErrVerifierKind
          else if DoubleMining cfg \<noteq> None \<and> ev_Kind (the (DoubleMining cfg)) \<noteq> EvidenceKindDoubleMining then Some SErrVerifierKind
          else if FreshnessCheat cfg \<noteq> None \<and> ev_Kind (the (FreshnessCheat cfg)) \<noteq> EvidenceKindFreshnessCheat then Some SErrVerifierKind
          else None)"

text \<open>The outer option is a panic of \<open>Register\<close>.\<close>

definition NewProductionDispatcher :: "ProductionConfig \<Rightarrow> (slash_error + Dispatcher) option" where
  "NewProductionDispatcher cfg =
     (case ProductionConfig_Validate cfg of
        Some e \<Rightarrow> Some (Inl e)
      | None \<Rightarrow>
          do {
            d \<leftarrow> Dispatcher_Register (the (ForgedAttestation cfg)) NewDispatcher;
            d \<leftarrow> Dispatcher_Register
                   (case DoubleMining cfg of Some v \<Rightarrow> v | None \<Rightarrow> StubVerifier EvidenceKindDoubleMining) d;
            d \<leftarrow> Dispatcher_Register
                   (case FreshnessCheat cfg of Some v \<Rightarrow> v | None \<Rightarrow> StubVerifier EvidenceKindFreshnessCheat) d;
            Some (if list_all (\<lambda>k. fmlookup d k \<noteq> None) AllEvidenceKinds then Inr d else Inl SErrMissingVerifier)
          })"

section \<open>admit.go\<close>

type_synonym SlashCodec = "bytes \<Rightarrow> SlashPayload option"

definition Slash_AdmissionChecker :: "SlashCodec \<Rightarrow> (Tx \<Rightarrow> 'e option) option \<Rightarrow> Tx \<Rightarrow> (slash_error + 'e) option" where
  "Slash_AdmissionChecker decode prev tx =
     (if TxContractID tx \<noteq> SlashContractID then
        (case prev of None \<Rightarrow> None | Some f \<Rightarrow> map_option Inr (f tx))
      else if Payload tx = [] then Some (Inl SErrPayloadInvalid)
      else case decode (Payload tx) of
        None \<Rightarrow> Some (Inl SErrPayloadDecode)
      | Some p \<Rightarrow>
          (case ValidateSlashFields p (Sender tx) of
             Some e \<Rightarrow> Some (Inl e)
           | None \<Rightarrow> if fle (Fee tx) fzero then Some (Inl SErrPayloadInvalid) else None))"

section \<open>slash\_apply.go\<close>

definition SlashRewardCap :: u16 where "SlashRewardCap = 5000"

record SlashApplier =
  sl_Dispatcher :: Dispatcher
  RewardBPS :: u16
  AutoRevokeMinStakeDust :: u64

text \<open>The parameter store is \<open>None\<close> where \<open>Params\<close> is nil.\<close>

definition NewSlashApplier :: "Dispatcher \<Rightarrow> u16 \<Rightarrow> SlashApplier option" where
  "NewSlashApplier d rewardBPS =
     (if rewardBPS > SlashRewardCap then None
      else Some \<lparr>sl_Dispatcher = d, RewardBPS = rewardBPS, AutoRevokeMinStakeDust = MinEnrollStakeDust\<rparr>)"

definition activeRewardBPS :: "InMemoryParamStore option \<Rightarrow> SlashApplier \<Rightarrow> u16" where
  "activeRewardBPS params a =
     (case Option.bind params (ActiveValue ParamRewardBPS) of
        Some v \<Rightarrow> if v > ucast SlashRewardCap then SlashRewardCap else ucast v
      | None \<Rightarrow> if RewardBPS a > SlashRewardCap then SlashRewardCap else RewardBPS a)"

definition activeAutoRevokeMinStakeDust :: "InMemoryParamStore option \<Rightarrow> SlashApplier \<Rightarrow> u64" where
  "activeAutoRevokeMinStakeDust params a =
     (case Option.bind params (ActiveValue ParamAutoRevokeMinStakeDust) of Some v \<Rightarrow> v | None \<Rightarrow> AutoRevokeMinStakeDust a)"

definition evidence_preimage :: "SlashPayload \<Rightarrow> bytes" where
  "evidence_preimage p = bytes_of_string (EvidenceKind p) @ [0] @ EvidenceBlob p"

definition evidenceFingerprint :: "SlashPayload \<Rightarrow> bytes" where
  "evidenceFingerprint p = sha256 (evidence_preimage p)"

text \<open>The checks before the fee is debited, in order: \<open>Inr\<close> is the amount after clamping (steps 1 to 5).\<close>

definition slash_checks ::
    "SlashCodec \<Rightarrow> InMemoryState \<Rightarrow> SlashApplier \<Rightarrow> Tx \<Rightarrow> u64 \<Rightarrow> InMemoryState \<Rightarrow> slash_error + (SlashPayload \<times> u64)" where
  "slash_checks decode reg a tx currentHeight s =
     (if TxContractID tx \<noteq> SlashContractID then Inl SErrNotSlashTx
      else case decode (Payload tx) of None \<Rightarrow> Inl SErrPayloadDecode | Some payload \<Rightarrow>
      case ValidateSlashFields payload (Sender tx) of Some e \<Rightarrow> Inl e | None \<Rightarrow>
      case Lookup s (SP_NodeID payload) of None \<Rightarrow> Inl SErrNodeNotEnrolled | Some rec \<Rightarrow>
      if EvidenceSeen (evidenceFingerprint payload) s then Inl SErrEvidenceReplay
      else case Dispatcher_Verify (sl_Dispatcher a) reg payload currentHeight of Inl e \<Rightarrow> Inl e | Inr verifierCap \<Rightarrow>
      let actual = SlashAmountDust payload;
          actual = (if verifierCap > 0 \<and> actual > verifierCap then verifierCap else actual);
          actual = (if actual > StakeDust rec then StakeDust rec else actual)
      in if fle (Fee tx) fzero then Inl SErrFee else Inr (payload, actual))"

text \<open>Steps 9 and 10: the reward, and auto-revocation whose error is ignored.\<close>

definition slash_reward :: "u64 \<Rightarrow> u16 \<Rightarrow> u64" where
  "slash_reward slashed rewardBPS = (if slashed > 0 \<and> rewardBPS > 0 then slashed * ucast rewardBPS div 10000 else 0)"

definition slash_settle ::
    "InMemoryParamStore option \<Rightarrow> SlashApplier \<Rightarrow> Tx \<Rightarrow> u64 \<Rightarrow> string \<Rightarrow> u64 \<Rightarrow> Ledger \<Rightarrow> Ledger" where
  "slash_settle params a tx currentHeight nodeID slashed L =
     (let rewardDust = slash_reward slashed (activeRewardBPS params a);
          L = (if rewardDust > 0 then L\<lparr>Accounts := Credit (Sender tx) (dustToBalance rewardDust) (Accounts L)\<rparr> else L);
          threshold = activeAutoRevokeMinStakeDust params a
      in if threshold > 0 then
           (case RevokeIfUnderBonded nodeID currentHeight threshold (Enrollments L) of
              Inl e \<Rightarrow> L
            | Inr (es, revoked, remaining) \<Rightarrow> L\<lparr>Enrollments := es\<rparr>)
         else L)"

definition ApplySlashTx ::
    "SlashCodec \<Rightarrow> InMemoryState \<Rightarrow> InMemoryParamStore option \<Rightarrow> SlashApplier \<Rightarrow> Tx \<Rightarrow> u64 \<Rightarrow> Ledger \<Rightarrow> slash_error option \<times> Ledger" where
  "ApplySlashTx decode reg params a tx currentHeight L =
     (case slash_checks decode reg a tx currentHeight (Enrollments L) of
        Inl e \<Rightarrow> (Some e, L)
      | Inr (payload, actual) \<Rightarrow>
          (case DebitAndBumpNonce (Sender tx) (Fee tx) (TxNonce tx) (Accounts L) of
             (Some e, as) \<Rightarrow> (Some (SErrAccount e), L\<lparr>Accounts := as\<rparr>)
           | (None, as) \<Rightarrow>
               let L = L\<lparr>Accounts := as\<rparr>; (es, marked) = MarkEvidenceSeen (evidenceFingerprint payload) (Enrollments L)
               in if \<not> marked then (Some SErrEvidenceRaced, L\<lparr>Enrollments := es\<rparr>)
                  else case SlashStake (SP_NodeID payload) actual es of
                    Inl e \<Rightarrow> (Some (SErrState e), L\<lparr>Enrollments := es\<rparr>)
                  | Inr (es, slashed) \<Rightarrow>
                      (None, slash_settle params a tx currentHeight (SP_NodeID payload) slashed (L\<lparr>Enrollments := es\<rparr>))))"

end
