(* ===== verification/SlashProofs.thy ===== *)
theory SlashProofs
  imports Slashing
begin

text \<open>
  Correctness of the slash applier: a rejected slash changes nothing and the two error paths behind the fee debit are
  dead code; an accepted slash takes exactly the clamped amount out of one record, pays at most the capped share, leaves no
  active record below the bond floor, and its evidence can never be used again.
\<close>

section \<open>Case analysis\<close>

lemma unat_ucast_fits: "unat (w :: 'a::len word) < 2 ^ LENGTH('b) \<Longrightarrow> unat (ucast w :: 'b::len word) = unat w"
  by (simp add: unsigned_ucast_eq take_bit_nat_eq_self)

lemma slash_checks_ok:
  assumes "slash_checks decode reg a tx h s = Inr (p, amt)"
  shows "\<exists>rec cap. decode (Payload tx) = Some p \<and> ValidateSlashFields p (Sender tx) = None \<and> TxContractID tx = SlashContractID \<and>
     fmlookup (byNodeID s) (SP_NodeID p) = Some rec \<and> evidenceFingerprint p |\<notin>| seenEvidence s \<and>
     Dispatcher_Verify (sl_Dispatcher a) reg p h = Inr cap \<and> \<not> fle (Fee tx) fzero \<and>
     amt = min (StakeDust rec) (if cap > 0 then min (SlashAmountDust p) cap else SlashAmountDust p)"
  using assms
  by (auto simp: slash_checks_def Let_def Lookup_def EvidenceSeen_def min_def split: if_splits option.splits sum.splits)

text \<open>The state after a successful debit, once the checks passed: marking and forfeiting cannot fail.\<close>

definition slashed_registry :: "SlashPayload \<Rightarrow> u64 \<Rightarrow> EnrollmentRecord \<Rightarrow> InMemoryState \<Rightarrow> InMemoryState" where
  "slashed_registry p amt rec s =
     s\<lparr>seenEvidence := finsert (evidenceFingerprint p) (seenEvidence s),
       byNodeID := fmupd (SP_NodeID p) (rec\<lparr>StakeDust := StakeDust rec - amt\<rparr>) (byNodeID s)\<rparr>"

lemma ApplySlashTx_ok:
  assumes "slash_checks decode reg a tx h (Enrollments L) = Inr (p, amt)"
    and "fmlookup (byNodeID (Enrollments L)) (SP_NodeID p) = Some rec"
    and "DebitAndBumpNonce (Sender tx) (Fee tx) (TxNonce tx) (Accounts L) = (None, as)"
  shows "amt \<le> StakeDust rec" "ApplySlashTx decode reg params a tx h L =
     (None, slash_settle params a tx h (SP_NodeID p) amt (L\<lparr>Accounts := as, Enrollments := slashed_registry p amt rec (Enrollments L)\<rparr>))"
proof -
  obtain cap where c: "evidenceFingerprint p |\<notin>| seenEvidence (Enrollments L)"
    "amt = min (StakeDust rec) (if cap > 0 then min (SlashAmountDust p) cap else SlashAmountDust p)"
    using slash_checks_ok [OF assms(1)] assms(2) by auto
  then show le: "amt \<le> StakeDust rec" by simp
  show "ApplySlashTx decode reg params a tx h L =
     (None, slash_settle params a tx h (SP_NodeID p) amt (L\<lparr>Accounts := as, Enrollments := slashed_registry p amt rec (Enrollments L)\<rparr>))"
    using assms c(1) le by (auto simp: ApplySlashTx_def MarkEvidenceSeen_def SlashStake_def Let_def slashed_registry_def not_less)
qed

lemma ApplySlashTx_cases:
  assumes "ApplySlashTx decode reg params a tx h L = (res, L')"
  shows "(\<exists>e. res = Some e \<and> L' = L \<and> e \<noteq> SErrEvidenceRaced \<and> (\<forall>x. e \<noteq> SErrState x) \<or>
            res = Some e \<and> L' = L \<and> slash_checks decode reg a tx h (Enrollments L) = Inl e) \<or>
    (\<exists>p amt rec as. res = None \<and> slash_checks decode reg a tx h (Enrollments L) = Inr (p, amt) \<and>
       fmlookup (byNodeID (Enrollments L)) (SP_NodeID p) = Some rec \<and> amt \<le> StakeDust rec \<and>
       DebitAndBumpNonce (Sender tx) (Fee tx) (TxNonce tx) (Accounts L) = (None, as) \<and>
       L' = slash_settle params a tx h (SP_NodeID p) amt (L\<lparr>Accounts := as, Enrollments := slashed_registry p amt rec (Enrollments L)\<rparr>))"
proof (cases "slash_checks decode reg a tx h (Enrollments L)")
  case (Inl e)
  then show ?thesis using assms by (auto simp: ApplySlashTx_def)
next
  case (Inr pa)
  obtain p amt where pa: "slash_checks decode reg a tx h (Enrollments L) = Inr (p, amt)" using Inr by (cases pa) auto
  obtain rec where c: "fmlookup (byNodeID (Enrollments L)) (SP_NodeID p) = Some rec"
    using slash_checks_ok [OF pa] by blast
  obtain r as where d: "DebitAndBumpNonce (Sender tx) (Fee tx) (TxNonce tx) (Accounts L) = (r, as)" by fastforce
  show ?thesis
  proof (cases r)
    case None
    then show ?thesis using assms pa c d ApplySlashTx_ok [OF pa c] by auto
  next
    case (Some e)
    then have "as = Accounts L" using d charge_error(2) [of "Sender tx" "Fee tx" "TxNonce tx" "Accounts L"] by simp
    then show ?thesis using assms pa d Some by (auto simp: ApplySlashTx_def)
  qed
qed

lemma slash_settle_accounts:
  "Accounts (slash_settle params a tx h n amt L) =
     (let r = slash_reward amt (activeRewardBPS params a)
      in if r > 0 then Credit (Sender tx) (dustToBalance r) (Accounts L) else Accounts L)"
  by (auto simp: slash_settle_def Let_def split: sum.splits)

lemma slash_settle_registry:
  assumes "fmlookup (byNodeID (Enrollments L)) n = Some rec"
  shows "Enrollments (slash_settle params a tx h n amt L) =
     (if Active rec \<and> StakeDust rec < activeAutoRevokeMinStakeDust params a then revoke_at h n rec (Enrollments L) else Enrollments L)"
  using assms by (auto simp: slash_settle_def Let_def RevokeIfUnderBonded_def not_less split: sum.splits)

lemma revoke_at_other: "k \<noteq> n \<Longrightarrow> fmlookup (byNodeID (revoke_at h n rec s)) k = fmlookup (byNodeID s) k"
  by (simp add: revoke_at_def)

lemma revoke_at_self:
  "fmlookup (byNodeID (revoke_at h n rec s)) n = Some (rec\<lparr>RevokedAtHeight := h, UnbondMaturesAtHeight := h + UnbondWindow\<rparr>)"
  by (simp add: revoke_at_def)

lemma revoke_at_seen [simp]: "seenEvidence (revoke_at h n rec s) = seenEvidence s"
  by (simp add: revoke_at_def)

lemma slashed_registry_total:
  assumes "fmlookup (byNodeID s) (SP_NodeID p) = Some rec" "amt \<le> StakeDust rec"
  shows "total_stake (byNodeID (slashed_registry p amt rec s)) + unat amt = total_stake (byNodeID s)"
  using fmap_total_upd [OF assms(1), of "\<lambda>r. unat (StakeDust r)" "rec\<lparr>StakeDust := StakeDust rec - amt\<rparr>"]
    fmap_total_member [OF assms(1), of "\<lambda>r. unat (StakeDust r)"] assms(2)
  by (simp add: slashed_registry_def total_stake_def unat_diff_le word_le_nat_alt)

lemma slashed_registry_inv:
  assumes "enroll_inv s" "fmlookup (byNodeID s) (SP_NodeID p) = Some rec" "amt \<le> StakeDust rec"
  shows "enroll_inv (slashed_registry p amt rec s)"
proof -
  have "SlashStake (SP_NodeID p) amt (fst (MarkEvidenceSeen (evidenceFingerprint p) s)) = Inr (slashed_registry p amt rec s, amt)"
    using assms(2,3) by (auto simp: SlashStake_def MarkEvidenceSeen_def slashed_registry_def Let_def not_less finsert_absorb)
  then show ?thesis using SlashStake_inv MarkEvidenceSeen_inv assms(1) by blast
qed

text \<open>The reward: at most the capped share, rounded down, as long as the product fits 64 bits.\<close>

lemma activeRewardBPS_cap: "unat (activeRewardBPS params a) \<le> 5000"
proof -
  have "activeRewardBPS params a \<le> SlashRewardCap"
  proof (cases "Option.bind params (ActiveValue ParamRewardBPS)")
    case None
    then show ?thesis by (simp add: activeRewardBPS_def not_less)
  next
    case (Some v)
    have "ucast v \<le> SlashRewardCap" if "\<not> v > ucast SlashRewardCap"
    proof -
      have "unat v \<le> 5000" using that by (simp add: SlashRewardCap_def not_less word_le_nat_alt)
      then show ?thesis using unat_ucast_fits [of v, where 'b = 16] by (simp add: SlashRewardCap_def word_le_nat_alt)
    qed
    then show ?thesis using Some by (simp add: activeRewardBPS_def)
  qed
  then show ?thesis by (simp add: SlashRewardCap_def word_le_nat_alt)
qed

lemma slash_reward_exact:
  assumes "unat amt * 5000 < 2 ^ 64" "unat bps \<le> 5000"
  shows "unat (slash_reward amt bps) = unat amt * unat bps div 10000"
proof -
  have "unat amt * unat bps \<le> unat amt * 5000" using assms(2) by simp
  then have fits: "unat amt * unat bps < 2 ^ 64" using assms(1) by linarith
  have "unat (ucast bps :: u64) = unat bps" using unsigned_less [of bps, where 'a = nat] by (intro unat_ucast_fits) simp
  then have "unat (amt * ucast bps) = unat amt * unat bps" using unat_mult_no_wrap [of amt "ucast bps"] fits by simp
  then show ?thesis by (auto simp: slash_reward_def unat_div word_less_nat_alt unat_eq_zero)
qed

lemma slash_reward_half:
  assumes "unat amt * 5000 < 2 ^ 64" "unat bps \<le> 5000"
  shows "2 * unat (slash_reward amt bps) \<le> unat amt"
proof -
  have "2 * (unat amt * unat bps div 10000) \<le> 2 * (unat amt * 5000 div 10000)" using assms(2) by (intro mult_le_mono2 div_le_mono) simp
  also have "\<dots> \<le> unat amt" by simp
  finally show ?thesis using slash_reward_exact [OF assms] by simp
qed

section \<open>Registry steps keep the evidence\<close>

lemma sweep_fold_seen: "seenEvidence (fst (fold (sweep_step h) ks st)) = seenEvidence (fst st)"
  by (induction ks arbitrary: st) (auto simp: sweep_step_def split: prod.splits option.splits)

lemma legacy_fold_seen: "seenEvidence (fst (fold legacy_step ks st)) = seenEvidence (fst st)"
  by (induction ks arbitrary: st) (auto simp: legacy_step_def split: prod.splits option.splits)

lemma enroll_step_seen: "enroll_step s s' \<Longrightarrow> seenEvidence s |\<subseteq>| seenEvidence s'"
  apply (erule enroll_stepE)
         apply (auto simp: ApplyEnroll_def ApplyUnenroll_def AccrueBondFromReward_def SlashStake_def RevokeIfUnderBonded_def
      MarkEvidenceSeen_def Let_def split: if_splits option.splits prod.splits)
   apply (metis RevokeLegacyOwners_def fst_conv legacy_fold_seen)
  apply (metis SweepMaturedUnbonds_def fst_conv sweep_fold_seen)
  done

lemma enroll_steps_seen: "enroll_step\<^sup>*\<^sup>* s s' \<Longrightarrow> seenEvidence s |\<subseteq>| seenEvidence s'"
  by (induction rule: rtranclp_induct) (auto dest: enroll_step_seen)

end
