(* ===== verification/EvidenceVerifiers.thy ===== *)
theory EvidenceVerifiers
  imports SlashProofs HmacAttest
begin

text \<open>
  The three evidence verifiers under \<open>pkg/mining/slashing\<close> (\<open>forgedattest\<close>, \<open>doublemining\<close>, \<open>freshnesscheat\<close>) and the
  constructors of the production dispatcher. The JSON decoders of the evidence envelopes, of a proof and of a bundle and the
  Unicode tables are the fields of \<open>EvidenceCodec\<close>, so that each verifier is a function of the registry, the payload and the
  height. A verifier object is never nil and always has its registry: the registry is the argument \<open>reg\<close>.
\<close>

section \<open>Wire forms\<close>

record fa_wire =
  faw_Proof :: bytes
  faw_FaultClass :: string
  faw_Memo :: string

record dm_wire =
  dmw_ProofA :: bytes
  dmw_ProofB :: bytes
  dmw_Memo :: string

record fc_wire =
  fcw_Proof :: bytes
  fcw_AnchorHeight :: string
  fcw_AnchorBlockTime :: s64
  fcw_Memo :: string

text \<open>A decoder answers \<open>None\<close> where the JSON does not decode, has an unknown field or is followed by more bytes;
  \<open>ec_Compact\<close> is how the JSON encoder writes a raw message.\<close>

record EvidenceCodec =
  ec_Unicode :: UnicodeFns
  ec_ParseBundle :: bundle_parser
  ec_Proof :: "bytes \<Rightarrow> proofWire option"
  ec_FA :: "bytes \<Rightarrow> fa_wire option"
  ec_DM :: "bytes \<Rightarrow> dm_wire option"
  ec_FC :: "bytes \<Rightarrow> fc_wire option"
  ec_Compact :: "string \<Rightarrow> string option"

definition EvidenceMaxMemoLen :: nat where "EvidenceMaxMemoLen = 256"
definition DefaultMaxSlashDust :: u64 where "DefaultMaxSlashDust = 10 * 100000000"

definition maxSlash :: "u64 \<Rightarrow> u64" where
  "maxSlash configured = (if configured = 0 then DefaultMaxSlashDust else configured)"

text \<open>The deny list falls back to the empty one; freshness is neutralised by year-long windows and no challenge is checked.\<close>

definition denyList :: "(string \<Rightarrow> bool) option \<Rightarrow> string \<Rightarrow> bool" where
  "denyList d = (case d of None \<Rightarrow> (\<lambda>_. False) | Some f \<Rightarrow> f)"

definition makeHMACVerifier :: "(string \<Rightarrow> bool) option \<Rightarrow> HmacVerifier" where
  "makeHMACVerifier d =
     \<lparr>hv_FreshnessWindow = 365 * 24 * 3600 * 1000000000, hv_AllowedFutureSkew = 365 * 24 * 3600 * 1000000000,
      hv_DenyList = Some (denyList d), hv_Challenge = None\<rparr>"

definition registry_fn :: "InMemoryState \<Rightarrow> string \<Rightarrow> Entry option" where
  "registry_fn reg nodeID = (case Registry_Lookup reg nodeID of Inl _ \<Rightarrow> None | Inr e \<Rightarrow> Some e)"

definition replay_attestation :: "EvidenceCodec \<Rightarrow> (string \<Rightarrow> bool) option \<Rightarrow> InMemoryState \<Rightarrow> Proof \<Rightarrow> Bundle \<Rightarrow> attest_error option" where
  "replay_attestation c d reg p bundle =
     fst (VerifyAttestation (ec_Unicode c) (ec_ParseBundle c) (registry_fn reg) (makeHMACVerifier d) p (unix_time (B_IssuedAt bundle)) None)"

section \<open>forgedattest.go\<close>

record fa_Evidence =
  fa_Proof :: Proof
  fa_FaultClass :: string
  fa_Memo :: string

definition AllFaultClasses :: "string list" where
  "AllFaultClasses = ['''', ''hmac_mismatch'', ''gpu_uuid_mismatch'', ''challenge_bind_mismatch'', ''deny_listed_gpu'',
     ''node_not_enrolled'', ''node_revoked'', ''bundle_malformed'', ''nonce_mismatch'']"

definition validFaultClass :: "string \<Rightarrow> bool" where
  "validFaultClass fc = list_ex (\<lambda>k. fc = k) AllFaultClasses"

datatype evidence_error =
  EvTooLong | EvJson | EvMemo | EvFaultClass | EvMissingProof | EvParse proof_error | EvAnchorHeight | EvAnchorTime
| EvSameProof | EvEncode

definition fa_DecodeEvidence :: "EvidenceCodec \<Rightarrow> bytes \<Rightarrow> evidence_error + fa_Evidence" where
  "fa_DecodeEvidence c raw =
     (if length raw > MaxEvidenceLen then Inl EvTooLong
      else case ec_FA c raw of None \<Rightarrow> Inl EvJson | Some w \<Rightarrow>
      if length (faw_Memo w) > EvidenceMaxMemoLen then Inl EvMemo
      else if \<not> validFaultClass (faw_FaultClass w) then Inl EvFaultClass
      else if faw_Proof w = [] then Inl EvMissingProof
      else case ParseProof (ec_Proof c) (faw_Proof w) of Inl e \<Rightarrow> Inl (EvParse e)
      | Inr p \<Rightarrow> Inr \<lparr>fa_Proof = p, fa_FaultClass = faw_FaultClass w, fa_Memo = faw_Memo w\<rparr>)"

definition fa_EncodeEvidence :: "EvidenceCodec \<Rightarrow> fa_Evidence \<Rightarrow> evidence_error + string" where
  "fa_EncodeEvidence c ev =
     (if length (fa_Memo ev) > EvidenceMaxMemoLen then Inl EvMemo
      else if \<not> validFaultClass (fa_FaultClass ev) then Inl EvFaultClass
      else case CanonicalJSON (fa_Proof ev) of Inl e \<Rightarrow> Inl (EvParse e) | Inr proofJSON \<Rightarrow>
      case ec_Compact c proofJSON of None \<Rightarrow> Inl EvEncode | Some raw \<Rightarrow>
      let out = json_object (json_field ''proof'' raw #
                  opt_field (fa_FaultClass ev \<noteq> []) (json_field ''fault_class'' (json_string (fa_FaultClass ev))) @
                  opt_field (fa_Memo ev \<noteq> []) (json_field ''memo'' (json_string (fa_Memo ev))))
      in if length out > MaxEvidenceLen then Inl EvTooLong else Inr out)"

definition fa_Verify ::
    "EvidenceCodec \<Rightarrow> (string \<Rightarrow> bool) option \<Rightarrow> u64 \<Rightarrow> InMemoryState \<Rightarrow> SlashPayload \<Rightarrow> u64 \<Rightarrow> slash_error + u64" where
  "fa_Verify c d cap reg p currentHeight =
     (if EvidenceKind p \<noteq> EvidenceKindForgedAttestation then Inl SErrUnknownEvidenceKind
      else case fa_DecodeEvidence c (EvidenceBlob p) of Inl _ \<Rightarrow> Inl SErrEvidenceVerification | Inr ev \<Rightarrow>
      case ec_ParseBundle c (BundleBase64 (PAttestation (fa_Proof ev))) of None \<Rightarrow> Inr (maxSlash cap) | Some bundle \<Rightarrow>
      if B_NodeID bundle \<noteq> SP_NodeID p then Inl SErrEvidenceVerification
      else case replay_attestation c d reg (fa_Proof ev) bundle of
        None \<Rightarrow> Inl SErrEvidenceVerification
      | Some _ \<Rightarrow> Inr (maxSlash cap))"

definition fa_Verifier :: "EvidenceCodec \<Rightarrow> (string \<Rightarrow> bool) option \<Rightarrow> u64 \<Rightarrow> EvidenceVerifier" where
  "fa_Verifier c d cap = \<lparr>ev_Kind = EvidenceKindForgedAttestation, ev_Verify = fa_Verify c d cap\<rparr>"

section \<open>doublemining.go\<close>

record dm_Evidence =
  ProofA :: Proof
  ProofB :: Proof
  dm_Memo :: string

definition dm_DecodeEvidence :: "EvidenceCodec \<Rightarrow> bytes \<Rightarrow> evidence_error + dm_Evidence" where
  "dm_DecodeEvidence c raw =
     (if length raw > MaxEvidenceLen then Inl EvTooLong
      else case ec_DM c raw of None \<Rightarrow> Inl EvJson | Some w \<Rightarrow>
      if length (dmw_Memo w) > EvidenceMaxMemoLen then Inl EvMemo
      else if dmw_ProofA w = [] then Inl EvMissingProof
      else if dmw_ProofB w = [] then Inl EvMissingProof
      else case ParseProof (ec_Proof c) (dmw_ProofA w) of Inl e \<Rightarrow> Inl (EvParse e) | Inr pa \<Rightarrow>
      case ParseProof (ec_Proof c) (dmw_ProofB w) of Inl e \<Rightarrow> Inl (EvParse e)
      | Inr pb \<Rightarrow> Inr \<lparr>ProofA = pa, ProofB = pb, dm_Memo = dmw_Memo w\<rparr>)"

text \<open>The encoder puts the proof with the smaller canonical bytes first.\<close>

definition dm_EncodeEvidence :: "EvidenceCodec \<Rightarrow> dm_Evidence \<Rightarrow> evidence_error + string" where
  "dm_EncodeEvidence c ev =
     (if length (dm_Memo ev) > EvidenceMaxMemoLen then Inl EvMemo
      else case CanonicalJSON (ProofA ev) of Inl e \<Rightarrow> Inl (EvParse e) | Inr aCanon \<Rightarrow>
      case CanonicalJSON (ProofB ev) of Inl e \<Rightarrow> Inl (EvParse e) | Inr bCanon \<Rightarrow>
      if aCanon = bCanon then Inl EvSameProof
      else let (a, b) = (if aCanon > bCanon then (bCanon, aCanon) else (aCanon, bCanon))
      in case (ec_Compact c a, ec_Compact c b) of
           (Some ra, Some rb) \<Rightarrow>
             let out = json_object ([json_field ''proof_a'' ra, json_field ''proof_b'' rb] @
                         opt_field (dm_Memo ev \<noteq> []) (json_field ''memo'' (json_string (dm_Memo ev))))
             in if length out > MaxEvidenceLen then Inl EvTooLong else Inr out
         | _ \<Rightarrow> Inl EvEncode)"

definition dm_Verify ::
    "EvidenceCodec \<Rightarrow> (string \<Rightarrow> bool) option \<Rightarrow> u64 \<Rightarrow> InMemoryState \<Rightarrow> SlashPayload \<Rightarrow> u64 \<Rightarrow> slash_error + u64" where
  "dm_Verify c d cap reg p currentHeight =
     (if EvidenceKind p \<noteq> EvidenceKindDoubleMining then Inl SErrUnknownEvidenceKind
      else case dm_DecodeEvidence c (EvidenceBlob p) of Inl _ \<Rightarrow> Inl SErrEvidenceVerification | Inr ev \<Rightarrow>
      if PVersion (ProofA ev) < ProtocolVersionV2 \<or> PVersion (ProofB ev) < ProtocolVersionV2 then Inl SErrEvidenceVerification
      else if PHeight (ProofA ev) \<noteq> PHeight (ProofB ev) then Inl SErrEvidenceVerification
      else if PEpoch (ProofA ev) \<noteq> PEpoch (ProofB ev) then Inl SErrEvidenceVerification
      else case CanonicalJSON (ProofA ev) of Inl _ \<Rightarrow> Inl SErrEvidenceVerification | Inr aCanon \<Rightarrow>
      case CanonicalJSON (ProofB ev) of Inl _ \<Rightarrow> Inl SErrEvidenceVerification | Inr bCanon \<Rightarrow>
      if aCanon = bCanon then Inl SErrEvidenceVerification
      else case ec_ParseBundle c (BundleBase64 (PAttestation (ProofA ev))) of None \<Rightarrow> Inl SErrEvidenceVerification | Some bundleA \<Rightarrow>
      case ec_ParseBundle c (BundleBase64 (PAttestation (ProofB ev))) of None \<Rightarrow> Inl SErrEvidenceVerification | Some bundleB \<Rightarrow>
      if B_NodeID bundleA \<noteq> SP_NodeID p then Inl SErrEvidenceVerification
      else if B_NodeID bundleB \<noteq> SP_NodeID p then Inl SErrEvidenceVerification
      else if replay_attestation c d reg (ProofA ev) bundleA \<noteq> None then Inl SErrEvidenceVerification
      else if replay_attestation c d reg (ProofB ev) bundleB \<noteq> None then Inl SErrEvidenceVerification
      else Inr (maxSlash cap))"

definition dm_Verifier :: "EvidenceCodec \<Rightarrow> (string \<Rightarrow> bool) option \<Rightarrow> u64 \<Rightarrow> EvidenceVerifier" where
  "dm_Verifier c d cap = \<lparr>ev_Kind = EvidenceKindDoubleMining, ev_Verify = dm_Verify c d cap\<rparr>"

section \<open>freshnesscheat.go and witness.go\<close>

record fc_Evidence =
  fc_Proof :: Proof
  AnchorHeight :: u64
  AnchorBlockTime :: s64
  fc_Memo :: string

text \<open>A witness decides a claimed anchor.\<close>

type_synonym BlockInclusionWitness = "u64 \<Rightarrow> s64 \<Rightarrow> bytes \<Rightarrow> bool"

definition RejectAllWitness :: BlockInclusionWitness where "RejectAllWitness = (\<lambda>_ _ _. False)"
definition TrustingTestWitness :: BlockInclusionWitness where "TrustingTestWitness = (\<lambda>_ _ _. True)"

definition FixedAnchorWitness :: "u64 \<Rightarrow> s64 \<Rightarrow> bytes \<Rightarrow> BlockInclusionWitness" where
  "FixedAnchorWitness h t i = (\<lambda>height blockTime proofID. \<not> (height \<noteq> h \<or> blockTime \<noteq> t \<or> proofID \<noteq> i))"

definition DefaultGraceWindow :: int where "DefaultGraceWindow = 30 * 1000000000"
definition MaxAnchorAgeSeconds :: int where "MaxAnchorAgeSeconds = 365 * 24 * 3600"

record fc_Config =
  fc_Witness :: BlockInclusionWitness
  fc_FreshnessWindow :: int
  fc_GraceWindow :: int
  fc_MaxSlashDust :: u64

definition fc_NewVerifier :: "BlockInclusionWitness option \<Rightarrow> u64 \<Rightarrow> fc_Config" where
  "fc_NewVerifier witness cap =
     \<lparr>fc_Witness = (case witness of None \<Rightarrow> RejectAllWitness | Some w \<Rightarrow> w), fc_FreshnessWindow = 0, fc_GraceWindow = 0, fc_MaxSlashDust = cap\<rparr>"

definition freshnessWindow :: "fc_Config \<Rightarrow> int" where
  "freshnessWindow v = (if fc_FreshnessWindow v > 0 then fc_FreshnessWindow v else FreshnessWindow)"

definition graceWindow :: "fc_Config \<Rightarrow> int" where
  "graceWindow v = (if fc_GraceWindow v > 0 then fc_GraceWindow v else DefaultGraceWindow)"

definition fc_DecodeEvidence :: "EvidenceCodec \<Rightarrow> bytes \<Rightarrow> evidence_error + fc_Evidence" where
  "fc_DecodeEvidence c raw =
     (if length raw > MaxEvidenceLen then Inl EvTooLong
      else case ec_FC c raw of None \<Rightarrow> Inl EvJson | Some w \<Rightarrow>
      if length (fcw_Memo w) > EvidenceMaxMemoLen then Inl EvMemo
      else if fcw_Proof w = [] then Inl EvMissingProof
      else if fcw_AnchorHeight w = [] then Inl EvAnchorHeight
      else case ParseUint64 (fcw_AnchorHeight w) of None \<Rightarrow> Inl EvAnchorHeight | Some height \<Rightarrow>
      if sint (fcw_AnchorBlockTime w) \<le> 0 then Inl EvAnchorTime
      else case ParseProof (ec_Proof c) (fcw_Proof w) of Inl e \<Rightarrow> Inl (EvParse e)
      | Inr p \<Rightarrow> Inr \<lparr>fc_Proof = p, AnchorHeight = height, AnchorBlockTime = fcw_AnchorBlockTime w, fc_Memo = fcw_Memo w\<rparr>)"

definition fc_EncodeEvidence :: "EvidenceCodec \<Rightarrow> fc_Evidence \<Rightarrow> evidence_error + string" where
  "fc_EncodeEvidence c ev =
     (if length (fc_Memo ev) > EvidenceMaxMemoLen then Inl EvMemo
      else case CanonicalJSON (fc_Proof ev) of Inl e \<Rightarrow> Inl (EvParse e) | Inr canon \<Rightarrow>
      case ec_Compact c canon of None \<Rightarrow> Inl EvEncode | Some raw \<Rightarrow>
      let out = json_object ([json_field ''proof'' raw,
                  json_field ''anchor_height'' (json_string (show_nat (unat (AnchorHeight ev)))),
                  json_field ''anchor_block_time'' (show_sint (AnchorBlockTime ev))] @
                  opt_field (fc_Memo ev \<noteq> []) (json_field ''memo'' (json_string (fc_Memo ev))))
      in if length out > MaxEvidenceLen then Inl EvTooLong else Inr out)"

text \<open>\<open>int64\<close> differences wrap, and Go's division of a duration truncates (both windows are positive).\<close>

definition fc_Verify :: "EvidenceCodec \<Rightarrow> fc_Config \<Rightarrow> InMemoryState \<Rightarrow> SlashPayload \<Rightarrow> u64 \<Rightarrow> slash_error + u64" where
  "fc_Verify c v reg p currentHeight =
     (if EvidenceKind p \<noteq> EvidenceKindFreshnessCheat then Inl SErrUnknownEvidenceKind
      else case fc_DecodeEvidence c (EvidenceBlob p) of Inl _ \<Rightarrow> Inl SErrEvidenceVerification | Inr ev \<Rightarrow>
      if PVersion (fc_Proof ev) < ProtocolVersionV2 then Inl SErrEvidenceVerification
      else if AType (PAttestation (fc_Proof ev)) = [] then Inl SErrEvidenceVerification
      else if BundleBase64 (PAttestation (fc_Proof ev)) = [] then Inl SErrEvidenceVerification
      else case ec_ParseBundle c (BundleBase64 (PAttestation (fc_Proof ev))) of None \<Rightarrow> Inl SErrEvidenceVerification | Some bundle \<Rightarrow>
      if B_NodeID bundle \<noteq> SP_NodeID p then Inl SErrEvidenceVerification
      else if sint (AnchorBlockTime ev) \<le> sint (B_IssuedAt bundle) then Inl SErrEvidenceVerification
      else if sint (AnchorBlockTime ev - B_IssuedAt bundle) > MaxAnchorAgeSeconds then Inl SErrEvidenceVerification
      else if sint (AnchorBlockTime ev - B_IssuedAt bundle)
                \<le> freshnessWindow v div 1000000000 + graceWindow v div 1000000000 then Inl SErrEvidenceVerification
      else case Registry_Lookup reg (B_NodeID bundle) of Inl _ \<Rightarrow> Inl SErrEvidenceVerification | Inr _ \<Rightarrow>
      case Proof_ID (fc_Proof ev) of Inl _ \<Rightarrow> Inl SErrEvidenceVerification | Inr proofID \<Rightarrow>
      if \<not> fc_Witness v (AnchorHeight ev) (AnchorBlockTime ev) proofID then Inl SErrEvidenceVerification
      else Inr (maxSlash (fc_MaxSlashDust v)))"

definition fc_Verifier :: "EvidenceCodec \<Rightarrow> fc_Config \<Rightarrow> EvidenceVerifier" where
  "fc_Verifier c v = \<lparr>ev_Kind = EvidenceKindFreshnessCheat, ev_Verify = fc_Verify c v\<rparr>"

section \<open>The production dispatchers\<close>

definition fa_NewProductionSlashingDispatcher :: "EvidenceCodec \<Rightarrow> (string \<Rightarrow> bool) option \<Rightarrow> u64 \<Rightarrow> (slash_error + Dispatcher) option" where
  "fa_NewProductionSlashingDispatcher c d cap =
     NewProductionDispatcher \<lparr>ForgedAttestation = Some (fa_Verifier c d cap), DoubleMining = None, FreshnessCheat = None\<rparr>"

definition dm_NewProductionSlashingDispatcher ::
    "EvidenceCodec \<Rightarrow> (string \<Rightarrow> bool) option \<Rightarrow> u64 \<Rightarrow> u64 \<Rightarrow> (slash_error + Dispatcher) option" where
  "dm_NewProductionSlashingDispatcher c d faCap dmCap =
     NewProductionDispatcher \<lparr>ForgedAttestation = Some (fa_Verifier c d faCap), DoubleMining = Some (dm_Verifier c d dmCap), FreshnessCheat = None\<rparr>"

definition NewProductionSlashingDispatcher ::
    "EvidenceCodec \<Rightarrow> (string \<Rightarrow> bool) option \<Rightarrow> BlockInclusionWitness option \<Rightarrow> u64 \<Rightarrow> u64 \<Rightarrow> u64 \<Rightarrow> (slash_error + Dispatcher) option" where
  "NewProductionSlashingDispatcher c d witness faCap dmCap fcCap =
     NewProductionDispatcher
       \<lparr>ForgedAttestation = Some (fa_Verifier c d faCap), DoubleMining = Some (dm_Verifier c d dmCap),
        FreshnessCheat = Some (fc_Verifier c (fc_NewVerifier witness fcCap))\<rparr>"

section \<open>Lemmas\<close>

lemmas evidence_kinds = EvidenceKindForgedAttestation_def EvidenceKindDoubleMining_def EvidenceKindFreshnessCheat_def
lemmas verifier_defs = fa_Verifier_def dm_Verifier_def fc_Verifier_def

lemma production_dispatcher:
  "NewProductionSlashingDispatcher c d w x y z =
     Some (Inr (fmupd EvidenceKindFreshnessCheat (fc_Verifier c (fc_NewVerifier w z))
       (fmupd EvidenceKindDoubleMining (dm_Verifier c d y) (fmupd EvidenceKindForgedAttestation (fa_Verifier c d x) fmempty))))"
  by (simp add: NewProductionSlashingDispatcher_def NewProductionDispatcher_def ProductionConfig_Validate_def Dispatcher_Register_def
      NewDispatcher_def AllEvidenceKinds_def verifier_defs evidence_kinds)

lemma production_dispatch:
  assumes "NewProductionSlashingDispatcher c d w x y z = Some (Inr disp)"
  shows "Dispatcher_Verify disp reg p h =
     (if EvidenceKind p = EvidenceKindForgedAttestation then fa_Verify c d x reg p h
      else if EvidenceKind p = EvidenceKindDoubleMining then dm_Verify c d y reg p h
      else if EvidenceKind p = EvidenceKindFreshnessCheat then fc_Verify c (fc_NewVerifier w z) reg p h
      else Inl SErrUnknownEvidenceKind)"
  using assms by (auto simp: production_dispatcher Dispatcher_Verify_def verifier_defs evidence_kinds)

lemma fc_rejects_all: "fc_Verify c (fc_NewVerifier None z) reg p h \<noteq> Inr cap"
  by (auto simp: fc_Verify_def fc_NewVerifier_def RejectAllWitness_def split: sum.splits option.splits)

end
