(* ===== verification/SlashTheorems.thy ===== *)
theory SlashTheorems
  imports EvidenceVerifiers
begin

text \<open>
  What slashing promises, stated for the dispatcher the node wires (\<open>internal/v2wiring\<close>: all three verifiers, default caps,
  no witness), and what its forged-attestation arm lets a stranger do.
\<close>

section \<open>Concrete evidence\<close>

text \<open>A registry with one bonded miner, two proofs of that miner for one height that differ in the nonce, and a proof without a bundle.\<close>

definition bonded_state :: InMemoryState where
  "bonded_state = \<lparr>byNodeID = fmupd ''rig-1'' (sample_record ''rig-1'' ''GPU-1'' BondModeUpfront MinEnrollStakeDust) fmempty,
     byGPUActive = fmupd ''GPU-1'' ''rig-1'' fmempty, seenEvidence = {||}\<rparr>"

definition ascii_only :: UnicodeFns where
  "ascii_only = \<lparr>u_ToLower = (\<lambda>s. s), u_TrimSpace = (\<lambda>s. s), u_Fields = (\<lambda>s. [s]), u_EqualFold = (=)\<rparr>"

definition sample_bundle :: Bundle where
  "sample_bundle = Bundle_Sign (replicate 32 7)
     \<lparr>B_ChallengeBind = HexChallengeBind ''alice'' (replicate 32 1) (replicate 32 2), B_ChallengeSig = [], B_ChallengeSignerID = [],
      B_ComputeCap = [], B_CUDAVersion = [], B_DriverVer = [], B_GPUName = ''rtx 4090'', B_GPUUUID = ''GPU-1'', B_HMAC = [],
      B_IssuedAt = 7, B_NodeID = ''rig-1'', B_Nonce = hex_encode (replicate 32 3)\<rparr>"

definition sample_proof :: "u8 \<Rightarrow> string \<Rightarrow> Proof" where
  "sample_proof n bundle =
     \<lparr>PVersion = 2, PEpoch = 0, PHeight = 9, HeaderHash = replicate 32 0, MinerAddr = ''alice'', BatchRoot = replicate 32 1,
      BatchCount = 1, PNonce = replicate 16 n, MixDigest = replicate 32 2,
      PAttestation = \<lparr>AType = AttestationTypeHMAC, BundleBase64 = bundle, GPUArch = ''ada'', ClaimedHashrateHPS = 0,
        ANonce = replicate 32 3, AIssuedAt = 7\<rparr>\<rparr>"

definition slash_sample_codec :: EvidenceCodec where
  "slash_sample_codec = \<lparr>ec_Unicode = ascii_only, ec_ParseBundle = (\<lambda>s. if s = ''b'' then Some sample_bundle else None),
     ec_Proof = (\<lambda>raw. Some (toWire (if raw = [0] then sample_proof 0 [] else sample_proof (hd raw) ''b''))),
     ec_FA = (\<lambda>raw. Some \<lparr>faw_Proof = raw, faw_FaultClass = [], faw_Memo = []\<rparr>),
     ec_DM = (\<lambda>raw. Some \<lparr>dmw_ProofA = take 1 raw, dmw_ProofB = drop 1 raw, dmw_Memo = []\<rparr>),
     ec_FC = (\<lambda>_. None), ec_Compact = Some\<rparr>"

definition sample_slasher :: SlashApplier where
  "sample_slasher = \<lparr>sl_Dispatcher = projr (the (NewProductionSlashingDispatcher slash_sample_codec None None 0 0 0)),
     RewardBPS = 1000, AutoRevokeMinStakeDust = MinEnrollStakeDust\<rparr>"

definition slash_payload :: "string \<Rightarrow> bytes \<Rightarrow> SlashPayload" where
  "slash_payload kind blob = \<lparr>SP_NodeID = ''rig-1'', EvidenceKind = kind, EvidenceBlob = blob, SlashAmountDust = 600000000, SP_Memo = []\<rparr>"

definition slash_tx :: "u64 \<Rightarrow> Tx" where
  "slash_tx n = (transfer ''alice'' [] fzero (f_int 1) n)\<lparr>TxContractID := SlashContractID, Payload := [1]\<rparr>"

definition bonded_ledger :: Ledger where
  "bonded_ledger = \<lparr>Accounts = sample_store, Enrollments = bonded_state\<rparr>"

lemma slash_tx_simps [simp]:
  "Sender (slash_tx n) = ''alice''" "Fee (slash_tx n) = f_int 1" "TxNonce (slash_tx n) = n" "Payload (slash_tx n) = [1]"
  "TxContractID (slash_tx n) = SlashContractID"
  by (simp_all add: slash_tx_def transfer_def)

lemma sample_slasher_wired: "NewProductionSlashingDispatcher slash_sample_codec None None 0 0 0 = Some (Inr (sl_Dispatcher sample_slasher))"
  by (simp add: sample_slasher_def production_dispatcher)

lemma bonded_lookup: "fmlookup (byNodeID bonded_state) ''rig-1'' = Some (sample_record ''rig-1'' ''GPU-1'' BondModeUpfront MinEnrollStakeDust)"
  by (simp add: bonded_state_def)

lemma bonded_inv: "enroll_inv bonded_state"
proof -
  have "ApplyEnroll (sample_record ''rig-1'' ''GPU-1'' BondModeUpfront MinEnrollStakeDust) NewInMemoryState = Inr bonded_state"
    by (simp add: ApplyEnroll_def NewInMemoryState_def bonded_state_def sample_record_def)
  then show ?thesis
    using enroll_step.enroll [of "sample_record ''rig-1'' ''GPU-1'' BondModeUpfront MinEnrollStakeDust"] sample_fresh enroll_step_inv NewInMemoryState_inv
    by blast
qed

lemma sample_debit: "\<exists>as. DebitAndBumpNonce ''alice'' (f_int 1) 3 sample_store = (None, as)"
  by (simp add: DebitAndBumpNonce_def ChargeAndBumpNonce_def sample_store_def fzero_f_int)

lemma sample_parses: "toProof (toWire (sample_proof n b)) = Inr (sample_proof n b)"
  by (rule toProof_toWire) (simp_all add: sample_proof_def proof_shape_def ProtocolVersionV2_def)

lemma slash_payload_valid: "validKind k \<Longrightarrow> 0 < length blob \<Longrightarrow> length blob < 10 \<Longrightarrow> ValidateSlashFields (slash_payload k blob) ''alice'' = None"
  by (simp add: ValidateSlashFields_def slash_payload_def SlashMaxNodeIDLen_def MaxEvidenceLen_def SlashMaxMemoLen_def)

lemma kinds_valid [simp]: "validKind EvidenceKindForgedAttestation" "validKind EvidenceKindDoubleMining"
  by (simp_all add: validKind_def AllEvidenceKinds_def)

lemma unbound_evidence:
  "fa_DecodeEvidence slash_sample_codec [0] = Inr \<lparr>fa_Proof = sample_proof 0 [], fa_FaultClass = [], fa_Memo = []\<rparr>"
  by (simp add: fa_DecodeEvidence_def slash_sample_codec_def MaxEvidenceLen_def EvidenceMaxMemoLen_def validFaultClass_def AllFaultClasses_def
      ParseProof_def sample_parses)

lemma unbound_bundle: "ec_ParseBundle slash_sample_codec (BundleBase64 (PAttestation (sample_proof 0 []))) = None"
  by (simp add: slash_sample_codec_def sample_proof_def)

abbreviation "unbound_payload \<equiv> slash_payload EvidenceKindForgedAttestation [0]"

lemma unbound_slash:
  "\<exists>L'. ApplySlashTx (\<lambda>_. Some unbound_payload) reg params sample_slasher (slash_tx 3) h bonded_ledger = (None, L')"
proof -
  have v: "Dispatcher_Verify (sl_Dispatcher sample_slasher) reg unbound_payload h = Inr DefaultMaxSlashDust"
    unfolding production_dispatch [OF sample_slasher_wired]
    by (simp add: fa_Verify_def slash_payload_def unbound_evidence unbound_bundle maxSlash_def)
  have f: "unbound_payload = slash_payload EvidenceKindForgedAttestation [0]" "SP_NodeID unbound_payload = ''rig-1''"
    by (simp_all add: slash_payload_def)
  have "\<exists>amt. slash_checks (\<lambda>_. Some unbound_payload) reg sample_slasher (slash_tx 3) h bonded_state = Inr (unbound_payload, amt)"
    using v bonded_lookup
    by (auto simp: slash_checks_def slash_payload_valid f(2) Lookup_def EvidenceSeen_def Let_def fzero_f_int) (simp_all add: bonded_state_def)
  then show ?thesis using ApplySlashTx_ok(2) sample_debit bonded_lookup f(2) by (fastforce simp: bonded_ledger_def)
qed

section \<open>Errors of the production dispatcher\<close>

lemma fa_Verify_error: "fa_Verify c d x reg p h = Inl e \<Longrightarrow> e = SErrUnknownEvidenceKind \<or> e = SErrEvidenceVerification"
  by (auto simp: fa_Verify_def split: if_splits sum.splits option.splits)

lemma dm_Verify_error: "dm_Verify c d x reg p h = Inl e \<Longrightarrow> e = SErrUnknownEvidenceKind \<or> e = SErrEvidenceVerification"
  by (auto simp: dm_Verify_def split: if_splits sum.splits option.splits)

lemma fc_Verify_error: "fc_Verify c v reg p h = Inl e \<Longrightarrow> e = SErrUnknownEvidenceKind \<or> e = SErrEvidenceVerification"
  by (auto simp: fc_Verify_def split: if_splits sum.splits option.splits)

lemma verify_cap:
  "fa_Verify c d x reg p h = Inr cap \<Longrightarrow> cap = maxSlash x"
  "dm_Verify c d x reg p h = Inr cap \<Longrightarrow> cap = maxSlash x"
  by (auto simp: fa_Verify_def dm_Verify_def split: if_splits sum.splits option.splits)

lemma production_error:
  assumes "NewProductionSlashingDispatcher c d w x y z = Some (Inr disp)" "Dispatcher_Verify disp reg p h = Inl e"
  shows "e = SErrUnknownEvidenceKind \<or> e = SErrEvidenceVerification"
  using assms(2) fa_Verify_error dm_Verify_error fc_Verify_error
  unfolding production_dispatch [OF assms(1)] by (auto split: if_splits)

lemma production_cap:
  assumes "NewProductionSlashingDispatcher c d None 0 0 0 = Some (Inr disp)" "Dispatcher_Verify disp reg p h = Inr cap"
  shows "cap = DefaultMaxSlashDust"
  using assms(2) fc_rejects_all
  unfolding production_dispatch [OF assms(1)] by (auto simp: maxSlash_def dest: verify_cap split: if_splits)

lemma production_amount:
  assumes "NewProductionSlashingDispatcher c d None 0 0 0 = Some (Inr (sl_Dispatcher a))" "slash_checks decode reg a tx h s = Inr (p, amt)"
  shows "amt \<le> SlashAmountDust p" "unat amt \<le> 1000000000"
proof -
  obtain rec :: EnrollmentRecord and cap where c: "Dispatcher_Verify (sl_Dispatcher a) reg p h = Inr cap"
    "amt = min (StakeDust rec) (if cap > 0 then min (SlashAmountDust p) cap else SlashAmountDust p)"
    using slash_checks_ok [OF assms(2)] by blast
  have "cap = 1000000000" using production_cap [OF assms(1) c(1)] by (simp add: DefaultMaxSlashDust_def)
  then have "amt \<le> SlashAmountDust p \<and> amt \<le> 1000000000" using c(2) by (auto simp: min_def)
  then show "amt \<le> SlashAmountDust p" "unat amt \<le> 1000000000" by (simp_all add: word_le_nat_alt)
qed

lemma slash_checks_error:
  assumes "slash_checks decode reg a tx h s = Inl e"
  shows "e \<in> {SErrNotSlashTx, SErrPayloadDecode, SErrPayloadInvalid, SErrUnknownEvidenceKind, SErrNodeNotEnrolled, SErrEvidenceReplay, SErrFee} \<or>
    (\<exists>p. Dispatcher_Verify (sl_Dispatcher a) reg p h = Inl e)"
  using assms by (auto simp: slash_checks_def ValidateSlashFields_def Let_def split: if_splits option.splits sum.splits)

text \<open>
  A slash transaction that is rejected leaves accounts and registry exactly as they were: no fee is taken, no nonce moves
  and no evidence is marked. In particular the two error paths after the fee debit (evidence marked meanwhile, stake already
  gone) can never be taken under the production dispatcher.
\<close>

theorem rejected_slash_changes_nothing:
  assumes "NewProductionSlashingDispatcher c d w x y z = Some (Inr (sl_Dispatcher a))"
    and "ApplySlashTx decode reg params a tx h L = (Some e, L')"
  shows "L' = L \<and> e \<noteq> SErrEvidenceRaced \<and> (\<forall>err. e \<noteq> SErrState err)"
proof -
  have "(e \<noteq> SErrEvidenceRaced \<and> (\<forall>err. e \<noteq> SErrState err)) \<or> slash_checks decode reg a tx h (Enrollments L) = Inl e" "L' = L"
    using ApplySlashTx_cases [OF assms(2)] by auto
  moreover have "e \<noteq> SErrEvidenceRaced \<and> (\<forall>err. e \<noteq> SErrState err)" if "slash_checks decode reg a tx h (Enrollments L) = Inl e"
    using slash_checks_error [OF that] production_error [OF assms(1)] by auto
  ultimately show ?thesis by blast
qed

theorem rejected_slash_changes_nothing_witness:
  "ApplySlashTx (\<lambda>_. None) bonded_state None sample_slasher (slash_tx 3) 8 bonded_ledger = (Some SErrPayloadDecode, bonded_ledger)"
proof -
  have "fst (ApplySlashTx (\<lambda>_. None) bonded_state None sample_slasher (slash_tx 3) 8 bonded_ledger) = Some SErrPayloadDecode"
    by (simp add: ApplySlashTx_def slash_checks_def)
  then show ?thesis
    using rejected_slash_changes_nothing [OF sample_slasher_wired, of "\<lambda>_. None" bonded_state None "slash_tx 3" 8 bonded_ledger SErrPayloadDecode]
    by (metis prod.collapse)
qed

section \<open>An accepted slash\<close>

lemma slashed_active_bonded:
  assumes "fmlookup (byNodeID (Enrollments L)) n = Some rec" "h \<noteq> 0"
    and "fmlookup (byNodeID (Enrollments (slash_settle params a tx h n amt L))) n = Some rec'"
  shows "StakeDust rec' = StakeDust rec \<and> (Active rec' \<longrightarrow> activeAutoRevokeMinStakeDust params a \<le> StakeDust rec')"
  using assms by (auto simp: slash_settle_registry revoke_at_self Active_def not_less split: if_splits)

lemma slash_settle_others:
  assumes "fmlookup (byNodeID (Enrollments L)) n = Some rec" "k \<noteq> n"
  shows "fmlookup (byNodeID (Enrollments (slash_settle params a tx h n amt L))) k = fmlookup (byNodeID (Enrollments L)) k"
  using assms by (auto simp: slash_settle_registry revoke_at_other)

lemma slash_settle_total:
  assumes "fmlookup (byNodeID (Enrollments L)) n = Some rec"
  shows "total_stake (byNodeID (Enrollments (slash_settle params a tx h n amt L))) = total_stake (byNodeID (Enrollments L))"
proof -
  have "total_stake (byNodeID (revoke_at h n rec (Enrollments L))) = total_stake (byNodeID (Enrollments L))"
    using fmap_total_upd [OF assms, of "\<lambda>r. unat (StakeDust r)" "rec\<lparr>RevokedAtHeight := h, UnbondMaturesAtHeight := h + UnbondWindow\<rparr>"]
    by (simp add: revoke_at_def total_stake_def)
  then show ?thesis using assms by (simp add: slash_settle_registry)
qed

lemma slash_settle_inv:
  assumes "fmlookup (byNodeID (Enrollments L)) n = Some rec" "enroll_inv (Enrollments L)" "h \<noteq> 0"
  shows "enroll_inv (Enrollments (slash_settle params a tx h n amt L))"
  using assms revoke_at_inv by (auto simp: slash_settle_registry)

lemma slash_settle_seen:
  assumes "fmlookup (byNodeID (Enrollments L)) n = Some rec"
  shows "seenEvidence (Enrollments (slash_settle params a tx h n amt L)) = seenEvidence (Enrollments L)"
  using assms by (simp add: slash_settle_registry)

text \<open>
  C20: An accepted slash takes exactly one amount out of exactly one bond. The amount is at most what the payload asked for,
  at most 10 CELL and at most the bond; the sum of all bonds drops by it; every other record is untouched; the reporter, who
  paid the fee, receives at most half of it; a record left below the auto-revoke threshold is no longer active; the evidence
  is marked; and the registry invariant holds again.
\<close>

theorem accepted_slash_settles_exactly:
  assumes "NewProductionSlashingDispatcher c d None 0 0 0 = Some (Inr (sl_Dispatcher a))"
    and "ApplySlashTx decode reg params a tx h L = (None, L')" "enroll_inv (Enrollments L)" "h \<noteq> 0"
  shows "\<exists>p rec rec' amt as reward. decode (Payload tx) = Some p \<and>
     fmlookup (byNodeID (Enrollments L)) (SP_NodeID p) = Some rec \<and> fmlookup (byNodeID (Enrollments L')) (SP_NodeID p) = Some rec' \<and>
     amt \<le> SlashAmountDust p \<and> unat amt \<le> 1000000000 \<and> unat (StakeDust rec') + unat amt = unat (StakeDust rec) \<and>
     total_stake (byNodeID (Enrollments L')) + unat amt = total_stake (byNodeID (Enrollments L)) \<and>
     (\<forall>k. k \<noteq> SP_NodeID p \<longrightarrow> fmlookup (byNodeID (Enrollments L')) k = fmlookup (byNodeID (Enrollments L)) k) \<and>
     DebitAndBumpNonce (Sender tx) (Fee tx) (TxNonce tx) (Accounts L) = (None, as) \<and> 2 * unat reward \<le> unat amt \<and>
     Accounts L' = (if reward > 0 then Credit (Sender tx) (dustToBalance reward) as else as) \<and>
     (Active rec' \<longrightarrow> activeAutoRevokeMinStakeDust params a \<le> StakeDust rec') \<and>
     EvidenceSeen (evidenceFingerprint p) (Enrollments L') \<and> enroll_inv (Enrollments L')"
proof -
  obtain p amt rec as where s: "slash_checks decode reg a tx h (Enrollments L) = Inr (p, amt)"
    "fmlookup (byNodeID (Enrollments L)) (SP_NodeID p) = Some rec" "amt \<le> StakeDust rec"
    "DebitAndBumpNonce (Sender tx) (Fee tx) (TxNonce tx) (Accounts L) = (None, as)"
    "L' = slash_settle params a tx h (SP_NodeID p) amt (L\<lparr>Accounts := as, Enrollments := slashed_registry p amt rec (Enrollments L)\<rparr>)"
    using ApplySlashTx_cases [OF assms(2)] by auto
  let ?M = "L\<lparr>Accounts := as, Enrollments := slashed_registry p amt rec (Enrollments L)\<rparr>"
  let ?rec = "rec\<lparr>StakeDust := StakeDust rec - amt\<rparr>"
  have m: "fmlookup (byNodeID (Enrollments ?M)) (SP_NodeID p) = Some ?rec" by (simp add: slashed_registry_def)
  note settle = slash_settle_others [OF m] slash_settle_total [OF m] slash_settle_seen [OF m]
  obtain rec' where rec': "fmlookup (byNodeID (Enrollments L')) (SP_NodeID p) = Some rec'"
    using m unfolding s(5) slash_settle_registry [OF m] by (cases "Active ?rec \<and> StakeDust ?rec < activeAutoRevokeMinStakeDust params a") (auto simp: revoke_at_self)
  have stake: "unat (StakeDust rec') + unat amt = unat (StakeDust rec)" "Active rec' \<longrightarrow> activeAutoRevokeMinStakeDust params a \<le> StakeDust rec'"
    using slashed_active_bonded [OF m assms(4) rec' [unfolded s(5)]] s(3) by (auto simp: unat_diff_le word_le_nat_alt)
  have total: "total_stake (byNodeID (Enrollments L')) + unat amt = total_stake (byNodeID (Enrollments L))"
    using slashed_registry_total [OF s(2,3)] settle(2) by (simp add: s(5))
  have others: "\<forall>k. k \<noteq> SP_NodeID p \<longrightarrow> fmlookup (byNodeID (Enrollments L')) k = fmlookup (byNodeID (Enrollments L)) k"
    using settle(1) by (simp add: s(5) slashed_registry_def)
  have amount: "amt \<le> SlashAmountDust p" "unat amt \<le> 1000000000" using production_amount [OF assms(1) s(1)] by auto
  have reward: "2 * unat (slash_reward amt (activeRewardBPS params a)) \<le> unat amt"
    using slash_reward_half [OF _ activeRewardBPS_cap] amount(2) by simp
  have accounts: "Accounts L' = (let r = slash_reward amt (activeRewardBPS params a)
      in if r > 0 then Credit (Sender tx) (dustToBalance r) as else as)"
    unfolding s(5) slash_settle_accounts by (simp add: Let_def)
  have seen: "EvidenceSeen (evidenceFingerprint p) (Enrollments L')"
    using settle(3) by (simp add: s(5) slashed_registry_def EvidenceSeen_def)
  have inv: "enroll_inv (Enrollments L')"
    using slash_settle_inv [OF m _ assms(4)] slashed_registry_inv [OF assms(3) s(2,3)] by (simp add: s(5))
  show ?thesis
    using slash_checks_ok [OF s(1)] s(2,4) rec' stake total others amount reward accounts seen inv unfolding Let_def by blast
qed

theorem accepted_slash_settles_exactly_witness:
  "\<exists>L' amt. ApplySlashTx (\<lambda>_. Some unbound_payload) bonded_state None sample_slasher (slash_tx 3) 8 bonded_ledger = (None, L') \<and>
     total_stake (byNodeID (Enrollments L')) + amt = total_stake (byNodeID bonded_state) \<and> enroll_inv (Enrollments L')"
proof -
  obtain L' where ap: "ApplySlashTx (\<lambda>_. Some unbound_payload) bonded_state None sample_slasher (slash_tx 3) 8 bonded_ledger = (None, L')"
    using unbound_slash by blast
  then show ?thesis
    using accepted_slash_settles_exactly [OF sample_slasher_wired ap] bonded_inv by (auto simp: bonded_ledger_def)
qed

text \<open>
  C21: Evidence pays once. After an accepted slash, whatever the registry goes through in between (enrollments, exits,
  rewards, sweeps, further slashes), a slash with the same evidence kind and bytes is rejected without any effect, whoever sends it and
  whichever node it names.
\<close>

theorem slash_evidence_pays_once:
  assumes "ApplySlashTx decode reg params a tx h L = (None, L1)" "decode (Payload tx) = Some p"
    and "enroll_step\<^sup>*\<^sup>* (Enrollments L1) (Enrollments L2)"
    and "decode (Payload tx') = Some p'" "EvidenceKind p' = EvidenceKind p" "EvidenceBlob p' = EvidenceBlob p"
  shows "\<exists>e. ApplySlashTx decode reg' params' a' tx' h' L2 = (Some e, L2)"
proof -
  obtain amt rec as where s: "slash_checks decode reg a tx h (Enrollments L) = Inr (p, amt)"
    "L1 = slash_settle params a tx h (SP_NodeID p) amt (L\<lparr>Accounts := as, Enrollments := slashed_registry p amt rec (Enrollments L)\<rparr>)"
    using ApplySlashTx_cases [OF assms(1)] slash_checks_ok assms(2) by fastforce
  have "evidenceFingerprint p |\<in>| seenEvidence (Enrollments L1)"
    by (simp add: s(2) slash_settle_registry slashed_registry_def)
  then have "evidenceFingerprint p' |\<in>| seenEvidence (Enrollments L2)"
    using enroll_steps_seen [OF assms(3)] assms(5,6) by (auto simp: evidenceFingerprint_def evidence_preimage_def)
  then have "slash_checks decode reg' a' tx' h' (Enrollments L2) \<noteq> Inr (q, m)" for q m
    using slash_checks_ok [of decode reg' a' tx' h' "Enrollments L2" q m] assms(4) by auto
  then obtain e where "slash_checks decode reg' a' tx' h' (Enrollments L2) = Inl e" by (metis sumE surj_pair)
  then show ?thesis by (simp add: ApplySlashTx_def)
qed

theorem slash_evidence_pays_once_witness:
  "\<exists>L1 e. ApplySlashTx (\<lambda>_. Some unbound_payload) bonded_state None sample_slasher (slash_tx 3) 8 bonded_ledger = (None, L1) \<and>
     ApplySlashTx (\<lambda>_. Some unbound_payload) bonded_state None sample_slasher (slash_tx 4) 9 L1 = (Some e, L1)"
proof -
  obtain L1 where ap: "ApplySlashTx (\<lambda>_. Some unbound_payload) bonded_state None sample_slasher (slash_tx 3) 8 bonded_ledger = (None, L1)"
    using unbound_slash by blast
  then show ?thesis
    using slash_evidence_pays_once [OF ap, where p = unbound_payload and p' = unbound_payload and tx' = "slash_tx 4" and reg' = bonded_state and params' = None and a' = sample_slasher and h' = 9]
    by auto
qed

lemma replay_attestation_ok:
  assumes "replay_attestation c d reg p b = None" "ec_ParseBundle c (BundleBase64 (PAttestation p)) = Some b"
  shows "\<exists>entry. Registry_Lookup reg (B_NodeID b) = Inr entry \<and>
     hex_decode (B_HMAC b) = Some (ComputeMAC (E_HMACKey entry) (CanonicalForMAC b)) \<and>
     hex_decode (B_ChallengeBind b) = Some (ComputeChallengeBind (MinerAddr p) (BatchRoot p) (MixDigest p))"
proof -
  obtain b' where "attest_checks (ec_Unicode c) (ec_ParseBundle c) (registry_fn reg) (makeHMACVerifier d) p (unix_time (B_IssuedAt b)) = Inr b'"
    using assms(1) by (auto simp: replay_attestation_def VerifyAttestation_def split: sum.splits)
  then show ?thesis using attest_checks_ok assms(2) by (fastforce simp: registry_fn_def split: sum.splits)
qed

text \<open>
  C22: Double-mining evidence that the verifier accepts contains two proofs with different canonical bytes for one height and
  epoch, and each carries a MAC under the HMAC key registered for the accused node.
\<close>

theorem double_mining_evidence_is_keyed:
  assumes "dm_Verify c d cap reg p h = Inr amount"
  shows "\<exists>ev A B entry. dm_DecodeEvidence c (EvidenceBlob p) = Inr ev \<and> PHeight (ProofA ev) = PHeight (ProofB ev) \<and>
     PEpoch (ProofA ev) = PEpoch (ProofB ev) \<and> CanonicalJSON (ProofA ev) \<noteq> CanonicalJSON (ProofB ev) \<and>
     ec_ParseBundle c (BundleBase64 (PAttestation (ProofA ev))) = Some A \<and> ec_ParseBundle c (BundleBase64 (PAttestation (ProofB ev))) = Some B \<and>
     Registry_Lookup reg (SP_NodeID p) = Inr entry \<and>
     hex_decode (B_HMAC A) = Some (ComputeMAC (E_HMACKey entry) (CanonicalForMAC A)) \<and>
     hex_decode (B_HMAC B) = Some (ComputeMAC (E_HMACKey entry) (CanonicalForMAC B))"
proof -
  obtain ev A B where v: "dm_DecodeEvidence c (EvidenceBlob p) = Inr ev" "PHeight (ProofA ev) = PHeight (ProofB ev)"
    "PEpoch (ProofA ev) = PEpoch (ProofB ev)" "CanonicalJSON (ProofA ev) \<noteq> CanonicalJSON (ProofB ev)"
    "ec_ParseBundle c (BundleBase64 (PAttestation (ProofA ev))) = Some A" "ec_ParseBundle c (BundleBase64 (PAttestation (ProofB ev))) = Some B"
    "B_NodeID A = SP_NodeID p" "B_NodeID B = SP_NodeID p"
    "replay_attestation c d reg (ProofA ev) A = None" "replay_attestation c d reg (ProofB ev) B = None"
    using assms by (auto simp: dm_Verify_def split: if_splits sum.splits option.splits)
  show ?thesis
    using replay_attestation_ok [OF v(9,5)] replay_attestation_ok [OF v(10,6)] v by fastforce
qed

lemma sample_bundle_fields [simp]:
  "B_NodeID sample_bundle = ''rig-1''" "B_ChallengeBind sample_bundle = HexChallengeBind ''alice'' (replicate 32 1) (replicate 32 2)"
  "B_GPUUUID sample_bundle = ''GPU-1''" "B_GPUName sample_bundle = ''rtx 4090''" "B_IssuedAt sample_bundle = 7"
  "B_Nonce sample_bundle = hex_encode (replicate 32 3)"
  by (simp_all add: sample_bundle_def Bundle_Sign_def)

lemma sample_bundle_mac: "hex_decode (B_HMAC sample_bundle) = Some (ComputeMAC (replicate 32 7) (CanonicalForMAC sample_bundle))"
  unfolding sample_bundle_def by (rule Bundle_Sign_mac)

lemma sample_arch:
  "EqualFold ascii_only ''GPU-1'' ''GPU-1''" "Canonicalise ascii_only ''ada'' = Some ArchAdaLovelace"
  "ValidateBundleArchConsistencyHMAC ascii_only ArchAdaLovelace ''rtx 4090'' = None"
  by (simp_all add: EqualFold_def is_ascii_def Canonicalise_def ToLower_def TrimSpace_def ascii_space_def ascii_lower_def arch_canonical_def
      arch_aliases_def ArchHopper_def ArchBlackwell_def ArchAdaLovelace_def ArchAmpere_def ArchTuring_def
      ValidateBundleArchConsistencyHMAC_def gpuNamePatterns_def normaliseGPUName_def Fields_def ascii_fields.simps Let_def)

lemma sample_attests: "replay_attestation slash_sample_codec None bonded_state (sample_proof n ''b'') sample_bundle = None"
proof -
  have r: "registry_fn bonded_state ''rig-1'' = Some \<lparr>E_NodeID = ''rig-1'', E_GPUUUID = ''GPU-1'', E_HMACKey = replicate 32 7\<rparr>"
    by (simp add: registry_fn_def Registry_Lookup_def Lookup_def bonded_lookup sample_record_def Active_def)
  have "attest_checks ascii_only (ec_ParseBundle slash_sample_codec) (registry_fn bonded_state) (makeHMACVerifier None) (sample_proof n ''b'')
      (unix_time 7) = Inr sample_bundle"
    using r sample_bundle_mac sample_arch(1)
    by (simp add: attest_checks_def slash_sample_codec_def sample_proof_def HexChallengeBind_def ComputeChallengeBind_def makeHMACVerifier_def
        duration_def Let_def)
  then show ?thesis
    using sample_arch(2,3)
    by (simp add: replay_attestation_def VerifyAttestation_def arch_checks_def slash_sample_codec_def sample_proof_def makeHMACVerifier_def denyList_def)
qed

lemma hex_encode_inject: "hex_encode a = hex_encode b \<longleftrightarrow> a = b"
  by (metis hex_decode_encode option.inject)

lemma sample_proofs_differ:
  "\<exists>x y. CanonicalJSON (sample_proof 1 ''b'') = Inr x \<and> CanonicalJSON (sample_proof 2 ''b'') = Inr y \<and> x \<noteq> y"
  by (simp add: CanonicalJSON_def canonicalBytes_def validateShape_def json_object_def proof_fields_def sample_proof_def marshal_attestation_def
      appendJSONField_def hex_encode_inject)

theorem double_mining_evidence_is_keyed_witness:
  "\<exists>A B entry. Registry_Lookup bonded_state ''rig-1'' = Inr entry \<and>
     hex_decode (B_HMAC A) = Some (ComputeMAC (E_HMACKey entry) (CanonicalForMAC A)) \<and>
     hex_decode (B_HMAC B) = Some (ComputeMAC (E_HMACKey entry) (CanonicalForMAC B)) \<and>
     dm_Verify slash_sample_codec None 0 bonded_state (slash_payload EvidenceKindDoubleMining [1, 2]) 8 = Inr DefaultMaxSlashDust"
proof -
  let ?p = "slash_payload EvidenceKindDoubleMining [1, 2]"
  have d: "dm_DecodeEvidence slash_sample_codec [1, 2] = Inr \<lparr>ProofA = sample_proof 1 ''b'', ProofB = sample_proof 2 ''b'', dm_Memo = []\<rparr>"
    by (simp add: dm_DecodeEvidence_def slash_sample_codec_def MaxEvidenceLen_def EvidenceMaxMemoLen_def ParseProof_def sample_parses)
  have b: "ec_ParseBundle slash_sample_codec (BundleBase64 (PAttestation (sample_proof n ''b''))) = Some sample_bundle" for n
    by (simp add: slash_sample_codec_def sample_proof_def)
  have v: "PVersion (sample_proof n ''b'') = 2" "PHeight (sample_proof n ''b'') = 9" "PEpoch (sample_proof n ''b'') = 0" for n
    by (simp_all add: sample_proof_def)
  have f: "SP_NodeID ?p = ''rig-1''" "EvidenceKind ?p = EvidenceKindDoubleMining" "EvidenceBlob ?p = [1, 2]" by (simp_all add: slash_payload_def)
  have dm: "dm_Verify slash_sample_codec None 0 bonded_state ?p 8 = Inr DefaultMaxSlashDust"
    using sample_proofs_differ by (auto simp: dm_Verify_def f d b v sample_attests ProtocolVersionV2_def maxSlash_def)
  show ?thesis using double_mining_evidence_is_keyed [OF dm] dm f(1) by fastforce
qed

section \<open>A stranger's slash\<close>

text \<open>
  Anyone can slash any miner. A forged-attestation payload whose evidence decodes to some proof with a bundle that does not
  parse is accepted against every enrolled node, whoever the node is: nothing in such a proof refers to the accused node, to a block or to
  the reporter, and neither the signature nor the public key of the transaction is looked at. The accused loses the smallest
  of the amount asked, 10 CELL and the whole bond.
\<close>

theorem stranger_slashes_any_miner:
  assumes "NewProductionSlashingDispatcher c d None 0 0 0 = Some (Inr (sl_Dispatcher a))"
    and "TxContractID tx = SlashContractID" "decode (Payload tx) = Some p" "ValidateSlashFields p (Sender tx) = None"
    and "EvidenceKind p = EvidenceKindForgedAttestation" "fa_DecodeEvidence c (EvidenceBlob p) = Inr ev"
    and "ec_ParseBundle c (BundleBase64 (PAttestation (fa_Proof ev))) = None"
    and "\<not> EvidenceSeen (evidenceFingerprint p) (Enrollments L)"
    and "DebitAndBumpNonce (Sender tx) (Fee tx) (TxNonce tx) (Accounts L) = (None, as)"
    and "Lookup (Enrollments L) (SP_NodeID p) = Some rec"
  shows "\<exists>L' rec'. ApplySlashTx decode reg params a tx h L = (None, L') \<and> Lookup (Enrollments L') (SP_NodeID p) = Some rec' \<and>
     StakeDust rec' = StakeDust rec - min (StakeDust rec) (min (SlashAmountDust p) DefaultMaxSlashDust)"
proof -
  define amt where "amt = min (StakeDust rec) (min (SlashAmountDust p) DefaultMaxSlashDust)"
  have "fa_Verify c d 0 reg p h = Inr DefaultMaxSlashDust" using assms(5-7) by (simp add: fa_Verify_def maxSlash_def)
  then have v: "Dispatcher_Verify (sl_Dispatcher a) reg p h = Inr DefaultMaxSlashDust"
    using assms(5) by (simp add: production_dispatch [OF assms(1)])
  have fee: "\<not> fle (Fee tx) fzero" using assms(9) by (auto simp: DebitAndBumpNonce_def split: if_splits)
  have "(if DefaultMaxSlashDust > 0 \<and> SlashAmountDust p > DefaultMaxSlashDust then DefaultMaxSlashDust else SlashAmountDust p) =
      min (SlashAmountDust p) DefaultMaxSlashDust" by (auto simp: min_def DefaultMaxSlashDust_def)
  then have ck: "slash_checks decode reg a tx h (Enrollments L) = Inr (p, amt)"
    using assms(2-4,8,10) v fee by (auto simp: slash_checks_def Let_def amt_def min_def)
  let ?M = "L\<lparr>Accounts := as, Enrollments := slashed_registry p amt rec (Enrollments L)\<rparr>"
  have ap: "ApplySlashTx decode reg params a tx h L = (None, slash_settle params a tx h (SP_NodeID p) amt ?M)"
    using ApplySlashTx_ok [OF ck _ assms(9)] assms(10) by (simp add: Lookup_def)
  have m: "fmlookup (byNodeID (Enrollments ?M)) (SP_NodeID p) = Some (rec\<lparr>StakeDust := StakeDust rec - amt\<rparr>)"
    by (simp add: slashed_registry_def)
  have "\<exists>rec'. Lookup (Enrollments (slash_settle params a tx h (SP_NodeID p) amt ?M)) (SP_NodeID p) = Some rec' \<and> StakeDust rec' = StakeDust rec - amt"
    using m unfolding slash_settle_registry [OF m] Lookup_def by (auto simp: revoke_at_self)
  then show ?thesis using ap by (auto simp: amt_def)
qed

theorem stranger_slashes_any_miner_witness:
  "\<exists>L' rec'. ApplySlashTx (\<lambda>_. Some unbound_payload) bonded_state None sample_slasher (slash_tx 3) 8 bonded_ledger = (None, L') \<and>
     Lookup (Enrollments L') ''rig-1'' = Some rec' \<and> StakeDust rec' = 400000000"
proof -
  obtain as where as: "DebitAndBumpNonce ''alice'' (f_int 1) 3 sample_store = (None, as)" using sample_debit by blast
  have l: "Lookup (Enrollments bonded_ledger) ''rig-1'' = Some (sample_record ''rig-1'' ''GPU-1'' BondModeUpfront MinEnrollStakeDust)"
    using bonded_lookup by (simp add: bonded_ledger_def Lookup_def)
  have f: "SP_NodeID unbound_payload = ''rig-1''" "EvidenceKind unbound_payload = EvidenceKindForgedAttestation" "EvidenceBlob unbound_payload = [0]"
    "SlashAmountDust unbound_payload = 600000000" by (simp_all add: slash_payload_def)
  show ?thesis
    using stranger_slashes_any_miner [OF sample_slasher_wired, of "slash_tx 3" "\<lambda>_. Some unbound_payload" unbound_payload
        "\<lparr>fa_Proof = sample_proof 0 [], fa_FaultClass = [], fa_Memo = []\<rparr>" bonded_ledger as _ bonded_state None 8] as l
    by (simp add: f unbound_evidence unbound_bundle slash_payload_valid EvidenceSeen_def bonded_ledger_def bonded_state_def sample_record_def
        DefaultMaxSlashDust_def MinEnrollStakeDust_def min_def)
qed

end
