(* ===== verification/EdgeSettlement.thy ===== *)
theory EdgeSettlement
  imports HmacAttest GoTime GoSort
begin

text \<open>
  \<open>pkg/edgepool/settlement.go\<close> and the parts of \<open>protocol.go\<close> it uses: pool proofs, their identity and signed bytes, the
  verification that consensus repeats, and the relay's settlement state (binding, pending proofs, acknowledgement). ML-DSA-87,
  the parser of RFC 3339 times and the Unicode tables are the fields of \<open>RelayEnv\<close>. Writing the state file either succeeds or
  fails (\<open>saved\<close>); reading it back and key files are not modelled.
\<close>

record RelayEnv =
  re_Unicode :: UnicodeFns
  re_ParseTime :: "string \<Rightarrow> Time option"
  re_PublicKeySize :: nat
  re_SignatureSize :: nat
  re_PublicKeyOk :: "bytes \<Rightarrow> bool"
  re_Verify :: "bytes \<Rightarrow> bytes \<Rightarrow> bytes \<Rightarrow> bool" \<comment> \<open>public key, message, signature\<close>

definition show_int :: "int \<Rightarrow> string" where
  "show_int n = (if n < 0 then CHR ''-'' # show_nat (nat (- n)) else show_nat (nat n))"

fun join :: "string \<Rightarrow> string list \<Rightarrow> string" where
  "join sep [] = []"
| "join sep [s] = s"
| "join sep (s # ss) = s @ sep @ join sep ss"

section \<open>protocol.go\<close>

definition EdgeProtocolVersion :: string where "EdgeProtocolVersion = ''QSD-edge-pool/v1''"
definition SettlementProtocolVersion :: string where "SettlementProtocolVersion = ''QSD-edge-settlement/v1''"
definition SettlementProofSource :: string where "SettlementProofSource = ''QSD-edge-relay-v2''"
definition ProductionEcosystemWallet :: string where
  "ProductionEcosystemWallet = ''651a79b2b1790820dd73bda81be24057e1bc27377c1f1117c6db2ab79dc038ea''"

definition ResourceKind_Valid :: "string \<Rightarrow> bool" where
  "ResourceKind_Valid r \<longleftrightarrow> r = ''cpu'' \<or> r = ''gpu'' \<or> r = ''ram''"

record Receipt =
  rc_ReceiptID :: string
  rc_WorkerID :: string
  rc_Resource :: string
  rc_Digest :: string
  rc_Units :: u64
  rc_MemoryMiB :: u64
  rc_AcceptedAt :: string

record PoolProof =
  pp_Version :: string
  pp_ProofID :: string
  pp_CoordinatorID :: string
  pp_Resource :: string
  pp_WindowStart :: string
  pp_WindowEnd :: string
  pp_WorkerCount :: int
  pp_JobCount :: int
  pp_TotalUnits :: u64
  pp_TotalMemoryMiB :: u64
  pp_ReceiptRoot :: string
  pp_ReceiptIDs :: "string list"
  pp_Signature :: string
  pp_SettlementVersion :: string
  pp_ContributorWallet :: string
  pp_MotherHiveWallet :: string
  pp_EcosystemWallet :: string
  pp_RelayPublicKey :: string
  pp_RelaySignature :: string

record SettlementBinding =
  sb_Version :: string
  sb_ContributorWallet :: string
  sb_MotherHiveWallet :: string
  sb_EcosystemWallet :: string
  sb_BoundAt :: string

record SettlementAckResponse =
  ack_ProofID :: string
  ack_Resource :: string
  ack_ConsumedReceipts :: int
  ack_AcknowledgedAt :: string

definition alnum :: "char \<Rightarrow> bool" where
  "alnum c = (let n = (of_char c :: nat) in 48 \<le> n \<and> n \<le> 57 \<or> 65 \<le> n \<and> n \<le> 90 \<or> 97 \<le> n \<and> n \<le> 122)"

text \<open>A regular expression of the form \<open>^[first][rest]{0,n}$\<close>.\<close>

definition ident :: "(char \<Rightarrow> bool) \<Rightarrow> (char \<Rightarrow> bool) \<Rightarrow> nat \<Rightarrow> string \<Rightarrow> bool" where
  "ident first rest n s = (case s of [] \<Rightarrow> False | c # cs \<Rightarrow> first c \<and> list_all rest cs \<and> length cs \<le> n)"

definition ValidateWorkerID :: "string \<Rightarrow> bool" where
  "ValidateWorkerID s = ident alnum (\<lambda>c. alnum c \<or> c = CHR ''.'' \<or> c = CHR ''_'' \<or> c = CHR ''-'') 63 s"

definition PoolProofSignature :: "bytes \<Rightarrow> PoolProof \<Rightarrow> string" where
  "PoolProofSignature token p =
     hex_encode (hmac_sha256 token (bytes_of_string (join [CHR 0x0A]
       [pp_Version p, pp_ProofID p, pp_CoordinatorID p, pp_Resource p, pp_WindowStart p, pp_WindowEnd p, show_int (pp_WorkerCount p),
        show_int (pp_JobCount p), show_nat (unat (pp_TotalUnits p)), show_nat (unat (pp_TotalMemoryMiB p)), pp_ReceiptRoot p,
        join '','' (pp_ReceiptIDs p)])))"

definition VerifyPoolProof :: "bytes \<Rightarrow> PoolProof \<Rightarrow> bool" where
  "VerifyPoolProof token p =
     (case hex_decode (pp_Signature p) of None \<Rightarrow> False
      | Some provided \<Rightarrow>
          (case hex_decode (PoolProofSignature token p) of None \<Rightarrow> False | Some expected \<Rightarrow> provided = expected))"

definition receipt_before :: "Receipt \<Rightarrow> Receipt \<Rightarrow> bool" where
  "receipt_before a b = (rc_ReceiptID a < rc_ReceiptID b)"

definition zero_time :: Time where "zero_time = utc (- 62135596800000000000)"

definition widen_window :: "RelayEnv \<Rightarrow> Receipt \<Rightarrow> Time \<times> Time \<Rightarrow> Time \<times> Time" where
  "widen_window env r w =
     (case re_ParseTime env (rc_AcceptedAt r) of None \<Rightarrow> w
      | Some t \<Rightarrow> (if Instant t < Instant (fst w) then t else fst w, if Instant t > Instant (snd w) then t else snd w))"

definition AggregateReceipts :: "RelayEnv \<Rightarrow> string \<Rightarrow> string \<Rightarrow> Receipt list \<Rightarrow> go_time \<Rightarrow> PoolProof" where
  "AggregateReceipts env coordinatorID resource receipts now =
     (let rs = filter (\<lambda>r. rc_Resource r = resource) (go_sort receipt_before receipts);
          totalUnits = foldl (\<lambda>x r. x + rc_Units r) 0 rs;
          (start, end') = fold (widen_window env) rs (utc now, zero_time);
          windowEnd = (if Instant end' = Instant zero_time then utc now else end');
          root = hex_encode (sha256 (bytes_of_string (concat (map (\<lambda>r. rc_ReceiptID r @ rc_Digest r) rs))));
          proofHash = sha256_hex (join '':'' [EdgeProtocolVersion, coordinatorID, resource, root, show_nat (unat totalUnits)])
      in \<lparr>pp_Version = EdgeProtocolVersion, pp_ProofID = proofHash, pp_CoordinatorID = coordinatorID, pp_Resource = resource,
          pp_WindowStart = time_text start, pp_WindowEnd = time_text windowEnd,
          pp_WorkerCount = int (length (remdups (map rc_WorkerID rs))), pp_JobCount = int (length rs), pp_TotalUnits = totalUnits,
          pp_TotalMemoryMiB = foldl (\<lambda>x r. x + rc_MemoryMiB r) 0 rs, pp_ReceiptRoot = root, pp_ReceiptIDs = map rc_ReceiptID rs,
          pp_Signature = [], pp_SettlementVersion = [], pp_ContributorWallet = [], pp_MotherHiveWallet = [], pp_EcosystemWallet = [],
          pp_RelayPublicKey = [], pp_RelaySignature = []\<rparr>)"

section \<open>settlement.go: identity and verification\<close>

definition validSettlementWallet :: "RelayEnv \<Rightarrow> string \<Rightarrow> bool" where
  "validSettlementWallet env address =
     (case hex_decode (TrimSpace (re_Unicode env) address) of None \<Rightarrow> False | Some b \<Rightarrow> length b = 32)"

datatype settle_error =
  SetErrKey | SetErrVersion | SetErrCoordinator | SetErrRelayID | SetErrResource | SetErrWallet | SetErrAccounting | SetErrReceiptCount
| SetErrTooMany | SetErrRoot | SetErrReceiptID | SetErrProofID | SetErrSignature | SetErrBindingVersion | SetErrEcosystem | SetErrTime
| SetErrNotBound | SetErrNoReceipts | SetErrConflict | SetErrProofNotFound | SetErrPersist | SetErrAckID

definition ValidateSettlementRelayPublicKey :: "RelayEnv \<Rightarrow> string \<Rightarrow> settle_error option" where
  "ValidateSettlementRelayPublicKey env encoded =
     (case hex_decode (ToLower (re_Unicode env) (TrimSpace (re_Unicode env) encoded)) of
        None \<Rightarrow> Some SetErrKey
      | Some b \<Rightarrow> if length b \<noteq> re_PublicKeySize env then Some SetErrKey
                  else if \<not> re_PublicKeyOk env b then Some SetErrKey else None)"

definition SettlementRelayID :: "RelayEnv \<Rightarrow> string \<Rightarrow> settle_error + string" where
  "SettlementRelayID env encodedPublicKey =
     (let canonical = ToLower (re_Unicode env) (TrimSpace (re_Unicode env) encodedPublicKey)
      in case ValidateSettlementRelayPublicKey env canonical of Some e \<Rightarrow> Inl e
         | None \<Rightarrow>
             let key = (case hex_decode canonical of None \<Rightarrow> [] | Some b \<Rightarrow> b)
             in Inr (hex_encode (sha256 (bytes_of_string (''QSD-EDGE-RELAY-ID'' @ [CHR 0x00]) @ key))))"

definition validateSettlementBinding :: "RelayEnv \<Rightarrow> SettlementBinding \<Rightarrow> settle_error option" where
  "validateSettlementBinding env b =
     (if sb_Version b \<noteq> SettlementProtocolVersion then Some SetErrBindingVersion
      else if \<not> validSettlementWallet env (sb_ContributorWallet b) then Some SetErrWallet
      else if \<not> validSettlementWallet env (sb_MotherHiveWallet b) then Some SetErrWallet
      else if \<not> validSettlementWallet env (sb_EcosystemWallet b) then Some SetErrWallet
      else if \<not> EqualFold (re_Unicode env) (sb_EcosystemWallet b) ProductionEcosystemWallet then Some SetErrEcosystem
      else if re_ParseTime env (sb_BoundAt b) = None then Some SetErrTime
      else None)"

definition json_strings :: "string list \<Rightarrow> string" where
  "json_strings ss = (if ss = [] then ''null'' else json_array (map json_string ss))"

definition settlementIdentity :: "RelayEnv \<Rightarrow> PoolProof \<Rightarrow> string" where
  "settlementIdentity env p =
     (let lo = ToLower (re_Unicode env)
      in json_object
        [json_field ''protocol_version'' (json_string (pp_Version p)),
         json_field ''settlement_version'' (json_string (pp_SettlementVersion p)),
         json_field ''coordinator_id'' (json_string (pp_CoordinatorID p)),
         json_field ''resource'' (json_string (pp_Resource p)),
         json_field ''window_start'' (json_string (pp_WindowStart p)),
         json_field ''window_end'' (json_string (pp_WindowEnd p)),
         json_field ''worker_count'' (show_int (pp_WorkerCount p)),
         json_field ''job_count'' (show_int (pp_JobCount p)),
         json_field ''total_units'' (show_nat (unat (pp_TotalUnits p))),
         json_field ''total_memory_mib'' (show_nat (unat (pp_TotalMemoryMiB p))),
         json_field ''receipt_root'' (json_string (lo (pp_ReceiptRoot p))),
         json_field ''receipt_ids'' (json_strings (pp_ReceiptIDs p)),
         json_field ''contributor_wallet'' (json_string (lo (pp_ContributorWallet p))),
         json_field ''mother_hive_wallet'' (json_string (lo (pp_MotherHiveWallet p))),
         json_field ''ecosystem_wallet'' (json_string (lo (pp_EcosystemWallet p))),
         json_field ''relay_public_key'' (json_string (lo (pp_RelayPublicKey p)))])"

definition SettlementProofID :: "RelayEnv \<Rightarrow> PoolProof \<Rightarrow> string" where
  "SettlementProofID env p = sha256_hex (''QSD-EDGE-SETTLEMENT-ID'' @ [CHR 0x00] @ html_escape (settlementIdentity env p))"

definition SettlementProofCanonicalBytes :: "RelayEnv \<Rightarrow> PoolProof \<Rightarrow> string" where
  "SettlementProofCanonicalBytes env p =
     html_escape (json_object
       [json_field ''domain'' (json_string SettlementProtocolVersion),
        json_field ''proof_id'' (json_string (ToLower (re_Unicode env) (pp_ProofID p))),
        json_field ''proof'' (settlementIdentity env p)])"

text \<open>The receipt loop: every identifier is 32 bytes of hex and the trimmed, lower-cased ones are strictly increasing.\<close>

fun check_receipt_ids :: "RelayEnv \<Rightarrow> string list \<Rightarrow> string \<Rightarrow> string list \<Rightarrow> settle_error option" where
  "check_receipt_ids env seen previous [] = None"
| "check_receipt_ids env seen previous (receiptID # rest) =
     (let canonical = ToLower (re_Unicode env) (TrimSpace (re_Unicode env) receiptID)
      in case hex_decode canonical of None \<Rightarrow> Some SetErrReceiptID
         | Some b \<Rightarrow>
             if length b \<noteq> 32 then Some SetErrReceiptID
             else if canonical \<in> set seen then Some SetErrReceiptID
             else if previous \<noteq> [] \<and> canonical \<le> previous then Some SetErrReceiptID
             else check_receipt_ids env (canonical # seen) canonical rest)"

definition VerifySettlementPoolProof :: "RelayEnv \<Rightarrow> PoolProof \<Rightarrow> settle_error option" where
  "VerifySettlementPoolProof env p =
     (if pp_Version p \<noteq> EdgeProtocolVersion then Some SetErrVersion
      else if pp_SettlementVersion p \<noteq> SettlementProtocolVersion then Some SetErrVersion
      else if \<not> ValidateWorkerID (pp_CoordinatorID p) then Some SetErrCoordinator
      else case SettlementRelayID env (pp_RelayPublicKey p) of Inl e \<Rightarrow> Some e | Inr expectedRelayID \<Rightarrow>
      if \<not> EqualFold (re_Unicode env) (pp_CoordinatorID p) expectedRelayID then Some SetErrRelayID
      else if \<not> ResourceKind_Valid (pp_Resource p) then Some SetErrResource
      else if \<not> validSettlementWallet env (pp_ContributorWallet p) \<or> \<not> validSettlementWallet env (pp_MotherHiveWallet p) \<or>
              \<not> validSettlementWallet env (pp_EcosystemWallet p) then Some SetErrWallet
      else if pp_JobCount p \<le> 0 \<or> pp_WorkerCount p \<le> 0 \<or> pp_WorkerCount p > pp_JobCount p then Some SetErrAccounting
      else if pp_JobCount p \<noteq> int (length (pp_ReceiptIDs p)) \<or> pp_TotalUnits p = 0 then Some SetErrReceiptCount
      else if length (pp_ReceiptIDs p) > 512 then Some SetErrTooMany
      else if (case hex_decode (pp_ReceiptRoot p) of None \<Rightarrow> True | Some b \<Rightarrow> length b \<noteq> 32) then Some SetErrRoot
      else case check_receipt_ids env [] [] (pp_ReceiptIDs p) of Some e \<Rightarrow> Some e | None \<Rightarrow>
      if \<not> EqualFold (re_Unicode env) (SettlementProofID env p) (pp_ProofID p) then Some SetErrProofID
      else case hex_decode (pp_RelaySignature p) of None \<Rightarrow> Some SetErrSignature | Some sig \<Rightarrow>
      if length sig \<noteq> re_SignatureSize env then Some SetErrSignature
      else let key = (case hex_decode (pp_RelayPublicKey p) of None \<Rightarrow> [] | Some b \<Rightarrow> b)
           in if \<not> re_PublicKeyOk env key then Some SetErrKey
              else if \<not> re_Verify env key (bytes_of_string (SettlementProofCanonicalBytes env p)) sig then Some SetErrSignature
              else None)"

section \<open>settlement.go: the relay's settlement state\<close>

record settlementState =
  st_Binding :: "SettlementBinding option"
  Pending :: "(string, PoolProof) fmap"
  ConsumedReceipts :: "(string, string) fmap"
  AcknowledgedProofs :: "(string, SettlementAckResponse) fmap"

definition newSettlementState :: settlementState where
  "newSettlementState = \<lparr>st_Binding = None, Pending = fmempty, ConsumedReceipts = fmempty, AcknowledgedProofs = fmempty\<rparr>"

record RelayConfig =
  rl_ProofWindow :: int
  rl_MaxProofReceipts :: nat
  rl_MotherToken :: bytes
  rl_PublicKey :: string
  rl_Sign :: "bytes \<Rightarrow> bytes" \<comment> \<open>the signature under the relay's key\<close>

definition sortedUnconsumedReceipts ::
    "RelayEnv \<Rightarrow> Receipt list \<Rightarrow> (string, string) fmap \<Rightarrow> string \<Rightarrow> go_time \<Rightarrow> nat \<Rightarrow> Receipt list" where
  "sortedUnconsumedReceipts env receipts consumed resource cutoff limit =
     take limit (go_sort receipt_before (filter (\<lambda>r.
       rc_Resource r = resource \<and> fmlookup consumed (ToLower (re_Unicode env) (rc_ReceiptID r)) = None \<and>
       (case re_ParseTime env (rc_AcceptedAt r) of None \<Rightarrow> False | Some t \<Rightarrow> \<not> Instant t < cutoff)) receipts))"

definition BindSettlement ::
    "RelayEnv \<Rightarrow> bool \<Rightarrow> string \<Rightarrow> string \<Rightarrow> string \<Rightarrow> string \<Rightarrow> go_time \<Rightarrow> settlementState \<Rightarrow> (settle_error + SettlementBinding) \<times> settlementState" where
  "BindSettlement env saved version contributor motherHive ecosystem now st =
     (let norm = (\<lambda>s. ToLower (re_Unicode env) (TrimSpace (re_Unicode env) s)); eq = EqualFold (re_Unicode env);
          b = \<lparr>sb_Version = TrimSpace (re_Unicode env) version, sb_ContributorWallet = norm contributor,
               sb_MotherHiveWallet = norm motherHive, sb_EcosystemWallet = norm ecosystem, sb_BoundAt = time_text (utc now)\<rparr>
      in case validateSettlementBinding env b of Some e \<Rightarrow> (Inl e, st)
         | None \<Rightarrow>
             (case st_Binding st of
                Some x \<Rightarrow>
                  (if sb_Version x = sb_Version b \<and> eq (sb_ContributorWallet x) (sb_ContributorWallet b) \<and>
                      eq (sb_MotherHiveWallet x) (sb_MotherHiveWallet b) \<and> eq (sb_EcosystemWallet x) (sb_EcosystemWallet b)
                   then (Inr x, st) else (Inl SetErrConflict, st))
              | None \<Rightarrow> if \<not> saved then (Inl SetErrPersist, st) else (Inr b, st\<lparr>st_Binding := Some b\<rparr>)))"

definition build_settlement_proof ::
    "RelayEnv \<Rightarrow> RelayConfig \<Rightarrow> SettlementBinding \<Rightarrow> string \<Rightarrow> Receipt list \<Rightarrow> go_time \<Rightarrow> settle_error + PoolProof" where
  "build_settlement_proof env cfg b resource selected now =
     (case SettlementRelayID env (rl_PublicKey cfg) of Inl e \<Rightarrow> Inl e | Inr relayID \<Rightarrow>
      let p = (AggregateReceipts env relayID resource selected now)
                \<lparr>pp_SettlementVersion := SettlementProtocolVersion, pp_ContributorWallet := sb_ContributorWallet b,
                 pp_MotherHiveWallet := sb_MotherHiveWallet b, pp_EcosystemWallet := sb_EcosystemWallet b,
                 pp_RelayPublicKey := rl_PublicKey cfg\<rparr>;
          p = p\<lparr>pp_ProofID := SettlementProofID env p\<rparr>;
          p = p\<lparr>pp_Signature := PoolProofSignature (rl_MotherToken cfg) p\<rparr>;
          p = p\<lparr>pp_RelaySignature := hex_encode (rl_Sign cfg (bytes_of_string (SettlementProofCanonicalBytes env p)))\<rparr>
      in case VerifySettlementPoolProof env p of Some e \<Rightarrow> Inl e | None \<Rightarrow> Inr p)"

definition LatestSettlementProof ::
    "RelayEnv \<Rightarrow> RelayConfig \<Rightarrow> bool \<Rightarrow> Receipt list \<Rightarrow> string \<Rightarrow> go_time \<Rightarrow> settlementState \<Rightarrow> (settle_error + PoolProof) \<times> settlementState" where
  "LatestSettlementProof env cfg saved receipts resource now st =
     (if \<not> ResourceKind_Valid resource then (Inl SetErrResource, st)
      else case fmlookup (Pending st) resource of Some p \<Rightarrow> (Inr p, st) | None \<Rightarrow>
      case st_Binding st of None \<Rightarrow> (Inl SetErrNotBound, st) | Some b \<Rightarrow>
      let selected = sortedUnconsumedReceipts env receipts (ConsumedReceipts st) resource (now - rl_ProofWindow cfg) (rl_MaxProofReceipts cfg)
      in if selected = [] then (Inl SetErrNoReceipts, st)
         else case build_settlement_proof env cfg b resource selected now of Inl e \<Rightarrow> (Inl e, st)
         | Inr p \<Rightarrow> if \<not> saved then (Inl SetErrPersist, st) else (Inr p, st\<lparr>Pending := fmupd resource p (Pending st)\<rparr>))"

text \<open>The pending proofs are searched in map order (\<open>ord\<close>).\<close>

definition AcknowledgeSettlementProof ::
    "RelayEnv \<Rightarrow> bool \<Rightarrow> string list \<Rightarrow> string \<Rightarrow> string \<Rightarrow> go_time \<Rightarrow> settlementState \<Rightarrow>
       (settle_error + SettlementAckResponse) \<times> settlementState" where
  "AcknowledgeSettlementProof env saved ord version rawProofID now st =
     (if TrimSpace (re_Unicode env) version \<noteq> SettlementProtocolVersion then (Inl SetErrVersion, st)
      else
        let proofID = ToLower (re_Unicode env) (TrimSpace (re_Unicode env) rawProofID)
        in if (case hex_decode proofID of None \<Rightarrow> True | Some b \<Rightarrow> length b \<noteq> 32) then (Inl SetErrAckID, st)
           else case fmlookup (AcknowledgedProofs st) proofID of Some a \<Rightarrow> (Inr a, st) | None \<Rightarrow>
           case find (\<lambda>r. EqualFold (re_Unicode env) (pp_ProofID (the (fmlookup (Pending st) r))) proofID) ord of
             None \<Rightarrow> (Inl SetErrProofNotFound, st)
           | Some resource \<Rightarrow>
               if \<not> ResourceKind_Valid resource then (Inl SetErrProofNotFound, st)
               else
                 let p = the (fmlookup (Pending st) resource);
                     a = \<lparr>ack_ProofID = proofID, ack_Resource = resource, ack_ConsumedReceipts = int (length (pp_ReceiptIDs p)),
                          ack_AcknowledgedAt = time_text (utc now)\<rparr>
                 in if \<not> saved then (Inl SetErrPersist, st)
                    else (Inr a, st\<lparr>Pending := fmdrop resource (Pending st),
                      ConsumedReceipts := fold (\<lambda>i m. fmupd (ToLower (re_Unicode env) i) proofID m) (pp_ReceiptIDs p) (ConsumedReceipts st),
                      AcknowledgedProofs := fmupd proofID a (AcknowledgedProofs st)\<rparr>))"

section \<open>Lemmas\<close>

lemma fold_fmupd_lookup:
  "fmlookup (fold (\<lambda>i m. fmupd (f i) v m) is m) k = (if k \<in> f ` set is then Some v else fmlookup m k)"
  by (induction "is" arbitrary: m) auto

text \<open>A verified proof lists distinct receipts, compared after trimming and lower-casing.\<close>

lemma check_receipt_ids_distinct:
  assumes "check_receipt_ids env seen previous is = None"
  shows "distinct (map (\<lambda>i. ToLower (re_Unicode env) (TrimSpace (re_Unicode env) i)) is) \<and>
     set (map (\<lambda>i. ToLower (re_Unicode env) (TrimSpace (re_Unicode env) i)) is) \<inter> set seen = {}"
  using assms
proof (induction "is" arbitrary: seen previous)
  case (Cons i "is")
  then have "check_receipt_ids env (ToLower (re_Unicode env) (TrimSpace (re_Unicode env) i) # seen)
      (ToLower (re_Unicode env) (TrimSpace (re_Unicode env) i)) is = None"
    "ToLower (re_Unicode env) (TrimSpace (re_Unicode env) i) \<notin> set seen"
    by (auto simp: Let_def split: option.splits if_splits)
  then show ?case using Cons.IH by fastforce
qed simp

end
