(* ===== verification/TaskCatalog.thy ===== *)
theory TaskCatalog
  imports EdgeSettlement EnrollmentApply
begin

text \<open>
  The data of \<open>pkg/chain/task_state.go\<close> and the task catalog of \<open>task_catalog.go\<close>: manifests, their normalisation and
  validation, and the catalog actions. JSON decoding, URL parsing and the shortest decimal rendering of a \<open>float64\<close> are fields
  of \<open>TaskCodec\<close>; \<open>tc_Payload\<close> is total because the code ignores the decoder's error and keeps what was decoded.
\<close>

section \<open>Data\<close>

record TaskAction =
  TA_ID :: string
  TA_Sender :: string
  TA_TaskID :: string
  TA_Action :: string
  TA_Amount :: f64
  TA_Payload :: string
  TA_Nonce :: u64
  TA_Timestamp :: string

record TaskRuntimeManifest =
  rt_Kind :: string
  rt_Capability :: string
  rt_ModuleURL :: string
  rt_ModuleSHA256 :: string
  rt_ABI :: string
  rt_MinHiveVersion :: string
  rt_MaxMemoryMB :: u64
  rt_MaxRuntimeSeconds :: u64

record TaskManifest =
  TM_SchemaVersion :: u64
  TM_TaskID :: string
  TM_Version :: u64
  TM_Name :: string
  TM_Description :: string
  TM_Manager :: string
  TM_Active :: bool
  TM_Runtime :: TaskRuntimeManifest
  MinimumStakeAmount :: f64
  RewardPerRound :: f64
  RoundTime :: u64
  SubmissionWindow :: u64
  AuditWindow :: u64
  TM_MetadataURL :: string
  TM_SourceURL :: string
  TM_IconURL :: string
  TM_Tags :: "string list"
  AuthorizedRelayIDs :: "string list"

record TaskParticipantState =
  TP_Sender :: string
  TP_Running :: bool
  TP_Stake :: f64
  TP_LastAction :: string
  TP_LastActionID :: string
  TP_LastActionAt :: string
  TP_LastStartedAt :: string
  TP_LastStoppedAt :: string
  SubmissionCount :: u64
  ClaimCount :: u64
  TP_PendingRewardAmount :: f64
  TotalRewardClaimedAmount :: f64
  TP_LastClaimedAt :: string

record TaskSubmissionState =
  SB_ActionID :: string
  SB_Sender :: string
  SB_Round :: u64
  SB_Slot :: u64
  SB_SubmissionValue :: string
  SB_Payload :: string
  SB_RewardAmount :: f64
  SB_Claimed :: bool
  SB_ClaimedAt :: string
  SB_Timestamp :: string
  SettlementProofIDOf :: string
  SettlementCoordinatorID :: string
  SettlementContributorWallet :: string
  SettlementMotherHiveWallet :: string
  SettlementEcosystemWallet :: string
  SettlementContributorAmount :: f64
  SettlementMotherHiveAmount :: f64
  SettlementEcosystemAmount :: f64

record PooledRelayBinding =
  rb_CoordinatorID :: string
  rb_RelayPublicKey :: string
  rb_ContributorWallet :: string
  rb_MotherHiveWallet :: string
  rb_EcosystemWallet :: string
  rb_BoundByActionID :: string

record TaskState =
  TS_TaskID :: string
  Manifest :: "TaskManifest option"
  CatalogPaused :: bool
  CatalogPublishedAt :: string
  CatalogUpdatedAt :: string
  TotalStakeAmount :: f64
  RewardPoolAmount :: f64
  TS_PendingRewardAmount :: f64
  TotalRewardPaidAmount :: f64
  RunningCount :: int
  TS_LastAction :: string
  TS_LastActionID :: string
  TS_LastActionAt :: string
  IsMigrated :: bool
  TS_MigratedTo :: string
  Participants :: "(string, TaskParticipantState) fmap"
  Submissions :: "(string, (string, TaskSubmissionState) fmap) fmap"

record TaskStateStore =
  tasks :: "(string, TaskState) fmap"
  actionIDs :: "string fset"
  senderNonce :: "(string, u64) fmap"
  pooledRelayBindings :: "(string, PooledRelayBinding) fmap"
  settledPooledProofs :: "(string, string) fmap"
  settledPooledReceipts :: "(string, string) fmap"

record taskActionPayload =
  PL_Round :: u64
  PL_Slot :: u64
  PL_SubmissionValue :: string
  PL_MigratedTo :: string
  PL_RewardAmount :: f64

record resourceWorkerProofPayload =
  en_Source :: string
  en_Resource :: string
  en_SubmissionValue :: string
  en_Proof :: string

record resourceWorkerProofDetails =
  pd_Algorithm :: string
  pd_Digest :: string
  pd_Units :: u64
  pd_ReceiptRoot :: string
  pd_JobCount :: int
  pd_TotalUnits :: u64

record TaskCodec =
  tc_Env :: RelayEnv
  tc_Action :: "bytes \<Rightarrow> TaskAction option"
  tc_Payload :: "string \<Rightarrow> taskActionPayload"
  tc_Manifest :: "string \<Rightarrow> TaskManifest option"
  tc_Envelope :: "string \<Rightarrow> resourceWorkerProofPayload option"
  tc_PoolProof :: "string \<Rightarrow> PoolProof option"
  tc_Details :: "string \<Rightarrow> resourceWorkerProofDetails option"
  tc_URL :: "string \<Rightarrow> (string \<times> string \<times> bool) option" \<comment> \<open>scheme, host, has user information\<close>
  tc_Float :: "f64 \<Rightarrow> string"

text \<open>Errors without a sentinel of their own carry a tag.\<close>

datatype task_error =
  ErrDuplicateTaskAction | ErrTaskActionNonceReplay | ErrNotTaskActionTx | ErrInsufficientTaskStake | ErrInsufficientTaskRewardPool
| ErrNoTaskReward | ErrTaskActionRequiresStake | ErrPooledResourceProofNotEnforceable | ErrPooledSettlementRequiresEconomicApply
| ErrLegacyResourceWorkerProof | ErrTaskManifestExists | ErrTaskManifestNotFound | ErrTaskManifestManagerMismatch | ErrTaskManifestVersion
| TErrAccount account_error | TErrSettle settle_error | TErr string

section \<open>Manifests\<close>

definition TaskCatalogSchemaVersion :: u64 where "TaskCatalogSchemaVersion = 1"
definition TaskActionCatalogRegister :: string where "TaskActionCatalogRegister = ''catalog-register''"
definition TaskActionCatalogUpdate :: string where "TaskActionCatalogUpdate = ''catalog-update''"
definition TaskActionCatalogPause :: string where "TaskActionCatalogPause = ''catalog-pause''"
definition TaskActionCatalogResume :: string where "TaskActionCatalogResume = ''catalog-resume''"

definition isTaskCatalogAction :: "string \<Rightarrow> bool" where
  "isTaskCatalogAction a \<longleftrightarrow> a = TaskActionCatalogRegister \<or> a = TaskActionCatalogUpdate \<or> a = TaskActionCatalogPause \<or> a = TaskActionCatalogResume"

definition is_digit :: "char \<Rightarrow> bool" where
  "is_digit c = (let n = (of_char c :: nat) in 48 \<le> n \<and> n \<le> 57)"

definition lower_alnum :: "char \<Rightarrow> bool" where
  "lower_alnum c = (let n = (of_char c :: nat) in 48 \<le> n \<and> n \<le> 57 \<or> 97 \<le> n \<and> n \<le> 122)"

definition taskCatalogIDPattern :: "string \<Rightarrow> bool" where
  "taskCatalogIDPattern s = ident alnum (\<lambda>c. alnum c \<or> c \<in> {CHR ''.'', CHR ''_'', CHR '':'', CHR ''-''}) 127 s"

definition taskCapabilityPattern :: "string \<Rightarrow> bool" where
  "taskCapabilityPattern s = ident lower_alnum (\<lambda>c. lower_alnum c \<or> c \<in> {CHR ''.'', CHR ''_'', CHR ''-''}) 127 s"

text \<open>Digits, a dot, digits, a dot, digits and an optional suffix that starts with a minus or plus sign.\<close>

definition taskSemanticVersionPattern :: "string \<Rightarrow> bool" where
  "taskSemanticVersionPattern s =
     (let a = takeWhile is_digit s; s1 = dropWhile is_digit s;
          b = takeWhile is_digit (tl s1); s2 = dropWhile is_digit (tl s1);
          c = takeWhile is_digit (tl s2); s3 = dropWhile is_digit (tl s2)
      in a \<noteq> [] \<and> s1 \<noteq> [] \<and> hd s1 = CHR ''.'' \<and> b \<noteq> [] \<and> s2 \<noteq> [] \<and> hd s2 = CHR ''.'' \<and> c \<noteq> [] \<and>
         (s3 = [] \<or> hd s3 \<in> {CHR ''-'', CHR 0x2B} \<and> tl s3 \<noteq> [] \<and> list_all (\<lambda>x. alnum x \<or> x \<in> {CHR ''.'', CHR ''-''}) (tl s3)))"

abbreviation tc_lower :: "TaskCodec \<Rightarrow> string \<Rightarrow> string" where "tc_lower tc \<equiv> ToLower (re_Unicode (tc_Env tc))"
abbreviation tc_trim :: "TaskCodec \<Rightarrow> string \<Rightarrow> string" where "tc_trim tc \<equiv> TrimSpace (re_Unicode (tc_Env tc))"
abbreviation tc_fold :: "TaskCodec \<Rightarrow> string \<Rightarrow> string \<Rightarrow> bool" where "tc_fold tc \<equiv> EqualFold (re_Unicode (tc_Env tc))"

definition validateTaskManifestHTTPSURL :: "TaskCodec \<Rightarrow> string \<Rightarrow> task_error option" where
  "validateTaskManifestHTTPSURL tc raw =
     (if raw = [] then None
      else if length raw > 2048 then Some (TErr ''url'')
      else case tc_URL tc raw of None \<Rightarrow> Some (TErr ''url'')
      | Some (scheme, host, user) \<Rightarrow> if scheme \<noteq> ''https'' \<or> host = [] \<or> user then Some (TErr ''url'') else None)"

definition invalidTaskAmount :: "f64 \<Rightarrow> bool" where
  "invalidTaskAmount v \<longleftrightarrow> fless v fzero \<or> v = NaN \<or> (\<exists>s. v = Inf s)"

text \<open>The keys of the set of normalised entries, sorted.\<close>

definition normalizeTaskManifestTags :: "TaskCodec \<Rightarrow> string list \<Rightarrow> string list" where
  "normalizeTaskManifestTags tc tags = sort (remdups (filter (\<lambda>t. t \<noteq> []) (map (\<lambda>t. tc_lower tc (tc_trim tc t)) tags)))"

definition normalizeTaskRelayIDs :: "TaskCodec \<Rightarrow> string list \<Rightarrow> string list" where
  "normalizeTaskRelayIDs tc ids = sort (remdups (filter (\<lambda>t. t \<noteq> []) (map (\<lambda>t. tc_lower tc (tc_trim tc t)) ids)))"

definition hex32 :: "string \<Rightarrow> bool" where
  "hex32 s = (case hex_decode s of None \<Rightarrow> False | Some b \<Rightarrow> length b = 32)"

definition validateTaskManifest :: "TaskCodec \<Rightarrow> TaskAction \<Rightarrow> TaskManifest \<Rightarrow> task_error option" where
  "validateTaskManifest tc action m =
     (if TM_SchemaVersion m \<noteq> TaskCatalogSchemaVersion then Some (TErr ''schema_version'')
      else if TM_TaskID m \<noteq> TA_TaskID action \<or> \<not> taskCatalogIDPattern (TM_TaskID m) then Some (TErr ''task_id'')
      else if TM_Version m = 0 then Some ErrTaskManifestVersion
      else if TM_Manager m \<noteq> tc_lower tc (tc_trim tc (TA_Sender action)) then Some ErrTaskManifestManagerMismatch
      else if length (TM_Name m) = 0 \<or> length (TM_Name m) > 120 then Some (TErr ''name'')
      else if length (TM_Description m) > 2000 then Some (TErr ''description'')
      else if RoundTime m = 0 \<or> RoundTime m > 10000000 then Some (TErr ''round_time'')
      else if SubmissionWindow m > RoundTime m \<or> AuditWindow m > RoundTime m then Some (TErr ''windows'')
      else if invalidTaskAmount (MinimumStakeAmount m) \<or> invalidTaskAmount (RewardPerRound m) then Some (TErr ''amounts'')
      else if length (TM_Tags m) > 16 then Some (TErr ''tags'')
      else if length (AuthorizedRelayIDs m) > 16 then Some (TErr ''relays'')
      else if list_ex (\<lambda>i. \<not> hex32 i) (AuthorizedRelayIDs m) then Some (TErr ''relay id'')
      else if list_ex (\<lambda>t. length t = 0 \<or> length t > 32 \<or> \<not> taskCapabilityPattern t) (TM_Tags m) then Some (TErr ''tag'')
      else if list_ex (\<lambda>u. validateTaskManifestHTTPSURL tc u \<noteq> None) [TM_MetadataURL m, TM_SourceURL m, TM_IconURL m] then Some (TErr ''url'')
      else if rt_MinHiveVersion (TM_Runtime m) \<noteq> [] \<and> \<not> taskSemanticVersionPattern (rt_MinHiveVersion (TM_Runtime m))
        then Some (TErr ''min_hive_version'')
      else if rt_MaxMemoryMB (TM_Runtime m) > 4096 \<or> rt_MaxRuntimeSeconds (TM_Runtime m) > 86400 then Some (TErr ''resource limit'')
      else if rt_Kind (TM_Runtime m) = ''capability'' then
        (if \<not> taskCapabilityPattern (rt_Capability (TM_Runtime m)) then Some (TErr ''capability'')
         else if rt_ModuleURL (TM_Runtime m) \<noteq> [] \<or> rt_ModuleSHA256 (TM_Runtime m) \<noteq> [] then Some (TErr ''remote module'')
         else None)
      else if rt_Kind (TM_Runtime m) = ''wasm'' then
        (if validateTaskManifestHTTPSURL tc (rt_ModuleURL (TM_Runtime m)) \<noteq> None then Some (TErr ''url'')
         else if \<not> hex32 (rt_ModuleSHA256 (TM_Runtime m)) then Some (TErr ''module_sha256'')
         else if length (rt_ABI (TM_Runtime m)) = 0 \<or> length (rt_ABI (TM_Runtime m)) > 64 then Some (TErr ''abi'')
         else None)
      else Some (TErr ''runtime kind''))"

definition normalizeTaskManifest :: "TaskCodec \<Rightarrow> TaskManifest \<Rightarrow> TaskManifest" where
  "normalizeTaskManifest tc m =
     (let r = TM_Runtime m; trim = tc_trim tc; low = (\<lambda>s. tc_lower tc (tc_trim tc s))
      in m\<lparr>TM_TaskID := trim (TM_TaskID m), TM_Name := trim (TM_Name m), TM_Description := trim (TM_Description m),
           TM_Manager := low (TM_Manager m),
           TM_Runtime := r\<lparr>rt_Kind := low (rt_Kind r), rt_Capability := low (rt_Capability r), rt_ModuleURL := trim (rt_ModuleURL r),
             rt_ModuleSHA256 := low (rt_ModuleSHA256 r), rt_ABI := trim (rt_ABI r), rt_MinHiveVersion := trim (rt_MinHiveVersion r)\<rparr>,
           TM_MetadataURL := trim (TM_MetadataURL m), TM_SourceURL := trim (TM_SourceURL m), TM_IconURL := trim (TM_IconURL m),
           TM_Tags := normalizeTaskManifestTags tc (TM_Tags m), AuthorizedRelayIDs := normalizeTaskRelayIDs tc (AuthorizedRelayIDs m)\<rparr>)"

definition decodeTaskManifest :: "TaskCodec \<Rightarrow> TaskAction \<Rightarrow> task_error + TaskManifest" where
  "decodeTaskManifest tc action =
     (if tc_trim tc (TA_Payload action) = [] then Inl (TErr ''manifest payload'')
      else case tc_Manifest tc (TA_Payload action) of None \<Rightarrow> Inl (TErr ''decode manifest'') | Some raw \<Rightarrow>
      let m = normalizeTaskManifest tc raw
      in case validateTaskManifest tc action m of Some e \<Rightarrow> Inl e | None \<Rightarrow> Inr m)"

section \<open>Catalog actions\<close>

definition new_task :: "string \<Rightarrow> TaskState" where
  "new_task taskID =
     \<lparr>TS_TaskID = taskID, Manifest = None, CatalogPaused = False, CatalogPublishedAt = [], CatalogUpdatedAt = [],
      TotalStakeAmount = fzero, RewardPoolAmount = fzero, TS_PendingRewardAmount = fzero, TotalRewardPaidAmount = fzero,
      RunningCount = 0, TS_LastAction = [], TS_LastActionID = [], TS_LastActionAt = [], IsMigrated = False, TS_MigratedTo = [],
      Participants = fmempty, Submissions = fmempty\<rparr>"

definition getOrCreateTaskLocked :: "string \<Rightarrow> TaskStateStore \<Rightarrow> TaskState" where
  "getOrCreateTaskLocked taskID s = (case fmlookup (tasks s) taskID of Some t \<Rightarrow> t | None \<Rightarrow> new_task taskID)"

text \<open>The new state of the task; the caller stores it.\<close>

definition applyTaskCatalogActionLocked :: "TaskCodec \<Rightarrow> TaskAction \<Rightarrow> TaskStateStore \<Rightarrow> task_error + TaskState" where
  "applyTaskCatalogActionLocked tc action s =
     (let found = (case fmlookup (tasks s) (TA_TaskID action) of None \<Rightarrow> None
                   | Some t \<Rightarrow> (case Manifest t of None \<Rightarrow> None | Some m \<Rightarrow> Some (t, m)))
      in if TA_Action action = TaskActionCatalogRegister then
           (case decodeTaskManifest tc action of Inl e \<Rightarrow> Inl e | Inr m \<Rightarrow>
            if TM_Version m \<noteq> 1 then Inl ErrTaskManifestVersion
            else if found \<noteq> None then Inl ErrTaskManifestExists
            else Inr ((getOrCreateTaskLocked (TA_TaskID action) s)\<lparr>Manifest := Some m, CatalogPaused := False,
                   CatalogPublishedAt := TA_Timestamp action, CatalogUpdatedAt := TA_Timestamp action\<rparr>))
         else if TA_Action action = TaskActionCatalogUpdate then
           (case found of None \<Rightarrow> Inl ErrTaskManifestNotFound | Some (t, old) \<Rightarrow>
            if TM_Manager old \<noteq> tc_lower tc (tc_trim tc (TA_Sender action)) then Inl ErrTaskManifestManagerMismatch
            else case decodeTaskManifest tc action of Inl e \<Rightarrow> Inl e | Inr m \<Rightarrow>
            if TM_Manager m \<noteq> TM_Manager old then Inl ErrTaskManifestManagerMismatch
            else if TM_Version m \<noteq> TM_Version old + 1 then Inl ErrTaskManifestVersion
            else Inr (t\<lparr>Manifest := Some m, CatalogUpdatedAt := TA_Timestamp action\<rparr>))
         else if TA_Action action = TaskActionCatalogPause \<or> TA_Action action = TaskActionCatalogResume then
           (case found of None \<Rightarrow> Inl ErrTaskManifestNotFound | Some (t, old) \<Rightarrow>
            if TM_Manager old \<noteq> tc_lower tc (tc_trim tc (TA_Sender action)) then Inl ErrTaskManifestManagerMismatch
            else Inr (t\<lparr>CatalogPaused := (TA_Action action = TaskActionCatalogPause), CatalogUpdatedAt := TA_Timestamp action\<rparr>))
         else Inl (TErr ''catalog action''))"

section \<open>Catalog fingerprint\<close>

definition show_bool :: "bool \<Rightarrow> string" where
  "show_bool b = (if b then ''true'' else ''false'')"

definition json_nonempty :: "string \<Rightarrow> string \<Rightarrow> string list" where
  "json_nonempty name v = opt_field (v \<noteq> []) (json_field name (json_string v))"

definition json_positive :: "string \<Rightarrow> u64 \<Rightarrow> string list" where
  "json_positive name v = opt_field (v \<noteq> 0) (json_field name (show_nat (unat v)))"

definition marshal_runtime :: "TaskRuntimeManifest \<Rightarrow> string" where
  "marshal_runtime r = json_object (json_field ''kind'' (json_string (rt_Kind r)) #
     json_nonempty ''capability'' (rt_Capability r) @ json_nonempty ''module_url'' (rt_ModuleURL r) @
     json_nonempty ''module_sha256'' (rt_ModuleSHA256 r) @ json_nonempty ''abi'' (rt_ABI r) @
     json_nonempty ''min_hive_version'' (rt_MinHiveVersion r) @ json_positive ''max_memory_mb'' (rt_MaxMemoryMB r) @
     json_positive ''max_runtime_seconds'' (rt_MaxRuntimeSeconds r))"

definition marshal_manifest :: "TaskCodec \<Rightarrow> TaskManifest \<Rightarrow> string" where
  "marshal_manifest tc m = html_escape (json_object (
     [json_field ''schema_version'' (show_nat (unat (TM_SchemaVersion m))), json_field ''task_id'' (json_string (TM_TaskID m)),
      json_field ''version'' (show_nat (unat (TM_Version m))), json_field ''name'' (json_string (TM_Name m))] @
     json_nonempty ''description'' (TM_Description m) @
     [json_field ''manager'' (json_string (TM_Manager m)), json_field ''active'' (show_bool (TM_Active m)),
      json_field ''runtime'' (marshal_runtime (TM_Runtime m))] @
     opt_field (\<not> feq (MinimumStakeAmount m) fzero) (json_field ''minimum_stake_amount'' (tc_Float tc (MinimumStakeAmount m))) @
     opt_field (\<not> feq (RewardPerRound m) fzero) (json_field ''reward_per_round'' (tc_Float tc (RewardPerRound m))) @
     [json_field ''round_time'' (show_nat (unat (RoundTime m)))] @
     json_positive ''submission_window'' (SubmissionWindow m) @ json_positive ''audit_window'' (AuditWindow m) @
     json_nonempty ''metadata_url'' (TM_MetadataURL m) @ json_nonempty ''source_url'' (TM_SourceURL m) @
     json_nonempty ''icon_url'' (TM_IconURL m) @
     opt_field (TM_Tags m \<noteq> []) (json_field ''tags'' (json_array (map json_string (TM_Tags m)))) @
     opt_field (AuthorizedRelayIDs m \<noteq> []) (json_field ''authorized_relay_ids'' (json_array (map json_string (AuthorizedRelayIDs m))))))"

definition task_id_before :: "TaskState \<Rightarrow> TaskState \<Rightarrow> bool" where
  "task_id_before a b = (TS_TaskID a < TS_TaskID b)"

definition catalog_line :: "TaskCodec \<Rightarrow> TaskState \<Rightarrow> TaskManifest \<Rightarrow> string" where
  "catalog_line tc t m = marshal_manifest tc m @ '':'' @ show_bool (CatalogPaused t) @ '':'' @ CatalogPublishedAt t @ '':'' @ CatalogUpdatedAt t @ '';''"

definition TaskCatalogRoot :: "TaskCodec \<Rightarrow> TaskState list \<Rightarrow> string" where
  "TaskCatalogRoot tc ts =
     (let cat = filter (\<lambda>t. Manifest t \<noteq> None) ts
      in if cat = [] then []
         else sha256_hex (concat (map (\<lambda>t. TS_TaskID t @ '':'' @ catalog_line tc t (the (Manifest t))) (go_sort task_id_before cat))))"

end
