(* ===== verification/TaskState.thy ===== *)
theory TaskState
  imports TaskCatalog
begin

text \<open>
  \<open>pkg/chain/task_state.go\<close>: the task store, its actions and the economic transaction path that moves coins between accounts
  and tasks. An action's result is an error or a pooled settlement, if any, with the store it leaves behind: an action that fails
  after the task was looked up leaves a task it created in the store. Go ranges over the submissions of a task in map order;
  the orders are arguments (\<open>ord\<close>, a list of rounds).
\<close>

section \<open>Amounts\<close>

definition TaskContractID :: string where "TaskContractID = ''QSD/tasks/v1''"
definition taskAmountEpsilon :: f64 where "taskAmountEpsilon = f64_ratio 1 1000000000"
definition pooledSettlementMaxSlotLag :: u64 where "pooledSettlementMaxSlotLag = 4"
definition ResourceWorkerProofActivationHeight :: u64 where "ResourceWorkerProofActivationHeight = 155103"

definition taskAmountLessThan :: "f64 \<Rightarrow> f64 \<Rightarrow> bool" where
  "taskAmountLessThan have' need = fless (fadd have' taskAmountEpsilon) need"

definition clampTaskAmount :: "f64 \<Rightarrow> f64" where
  "clampTaskAmount v = (if fless v taskAmountEpsilon then fzero else v)"

fun fabs :: "f64 \<Rightarrow> f64" where
  "fabs (Fin _ m) = Fin False m"
| "fabs (Inf _) = Inf False"
| "fabs NaN = NaN"

definition splitPooledSettlementReward :: "f64 \<Rightarrow> task_error + (f64 \<times> f64 \<times> f64)" where
  "splitPooledSettlementReward reward =
     (let rewardDust = balanceToDust reward
      in if rewardDust = 0 then Inl (TErr ''reward below one dust'')
         else if fless taskAmountEpsilon (fabs (fsub (dustToBalance rewardDust) reward)) then Inl (TErr ''reward decimals'')
         else let contributorDust = rewardDust * 70 div 100; motherHiveDust = rewardDust * 15 div 100;
                  ecosystemDust = rewardDust - contributorDust - motherHiveDust
              in Inr (dustToBalance contributorDust, dustToBalance motherHiveDust, dustToBalance ecosystemDust))"

definition validTaskDigest :: "TaskCodec \<Rightarrow> string \<Rightarrow> bool" where
  "validTaskDigest tc v = hex32 (tc_trim tc v)"

definition systemResourceTaskPolicies :: "string \<Rightarrow> (string \<times> f64) option" where
  "systemResourceTaskPolicies t =
     (if t = ''QSD-edge-worker'' then Some (''cpu'', f64_ratio 5 100)
      else if t = ''QSD-edge-worker-gpu'' then Some (''gpu'', f64_ratio 10 100)
      else if t = ''QSD-edge-worker-ram'' then Some (''ram'', f64_ratio 5 100)
      else None)"

definition parseTaskActionPayload :: "TaskCodec \<Rightarrow> string \<Rightarrow> taskActionPayload" where
  "parseTaskActionPayload tc raw =
     (if raw = [] then \<lparr>PL_Round = 0, PL_Slot = 0, PL_SubmissionValue = [], PL_MigratedTo = [], PL_RewardAmount = fzero\<rparr>
      else tc_Payload tc raw)"

section \<open>Store\<close>

definition NewTaskStateStore :: TaskStateStore where
  "NewTaskStateStore = \<lparr>tasks = fmempty, actionIDs = {||}, senderNonce = fmempty, pooledRelayBindings = fmempty,
     settledPooledProofs = fmempty, settledPooledReceipts = fmempty\<rparr>"

definition cloneTaskState :: "TaskState \<Rightarrow> TaskState" where "cloneTaskState t = t"

definition Tasks_ChainReplayClone :: "TaskStateStore \<Rightarrow> TaskStateStore" where
  "Tasks_ChainReplayClone s = s\<lparr>tasks := fmmap cloneTaskState (tasks s)\<rparr>"

definition Tasks_RestoreFromChainReplay :: "TaskStateStore \<Rightarrow> TaskStateStore \<Rightarrow> TaskStateStore" where
  "Tasks_RestoreFromChainReplay from s = from\<lparr>tasks := fmmap cloneTaskState (tasks from)\<rparr>"

definition GetTask :: "string \<Rightarrow> TaskStateStore \<Rightarrow> TaskState option" where
  "GetTask taskID s = map_option cloneTaskState (fmlookup (tasks s) taskID)"

definition AllTasks :: "TaskStateStore \<Rightarrow> TaskState list" where
  "AllTasks s = map (\<lambda>i. cloneTaskState (the (fmlookup (tasks s) i))) (sorted_keys (tasks s))"

definition new_participant :: TaskParticipantState where
  "new_participant =
     \<lparr>TP_Sender = [], TP_Running = False, TP_Stake = fzero, TP_LastAction = [], TP_LastActionID = [], TP_LastActionAt = [],
      TP_LastStartedAt = [], TP_LastStoppedAt = [], SubmissionCount = 0, ClaimCount = 0, TP_PendingRewardAmount = fzero,
      TotalRewardClaimedAmount = fzero, TP_LastClaimedAt = []\<rparr>"

definition participant_of :: "TaskState \<Rightarrow> string \<Rightarrow> TaskParticipantState" where
  "participant_of t sender = (case fmlookup (Participants t) sender of None \<Rightarrow> new_participant | Some p \<Rightarrow> p)"

definition ParticipantStake :: "string \<Rightarrow> string \<Rightarrow> TaskStateStore \<Rightarrow> f64" where
  "ParticipantStake taskID sender s =
     (case fmlookup (tasks s) taskID of None \<Rightarrow> fzero | Some t \<Rightarrow> TP_Stake (participant_of t sender))"

definition RewardPool :: "string \<Rightarrow> TaskStateStore \<Rightarrow> f64" where
  "RewardPool taskID s = (case fmlookup (tasks s) taskID of None \<Rightarrow> fzero | Some t \<Rightarrow> RewardPoolAmount t)"

definition Tasks_Count :: "TaskStateStore \<Rightarrow> nat" where
  "Tasks_Count s = map_len (tasks s)"

definition CatalogRoot :: "TaskCodec \<Rightarrow> TaskStateStore \<Rightarrow> string" where
  "CatalogRoot tc s = TaskCatalogRoot tc (AllTasks s)"

section \<open>Claims\<close>

text \<open>The reward of a submission that a claim with this payload collects, as both loops decide it.\<close>

definition claimed_here :: "taskActionPayload \<Rightarrow> string \<Rightarrow> TaskState \<Rightarrow> string \<Rightarrow> TaskSubmissionState option" where
  "claimed_here payload sender t rk =
     (if PL_Round payload \<noteq> 0 \<and> rk \<noteq> show_nat (unat (PL_Round payload)) then None
      else case fmlookup (Submissions t) rk of None \<Rightarrow> None | Some bySender \<Rightarrow>
      case fmlookup bySender sender of None \<Rightarrow> None | Some sub \<Rightarrow>
      if SB_Claimed sub \<or> fle (SB_RewardAmount sub) fzero then None else Some sub)"

fun claimableRewardLocked :: "taskActionPayload \<Rightarrow> string \<Rightarrow> TaskState \<Rightarrow> f64 \<Rightarrow> string list \<Rightarrow> f64" where
  "claimableRewardLocked payload sender t reward [] = reward"
| "claimableRewardLocked payload sender t reward (rk # rounds) =
     (case claimed_here payload sender t rk of
        None \<Rightarrow> claimableRewardLocked payload sender t reward rounds
      | Some sub \<Rightarrow> claimableRewardLocked payload sender t (fadd reward (SB_RewardAmount sub)) rounds)"

definition ClaimableReward :: "TaskCodec \<Rightarrow> string list \<Rightarrow> TaskAction \<Rightarrow> TaskStateStore \<Rightarrow> f64" where
  "ClaimableReward tc ord action s =
     (case fmlookup (tasks s) (TA_TaskID action) of None \<Rightarrow> fzero
      | Some t \<Rightarrow> claimableRewardLocked (parseTaskActionPayload tc (TA_Payload action)) (TA_Sender action) t fzero ord)"

fun claim_loop :: "taskActionPayload \<Rightarrow> string \<Rightarrow> string \<Rightarrow> TaskState \<Rightarrow> f64 \<Rightarrow> string list \<Rightarrow> f64 \<times> TaskState" where
  "claim_loop payload sender ts t reward [] = (reward, t)"
| "claim_loop payload sender ts t reward (rk # rounds) =
     (case claimed_here payload sender t rk of
        None \<Rightarrow> claim_loop payload sender ts t reward rounds
      | Some sub \<Rightarrow>
          let bySender = the (fmlookup (Submissions t) rk);
              t' = t\<lparr>Submissions := fmupd rk (fmupd sender (sub\<lparr>SB_Claimed := True, SB_ClaimedAt := ts\<rparr>) bySender) (Submissions t)\<rparr>
          in claim_loop payload sender ts t' (fadd reward (SB_RewardAmount sub)) rounds)"

definition clampTaskRewardAccounting :: "TaskState \<Rightarrow> TaskParticipantState \<Rightarrow> TaskState \<times> TaskParticipantState" where
  "clampTaskRewardAccounting t p =
     (let t = (if fless (TS_PendingRewardAmount t) fzero then t\<lparr>TS_PendingRewardAmount := clampTaskAmount (TS_PendingRewardAmount t)\<rparr> else t);
          t = (if fless (RewardPoolAmount t) fzero then t\<lparr>RewardPoolAmount := clampTaskAmount (RewardPoolAmount t)\<rparr> else t);
          p = (if fless (TP_PendingRewardAmount p) fzero then p\<lparr>TP_PendingRewardAmount := clampTaskAmount (TP_PendingRewardAmount p)\<rparr> else p)
      in (t, p))"

definition applyClaimLocked ::
    "TaskCodec \<Rightarrow> string list \<Rightarrow> TaskAction \<Rightarrow> TaskState \<Rightarrow> TaskParticipantState \<Rightarrow> (task_error option) \<times> TaskState \<times> TaskParticipantState" where
  "applyClaimLocked tc ord action t p =
     (let payload = parseTaskActionPayload tc (TA_Payload action);
          (reward, t') = claim_loop payload (TA_Sender action) (TA_Timestamp action) t fzero ord
      in if fle reward fzero then (Some ErrNoTaskReward, t', p)
         else (None, clampTaskRewardAccounting
           (t'\<lparr>TS_PendingRewardAmount := fsub (TS_PendingRewardAmount t') reward, TotalRewardPaidAmount := fadd (TotalRewardPaidAmount t') reward\<rparr>)
           (p\<lparr>TP_PendingRewardAmount := fsub (TP_PendingRewardAmount p) reward,
              TotalRewardClaimedAmount := fadd (TotalRewardClaimedAmount p) reward, TP_LastClaimedAt := TA_Timestamp action\<rparr>)))"

section \<open>Submission policy\<close>

record pooledResourceSettlement =
  ps_Proof :: PoolProof
  ContributorAmount :: f64
  MotherHiveAmount :: f64
  EcosystemAmount :: f64

definition taskManifestAuthorizesRelay :: "TaskCodec \<Rightarrow> TaskManifest option \<Rightarrow> string \<Rightarrow> bool" where
  "taskManifestAuthorizesRelay tc m relayID =
     (case m of None \<Rightarrow> False | Some m \<Rightarrow> list_ex (\<lambda>a. tc_fold tc a relayID) (AuthorizedRelayIDs m))"

definition validatePooledSettlementTime :: "TaskCodec \<Rightarrow> string \<Rightarrow> PoolProof \<Rightarrow> task_error option" where
  "validatePooledSettlementTime tc actionTimestamp proof =
     (let parse = re_ParseTime (tc_Env tc)
      in case parse actionTimestamp of None \<Rightarrow> Some (TErr ''action timestamp'') | Some actionTime \<Rightarrow>
      case parse (pp_WindowStart proof) of None \<Rightarrow> Some (TErr ''window start'') | Some windowStart \<Rightarrow>
      case parse (pp_WindowEnd proof) of None \<Rightarrow> Some (TErr ''window end'') | Some windowEnd \<Rightarrow>
      if Instant windowEnd < Instant windowStart \<or> duration (Instant windowEnd - Instant windowStart) > 2 * 3600 * 1000000000
        then Some (TErr ''window'')
      else if Instant windowEnd > Instant actionTime + 120 * 1000000000 then Some (TErr ''window after action'')
      else if duration (Instant actionTime - Instant windowEnd) > 24 * 3600 * 1000000000 then Some (TErr ''proof age'')
      else None)"

text \<open>The branch for relay settlements, behind the test on the proof source.\<close>

definition pooled_settlement ::
    "TaskCodec \<Rightarrow> TaskState \<Rightarrow> TaskAction \<Rightarrow> taskActionPayload \<Rightarrow> resourceWorkerProofPayload \<Rightarrow> string \<Rightarrow> bool \<Rightarrow> u64 \<Rightarrow> TaskStateStore \<Rightarrow>
       task_error + pooledResourceSettlement" where
  "pooled_settlement tc t action payload envelope resource allowPooledSettlement currentHeight s =
     (if \<not> allowPooledSettlement then Inl ErrPooledSettlementRequiresEconomicApply
      else if currentHeight = 0 then Inl (TErr ''height'')
      else if PL_Slot payload > currentHeight \<or> currentHeight - PL_Slot payload > pooledSettlementMaxSlotLag then Inl (TErr ''slot'')
      else let roundTime = (case Manifest t of None \<Rightarrow> 60 | Some m \<Rightarrow> if RoundTime m > 0 then RoundTime m else 60)
      in if PL_Round payload \<noteq> PL_Slot payload div roundTime then Inl (TErr ''round'')
      else case tc_PoolProof tc (en_Proof envelope) of None \<Rightarrow> Inl (TErr ''decode proof'') | Some proof \<Rightarrow>
      case VerifySettlementPoolProof (tc_Env tc) proof of Some e \<Rightarrow> Inl (TErrSettle e) | None \<Rightarrow>
      if pp_Resource proof \<noteq> resource then Inl (TErr ''resource'')
      else if \<not> tc_fold tc (en_SubmissionValue envelope) (pp_ReceiptRoot proof) then Inl (TErr ''receipt root'')
      else if \<not> tc_fold tc (TA_Sender action) (pp_MotherHiveWallet proof) then Inl (TErr ''sender'')
      else if \<not> tc_fold tc (pp_EcosystemWallet proof) ProductionEcosystemWallet then Inl (TErr ''ecosystem'')
      else if Manifest t = None \<or> \<not> taskManifestAuthorizesRelay tc (Manifest t) (pp_CoordinatorID proof) then Inl (TErr ''relay'')
      else case validatePooledSettlementTime tc (TA_Timestamp action) proof of Some e \<Rightarrow> Inl e | None \<Rightarrow>
      if fmlookup (settledPooledProofs s) (tc_lower tc (pp_ProofID proof)) \<noteq> None then Inl (TErr ''proof consumed'')
      else if list_ex (\<lambda>i. fmlookup (settledPooledReceipts s) (tc_lower tc i) \<noteq> None) (pp_ReceiptIDs proof) then Inl (TErr ''receipt consumed'')
      else if (case fmlookup (pooledRelayBindings s) (pp_CoordinatorID proof) of None \<Rightarrow> False
               | Some b \<Rightarrow> \<not> tc_fold tc (rb_RelayPublicKey b) (pp_RelayPublicKey proof) \<or>
                   \<not> tc_fold tc (rb_ContributorWallet b) (pp_ContributorWallet proof) \<or>
                   \<not> tc_fold tc (rb_MotherHiveWallet b) (pp_MotherHiveWallet proof) \<or>
                   \<not> tc_fold tc (rb_EcosystemWallet b) (pp_EcosystemWallet proof)) then Inl (TErr ''binding'')
      else case splitPooledSettlementReward (PL_RewardAmount payload) of Inl e \<Rightarrow> Inl e
      | Inr (contributor, motherHive, ecosystem) \<Rightarrow>
          Inr \<lparr>ps_Proof = proof, ContributorAmount = contributor, MotherHiveAmount = motherHive, EcosystemAmount = ecosystem\<rparr>)"

definition local_resource_proof :: "TaskCodec \<Rightarrow> resourceWorkerProofPayload \<Rightarrow> string \<Rightarrow> task_error option" where
  "local_resource_proof tc envelope proofSource =
     (case tc_Details tc (en_Proof envelope) of None \<Rightarrow> Some (TErr ''decode details'') | Some d \<Rightarrow>
      if proofSource = ''QSD-edge-pool'' \<or> proofSource = ''QSD-edge-relay'' then
        (if pd_JobCount d \<le> 0 \<or> pd_TotalUnits d = 0 \<or> \<not> validTaskDigest tc (pd_ReceiptRoot d) then Some (TErr ''pooled proof'')
         else if \<not> tc_fold tc (en_SubmissionValue envelope) (pd_ReceiptRoot d) then Some (TErr ''pooled value'')
         else Some ErrPooledResourceProofNotEnforceable)
      else if tc_trim tc (pd_Algorithm d) = [] \<or> pd_Units d = 0 \<or> \<not> validTaskDigest tc (pd_Digest d) then Some (TErr ''local proof'')
      else if \<not> tc_fold tc (en_SubmissionValue envelope) (pd_Digest d) then Some (TErr ''local value'')
      else None)"

definition manifest_policy :: "TaskState \<Rightarrow> TaskParticipantState \<Rightarrow> taskActionPayload \<Rightarrow> task_error option" where
  "manifest_policy t p payload =
     (case Manifest t of None \<Rightarrow> None
      | Some m \<Rightarrow>
          if CatalogPaused t \<or> \<not> TM_Active m then Some (TErr ''not active'')
          else if taskAmountLessThan (TP_Stake p) (MinimumStakeAmount m) then Some ErrInsufficientTaskStake
          else if taskAmountLessThan (RewardPerRound m) (PL_RewardAmount payload) then Some (TErr ''reward_per_round'')
          else None)"

definition validateTaskSubmissionPolicyLocked ::
    "TaskCodec \<Rightarrow> TaskState \<Rightarrow> TaskParticipantState \<Rightarrow> TaskAction \<Rightarrow> taskActionPayload \<Rightarrow> bool \<Rightarrow> bool \<Rightarrow> u64 \<Rightarrow> TaskStateStore \<Rightarrow>
       task_error + pooledResourceSettlement option" where
  "validateTaskSubmissionPolicyLocked tc t p action payload allowLegacy allowPooled currentHeight s =
     (case manifest_policy t p payload of Some e \<Rightarrow> Inl e | None \<Rightarrow>
      case systemResourceTaskPolicies (TA_TaskID action) of None \<Rightarrow> Inr None | Some (resource, maxRoundReward) \<Rightarrow>
      if taskAmountLessThan maxRoundReward (PL_RewardAmount payload) then Inl (TErr ''consensus cap'')
      else case tc_Envelope tc (TA_Payload action) of None \<Rightarrow> Inl (TErr ''decode proof'') | Some envelope \<Rightarrow>
      if allowLegacy \<and> tc_trim tc (en_Resource envelope) = [] then Inr None
      else if tc_trim tc (en_Resource envelope) = [] then Inl ErrLegacyResourceWorkerProof
      else if tc_lower tc (tc_trim tc (en_Resource envelope)) \<noteq> resource then Inl (TErr ''resource'')
      else if tc_trim tc (en_SubmissionValue envelope) = [] \<or> en_Proof envelope = [] then Inl (TErr ''value and proof'')
      else
        let proofSource = tc_lower tc (tc_trim tc (en_Source envelope))
        in if proofSource = SettlementProofSource then
             (case pooled_settlement tc t action payload envelope resource allowPooled currentHeight s of Inl e \<Rightarrow> Inl e | Inr x \<Rightarrow> Inr (Some x))
           else case local_resource_proof tc envelope proofSource of Some e \<Rightarrow> Inl e | None \<Rightarrow> Inr None)"

section \<open>Submissions\<close>

definition submission_checks ::
    "TaskCodec \<Rightarrow> TaskState \<Rightarrow> TaskParticipantState \<Rightarrow> TaskAction \<Rightarrow> taskActionPayload \<Rightarrow> pooledResourceSettlement option \<Rightarrow>
       TaskSubmissionState option \<Rightarrow> task_error option" where
  "submission_checks tc t p action payload settlement existing =
     (let roundKey = show_nat (unat (PL_Round payload));
          value' = tc_trim tc (PL_SubmissionValue payload);
          availableRewardPool = (case existing of Some x \<Rightarrow> if fless fzero (SB_RewardAmount x) then fadd (RewardPoolAmount t) (SB_RewardAmount x)
                                                          else RewardPoolAmount t | None \<Rightarrow> RewardPoolAmount t)
      in if systemResourceTaskPolicies (TA_TaskID action) \<noteq> None \<and>
            list_ex (\<lambda>prior. prior \<noteq> roundKey \<and>
              (case fmlookup (the (fmlookup (Submissions t) prior)) (TA_Sender action) of None \<Rightarrow> False
               | Some sub \<Rightarrow> tc_fold tc (tc_trim tc (SB_SubmissionValue sub)) value')) (sorted_keys (Submissions t))
           then Some (TErr ''proof already submitted'')
         else if fless fzero (PL_RewardAmount payload) \<and> fle (TP_Stake p) fzero then Some ErrTaskActionRequiresStake
         else if fless fzero (PL_RewardAmount payload) \<and> taskAmountLessThan availableRewardPool (PL_RewardAmount payload)
           then Some ErrInsufficientTaskRewardPool
         else if settlement \<noteq> None \<and> fle (PL_RewardAmount payload) fzero then Some (TErr ''settlement reward'')
         else None)"

text \<open>The reward accounting: the reward of a replaced submission goes back to the pool first.\<close>

definition refund_existing :: "TaskSubmissionState option \<Rightarrow> TaskState \<Rightarrow> TaskParticipantState \<Rightarrow> TaskState \<times> TaskParticipantState" where
  "refund_existing existing t p =
     (case existing of None \<Rightarrow> (t, p)
      | Some x \<Rightarrow>
          if fless fzero (SB_RewardAmount x) then
            clampTaskRewardAccounting
              (t\<lparr>RewardPoolAmount := fadd (RewardPoolAmount t) (SB_RewardAmount x),
                 TS_PendingRewardAmount := fsub (TS_PendingRewardAmount t) (SB_RewardAmount x)\<rparr>)
              (p\<lparr>TP_PendingRewardAmount := fsub (TP_PendingRewardAmount p) (SB_RewardAmount x)\<rparr>)
          else (t, p))"

definition settle_reward ::
    "TaskCodec \<Rightarrow> TaskAction \<Rightarrow> taskActionPayload \<Rightarrow> pooledResourceSettlement option \<Rightarrow> TaskState \<Rightarrow> TaskParticipantState \<Rightarrow>
       TaskState \<times> TaskParticipantState" where
  "settle_reward tc action payload settlement t p =
     (case settlement of
        Some x \<Rightarrow>
          (let mine = (\<lambda>w a r. if tc_fold tc (TA_Sender action) w then fadd r a else r);
               participantReward = mine (pp_EcosystemWallet (ps_Proof x)) (EcosystemAmount x)
                 (mine (pp_MotherHiveWallet (ps_Proof x)) (MotherHiveAmount x)
                   (mine (pp_ContributorWallet (ps_Proof x)) (ContributorAmount x) fzero))
           in clampTaskRewardAccounting
                (t\<lparr>RewardPoolAmount := fsub (RewardPoolAmount t) (PL_RewardAmount payload),
                   TotalRewardPaidAmount := fadd (TotalRewardPaidAmount t) (PL_RewardAmount payload)\<rparr>)
                (p\<lparr>TotalRewardClaimedAmount := fadd (TotalRewardClaimedAmount p) participantReward, TP_LastClaimedAt := TA_Timestamp action\<rparr>))
      | None \<Rightarrow>
          if fless fzero (PL_RewardAmount payload) then
            clampTaskRewardAccounting
              (t\<lparr>RewardPoolAmount := fsub (RewardPoolAmount t) (PL_RewardAmount payload),
                 TS_PendingRewardAmount := fadd (TS_PendingRewardAmount t) (PL_RewardAmount payload)\<rparr>)
              (p\<lparr>TP_PendingRewardAmount := fadd (TP_PendingRewardAmount p) (PL_RewardAmount payload)\<rparr>)
          else (t, p))"

definition new_submission ::
    "TaskCodec \<Rightarrow> TaskAction \<Rightarrow> taskActionPayload \<Rightarrow> pooledResourceSettlement option \<Rightarrow> TaskSubmissionState" where
  "new_submission tc action payload settlement =
     (let sub = \<lparr>SB_ActionID = TA_ID action, SB_Sender = TA_Sender action, SB_Round = PL_Round payload, SB_Slot = PL_Slot payload,
                 SB_SubmissionValue = (if PL_SubmissionValue payload = [] then TA_Payload action else PL_SubmissionValue payload),
                 SB_Payload = TA_Payload action, SB_RewardAmount = PL_RewardAmount payload, SB_Claimed = False, SB_ClaimedAt = [],
                 SB_Timestamp = TA_Timestamp action, SettlementProofIDOf = [], SettlementCoordinatorID = [], SettlementContributorWallet = [],
                 SettlementMotherHiveWallet = [], SettlementEcosystemWallet = [], SettlementContributorAmount = fzero,
                 SettlementMotherHiveAmount = fzero, SettlementEcosystemAmount = fzero\<rparr>
      in case settlement of None \<Rightarrow> sub
         | Some x \<Rightarrow> sub\<lparr>SB_Claimed := True, SB_ClaimedAt := TA_Timestamp action,
             SettlementProofIDOf := tc_lower tc (pp_ProofID (ps_Proof x)), SettlementCoordinatorID := pp_CoordinatorID (ps_Proof x),
             SettlementContributorWallet := tc_lower tc (pp_ContributorWallet (ps_Proof x)),
             SettlementMotherHiveWallet := tc_lower tc (pp_MotherHiveWallet (ps_Proof x)),
             SettlementEcosystemWallet := tc_lower tc (pp_EcosystemWallet (ps_Proof x)),
             SettlementContributorAmount := ContributorAmount x, SettlementMotherHiveAmount := MotherHiveAmount x,
             SettlementEcosystemAmount := EcosystemAmount x\<rparr>)"

definition record_settlement :: "TaskCodec \<Rightarrow> TaskAction \<Rightarrow> pooledResourceSettlement \<Rightarrow> TaskStateStore \<Rightarrow> TaskStateStore" where
  "record_settlement tc action x s =
     (let p = ps_Proof x; lo = tc_lower tc;
          s = (case fmlookup (pooledRelayBindings s) (pp_CoordinatorID p) of Some _ \<Rightarrow> s
               | None \<Rightarrow> s\<lparr>pooledRelayBindings := fmupd (pp_CoordinatorID p)
                   \<lparr>rb_CoordinatorID = pp_CoordinatorID p, rb_RelayPublicKey = lo (pp_RelayPublicKey p), rb_ContributorWallet = lo (pp_ContributorWallet p),
                    rb_MotherHiveWallet = lo (pp_MotherHiveWallet p), rb_EcosystemWallet = lo (pp_EcosystemWallet p), rb_BoundByActionID = TA_ID action\<rparr>
                   (pooledRelayBindings s)\<rparr>)
      in s\<lparr>settledPooledProofs := fmupd (lo (pp_ProofID p)) (TA_ID action) (settledPooledProofs s),
           settledPooledReceipts := fold (\<lambda>i m. fmupd (lo i) (lo (pp_ProofID p)) m) (pp_ReceiptIDs p) (settledPooledReceipts s)\<rparr>)"

definition store_submission :: "string \<Rightarrow> string \<Rightarrow> TaskSubmissionState \<Rightarrow> TaskState \<Rightarrow> TaskState" where
  "store_submission roundKey sender sub t =
     (let bySender = (case fmlookup (Submissions t) roundKey of None \<Rightarrow> fmempty | Some m \<Rightarrow> m)
      in t\<lparr>Submissions := fmupd roundKey (fmupd sender sub bySender) (Submissions t)\<rparr>)"

definition applySubmissionLocked ::
    "TaskCodec \<Rightarrow> TaskAction \<Rightarrow> bool \<Rightarrow> bool \<Rightarrow> u64 \<Rightarrow> TaskStateStore \<Rightarrow> TaskState \<Rightarrow> TaskParticipantState \<Rightarrow>
       task_error + (pooledResourceSettlement option \<times> TaskStateStore \<times> TaskState \<times> TaskParticipantState)" where
  "applySubmissionLocked tc action allowLegacy allowPooled currentHeight s t p =
     (let payload = parseTaskActionPayload tc (TA_Payload action); roundKey = show_nat (unat (PL_Round payload));
          existing = (case fmlookup (Submissions t) roundKey of None \<Rightarrow> None | Some m \<Rightarrow> fmlookup m (TA_Sender action))
      in if fless (PL_RewardAmount payload) fzero then Inl (TErr ''negative reward'')
         else case validateTaskSubmissionPolicyLocked tc t p action payload allowLegacy allowPooled currentHeight s of Inl e \<Rightarrow> Inl e
         | Inr settlement \<Rightarrow>
             if existing \<noteq> None \<and> settlement \<noteq> None then Inl (TErr ''round already submitted'')
             else if existing \<noteq> None \<and> SB_Claimed (the existing) then Inr (None, s, t, p)
             else case submission_checks tc t p action payload settlement existing of Some e \<Rightarrow> Inl e
             | None \<Rightarrow>
                 let (t, p) = refund_existing existing t p;
                     (t, p) = settle_reward tc action payload settlement t p;
                     s = (case settlement of None \<Rightarrow> s | Some x \<Rightarrow> record_settlement tc action x s)
                 in Inr (settlement, s, store_submission roundKey (TA_Sender action) (new_submission tc action payload settlement) t, p))"

section \<open>Actions\<close>

definition put_task :: "TaskState \<Rightarrow> string \<Rightarrow> TaskStateStore \<Rightarrow> TaskStateStore" where
  "put_task t taskID s = s\<lparr>tasks := fmupd taskID t (tasks s)\<rparr>"

definition note_action :: "TaskAction \<Rightarrow> TaskStateStore \<Rightarrow> TaskStateStore" where
  "note_action action s =
     s\<lparr>actionIDs := finsert (TA_ID action) (actionIDs s),
       senderNonce := (if TA_Nonce action > 0 then fmupd (TA_Sender action) (TA_Nonce action) (senderNonce s) else senderNonce s)\<rparr>"

definition touch_task :: "TaskAction \<Rightarrow> TaskState \<Rightarrow> TaskState" where
  "touch_task action t =
     t\<lparr>TS_LastAction := TA_Action action, TS_LastActionID := TA_ID action, TS_LastActionAt := TA_Timestamp action\<rparr>"

text \<open>The switch of \<open>applyAction\<close> on the participant actions.\<close>

definition participant_action ::
    "TaskCodec \<Rightarrow> string list \<Rightarrow> TaskAction \<Rightarrow> bool \<Rightarrow> bool \<Rightarrow> u64 \<Rightarrow> TaskStateStore \<Rightarrow> TaskState \<Rightarrow> TaskParticipantState \<Rightarrow>
       task_error + (pooledResourceSettlement option \<times> TaskStateStore \<times> TaskState \<times> TaskParticipantState)" where
  "participant_action tc ord action allowLegacy allowPooled currentHeight s t p =
     (if TA_Action action = ''start'' then
        (if fle (TP_Stake p) fzero then Inl ErrTaskActionRequiresStake
         else Inr (None, s, (if TP_Running p then t else t\<lparr>RunningCount := RunningCount t + 1\<rparr>),
                p\<lparr>TP_Running := True, TP_LastStartedAt := TA_Timestamp action\<rparr>))
      else if TA_Action action = ''stop'' then
        Inr (None, s, (if TP_Running p \<and> RunningCount t > 0 then t\<lparr>RunningCount := RunningCount t - 1\<rparr> else t),
             p\<lparr>TP_Running := False, TP_LastStoppedAt := TA_Timestamp action\<rparr>)
      else if TA_Action action = ''stake'' then
        (if fle (TA_Amount action) fzero then Inl (TErr ''stake amount'')
         else Inr (None, s, t\<lparr>TotalStakeAmount := fadd (TotalStakeAmount t) (TA_Amount action)\<rparr>,
                p\<lparr>TP_Stake := fadd (TP_Stake p) (TA_Amount action)\<rparr>))
      else if TA_Action action = ''fund'' then
        (if fle (TA_Amount action) fzero then Inl (TErr ''fund amount'')
         else Inr (None, s, t\<lparr>RewardPoolAmount := fadd (RewardPoolAmount t) (TA_Amount action)\<rparr>, p))
      else if TA_Action action = ''unstake'' \<or> TA_Action action = ''withdraw'' then
        (if fle (TA_Amount action) fzero then Inl (TErr ''unstake amount'')
         else let delta = (if fless (TP_Stake p) (TA_Amount action) then TP_Stake p else TA_Amount action);
                  total = fsub (TotalStakeAmount t) delta
              in Inr (None, s, t\<lparr>TotalStakeAmount := (if fless total fzero then fzero else total)\<rparr>, p\<lparr>TP_Stake := fsub (TP_Stake p) delta\<rparr>))
      else if TA_Action action = ''submit'' then
        (case applySubmissionLocked tc action allowLegacy allowPooled currentHeight s t p of Inl e \<Rightarrow> Inl e
         | Inr (settlement, s, t, p) \<Rightarrow>
             Inr (settlement, s, t, p\<lparr>SubmissionCount := SubmissionCount p + 1,
               ClaimCount := (if settlement \<noteq> None then ClaimCount p + 1 else ClaimCount p)\<rparr>))
      else if TA_Action action = ''claim'' then
        (case applyClaimLocked tc ord action t p of
           (Some e, t, p) \<Rightarrow> if e = ErrNoTaskReward then Inr (None, s, t, p) else Inl e
         | (None, t, p) \<Rightarrow> Inr (None, s, t, p\<lparr>ClaimCount := ClaimCount p + 1\<rparr>))
      else if TA_Action action = ''migrate'' then
        (let payload = parseTaskActionPayload tc (TA_Payload action)
         in Inr (None, s, (if PL_MigratedTo payload \<noteq> [] then t\<lparr>IsMigrated := True, TS_MigratedTo := PL_MigratedTo payload\<rparr> else t), p))
      else Inl (TErr ''unsupported action''))"

type_synonym action_result = "(task_error + pooledResourceSettlement option) \<times> TaskStateStore"

definition applyAction :: "TaskCodec \<Rightarrow> string list \<Rightarrow> TaskAction \<Rightarrow> bool \<Rightarrow> bool \<Rightarrow> u64 \<Rightarrow> TaskStateStore \<Rightarrow> action_result" where
  "applyAction tc ord action allowLegacy allowPooled currentHeight s =
     (if TA_ID action = [] then (Inl (TErr ''id''), s)
      else if TA_Sender action = [] then (Inl (TErr ''sender''), s)
      else if TA_TaskID action = [] then (Inl (TErr ''task_id''), s)
      else if TA_Action action = [] then (Inl (TErr ''action''), s)
      else if TA_ID action |\<in>| actionIDs s then (Inl ErrDuplicateTaskAction, s)
      else if TA_Nonce action > 0 \<and> (case fmlookup (senderNonce s) (TA_Sender action) of None \<Rightarrow> 0 | Some n \<Rightarrow> n) \<ge> TA_Nonce action
        then (Inl ErrTaskActionNonceReplay, s)
      else if isTaskCatalogAction (TA_Action action) then
        (case applyTaskCatalogActionLocked tc action s of Inl e \<Rightarrow> (Inl e, s)
         | Inr t \<Rightarrow> (Inr None, note_action action (put_task (touch_task action t) (TA_TaskID action) s)))
      else
        let t = getOrCreateTaskLocked (TA_TaskID action) s; s = put_task t (TA_TaskID action) s;
            p = participant_of t (TA_Sender action); p = (if TP_Sender p = [] then p\<lparr>TP_Sender := TA_Sender action\<rparr> else p)
        in case participant_action tc ord action allowLegacy allowPooled currentHeight s t p of Inl e \<Rightarrow> (Inl e, s)
           | Inr (settlement, s, t, p) \<Rightarrow>
               let p = p\<lparr>TP_LastAction := TA_Action action, TP_LastActionID := TA_ID action, TP_LastActionAt := TA_Timestamp action\<rparr>;
                   t = touch_task action (t\<lparr>Participants := fmupd (TA_Sender action) p (Participants t)\<rparr>)
               in (Inr settlement, note_action action (put_task t (TA_TaskID action) s)))"

definition ApplyAction :: "TaskCodec \<Rightarrow> string list \<Rightarrow> TaskAction \<Rightarrow> TaskStateStore \<Rightarrow> task_error option \<times> TaskStateStore" where
  "ApplyAction tc ord action s =
     (case applyAction tc ord action False False 0 s of (Inl e, s) \<Rightarrow> (Some e, s) | (Inr _, s) \<Rightarrow> (None, s))"

fun ApplyActions :: "TaskCodec \<Rightarrow> (TaskAction \<times> string list) list \<Rightarrow> TaskStateStore \<Rightarrow> task_error option \<times> TaskStateStore" where
  "ApplyActions tc [] s = (None, s)"
| "ApplyActions tc ((action, ord) # rest) s =
     (case ApplyAction tc ord action s of (Some e, s) \<Rightarrow> (Some e, s) | (None, s) \<Rightarrow> ApplyActions tc rest s)"

section \<open>Transactions\<close>

definition DecodeTaskActionTx :: "TaskCodec \<Rightarrow> Tx \<Rightarrow> task_error + TaskAction" where
  "DecodeTaskActionTx tc tx =
     (if TxContractID tx \<noteq> TaskContractID then Inl ErrNotTaskActionTx
      else case tc_Action tc (Payload tx) of None \<Rightarrow> Inl (TErr ''decode action'') | Some a \<Rightarrow>
      if TA_ID a \<noteq> [] \<and> TxID tx \<noteq> [] \<and> TA_ID a \<noteq> TxID tx then Inl (TErr ''action id'')
      else if TA_Sender a \<noteq> [] \<and> Sender tx \<noteq> [] \<and> TA_Sender a \<noteq> Sender tx then Inl (TErr ''action sender'')
      else let a = a\<lparr>TA_ID := (if TA_ID a = [] then TxID tx else TA_ID a), TA_Sender := (if TA_Sender a = [] then Sender tx else TA_Sender a),
                     TA_Nonce := (if TA_Nonce a = 0 then TxNonce tx else TA_Nonce a)\<rparr>
           in if TA_Nonce a \<noteq> TxNonce tx then Inl (TErr ''action nonce'') else Inr a)"

definition Tasks_ApplyTx :: "TaskCodec \<Rightarrow> string list \<Rightarrow> Tx \<Rightarrow> TaskStateStore \<Rightarrow> task_error option \<times> TaskStateStore" where
  "Tasks_ApplyTx tc ord tx s = (case DecodeTaskActionTx tc tx of Inl e \<Rightarrow> (Some e, s) | Inr action \<Rightarrow> ApplyAction tc ord action s)"

definition ApplyHistoricalTx :: "TaskCodec \<Rightarrow> string list \<Rightarrow> Tx \<Rightarrow> u64 \<Rightarrow> TaskStateStore \<Rightarrow> task_error option \<times> TaskStateStore" where
  "ApplyHistoricalTx tc ord tx height s =
     (case DecodeTaskActionTx tc tx of Inl e \<Rightarrow> (Some e, s)
      | Inr action \<Rightarrow>
          (case applyAction tc ord action (height < ResourceWorkerProofActivationHeight) True height s of
             (Inl e, s) \<Rightarrow> (Some e, s) | (Inr _, s) \<Rightarrow> (None, s)))"

text \<open>What an action charges on top of the fee, releases and pays out; \<open>ord1\<close> is the order of the first loop over the submissions.\<close>

definition economic_terms ::
    "TaskCodec \<Rightarrow> string list \<Rightarrow> TaskAction \<Rightarrow> f64 \<Rightarrow> TaskStateStore \<Rightarrow> task_error + (f64 \<times> f64 \<times> f64)" where
  "economic_terms tc ord1 action fee s =
     (if TA_Action action = ''stake'' then
        (if fle (TA_Amount action) fzero then Inl (TErr ''stake amount'') else Inr (fadd fee (TA_Amount action), fzero, fzero))
      else if TA_Action action = ''fund'' then
        (if fle (TA_Amount action) fzero then Inl (TErr ''fund amount'') else Inr (fadd fee (TA_Amount action), fzero, fzero))
      else if TA_Action action = ''unstake'' \<or> TA_Action action = ''withdraw'' then
        (if fle (TA_Amount action) fzero then Inl (TErr ''unstake amount'')
         else if fless (ParticipantStake (TA_TaskID action) (TA_Sender action) s) (TA_Amount action) then Inl ErrInsufficientTaskStake
         else Inr (fee, TA_Amount action, fzero))
      else if TA_Action action = ''claim'' then
        (let claimReward = ClaimableReward tc ord1 action s
         in if fle claimReward fzero then Inl ErrNoTaskReward else Inr (fee, fzero, claimReward))
      else Inr (fee, fzero, fzero))"

definition pay_out :: "TaskAction \<Rightarrow> f64 \<Rightarrow> f64 \<Rightarrow> pooledResourceSettlement option \<Rightarrow> AccountStore \<Rightarrow> AccountStore" where
  "pay_out action release claimReward settlement as =
     (let as = (if fless fzero release then Credit (TA_Sender action) release as else as);
          as = (if fless fzero claimReward then Credit (TA_Sender action) claimReward as else as)
      in case settlement of None \<Rightarrow> as
         | Some x \<Rightarrow> Credit (pp_EcosystemWallet (ps_Proof x)) (EcosystemAmount x)
                      (Credit (pp_MotherHiveWallet (ps_Proof x)) (MotherHiveAmount x)
                        (Credit (pp_ContributorWallet (ps_Proof x)) (ContributorAmount x) as)))"

definition applyEconomicTx ::
    "TaskCodec \<Rightarrow> string list \<Rightarrow> string list \<Rightarrow> Tx \<Rightarrow> u64 \<Rightarrow> AccountStore \<times> TaskStateStore \<Rightarrow> task_error option \<times> AccountStore \<times> TaskStateStore" where
  "applyEconomicTx tc ord1 ord2 tx currentHeight st =
     (let (as, s) = st
      in case DecodeTaskActionTx tc tx of Inl e \<Rightarrow> (Some e, as, s) | Inr action \<Rightarrow>
      if fless (Fee tx) fzero then (Some (TErr ''fee''), as, s)
      else case economic_terms tc ord1 action (Fee tx) s of Inl e \<Rightarrow> (Some e, as, s) | Inr (charge, release, claimReward) \<Rightarrow>
      let accountSnapshot = Accounts_Clone as; taskSnapshot = Tasks_ChainReplayClone s
      in case ChargeAndBumpNonce (TA_Sender action) charge (TxNonce tx) as of (Some e, as) \<Rightarrow> (Some (TErrAccount e), as, s)
      | (None, as) \<Rightarrow>
          (case applyAction tc ord2 action False True currentHeight s of
             (Inl e, s) \<Rightarrow> (Some e, Accounts_RestoreFrom accountSnapshot as, Tasks_RestoreFromChainReplay taskSnapshot s)
           | (Inr settlement, s) \<Rightarrow> (None, pay_out action release claimReward settlement as, s)))"

definition ApplyEconomicTxAtHeight ::
    "TaskCodec \<Rightarrow> string list \<Rightarrow> string list \<Rightarrow> Tx \<Rightarrow> u64 \<Rightarrow> AccountStore \<times> TaskStateStore \<Rightarrow> task_error option \<times> AccountStore \<times> TaskStateStore" where
  "ApplyEconomicTxAtHeight tc ord1 ord2 tx currentHeight st = applyEconomicTx tc ord1 ord2 tx currentHeight st"

section \<open>State root\<close>

definition hundred_millionths :: "nat \<Rightarrow> nat" where
  "hundred_millionths m = round_half_even (m * 100000000) unit_one"

fun show_f8 :: "f64 \<Rightarrow> string" where
  "show_f8 NaN = ''NaN''"
| "show_f8 (Inf s) = (if s then ''-Inf'' else ''+Inf'')"
| "show_f8 (Fin s m) =
     (let n = hundred_millionths m
      in (if s then ''-'' else []) @ show_nat (n div 100000000) @ ''.'' @ show_padded 8 (n mod 100000000))"

abbreviation colons :: "string list \<Rightarrow> string" where "colons \<equiv> join '':''"

definition task_line :: "TaskState \<Rightarrow> string" where
  "task_line t = colons [TS_TaskID t, show_f8 (TotalStakeAmount t), show_f8 (RewardPoolAmount t), show_f8 (TS_PendingRewardAmount t),
     show_f8 (TotalRewardPaidAmount t), show_int (RunningCount t), TS_LastAction t, TS_LastActionID t, show_bool (IsMigrated t), TS_MigratedTo t] @ '';''"

definition participant_line :: "TaskParticipantState \<Rightarrow> string" where
  "participant_line p = colons [''p'', TP_Sender p, show_bool (TP_Running p), show_f8 (TP_Stake p), show_f8 (TP_PendingRewardAmount p),
     show_f8 (TotalRewardClaimedAmount p), TP_LastAction p, TP_LastActionID p, TP_LastActionAt p, TP_LastStartedAt p, TP_LastStoppedAt p,
     TP_LastClaimedAt p, show_nat (unat (SubmissionCount p)), show_nat (unat (ClaimCount p))] @ '';''"

definition submission_line :: "string \<Rightarrow> string \<Rightarrow> TaskSubmissionState \<Rightarrow> string" where
  "submission_line rk sender u =
     colons [''s'', rk, sender, SB_ActionID u, show_nat (unat (SB_Round u)), show_nat (unat (SB_Slot u)), SB_SubmissionValue u, SB_Payload u,
       show_f8 (SB_RewardAmount u), show_bool (SB_Claimed u), SB_ClaimedAt u, SB_Timestamp u] @ '';'' @
     (if SettlementProofIDOf u \<noteq> [] then
        colons [''settlement'', SettlementProofIDOf u, SettlementCoordinatorID u, SettlementContributorWallet u, SettlementMotherHiveWallet u,
          SettlementEcosystemWallet u, show_f8 (SettlementContributorAmount u), show_f8 (SettlementMotherHiveAmount u),
          show_f8 (SettlementEcosystemAmount u)] @ '';''
      else [])"

definition task_text :: "TaskCodec \<Rightarrow> TaskState \<Rightarrow> string" where
  "task_text tc t =
     task_line t @ (case Manifest t of None \<Rightarrow> [] | Some m \<Rightarrow> ''catalog:'' @ catalog_line tc t m) @
     concat (map (\<lambda>a. participant_line (the (fmlookup (Participants t) a))) (sorted_keys (Participants t))) @
     concat (map (\<lambda>r. let m = the (fmlookup (Submissions t) r)
       in concat (map (\<lambda>a. submission_line r a (the (fmlookup m a))) (sorted_keys m))) (sorted_keys (Submissions t)))"

definition Tasks_StateRoot :: "TaskCodec \<Rightarrow> TaskStateStore \<Rightarrow> string" where
  "Tasks_StateRoot tc s = sha256_hex (
     concat (map (task_text tc) (AllTasks s)) @
     concat (map (\<lambda>c. let b = the (fmlookup (pooledRelayBindings s) c)
       in colons [''relay'', c, rb_RelayPublicKey b, rb_ContributorWallet b, rb_MotherHiveWallet b, rb_EcosystemWallet b, rb_BoundByActionID b] @ '';'')
       (sorted_keys (pooledRelayBindings s))) @
     concat (map (\<lambda>i. colons [''pooled-proof'', i, the (fmlookup (settledPooledProofs s) i)] @ '';'') (sorted_keys (settledPooledProofs s))) @
     concat (map (\<lambda>i. colons [''pooled-receipt'', i, the (fmlookup (settledPooledReceipts s) i)] @ '';'') (sorted_keys (settledPooledReceipts s))))"

end
