(* ===== verification/TaskProofs.thy ===== *)
theory TaskProofs
  imports TaskState
begin

text \<open>
  The task economy in whole coins. Where every amount is a whole number of coins and the total is at most \<open>2 ^ 52\<close>, the floating-point
  updates are exact; \<open>economy\<close> is the invariant that ties the totals of a task to its participants and submissions, and the lemmas
  here show what each step of an action does to the coins a task holds.
\<close>

section \<open>The settlement branch is dead\<close>

text \<open>What the code relies on of \<open>strings.ToLower\<close>: no upper-case ASCII letter is left.\<close>

definition no_upper :: "string \<Rightarrow> bool" where
  "no_upper s = list_all (\<lambda>c. \<not> (65 \<le> (of_char c :: nat) \<and> (of_char c :: nat) \<le> 90)) s"

definition lowers :: "UnicodeFns \<Rightarrow> bool" where
  "lowers uni \<longleftrightarrow> (\<forall>s. no_upper (u_ToLower uni s))"

lemma ascii_lower_not_upper: "\<not> (65 \<le> (of_char (ascii_lower c) :: nat) \<and> (of_char (ascii_lower c) :: nat) \<le> 90)"
  by (auto simp: ascii_lower_def less_eq_char_def of_char_of)

lemma ToLower_no_upper: "lowers uni \<Longrightarrow> no_upper (ToLower uni s)"
  using ascii_lower_not_upper by (auto simp: ToLower_def lowers_def no_upper_def list_all_iff)

lemma source_never_matches: "lowers uni \<Longrightarrow> ToLower uni s \<noteq> SettlementProofSource"
  using ToLower_no_upper [of uni s] by (auto simp: no_upper_def SettlementProofSource_def)

lemma no_settlement:
  assumes "lowers (re_Unicode (tc_Env tc))"
    and "validateTaskSubmissionPolicyLocked tc t p action payload allowLegacy allowPooled h s = Inr x"
  shows "x = None"
  using assms(2) source_never_matches [OF assms(1)]
  by (auto simp: validateTaskSubmissionPolicyLocked_def Let_def split: option.splits if_splits sum.splits)

section \<open>Whole coins\<close>

lemma round_ratio_le: "0 < b \<Longrightarrow> round_ratio a b \<le> 2 * (a div b) + 1"
proof -
  define k where "k = bit_length (a div b) - 53"
  assume b: "0 < b"
  have "round_half_even a (b * 2 ^ k) \<le> a div (b * 2 ^ k) + 1" by (rule round_half_even_bounds)
  then have "round_ratio a b \<le> (a div b div 2 ^ k + 1) * 2 ^ k"
    using mult_le_mono1 [of "round_half_even a (b * 2 ^ k)" "a div (b * 2 ^ k) + 1" "2 ^ k"]
    by (simp add: round_ratio_def Let_def div_mult2_eq flip: k_def)
  moreover have "(a div b) div 2 ^ k * 2 ^ k \<le> a div b" by simp
  moreover have "2 ^ k \<le> a div b + 1"
  proof (cases "k = 0")
    case False
    then have "a div b > 0" by (cases "a div b = 0") (auto simp: k_def bit_length_def floorlog_def)
    then have "2 ^ (bit_length (a div b) - 1) \<le> a div b" by (rule bit_length_bounds)
    moreover have "(2::nat) ^ k \<le> 2 ^ (bit_length (a div b) - 1)" by (intro power_increasing) (simp_all add: k_def)
    ultimately show ?thesis by linarith
  qed simp
  ultimately show ?thesis unfolding add_mult_distrib by linarith
qed

lemma epsilon_small: "\<exists>e. taskAmountEpsilon = Fin False e \<and> 2 * e \<le> unit_one"
proof -
  define q :: nat where "q = 2 ^ 1045"
  have u: "unit_one = q * 536870912" unfolding unit_one_def q_def using power_add [of "2 :: nat" 1045 29] by simp
  have "unit_one div 1000000000 \<le> unit_one div 536870912" by (intro div_le_mono2) simp_all
  then have "unit_one div 1000000000 \<le> q" by (simp add: u)
  then have le: "round_ratio (1 * unit_one) 1000000000 \<le> 2 * q + 1"
    using round_ratio_le [of 1000000000 "1 * unit_one"] by simp
  have one: "1 \<le> q" unfolding q_def by (rule one_le_power) simp
  have two: "2 * round_ratio (1 * unit_one) 1000000000 \<le> unit_one" using le one unfolding u by linarith
  have "unit_one < max_mag" unfolding unit_one_def max_mag_def by (rule power_strict_increasing) simp_all
  then have "\<not> max_mag \<le> round_ratio (1 * unit_one) 1000000000" using two by linarith
  then show ?thesis using two by (simp add: taskAmountEpsilon_def f64_ratio_def mk_fin_def)
qed

lemma covers_whole:
  assumes "\<not> taskAmountLessThan (f_int a) (f_int b)" "a < 2 ^ 52"
  shows "b \<le> a"
proof (rule ccontr)
  assume "\<not> b \<le> a"
  obtain e where e: "taskAmountEpsilon = Fin False e" "2 * e \<le> unit_one" using epsilon_small by blast
  define h :: nat where "h = 2 ^ 1073"
  have u: "unit_one = 2 * h" unfolding unit_one_def h_def using power_Suc [of "2 :: nat" 1073] by simp
  have h: "0 < h" unfolding h_def by (rule zero_less_power) simp
  have "representable ((2 * a + 1) * h)" using representableI [OF refl, of "2 * a + 1" 1073] assms(2) unfolding h_def by simp
  moreover have "a * unit_one + e \<le> (2 * a + 1) * h" using e(2) by (simp add: u algebra_simps)
  ultimately have r: "round_mag (a * unit_one + e) \<le> (2 * a + 1) * h" by (rule f64_rounding.rnd_le_rep)
  have "(2 * a + 1) * h < (a + 1) * unit_one" using h by (simp add: u algebra_simps)
  also have "\<dots> \<le> b * unit_one" using \<open>\<not> b \<le> a\<close> by (intro mult_le_mono1) simp
  finally have less: "round_mag (a * unit_one + e) < b * unit_one" using r by linarith
  have "(a + 1) * unit_one < max_mag" using f_int_bound [of "a + 1"] assms(2) by simp
  then have "round_mag (a * unit_one + e) < max_mag" using r \<open>(2 * a + 1) * h < (a + 1) * unit_one\<close> by linarith
  then have "fless (fadd (f_int a) taskAmountEpsilon) (f_int b)"
    using less \<open>\<not> b \<le> a\<close> by (auto simp: e(1) fadd_def f_int_def Let_def mk_fin_def nat_add_distrib simp flip: of_nat_mult of_nat_add)
  then show False using assms(1) by (simp add: taskAmountLessThan_def)
qed

section \<open>What a task holds\<close>

definition owed :: "TaskSubmissionState \<Rightarrow> nat" where
  "owed sub = (if SB_Claimed sub then 0 else trunc_nat (SB_RewardAmount sub))"

definition stake_sum :: "TaskState \<Rightarrow> nat" where
  "stake_sum t = fmap_total (\<lambda>p. trunc_nat (TP_Stake p)) (Participants t)"

definition subs_sum :: "(string, (string, TaskSubmissionState) fmap) fmap \<Rightarrow> nat" where
  "subs_sum subs = fmap_total (fmap_total owed) subs"

definition subs_whole :: "(string, (string, TaskSubmissionState) fmap) fmap \<Rightarrow> bool" where
  "subs_whole subs \<longleftrightarrow> (\<forall>r m a sub. fmlookup subs r = Some m \<longrightarrow> fmlookup m a = Some sub \<longrightarrow> SB_RewardAmount sub = f_int (trunc_nat (SB_RewardAmount sub)))"

definition task_whole :: "TaskState \<Rightarrow> bool" where
  "task_whole t \<longleftrightarrow> TotalStakeAmount t = f_int (stake_sum t) \<and> RewardPoolAmount t = f_int (trunc_nat (RewardPoolAmount t)) \<and>
     TS_PendingRewardAmount t = f_int (subs_sum (Submissions t)) \<and> subs_whole (Submissions t) \<and>
     (\<forall>a p. fmlookup (Participants t) a = Some p \<longrightarrow> TP_Stake p = f_int (trunc_nat (TP_Stake p)))"

definition task_value :: "TaskState \<Rightarrow> nat" where
  "task_value t = stake_sum t + trunc_nat (RewardPoolAmount t) + subs_sum (Submissions t)"

definition escrow :: "TaskStateStore \<Rightarrow> nat" where
  "escrow s = fmap_total task_value (tasks s)"

definition economy :: "AccountStore \<times> TaskStateStore \<Rightarrow> bool" where
  "economy st \<longleftrightarrow> whole_ledger (fst st) \<and> (\<forall>i t. fmlookup (tasks (snd st)) i = Some t \<longrightarrow> task_whole t) \<and>
     money_supply (fst st) + escrow (snd st) < 2 ^ 52"

lemma trunc_fzero [simp]: "trunc_nat fzero = 0"
  by (simp add: fzero_def)

lemma new_task_whole [simp]: "task_whole (new_task i)" "task_value (new_task i) = 0"
  by (simp_all add: task_whole_def new_task_def task_value_def stake_sum_def subs_sum_def subs_whole_def fzero_f_int)

text \<open>Replacing one submission.\<close>

definition owed_at :: "(string, (string, TaskSubmissionState) fmap) fmap \<Rightarrow> string \<Rightarrow> string \<Rightarrow> nat" where
  "owed_at subs r a = (case fmlookup subs r of None \<Rightarrow> 0 | Some m \<Rightarrow> (case fmlookup m a of None \<Rightarrow> 0 | Some sub \<Rightarrow> owed sub))"

definition put_sub :: "string \<Rightarrow> string \<Rightarrow> TaskSubmissionState \<Rightarrow> (string, (string, TaskSubmissionState) fmap) fmap \<Rightarrow> (string, (string, TaskSubmissionState) fmap) fmap" where
  "put_sub r a sub subs = fmupd r (fmupd a sub (case fmlookup subs r of None \<Rightarrow> fmempty | Some m \<Rightarrow> m)) subs"

lemma fmap_total_put: "fmap_total f (fmupd k v m) + (case fmlookup m k of None \<Rightarrow> 0 | Some w \<Rightarrow> f w) = fmap_total f m + f v"
  by (cases "fmlookup m k") (simp_all add: fmap_total_fresh fmap_total_upd)

lemma subs_sum_put: "subs_sum (put_sub r a sub subs) + owed_at subs r a = subs_sum subs + owed sub"
proof -
  let ?m = "case fmlookup subs r of None \<Rightarrow> fmempty | Some m \<Rightarrow> m"
  have "fmap_total owed (fmupd a sub ?m) + (case fmlookup ?m a of None \<Rightarrow> 0 | Some w \<Rightarrow> owed w) = fmap_total owed ?m + owed sub"
    by (rule fmap_total_put)
  moreover have "(case fmlookup ?m a of None \<Rightarrow> 0 | Some w \<Rightarrow> owed w) = owed_at subs r a"
    by (simp add: owed_at_def split: option.splits)
  moreover have "subs_sum (put_sub r a sub subs) + fmap_total owed ?m = subs_sum subs + fmap_total owed (fmupd a sub ?m)"
    using fmap_total_put [of "fmap_total owed" r "fmupd a sub ?m" subs] by (auto simp: subs_sum_def put_sub_def split: option.splits)
  ultimately show ?thesis by linarith
qed

lemma owed_at_le: "owed_at subs r a \<le> subs_sum subs"
proof (cases "fmlookup subs r")
  case (Some m)
  show ?thesis
  proof (cases "fmlookup m a")
    case (Some sub)
    then have "owed sub \<le> fmap_total owed m" by (rule fmap_total_member)
    also have "\<dots> \<le> subs_sum subs" using \<open>fmlookup subs r = Some m\<close> unfolding subs_sum_def by (rule fmap_total_member)
    finally show ?thesis using \<open>fmlookup subs r = Some m\<close> Some by (simp add: owed_at_def)
  qed (simp add: owed_at_def \<open>fmlookup subs r = Some m\<close>)
qed (simp add: owed_at_def)

lemma subs_whole_put:
  "subs_whole subs \<Longrightarrow> SB_RewardAmount sub = f_int n \<Longrightarrow> subs_whole (put_sub r a sub subs)"
  by (auto simp: subs_whole_def put_sub_def split: option.splits if_splits)

section \<open>Claims\<close>

definition claim_amt :: "taskActionPayload \<Rightarrow> string \<Rightarrow> TaskState \<Rightarrow> string \<Rightarrow> nat" where
  "claim_amt payload sender t r = (case claimed_here payload sender t r of None \<Rightarrow> 0 | Some sub \<Rightarrow> trunc_nat (SB_RewardAmount sub))"

lemma claimed_here_SomeD:
  assumes "claimed_here payload sender t r = Some sub" "subs_whole (Submissions t)"
  shows "\<exists>m. fmlookup (Submissions t) r = Some m \<and> fmlookup m sender = Some sub" "SB_RewardAmount sub = f_int (trunc_nat (SB_RewardAmount sub))"
    "owed_at (Submissions t) r sender = trunc_nat (SB_RewardAmount sub)"
  using assms by (auto simp: claimed_here_def owed_at_def owed_def subs_whole_def split: if_splits option.splits)

lemma claimed_here_other: "r \<noteq> r' \<Longrightarrow> claimed_here payload sender (t\<lparr>Submissions := put_sub r' a sub (Submissions t)\<rparr>) r = claimed_here payload sender t r"
  by (auto simp: claimed_here_def put_sub_def)

lemma claim_amt_le: "subs_whole (Submissions t) \<Longrightarrow> claim_amt payload sender t r \<le> subs_sum (Submissions t)"
  using owed_at_le [of "Submissions t" r sender] claimed_here_SomeD(3) [of payload sender t r]
  by (auto simp: claim_amt_def split: option.splits)

lemma claim_loop_spec:
  assumes "subs_whole (Submissions t)" "r + subs_sum (Submissions t) \<le> 2 ^ 52" "distinct ks"
  shows "\<exists>subs'. claim_loop payload sender ts t (f_int r) ks = (f_int (r + (\<Sum>k \<in> set ks. claim_amt payload sender t k)), t\<lparr>Submissions := subs'\<rparr>) \<and>
     subs_whole subs' \<and> subs_sum subs' + (\<Sum>k \<in> set ks. claim_amt payload sender t k) = subs_sum (Submissions t)"
  using assms
proof (induction ks arbitrary: t r)
  case Nil
  then show ?case by (intro exI [of _ "Submissions t"]) simp
next
  case (Cons k ks)
  show ?case
  proof (cases "claimed_here payload sender t k")
    case None
    then have "claim_amt payload sender t k = 0" by (simp add: claim_amt_def)
    then show ?thesis using Cons.IH [OF Cons.prems(1,2)] Cons.prems(3) None by simp
  next
    case (Some sub)
    define t' where "t' = t\<lparr>Submissions := put_sub k sender (sub\<lparr>SB_Claimed := True, SB_ClaimedAt := ts\<rparr>) (Submissions t)\<rparr>"
    have n: "SB_RewardAmount sub = f_int (claim_amt payload sender t k)"
      using claimed_here_SomeD(2) [OF Some Cons.prems(1)] Some by (simp add: claim_amt_def)
    obtain m where m: "fmlookup (Submissions t) k = Some m" using claimed_here_SomeD(1) [OF Some Cons.prems(1)] by blast
    have sum: "subs_sum (Submissions t') + claim_amt payload sender t k = subs_sum (Submissions t)"
      using subs_sum_put [of k sender "sub\<lparr>SB_Claimed := True, SB_ClaimedAt := ts\<rparr>" "Submissions t"] claimed_here_SomeD(3) [OF Some Cons.prems(1)] Some
      by (simp add: t'_def owed_def claim_amt_def)
    have w: "subs_whole (Submissions t')" using subs_whole_put [OF Cons.prems(1)] n by (simp add: t'_def)
    have amt: "claim_amt payload sender t' k' = claim_amt payload sender t k'" if "k' \<in> set ks" for k'
    proof -
      have "k' \<noteq> k" using that Cons.prems(3) by auto
      then show ?thesis by (simp add: claim_amt_def t'_def claimed_here_other)
    qed
    have step: "claim_loop payload sender ts t (f_int r) (k # ks) = claim_loop payload sender ts t' (f_int (r + claim_amt payload sender t k)) ks"
      using Some m n Cons.prems(2) sum by (simp add: t'_def put_sub_def)
    have "r + claim_amt payload sender t k + subs_sum (Submissions t') \<le> 2 ^ 52" using sum Cons.prems(2) by simp
    from Cons.IH [OF w this] Cons.prems(3) obtain subs' where IH:
      "claim_loop payload sender ts t' (f_int (r + claim_amt payload sender t k)) ks =
         (f_int (r + claim_amt payload sender t k + (\<Sum>k \<in> set ks. claim_amt payload sender t k)), t'\<lparr>Submissions := subs'\<rparr>)"
      "subs_whole subs'" "subs_sum subs' + (\<Sum>k \<in> set ks. claim_amt payload sender t k) = subs_sum (Submissions t')"
      using amt by auto
    moreover have "t'\<lparr>Submissions := subs'\<rparr> = t\<lparr>Submissions := subs'\<rparr>" by (simp add: t'_def)
    ultimately show ?thesis using step sum Cons.prems(3) by (auto simp: add.assoc)
  qed
qed

lemma claimable_spec:
  assumes "subs_whole (Submissions t)" "r + (\<Sum>k \<in> set ks. claim_amt payload sender t k) \<le> 2 ^ 52" "distinct ks"
  shows "claimableRewardLocked payload sender t (f_int r) ks = f_int (r + (\<Sum>k \<in> set ks. claim_amt payload sender t k))"
  using assms
proof (induction ks arbitrary: r)
  case (Cons k ks)
  show ?case
  proof (cases "claimed_here payload sender t k")
    case None
    then show ?thesis using Cons by (simp add: claim_amt_def)
  next
    case (Some sub)
    then have "SB_RewardAmount sub = f_int (claim_amt payload sender t k)"
      using claimed_here_SomeD(2) [OF Some Cons.prems(1)] by (simp add: claim_amt_def)
    then show ?thesis using Some Cons.IH [OF Cons.prems(1), of "r + claim_amt payload sender t k"] Cons.prems(2,3) by (simp add: add.assoc)
  qed
qed simp

section \<open>Actions\<close>

text \<open>The clamp does nothing to a task whose amounts are not negative.\<close>

lemma clamp_whole:
  assumes "TS_PendingRewardAmount t = f_int a" "RewardPoolAmount t = f_int b"
  shows "\<exists>p'. clampTaskRewardAccounting t p = (t, p') \<and> TP_Stake p' = TP_Stake p"
  using assms by (auto simp: clampTaskRewardAccounting_def fzero_f_int)

text \<open>Storing a participant changes the stake total by the difference of the stakes.\<close>

lemma stake_sum_put:
  assumes "TP_Stake p = f_int n"
  shows "stake_sum (t\<lparr>Participants := fmupd a p (Participants t)\<rparr>) + trunc_nat (TP_Stake (participant_of t a)) = stake_sum t + n"
  using fmap_total_put [of "\<lambda>p. trunc_nat (TP_Stake p)" a p "Participants t"] assms
  by (auto simp: stake_sum_def participant_of_def new_participant_def split: option.splits)

lemma stake_of_le: "trunc_nat (TP_Stake (participant_of t a)) \<le> stake_sum t"
  using fmap_total_member [of "Participants t" a _ "\<lambda>p. trunc_nat (TP_Stake p)"]
  by (auto simp: stake_sum_def participant_of_def new_participant_def split: option.splits)

lemma participant_whole: "task_whole t \<Longrightarrow> TP_Stake (participant_of t a) = f_int (trunc_nat (TP_Stake (participant_of t a)))"
  by (auto simp: task_whole_def participant_of_def new_participant_def fzero_f_int split: option.splits)

text \<open>
  The generic step: an action that changes the stake of one participant, the pool and the submissions of a task, with the task's
  totals following, keeps the task whole.
\<close>

lemma task_whole_step:
  assumes "task_whole t" "Participants t' = Participants t" "TP_Stake p = f_int n"
    and "TotalStakeAmount t' = f_int k" "k + trunc_nat (TP_Stake (participant_of t a)) = stake_sum t + n"
    and "RewardPoolAmount t' = f_int b" "TS_PendingRewardAmount t' = f_int (subs_sum (Submissions t'))" "subs_whole (Submissions t')"
  shows "task_whole (t'\<lparr>Participants := fmupd a p (Participants t')\<rparr>)"
    "task_value (t'\<lparr>Participants := fmupd a p (Participants t')\<rparr>) = k + b + subs_sum (Submissions t')"
proof -
  have "stake_sum (t'\<lparr>Participants := fmupd a p (Participants t')\<rparr>) = stake_sum (t\<lparr>Participants := fmupd a p (Participants t)\<rparr>)"
    by (simp add: stake_sum_def assms(2))
  then have k: "stake_sum (t'\<lparr>Participants := fmupd a p (Participants t')\<rparr>) = k"
    using stake_sum_put [OF assms(3), of a t] assms(5) by linarith
  have w: "TP_Stake q = f_int (trunc_nat (TP_Stake q))" if "fmlookup (fmupd a p (Participants t')) c = Some q" for c q
    using that assms(1,2,3) by (auto simp: task_whole_def split: if_splits)
  show "task_whole (t'\<lparr>Participants := fmupd a p (Participants t')\<rparr>)"
    "task_value (t'\<lparr>Participants := fmupd a p (Participants t')\<rparr>) = k + b + subs_sum (Submissions t')"
    using k w assms(4,6-8) by (auto simp: task_whole_def task_value_def)
qed

lemma touch_task_whole [simp]: "task_whole (touch_task action t) = task_whole t" "task_value (touch_task action t) = task_value t"
  by (simp_all add: touch_task_def task_whole_def task_value_def stake_sum_def)

lemma escrow_put: "escrow (put_task t i s) + task_value (getOrCreateTaskLocked i s) = escrow s + task_value t"
  using fmap_total_put [of task_value i t "tasks s"]
  by (auto simp: escrow_def put_task_def getOrCreateTaskLocked_def split: option.splits)

lemma escrow_note [simp]: "escrow (note_action action s) = escrow s" "tasks (note_action action s) = tasks s"
  by (simp_all add: note_action_def escrow_def)

lemma task_value_le: "task_value (getOrCreateTaskLocked i s) \<le> escrow s"
  using fmap_total_member [of "tasks s" i _ task_value] by (auto simp: escrow_def getOrCreateTaskLocked_def split: option.splits)

text \<open>A submission moves coins between the pool and the pending rewards of the task.\<close>

definition task_pool_step :: "TaskState \<Rightarrow> TaskParticipantState \<Rightarrow> TaskState \<Rightarrow> TaskParticipantState \<Rightarrow> bool" where
  "task_pool_step t p t' p' \<longleftrightarrow> Participants t' = Participants t \<and> TotalStakeAmount t' = TotalStakeAmount t \<and> TP_Stake p' = TP_Stake p \<and>
     (\<exists>b. RewardPoolAmount t' = f_int b \<and> TS_PendingRewardAmount t' = f_int (subs_sum (Submissions t')) \<and> subs_whole (Submissions t') \<and>
       b + subs_sum (Submissions t') = trunc_nat (RewardPoolAmount t) + subs_sum (Submissions t))"

lemma refund_spec:
  assumes "task_whole t" "task_value t < 2 ^ 52"
    and "existing = (case fmlookup (Submissions t) r of None \<Rightarrow> None | Some m \<Rightarrow> fmlookup m a)" "\<And>x. existing = Some x \<Longrightarrow> \<not> SB_Claimed x"
  shows "\<exists>p'. refund_existing existing t p =
     (t\<lparr>RewardPoolAmount := f_int (trunc_nat (RewardPoolAmount t) + owed_at (Submissions t) r a),
        TS_PendingRewardAmount := f_int (subs_sum (Submissions t) - owed_at (Submissions t) r a)\<rparr>, p') \<and> TP_Stake p' = TP_Stake p"
proof -
  let ?o = "owed_at (Submissions t) r a"
  have w: "RewardPoolAmount t = f_int (trunc_nat (RewardPoolAmount t))" "TS_PendingRewardAmount t = f_int (subs_sum (Submissions t))"
    using assms(1) by (simp_all add: task_whole_def)
  have le: "?o \<le> subs_sum (Submissions t)" "trunc_nat (RewardPoolAmount t) + subs_sum (Submissions t) < 2 ^ 52"
    using owed_at_le assms(2) by (simp_all add: task_value_def)
  have same: "t\<lparr>RewardPoolAmount := f_int (trunc_nat (RewardPoolAmount t) + 0), TS_PendingRewardAmount := f_int (subs_sum (Submissions t) - 0)\<rparr> = t"
    by (simp flip: w)
  show ?thesis
  proof (cases existing)
    case None
    then have "?o = 0" using assms(3) by (auto simp: owed_at_def split: option.splits)
    then show ?thesis using None same by (simp add: refund_existing_def)
  next
    case (Some y)
    obtain m where m: "fmlookup (Submissions t) r = Some m" "fmlookup m a = Some y" using assms(3) Some by (auto split: option.splits)
    have c: "SB_RewardAmount y = f_int ?o"
      using assms(1) m assms(4) [OF Some] by (auto simp: task_whole_def subs_whole_def owed_at_def owed_def)
    show ?thesis
    proof (cases "?o = 0")
      case True
      then show ?thesis using Some c same by (simp add: refund_existing_def fzero_f_int)
    next
      case False
      let ?t = "t\<lparr>RewardPoolAmount := f_int (trunc_nat (RewardPoolAmount t) + ?o), TS_PendingRewardAmount := f_int (subs_sum (Submissions t) - ?o)\<rparr>"
      have "fadd (RewardPoolAmount t) (SB_RewardAmount y) = f_int (trunc_nat (RewardPoolAmount t) + ?o)"
        "fsub (TS_PendingRewardAmount t) (SB_RewardAmount y) = f_int (subs_sum (Submissions t) - ?o)"
        using le by (subst w, simp add: c)+
      then show ?thesis
        using clamp_whole [of ?t "subs_sum (Submissions t) - ?o" "trunc_nat (RewardPoolAmount t) + ?o" "p\<lparr>TP_PendingRewardAmount := fsub (TP_PendingRewardAmount p) (SB_RewardAmount y)\<rparr>"]
          Some False c by (simp add: refund_existing_def fzero_f_int)
    qed
  qed
qed

lemma settle_spec:
  assumes "RewardPoolAmount t = f_int b" "TS_PendingRewardAmount t = f_int d" "PL_RewardAmount payload = f_int m" "m \<le> b" "b + d < 2 ^ 52"
  shows "\<exists>p'. settle_reward tc action payload None t p = (t\<lparr>RewardPoolAmount := f_int (b - m), TS_PendingRewardAmount := f_int (d + m)\<rparr>, p') \<and>
     TP_Stake p' = TP_Stake p"
proof (cases "m = 0")
  case True
  moreover have "t\<lparr>RewardPoolAmount := f_int b, TS_PendingRewardAmount := f_int d\<rparr> = t" using assms(1,2) by simp
  ultimately show ?thesis using assms(3) by (simp add: settle_reward_def fzero_f_int)
next
  case False
  have "fsub (RewardPoolAmount t) (PL_RewardAmount payload) = f_int (b - m)" "fadd (TS_PendingRewardAmount t) (PL_RewardAmount payload) = f_int (d + m)"
    using assms by simp_all
  then show ?thesis
    using clamp_whole [of "t\<lparr>RewardPoolAmount := f_int (b - m), TS_PendingRewardAmount := f_int (d + m)\<rparr>" "d + m" "b - m"
        "p\<lparr>TP_PendingRewardAmount := fadd (TP_PendingRewardAmount p) (PL_RewardAmount payload)\<rparr>"] assms(3) False
    by (simp add: settle_reward_def fzero_f_int)
qed

lemma checks_cover:
  assumes "submission_checks tc t p action payload None existing = None" "PL_RewardAmount payload = f_int m"
    and "task_whole t" "task_value t < 2 ^ 52"
    and "existing = (case fmlookup (Submissions t) r of None \<Rightarrow> None | Some m \<Rightarrow> fmlookup m a)" "\<And>x. existing = Some x \<Longrightarrow> \<not> SB_Claimed x"
  shows "m \<le> trunc_nat (RewardPoolAmount t) + owed_at (Submissions t) r a"
proof (cases "m = 0")
  case False
  let ?o = "owed_at (Submissions t) r a" and ?b = "trunc_nat (RewardPoolAmount t)"
  have w: "RewardPoolAmount t = f_int ?b" using assms(3) by (simp add: task_whole_def)
  have bound: "?b + ?o < 2 ^ 52" using owed_at_le [of "Submissions t" r a] assms(4) by (simp add: task_value_def)
  have avail: "(case existing of Some x \<Rightarrow> if fless fzero (SB_RewardAmount x) then fadd (RewardPoolAmount t) (SB_RewardAmount x)
      else RewardPoolAmount t | None \<Rightarrow> RewardPoolAmount t) = f_int (?b + ?o)"
  proof (cases existing)
    case None
    then have "?o = 0" using assms(5) by (auto simp: owed_at_def split: option.splits)
    then show ?thesis using None w by simp
  next
    case (Some y)
    obtain m where m: "fmlookup (Submissions t) r = Some m" "fmlookup m a = Some y" using assms(5) Some by (auto split: option.splits)
    have "SB_RewardAmount y = f_int ?o"
      using assms(3) m assms(6) [OF Some] by (auto simp: task_whole_def subs_whole_def owed_at_def owed_def)
    then show ?thesis using Some bound by (cases "?o = 0") (subst w, simp add: fzero_f_int)+
  qed
  have "\<not> taskAmountLessThan (f_int (?b + ?o)) (f_int m)"
    using assms(1,2) False avail unfolding submission_checks_def Let_def by (auto simp: fzero_f_int split: if_splits)
  then show ?thesis using covers_whole bound by blast
qed simp

lemma submission_spec:
  assumes "lowers (re_Unicode (tc_Env tc))" "task_whole t" "task_value t < 2 ^ 52"
    and "PL_RewardAmount (parseTaskActionPayload tc (TA_Payload action)) = f_int m"
    and "applySubmissionLocked tc action allowLegacy allowPooled h s t p = Inr (x, s', t', p')"
  shows "x = None \<and> s' = s \<and> task_pool_step t p t' p'"
proof -
  define payload where "payload = parseTaskActionPayload tc (TA_Payload action)"
  define r where "r = show_nat (unat (PL_Round payload))"
  define existing where "existing = (case fmlookup (Submissions t) r of None \<Rightarrow> None | Some m \<Rightarrow> fmlookup m (TA_Sender action))"
  have m: "PL_RewardAmount payload = f_int m" using assms(4) by (simp add: payload_def)
  obtain y where pol: "validateTaskSubmissionPolicyLocked tc t p action payload allowLegacy allowPooled h s = Inr y"
    using assms(5) unfolding applySubmissionLocked_def Let_def payload_def [symmetric] by (auto split: if_splits sum.splits)
  then have y: "y = None" using no_settlement [OF assms(1)] by blast
  show ?thesis
  proof (cases "existing \<noteq> None \<and> SB_Claimed (the existing)")
    case True
    then have "x = None \<and> s' = s \<and> t' = t \<and> p' = p"
      using assms(5) pol y m unfolding applySubmissionLocked_def Let_def payload_def [symmetric] r_def [symmetric] existing_def [symmetric]
      by (auto simp: fzero_f_int)
    then show ?thesis using assms(2) by (auto simp: task_pool_step_def task_whole_def)
  next
    case False
    let ?o = "owed_at (Submissions t) r (TA_Sender action)" and ?b = "trunc_nat (RewardPoolAmount t)"
    have ex: "\<And>z. existing = Some z \<Longrightarrow> \<not> SB_Claimed z" using False by auto
    have ck: "submission_checks tc t p action payload None existing = None"
      using assms(5) pol y m False unfolding applySubmissionLocked_def Let_def payload_def [symmetric] r_def [symmetric] existing_def [symmetric]
      by (auto simp: fzero_f_int split: if_splits option.splits)
    have cover: "m \<le> ?b + ?o" using checks_cover [OF ck m assms(2,3) existing_def ex] .
    have le: "?o \<le> subs_sum (Submissions t)" "?b + subs_sum (Submissions t) < 2 ^ 52" using owed_at_le assms(3) by (simp_all add: task_value_def)
    obtain p1 where p1: "refund_existing existing t p = (t\<lparr>RewardPoolAmount := f_int (?b + ?o), TS_PendingRewardAmount := f_int (subs_sum (Submissions t) - ?o)\<rparr>, p1)"
      "TP_Stake p1 = TP_Stake p" using refund_spec [OF assms(2,3) existing_def ex] by blast
    let ?t1 = "t\<lparr>RewardPoolAmount := f_int (?b + ?o), TS_PendingRewardAmount := f_int (subs_sum (Submissions t) - ?o)\<rparr>"
    obtain p2 where p2: "settle_reward tc action payload None ?t1 p1 =
        (?t1\<lparr>RewardPoolAmount := f_int (?b + ?o - m), TS_PendingRewardAmount := f_int (subs_sum (Submissions t) - ?o + m)\<rparr>, p2)" "TP_Stake p2 = TP_Stake p1"
      using settle_spec [of ?t1 "?b + ?o" "subs_sum (Submissions t) - ?o" payload m tc action p1] m cover le by auto
    let ?t2 = "?t1\<lparr>RewardPoolAmount := f_int (?b + ?o - m), TS_PendingRewardAmount := f_int (subs_sum (Submissions t) - ?o + m)\<rparr>"
    have res: "x = None" "s' = s" "p' = p2" "t' = store_submission r (TA_Sender action) (new_submission tc action payload None) ?t2"
      using assms(5) pol y m False ck p1(1) p2(1)
      unfolding applySubmissionLocked_def Let_def payload_def [symmetric] r_def [symmetric] existing_def [symmetric]
      by (auto simp: fzero_f_int)
    have sub: "SB_RewardAmount (new_submission tc action payload None) = f_int m" "owed (new_submission tc action payload None) = m"
      using m by (simp_all add: new_submission_def owed_def)
    have t': "t' = ?t2\<lparr>Submissions := put_sub r (TA_Sender action) (new_submission tc action payload None) (Submissions t)\<rparr>"
      by (simp add: res(4) store_submission_def put_sub_def)
    have sum: "subs_sum (Submissions t') = subs_sum (Submissions t) - ?o + m"
      using subs_sum_put [of r "TA_Sender action" "new_submission tc action payload None" "Submissions t"] sub(2) le(1) by (simp add: t')
    have whole: "subs_whole (Submissions t')" using subs_whole_put sub(1) assms(2) by (simp add: t' task_whole_def)
    have "RewardPoolAmount t' = f_int (?b + ?o - m)" "TS_PendingRewardAmount t' = f_int (subs_sum (Submissions t'))"
      "Participants t' = Participants t" "TotalStakeAmount t' = TotalStakeAmount t" using sum by (simp_all add: t')
    then have "task_pool_step t p t' p'"
      unfolding task_pool_step_def using res(3) p1(2) p2(2) whole sum cover le(1) by auto
    then show ?thesis using res by simp
  qed
qed

lemma claim_spec:
  assumes "task_whole t" "task_value t < 2 ^ 52" "distinct ord"
    and "applyClaimLocked tc ord action t p = (e, t', p')" "e = None \<or> e = Some ErrNoTaskReward"
    and "n = (\<Sum>k \<in> set ord. claim_amt (parseTaskActionPayload tc (TA_Payload action)) (TA_Sender action) t k)"
  shows "Participants t' = Participants t \<and> TotalStakeAmount t' = TotalStakeAmount t \<and> TP_Stake p' = TP_Stake p \<and>
     RewardPoolAmount t' = RewardPoolAmount t \<and> TS_PendingRewardAmount t' = f_int (subs_sum (Submissions t')) \<and> subs_whole (Submissions t') \<and>
     subs_sum (Submissions t') + n = subs_sum (Submissions t) \<and> (e = None \<longleftrightarrow> 0 < n)"
proof -
  have w: "RewardPoolAmount t = f_int (trunc_nat (RewardPoolAmount t))" "TS_PendingRewardAmount t = f_int (subs_sum (Submissions t))" "subs_whole (Submissions t)"
    using assms(1) by (simp_all add: task_whole_def)
  have b: "0 + subs_sum (Submissions t) \<le> 2 ^ 52" using assms(2) by (simp add: task_value_def)
  obtain subs' where c: "claim_loop (parseTaskActionPayload tc (TA_Payload action)) (TA_Sender action) (TA_Timestamp action) t fzero ord = (f_int n, t\<lparr>Submissions := subs'\<rparr>)"
    "subs_whole subs'" "subs_sum subs' + n = subs_sum (Submissions t)"
    using claim_loop_spec [OF w(3) b assms(3), of "parseTaskActionPayload tc (TA_Payload action)" "TA_Sender action" "TA_Timestamp action"] assms(6)
    by (auto simp: fzero_f_int)
  show ?thesis
  proof (cases "n = 0")
    case True
    then have "e = Some ErrNoTaskReward" "t' = t\<lparr>Submissions := subs'\<rparr>" "p' = p"
      using assms(4) c(1) by (auto simp: applyClaimLocked_def fzero_f_int)
    then show ?thesis using c(2,3) w(2) True by simp
  next
    case False
    let ?t = "t\<lparr>Submissions := subs', TS_PendingRewardAmount := f_int (subs_sum subs'), TotalRewardPaidAmount := fadd (TotalRewardPaidAmount t) (f_int n)\<rparr>"
    let ?p = "p\<lparr>TP_PendingRewardAmount := fsub (TP_PendingRewardAmount p) (f_int n),
       TotalRewardClaimedAmount := fadd (TotalRewardClaimedAmount p) (f_int n), TP_LastClaimedAt := TA_Timestamp action\<rparr>"
    have "subs_sum (Submissions t) - n = subs_sum subs'" using c(3) by linarith
    then have "fsub (TS_PendingRewardAmount t) (f_int n) = f_int (subs_sum subs')" using c(3) b by (subst w(2)) simp
    then have "(e, t', p') = (None, clampTaskRewardAccounting ?t ?p)"
      using assms(4) c(1) False by (auto simp: applyClaimLocked_def fzero_f_int)
    moreover obtain p1 where "clampTaskRewardAccounting ?t ?p = (?t, p1)" "TP_Stake p1 = TP_Stake ?p"
      using clamp_whole [of ?t "subs_sum subs'" "trunc_nat (RewardPoolAmount t)" ?p] w(1) by auto
    ultimately have "e = None" "t' = ?t" "p' = p1" "TP_Stake p1 = TP_Stake p" by simp_all
    then show ?thesis using c(2,3) False by simp
  qed
qed

text \<open>What an action brings into its task and takes out of it.\<close>

definition coins_in :: "TaskAction \<Rightarrow> nat" where
  "coins_in action = (if TA_Action action = ''stake'' \<or> TA_Action action = ''fund'' then trunc_nat (TA_Amount action) else 0)"

definition coins_out :: "TaskCodec \<Rightarrow> TaskAction \<Rightarrow> TaskState \<Rightarrow> string list \<Rightarrow> nat" where
  "coins_out tc action t ord =
     (if TA_Action action = ''unstake'' \<or> TA_Action action = ''withdraw''
        then min (trunc_nat (TA_Amount action)) (trunc_nat (TP_Stake (participant_of t (TA_Sender action))))
      else if TA_Action action = ''claim''
        then (\<Sum>k \<in> set ord. claim_amt (parseTaskActionPayload tc (TA_Payload action)) (TA_Sender action) t k)
      else 0)"

definition held :: "string \<Rightarrow> TaskState \<Rightarrow> TaskParticipantState \<Rightarrow> TaskState" where
  "held a t p = t\<lparr>Participants := fmupd a p (Participants t)\<rparr>"

lemma still_held:
  assumes "task_whole t" "Participants t' = Participants t" "TP_Stake p = TP_Stake (participant_of t a)" "TotalStakeAmount t' = TotalStakeAmount t"
    and "RewardPoolAmount t' = f_int b" "TS_PendingRewardAmount t' = f_int (subs_sum (Submissions t'))" "subs_whole (Submissions t')"
  shows "task_whole (held a t' p) \<and> task_value (held a t' p) = stake_sum t + b + subs_sum (Submissions t')"
  using task_whole_step [OF assms(1,2), of p "trunc_nat (TP_Stake (participant_of t a))" "stake_sum t" a b] assms(3-7)
    participant_whole [OF assms(1), of a] assms(1)
  by (simp add: held_def task_whole_def)

lemma participant_action_spec:
  assumes "lowers (re_Unicode (tc_Env tc))" "task_whole t" "task_value t + coins_in action < 2 ^ 52" "distinct ord"
    and "TA_Amount action = f_int n" "PL_RewardAmount (parseTaskActionPayload tc (TA_Payload action)) = f_int m"
    and "TP_Stake p = TP_Stake (participant_of t (TA_Sender action))" "TP_Stake p'' = TP_Stake p'"
    and "participant_action tc ord action allowLegacy allowPooled h s t p = Inr (x, s', t', p')"
  shows "x = None \<and> s' = s \<and> task_whole (held (TA_Sender action) t' p'') \<and>
     task_value (held (TA_Sender action) t' p'') + coins_out tc action t ord = task_value t + coins_in action"
proof -
  let ?a = "TA_Sender action" and ?k = "trunc_nat (TP_Stake (participant_of t (TA_Sender action)))"
  have w: "RewardPoolAmount t = f_int (trunc_nat (RewardPoolAmount t))" "TS_PendingRewardAmount t = f_int (subs_sum (Submissions t))"
    "subs_whole (Submissions t)" "TotalStakeAmount t = f_int (stake_sum t)" using assms(2) by (simp_all add: task_whole_def)
  have p: "TP_Stake p = f_int ?k" using participant_whole [OF assms(2)] assms(7) by simp
  have k: "?k \<le> stake_sum t" by (rule stake_of_le)
  have v: "task_value t < 2 ^ 52" using assms(3) by simp
  have same: ?thesis if "x = None" "s' = s" "Participants t' = Participants t" "TotalStakeAmount t' = TotalStakeAmount t" "TP_Stake p' = TP_Stake p"
    "RewardPoolAmount t' = RewardPoolAmount t" "TS_PendingRewardAmount t' = TS_PendingRewardAmount t" "Submissions t' = Submissions t"
    "coins_in action = 0" "coins_out tc action t ord = 0"
    using still_held [OF assms(2) that(3), of p'' ?a "trunc_nat (RewardPoolAmount t)"] that w assms(7,8) by (simp add: task_value_def)
  consider (idle) "TA_Action action = ''start'' \<or> TA_Action action = ''stop'' \<or> TA_Action action = ''migrate''"
    | (stake) "TA_Action action = ''stake''" | (fund) "TA_Action action = ''fund''"
    | (unstake) "TA_Action action = ''unstake'' \<or> TA_Action action = ''withdraw''"
    | (submit) "TA_Action action = ''submit''" | (claim) "TA_Action action = ''claim''"
    using assms(9) unfolding participant_action_def by (auto split: if_splits)
  then show ?thesis
  proof cases
    case idle
    then have "coins_in action = 0" "coins_out tc action t ord = 0" by (auto simp: coins_in_def coins_out_def)
    with idle assms(9) show ?thesis by (intro same) (auto simp: participant_action_def Let_def split: if_splits)
  next
    case stake
    then have r: "x = None" "s' = s" "t' = t\<lparr>TotalStakeAmount := f_int (stake_sum t + n)\<rparr>" "p' = p\<lparr>TP_Stake := f_int (?k + n)\<rparr>"
      using assms(3,5,9) p w(4) k by (auto simp: participant_action_def coins_in_def task_value_def split: if_splits)
    then show ?thesis
      using task_whole_step [OF assms(2), of t' p'' "?k + n" "stake_sum t + n" ?a "trunc_nat (RewardPoolAmount t)"] assms(5,8) w stake
      by (simp add: held_def task_value_def coins_in_def coins_out_def)
  next
    case fund
    then have "fadd (RewardPoolAmount t) (f_int n) = f_int (trunc_nat (RewardPoolAmount t) + n)"
      using assms(3,5) by (subst w(1)) (simp add: coins_in_def task_value_def)
    then have r: "x = None" "s' = s" "t' = t\<lparr>RewardPoolAmount := f_int (trunc_nat (RewardPoolAmount t) + n)\<rparr>" "p' = p"
      using fund assms(5,9) by (auto simp: participant_action_def split: if_splits)
    then show ?thesis
      using still_held [OF assms(2), of t' p'' ?a "trunc_nat (RewardPoolAmount t) + n"] assms(5,7,8) w fund
      by (simp add: task_value_def coins_in_def coins_out_def)
  next
    case unstake
    let ?d = "min n ?k"
    have d: "(if fless (TP_Stake p) (TA_Amount action) then TP_Stake p else TA_Amount action) = f_int ?d" using p assms(5) by (simp add: min_def)
    have "fsub (TotalStakeAmount t) (f_int ?d) = f_int (stake_sum t - ?d)" "fsub (TP_Stake p) (f_int ?d) = f_int (?k - ?d)"
      using w(4) p k v by (simp_all add: task_value_def)
    then have r: "x = None" "s' = s" "t' = t\<lparr>TotalStakeAmount := f_int (stake_sum t - ?d)\<rparr>" "p' = p\<lparr>TP_Stake := f_int (?k - ?d)\<rparr>"
      using unstake assms(9) unfolding participant_action_def Let_def d by (auto simp: fzero_f_int split: if_splits)
    then show ?thesis
      using task_whole_step [OF assms(2), of t' p'' "?k - ?d" "stake_sum t - ?d" ?a "trunc_nat (RewardPoolAmount t)"] assms(5,8) w unstake k
      by (auto simp: held_def task_value_def coins_in_def coins_out_def)
  next
    case submit
    then obtain p1 where ap: "applySubmissionLocked tc action allowLegacy allowPooled h s t p = Inr (x, s', t', p1)" "TP_Stake p' = TP_Stake p1"
      using assms(9) by (auto simp: participant_action_def split: sum.splits)
    from submission_spec [OF assms(1,2) v assms(6) ap(1)] have ps: "x = None" "s' = s" "task_pool_step t p t' p1" by auto
    then obtain b where b: "Participants t' = Participants t" "TotalStakeAmount t' = TotalStakeAmount t" "TP_Stake p1 = TP_Stake p" "RewardPoolAmount t' = f_int b"
      "TS_PendingRewardAmount t' = f_int (subs_sum (Submissions t'))" "subs_whole (Submissions t')"
      "b + subs_sum (Submissions t') = trunc_nat (RewardPoolAmount t) + subs_sum (Submissions t)" by (auto simp: task_pool_step_def)
    then show ?thesis
      using still_held [OF assms(2) b(1), of p'' ?a b] ps assms(7,8) ap(2) submit by (simp add: task_value_def coins_in_def coins_out_def)
  next
    case claim
    obtain e t1 p1 where ap: "applyClaimLocked tc ord action t p = (e, t1, p1)" by (metis prod_cases3)
    have e: "e = None \<or> e = Some ErrNoTaskReward" using ap by (auto simp: applyClaimLocked_def Let_def split: prod.splits if_splits)
    have r: "x = None" "s' = s" "t' = t1" "TP_Stake p' = TP_Stake p1"
      using claim assms(9) ap e by (auto simp: participant_action_def split: option.splits)
    have "coins_in action = 0" "coins_out tc action t ord = (\<Sum>k \<in> set ord. claim_amt (parseTaskActionPayload tc (TA_Payload action)) ?a t k)"
      using claim by (simp_all add: coins_in_def coins_out_def)
    with claim_spec [OF assms(2) v assms(4) ap e refl] r show ?thesis
      using still_held [OF assms(2), of t' p'' ?a "trunc_nat (RewardPoolAmount t)"] assms(7,8) w(1) by (auto simp: task_value_def)
  qed
qed

end
