(* ===== verification/TaskTheorems.thy ===== *)
theory TaskTheorems
  imports TaskProofs
begin

text \<open>
  What the task economy promises (coins are conserved, a failed transaction has no effect, an action counts once) and three places
  where it does not do what it means to: relay settlements can never happen, a claim over several rounds depends on the iteration
  order of a Go map, and the smallest stake in an uncatalogued task books its whole reward pool.
\<close>

section \<open>Actions over the store\<close>

lemma catalog_step:
  assumes "applyTaskCatalogActionLocked tc action s = Inr t" "task_whole (getOrCreateTaskLocked (TA_TaskID action) s)"
  shows "task_whole t \<and> task_value t = task_value (getOrCreateTaskLocked (TA_TaskID action) s)"
  using assms
  by (auto simp: applyTaskCatalogActionLocked_def Let_def getOrCreateTaskLocked_def task_whole_def task_value_def stake_sum_def
      split: if_splits option.splits sum.splits)

lemma catalog_no_coins:
  "isTaskCatalogAction (TA_Action action) \<Longrightarrow> coins_in action = 0 \<and> coins_out tc action t ord = 0"
  by (auto simp: isTaskCatalogAction_def coins_in_def coins_out_def TaskActionCatalogRegister_def TaskActionCatalogUpdate_def
      TaskActionCatalogPause_def TaskActionCatalogResume_def)

definition tasks_whole :: "TaskStateStore \<Rightarrow> bool" where
  "tasks_whole s \<longleftrightarrow> (\<forall>i t. fmlookup (tasks s) i = Some t \<longrightarrow> task_whole t)"

lemma getOrCreate_whole: "tasks_whole s \<Longrightarrow> task_whole (getOrCreateTaskLocked i s)"
  by (auto simp: tasks_whole_def getOrCreateTaskLocked_def split: option.splits)

lemma put_whole: "tasks_whole s \<Longrightarrow> task_whole t \<Longrightarrow> tasks_whole (put_task t i s)"
  by (auto simp: tasks_whole_def put_task_def)

lemma note_whole [simp]: "tasks_whole (note_action action s) = tasks_whole s"
  by (simp add: tasks_whole_def)

lemma put_put [simp]: "put_task t i (put_task u i s) = put_task t i s" "getOrCreateTaskLocked i (put_task u i s) = u"
  by (simp_all add: put_task_def getOrCreateTaskLocked_def)

lemma applyAction_spec:
  assumes "lowers (re_Unicode (tc_Env tc))" "tasks_whole s" "escrow s + coins_in action < 2 ^ 52" "distinct ord"
    and "TA_Amount action = f_int n" "PL_RewardAmount (parseTaskActionPayload tc (TA_Payload action)) = f_int m"
    and "applyAction tc ord action allowLegacy allowPooled h s = (Inr x, s')"
  shows "x = None \<and> tasks_whole s' \<and>
     escrow s' + coins_out tc action (getOrCreateTaskLocked (TA_TaskID action) s) ord = escrow s + coins_in action"
proof -
  let ?i = "TA_TaskID action" and ?t = "getOrCreateTaskLocked (TA_TaskID action) s"
  have w: "task_whole ?t" using getOrCreate_whole [OF assms(2)] .
  show ?thesis
  proof (cases "isTaskCatalogAction (TA_Action action)")
    case True
    then obtain t where t: "applyTaskCatalogActionLocked tc action s = Inr t" "x = None" "s' = note_action action (put_task (touch_task action t) ?i s)"
      using assms(7) by (auto simp: applyAction_def split: if_splits sum.splits)
    then show ?thesis
      using catalog_step [OF t(1) w] catalog_no_coins [OF True] put_whole [OF assms(2)] escrow_put [of "touch_task action t" ?i s]
      by auto
  next
    case False
    define p where "p = (let p = participant_of ?t (TA_Sender action) in if TP_Sender p = [] then p\<lparr>TP_Sender := TA_Sender action\<rparr> else p)"
    define seal where "seal = (\<lambda>p1 :: TaskParticipantState. p1\<lparr>TP_LastAction := TA_Action action, TP_LastActionID := TA_ID action, TP_LastActionAt := TA_Timestamp action\<rparr>)"
    obtain s1 t1 p1 where pa: "participant_action tc ord action allowLegacy allowPooled h (put_task ?t ?i s) ?t p = Inr (x, s1, t1, p1)"
      and s': "s' = note_action action (put_task (touch_task action (held (TA_Sender action) t1 (seal p1))) ?i s1)"
      using assms(7) False by (auto simp: applyAction_def Let_def p_def held_def seal_def split: if_splits sum.splits)
    have "task_value ?t + coins_in action < 2 ^ 52" using task_value_le [of ?i s] assms(3) by linarith
    moreover have "TP_Stake p = TP_Stake (participant_of ?t (TA_Sender action))" "TP_Stake (seal p1) = TP_Stake p1"
      by (simp_all add: p_def seal_def Let_def)
    ultimately have sp: "x = None" "s1 = put_task ?t ?i s" "task_whole (held (TA_Sender action) t1 (seal p1))"
      "task_value (held (TA_Sender action) t1 (seal p1)) + coins_out tc action ?t ord = task_value ?t + coins_in action"
      using participant_action_spec [OF assms(1) w _ assms(4-6) _ _ pa] by simp_all
    have "escrow s' + task_value ?t = escrow s + task_value (held (TA_Sender action) t1 (seal p1))"
      using escrow_put [of "touch_task action (held (TA_Sender action) t1 (seal p1))" ?i s] by (simp add: s' sp(2))
    then show ?thesis using put_whole [OF assms(2)] sp by (simp add: s')
  qed
qed

section \<open>A concrete economy\<close>

definition low_unicode :: UnicodeFns where
  "low_unicode = \<lparr>u_ToLower = map ascii_lower, u_TrimSpace = (\<lambda>s. s), u_Fields = (\<lambda>s. [s]), u_EqualFold = (=)\<rparr>"

definition sample_env :: RelayEnv where
  "sample_env = \<lparr>re_Unicode = low_unicode, re_ParseTime = (\<lambda>_. None), re_PublicKeySize = 2592, re_SignatureSize = 4627,
     re_PublicKeyOk = (\<lambda>_. False), re_Verify = (\<lambda>_ _ _. False)\<rparr>"

definition task_codec :: "TaskAction \<Rightarrow> taskActionPayload \<Rightarrow> TaskCodec" where
  "task_codec a pl = \<lparr>tc_Env = sample_env, tc_Action = (\<lambda>_. Some a), tc_Payload = (\<lambda>_. pl), tc_Manifest = (\<lambda>_. None), tc_Envelope = (\<lambda>_. None),
     tc_PoolProof = (\<lambda>_. None), tc_Details = (\<lambda>_. None), tc_URL = (\<lambda>_. None), tc_Float = show_f8\<rparr>"

definition whole_pool :: taskActionPayload where
  "whole_pool = \<lparr>PL_Round = 1, PL_Slot = 0, PL_SubmissionValue = ''anything'', PL_MigratedTo = [], PL_RewardAmount = f_int 5\<rparr>"

definition sample_action :: "string \<Rightarrow> f64 \<Rightarrow> TaskAction" where
  "sample_action kind amount = \<lparr>TA_ID = ''a1'', TA_Sender = ''alice'', TA_TaskID = ''job'', TA_Action = kind, TA_Amount = amount, TA_Payload = ''x'',
     TA_Nonce = 0, TA_Timestamp = []\<rparr>"

definition task_tx :: Tx where
  "task_tx = (transfer ''alice'' [] fzero (f_int 1) 3)\<lparr>TxID := ''a1'', TxContractID := TaskContractID\<rparr>"

definition funded_task :: TaskState where
  "funded_task = (new_task ''job'')\<lparr>TotalStakeAmount := f_int 1, RewardPoolAmount := f_int 5,
     Participants := fmupd ''alice'' (new_participant\<lparr>TP_Stake := f_int 1\<rparr>) fmempty\<rparr>"

definition funded_store :: TaskStateStore where
  "funded_store = put_task funded_task ''job'' NewTaskStateStore"

lemma sample_lowers [simp]: "lowers (re_Unicode (tc_Env (task_codec a pl)))"
  using ascii_lower_not_upper by (auto simp: lowers_def task_codec_def sample_env_def low_unicode_def no_upper_def list_all_iff)

lemma sample_decode: "DecodeTaskActionTx (task_codec (sample_action k x) pl) task_tx = Inr ((sample_action k x)\<lparr>TA_Nonce := 3\<rparr>)"
  by (simp add: DecodeTaskActionTx_def task_tx_def transfer_def task_codec_def sample_action_def)

lemma sample_payload_parse: "parseTaskActionPayload (task_codec a pl) ''x'' = pl"
  by (simp add: parseTaskActionPayload_def task_codec_def)

lemma funded_task_whole: "task_whole funded_task" "task_value funded_task = 6"
  by (simp_all add: funded_task_def new_task_def task_whole_def task_value_def stake_sum_def fmap_total_fresh subs_sum_def subs_whole_def fzero_f_int)

lemma funded_store_props:
  "tasks_whole funded_store" "escrow funded_store = 6" "fmlookup (tasks funded_store) ''job'' = Some funded_task"
  using funded_task_whole by (simp_all add: funded_store_def put_task_def NewTaskStateStore_def tasks_whole_def escrow_def fmap_total_fresh)

lemma sample_economy: "economy (sample_store, funded_store)"
  using funded_store_props
  by (simp add: economy_def tasks_whole_def sample_store_def whole_ledger_def money_supply_def fmap_total_fresh)

section \<open>Conservation\<close>

lemma clone_task_id [simp]: "fmmap cloneTaskState m = m"
proof (intro fmap_ext)
  fix x show "fmlookup (fmmap cloneTaskState m) x = fmlookup m x" by (cases "fmlookup m x") (simp_all add: cloneTaskState_def)
qed

lemma tasks_restore [simp]: "Tasks_RestoreFromChainReplay (Tasks_ChainReplayClone s) s' = s"
  by (simp add: Tasks_RestoreFromChainReplay_def Tasks_ChainReplayClone_def)

text \<open>The charge, release and claim of an action in whole coins.\<close>

lemma economic_terms_spec:
  assumes "tasks_whole s" "escrow s < 2 ^ 52" "TA_Amount action = f_int n" "fee + n < 2 ^ 52"
    and "map_order (Submissions (getOrCreateTaskLocked (TA_TaskID action) s)) ord1" "map_order (Submissions (getOrCreateTaskLocked (TA_TaskID action) s)) ord2"
    and "economic_terms tc ord1 action (f_int fee) s = Inr (charge, release, claimReward)"
  shows "charge = f_int (fee + coins_in action) \<and> (\<exists>r c. release = f_int r \<and> claimReward = f_int c \<and>
     r + c = coins_out tc action (getOrCreateTaskLocked (TA_TaskID action) s) ord2)"
proof -
  let ?t = "getOrCreateTaskLocked (TA_TaskID action) s" and ?pl = "parseTaskActionPayload tc (TA_Payload action)"
  have w: "task_whole ?t" using getOrCreate_whole [OF assms(1)] .
  have ords: "set ord1 = set ord2" "distinct ord1" using assms(5,6) by (simp_all add: map_order_def)
  have stake: "ParticipantStake (TA_TaskID action) (TA_Sender action) s = TP_Stake (participant_of ?t (TA_Sender action))"
    by (auto simp: ParticipantStake_def getOrCreateTaskLocked_def participant_of_def new_task_def new_participant_def split: option.splits)
  let ?sum = "\<Sum>k \<in> set ord2. claim_amt ?pl (TA_Sender action) ?t k"
  have claim: "ClaimableReward tc ord1 action s = f_int ?sum"
  proof (cases "fmlookup (tasks s) (TA_TaskID action)")
    case None
    then have "claim_amt ?pl (TA_Sender action) ?t k = 0" for k
      by (simp add: claim_amt_def claimed_here_def getOrCreateTaskLocked_def new_task_def)
    then show ?thesis using None by (simp add: ClaimableReward_def fzero_f_int)
  next
    case (Some t)
    then have t: "?t = t" by (simp add: getOrCreateTaskLocked_def)
    have "subs_sum (Submissions t) \<le> 2 ^ 52" using task_value_le [of "TA_TaskID action" s] assms(2) t by (simp add: task_value_def)
    then have "?sum \<le> 2 ^ 52"
      using claim_loop_spec [where t = t and r = 0 and ks = ord1 and payload = ?pl and sender = "TA_Sender action" and ts = "[]"] w ords unfolding t by (auto simp: task_whole_def)
    then show ?thesis using claimable_spec [where t = t and r = 0 and ks = ord1 and payload = ?pl and sender = "TA_Sender action"] w ords Some t by (simp add: ClaimableReward_def fzero_f_int task_whole_def)
  qed
  obtain k where k: "TP_Stake (participant_of ?t (TA_Sender action)) = f_int k" using participant_whole [OF w] by blast
  consider (pay) "TA_Action action = ''stake'' \<or> TA_Action action = ''fund''" | (unstake) "TA_Action action = ''unstake'' \<or> TA_Action action = ''withdraw''"
    | (claim) "TA_Action action = ''claim''" | (other) "TA_Action action \<notin> {''stake'', ''fund'', ''unstake'', ''withdraw'', ''claim''}" by auto
  then show ?thesis
  proof cases
    case pay
    then show ?thesis using assms(3,4,7) by (auto simp: economic_terms_def coins_in_def coins_out_def fzero_f_int split: if_splits)
  next
    case unstake
    then have "charge = f_int fee" "release = f_int n" "claimReward = f_int 0" "n \<le> k"
      using assms(3,7) stake k by (auto simp: economic_terms_def fzero_f_int split: if_splits)
    then show ?thesis using unstake assms(3) k by (auto simp: coins_in_def coins_out_def min_def)
  next
    case claim
    then have "charge = f_int fee" "release = f_int 0" "claimReward = f_int ?sum"
      using assms(7) \<open>ClaimableReward tc ord1 action s = f_int ?sum\<close> by (auto simp: economic_terms_def fzero_f_int split: if_splits)
    then show ?thesis using claim by (auto simp: coins_in_def coins_out_def)
  next
    case other
    then show ?thesis using assms(7) by (auto simp: economic_terms_def coins_in_def coins_out_def fzero_f_int)
  qed
qed

text \<open>
  C19: Task actions with whole amounts move coins and never make or lose one. In an economy of whole coins (balances, stakes, reward pools
  and pending rewards are whole numbers, together below \<open>2 ^ 52\<close>), a successful task transaction of any kind whose fee, amount and
  claimed reward are whole numbers, in whatever order the Go maps are walked, leaves the sum
  of all balances, stakes, pools and pending rewards smaller by exactly the fee, and the bookkeeping invariant holds again: a
  task's total stake is the sum of its participants' stakes and its pending amount is the sum of its unclaimed rewards.
\<close>

theorem task_economy_conserves_coins:
  assumes "lowers (re_Unicode (tc_Env tc))" "economy (as, s)" "DecodeTaskActionTx tc tx = Inr action"
    and "Fee tx = f_int fee" "TA_Amount action = f_int n" "fee + n < 2 ^ 52"
    and "PL_RewardAmount (parseTaskActionPayload tc (TA_Payload action)) = f_int m"
    and "map_order (Submissions (getOrCreateTaskLocked (TA_TaskID action) s)) ord1" "map_order (Submissions (getOrCreateTaskLocked (TA_TaskID action) s)) ord2"
    and "applyEconomicTx tc ord1 ord2 tx h (as, s) = (None, as', s')"
  shows "economy (as', s') \<and> money_supply as' + escrow s' + fee = money_supply as + escrow s"
proof -
  have e: "whole_ledger as" "tasks_whole s" "money_supply as + escrow s < 2 ^ 52" using assms(2) by (simp_all add: economy_def tasks_whole_def)
  obtain charge release claimReward as1 x where t: "economic_terms tc ord1 action (f_int fee) s = Inr (charge, release, claimReward)"
    "ChargeAndBumpNonce (TA_Sender action) charge (TxNonce tx) as = (None, as1)" "applyAction tc ord2 action False True h s = (Inr x, s')"
    "as' = pay_out action release claimReward x as1"
    using assms(10) assms(3,4) by (auto simp: applyEconomicTx_def Let_def split: if_splits sum.splits prod.splits option.splits)
  have "escrow s < 2 ^ 52" using e(3) by simp
  then obtain r c where rc: "charge = f_int (fee + coins_in action)" "release = f_int r" "claimReward = f_int c"
    "r + c = coins_out tc action (getOrCreateTaskLocked (TA_TaskID action) s) ord2"
    using economic_terms_spec [OF e(2) _ assms(5,6,8,9) t(1)] by blast
  have charged: "whole_ledger as1" "money_supply as1 + (fee + coins_in action) = money_supply as"
    using ChargeAndBumpNonce_whole [OF e(1)] t(2) rc(1) by auto
  have "escrow s + coins_in action < 2 ^ 52" using e(3) charged(2) by linarith
  then have ap: "x = None" "tasks_whole s'" "escrow s' + (r + c) = escrow s + coins_in action"
    using applyAction_spec [OF assms(1) e(2) _ _ assms(5,7) t(3)] assms(9) rc(4) by (simp_all add: map_order_def)
  have paid: "as' = (let as = (if 0 < r then Credit (TA_Sender action) (f_int r) as1 else as1) in if 0 < c then Credit (TA_Sender action) (f_int c) as else as)"
    using t(4) ap(1) rc(2,3) by (simp add: pay_out_def fzero_f_int Let_def)
  have bound: "money_supply as1 + r + c \<le> 9007199254740992" using charged(2) ap(3) e(3) by simp
  define as2 where "as2 = (if 0 < r then Credit (TA_Sender action) (f_int r) as1 else as1)"
  have w2: "whole_ledger as2 \<and> money_supply as2 = money_supply as1 + r"
    using Credit_whole [OF charged(1), of r "TA_Sender action"] bound charged(1) by (simp add: as2_def)
  have "whole_ledger as' \<and> money_supply as' = money_supply as2 + c"
    using Credit_whole [of as2 c "TA_Sender action"] w2 bound by (simp add: paid Let_def flip: as2_def)
  then show ?thesis using w2 charged(2) ap e(3) by (simp add: economy_def tasks_whole_def)
qed

theorem task_economy_conserves_coins_witness:
  "\<exists>as' s'. applyEconomicTx (task_codec (sample_action ''stake'' (f_int 4)) whole_pool) [] [] task_tx 9 (sample_store, funded_store) = (None, as', s') \<and>
     money_supply as' + escrow s' + 1 = money_supply sample_store + escrow funded_store"
proof -
  let ?tc = "task_codec (sample_action ''stake'' (f_int 4)) whole_pool" and ?a = "(sample_action ''stake'' (f_int 4))\<lparr>TA_Nonce := 3\<rparr>"
  have t: "economic_terms ?tc [] ?a (f_int 1) funded_store = Inr (f_int 5, fzero, fzero)"
    by (simp add: economic_terms_def sample_action_def fzero_f_int)
  have c: "\<exists>as1. ChargeAndBumpNonce ''alice'' (f_int 5) 3 sample_store = (None, as1)"
    by (simp add: ChargeAndBumpNonce_def sample_store_def fzero_f_int)
  have "\<exists>x s'. applyAction ?tc [] ?a False True 9 funded_store = (Inr x, s')"
    by (simp add: applyAction_def participant_action_def Let_def sample_action_def isTaskCatalogAction_def TaskActionCatalogRegister_def
        TaskActionCatalogUpdate_def TaskActionCatalogPause_def TaskActionCatalogResume_def funded_store_def put_task_def NewTaskStateStore_def fzero_f_int)
  then obtain as' s' where ap: "applyEconomicTx ?tc [] [] task_tx 9 (sample_store, funded_store) = (None, as', s')"
    using t c sample_decode [of "''stake''" "f_int 4" whole_pool] by (auto simp: applyEconomicTx_def task_tx_def transfer_def sample_action_def fzero_f_int)
  have o: "map_order (Submissions (getOrCreateTaskLocked (TA_TaskID ?a) funded_store)) []"
    using funded_store_props(3) by (simp add: getOrCreateTaskLocked_def sample_action_def funded_task_def new_task_def map_order_def)
  have f: "Fee task_tx = f_int 1" "TA_Amount ?a = f_int 4" "TA_Payload ?a = ''x''" by (simp_all add: task_tx_def transfer_def sample_action_def)
  show ?thesis
    using task_economy_conserves_coins [OF sample_lowers sample_economy sample_decode f(1,2) _ _ o o ap, of 5] ap
    by (simp add: f(3) sample_payload_parse whole_pool_def)
qed

lemma charge_failed: "ChargeAndBumpNonce a x n as = (Some e, as') \<Longrightarrow> as' = as"
  using charge_error(1) [of a x n as] by simp

lemma applyEconomicTx_failed:
  assumes "applyEconomicTx tc ord1 ord2 tx h (as, s) = (Some e, as', s')"
  shows "as' = as \<and> s' = s"
  using assms charge_failed
  by (auto simp: applyEconomicTx_def Let_def Accounts_RestoreFrom_def Accounts_Clone_def split: if_splits sum.splits prod.splits option.splits)

text \<open>
  A task transaction that fails changes neither an account nor a task, whatever the reason and whatever amounts are involved.
\<close>

theorem failed_task_tx_changes_nothing:
  assumes "applyEconomicTx tc ord1 ord2 tx h (as, s) = (Some e, as', s')"
  shows "as' = as \<and> s' = s"
  using assms by (rule applyEconomicTx_failed)

theorem failed_task_tx_changes_nothing_witness:
  "applyEconomicTx (task_codec (sample_action ''claim'' fzero) whole_pool) [] [] task_tx 9 (sample_store, funded_store) =
     (Some ErrNoTaskReward, sample_store, funded_store)"
proof -
  have "fst (applyEconomicTx (task_codec (sample_action ''claim'' fzero) whole_pool) [] [] task_tx 9 (sample_store, funded_store)) = Some ErrNoTaskReward"
    using funded_store_props(3) sample_decode [of "''claim''" fzero whole_pool]
    by (simp add: applyEconomicTx_def economic_terms_def sample_action_def ClaimableReward_def task_tx_def transfer_def fzero_f_int)
  then show ?thesis
    using failed_task_tx_changes_nothing [of "task_codec (sample_action ''claim'' fzero) whole_pool" "[]" "[]" task_tx 9 sample_store funded_store ErrNoTaskReward]
    by (metis prod.collapse)
qed

section \<open>Relay settlements\<close>

lemma submission_keeps_settled:
  assumes "lowers (re_Unicode (tc_Env tc))" "applySubmissionLocked tc action allowLegacy allowPooled h s t p = Inr (x, s', t', p')"
  shows "x = None \<and> s' = s"
  using assms(2)
  by (auto simp: applySubmissionLocked_def Let_def split: if_splits sum.splits option.splits prod.splits dest!: no_settlement [OF assms(1)])

lemma action_keeps_settled:
  assumes "lowers (re_Unicode (tc_Env tc))" "participant_action tc ord action allowLegacy allowPooled h s t p = Inr (x, s', t', p')"
  shows "x = None \<and> s' = s"
  using assms(2) submission_keeps_settled [OF assms(1)]
  by (auto simp: participant_action_def Let_def split: if_splits sum.splits option.splits prod.splits)

text \<open>
  A relay settlement can never happen. The policy compares the lower-cased proof source with the constant
  \<open>QSD-edge-relay-v2\<close>, which has upper-case letters, so the branch that verifies a relay proof is never taken: no task action, by
  any path and at any height, settles a pooled proof, binds a relay or consumes a receipt.
\<close>

theorem relay_settlements_never_happen:
  assumes "lowers (re_Unicode (tc_Env tc))" "applyAction tc ord action allowLegacy allowPooled h s = (res, s')"
  shows "(\<forall>x. res \<noteq> Inr (Some x)) \<and> settledPooledProofs s' = settledPooledProofs s \<and> settledPooledReceipts s' = settledPooledReceipts s \<and>
     pooledRelayBindings s' = pooledRelayBindings s"
  using assms(2)
  by (auto simp: applyAction_def Let_def note_action_def put_task_def split: if_splits sum.splits prod.splits dest!: action_keeps_settled [OF assms(1)])

theorem relay_settlements_never_happen_witness:
  "\<forall>x. fst (applyAction (task_codec (sample_action ''submit'' fzero) whole_pool) [] (sample_action ''submit'' fzero) False True 9 funded_store) \<noteq> Inr (Some x)"
  using relay_settlements_never_happen [OF sample_lowers, of "sample_action ''submit'' fzero" whole_pool "[]" "sample_action ''submit'' fzero" False True 9 funded_store]
  by (metis prod.collapse)

section \<open>Reward pools\<close>

text \<open>
  In a task without a catalog entry the smallest stake books the whole reward pool. A participant with any positive stake
  submits an arbitrary value for a round of its choice, names the whole pool as its reward, and the submission is accepted: the pool is empty
  and the participant can claim all of it.
\<close>

theorem smallest_stake_books_the_pool:
  assumes "lowers (re_Unicode (tc_Env tc))" "tasks_whole s" "escrow s < 2 ^ 52" "fmlookup (tasks s) (TA_TaskID action) = Some t" "Manifest t = None"
    and "systemResourceTaskPolicies (TA_TaskID action) = None" "TP_Stake (participant_of t (TA_Sender action)) = f_int k" "0 < k"
    and "RewardPoolAmount t = f_int b" "0 < b" "TA_Action action = ''submit''" "TA_ID action \<noteq> []" "TA_Sender action \<noteq> []" "TA_TaskID action \<noteq> []"
    and "TA_ID action |\<notin>| actionIDs s" "TA_Nonce action = 0"
    and "PL_RewardAmount (parseTaskActionPayload tc (TA_Payload action)) = f_int b"
    and "fmlookup (Submissions t) (show_nat (unat (PL_Round (parseTaskActionPayload tc (TA_Payload action))))) = None"
  shows "\<exists>s' t' sub. applyAction tc ord action False True h s = (Inr None, s') \<and> fmlookup (tasks s') (TA_TaskID action) = Some t' \<and>
     RewardPoolAmount t' = f_int 0 \<and>
     claimed_here (parseTaskActionPayload tc (TA_Payload action)) (TA_Sender action) t' (show_nat (unat (PL_Round (parseTaskActionPayload tc (TA_Payload action))))) = Some sub \<and>
     SB_RewardAmount sub = f_int b"
proof -
  define payload where "payload = parseTaskActionPayload tc (TA_Payload action)"
  define r where "r = show_nat (unat (PL_Round payload))"
  define p where "p = (let p = participant_of t (TA_Sender action) in if TP_Sender p = [] then p\<lparr>TP_Sender := TA_Sender action\<rparr> else p)"
  let ?a = "TA_Sender action" and ?i = "TA_TaskID action"
  have reward: "PL_RewardAmount payload = f_int b" and fresh: "fmlookup (Submissions t) r = None" using assms(17,18) by (simp_all add: payload_def r_def)
  have stake: "TP_Stake p = f_int k" using assms(7) by (simp add: p_def Let_def)
  have w: "task_whole t" using assms(2,4) by (simp add: tasks_whole_def)
  have bound: "b + subs_sum (Submissions t) < 2 ^ 52"
    using task_value_le [of ?i s] assms(3,4,9) by (simp add: getOrCreateTaskLocked_def task_value_def)
  have pol: "validateTaskSubmissionPolicyLocked tc t p action payload False True h (put_task t ?i s) = Inr None"
    using assms(5,6) by (simp add: validateTaskSubmissionPolicyLocked_def manifest_policy_def)
  obtain e where e: "taskAmountEpsilon = Fin False e" using epsilon_small by blast
  have "\<not> taskAmountLessThan (f_int b) (f_int b)"
  proof -
    have "fle fzero taskAmountEpsilon" "fle fzero (f_int b)" by (simp_all add: e fzero_def f_int_def)
    then show ?thesis using fadd_keeps_floor [of "f_int b" "f_int b" taskAmountEpsilon] bound by (simp add: taskAmountLessThan_def)
  qed
  then have ck: "submission_checks tc t p action payload None None = None"
    using assms(6,8,9,10) reward stake by (simp add: submission_checks_def Let_def fzero_f_int)
  have "TS_PendingRewardAmount t = f_int (subs_sum (Submissions t))" using w by (simp add: task_whole_def)
  then obtain p2 where st: "settle_reward tc action payload None t p = (t\<lparr>RewardPoolAmount := f_int 0, TS_PendingRewardAmount := f_int (subs_sum (Submissions t) + b)\<rparr>, p2)"
    using settle_spec [of t b "subs_sum (Submissions t)" payload b tc action p] assms(9) reward bound by auto
  let ?t2 = "t\<lparr>RewardPoolAmount := f_int 0, TS_PendingRewardAmount := f_int (subs_sum (Submissions t) + b)\<rparr>" and ?sub = "new_submission tc action payload None"
  have ex: "(case fmlookup (Submissions t) r of None \<Rightarrow> None | Some m \<Rightarrow> fmlookup m ?a) = None" by (simp add: fresh)
  have "applySubmissionLocked tc action False True h (put_task t ?i s) t p = Inr (None, put_task t ?i s, store_submission r ?a ?sub ?t2, p2)"
    using pol ck st reward unfolding applySubmissionLocked_def Let_def payload_def [symmetric] r_def [symmetric] ex
    by (simp add: refund_existing_def fzero_f_int)
  then have pa: "participant_action tc ord action False True h (put_task t ?i s) t p =
      Inr (None, put_task t ?i s, store_submission r ?a ?sub ?t2, p2\<lparr>SubmissionCount := SubmissionCount p2 + 1, ClaimCount := ClaimCount p2\<rparr>)"
    using assms(11) by (simp add: participant_action_def)
  have get: "getOrCreateTaskLocked ?i s = t" using assms(4) by (simp add: getOrCreateTaskLocked_def)
  have nc: "\<not> isTaskCatalogAction (TA_Action action)"
    using assms(11) by (simp add: isTaskCatalogAction_def TaskActionCatalogRegister_def TaskActionCatalogUpdate_def TaskActionCatalogPause_def TaskActionCatalogResume_def)
  have "\<exists>q. applyAction tc ord action False True h s =
      (Inr None, note_action action (put_task (touch_task action (held ?a (store_submission r ?a ?sub ?t2) q)) ?i s))"
    using assms(11-16) nc pa unfolding applyAction_def Let_def get p_def [unfolded Let_def, symmetric] held_def by auto
  then obtain q where ap: "applyAction tc ord action False True h s =
      (Inr None, note_action action (put_task (touch_task action (held ?a (store_submission r ?a ?sub ?t2) q)) ?i s))" by blast
  let ?t' = "touch_task action (held ?a (store_submission r ?a ?sub ?t2) q)"
  have "claimed_here payload ?a ?t' r = Some ?sub" "SB_RewardAmount ?sub = f_int b"
    using reward assms(10) by (simp_all add: claimed_here_def touch_task_def held_def store_submission_def r_def new_submission_def fzero_f_int)
  moreover have "RewardPoolAmount ?t' = f_int 0" by (simp add: touch_task_def held_def store_submission_def)
  moreover have "fmlookup (tasks (note_action action (put_task ?t' ?i s))) ?i = Some ?t'" by (simp add: put_task_def)
  ultimately show ?thesis unfolding payload_def [symmetric] r_def [symmetric] using ap by blast
qed

theorem smallest_stake_books_the_pool_witness:
  "\<exists>s' t'. applyAction (task_codec (sample_action ''submit'' fzero) whole_pool) [] (sample_action ''submit'' fzero) False True 9 funded_store = (Inr None, s') \<and>
     fmlookup (tasks s') ''job'' = Some t' \<and> RewardPoolAmount t' = f_int 0"
proof -
  let ?a = "sample_action ''submit'' fzero"
  have f: "TA_TaskID ?a = ''job''" "TA_Sender ?a = ''alice''" "TA_Payload ?a = ''x''" "TA_ID ?a = ''a1''" "TA_Action ?a = ''submit''" "TA_Nonce ?a = 0"
    by (simp_all add: sample_action_def)
  show ?thesis
    using smallest_stake_books_the_pool [OF sample_lowers funded_store_props(1), of ?a funded_task 1 5 ?a whole_pool "[]" 9] funded_store_props
    by (simp add: f sample_payload_parse funded_task_def new_task_def participant_of_def systemResourceTaskPolicies_def whole_pool_def
        funded_store_def put_task_def NewTaskStateStore_def) blast
qed

section \<open>Claims and map order\<close>

text \<open>The three rewards 0.1, 0.2 and 0.3, and their sums in two orders.\<close>

lemma unit_parts: "7205759403792794 * 2 ^ 1018 < max_mag" "7205759403792794 * 2 ^ 1019 < max_mag" "5404319552844595 * 2 ^ 1020 < max_mag"
  unfolding max_mag_def by simp_all

lemma tenths:
  "f64_ratio 1 10 = Fin False (7205759403792794 * 2 ^ 1018)" "f64_ratio 2 10 = Fin False (7205759403792794 * 2 ^ 1019)"
  "f64_ratio 3 10 = Fin False (5404319552844595 * 2 ^ 1020)"
proof -
  have "round_ratio (1 * unit_one) 10 = 7205759403792794 * 2 ^ 1018" using round_ratio_unit [of 10 1 56 7205759403792793 6] by simp
  moreover have "round_ratio (2 * unit_one) 10 = 7205759403792794 * 2 ^ 1019" using round_ratio_unit [of 10 2 55 7205759403792793 6] by simp
  moreover have "round_ratio (3 * unit_one) 10 = 5404319552844595 * 2 ^ 1020" using round_ratio_unit [of 10 3 54 5404319552844595 2] by simp
  ultimately show "f64_ratio 1 10 = Fin False (7205759403792794 * 2 ^ 1018)" "f64_ratio 2 10 = Fin False (7205759403792794 * 2 ^ 1019)"
    "f64_ratio 3 10 = Fin False (5404319552844595 * 2 ^ 1020)"
    using unit_parts by (simp_all only: f64_ratio_def mk_fin_def not_le [symmetric]) simp_all
qed

lemma fadd_pow2:
  assumes "a * 2 ^ i + b * 2 ^ j = m * 2 ^ l" "m = q * 2 ^ k + r" "r < 2 ^ k" "q < 2 ^ 53" "2 ^ 52 \<le> q" "k + l \<le> 2000"
    and "Q = (if 2 * r > 2 ^ k \<or> (2 * r = 2 ^ k \<and> odd q) then q + 1 else q)" "e = k + l"
  shows "fadd (Fin False (a * 2 ^ i)) (Fin False (b * 2 ^ j)) = Fin False (Q * 2 ^ e)"
proof -
  let ?q = "if 2 * r > 2 ^ k \<or> (2 * r = 2 ^ k \<and> odd q) then q + 1 else q"
  have pos: "0 < m" using assms(2,5) by (simp add: order_less_le_trans [of 0 "2 ^ 52"])
  have "round_mag (m * 2 ^ l) = ?q * 2 ^ k * 2 ^ l" by (rule round_mag_pow [OF assms(2-5)])
  then have rm: "round_mag (a * 2 ^ i + b * 2 ^ j) = ?q * 2 ^ (k + l)" by (simp add: assms(1) power_add mult.assoc)
  have "?q * 2 ^ (k + l) \<le> 2 ^ 53 * 2 ^ (k + l)" using assms(4) by (intro mult_le_mono1) simp
  also have "\<dots> = 2 ^ (53 + (k + l))" by (rule power_add [symmetric])
  also have "\<dots> < max_mag" unfolding max_mag_def using assms(6) by (intro power_strict_increasing) simp_all
  finally have lt: "?q * 2 ^ (k + l) < max_mag" .
  have nz: "a * 2 ^ i + b * 2 ^ j \<noteq> 0" using assms(1) pos by simp
  have "fadd (Fin False x) (Fin False y) = mk_fin False (round_mag (x + y))" if "x + y \<noteq> 0" for x y
    using that by (auto simp: fadd_def Let_def nat_add_distrib)
  from this [OF nz] show ?thesis using rm lt unfolding assms(7,8) by (simp add: mk_fin_def)
qed

lemma tenth_sums:
  "fadd (fadd (f64_ratio 1 10) (f64_ratio 2 10)) (f64_ratio 3 10) = Fin False (5404319552844596 * 2 ^ 1021)"
  "fadd (fadd (f64_ratio 3 10) (f64_ratio 2 10)) (f64_ratio 1 10) = Fin False (5404319552844595 * 2 ^ 1021)"
proof -
  have a: "fadd (f64_ratio 1 10) (f64_ratio 2 10) = Fin False (5404319552844596 * 2 ^ 1020)"
    unfolding tenths by (rule fadd_pow2 [where m = 21617278211378382 and l = 1018 and q = 5404319552844595 and k = 2 and r = 2]) simp_all
  show "fadd (fadd (f64_ratio 1 10) (f64_ratio 2 10)) (f64_ratio 3 10) = Fin False (5404319552844596 * 2 ^ 1021)"
    unfolding a unfolding tenths by (rule fadd_pow2 [where m = 10808639105689191 and l = 1020 and q = 5404319552844595 and k = 1 and r = 1]) simp_all
  have b: "fadd (f64_ratio 3 10) (f64_ratio 2 10) = Fin False (4503599627370496 * 2 ^ 1021)"
    unfolding tenths by (rule fadd_pow2 [where m = 18014398509481984 and l = 1019 and q = 4503599627370496 and k = 2 and r = 0]) simp_all
  show "fadd (fadd (f64_ratio 3 10) (f64_ratio 2 10)) (f64_ratio 1 10) = Fin False (5404319552844595 * 2 ^ 1021)"
    unfolding b unfolding tenths by (rule fadd_pow2 [where m = 43234556422756762 and l = 1018 and q = 5404319552844595 and k = 3 and r = 2]) simp_all
qed

text \<open>A task where one worker has three open rewards.\<close>

definition open_reward :: "f64 \<Rightarrow> TaskSubmissionState" where
  "open_reward x = \<lparr>SB_ActionID = ''s'', SB_Sender = ''w'', SB_Round = 1, SB_Slot = 0, SB_SubmissionValue = [], SB_Payload = [], SB_RewardAmount = x,
     SB_Claimed = False, SB_ClaimedAt = [], SB_Timestamp = [], SettlementProofIDOf = [], SettlementCoordinatorID = [],
     SettlementContributorWallet = [], SettlementMotherHiveWallet = [], SettlementEcosystemWallet = [], SettlementContributorAmount = fzero,
     SettlementMotherHiveAmount = fzero, SettlementEcosystemAmount = fzero\<rparr>"

definition three_rounds :: TaskStateStore where
  "three_rounds = put_task ((new_task ''t'')\<lparr>Submissions :=
     fmupd ''1'' (fmupd ''w'' (open_reward (f64_ratio 1 10)) fmempty) (fmupd ''2'' (fmupd ''w'' (open_reward (f64_ratio 2 10)) fmempty)
       (fmupd ''3'' (fmupd ''w'' (open_reward (f64_ratio 3 10)) fmempty) fmempty))\<rparr>) ''t'' NewTaskStateStore"

definition claim_all :: TaskAction where
  "claim_all = \<lparr>TA_ID = ''c'', TA_Sender = ''w'', TA_TaskID = ''t'', TA_Action = ''claim'', TA_Amount = fzero, TA_Payload = [], TA_Nonce = 0, TA_Timestamp = []\<rparr>"

text \<open>
  What a claim pays depends on the iteration order of a Go map. With open rewards of 0.1, 0.2 and 0.3 in three rounds, two orders in which
  Go may range over the submissions credit different amounts, so two honest nodes that apply the same claim end up with
  different balances.
\<close>

theorem claim_depends_on_map_order:
  "\<exists>t. fmlookup (tasks three_rounds) ''t'' = Some t \<and> map_order (Submissions t) [''1'', ''2'', ''3''] \<and> map_order (Submissions t) [''3'', ''2'', ''1''] \<and>
     ClaimableReward tc [''1'', ''2'', ''3''] claim_all three_rounds \<noteq> ClaimableReward tc [''3'', ''2'', ''1''] claim_all three_rounds"
proof -
  have pos: "\<not> fle (f64_ratio 1 10) fzero" "\<not> fle (f64_ratio 2 10) fzero" "\<not> fle (f64_ratio 3 10) fzero"
    unfolding tenths by (simp_all add: fzero_def)
  have wf: "fadd fzero (f64_ratio 1 10) = f64_ratio 1 10" "fadd fzero (f64_ratio 3 10) = f64_ratio 3 10"
  proof -
    have z: "fzero = Fin False (0 * 2 ^ 0)" by (simp add: fzero_def)
    show "fadd fzero (f64_ratio 1 10) = f64_ratio 1 10"
      unfolding tenths z by (rule fadd_pow2 [where m = 7205759403792794 and l = 1018 and q = 7205759403792794 and k = 0 and r = 0]) simp_all
    show "fadd fzero (f64_ratio 3 10) = f64_ratio 3 10"
      unfolding tenths z by (rule fadd_pow2 [where m = 5404319552844595 and l = 1020 and q = 5404319552844595 and k = 0 and r = 0]) simp_all
  qed
  have ne: "Fin False (5404319552844596 * 2 ^ 1021) \<noteq> Fin False (5404319552844595 * 2 ^ 1021)" by simp
  obtain t where t: "fmlookup (tasks three_rounds) ''t'' = Some t" by (simp add: three_rounds_def put_task_def)
  have c: "claimed_here (parseTaskActionPayload tc []) ''w'' t r =
      (if r = ''1'' then Some (open_reward (f64_ratio 1 10)) else if r = ''2'' then Some (open_reward (f64_ratio 2 10))
       else if r = ''3'' then Some (open_reward (f64_ratio 3 10)) else None)" for r
    using t pos by (auto simp: three_rounds_def put_task_def claimed_here_def parseTaskActionPayload_def open_reward_def)
  have "ClaimableReward tc [''1'', ''2'', ''3''] claim_all three_rounds = Fin False (5404319552844596 * 2 ^ 1021)"
    using t by (simp add: ClaimableReward_def claim_all_def c open_reward_def wf tenth_sums del: One_nat_def)
  moreover have "ClaimableReward tc [''3'', ''2'', ''1''] claim_all three_rounds = Fin False (5404319552844595 * 2 ^ 1021)"
    using t by (simp add: ClaimableReward_def claim_all_def c open_reward_def wf tenth_sums del: One_nat_def)
  moreover have "map_order (Submissions t) [''1'', ''2'', ''3'']" "map_order (Submissions t) [''3'', ''2'', ''1'']"
    using t by (auto simp: three_rounds_def put_task_def map_order_def)
  ultimately show ?thesis using t ne by metis
qed

end
