(* ===== verification/AwareApplier.thy ===== *)
theory AwareApplier
  imports ChainTheorems EnrollmentFlow GovTheorems SlashTheorems TaskTheorems
begin

text \<open>
  \<open>pkg/chain/enrollment_aware_applier.go\<close>, \<open>wallet_transfer.go\<close> with the signature check of \<open>pkg/wallet\<close>, and the post-seal hook
  of \<open>internal/v2wiring\<close>: the router that a node runs as its \<open>StateApplier\<close>. It holds the account store and, where they are
  wired, the enrollment registry, the slash applier, the governance applier and the task store.

  The code shares stores by pointer. As in the wiring, the enrollment applier, the slash applier, governance and tasks work
  on the router's account store, so the store is one field here. The slash applier reads and writes the enrollment
  registry (\<open>sw_State = None\<close>) or, without enrollment, one of its own. Its verifiers look records up in the registry they
  were constructed with; in a replay clone that is still the live one (\<open>sw_Registry\<close>). Its \<open>Params\<close> is the store of
  the governance applier or nil (\<open>sw_Params\<close>).

  JSON decoders, ML-DSA and the rendering of floating point numbers are arguments, as in the parts below.
\<close>

section \<open>Wallet envelopes\<close>

record TransactionData =
  TD_ID :: string
  TD_Sender :: string
  TD_Recipient :: string
  TD_Amount :: f64
  TD_Fee :: f64
  TD_GeoTag :: string
  TD_ParentCells :: "string list option"
  TD_Nonce :: u64
  TD_Signature :: string
  TD_PublicKey :: string
  TD_Timestamp :: string

text \<open>\<open>we_Decode\<close> is the strict decoder with its end-of-input check; \<open>we_Float\<close> fails on NaN and infinities as \<open>json.Marshal\<close> does.\<close>

record WalletEnv =
  we_Decode :: "bytes \<Rightarrow> TransactionData option"
  we_Float :: "f64 \<Rightarrow> string option"
  we_PublicKeySize :: nat
  we_SignatureSize :: nat
  we_UnmarshalKey :: "bytes \<Rightarrow> bool"
  we_Verify :: "bytes \<Rightarrow> string \<Rightarrow> bytes \<Rightarrow> bool"

datatype wallet_error =
  WErrContract | WErrDecode | WErrRequired | WErrNonce | WErrAmount | WErrPublicKey | WErrSender | WErrSignature | WErrCanonical
| WErrMalformedKey | WErrInvalidSignature | WErrMismatch | WErrAccount account_error

definition CanonicalBytes :: "WalletEnv \<Rightarrow> TransactionData \<Rightarrow> string option" where
  "CanonicalBytes we tx =
     (let tx = tx\<lparr>TD_Signature := [], TD_PublicKey := []\<rparr>
      in case (we_Float we (TD_Amount tx), we_Float we (TD_Fee tx)) of
           (Some amount, Some fee) \<Rightarrow>
             Some (html_escape (json_object (
               [json_field ''id'' (json_string (TD_ID tx)),
                json_field ''sender'' (json_string (TD_Sender tx)),
                json_field ''recipient'' (json_string (TD_Recipient tx)),
                json_field ''amount'' amount,
                json_field ''fee'' fee,
                json_field ''geotag'' (json_string (TD_GeoTag tx)),
                json_field ''parent_cells'' (case TD_ParentCells tx of None \<Rightarrow> ''null'' | Some cs \<Rightarrow> json_array (map json_string cs))] @
               (if TD_Nonce tx = 0 then [] else [json_field ''nonce'' (show_nat (unat (TD_Nonce tx)))]) @
               [json_field ''signature'' (json_string (TD_Signature tx))] @
               (if TD_PublicKey tx = [] then [] else [json_field ''public_key'' (json_string (TD_PublicKey tx))]) @
               [json_field ''timestamp'' (json_string (TD_Timestamp tx))])))
         | _ \<Rightarrow> None)"

definition VerifyTransactionData :: "WalletEnv \<Rightarrow> TransactionData \<Rightarrow> wallet_error option" where
  "VerifyTransactionData we tx =
     (if TD_ID tx = [] \<or> TD_Sender tx = [] \<or> TD_Recipient tx = [] then Some WErrRequired
      else if TD_Nonce tx = 0 then Some WErrNonce
      else if fle (TD_Amount tx) fzero \<or> fless (TD_Fee tx) fzero then Some WErrAmount
      else case hex_decode (TD_PublicKey tx) of None \<Rightarrow> Some WErrPublicKey | Some pub \<Rightarrow>
      if length pub \<noteq> we_PublicKeySize we then Some WErrPublicKey
      else if TD_Sender tx \<noteq> hex_encode (sha256 pub) then Some WErrSender
      else case hex_decode (TD_Signature tx) of None \<Rightarrow> Some WErrSignature | Some sig \<Rightarrow>
      if length sig \<noteq> we_SignatureSize we then Some WErrSignature
      else case CanonicalBytes we tx of None \<Rightarrow> Some WErrCanonical | Some canonical \<Rightarrow>
      if \<not> we_UnmarshalKey we pub then Some WErrMalformedKey
      else if \<not> we_Verify we pub canonical sig then Some WErrInvalidSignature
      else None)"

definition WalletTransferContractID :: string where "WalletTransferContractID = ''QSD/wallet-transfer/v1''"

definition ApplyWalletTransferTx :: "WalletEnv \<Rightarrow> Tx \<Rightarrow> AccountStore \<Rightarrow> wallet_error option \<times> AccountStore" where
  "ApplyWalletTransferTx we tx as =
     (if TxContractID tx \<noteq> WalletTransferContractID then (Some WErrContract, as)
      else case we_Decode we (Payload tx) of None \<Rightarrow> (Some WErrDecode, as) | Some env \<Rightarrow>
      case VerifyTransactionData we env of Some e \<Rightarrow> (Some e, as) | None \<Rightarrow>
      if TD_ID env \<noteq> TxID tx \<or> TD_Sender env \<noteq> Sender tx \<or> TD_Recipient env \<noteq> Recipient tx \<or>
         \<not> feq (TD_Amount env) (Amount tx) \<or> \<not> feq (TD_Fee env) (Fee tx) \<or> TD_Nonce env - 1 \<noteq> TxNonce tx \<or>
         TD_Signature env \<noteq> Signature tx \<or> TD_PublicKey env \<noteq> PublicKey tx
      then (Some WErrMismatch, as)
      else case ApplyTx tx as of (Some e, as) \<Rightarrow> (Some (WErrAccount e), as) | (None, as) \<Rightarrow> (None, as))"

section \<open>The router\<close>

record SlashWiring =
  sw_Applier :: SlashApplier
  sw_State :: "InMemoryState option"
  sw_Registry :: "InMemoryState option"
  sw_Params :: bool

record EnrollmentAwareApplier =
  aw_accounts :: AccountStore
  aw_enrollment :: "InMemoryState option"
  aw_slasher :: "SlashWiring option"
  aw_gov :: "GovApplier option"
  aw_tasks :: "TaskStateStore option"
  aw_heightFn :: "(u64 \<Rightarrow> u64) option"

text \<open>
  A height provider is a function of the lock-free tip height of the producer, the first argument of \<open>ApplyTx\<close>.
  \<open>ae_Orders\<close> gives, by transaction id, the orders of the two loops over the submissions of a task that a claim runs.
\<close>

record AwareEnv =
  ae_Enroll :: EnrollCodec
  ae_Slash :: SlashCodec
  ae_Gov :: GovCodec
  ae_Task :: TaskCodec
  ae_Wallet :: WalletEnv
  ae_Orders :: "string \<Rightarrow> string list \<times> string list"

datatype aware_error =
  ErrEnrollmentNotWired | ErrEnrollmentHeightUnset | ErrSlashingNotWired | ErrGovernanceNotWired | ErrTaskStateNotWired
| AwEnroll apply_error | AwSlash slash_error | AwGov gov_apply_error | AwTask task_error | AwWallet wallet_error | AwAccount account_error
| ErrEnrollmentPresence | ErrTaskPresence

definition NewEnrollmentAwareApplier :: "AccountStore \<Rightarrow> InMemoryState option \<Rightarrow> EnrollmentAwareApplier" where
  "NewEnrollmentAwareApplier as ea =
     \<lparr>aw_accounts = as, aw_enrollment = ea, aw_slasher = None, aw_gov = None, aw_tasks = None, aw_heightFn = None\<rparr>"

definition SetHeightFn :: "(u64 \<Rightarrow> u64) option \<Rightarrow> EnrollmentAwareApplier \<Rightarrow> EnrollmentAwareApplier" where
  "SetHeightFn fn a = a\<lparr>aw_heightFn := fn\<rparr>"

definition SetTaskStateStore :: "TaskStateStore option \<Rightarrow> EnrollmentAwareApplier \<Rightarrow> EnrollmentAwareApplier" where
  "SetTaskStateStore ts a = a\<lparr>aw_tasks := ts\<rparr>"

definition SetGovApplier :: "GovApplier option \<Rightarrow> EnrollmentAwareApplier \<Rightarrow> EnrollmentAwareApplier" where
  "SetGovApplier ga a = a\<lparr>aw_gov := ga\<rparr>"

definition SetSlashApplier :: "SlashWiring option \<Rightarrow> EnrollmentAwareApplier \<Rightarrow> EnrollmentAwareApplier" where
  "SetSlashApplier sw a = a\<lparr>aw_slasher := sw\<rparr>"

definition currentHeight :: "u64 \<Rightarrow> EnrollmentAwareApplier \<Rightarrow> u64 option" where
  "currentHeight tip a = map_option (\<lambda>fn. fn tip) (aw_heightFn a)"

text \<open>The slash applier's view of the stores, and where a changed registry goes.\<close>

definition slash_state :: "SlashWiring \<Rightarrow> EnrollmentAwareApplier \<Rightarrow> InMemoryState" where
  "slash_state sw a =
     (case sw_State sw of Some s \<Rightarrow> s | None \<Rightarrow> (case aw_enrollment a of Some s \<Rightarrow> s | None \<Rightarrow> NewInMemoryState))"

definition slash_registry :: "SlashWiring \<Rightarrow> EnrollmentAwareApplier \<Rightarrow> InMemoryState" where
  "slash_registry sw a = (case sw_Registry sw of Some s \<Rightarrow> s | None \<Rightarrow> slash_state sw a)"

definition slash_params :: "SlashWiring \<Rightarrow> EnrollmentAwareApplier \<Rightarrow> InMemoryParamStore option" where
  "slash_params sw a = (if sw_Params sw then map_option ga_Store (aw_gov a) else None)"

definition put_slash_state :: "SlashWiring \<Rightarrow> InMemoryState \<Rightarrow> EnrollmentAwareApplier \<Rightarrow> EnrollmentAwareApplier" where
  "put_slash_state sw s a =
     (if sw_State sw = None then a\<lparr>aw_enrollment := Some s\<rparr> else a\<lparr>aw_slasher := Some (sw\<lparr>sw_State := Some s\<rparr>)\<rparr>)"

definition Aware_ApplyTx :: "AwareEnv \<Rightarrow> u64 \<Rightarrow> Tx \<Rightarrow> EnrollmentAwareApplier \<Rightarrow> aware_error option \<times> EnrollmentAwareApplier" where
  "Aware_ApplyTx env tip tx a =
     (if IsContractID (TxContractID tx) then
        (case aw_enrollment a of None \<Rightarrow> (Some ErrEnrollmentNotWired, a) | Some es \<Rightarrow>
         case currentHeight tip a of None \<Rightarrow> (Some ErrEnrollmentHeightUnset, a) | Some h \<Rightarrow>
         case ApplyEnrollmentTx (ae_Enroll env) tx h \<lparr>Accounts = aw_accounts a, Enrollments = es\<rparr> of (r, L) \<Rightarrow>
           (map_option AwEnroll r, a\<lparr>aw_accounts := Accounts L, aw_enrollment := Some (Enrollments L)\<rparr>))
      else if TxContractID tx = MiningRewardContractID then
        (case aw_enrollment a of None \<Rightarrow> (Some ErrEnrollmentNotWired, a) | Some es \<Rightarrow>
         case ApplyMiningRewardTx tx \<lparr>Accounts = aw_accounts a, Enrollments = es\<rparr> of (r, L) \<Rightarrow>
           (map_option AwEnroll r, a\<lparr>aw_accounts := Accounts L, aw_enrollment := Some (Enrollments L)\<rparr>))
      else if TxContractID tx = SlashContractID then
        (case aw_slasher a of None \<Rightarrow> (Some ErrSlashingNotWired, a) | Some sw \<Rightarrow>
         case currentHeight tip a of None \<Rightarrow> (Some ErrEnrollmentHeightUnset, a) | Some h \<Rightarrow>
         case ApplySlashTx (ae_Slash env) (slash_registry sw a) (slash_params sw a) (sw_Applier sw) tx h
             \<lparr>Accounts = aw_accounts a, Enrollments = slash_state sw a\<rparr> of (r, L) \<Rightarrow>
           (map_option AwSlash r, put_slash_state sw (Enrollments L) (a\<lparr>aw_accounts := Accounts L\<rparr>)))
      else if TxContractID tx = GovContractID then
        (case aw_gov a of None \<Rightarrow> (Some ErrGovernanceNotWired, a) | Some g \<Rightarrow>
         case currentHeight tip a of None \<Rightarrow> (Some ErrEnrollmentHeightUnset, a) | Some h \<Rightarrow>
         case ApplyGovTx (ae_Gov env) tx h (aw_accounts a, g) of (r, as, g) \<Rightarrow>
           (map_option AwGov r, a\<lparr>aw_accounts := as, aw_gov := Some g\<rparr>))
      else if TxContractID tx = TaskContractID then
        (case aw_tasks a of None \<Rightarrow> (Some ErrTaskStateNotWired, a) | Some ts \<Rightarrow>
         case ApplyEconomicTxAtHeight (ae_Task env) (fst (ae_Orders env (TxID tx))) (snd (ae_Orders env (TxID tx))) tx
             (case currentHeight tip a of Some h \<Rightarrow> h | None \<Rightarrow> 0) (aw_accounts a, ts) of (r, as, ts) \<Rightarrow>
           (map_option AwTask r, a\<lparr>aw_accounts := as, aw_tasks := Some ts\<rparr>))
      else if TxContractID tx = WalletTransferContractID then
        (case ApplyWalletTransferTx (ae_Wallet env) tx (aw_accounts a) of (r, as) \<Rightarrow> (map_option AwWallet r, a\<lparr>aw_accounts := as\<rparr>))
      else (case ApplyTx tx (aw_accounts a) of (r, as) \<Rightarrow> (map_option AwAccount r, a\<lparr>aw_accounts := as\<rparr>)))"

definition Aware_StateRoot :: "TaskCodec \<Rightarrow> EnrollmentAwareApplier \<Rightarrow> string" where
  "Aware_StateRoot tc a =
     (let accountRoot = StateRoot (aw_accounts a)
      in case aw_tasks a of None \<Rightarrow> accountRoot
         | Some ts \<Rightarrow>
             if Tasks_Count ts = 0 then accountRoot
             else sha256_hex (''accounts:'' @ accountRoot @ CHR 0x0A # ''tasks:'' @ Tasks_StateRoot tc ts))"

section \<open>Post-seal hooks\<close>

definition Aware_Sweep :: "string list \<Rightarrow> u64 \<Rightarrow> EnrollmentAwareApplier \<Rightarrow> EnrollmentAwareApplier \<times> UnbondRelease list" where
  "Aware_Sweep order height a =
     (case aw_enrollment a of None \<Rightarrow> (a, [])
      | Some es \<Rightarrow>
          (case SweepMaturedEnrollments order height \<lparr>Accounts = aw_accounts a, Enrollments = es\<rparr> of (L, released) \<Rightarrow>
             (a\<lparr>aw_accounts := Accounts L, aw_enrollment := Some (Enrollments L)\<rparr>, released)))"

definition Aware_SealedBlockHook :: "string list \<Rightarrow> Block \<Rightarrow> EnrollmentAwareApplier \<Rightarrow> EnrollmentAwareApplier" where
  "Aware_SealedBlockHook order blk a = (if aw_enrollment a = None then a else fst (Aware_Sweep order (Height blk) a))"

text \<open>The hook of the wiring: sweep, promote, and the new value of the fork knob of \<open>pkg/mining\<close> when there is one.\<close>

definition Wired_SealedBlockHook ::
    "string list \<Rightarrow> string list \<Rightarrow> vote_orders \<Rightarrow> Block \<Rightarrow> EnrollmentAwareApplier \<Rightarrow> EnrollmentAwareApplier \<times> u64 option" where
  "Wired_SealedBlockHook order porder ord blk a =
     (let a = Aware_SealedBlockHook order blk a
      in case aw_gov a of None \<Rightarrow> (a, None)
         | Some g \<Rightarrow>
             let g = fst (PromotePending porder ord (Height blk) g)
             in (a\<lparr>aw_gov := Some g\<rparr>, ActiveValue ParamForkV2TCHeight (ga_Store g)))"

section \<open>Replay clones\<close>

text \<open>
  \<open>ChainReplayClone\<close>. \<open>NewSlashApplier\<close> builds the cloned slash applier, so \<open>Params\<close> is nil and \<open>AutoRevokeMinStakeDust\<close> the
  default; it panics (\<open>None\<close>) on a reward above the cap. The governance applier is not copied.
\<close>

definition clone_slasher :: "EnrollmentAwareApplier \<Rightarrow> SlashWiring \<Rightarrow> SlashWiring option" where
  "clone_slasher a sw =
     map_option (\<lambda>ap. \<lparr>sw_Applier = ap,
         sw_State = (if aw_enrollment a = None then Some (State_Clone (Some (slash_state sw a))) else None),
         sw_Registry = Some (slash_registry sw a), sw_Params = False\<rparr>)
       (NewSlashApplier (sl_Dispatcher (sw_Applier sw)) (RewardBPS (sw_Applier sw)))"

definition Aware_ChainReplayClone :: "EnrollmentAwareApplier \<Rightarrow> EnrollmentAwareApplier option" where
  "Aware_ChainReplayClone a =
     (let clone = \<lparr>aw_accounts = Accounts_Clone (aw_accounts a),
                   aw_enrollment = map_option (\<lambda>s. State_Clone (Some s)) (aw_enrollment a),
                   aw_slasher = None, aw_gov = None,
                   aw_tasks = map_option Tasks_ChainReplayClone (aw_tasks a), aw_heightFn = aw_heightFn a\<rparr>
      in case aw_slasher a of None \<Rightarrow> Some clone
         | Some sw \<Rightarrow> map_option (\<lambda>sw. clone\<lparr>aw_slasher := Some sw\<rparr>) (clone_slasher a sw))"

definition Aware_RestoreFromChainReplay ::
    "EnrollmentAwareApplier \<Rightarrow> EnrollmentAwareApplier \<Rightarrow> aware_error option \<times> EnrollmentAwareApplier" where
  "Aware_RestoreFromChainReplay other a =
     (case Accounts_RestoreFromChainReplay (Some (aw_accounts other)) (aw_accounts a) of
        (Some e, as) \<Rightarrow> (Some (AwAccount e), a\<lparr>aw_accounts := as\<rparr>)
      | (None, as) \<Rightarrow>
          let a = a\<lparr>aw_accounts := as\<rparr>;
              (err, a) = (case (aw_enrollment a, aw_enrollment other) of
                  (None, None) \<Rightarrow> (None, a)
                | (Some dst, Some src) \<Rightarrow>
                    (case State_Restore (Some src) dst of Inl e \<Rightarrow> (Some (AwEnroll (ErrEnroll e)), a) | Inr s \<Rightarrow> (None, a\<lparr>aw_enrollment := Some s\<rparr>))
                | _ \<Rightarrow> (Some ErrEnrollmentPresence, a))
          in if err \<noteq> None then (err, a)
             else case (aw_tasks a, aw_tasks other) of
                  (None, None) \<Rightarrow> (None, a)
                | (Some dst, Some src) \<Rightarrow> (None, a\<lparr>aw_tasks := Some (Tasks_RestoreFromChainReplay src dst)\<rparr>)
                | _ \<Rightarrow> (Some ErrTaskPresence, a))"

text \<open>The method table a block producer gets. The router is not a plain account store, so it has no \<open>AccountStore.Clone\<close>.\<close>

definition aware_applier :: "AwareEnv \<Rightarrow> (EnrollmentAwareApplier, aware_error) StateApplier" where
  "aware_applier env =
     \<lparr>ap_ApplyTx = Aware_ApplyTx env, ap_StateRoot = Aware_StateRoot (ae_Task env), ap_Clone = None,
      ap_Replay = Some (\<lambda>a. the (Aware_ChainReplayClone a), Aware_RestoreFromChainReplay)\<rparr>"

end
