(* ===== verification/BlockOrder.thy ===== *)
theory BlockOrder
  imports ChainTheorems
begin

text \<open>
  The order in which a block executes the drained transactions (\<open>orderSenderNonces\<close>), and the end-to-end
  result across validator, pool, ordering and accounts: a pool of accepted transactions becomes a
  block that contains all of them.
\<close>

section \<open>Grouping and refilling\<close>

interpretation by_nonce: weak_less nonce_before UNIV
  by unfold_locales (auto simp: nonce_before_def split: if_splits)

lemma group_by_sender_spec:
  "map_slice (group_by_sender ts g) a = map_slice g a @ (if a = [] then [] else sent_by a ts)"
  by (induction ts g rule: group_by_sender.induct) (auto simp: sent_by_def)

lemma go_sort_short: "length xs < 2 \<Longrightarrow> go_sort lt xs = xs"
  by (cases xs) auto

lemma map_slice_fmmap: "f [] = [] \<Longrightarrow> map_slice (fmmap f m) k = f (map_slice m k)"
  by (simp add: map_slice_def split: option.split)

definition next_of :: "(string, nat) fmap \<Rightarrow> string \<Rightarrow> nat" where
  "next_of nxt a = (case fmlookup nxt a of None \<Rightarrow> 0 | Some i \<Rightarrow> i)"

lemma next_of_upd [simp]: "next_of (fmupd k v m) a = (if a = k then v else next_of m a)"
  by (simp add: next_of_def)

lemma refill_Cons:
  "refill g nxt (t # ts) =
     (if Sender t = [] then t # refill g nxt ts
      else map_slice g (Sender t) ! next_of nxt (Sender t) # refill g (fmupd (Sender t) (next_of nxt (Sender t) + 1) nxt) ts)"
  by (simp add: next_of_def Let_def)

lemma refill_spec:
  assumes "\<And>a. a \<noteq> [] \<Longrightarrow> length (map_slice g a) = next_of nxt a + length (sent_by a ts)"
    and "\<And>a t. t \<in> set (map_slice g a) \<Longrightarrow> Sender t = a"
  shows "sent_by a (refill g nxt ts) = (if a = [] then sent_by a ts else drop (next_of nxt a) (map_slice g a)) \<and>
    map Sender (refill g nxt ts) = map Sender ts"
  using assms(1)
proof (induction ts arbitrary: nxt)
  case Nil
  then show ?case by (cases "a = []") (simp_all add: sent_by_def)
next
  case (Cons t ts)
  show ?case
  proof (cases "Sender t = []")
    case True
    have "length (map_slice g b) = next_of nxt b + length (sent_by b ts)" if "b \<noteq> []" for b
      using Cons.prems [OF that] that True by simp
    from Cons.IH [OF this] show ?thesis using True by (auto simp: refill_Cons simp del: refill.simps)
  next
    case False
    let ?s = "Sender t" and ?n = "next_of nxt (Sender t)"
    have len: "?n < length (map_slice g ?s)" using Cons.prems [OF False] by simp
    have sender: "Sender (map_slice g ?s ! ?n) = ?s" using assms(2) nth_mem [OF len] by blast
    have "length (map_slice g b) = next_of (fmupd ?s (?n + 1) nxt) b + length (sent_by b ts)" if "b \<noteq> []" for b
      using Cons.prems [OF that] by auto
    from Cons.IH [OF this] have IH:
      "sent_by a (refill g (fmupd ?s (?n + 1) nxt) ts) =
         (if a = [] then sent_by a ts else drop (next_of (fmupd ?s (?n + 1) nxt) a) (map_slice g a))"
      "map Sender (refill g (fmupd ?s (?n + 1) nxt) ts) = map Sender ts" by blast+
    show ?thesis
      using IH sender False Cons_nth_drop_Suc [OF len] by (auto simp: refill_Cons simp del: refill.simps)
  qed
qed

lemma order_by_sender:
  "sent_by a (orderSenderNonces txs) = (if a = [] then sent_by a txs else go_sort nonce_before (sent_by a txs)) \<and>
   map Sender (orderSenderNonces txs) = map Sender txs"
proof (cases "length txs < 2")
  case True
  then have "length (sent_by a txs) < 2" by (simp add: sent_by_def le_less_trans [OF length_filter_le])
  then show ?thesis using True by (simp add: orderSenderNonces_def go_sort_short)
next
  case False
  let ?F = "\<lambda>grp. if length grp < 2 then grp else go_sort nonce_before grp"
  let ?g = "fmmap ?F (group_by_sender txs fmempty)"
  have g: "map_slice ?g b = (if b = [] then [] else go_sort nonce_before (sent_by b txs))" for b
    by (simp add: map_slice_fmmap group_by_sender_spec go_sort_short)
  have nx: "next_of fmempty b = 0" for b by (simp add: next_of_def)
  have "Sender t = b" if "t \<in> set (map_slice ?g b)" for t b
    using that by (auto simp: g sent_by_def split: if_splits)
  then have "sent_by a (refill ?g fmempty txs) = (if a = [] then sent_by a txs else drop 0 (map_slice ?g a)) \<and>
      map Sender (refill ?g fmempty txs) = map Sender txs"
    using refill_spec [of ?g fmempty txs a] by (simp add: g nx)
  then show ?thesis using False by (simp add: orderSenderNonces_def Let_def g)
qed

lemma mset_by_senders:
  assumes "\<And>a. mset (sent_by a xs) = mset (sent_by a ys)"
  shows "mset xs = mset ys"
proof (rule multiset_eqI)
  fix t
  have "count (mset zs) t = count (mset (sent_by (Sender t) zs)) t" for zs
    by (simp add: sent_by_def)
  then show "count (mset xs) t = count (mset ys) t" using assms by metis
qed

lemma mset_order: "mset (orderSenderNonces txs) = mset txs"
  by (rule mset_by_senders) (use order_by_sender in simp)

text \<open>
  The block order keeps the pool's choice and repairs the nonces: \<open>orderSenderNonces\<close> permutes the drained
  transactions, every position keeps its sender, and each sender's transactions appear in order of
  nonce, ties by id.
\<close>

theorem order_sorts_nonces_in_place:
  "mset (orderSenderNonces txs) = mset txs \<and> map Sender (orderSenderNonces txs) = map Sender txs \<and>
   sorted_wrt (\<lambda>t u. \<not> nonce_before u t) (sent_by (c # cs) (orderSenderNonces txs))"
  using order_by_sender [of "c # cs" txs] by (simp add: mset_order by_nonce.sorted_go_sort)

section \<open>From admission to the block\<close>

lemma validated_sender: "validate_all txs as tv = Inr tv' \<Longrightarrow> t \<in> set txs \<Longrightarrow> Sender t \<noteq> []"
proof (induction txs arbitrary: tv)
  case (Cons u us)
  then show ?case
    by (auto simp: TxValidator_Validate_def split: option.splits if_splits)
qed simp

lemma nonces_from_nth: "nonces_from n ts \<Longrightarrow> i < length ts \<Longrightarrow> TxNonce (ts ! i) = n + of_nat i"
  by (induction ts arbitrary: n i) (auto simp: nth_Cons algebra_simps split: nat.split)

lemma nonces_from_ascending:
  assumes "nonces_from n ts" "unat n + length ts < 2 ^ 64"
  shows "sorted_wrt (\<lambda>t u. TxNonce t < TxNonce u) ts"
proof (unfold sorted_wrt_iff_nth_less, intro allI impI)
  fix i j assume ij: "i < j" "j < length ts"
  have "unat (TxNonce (ts ! k)) = unat n + k" if "k < length ts" for k
    using nonces_from_nth [OF assms(1) that] no_wrap [of n k] assms(2) that by simp
  then show "TxNonce (ts ! i) < TxNonce (ts ! j)" using ij by (simp add: word_less_nat_alt)
qed

lemma ascending_unique:
  assumes "sorted_wrt (\<lambda>t u. TxNonce t < TxNonce u) ts" "mset xs = mset ts" "sorted_wrt (\<lambda>t u. \<not> nonce_before u t) xs"
  shows "xs = ts"
proof -
  have "total_less nonce_before (set ts)"
  proof
    fix a b assume ab: "a \<in> set ts" "b \<in> set ts" "\<not> nonce_before a b" "\<not> nonce_before b a"
    then have "TxNonce a = TxNonce b" by (auto simp: nonce_before_def split: if_splits)
    moreover obtain i j where "i < length ts" "j < length ts" "a = ts ! i" "b = ts ! j"
      using ab(1,2) by (auto simp: in_set_conv_nth)
    ultimately show "a = b"
      using assms(1) unfolding sorted_wrt_iff_nth_less by (metis less_irrefl linorder_neqE_nat)
  qed (auto simp: nonce_before_def split: if_splits)
  moreover have "sorted_wrt (\<lambda>t u. \<not> nonce_before u t) ts"
    using assms(1) by (rule sorted_wrt_mono_rel [rotated]) (auto simp: nonce_before_def)
  ultimately show ?thesis
    using total_less.sorted_unique [of nonce_before "set ts" xs ts] assms(2,3) mset_eq_setD [OF assms(2)] by blast
qed

lemma order_restores_admission:
  assumes "executable as txs" "mset ds = mset txs" "\<And>t. t \<in> set txs \<Longrightarrow> Sender t \<noteq> []"
    and "\<forall>a acc. fmlookup as a = Some acc \<longrightarrow> unat (Nonce acc) + length txs < 2 ^ 64"
  shows "sent_by a (orderSenderNonces ds) = sent_by a txs"
proof -
  have perm: "mset (sent_by a ds) = mset (sent_by a txs)" using assms(2) by (simp add: sent_by_def)
  show ?thesis
  proof (cases "sent_by a txs = []")
    case True
    then have "sent_by a ds = []" using perm by simp
    then show ?thesis using True order_by_sender [of a ds] by (cases "a = []") simp_all
  next
    case False
    then have ne: "a \<noteq> []" using assms(3) by (auto simp: sent_by_def filter_empty_conv)
    have aff: "affordable (fmlookup as a) (sent_by a txs)" using assms(1) by (simp add: executable_def)
    then obtain acc where acc: "fmlookup as a = Some acc" using False by (cases "fmlookup as a") auto
    have "length (sent_by a txs) \<le> length txs" by (simp add: sent_by_def)
    then have "sorted_wrt (\<lambda>t u. TxNonce t < TxNonce u) (sent_by a txs)"
      using aff acc assms(4) by (intro nonces_from_ascending) fastforce+
    then show ?thesis
      using order_by_sender [of a ds] ne perm by (intro ascending_unique) (simp_all add: by_nonce.sorted_go_sort)
  qed
qed

lemma apply_in_order_all:
  "apply_in_order txs as = Inr as' \<Longrightarrow> apply_txs ApplyTx txs as = (map (\<lambda>t. (t, None)) txs, as')"
  by (induction txs arbitrary: as) (auto split: prod.splits option.splits)

lemma drain_everything:
  assumes "pool_inv m" "pq m \<noteq> []" "int (length (pq m)) \<le> k"
  obtains ds m' where "Drain k m = (ds, m')" "mset ds = mset (pq m)" "pq m' = []"
proof -
  obtain ds m' where d: "drain_loop (length (pq m)) m = (ds, m')" by fastforce
  have D: "Drain k m = (ds, m')" using d assms(2,3) by (cases "pq m") (simp_all add: Drain_def min_absorb2)
  have s: "length ds = length (pq m)" "mset (pq m) = mset ds + mset (pq m')"
    using drain_loop_spec [OF assms(1) _ d] by auto
  have "size (mset (pq m)) = size (mset ds) + size (mset (pq m'))" using s(2) by (metis size_union)
  then have "pq m' = []" using s(1) by simp
  then show ?thesis using that [OF D] s(2) by simp
qed

text \<open>
  C6: From admission to the block, on a node whose applier is the account store, with balances, amounts and
  fees that are whole numbers. Let a fresh validator accept transactions one after the other against the
  ledger, and let the pool hold exactly these, in whatever order the heap keeps them. If they fit into one
  block, the gates are open, no pre-seal hook is set and no nonce is within reach of \<open>2 ^ 64\<close>, then
  \<open>ProduceBlock\<close> seals a block that contains every one of them, and the pool is empty afterwards: what
  admission accepted, execution applies.
\<close>

theorem accepted_pool_is_sealed_whole:
  assumes "applier bp = account_applier" "seal_gates bp = None" "preSealBFTRound bp = None"
    and "whole_ledger (live bp)" "validate_all txs (live bp) NewTxValidator = Inr tv" "\<forall>t \<in> set txs. whole_tx t"
    and "\<forall>a acc. fmlookup (live bp) a = Some acc \<longrightarrow> unat (Nonce acc) + length txs < 2 ^ 64"
    and "pool_inv (pool bp)" "mset (pq (pool bp)) = mset txs" "txs \<noteq> []" "int (length txs) \<le> maxTxBlock bp"
  shows "\<exists>blk bp'. ProduceBlock now clk bp = (Inr blk, bp') \<and> mset (Transactions blk) = mset txs \<and> pq (pool bp') = []"
proof -
  have len: "length (pq (pool bp)) = length txs" using assms(9) by (metis size_mset)
  then have "pq (pool bp) \<noteq> []" "int (length (pq (pool bp))) \<le> maxTxBlock bp" using assms(10,11) by auto
  then obtain ds rest where d: "Drain (maxTxBlock bp) (pool bp) = (ds, rest)" "mset ds = mset txs" "pq rest = []"
    using drain_everything [OF assms(8)] assms(9) by metis
  let ?ds = "orderSenderNonces ds"
  have ex: "executable (live bp) txs"
    using admitted_all [OF assms(4) admitted_new assms(6,5)] assms(7) by (simp add: admitted_def)
  have "sent_by a ?ds = sent_by a txs" for a
    by (rule order_restores_admission [OF ex d(2) validated_sender [OF assms(5)] assms(7)])
  then obtain as' where "apply_in_order ?ds (live bp) = Inr as'"
    using executable_runs [OF assms(4) executable_reorder [OF ex]] by blast
  then have ap: "apply_txs ApplyTx ?ds (live bp) = (map (\<lambda>t. (t, None)) ?ds, as')" by (rule apply_in_order_all)
  have inc: "included (map (\<lambda>t. (t, None :: account_error option)) xs) = xs" for xs
    by (simp add: included_def filter_map comp_def)
  have ne: "ds \<noteq> []" "?ds \<noteq> []" using d(2) assms(10) mset_order [of ds] by auto
  have "ProduceBlock now clk bp =
      (let blk = make_block now (producerID bp) (chain bp) ?ds (StateRoot as')
       in (Inr blk, seal_finish (clk 0) blk (map (\<lambda>t. (t, None)) ?ds) (append_block blk (bp\<lparr>pool := rest, live := as'\<rparr>))))"
    using assms(1-3) d(1) ne ap inc by (simp add: ProduceBlock_def produce_locked_def Let_def account_applier_def)
  then show ?thesis using d(2,3) by (simp add: Let_def mset_order)
qed

text \<open>Two transactions of one sender; the later one pays more and leaves the heap first.\<close>

definition second_tx :: Tx where
  "second_tx = (transfer ''alice'' ''carol'' (f_int 2) (f_int 2) 4)\<lparr>TxID := ''tx2''\<rparr>"

definition two_tx_producer :: "(AccountStore, account_error) BlockProducer" where
  "two_tx_producer = example_producer\<lparr>pool := insert_tx second_tx example_pool\<rparr>"

lemma second_tx_simps [simp]:
  "Sender second_tx = ''alice''" "Recipient second_tx = ''carol''" "Amount second_tx = f_int 2" "Fee second_tx = f_int 2"
  "TxNonce second_tx = 4" "TxID second_tx = ''tx2''" "TxContractID second_tx = []"
  by (simp_all add: second_tx_def transfer_def)

lemma f_int_not_NaN: "f_int n \<noteq> NaN"
  by (simp add: f_int_def)

lemma two_tx_pool:
  "pool_inv (pool two_tx_producer)" "mset (pq (pool two_tx_producer)) = mset [example_tx, second_tx]"
proof -
  let ?m = "NewMempool mempool_DefaultConfig"
  have "heap_ok ?m" "index_ok ?m" using pool_inv_new [of mempool_DefaultConfig] by (simp_all add: pool_inv_def)
  moreover have "pq ?m = []" "fmlookup (lookup ?m) t = None" "MaxSize (mp_cfg ?m) = 10000" for t
    by (simp_all add: NewMempool_def mempool_DefaultConfig_def minute_def Let_def)
  ultimately have m: "heap_ok ?m" "index_ok ?m" "pq ?m = []" "fmlookup (lookup ?m) t = None" "MaxSize (mp_cfg ?m) = 10000" for t
    by blast+
  have e: "heap_ok example_pool" "index_ok example_pool" "mset (pq example_pool) = {#example_tx#}" "mp_cfg example_pool = mp_cfg ?m"
    unfolding example_pool_def using insert_tx_inv [OF m(1,2,4), of example_tx] m(3) f_int_not_NaN
    by (simp_all add: pendingNonceLocked_def tracksConsensusNonce_def)
  have "pq example_pool = [example_tx]" using e(3) by (simp add: mset_single_iff)
  then have "fmlookup (lookup example_pool) ''tx2'' \<noteq> Some t" for t
    unfolding index_okD(2) [OF e(2)] by auto
  then have "fmlookup (lookup example_pool) ''tx2'' = None" by (metis option.exhaust)
  from insert_tx_inv [OF e(1,2), of second_tx] this
  have i: "heap_ok (pool two_tx_producer)" "index_ok (pool two_tx_producer)" "mset (pq (pool two_tx_producer)) = {#second_tx, example_tx#}"
    "mp_cfg (pool two_tx_producer) = mp_cfg ?m"
    using e(3,4) f_int_not_NaN by (simp_all add: two_tx_producer_def pendingNonceLocked_def tracksConsensusNonce_def)
  show "mset (pq (pool two_tx_producer)) = mset [example_tx, second_tx]" using i(3) by (simp add: add_mset_commute)
  have "size (mset (pq (pool two_tx_producer))) = 2" unfolding i(3) by simp
  then have "length (pq (pool two_tx_producer)) = 2" by simp
  then show "pool_inv (pool two_tx_producer)" using i m(5) by (simp add: pool_inv_def)
qed

theorem accepted_pool_is_sealed_whole_witness:
  "\<exists>blk bp'. ProduceBlock (utc 5) (\<lambda>_. 1) two_tx_producer = (Inr blk, bp') \<and>
     mset (Transactions blk) = mset [example_tx, second_tx] \<and> pq (pool bp') = []"
proof -
  have p: "applier two_tx_producer = account_applier" "seal_gates two_tx_producer = None"
    "preSealBFTRound two_tx_producer = None" "live two_tx_producer = sample_store" "maxTxBlock two_tx_producer = 500"
    by (simp_all add: two_tx_producer_def example_producer_def NewBlockProducer_def seal_gates_def DefaultProducerConfig_def)
  have w: "whole_ledger (live two_tx_producer)"
    by (simp add: p whole_ledger_def money_supply_def sample_store_def fmap_total_fresh)
  obtain tv where v: "validate_all [example_tx, second_tx] (live two_tx_producer) NewTxValidator = Inr tv"
    by (simp add: p TxValidator_Validate_def Accept_def expected_nonce_def ReservedBalance_def NewTxValidator_def
        sample_store_def Let_def fzero_f_int)
  show ?thesis
    by (rule accepted_pool_is_sealed_whole [OF p(1-3) w v _ _ two_tx_pool])
      (auto simp: p whole_tx_def tx_total_def sample_store_def split: if_splits)
qed

end
