(* ===== verification/AwareTheorems.thy ===== *)
theory AwareTheorems
  imports AwareApplier BlockOrder
begin

text \<open>
  The router of a node: well-formed states, what a rejected transaction changes, agreement of producer and replica on blocks without
  governance and slash transactions, and why blocks with a governance transaction do not replicate.
\<close>

section \<open>Well-formed routers\<close>

definition registry_ok :: "InMemoryState option \<Rightarrow> bool" where
  "registry_ok s \<longleftrightarrow> (case s of None \<Rightarrow> True | Some s \<Rightarrow> enroll_inv s)"

definition slasher_ok :: "bool \<Rightarrow> SlashWiring \<Rightarrow> bool" where
  "slasher_ok enrollment sw \<longleftrightarrow>
     RewardBPS (sw_Applier sw) \<le> SlashRewardCap \<and> registry_ok (sw_State sw) \<and> (sw_State sw = None \<longleftrightarrow> enrollment)"

definition aware_wf :: "EnrollmentAwareApplier \<Rightarrow> bool" where
  "aware_wf a \<longleftrightarrow>
     registry_ok (aw_enrollment a) \<and> (\<forall>sw. aw_slasher a = Some sw \<longrightarrow> slasher_ok (aw_enrollment a \<noteq> None) sw) \<and>
     (\<forall>g. aw_gov a = Some g \<longrightarrow> gov_inv g)"

definition same_wiring :: "EnrollmentAwareApplier \<Rightarrow> EnrollmentAwareApplier \<Rightarrow> bool" where
  "same_wiring a b \<longleftrightarrow>
     (aw_enrollment a = None \<longleftrightarrow> aw_enrollment b = None) \<and> (aw_slasher a = None \<longleftrightarrow> aw_slasher b = None) \<and>
     (aw_gov a = None \<longleftrightarrow> aw_gov b = None) \<and> (aw_tasks a = None \<longleftrightarrow> aw_tasks b = None) \<and> aw_heightFn a = aw_heightFn b"

lemma same_wiring_refl [simp]: "same_wiring a a"
  by (simp add: same_wiring_def)

lemma registry_ok_simps [simp]: "registry_ok None" "registry_ok (Some s) \<longleftrightarrow> enroll_inv s"
  by (simp_all add: registry_ok_def)

lemma contract_ids [simp]:
  "IsContractID MiningRewardContractID = False" "IsContractID SlashContractID = False" "IsContractID GovContractID = False"
  "IsContractID TaskContractID = False" "IsContractID WalletTransferContractID = False"
  "SlashContractID \<noteq> MiningRewardContractID" "GovContractID \<noteq> MiningRewardContractID" "GovContractID \<noteq> SlashContractID"
  "TaskContractID \<noteq> MiningRewardContractID" "TaskContractID \<noteq> SlashContractID" "TaskContractID \<noteq> GovContractID"
  "WalletTransferContractID \<noteq> MiningRewardContractID" "WalletTransferContractID \<noteq> SlashContractID" "WalletTransferContractID \<noteq> GovContractID"
  "WalletTransferContractID \<noteq> TaskContractID"
  by (simp_all add: IsContractID_def ContractID_def SignedContractID_def MiningRewardContractID_def SlashContractID_def GovContractID_def
      TaskContractID_def WalletTransferContractID_def)

lemma slash_tx_keeps:
  assumes "ApplySlashTx decode reg params slr tx h L = (r, L')" "enroll_inv (Enrollments L)" "h \<noteq> 0"
  shows "(r \<noteq> None \<longrightarrow> L' = L) \<and> enroll_inv (Enrollments L')"
  using ApplySlashTx_cases [OF assms(1)]
proof (elim disjE exE conjE)
  fix p amt rec as
  assume c: "r = None" "fmlookup (byNodeID (Enrollments L)) (SP_NodeID p) = Some rec" "amt \<le> StakeDust rec"
    "L' = slash_settle params slr tx h (SP_NodeID p) amt (L\<lparr>Accounts := as, Enrollments := slashed_registry p amt rec (Enrollments L)\<rparr>)"
  let ?M = "L\<lparr>Accounts := as, Enrollments := slashed_registry p amt rec (Enrollments L)\<rparr>"
  have m: "fmlookup (byNodeID (Enrollments ?M)) (SP_NodeID p) = Some (rec\<lparr>StakeDust := StakeDust rec - amt\<rparr>)"
    by (simp add: slashed_registry_def)
  show ?thesis
    using c slash_settle_inv [OF m _ assms(3)] slashed_registry_inv [OF assms(2) c(2,3)] by simp
qed (use assms in auto)

lemma wallet_transfer_failed: "ApplyWalletTransferTx we tx as = (Some e, as') \<Longrightarrow> as' = as"
  using ApplyTx_error [of tx as]
  by (auto simp: ApplyWalletTransferTx_def split: if_splits option.splits prod.splits)

text \<open>One lemma per route: what a transaction does to the part of the state behind its route.\<close>

lemma route_ledger:
  assumes "aware_wf a" "IsContractID (TxContractID tx) \<or> TxContractID tx = MiningRewardContractID"
    and "\<forall>h. currentHeight tip a = Some h \<longrightarrow> h \<noteq> 0" "Aware_ApplyTx env tip tx a = (r, a')"
  shows "(r \<noteq> None \<longrightarrow> a' = a) \<and> (\<exists>as es. registry_ok es \<and> (es = None \<longleftrightarrow> aw_enrollment a = None) \<and> a' = a\<lparr>aw_accounts := as, aw_enrollment := es\<rparr>)"
proof (cases "aw_enrollment a")
  case None
  then have "a' = a\<lparr>aw_accounts := aw_accounts a, aw_enrollment := None\<rparr>" "a' = a" using assms(2,4) by (auto simp: Aware_ApplyTx_def)
  then show ?thesis by (metis None registry_ok_simps(1))
next
  case (Some es)
  let ?L = "\<lparr>Accounts = aw_accounts a, Enrollments = es\<rparr>"
  have inv: "enroll_inv (Enrollments ?L)" using assms(1) Some by (simp add: aware_wf_def)
  have keep: ?thesis if "a' = a"
    using that Some inv by (intro conjI impI exI [of _ "aw_accounts a"] exI [of _ "Some es"]) simp_all
  have "?thesis" if u: "x \<noteq> None \<longrightarrow> L' = ?L" "enroll_inv (Enrollments L')" "r = map_option AwEnroll x"
    "a' = a\<lparr>aw_accounts := Accounts L', aw_enrollment := Some (Enrollments L')\<rparr>" for x L'
    using u Some by (intro conjI impI exI [of _ "Accounts L'"] exI [of _ "Some (Enrollments L')"]) auto
  moreover have "a' = a \<or> (\<exists>x L'. (x \<noteq> None \<longrightarrow> L' = ?L) \<and> enroll_inv (Enrollments L') \<and> r = map_option AwEnroll x \<and>
      a' = a\<lparr>aw_accounts := Accounts L', aw_enrollment := Some (Enrollments L')\<rparr>)"
  proof (cases "IsContractID (TxContractID tx)")
    case True
    show ?thesis
    proof (cases "currentHeight tip a")
      case (Some h)
      then show ?thesis
        using assms(3,4) True \<open>aw_enrollment a = Some es\<close> enrollment_tx_atomic [OF inv, of h]
        by (fastforce simp: Aware_ApplyTx_def split: prod.splits)
    qed (use assms(4) True Some in \<open>simp add: Aware_ApplyTx_def\<close>)
  next
    case False
    then show ?thesis
      using assms(2,4) Some mining_reward_atomic [OF inv] by (fastforce simp: Aware_ApplyTx_def split: prod.splits)
  qed
  ultimately show ?thesis using keep by blast
qed

lemma route_slash:
  assumes "aware_wf a" "TxContractID tx = SlashContractID"
    and "\<forall>h. currentHeight tip a = Some h \<longrightarrow> h \<noteq> 0" "Aware_ApplyTx env tip tx a = (r, a')"
  shows "(r \<noteq> None \<longrightarrow> a' = a) \<and> aware_wf a' \<and> same_wiring a a'"
proof (cases "aw_slasher a = None \<or> currentHeight tip a = None")
  case True
  then have "a' = a" using assms(2,4) by (auto simp: Aware_ApplyTx_def split: option.splits)
  then show ?thesis using assms(1) by simp
next
  case False
  then obtain sw h where sw: "aw_slasher a = Some sw" "currentHeight tip a = Some h" by auto
  have ok: "slasher_ok (aw_enrollment a \<noteq> None) sw" using assms(1) sw by (simp add: aware_wf_def)
  let ?L = "\<lparr>Accounts = aw_accounts a, Enrollments = slash_state sw a\<rparr>"
  have inv: "enroll_inv (Enrollments ?L)"
    using assms(1) ok NewInMemoryState_inv by (auto simp: slash_state_def aware_wf_def slasher_ok_def split: option.splits)
  obtain x L' where ap: "ApplySlashTx (ae_Slash env) (slash_registry sw a) (slash_params sw a) (sw_Applier sw) tx h ?L = (x, L')" by fastforce
  note keeps = slash_tx_keeps [OF ap inv] assms(3) sw(2)
  have res: "r = map_option AwSlash x" "a' = put_slash_state sw (Enrollments L') (a\<lparr>aw_accounts := Accounts L'\<rparr>)"
    using assms(2,4) sw ap by (simp_all add: Aware_ApplyTx_def)
  show ?thesis
  proof (intro conjI impI)
    assume "r \<noteq> None"
    then have "L' = ?L" using keeps res(1) by auto
    then show "a' = a" using res(2) ok sw(1) by (auto simp: put_slash_state_def slash_state_def slasher_ok_def)
  qed (use assms(1) ok res(2) keeps sw(1) in \<open>auto simp: put_slash_state_def aware_wf_def slasher_ok_def same_wiring_def\<close>)
qed

lemma route_gov:
  assumes "aware_wf a" "TxContractID tx = GovContractID" "Aware_ApplyTx env tip tx a = (r, a')"
  shows "(r \<noteq> None \<and> r \<noteq> Some (AwGov (GovErr GErrDuplicateVote)) \<longrightarrow> a' = a) \<and> aware_wf a' \<and> same_wiring a a'"
proof (cases "aw_gov a = None \<or> currentHeight tip a = None")
  case True
  then have "a' = a" using assms(2,3) by (auto simp: Aware_ApplyTx_def split: option.splits)
  then show ?thesis using assms(1) by simp
next
  case False
  then obtain g h where g: "aw_gov a = Some g" "currentHeight tip a = Some h" by auto
  have inv: "gov_inv g" using assms(1) g by (simp add: aware_wf_def)
  obtain x as' g' where ap: "ApplyGovTx (ae_Gov env) tx h (aw_accounts a, g) = (x, as', g')" by (metis prod_cases3)
  have res: "r = map_option AwGov x" "a' = a\<lparr>aw_accounts := as', aw_gov := Some g'\<rparr>"
    using assms(2,3) g ap by (simp_all add: Aware_ApplyTx_def)
  show ?thesis
  proof (intro conjI impI)
    assume "r \<noteq> None \<and> r \<noteq> Some (AwGov (GovErr GErrDuplicateVote))"
    then show "a' = a" using res g gov_rejection [OF inv, of "ae_Gov env" tx h "aw_accounts a" "the x" as' g'] ap by auto
  qed (use assms(1) res(2) gov_tx_keeps [OF inv ap] g(1) in \<open>auto simp: aware_wf_def same_wiring_def\<close>)
qed

lemma route_other:
  assumes "aware_wf a" "\<not> IsContractID (TxContractID tx)" "TxContractID tx \<notin> {MiningRewardContractID, SlashContractID, GovContractID}"
    and "Aware_ApplyTx env tip tx a = (r, a')"
  shows "(r \<noteq> None \<longrightarrow> a' = a) \<and> (\<exists>as ts. (ts = None \<longleftrightarrow> aw_tasks a = None) \<and> a' = a\<lparr>aw_accounts := as, aw_tasks := ts\<rparr>)"
proof -
  have keep: ?thesis if "a' = a\<lparr>aw_accounts := as\<rparr>" "r \<noteq> None \<longrightarrow> as = aw_accounts a" for as
    using that by (intro conjI impI exI [of _ as] exI [of _ "aw_tasks a"]) simp_all
  consider (task) "TxContractID tx = TaskContractID" | (wallet) "TxContractID tx = WalletTransferContractID" "TxContractID tx \<noteq> TaskContractID"
    | (plain) "TxContractID tx \<noteq> TaskContractID" "TxContractID tx \<noteq> WalletTransferContractID" by blast
  then show ?thesis
  proof cases
    case task
    show ?thesis
    proof (cases "aw_tasks a")
      case None
      then show ?thesis using assms task keep [of "aw_accounts a"] by (simp add: Aware_ApplyTx_def)
    next
      case (Some ts)
      let ?h = "case currentHeight tip a of Some h \<Rightarrow> h | None \<Rightarrow> 0"
      obtain x as' ts' where ap: "ApplyEconomicTxAtHeight (ae_Task env) (fst (ae_Orders env (TxID tx))) (snd (ae_Orders env (TxID tx))) tx ?h (aw_accounts a, ts) =
          (x, as', ts')" by (metis prod_cases3)
      have "x \<noteq> None \<longrightarrow> as' = aw_accounts a \<and> ts' = ts"
        using ap applyEconomicTx_failed by (auto simp: ApplyEconomicTxAtHeight_def)
      then show ?thesis
        using assms task Some ap by (intro conjI impI exI [of _ as'] exI [of _ "Some ts'"]) (auto simp: Aware_ApplyTx_def)
    qed
  next
    case wallet
    obtain x as' where ap: "ApplyWalletTransferTx (ae_Wallet env) tx (aw_accounts a) = (x, as')" by fastforce
    show ?thesis by (rule keep [of as']) (use assms wallet ap wallet_transfer_failed in \<open>auto simp: Aware_ApplyTx_def\<close>)
  next
    case plain
    obtain x as' where ap: "ApplyTx tx (aw_accounts a) = (x, as')" by fastforce
    show ?thesis
      by (rule keep [of as']) (use assms plain ap ApplyTx_error [of tx "aw_accounts a"] in \<open>auto simp: Aware_ApplyTx_def\<close>)
  qed
qed

lemma routed_tx:
  assumes "aware_wf a" "\<forall>h. currentHeight tip a = Some h \<longrightarrow> h \<noteq> 0" "Aware_ApplyTx env tip tx a = (r, a')"
  shows "(r \<noteq> None \<and> r \<noteq> Some (AwGov (GovErr GErrDuplicateVote)) \<longrightarrow> a' = a) \<and> aware_wf a' \<and> same_wiring a a'"
proof -
  consider "IsContractID (TxContractID tx) \<or> TxContractID tx = MiningRewardContractID" | "TxContractID tx = SlashContractID"
    | "TxContractID tx = GovContractID"
    | "\<not> IsContractID (TxContractID tx)" "TxContractID tx \<notin> {MiningRewardContractID, SlashContractID, GovContractID}" by auto
  then show ?thesis
  proof cases
    case 1
    from route_ledger [OF assms(1) this assms(2,3)] show ?thesis
      using assms(1) by (auto simp: aware_wf_def same_wiring_def)
  next
    case 2
    from route_slash [OF assms(1) this assms(2,3)] show ?thesis by simp
  next
    case 3
    from route_gov [OF assms(1) this assms(3)] show ?thesis by simp
  next
    case 4
    from route_other [OF assms(1) this assms(3)] show ?thesis
      using assms(1) by (auto simp: aware_wf_def same_wiring_def)
  qed
qed



section \<open>Hooks, snapshots and runs\<close>

lemma sweep_keeps_registry:
  assumes "enroll_inv (Enrollments L)" "SweepMaturedEnrollments order h L = (L', released)"
  shows "enroll_inv (Enrollments L')"
proof -
  obtain es rs where l: "RevokeLegacyOwners h (Enrollments L) = (es, rs)" by fastforce
  have "enroll_inv es" using RevokeLegacyOwners_inv [OF assms(1), of h] l by simp
  then show ?thesis using SweepMaturedUnbonds_inv [of es order h] assms(2) l by (auto simp: SweepMaturedEnrollments_def split: prod.splits)
qed

lemma hook_cases:
  obtains "Aware_SealedBlockHook order blk a = a" "aw_enrollment a = None"
    | es L where "aw_enrollment a = Some es" "L = fst (SweepMaturedEnrollments order (Height blk) \<lparr>Accounts = aw_accounts a, Enrollments = es\<rparr>)"
      "Aware_SealedBlockHook order blk a = a\<lparr>aw_accounts := Accounts L, aw_enrollment := Some (Enrollments L)\<rparr>"
  by (cases "aw_enrollment a") (auto simp: Aware_SealedBlockHook_def Aware_Sweep_def split: prod.split)

lemma hook_keeps_wf:
  assumes "aware_wf a" shows "aware_wf (Aware_SealedBlockHook order blk a) \<and> same_wiring a (Aware_SealedBlockHook order blk a)"
    "aw_gov (Aware_SealedBlockHook order blk a) = aw_gov a"
proof -
  have "(aware_wf (Aware_SealedBlockHook order blk a) \<and> same_wiring a (Aware_SealedBlockHook order blk a)) \<and>
    aw_gov (Aware_SealedBlockHook order blk a) = aw_gov a"
  proof (rule hook_cases [of order blk a])
    fix es L
    assume h: "aw_enrollment a = Some es" "L = fst (SweepMaturedEnrollments order (Height blk) \<lparr>Accounts = aw_accounts a, Enrollments = es\<rparr>)"
      "Aware_SealedBlockHook order blk a = a\<lparr>aw_accounts := Accounts L, aw_enrollment := Some (Enrollments L)\<rparr>"
    have "enroll_inv (Enrollments L)"
      using sweep_keeps_registry [of "\<lparr>Accounts = aw_accounts a, Enrollments = es\<rparr>" order "Height blk"] assms h(1,2)
      by (simp add: aware_wf_def prod_eq_iff)
    then show ?thesis using assms h by (simp add: aware_wf_def same_wiring_def)
  qed (use assms in simp)
  then show "aware_wf (Aware_SealedBlockHook order blk a) \<and> same_wiring a (Aware_SealedBlockHook order blk a)"
    "aw_gov (Aware_SealedBlockHook order blk a) = aw_gov a" by simp_all
qed

lemma wired_hook_keeps_wf:
  assumes "aware_wf a" "\<forall>g. aw_gov a = Some g \<longrightarrow> map_order (ps_pending (ga_Store g)) porder" "fair_order ord"
    and "Wired_SealedBlockHook order porder ord blk a = (a', knob)"
  shows "aware_wf a' \<and> same_wiring a a'"
proof (cases "aw_gov a")
  case None
  then show ?thesis using assms(4) hook_keeps_wf [OF assms(1), of order blk] by (simp add: Wired_SealedBlockHook_def)
next
  case (Some g)
  let ?a = "Aware_SealedBlockHook order blk a"
  obtain g' pr where p: "PromotePending porder ord (Height blk) g = (g', pr)" by fastforce
  have "gov_inv g" using assms(1) Some by (simp add: aware_wf_def)
  then have "gov_inv g'" using gov_promote_keeps [OF _ _ assms(3) p] assms(2) Some by simp
  moreover have "a' = ?a\<lparr>aw_gov := Some g'\<rparr>"
    using assms(4) Some p hook_keeps_wf(2) [OF assms(1), of order blk] by (simp add: Wired_SealedBlockHook_def Let_def)
  ultimately show ?thesis
    using hook_keeps_wf [OF assms(1), of order blk] Some by (auto simp: aware_wf_def same_wiring_def)
qed

lemma clone_state_id [simp]: "State_Clone (Some s) = s"
  by (simp add: State_Clone_def)

lemma tasks_clone [simp]: "Tasks_ChainReplayClone s = s" "Tasks_RestoreFromChainReplay s t = s"
  by (simp_all add: Tasks_ChainReplayClone_def Tasks_RestoreFromChainReplay_def)

lemma tasks_clone_option [simp]: "map_option Tasks_ChainReplayClone ts = ts"
  by (cases ts) simp_all

lemma clone_slasher_ok:
  assumes "slasher_ok (aw_enrollment a \<noteq> None) sw"
  shows "\<exists>sw'. clone_slasher a sw = Some sw' \<and> slasher_ok (aw_enrollment a \<noteq> None) sw'"
  using assms by (cases "aw_enrollment a"; cases "sw_State sw") (auto simp: clone_slasher_def NewSlashApplier_def slasher_ok_def slash_state_def)

lemma clone_of_wf:
  assumes "aware_wf a"
  obtains c where "Aware_ChainReplayClone a = Some c" "aware_wf c" "aw_accounts c = aw_accounts a" "aw_enrollment c = aw_enrollment a"
    "aw_tasks c = aw_tasks a" "aw_heightFn c = aw_heightFn a" "aw_gov c = None"
proof -
  obtain sl where "(case aw_slasher a of None \<Rightarrow> Some None | Some sw \<Rightarrow> map_option Some (clone_slasher a sw)) = Some sl"
    "\<forall>sw. sl = Some sw \<longrightarrow> slasher_ok (aw_enrollment a \<noteq> None) sw"
    using assms clone_slasher_ok [of a] by (cases "aw_slasher a") (fastforce simp: aware_wf_def)+
  then show ?thesis
    using assms
    by (intro that [of "\<lparr>aw_accounts = aw_accounts a, aw_enrollment = aw_enrollment a, aw_slasher = sl, aw_gov = None,
        aw_tasks = aw_tasks a, aw_heightFn = aw_heightFn a\<rparr>"])
      (auto simp: Aware_ChainReplayClone_def Accounts_Clone_def option.map_ident aware_wf_def split: option.splits)
qed

lemma restore_keeps_wf:
  assumes "aware_wf a" "aware_wf c" "Aware_RestoreFromChainReplay c a = (r, a')"
  shows "aware_wf a' \<and> same_wiring a a'"
  using assms
  by (auto simp: Aware_RestoreFromChainReplay_def Accounts_RestoreFromChainReplay_def State_Restore_def Let_def aware_wf_def same_wiring_def
      enroll_inv_def split: option.splits if_splits)

lemma restore_copies:
  assumes "same_wiring c a \<or> (aw_enrollment c = None \<longleftrightarrow> aw_enrollment a = None) \<and> (aw_tasks c = None \<longleftrightarrow> aw_tasks a = None)"
  shows "Aware_RestoreFromChainReplay c a =
     (None, a\<lparr>aw_accounts := aw_accounts c, aw_enrollment := aw_enrollment c, aw_tasks := aw_tasks c\<rparr>)"
  using assms
  by (cases "aw_enrollment a"; cases "aw_tasks a")
    (auto simp: Aware_RestoreFromChainReplay_def Accounts_RestoreFromChainReplay_def Accounts_RestoreFrom_def Accounts_Clone_def
      State_Restore_def same_wiring_def)

text \<open>
  A run of a router: transactions at any tip, post-seal hooks in any map orders, and restores of any well-formed snapshot.
  The height provider never answers 0, as the wiring's \<open>TipHeight() + 1\<close> below the wrap-around.
\<close>

inductive aware_step :: "AwareEnv \<Rightarrow> EnrollmentAwareApplier \<Rightarrow> EnrollmentAwareApplier \<Rightarrow> bool" for env where
  routed: "\<lbrakk>Aware_ApplyTx env tip tx a = (r, a'); \<forall>h. currentHeight tip a = Some h \<longrightarrow> h \<noteq> 0\<rbrakk> \<Longrightarrow> aware_step env a a'"
| hooks: "\<lbrakk>Wired_SealedBlockHook order porder ord blk a = (a', knob); fair_order ord;
    \<forall>g. aw_gov a = Some g \<longrightarrow> map_order (ps_pending (ga_Store g)) porder\<rbrakk> \<Longrightarrow> aware_step env a a'"
| rollback: "\<lbrakk>aware_wf c; Aware_RestoreFromChainReplay c a = (r, a')\<rbrakk> \<Longrightarrow> aware_step env a a'"

lemma aware_step_wf: "\<lbrakk>aware_step env a a'; aware_wf a\<rbrakk> \<Longrightarrow> aware_wf a' \<and> same_wiring a a'"
  by (induction rule: aware_step.induct) (use routed_tx wired_hook_keeps_wf restore_keeps_wf in blast)+

lemma aware_run_wf: "\<lbrakk>(aware_step env)\<^sup>*\<^sup>* a a'; aware_wf a\<rbrakk> \<Longrightarrow> aware_wf a' \<and> same_wiring a a'"
proof (induction rule: rtranclp_induct)
  case (step b c)
  then have "aware_wf c \<and> same_wiring b c" using aware_step_wf by blast
  then show ?case using step by (auto simp: same_wiring_def)
qed simp

text \<open>
  C4: A run keeps a node's state well-formed and its snapshots usable. Start from a well-formed router and let transactions of every
  contract, post-seal hooks and rollbacks follow in any order. The enrollment registry, the slash applier and
  governance keep their invariants, no component appears or disappears, and the height provider stays. A replay clone taken at
  any moment exists (no panic) and is well-formed, and restoring it at any later moment succeeds and brings back the accounts, the
  registry and the tasks of that moment; the governance state is not rolled back.
\<close>

theorem router_snapshots_restore:
  assumes "(aware_step env)\<^sup>*\<^sup>* a0 a" "(aware_step env)\<^sup>*\<^sup>* a b" "aware_wf a0"
  shows "aware_wf b \<and> same_wiring a0 b \<and>
     (\<exists>c. Aware_ChainReplayClone a = Some c \<and> aware_wf c \<and>
        Aware_RestoreFromChainReplay c b =
          (None, b\<lparr>aw_accounts := aw_accounts a, aw_enrollment := aw_enrollment a, aw_tasks := aw_tasks a\<rparr>))"
proof -
  have a: "aware_wf a" "same_wiring a0 a" using aware_run_wf [OF assms(1,3)] by simp_all
  have b: "aware_wf b" "same_wiring a b" using aware_run_wf [OF assms(2) a(1)] by simp_all
  obtain c where c: "Aware_ChainReplayClone a = Some c" "aware_wf c" "aw_accounts c = aw_accounts a" "aw_enrollment c = aw_enrollment a"
    "aw_tasks c = aw_tasks a"
    using clone_of_wf [OF a(1)] by metis
  have "Aware_RestoreFromChainReplay c b =
      (None, b\<lparr>aw_accounts := aw_accounts a, aw_enrollment := aw_enrollment a, aw_tasks := aw_tasks a\<rparr>)"
    using restore_copies [of c b] b(2) c by (simp add: same_wiring_def)
  then show ?thesis using a(2) b c by (auto simp: same_wiring_def)
qed

section \<open>Producer and replica\<close>

text \<open>
  The transactions that every node applies alike: not slashing, not governance (the replay clone drops or rebinds their wiring) and
  not the claim of a task reward, whose sum depends on the order in which Go ranges over the submissions.
\<close>

definition claims_reward :: "TaskCodec \<Rightarrow> Tx \<Rightarrow> bool" where
  "claims_reward tc tx \<longleftrightarrow>
     TxContractID tx = TaskContractID \<and> (case tc_Action tc (Payload tx) of None \<Rightarrow> False | Some action \<Rightarrow> TA_Action action = ''claim'')"

definition ordinary :: "TaskCodec \<Rightarrow> Tx \<Rightarrow> bool" where
  "ordinary tc tx \<longleftrightarrow> TxContractID tx \<noteq> SlashContractID \<and> TxContractID tx \<noteq> GovContractID \<and> \<not> claims_reward tc tx"

lemma decoded_action: "DecodeTaskActionTx tc tx = Inr action \<Longrightarrow> claims_reward tc tx = (TA_Action action = ''claim'')"
  by (auto simp: DecodeTaskActionTx_def claims_reward_def Let_def split: if_splits option.splits)

lemma economic_order_free:
  assumes "\<not> claims_reward tc tx"
  shows "applyEconomicTx tc o1 o2 tx h st = applyEconomicTx tc q1 q2 tx h st"
proof (cases "DecodeTaskActionTx tc tx"; cases st)
  fix action as s
  assume d: "DecodeTaskActionTx tc tx = Inr action" "st = (as, s)"
  then have c: "TA_Action action \<noteq> ''claim''" using assms decoded_action by blast
  then have t: "economic_terms tc o1 action (Fee tx) s = economic_terms tc q1 action (Fee tx) s"
    by (simp add: economic_terms_def)
  have "participant_action tc o2 action l p h s t w = participant_action tc q2 action l p h s t w" for l p h s t w
    using c by (simp add: participant_action_def)
  then have a: "applyAction tc o2 action False True h s = applyAction tc q2 action False True h s"
    by (simp add: applyAction_def)
  show ?thesis unfolding applyEconomicTx_def d prod.case sum.case Let_def t a by (rule refl)
qed (simp add: applyEconomicTx_def)

definition same_core :: "EnrollmentAwareApplier \<Rightarrow> EnrollmentAwareApplier \<Rightarrow> bool" where
  "same_core a b \<longleftrightarrow>
     aw_accounts a = aw_accounts b \<and> aw_enrollment a = aw_enrollment b \<and> aw_tasks a = aw_tasks b \<and> aw_heightFn a = aw_heightFn b"

lemma same_core_root: "same_core a b \<Longrightarrow> Aware_StateRoot tc a = Aware_StateRoot tc b"
  by (simp add: same_core_def Aware_StateRoot_def)

lemma same_core_tx:
  assumes "same_core a b" "ordinary (ae_Task env) tx"
  shows "fst (Aware_ApplyTx env tip tx a) = fst (Aware_ApplyTx (env\<lparr>ae_Orders := ords\<rparr>) tip tx b) \<and>
     same_core (snd (Aware_ApplyTx env tip tx a)) (snd (Aware_ApplyTx (env\<lparr>ae_Orders := ords\<rparr>) tip tx b))"
proof -
  have h: "currentHeight tip a = currentHeight tip b" using assms(1) by (simp add: same_core_def currentHeight_def)
  have o: "ApplyEconomicTxAtHeight (ae_Task env) (fst (ords i)) (snd (ords i)) tx k st =
      ApplyEconomicTxAtHeight (ae_Task env) (fst (ae_Orders env i)) (snd (ae_Orders env i)) tx k st" for i k st
    unfolding ApplyEconomicTxAtHeight_def using assms(2) by (intro economic_order_free) (simp add: ordinary_def)
  show ?thesis
    using assms unfolding Aware_ApplyTx_def h ordinary_def same_core_def
    by (auto simp: o split: option.split prod.split)
qed

lemma same_core_replay:
  "\<lbrakk>same_core a b; list_all (ordinary (ae_Task env)) txs; replay_txs (Aware_ApplyTx env tip) txs a = (None, a')\<rbrakk> \<Longrightarrow>
     \<exists>b'. replay_txs (Aware_ApplyTx (env\<lparr>ae_Orders := ords\<rparr>) tip) txs b = (None, b') \<and> same_core a' b'"
proof (induction txs arbitrary: a b)
  case (Cons tx txs)
  obtain r a1 where a1: "Aware_ApplyTx env tip tx a = (r, a1)" by fastforce
  obtain b1 where b1: "Aware_ApplyTx (env\<lparr>ae_Orders := ords\<rparr>) tip tx b = (r, b1)" "same_core a1 b1"
    using same_core_tx [of a b env tx tip ords] Cons.prems a1 by (cases "Aware_ApplyTx (env\<lparr>ae_Orders := ords\<rparr>) tip tx b") auto
  then show ?case using Cons.IH [of a1 b1] Cons.prems a1 by (auto split: option.splits)
qed simp

lemma replay_of_routed:
  "\<lbrakk>aware_wf a; \<forall>h. currentHeight tip a = Some h \<longrightarrow> h \<noteq> 0; list_all (ordinary tc) txs; apply_txs (Aware_ApplyTx env tip) txs a = (ocs, a')\<rbrakk> \<Longrightarrow>
     replay_txs (Aware_ApplyTx env tip) (included ocs) a = (None, a') \<and> list_all (ordinary tc) (included ocs)"
proof (induction txs arbitrary: a ocs)
  case (Cons tx txs)
  obtain r a1 where a1: "Aware_ApplyTx env tip tx a = (r, a1)" by fastforce
  obtain ocs1 where rest: "apply_txs (Aware_ApplyTx env tip) txs a1 = (ocs1, a')" "ocs = (tx, r) # ocs1"
    using Cons.prems(4) a1 by (auto split: prod.splits)
  note step = routed_tx [OF Cons.prems(1,2) a1]
  have "r \<noteq> Some (AwGov e)" for e
    using Cons.prems(3) a1 by (auto simp: Aware_ApplyTx_def ordinary_def split: if_splits option.splits prod.splits)
  then have keep: "r \<noteq> None \<longrightarrow> a1 = a" using step by blast
  have "currentHeight tip a1 = currentHeight tip a" using step by (simp add: currentHeight_def same_wiring_def)
  then have "replay_txs (Aware_ApplyTx env tip) (included ocs1) a1 = (None, a') \<and> list_all (ordinary tc) (included ocs1)"
    using Cons.IH [OF _ _ _ rest(1)] step Cons.prems(2,3) by simp
  then show ?case using keep a1 rest(2) Cons.prems(3) by (cases r) (auto simp: included_def)
qed (simp add: included_def)

lemma same_core_hook:
  assumes "same_core a b"
  shows "same_core (fst (Wired_SealedBlockHook order p q blk a)) (fst (Wired_SealedBlockHook order p' q' blk b))"
proof -
  have "same_core (Aware_SealedBlockHook order blk a) (Aware_SealedBlockHook order blk b)"
    using assms by (cases "aw_enrollment b") (auto simp: Aware_SealedBlockHook_def Aware_Sweep_def same_core_def split: prod.split)
  then show ?thesis by (auto simp: Wired_SealedBlockHook_def Let_def same_core_def split: option.split)
qed

lemma aware_applier_simps [simp]:
  "ap_ApplyTx (aware_applier env) = Aware_ApplyTx env" "ap_StateRoot (aware_applier env) = Aware_StateRoot (ae_Task env)"
  "ap_Clone (aware_applier env) = None"
  "ap_Replay (aware_applier env) = Some (\<lambda>a. the (Aware_ChainReplayClone a), Aware_RestoreFromChainReplay)"
  by (simp_all add: aware_applier_def)

lemma aware_seal:
  assumes "applier bp = aware_applier env" "produce_locked now clk bp = (Inr (blk, ocs), bp')"
  shows "apply_txs (Aware_ApplyTx env (tipHeight bp)) (orderSenderNonces (fst (Drain (maxTxBlock bp) (pool bp)))) (live bp) = (ocs, live bp') \<and>
    blk = make_block now (producerID bp) (chain bp) (included ocs) (Aware_StateRoot (ae_Task env) (live bp')) \<and>
    chain bp' = chain bp @ [blk] \<and> tipHeight bp' = Height blk"
proof -
  obtain txs rest where d: "Drain (maxTxBlock bp) (pool bp) = (txs, rest)" by fastforce
  obtain os a where ap: "apply_txs (Aware_ApplyTx env (tipHeight bp)) (orderSenderNonces txs) (live bp) = (os, a)" by fastforce
  have gates: "seal_gates bp = None" using assms(2) by (auto simp: produce_locked_def split: option.splits)
  then have none: "preSealBFTRound bp = None" using assms(1) by (auto simp: seal_gates_def split: option.splits if_splits)
  show ?thesis
    using assms d ap gates none by (auto simp: produce_locked_def Let_def split: if_splits)
qed

lemma append_succeeds:
  assumes "ap_Replay (applier rp) = Some (clone, restore)" "Hash blk = computeBlockHash blk" "append_check blk rp = Inr ()"
    and "find_height (Height blk) (chain rp) = None"
    and "chain rp \<noteq> [] \<longrightarrow> PrevHash blk = Hash (last (chain rp)) \<and> Height blk = Height (last (chain rp)) + 1"
    and "replay_txs (ap_ApplyTx (applier rp) (tipHeight rp)) (Transactions blk) (clone (live rp)) = (None, c)"
    and "replay_txs (ap_ApplyTx (applier rp) (tipHeight rp)) (Transactions blk) (live rp) = (None, s)"
    and "ap_StateRoot (applier rp) c = BStateRoot blk" "ap_StateRoot (applier rp) s = BStateRoot blk"
  shows "\<exists>rp'. append_locked blk (clone, restore) rp = (Inr (clone (live rp)), rp') \<and>
    TryAppendExternalBlock t blk rp = (None, append_finish t clone blk (clone (live rp)) rp') \<and>
    chain rp' = chain rp @ [blk] \<and> tipHeight rp' = Height blk \<and> live rp' = s"
proof -
  let ?r = "(append_block blk (rp\<lparr>live := s\<rparr>))\<lparr>pool := remove_all (map TxID (Transactions blk)) (pool rp)\<rparr>"
  have l: "append_locked blk (clone, restore) rp = (Inr (clone (live rp)), ?r)"
    using assms by (auto simp: append_locked_def Let_def)
  then have "TryAppendExternalBlock t blk rp = (None, append_finish t clone blk (clone (live rp)) ?r)"
    using assms by (auto simp: TryAppendExternalBlock_def append_replay_def append_commit_def)
  then show ?thesis using l by (intro exI [of _ ?r]) simp
qed

text \<open>
  Two nodes at the same point: same chain and tip, same accounts, registry, tasks and height provider, each with its own map orders,
  governance, slashing and callbacks.
\<close>

definition twin_nodes ::
    "AwareEnv \<Rightarrow> (string \<Rightarrow> string list \<times> string list) \<Rightarrow> (EnrollmentAwareApplier, aware_error) BlockProducer \<Rightarrow>
       (EnrollmentAwareApplier, aware_error) BlockProducer \<Rightarrow> bool" where
  "twin_nodes env ords bp rp \<longleftrightarrow>
     applier bp = aware_applier env \<and> applier rp = aware_applier (env\<lparr>ae_Orders := ords\<rparr>) \<and> chain rp = chain bp \<and>
     tipHeight rp = tipHeight bp \<and> aware_wf (live bp) \<and> aware_wf (live rp) \<and> same_core (live bp) (live rp)"

text \<open>
  C2: Producer and replica agree on the node state at the seal. Let a node with the router as its applier seal a block from a pool with
  enrollments, rewards, task actions, wallet and plain transfers, but no slash and no governance transaction and no claim of a task
  reward. A replica at the same point (chain, tip, accounts, registry, tasks, height provider), with its own map iteration orders,
  governance and slashing configuration and callbacks, whose guard and lock follower let it extend the tip, accepts the block: the
  replay on its clone and on its live state find every transaction applicable and the same state root, and when the
  block is in the chain of both, before the callbacks run, they have the same chain, tip, accounts, enrollment registry and tasks. The
  post-seal hook of the wiring keeps that agreement when both nodes sweep the registry in the same order. No
  other operation runs between the check and the commit of the append; heights are below \<open>2 ^ 64\<close> and the height provider does not
  yield 0.
\<close>

theorem replica_accepts_routed_block:
  assumes "twin_nodes env ords bp rp" "produce_locked now clk bp = (Inr (blk, ocs), bp')"
    and "\<forall>tx \<in> set (fst (Drain (maxTxBlock bp) (pool bp))). ordinary (ae_Task env) tx"
    and "\<forall>h. currentHeight (tipHeight bp) (live bp) = Some h \<longrightarrow> h \<noteq> 0"
    and "append_open rp" "chain_inv rp" "length (chain rp) < 2 ^ 64"
  shows "\<exists>clone restore backup rp'. ap_Replay (applier rp) = Some (clone, restore) \<and>
    append_locked blk (clone, restore) rp = (Inr backup, rp') \<and>
    TryAppendExternalBlock t blk rp = (None, append_finish t clone blk backup rp') \<and>
    chain rp' = chain bp' \<and> tipHeight rp' = tipHeight bp' \<and> same_core (live bp') (live rp') \<and>
    (\<forall>order p q p' q'. same_core (fst (Wired_SealedBlockHook order p q blk (live bp'))) (fst (Wired_SealedBlockHook order p' q' blk (live rp'))))"
proof -
  note tw = assms(1) [unfolded twin_nodes_def]
  let ?f = "Aware_ApplyTx env (tipHeight bp)" and ?f' = "Aware_ApplyTx (env\<lparr>ae_Orders := ords\<rparr>) (tipHeight bp)"
  note seal = aware_seal [OF _ assms(2), of env]
  have "set (orderSenderNonces txs) = set txs" for txs by (metis mset_order set_mset_mset)
  then have "list_all (ordinary (ae_Task env)) (orderSenderNonces (fst (Drain (maxTxBlock bp) (pool bp))))"
    using assms(3) by (simp add: list_all_iff)
  then have r: "replay_txs ?f (included ocs) (live bp) = (None, live bp')" "list_all (ordinary (ae_Task env)) (included ocs)"
    using replay_of_routed [OF _ assms(4)] seal tw by blast+
  obtain s where s: "replay_txs ?f' (included ocs) (live rp) = (None, s)" "same_core (live bp') s"
    using same_core_replay [OF _ r(2,1), of "live rp" ords] tw by blast
  obtain c where c: "Aware_ChainReplayClone (live rp) = Some c" "same_core (live rp) c"
    by (rule clone_of_wf [of "live rp"]) (use tw in \<open>auto simp: same_core_def\<close>)
  have "same_core (live bp) c" using c(2) tw by (simp add: same_core_def)
  then obtain c' where c': "replay_txs ?f' (included ocs) c = (None, c')" "same_core (live bp') c'"
    using same_core_replay [OF _ r(2,1), of c ords] by blast
  have fresh: "find_height (Height blk) (chain rp) = None"
    using find_height_next [of "chain rp"] assms(6,7) seal tw
    by (cases "chain rp = []") (auto simp: chain_inv_def hash_linked_def next_position_def)
  have link: "chain rp \<noteq> [] \<longrightarrow> PrevHash blk = Hash (last (chain rp)) \<and> Height blk = Height (last (chain rp)) + 1"
    "chain rp = [] \<longrightarrow> Height blk = 0 \<and> PrevHash blk = []"
    using seal tw by (auto simp: next_position_def)
  have hash: "Hash blk = computeBlockHash blk" "Transactions blk = included ocs" "BStateRoot blk = Aware_StateRoot (ae_Task env) (live bp')"
    using produce_locked_chain [OF assms(2)] seal tw by (auto simp: extended_by_def)
  let ?clone = "\<lambda>a. the (Aware_ChainReplayClone a)"
  have "\<exists>rp'. append_locked blk (?clone, Aware_RestoreFromChainReplay) rp = (Inr (?clone (live rp)), rp') \<and>
      TryAppendExternalBlock t blk rp = (None, append_finish t ?clone blk (?clone (live rp)) rp') \<and>
      chain rp' = chain rp @ [blk] \<and> tipHeight rp' = Height blk \<and> live rp' = s"
    by (rule append_succeeds [OF _ hash(1) append_check_open [OF assms(5) fresh link] fresh link(1), where c = c'])
      (use tw c c' s hash same_core_root [OF s(2)] same_core_root [OF c'(2)] in simp_all)
  moreover have "ap_Replay (applier rp) = Some (?clone, Aware_RestoreFromChainReplay)" using tw by simp
  ultimately show ?thesis using seal tw s(2) same_core_hook [OF s(2)] by metis
qed

section \<open>Governance blocks\<close>

lemma no_gov_stays: "\<lbrakk>Aware_ApplyTx env tip tx a = (r, a'); aw_gov a = None\<rbrakk> \<Longrightarrow> aw_gov a' = None"
  by (auto simp: Aware_ApplyTx_def put_slash_state_def split: if_splits option.splits prod.splits)

lemma gov_replay_fails:
  "\<lbrakk>tx \<in> set txs; TxContractID tx = GovContractID; aw_gov a = None\<rbrakk> \<Longrightarrow> fst (replay_txs (Aware_ApplyTx env tip) txs a) \<noteq> None"
proof (induction txs arbitrary: a)
  case (Cons t txs)
  obtain r a1 where a1: "Aware_ApplyTx env tip t a = (r, a1)" by fastforce
  show ?case
  proof (cases "t = tx")
    case True
    then show ?thesis using Cons.prems by (simp add: Aware_ApplyTx_def)
  next
    case False
    then show ?thesis using Cons.IH [of a1] Cons.prems a1 no_gov_stays [OF a1] by (auto split: option.split)
  qed
qed simp

text \<open>
  No node accepts a block with a governance transaction. Whatever its own governance state, a node that does not yet have a block of
  that height refuses it and changes nothing: the replay clone has no governance applier, so the
  transaction fails there with \<open>ErrGovernanceNotWired\<close>. The producer itself applied and sealed it, so the chain forks
  at the first parameter change or authority vote.
\<close>

theorem governance_block_never_replicates:
  assumes "applier rp = aware_applier env" "aware_wf (live rp)" "find_height (Height blk) (chain rp) = None"
    and "tx \<in> set (Transactions blk)" "TxContractID tx = GovContractID"
  shows "\<exists>e. TryAppendExternalBlock t blk rp = (Some e, rp)"
proof -
  obtain c where c: "Aware_ChainReplayClone (live rp) = Some c" "aw_gov c = None" using assms(2) by (rule clone_of_wf)
  have "append_replay blk (\<lambda>a. the (Aware_ChainReplayClone a)) rp \<noteq> None"
    using gov_replay_fails [OF assms(4,5) c(2), of env "tipHeight rp"] c(1) assms(1)
    by (auto simp: append_replay_def split: option.splits prod.splits)
  moreover have "append_check blk rp \<noteq> Inl None" using assms(3) by (auto simp: append_check_def Let_def split: option.splits if_splits)
  ultimately show ?thesis
    using assms(1) by (auto simp: TryAppendExternalBlock_def split: sum.splits option.splits)
qed

section \<open>Signatures\<close>

lemmas deep_congs = if_cong option.case_cong sum.case_cong prod.case_cong

lemma signature_free [simp]:
  "ApplyTx (tx\<lparr>Signature := s, PublicKey := k\<rparr>) as = ApplyTx tx as"
  "ApplyMiningRewardTx (tx\<lparr>Signature := s, PublicKey := k\<rparr>) L = ApplyMiningRewardTx tx L"
  "ApplySlashTx decode reg params slr (tx\<lparr>Signature := s, PublicKey := k\<rparr>) h L = ApplySlashTx decode reg params slr tx h L"
  "ApplyGovTx gc (tx\<lparr>Signature := s, PublicKey := k\<rparr>) h S = ApplyGovTx gc tx h S"
  "ApplyEconomicTxAtHeight tc o1 o2 (tx\<lparr>Signature := s, PublicKey := k\<rparr>) h st = ApplyEconomicTxAtHeight tc o1 o2 tx h st"
  subgoal by (simp add: ApplyTx_def debit_sender_def Let_def cong: deep_congs)
  subgoal by (simp add: ApplyMiningRewardTx_def ApplyProtocolReward_def debit_sender_def Let_def cong: deep_congs)
  subgoal by (simp add: ApplySlashTx_def slash_checks_def slash_settle_def Let_def cong: deep_congs)
  subgoal by (cases S) (simp add: ApplyGovTx_def applyParamSet_def applyAuthoritySet_def param_checks_def authority_checks_def Let_def cong: deep_congs)
  subgoal by (simp add: ApplyEconomicTxAtHeight_def applyEconomicTx_def DecodeTaskActionTx_def Let_def cong: deep_congs)
  done

lemma legacy_signature_free:
  "TxContractID tx = ContractID \<Longrightarrow>
     ApplyEnrollmentTx codec (tx\<lparr>Signature := s, PublicKey := k\<rparr>) h L = ApplyEnrollmentTx codec tx h L"
  by (simp add: ApplyEnrollmentTx_def applyEnroll_def enroll_checks_def enroll_commit_def applyUnenroll_def Let_def cong: deep_congs)

text \<open>
  Where the consensus layer checks signatures. Outside of signed enrollments and wallet transfers, the router executes a transaction in the
  same way whatever its signature and public key are: transfers without a contract, legacy enrollments, rewards, slashes, governance
  votes and task actions in a block move the funds of the named sender unsigned. With signed enrollments and wallet transfers, an accepted
  transaction passed the signature check.
\<close>

theorem signatures_only_on_two_contracts:
  "(TxContractID tx \<notin> {SignedContractID, WalletTransferContractID} \<longrightarrow>
      Aware_ApplyTx env tip (tx\<lparr>Signature := s, PublicKey := k\<rparr>) a = Aware_ApplyTx env tip tx a) \<and>
   (TxContractID tx = SignedContractID \<and> fst (Aware_ApplyTx env tip tx a) = None \<longrightarrow> VerifySignedTransaction (ae_Enroll env) tx) \<and>
   (TxContractID tx = WalletTransferContractID \<and> fst (Aware_ApplyTx env tip tx a) = None \<longrightarrow>
      (\<exists>env' pub sig msg. we_Decode (ae_Wallet env) (Payload tx) = Some env' \<and> TD_Sender env' = Sender tx \<and> TD_Recipient env' = Recipient tx \<and>
        feq (TD_Amount env') (Amount tx) \<and> TD_Nonce env' = TxNonce tx + 1 \<and>
        hex_decode (PublicKey tx) = Some pub \<and> Sender tx = hex_encode (sha256 pub) \<and> hex_decode (Signature tx) = Some sig \<and>
        CanonicalBytes (ae_Wallet env) env' = Some msg \<and> we_Verify (ae_Wallet env) pub msg sig))"
proof (intro conjI impI; (elim conjE)?)
  assume c: "TxContractID tx \<notin> {SignedContractID, WalletTransferContractID}"
  have e: "IsContractID (TxContractID tx) \<Longrightarrow>
      ApplyEnrollmentTx codec (tx\<lparr>Signature := s, PublicKey := k\<rparr>) h L = ApplyEnrollmentTx codec tx h L" for codec h L
    using c by (intro legacy_signature_free) (auto simp: IsContractID_def)
  show "Aware_ApplyTx env tip (tx\<lparr>Signature := s, PublicKey := k\<rparr>) a = Aware_ApplyTx env tip tx a"
    using c e unfolding Aware_ApplyTx_def by (simp cong: deep_congs)
next
  assume "TxContractID tx = SignedContractID" "fst (Aware_ApplyTx env tip tx a) = None"
  then show "VerifySignedTransaction (ae_Enroll env) tx"
    by (auto simp: Aware_ApplyTx_def ApplyEnrollmentTx_def IsContractID_def SignedContractID_def ContractID_def split: option.splits prod.splits if_splits)
next
  assume c: "TxContractID tx = WalletTransferContractID" "fst (Aware_ApplyTx env tip tx a) = None"
  then have "fst (ApplyWalletTransferTx (ae_Wallet env) tx (aw_accounts a)) = None"
    by (auto simp: Aware_ApplyTx_def WalletTransferContractID_def MiningRewardContractID_def SlashContractID_def GovContractID_def
        TaskContractID_def IsContractID_def SignedContractID_def ContractID_def split: prod.splits)
  then obtain d where d: "we_Decode (ae_Wallet env) (Payload tx) = Some d" "VerifyTransactionData (ae_Wallet env) d = None"
    "TD_Sender d = Sender tx" "TD_Recipient d = Recipient tx" "feq (TD_Amount d) (Amount tx)" "TD_Nonce d - 1 = TxNonce tx"
    "TD_Signature d = Signature tx" "TD_PublicKey d = PublicKey tx"
    by (auto simp: ApplyWalletTransferTx_def split: option.splits if_splits)
  have "TD_Nonce d = TxNonce tx + 1" using d(6) by (metis diff_add_cancel)
  then show "\<exists>env' pub sig msg. we_Decode (ae_Wallet env) (Payload tx) = Some env' \<and> TD_Sender env' = Sender tx \<and> TD_Recipient env' = Recipient tx \<and>
        feq (TD_Amount env') (Amount tx) \<and> TD_Nonce env' = TxNonce tx + 1 \<and>
        hex_decode (PublicKey tx) = Some pub \<and> Sender tx = hex_encode (sha256 pub) \<and> hex_decode (Signature tx) = Some sig \<and>
        CanonicalBytes (ae_Wallet env) env' = Some msg \<and> we_Verify (ae_Wallet env) pub msg sig"
    using d by (intro exI [of _ d]) (auto simp: VerifyTransactionData_def split: option.splits if_splits)
qed

section \<open>Example nodes\<close>

definition example_wallet :: TransactionData where
  "example_wallet = \<lparr>TD_ID = ''w1'', TD_Sender = hex_encode (sha256 [1]), TD_Recipient = ''bob'', TD_Amount = f_int 4, TD_Fee = f_int 1,
     TD_GeoTag = [], TD_ParentCells = None, TD_Nonce = 1, TD_Signature = ''02'', TD_PublicKey = ''01'', TD_Timestamp = []\<rparr>"

definition example_env :: AwareEnv where
  "example_env = \<lparr>ae_Enroll = sample_codec, ae_Slash = (\<lambda>_. None),
     ae_Gov = const_codec sample_param (rotation AuthorityOpRemove ''d'' 10) PayloadKindParamSet,
     ae_Task = task_codec (sample_action ''claim'' fzero) whole_pool,
     ae_Wallet = \<lparr>we_Decode = (\<lambda>_. Some example_wallet), we_Float = (\<lambda>_. Some ''1''), we_PublicKeySize = 1, we_SignatureSize = 1,
       we_UnmarshalKey = (\<lambda>_. True), we_Verify = (\<lambda>pub msg sig. sig = [2])\<rparr>,
     ae_Orders = (\<lambda>_. ([], []))\<rparr>"

definition example_router :: "AccountStore \<Rightarrow> GovApplier option \<Rightarrow> EnrollmentAwareApplier" where
  "example_router as g = SetGovApplier g (SetTaskStateStore (Some NewTaskStateStore) (SetHeightFn (Some (\<lambda>h. h + 1))
     (NewEnrollmentAwareApplier as (Some NewInMemoryState))))"

lemma example_router_simps [simp]:
  "aw_accounts (example_router as g) = as" "aw_enrollment (example_router as g) = Some NewInMemoryState"
  "aw_slasher (example_router as g) = None" "aw_gov (example_router as g) = g" "aw_tasks (example_router as g) = Some NewTaskStateStore"
  "currentHeight tip (example_router as g) = Some (tip + 1)" "aw_heightFn (example_router as g) = Some (\<lambda>h. h + 1)"
  by (simp_all add: example_router_def SetGovApplier_def SetTaskStateStore_def SetHeightFn_def NewEnrollmentAwareApplier_def currentHeight_def)

lemma five_inv: "gov_inv five_start"
  using gov_reach_inv [OF five_reach, of sample_store] by simp

lemma example_router_wf: "aware_wf (example_router as None)" "aware_wf (example_router as (Some five_start))"
  using NewInMemoryState_inv five_inv by (simp_all add: aware_wf_def)

definition example_node :: "Tx \<Rightarrow> AccountStore \<Rightarrow> GovApplier option \<Rightarrow> (EnrollmentAwareApplier, aware_error) BlockProducer" where
  "example_node tx as g = (NewBlockProducer (insert_tx tx (NewMempool mempool_DefaultConfig)) (aware_applier example_env)
     (example_router as g) DefaultProducerConfig)\<lparr>OnSealedBlock := Some (\<lambda>blk a. fst (Wired_SealedBlockHook [] [] five_order blk a))\<rparr>"

lemma example_node_simps [simp]:
  "applier (example_node tx as g) = aware_applier example_env" "chain (example_node tx as g) = []" "tipHeight (example_node tx as g) = 0"
  "live (example_node tx as g) = example_router as g" "maxTxBlock (example_node tx as g) = 500" "OnSealed (example_node tx as g) = None"
  "pool (example_node tx as g) = insert_tx tx (NewMempool mempool_DefaultConfig)" "preSealBFTRound (example_node tx as g) = None"
  "OnSealedBlock (example_node tx as g) = Some (\<lambda>blk a. fst (Wired_SealedBlockHook [] [] five_order blk a))"
  "seal_gates (example_node tx as g) = None"
  by (simp_all add: example_node_def NewBlockProducer_def DefaultProducerConfig_def seal_gates_def)

lemma single_drain: "fst (Drain 500 (insert_tx tx (NewMempool mempool_DefaultConfig))) = [tx]"
  by (simp add: insert_tx_def NewMempool_def mempool_DefaultConfig_def Drain_def take_top_def
      trackNonceLocked_def heap_push_def heap_pop_def Let_def swap_at_def)

lemma example_node_seals:
  assumes "Aware_ApplyTx example_env 0 tx (example_router as g) = (None, a)"
  obtains blk ocs m bp' where "produce_locked (utc 0) clk (example_node tx as g) = (Inr (blk, ocs), m)"
    "ProduceBlock (utc 0) clk (example_node tx as g) = (Inr blk, bp')" "Transactions blk = [tx]"
proof -
  obtain rest where d: "Drain 500 (insert_tx tx (NewMempool mempool_DefaultConfig)) = ([tx], rest)"
    using single_drain by (metis prod.collapse)
  let ?blk = "make_block (utc 0) (producerID (example_node tx as g)) [] [tx] (Aware_StateRoot (ae_Task example_env) a)"
  obtain m where m: "produce_locked (utc 0) clk (example_node tx as g) = (Inr (?blk, [(tx, None)]), m)"
    using d assms by (simp add: produce_locked_def Let_def orderSenderNonces_def included_def)
  then have "ProduceBlock (utc 0) clk (example_node tx as g) = (Inr ?blk, seal_finish (clk 0) ?blk [(tx, None)] m)"
    by (simp add: ProduceBlock_def)
  from that [OF m this] show ?thesis by simp
qed

lemma plain_route [simp]: "IsContractID [] = False" "MiningRewardContractID \<noteq> []" "SlashContractID \<noteq> []" "GovContractID \<noteq> []" "TaskContractID \<noteq> []"
  "WalletTransferContractID \<noteq> []"
  by (simp_all add: IsContractID_def ContractID_def SignedContractID_def MiningRewardContractID_def SlashContractID_def GovContractID_def
      TaskContractID_def WalletTransferContractID_def)

lemmas plain_routes [simp] = plain_route(2-6) [symmetric]

lemma example_transfer: "\<exists>a. Aware_ApplyTx example_env tip example_tx (example_router sample_store g) = (None, a)"
  using example_applies by (auto simp: Aware_ApplyTx_def)


theorem router_snapshots_restore_witness:
  "\<exists>b c. Aware_ApplyTx example_env 7 example_tx (example_router sample_store (Some five_start)) = (None, b) \<and> aware_wf b \<and>
     Aware_ChainReplayClone (example_router sample_store (Some five_start)) = Some c \<and>
     fst (Aware_RestoreFromChainReplay c b) = None \<and> aw_accounts (snd (Aware_RestoreFromChainReplay c b)) = sample_store"
proof -
  let ?a = "example_router sample_store (Some five_start)"
  obtain b where b: "Aware_ApplyTx example_env 7 example_tx ?a = (None, b)" using example_transfer by blast
  have "aware_step example_env ?a b" by (rule aware_step.routed [OF b]) simp
  then have "(aware_step example_env)\<^sup>*\<^sup>* ?a b" by blast
  from router_snapshots_restore [OF rtranclp.rtrancl_refl this example_router_wf(2)] b show ?thesis by auto
qed

theorem replica_accepts_routed_block_witness:
  "\<exists>blk ocs bp' rp'. produce_locked (utc 0) (\<lambda>_. 1) (example_node example_tx sample_store (Some five_start)) = (Inr (blk, ocs), bp') \<and>
     Transactions blk = [example_tx] \<and>
     TryAppendExternalBlock 2 blk (example_node example_tx sample_store None) = (None, rp') \<and> chain rp' = chain bp'"
proof -
  let ?bp = "example_node example_tx sample_store (Some five_start)" and ?rp = "example_node example_tx sample_store None"
  obtain a where a: "Aware_ApplyTx example_env 0 example_tx (example_router sample_store (Some five_start)) = (None, a)"
    using example_transfer by blast
  obtain blk ocs bp' where p: "produce_locked (utc 0) (\<lambda>_. 1) ?bp = (Inr (blk, ocs), bp')" "Transactions blk = [example_tx]"
    by (rule example_node_seals [OF a])
  have tw: "twin_nodes example_env (ae_Orders example_env) ?bp ?rp"
    using example_router_wf by (auto simp: twin_nodes_def same_core_def)
  have rp: "append_open ?rp" "chain_inv ?rp"
    by (simp_all add: example_node_def NewBlockProducer_def append_open_def chain_inv_def hash_linked_def tip_mirrored_def)
  have "\<exists>clone restore backup rp'. ap_Replay (applier ?rp) = Some (clone, restore) \<and>
    append_locked blk (clone, restore) ?rp = (Inr backup, rp') \<and>
    TryAppendExternalBlock 2 blk ?rp = (None, append_finish 2 clone blk backup rp') \<and>
    chain rp' = chain bp' \<and> tipHeight rp' = tipHeight bp' \<and> same_core (live bp') (live rp') \<and>
    (\<forall>order p q p' q'. same_core (fst (Wired_SealedBlockHook order p q blk (live bp'))) (fst (Wired_SealedBlockHook order p' q' blk (live rp'))))"
    by (rule replica_accepts_routed_block [OF tw p(1) _ _ rp]) (simp_all add: single_drain ordinary_def claims_reward_def)
  then show ?thesis using p by (metis append_finish_frame(1))
qed

lemma example_gov_tx: "\<exists>a. Aware_ApplyTx example_env 0 (gov_tx_of ''a'' 0) (example_router (funded ''a'') (Some five_start)) = (None, a)"
proof -
  let ?c = "const_codec sample_param (rotation AuthorityOpRemove ''d'' 10) PayloadKindParamSet"
  have v: "ValidateParamSetFields sample_param = None"
    by (simp add: ValidateParamSetFields_def sample_param_def CheckBounds_def GovMaxMemoLen_def) (simp add: ParamRewardBPS_def)
  have ck: "param_checks sample_param (gov_tx_of ''a'' 0) 1 five_start = None"
    using v by (simp add: param_checks_def five_start_def height_window_def sample_param_def MaxActivationDelay_def five_def [symmetric])
      (simp add: five_def)
  have pk: "GovPeekKind ?c [0] = Inr PayloadKindParamSet" "ParseParamSet ?c [0] = Inr sample_param"
    by (simp_all add: GovPeekKind_def ParseParamSet_def const_codec_def sample_param_def)
  obtain as' where d: "DebitAndBumpNonce ''a'' (f_int 1) 0 (funded ''a'') = (None, as')" using funded_debit by blast
  have "fst (ApplyGovTx ?c (gov_tx_of ''a'' 0) 1 (funded ''a'', five_start)) = None"
    using pk ck d by (simp add: ApplyGovTx_def applyParamSet_def Let_def sample_param_def Stage_def CheckBounds_def five_start_def NewInMemoryParamStore_def)
  then show ?thesis by (auto simp: Aware_ApplyTx_def example_env_def split: prod.splits)
qed

theorem governance_block_never_replicates_witness:
  "\<exists>blk bp' e. ProduceBlock (utc 0) (\<lambda>_. 1) (example_node (gov_tx_of ''a'' 0) (funded ''a'') (Some five_start)) = (Inr blk, bp') \<and>
     Transactions blk = [gov_tx_of ''a'' 0] \<and>
     TryAppendExternalBlock 2 blk (example_node (gov_tx_of ''a'' 0) (funded ''a'') (Some five_start)) =
       (Some e, example_node (gov_tx_of ''a'' 0) (funded ''a'') (Some five_start))"
proof -
  let ?bp = "example_node (gov_tx_of ''a'' 0) (funded ''a'') (Some five_start)"
  obtain a where a: "Aware_ApplyTx example_env 0 (gov_tx_of ''a'' 0) (example_router (funded ''a'') (Some five_start)) = (None, a)"
    using example_gov_tx by blast
  obtain blk bp' where p: "ProduceBlock (utc 0) (\<lambda>_. 1) ?bp = (Inr blk, bp')" "Transactions blk = [gov_tx_of ''a'' 0]"
    by (rule example_node_seals [OF a])
  have "\<exists>e. TryAppendExternalBlock 2 blk ?bp = (Some e, ?bp)"
    by (rule governance_block_never_replicates [where tx = "gov_tx_of ''a'' 0"]) (use p(2) example_router_wf in simp_all)
  then show ?thesis using p by blast
qed

definition example_wallet_tx :: Tx where
  "example_wallet_tx = (transfer (hex_encode (sha256 [1])) ''bob'' (f_int 4) (f_int 1) 0)
     \<lparr>TxID := ''w1'', TxContractID := WalletTransferContractID, Signature := ''02'', PublicKey := ''01''\<rparr>"

lemma example_wallet_applies:
  "\<exists>a. Aware_ApplyTx example_env 0 example_wallet_tx (example_router (funded (hex_encode (sha256 [1]))) None) = (None, a)"
proof -
  let ?k = "hex_encode (sha256 [1])"
  have n: "?k \<noteq> []" using length_sha256_hex [of "[CHR 0x01]"] by (auto simp: sha256_hex_def bytes_of_string_def)
  have "\<exists>as. ApplyTx example_wallet_tx (funded ?k) = (None, as)"
    by (simp add: example_wallet_tx_def ApplyTx_def debit_sender_def funded_def Credit_def NewAccountStore_def new_account_def fzero_f_int)
  moreover have "VerifyTransactionData (ae_Wallet example_env) example_wallet = None"
  proof -
    have h: "hex_decode ''01'' = Some [1]" "hex_decode ''02'' = Some [2]" by code_simp+
    obtain msg where "CanonicalBytes (ae_Wallet example_env) example_wallet = Some msg"
      by (simp add: CanonicalBytes_def example_env_def Let_def)
    then show ?thesis using n h by (simp add: VerifyTransactionData_def) (simp add: example_wallet_def example_env_def fzero_f_int)
  qed
  ultimately have "\<exists>as. ApplyWalletTransferTx (ae_Wallet example_env) example_wallet_tx (funded ?k) = (None, as)"
    by (auto simp: ApplyWalletTransferTx_def example_env_def example_wallet_tx_def example_wallet_def)
  then show ?thesis by (auto simp: Aware_ApplyTx_def example_wallet_tx_def example_env_def)
qed

theorem signatures_only_on_two_contracts_witness:
  "Aware_ApplyTx example_env 7 (example_tx\<lparr>Signature := ''forged'', PublicKey := []\<rparr>) (example_router sample_store None) =
     Aware_ApplyTx example_env 7 example_tx (example_router sample_store None) \<and>
   (\<exists>pub. hex_decode (PublicKey example_wallet_tx) = Some pub \<and> Sender example_wallet_tx = hex_encode (sha256 pub))"
proof
  show "Aware_ApplyTx example_env 7 (example_tx\<lparr>Signature := ''forged'', PublicKey := []\<rparr>) (example_router sample_store None) =
     Aware_ApplyTx example_env 7 example_tx (example_router sample_store None)"
    using signatures_only_on_two_contracts [where s = "''forged''" and k = "[]" and tx = example_tx and env = example_env and tip = 7 and a = "example_router sample_store None"]
    by (simp add: SignedContractID_def WalletTransferContractID_def)
  show "\<exists>pub. hex_decode (PublicKey example_wallet_tx) = Some pub \<and> Sender example_wallet_tx = hex_encode (sha256 pub)"
    using signatures_only_on_two_contracts [where tx = example_wallet_tx and env = example_env and tip = 0 and a = "example_router (funded (hex_encode (sha256 [1]))) None"]
      example_wallet_applies by (auto simp: example_wallet_tx_def)
qed

end
