(* ===== verification/HalfFloat.thy ===== *)
theory HalfFloat
  imports Float64 Sha256
begin

unbundle bit_operations_syntax

text \<open>
  \<open>pkg/mining/pow/v2/fp16.go\<close> and \<open>fp16_lut.go\<close>: half precision numbers and their conversions from and to
  \<open>float32\<close>, bit by bit as in the code.

  A \<open>float32\<close> is a value of \<open>f32\<close>: a finite one is a sign and a magnitude counted in units of \<open>2 ^ (-149)\<close>, the least
  subnormal. \<open>Float32frombits\<close> and \<open>Float32bits\<close> relate it to its bit pattern. The hardware leaves the payload of a
  computed NaN open; the code folds it with \<open>canonicalizeFP32\<close> before it looks at the bits, and here a NaN has one
  pattern. Arithmetic is the exact result rounded to 24 significant bits, ties to even.

  \<open>half_value\<close> and \<open>half_round\<close> are the reference: the value an FP16 pattern denotes, and rounding to the nearest half
  precision value. The lemmas show that widening is exact, that narrowing is \<open>half_round\<close>, that the two round trip, and
  that the product of two halves is exact, so that a fused multiply-add gives the result of the two separate operations.
\<close>

type_synonym FP16 = u16

definition FP16Qnan :: FP16 where "FP16Qnan = 0x7E00"
definition FP32Qnan :: u32 where "FP32Qnan = 0x7FC00000"

definition FP16_IsNaN :: "FP16 \<Rightarrow> bool" where
  "FP16_IsNaN x = (let exp = x AND 0x7C00; frac = x AND 0x03FF in exp = 0x7C00 \<and> frac \<noteq> 0)"

definition FP16_IsInf :: "FP16 \<Rightarrow> bool" where
  "FP16_IsInf x = (x AND 0x7FFF = 0x7C00)"

definition canonicalizeFP16 :: "FP16 \<Rightarrow> FP16" where
  "canonicalizeFP16 x = (if FP16_IsNaN x then FP16Qnan else x)"

definition canonicalizeFP32 :: "u32 \<Rightarrow> u32" where
  "canonicalizeFP32 bits =
     (let exp = bits AND 0x7F800000; frac = bits AND 0x007FFFFF
      in if exp = 0x7F800000 \<and> frac \<noteq> 0 then FP32Qnan else bits)"

text \<open>A slice that is too short makes \<open>binary.BigEndian.Uint16\<close> panic (\<open>None\<close>).\<close>

fun DecodeFP16BE :: "bytes \<Rightarrow> FP16 option" where
  "DecodeFP16BE (a # b # _) = Some (canonicalizeFP16 (push_bit 8 (ucast a) OR ucast b))"
| "DecodeFP16BE _ = None"

definition EncodeFP16BE :: "FP16 \<Rightarrow> bytes" where
  "EncodeFP16BE x = (let c = canonicalizeFP16 x in [ucast (drop_bit 8 c), ucast c])"

section \<open>Single precision\<close>

datatype f32 = NaN32 | Inf32 bool | Fin32 bool nat

definition Float32frombits :: "u32 \<Rightarrow> f32" where
  "Float32frombits b =
     (let s = (2 ^ 31 \<le> unat b); e = unat b div 2 ^ 23 mod 2 ^ 8; f = unat b mod 2 ^ 23
      in if e = 255 then (if f = 0 then Inf32 s else NaN32)
         else if e = 0 then Fin32 s f
         else Fin32 s ((2 ^ 23 + f) * 2 ^ (e - 1)))"

definition mag_bits :: "nat \<Rightarrow> nat" where
  "mag_bits m = (let e = bit_length m - 24 in e * 2 ^ 23 + m div 2 ^ e)"

fun Float32bits :: "f32 \<Rightarrow> u32" where
  "Float32bits NaN32 = FP32Qnan"
| "Float32bits (Inf32 s) = (if s then 0x80000000 else 0) + 0x7F800000"
| "Float32bits (Fin32 s m) = (if s then 0x80000000 else 0) + of_nat (mag_bits m)"

definition round_single :: "nat \<Rightarrow> nat" where
  "round_single m = (let k = bit_length m - 24 in round_half_even m (2 ^ k) * 2 ^ k)"

text \<open>\<open>f32_of d s z\<close> rounds the magnitude \<open>z / d\<close>, where \<open>d\<close> is a power of two.\<close>

definition round_single_ratio :: "nat \<Rightarrow> nat \<Rightarrow> nat" where
  "round_single_ratio z d = (let k = bit_length (z div d) - 24 in round_half_even z (d * 2 ^ k) * 2 ^ k)"

definition max_single :: nat where "max_single = 2 ^ 277"

definition mk_single :: "bool \<Rightarrow> nat \<Rightarrow> f32" where
  "mk_single s m = (if m \<ge> max_single then Inf32 s else Fin32 s m)"

fun sval :: "bool \<Rightarrow> nat \<Rightarrow> int" where
  "sval s m = (if s then - int m else int m)"

definition f32_add :: "f32 \<Rightarrow> f32 \<Rightarrow> f32" where
  "f32_add x y =
     (case (x, y) of
        (Fin32 s m, Fin32 t n) \<Rightarrow>
          (let z = sval s m + sval t n
           in if z = 0 then Fin32 (s \<and> t) 0 else mk_single (z < 0) (round_single (nat \<bar>z\<bar>)))
      | (NaN32, _) \<Rightarrow> NaN32
      | (_, NaN32) \<Rightarrow> NaN32
      | (Inf32 s, Inf32 t) \<Rightarrow> (if s = t then Inf32 s else NaN32)
      | (Inf32 s, Fin32 _ _) \<Rightarrow> Inf32 s
      | (Fin32 _ _, Inf32 t) \<Rightarrow> Inf32 t)"

definition f32_mul :: "f32 \<Rightarrow> f32 \<Rightarrow> f32" where
  "f32_mul x y =
     (case (x, y) of
        (Fin32 s m, Fin32 t n) \<Rightarrow> mk_single (s \<noteq> t) (round_single_ratio (m * n) (2 ^ 149))
      | (NaN32, _) \<Rightarrow> NaN32
      | (_, NaN32) \<Rightarrow> NaN32
      | (Inf32 s, Inf32 t) \<Rightarrow> Inf32 (s \<noteq> t)
      | (Inf32 s, Fin32 t n) \<Rightarrow> (if n = 0 then NaN32 else Inf32 (s \<noteq> t))
      | (Fin32 s m, Inf32 t) \<Rightarrow> (if m = 0 then NaN32 else Inf32 (s \<noteq> t)))"

section \<open>Conversions\<close>

definition fp16ToFloat32Slow :: "FP16 \<Rightarrow> f32" where
  "fp16ToFloat32Slow x0 =
     (let raw = canonicalizeFP16 x0;
          sign = drop_bit 15 (ucast raw :: u32) AND 0x1;
          exp = drop_bit 10 (ucast raw :: u32) AND 0x1F;
          frac = (ucast raw :: u32) AND 0x3FF;
          out =
            (if exp = 0 then
               (if frac = 0 then push_bit 31 sign
                else let leadPos = bit_length (unat frac) - 1;
                         fracBelow = frac AND (push_bit leadPos 1 - 1);
                         mantissa = push_bit (23 - leadPos) fracBelow;
                         exp32 = 103 + of_nat leadPos
                     in push_bit 31 sign OR push_bit 23 exp32 OR mantissa)
             else if exp = 0x1F then
               (if frac = 0 then push_bit 31 sign OR 0x7F800000 else FP32Qnan)
             else push_bit 31 sign OR push_bit 23 (exp + (127 - 15)) OR push_bit 13 frac)
      in Float32frombits out)"

definition fp16ToFP32LUT :: "f32 list" where
  "fp16ToFP32LUT = map (\<lambda>u. fp16ToFloat32Slow (of_nat u)) [0..<65536]"

definition FP16ToFloat32 :: "FP16 \<Rightarrow> f32" where
  "FP16ToFloat32 x = fp16ToFP32LUT ! unat x"

definition bitEqualFloat32 :: "f32 \<Rightarrow> f32 \<Rightarrow> bool" where
  "bitEqualFloat32 a b = (Float32bits a = Float32bits b)"

text \<open>The self-check of \<open>init\<close>: \<open>False\<close> is the panic at start-up.\<close>

definition lut_selfcheck :: bool where
  "lut_selfcheck = list_all (\<lambda>u. bitEqualFloat32 (fp16ToFP32LUT ! unat u) (fp16ToFloat32Slow u))
     [0x0000, 0x0001, 0x03FF, 0x0400, 0x3C00, 0x3C01, 0x4000, 0x7BFF, 0x7C00, 0x7E00, 0x8000, 0x8001, 0xBC00, 0xC000, 0xFBFF, 0xFC00]"

text \<open>The rounding step: drop \<open>shift\<close> bits, add one on a round bit with a sticky bit or an odd result.\<close>

definition rne_shift :: "u32 \<Rightarrow> nat \<Rightarrow> u32" where
  "rne_shift mant shift =
     (let roundMask = push_bit (shift - 1) 1;
          stickyMask = roundMask - 1;
          roundBit = drop_bit (shift - 1) (mant AND roundMask);
          stickyBit = (if mant AND stickyMask \<noteq> 0 then 1 else 0 :: u32);
          out = drop_bit shift mant
      in if roundBit \<noteq> 0 \<and> (stickyBit \<noteq> 0 \<or> out AND 1 \<noteq> 0) then out + 1 else out)"

definition Float32ToFP16RNE :: "f32 \<Rightarrow> FP16" where
  "Float32ToFP16RNE f =
     (let bits0 = canonicalizeFP32 (Float32bits f);
          sign = (ucast (drop_bit 16 bits0 AND 0x8000) :: u16);
          bits = bits0 AND 0x7FFFFFFF
      in if bits = 0 then sign
         else if bits > 0x7F800000 then FP16Qnan
         else if bits = 0x7F800000 then sign OR 0x7C00
         else if bits \<ge> 0x47800000 then sign OR 0x7C00
         else if bits < 0x33000000 then sign
         else
           let expF32 = drop_bit 23 bits - 127;
               mant = (bits AND 0x007FFFFF) OR 0x00800000;
               shift = (if sint expF32 < -14 then 13 + (-14 - expF32) else 13);
               out = rne_shift mant (unat shift)
           in if sint expF32 < -14 then sign OR ucast out
              else
                let expF16 = (expF32 + 15) + drop_bit 11 out
                in if expF16 \<ge> 0x1F then sign OR 0x7C00
                   else sign OR ucast (push_bit 10 expF16) OR ucast (out AND 0x3FF))"

section \<open>Bit fields\<close>

lemma field_masks:
  "(x :: u32) AND 0x3FF = take_bit 10 x" "x AND 0x1F = take_bit 5 x" "x AND 0x1 = take_bit 1 x"
  "x AND 0x007FFFFF = take_bit 23 x" "x AND 0x7FFFFFFF = take_bit 31 x" "(y :: u16) AND 0x03FF = take_bit 10 y"
  "y AND 0x7FFF = take_bit 15 y"
  by (simp_all add: take_bit_eq_mask mask_eq_exp_minus_1)

lemma unat_bits:
  "unat (take_bit n x) = unat (x :: 'a::len word) mod 2 ^ n" "unat (drop_bit n x) = unat x div 2 ^ n"
  "unat x * 2 ^ n < 2 ^ LENGTH('a) \<Longrightarrow> unat (push_bit n x) = unat x * 2 ^ n"
  by (simp_all only: unsigned_take_bit_eq unsigned_drop_bit_eq unsigned_push_bit_eq)
     (simp_all add: take_bit_eq_mod drop_bit_eq_div push_bit_eq_mult)

lemma nat_or_disjoint:
  fixes a b :: nat
  assumes "a mod 2 ^ n = 0" "b < 2 ^ n"
  shows "a OR b = a + b"
proof -
  have t: "take_bit n a = 0" "take_bit n b = b" using assms by (simp_all add: take_bit_eq_mod)
  have "a AND b = a AND take_bit n b" by (simp add: t)
  also have "\<dots> = take_bit n a AND b" by (simp add: take_bit_eq_mask ac_simps)
  also have "\<dots> = 0" by (simp add: t)
  finally show ?thesis by (simp add: disjunctive_add_eq_or)
qed

lemma or_disjoint:
  "unat a mod 2 ^ n = 0 \<Longrightarrow> unat b < 2 ^ n \<Longrightarrow> unat (a OR b) = unat a + unat (b :: 'a::len word)"
  by (simp add: unsigned_or_eq nat_or_disjoint)

text \<open>What the three fields of a \<open>float32\<close> pattern denote, and what an FP16 pattern denotes.\<close>

definition single_fields :: "bool \<Rightarrow> nat \<Rightarrow> nat \<Rightarrow> f32" where
  "single_fields s e f =
     (if e = 255 then (if f = 0 then Inf32 s else NaN32) else if e = 0 then Fin32 s f else Fin32 s ((2 ^ 23 + f) * 2 ^ (e - 1)))"

definition half_value :: "FP16 \<Rightarrow> f32" where
  "half_value x =
     (let s = (2 ^ 15 \<le> unat x); e = unat x div 2 ^ 10 mod 2 ^ 5; f = unat x mod 2 ^ 10
      in if e = 31 then (if f = 0 then Inf32 s else NaN32)
         else if e = 0 then Fin32 s (f * 2 ^ 125)
         else Fin32 s ((2 ^ 10 + f) * 2 ^ (e - 1) * 2 ^ 125))"

lemma frombits_fields:
  assumes "unat b = s * 2 ^ 31 + e * 2 ^ 23 + f" "s < 2" "e < 2 ^ 8" "f < 2 ^ 23"
  shows "Float32frombits b = single_fields (s = 1) e f"
proof -
  have b: "unat b = f + (s * 2 ^ 8 + e) * 2 ^ 23" using assms(1) by simp
  have "unat b div 2 ^ 23 = s * 2 ^ 8 + e" "unat b mod 2 ^ 23 = f"
    unfolding b using assms(4) by (simp_all only: div_mult_self3 mod_mult_self3 add.commute [of f]) simp_all
  moreover have "2 ^ 31 \<le> unat b \<longleftrightarrow> s = 1" using assms by auto
  ultimately show ?thesis using assms(3) by (simp add: Float32frombits_def single_fields_def Let_def)
qed

lemma unat_fields:
  fixes s e f :: u32
  assumes "unat s < 2" "unat e < 2 ^ 8" "unat f < 2 ^ 23"
  shows "unat (push_bit 31 s OR push_bit 23 e OR f) = unat s * 2 ^ 31 + unat e * 2 ^ 23 + unat f"
proof -
  have p: "unat (push_bit 31 s) = unat s * 2 ^ 31" "unat (push_bit 23 e) = unat e * 2 ^ 23"
    using assms by (simp_all add: unat_bits)
  have "unat (push_bit 23 e OR f) = unat e * 2 ^ 23 + unat f"
    using or_disjoint [of "push_bit 23 e" 23 f] assms(3) by (simp add: p)
  then show ?thesis
    using or_disjoint [of "push_bit 31 s" 31 "push_bit 23 e OR f"] assms by (simp add: p)
qed


lemma and_shifted_mask: "(x :: 'a::len word) AND push_bit k (mask n) = push_bit k (take_bit n (drop_bit k x))"
  by (rule bit_word_eqI) (auto simp: bit_simps)

lemma mask_7C00: "unat (x AND 0x7C00 :: u16) = unat x div 2 ^ 10 mod 2 ^ 5 * 2 ^ 10"
proof -
  have "(0x7C00 :: u16) = push_bit 10 (mask 5)" by (simp add: mask_eq_exp_minus_1)
  then show ?thesis using and_shifted_mask [of x 10 5] by (simp add: unat_bits del: push_bit_numeral)
qed

lemma mask_7F800000: "unat (x AND 0x7F800000 :: u32) = unat x div 2 ^ 23 mod 2 ^ 8 * 2 ^ 23"
proof -
  have "(0x7F800000 :: u32) = push_bit 23 (mask 8)" by (simp add: mask_eq_exp_minus_1)
  then show ?thesis using and_shifted_mask [of x 23 8] by (simp add: unat_bits)
qed

lemma FP16_IsNaN_value: "FP16_IsNaN x \<longleftrightarrow> half_value x = NaN32"
proof -
  have "x AND 0x7C00 = 0x7C00 \<longleftrightarrow> unat x div 2 ^ 10 mod 2 ^ 5 = 31"
    using mask_7C00 [of x] by (simp add: word_unat_eq_iff)
  moreover have "x AND 0x03FF \<noteq> 0 \<longleftrightarrow> unat x mod 2 ^ 10 \<noteq> 0"
    by (simp add: field_masks word_unat_eq_iff unat_bits)
  ultimately show ?thesis by (simp add: FP16_IsNaN_def half_value_def Let_def)
qed

lemma half_value_canonical [simp]: "half_value (canonicalizeFP16 x) = half_value x"
  using FP16_IsNaN_value [of x] by (simp add: canonicalizeFP16_def FP16Qnan_def) (simp add: half_value_def)

lemma bit_length_decomp:
  assumes "0 < n"
  shows "2 ^ (bit_length n - 1) \<le> n" "n = 2 ^ (bit_length n - 1) + n mod 2 ^ (bit_length n - 1)"
proof -
  let ?l = "bit_length n - 1"
  show b: "2 ^ ?l \<le> n" using bit_length_bounds [OF assms] by simp
  have "bit_length n = Suc ?l" using bit_length_bounds(3) [OF assms] by simp
  then have "n < 2 * 2 ^ ?l" using bit_length_bounds(2) [OF assms] by (metis power_Suc)
  then have "n div 2 ^ ?l = 1" using b(1) by (simp add: div_eq_iff_between)
  then show "n = 2 ^ ?l + n mod 2 ^ ?l" using div_mult_mod_eq [of n "2 ^ ?l"] by simp
qed

lemma subnormal_fields:
  assumes "0 < m" "m < 2 ^ 10"
  defines "l \<equiv> bit_length m - 1"
  shows "l < 10" "m mod 2 ^ l * 2 ^ (23 - l) < 2 ^ 23"
    "single_fields s (103 + l) (m mod 2 ^ l * 2 ^ (23 - l)) = Fin32 s (m * 2 ^ 125)"
proof -
  have m: "2 ^ l \<le> m" "m = 2 ^ l + m mod 2 ^ l" using bit_length_decomp [of m] assms by auto
  have "(2 :: nat) ^ l < 2 ^ 10" using m(1) assms(2) by linarith
  then show l: "l < 10" by (rule power_less_imp_less_exp [rotated]) simp
  have p: "(2 :: nat) ^ l * 2 ^ (23 - l) = 2 ^ 23" using l by (simp flip: power_add)
  have "m mod 2 ^ l < 2 ^ l" by simp
  then show "m mod 2 ^ l * 2 ^ (23 - l) < 2 ^ 23" using p by (metis mult_less_mono1 zero_less_numeral zero_less_power)
  have "2 ^ 23 + m mod 2 ^ l * 2 ^ (23 - l) = m * 2 ^ (23 - l)" using p m(2) by (metis add_mult_distrib)
  moreover have "m * 2 ^ (23 - l) * 2 ^ (102 + l) = m * 2 ^ 125"
    using l by (simp only: mult.assoc flip: power_add) simp
  ultimately show "single_fields s (103 + l) (m mod 2 ^ l * 2 ^ (23 - l)) = Fin32 s (m * 2 ^ 125)"
    using l by (simp add: single_fields_def)
qed

lemma slow_is_exact: "fp16ToFloat32Slow x0 = half_value x0"
proof -
  define raw where "raw = canonicalizeFP16 x0"
  define s where "s = drop_bit 15 (ucast raw :: u32) AND 0x1"
  define e where "e = drop_bit 10 (ucast raw :: u32) AND 0x1F"
  define f where "f = (ucast raw :: u32) AND 0x3FF"
  have raw: "unat raw < 2 ^ 16" using unsigned_less [of raw, where 'a = nat] by simp
  have u: "unat (ucast raw :: u32) = unat raw" using raw by (simp add: unsigned_ucast_eq take_bit_nat_eq_self)
  have s: "unat s = unat raw div 2 ^ 15" and e: "unat e = unat raw div 2 ^ 10 mod 2 ^ 5" and f: "unat f = unat raw mod 2 ^ 10"
    using raw by (simp_all add: s_def e_def f_def field_masks unat_bits u and_one_eq unat_mod)
  have lim: "unat s < 2" "unat e < 2 ^ 5" "unat f < 2 ^ 10" using raw by (simp_all add: s e f)
  have sgn: "2 ^ 15 \<le> unat raw \<longleftrightarrow> unat s = 1" using raw by (auto simp add: s div_eq_iff_between)
  have val: "half_value raw = (if unat e = 31 then (if unat f = 0 then Inf32 (unat s = 1) else NaN32)
         else if unat e = 0 then Fin32 (unat s = 1) (unat f * 2 ^ 125)
         else Fin32 (unat s = 1) ((2 ^ 10 + unat f) * 2 ^ (unat e - 1) * 2 ^ 125))"
    unfolding half_value_def Let_def sgn [symmetric] e f ..
  have dec: "Float32frombits (push_bit 31 s OR push_bit 23 e' OR f') = single_fields (unat s = 1) (unat e') (unat f')"
    if "unat e' < 2 ^ 8" "unat f' < 2 ^ 23" for e' f' :: u32
    using frombits_fields [OF unat_fields [OF lim(1) that] lim(1) that] .
  let ?l = "bit_length (unat f) - 1"
  have slow: "fp16ToFloat32Slow x0 = Float32frombits
      (if e = 0 then
         (if f = 0 then push_bit 31 s
          else push_bit 31 s OR push_bit 23 (103 + of_nat ?l) OR push_bit (23 - ?l) (f AND (push_bit ?l 1 - 1)))
       else if e = 0x1F then (if f = 0 then push_bit 31 s OR 0x7F800000 else FP32Qnan)
       else push_bit 31 s OR push_bit 23 (e + (127 - 15)) OR push_bit 13 f)"
    unfolding fp16ToFloat32Slow_def Let_def raw_def [symmetric] s_def [symmetric] e_def [symmetric] f_def [symmetric] ..
  consider "e = 0" "f = 0" | "e = 0" "f \<noteq> 0" | "e = 0x1F" "f = 0" | "e = 0x1F" "f \<noteq> 0" | "e \<noteq> 0" "e \<noteq> 0x1F" by blast
  then have "fp16ToFloat32Slow x0 = half_value raw"
  proof cases
    case 1
    then show ?thesis using dec [of 0 0] by (simp add: slow val single_fields_def)
  next
    case 2
    then have f: "0 < unat f" by (simp add: unat_gt_0)
    note sub = subnormal_fields [OF f lim(3)]
    have below: "unat (push_bit (23 - ?l) (f AND (push_bit ?l 1 - 1))) = unat f mod 2 ^ ?l * 2 ^ (23 - ?l)"
    proof -
      have "f AND (push_bit ?l 1 - 1) = take_bit ?l f"
        by (simp add: take_bit_eq_mask mask_eq_exp_minus_1 push_bit_eq_mult del: One_nat_def)
      moreover have "unat f mod 2 ^ ?l * 2 ^ (23 - ?l) < 2 ^ 32" using sub(2) by simp
      ultimately show ?thesis by (simp add: unat_bits del: One_nat_def)
    qed
    have l: "unat (of_nat ?l :: u32) = ?l" using sub(1) by (simp add: unat_of_nat take_bit_nat_eq_self)
    have "unat (103 + of_nat ?l :: u32) = 103 + ?l" using sub(1) by (subst unat_add_no_wrap) (simp_all add: l del: One_nat_def)
    with below have "Float32frombits (push_bit 31 s OR push_bit 23 (103 + of_nat ?l) OR push_bit (23 - ?l) (f AND (push_bit ?l 1 - 1))) =
        Fin32 (unat s = 1) (unat f * 2 ^ 125)"
      using sub(1,2) by (subst dec) (simp_all only: sub(3), simp_all)
    then show ?thesis using 2 by (simp only: slow val if_True if_False simp_thms) simp
  next
    case 3
    then show ?thesis using dec [of "0xFF" 0] by (simp add: slow val single_fields_def)
  next
    case 4
    then have "unat f \<noteq> 0" by (simp add: unat_eq_0)
    then show ?thesis using 4 by (simp add: slow val single_fields_def FP32Qnan_def Float32frombits_def)
  next
    case 5
    have n: "unat e \<noteq> 0" "unat e \<noteq> 31" using 5 word_unat_eq_iff [of e 31] by (simp_all add: unat_eq_0)
    have e': "unat (e + 112) = unat e + 112" using lim(2) by (subst unat_add_no_wrap) simp_all
    have f': "unat (push_bit 13 f) = unat f * 2 ^ 13" using lim(3) by (subst unat_bits(3)) simp_all
    have "(2 ^ 23 + unat f * 2 ^ 13) * 2 ^ (unat e + 111) = (2 ^ 10 + unat f) * 2 ^ (unat e - 1) * 2 ^ 125"
    proof -
      have m: "unat e + 111 = (unat e - 1) + 112" using n by simp
      have "(2 ^ 23 + unat f * 2 ^ 13) = (2 ^ 10 + unat f) * 2 ^ 13" by simp
      moreover have "(2 :: nat) ^ (unat e + 111) = 2 ^ (unat e - 1) * 2 ^ 112" by (simp only: m power_add)
      ultimately show ?thesis by simp
    qed
    then show ?thesis using dec [of "e + (127 - 15)" "push_bit 13 f"] lim n 5
      by (simp add: slow val e' f' single_fields_def add.commute [of 111])
  qed
  then show ?thesis by (simp add: raw_def)
qed


lemma rne_arith:
  fixes a d :: nat
  assumes "0 < d"
  shows "round_half_even a (2 * d) =
    (if a div d mod 2 \<noteq> 0 \<and> (a mod d \<noteq> 0 \<or> odd (a div (2 * d))) then a div (2 * d) + 1 else a div (2 * d))"
proof -
  have r: "a mod (2 * d) = d * (a div d mod 2) + a mod d" using mod_mult2_eq [of a d 2] by (simp add: mult.commute)
  have l: "a mod d < d" using assms by simp
  consider "a div d mod 2 = 0" | "a div d mod 2 = 1" by linarith
  then show ?thesis
  proof cases
    case 1
    then show ?thesis using l by (simp add: round_half_even_def r)
  next
    case 2
    then show ?thesis using l by (auto simp add: round_half_even_def r Let_def)
  qed
qed

lemma rne_shift_unat:
  assumes "0 < n" "n < 32"
  shows "unat (rne_shift mant n) = round_half_even (unat mant) (2 ^ n)"
proof -
  define k where "k = n - 1"
  have k: "n = Suc k" "k < 31" using assms by (simp_all add: k_def)
  define out where "out = drop_bit n mant"
  have "mant AND push_bit k 1 = push_bit k (take_bit 1 (drop_bit k mant))"
    using and_shifted_mask [of mant k 1] by (simp add: mask_eq_exp_minus_1)
  then have "drop_bit k (mant AND push_bit k 1) = take_bit 1 (drop_bit k mant)"
    using k(2) by (auto intro!: bit_word_eqI simp: bit_simps)
  then have rb: "drop_bit k (mant AND push_bit k 1) \<noteq> 0 \<longleftrightarrow> unat mant div 2 ^ k mod 2 \<noteq> 0"
    by (simp only: word_unat_eq_iff unat_bits) simp
  have "mant AND (push_bit k 1 - 1) = take_bit k mant"
    by (simp add: take_bit_eq_mask mask_eq_exp_minus_1 push_bit_eq_mult)
  then have stb: "mant AND (push_bit k 1 - 1) \<noteq> 0 \<longleftrightarrow> unat mant mod 2 ^ k \<noteq> 0"
    by (simp only: word_unat_eq_iff unat_bits) simp
  have out: "unat out = unat mant div 2 ^ n" by (simp add: out_def unat_bits)
  have ob: "out AND 1 \<noteq> 0 \<longleftrightarrow> odd (unat out)"
    by (simp add: and_one_eq word_unat_eq_iff unat_mod odd_iff_mod_2_eq_one)
  have "(2 :: nat) \<le> 2 ^ n" using assms by (simp add: self_le_power)
  then have "unat out \<le> unat mant div 2" unfolding out by (intro div_le_mono2) simp_all
  then have "unat out < 2 ^ 31" using unat_lt_2p32 [of mant] less_mult_imp_div_less [of "unat mant" "2 ^ 31" 2] by simp
  then have o1: "unat (out + 1) = unat out + 1" by (subst unat_add_no_wrap) simp_all
  have "unat (rne_shift mant n) = (if unat mant div 2 ^ k mod 2 \<noteq> 0 \<and> (unat mant mod 2 ^ k \<noteq> 0 \<or> odd (unat out)) then unat out + 1 else unat out)"
    unfolding rne_shift_def Let_def k_def [symmetric] out_def [symmetric] using rb stb ob o1 by auto
  also have "\<dots> = round_half_even (unat mant) (2 * 2 ^ k)" by (simp add: rne_arith out k(1))
  finally show ?thesis by (simp add: k(1))
qed


section \<open>Bit patterns of single precision numbers\<close>

lemma single_pattern:
  fixes b :: u32
  obtains s e f where "unat b = s * 2 ^ 31 + e * 2 ^ 23 + f" "s < 2" "e < 2 ^ 8" "f < 2 ^ 23"
    "unat b div 2 ^ 23 mod 2 ^ 8 = e" "unat b mod 2 ^ 23 = f"
proof
  let ?s = "unat b div 2 ^ 31" and ?e = "unat b div 2 ^ 23 mod 2 ^ 8" and ?f = "unat b mod 2 ^ 23"
  have "unat b div 2 ^ 23 = unat b div 2 ^ 31 * 2 ^ 8 + ?e"
    using div_mult_mod_eq [of "unat b div 2 ^ 23" "2 ^ 8"] by (simp flip: div_mult2_eq)
  then have "unat b = (?s * 2 ^ 8 + ?e) * 2 ^ 23 + ?f" using div_mult_mod_eq [of "unat b" "2 ^ 23"] by metis
  then show "unat b = ?s * 2 ^ 31 + ?e * 2 ^ 23 + ?f" by (simp add: add_mult_distrib)
  show "?s < 2" using unat_lt_2p32 [of b] less_mult_imp_div_less [of "unat b" 2 "2 ^ 31"] by simp
qed simp_all

lemma bit_length_shifted: "2 ^ w \<le> m \<Longrightarrow> m < 2 ^ Suc w \<Longrightarrow> bit_length (m * 2 ^ k) = Suc (w + k)"
  by (intro bit_length_eqI) (simp_all add: power_add)

lemma mag_bits_fields:
  "f < 2 ^ 23 \<Longrightarrow> mag_bits f = f"
  "f < 2 ^ 23 \<Longrightarrow> 0 < e \<Longrightarrow> mag_bits ((2 ^ 23 + f) * 2 ^ (e - 1)) = e * 2 ^ 23 + f"
proof -
  show "f < 2 ^ 23 \<Longrightarrow> mag_bits f = f" using bit_length_le [of f 23] by (simp add: mag_bits_def)
next
  assume "f < 2 ^ 23" "0 < e"
  then have "bit_length ((2 ^ 23 + f) * 2 ^ (e - 1)) - 24 = e - 1"
    by (subst bit_length_shifted [of 23]) simp_all
  then show "mag_bits ((2 ^ 23 + f) * 2 ^ (e - 1)) = e * 2 ^ 23 + f"
    using \<open>0 < e\<close> by (cases e) (simp_all add: mag_bits_def)
qed

lemma canonicalizeFP32_fields:
  assumes "unat b div 2 ^ 23 mod 2 ^ 8 = e" "unat b mod 2 ^ 23 = f"
  shows "canonicalizeFP32 b = (if e = 255 \<and> f \<noteq> 0 then FP32Qnan else b)"
proof -
  have "b AND 0x7F800000 = 0x7F800000 \<longleftrightarrow> e = 255"
    using mask_7F800000 [of b] assms word_unat_eq_iff [of "b AND 0x7F800000" "0x7F800000"] by simp
  moreover have "b AND 0x007FFFFF = 0 \<longleftrightarrow> f = 0"
    using assms(2) unat_eq_0 [of "take_bit 23 b"] by (simp add: field_masks unat_bits)
  ultimately show ?thesis by (simp add: canonicalizeFP32_def Let_def)
qed

lemma bits_roundtrip: "Float32bits (Float32frombits b) = canonicalizeFP32 b"
proof -
  obtain s e f where b: "unat b = s * 2 ^ 31 + e * 2 ^ 23 + f" "s < 2" "e < 2 ^ 8" "f < 2 ^ 23"
    "unat b div 2 ^ 23 mod 2 ^ 8 = e" "unat b mod 2 ^ 23 = f" by (rule single_pattern)
  have w: "b = of_nat s * 0x80000000 + of_nat (e * 2 ^ 23 + f)"
    using arg_cong [OF b(1), of "of_nat :: nat \<Rightarrow> u32"] by simp
  have s: "of_nat s * 0x80000000 = (if s = 1 then 0x80000000 else 0 :: u32)" using b(2) by (auto simp: less_Suc_eq numeral_2_eq_2)
  consider "e = 255" "f \<noteq> 0" | "e = 255" "f = 0" | "e \<noteq> 255" "0 < e" | "e = 0" by blast
  then have "Float32bits (single_fields (s = 1) e f) = (if e = 255 \<and> f \<noteq> 0 then FP32Qnan else b)"
    by cases (use b(4) s mag_bits_fields(1) [of f] mag_bits_fields(2) [of f e] in \<open>simp_all add: single_fields_def w del: One_nat_def\<close>)
  then show ?thesis using frombits_fields [OF b(1-4)] canonicalizeFP32_fields [OF b(5,6)] by simp
qed


section \<open>Narrowing is rounding to the nearest half\<close>

fun half_round :: "f32 \<Rightarrow> f32" where
  "half_round (Fin32 s m) =
     (let k = max (bit_length m - 11) 125; r = round_half_even m (2 ^ k) * 2 ^ k
      in if r \<ge> 2 ^ 165 then Inf32 s else Fin32 s r)"
| "half_round f = f"

definition half_mag :: "nat \<Rightarrow> nat" where
  "half_mag r = (if r < 2 ^ 10 then r * 2 ^ 125 else (2 ^ 10 + r mod 2 ^ 10) * 2 ^ (r div 2 ^ 10 - 1) * 2 ^ 125)"

lemma half_mag_normal:
  assumes "0 < a" "r < 2 ^ 10"
  shows "half_mag (a * 2 ^ 10 + r) = (2 ^ 10 + r) * 2 ^ (a - 1) * 2 ^ 125"
proof -
  have "2 ^ 10 \<le> a * 2 ^ 10 + r" using assms(1) by (cases a) simp_all
  then show ?thesis using assms(2) by (simp add: half_mag_def)
qed

lemma half_value_finite:
  assumes "unat x = s * 2 ^ 15 + r" "s < 2" "r < 31 * 2 ^ 10"
  shows "half_value x = Fin32 (s = 1) (half_mag r)"
proof -
  have x: "unat x = r + (s * 2 ^ 5) * 2 ^ 10" using assms(1) by simp
  have "unat x div 2 ^ 10 mod 2 ^ 5 = r div 2 ^ 10"
  proof -
    have "unat x div 2 ^ 10 = s * 2 ^ 5 + r div 2 ^ 10" unfolding x by (rule div_mult_self1) simp
    moreover have "r div 2 ^ 10 < 31" using assms(3) by (intro less_mult_imp_div_less) simp
    ultimately show ?thesis by simp
  qed
  moreover have "unat x mod 2 ^ 10 = r mod 2 ^ 10" unfolding x by (rule mod_mult_self1)
  moreover have "2 ^ 15 \<le> unat x \<longleftrightarrow> s = 1" using assms by auto
  moreover have "r div 2 ^ 10 < 31" using assms(3) less_mult_imp_div_less [of r 31 "2 ^ 10"] by simp
  ultimately show ?thesis by (auto simp: half_value_def Let_def half_mag_def div_eq_0_iff not_less)
qed

lemma half_value_inf: "unat x = s * 2 ^ 15 + 0x7C00 \<Longrightarrow> s < 2 \<Longrightarrow> half_value x = Inf32 (s = 1)"
  by (cases "s = 0"; cases "s = 1") (simp_all add: half_value_def)

lemma round_half_even_le: "0 < d \<Longrightarrow> a \<le> q * d \<Longrightarrow> round_half_even a d \<le> q"
  using round_half_even_mono [of a "q * d" d] by (simp add: round_half_even_dvd)

lemma round_half_even_ge: "0 < d \<Longrightarrow> q * d \<le> a \<Longrightarrow> q \<le> round_half_even a d"
  using round_half_even_mono [of "q * d" a d] by (simp add: round_half_even_dvd)

lemma round_half_even_tiny: "2 * a < d \<Longrightarrow> round_half_even a d = 0"
  by (simp add: round_half_even_def)

lemma half_round_tiny: "m < 2 ^ 124 \<Longrightarrow> half_round (Fin32 s m) = Fin32 s 0"
  using bit_length_le [of m 124] by (simp add: max_def round_half_even_tiny)

lemma half_round_huge:
  assumes "2 ^ 165 \<le> m"
  shows "half_round (Fin32 s m) = Inf32 s"
proof -
  have m: "0 < m" using assms by simp
  define w where "w = bit_length m - 1"
  have w: "2 ^ w \<le> m" "m < 2 ^ Suc w" using bit_length_bounds [OF m] by (simp_all add: w_def)
  have "(2::nat) ^ 165 < 2 ^ Suc w" using assms w by linarith
  then have "165 \<le> w" using power_less_imp_less_exp [of "2::nat" 165 "Suc w"] by simp
  then have p: "(2::nat) ^ 10 * 2 ^ (w - 10) = 2 ^ w" by (simp only: power_add [symmetric]) simp
  moreover have k: "max (bit_length m - 11) 125 = w - 10" using \<open>165 \<le> w\<close> by (simp add: w_def)
  moreover have "2 ^ 10 \<le> round_half_even m (2 ^ (w - 10))"
    using w p by (intro round_half_even_ge) simp_all
  ultimately have "2 ^ w \<le> round_half_even m (2 ^ (w - 10)) * 2 ^ (w - 10)"
    using mult_le_mono1 [of "2 ^ 10" "round_half_even m (2 ^ (w - 10))" "2 ^ (w - 10)"] p by simp
  moreover have "(2::nat) ^ 165 \<le> 2 ^ w" using \<open>165 \<le> w\<close> by (rule power_increasing) simp
  ultimately show ?thesis unfolding half_round.simps Let_def k by simp
qed


lemma half_round_subnormal:
  assumes "mant < 2 ^ 24" "2 ^ 23 \<le> mant" "102 \<le> e" "e < 113"
  defines "q \<equiv> round_half_even mant (2 ^ (126 - e))"
  shows "q \<le> 2 ^ 10" "half_round (Fin32 s (mant * 2 ^ (e - 1))) = Fin32 s (half_mag q)"
proof -
  have p: "(2::nat) ^ 24 = 2 ^ (e - 102) * 2 ^ (126 - e)" "(2::nat) ^ 125 = 2 ^ (126 - e) * 2 ^ (e - 1)"
    using assms(3,4) by (simp_all only: power_add [symmetric]) simp_all
  have "q \<le> 2 ^ (e - 102)" unfolding q_def using assms(1) p(1) by (intro round_half_even_le) simp_all
  also have "(2::nat) ^ (e - 102) \<le> 2 ^ 10" using assms(3,4) by (intro power_increasing) simp_all
  finally show q: "q \<le> 2 ^ 10" .
  have "bit_length (mant * 2 ^ (e - 1)) = Suc (23 + (e - 1))" using assms(1,2) by (intro bit_length_shifted) simp_all
  then have k: "max (bit_length (mant * 2 ^ (e - 1)) - 11) 125 = 125" using assms(3,4) by simp
  have r: "round_half_even (mant * 2 ^ (e - 1)) (2 ^ 125) = q" unfolding p(2) q_def by (rule round_half_even_cancel) simp
  have "half_mag q = q * 2 ^ 125" using q by (cases "q = 2 ^ 10") (simp_all add: half_mag_def)
  moreover have "q * 2 ^ 125 < 2 ^ 165" using q by simp
  ultimately show "half_round (Fin32 s (mant * 2 ^ (e - 1))) = Fin32 s (half_mag q)"
    unfolding half_round.simps Let_def k r by simp
qed

lemma half_round_normal:
  assumes "mant < 2 ^ 24" "2 ^ 23 \<le> mant" "113 \<le> e" "e < 143"
  defines "q \<equiv> round_half_even mant (2 ^ 13)"
  defines "e' \<equiv> e - 112 + q div 2 ^ 11"
  shows "2 ^ 10 \<le> q" "q \<le> 2 ^ 11"
    "half_round (Fin32 s (mant * 2 ^ (e - 1))) =
       (if 31 \<le> e' then Inf32 s else Fin32 s (half_mag (e' * 2 ^ 10 + q mod 2 ^ 10)))"
proof -
  show q: "2 ^ 10 \<le> q" "q \<le> 2 ^ 11" unfolding q_def
    using assms(1,2) by (auto intro!: round_half_even_le round_half_even_ge)
  have "bit_length (mant * 2 ^ (e - 1)) = Suc (23 + (e - 1))" using assms(1,2) by (intro bit_length_shifted) simp_all
  then have k: "max (bit_length (mant * 2 ^ (e - 1)) - 11) 125 = e + 12" using assms(3,4) by simp
  have p: "(2::nat) ^ (e + 12) = 2 ^ 13 * 2 ^ (e - 1)" "(2::nat) ^ (e + 12) = 2 ^ (e - 113) * 2 ^ 125" "(2::nat) ^ (e + 12) * 2 = 2 ^ (e - 112) * 2 ^ 125"
    using assms(3) by (simp_all only: power_add [symmetric] power_Suc2 [symmetric]) simp_all
  have r: "round_half_even (mant * 2 ^ (e - 1)) (2 ^ (e + 12)) = q" unfolding p(1) q_def by (rule round_half_even_cancel) simp
  have hr: "half_round (Fin32 s (mant * 2 ^ (e - 1))) = (if 2 ^ 165 \<le> q * 2 ^ (e + 12) then Inf32 s else Fin32 s (q * 2 ^ (e + 12)))"
    unfolding half_round.simps Let_def k r ..
  show "half_round (Fin32 s (mant * 2 ^ (e - 1))) =
       (if 31 \<le> e' then Inf32 s else Fin32 s (half_mag (e' * 2 ^ 10 + q mod 2 ^ 10)))"
  proof (cases "q = 2 ^ 11")
    case True
    have "q * 2 ^ (e + 12) = 2 ^ (e + 23)" by (simp only: True power_add [symmetric]) simp
    moreover have "(2::nat) ^ 165 \<le> 2 ^ (e + 23) \<longleftrightarrow> 165 \<le> e + 23" by (rule power_increasing_iff) simp
    moreover have "e' = e - 111" using assms(3) by (simp add: e'_def True)
    moreover have "half_mag ((e - 111) * 2 ^ 10) = 2 ^ 10 * 2 ^ (e - 112) * 2 ^ 125"
      using assms(3) by (simp add: half_mag_def)
    moreover have "2 ^ 10 * 2 ^ (e - 112) * 2 ^ 125 = (2::nat) ^ (e + 23)" using assms(3) by (simp only: power_add [symmetric]) simp
    ultimately show ?thesis unfolding hr using assms(4) by (simp add: True) linarith
  next
    case False
    then have l: "q < 2 ^ 11" using q(2) by simp
    have "q * 2 ^ (e + 12) < 2 ^ 11 * 2 ^ (e + 12)" using l by simp
    also have "\<dots> = 2 ^ (e + 23)" by (simp only: power_add [symmetric]) simp
    also have "\<dots> \<le> (2::nat) ^ 165" using assms(4) by (intro power_increasing) simp_all
    finally have fin: "q * 2 ^ (e + 12) < 2 ^ 165" .
    have e': "e' = e - 112" using l by (simp add: e'_def)
    have m: "q mod 2 ^ 10 = q - 2 ^ 10" using q(1) l by (simp add: mod_if)
    have "half_mag (e' * 2 ^ 10 + q mod 2 ^ 10) = (2 ^ 10 + (q - 2 ^ 10)) * 2 ^ (e - 113) * 2 ^ 125"
      using assms(3) half_mag_normal [of "e - 112" "q mod 2 ^ 10"] by (simp only: e' m [symmetric]) simp
    then show ?thesis unfolding hr using assms(4) q(1) fin by (simp add: e' p(2) mult.assoc)
  qed
qed


lemma sign_field:
  fixes b :: u32
  assumes "unat b = s * 2 ^ 31 + r" "s < 2" "r < 2 ^ 31"
  shows "unat (ucast (drop_bit 16 b AND 0x8000) :: u16) = s * 2 ^ 15" "unat (b AND 0x7FFFFFFF) = r"
proof -
  have "(0x8000 :: u32) = push_bit 15 (mask 1)" by (simp add: mask_eq_exp_minus_1)
  then have "drop_bit 16 b AND 0x8000 = push_bit 15 (take_bit 1 (drop_bit 15 (drop_bit 16 b)))"
    by (simp only: and_shifted_mask)
  moreover have "unat (take_bit 1 (drop_bit 15 (drop_bit 16 b))) = unat b div 2 ^ 16 div 2 ^ 15 mod 2 ^ 1"
    by (simp only: unat_bits)
  ultimately have "unat (drop_bit 16 b AND 0x8000) = unat b div 2 ^ 16 div 2 ^ 15 mod 2 ^ 1 * 2 ^ 15"
    by (subst \<open>drop_bit 16 b AND 0x8000 = _\<close>, subst unat_bits(3)) simp_all
  also have "unat b div 2 ^ 16 div 2 ^ 15 = unat b div 2 ^ 31" by (simp flip: div_mult2_eq)
  also have "unat b div 2 ^ 31 = s" using assms by simp
  finally have "unat (drop_bit 16 b AND 0x8000) = s * 2 ^ 15" using assms(2) by simp
  moreover have "s * 2 ^ 15 < 2 ^ 16" using assms(2) by simp
  ultimately show "unat (ucast (drop_bit 16 b AND 0x8000) :: u16) = s * 2 ^ 15"
    by (simp add: unsigned_ucast_eq take_bit_nat_eq_self)
  show "unat (b AND 0x7FFFFFFF) = r" using assms by (simp add: field_masks unat_bits)
qed

lemma sign_or:
  assumes "unat (sign :: u16) = s * 2 ^ 15" "unat w < 2 ^ 15"
  shows "unat (sign OR w) = s * 2 ^ 15 + unat w"
  using or_disjoint [of sign 15 w] assms by simp

lemma sint_small: "e < 2 ^ 30 \<Longrightarrow> sint (of_nat e - 127 :: u32) = int e - 127"
proof -
  assume "e < 2 ^ 30"
  then have "int e < 2 ^ 30" by simp
  moreover have "(of_nat e - 127 :: u32) = word_of_int (int e - 127)" by simp
  ultimately show ?thesis by (simp only: signed_of_int) (simp add: signed_take_bit_int_eq_self)
qed

lemma narrow_mid:
  fixes bits :: u32 and sign :: u16
  assumes "unat sign = s * 2 ^ 15" "s < 2" "unat bits = e * 2 ^ 23 + f" "f < 2 ^ 23" "102 \<le> e" "e < 143"
  defines "expF32 \<equiv> drop_bit 23 bits - 127"
    and "mant \<equiv> (bits AND 0x007FFFFF) OR 0x00800000"
  defines "n \<equiv> unat (if sint expF32 < -14 then 13 + (-14 - expF32) else 13)"
  defines "out \<equiv> rne_shift mant n"
  shows "half_value (if sint expF32 < -14 then sign OR ucast out
              else
                let expF16 = (expF32 + 15) + drop_bit 11 out
                in if expF16 \<ge> 0x1F then sign OR 0x7C00
                   else sign OR ucast (push_bit 10 expF16) OR ucast (out AND 0x3FF))
     = half_round (Fin32 (s = 1) ((2 ^ 23 + f) * 2 ^ (e - 1)))"
proof -
  have "unat (drop_bit 23 bits) = e" using assms(3,4) by (simp add: unat_bits)
  then have "drop_bit 23 bits = of_nat e" using word_unat_eq_iff [of "drop_bit 23 bits" "of_nat e"] assms(6) by (simp add: unat_of_nat take_bit_nat_eq_self)
  then have x: "expF32 = of_nat e - 127" by (simp add: expF32_def)
  have sx: "sint expF32 = int e - 127" unfolding x using assms(6) by (intro sint_small) simp
  have "unat (bits AND 0x007FFFFF) = f" using assms(3,4) by (simp add: field_masks unat_bits)
  then have m: "unat mant = 2 ^ 23 + f"
    using or_disjoint [of "0x00800000 :: u32" 23 "bits AND 0x007FFFFF"] assms(4) by (simp add: mant_def or.commute)
  show ?thesis
  proof (cases "e < 113")
    case True
    have "13 + (-14 - expF32) = of_nat (126 - e)" using True by (simp add: x of_nat_diff)
    moreover have "unat (of_nat (126 - e) :: u32) = 126 - e" by (simp only: unat_of_nat) (simp add: take_bit_nat_eq_self)
    ultimately have "unat (13 + (-14 - expF32)) = 126 - e" by simp
    then have n: "n = 126 - e" using True by (simp add: n_def sx)
    have o: "unat out = round_half_even (2 ^ 23 + f) (2 ^ (126 - e))"
      using rne_shift_unat [of n mant] True assms(5) by (simp add: out_def n m)
    have "unat out \<le> 2 ^ 10" using half_round_subnormal(1) [of "2 ^ 23 + f" e] assms(4,5) True by (simp add: o)
    then have "unat (sign OR ucast out) = s * 2 ^ 15 + unat out"
      using sign_or [OF assms(1), of "ucast out"] by (simp add: unsigned_ucast_eq take_bit_nat_eq_self)
    then show ?thesis
      using half_value_finite [of "sign OR ucast out" s "unat out"] \<open>unat out \<le> 2 ^ 10\<close>
        half_round_subnormal(2) [of "2 ^ 23 + f" e "s = 1"] assms(2,4,5) True by (simp add: sx o)
  next
    case False
    then have n: "n = 13" by (simp add: n_def sx)
    have o: "unat out = round_half_even (2 ^ 23 + f) (2 ^ 13)"
      using rne_shift_unat [of n mant] by (simp add: out_def n m)
    have q: "2 ^ 10 \<le> unat out" "unat out \<le> 2 ^ 11"
      using half_round_normal(1,2) [of "2 ^ 23 + f" e] assms(4,6) False by (simp_all add: o)
    define e' where "e' = e - 112 + unat out div 2 ^ 11"
    have "unat (drop_bit 11 out) = unat out div 2 ^ 11" by (simp add: unat_bits)
    moreover have "expF32 + 15 = of_nat (e - 112)" using False by (simp add: x of_nat_diff)
    moreover have "e' < 2 ^ 6" using q(2) assms(6) div_le_mono [OF q(2), of "2 ^ 11"] by (simp add: e'_def)
    ultimately have x16: "unat (expF32 + 15 + drop_bit 11 out) = e'"
      using assms(6) by (subst unat_add_no_wrap) (simp_all add: e'_def unat_of_nat take_bit_nat_eq_self)
    have fr: "unat (out AND 0x3FF) = unat out mod 2 ^ 10" by (simp add: field_masks unat_bits)
    have goal: "half_round (Fin32 (s = 1) ((2 ^ 23 + f) * 2 ^ (e - 1))) =
        (if 31 \<le> e' then Inf32 (s = 1) else Fin32 (s = 1) (half_mag (e' * 2 ^ 10 + unat out mod 2 ^ 10)))"
      unfolding e'_def o using assms(4,6) False by (intro half_round_normal(3)) simp_all
    show ?thesis
    proof (cases "31 \<le> e'")
      case True
      then have "half_value (sign OR 0x7C00) = Inf32 (s = 1)"
        using half_value_inf [of "sign OR 0x7C00" s] sign_or [OF assms(1), of "0x7C00"] assms(2) by simp
      then show ?thesis unfolding goal using True False by (simp add: sx word_le_nat_alt x16)
    next
      case le: False
      let ?w = "ucast (push_bit 10 (expF32 + 15 + drop_bit 11 out)) OR ucast (out AND 0x3FF) :: u16"
      have "unat (push_bit 10 (expF32 + 15 + drop_bit 11 out)) = e' * 2 ^ 10" using le by (subst unat_bits(3)) (simp_all add: x16)
      then have "unat (ucast (push_bit 10 (expF32 + 15 + drop_bit 11 out)) :: u16) = e' * 2 ^ 10"
        using le by (simp add: unsigned_ucast_eq take_bit_nat_eq_self)
      moreover have "unat (ucast (out AND 0x3FF) :: u16) = unat out mod 2 ^ 10"
        by (simp add: unsigned_ucast_eq fr take_bit_nat_eq_self less_trans [OF mod_less_divisor])
      ultimately have w: "unat ?w = e' * 2 ^ 10 + unat out mod 2 ^ 10"
        by (subst or_disjoint [of _ 10]) simp_all
      have "e' * 2 ^ 10 + unat out mod 2 ^ 10 < 31 * 2 ^ 10" using le mod_less_divisor [of "2 ^ 10" "unat out"] by simp
      then have "half_value (sign OR ?w) = Fin32 (s = 1) (half_mag (e' * 2 ^ 10 + unat out mod 2 ^ 10))"
        using half_value_finite [of "sign OR ?w" s "e' * 2 ^ 10 + unat out mod 2 ^ 10"] sign_or [OF assms(1), of ?w] assms(2)
        by (simp add: w)
      then show ?thesis unfolding goal using le False by (simp add: sx word_le_nat_alt x16 or.assoc)
    qed
  qed
qed


lemma narrow_is_half_round: "half_value (Float32ToFP16RNE (Float32frombits b)) = half_round (Float32frombits b)"
proof -
  obtain s e f where b: "unat b = s * 2 ^ 31 + e * 2 ^ 23 + f" "s < 2" "e < 2 ^ 8" "f < 2 ^ 23"
    "unat b div 2 ^ 23 mod 2 ^ 8 = e" "unat b mod 2 ^ 23 = f" by (rule single_pattern)
  define sign where "sign = (ucast (drop_bit 16 b AND 0x8000) :: u16)"
  define bits where "bits = b AND 0x7FFFFFFF"
  have r: "e * 2 ^ 23 + f < 2 ^ 31" using b(3,4) by simp
  have sg: "unat sign = s * 2 ^ 15" and bt: "unat bits = e * 2 ^ 23 + f"
    unfolding sign_def bits_def using sign_field [of b s "e * 2 ^ 23 + f"] b(1,2) r by simp_all
  have cmp: "bits = 0 \<longleftrightarrow> e * 2 ^ 23 + f = 0" "bits > 0x7F800000 \<longleftrightarrow> e * 2 ^ 23 + f > 0x7F800000"
      "bits = 0x7F800000 \<longleftrightarrow> e * 2 ^ 23 + f = 0x7F800000" "bits \<ge> 0x47800000 \<longleftrightarrow> e * 2 ^ 23 + f \<ge> 0x47800000"
      "bits < 0x33000000 \<longleftrightarrow> e * 2 ^ 23 + f < 0x33000000"
    using bt unat_eq_0 [of bits] word_unat_eq_iff [of bits "0x7F800000"] by (simp_all add: word_less_nat_alt word_le_nat_alt)
  have can: "canonicalizeFP32 (canonicalizeFP32 b) = canonicalizeFP32 b" "canonicalizeFP32 0x7FC00000 = 0x7FC00000"
    by (simp_all add: canonicalizeFP32_def FP32Qnan_def Let_def)
  show ?thesis
  proof (cases "e = 255 \<and> f \<noteq> 0")
    case True
    then have "canonicalizeFP32 b = FP32Qnan" using canonicalizeFP32_fields [OF b(5,6)] by simp
    then have "Float32ToFP16RNE (Float32frombits b) = FP16Qnan"
      by (simp add: Float32ToFP16RNE_def bits_roundtrip can FP32Qnan_def Let_def)
    then show ?thesis using True frombits_fields [OF b(1-4)] by (simp add: single_fields_def half_value_def FP16Qnan_def)
  next
    case False
    then have c: "canonicalizeFP32 b = b" using canonicalizeFP32_fields [OF b(5,6)] by auto
    have fb: "Float32frombits b = single_fields (s = 1) e f" using frombits_fields [OF b(1-4)] .
    have z: "half_value sign = Fin32 (s = 1) 0" using half_value_finite [of sign s 0] sg b(2) by (simp add: half_mag_def)
    have i: "half_value (sign OR 0x7C00) = Inf32 (s = 1)"
      using half_value_inf [of "sign OR 0x7C00" s] sign_or [OF sg, of "0x7C00"] b(2) by simp
    note D = Float32ToFP16RNE_def [of "Float32frombits b", unfolded bits_roundtrip can c, unfolded Let_def, folded sign_def bits_def, unfolded cmp]
    consider "e = 255" | "143 \<le> e" "e \<noteq> 255" | "102 \<le> e" "e < 143" | "e < 102" by linarith
    then show ?thesis
    proof cases
      case 1
      then have "Float32ToFP16RNE (Float32frombits b) = sign OR 0x7C00" using False by (simp add: D)
      then show ?thesis using i 1 False by (simp add: fb single_fields_def)
    next
      case 2
      have v: "Float32frombits b = Fin32 (s = 1) ((2 ^ 23 + f) * 2 ^ (e - 1))" using 2 by (simp add: fb single_fields_def)
      have "0x47800000 \<le> e * 2 ^ 23 + f" "e * 2 ^ 23 + f < 0x7F800000" using 2 b(3,4) by simp_all
      then have "Float32ToFP16RNE (Float32frombits b) = sign OR 0x7C00" by (auto simp add: D)
      moreover have "2 ^ 23 * 2 ^ 142 \<le> (2 ^ 23 + f) * 2 ^ (e - 1)" using 2 by (intro mult_le_mono power_increasing) simp_all
      then have "2 ^ 165 \<le> (2 ^ 23 + f) * 2 ^ (e - 1)" by simp
      then have "half_round (Float32frombits b) = Inf32 (s = 1)" unfolding v by (rule half_round_huge)
      ultimately show ?thesis using i by simp
    next
      case 3
      have v: "Float32frombits b = Fin32 (s = 1) ((2 ^ 23 + f) * 2 ^ (e - 1))" using 3 by (simp add: fb single_fields_def)
      have "e * 2 ^ 23 + f \<noteq> 0" "\<not> 0x7F800000 < e * 2 ^ 23 + f" "e * 2 ^ 23 + f \<noteq> 0x7F800000"
          "\<not> 0x47800000 \<le> e * 2 ^ 23 + f" "\<not> e * 2 ^ 23 + f < 0x33000000"
        using 3 b(4) by simp_all
      then show ?thesis using narrow_mid [OF sg b(2) bt b(4) 3] by (simp only: D if_False Let_def v [symmetric])
    next
      case 4
      have "e * 2 ^ 23 + f < 0x33000000" using 4 b(4) by simp
      then have "Float32ToFP16RNE (Float32frombits b) = sign" by (simp add: D)
      moreover have "half_round (Float32frombits b) = Fin32 (s = 1) 0"
      proof (cases "e = 0")
        case True
        then have "Float32frombits b = Fin32 (s = 1) f" by (simp add: fb single_fields_def)
        moreover have "f < 2 ^ 124" using b(4) by simp
        ultimately show ?thesis by (simp only: half_round_tiny)
      next
        case e: False
        have "(2 ^ 23 + f) * 2 ^ (e - 1) < 2 ^ 24 * 2 ^ (e - 1)" using b(4) by simp
        also have "\<dots> \<le> 2 ^ 24 * 2 ^ 100" using 4 by (intro mult_le_mono power_increasing) simp_all
        finally have "(2 ^ 23 + f) * 2 ^ (e - 1) < 2 ^ 124" by simp
        moreover have "Float32frombits b = Fin32 (s = 1) ((2 ^ 23 + f) * 2 ^ (e - 1))" using e 4 by (simp add: fb single_fields_def)
        ultimately show ?thesis by (simp only: half_round_tiny)
      qed
      ultimately show ?thesis using z by simp
    qed
  qed
qed


section \<open>Round trip\<close>

definition half_bits :: "nat \<Rightarrow> nat" where
  "half_bits m = (let e = bit_length m - 11 in e * 2 ^ 10 + m div 2 ^ e)"

lemma half_mag_cases:
  obtains "r < 2 ^ 10" "half_mag r = r * 2 ^ 125"
  | a c where "r = a * 2 ^ 10 + c" "0 < a" "c < 2 ^ 10" "half_mag r = (2 ^ 10 + c) * 2 ^ (a - 1) * 2 ^ 125"
proof (cases "r < 2 ^ 10")
  case True
  then show ?thesis using that(1) by (simp add: half_mag_def)
next
  case False
  then have "0 < r div 2 ^ 10" by (simp add: div_greater_zero_iff)
  then show ?thesis using that(2) [of "r div 2 ^ 10" "r mod 2 ^ 10"] half_mag_normal [of "r div 2 ^ 10" "r mod 2 ^ 10"] by simp
qed

lemma half_mag_inverse: "half_bits (half_mag r div 2 ^ 125) = r"
proof (cases r rule: half_mag_cases)
  case 1
  then show ?thesis using bit_length_le [of r 10] by (simp add: half_bits_def)
next
  case (2 a c)
  have m: "half_mag r div 2 ^ 125 = (2 ^ 10 + c) * 2 ^ (a - 1)" using 2(4) by (simp only: nonzero_mult_div_cancel_right) simp
  have e: "bit_length ((2 ^ 10 + c) * 2 ^ (a - 1)) - 11 = a - 1"
    using 2(3) by (subst bit_length_shifted [of 10]) simp_all
  have "half_bits ((2 ^ 10 + c) * 2 ^ (a - 1)) = (a - 1) * 2 ^ 10 + (2 ^ 10 + c)" unfolding half_bits_def Let_def e by simp
  then show ?thesis using 2(1,2) unfolding m by (cases a) simp_all
qed

lemma half_mag_eq: "half_mag r = half_mag r' \<Longrightarrow> r = r'"
  by (metis half_mag_inverse)

lemma half_round_half_mag:
  assumes "r < 31 * 2 ^ 10"
  shows "half_round (Fin32 s (half_mag r)) = Fin32 s (half_mag r)"
proof -
  define k where "k = max (bit_length (half_mag r) - 11) 125"
  have "\<exists>d. half_mag r = d * 2 ^ k \<and> half_mag r < 2 ^ 165"
  proof (cases r rule: half_mag_cases)
    case 1
    then have "half_mag r < 2 ^ 135" by simp
    then have "bit_length (half_mag r) \<le> 135" by (rule bit_length_le)
    then have "k = 125" by (simp add: k_def)
    then show ?thesis using 1 by auto
  next
    case (2 a c)
    have "a * 2 ^ 10 < 31 * 2 ^ 10" using assms 2(1) by linarith
    then have a: "a \<le> 30" by simp
    have m: "half_mag r = (2 ^ 10 + c) * 2 ^ (a - 1 + 125)" unfolding 2(4) by (simp only: power_add mult.assoc)
    have "bit_length (half_mag r) = Suc (10 + (a - 1 + 125))" unfolding m using 2(3) by (intro bit_length_shifted) simp_all
    then have "k = a - 1 + 125" using 2(2) by (simp add: k_def)
    moreover have "half_mag r < 2 ^ 11 * 2 ^ (a - 1 + 125)" unfolding m using 2(3) by simp
    moreover have "(2::nat) ^ 11 * 2 ^ (a - 1 + 125) \<le> 2 ^ 165"
      using a 2(2) by (simp only: power_add [symmetric]) (rule power_increasing, simp_all)
    ultimately show ?thesis using m less_le_trans by blast
  qed
  then obtain d where d: "half_mag r = d * 2 ^ k" "half_mag r < 2 ^ 165" by blast
  have "round_half_even (half_mag r) (2 ^ k) * 2 ^ k = half_mag r" unfolding d(1) by (simp add: round_half_even_dvd)
  then show ?thesis unfolding half_round.simps Let_def k_def [symmetric] using d(2) by simp
qed

lemma half_pattern:
  fixes x :: FP16
  assumes "\<not> FP16_IsNaN x"
  obtains s r where "unat x = s * 2 ^ 15 + r" "s < 2" "r < 31 * 2 ^ 10" "half_value x = Fin32 (s = 1) (half_mag r)"
  | s where "unat x = s * 2 ^ 15 + 0x7C00" "s < 2" "half_value x = Inf32 (s = 1)"
proof -
  have x: "unat x < 2 ^ 16" using unsigned_less [of x, where 'a = nat] by simp
  define s r where "s = unat x div 2 ^ 15" and "r = unat x mod 2 ^ 15"
  have sr: "unat x = s * 2 ^ 15 + r" "s < 2" "r < 2 ^ 15" using x by (simp_all add: s_def r_def less_mult_imp_div_less)
  show ?thesis
  proof (cases "r < 31 * 2 ^ 10")
    case True
    then show ?thesis using that(1) sr half_value_finite [OF sr(1,2)] by blast
  next
    case False
    have "r div 2 ^ 10 = 31" using False sr(3) by (simp add: div_eq_iff_between)
    have u: "unat x = r + (s * 2 ^ 5) * 2 ^ 10" using sr(1) by simp
    have "unat x div 2 ^ 10 = s * 2 ^ 5 + r div 2 ^ 10" unfolding u by (rule div_mult_self1) simp
    then have "unat x div 2 ^ 10 mod 2 ^ 5 = 31" using \<open>r div 2 ^ 10 = 31\<close> by simp
    moreover have "unat x mod 2 ^ 10 = r mod 2 ^ 10" unfolding u by (rule mod_mult_self1)
    ultimately have "r mod 2 ^ 10 = 0" using assms by (auto simp: FP16_IsNaN_value half_value_def Let_def split: if_splits)
    then have "r = 0x7C00" using \<open>r div 2 ^ 10 = 31\<close> div_mult_mod_eq [of r "2 ^ 10"] by simp
    then show ?thesis using that(2) sr half_value_inf by simp
  qed
qed

lemma half_round_half_value [simp]: "half_round (half_value x) = half_value x"
proof (cases "FP16_IsNaN x")
  case True
  then show ?thesis by (simp add: FP16_IsNaN_value)
next
  case False
  then show ?thesis by (cases x rule: half_pattern) (simp_all only: half_round_half_mag half_round.simps(3))
qed

lemma half_value_inject:
  assumes "half_value x = half_value y" "\<not> FP16_IsNaN x"
  shows "x = y"
proof -
  have "\<not> FP16_IsNaN y" using assms by (simp add: FP16_IsNaN_value)
  from assms(2) this show ?thesis
    by (elim half_pattern) (use assms(1) in \<open>auto simp: word_unat_eq_iff less_Suc_eq numeral_2_eq_2 dest!: half_mag_eq\<close>)
qed

lemma FP16ToFloat32_exact: "FP16ToFloat32 x = half_value x"
proof -
  have "unat x < 65536" using unsigned_less [of x, where 'a = nat] by simp
  then show ?thesis by (simp add: FP16ToFloat32_def fp16ToFP32LUT_def slow_is_exact)
qed

lemma selfcheck_passes: "lut_selfcheck"
  using FP16ToFloat32_exact by (simp add: lut_selfcheck_def bitEqualFloat32_def FP16ToFloat32_def slow_is_exact)

lemma half_value_single: "\<exists>b. half_value x = Float32frombits b"
  using slow_is_exact [of x] by (simp only: fp16ToFloat32Slow_def Let_def) metis

lemma narrow_widen: "Float32ToFP16RNE (FP16ToFloat32 x) = canonicalizeFP16 x"
proof (cases "FP16_IsNaN x")
  case True
  then have "FP16ToFloat32 x = NaN32" by (simp add: FP16ToFloat32_exact FP16_IsNaN_value)
  moreover have "Float32ToFP16RNE NaN32 = FP16Qnan"
    by (simp add: Float32ToFP16RNE_def canonicalizeFP32_def FP32Qnan_def Let_def)
  ultimately show ?thesis using True by (simp add: canonicalizeFP16_def)
next
  case False
  obtain b where "half_value x = Float32frombits b" using half_value_single by blast
  then have "half_value (Float32ToFP16RNE (half_value x)) = half_value x" using narrow_is_half_round [of b] by (metis half_round_half_value)
  then show ?thesis using half_value_inject [of x "Float32ToFP16RNE (half_value x)"] False by (simp add: canonicalizeFP16_def FP16ToFloat32_exact)
qed

section \<open>Products of halves are exact\<close>

definition f32_fma :: "f32 \<Rightarrow> f32 \<Rightarrow> f32 \<Rightarrow> f32" where
  "f32_fma x y c =
     (case (x, y, c) of
        (Fin32 s m, Fin32 t n, Fin32 u k) \<Rightarrow>
          (let z = sval (s \<noteq> t) (m * n) + sval u (k * 2 ^ 149)
           in if z = 0 then Fin32 ((s \<noteq> t) \<and> u) 0 else mk_single (z < 0) (round_single_ratio (nat \<bar>z\<bar>) (2 ^ 149)))
      | (Fin32 _ _, Fin32 _ _, _) \<Rightarrow> c
      | _ \<Rightarrow> f32_add (f32_mul x y) c)"

lemma half_mag_scaled:
  assumes "r < 31 * 2 ^ 10"
  obtains u i where "half_mag r = u * 2 ^ (i + 125)" "u < 2 ^ 11" "i < 30"
proof (cases r rule: half_mag_cases)
  case 1
  then show ?thesis using that [of r 0] by simp
next
  case (2 a c)
  have "a * 2 ^ 10 < 31 * 2 ^ 10" using assms 2(1) by linarith
  then have "a - 1 < 30" using 2(2) by simp
  moreover have "half_mag r = (2 ^ 10 + c) * 2 ^ (a - 1 + 125)" unfolding 2(4) by (simp only: power_add mult.assoc)
  moreover have "2 ^ 10 + c < 2 ^ 11" using 2(3) by simp
  ultimately show ?thesis using that by blast
qed

lemma half_value_scaled:
  assumes "half_value x = Fin32 s m"
  obtains u i where "m = u * 2 ^ (i + 125)" "u < 2 ^ 11" "i < 30"
proof -
  have "\<not> FP16_IsNaN x" using assms by (simp add: FP16_IsNaN_value)
  then obtain r where "r < 31 * 2 ^ 10" "m = half_mag r" using assms by (elim half_pattern) simp_all
  then show ?thesis using half_mag_scaled that by metis
qed

lemma round_single_exact:
  assumes "u < 2 ^ 24"
  shows "round_single (u * 2 ^ k) = u * 2 ^ k"
proof -
  define j where "j = bit_length (u * 2 ^ k) - 24"
  have "u * 2 ^ k < 2 ^ (24 + k)" using assms by (simp add: power_add)
  then have "j \<le> k" using bit_length_le [of "u * 2 ^ k" "24 + k"] by (simp add: j_def)
  then have "u * 2 ^ k = (u * 2 ^ (k - j)) * 2 ^ j" by (simp add: mult.assoc flip: power_add)
  then have "round_half_even (u * 2 ^ k) (2 ^ j) * 2 ^ j = u * 2 ^ k" by (metis round_half_even_dvd zero_less_numeral zero_less_power)
  then show ?thesis unfolding round_single_def Let_def j_def [symmetric] .
qed

lemma round_single_ratio_cancel: "round_single_ratio (z * 2 ^ d) (2 ^ d) = round_single z"
proof -
  have "round_half_even (z * 2 ^ d) (2 ^ d * 2 ^ k) = round_half_even z (2 ^ k)" for k
    using round_half_even_cancel [of "2 ^ d" z "2 ^ k"] by (simp add: mult.commute)
  then show ?thesis by (simp add: round_single_ratio_def round_single_def)
qed

lemma half_product:
  assumes "half_value x = Fin32 s m" "half_value y = Fin32 t n"
  obtains p where "m * n = p * 2 ^ 149" "f32_mul (half_value x) (half_value y) = Fin32 (s \<noteq> t) p" "p < 2 ^ 181"
proof -
  obtain u i where u: "m = u * 2 ^ (i + 125)" "u < 2 ^ 11" "i < 30" using assms(1) by (rule half_value_scaled)
  obtain v j where v: "n = v * 2 ^ (j + 125)" "v < 2 ^ 11" "j < 30" using assms(2) by (rule half_value_scaled)
  define p where "p = u * v * 2 ^ (i + j + 101)"
  have "m * n = (u * v) * (2 ^ (i + 125) * 2 ^ (j + 125))" unfolding u(1) v(1) by (simp only: mult_ac)
  also have "\<dots> = (u * v) * (2 ^ (i + j + 101) * 2 ^ 149)" by (simp only: power_add [symmetric]) (simp add: algebra_simps)
  finally have mn: "m * n = p * 2 ^ 149" by (simp only: p_def mult.assoc)
  have uv: "u * v < 2 ^ 22" using mult_less_le_imp_less [of u "2 ^ 11" v "2 ^ 11"] u(2) v(2) by (cases "v = 0") simp_all
  have "p < 2 ^ 22 * 2 ^ (i + j + 101)" unfolding p_def using uv by simp
  also have "\<dots> \<le> 2 ^ 22 * 2 ^ 159" using u(3) v(3) by (intro mult_le_mono power_increasing) simp_all
  finally have p: "p < 2 ^ 181" by simp
  have "round_single p = p" unfolding p_def using uv by (intro round_single_exact) simp
  then have "f32_mul (half_value x) (half_value y) = mk_single (s \<noteq> t) p"
    unfolding assms f32_mul_def prod.case f32.case mn round_single_ratio_cancel by simp
  moreover have "p < max_single" unfolding max_single_def using p by (rule less_trans) simp
  ultimately show ?thesis using that mn p by (simp add: mk_single_def)
qed

lemma fused_product: "f32_fma (half_value x) (half_value y) c = f32_add (f32_mul (half_value x) (half_value y)) c"
proof (cases "\<exists>s m t n u k. half_value x = Fin32 s m \<and> half_value y = Fin32 t n \<and> c = Fin32 u k")
  case True
  then obtain s m t n u k where h: "half_value x = Fin32 s m" "half_value y = Fin32 t n" "c = Fin32 u k" by blast
  obtain p where p: "m * n = p * 2 ^ 149" "f32_mul (half_value x) (half_value y) = Fin32 (s \<noteq> t) p"
    using h(1,2) by (rule half_product)
  define z where "z = sval (s \<noteq> t) p + sval u k"
  have z: "sval (s \<noteq> t) (m * n) + sval u (k * 2 ^ 149) = z * 2 ^ 149" unfolding p(1) z_def by (auto simp: algebra_simps)
  have "nat \<bar>z * 2 ^ 149\<bar> = nat \<bar>z\<bar> * 2 ^ 149" by (simp add: abs_mult nat_mult_distrib)
  moreover have "z * 2 ^ 149 = 0 \<longleftrightarrow> z = 0" "z * 2 ^ 149 < 0 \<longleftrightarrow> z < 0" by (simp_all add: mult_less_0_iff)
  ultimately show ?thesis
    unfolding p(2) unfolding h f32_fma_def f32_add_def prod.case f32.case z Let_def z_def [symmetric] by (simp only: round_single_ratio_cancel)
next
  case False
  show ?thesis
  proof (cases "\<exists>s m t n. half_value x = Fin32 s m \<and> half_value y = Fin32 t n")
    case True
    then obtain s m t n where h: "half_value x = Fin32 s m" "half_value y = Fin32 t n" by blast
    obtain p where "f32_mul (half_value x) (half_value y) = Fin32 (s \<noteq> t) p" using h by (rule half_product)
    then show ?thesis using False h by (cases c) (simp_all add: f32_fma_def f32_add_def)
  next
    case False
    then show ?thesis by (cases "half_value x"; cases "half_value y") (simp_all add: f32_fma_def)
  qed
qed


section \<open>Results of the arithmetic are single precision values\<close>

definition is_single :: "f32 \<Rightarrow> bool" where
  "is_single f \<longleftrightarrow> (\<exists>b. f = Float32frombits b)"

lemma is_single_fields:
  assumes "e < 2 ^ 8" "f < 2 ^ 23"
  shows "is_single (single_fields s e f)"
proof -
  define k where "k = (if s then 1 else 0 :: nat)"
  let ?n = "k * 2 ^ 31 + e * 2 ^ 23 + f"
  have "?n < 2 ^ 32" using assms by (simp add: k_def)
  then have "unat (of_nat ?n :: u32) = ?n" by (simp only: unat_of_nat) (simp add: take_bit_nat_eq_self)
  then have "Float32frombits (of_nat ?n) = single_fields (k = 1) e f"
    using assms by (intro frombits_fields) (simp_all add: k_def)
  moreover have "(k = 1) = s" by (simp add: k_def)
  ultimately show ?thesis unfolding is_single_def by (intro exI [of _ "of_nat ?n"]) simp
qed

lemma is_single_special [simp]: "is_single NaN32" "is_single (Inf32 s)" "is_single (Fin32 s 0)"
  using is_single_fields [of 255 1 s] is_single_fields [of 255 0 s] is_single_fields [of 0 0 s] by (simp_all add: single_fields_def)

lemma is_single_scaled:
  assumes "u \<le> 2 ^ 24" "u * 2 ^ k < max_single" "u < 2 ^ 23 \<longrightarrow> k = 0"
  shows "is_single (Fin32 s (u * 2 ^ k))"
proof -
  consider "u < 2 ^ 23" | "2 ^ 23 \<le> u" "u < 2 ^ 24" | "u = 2 ^ 24" using assms(1) by linarith
  then show ?thesis
  proof cases
    case 1
    then show ?thesis using is_single_fields [of 0 u s] assms(3) by (simp add: single_fields_def)
  next
    case 2
    have "2 ^ 23 * 2 ^ k \<le> u * 2 ^ k" using 2 by simp
    then have "(2::nat) ^ (23 + k) < 2 ^ 277" using assms(2) unfolding max_single_def power_add by (rule le_less_trans)
    then have "k < 254" using power_less_imp_less_exp [of "2::nat" "23 + k" 277] by simp
    then show ?thesis using is_single_fields [of "Suc k" "u - 2 ^ 23" s] 2 by (simp add: single_fields_def)
  next
    case 3
    have "(2::nat) ^ (24 + k) < 2 ^ 277" using assms(2) by (simp only: 3 max_single_def power_add)
    then have "k < 253" using power_less_imp_less_exp [of "2::nat" "24 + k" 277] by simp
    then show ?thesis using is_single_fields [of "Suc (Suc k)" 0 s] 3 by (simp add: single_fields_def)
  qed
qed

lemma is_single_round [simp]: "is_single (mk_single s (round_single m))"
proof -
  define k where "k = bit_length m - 24"
  define u where "u = round_half_even m (2 ^ k)"
  have r: "round_single m = u * 2 ^ k" by (simp add: round_single_def u_def k_def Let_def)
  have "m \<le> 2 ^ 24 * 2 ^ k"
  proof (cases "m = 0")
    case False
    then have "m < 2 ^ bit_length m" using bit_length_bounds(2) [of m] by simp
    also have "\<dots> \<le> 2 ^ (24 + k)" by (intro power_increasing) (simp_all add: k_def)
    finally show ?thesis by (simp add: power_add)
  qed simp
  then have "u \<le> 2 ^ 24" unfolding u_def by (intro round_half_even_le) simp_all
  moreover have "k = 0" if "u < 2 ^ 23"
  proof (rule ccontr)
    assume "k \<noteq> 0"
    then have m: "bit_length m = Suc (23 + k)" by (simp add: k_def)
    have "0 < m" using m by (cases m) (simp_all add: bit_length_def floorlog_def)
    then have "2 ^ 23 * 2 ^ k \<le> m" using bit_length_bounds(1) [of m] m by (simp add: power_add)
    then have "2 ^ 23 \<le> u" unfolding u_def by (intro round_half_even_ge) simp_all
    then show False using that by simp
  qed
  ultimately show ?thesis using is_single_scaled [of u k s] by (simp add: mk_single_def r)
qed

lemma is_single_add: "is_single x \<Longrightarrow> is_single y \<Longrightarrow> is_single (f32_add x y)"
  by (cases x; cases y) (simp_all add: f32_add_def Let_def)

lemma narrow_single: "is_single f \<Longrightarrow> half_value (Float32ToFP16RNE f) = half_round f"
  using narrow_is_half_round by (auto simp: is_single_def)

lemma is_single_half_product: "is_single (f32_mul (half_value x) (half_value y))"
proof (cases "\<exists>s m t n. half_value x = Fin32 s m \<and> half_value y = Fin32 t n")
  case True
  then obtain s m t n where h: "half_value x = Fin32 s m" "half_value y = Fin32 t n" by blast
  have d: "2 ^ 149 dvd m * n" using h by (rule half_product) simp
  have "f32_mul (half_value x) (half_value y) = mk_single (s \<noteq> t) (round_single (m * n div 2 ^ 149))"
    unfolding h f32_mul_def prod.case f32.case using round_single_ratio_cancel [of "m * n div 2 ^ 149" 149] d by simp
  then show ?thesis by simp
next
  case False
  then show ?thesis by (cases "half_value x"; cases "half_value y") (simp_all add: f32_mul_def)
qed

text \<open>
  C30: Widening an FP16 pattern gives exactly the value it denotes, narrowing is rounding to the nearest half, ties to even, with overflow to
  infinity and gradual underflow, and narrowing after widening gives every pattern back, NaN payloads folded.
\<close>

theorem half_conversions_correct:
  "FP16ToFloat32 x = half_value x \<and> half_value (Float32ToFP16RNE (Float32frombits b)) = half_round (Float32frombits b) \<and>
   Float32ToFP16RNE (FP16ToFloat32 x) = canonicalizeFP16 x"
  using FP16ToFloat32_exact narrow_is_half_round narrow_widen by blast

end
