(* ===== verification/Difficulty.thy ===== *)
theory Difficulty
  imports Prelude
begin

text \<open>
  \<open>pkg/mining/difficulty.go\<close>: difficulty retargeting and the conversions between a difficulty and
  the 256-bit target. A \<open>*big.Int\<close> is an \<open>int option\<close> (\<open>None\<close> is the nil pointer). Block times are
  \<open>int64\<close>, that is 64-bit words read with \<open>sint\<close>; their difference is taken modulo \<open>2 ^ 64\<close>, as the
  code's conversion to \<open>uint64\<close> does, and so is the product of the interval and the block time.
\<close>

definition DefaultRetargetInterval :: u64 where "DefaultRetargetInterval = 1008"
definition MiningTargetBlockTimeSeconds :: u64 where "MiningTargetBlockTimeSeconds = 10"
definition DefaultClampFactor :: int where "DefaultClampFactor = 4"
definition DefaultMinDifficulty :: int where "DefaultMinDifficulty = 2 ^ 16"
definition maxTarget256 :: int where "maxTarget256 = 2 ^ 256 - 1"

record DifficultyAdjusterParams =
  RetargetInterval :: u64
  DTargetBlockTimeSeconds :: u64
  ClampFactor :: int
  MinDifficulty :: "int option"

definition NewDifficultyAdjusterParams :: DifficultyAdjusterParams where
  "NewDifficultyAdjusterParams =
     \<lparr>RetargetInterval = DefaultRetargetInterval,
      DTargetBlockTimeSeconds = MiningTargetBlockTimeSeconds,
      ClampFactor = DefaultClampFactor, MinDifficulty = Some DefaultMinDifficulty\<rparr>"

datatype difficulty_error =
  ErrRetargetIntervalZero | ErrTargetBlockTimeZero | ErrClampFactor int | ErrMinDifficulty
| ErrCurrentDifficulty | ErrEndBeforeStart | ErrDifficultyNotPositive | ErrTargetNotPositive

definition positive_big :: "int option \<Rightarrow> bool" where
  "positive_big x = (case x of None \<Rightarrow> False | Some n \<Rightarrow> 0 < n)"

definition ValidateDifficulty :: "DifficultyAdjusterParams \<Rightarrow> difficulty_error + unit" where
  "ValidateDifficulty p =
     (if RetargetInterval p = 0 then Inl ErrRetargetIntervalZero
      else if DTargetBlockTimeSeconds p = 0 then Inl ErrTargetBlockTimeZero
      else if ClampFactor p < 2 then Inl (ErrClampFactor (ClampFactor p))
      else if \<not> positive_big (MinDifficulty p) then Inl ErrMinDifficulty
      else Inr ())"

definition IsRetargetHeight :: "DifficultyAdjusterParams \<Rightarrow> u64 \<Rightarrow> bool option" where
  "IsRetargetHeight p height =
     (if height = 0 then Some False
      else do { r \<leftarrow> go_mod height (RetargetInterval p); Some (r = 0) })"

definition Retarget ::
  "DifficultyAdjusterParams \<Rightarrow> int option \<Rightarrow> u64 \<Rightarrow> u64 \<Rightarrow> difficulty_error + int" where
  "Retarget p currentDifficulty startTime endTime =
     (case ValidateDifficulty p of
        Inl e \<Rightarrow> Inl e
      | Inr _ \<Rightarrow>
          if \<not> positive_big currentDifficulty then Inl ErrCurrentDifficulty
          else if sint endTime \<le> sint startTime then Inl ErrEndBeforeStart
          else
            let d = the currentDifficulty;
                actual = endTime - startTime;
                target = RetargetInterval p * DTargetBlockTimeSeconds p;
                nxt = d * uint target div uint actual;
                upper = d * ClampFactor p;
                lower = d div ClampFactor p;
                nxt = (if nxt > upper then upper else nxt);
                nxt = (if nxt < lower then lower else nxt);
                nxt = (if nxt < the (MinDifficulty p) then the (MinDifficulty p) else nxt)
            in Inr nxt)"

definition TargetFromDifficulty :: "int option \<Rightarrow> difficulty_error + int" where
  "TargetFromDifficulty difficulty =
     (if \<not> positive_big difficulty then Inl ErrDifficultyNotPositive
      else let quo = maxTarget256 div the difficulty
           in if quo = 0 then Inr 0 else Inr (quo - 1))"

definition DifficultyFromTarget :: "int option \<Rightarrow> difficulty_error + int" where
  "DifficultyFromTarget target =
     (if \<not> positive_big target then Inl ErrTargetNotPositive
      else Inr (maxTarget256 div (the target + 1)))"

section \<open>Lemmas\<close>

lemma positive_big_simps [simp]: "\<not> positive_big None" "positive_big (Some n) = (0 < n)"
  by (simp_all add: positive_big_def)

lemma uint_signed_diff:
  fixes a b :: u64
  assumes "sint b < sint a"
  shows "uint (a - b) = sint a - sint b"
proof -
  have a: "- (2 ^ 63) \<le> sint a" "sint a < 2 ^ 63" and b: "- (2 ^ 63) \<le> sint b" "sint b < 2 ^ 63"
    using sint_ge [of a] sint_lt [of a] sint_ge [of b] sint_lt [of b] by simp_all
  have e: "a - b = word_of_int (sint a - sint b)" by (simp add: wi_hom_syms)
  have "uint (a - b) = (sint a - sint b) mod 2 ^ 64"
    unfolding e by (simp only: uint_word_of_int) simp
  also have "\<dots> = sint a - sint b" using a b assms by (intro mod_pos_pos_trivial) simp_all
  finally show ?thesis .
qed

lemma ValidateDifficulty_ok:
  assumes "ValidateDifficulty p = Inr u"
  shows "RetargetInterval p \<noteq> 0" "DTargetBlockTimeSeconds p \<noteq> 0" "2 \<le> ClampFactor p"
    "\<exists>m. MinDifficulty p = Some m \<and> 0 < m"
  using assms by (auto simp: ValidateDifficulty_def positive_big_def split: if_splits option.splits)

section \<open>Properties\<close>

text \<open>
  C39: retargeting succeeds exactly on valid parameters, a positive difficulty and increasing block
  times. The new difficulty never falls below the floor, changes by at most the clamp factor (up to
  the floor), does not fall when the interval was faster than the target time, does not rise above
  the larger of the old value and the floor when it was slower. The interval is measured exactly,
  without wrap-around, for all \<open>int64\<close> times.
\<close>

theorem retarget_sound:
  assumes valid: "ValidateDifficulty p = Inr ()" and d: "0 < d" and t: "sint st < sint en"
    and m: "MinDifficulty p = Some m"
  defines "actual \<equiv> sint en - sint st"
    and "target \<equiv> uint (RetargetInterval p * DTargetBlockTimeSeconds p)"
  shows "\<exists>n. Retarget p (Some d) st en = Inr n \<and> m \<le> n \<and>
    d div ClampFactor p \<le> n \<and> n \<le> max m (d * ClampFactor p) \<and>
    (actual \<le> target \<longrightarrow> d \<le> n) \<and> (target \<le> actual \<longrightarrow> n \<le> max m d)"
proof -
  define c where "c = ClampFactor p"
  have c: "2 \<le> c" using ValidateDifficulty_ok [OF valid] by (simp add: c_def)
  have a: "0 < actual" "uint (en - st) = actual"
    using t uint_signed_diff [OF t] by (simp_all add: actual_def)
  define x where "x = d * target div actual"
  have up: "d \<le> d * c" and lo: "d div c \<le> d"
    using c d zdiv_mono2 [of d 1 c] by simp_all
  have fast: "actual \<le> target \<longrightarrow> d \<le> x"
    using a d zdiv_mono1 [of "d * actual" "d * target" actual] by (simp add: x_def)
  have slow: "target \<le> actual \<longrightarrow> x \<le> d"
    using a d zdiv_mono1 [of "d * target" "d * actual" actual] by (simp add: x_def)
  define y where "y = (if x > d * c then d * c else x)"
  define z where "z = (if y < d div c then d div c else y)"
  have "Retarget p (Some d) st en = Inr (if z < m then m else z)"
    using valid d t m a(2)
    by (simp add: Retarget_def Let_def target_def x_def y_def z_def c_def)
  moreover have "d div c \<le> d * c" using up lo by linarith
  ultimately show ?thesis
    using up lo fast slow unfolding y_def z_def c_def [symmetric] by (auto simp: max_def)
qed

theorem retarget_sound_witness:
  "\<exists>n. Retarget NewDifficultyAdjusterParams (Some 1000000) 0 10080 = Inr n \<and> 65536 \<le> n \<and> 1000000 \<le> n"
proof -
  have v: "ValidateDifficulty NewDifficultyAdjusterParams = Inr ()"
    by (simp add: ValidateDifficulty_def NewDifficultyAdjusterParams_def DefaultRetargetInterval_def
        MiningTargetBlockTimeSeconds_def DefaultClampFactor_def DefaultMinDifficulty_def)
  have m: "MinDifficulty NewDifficultyAdjusterParams = Some 65536"
    by (simp add: NewDifficultyAdjusterParams_def DefaultMinDifficulty_def)
  show ?thesis
    using retarget_sound [OF v _ _ m, of 1000000 0 10080]
    by (auto simp: NewDifficultyAdjusterParams_def DefaultRetargetInterval_def
        MiningTargetBlockTimeSeconds_def)
qed

text \<open>
  \<open>DifficultyFromTarget\<close> inverts \<open>TargetFromDifficulty\<close> for every difficulty below \<open>2 ^ 128\<close>,
  difficulty 1 included.
\<close>

theorem difficulty_target_roundtrip:
  assumes "0 < d" "d < 2 ^ 128"
  shows "\<exists>t. TargetFromDifficulty (Some d) = Inr t \<and> DifficultyFromTarget (Some t) = Inr d"
proof -
  define q where "q = maxTarget256 div d"
  have "d * d \<le> (2 ^ 128 - 1) * (2 ^ 128 - 1)" using assms by (intro mult_mono) simp_all
  also have "\<dots> \<le> maxTarget256" by (simp add: maxTarget256_def)
  finally have dd: "d * d \<le> maxTarget256" .
  then have q: "d \<le> q" using assms(1) zdiv_mono1 [of "d * d" maxTarget256 d] by (simp add: q_def)
  have r: "maxTarget256 = q * d + maxTarget256 mod d" by (simp add: q_def)
  have r2: "0 \<le> maxTarget256 mod d" "maxTarget256 mod d < d" using assms(1) by simp_all
  have "maxTarget256 div q = d"
    by (rule int_div_pos_eq [of _ _ _ "maxTarget256 mod d"]) (use r r2 q in \<open>auto simp: algebra_simps\<close>)
  moreover have "1 < q"
  proof (rule ccontr)
    assume "\<not> 1 < q"
    with q assms(1) have "q = 1" "d = 1" by linarith+
    then show False by (simp add: q_def maxTarget256_def)
  qed
  ultimately show ?thesis
    using assms(1) by (auto simp: TargetFromDifficulty_def DifficultyFromTarget_def Let_def q_def [symmetric])
qed

theorem difficulty_target_roundtrip_witness:
  "\<exists>t. TargetFromDifficulty (Some 1) = Inr t \<and> DifficultyFromTarget (Some t) = Inr 1"
  using difficulty_target_roundtrip [of 1] by simp

end
