(* ===== verification/PowDag.thy ===== *)
theory PowDag
  imports HalfFloat MiningProof Difficulty
begin

unbundle bit_operations_syntax

text \<open>
  The work of a miner: \<open>pkg/mining/dag.go\<close>, \<open>pow.go\<close>, \<open>solver.go\<close>, the fork heights of \<open>fork.go\<close>, and
  \<open>pkg/mining/pow/v2/matrix.go\<close> and \<open>mixdigest.go\<close>. SHA3-256 and SHAKE256 (\<open>golang.org/x/crypto/sha3\<close>) are the argument
  \<open>Sha3Fns\<close>; \<open>sha3_ok\<close> is what their documentation says of the output lengths. A fixed-size byte array is a byte list.
  The two package-level fork heights are the record \<open>ForkHeights\<close>.

  A \<open>DAG\<close> value is the record of its two methods. \<open>ComputeMixDigest\<close> divides by the size of the DAG: the panic on an empty
  one is \<open>None\<close>. The search loop of \<open>Solve\<close> is a \<open>partial_function\<close>: \<open>None\<close> is a run that does not return (or the panic).
  The context is the argument \<open>cancelled\<close>, its answer at the i-th check; the random start nonce is an argument.
\<close>

record Sha3Fns =
  Sha3_256 :: "bytes \<Rightarrow> bytes"
  Shake256 :: "bytes \<Rightarrow> nat \<Rightarrow> bytes"

definition sha3_ok :: "Sha3Fns \<Rightarrow> bool" where
  "sha3_ok F \<longleftrightarrow> (\<forall>m. length (Sha3_256 F m) = 32) \<and> (\<forall>m n. length (Shake256 F m n) = n)"

fun le_bytes :: "nat \<Rightarrow> nat \<Rightarrow> bytes" where
  "le_bytes 0 n = []"
| "le_bytes (Suc k) n = of_nat (n mod 256) # le_bytes k (n div 256)"

definition le64 :: "u64 \<Rightarrow> bytes" where "le64 x = le_bytes 8 (unat x)"
definition le32 :: "u32 \<Rightarrow> bytes" where "le32 x = le_bytes 4 (unat x)"

fun Uint32BE :: "bytes \<Rightarrow> u32 option" where
  "Uint32BE (a # b # c # d # _) = Some (push_bit 24 (ucast a) OR push_bit 16 (ucast b) OR push_bit 8 (ucast c) OR ucast d)"
| "Uint32BE _ = None"

section \<open>The data set\<close>

datatype dag_error = ErrDAGSize | ErrDAGIndex u32 u32 | errNilDAG | errEmptyDAG

record DAG =
  DAG_N :: u32
  DAG_Get :: "u32 \<Rightarrow> dag_error + bytes"

definition ProductionDAGSize :: u32 where "ProductionDAGSize = push_bit 26 1"

definition dagDomainSeparator :: string where "dagDomainSeparator = ''QSD/mesh3d-pow/v1''"

definition DAGSeed :: "Sha3Fns \<Rightarrow> u64 \<Rightarrow> bytes \<Rightarrow> bytes" where
  "DAGSeed F epoch workSetRoot = Sha3_256 F (bytes_of_string dagDomainSeparator @ le64 epoch @ workSetRoot)"

record InMemoryDAG =
  im_n :: u32
  im_data :: bytes

text \<open>\<open>copy(data[off:], bs)\<close> into the contiguous array, and the slice of 32 bytes of entry \<open>i\<close>.\<close>

definition put_slice :: "nat \<Rightarrow> bytes \<Rightarrow> bytes \<Rightarrow> bytes" where
  "put_slice off bs data = take off data @ bs @ drop (off + length bs) data"

definition entry_slice :: "nat \<Rightarrow> bytes \<Rightarrow> bytes" where
  "entry_slice i data = take 32 (drop (32 * i) data)"

definition fill_entry :: "Sha3Fns \<Rightarrow> bytes \<Rightarrow> nat \<Rightarrow> bytes" where
  "fill_entry F data i = put_slice (32 * i) (Sha3_256 F (entry_slice (i - 1) data @ le32 (of_nat i))) data"

definition NewInMemoryDAG :: "Sha3Fns \<Rightarrow> u64 \<Rightarrow> bytes \<Rightarrow> u32 \<Rightarrow> dag_error + InMemoryDAG" where
  "NewInMemoryDAG F epoch workSetRoot n =
     (if n < 2 then Inl ErrDAGSize
      else let data = put_slice 0 (DAGSeed F epoch workSetRoot) (replicate (32 * unat n) 0)
           in Inr \<lparr>im_n = n, im_data = foldl (fill_entry F) data [1..<unat n]\<rparr>)"

definition InMemoryDAG_Get :: "u32 \<Rightarrow> InMemoryDAG \<Rightarrow> dag_error + bytes" where
  "InMemoryDAG_Get idx d = (if idx \<ge> im_n d then Inl (ErrDAGIndex idx (im_n d)) else Inr (entry_slice (unat idx) (im_data d)))"

definition in_memory :: "InMemoryDAG \<Rightarrow> DAG" where
  "in_memory d = \<lparr>DAG_N = im_n d, DAG_Get = (\<lambda>idx. InMemoryDAG_Get idx d)\<rparr>"

record LazyDAG =
  lz_epoch :: u64
  lz_root :: bytes
  lz_n :: u32
  lz_seed :: bytes
  lz_built :: bool

definition NewLazyDAG :: "u64 \<Rightarrow> bytes \<Rightarrow> u32 \<Rightarrow> dag_error + LazyDAG" where
  "NewLazyDAG epoch workSetRoot n =
     (if n < 2 then Inl ErrDAGSize
      else Inr \<lparr>lz_epoch = epoch, lz_root = workSetRoot, lz_n = n, lz_seed = replicate 32 0, lz_built = False\<rparr>)"

definition LazyDAG_Get :: "Sha3Fns \<Rightarrow> u32 \<Rightarrow> LazyDAG \<Rightarrow> (dag_error + bytes) \<times> LazyDAG" where
  "LazyDAG_Get F idx d =
     (if idx \<ge> lz_n d then (Inl (ErrDAGIndex idx (lz_n d)), d)
      else let d = (if \<not> lz_built d then d\<lparr>lz_seed := DAGSeed F (lz_epoch d) (lz_root d), lz_built := True\<rparr> else d)
           in if idx = 0 then (Inr (lz_seed d), d)
              else (Inr (foldl (\<lambda>cur i. Sha3_256 F (cur @ le32 (of_nat i))) (lz_seed d) [1..<Suc (unat idx)]), d))"

section \<open>The walk over the data set\<close>

definition NumWalkSteps :: nat where "NumWalkSteps = 64"

primrec walk :: "(bytes \<Rightarrow> bytes \<Rightarrow> bytes) \<Rightarrow> DAG \<Rightarrow> nat \<Rightarrow> bytes \<Rightarrow> (dag_error + bytes) option" where
  "walk body dag 0 mix = Some (Inr mix)"
| "walk body dag (Suc k) mix =
     (case Uint32BE mix of None \<Rightarrow> None | Some w \<Rightarrow>
      case go_mod w (DAG_N dag) of None \<Rightarrow> None | Some idx \<Rightarrow>
      case DAG_Get dag idx of Inl e \<Rightarrow> Some (Inl e) | Inr entry \<Rightarrow> walk body dag k (body mix entry))"

definition ComputeMixDigest :: "Sha3Fns \<Rightarrow> bytes \<Rightarrow> bytes \<Rightarrow> DAG \<Rightarrow> (dag_error + bytes) option" where
  "ComputeMixDigest F headerHash nonce dag =
     walk (\<lambda>mix entry. Sha3_256 F (mix @ entry)) dag NumWalkSteps (Sha3_256 F (headerHash @ nonce))"

definition MatrixDomainSeparator :: string where "MatrixDomainSeparator = ''QSD/pow/v2/matrix'' @ [CHR 0x00]"

definition matrixBytes :: nat where "matrixBytes = 16 * 16 * 2"

definition MatrixFromMix :: "Sha3Fns \<Rightarrow> bytes \<Rightarrow> FP16 list list" where
  "MatrixFromMix F mix =
     (let raw = Shake256 F (bytes_of_string MatrixDomainSeparator @ mix) matrixBytes
      in map (\<lambda>i. map (\<lambda>j. the (DecodeFP16BE (take 2 (drop (2 * (16 * i + j)) raw)))) [0..<16]) [0..<16])"

definition VectorFromEntry :: "bytes \<Rightarrow> FP16 list" where
  "VectorFromEntry entry = map (\<lambda>k. the (DecodeFP16BE (take 2 (drop (2 * k) entry)))) [0..<16]"

definition PackFP16VectorBE :: "FP16 list \<Rightarrow> bytes" where
  "PackFP16VectorBE r = concat (map (\<lambda>k. EncodeFP16BE (r ! k)) [0..<16])"

definition TensorMul :: "FP16 list list \<Rightarrow> FP16 list \<Rightarrow> FP16 list" where
  "TensorMul M v =
     (let vf = map (\<lambda>j. FP16ToFloat32 (v ! j)) [0..<16]
      in map (\<lambda>i. Float32ToFP16RNE
           (foldl (\<lambda>acc j. f32_add acc (f32_mul (FP16ToFloat32 (M ! i ! j)) (vf ! j))) (Fin32 False 0) [0..<16])) [0..<16])"

definition tc_body :: "Sha3Fns \<Rightarrow> bytes \<Rightarrow> bytes \<Rightarrow> bytes" where
  "tc_body F mix entry = Sha3_256 F (mix @ entry @ PackFP16VectorBE (TensorMul (MatrixFromMix F mix) (VectorFromEntry entry)))"

definition ComputeMixDigestV2 :: "Sha3Fns \<Rightarrow> bytes \<Rightarrow> bytes \<Rightarrow> DAG option \<Rightarrow> (dag_error + bytes) option" where
  "ComputeMixDigestV2 F headerHash nonce dag =
     (case dag of None \<Rightarrow> Some (Inl errNilDAG)
      | Some dag \<Rightarrow>
          if DAG_N dag = 0 then Some (Inl errEmptyDAG)
          else walk (tc_body F) dag NumWalkSteps (Sha3_256 F (headerHash @ nonce)))"

definition ProofPoWHash :: "Sha3Fns \<Rightarrow> bytes \<Rightarrow> bytes \<Rightarrow> bytes \<Rightarrow> bytes \<Rightarrow> bytes" where
  "ProofPoWHash F headerHash nonce batchRoot mixDigest = Sha3_256 F (headerHash @ nonce @ batchRoot @ mixDigest)"

definition be_int :: "bytes \<Rightarrow> int" where
  "be_int bs = foldl (\<lambda>n b. 256 * n + uint b) 0 bs"

definition MeetsTarget :: "bytes \<Rightarrow> int option \<Rightarrow> bool" where
  "MeetsTarget hash target = (case target of None \<Rightarrow> False | Some t \<Rightarrow> if t \<le> 0 then False else be_int hash < t)"

section \<open>Fork heights\<close>

record ForkHeights =
  forkV2Height :: u64
  forkV2TCHeight :: u64

definition default_forks :: ForkHeights where
  "default_forks = \<lparr>forkV2Height = - 1, forkV2TCHeight = - 1\<rparr>"

definition SetForkV2Height :: "u64 \<Rightarrow> ForkHeights \<Rightarrow> ForkHeights" where "SetForkV2Height h fk = fk\<lparr>forkV2Height := h\<rparr>"
definition SetForkV2TCHeight :: "u64 \<Rightarrow> ForkHeights \<Rightarrow> ForkHeights" where "SetForkV2TCHeight h fk = fk\<lparr>forkV2TCHeight := h\<rparr>"
definition IsV2 :: "ForkHeights \<Rightarrow> u64 \<Rightarrow> bool" where "IsV2 fk height = (height \<ge> forkV2Height fk)"
definition IsV2TC :: "ForkHeights \<Rightarrow> u64 \<Rightarrow> bool" where "IsV2TC fk height = (height \<ge> forkV2TCHeight fk)"

text \<open>The dispatch on the second fork height, written out in both \<open>Solve\<close> and \<open>Verify\<close>; the first walk calls a method of the DAG, which panics on nil.\<close>

definition mix_at :: "Sha3Fns \<Rightarrow> ForkHeights \<Rightarrow> u64 \<Rightarrow> bytes \<Rightarrow> bytes \<Rightarrow> DAG option \<Rightarrow> (dag_error + bytes) option" where
  "mix_at F fk height headerHash nonce dag =
     (if IsV2TC fk height then ComputeMixDigestV2 F headerHash nonce dag
      else case dag of None \<Rightarrow> None | Some d \<Rightarrow> ComputeMixDigest F headerHash nonce d)"

section \<open>The reference solver\<close>

record SolverParams =
  sp_Epoch :: u64
  sp_Height :: u64
  sp_HeaderHash :: bytes
  sp_MinerAddr :: string
  sp_BatchRoot :: bytes
  sp_BatchCount :: u32
  sp_Target :: "int option"
  sp_DAG :: "DAG option"

datatype solve_error = ErrSolverAddr | ErrSolverBatchCount | ErrSolverTarget | ErrSolverDAG | ErrDrawNonce | ErrCancelled | ErrSolverMix dag_error

definition SolverParams_Validate :: "SolverParams \<Rightarrow> solve_error option" where
  "SolverParams_Validate p =
     (if sp_MinerAddr p = [] then Some ErrSolverAddr
      else if sp_BatchCount p = 0 then Some ErrSolverBatchCount
      else if \<not> positive_big (sp_Target p) then Some ErrSolverTarget
      else if (case sp_DAG p of None \<Rightarrow> True | Some d \<Rightarrow> DAG_N d < 2) then Some ErrSolverDAG
      else None)"

record SolveResult =
  sr_Proof :: Proof
  sr_Attempts :: u64

fun incrementNonce :: "bytes \<Rightarrow> bytes" where
  "incrementNonce [] = []"
| "incrementNonce (b # bs) = (let b = b + 1 in if b \<noteq> 0 then b # bs else b # incrementNonce bs)"

definition empty_attestation :: Attestation where
  "empty_attestation = \<lparr>AType = [], BundleBase64 = [], GPUArch = [], ClaimedHashrateHPS = 0, ANonce = replicate 32 0, AIssuedAt = 0\<rparr>"

definition solved_proof :: "SolverParams \<Rightarrow> bytes \<Rightarrow> bytes \<Rightarrow> Proof" where
  "solved_proof p nonce mix =
     \<lparr>PVersion = ProtocolVersion, PEpoch = sp_Epoch p, PHeight = sp_Height p, HeaderHash = sp_HeaderHash p,
      MinerAddr = sp_MinerAddr p, BatchRoot = sp_BatchRoot p, BatchCount = sp_BatchCount p, PNonce = nonce, MixDigest = mix,
      PAttestation = empty_attestation\<rparr>"

partial_function (option) solve_loop ::
    "Sha3Fns \<Rightarrow> ForkHeights \<Rightarrow> (nat \<Rightarrow> bool) \<Rightarrow> SolverParams \<Rightarrow> nat \<Rightarrow> bytes \<Rightarrow> u64 \<Rightarrow> (solve_error + SolveResult) option" where
  "solve_loop F fk cancelled p i nonce attempts =
     (if cancelled i then Some (Inl ErrCancelled)
      else Option.bind (mix_at F fk (sp_Height p) (sp_HeaderHash p) nonce (sp_DAG p)) (\<lambda>r.
        case r of Inl e \<Rightarrow> Some (Inl (ErrSolverMix e))
        | Inr mix \<Rightarrow>
            if MeetsTarget (ProofPoWHash F (sp_HeaderHash p) nonce (sp_BatchRoot p) mix) (sp_Target p)
            then Some (Inr \<lparr>sr_Proof = solved_proof p nonce mix, sr_Attempts = attempts + 1\<rparr>)
            else solve_loop F fk cancelled p (i + 1) (incrementNonce nonce) (attempts + 1)))"

text \<open>\<open>drawn\<close> is the outcome of \<open>rand.Read\<close>.\<close>

definition Solve ::
    "Sha3Fns \<Rightarrow> ForkHeights \<Rightarrow> (nat \<Rightarrow> bool) \<Rightarrow> bytes option \<Rightarrow> SolverParams \<Rightarrow> bytes option \<Rightarrow> (solve_error + SolveResult) option" where
  "Solve F fk cancelled drawn p startNonce =
     (case SolverParams_Validate p of Some e \<Rightarrow> Some (Inl e)
      | None \<Rightarrow>
          case (case startNonce of Some n \<Rightarrow> Some n | None \<Rightarrow> drawn) of None \<Rightarrow> Some (Inl ErrDrawNonce)
          | Some nonce \<Rightarrow> solve_loop F fk cancelled p 0 nonce 0)"

section \<open>Both views of the data set\<close>

text \<open>The hash chain both DAG types implement.\<close>

primrec dag_entry :: "Sha3Fns \<Rightarrow> bytes \<Rightarrow> nat \<Rightarrow> bytes" where
  "dag_entry F seed 0 = seed"
| "dag_entry F seed (Suc i) = Sha3_256 F (dag_entry F seed i @ le32 (of_nat (Suc i)))"

lemma length_put_slice: "off + length bs \<le> length data \<Longrightarrow> length (put_slice off bs data) = length data"
  by (simp add: put_slice_def)

lemma entry_put_same: "length bs = 32 \<Longrightarrow> 32 * i \<le> length data \<Longrightarrow> entry_slice i (put_slice (32 * i) bs data) = bs"
  by (simp add: entry_slice_def put_slice_def)

lemma entry_put_before:
  assumes "j < i" "32 * i \<le> length data"
  shows "entry_slice j (put_slice (32 * i) bs data) = entry_slice j data"
proof -
  have "32 * j + 32 \<le> 32 * i" using assms(1) by simp
  then show ?thesis using assms(2) by (auto simp add: entry_slice_def put_slice_def drop_take min_def)
qed

lemma fill_entries:
  assumes "sha3_ok F" "length data = 32 * n" "entry_slice 0 data = seed" "1 \<le> k" "k \<le> n"
  shows "length (foldl (fill_entry F) data [1..<k]) = 32 * n \<and>
     (\<forall>j<k. entry_slice j (foldl (fill_entry F) data [1..<k]) = dag_entry F seed j)"
  using assms(4,5)
proof (induction k rule: dec_induct)
  case base
  then show ?case using assms(2,3) by simp
next
  case (step k)
  define d where "d = foldl (fill_entry F) data [1..<k]"
  have d: "length d = 32 * n" "\<forall>j<k. entry_slice j d = dag_entry F seed j" using step by (simp_all add: d_def)
  define bs where "bs = Sha3_256 F (entry_slice (k - 1) d @ le32 (of_nat k))"
  have "length bs = 32" using assms(1) by (simp add: bs_def sha3_ok_def)
  moreover have "bs = dag_entry F seed k" using d(2) step by (cases k) (simp_all add: bs_def)
  moreover have "foldl (fill_entry F) data [1..<Suc k] = put_slice (32 * k) bs d"
    using step by (simp add: d_def bs_def fill_entry_def)
  moreover have "32 * k + 32 \<le> 32 * n" using step by simp
  ultimately show ?case
    using d by (auto simp: length_put_slice entry_put_same entry_put_before less_Suc_eq)
qed

lemma lazy_fold: "foldl (\<lambda>cur i. Sha3_256 F (cur @ le32 (of_nat i))) seed [1..<Suc k] = dag_entry F seed k"
  by (induction k) simp_all

text \<open>States of a lazy view of one DAG: whatever was read before, the seed is not built or is the right one.\<close>

definition lazy_ok :: "Sha3Fns \<Rightarrow> u64 \<Rightarrow> bytes \<Rightarrow> u32 \<Rightarrow> LazyDAG \<Rightarrow> bool" where
  "lazy_ok F epoch wsroot n d \<longleftrightarrow> lz_epoch d = epoch \<and> lz_root d = wsroot \<and> lz_n d = n \<and> (lz_built d \<longrightarrow> lz_seed d = DAGSeed F epoch wsroot)"

lemma new_lazy_ok: "NewLazyDAG epoch wsroot n = Inr d \<Longrightarrow> lazy_ok F epoch wsroot n d"
  by (auto simp: NewLazyDAG_def lazy_ok_def split: if_splits)

lemma lazy_get:
  assumes "lazy_ok F epoch wsroot n d"
  shows "fst (LazyDAG_Get F idx d) = (if idx \<ge> n then Inl (ErrDAGIndex idx n) else Inr (dag_entry F (DAGSeed F epoch wsroot) (unat idx)))"
    "lazy_ok F epoch wsroot n (snd (LazyDAG_Get F idx d))"
proof -
  have z: "unat idx = 0 \<longleftrightarrow> idx = 0" by (simp add: unat_eq_0)
  show "fst (LazyDAG_Get F idx d) = (if idx \<ge> n then Inl (ErrDAGIndex idx n) else Inr (dag_entry F (DAGSeed F epoch wsroot) (unat idx)))"
    using assms by (cases "idx = 0") (simp_all add: LazyDAG_Get_def lazy_ok_def Let_def lazy_fold [unfolded One_nat_def] del: upt_Suc)
  show "lazy_ok F epoch wsroot n (snd (LazyDAG_Get F idx d))"
    using assms by (simp add: LazyDAG_Get_def lazy_ok_def Let_def)
qed

lemma in_memory_get:
  assumes "sha3_ok F" "NewInMemoryDAG F epoch wsroot n = Inr d"
  shows "InMemoryDAG_Get idx d = (if idx \<ge> n then Inl (ErrDAGIndex idx n) else Inr (dag_entry F (DAGSeed F epoch wsroot) (unat idx)))"
proof -
  have n: "\<not> n < 2" using assms(2) by (auto simp: NewInMemoryDAG_def split: if_splits)
  define data where "data = put_slice 0 (DAGSeed F epoch wsroot) (replicate (32 * unat n) 0)"
  have d: "d = \<lparr>im_n = n, im_data = foldl (fill_entry F) data [1..<unat n]\<rparr>"
    using assms(2) n by (simp add: NewInMemoryDAG_def data_def)
  have n2: "2 \<le> unat n" using n by (simp add: word_less_nat_alt)
  have s: "length (DAGSeed F epoch wsroot) = 32" using assms(1) by (simp add: DAGSeed_def sha3_ok_def)
  have "length data = 32 * unat n" "entry_slice 0 data = DAGSeed F epoch wsroot"
    using n2 s entry_put_same [of "DAGSeed F epoch wsroot" 0] by (simp_all add: data_def length_put_slice)
  from fill_entries [OF assms(1) this, of "unat n"] n2
  show ?thesis by (auto simp: InMemoryDAG_Get_def d word_le_nat_alt)
qed

fun lazy_reads :: "Sha3Fns \<Rightarrow> LazyDAG \<Rightarrow> u32 list \<Rightarrow> (dag_error + bytes) list" where
  "lazy_reads F d [] = []"
| "lazy_reads F d (i # is) = fst (LazyDAG_Get F i d) # lazy_reads F (snd (LazyDAG_Get F i d)) is"

lemma lazy_reads_agree:
  assumes "sha3_ok F" "NewInMemoryDAG F epoch wsroot n = Inr m" "lazy_ok F epoch wsroot n l"
  shows "lazy_reads F l is = map (DAG_Get (in_memory m)) is"
  using assms(3)
proof (induction "is" arbitrary: l)
  case (Cons i "is")
  then show ?case using lazy_get [OF Cons.prems, of i] in_memory_get [OF assms(1,2), of i] by (simp add: in_memory_def)
qed simp

text \<open>
  The lazy DAG view answers every sequence of reads, errors included, as the fully built one does, whatever its cached seed.
\<close>

theorem dag_views_agree:
  assumes "sha3_ok F" "NewInMemoryDAG F epoch wsroot n = Inr m" "NewLazyDAG epoch wsroot n = Inr l"
  shows "lazy_reads F l is = map (DAG_Get (in_memory m)) is"
  using lazy_reads_agree [OF assms(1,2) new_lazy_ok [OF assms(3)]] .


section \<open>The tensor step\<close>

text \<open>The same loop with a fused multiply-add, which the Go specification lets a compiler use on some architectures.\<close>

definition TensorMul_fused :: "FP16 list list \<Rightarrow> FP16 list \<Rightarrow> FP16 list" where
  "TensorMul_fused M v =
     map (\<lambda>i. Float32ToFP16RNE
        (foldl (\<lambda>acc j. f32_fma (FP16ToFloat32 (M ! i ! j)) (FP16ToFloat32 (v ! j)) acc) (Fin32 False 0) [0..<16])) [0..<16]"

text \<open>The accumulator of a row, over the values the halves denote.\<close>

definition dot_single :: "FP16 list \<Rightarrow> FP16 list \<Rightarrow> f32" where
  "dot_single row v = foldl (\<lambda>acc j. f32_add acc (f32_mul (half_value (row ! j)) (half_value (v ! j)))) (Fin32 False 0) [0..<16]"

lemma f32_add_commute: "f32_add x y = f32_add y x"
  by (cases x; cases y) (auto simp: f32_add_def Let_def add.commute)

lemma TensorMul_dot: "TensorMul M v = map (\<lambda>i. Float32ToFP16RNE (dot_single (M ! i) v)) [0..<16]"
proof -
  have "foldl (\<lambda>acc j. f32_add acc (f32_mul (FP16ToFloat32 (M ! i ! j)) (map (\<lambda>j. FP16ToFloat32 (v ! j)) [0..<16] ! j))) a [0..<16]
      = foldl (\<lambda>acc j. f32_add acc (f32_mul (half_value (M ! i ! j)) (half_value (v ! j)))) a [0..<16]" for i a
    by (rule foldl_cong) (simp_all add: FP16ToFloat32_exact)
  then show ?thesis by (simp add: TensorMul_def dot_single_def Let_def)
qed

lemma is_single_dot: "is_single (dot_single row v)"
proof -
  have "is_single a \<Longrightarrow> is_single (foldl (\<lambda>acc j. f32_add acc (f32_mul (half_value (row ! j)) (half_value (v ! j)))) a js)" for a js
    by (induction js arbitrary: a) (simp_all add: is_single_add is_single_half_product)
  then show ?thesis by (simp add: dot_single_def)
qed

lemma fused_dot: "foldl (\<lambda>acc j. f32_fma (FP16ToFloat32 (row ! j)) (FP16ToFloat32 (v ! j)) acc) (Fin32 False 0) [0..<16] = dot_single row v"
  unfolding dot_single_def by (rule foldl_cong) (simp_all add: FP16ToFloat32_exact fused_product f32_add_commute)

text \<open>
  C29: Every output element of the tensor step is the half nearest to the single precision dot product, and a compiler that fuses the
  multiplication with the addition computes the same vector.
\<close>

theorem tensor_step_is_portable:
  "TensorMul_fused M v = TensorMul M v \<and> map half_value (TensorMul M v) = map (\<lambda>i. half_round (dot_single (M ! i) v)) [0..<16]"
proof
  show "TensorMul_fused M v = TensorMul M v" unfolding TensorMul_dot TensorMul_fused_def fused_dot ..
  show "map half_value (TensorMul M v) = map (\<lambda>i. half_round (dot_single (M ! i) v)) [0..<16]"
    by (simp add: TensorMul_dot narrow_single is_single_dot comp_def del: upt_Suc)
qed

section \<open>Packing\<close>

lemma DecodeEncode: "DecodeFP16BE (EncodeFP16BE x @ rest) = Some (canonicalizeFP16 x)"
proof -
  have idem: "canonicalizeFP16 (canonicalizeFP16 x) = canonicalizeFP16 x"
    by (simp add: canonicalizeFP16_def FP16_IsNaN_def FP16Qnan_def)
  have "push_bit 8 (ucast (ucast (drop_bit 8 c) :: u8)) OR ucast (ucast c :: u8) = c" for c :: u16
    by (rule bit_word_eqI) (auto simp: bit_simps)
  then show ?thesis by (simp add: EncodeFP16BE_def Let_def idem)
qed

lemma length_Encode [simp]: "length (EncodeFP16BE x) = 2"
  by (simp add: EncodeFP16BE_def Let_def)

lemma pack_unpack:
  assumes "length r = 16"
  shows "VectorFromEntry (PackFP16VectorBE r) = map canonicalizeFP16 r"
proof -
  have d: "drop (2 * k) (concat (map (\<lambda>k. EncodeFP16BE (f k)) [0..<n])) = concat (map (\<lambda>k. EncodeFP16BE (f k)) [k..<n])" if "k \<le> n" for k n and f :: "nat \<Rightarrow> FP16"
    using that
  proof (induction k)
    case (Suc k)
    then have "drop (2 * Suc k) (concat (map (\<lambda>k. EncodeFP16BE (f k)) [0..<n])) = drop 2 (concat (map (\<lambda>k. EncodeFP16BE (f k)) [k..<n]))"
      by (simp flip: Suc.IH)
    then show ?case using Suc.prems by (simp add: upt_conv_Cons)
  qed simp
  have "DecodeFP16BE (take 2 (drop (2 * k) (PackFP16VectorBE r))) = Some (canonicalizeFP16 (r ! k))" if "k < 16" for k
  proof -
    have "drop (2 * k) (PackFP16VectorBE r) = EncodeFP16BE (r ! k) @ concat (map (\<lambda>k. EncodeFP16BE (r ! k)) [Suc k..<16])"
      unfolding PackFP16VectorBE_def using that d [of k 16 "(!) r"] by (simp only: upt_conv_Cons [OF that] list.map concat.simps)
    then show ?thesis using DecodeEncode [of "r ! k" "[]"] by simp
  qed
  then have "VectorFromEntry (PackFP16VectorBE r) = map (\<lambda>k. canonicalizeFP16 (r ! k)) [0..<16]"
    by (simp add: VectorFromEntry_def del: upt_Suc)
  also have "\<dots> = map canonicalizeFP16 r" using assms by (intro nth_equalityI) simp_all
  finally show ?thesis .
qed


section \<open>The search\<close>

definition le_nat :: "bytes \<Rightarrow> nat" where
  "le_nat bs = foldr (\<lambda>b n. unat b + 256 * n) bs 0"

lemma le_nat_simps [simp]: "le_nat [] = 0" "le_nat (b # bs) = unat b + 256 * le_nat bs"
  by (simp_all add: le_nat_def)

lemma le_nat_less: "le_nat bs < 256 ^ length bs"
proof (induction bs)
  case (Cons b bs)
  have "unat b < 256" using unsigned_less [of b, where 'a = nat] by simp
  then show ?case using Cons by simp
qed simp

lemma le_nat_inject: "length as = length bs \<Longrightarrow> le_nat as = le_nat bs \<Longrightarrow> as = bs"
proof (induction as bs rule: list_induct2)
  case (Cons a as b bs)
  have "unat a < 256" "unat b < 256" using unsigned_less [of a, where 'a = nat] unsigned_less [of b, where 'a = nat] by simp_all
  then have "unat a = unat b \<and> le_nat as = le_nat bs" 
    using arg_cong [OF Cons.prems, of "\<lambda>n. n mod 256"] arg_cong [OF Cons.prems, of "\<lambda>n. n div 256"] by simp
  then show ?case using Cons.IH word_unat_eq_iff [of a b] by simp
qed simp

lemma length_incrementNonce [simp]: "length (incrementNonce bs) = length bs"
  by (induction bs) (simp_all add: Let_def)

lemma incrementNonce_succ: "le_nat (incrementNonce bs) = (le_nat bs + 1) mod 256 ^ length bs"
proof (induction bs)
  case (Cons b bs)
  have b: "unat b < 256" using unsigned_less [of b, where 'a = nat] by simp
  have b1: "unat (b + 1) = (unat b + 1) mod 256" by (simp add: unat_word_ariths)
  show ?case
  proof (cases "b + 1 = 0")
    case True
    then have "(unat b + 1) mod 256 = 0" using b1 by simp
    then have "unat b = 255" using b by (cases "unat b = 255") simp_all
    then show ?thesis using True Cons mod_mult_mult1 [of 256 "le_nat bs + 1" "256 ^ length bs"] by (simp add: Let_def)
  next
    case False
    then have "unat (b + 1) \<noteq> 0" by (simp add: unat_eq_0)
    then have "unat b \<noteq> 255" using b1 by auto
    then have "unat (b + 1) = unat b + 1" using b b1 by simp
    moreover have "unat b + 1 + 256 * le_nat bs < 256 ^ length (b # bs)"
      using le_nat_less [of bs] b \<open>unat b \<noteq> 255\<close> by simp
    ultimately show ?thesis using False by (simp add: Let_def)
  qed
qed simp

lemma iterate_nonce:
  "length ((incrementNonce ^^ i) bs) = length bs" "le_nat ((incrementNonce ^^ i) bs) = (le_nat bs + i) mod 256 ^ length bs"
proof -
  show l: "length ((incrementNonce ^^ i) bs) = length bs" for i by (induction i) simp_all
  show "le_nat ((incrementNonce ^^ i) bs) = (le_nat bs + i) mod 256 ^ length bs"
    by (induction i) (simp_all add: incrementNonce_succ l le_nat_less mod_simps)
qed

text \<open>Counting up from any nonce reaches every other nonce of that length.\<close>

lemma nonce_reachable:
  assumes "length n = length bs"
  shows "\<exists>i < 256 ^ length bs. (incrementNonce ^^ i) bs = n"
proof -
  let ?m = "256 ^ length bs :: nat"
  let ?i = "(le_nat n + ?m - le_nat bs) mod ?m"
  have "le_nat bs + (le_nat n + ?m - le_nat bs) = le_nat n + ?m" using le_nat_less [of bs] by simp
  then have "le_nat ((incrementNonce ^^ ?i) bs) = le_nat n"
    using le_nat_less [of n] assms by (simp add: iterate_nonce mod_simps)
  then have "(incrementNonce ^^ ?i) bs = n" using assms by (intro le_nat_inject) (simp_all add: iterate_nonce)
  moreover have "?i < ?m" by simp
  ultimately show ?thesis by blast
qed


definition dag_total :: "DAG \<Rightarrow> bool" where
  "dag_total d \<longleftrightarrow> 2 \<le> DAG_N d \<and> (\<forall>idx. idx < DAG_N d \<longrightarrow> (\<exists>e. DAG_Get d idx = Inr e \<and> length e = 32))"

lemma length_dag_entry: "sha3_ok F \<Longrightarrow> length seed = 32 \<Longrightarrow> length (dag_entry F seed i) = 32"
  by (cases i) (simp_all add: sha3_ok_def)

lemma in_memory_total:
  assumes "sha3_ok F" "NewInMemoryDAG F epoch wsroot n = Inr m"
  shows "dag_total (in_memory m)"
proof -
  have "2 \<le> n" "im_n m = n" using assms(2) by (auto simp: NewInMemoryDAG_def Let_def split: if_splits)
  moreover have "length (DAGSeed F epoch wsroot) = 32" using assms(1) by (simp add: DAGSeed_def sha3_ok_def)
  ultimately show ?thesis
    using in_memory_get [OF assms] length_dag_entry [OF assms(1)] by (auto simp: dag_total_def in_memory_def not_le)
qed

lemma walk_total:
  assumes "dag_total d" "\<forall>mix e. length (body mix e) = 32" "length mix = 32"
  shows "\<exists>out. walk body d k mix = Some (Inr out) \<and> length out = 32"
  using assms(3)
proof (induction k arbitrary: mix)
  case (Suc k)
  obtain w where w: "Uint32BE mix = Some w" using Suc.prems by (cases mix rule: Uint32BE.cases) auto
  have n: "DAG_N d \<noteq> 0" using assms(1) by (auto simp: dag_total_def)
  then have "w mod DAG_N d < DAG_N d" by (simp add: word_mod_less_divisor word_gt_0)
  then obtain x where "DAG_Get d (w mod DAG_N d) = Inr x" using assms(1) by (auto simp: dag_total_def)
  then show ?case using Suc.IH [of "body mix x"] assms(2) n w by simp
qed simp

lemma mix_total:
  assumes "sha3_ok F" "dag_total d"
  shows "\<exists>mix. mix_at F fk h hh nonce (Some d) = Some (Inr mix) \<and> length mix = 32"
proof -
  have s: "length (Sha3_256 F m) = 32" for m using assms(1) by (simp add: sha3_ok_def)
  have "DAG_N d \<noteq> 0" using assms(2) by (auto simp: dag_total_def)
  then show ?thesis
    using walk_total [OF assms(2), of "\<lambda>mix entry. Sha3_256 F (mix @ entry)"] walk_total [OF assms(2), of "tc_body F"]
    by (simp add: mix_at_def ComputeMixDigest_def ComputeMixDigestV2_def tc_body_def s)
qed

definition hit :: "Sha3Fns \<Rightarrow> ForkHeights \<Rightarrow> SolverParams \<Rightarrow> bytes \<Rightarrow> bytes \<Rightarrow> bool" where
  "hit F fk p nonce mix \<longleftrightarrow> mix_at F fk (sp_Height p) (sp_HeaderHash p) nonce (sp_DAG p) = Some (Inr mix) \<and>
     MeetsTarget (ProofPoWHash F (sp_HeaderHash p) nonce (sp_BatchRoot p) mix) (sp_Target p)"

lemma solve_loop_miss:
  assumes "sha3_ok F" "sp_DAG p = Some d" "dag_total d" "\<not> cancelled i" "\<nexists>mix. hit F fk p nonce mix"
  shows "solve_loop F fk cancelled p i nonce a = solve_loop F fk cancelled p (i + 1) (incrementNonce nonce) (a + 1)"
proof -
  obtain mix where "mix_at F fk (sp_Height p) (sp_HeaderHash p) nonce (Some d) = Some (Inr mix)" using mix_total [OF assms(1,3)] by blast
  then show ?thesis using assms(2,4,5) by (subst solve_loop.simps) (auto simp: hit_def)
qed

lemma solve_loop_hit: "\<not> cancelled i \<Longrightarrow> hit F fk p nonce mix \<Longrightarrow>
    solve_loop F fk cancelled p i nonce a = Some (Inr \<lparr>sr_Proof = solved_proof p nonce mix, sr_Attempts = a + 1\<rparr>)"
  by (subst solve_loop.simps) (auto simp: hit_def)

lemma solve_loop_skip:
  assumes "sha3_ok F" "sp_DAG p = Some d" "dag_total d"
    and "\<forall>j<k. \<not> cancelled (i + j) \<and> (\<nexists>mix. hit F fk p ((incrementNonce ^^ j) nonce) mix)"
  shows "solve_loop F fk cancelled p i nonce a = solve_loop F fk cancelled p (i + k) ((incrementNonce ^^ k) nonce) (a + of_nat k)"
  using assms(4)
proof (induction k)
  case (Suc k)
  then show ?case using solve_loop_miss [OF assms(1-3), of cancelled "i + k" fk "(incrementNonce ^^ k) nonce" "a + of_nat k"]
    by (simp add: add_ac)
qed simp

text \<open>
  C28: If any of the \<open>2 ^ 128\<close> nonces meets the target, a search that is not cancelled returns, with the first such nonce in counting
  order from the start nonce and the number of attempts it took.
\<close>

theorem solver_finds_first_nonce:
  assumes "sha3_ok F" "SolverParams_Validate p = None" "sp_DAG p = Some d" "dag_total d"
    and "length start = 16" "length n = 16" "hit F fk p n mix" "\<forall>i. \<not> cancelled i"
  shows "\<exists>i m. i < 2 ^ 128 \<and> hit F fk p ((incrementNonce ^^ i) start) m \<and>
     (\<forall>j<i. \<nexists>m. hit F fk p ((incrementNonce ^^ j) start) m) \<and>
     Solve F fk cancelled drawn p (Some start) =
       Some (Inr \<lparr>sr_Proof = solved_proof p ((incrementNonce ^^ i) start) m, sr_Attempts = of_nat (i + 1)\<rparr>)"
proof -
  let ?P = "\<lambda>i. \<exists>m. hit F fk p ((incrementNonce ^^ i) start) m"
  obtain k where k: "k < 256 ^ length start" "(incrementNonce ^^ k) start = n" using nonce_reachable [of n start] assms(5,6) by auto
  define i where "i = (LEAST i. ?P i)"
  have P: "?P k" using k(2) assms(7) by blast
  then have "?P i" unfolding i_def by (rule LeastI)
  then obtain m where m: "hit F fk p ((incrementNonce ^^ i) start) m" by blast
  have least: "\<forall>j<i. \<nexists>m. hit F fk p ((incrementNonce ^^ j) start) m" unfolding i_def using not_less_Least by blast
  have "i \<le> k" unfolding i_def using P by (rule Least_le)
  then have "i < 2 ^ 128" using k(1) assms(5) by simp
  moreover have "Solve F fk cancelled drawn p (Some start) =
       Some (Inr \<lparr>sr_Proof = solved_proof p ((incrementNonce ^^ i) start) m, sr_Attempts = of_nat (i + 1)\<rparr>)"
    using solve_loop_skip [OF assms(1,3,4), of i cancelled 0 fk start 0] least assms(8)
      solve_loop_hit [of cancelled i F fk p "(incrementNonce ^^ i) start" m "of_nat i"] m assms(2)
    by (simp add: Solve_def)
  ultimately show ?thesis using m least by blast
qed


lemma cancelled_search:
  assumes "sha3_ok F" "SolverParams_Validate p = None" "sp_DAG p = Some d" "dag_total d" "cancelled i"
    and "\<forall>j<i. \<not> cancelled j \<and> (\<nexists>m. hit F fk p ((incrementNonce ^^ j) start) m)"
  shows "Solve F fk cancelled drawn p (Some start) = Some (Inl ErrCancelled)"
  using solve_loop_skip [OF assms(1,3,4), of i cancelled 0 fk start 0] assms(2,5,6)
  by (simp add: Solve_def) (subst solve_loop.simps, simp)

lemma invalid_params: "SolverParams_Validate p = Some e \<Longrightarrow> Solve F fk cancelled drawn p n = Some (Inl e)"
  by (simp add: Solve_def)

section \<open>An example\<close>

definition sample_sha3 :: Sha3Fns where
  "sample_sha3 = \<lparr>Sha3_256 = sha256, Shake256 = (\<lambda>m n. replicate n 0)\<rparr>"

lemma sample_sha3_ok: "sha3_ok sample_sha3"
  by (simp add: sha3_ok_def sample_sha3_def)

lemma be_int_less: "be_int bs < 256 ^ length bs"
proof -
  have "foldl (\<lambda>n b. 256 * n + uint b) k bs < (k + 1) * 256 ^ length bs" for k
  proof (induction bs arbitrary: k)
    case (Cons b bs)
    have "uint b < 256" using uint_lt2p [of b] by simp
    then have "256 * k + uint b + 1 \<le> (k + 1) * 256" by simp
    then have "(256 * k + uint b + 1) * 256 ^ length bs \<le> (k + 1) * 256 * 256 ^ length bs" by (rule mult_right_mono) simp
    with Cons [of "256 * k + uint b"] have
      "foldl (\<lambda>n b. 256 * n + uint b) (256 * k + uint b) bs < (k + 1) * 256 * 256 ^ length bs" by (rule less_le_trans)
    then show ?case by (simp add: algebra_simps)
  qed simp
  from this [of 0] show ?thesis by (simp add: be_int_def)
qed

definition sample_dag :: DAG where
  "sample_dag = in_memory (projr (NewInMemoryDAG sample_sha3 0 (replicate 32 0) 4))"

lemma sample_dag_built: "NewInMemoryDAG sample_sha3 0 (replicate 32 0) 4 = Inr (projr (NewInMemoryDAG sample_sha3 0 (replicate 32 0) 4))"
  by (simp add: NewInMemoryDAG_def Let_def)

lemma sample_dag_total: "dag_total sample_dag"
  unfolding sample_dag_def by (rule in_memory_total [OF sample_sha3_ok sample_dag_built])

definition sample_search :: SolverParams where
  "sample_search = \<lparr>sp_Epoch = 0, sp_Height = 3, sp_HeaderHash = replicate 32 7, sp_MinerAddr = ''alice'', sp_BatchRoot = replicate 32 1,
     sp_BatchCount = 1, sp_Target = Some (2 ^ 256), sp_DAG = Some sample_dag\<rparr>"

lemma sample_search_valid: "SolverParams_Validate sample_search = None"
  using sample_dag_total by (simp add: SolverParams_Validate_def sample_search_def positive_big_def dag_total_def not_less)

lemma sample_hit: "\<exists>mix. hit sample_sha3 default_forks sample_search nonce mix"
proof -
  obtain mix where "mix_at sample_sha3 default_forks 3 (replicate 32 7) nonce (Some sample_dag) = Some (Inr mix)"
    using mix_total [OF sample_sha3_ok sample_dag_total] by blast
  moreover have "be_int (ProofPoWHash sample_sha3 (replicate 32 7) nonce (replicate 32 1) mix) < 2 ^ 256"
    using be_int_less [of "ProofPoWHash sample_sha3 (replicate 32 7) nonce (replicate 32 1) mix"]
    by (simp add: ProofPoWHash_def sample_sha3_def)
  ultimately show ?thesis by (auto simp: hit_def sample_search_def MeetsTarget_def)
qed

theorem dag_views_agree_witness:
  "lazy_reads sample_sha3 \<lparr>lz_epoch = 0, lz_root = replicate 32 0, lz_n = 4, lz_seed = replicate 32 0, lz_built = False\<rparr> [3, 0, 9] =
     map (DAG_Get sample_dag) [3, 0, 9]"
  unfolding sample_dag_def
  by (rule dag_views_agree [OF sample_sha3_ok sample_dag_built]) (simp add: NewLazyDAG_def)

theorem solver_finds_first_nonce_witness:
  "\<exists>i m. i < 2 ^ 128 \<and> hit sample_sha3 default_forks sample_search ((incrementNonce ^^ i) (replicate 16 255)) m \<and>
     (\<forall>j<i. \<nexists>m. hit sample_sha3 default_forks sample_search ((incrementNonce ^^ j) (replicate 16 255)) m) \<and>
     Solve sample_sha3 default_forks (\<lambda>i. False) None sample_search (Some (replicate 16 255)) =
       Some (Inr \<lparr>sr_Proof = solved_proof sample_search ((incrementNonce ^^ i) (replicate 16 255)) m, sr_Attempts = of_nat (i + 1)\<rparr>)"
proof -
  obtain mix where "hit sample_sha3 default_forks sample_search (replicate 16 0) mix" using sample_hit by blast
  then show ?thesis
    by (intro solver_finds_first_nonce [OF sample_sha3_ok sample_search_valid _ sample_dag_total, where n = "replicate 16 0"])
       (simp_all add: sample_search_def)
qed

end
