(* ===== verification/WorkSet.thy ===== *)
theory WorkSet
  imports Merkle GoSort
begin

text \<open>
  \<open>pkg/mining/epoch.go\<close>: mining epochs, batches of parent cells, work-sets, their canonical order and
  their Merkle roots. A \<open>[32]byte\<close> is a byte list of length 32. \<open>sort.Slice\<close> on a batch is modelled by
  the stable sort: Go sorts up to twelve elements by insertion, which is stable, and a valid batch
  has at most five; \<open>sort.SliceStable\<close> is stable by contract.
\<close>

definition DefaultBlocksPerMiningEpoch :: u64 where "DefaultBlocksPerMiningEpoch = 60480"

record EpochParams =
  EP_BlocksPerEpoch :: u64

definition NewEpochParams :: EpochParams where
  "NewEpochParams = \<lparr>EP_BlocksPerEpoch = DefaultBlocksPerMiningEpoch\<rparr>"

datatype workset_error =
  ErrBlocksPerEpochZero | ErrBatchSize nat | ErrEmptyCellID nat | ErrWorkSetEmpty
| ErrWorkSetBatch nat workset_error | ErrPrefixCountZero | ErrPrefixCountExceeds u32 nat

definition EpochParams_Validate :: "EpochParams \<Rightarrow> workset_error + unit" where
  "EpochParams_Validate p = (if EP_BlocksPerEpoch p = 0 then Inl ErrBlocksPerEpochZero else Inr ())"

definition MiningEpochForHeight :: "EpochParams \<Rightarrow> u64 \<Rightarrow> u64 option" where
  "MiningEpochForHeight p height = go_div height (EP_BlocksPerEpoch p)"

definition EpochStartHeight :: "EpochParams \<Rightarrow> u64 \<Rightarrow> u64" where
  "EpochStartHeight p epoch = epoch * EP_BlocksPerEpoch p"

definition EpochEndHeight :: "EpochParams \<Rightarrow> u64 \<Rightarrow> u64" where
  "EpochEndHeight p epoch = (epoch + 1) * EP_BlocksPerEpoch p - 1"

section \<open>Batches and work-sets\<close>

record ParentCellRef =
  ID :: bytes
  ContentHash :: bytes

record Batch =
  Cells :: "ParentCellRef list"

record WorkSet =
  Batches :: "Batch list"

definition MinBatchSize :: nat where "MinBatchSize = 3"
definition MaxBatchSize :: nat where "MaxBatchSize = 5"

fun lessBytes :: "bytes \<Rightarrow> bytes \<Rightarrow> bool" where
  "lessBytes (x # a) (y # b) = (if x \<noteq> y then x < y else lessBytes a b)"
| "lessBytes a b = (length a < length b)"

definition Batch_Canonicalize :: "Batch \<Rightarrow> Batch" where
  "Batch_Canonicalize b = b\<lparr>Cells := go_sort (\<lambda>c d. lessBytes (ID c) (ID d)) (Cells b)\<rparr>"

fun first_empty_id :: "nat \<Rightarrow> ParentCellRef list \<Rightarrow> workset_error + unit" where
  "first_empty_id i [] = Inr ()"
| "first_empty_id i (c # cs) = (if ID c = [] then Inl (ErrEmptyCellID i) else first_empty_id (i + 1) cs)"

definition Batch_Validate :: "Batch \<Rightarrow> workset_error + unit" where
  "Batch_Validate b =
     (let n = length (Cells b)
      in if n < MinBatchSize \<or> n > MaxBatchSize then Inl (ErrBatchSize n)
         else first_empty_id 0 (Cells b))"

definition BatchHash :: "Batch \<Rightarrow> bytes" where
  "BatchHash b = sha256 (0x00 # concat (map (\<lambda>c. ID c @ ContentHash c) (Cells b)))"

definition workSetBatchKey :: "Batch \<Rightarrow> bytes" where
  "workSetBatchKey b = sha256 (concat (map ID (Cells b)))"

definition WorkSet_Canonicalize :: "WorkSet \<Rightarrow> WorkSet" where
  "WorkSet_Canonicalize ws =
     ws\<lparr>Batches := go_sort (\<lambda>b c. lessBytes (workSetBatchKey b) (workSetBatchKey c))
                     (map Batch_Canonicalize (Batches ws))\<rparr>"

fun validate_batches :: "nat \<Rightarrow> Batch list \<Rightarrow> workset_error + unit" where
  "validate_batches i [] = Inr ()"
| "validate_batches i (b # bs) =
     (case Batch_Validate b of Inl e \<Rightarrow> Inl (ErrWorkSetBatch i e) | Inr _ \<Rightarrow> validate_batches (i + 1) bs)"

definition WorkSet_Validate :: "WorkSet \<Rightarrow> workset_error + unit" where
  "WorkSet_Validate ws = (if Batches ws = [] then Inl ErrWorkSetEmpty else validate_batches 0 (Batches ws))"

definition merkleLeafHash :: "bytes \<Rightarrow> bytes" where
  "merkleLeafHash x = sha256 (0x01 # x)"

definition merkleInternalHash :: "bytes \<Rightarrow> bytes \<Rightarrow> bytes" where
  "merkleInternalHash l r = sha256 (0x02 # l @ r)"

definition merkleRoot :: "bytes list \<Rightarrow> bytes" where
  "merkleRoot hashes =
     (if hashes = [] then replicate 32 0
      else levels_root (merkle_levels merkleInternalHash (map merkleLeafHash hashes)))"

definition WorkSet_Root :: "WorkSet \<Rightarrow> bytes" where
  "WorkSet_Root ws = merkleRoot (map BatchHash (Batches ws))"

definition PrefixRoot :: "WorkSet \<Rightarrow> u32 \<Rightarrow> workset_error + bytes" where
  "PrefixRoot ws cnt =
     (if cnt = 0 then Inl ErrPrefixCountZero
      else if length (Batches ws) < unat cnt then Inl (ErrPrefixCountExceeds cnt (length (Batches ws)))
      else Inr (merkleRoot (map (\<lambda>i. BatchHash (Batches ws ! i)) [0..<unat cnt])))"

section \<open>Lemmas\<close>

lemma lessBytes_less: "lessBytes a b = (a < b)"
proof (induction a arbitrary: b)
  case Nil
  then show ?case by (cases b) simp_all
next
  case (Cons x a)
  then show ?case by (cases b) auto
qed

lemma Batch_Canonicalize_sort: "Cells (Batch_Canonicalize b) = sort_key ID (Cells b)"
  by (simp add: Batch_Canonicalize_def lessBytes_less go_sort_sort_key)

lemma WorkSet_Canonicalize_sort:
  "Batches (WorkSet_Canonicalize ws) = sort_key workSetBatchKey (map Batch_Canonicalize (Batches ws))"
  by (simp add: WorkSet_Canonicalize_def lessBytes_less go_sort_sort_key)

lemma Batch_Canonicalize_perm:
  assumes "mset (Cells b) = mset (Cells b')" "inj_on ID (set (Cells b))"
  shows "Batch_Canonicalize b = Batch_Canonicalize b'"
proof -
  have "sort_key ID (Cells b) = sort_key ID (Cells b')"
    using assms by (intro sort_key_inj_key_eq) simp_all
  then show ?thesis by (simp add: Batch_Canonicalize_def lessBytes_less go_sort_sort_key)
qed

interpretation work_tree: digest_tree sha256 "\<lambda>l r. 0x02 # l @ r" merkleInternalHash "\<lambda>b. length b = 32"
  by unfold_locales (auto simp: merkleInternalHash_def)

definition root_preimages :: "bytes list \<Rightarrow> bytes set" where
  "root_preimages hashes = (#) 0x01 ` set hashes \<union>
     levels_preimages merkleInternalHash (\<lambda>l r. 0x02 # l @ r) (map merkleLeafHash hashes)"

lemma map_digest_eq:
  assumes "map H xs = map H ys"
  shows "xs = ys \<or> (\<exists>x \<in> set xs. \<exists>y \<in> set ys. x \<noteq> y \<and> H x = H y)"
  using assms
proof (induction xs arbitrary: ys)
  case (Cons x xs)
  then show ?case by (cases ys) fastforce+
qed simp

lemma merkleRoot_binding:
  assumes "merkleRoot xs = merkleRoot ys" "length xs = length ys"
  shows "xs = ys \<or> collision_in sha256 (root_preimages xs \<union> root_preimages ys)"
proof (cases "xs = []")
  case False
  let ?L = "levels_preimages merkleInternalHash (\<lambda>l r. 0x02 # l @ r)"
  have "map merkleLeafHash xs = map merkleLeafHash ys \<or>
      collision_in sha256 (?L (map merkleLeafHash xs) \<union> ?L (map merkleLeafHash ys))"
    using assms False
    by (intro work_tree.same_root_same_leaves) (auto simp: merkleRoot_def merkleLeafHash_def split: if_splits)
  then show ?thesis
  proof
    assume "map merkleLeafHash xs = map merkleLeafHash ys"
    from map_digest_eq [OF this] show ?thesis
    proof (elim disjE bexE conjE)
      fix x y assume "x \<in> set xs" "y \<in> set ys" "x \<noteq> y" "merkleLeafHash x = merkleLeafHash y"
      then show ?thesis unfolding collision_in_def root_preimages_def merkleLeafHash_def
        by (intro disjI2 bexI [of _ "0x01 # x"] bexI [of _ "0x01 # y"]) simp_all
    qed simp
  next
    assume "collision_in sha256 (?L (map merkleLeafHash xs) \<union> ?L (map merkleLeafHash ys))"
    then show ?thesis by (intro disjI2) (erule collision_in_mono, auto simp: root_preimages_def)
  qed
qed (use assms in simp)

lemma PrefixRoot_take:
  assumes "cnt \<noteq> 0" "unat cnt \<le> length (Batches ws)"
  shows "PrefixRoot ws cnt = Inr (merkleRoot (map BatchHash (take (unat cnt) (Batches ws))))"
proof -
  have "map (\<lambda>i. BatchHash (Batches ws ! i)) [0..<unat cnt] = map BatchHash (take (unat cnt) (Batches ws))"
    using assms by (intro nth_equalityI) simp_all
  then show ?thesis using assms by (simp add: PrefixRoot_def)
qed

section \<open>Properties\<close>

text \<open>
  the epoch boundaries partition the heights. For valid parameters and an epoch whose end does
  not overflow, a height belongs to the epoch exactly when it lies between the start and the end
  height.
\<close>

theorem epoch_bounds_partition:
  assumes "EpochParams_Validate p = Inr ()"
    and "(unat e + 1) * unat (EP_BlocksPerEpoch p) < 2 ^ 64"
  shows "MiningEpochForHeight p h = Some e \<longleftrightarrow> EpochStartHeight p e \<le> h \<and> h \<le> EpochEndHeight p e"
proof -
  define m where "m = unat (EP_BlocksPerEpoch p)"
  have nz: "EP_BlocksPerEpoch p \<noteq> 0" using assms(1) by (simp add: EpochParams_Validate_def split: if_splits)
  then have m: "0 < m" by (simp add: m_def unat_gt_0)
  have e1: "unat e + 1 < 2 ^ 64"
    using assms(2) m by (cases m) (simp_all add: m_def [symmetric])
  have u: "unat (e + 1) = unat e + 1" using e1 by (subst unat_add_no_wrap) simp_all
  have st: "unat (EpochStartHeight p e) = unat e * m"
    using assms(2) by (simp add: EpochStartHeight_def m_def unat_mult_no_wrap)
  have prod: "unat ((e + 1) * EP_BlocksPerEpoch p) = (unat e + 1) * m"
    using assms(2) u by (subst unat_mult_no_wrap) (simp_all add: m_def)
  have en: "unat (EpochEndHeight p e) = (unat e + 1) * m - 1"
    unfolding EpochEndHeight_def
    by (subst unat_diff_le) (use prod m in \<open>simp_all add: word_le_nat_alt\<close>)
  have "MiningEpochForHeight p h = Some e \<longleftrightarrow> unat h div m = unat e"
    using nz by (simp add: MiningEpochForHeight_def m_def word_unat_eq_iff unat_div)
  also have "\<dots> \<longleftrightarrow> unat e * m \<le> unat h \<and> unat h \<le> (unat e + 1) * m - 1"
    using div_eq_iff_between [OF m, of "unat h" "unat e"] m by auto
  finally show ?thesis by (simp add: word_le_nat_alt st en)
qed

theorem epoch_bounds_partition_witness:
  "MiningEpochForHeight NewEpochParams 60480 = Some 1 \<longleftrightarrow>
     EpochStartHeight NewEpochParams 1 \<le> 60480 \<and> 60480 \<le> EpochEndHeight NewEpochParams 1"
  using epoch_bounds_partition [of NewEpochParams 1 60480]
  by (simp add: NewEpochParams_def EpochParams_Validate_def DefaultBlocksPerMiningEpoch_def)

text \<open>
  canonicalization removes the arrival order. Two work-sets that hold the same batches up to the
  order of the batches and of the cells inside them have the same canonical form, hence the same
  root, when cell ids are unique within a batch and different canonical batches have different sort
  keys.
\<close>

theorem canonical_root_order_independent:
  assumes "image_mset (\<lambda>b. mset (Cells b)) (mset (Batches ws)) =
           image_mset (\<lambda>b. mset (Cells b)) (mset (Batches ws'))"
    and "\<forall>b \<in> set (Batches ws). inj_on ID (set (Cells b))"
    and "inj_on workSetBatchKey (Batch_Canonicalize ` set (Batches ws))"
  shows "WorkSet_Canonicalize ws = WorkSet_Canonicalize ws' \<and>
    WorkSet_Root (WorkSet_Canonicalize ws) = WorkSet_Root (WorkSet_Canonicalize ws')"
proof -
  define canon where "canon M = \<lparr>Cells = sort_key ID (SOME xs. mset xs = M)\<rparr>" for M :: "ParentCellRef multiset"
  have canon: "Batch_Canonicalize b = canon (mset (Cells b))" if "inj_on ID (set (Cells b))" for b
  proof -
    have "mset (SOME xs. mset xs = mset (Cells b)) = mset (Cells b)" by (rule someI) simp
    then have "Batch_Canonicalize b = Batch_Canonicalize \<lparr>Cells = SOME xs. mset xs = mset (Cells b)\<rparr>"
      by (intro Batch_Canonicalize_perm) (use that in simp_all)
    then show ?thesis
      by (simp add: canon_def Batch_Canonicalize_def lessBytes_less go_sort_sort_key)
  qed
  have ok': "inj_on ID (set (Cells b))" if "b \<in> set (Batches ws')" for b
  proof -
    have "mset (Cells b) \<in># image_mset (\<lambda>b. mset (Cells b)) (mset (Batches ws))"
      using that assms(1) by simp
    then obtain c where "c \<in> set (Batches ws)" "mset (Cells c) = mset (Cells b)" by auto
    then show ?thesis using assms(2) mset_eq_setD by metis
  qed
  have c: "mset (map Batch_Canonicalize (Batches v)) =
      image_mset canon (image_mset (\<lambda>b. mset (Cells b)) (mset (Batches v)))"
    if "\<forall>b \<in> set (Batches v). inj_on ID (set (Cells b))" for v
    using that by (auto simp: multiset.map_comp canon intro!: image_mset_cong)
  have "mset (map Batch_Canonicalize (Batches ws)) = mset (map Batch_Canonicalize (Batches ws'))"
    using c [of ws] c [of ws'] assms(1,2) ok' by simp
  then have "Batches (WorkSet_Canonicalize ws) = Batches (WorkSet_Canonicalize ws')"
    unfolding WorkSet_Canonicalize_sort using assms(3)
    by (intro sort_key_inj_key_eq) simp_all
  then have "WorkSet_Canonicalize ws = WorkSet_Canonicalize ws'" by simp
  then show ?thesis by simp
qed

theorem canonical_root_order_independent_witness:
  "WorkSet_Root (WorkSet_Canonicalize \<lparr>Batches = [\<lparr>Cells = [\<lparr>ID = [1], ContentHash = replicate 32 0\<rparr>,
      \<lparr>ID = [2], ContentHash = replicate 32 0\<rparr>, \<lparr>ID = [3], ContentHash = replicate 32 0\<rparr>]\<rparr>]\<rparr>)
   = WorkSet_Root (WorkSet_Canonicalize \<lparr>Batches = [\<lparr>Cells = [\<lparr>ID = [3], ContentHash = replicate 32 0\<rparr>,
      \<lparr>ID = [2], ContentHash = replicate 32 0\<rparr>, \<lparr>ID = [1], ContentHash = replicate 32 0\<rparr>]\<rparr>]\<rparr>)"
  by (rule canonical_root_order_independent [THEN conjunct2]) (simp_all add: inj_on_def)

text \<open>
  a prefix root is the root of the truncated work-set, and it binds. If two work-sets report the
  same prefix root for the same cnt, the first batches have the same batch hashes one by one, or
  the strings hashed for the two roots contain a SHA-256 collision. Counts of zero and counts beyond
  the work-set are refused.
\<close>

theorem prefix_root_binding:
  assumes "PrefixRoot ws c = Inr r" "PrefixRoot ws' c = Inr r"
  shows "r = WorkSet_Root (ws\<lparr>Batches := take (unat c) (Batches ws)\<rparr>) \<and>
     (map BatchHash (take (unat c) (Batches ws)) = map BatchHash (take (unat c) (Batches ws')) \<or>
      collision_in sha256 (root_preimages (map BatchHash (take (unat c) (Batches ws)))
                         \<union> root_preimages (map BatchHash (take (unat c) (Batches ws')))))"
proof -
  have c: "c \<noteq> 0" "unat c \<le> length (Batches ws)" "unat c \<le> length (Batches ws')"
    using assms by (auto simp: PrefixRoot_def split: if_splits)
  have r: "r = merkleRoot (map BatchHash (take (unat c) (Batches ws)))"
    "r = merkleRoot (map BatchHash (take (unat c) (Batches ws')))"
    using PrefixRoot_take [OF c(1)] c assms by auto
  have "r = WorkSet_Root (ws\<lparr>Batches := take (unat c) (Batches ws)\<rparr>)"
    using r(1) by (simp add: WorkSet_Root_def)
  moreover have "length (map BatchHash (take (unat c) (Batches ws))) = length (map BatchHash (take (unat c) (Batches ws')))"
    using c by simp
  ultimately show ?thesis using r merkleRoot_binding by metis
qed

theorem prefix_root_binding_witness:
  "\<exists>r. PrefixRoot \<lparr>Batches = [\<lparr>Cells = []\<rparr>]\<rparr> 1 = Inr r \<and> r = WorkSet_Root \<lparr>Batches = [\<lparr>Cells = []\<rparr>]\<rparr>"
proof -
  obtain r where r: "PrefixRoot \<lparr>Batches = [\<lparr>Cells = []\<rparr>]\<rparr> 1 = Inr r" by (simp add: PrefixRoot_def)
  show ?thesis using prefix_root_binding [OF r r] r by auto
qed

text \<open>
  the root does not determine the number of batches. Repeating the last batch of a work-set with
  an odd number of batches, three or more, leaves the root unchanged.
\<close>

theorem repeated_last_batch_same_root:
  assumes "odd (length (Batches ws))" "1 < length (Batches ws)"
  shows "WorkSet_Root (ws\<lparr>Batches := Batches ws @ [last (Batches ws)]\<rparr>) = WorkSet_Root ws"
proof -
  let ?l = "\<lambda>bs. map merkleLeafHash (map BatchHash bs)"
  have ne: "Batches ws \<noteq> []" using assms by auto
  then have "?l (Batches ws @ [last (Batches ws)]) = pad_level (?l (Batches ws))"
    using assms(1) by (simp add: pad_level_def last_map)
  then show ?thesis
    using levels_root_pad [of "?l (Batches ws)" merkleInternalHash] assms(2) ne
    by (simp add: WorkSet_Root_def merkleRoot_def)
qed

theorem repeated_last_batch_same_root_witness:
  "WorkSet_Root \<lparr>Batches = [\<lparr>Cells = []\<rparr>, \<lparr>Cells = []\<rparr>, \<lparr>Cells = []\<rparr>, \<lparr>Cells = []\<rparr>]\<rparr> =
   WorkSet_Root \<lparr>Batches = [\<lparr>Cells = []\<rparr>, \<lparr>Cells = []\<rparr>, \<lparr>Cells = []\<rparr>]\<rparr>"
  using repeated_last_batch_same_root [of "\<lparr>Batches = [\<lparr>Cells = []\<rparr>, \<lparr>Cells = []\<rparr>, \<lparr>Cells = []\<rparr>]\<rparr>"] by simp

text \<open>
  the batch hash is not injective on valid batches. Cell ids are hashed without their length, so
  a cell can be absorbed into the id of the next one: four cells and three cells, both within the
  allowed batch size, have the same batch hash.
\<close>

theorem batch_hash_absorbs_cell:
  assumes "ID a \<noteq> []" "Batch_Validate \<lparr>Cells = [a, b, c, d]\<rparr> = Inr ()"
  defines "merged \<equiv> \<lparr>Cells = [\<lparr>ID = ID a @ ContentHash a @ ID b, ContentHash = ContentHash b\<rparr>, c, d]\<rparr>"
  shows "Batch_Validate merged = Inr () \<and> BatchHash merged = BatchHash \<lparr>Cells = [a, b, c, d]\<rparr>"
  using assms(1,2) unfolding merged_def
  by (simp add: Batch_Validate_def BatchHash_def MinBatchSize_def MaxBatchSize_def split: if_splits)

theorem batch_hash_absorbs_cell_witness:
  "BatchHash \<lparr>Cells = [\<lparr>ID = [1] @ replicate 32 0 @ [2], ContentHash = replicate 32 0\<rparr>,
      \<lparr>ID = [3], ContentHash = replicate 32 0\<rparr>, \<lparr>ID = [4], ContentHash = replicate 32 0\<rparr>]\<rparr>
   = BatchHash \<lparr>Cells = [\<lparr>ID = [1], ContentHash = replicate 32 0\<rparr>, \<lparr>ID = [2], ContentHash = replicate 32 0\<rparr>,
      \<lparr>ID = [3], ContentHash = replicate 32 0\<rparr>, \<lparr>ID = [4], ContentHash = replicate 32 0\<rparr>]\<rparr>"
  using batch_hash_absorbs_cell [of "\<lparr>ID = [1], ContentHash = replicate 32 0\<rparr>"
    "\<lparr>ID = [2], ContentHash = replicate 32 0\<rparr>" "\<lparr>ID = [3], ContentHash = replicate 32 0\<rparr>"
    "\<lparr>ID = [4], ContentHash = replicate 32 0\<rparr>"]
  by (simp add: Batch_Validate_def MinBatchSize_def MaxBatchSize_def)

end
