(* ===== verification/MiningVerifier.thy ===== *)
theory MiningVerifier
  imports PowDag HmacAttest WorkSet
begin

text \<open>
  \<open>pkg/mining/verifier.go\<close>: the acceptance pipeline of a validator. The static part of \<open>VerifierConfig\<close> is the record
  \<open>Verifier\<close>; its two mutable collaborators, the set of seen proof identifiers and the quarantine, are \<open>VerifierState\<close>. The chain,
  the address and batch validators, the providers and the attestation verifier are the interface values the code injects; a \<open>Verifier\<close>
  holds their answers during one call, and calls may be given different ones. No lock spans a call: the code looks into the set of seen
  identifiers in the middle, into the quarantine later, and writes to one of them at the end, so the call is split there into
  \<open>verify_open\<close>, \<open>verify_check\<close> and \<open>verify_close\<close>. \<open>Verify\<close> is their uninterrupted composition; it returns the identifier, the reject
  reason and the new state; \<open>None\<close> is a panic. The details of a rejection and the metrics it
  records are left out. The wall clock is the argument \<open>now\<close>, the fork heights the argument \<open>fk\<close>.
\<close>

datatype RejectReason =
  ReasonBadVersion | ReasonStaleHeight | ReasonWrongEpoch | ReasonNonCanonical | ReasonHeaderMismatch | ReasonDuplicate
| ReasonBadAddr | ReasonBatchSize | ReasonBatchRoot | ReasonWork | ReasonBatchFraud | ReasonQuarantined | ReasonTooLate
| ReasonAttestation

definition GraceWindow :: u64 where "GraceWindow = 6"

section \<open>Seen proofs and the quarantine\<close>

record ProofIDSet =
  retainWindow :: u64
  byHeight :: "(bytes, u64) fmap"

definition NewProofIDSet :: "u64 \<Rightarrow> ProofIDSet" where
  "NewProofIDSet w = \<lparr>retainWindow = (if w = 0 then DefaultBlocksPerMiningEpoch else w), byHeight = fmempty\<rparr>"

definition Seen :: "bytes \<Rightarrow> ProofIDSet \<Rightarrow> bool" where
  "Seen pid s = (fmlookup (byHeight s) pid \<noteq> None)"

definition ProofIDSet_Record :: "bytes \<Rightarrow> u64 \<Rightarrow> ProofIDSet \<Rightarrow> ProofIDSet" where
  "ProofIDSet_Record pid height s =
     (let s = s\<lparr>byHeight := fmupd pid height (byHeight s)\<rparr>
      in if height \<le> retainWindow s then s
         else let cutoff = height - retainWindow s
              in s\<lparr>byHeight := fmfilter (\<lambda>k. \<not> the (fmlookup (byHeight s) k) < cutoff) (byHeight s)\<rparr>)"

definition ProofIDSet_Size :: "ProofIDSet \<Rightarrow> nat" where
  "ProofIDSet_Size s = map_len (byHeight s)"

type_synonym QuarantineSet = "(string, u64) fmap"

definition DefaultQuarantineBlocks :: u64 where "DefaultQuarantineBlocks = 10080"

definition NewQuarantineSet :: QuarantineSet where "NewQuarantineSet = fmempty"

definition Quarantine_Add :: "string \<Rightarrow> u64 \<Rightarrow> QuarantineSet \<Rightarrow> QuarantineSet" where
  "Quarantine_Add addr until q =
     (case fmlookup q addr of None \<Rightarrow> fmupd addr until q | Some cur \<Rightarrow> if until > cur then fmupd addr until q else q)"

definition IsQuarantined :: "string \<Rightarrow> u64 \<Rightarrow> QuarantineSet \<Rightarrow> bool" where
  "IsQuarantined addr atHeight q = (case fmlookup q addr of None \<Rightarrow> False | Some until \<Rightarrow> atHeight < until)"

section \<open>Configuration\<close>

text \<open>Interface values: \<open>None\<close> is nil. A validator returns \<open>True\<close> for a nil error; a provider returns \<open>None\<close> for an error.\<close>

record VerifierConfig =
  vc_EpochParams :: EpochParams
  vc_DifficultyParams :: DifficultyAdjusterParams
  vc_HeaderHashAt :: "(u64 \<Rightarrow> bytes option) option"
  vc_ValidateAddress :: "(string \<Rightarrow> bool) option"
  vc_ValidateBatch :: "(Batch \<Rightarrow> bool) option"
  vc_Dedup :: "ProofIDSet option"
  vc_Quarantine :: "QuarantineSet option"
  vc_DAGProvider :: "(u64 \<Rightarrow> DAG option option) option"
  vc_WorkSetProvider :: "(u64 \<Rightarrow> WorkSet option) option"
  vc_DifficultyAt :: "(u64 \<Rightarrow> int option option) option"
  vc_GraceWindow :: u64
  vc_Attestation :: "(Proof \<Rightarrow> go_time \<Rightarrow> bool) option"

record Verifier =
  v_EpochParams :: EpochParams
  v_HeaderHashAt :: "u64 \<Rightarrow> bytes option"
  v_ValidateAddress :: "string \<Rightarrow> bool"
  v_ValidateBatch :: "(Batch \<Rightarrow> bool) option"
  v_DAGProvider :: "u64 \<Rightarrow> DAG option option"
  v_WorkSetProvider :: "u64 \<Rightarrow> WorkSet option"
  v_DifficultyAt :: "u64 \<Rightarrow> int option option"
  v_GraceWindow :: u64
  v_Attestation :: "Proof \<Rightarrow> go_time \<Rightarrow> bool"

record VerifierState =
  Dedup :: ProofIDSet
  Quarantine :: QuarantineSet

datatype verifier_error = VErrEpoch workset_error | VErrDifficulty difficulty_error | VErrRequired string

definition FailClosedVerifier :: "Proof \<Rightarrow> go_time \<Rightarrow> bool" where
  "FailClosedVerifier p now = False"

definition NewVerifier :: "VerifierConfig \<Rightarrow> verifier_error + (Verifier \<times> VerifierState)" where
  "NewVerifier cfg =
     (case EpochParams_Validate (vc_EpochParams cfg) of Inl e \<Rightarrow> Inl (VErrEpoch e) | Inr _ \<Rightarrow>
      case ValidateDifficulty (vc_DifficultyParams cfg) of Inl e \<Rightarrow> Inl (VErrDifficulty e) | Inr _ \<Rightarrow>
      case vc_HeaderHashAt cfg of None \<Rightarrow> Inl (VErrRequired ''Chain'') | Some chain \<Rightarrow>
      case vc_ValidateAddress cfg of None \<Rightarrow> Inl (VErrRequired ''Addresses'') | Some addrs \<Rightarrow>
      case vc_Dedup cfg of None \<Rightarrow> Inl (VErrRequired ''Dedup'') | Some dedup \<Rightarrow>
      case vc_Quarantine cfg of None \<Rightarrow> Inl (VErrRequired ''Quarantine'') | Some quarantine \<Rightarrow>
      case vc_DAGProvider cfg of None \<Rightarrow> Inl (VErrRequired ''DAGProvider'') | Some dags \<Rightarrow>
      case vc_WorkSetProvider cfg of None \<Rightarrow> Inl (VErrRequired ''WorkSetProvider'') | Some worksets \<Rightarrow>
      case vc_DifficultyAt cfg of None \<Rightarrow> Inl (VErrRequired ''DifficultyAt'') | Some diffAt \<Rightarrow>
      Inr (\<lparr>v_EpochParams = vc_EpochParams cfg, v_HeaderHashAt = chain, v_ValidateAddress = addrs,
            v_ValidateBatch = vc_ValidateBatch cfg, v_DAGProvider = dags, v_WorkSetProvider = worksets, v_DifficultyAt = diffAt,
            v_GraceWindow = vc_GraceWindow cfg,
            v_Attestation = (case vc_Attestation cfg of None \<Rightarrow> FailClosedVerifier | Some a \<Rightarrow> a)\<rparr>,
           \<lparr>Dedup = dedup, Quarantine = quarantine\<rparr>))"

section \<open>Acceptance\<close>

record ProofCodec =
  pc_Unmarshal :: "bytes \<Rightarrow> proofWire option"
  pc_Unicode :: UnicodeFns

definition string_of_bytes :: "bytes \<Rightarrow> string" where
  "string_of_bytes bs = map (\<lambda>b. char_of (unat b)) bs"

definition deterministicSpotIndex :: "bytes \<Rightarrow> u32 \<Rightarrow> u32 option" where
  "deterministicSpotIndex proofID batchCount =
     (if batchCount = 0 then Some 0
      else case Uint32BE proofID of None \<Rightarrow> None | Some seed \<Rightarrow> go_mod seed batchCount)"

definition read_proof :: "ProofCodec \<Rightarrow> bytes \<Rightarrow> RejectReason + Proof" where
  "read_proof codec raw =
     (case ParseProof (pc_Unmarshal codec) raw of Inl e \<Rightarrow> Inl ReasonNonCanonical | Inr p \<Rightarrow>
      case CanonicalJSON p of Inl e \<Rightarrow> Inl ReasonNonCanonical | Inr canonical \<Rightarrow>
      if canonical \<noteq> TrimSpace (pc_Unicode codec) (string_of_bytes raw) then Inl ReasonNonCanonical else Inr p)"

text \<open>Step 1, the version and the attestation gate.\<close>

definition fork_gate :: "UnicodeFns \<Rightarrow> ForkHeights \<Rightarrow> Verifier \<Rightarrow> Proof \<Rightarrow> go_time \<Rightarrow> RejectReason option" where
  "fork_gate uni fk v p now =
     (if IsV2 fk (PHeight p) then
        (if PVersion p \<noteq> ProtocolVersionV2 then Some ReasonBadVersion
         else if AType (PAttestation p) = [] then Some ReasonAttestation
         else case ValidateOuterArch uni (GPUArch (PAttestation p)) of Inl e \<Rightarrow> Some ReasonAttestation | Inr arch \<Rightarrow>
           if ValidateClaimedHashrate arch (ClaimedHashrateHPS (PAttestation p)) \<noteq> None then Some ReasonAttestation
           else if \<not> v_Attestation v p now then Some ReasonAttestation
           else None)
      else if PVersion p \<noteq> ProtocolVersion then Some ReasonBadVersion
      else None)"

definition grace_of :: "Verifier \<Rightarrow> u64" where
  "grace_of v = (if v_GraceWindow v = 0 then GraceWindow else v_GraceWindow v)"

text \<open>Steps 2 to 5: the grace window, the epoch and the header.\<close>

definition chain_gate :: "Verifier \<Rightarrow> u64 \<Rightarrow> Proof \<Rightarrow> RejectReason option option" where
  "chain_gate v acceptHeight p =
     (if PHeight p > acceptHeight then Some (Some ReasonStaleHeight)
      else if acceptHeight - PHeight p > grace_of v then Some (Some ReasonTooLate)
      else case MiningEpochForHeight (v_EpochParams v) (PHeight p) of None \<Rightarrow> None | Some epoch \<Rightarrow>
        if PEpoch p \<noteq> epoch then Some (Some ReasonWrongEpoch)
        else case v_HeaderHashAt v (PHeight p) of None \<Rightarrow> Some (Some ReasonHeaderMismatch) | Some hh \<Rightarrow>
          if hh \<noteq> HeaderHash p then Some (Some ReasonHeaderMismatch) else Some None)"

text \<open>Steps 8 and 9: the size and the root of the claimed prefix of the work-set.\<close>

definition batch_gate :: "WorkSet \<Rightarrow> Proof \<Rightarrow> RejectReason option" where
  "batch_gate ws p =
     (case WorkSet_Validate ws of Inl e \<Rightarrow> Some ReasonBatchSize | Inr _ \<Rightarrow>
      let maxBatches = max 1 ((length (Batches ws) + 15) div 16)
      in if unat (BatchCount p) > maxBatches then Some ReasonBatchSize
         else if BatchCount p < 1 then Some ReasonBatchSize
         else case PrefixRoot ws (BatchCount p) of Inl e \<Rightarrow> Some ReasonBatchRoot | Inr wantRoot \<Rightarrow>
           if wantRoot \<noteq> BatchRoot p then Some ReasonBatchRoot else None)"

text \<open>Step 10: the work.\<close>

definition work_gate :: "Sha3Fns \<Rightarrow> ForkHeights \<Rightarrow> Verifier \<Rightarrow> Proof \<Rightarrow> RejectReason option option" where
  "work_gate F fk v p =
     (case v_DAGProvider v (PEpoch p) of None \<Rightarrow> Some (Some ReasonWork) | Some dag \<Rightarrow>
      case mix_at F fk (PHeight p) (HeaderHash p) (PNonce p) dag of None \<Rightarrow> None | Some r \<Rightarrow>
      case r of Inl e \<Rightarrow> Some (Some ReasonWork) | Inr mix \<Rightarrow>
      if mix \<noteq> MixDigest p then Some (Some ReasonWork)
      else case v_DifficultyAt v (PHeight p) of None \<Rightarrow> Some (Some ReasonWork) | Some diff \<Rightarrow>
      case TargetFromDifficulty diff of Inl e \<Rightarrow> Some (Some ReasonWork) | Inr tgt \<Rightarrow>
      if \<not> MeetsTarget (ProofPoWHash F (HeaderHash p) (PNonce p) (BatchRoot p) (MixDigest p)) (Some tgt) then Some (Some ReasonWork)
      else Some None)"

text \<open>Step 11: the spot check of one batch; \<open>True\<close> is a fraud.\<close>

definition spot_check :: "Verifier \<Rightarrow> WorkSet \<Rightarrow> bytes \<Rightarrow> Proof \<Rightarrow> bool option" where
  "spot_check v ws proofID p =
     (case v_ValidateBatch v of None \<Rightarrow> Some False | Some validate \<Rightarrow>
      case deterministicSpotIndex proofID (BatchCount p) of None \<Rightarrow> None | Some leafIdx \<Rightarrow>
      if leafIdx < of_nat (length (Batches ws)) then Some (\<not> validate (Batches ws ! unat leafIdx)) else Some False)"

definition zero_id :: bytes where "zero_id = replicate 32 0"

text \<open>Steps 1 to 6, up to the look into the set of seen identifiers.\<close>

datatype opened = OpenRejected bytes RejectReason | OpenPassed bytes Proof

definition verify_open ::
    "ProofCodec \<Rightarrow> ForkHeights \<Rightarrow> Verifier \<Rightarrow> go_time \<Rightarrow> bytes \<Rightarrow> u64 \<Rightarrow> ProofIDSet \<Rightarrow> opened option" where
  "verify_open codec fk v now raw acceptHeight seen =
     (case read_proof codec raw of Inl r \<Rightarrow> Some (OpenRejected zero_id r) | Inr p \<Rightarrow>
      case fork_gate (pc_Unicode codec) fk v p now of Some r \<Rightarrow> Some (OpenRejected zero_id r) | None \<Rightarrow>
      case chain_gate v acceptHeight p of None \<Rightarrow> None | Some (Some r) \<Rightarrow> Some (OpenRejected zero_id r) | Some None \<Rightarrow>
      case Proof_ID p of Inl e \<Rightarrow> Some (OpenRejected zero_id ReasonNonCanonical) | Inr proofID \<Rightarrow>
      if Seen proofID seen then Some (OpenRejected proofID ReasonDuplicate) else Some (OpenPassed proofID p))"

text \<open>Steps 7 to 11 of a proof that was not a duplicate; the quarantine is only read.\<close>

datatype verdict = VerdictReject RejectReason | VerdictFraud | VerdictAccept

definition verify_check ::
    "Sha3Fns \<Rightarrow> ForkHeights \<Rightarrow> Verifier \<Rightarrow> u64 \<Rightarrow> bytes \<Rightarrow> Proof \<Rightarrow> QuarantineSet \<Rightarrow> verdict option" where
  "verify_check F fk v acceptHeight proofID p quarantine =
     (if \<not> v_ValidateAddress v (MinerAddr p) then Some (VerdictReject ReasonBadAddr)
      else if IsQuarantined (MinerAddr p) acceptHeight quarantine then Some (VerdictReject ReasonQuarantined)
      else case v_WorkSetProvider v (PEpoch p) of None \<Rightarrow> Some (VerdictReject ReasonBatchSize) | Some ws \<Rightarrow>
      case batch_gate ws p of Some r \<Rightarrow> Some (VerdictReject r) | None \<Rightarrow>
      case work_gate F fk v p of None \<Rightarrow> None | Some (Some r) \<Rightarrow> Some (VerdictReject r) | Some None \<Rightarrow>
      case spot_check v ws proofID p of None \<Rightarrow> None | Some True \<Rightarrow> Some VerdictFraud | Some False \<Rightarrow> Some VerdictAccept)"

text \<open>The one write at the end of a call.\<close>

fun verify_close :: "u64 \<Rightarrow> bytes \<Rightarrow> Proof \<Rightarrow> verdict \<Rightarrow> VerifierState \<Rightarrow> RejectReason option \<times> VerifierState" where
  "verify_close acceptHeight proofID p (VerdictReject r) st = (Some r, st)"
| "verify_close acceptHeight proofID p VerdictFraud st =
     (Some ReasonBatchFraud,
      st\<lparr>Quarantine := Quarantine_Add (MinerAddr p) (acceptHeight + DefaultQuarantineBlocks) (Quarantine st)\<rparr>)"
| "verify_close acceptHeight proofID p VerdictAccept st =
     (None, st\<lparr>Dedup := ProofIDSet_Record proofID (PHeight p) (Dedup st)\<rparr>)"

definition Verify ::
    "Sha3Fns \<Rightarrow> ProofCodec \<Rightarrow> ForkHeights \<Rightarrow> Verifier \<Rightarrow> go_time \<Rightarrow> bytes \<Rightarrow> u64 \<Rightarrow> VerifierState \<Rightarrow>
     (bytes \<times> RejectReason option \<times> VerifierState) option" where
  "Verify F codec fk v now raw acceptHeight st =
     (case verify_open codec fk v now raw acceptHeight (Dedup st) of
        None \<Rightarrow> None
      | Some (OpenRejected proofID r) \<Rightarrow> Some (proofID, Some r, st)
      | Some (OpenPassed proofID p) \<Rightarrow>
          map_option (\<lambda>vd. (proofID, verify_close acceptHeight proofID p vd st))
            (verify_check F fk v acceptHeight proofID p (Quarantine st)))"

end
