(* ===== verification/MiningTheorems.thy ===== *)
theory MiningTheorems
  imports MiningVerifier
begin

text \<open>
  Properties of the acceptance pipeline and of its composition with the reference solver: outcomes of \<open>Verify\<close>, that it never
  panics, that no proof is accepted twice unless calls overlap, that a validator with the miner's view accepts what \<open>Solve\<close> returns, and two negative
  results: the work of a proof can be claimed under another address, and the solver's output is useless after the attestation fork.
\<close>

section \<open>Outcomes\<close>

definition passes :: "Sha3Fns \<Rightarrow> ForkHeights \<Rightarrow> Verifier \<Rightarrow> u64 \<Rightarrow> bytes \<Rightarrow> Proof \<Rightarrow> QuarantineSet \<Rightarrow> bool" where
  "passes F fk v acceptHeight proofID p q \<longleftrightarrow>
     v_ValidateAddress v (MinerAddr p) \<and> \<not> IsQuarantined (MinerAddr p) acceptHeight q \<and> work_gate F fk v p = Some None \<and>
     (\<exists>ws. v_WorkSetProvider v (PEpoch p) = Some ws \<and> batch_gate ws p = None \<and> spot_check v ws proofID p = Some False)"

definition admitted_proof :: "ProofCodec \<Rightarrow> ForkHeights \<Rightarrow> Verifier \<Rightarrow> go_time \<Rightarrow> bytes \<Rightarrow> u64 \<Rightarrow> Proof \<Rightarrow> bool" where
  "admitted_proof codec fk v now raw acceptHeight p \<longleftrightarrow>
     read_proof codec raw = Inr p \<and> fork_gate (pc_Unicode codec) fk v p now = None \<and> chain_gate v acceptHeight p = Some None"

lemmas verify_defs = Verify_def verify_open_def verify_check_def

lemma Verify_accepts:
  assumes "admitted_proof codec fk v now raw h p" "Proof_ID p = Inr pid" "\<not> Seen pid (Dedup st)" "passes F fk v h pid p (Quarantine st)"
  shows "Verify F codec fk v now raw h st = Some (pid, None, st\<lparr>Dedup := ProofIDSet_Record pid (PHeight p) (Dedup st)\<rparr>)"
  using assms by (auto simp: verify_defs passes_def admitted_proof_def)

lemma Verify_acceptedE:
  assumes "Verify F codec fk v now raw h st = Some (pid, None, st')"
  obtains p where "admitted_proof codec fk v now raw h p" "Proof_ID p = Inr pid" "\<not> Seen pid (Dedup st)"
    "passes F fk v h pid p (Quarantine st)" "st' = st\<lparr>Dedup := ProofIDSet_Record pid (PHeight p) (Dedup st)\<rparr>"
  using assms unfolding verify_defs passes_def admitted_proof_def
  by (auto split: sum.splits option.splits if_splits bool.splits)

lemma Verify_rejected:
  assumes "Verify F codec fk v now raw h st = Some (pid, Some r, st')"
  shows "Dedup st' = Dedup st \<and> (r \<noteq> ReasonBatchFraud \<longrightarrow> st' = st)"
  using assms unfolding verify_defs
  by (auto split: sum.splits option.splits if_splits bool.splits)


text \<open>A verifier that \<open>NewVerifier\<close> built never panics, if its provider hands out usable data sets only.\<close>

lemma verify_never_panics:
  assumes "NewVerifier cfg = Inr (v, st0)" "sha3_ok F" "\<forall>e d. v_DAGProvider v e = Some d \<longrightarrow> (\<exists>g. d = Some g \<and> dag_total g)"
  shows "Verify F codec fk v now raw h st \<noteq> None"
proof -
  have "EP_BlocksPerEpoch (v_EpochParams v) \<noteq> 0"
    using assms(1) by (auto simp: NewVerifier_def EpochParams_Validate_def split: sum.splits option.splits if_splits)
  then have c: "chain_gate v h p \<noteq> None" for p by (auto simp: chain_gate_def MiningEpochForHeight_def split: option.splits)
  have w: "work_gate F fk v p \<noteq> None" for p
  proof (cases "v_DAGProvider v (PEpoch p)")
    case (Some d)
    then obtain g where "d = Some g" "dag_total g" using assms(3) by blast
    then show ?thesis
      using Some mix_total [OF assms(2), of g fk "PHeight p" "HeaderHash p" "PNonce p"] by (auto simp: work_gate_def split: option.splits sum.splits)
  qed (simp add: work_gate_def)
  have sp: "spot_check v ws pid p \<noteq> None" if "Proof_ID p = Inr pid" for ws pid p
  proof -
    have "length pid = 32" using that by (auto simp: Proof_ID_def split: sum.splits)
    then have "Uint32BE pid \<noteq> None" by (cases pid rule: Uint32BE.cases) auto
    then show ?thesis by (auto simp: spot_check_def deterministicSpotIndex_def go_mod_def split: option.splits)
  qed
  show ?thesis
    using c [THEN notE] w [THEN notE] sp [THEN notE] by (auto simp: verify_defs split: sum.splits option.splits bool.splits)
qed

section \<open>A proof is accepted once\<close>

text \<open>A submission is the bytes, the accept height and the time of the call.\<close>

fun verify_run ::
    "Sha3Fns \<Rightarrow> ProofCodec \<Rightarrow> ForkHeights \<Rightarrow> Verifier \<Rightarrow> (bytes \<times> u64 \<times> go_time) list \<Rightarrow> VerifierState \<Rightarrow> ((bytes \<times> u64) list \<times> VerifierState) option" where
  "verify_run F codec fk v [] st = Some ([], st)"
| "verify_run F codec fk v ((raw, h, now) # subs) st =
     (case Verify F codec fk v now raw h st of None \<Rightarrow> None | Some (pid, r, st') \<Rightarrow>
      case verify_run F codec fk v subs st' of None \<Rightarrow> None | Some (acc, st'') \<Rightarrow>
        Some (if r = None then (pid, PHeight (projr (read_proof codec raw))) # acc else acc, st''))"

definition covered :: "u64 \<Rightarrow> u64 \<Rightarrow> ProofIDSet \<Rightarrow> bytes \<times> u64 \<Rightarrow> bool" where
  "covered grace h s a \<longleftrightarrow> fmlookup (byHeight s) (fst a) = Some (snd a) \<or> unat (snd a) + unat grace < unat h"

lemma Record_lookup:
  "fmlookup (byHeight (ProofIDSet_Record pid w s)) k =
     (if k = pid then Some w
      else case fmlookup (byHeight s) k of None \<Rightarrow> None
        | Some x \<Rightarrow> if unat x + unat (retainWindow s) < unat w then None else Some x)"
proof -
  have "x < w - retainWindow s \<longleftrightarrow> unat x + unat (retainWindow s) < unat w" if "\<not> w \<le> retainWindow s" for x
    using that by (auto simp: word_less_nat_alt unat_diff_le)
  moreover have "w < w - retainWindow s \<longleftrightarrow> False" if "\<not> w \<le> retainWindow s"
    using that word_sub_le_self [of "retainWindow s" w] by (meson leD less_imp_le not_le)
  ultimately show ?thesis
    by (auto simp: ProofIDSet_Record_def Let_def word_le_nat_alt split: option.splits)
qed

lemma retainWindow_Record [simp]: "retainWindow (ProofIDSet_Record pid w s) = retainWindow s"
  by (simp add: ProofIDSet_Record_def Let_def)

lemma covered_mono: "covered g h s a \<Longrightarrow> h \<le> h' \<Longrightarrow> covered g h' s a"
  by (auto simp: covered_def word_le_nat_alt)

lemma covered_record:
  assumes "covered g h s a" "g \<le> retainWindow s" "w \<le> h" "\<not> Seen pid s"
  shows "covered g h (ProofIDSet_Record pid w s) a"
  using assms by (auto simp: covered_def Record_lookup Seen_def word_le_nat_alt)

lemma accepted_in_window:
  assumes "chain_gate v h p = Some None"
  shows "PHeight p \<le> h" "unat h \<le> unat (PHeight p) + unat (grace_of v)"
proof -
  show le: "PHeight p \<le> h" using assms by (auto simp: chain_gate_def split: if_splits)
  have "h - PHeight p \<le> grace_of v" using assms by (auto simp: chain_gate_def split: if_splits)
  then show "unat h \<le> unat (PHeight p) + unat (grace_of v)" using le by (simp add: word_le_nat_alt unat_diff_le)
qed

lemma accepts_once:
  assumes "verify_run F codec fk v subs st = Some (acc, st')" "sorted (map (fst \<circ> snd) subs)" "grace_of v \<le> retainWindow (Dedup st)"
    and "\<forall>a\<in>A. \<forall>s\<in>set subs. covered (grace_of v) (fst (snd s)) (Dedup st) a"
  shows "distinct acc \<and> set acc \<inter> A = {}"
  using assms
proof (induction subs arbitrary: st acc A)
  case Nil
  then show ?case by simp
next
  case (Cons sub subs)
  obtain raw h now where s: "sub = (raw, h, now)" by (cases sub) auto
  obtain pid r st1 where V: "Verify F codec fk v now raw h st = Some (pid, r, st1)"
    using Cons.prems(1) by (auto simp: s split: option.splits)
  obtain acc1 where R: "verify_run F codec fk v subs st1 = Some (acc1, st')"
    and acc: "acc = (if r = None then (pid, PHeight (projr (read_proof codec raw))) # acc1 else acc1)"
    using Cons.prems(1) V by (auto simp: s split: option.splits prod.splits)
  have later: "h \<le> fst (snd x)" if "x \<in> set subs" for x using Cons.prems(2) that by (auto simp: s)
  have sub: "sorted (map (fst \<circ> snd) subs)" using Cons.prems(2) by (simp add: comp_def)
  show ?case
  proof (cases r)
    case (Some reason)
    then have "Dedup st1 = Dedup st" using Verify_rejected [of F codec fk v now raw h st pid reason st1] V by simp
    then show ?thesis using Cons.IH [OF R sub, of A] Cons.prems(3,4) acc Some by simp
  next
    case None
    obtain p where p: "admitted_proof codec fk v now raw h p" "\<not> Seen pid (Dedup st)"
      "st1 = st\<lparr>Dedup := ProofIDSet_Record pid (PHeight p) (Dedup st)\<rparr>"
      using V None by (auto elim: Verify_acceptedE)
    have w: "PHeight p \<le> h" "unat h \<le> unat (PHeight p) + unat (grace_of v)"
      using p(1) accepted_in_window [of v h p] by (simp_all add: admitted_proof_def)
    have pr: "projr (read_proof codec raw) = p" using p(1) by (simp add: admitted_proof_def)
    let ?a = "(pid, PHeight p)"
    have "?a \<notin> A"
      using Cons.prems(4) p(2) w(2) by (auto simp: s covered_def Seen_def)
    moreover have "covered (grace_of v) (fst (snd x)) (Dedup st1) a" if "a \<in> insert ?a A" "x \<in> set subs" for a x
    proof (cases "a = ?a")
      case True
      then show ?thesis by (simp add: covered_def p(3) Record_lookup)
    next
      case False
      then have "covered (grace_of v) (fst (snd x)) (Dedup st) a" using that Cons.prems(4) by auto
      moreover have "PHeight p \<le> fst (snd x)" using w(1) later [OF that(2)] by (rule order_trans)
      ultimately show ?thesis using covered_record Cons.prems(3) p(2,3) by simp
    qed
    then have "distinct acc1 \<and> set acc1 \<inter> insert ?a A = {}"
      using Cons.IH [OF R sub, of "insert ?a A"] Cons.prems(3) p(3) by simp
    ultimately show ?thesis using acc None pr by simp
  qed
qed

text \<open>Uninterrupted calls with non-decreasing accept heights and a retention of at least the grace window accept no proof twice.\<close>

theorem sequential_calls_accept_once:
  assumes "verify_run F codec fk v subs st = Some (acc, st')" "sorted (map (fst \<circ> snd) subs)" "grace_of v \<le> retainWindow (Dedup st)"
  shows "distinct acc"
  using accepts_once [OF assms, of "{}"] by simp

section \<open>Overlapping calls\<close>

text \<open>
  Calls in flight: each has passed \<open>verify_open\<close> and remembers how many proofs had been accepted when it did; then it is judged, then it
  leaves. The log lists the accepted proofs in order: identifier, height and that number. Every step may have its own \<open>Verifier\<close>, so the
  chain, the work sets and the attestation verifier (which remembers nonces) may answer differently every time; only the grace window \<open>g\<close>
  is the same. Accept heights may go back, but not further than the retention exceeds the grace window.
\<close>

record flight =
  fl_Height :: u64
  fl_ID :: bytes
  fl_Proof :: Proof
  fl_Entered :: nat
  fl_Verdict :: "verdict option"

record flights =
  fs_State :: VerifierState
  fs_Calls :: "(nat, flight) fmap"
  fs_Log :: "(bytes \<times> u64 \<times> nat) list"
  fs_Top :: nat

inductive verify_step :: "Sha3Fns \<Rightarrow> ProofCodec \<Rightarrow> ForkHeights \<Rightarrow> u64 \<Rightarrow> flights \<Rightarrow> flights \<Rightarrow> bool" for F codec fk g where
  enter: "\<lbrakk>fmlookup (fs_Calls S) i = None; grace_of v = g;
      fs_Top S + unat g \<le> unat h + unat (retainWindow (Dedup (fs_State S)));
      verify_open codec fk v now raw h (Dedup (fs_State S)) = Some (OpenPassed pid p)\<rbrakk> \<Longrightarrow>
    verify_step F codec fk g S (S\<lparr>fs_Top := max (fs_Top S) (unat h),
      fs_Calls := fmupd i \<lparr>fl_Height = h, fl_ID = pid, fl_Proof = p, fl_Entered = length (fs_Log S), fl_Verdict = None\<rparr> (fs_Calls S)\<rparr>)"
| enter_rejected: "verify_open codec fk v now raw h (Dedup (fs_State S)) = Some (OpenRejected pid r) \<Longrightarrow> verify_step F codec fk g S S"
| check: "\<lbrakk>fmlookup (fs_Calls S) i = Some c; fl_Verdict c = None;
      verify_check F fk v (fl_Height c) (fl_ID c) (fl_Proof c) (Quarantine (fs_State S)) = Some vd\<rbrakk> \<Longrightarrow>
    verify_step F codec fk g S (S\<lparr>fs_Calls := fmupd i (c\<lparr>fl_Verdict := Some vd\<rparr>) (fs_Calls S)\<rparr>)"
| leave: "\<lbrakk>fmlookup (fs_Calls S) i = Some c; fl_Verdict c = Some vd;
      verify_close (fl_Height c) (fl_ID c) (fl_Proof c) vd (fs_State S) = (r, st')\<rbrakk> \<Longrightarrow>
    verify_step F codec fk g S (S\<lparr>fs_State := st', fs_Calls := fmdrop i (fs_Calls S),
      fs_Log := (if r = None then fs_Log S @ [(fl_ID c, PHeight (fl_Proof c), fl_Entered c)] else fs_Log S)\<rparr>)"

definition no_flights :: "VerifierState \<Rightarrow> flights" where
  "no_flights st = \<lparr>fs_State = st, fs_Calls = fmempty, fs_Log = [], fs_Top = 0\<rparr>"

text \<open>One identifier names one height: two accepted proofs that break it are a SHA-256 collision.\<close>

definition one_height :: "(bytes \<times> u64 \<times> nat) list \<Rightarrow> bool" where
  "one_height xs \<longleftrightarrow> (\<forall>a\<in>set xs. \<forall>b\<in>set xs. fst a = fst b \<longrightarrow> fst (snd a) = fst (snd b))"

text \<open>
  The invariant: an accepted identifier is remembered or too old; a call in flight entered when its proof was not in the log, and its
  heights are below the top; the log entries carry the fact of their call.
\<close>

definition flight_ok :: "flights \<Rightarrow> flight \<Rightarrow> bool" where
  "flight_ok S c \<longleftrightarrow> PHeight (fl_Proof c) \<le> fl_Height c \<and> unat (fl_Height c) \<le> fs_Top S \<and> fl_Entered c \<le> length (fs_Log S) \<and>
     (\<forall>j < fl_Entered c. (fst (fs_Log S ! j), fst (snd (fs_Log S ! j))) \<noteq> (fl_ID c, PHeight (fl_Proof c)))"

definition log_ok :: "(bytes \<times> u64 \<times> nat) list \<Rightarrow> bool" where
  "log_ok xs \<longleftrightarrow> (\<forall>k < length xs. \<forall>j < k. fst (xs ! j) = fst (xs ! k) \<longrightarrow> snd (snd (xs ! k)) \<le> j)"

definition flights_inv :: "flights \<Rightarrow> bool" where
  "flights_inv S \<longleftrightarrow>
     (\<forall>i c. fmlookup (fs_Calls S) i = Some c \<longrightarrow> flight_ok S c) \<and> log_ok (fs_Log S) \<and>
     (\<forall>a\<in>set (fs_Log S). fmlookup (byHeight (Dedup (fs_State S))) (fst a) = Some (fst (snd a)) \<or>
        unat (fst (snd a)) + unat (retainWindow (Dedup (fs_State S))) < fs_Top S)"

lemma one_heightD: "\<lbrakk>one_height xs; a \<in> set xs; b \<in> set xs; fst a = fst b\<rbrakk> \<Longrightarrow> fst (snd a) = fst (snd b)"
  unfolding one_height_def by blast

lemma one_height_snoc: "one_height (xs @ ys) \<Longrightarrow> one_height xs"
  by (auto simp: one_height_def)

lemma verify_openE:
  assumes "verify_open codec fk v now raw h seen = Some (OpenPassed pid p)"
  shows "admitted_proof codec fk v now raw h p" "Proof_ID p = Inr pid" "\<not> Seen pid seen"
  using assms by (auto simp: verify_open_def admitted_proof_def split: sum.splits option.splits if_splits)

lemma entering_is_new:
  assumes "flights_inv S" "verify_open codec fk v now raw h (Dedup (fs_State S)) = Some (OpenPassed pid p)"
    and "fs_Top S + unat (grace_of v) \<le> unat h + unat (retainWindow (Dedup (fs_State S)))" "a \<in> set (fs_Log S)"
  shows "(fst a, fst (snd a)) \<noteq> (pid, PHeight p)"
proof
  assume eq: "(fst a, fst (snd a)) = (pid, PHeight p)"
  note o = verify_openE [OF assms(2)]
  have "unat h \<le> unat (PHeight p) + unat (grace_of v)"
    using o(1) accepted_in_window [of v h p] by (simp add: admitted_proof_def)
  moreover have "unat (fst (snd a)) + unat (retainWindow (Dedup (fs_State S))) < fs_Top S"
    using assms(1,4) o(3) eq by (auto simp: flights_inv_def Seen_def)
  ultimately show False using assms(3) eq by simp
qed

lemma flight_ok_mono:
  "flight_ok S c \<Longrightarrow> fs_Top S \<le> fs_Top S' \<Longrightarrow> fs_Log S' = fs_Log S @ ys \<Longrightarrow> flight_ok S' c"
  by (auto simp: flight_ok_def nth_append)

lemma log_ok_snoc:
  fixes xs :: "(bytes \<times> u64 \<times> nat) list"
  assumes "log_ok xs" "one_height (xs @ [(pid, w, n)])" "n \<le> length xs"
    and "\<forall>j < n. (fst (xs ! j), fst (snd (xs ! j))) \<noteq> (pid, w)"
  shows "log_ok (xs @ [(pid, w, n)])"
  unfolding log_ok_def
proof (intro allI impI)
  fix k j
  assume k: "k < length (xs @ [(pid, w, n)])" and j: "j < k" and eq: "fst ((xs @ [(pid, w, n)]) ! j) = fst ((xs @ [(pid, w, n)]) ! k)"
  show "snd (snd ((xs @ [(pid, w, n)]) ! k)) \<le> j"
  proof (cases "k < length xs")
    case True
    then show ?thesis using assms(1) j eq by (simp add: log_ok_def nth_append)
  next
    case False
    then have kl: "k = length xs" "j < length xs" using k j by auto
    then have e: "fst (xs ! j) = pid" "xs ! j \<in> set xs" using eq by (simp_all add: nth_append)
    then have "fst (snd (xs ! j)) = w" using one_heightD [OF assms(2), of "xs ! j" "(pid, w, n)"] by simp
    then have "\<not> j < n" using assms(4) e(1) by auto
    then show ?thesis using kl by (simp add: nth_append)
  qed
qed

lemma record_keeps:
  fixes xs :: "(bytes \<times> u64 \<times> nat) list"
  assumes "\<forall>a\<in>set xs. fmlookup (byHeight d) (fst a) = Some (fst (snd a)) \<or> unat (fst (snd a)) + unat (retainWindow d) < m"
    and "one_height (xs @ [(pid, w, n)])" "unat w \<le> m" "a \<in> set (xs @ [(pid, w, n)])"
  shows "fmlookup (byHeight (ProofIDSet_Record pid w d)) (fst a) = Some (fst (snd a)) \<or> unat (fst (snd a)) + unat (retainWindow d) < m"
proof (cases "fst a = pid")
  case True
  then have "fst (snd a) = w" using one_heightD [OF assms(2,4), of "(pid, w, n)"] by simp
  then show ?thesis using True by (simp add: Record_lookup)
next
  case False
  then have "a \<in> set xs" using assms(4) by auto
  then show ?thesis using assms(1,3) False by (auto simp: Record_lookup)
qed

lemma verify_step_inv:
  assumes "verify_step F codec fk g S S'"
  shows "(\<exists>ys. fs_Log S' = fs_Log S @ ys) \<and>
    (flights_inv S \<longrightarrow> one_height (fs_Log S') \<longrightarrow> flights_inv S')"
  using assms
proof cases
  case (enter i v h now raw pid p)
  let ?c = "\<lparr>fl_Height = h, fl_ID = pid, fl_Proof = p, fl_Entered = length (fs_Log S), fl_Verdict = None\<rparr>"
  have S': "fs_State S' = fs_State S" "fs_Log S' = fs_Log S" "fs_Top S \<le> fs_Top S'" "unat h \<le> fs_Top S'" "fs_Calls S' = fmupd i ?c (fs_Calls S)"
    using enter(1) by simp_all
  have "flights_inv S'" if inv: "flights_inv S"
  proof -
    have "PHeight p \<le> h" using verify_openE(1) [OF enter(5)] accepted_in_window(1) [of v h p] by (simp add: admitted_proof_def)
    then have "flight_ok S' ?c"
      using entering_is_new [OF inv enter(5)] enter(3,4) S' by (auto simp: flight_ok_def)
    moreover have "flight_ok S' c" if "fmlookup (fs_Calls S) k = Some c" for k c
      using flight_ok_mono [of S c S' "[]"] inv that S' by (auto simp: flights_inv_def)
    ultimately show ?thesis using inv S' by (force simp: flights_inv_def)
  qed
  then show ?thesis using S' by simp
next
  case enter_rejected
  then show ?thesis by simp
next
  case (check i c v vd)
  have "flight_ok S' c'" if "flights_inv S" "fmlookup (fs_Calls S') k = Some c'" for k c'
    using that check flight_ok_mono [of S _ S' "[]"] by (auto simp: flights_inv_def flight_ok_def split: if_splits)
  then show ?thesis using check(1) by (auto simp: flights_inv_def)
next
  case (leave i c vd r st')
  have calls: "flight_ok S' c'" if "flights_inv S" "fmlookup (fs_Calls S') k = Some c'" for k c'
    using that leave(1) flight_ok_mono [of S c' S'] by (auto simp: flights_inv_def split: if_splits)
  show ?thesis
  proof (cases "r = None")
    case False
    then have "Dedup st' = Dedup (fs_State S)" using leave(4) by (cases vd) auto
    then show ?thesis using leave(1) False calls by (auto simp: flights_inv_def)
  next
    case True
    let ?w = "PHeight (fl_Proof c)" and ?d = "Dedup (fs_State S)"
    have d: "Dedup st' = ProofIDSet_Record (fl_ID c) ?w ?d" using leave(4) True by (cases vd) auto
    have S': "fs_Log S' = fs_Log S @ [(fl_ID c, ?w, fl_Entered c)]" "fs_Top S' = fs_Top S" "Dedup (fs_State S') = Dedup st'"
      using leave(1) True by simp_all
    have "flights_inv S'" if inv: "flights_inv S" and one: "one_height (fs_Log S')"
    proof -
      have ok: "flight_ok S c" using inv leave(2) by (auto simp: flights_inv_def)
      then have top: "unat ?w \<le> fs_Top S" by (auto simp: flight_ok_def word_le_nat_alt)
      have "log_ok (fs_Log S')"
        unfolding S'(1) by (rule log_ok_snoc) (use inv ok one S'(1) in \<open>auto simp: flights_inv_def flight_ok_def\<close>)
      moreover have "\<forall>a\<in>set (fs_Log S'). fmlookup (byHeight (Dedup st')) (fst a) = Some (fst (snd a)) \<or>
          unat (fst (snd a)) + unat (retainWindow ?d) < fs_Top S"
        unfolding S'(1) d using record_keeps [OF _ one [unfolded S'(1)] top] inv by (auto simp: flights_inv_def)
      ultimately show ?thesis using calls [OF inv] S' d by (simp add: flights_inv_def)
    qed
    then show ?thesis using S' d by simp
  qed
qed

lemma verify_steps_inv:
  assumes "(verify_step F codec fk g)\<^sup>*\<^sup>* (no_flights st) S"
  shows "one_height (fs_Log S) \<longrightarrow> flights_inv S"
  using assms
proof (induction rule: rtranclp_induct)
  case base
  show ?case by (simp add: no_flights_def flights_inv_def log_ok_def)
next
  case (step S S')
  then show ?case using verify_step_inv [OF step(2)] one_height_snoc by metis
qed

text \<open>
  C26: A proof is accepted once, unless calls overlap. Let calls of the verifier enter, be judged and leave in any interleaving, where the
  accept heights may go back, but never by more than the retention of seen identifiers exceeds the grace window. When two acceptances have
  the same identifier, the later of the two calls had looked into the set of seen identifiers before the earlier one was
  recorded: the calls overlapped. So a proof that was accepted is never accepted by a call that starts afterwards. (It is assumed that no
  identifier is accepted for two heights, which would be a collision of SHA-256.)
\<close>

theorem proof_is_accepted_once:
  assumes "(verify_step F codec fk g)\<^sup>*\<^sup>* (no_flights st) S" "one_height (fs_Log S)"
    and "j < k" "k < length (fs_Log S)" "fst (fs_Log S ! j) = fst (fs_Log S ! k)"
  shows "snd (snd (fs_Log S ! k)) \<le> j"
  using verify_steps_inv [OF assms(1)] assms(2-5) by (auto simp: flights_inv_def log_ok_def)

text \<open>Overlapping calls do accept twice: whatever the verifier accepts, two calls that both look before either records accept it both.\<close>

theorem overlapping_calls_accept_twice:
  assumes "Verify F codec fk v now raw h st = Some (pid, None, st')" "grace_of v \<le> retainWindow (Dedup st)"
  shows "\<exists>S. (verify_step F codec fk (grace_of v))\<^sup>*\<^sup>* (no_flights st) S \<and> map fst (fs_Log S) = [pid, pid] \<and>
    one_height (fs_Log S)"
proof -
  obtain p where o: "verify_open codec fk v now raw h (Dedup st) = Some (OpenPassed pid p)"
    and c: "verify_check F fk v h pid p (Quarantine st) = Some VerdictAccept"
    using assms(1) by (auto simp: Verify_def split: option.splits opened.splits) (metis option.distinct(1) prod.inject verdict.exhaust verify_close.simps(1,2))
  let ?step = "verify_step F codec fk (grace_of v)"
  let ?c = "\<lparr>fl_Height = h, fl_ID = pid, fl_Proof = p, fl_Entered = 0, fl_Verdict = None\<rparr>"
  let ?j = "?c\<lparr>fl_Verdict := Some VerdictAccept\<rparr>"
  let ?d = "ProofIDSet_Record pid (PHeight p) (Dedup st)"
  let ?S0 = "no_flights st"
  let ?S1 = "?S0\<lparr>fs_Top := unat h, fs_Calls := fmupd 0 ?c fmempty\<rparr>"
  let ?S2 = "?S1\<lparr>fs_Calls := fmupd 1 ?c (fmupd 0 ?c fmempty)\<rparr>"
  let ?S3 = "?S2\<lparr>fs_Calls := fmupd 0 ?j (fmupd 1 ?c (fmupd 0 ?c fmempty))\<rparr>"
  let ?S4 = "?S3\<lparr>fs_Calls := fmupd 1 ?j (fs_Calls ?S3)\<rparr>"
  let ?S5 = "?S4\<lparr>fs_State := st\<lparr>Dedup := ?d\<rparr>, fs_Calls := fmdrop 0 (fs_Calls ?S4), fs_Log := [(pid, PHeight p, 0)]\<rparr>"
  let ?S6 = "?S5\<lparr>fs_State := st\<lparr>Dedup := ProofIDSet_Record pid (PHeight p) ?d\<rparr>, fs_Calls := fmdrop 1 (fs_Calls ?S5),
    fs_Log := [(pid, PHeight p, 0), (pid, PHeight p, 0)]\<rparr>"
  have g: "unat (grace_of v) \<le> unat (retainWindow (Dedup st))" using assms(2) by (simp add: word_le_nat_alt)
  have 1: "?step ?S0 ?S1"
    using verify_step.enter [of ?S0 0 v "grace_of v" h codec fk now raw pid p F] o g by (simp add: no_flights_def)
  have 2: "?step ?S1 ?S2"
    using verify_step.enter [of ?S1 1 v "grace_of v" h codec fk now raw pid p F] o g by (simp add: no_flights_def)
  have 3: "?step ?S2 ?S3"
    using verify_step.check [of ?S2 0 ?c F fk v VerdictAccept codec "grace_of v"] c by (simp add: no_flights_def)
  have 4: "?step ?S3 ?S4"
    using verify_step.check [of ?S3 1 ?c F fk v VerdictAccept codec "grace_of v"] c by (simp add: no_flights_def)
  have 5: "?step ?S4 ?S5"
    using verify_step.leave [of ?S4 0 ?j VerdictAccept None "st\<lparr>Dedup := ?d\<rparr>" F codec fk "grace_of v"] by (simp add: no_flights_def)
  have 6: "?step ?S5 ?S6"
    using verify_step.leave [of ?S5 1 ?j VerdictAccept None "st\<lparr>Dedup := ProofIDSet_Record pid (PHeight p) ?d\<rparr>" F codec fk "grace_of v"]
    by (simp add: no_flights_def)
  have "?step\<^sup>*\<^sup>* ?S0 ?S6"
    using 1 2 3 4 5 6 by (meson converse_rtranclp_into_rtranclp rtranclp.rtrancl_refl)
  then show ?thesis by (intro exI [of _ ?S6]) (simp add: one_height_def)
qed

section \<open>A solved proof is accepted\<close>

lemma is_ascii_append [simp]: "is_ascii (s @ t) \<longleftrightarrow> is_ascii s \<and> is_ascii t"
  by (simp add: is_ascii_def)
lemma is_ascii_Cons [simp]: "is_ascii (c # t) \<longleftrightarrow> (of_char c :: nat) < 128 \<and> is_ascii t" "is_ascii []"
  by (simp_all add: is_ascii_def)

lemma digit_ascii: "of_char (digit_char n) < (128 :: nat)"
proof -
  have "list_all (\<lambda>k. of_char (digit_char k) < (128 :: nat)) [0..<10]" by code_simp
  then show ?thesis using digit_char_mod [of n] by (simp add: list_all_iff)
qed

lemma hex_digit_ascii: "of_char (hex_digit n) < (128 :: nat)"
proof -
  have "list_all (\<lambda>k. of_char (hex_digit k) < (128 :: nat)) [0..<16]" by code_simp
  then have "of_char (hex_digit (n mod 16)) < (128 :: nat)" by (simp add: list_all_iff)
  then show ?thesis by (simp add: hex_digit_def)
qed

lemma show_nat_ascii: "is_ascii (show_nat n)"
  by (induction n rule: show_nat.induct) (subst show_nat.simps, simp add: digit_ascii)

lemma hex_encode_ascii: "is_ascii (hex_encode bs)"
  by (induction bs) (simp_all add: hex_encode_def hex_digit_ascii)

lemma empty_attestation_ascii:
  assumes "PVersion p = ProtocolVersion" "PAttestation p = empty_attestation"
  shows "is_ascii (marshal_attestation p)"
proof -
  have "is_ascii (html_escape (json_object ([json_field ''type'' (json_string []), json_field ''bundle'' (json_string []), json_field ''gpu_arch'' (json_string []),
         json_field ''claimed_hashrate_hps'' (show_nat 0)])))" by code_simp
  then show ?thesis using assms by (simp add: marshal_attestation_def empty_attestation_def ProtocolVersion_def ProtocolVersionV2_def word_le_nat_alt Let_def)
qed

lemma commas_ascii: "list_all is_ascii fs \<Longrightarrow> is_ascii (commas fs)"
  by (induction fs rule: commas.induct) simp_all

lemma canonical_ascii:
  assumes "PVersion p = ProtocolVersion" "PAttestation p = empty_attestation" "is_ascii (MinerAddr p)" "CanonicalJSON p = Inr c"
  shows "is_ascii c"
proof -
  have "list_all is_ascii (proof_fields p)"
    using assms(3) by (simp add: proof_fields_def appendJSONField_def show_nat_ascii hex_encode_ascii)
  then have "is_ascii (json_object (proof_fields p @ [CHR 0x22 # ''attestation'' @ [CHR 0x22, CHR 0x3A] @ marshal_attestation p]))"
    using empty_attestation_ascii [OF assms(1,2)] by (simp add: json_object_def commas_ascii)
  then show ?thesis using assms(4) by (auto simp: CanonicalJSON_def canonicalBytes_def split: option.splits)
qed
lemma toProof_toWire_v1:
  assumes "proof_shape p" "\<not> PVersion p \<ge> ProtocolVersionV2" "ANonce (PAttestation p) = replicate 32 0" "AIssuedAt (PAttestation p) = 0"
  shows "toProof (toWire p) = Inr p"
  using assms by (simp add: toProof_def toWire_def toAttestation_def proof_shape_def decodeHexInto_encode Let_def)

lemma TrimSpace_object:
  assumes "is_ascii (json_object fs)"
  shows "TrimSpace uni (json_object fs) = json_object fs"
proof -
  have "\<not> ascii_space CHR 0x7B" "\<not> ascii_space CHR 0x7D" by (simp_all add: ascii_space_def)
  then show ?thesis using assms by (simp add: TrimSpace_def json_object_def)
qed

lemma string_of_bytes_inverse: "string_of_bytes (bytes_of_string s) = s"
proof -
  have "unat (of_nat (of_char c) :: u8) = of_char c" for c :: char
    using nat_of_char_less_256 [of c] by (simp add: unat_of_nat take_bit_nat_eq_self)
  then show ?thesis by (simp add: string_of_bytes_def bytes_of_string_def comp_def del: of_nat_of_char)
qed

lemma walk_length:
  assumes "\<forall>mix e. length (body mix e) = 32" "length mix = 32" "walk body d k mix = Some (Inr out)"
  shows "length out = 32"
  using assms(2,3)
proof (induction k arbitrary: mix)
  case (Suc k)
  then obtain e where "walk body d k (body mix e) = Some (Inr out)" by (auto split: option.splits sum.splits)
  then show ?case using Suc.IH assms(1) by blast
qed simp

lemma mix_length: "sha3_ok F \<Longrightarrow> mix_at F fk h hh nonce d = Some (Inr mix) \<Longrightarrow> length mix = 32"
  by (auto simp: mix_at_def ComputeMixDigest_def ComputeMixDigestV2_def sha3_ok_def tc_body_def split: if_splits option.splits
      dest!: walk_length [rotated 2])

lemma solve_loop_result:
  assumes "solve_loop F fk cancelled p i nonce a = Some y"
  shows "\<forall>res. y = Inr res \<longrightarrow> (\<exists>j m. hit F fk p ((incrementNonce ^^ j) nonce) m \<and> sr_Proof res = solved_proof p ((incrementNonce ^^ j) nonce) m)"
proof (rule solve_loop.raw_induct [OF _ assms, where P = "\<lambda>F fk cancelled p i nonce a y. \<forall>res. y = Inr res \<longrightarrow>
      (\<exists>j m. hit F fk p ((incrementNonce ^^ j) nonce) m \<and> sr_Proof res = solved_proof p ((incrementNonce ^^ j) nonce) m)"])
  fix f F fk cancelled p i nonce a y
  assume IH: "\<And>F fk cancelled p i nonce a y. f F fk cancelled p i nonce a = Some y \<Longrightarrow> \<forall>res. y = Inr res \<longrightarrow>
      (\<exists>j m. hit F fk p ((incrementNonce ^^ j) nonce) m \<and> sr_Proof res = solved_proof p ((incrementNonce ^^ j) nonce) m)"
    and eq: "(if cancelled i then Some (Inl ErrCancelled)
      else Option.bind (mix_at F fk (sp_Height p) (sp_HeaderHash p) nonce (sp_DAG p)) (\<lambda>r.
        case r of Inl e \<Rightarrow> Some (Inl (ErrSolverMix e))
        | Inr mix \<Rightarrow>
            if MeetsTarget (ProofPoWHash F (sp_HeaderHash p) nonce (sp_BatchRoot p) mix) (sp_Target p)
            then Some (Inr \<lparr>sr_Proof = solved_proof p nonce mix, sr_Attempts = a + 1\<rparr>)
            else f F fk cancelled p (i + 1) (incrementNonce nonce) (a + 1))) = Some y"
  show "\<forall>res. y = Inr res \<longrightarrow>
      (\<exists>j m. hit F fk p ((incrementNonce ^^ j) nonce) m \<and> sr_Proof res = solved_proof p ((incrementNonce ^^ j) nonce) m)"
  proof (intro allI impI)
    fix res assume y: "y = Inr res"
    then have c: "\<not> cancelled i" using eq by auto
    then obtain r where r: "mix_at F fk (sp_Height p) (sp_HeaderHash p) nonce (sp_DAG p) = Some r"
      using eq by (cases "mix_at F fk (sp_Height p) (sp_HeaderHash p) nonce (sp_DAG p)") auto
    then obtain mix where m: "r = Inr mix" using eq y c by (cases r) auto
    show "\<exists>j m. hit F fk p ((incrementNonce ^^ j) nonce) m \<and> sr_Proof res = solved_proof p ((incrementNonce ^^ j) nonce) m"
    proof (cases "hit F fk p nonce mix")
      case True
      then have "sr_Proof res = solved_proof p nonce mix" using eq y c r m by (auto simp: hit_def)
      then show ?thesis using True by (intro exI [of _ 0]) auto
    next
      case False
      then have "f F fk cancelled p (i + 1) (incrementNonce nonce) (a + 1) = Some y" using eq c r m by (auto simp: hit_def)
      from IH [OF this] y obtain j mm where "hit F fk p ((incrementNonce ^^ j) (incrementNonce nonce)) mm"
        "sr_Proof res = solved_proof p ((incrementNonce ^^ j) (incrementNonce nonce)) mm" by blast
      then show ?thesis by (intro exI [of _ "Suc j"]) (auto simp: funpow_swap1)
    qed
  qed
qed

lemma solve_result:
  assumes "Solve F fk cancelled drawn p start = Some (Inr res)" "\<forall>n. start = Some n \<or> drawn = Some n \<longrightarrow> length n = 16"
  obtains n m where "SolverParams_Validate p = None" "length n = 16" "hit F fk p n m" "sr_Proof res = solved_proof p n m"
proof -
  have v: "SolverParams_Validate p = None" using assms(1) by (auto simp: Solve_def split: option.splits)
  then obtain s where s: "start = Some s \<or> drawn = Some s" "solve_loop F fk cancelled p 0 s 0 = Some (Inr res)"
    using assms(1) by (auto simp: Solve_def split: option.splits)
  obtain j m where "hit F fk p ((incrementNonce ^^ j) s) m" "sr_Proof res = solved_proof p ((incrementNonce ^^ j) s) m"
    using solve_loop_result [OF s(2)] by blast
  moreover have "length ((incrementNonce ^^ j) s) = 16" using assms(2) s(1) iterate_nonce(1) [of j s] by auto
  ultimately show ?thesis using that v by blast
qed


text \<open>The validator's view agrees with the search: the chain, the work-set, the data set and the target are those the miner used.\<close>

definition serves :: "Verifier \<Rightarrow> SolverParams \<Rightarrow> u64 \<Rightarrow> bool" where
  "serves v p acceptHeight \<longleftrightarrow>
     sp_Height p \<le> acceptHeight \<and> acceptHeight - sp_Height p \<le> grace_of v \<and>
     MiningEpochForHeight (v_EpochParams v) (sp_Height p) = Some (sp_Epoch p) \<and>
     v_HeaderHashAt v (sp_Height p) = Some (sp_HeaderHash p) \<and>
     (\<exists>ws. v_WorkSetProvider v (sp_Epoch p) = Some ws \<and> WorkSet_Validate ws = Inr () \<and>
        unat (sp_BatchCount p) \<le> max 1 ((length (Batches ws) + 15) div 16) \<and> PrefixRoot ws (sp_BatchCount p) = Inr (sp_BatchRoot p) \<and>
        (\<forall>validate. v_ValidateBatch v = Some validate \<longrightarrow> list_all validate (Batches ws))) \<and>
     v_DAGProvider v (sp_Epoch p) = Some (sp_DAG p) \<and>
     (\<exists>d t. v_DifficultyAt v (sp_Height p) = Some d \<and> TargetFromDifficulty d = Inr t \<and> sp_Target p = Some t)"

definition decodes :: "ProofCodec \<Rightarrow> Proof \<Rightarrow> bytes \<Rightarrow> bool" where
  "decodes codec p raw \<longleftrightarrow>
     (\<exists>c. CanonicalJSON p = Inr c \<and> raw = bytes_of_string c \<and> pc_Unmarshal codec raw = Some (toWire p))"

lemma read_proof_v1:
  assumes "decodes codec p raw" "proof_shape p" "PVersion p = ProtocolVersion" "PAttestation p = empty_attestation" "is_ascii (MinerAddr p)"
  shows "read_proof codec raw = Inr p"
proof -
  obtain c where c: "CanonicalJSON p = Inr c" "raw = bytes_of_string c" "pc_Unmarshal codec raw = Some (toWire p)"
    using assms(1) by (auto simp: decodes_def)
  have "toProof (toWire p) = Inr p"
    using assms(2-4) by (intro toProof_toWire_v1) (simp_all add: ProtocolVersion_def ProtocolVersionV2_def empty_attestation_def word_le_nat_alt)
  moreover have "TrimSpace uni c = c" for uni
    using c(1) canonical_ascii [OF assms(3-5) c(1)] TrimSpace_object by (auto simp: CanonicalJSON_def canonicalBytes_def split: option.splits)
  ultimately show ?thesis using c by (simp add: read_proof_def ParseProof_def string_of_bytes_inverse)
qed

lemma spot_check_honest:
  assumes "\<forall>validate. v_ValidateBatch v = Some validate \<longrightarrow> list_all validate (Batches ws)" "length pid = 32" "BatchCount p \<noteq> 0"
  shows "spot_check v ws pid p = Some False"
proof -
  have idx: "unat i < n" if "i < of_nat n" for i :: u32 and n
    using that by (metis word_less_nat_alt unat_of_nat mod_less_eq_dividend order_less_le_trans)
  obtain w where "Uint32BE pid = Some w" using assms(2) by (cases pid rule: Uint32BE.cases) auto
  then show ?thesis using assms(1,3)
    by (auto simp: spot_check_def deterministicSpotIndex_def list_all_length dest!: idx split: option.splits)
qed

lemma Proof_ID_length: "Proof_ID p = Inr pid \<Longrightarrow> length pid = 32"
  by (auto simp: Proof_ID_def split: sum.splits)

lemma solved_proof_passes:
  assumes "sha3_ok F" "serves v p h" "hit F fk p n m" "SolverParams_Validate p = None"
    and "q = (solved_proof p n m)\<lparr>MinerAddr := addr\<rparr>" "v_ValidateAddress v addr" "\<not> IsQuarantined addr h Q" "Proof_ID q = Inr pid"
  shows "passes F fk v h pid q Q" "chain_gate v h q = Some None"
proof -
  have b: "sp_BatchCount p \<noteq> 0" using assms(4) by (auto simp: SolverParams_Validate_def split: if_splits)
  obtain ws where ws: "v_WorkSetProvider v (sp_Epoch p) = Some ws" "WorkSet_Validate ws = Inr ()"
        "unat (sp_BatchCount p) \<le> max 1 ((length (Batches ws) + 15) div 16)" "PrefixRoot ws (sp_BatchCount p) = Inr (sp_BatchRoot p)"
        "\<forall>validate. v_ValidateBatch v = Some validate \<longrightarrow> list_all validate (Batches ws)"
    using assms(2) by (auto simp: serves_def)
  have "batch_gate ws q = None" using ws(2-4) b by (auto simp: batch_gate_def assms(5) solved_proof_def Let_def word_less_1)
  moreover have "spot_check v ws pid q = Some False"
    using b by (intro spot_check_honest ws(5) Proof_ID_length [OF assms(8)]) (simp add: assms(5) solved_proof_def)
  moreover have "work_gate F fk v q = Some None"
    using assms(2,3) by (auto simp: work_gate_def assms(5) solved_proof_def serves_def hit_def)
  ultimately show "passes F fk v h pid q Q" using assms(6,7) ws(1) by (simp add: passes_def assms(5) solved_proof_def)
  show "chain_gate v h q = Some None"
    using assms(2) by (simp add: chain_gate_def assms(5) solved_proof_def serves_def not_less)
qed

lemma solved_shape:
  assumes "sha3_ok F" "hit F fk p n m" "length n = 16" "length (sp_HeaderHash p) = 32" "length (sp_BatchRoot p) = 32"
  shows "proof_shape ((solved_proof p n m)\<lparr>MinerAddr := addr\<rparr>)"
proof -
  have "length m = 32" using assms(1,2) mix_length by (auto simp: hit_def)
  then show ?thesis using assms(3-5) by (simp add: proof_shape_def solved_proof_def empty_attestation_def)
qed

lemma work_under_any_address:
  assumes "sha3_ok F" "Solve F fk cancelled drawn p start = Some (Inr res)" "\<forall>n. start = Some n \<or> drawn = Some n \<longrightarrow> length n = 16"
    and "length (sp_HeaderHash p) = 32" "length (sp_BatchRoot p) = 32" "serves v p h" "\<not> IsV2 fk (sp_Height p)"
    and "q = (sr_Proof res)\<lparr>MinerAddr := addr\<rparr>" "decodes codec q raw" "Proof_ID q = Inr pid"
    and "v_ValidateAddress v addr" "\<not> IsQuarantined addr h (Quarantine st)" "\<not> Seen pid (Dedup st)" "is_ascii addr"
  shows "Verify F codec fk v now raw h st = Some (pid, None, st\<lparr>Dedup := ProofIDSet_Record pid (sp_Height p) (Dedup st)\<rparr>)"
proof -
  obtain n m where s: "SolverParams_Validate p = None" "length n = 16" "hit F fk p n m" "sr_Proof res = solved_proof p n m"
    using assms(2,3) by (rule solve_result)
  have q: "q = (solved_proof p n m)\<lparr>MinerAddr := addr\<rparr>" using assms(8) s(4) by simp
  have f: "PVersion q = ProtocolVersion" "PAttestation q = empty_attestation" "PHeight q = sp_Height p" by (simp_all add: q solved_proof_def)
  have "read_proof codec raw = Inr q"
    using assms(9) solved_shape [OF assms(1) s(3,2) assms(4,5)] assms(14) f by (intro read_proof_v1) (simp_all add: q)
  moreover have "fork_gate (pc_Unicode codec) fk v q now = None" using assms(7) f by (simp add: fork_gate_def)
  ultimately have "admitted_proof codec fk v now raw h q"
    using solved_proof_passes(2) [OF assms(1,6) s(3,1) q assms(11,12,10)] by (simp add: admitted_proof_def)
  from Verify_accepts [OF this assms(10,13) solved_proof_passes(1) [OF assms(1,6) s(3,1) q assms(11,12,10)]] f(3)
  show ?thesis by simp
qed

text \<open>
  C27: At a height before the attestation fork, what the reference solver returns, encoded so that the validator decodes it, is accepted and
  recorded by every validator whose chain, work-set, data set and difficulty are the ones the miner searched with, whose accept height is
  within the grace window, and to which the miner's address (of ASCII characters) is valid and not in quarantine and the proof is new.
\<close>

theorem solved_proof_is_accepted:
  assumes "sha3_ok F" "Solve F fk cancelled drawn p start = Some (Inr res)" "\<forall>n. start = Some n \<or> drawn = Some n \<longrightarrow> length n = 16"
    and "length (sp_HeaderHash p) = 32" "length (sp_BatchRoot p) = 32" "serves v p h" "\<not> IsV2 fk (sp_Height p)"
    and "decodes codec (sr_Proof res) raw" "Proof_ID (sr_Proof res) = Inr pid"
    and "v_ValidateAddress v (sp_MinerAddr p)" "\<not> IsQuarantined (sp_MinerAddr p) h (Quarantine st)" "\<not> Seen pid (Dedup st)" "is_ascii (sp_MinerAddr p)"
  shows "Verify F codec fk v now raw h st = Some (pid, None, st\<lparr>Dedup := ProofIDSet_Record pid (sp_Height p) (Dedup st)\<rparr>)"
proof -
  have "MinerAddr (sr_Proof res) = sp_MinerAddr p" using assms(2,3) by (rule solve_result) (simp add: solved_proof_def)
  then have "sr_Proof res = (sr_Proof res)\<lparr>MinerAddr := sp_MinerAddr p\<rparr>" by simp
  from work_under_any_address [OF assms(1-7) this assms(8-13)] show ?thesis .
qed

text \<open>
  The work check does not cover the reward address: before the attestation fork, whoever sees an accepted proof can put another valid
  address into it, and the result, under its own identifier, is accepted on the same work.
\<close>

theorem copied_work_is_accepted:
  assumes "sha3_ok F" "Solve F fk cancelled drawn p start = Some (Inr res)" "\<forall>n. start = Some n \<or> drawn = Some n \<longrightarrow> length n = 16"
    and "length (sp_HeaderHash p) = 32" "length (sp_BatchRoot p) = 32" "serves v p h" "\<not> IsV2 fk (sp_Height p)"
    and "decodes codec ((sr_Proof res)\<lparr>MinerAddr := thief\<rparr>) raw" "Proof_ID ((sr_Proof res)\<lparr>MinerAddr := thief\<rparr>) = Inr pid"
    and "v_ValidateAddress v thief" "\<not> IsQuarantined thief h (Quarantine st)" "\<not> Seen pid (Dedup st)" "is_ascii thief"
  shows "Verify F codec fk v now raw h st = Some (pid, None, st\<lparr>Dedup := ProofIDSet_Record pid (sp_Height p) (Dedup st)\<rparr>)"
  using work_under_any_address [OF assms(1-7) refl assms(8-13)] .

section \<open>After the fork\<close>

text \<open>The reference solver always claims version 1 without an attestation, so nothing it returns for a height after the fork is accepted.\<close>

theorem post_fork_solver_output_rejected:
  assumes "Solve F fk cancelled drawn p start = Some (Inr res)" "\<forall>n. start = Some n \<or> drawn = Some n \<longrightarrow> length n = 16"
    and "IsV2 fk (sp_Height p)" "read_proof codec raw = Inr (sr_Proof res)"
  shows "Verify F codec fk v now raw h st = Some (zero_id, Some ReasonBadVersion, st)"
proof -
  have "PVersion (sr_Proof res) = ProtocolVersion" "PHeight (sr_Proof res) = sp_Height p"
    using assms(1,2) by (rule solve_result, simp add: solved_proof_def)+
  then show ?thesis using assms(3,4) by (simp add: Verify_def verify_open_def fork_gate_def ProtocolVersion_def ProtocolVersionV2_def)
qed


section \<open>An example\<close>

text \<open>A hash with constant output, so that every nonce meets the target, and a work-set of one batch.\<close>

definition zero_sha3 :: Sha3Fns where
  "zero_sha3 = \<lparr>Sha3_256 = (\<lambda>m. replicate 32 0), Shake256 = (\<lambda>m n. replicate n 0)\<rparr>"

definition one_batch :: WorkSet where
  "one_batch = \<lparr>Batches = [\<lparr>Cells = replicate 3 \<lparr>ID = [1], ContentHash = replicate 32 2\<rparr>\<rparr>]\<rparr>"

definition flat_dag :: DAG where
  "flat_dag = \<lparr>DAG_N = 2, DAG_Get = (\<lambda>i. Inr (replicate 32 0))\<rparr>"

definition example_search :: SolverParams where
  "example_search = \<lparr>sp_Epoch = 0, sp_Height = 7, sp_HeaderHash = replicate 32 7, sp_MinerAddr = ''alice'',
     sp_BatchRoot = merkleRoot [BatchHash (Batches one_batch ! 0)],
     sp_BatchCount = 1, sp_Target = Some (2 ^ 256 - 2), sp_DAG = Some flat_dag\<rparr>"

definition example_verifier :: Verifier where
  "example_verifier = \<lparr>v_EpochParams = NewEpochParams, v_HeaderHashAt = (\<lambda>h. Some (replicate 32 7)), v_ValidateAddress = (\<lambda>a. a \<noteq> []),
     v_ValidateBatch = Some (\<lambda>b. True), v_DAGProvider = (\<lambda>e. Some (Some flat_dag)), v_WorkSetProvider = (\<lambda>e. Some one_batch),
     v_DifficultyAt = (\<lambda>h. Some (Some 1)), v_GraceWindow = 0, v_Attestation = FailClosedVerifier\<rparr>"

definition fresh_state :: VerifierState where
  "fresh_state = \<lparr>Dedup = NewProofIDSet 0, Quarantine = NewQuarantineSet\<rparr>"

definition example_proof :: "string \<Rightarrow> Proof" where
  "example_proof addr = (solved_proof example_search (replicate 16 0) (replicate 32 0))\<lparr>MinerAddr := addr\<rparr>"

definition example_raw :: "string \<Rightarrow> bytes" where
  "example_raw addr = bytes_of_string (projr (CanonicalJSON (example_proof addr)))"

definition example_id :: "string \<Rightarrow> bytes" where
  "example_id addr = projr (Proof_ID (example_proof addr))"

definition example_codec :: "string \<Rightarrow> ProofCodec" where
  "example_codec addr = \<lparr>pc_Unmarshal = (\<lambda>raw. Some (toWire (example_proof addr))),
     pc_Unicode = \<lparr>u_ToLower = (\<lambda>s. s), u_TrimSpace = (\<lambda>s. s), u_Fields = (\<lambda>s. [s]), u_EqualFold = (=)\<rparr>\<rparr>"

lemma zero_sha3_ok: "sha3_ok zero_sha3"
  by (simp add: sha3_ok_def zero_sha3_def)

lemma flat_walk: "walk (\<lambda>m e. replicate 32 0) flat_dag k (replicate 32 0) = Some (Inr (replicate 32 0))"
proof -
  have "Uint32BE (replicate 32 0) = Some 0" by (simp add: numeral_eq_Suc)
  then show ?thesis by (induction k) (simp_all add: flat_dag_def)
qed

lemma example_hit: "hit zero_sha3 fk example_search n (replicate 32 0)"
proof -
  have "be_int (replicate 32 0) = 0" by (simp add: be_int_def numeral_eq_Suc)
  moreover have "tc_body zero_sha3 = (\<lambda>m e. replicate 32 0)" by (intro ext) (simp add: tc_body_def zero_sha3_def)
  ultimately show ?thesis using flat_walk
    by (simp add: hit_def mix_at_def ComputeMixDigest_def ComputeMixDigestV2_def MeetsTarget_def ProofPoWHash_def example_search_def)
       (simp add: zero_sha3_def flat_dag_def)
qed

lemma example_solved:
  "Solve zero_sha3 fk (\<lambda>i. False) None example_search (Some (replicate 16 0)) =
     Some (Inr \<lparr>sr_Proof = example_proof ''alice'', sr_Attempts = 1\<rparr>)"
proof -
  have "SolverParams_Validate example_search = None"
    by (simp add: SolverParams_Validate_def example_search_def flat_dag_def positive_big_def)
  moreover have "example_proof ''alice'' = solved_proof example_search (replicate 16 0) (replicate 32 0)"
    by (simp add: example_proof_def solved_proof_def example_search_def)
  ultimately show ?thesis using solve_loop_hit [of "\<lambda>i. False" 0, OF _ example_hit] by (simp add: Solve_def)
qed

lemma example_serves: "serves example_verifier example_search 9"
  by (simp add: serves_def example_verifier_def example_search_def grace_of_def GraceWindow_def NewEpochParams_def
      MiningEpochForHeight_def DefaultBlocksPerMiningEpoch_def one_batch_def WorkSet_Validate_def Batch_Validate_def
      PrefixRoot_def TargetFromDifficulty_def positive_big_def maxTarget256_def MinBatchSize_def MaxBatchSize_def numeral_3_eq_3 word_div_def)

lemma example_facts:
  assumes "addr \<noteq> []"
  shows "decodes (example_codec addr) (example_proof addr) (example_raw addr)" "Proof_ID (example_proof addr) = Inr (example_id addr)"
    "\<not> Seen (example_id addr) (Dedup fresh_state)" "length (sp_HeaderHash example_search) = 32" "length (sp_BatchRoot example_search) = 32"
    "\<not> IsQuarantined addr h (Quarantine fresh_state)" "v_ValidateAddress example_verifier addr"
proof -
  have "validateShape (example_proof addr) = None"
    using assms by (simp add: validateShape_def example_proof_def solved_proof_def ProtocolVersion_def example_search_def)
  then show "decodes (example_codec addr) (example_proof addr) (example_raw addr)" "Proof_ID (example_proof addr) = Inr (example_id addr)"
    by (simp_all add: decodes_def example_codec_def example_raw_def CanonicalJSON_def canonicalBytes_def Proof_ID_def example_id_def)
  show "length (sp_BatchRoot example_search) = 32"
    by (simp add: example_search_def merkleRoot_def levels_root_def merkleLeafHash_def merkle_levels.simps)
qed (simp_all add: fresh_state_def NewProofIDSet_def Seen_def NewQuarantineSet_def IsQuarantined_def example_verifier_def assms example_search_def)


lemma example_prefork: "\<not> IsV2 default_forks (sp_Height example_search)"
proof -
  have "\<not> (- 1 :: u64) \<le> 7" by code_simp
  then show ?thesis by (simp add: IsV2_def default_forks_def example_search_def)
qed

lemma example_accepted:
  assumes "addr \<noteq> []" "is_ascii addr"
  shows "Verify zero_sha3 (example_codec addr) default_forks example_verifier now (example_raw addr) 9 fresh_state =
     Some (example_id addr, None, fresh_state\<lparr>Dedup := ProofIDSet_Record (example_id addr) 7 (Dedup fresh_state)\<rparr>)"
proof -
  note example_prefork
  moreover have "example_proof addr = (sr_Proof \<lparr>sr_Proof = example_proof ''alice'', sr_Attempts = 1\<rparr>)\<lparr>MinerAddr := addr\<rparr>"
    by (simp add: example_proof_def)
  moreover have "sp_Height example_search = 7" by (simp add: example_search_def)
  ultimately show ?thesis
    using work_under_any_address [OF zero_sha3_ok example_solved _ example_facts(4,5) [OF assms(1)] example_serves _ _
        example_facts(1,2) [OF assms(1)] example_facts(7) [OF assms(1)] example_facts(6) [OF assms(1)] example_facts(3) [OF assms(1)] assms(2), of default_forks now]
    by simp
qed

theorem solved_proof_is_accepted_witness:
  "Verify zero_sha3 (example_codec ''alice'') default_forks example_verifier 0 (example_raw ''alice'') 9 fresh_state =
     Some (example_id ''alice'', None, fresh_state\<lparr>Dedup := ProofIDSet_Record (example_id ''alice'') 7 (Dedup fresh_state)\<rparr>)"
proof -
  have a: "''alice'' \<noteq> []" "is_ascii ''alice''" "sp_MinerAddr example_search = ''alice''" "sp_Height example_search = 7"
    "\<not> IsV2 default_forks (sp_Height example_search)"
    by (rule example_prefork | simp add: example_search_def)+
  show ?thesis
    using solved_proof_is_accepted [OF zero_sha3_ok example_solved _ example_facts(4,5) [OF a(1)] example_serves a(5), where codec = "example_codec ''alice''" and raw = "example_raw ''alice''"
        and pid = "example_id ''alice''" and st = fresh_state and now = 0] example_facts(1-5,7) [OF a(1)] example_facts(6) [OF a(1), of 9] a
    by simp
qed

theorem copied_work_is_accepted_witness:
  "Verify zero_sha3 (example_codec ''mallory'') default_forks example_verifier 0 (example_raw ''mallory'') 9 fresh_state =
     Some (example_id ''mallory'', None, fresh_state\<lparr>Dedup := ProofIDSet_Record (example_id ''mallory'') 7 (Dedup fresh_state)\<rparr>)"
proof -
  have a: "''mallory'' \<noteq> []" "is_ascii ''mallory''" "sp_Height example_search = 7" "\<not> IsV2 default_forks (sp_Height example_search)"
    "example_proof ''mallory'' = (example_proof ''alice'')\<lparr>MinerAddr := ''mallory''\<rparr>"
    by (rule example_prefork | simp add: example_search_def example_proof_def)+
  show ?thesis
    using copied_work_is_accepted [OF zero_sha3_ok example_solved _ example_facts(4,5) [OF a(1)] example_serves a(4), where codec = "example_codec ''mallory''" and thief = "''mallory''" and raw = "example_raw ''mallory''"
        and pid = "example_id ''mallory''" and st = fresh_state and now = 0] example_facts(1-5,7) [OF a(1)] example_facts(6) [OF a(1), of 9] a
    by simp
qed

theorem post_fork_solver_output_rejected_witness:
  "Verify zero_sha3 (example_codec ''alice'') (SetForkV2Height 0 default_forks) example_verifier 0 (example_raw ''alice'') 9 fresh_state =
     Some (zero_id, Some ReasonBadVersion, fresh_state)"
proof -
  have "read_proof (example_codec ''alice'') (example_raw ''alice'') = Inr (example_proof ''alice'')"
    using solved_shape [OF zero_sha3_ok example_hit, of "replicate 16 0" "''alice''"] example_facts(1,4,5) [of "''alice''"]
    by (intro read_proof_v1) (simp_all add: example_proof_def solved_proof_def)
  then show ?thesis
    using post_fork_solver_output_rejected [OF example_solved, of "SetForkV2Height 0 default_forks"]
    by (simp add: IsV2_def SetForkV2Height_def)
qed

text \<open>The overlapping calls of one proof: the second acceptance has entered before the first was recorded.\<close>

theorem proof_is_accepted_once_witness:
  "\<exists>S. (verify_step zero_sha3 (example_codec ''alice'') default_forks (grace_of example_verifier))\<^sup>*\<^sup>* (no_flights fresh_state) S \<and>
     map fst (fs_Log S) = [example_id ''alice'', example_id ''alice''] \<and> snd (snd (fs_Log S ! 1)) = 0"
proof -
  let ?st = "fresh_state\<lparr>Dedup := ProofIDSet_Record (example_id ''alice'') 7 (Dedup fresh_state)\<rparr>"
  have V: "Verify zero_sha3 (example_codec ''alice'') default_forks example_verifier 0 (example_raw ''alice'') 9 fresh_state =
     Some (example_id ''alice'', None, ?st)" by (rule example_accepted) simp_all
  have g: "grace_of example_verifier \<le> retainWindow (Dedup fresh_state)"
    by (simp add: grace_of_def example_verifier_def GraceWindow_def fresh_state_def NewProofIDSet_def DefaultBlocksPerMiningEpoch_def)
  from overlapping_calls_accept_twice [OF V g]
  obtain S where S: "(verify_step zero_sha3 (example_codec ''alice'') default_forks (grace_of example_verifier))\<^sup>*\<^sup>* (no_flights fresh_state) S"
    "map fst (fs_Log S) = [example_id ''alice'', example_id ''alice'']" "one_height (fs_Log S)"
    by (elim exE conjE) (rule that; assumption)
  have len: "length (fs_Log S) = 2" using arg_cong [OF S(2), of length] by simp
  then have "fst (fs_Log S ! 0) = fst (fs_Log S ! 1)"
    using arg_cong [OF S(2), of "\<lambda>xs. xs ! 0"] arg_cong [OF S(2), of "\<lambda>xs. xs ! 1"] by (simp add: nth_map)
  then have "snd (snd (fs_Log S ! 1)) = 0" using proof_is_accepted_once [OF S(1,3), of 0 1] len by simp
  then show ?thesis using S(1,2) by (intro exI [of _ S] conjI)
qed

end
