(* ===== verification/Bridge.thy ===== *)
theory Bridge
  imports EdgeSettlement Float64
begin

text \<open>
  \<open>pkg/bridge/protocol.go\<close>, \<open>atomic_swap.go\<close> and the event handler of \<open>relay.go\<close>: hash locks, atomic swaps, and the events
  about them that a node applies from its peers. A status is a string, as in the code, because the JSON of a peer can put any string
  there. \<open>crypto/rand\<close> is an argument: the bytes it returned, or \<open>None\<close> for its error; the clock of a call is \<open>clk\<close>, its readings
  in order. Decoding the payload of an event (\<open>encoding/json\<close>) is the argument \<open>RelayCodec\<close>. A nil protocol of the relay is \<open>None\<close>.

  The Dilithium instance and the metrics are not used by the operations and are left out.
\<close>

section \<open>Hash locks\<close>

type_synonym LockStatus = string

definition LockStatusPending :: LockStatus where "LockStatusPending = ''pending''"
definition LockStatusLocked :: LockStatus where "LockStatusLocked = ''locked''"
definition LockStatusRedeemed :: LockStatus where "LockStatusRedeemed = ''redeemed''"
definition LockStatusRefunded :: LockStatus where "LockStatusRefunded = ''refunded''"
definition LockStatusExpired :: LockStatus where "LockStatusExpired = ''expired''"

record Lock =
  L_ID :: string
  L_SourceChain :: string
  L_TargetChain :: string
  L_Asset :: string
  L_Amount :: f64
  L_Recipient :: string
  L_LockedAt :: go_time
  L_ExpiresAt :: go_time
  L_SecretHash :: string
  L_Secret :: string
  L_Status :: LockStatus
  L_TransactionID :: string

type_synonym BridgeProtocol = "(string, Lock) fmap"

datatype bridge_error = ErrLockNotFound string | ErrLockStatus string string | ErrLockExpired string | ErrLockSecret string
| ErrLockNotExpired string | ErrSwapNotFound string | ErrSwapStatus string string | ErrSwapExpired string | ErrSwapSecret string
| ErrSwapCompleted string | ErrSwapNotExpired string

definition generateSecret :: "bytes option \<Rightarrow> go_time \<Rightarrow> string" where
  "generateSecret rnd now =
     (case rnd of None \<Rightarrow> hex_encode (bytes_of_string (''secret_'' @ show_int now)) | Some b \<Rightarrow> hex_encode b)"

definition hashSecret :: "string \<Rightarrow> string" where
  "hashSecret secret = sha256_hex secret"

definition generateLockID :: "bytes option \<Rightarrow> go_time \<Rightarrow> string" where
  "generateLockID rnd now =
     (case rnd of None \<Rightarrow> hex_encode (take 16 (sha256 (bytes_of_string (''lock_'' @ show_int now)))) | Some b \<Rightarrow> hex_encode b)"

definition NewBridgeProtocol :: BridgeProtocol where "NewBridgeProtocol = fmempty"

text \<open>The arguments of a lock request; \<open>expiryDuration\<close> is in the unit of the clock.\<close>

record LockRequest =
  lr_SourceChain :: string
  lr_TargetChain :: string
  lr_Asset :: string
  lr_Amount :: f64
  lr_Recipient :: string
  lr_Expiry :: int

definition LockAsset :: "bytes option \<Rightarrow> bytes option \<Rightarrow> clock \<Rightarrow> LockRequest \<Rightarrow> BridgeProtocol \<Rightarrow> Lock \<times> BridgeProtocol" where
  "LockAsset rndSecret rndID clk req bp =
     (let secret = generateSecret rndSecret (clk 0);
          lock = \<lparr>L_ID = generateLockID rndID (clk 1), L_SourceChain = lr_SourceChain req, L_TargetChain = lr_TargetChain req,
                  L_Asset = lr_Asset req, L_Amount = lr_Amount req, L_Recipient = lr_Recipient req,
                  L_LockedAt = clk 2, L_ExpiresAt = clk 3 + lr_Expiry req, L_SecretHash = hashSecret secret, L_Secret = secret,
                  L_Status = LockStatusPending, L_TransactionID = []\<rparr>;
          lock = lock\<lparr>L_Status := LockStatusLocked\<rparr>
      in (lock, fmupd (L_ID lock) lock bp))"

definition RedeemAsset :: "go_time \<Rightarrow> string \<Rightarrow> string \<Rightarrow> BridgeProtocol \<Rightarrow> bridge_error option \<times> BridgeProtocol" where
  "RedeemAsset now lockID secret bp =
     (case fmlookup bp lockID of None \<Rightarrow> (Some (ErrLockNotFound lockID), bp)
      | Some lock \<Rightarrow>
          if L_Status lock \<noteq> LockStatusLocked then (Some (ErrLockStatus lockID (L_Status lock)), bp)
          else if now > L_ExpiresAt lock then
            (Some (ErrLockExpired lockID), fmupd lockID (lock\<lparr>L_Status := LockStatusExpired\<rparr>) bp)
          else if hashSecret secret \<noteq> L_SecretHash lock then (Some (ErrLockSecret lockID), bp)
          else (None, fmupd lockID (lock\<lparr>L_Status := LockStatusRedeemed, L_Secret := secret\<rparr>) bp))"

definition RefundAsset :: "go_time \<Rightarrow> string \<Rightarrow> BridgeProtocol \<Rightarrow> bridge_error option \<times> BridgeProtocol" where
  "RefundAsset now lockID bp =
     (case fmlookup bp lockID of None \<Rightarrow> (Some (ErrLockNotFound lockID), bp)
      | Some lock \<Rightarrow>
          if L_Status lock \<noteq> LockStatusLocked then (Some (ErrLockStatus lockID (L_Status lock)), bp)
          else if now < L_ExpiresAt lock then (Some (ErrLockNotExpired lockID), bp)
          else (None, fmupd lockID (lock\<lparr>L_Status := LockStatusRefunded\<rparr>) bp))"

definition GetLock :: "string \<Rightarrow> BridgeProtocol \<Rightarrow> bridge_error + Lock" where
  "GetLock lockID bp = (case fmlookup bp lockID of None \<Rightarrow> Inl (ErrLockNotFound lockID) | Some l \<Rightarrow> Inr l)"

definition ListLocks :: "string list \<Rightarrow> BridgeProtocol \<Rightarrow> Lock list" where
  "ListLocks order bp = map (\<lambda>k. the (fmlookup bp k)) order"

section \<open>Atomic swaps\<close>

type_synonym SwapStatus = string

definition SwapStatusInitiated :: SwapStatus where "SwapStatusInitiated = ''initiated''"
definition SwapStatusParticipated :: SwapStatus where "SwapStatusParticipated = ''participated''"
definition SwapStatusCompleted :: SwapStatus where "SwapStatusCompleted = ''completed''"
definition SwapStatusRefunded :: SwapStatus where "SwapStatusRefunded = ''refunded''"
definition SwapStatusExpired :: SwapStatus where "SwapStatusExpired = ''expired''"

record Swap =
  S_ID :: string
  S_InitiatorChain :: string
  S_ParticipantChain :: string
  S_InitiatorAsset :: string
  S_ParticipantAsset :: string
  S_InitiatorAmount :: f64
  S_ParticipantAmount :: f64
  S_InitiatorAddress :: string
  S_ParticipantAddress :: string
  S_InitiatorSecretHash :: string
  S_ParticipantSecretHash :: string
  S_InitiatorSecret :: string
  S_ParticipantSecret :: string
  S_Status :: SwapStatus
  S_CreatedAt :: go_time
  S_ExpiresAt :: go_time

type_synonym AtomicSwapProtocol = "(string, Swap) fmap"

definition NewAtomicSwapProtocol :: AtomicSwapProtocol where "NewAtomicSwapProtocol = fmempty"

definition generateSwapSecret :: "bytes option \<Rightarrow> go_time \<Rightarrow> string" where
  "generateSwapSecret rnd now =
     (case rnd of None \<Rightarrow> hex_encode (bytes_of_string (''secret_'' @ show_int now)) | Some b \<Rightarrow> hex_encode b)"

definition hashSwapSecret :: "string \<Rightarrow> string" where
  "hashSwapSecret secret = sha256_hex secret"

text \<open>The fallback takes the first 32 characters; a slice past the end panics (\<open>None\<close>).\<close>

definition generateSwapID :: "bytes option \<Rightarrow> go_time \<Rightarrow> string option" where
  "generateSwapID rnd now =
     (case rnd of None \<Rightarrow> let s = hex_encode (bytes_of_string (''swap_'' @ show_int now)) in if length s < 32 then None else Some (take 32 s)
      | Some b \<Rightarrow> Some (hex_encode b))"

record SwapRequest =
  sq_InitiatorChain :: string
  sq_ParticipantChain :: string
  sq_InitiatorAsset :: string
  sq_ParticipantAsset :: string
  sq_InitiatorAmount :: f64
  sq_ParticipantAmount :: f64
  sq_InitiatorAddress :: string
  sq_ParticipantAddress :: string
  sq_Expiry :: int

definition InitiateSwap :: "bytes option \<Rightarrow> bytes option \<Rightarrow> clock \<Rightarrow> SwapRequest \<Rightarrow> AtomicSwapProtocol \<Rightarrow> (Swap \<times> AtomicSwapProtocol) option" where
  "InitiateSwap rndSecret rndID clk req asp =
     (let secret = generateSwapSecret rndSecret (clk 0)
      in case generateSwapID rndID (clk 1) of None \<Rightarrow> None
         | Some swapID \<Rightarrow>
             let swap = \<lparr>S_ID = swapID, S_InitiatorChain = sq_InitiatorChain req, S_ParticipantChain = sq_ParticipantChain req,
                  S_InitiatorAsset = sq_InitiatorAsset req, S_ParticipantAsset = sq_ParticipantAsset req,
                  S_InitiatorAmount = sq_InitiatorAmount req, S_ParticipantAmount = sq_ParticipantAmount req,
                  S_InitiatorAddress = sq_InitiatorAddress req, S_ParticipantAddress = sq_ParticipantAddress req,
                  S_InitiatorSecretHash = hashSwapSecret secret, S_ParticipantSecretHash = [],
                  S_InitiatorSecret = secret, S_ParticipantSecret = [], S_Status = SwapStatusInitiated,
                  S_CreatedAt = clk 2, S_ExpiresAt = clk 3 + sq_Expiry req\<rparr>
             in Some (swap, fmupd swapID swap asp))"

definition ParticipateInSwap :: "bytes option \<Rightarrow> clock \<Rightarrow> string \<Rightarrow> AtomicSwapProtocol \<Rightarrow> (bridge_error + Swap) \<times> AtomicSwapProtocol" where
  "ParticipateInSwap rndSecret clk swapID asp =
     (case fmlookup asp swapID of None \<Rightarrow> (Inl (ErrSwapNotFound swapID), asp)
      | Some swap \<Rightarrow>
          if S_Status swap \<noteq> SwapStatusInitiated then (Inl (ErrSwapStatus swapID (S_Status swap)), asp)
          else if clk 0 > S_ExpiresAt swap then
            (Inl (ErrSwapExpired swapID), fmupd swapID (swap\<lparr>S_Status := SwapStatusExpired\<rparr>) asp)
          else
            let secret = generateSwapSecret rndSecret (clk 1);
                swap = swap\<lparr>S_ParticipantSecretHash := hashSwapSecret secret, S_ParticipantSecret := secret, S_Status := SwapStatusParticipated\<rparr>
            in (Inr swap, fmupd swapID swap asp))"

definition CompleteSwap :: "string \<Rightarrow> string \<Rightarrow> AtomicSwapProtocol \<Rightarrow> bridge_error option \<times> AtomicSwapProtocol" where
  "CompleteSwap swapID secret asp =
     (case fmlookup asp swapID of None \<Rightarrow> (Some (ErrSwapNotFound swapID), asp)
      | Some swap \<Rightarrow>
          if S_Status swap \<noteq> SwapStatusParticipated then (Some (ErrSwapStatus swapID (S_Status swap)), asp)
          else
            let secretHash = hashSwapSecret secret
            in if secretHash \<noteq> S_InitiatorSecretHash swap \<and> secretHash \<noteq> S_ParticipantSecretHash swap then (Some (ErrSwapSecret swapID), asp)
               else (None, fmupd swapID (swap\<lparr>S_Status := SwapStatusCompleted\<rparr>) asp))"

definition RefundSwap :: "go_time \<Rightarrow> string \<Rightarrow> AtomicSwapProtocol \<Rightarrow> bridge_error option \<times> AtomicSwapProtocol" where
  "RefundSwap now swapID asp =
     (case fmlookup asp swapID of None \<Rightarrow> (Some (ErrSwapNotFound swapID), asp)
      | Some swap \<Rightarrow>
          if S_Status swap = SwapStatusCompleted then (Some (ErrSwapCompleted swapID), asp)
          else if now < S_ExpiresAt swap then (Some (ErrSwapNotExpired swapID), asp)
          else (None, fmupd swapID (swap\<lparr>S_Status := SwapStatusRefunded\<rparr>) asp))"

definition GetSwap :: "string \<Rightarrow> AtomicSwapProtocol \<Rightarrow> bridge_error + Swap" where
  "GetSwap swapID asp = (case fmlookup asp swapID of None \<Rightarrow> Inl (ErrSwapNotFound swapID) | Some s \<Rightarrow> Inr s)"

definition ListSwaps :: "string list \<Rightarrow> AtomicSwapProtocol \<Rightarrow> Swap list" where
  "ListSwaps order asp = map (\<lambda>k. the (fmlookup asp k)) order"

section \<open>Events of peers\<close>

record BridgeP2PEvent =
  be_Kind :: string
  be_Payload :: bytes
  be_OriginNode :: string
  be_Timestamp :: string

record RelayCodec =
  rc_Event :: "bytes \<Rightarrow> BridgeP2PEvent option"
  rc_Lock :: "bytes \<Rightarrow> Lock option"
  rc_LockID :: "bytes \<Rightarrow> string option"
  rc_Swap :: "bytes \<Rightarrow> Swap option"
  rc_SwapID :: "bytes \<Rightarrow> string option"

record P2PRelay =
  pr_bridge :: "BridgeProtocol option"
  pr_swap :: "AtomicSwapProtocol option"

definition set_lock_status :: "(Lock \<Rightarrow> bool) \<Rightarrow> LockStatus \<Rightarrow> string \<Rightarrow> BridgeProtocol \<Rightarrow> BridgeProtocol" where
  "set_lock_status guard st lockID bp =
     (case fmlookup bp lockID of None \<Rightarrow> bp | Some l \<Rightarrow> if guard l then fmupd lockID (l\<lparr>L_Status := st\<rparr>) bp else bp)"

definition handleRemoteEvent :: "RelayCodec \<Rightarrow> BridgeP2PEvent \<Rightarrow> P2PRelay \<Rightarrow> P2PRelay" where
  "handleRemoteEvent codec evt r =
     (if be_Kind evt = ''lock_created'' then
        (case rc_Lock codec (be_Payload evt) of None \<Rightarrow> r
         | Some lk \<Rightarrow> r\<lparr>pr_bridge := map_option (\<lambda>bp. if fmlookup bp (L_ID lk) = None then fmupd (L_ID lk) lk bp else bp) (pr_bridge r)\<rparr>)
      else if be_Kind evt = ''lock_redeemed'' then
        (case rc_LockID codec (be_Payload evt) of None \<Rightarrow> r
         | Some lockID \<Rightarrow> r\<lparr>pr_bridge := map_option (set_lock_status (\<lambda>l. L_Status l = LockStatusLocked) LockStatusRedeemed lockID) (pr_bridge r)\<rparr>)
      else if be_Kind evt = ''lock_refunded'' then
        (case rc_LockID codec (be_Payload evt) of None \<Rightarrow> r
         | Some lockID \<Rightarrow> r\<lparr>pr_bridge := map_option (set_lock_status (\<lambda>l. True) LockStatusRefunded lockID) (pr_bridge r)\<rparr>)
      else if be_Kind evt = ''swap_initiated'' then
        (case rc_Swap codec (be_Payload evt) of None \<Rightarrow> r
         | Some sw \<Rightarrow>
             let sw = sw\<lparr>S_InitiatorSecret := [], S_ParticipantSecret := []\<rparr>
             in r\<lparr>pr_swap := map_option (\<lambda>asp. if fmlookup asp (S_ID sw) = None then fmupd (S_ID sw) sw asp else asp) (pr_swap r)\<rparr>)
      else if be_Kind evt = ''swap_completed'' then
        (case rc_SwapID codec (be_Payload evt) of None \<Rightarrow> r
         | Some swapID \<Rightarrow>
             r\<lparr>pr_swap := map_option (\<lambda>asp. case fmlookup asp swapID of None \<Rightarrow> asp
                  | Some s \<Rightarrow> fmupd swapID (s\<lparr>S_Status := SwapStatusCompleted\<rparr>) asp) (pr_swap r)\<rparr>)
      else r)"

text \<open>One message of the read loop: malformed messages and own events are skipped.\<close>

definition readLoop_message :: "RelayCodec \<Rightarrow> string \<Rightarrow> bytes \<Rightarrow> P2PRelay \<Rightarrow> P2PRelay" where
  "readLoop_message codec selfNodeID msg r =
     (case rc_Event codec msg of None \<Rightarrow> r
      | Some evt \<Rightarrow> if be_OriginNode evt = selfNodeID then r else handleRemoteEvent codec evt r)"

definition safe_lock :: "Lock \<Rightarrow> Lock" where "safe_lock l = l\<lparr>L_Secret := []\<rparr>"
definition safe_swap :: "Swap \<Rightarrow> Swap" where "safe_swap s = s\<lparr>S_InitiatorSecret := [], S_ParticipantSecret := []\<rparr>"

text \<open>What \<open>PublishLockEvent\<close> and \<open>PublishSwapEvent\<close> send; \<open>enc\<close> is \<open>json.Marshal\<close>, \<open>ts\<close> the formatted time.\<close>

definition PublishLockEvent :: "(Lock \<Rightarrow> bytes) \<Rightarrow> string \<Rightarrow> string \<Rightarrow> Lock option \<Rightarrow> string \<Rightarrow> BridgeP2PEvent option" where
  "PublishLockEvent enc ts kind lock nodeID =
     map_option (\<lambda>l. \<lparr>be_Kind = kind, be_Payload = enc (safe_lock l), be_OriginNode = nodeID, be_Timestamp = ts\<rparr>) lock"

definition PublishSwapEvent :: "(Swap \<Rightarrow> bytes) \<Rightarrow> string \<Rightarrow> string \<Rightarrow> Swap option \<Rightarrow> string \<Rightarrow> BridgeP2PEvent option" where
  "PublishSwapEvent enc ts kind swap nodeID =
     map_option (\<lambda>s. \<lparr>be_Kind = kind, be_Payload = enc (safe_swap s), be_OriginNode = nodeID, be_Timestamp = ts\<rparr>) swap"

end
