(* ===== verification/BridgeTheorems.thy ===== *)
theory BridgeTheorems
  imports Bridge Runs
begin

text \<open>
  Settlement of hash locks and swaps. The contract \<open>one_shot\<close> is interpreted on the lock operations and on the swap operations of a node, so
  no sequence of local operations settles a lock twice or completes a swap twice or both completes and refunds it. The other results
  are about what breaks this: a late redemption strands the lock, peers do not see redemptions, and a peer's event overrides a status.
\<close>

section \<open>Locks\<close>

lemma lock_status_distinct [simp]:
  "LockStatusLocked \<noteq> LockStatusRedeemed" "LockStatusLocked \<noteq> LockStatusRefunded" "LockStatusLocked \<noteq> LockStatusExpired"
  "LockStatusRedeemed \<noteq> LockStatusLocked" "LockStatusRefunded \<noteq> LockStatusLocked" "LockStatusExpired \<noteq> LockStatusLocked"
  by (simp_all add: LockStatusLocked_def LockStatusRedeemed_def LockStatusRefunded_def LockStatusExpired_def)

datatype bridge_op = OpLock "bytes option" "bytes option" clock LockRequest | OpRedeem go_time string string | OpRefund go_time string

fun bridge_exec :: "bridge_op \<Rightarrow> BridgeProtocol \<Rightarrow> bridge_error option \<times> BridgeProtocol" where
  "bridge_exec (OpLock s i clk req) bp = (None, snd (LockAsset s i clk req bp))"
| "bridge_exec (OpRedeem now i s) bp = RedeemAsset now i s bp"
| "bridge_exec (OpRefund now i) bp = RefundAsset now i bp"

text \<open>A drawn lock identifier is new.\<close>

fun fresh_lock :: "bridge_op \<Rightarrow> BridgeProtocol \<Rightarrow> bool" where
  "fresh_lock (OpLock s i clk req) bp = (fmlookup bp (generateLockID i (clk 1)) = None)"
| "fresh_lock _ bp = True"

fun settles_lock :: "string \<Rightarrow> bridge_op \<times> bridge_error option \<Rightarrow> bool" where
  "settles_lock lockID (OpRedeem now i s, r) = (i = lockID \<and> r = None)"
| "settles_lock lockID (OpRefund now i, r) = (i = lockID \<and> r = None)"
| "settles_lock lockID _ = False"

definition lock_closed :: "string \<Rightarrow> BridgeProtocol \<Rightarrow> bool" where
  "lock_closed lockID bp \<longleftrightarrow> (\<exists>l. fmlookup bp lockID = Some l \<and> L_Status l \<noteq> LockStatusLocked)"

interpretation lk: one_shot bridge_exec fresh_lock "settles_lock lockID" "lock_closed lockID" for lockID
proof
  fix s op
  assume c: "lock_closed lockID s" and f: "fresh_lock op s"
  show "lock_closed lockID (snd (bridge_exec op s))"
    using c f by (cases op) (auto simp: lock_closed_def LockAsset_def RedeemAsset_def RefundAsset_def Let_def split: option.splits)
  show "\<not> settles_lock lockID (op, fst (bridge_exec op s))"
    using c by (cases op) (auto simp: lock_closed_def RedeemAsset_def RefundAsset_def split: option.splits)
next
  fix op s
  assume "settles_lock lockID (op, fst (bridge_exec op s))"
  then show "lock_closed lockID (snd (bridge_exec op s))"
    by (cases op) (auto simp: lock_closed_def RedeemAsset_def RefundAsset_def split: option.splits if_splits)
qed

text \<open>When a lock is paid out, and when it is refunded.\<close>

lemma redeem_succeeds_iff:
  "fst (RedeemAsset now lockID secret bp) = None \<longleftrightarrow>
     (\<exists>l. fmlookup bp lockID = Some l \<and> L_Status l = LockStatusLocked \<and> now \<le> L_ExpiresAt l \<and> hashSecret secret = L_SecretHash l)"
  by (auto simp: RedeemAsset_def split: option.splits)

lemma refund_succeeds_iff:
  "fst (RefundAsset now lockID bp) = None \<longleftrightarrow>
     (\<exists>l. fmlookup bp lockID = Some l \<and> L_Status l = LockStatusLocked \<and> L_ExpiresAt l \<le> now)"
  by (auto simp: RefundAsset_def split: option.splits)

lemma owner_can_redeem:
  assumes "LockAsset rs ri clk req bp = (l, bp')" "now \<le> L_ExpiresAt l"
  shows "fst (RedeemAsset now (L_ID l) (L_Secret l) bp') = None"
  using assms by (auto simp: redeem_succeeds_iff LockAsset_def Let_def)

text \<open>
  C31: On one node, no sequence of lock, redeem and refund requests, at any times, settles a lock more than once: it is redeemed or
  refunded, never both.
\<close>

theorem lock_settles_once:
  assumes "all_admissible bridge_exec fresh_lock ops bp"
  shows "length (filter (settles_lock lockID) (fst (op_run bridge_exec ops bp))) \<le> 1"
  using lk.at_most_once [OF assms] .

text \<open>
  One redemption attempt after the deadline, by anybody and with any secret, strands the lock: it becomes expired, and no later
  request refunds or redeems it.
\<close>

theorem late_redeem_strands_lock:
  assumes "fmlookup bp lockID = Some l" "L_Status l = LockStatusLocked" "L_ExpiresAt l < now"
    and "all_admissible bridge_exec fresh_lock (OpRedeem now lockID secret # ops) bp"
  shows "filter (settles_lock lockID) (fst (op_run bridge_exec (OpRedeem now lockID secret # ops) bp)) = []"
proof -
  have r: "RedeemAsset now lockID secret bp = (Some (ErrLockExpired lockID), fmupd lockID (l\<lparr>L_Status := LockStatusExpired\<rparr>) bp)"
    using assms(1-3) by (simp add: RedeemAsset_def)
  then have "lock_closed lockID (snd (RedeemAsset now lockID secret bp))" by (simp add: lock_closed_def)
  then show ?thesis using lk.closed_run [of lockID "snd (RedeemAsset now lockID secret bp)" ops] assms(4) r by simp
qed

section \<open>Swaps\<close>

lemma swap_status_distinct [simp]:
  "SwapStatusCompleted \<noteq> SwapStatusRefunded" "SwapStatusParticipated \<noteq> SwapStatusRefunded" "SwapStatusParticipated \<noteq> SwapStatusCompleted"
  "SwapStatusRefunded \<noteq> SwapStatusInitiated" "SwapStatusCompleted \<noteq> SwapStatusInitiated" "SwapStatusRefunded \<noteq> SwapStatusCompleted"
  "SwapStatusRefunded \<noteq> SwapStatusParticipated" "SwapStatusCompleted \<noteq> SwapStatusParticipated"
  by (simp_all add: SwapStatusCompleted_def SwapStatusRefunded_def SwapStatusParticipated_def SwapStatusInitiated_def)

datatype swap_op = OpInitiate "bytes option" "bytes option" clock SwapRequest | OpParticipate "bytes option" clock string
| OpComplete string string | OpRefundSwap go_time string

text \<open>A panic of \<open>InitiateSwap\<close> leaves the table as it is.\<close>

fun swap_exec :: "swap_op \<Rightarrow> AtomicSwapProtocol \<Rightarrow> bridge_error option \<times> AtomicSwapProtocol" where
  "swap_exec (OpInitiate s i clk req) asp = (None, case InitiateSwap s i clk req asp of None \<Rightarrow> asp | Some (sw, asp') \<Rightarrow> asp')"
| "swap_exec (OpParticipate s clk i) asp =
     (case ParticipateInSwap s clk i asp of (Inl e, asp') \<Rightarrow> (Some e, asp') | (Inr sw, asp') \<Rightarrow> (None, asp'))"
| "swap_exec (OpComplete i s) asp = CompleteSwap i s asp"
| "swap_exec (OpRefundSwap now i) asp = RefundSwap now i asp"

fun fresh_swap :: "swap_op \<Rightarrow> AtomicSwapProtocol \<Rightarrow> bool" where
  "fresh_swap (OpInitiate s i clk req) asp = (\<forall>k. generateSwapID i (clk 1) = Some k \<longrightarrow> fmlookup asp k = None)"
| "fresh_swap _ asp = True"

fun completes :: "string \<Rightarrow> swap_op \<times> bridge_error option \<Rightarrow> bool" where
  "completes swapID (OpComplete i s, r) = (i = swapID \<and> r = None)"
| "completes swapID _ = False"

fun refunds :: "string \<Rightarrow> swap_op \<times> bridge_error option \<Rightarrow> bool" where
  "refunds swapID (OpRefundSwap now i, r) = (i = swapID \<and> r = None)"
| "refunds swapID _ = False"

definition swap_closed :: "string \<Rightarrow> AtomicSwapProtocol \<Rightarrow> bool" where
  "swap_closed swapID asp \<longleftrightarrow> (\<exists>s. fmlookup asp swapID = Some s \<and> (S_Status s = SwapStatusCompleted \<or> S_Status s = SwapStatusRefunded))"

definition swap_completed :: "string \<Rightarrow> AtomicSwapProtocol \<Rightarrow> bool" where
  "swap_completed swapID asp \<longleftrightarrow> (\<exists>s. fmlookup asp swapID = Some s \<and> S_Status s = SwapStatusCompleted)"

lemmas swap_ops = InitiateSwap_def ParticipateInSwap_def CompleteSwap_def RefundSwap_def Let_def

interpretation sw: one_shot swap_exec fresh_swap "completes swapID" "swap_closed swapID" for swapID
proof
  fix s op
  assume c: "swap_closed swapID s" and f: "fresh_swap op s"
  show "swap_closed swapID (snd (swap_exec op s))"
    using c f by (cases op) (auto simp: swap_closed_def swap_ops split: option.splits)
  show "\<not> completes swapID (op, fst (swap_exec op s))"
    using c by (cases op) (auto simp: swap_closed_def swap_ops split: option.splits)
next
  fix op s
  assume "completes swapID (op, fst (swap_exec op s))"
  then show "swap_closed swapID (snd (swap_exec op s))"
    by (cases op) (auto simp: swap_closed_def swap_ops split: option.splits if_splits)
qed

interpretation sc: absorbing swap_exec fresh_swap "refunds swapID" "swap_completed swapID" for swapID
proof
  fix s op
  assume c: "swap_completed swapID s" and f: "fresh_swap op s"
  show "swap_completed swapID (snd (swap_exec op s))"
    using c f by (cases op) (auto simp: swap_completed_def swap_ops split: option.splits)
  show "\<not> refunds swapID (op, fst (swap_exec op s))"
    using c by (cases op) (auto simp: swap_completed_def swap_ops split: option.splits)
qed

lemma completing_completes: "completes swapID (op, fst (swap_exec op s)) \<Longrightarrow> swap_completed swapID (snd (swap_exec op s))"
  by (cases op) (auto simp: swap_completed_def swap_ops split: option.splits if_splits)

lemma refunding_closes: "refunds swapID (op, fst (swap_exec op s)) \<Longrightarrow> swap_closed swapID (snd (swap_exec op s))"
  by (cases op) (auto simp: swap_closed_def swap_ops split: option.splits if_splits)

lemma not_both:
  assumes "all_admissible swap_exec fresh_swap ops s"
  shows "filter (completes swapID) (fst (op_run swap_exec ops s)) = [] \<or> filter (refunds swapID) (fst (op_run swap_exec ops s)) = []"
  using assms
proof (induction ops arbitrary: s)
  case (Cons op ops)
  let ?s = "snd (swap_exec op s)" and ?x = "(op, fst (swap_exec op s))"
  have a: "all_admissible swap_exec fresh_swap ops ?s" using Cons.prems by simp
  consider "completes swapID ?x" | "refunds swapID ?x" | "\<not> completes swapID ?x" "\<not> refunds swapID ?x" by blast
  then show ?case
  proof cases
    case 1
    then have "filter (refunds swapID) (fst (op_run swap_exec ops ?s)) = []"
      using completing_completes sc.closed_run [OF _ a] by blast
    moreover have "\<not> refunds swapID ?x" using 1 by (cases op) auto
    ultimately show ?thesis by simp
  next
    case 2
    then have "filter (completes swapID) (fst (op_run swap_exec ops ?s)) = []"
      using refunding_closes sw.closed_run [OF _ a] by blast
    moreover have "\<not> completes swapID ?x" using 2 by (cases op) auto
    ultimately show ?thesis by simp
  next
    case 3
    then show ?thesis using Cons.IH [OF a] by simp
  qed
qed simp

text \<open>
  On one node a swap is completed at most once, and it is never both completed and refunded, whatever the order and the times of
  the requests.
\<close>

theorem swap_settles_one_way:
  assumes "all_admissible swap_exec fresh_swap ops asp"
  shows "length (filter (completes swapID) (fst (op_run swap_exec ops asp))) \<le> 1 \<and>
    (filter (completes swapID) (fst (op_run swap_exec ops asp)) = [] \<or> filter (refunds swapID) (fst (op_run swap_exec ops asp)) = [])"
  using sw.at_most_once [OF assms] not_both [OF assms] by blast

text \<open>A refund is not recorded as final: the request can be repeated.\<close>

lemma swap_refund_repeats:
  assumes "RefundSwap now swapID asp = (None, asp')" "now \<le> now'"
  shows "fst (RefundSwap now' swapID asp') = None"
  using assms by (auto simp: RefundSwap_def split: option.splits if_splits)

text \<open>A completion does not look at the deadline, so a swap that could be refunded can still be completed, with either secret.\<close>

lemma swap_completes_after_deadline:
  assumes "fmlookup asp swapID = Some s" "S_Status s = SwapStatusParticipated" "S_ExpiresAt s < now"
    and "hashSwapSecret secret = S_InitiatorSecretHash s \<or> hashSwapSecret secret = S_ParticipantSecretHash s"
  shows "fst (CompleteSwap swapID secret asp) = None \<and> fst (RefundSwap now swapID asp) = None"
  using assms by (auto simp: CompleteSwap_def RefundSwap_def)

section \<open>Peers\<close>

text \<open>
  The announcement of a redemption carries the lock, whose JSON has no key \<open>lock_id\<close>, so the decoder of a peer leaves the
  identifier empty. The peer's copy stays locked, and after the deadline the peer refunds the lock that was redeemed.
\<close>

theorem redeemed_lock_refunded_by_peer:
  assumes "RedeemAsset now lockID secret bp = (None, bp')" "fmlookup bp' lockID = Some l"
    and "PublishLockEvent enc ts ''lock_redeemed'' (Some l) node = Some evt" "rc_LockID codec (be_Payload evt) = Some []"
    and "pr_bridge r = Some peer" "fmlookup peer [] = None" "fmlookup peer lockID = Some l'" "L_Status l' = LockStatusLocked" "L_ExpiresAt l' \<le> later"
  shows "pr_bridge (handleRemoteEvent codec evt r) = Some peer \<and> L_Status l = LockStatusRedeemed \<and> fst (RefundAsset later lockID peer) = None"
proof -
  have "be_Kind evt = ''lock_redeemed''" using assms(3) by (auto simp: PublishLockEvent_def)
  then have "pr_bridge (handleRemoteEvent codec evt r) = Some peer"
    using assms(4-6) by (simp add: handleRemoteEvent_def set_lock_status_def)
  moreover have "L_Status l = LockStatusRedeemed" using assms(1,2) by (auto simp: RedeemAsset_def split: option.splits if_splits)
  moreover have "fst (RefundAsset later lockID peer) = None" using assms(7-9) by (simp add: refund_succeeds_iff)
  ultimately show ?thesis by blast
qed

text \<open>An event of a peer turns a redeemed lock into a refunded one, and a refunded swap into a completed one.\<close>

lemma remote_refund_overrides:
  assumes "pr_bridge r = Some bp" "fmlookup bp lockID = Some l" "be_Kind evt = ''lock_refunded''" "rc_LockID codec (be_Payload evt) = Some lockID"
  shows "pr_bridge (handleRemoteEvent codec evt r) = Some (fmupd lockID (l\<lparr>L_Status := LockStatusRefunded\<rparr>) bp)"
  using assms by (simp add: handleRemoteEvent_def set_lock_status_def)

lemma remote_completion_overrides:
  assumes "pr_swap r = Some asp" "fmlookup asp swapID = Some s" "be_Kind evt = ''swap_completed''" "rc_SwapID codec (be_Payload evt) = Some swapID"
  shows "pr_swap (handleRemoteEvent codec evt r) = Some (fmupd swapID (s\<lparr>S_Status := SwapStatusCompleted\<rparr>) asp)"
  using assms by (simp add: handleRemoteEvent_def)

text \<open>Announcements never carry a secret, and a swap accepted from a peer has none.\<close>

lemma announced_lock_hides_secret:
  "PublishLockEvent enc ts kind (Some l) node = Some evt \<Longrightarrow> \<exists>l'. be_Payload evt = enc l' \<and> L_Secret l' = [] \<and> L_SecretHash l' = L_SecretHash l"
  by (auto simp: PublishLockEvent_def safe_lock_def intro!: exI [of _ "safe_lock l"])

section \<open>An example\<close>

definition example_request :: LockRequest where
  "example_request = \<lparr>lr_SourceChain = ''qsd'', lr_TargetChain = ''eth'', lr_Asset = ''CELL'', lr_Amount = f64_of_nat 5,
     lr_Recipient = ''bob'', lr_Expiry = 100\<rparr>"

definition example_lock :: Lock where
  "example_lock = fst (LockAsset (Some [1]) (Some [2]) (\<lambda>i. 10) example_request NewBridgeProtocol)"

lemma example_lock_fields [simp]:
  "L_ID example_lock = ''02''" "L_Status example_lock = LockStatusLocked" "L_ExpiresAt example_lock = 110"
  "L_Secret example_lock = ''01''" "L_SecretHash example_lock = hashSecret ''01''"
  by (simp_all add: example_lock_def LockAsset_def Let_def generateLockID_def generateSecret_def hex_encode_def hex_digit_def example_request_def)

definition held_lock :: BridgeProtocol where
  "held_lock = fmupd ''02'' example_lock fmempty"

theorem lock_settles_once_witness:
  "length (filter (settles_lock ''02'') (fst (op_run bridge_exec
     [OpRedeem 50 ''02'' ''01'', OpRefund 200 ''02'', OpRedeem 60 ''02'' ''01''] held_lock))) \<le> 1"
  by (rule lock_settles_once) simp

theorem late_redeem_strands_lock_witness:
  "filter (settles_lock ''02'') (fst (op_run bridge_exec [OpRedeem 111 ''02'' ''01'', OpRefund 200 ''02'', OpRedeem 60 ''02'' ''01''] held_lock)) = []"
  by (rule late_redeem_strands_lock [of _ _ example_lock]) (simp_all add: held_lock_def)

definition example_swap_request :: SwapRequest where
  "example_swap_request = \<lparr>sq_InitiatorChain = ''qsd'', sq_ParticipantChain = ''eth'', sq_InitiatorAsset = ''CELL'', sq_ParticipantAsset = ''ETH'',
     sq_InitiatorAmount = f64_of_nat 5, sq_ParticipantAmount = f64_of_nat 1, sq_InitiatorAddress = ''a'', sq_ParticipantAddress = ''b'', sq_Expiry = 100\<rparr>"

theorem swap_settles_one_way_witness:
  "length (filter (completes ''02'') (fst (op_run swap_exec
      [OpInitiate (Some [1]) (Some [2]) (\<lambda>i. 10) example_swap_request, OpRefundSwap 200 ''02'', OpComplete ''02'' ''01''] NewAtomicSwapProtocol))) \<le> 1 \<and>
    (filter (completes ''02'') (fst (op_run swap_exec
      [OpInitiate (Some [1]) (Some [2]) (\<lambda>i. 10) example_swap_request, OpRefundSwap 200 ''02'', OpComplete ''02'' ''01''] NewAtomicSwapProtocol)) = [] \<or>
     filter (refunds ''02'') (fst (op_run swap_exec
      [OpInitiate (Some [1]) (Some [2]) (\<lambda>i. 10) example_swap_request, OpRefundSwap 200 ''02'', OpComplete ''02'' ''01''] NewAtomicSwapProtocol)) = [])"
  by (rule swap_settles_one_way) (simp add: NewAtomicSwapProtocol_def)

definition blind_codec :: RelayCodec where
  "blind_codec = \<lparr>rc_Event = (\<lambda>b. None), rc_Lock = (\<lambda>b. None), rc_LockID = (\<lambda>b. Some []), rc_Swap = (\<lambda>b. None), rc_SwapID = (\<lambda>b. Some [])\<rparr>"

theorem redeemed_lock_refunded_by_peer_witness:
  "let evt = \<lparr>be_Kind = ''lock_redeemed'', be_Payload = [], be_OriginNode = ''A'', be_Timestamp = []\<rparr>;
       r = \<lparr>pr_bridge = Some held_lock, pr_swap = None\<rparr>
   in pr_bridge (handleRemoteEvent blind_codec evt r) = Some held_lock \<and> fst (RefundAsset 110 ''02'' held_lock) = None"
proof -
  define l where "l = example_lock\<lparr>L_Status := LockStatusRedeemed, L_Secret := ''01''\<rparr>"
  have "RedeemAsset 50 ''02'' ''01'' held_lock = (None, fmupd ''02'' l held_lock)" by (simp add: RedeemAsset_def held_lock_def l_def)
  from redeemed_lock_refunded_by_peer [OF this, of l "\<lambda>x. []" "[]" "''A''" "\<lparr>be_Kind = ''lock_redeemed'', be_Payload = [], be_OriginNode = ''A'', be_Timestamp = []\<rparr>"
      blind_codec "\<lparr>pr_bridge = Some held_lock, pr_swap = None\<rparr>" held_lock example_lock 110]
  show ?thesis by (simp add: PublishLockEvent_def blind_codec_def held_lock_def)
qed

end
