(* ===== verification/BridgeRelayer.thy ===== *)
theory BridgeRelayer
  imports BridgeTheorems
begin

text \<open>
  \<open>pkg/bridge/relayer.go\<close>, \<open>fees.go\<close> and \<open>state.go\<close>: the queue of relay tasks, the fee collector and the saved state of the
  bridge. A chain adapter is outside of the repository: \<open>net i\<close> is the answer of the adapter of a chain to the call for the task at
  position \<open>i\<close> of the queue, \<open>Inl\<close> an error and \<open>Inr\<close> the transaction hash; it is an argument of every poll, so adapters may answer
  differently each time. \<open>conf i\<close> is \<open>ConfirmTransaction\<close> in the same way. The file system is a map from paths to contents,
  \<open>json.MarshalIndent\<close> and \<open>json.Unmarshal\<close> are arguments; decoding into the queue may depend on what is in it and may fail half-way.
  The goroutines that poll, and the simulated adapter, are not modelled.
\<close>

section \<open>Relay tasks\<close>

type_synonym RelayStatus = string

definition RelayPending :: RelayStatus where "RelayPending = ''pending''"
definition RelaySubmitted :: RelayStatus where "RelaySubmitted = ''submitted''"
definition RelayConfirmed :: RelayStatus where "RelayConfirmed = ''confirmed''"
definition RelayFailed :: RelayStatus where "RelayFailed = ''failed''"
definition RelayRetrying :: RelayStatus where "RelayRetrying = ''retrying''"

record RelayTask =
  rt_ID :: string
  rt_Kind :: string
  rt_ChainID :: string
  rt_LockID :: string
  rt_Secret :: string
  rt_TxHash :: string
  rt_Attempts :: int
  rt_MaxRetries :: int
  rt_Status :: RelayStatus
  rt_CreatedAt :: go_time
  rt_LastTryAt :: go_time
  rt_Error :: string
  rt_Nonce :: u64

record Relayer =
  r_adapters :: "string fset"
  r_queue :: "RelayTask list"
  r_nonceTrack :: "(string, u64) fmap"
  r_maxRetries :: int
  r_retryDelay :: int
  r_pollInterval :: int

record RelayerConfig =
  rcfg_MaxRetries :: int
  rcfg_RetryDelay :: int
  rcfg_PollInterval :: int

definition second_ns :: int where "second_ns = 1000000000"


definition NewRelayer :: "RelayerConfig \<Rightarrow> Relayer" where
  "NewRelayer cfg =
     \<lparr>r_adapters = {||}, r_queue = [], r_nonceTrack = fmempty,
      r_maxRetries = (if rcfg_MaxRetries cfg \<le> 0 then 5 else rcfg_MaxRetries cfg),
      r_retryDelay = (if rcfg_RetryDelay cfg \<le> 0 then 10 * second_ns else rcfg_RetryDelay cfg),
      r_pollInterval = (if rcfg_PollInterval cfg \<le> 0 then 5 * second_ns else rcfg_PollInterval cfg)\<rparr>"


definition nonce_of_chain :: "Relayer \<Rightarrow> string \<Rightarrow> u64" where
  "nonce_of_chain r c = (case fmlookup (r_nonceTrack r) c of None \<Rightarrow> 0 | Some n \<Rightarrow> n)"

definition Enqueue :: "go_time \<Rightarrow> RelayTask \<Rightarrow> Relayer \<Rightarrow> Relayer" where
  "Enqueue now t r =
     (let n = nonce_of_chain r (rt_ChainID t);
          t = t\<lparr>rt_Status := RelayPending, rt_CreatedAt := now, rt_MaxRetries := r_maxRetries r, rt_Nonce := n\<rparr>
      in r\<lparr>r_nonceTrack := fmupd (rt_ChainID t) (n + 1) (r_nonceTrack r), r_queue := r_queue r @ [t]\<rparr>)"

definition blank_task :: "string \<Rightarrow> string \<Rightarrow> string \<Rightarrow> string \<Rightarrow> string \<Rightarrow> RelayTask" where
  "blank_task tid kind chain lockID secret =
     \<lparr>rt_ID = tid, rt_Kind = kind, rt_ChainID = chain, rt_LockID = lockID, rt_Secret = secret, rt_TxHash = [], rt_Attempts = 0,
      rt_MaxRetries = 0, rt_Status = [], rt_CreatedAt = 0, rt_LastTryAt = 0, rt_Error = [], rt_Nonce = 0\<rparr>"

definition EnqueueLock :: "clock \<Rightarrow> Lock \<Rightarrow> string \<Rightarrow> Relayer \<Rightarrow> string \<times> Relayer" where
  "EnqueueLock clk lock targetChain r =
     (let tid = ''relay_'' @ L_ID lock @ ''_'' @ show_int (clk 0)
      in (tid, Enqueue (clk 1) (blank_task tid ''lock'' targetChain (L_ID lock) []) r))"


datatype adapter_call = SubmitLock Lock | SubmitRedeem string string | SubmitRefund string

definition zero_lock :: "string \<Rightarrow> Lock" where
  "zero_lock lockID = \<lparr>L_ID = lockID, L_SourceChain = [], L_TargetChain = [], L_Asset = [], L_Amount = fzero, L_Recipient = [],
     L_LockedAt = 0, L_ExpiresAt = 0, L_SecretHash = [], L_Secret = [], L_Status = [], L_TransactionID = []\<rparr>"

definition task_call :: "RelayTask \<Rightarrow> adapter_call option" where
  "task_call t =
     (if rt_Kind t = ''lock'' then Some (SubmitLock (zero_lock (rt_LockID t)))
      else if rt_Kind t = ''redeem'' then Some (SubmitRedeem (rt_LockID t) (rt_Secret t))
      else if rt_Kind t = ''refund'' then Some (SubmitRefund (rt_LockID t))
      else None)"

definition process_task :: "go_time \<Rightarrow> (string \<Rightarrow> adapter_call \<Rightarrow> string + string) \<Rightarrow> string fset \<Rightarrow> RelayTask \<Rightarrow> RelayTask" where
  "process_task now net adapters t =
     (if rt_Status t \<noteq> RelayPending \<and> rt_Status t \<noteq> RelayRetrying then t
      else if rt_ChainID t |\<notin>| adapters then t\<lparr>rt_Status := RelayFailed, rt_Error := ''no adapter for chain '' @ rt_ChainID t\<rparr>
      else
        let t = t\<lparr>rt_Attempts := rt_Attempts t + 1, rt_LastTryAt := now\<rparr>
        in case (case task_call t of None \<Rightarrow> Inl (''unknown task kind: '' @ rt_Kind t) | Some c \<Rightarrow> net (rt_ChainID t) c) of
             Inl e \<Rightarrow> t\<lparr>rt_Error := e, rt_Status := (if rt_Attempts t \<ge> rt_MaxRetries t then RelayFailed else RelayRetrying)\<rparr>
           | Inr txHash \<Rightarrow> t\<lparr>rt_TxHash := txHash, rt_Status := RelaySubmitted, rt_Error := []\<rparr>)"


definition confirm_task :: "(string \<Rightarrow> string \<Rightarrow> bool option) \<Rightarrow> string fset \<Rightarrow> RelayTask \<Rightarrow> RelayTask" where
  "confirm_task conf adapters t =
     (if rt_Status t \<noteq> RelaySubmitted \<or> rt_TxHash t = [] then t
      else if rt_ChainID t |\<notin>| adapters then t
      else case conf (rt_ChainID t) (rt_TxHash t) of None \<Rightarrow> t | Some c \<Rightarrow> if c then t\<lparr>rt_Status := RelayConfirmed\<rparr> else t)"


definition waiting :: "RelayTask \<Rightarrow> bool" where
  "waiting t \<longleftrightarrow> rt_Status t = RelayPending \<or> rt_Status t = RelayRetrying"

definition PendingCount :: "Relayer \<Rightarrow> nat" where
  "PendingCount r = length (filter waiting (r_queue r))"

definition ListRelayTasks :: "Relayer \<Rightarrow> RelayTask list" where
  "ListRelayTasks r = r_queue r"

text \<open>The queue file. \<open>read\<close> is \<open>readFileIfExists\<close>: an error, no file, or the contents. \<open>ok1\<close> and \<open>ok2\<close>: the write and the rename succeed.\<close>

datatype queue_error = QErrMarshal | QErrWrite | QErrRename | QErrRead | QErrUnmarshal

definition relay_writeFileAtomic :: "bool \<Rightarrow> bool \<Rightarrow> string \<Rightarrow> bytes \<Rightarrow> (string, bytes) fmap \<Rightarrow> queue_error option \<times> (string, bytes) fmap" where
  "relay_writeFileAtomic ok1 ok2 path data fs =
     (let tmp = path @ ''.tmp''
      in if \<not> ok1 then (Some QErrWrite, fs)
         else if \<not> ok2 then (Some QErrRename, fmupd tmp data fs)
         else (None, fmupd path data (fmdrop tmp fs)))"

definition SaveQueue ::
    "(RelayTask list \<Rightarrow> bytes option) \<Rightarrow> bool \<Rightarrow> bool \<Rightarrow> string \<Rightarrow> Relayer \<Rightarrow> (string, bytes) fmap \<Rightarrow> queue_error option \<times> (string, bytes) fmap" where
  "SaveQueue marshal ok1 ok2 path r fs =
     (case marshal (r_queue r) of None \<Rightarrow> (Some QErrMarshal, fs) | Some data \<Rightarrow> relay_writeFileAtomic ok1 ok2 path data fs)"

definition LoadQueue ::
    "(RelayTask list \<Rightarrow> bytes \<Rightarrow> bool \<times> RelayTask list) \<Rightarrow> (string \<Rightarrow> unit + bytes option) \<Rightarrow> string \<Rightarrow> Relayer \<Rightarrow> queue_error option \<times> Relayer" where
  "LoadQueue unmarshal read path r =
     (case read path of
        Inl _ \<Rightarrow> (Some QErrRead, r)
      | Inr None \<Rightarrow> (None, r)
      | Inr (Some data) \<Rightarrow>
          if data = [] then (None, r)
          else let (ok, q) = unmarshal (r_queue r) data in (if ok then None else Some QErrUnmarshal, r\<lparr>r_queue := q\<rparr>))"

section \<open>Fees\<close>

record FeeConfig =
  BaseFee :: f64
  PercentageFee :: f64
  MinFee :: f64
  MaxFee :: f64

definition DefaultFeeConfig :: FeeConfig where
  "DefaultFeeConfig = \<lparr>BaseFee = f64_ratio 1 100, PercentageFee = f64_ratio 1 1000, MinFee = f64_ratio 1 100, MaxFee = f64_of_nat 100\<rparr>"

record FeeRecord =
  fr_LockID :: string
  fr_Amount :: f64
  fr_FeeCharged :: f64
  fr_NetAmount :: f64
  fr_Timestamp :: go_time

record FeeCollector =
  fc_config :: FeeConfig
  fc_collected :: "FeeRecord list"
  fc_totalFees :: f64
  fc_distributed :: f64
  fc_recipients :: "(string, f64) fmap"
  fc_balances :: "(string, f64) fmap"

definition NewFeeCollector :: "FeeConfig \<Rightarrow> FeeCollector" where
  "NewFeeCollector cfg = \<lparr>fc_config = cfg, fc_collected = [], fc_totalFees = fzero, fc_distributed = fzero, fc_recipients = fmempty, fc_balances = fmempty\<rparr>"

definition SetFeeConfig :: "FeeConfig \<Rightarrow> FeeCollector \<Rightarrow> FeeCollector" where
  "SetFeeConfig cfg fc = fc\<lparr>fc_config := cfg\<rparr>"

fun sum_shares :: "(string, f64) fmap \<Rightarrow> string list \<Rightarrow> f64 \<Rightarrow> f64 option" where
  "sum_shares m [] tot = Some tot"
| "sum_shares m (k # ks) tot =
     (let share = the (fmlookup m k) in if fless share fzero then None else sum_shares m ks (fadd tot share))"

fun f_abs :: "f64 \<Rightarrow> f64" where
  "f_abs (Fin s m) = Fin False m"
| "f_abs (Inf s) = Inf False"
| "f_abs NaN = NaN"

text \<open>\<open>order\<close> is the iteration order of the argument. \<open>Inl\<close> is one of the two errors.\<close>

definition SetDistribution :: "string list \<Rightarrow> (string, f64) fmap \<Rightarrow> FeeCollector \<Rightarrow> string + FeeCollector" where
  "SetDistribution order recipients fc =
     (case sum_shares recipients order fzero of None \<Rightarrow> Inl ''negative share not allowed''
      | Some tot \<Rightarrow>
          if fless (f64_ratio 1 1000) (f_abs (fsub tot (f64_of_nat 1))) then Inl ''shares must sum to 1.0''
          else Inr (fc\<lparr>fc_recipients := recipients\<rparr>))"

text \<open>\<open>math.Round\<close>: half away from zero.\<close>

fun f_round :: "f64 \<Rightarrow> f64" where
  "f_round (Fin s m) = Fin s ((m + unit_one div 2) div unit_one * unit_one)"
| "f_round x = x"

definition CalculateFee :: "f64 \<Rightarrow> FeeCollector \<Rightarrow> f64" where
  "CalculateFee amount fc =
     (let cfg = fc_config fc;
          fee = fadd (BaseFee cfg) (fmul amount (PercentageFee cfg));
          fee = (if fless fee (MinFee cfg) then MinFee cfg else fee);
          fee = (if fless fzero (MaxFee cfg) \<and> fless (MaxFee cfg) fee then MaxFee cfg else fee)
      in fdiv (f_round (fmul fee (f64_of_nat 100000000))) (f64_of_nat 100000000))"

definition balance_of :: "string \<Rightarrow> FeeCollector \<Rightarrow> f64" where
  "balance_of addr fc = (case fmlookup (fc_balances fc) addr of None \<Rightarrow> fzero | Some b \<Rightarrow> b)"

definition credit_share :: "f64 \<Rightarrow> FeeCollector \<Rightarrow> string \<Rightarrow> FeeCollector" where
  "credit_share fee fc addr =
     fc\<lparr>fc_balances := fmupd addr (fadd (balance_of addr fc) (fmul fee (the (fmlookup (fc_recipients fc) addr)))) (fc_balances fc)\<rparr>"

definition Collect :: "string list \<Rightarrow> go_time \<Rightarrow> string \<Rightarrow> f64 \<Rightarrow> FeeCollector \<Rightarrow> FeeRecord \<times> FeeCollector" where
  "Collect order now lockID amount fc =
     (let fee = CalculateFee amount fc;
          net = fsub amount fee;
          net = (if fless net fzero then fzero else net);
          rec = \<lparr>fr_LockID = lockID, fr_Amount = amount, fr_FeeCharged = fee, fr_NetAmount = net, fr_Timestamp = now\<rparr>;
          fc = fc\<lparr>fc_collected := fc_collected fc @ [rec], fc_totalFees := fadd (fc_totalFees fc) fee\<rparr>
      in (rec, foldl (credit_share fee) fc order))"

definition PendingBalance :: "string \<Rightarrow> FeeCollector \<Rightarrow> f64" where
  "PendingBalance addr fc = balance_of addr fc"

definition Withdraw :: "string \<Rightarrow> FeeCollector \<Rightarrow> f64 \<times> FeeCollector" where
  "Withdraw addr fc =
     (let amt = balance_of addr fc
      in (amt, fc\<lparr>fc_distributed := fadd (fc_distributed fc) amt, fc_balances := fmupd addr fzero (fc_balances fc)\<rparr>))"

definition FeeHistory :: "int \<Rightarrow> FeeCollector \<Rightarrow> FeeRecord list" where
  "FeeHistory limit fc =
     (let n = length (fc_collected fc); l = (if limit \<le> 0 \<or> limit > int n then n else nat limit)
      in map (\<lambda>i. fc_collected fc ! (n - 1 - i)) [0..<l])"

section \<open>Saved state\<close>

record bridgeState =
  bs_Locks :: "(string, Lock) fmap"
  bs_Swaps :: "(string, Swap) fmap"
  bs_SavedAt :: string

record StateCodec =
  sc_Marshal :: "bridgeState \<Rightarrow> bytes option"
  sc_Unmarshal :: "bytes \<Rightarrow> bridgeState option"

type_synonym files = "(string, bytes) fmap"

definition last_good :: "string \<Rightarrow> string" where "last_good path = path @ ''.last-good''"

datatype state_error = ErrMarshal | ErrWriteBackup | ErrWrite | ErrRead | ErrBackupUnavailable | ErrBackupInvalid | ErrRepair

text \<open>The record types of the file have the fields of \<open>Lock\<close> and \<open>Swap\<close>, so a record is the value itself. \<open>ok1\<close> and \<open>ok2\<close> say
  whether the two atomic writes succeed.\<close>

definition SaveState ::
    "StateCodec \<Rightarrow> string \<Rightarrow> bool \<Rightarrow> bool \<Rightarrow> string \<Rightarrow> BridgeProtocol option \<Rightarrow> AtomicSwapProtocol option \<Rightarrow> files \<Rightarrow> state_error option \<times> files" where
  "SaveState codec savedAt ok1 ok2 path bp asp fs =
     (let st = \<lparr>bs_Locks = (case bp of None \<Rightarrow> fmempty | Some b \<Rightarrow> b), bs_Swaps = (case asp of None \<Rightarrow> fmempty | Some a \<Rightarrow> a), bs_SavedAt = savedAt\<rparr>
      in case sc_Marshal codec st of None \<Rightarrow> (Some ErrMarshal, fs)
         | Some data \<Rightarrow>
             if \<not> ok1 then (Some ErrWriteBackup, fs)
             else let fs = fmupd (last_good path) data fs
                  in if \<not> ok2 then (Some ErrWrite, fs) else (None, fmupd path data fs))"

definition load_into :: "bridgeState \<Rightarrow> BridgeProtocol option \<Rightarrow> AtomicSwapProtocol option \<Rightarrow> BridgeProtocol option \<times> AtomicSwapProtocol option" where
  "load_into st bp asp = (map_option (\<lambda>b. b ++\<^sub>f bs_Locks st) bp, map_option (\<lambda>a. a ++\<^sub>f bs_Swaps st) asp)"

text \<open>A missing file is no error. \<open>okr\<close>: the repair of the primary file from the backup succeeds.\<close>

definition LoadState ::
    "StateCodec \<Rightarrow> bool \<Rightarrow> string \<Rightarrow> BridgeProtocol option \<Rightarrow> AtomicSwapProtocol option \<Rightarrow> files \<Rightarrow>
     (state_error + nat \<times> nat) \<times> (BridgeProtocol option \<times> AtomicSwapProtocol option) \<times> files" where
  "LoadState codec okr path bp asp fs =
     (case fmlookup fs path of None \<Rightarrow> (Inr (0, 0), (bp, asp), fs)
      | Some data \<Rightarrow>
          let loaded = (\<lambda>st fs. (Inr (if bp = None then 0 else map_len (bs_Locks st), if asp = None then 0 else map_len (bs_Swaps st)),
                                 load_into st bp asp, fs))
          in case sc_Unmarshal codec data of Some st \<Rightarrow> loaded st fs
             | None \<Rightarrow>
                 (case fmlookup fs (last_good path) of None \<Rightarrow> (Inl ErrBackupUnavailable, (bp, asp), fs)
                  | Some backup \<Rightarrow>
                      (case sc_Unmarshal codec backup of None \<Rightarrow> (Inl ErrBackupInvalid, (bp, asp), fs)
                       | Some st \<Rightarrow> if \<not> okr then (Inl ErrRepair, (bp, asp), fs) else loaded st (fmupd path backup fs))))"


section \<open>Tasks are retried a bounded number of times\<close>

lemma relay_status_distinct [simp]:
  "RelaySubmitted \<noteq> RelayPending" "RelaySubmitted \<noteq> RelayRetrying" "RelayFailed \<noteq> RelayPending" "RelayFailed \<noteq> RelayRetrying"
  "RelayConfirmed \<noteq> RelayPending" "RelayConfirmed \<noteq> RelayRetrying" "RelayPending \<noteq> RelayRetrying"
  by (simp_all add: RelayPending_def RelaySubmitted_def RelayConfirmed_def RelayFailed_def RelayRetrying_def)













lemma process_task_keeps [simp]:
  "rt_ChainID (process_task now net as t) = rt_ChainID t" "rt_Nonce (process_task now net as t) = rt_Nonce t"
  "rt_MaxRetries (process_task now net as t) = rt_MaxRetries t"
  by (simp_all add: process_task_def Let_def split: sum.splits option.splits)

lemma confirm_task_keeps [simp]:
  "rt_ChainID (confirm_task conf as t) = rt_ChainID t" "rt_Nonce (confirm_task conf as t) = rt_Nonce t"
  by (simp_all add: confirm_task_def split: option.splits)
















text \<open>
  Loading a queue does not restore the nonces: after a restart the first task enqueued for a chain gets nonce 0, whatever nonces the
  loaded tasks of that chain carry.
\<close>

theorem reload_restarts_nonces:
  assumes "read path = Inr (Some data)" "data \<noteq> []" "unmarshal [] data = (True, q)"
  shows "\<exists>r. LoadQueue unmarshal read path (NewRelayer cfg) = (None, r) \<and> r_queue r = q \<and>
    rt_Nonce (last (r_queue (Enqueue now t r))) = 0"
  using assms by (simp add: LoadQueue_def NewRelayer_def Enqueue_def nonce_of_chain_def)

text \<open>The lock an adapter is asked to submit has its identifier only: amount, asset, recipient, secret hash and deadline are lost.\<close>

lemma submitted_lock_is_blank:
  assumes "EnqueueLock clk l c r = (tid, r')"
  shows "task_call (last (r_queue r')) = Some (SubmitLock (zero_lock (L_ID l)))"
  using assms by (auto simp: EnqueueLock_def Enqueue_def blank_task_def task_call_def Let_def)

section \<open>Fees\<close>

lemma credit_share_keeps: "fc_collected (credit_share fee fc a) = fc_collected fc" "fc_totalFees (credit_share fee fc a) = fc_totalFees fc"
  by (simp_all add: credit_share_def)

lemma credit_shares_keep:
  "fc_collected (foldl (credit_share fee) fc as) = fc_collected fc" "fc_totalFees (foldl (credit_share fee) fc as) = fc_totalFees fc"
  by (induction as arbitrary: fc) (simp_all add: credit_share_keeps)

text \<open>The running total is the sum of the fees on record, in order; a second withdrawal pays nothing.\<close>

lemma collect_total:
  assumes "fc_totalFees fc = foldl fadd fzero (map fr_FeeCharged (fc_collected fc))"
  shows "fc_totalFees (snd (Collect order now l a fc)) = foldl fadd fzero (map fr_FeeCharged (fc_collected (snd (Collect order now l a fc))))"
  using assms by (simp add: Collect_def Let_def credit_shares_keep)

lemma second_withdrawal_empty: "fst (Withdraw a (snd (Withdraw a fc))) = fzero"
  by (simp add: Withdraw_def balance_of_def Let_def)

section \<open>The saved state\<close>

lemma last_good_other [simp]: "last_good path \<noteq> path"
  by (simp add: last_good_def)

text \<open>
  A bridge state that was saved is loaded by fresh protocols, and it is loaded from the backup, and the primary file repaired, when
  the primary file was replaced by anything the decoder refuses.
\<close>

theorem saved_bridge_state_survives:
  assumes "SaveState codec at' ok1 ok2 path (Some bp) (Some asp) fs = (None, fs')"
    and "\<forall>data. sc_Marshal codec \<lparr>bs_Locks = bp, bs_Swaps = asp, bs_SavedAt = at'\<rparr> = Some data \<longrightarrow>
       sc_Unmarshal codec data = Some \<lparr>bs_Locks = bp, bs_Swaps = asp, bs_SavedAt = at'\<rparr>"
    and "sc_Unmarshal codec garbage = None"
  shows "LoadState codec okr path (Some fmempty) (Some fmempty) fs' = (Inr (map_len bp, map_len asp), (Some bp, Some asp), fs') \<and>
    LoadState codec True path (Some fmempty) (Some fmempty) (fmupd path garbage fs') = (Inr (map_len bp, map_len asp), (Some bp, Some asp), fs')"
proof -
  obtain data where d: "sc_Marshal codec \<lparr>bs_Locks = bp, bs_Swaps = asp, bs_SavedAt = at'\<rparr> = Some data"
      "fs' = fmupd path data (fmupd (last_good path) data fs)"
    using assms(1) by (auto simp: SaveState_def Let_def split: option.splits if_splits)
  then have u: "sc_Unmarshal codec data = Some \<lparr>bs_Locks = bp, bs_Swaps = asp, bs_SavedAt = at'\<rparr>" using assms(2) by blast
  have o: "fmlookup fs' path = Some data" "fmlookup fs' (last_good path) = Some data" using d(2) by simp_all
  have "fmupd path data (fmupd path garbage fs') = fs'" by (intro fmap_ext) (simp add: d(2))
  then show ?thesis using u o assms(3) by (simp add: LoadState_def load_into_def Let_def last_good_other [symmetric])
qed

section \<open>An example\<close>



definition toy_codec :: StateCodec where
  "toy_codec = \<lparr>sc_Marshal = (\<lambda>st. Some [1]), sc_Unmarshal = (\<lambda>b. if b = [1] then Some \<lparr>bs_Locks = held_lock, bs_Swaps = fmempty, bs_SavedAt = ''t''\<rparr> else None)\<rparr>"

theorem saved_bridge_state_survives_witness:
  "LoadState toy_codec True ''f'' (Some fmempty) (Some fmempty) (fmupd ''f'' [9] (fmupd ''f'' [1] (fmupd (last_good ''f'') [1] fmempty))) =
     (Inr (map_len held_lock, map_len (fmempty :: AtomicSwapProtocol)), (Some held_lock, Some fmempty), fmupd ''f'' [1] (fmupd (last_good ''f'') [1] fmempty))"
proof -
  have "SaveState toy_codec ''t'' True True ''f'' (Some held_lock) (Some fmempty) fmempty = (None, fmupd ''f'' [1] (fmupd (last_good ''f'') [1] fmempty))"
    by (simp add: SaveState_def toy_codec_def)
  from saved_bridge_state_survives [OF this, of "[9]"] show ?thesis by (simp add: toy_codec_def)
qed

end
