(* ===== verification/Spec2Isabelle.thy ===== *)
theory Spec2Isabelle
  imports Emission BftTheorems StakingTheorems Finality BlockHash AwareTheorems MiningTheorems BridgeRelayer
begin

text \<open>
  Verification of the core ledger of the QSD node (Go, under \<open>QSDM/source/pkg\<close>; paths below are
  relative to that directory).

  \<^bold>\<open>The program.\<close> A node keeps a chain of blocks and a state. Clients submit transactions to a fee-ordered
  pool; a producer drains the pool, applies each transaction to the state through a \<open>StateApplier\<close> and seals
  the accepted ones into a block; other nodes append that block after replaying it on a clone of their state and
  comparing the state root. A Tendermint-style voting engine gates the sealing. The state consists of an
  account store with \<open>float64\<close> balances, an enrollment registry in which GPU miners lock
  stake in \<open>uint64\<close> dust and lose it to slashers with evidence, governed parameters, and tasks with stakes and reward pools.
  A router dispatches each transaction by its contract id. Miners are paid by an emission schedule, with a difficulty that is retargeted
  and work-sets that are committed to by Merkle roots; their proofs of work are checked by a verifier. A bridge
  locks assets for other chains.

  \<^bold>\<open>Go in HOL.\<close> \<open>Prelude\<close> fixes the conventions: \<open>uint64\<close> is \<open>64 word\<close> and wraps, strings and byte slices are
  lists of characters and bytes, maps are finite maps. A mutex makes an operation atomic, so an
  operation is a function from state to state. Where the block producer and the proof verifier give up a lock in
  the middle of a call, the call is cut there: sealing is \<open>produce_locked\<close> followed by \<open>seal_finish\<close>, an external
  append is \<open>append_check\<close>, \<open>append_replay\<close>, \<open>append_locked\<close> and \<open>append_finish\<close>, each callback is a step of its own, and
  \<open>Verify\<close> is \<open>verify_open\<close>, \<open>verify_check\<close> and \<open>verify_close\<close>. The step relations interleave these parts freely;
  \<open>ProduceBlock\<close>, \<open>TryAppendExternalBlock\<close> and \<open>Verify\<close> are the uninterrupted calls. Operations that use
  two stores with a lock each (the appliers over accounts and another store, \<open>Delegate\<close>, the evidence manager, the BFT executor) are one
  step, and theorems about them are about calls that run one after the other. An error return is an \<open>Inl\<close> or a \<open>Some\<close> of an error value next to the state the code leaves behind,
  so that "an error changes nothing" is a theorem and not a consequence of the encoding. A loop over a Go map takes
  the iteration order as an argument, and the clock is an argument. \<open>Float64\<close> is IEEE binary64 with round to
  nearest even over integers scaled by the smallest denormal; \<open>Sha256\<close> is the computed hash; \<open>GoSort\<close>,
  \<open>GoHeap\<close>, \<open>GoTime\<close> and \<open>Json\<close> are the parts of the standard library the code calls. All definitions
  compute, and the witnesses evaluate them by the simplifier.

  \<^bold>\<open>Parts.\<close>
  \<^item> \<open>Emission\<close> (\<open>chain/emission.go\<close>), \<open>Difficulty\<close> (\<open>mining/difficulty.go\<close>): the closed-form emission query
    equals the sum of the block rewards; retargeting respects its floor and clamp.
  \<^item> \<open>Merkle\<close> (\<open>chain/merkle.go\<close>), \<open>WorkSet\<close> (\<open>mining/epoch.go\<close>): inclusion proofs verify and are binding up to a
    SHA-256 collision; work-set roots do not depend on the order of batches.
  \<^item> \<open>EnrollmentTypes\<close>, \<open>EnrollmentState\<close>, \<open>EnrollmentProofs\<close> (\<open>mining/enrollment\<close>): the registry, its invariant
    (one active node per GPU), listing, accrual and sweeps. The locale \<open>enrollment_registry\<close> is the interface the
    chain relies on, interpreted on \<open>InMemoryState\<close>.
  \<^item> \<open>Accounts\<close> (\<open>chain/account.go\<close>), \<open>EnrollmentApply\<close>, \<open>EnrollmentFlow\<close> (\<open>chain/enrollment_apply.go\<close>,
    \<open>mining_reward.go\<close>): transfers, atomicity of the handlers and conservation of dust in
    ledgers of whole coins.
  \<^item> \<open>ValidatorSet\<close> (\<open>chain/validator.go\<close>), \<open>Consensus\<close>, \<open>Quorum\<close>, \<open>ConsensusProofs\<close>, \<open>ConsensusLive\<close>,
    \<open>Agreement\<close> (\<open>chain/consensus.go\<close>, \<open>consensus_certificate.go\<close>): the engine as a step relation over
    changing validator sets; it refines a write-once register per height, and enough votes commit.
  \<^item> \<open>PolFollower\<close> (\<open>chain/pol_follower.go\<close>): the lock gossip that gates production.
  \<^item> \<open>Transactions\<close>, \<open>Mempool\<close>, \<open>MempoolProofs\<close> (\<open>mempool/mempool.go\<close>), \<open>TxValidator\<close>
    (\<open>chain/poolvalidator.go\<close>): the pool over Go's binary heap, and pre-validation.
  \<^item> \<open>Receipts\<close> (\<open>chain/receipt.go\<close>): the receipt store refines the log of all receipts.
  \<^item> \<open>BlockProducer\<close>, \<open>ChainProofs\<close>, \<open>ChainInvariants\<close>, \<open>ChainTheorems\<close>, \<open>BlockOrder\<close>, \<open>BlockHash\<close>
    (\<open>chain/block.go\<close>, \<open>blockreceipts.go\<close>): production with and without receipts, external append in its two
    critical sections, callbacks and restoration, over an arbitrary applier. A run \<open>bp_run\<close> is labelled with its
    history; the chain is linked and only grows in every run, and the state is the replay of the history. The locale \<open>replay_applier\<close> states what the producer needs of an applier
    (a failed transaction keeps the state, clones copy, restores copy); it is interpreted on the account store.
    The router does not fulfil it; what holds there is in \<open>AwareTheorems\<close>.

  \<^item> \<open>ChainParams\<close>, \<open>Authority\<close>, \<open>GovApply\<close>, \<open>GovProofs\<close>, \<open>GovTheorems\<close> (\<open>governance/chainparams\<close>,
    \<open>chain/gov_apply.go\<close>): staged parameter changes and authority rotations as a state machine; parameters stay in
    bounds, rotations need a majority, changes take effect at their height.
  \<^item> \<open>Slashing\<close>, \<open>SlashProofs\<close>, \<open>SlashTheorems\<close> (\<open>mining/slashing\<close>, \<open>chain/slash_apply.go\<close>), \<open>MiningProof\<close>
    (\<open>mining/proof.go\<close>), \<open>HmacAttest\<close> (\<open>mining/attest/hmac\<close>, \<open>archcheck\<close>), \<open>EvidenceVerifiers\<close>
    (\<open>forgedattest\<close>, \<open>doublemining\<close>, \<open>freshnesscheat\<close>): what an accepted slash takes and pays, and what its evidence shows.
  \<^item> \<open>EdgeSettlement\<close> (\<open>edgepool/settlement.go\<close>), \<open>TaskCatalog\<close>, \<open>TaskState\<close>, \<open>TaskProofs\<close>, \<open>TaskTheorems\<close>
    (\<open>chain/task_catalog.go\<close>, \<open>task_state.go\<close>): stakes, reward pools, submissions and claims; whole coins
    are conserved.
  \<^item> \<open>AwareApplier\<close>, \<open>AwareTheorems\<close> (\<open>chain/enrollment_aware_applier.go\<close>, \<open>wallet_transfer.go\<close>, the hook of
    \<open>internal/v2wiring\<close>): the router a node runs as its applier, over all the appliers above. Rejected transactions change
    nothing, except that a duplicate authority vote is charged; snapshots restore; and producer and replica agree on blocks without
    governance and slash transactions and claims of task rewards, whatever orders their maps are walked in.
  \<^item> \<open>HalfFloat\<close> (\<open>mining/pow/v2/fp16.go\<close>, \<open>fp16_lut.go\<close>), \<open>PowDag\<close> (\<open>mining/dag.go\<close>, \<open>pow.go\<close>, \<open>solver.go\<close>,
    \<open>pow/v2\<close>): half precision conversions are correctly rounded, the tensor step gives one result on every compiler, the two data set
    views agree and the search returns the first good nonce.
  \<^item> \<open>MiningVerifier\<close>, \<open>MiningTheorems\<close> (\<open>mining/verifier.go\<close>): the checks of a submitted proof; a proof is accepted once unless calls
    overlap, and before the attestation fork what the solver returns is accepted.
  \<^item> \<open>Bridge\<close>, \<open>BridgeTheorems\<close>, \<open>BridgeRelayer\<close> (\<open>bridge\<close>): hash-locked transfers, atomic swaps, events of peers, the relayer with its
    queue file, its fees and the state file. The locales \<open>absorbing\<close> and \<open>one_shot\<close> of \<open>Runs\<close> state what makes a lock or a swap settle once; both
    protocols interpret them, and so does the evidence below.
  \<^item> \<open>Staking\<close>, \<open>StakingProofs\<close>, \<open>StakingTheorems\<close> (\<open>chain/staking_ledger.go\<close>, \<open>staking_registry.go\<close>, \<open>validator_sync.go\<close>),
    \<open>Evidence\<close> (\<open>chain/evidence.go\<close>): delegations of whole coins conserve coins, stakes are recomputed from balances, blocks and delegations, and
    evidence of consensus faults slashes once.
  \<^item> \<open>BftExecutor\<close>, \<open>BftNetwork\<close>, \<open>BftTheorems\<close> (\<open>chain/bft_executor.go\<close>, \<open>bft_wire.go\<close>, \<open>bft_pending.go\<close>,
    \<open>bft_presynthetic.go\<close>): the engine driven by gossip and by local rounds, as a step relation \<open>exec_step\<close> that adds arbitrary
    received bytes; the write-once refinement carries over, commits are announced once, and votes received as gossip commit.
  \<^item> \<open>Finality\<close> (\<open>chain/finality.go\<close>): confirmation depths and reorganisations; finalized blocks are not reorganised away.

  \<^bold>\<open>Bounds and fuel.\<close> Loops are structural recursion or have a measure; no result depends on fuel. The nonce search may not end and is a
  \<open>partial_function\<close>; it is proved to return when some nonce meets the target. Go's
  \<open>sort.Slice\<close> is insertion sort up to twelve elements, which is what its callers here need; where more
  elements can occur the order is total and the result is the unique sorted list.

  \<^bold>\<open>Not modelled.\<close> JSON decoding, ML-DSA signatures, SHA3, URL parsing, the shortest rendering of a \<open>float64\<close> and Unicode case
  folding beyond ASCII are arguments (\<open>EnrollCodec\<close>, \<open>GovCodec\<close>, \<open>SlashCodec\<close>, \<open>EvidenceCodec\<close>, \<open>TaskCodec\<close>, \<open>WalletEnv\<close>,
  \<open>UnicodeFns\<close>, \<open>Sha3Fns\<close>, \<open>ProofCodec\<close>, \<open>RelayCodec\<close>, \<open>StateCodec\<close>, \<open>WireEnv\<close>): the theorems hold for every choice. Events and metrics only read the
  state; loading a persisted ledger at startup is left out. Goroutines only call modelled operations on timers.
  Hooks of the producer are function arguments. The API, the dashboard, the miner clients and the command line are
  outside the ledger.
\<close>

end
